(* ===== verification/Verl_Base.thy ===== *)
theory Verl_Base
  imports Complex_Main "HOL-Library.Multiset"
begin

text \<open>
  The prelude of the development: the exceptions the Python code raises, results as sums
  (\<open>Inl\<close> an exception, \<open>Inr\<close> a value), and the facts on lists, multisets of list
  elements and elementwise operations that several components share.
\<close>

section \<open>Exceptions and results\<close>

text \<open>
  One constructor per exception class the modelled code can raise. An \<open>assert\<close> that fails
  is \<open>AssertionError\<close>; the messages are not modelled.
\<close>

datatype py_error =
    AssertionError
  | ValueError
  | IndexError
  | KeyError
  | TypeError
  | ZeroDivisionError
  | NotImplementedError
  | AttributeError
  | RuntimeError

type_synonym 'a result = "py_error + 'a"

named_theorems result_simps "rewriting of results of the modelled code"

text \<open>Sequencing: an exception of the first computation ends the whole computation.\<close>

definition rbind :: "'a result \<Rightarrow> ('a \<Rightarrow> 'b result) \<Rightarrow> 'b result" where
  "rbind m f = (case m of Inl e \<Rightarrow> Inl e | Inr x \<Rightarrow> f x)"

lemma rbind_simps [simp, result_simps]:
  "rbind (Inl e) f = Inl e"
  "rbind (Inr x) f = f x"
  by (simp_all add: rbind_def)

lemma rbind_eq_Inr [result_simps]:
  "rbind m f = Inr y \<longleftrightarrow> (\<exists>x. m = Inr x \<and> f x = Inr y)"
  by (cases m) auto

text \<open>\<open>assert c\<close> and \<open>if not c: raise e\<close>: the rest of the code runs only when \<open>c\<close> holds.\<close>

definition ensure :: "bool \<Rightarrow> py_error \<Rightarrow> 'a result \<Rightarrow> 'a result" where
  "ensure c e m = (if c then m else Inl e)"

lemma ensure_simps [simp, result_simps]:
  "ensure True e m = m"
  "ensure False e m = Inl e"
  by (simp_all add: ensure_def)

lemma ensure_eq_Inr [result_simps]: "ensure c e m = Inr y \<longleftrightarrow> c \<and> m = Inr y"
  by (simp add: ensure_def)

text \<open>The exception a computation ends with, if any.\<close>

definition raised :: "'a result \<Rightarrow> py_error option" where
  "raised m = (case m of Inl e \<Rightarrow> Some e | Inr _ \<Rightarrow> None)"

lemma raised_simps [simp, result_simps]:
  "raised (Inl e) = Some e"
  "raised (Inr x) = None"
  by (simp_all add: raised_def)

lemma raised_None: "raised m = None \<longleftrightarrow> (\<exists>x. m = Inr x)"
  by (cases m) auto

text \<open>A Python list read \<open>xs[i]\<close> with a non-negative index.\<close>

definition py_get :: "'a list \<Rightarrow> nat \<Rightarrow> 'a result" where
  "py_get xs i = (if i < length xs then Inr (xs ! i) else Inl IndexError)"

lemma py_get_in_range [simp]: "i < length xs \<Longrightarrow> py_get xs i = Inr (xs ! i)"
  by (simp add: py_get_def)

text \<open>A loop that appends the result of each step to an output list.\<close>

fun mapM_result :: "('a \<Rightarrow> 'b result) \<Rightarrow> 'a list \<Rightarrow> 'b list result" where
  "mapM_result f [] = Inr []"
| "mapM_result f (x # xs) = rbind (f x) (\<lambda>y. rbind (mapM_result f xs) (\<lambda>ys. Inr (y # ys)))"

lemma mapM_result_Inr: "(\<And>x. x \<in> set xs \<Longrightarrow> f x = Inr (g x)) \<Longrightarrow> mapM_result f xs = Inr (map g xs)"
  by (induction xs) auto

lemma mapM_result_length: "mapM_result f xs = Inr ys \<Longrightarrow> length ys = length xs"
  by (induction xs arbitrary: ys) (auto simp: rbind_eq_Inr)

lemma mapM_result_nth:
  assumes "mapM_result f xs = Inr ys" and "i < length xs"
  shows "f (xs ! i) = Inr (ys ! i)"
  using assms
proof (induction xs arbitrary: ys i)
  case (Cons x xs)
  then show ?case by (cases i) (auto simp: rbind_eq_Inr)
qed simp

lemma mapM_result_all2: "mapM_result f xs = Inr ys \<longleftrightarrow> list_all2 (\<lambda>x y. f x = Inr y) xs ys"
  by (induction xs arbitrary: ys) (auto simp: rbind_eq_Inr list_all2_Cons1)

lemma mapM_result_append:
  "mapM_result f (xs @ ys) = rbind (mapM_result f xs) (\<lambda>us. rbind (mapM_result f ys) (\<lambda>vs. Inr (us @ vs)))"
proof (induction xs)
  case Nil
  then show ?case by (cases "mapM_result f ys") simp_all
next
  case (Cons x xs)
  then show ?case
    by (cases "f x"; cases "mapM_result f xs"; cases "mapM_result f ys") simp_all
qed

lemma mapM_result_concat:
  "mapM_result f (concat xss) = rbind (mapM_result (mapM_result f) xss) (\<lambda>yss. Inr (concat yss))"
proof (induction xss)
  case (Cons xs xss)
  then show ?case
    by (cases "mapM_result f xs"; cases "mapM_result (mapM_result f) xss") (simp_all add: mapM_result_append)
qed simp

lemma mapM_result_raises:
  assumes "x \<in> set xs" and "f x = Inl e" and "\<And>y e'. y \<in> set xs \<Longrightarrow> f y = Inl e' \<Longrightarrow> e' = e"
  shows "mapM_result f xs = Inl e"
  using assms
proof (induction xs)
  case (Cons y xs)
  show ?case
  proof (cases "f y")
    case (Inl e')
    then have "e' = e" by (rule Cons.prems(3) [rotated]) simp
    then show ?thesis using Inl by simp
  next
    case (Inr v)
    then have "x \<in> set xs" using Cons.prems(1,2) by auto
    then have "mapM_result f xs = Inl e"
      by (rule Cons.IH [OF _ Cons.prems(2)]) (erule Cons.prems(3) [OF list.set_intros(2)])
    then show ?thesis using Inr by simp
  qed
qed simp

section \<open>Slices with a step\<close>

text \<open>\<open>xs[::2]\<close> and \<open>xs[1::2]\<close>.\<close>

fun evens :: "'a list \<Rightarrow> 'a list" and odds :: "'a list \<Rightarrow> 'a list" where
  "evens [] = []"
| "evens (x # xs) = x # odds xs"
| "odds [] = []"
| "odds (x # xs) = evens xs"

lemma mset_evens_odds: "mset (evens xs) + mset (odds xs) = mset xs"
  by (induction xs) (auto simp: ac_simps)

text \<open>\<open>xs[lo:hi]\<close> for non-negative bounds.\<close>

definition slice :: "nat \<Rightarrow> nat \<Rightarrow> 'a list \<Rightarrow> 'a list" where
  "slice lo hi xs = take (hi - lo) (drop lo xs)"

text \<open>\<open>[xs[i : i + n] for i in range(0, len(xs), n)]\<close>, for a positive \<open>n\<close>.\<close>

function py_chunks :: "nat \<Rightarrow> 'a list \<Rightarrow> 'a list list" where
  "py_chunks n xs = (if n = 0 \<or> xs = [] then [] else take n xs # py_chunks n (drop n xs))"
  by pat_completeness auto
termination
  by (relation "measure (\<lambda>(n, xs). length xs)") auto

declare py_chunks.simps [simp del]

lemma py_chunks_Nil [simp]: "py_chunks n [] = []"
  by (simp add: py_chunks.simps)

lemma concat_py_chunks: "0 < n \<Longrightarrow> concat (py_chunks n xs) = xs"
proof (induction n xs rule: py_chunks.induct)
  case (1 n xs)
  then show ?case by (cases "xs = []") (auto simp: py_chunks.simps [of n xs])
qed

lemma py_chunks_lengths:
  assumes "0 < n" and "n dvd length xs" and "c \<in> set (py_chunks n xs)"
  shows "length c = n"
  using assms
proof (induction n xs rule: py_chunks.induct)
  case (1 n xs)
  show ?case
  proof (cases "xs = []")
    case True
    with "1.prems" show ?thesis by simp
  next
    case False
    with "1.prems" have n: "n \<le> length xs"
      by (simp add: dvd_imp_le)
    show ?thesis
    proof (cases "c = take n xs")
      case True
      with n show ?thesis by simp
    next
      case c: False
      with False "1.prems" have "c \<in> set (py_chunks n (drop n xs))"
        by (auto simp: py_chunks.simps [of n xs])
      with False "1.prems" n show ?thesis
        by (intro "1.IH") auto
    qed
  qed
qed

section \<open>Permutations of index ranges\<close>

lemma distinct_concat_nth:
  "distinct (concat xss) \<Longrightarrow> i < length xss \<Longrightarrow> j < length xss \<Longrightarrow> i \<noteq> j \<Longrightarrow>
   set (xss ! i) \<inter> set (xss ! j) = {}"
proof (induction xss arbitrary: i j)
  case (Cons xs xss)
  then show ?case
    by (cases i; cases j) (fastforce simp: in_set_conv_nth)+
qed simp

lemma mset_concat: "mset (concat xss) = sum_list (map mset xss)"
  by (induction xss) auto

lemma mset_concat_mset_eq:
  "mset xss = mset yss \<Longrightarrow> mset (concat xss) = mset (concat yss)"
  by (metis mset_concat mset_map sum_mset_sum_list)

lemma mset_upt_perm:
  assumes "mset xs = mset [0..<n]"
  shows "distinct xs" and "set xs = {..<n}" and "length xs = n"
proof -
  show "distinct xs" using assms by (metis distinct_upt mset_eq_imp_distinct_iff)
  from assms have "set xs = set [0..<n]" by (rule mset_eq_setD)
  then show "set xs = {..<n}" by (simp add: atLeast0LessThan)
  show "length xs = n" using mset_eq_length [OF assms] by simp
qed

lemma sum_list_map_mset:
  "mset xs = mset ys \<Longrightarrow> sum_list (map f xs) = (sum_list (map f ys) :: 'a :: comm_monoid_add)"
  by (metis mset_map sum_mset_sum_list)

lemma sum_list_concat: "sum_list (concat xss) = sum_list (map sum_list xss)"
  by (induction xss) auto

lemma length_concat_same:
  "(\<And>xs. xs \<in> set xss \<Longrightarrow> length xs = m) \<Longrightarrow> length (concat xss) = length xss * m"
  by (induction xss) auto

section \<open>Elementwise operations\<close>

text \<open>
  A tensor of shape \<open>(n,)\<close> is a list, one of shape \<open>(bs, len)\<close> the list of its rows. An
  elementwise operation of two tensors of one shape is \<open>map2\<close> on the rows.
\<close>

type_synonym vec = "real list"
type_synonym mat = "real list list"

definition same_shape :: "'a list list \<Rightarrow> 'b list list \<Rightarrow> bool" where
  "same_shape A B \<longleftrightarrow> map length A = map length B"

definition ew2 :: "('a \<Rightarrow> 'b \<Rightarrow> 'c) \<Rightarrow> 'a list list \<Rightarrow> 'b list list \<Rightarrow> 'c list list" where
  "ew2 f A B = map2 (map2 f) A B"

definition ew3 ::
  "('a \<Rightarrow> 'b \<Rightarrow> 'c \<Rightarrow> 'd) \<Rightarrow> 'a list list \<Rightarrow> 'b list list \<Rightarrow> 'c list list \<Rightarrow> 'd list list" where
  "ew3 f A B C = ew2 (\<lambda>g c. g c) (ew2 f A B) C"

definition mat_sum :: "mat \<Rightarrow> real" where
  "mat_sum A = sum_list (map sum_list A)"

lemma map2_map_map: "map2 f (map g xs) (map h xs) = map (\<lambda>x. f (g x) (h x)) xs"
  by (induction xs) auto

lemma same_shape_length: "same_shape A B \<Longrightarrow> length A = length B"
  unfolding same_shape_def by (rule map_eq_imp_length_eq)

lemma same_shape_nth: "same_shape A B \<Longrightarrow> i < length A \<Longrightarrow> length (A ! i) = length (B ! i)"
  unfolding same_shape_def by (metis length_map nth_map)

lemma length_ew2 [simp]: "length (ew2 f A B) = min (length A) (length B)"
  by (simp add: ew2_def)

lemma ew2_nth: "i < length A \<Longrightarrow> i < length B \<Longrightarrow> ew2 f A B ! i = map2 f (A ! i) (B ! i)"
  by (simp add: ew2_def)

lemma sum_list_map2_scale:
  "sum_list (map2 (\<lambda>x m. c * x * m) xs ms) = (c :: real) * sum_list (map2 (*) xs ms)"
proof (induction xs arbitrary: ms)
  case (Cons x xs)
  then show ?case by (cases ms) (auto simp: algebra_simps)
qed simp

lemma sum_list_map2_mono:
  assumes "length xs = length ys" "length ys = length zs"
    and "\<And>i. i < length xs \<Longrightarrow> f (xs ! i) (ys ! i) \<le> (g (zs ! i) :: real)"
  shows "sum_list (map2 f xs ys) \<le> sum_list (map g zs)"
  using assms
proof (induction xs ys zs rule: list_induct3)
  case (Cons x xs y ys z zs)
  from Cons.prems [of 0] have "f x y \<le> g z" by simp
  moreover have "sum_list (map2 f xs ys) \<le> sum_list (map g zs)"
    using Cons.prems [of "Suc i" for i] by (intro Cons.IH) auto
  ultimately show ?case by simp
qed simp

end
