(* ===== verification/Heapq.thy ===== *)
theory Heapq
  imports Verl_Base
begin

text \<open>
  The priority queue of Python's \<open>heapq\<close> module, which the partitioner uses: a binary heap
  in a list, ordered by the elements' own \<open>__lt__\<close>. The interface is a locale (what a
  client may rely on: the elements are kept, \<open>pop\<close> returns a least one); the functions
  below follow the module's \<open>heappush\<close> and \<open>heappop\<close>, and the interpretation at the end
  proves that they satisfy the interface for every strict weak order.
\<close>

section \<open>Orders given by a less-than method\<close>

locale strict_weak_order =
  fixes lt :: "'a \<Rightarrow> 'a \<Rightarrow> bool"
  assumes lt_irrefl: "\<not> lt x x"
    and lt_trans: "lt x y \<Longrightarrow> lt y z \<Longrightarrow> lt x z"
    and lt_neg_trans: "\<not> lt x y \<Longrightarrow> \<not> lt y z \<Longrightarrow> \<not> lt x z"
begin

lemma lt_asym: "lt x y \<Longrightarrow> \<not> lt y x"
  using lt_irrefl lt_trans by blast

end

section \<open>The interface\<close>

locale priority_queue = strict_weak_order lt
  for lt :: "'a \<Rightarrow> 'a \<Rightarrow> bool" +
  fixes empty :: 'q
    and push :: "'a \<Rightarrow> 'q \<Rightarrow> 'q"
    and pop :: "'q \<Rightarrow> ('a \<times> 'q) option"
    and elems :: "'q \<Rightarrow> 'a multiset"
    and invar :: "'q \<Rightarrow> bool"
  assumes elems_empty: "elems empty = {#}"
    and invar_empty: "invar empty"
    and elems_push: "elems (push x q) = add_mset x (elems q)"
    and invar_push: "invar q \<Longrightarrow> invar (push x q)"
    and pop_None: "pop q = None \<longleftrightarrow> elems q = {#}"
    and elems_pop: "pop q = Some (x, q') \<Longrightarrow> elems q = add_mset x (elems q')"
    and invar_pop: "invar q \<Longrightarrow> pop q = Some (x, q') \<Longrightarrow> invar q'"
    and pop_least: "invar q \<Longrightarrow> pop q = Some (x, q') \<Longrightarrow> y \<in># elems q \<Longrightarrow> \<not> lt y x"
begin

lemma elems_push_all: "elems (foldl (\<lambda>q x. push x q) q xs) = elems q + mset xs"
  by (induction xs arbitrary: q) (auto simp: elems_push)

lemma invar_push_all: "invar q \<Longrightarrow> invar (foldl (\<lambda>q x. push x q) q xs)"
  by (induction xs arbitrary: q) (auto simp: invar_push)

lemma pop_Some: "elems q \<noteq> {#} \<Longrightarrow> \<exists>x q'. pop q = Some (x, q')"
  using pop_None by (cases "pop q") auto

text \<open>Two successive pops return the two least elements, the least one first.\<close>

lemma pop_two:
  assumes "invar q" and "pop q = Some (x, q')" and "pop q' = Some (y, q'')"
  shows "elems q = add_mset x (add_mset y (elems q''))" and "\<not> lt y x"
    and "z \<in># elems q'' \<Longrightarrow> \<not> lt z y" and "invar q''"
proof -
  show e: "elems q = add_mset x (add_mset y (elems q''))"
    using elems_pop assms(2,3) by simp
  show "\<not> lt y x" using pop_least [OF assms(1,2), of y] e by simp
  have q': "invar q'" using assms(1,2) by (rule invar_pop)
  then show "z \<in># elems q'' \<Longrightarrow> \<not> lt z y"
    using pop_least [OF q' assms(3), of z] elems_pop [OF assms(3)] by simp
  show "invar q''" using q' assms(3) by (rule invar_pop)
qed

end

section \<open>heapq's list operations\<close>

definition swap :: "'a list \<Rightarrow> nat \<Rightarrow> nat \<Rightarrow> 'a list" where
  "swap h i j = h[i := h ! j, j := h ! i]"

text \<open>\<open>_siftdown\<close>: move the element at \<open>pos\<close> towards the root while it is less than its parent.\<close>

fun siftdown :: "('a \<Rightarrow> 'a \<Rightarrow> bool) \<Rightarrow> 'a list \<Rightarrow> nat \<Rightarrow> 'a list" where
  "siftdown lt h pos =
     (if 0 < pos \<and> lt (h ! pos) (h ! ((pos - 1) div 2))
      then siftdown lt (swap h pos ((pos - 1) div 2)) ((pos - 1) div 2) else h)"

declare siftdown.simps [simp del]

text \<open>
  The first half of \<open>_siftup\<close>: bring the smaller child up until a leaf is reached. The second
  half sifts the displaced element back up.
\<close>

function descend :: "('a \<Rightarrow> 'a \<Rightarrow> bool) \<Rightarrow> 'a list \<Rightarrow> nat \<Rightarrow> 'a list \<times> nat" where
  "descend lt h pos =
     (if 2 * pos + 1 < length h
      then (let c = (if 2 * pos + 2 < length h \<and> \<not> lt (h ! (2 * pos + 1)) (h ! (2 * pos + 2))
                     then 2 * pos + 2 else 2 * pos + 1)
            in descend lt (swap h pos c) c)
      else (h, pos))"
  by pat_completeness auto
termination
  by (relation "measure (\<lambda>(lt, h, pos). length h - pos)") (auto simp: swap_def Let_def)

declare descend.simps [simp del]

definition siftup :: "('a \<Rightarrow> 'a \<Rightarrow> bool) \<Rightarrow> 'a list \<Rightarrow> nat \<Rightarrow> 'a list" where
  "siftup lt h pos = (case descend lt h pos of (h', p) \<Rightarrow> siftdown lt h' p)"

definition heappush :: "('a \<Rightarrow> 'a \<Rightarrow> bool) \<Rightarrow> 'a \<Rightarrow> 'a list \<Rightarrow> 'a list" where
  "heappush lt x h = siftdown lt (h @ [x]) (length h)"

definition heappop :: "('a \<Rightarrow> 'a \<Rightarrow> bool) \<Rightarrow> 'a list \<Rightarrow> ('a \<times> 'a list) option" where
  "heappop lt h =
     (if h = [] then None
      else if butlast h = [] then Some (last h, [])
      else Some (hd (butlast h), siftup lt ((butlast h)[0 := last h]) 0))"

subsection \<open>The elements are kept\<close>

lemma length_swap [simp]: "length (swap h i j) = length h"
  by (simp add: swap_def)

lemma swap_nth:
  "i < length h \<Longrightarrow> j < length h \<Longrightarrow> k < length h \<Longrightarrow>
   swap h i j ! k = (if k = j then h ! i else if k = i then h ! j else h ! k)"
  by (simp add: swap_def nth_list_update)

lemma mset_swap_heap [simp]: "i < length h \<Longrightarrow> j < length h \<Longrightarrow> mset (swap h i j) = mset h"
  by (simp add: swap_def mset_swap)

lemma parent_less: "0 < (i :: nat) \<Longrightarrow> (i - 1) div 2 < i"
  by linarith

lemma siftdown_mset: "pos < length h \<Longrightarrow> mset (siftdown lt h pos) = mset h"
proof (induction lt h pos rule: siftdown.induct)
  case (1 lt h pos)
  show ?case
  proof (cases "0 < pos \<and> lt (h ! pos) (h ! ((pos - 1) div 2))")
    case True
    then have "(pos - 1) div 2 < length h" using "1.prems" parent_less [of pos] by linarith
    with True 1 show ?thesis by (simp add: siftdown.simps [of lt h pos])
  next
    case False
    then have "siftdown lt h pos = h" by (auto simp: siftdown.simps [of lt h pos])
    then show ?thesis by simp
  qed
qed

lemma descend_facts:
  "pos < length h \<Longrightarrow> descend lt h pos = (h', p) \<Longrightarrow> mset h' = mset h \<and> p < length h'"
proof (induction lt h pos arbitrary: h' p rule: descend.induct)
  case (1 lt h pos)
  show ?case
  proof (cases "2 * pos + 1 < length h")
    case True
    define c where "c = (if 2 * pos + 2 < length h \<and> \<not> lt (h ! (2 * pos + 1)) (h ! (2 * pos + 2))
                     then 2 * pos + 2 else 2 * pos + 1)"
    have c: "c < length h" using True by (simp add: c_def)
    from True "1.prems"(2) have "descend lt (swap h pos c) c = (h', p)"
      by (subst (asm) descend.simps) (simp add: c_def Let_def)
    then have "mset h' = mset (swap h pos c) \<and> p < length h'"
      using c by (intro "1.IH" [OF True c_def]) simp_all
    with c "1.prems"(1) show ?thesis by simp
  next
    case False
    then have "descend lt h pos = (h, pos)" by (simp add: descend.simps [of lt h pos])
    with "1.prems" show ?thesis by simp
  qed
qed

lemma siftup_mset: "pos < length h \<Longrightarrow> mset (siftup lt h pos) = mset h"
  using descend_facts [of pos h lt] by (auto simp: siftup_def siftdown_mset split: prod.splits)

lemma heappush_mset: "mset (heappush lt x h) = add_mset x (mset h)"
  by (simp add: heappush_def siftdown_mset)

lemma heappop_None: "heappop lt h = None \<longleftrightarrow> h = []"
  by (simp add: heappop_def)

lemma heappop_mset:
  assumes "heappop lt h = Some (x, h')"
  shows "mset h = add_mset x (mset h')"
proof -
  from assms have "h \<noteq> []" by (auto simp: heappop_def)
  then have h: "mset h = add_mset (last h) (mset (butlast h))"
    by (metis append_butlast_last_id mset_append add_mset_add_single mset_single_iff)
  show ?thesis
  proof (cases "butlast h")
    case Nil
    with assms h show ?thesis by (auto simp: heappop_def split: if_splits)
  next
    case (Cons y ys)
    with assms h show ?thesis by (auto simp: heappop_def siftup_mset split: if_splits)
  qed
qed

lemma heappush_length: "length (heappush lt x h) = Suc (length h)"
  using heappush_mset [of lt x h] by (metis size_add_mset size_mset)

lemma heappop_length: "heappop lt h = Some (x, h') \<Longrightarrow> length h = Suc (length h')"
  using heappop_mset [of lt h x h'] by (metis size_add_mset size_mset)

subsection \<open>The heap invariant\<close>

definition is_heap :: "('a \<Rightarrow> 'a \<Rightarrow> bool) \<Rightarrow> 'a list \<Rightarrow> bool" where
  "is_heap lt h \<longleftrightarrow> (\<forall>i. 0 < i \<and> i < length h \<longrightarrow> \<not> lt (h ! i) (h ! ((i - 1) div 2)))"

text \<open>A heap except that the element at \<open>p\<close> may be less than its parent.\<close>

definition up_hole :: "('a \<Rightarrow> 'a \<Rightarrow> bool) \<Rightarrow> 'a list \<Rightarrow> nat \<Rightarrow> bool" where
  "up_hole lt h p \<longleftrightarrow>
     (\<forall>i. 0 < i \<and> i < length h \<and> i \<noteq> p \<longrightarrow> \<not> lt (h ! i) (h ! ((i - 1) div 2))) \<and>
     (\<forall>i. 0 < i \<and> i < length h \<and> (i - 1) div 2 = p \<and> 0 < p \<longrightarrow>
          \<not> lt (h ! i) (h ! ((p - 1) div 2)))"

text \<open>A heap except that the element at \<open>p\<close> may compare in any way with its neighbours.\<close>

definition any_hole :: "('a \<Rightarrow> 'a \<Rightarrow> bool) \<Rightarrow> 'a list \<Rightarrow> nat \<Rightarrow> bool" where
  "any_hole lt h p \<longleftrightarrow>
     (\<forall>i. 0 < i \<and> i < length h \<and> i \<noteq> p \<and> (i - 1) div 2 \<noteq> p \<longrightarrow>
          \<not> lt (h ! i) (h ! ((i - 1) div 2))) \<and>
     (\<forall>i. 0 < i \<and> i < length h \<and> (i - 1) div 2 = p \<and> 0 < p \<longrightarrow>
          \<not> lt (h ! i) (h ! ((p - 1) div 2)))"

context strict_weak_order begin

lemma up_hole_step:
  assumes u: "up_hole lt h p" and p: "0 < p" "p < length h"
    and less: "lt (h ! p) (h ! ((p - 1) div 2))"
  shows "up_hole lt (swap h p ((p - 1) div 2)) ((p - 1) div 2)"
proof -
  define q where "q = (p - 1) div 2"
  have q: "q < p" "q < length h" using p unfolding q_def by linarith+
  have edge: "\<And>i. 0 < i \<Longrightarrow> i < length h \<Longrightarrow> i \<noteq> p \<Longrightarrow> \<not> lt (h ! i) (h ! ((i - 1) div 2))"
    and kids: "\<And>i. 0 < i \<Longrightarrow> i < length h \<Longrightarrow> (i - 1) div 2 = p \<Longrightarrow> \<not> lt (h ! i) (h ! q)"
    using u p unfolding up_hole_def q_def by auto
  have sw: "\<And>k. k < length h \<Longrightarrow>
      swap h p q ! k = (if k = q then h ! p else if k = p then h ! q else h ! k)"
    using p q by (simp add: swap_nth)
  have "\<not> lt (swap h p q ! i) (swap h p q ! ((i - 1) div 2))"
    if i: "0 < i" "i < length h" "i \<noteq> q" for i
  proof -
    have par: "(i - 1) div 2 < i" "(i - 1) div 2 < length h" using i by linarith+
    consider (p) "i = p" | (kid) "i \<noteq> p" "(i - 1) div 2 = p" | (sib) "i \<noteq> p" "(i - 1) div 2 = q"
      | (other) "i \<noteq> p" "(i - 1) div 2 \<noteq> p" "(i - 1) div 2 \<noteq> q" by blast
    then show ?thesis
    proof cases
      case p
      then show ?thesis using sw i par q less lt_asym unfolding q_def by auto
    next
      case kid
      then show ?thesis using sw i par q kids by auto
    next
      case sib
      then have "\<not> lt (h ! i) (h ! q)" using edge [of i] i by auto
      then have "\<not> lt (h ! i) (h ! p)" using less lt_trans unfolding q_def by blast
      then show ?thesis using sw i par q sib by auto
    next
      case other
      then show ?thesis using sw [of i] sw [of "(i - 1) div 2"] i par edge [of i] by auto
    qed
  qed
  moreover have "\<not> lt (swap h p q ! i) (swap h p q ! ((q - 1) div 2))"
    if i: "0 < i" "i < length h" "(i - 1) div 2 = q" "0 < q" for i
  proof -
    have r: "(q - 1) div 2 < q" "(q - 1) div 2 < length h" using i q by linarith+
    have up: "\<not> lt (h ! q) (h ! ((q - 1) div 2))" using edge [of q] i q by auto
    have iq: "i \<noteq> q" using i by linarith
    have top: "swap h p q ! ((q - 1) div 2) = h ! ((q - 1) div 2)"
      using sw [OF r(2)] r q by auto
    show ?thesis
    proof (cases "i = p")
      case True
      then show ?thesis using sw [of p] p q up top by auto
    next
      case False
      then have "\<not> lt (h ! i) (h ! q)" using edge [of i] i by simp
      then have "\<not> lt (h ! i) (h ! ((q - 1) div 2))" using up by (rule lt_neg_trans)
      then show ?thesis using sw [of i] False iq i top by simp
    qed
  qed
  ultimately show ?thesis unfolding up_hole_def q_def by simp
qed


lemma siftdown_heap: "up_hole lt h p \<Longrightarrow> p < length h \<Longrightarrow> is_heap lt (siftdown lt h p)"
proof (induction p arbitrary: h rule: less_induct)
  case (less p)
  show ?case
  proof (cases "0 < p \<and> lt (h ! p) (h ! ((p - 1) div 2))")
    case True
    have q: "(p - 1) div 2 < p" using True by linarith
    have "is_heap lt (siftdown lt (swap h p ((p - 1) div 2)) ((p - 1) div 2))"
      using True less.prems q up_hole_step by (intro less.IH) auto
    with True show ?thesis by (simp add: siftdown.simps [of lt h p])
  next
    case False
    then have "siftdown lt h p = h" by (auto simp: siftdown.simps [of lt h p])
    moreover have "is_heap lt h"
      using less.prems False unfolding up_hole_def is_heap_def by blast
    ultimately show ?thesis by simp
  qed
qed

lemma any_hole_step:
  assumes a: "any_hole lt h p" and c: "c < length h" "(c - 1) div 2 = p" "0 < c"
    and least: "\<And>i. 0 < i \<Longrightarrow> i < length h \<Longrightarrow> (i - 1) div 2 = p \<Longrightarrow> \<not> lt (h ! i) (h ! c)"
  shows "any_hole lt (swap h p c) c"
proof -
  have p: "p < c" "p < length h" using c by linarith+
  have sw: "\<And>k. k < length h \<Longrightarrow>
      swap h p c ! k = (if k = c then h ! p else if k = p then h ! c else h ! k)"
    using p c by (simp add: swap_nth)
  have edge: "\<And>i. 0 < i \<Longrightarrow> i < length h \<Longrightarrow> i \<noteq> p \<Longrightarrow> (i - 1) div 2 \<noteq> p \<Longrightarrow>
        \<not> lt (h ! i) (h ! ((i - 1) div 2))"
    and kids: "\<And>i. 0 < i \<Longrightarrow> i < length h \<Longrightarrow> (i - 1) div 2 = p \<Longrightarrow> 0 < p \<Longrightarrow>
        \<not> lt (h ! i) (h ! ((p - 1) div 2))"
    using a unfolding any_hole_def by auto
  have "\<not> lt (swap h p c ! i) (swap h p c ! ((i - 1) div 2))"
    if i: "0 < i" "i < length h" "i \<noteq> c" "(i - 1) div 2 \<noteq> c" for i
  proof -
    have par: "(i - 1) div 2 < i" "(i - 1) div 2 < length h" using i by linarith+
    consider (p) "i = p" | (kid) "i \<noteq> p" "(i - 1) div 2 = p"
      | (other) "i \<noteq> p" "(i - 1) div 2 \<noteq> p" by blast
    then show ?thesis
    proof cases
      case p
      then show ?thesis using sw [of i] sw [of "(i - 1) div 2"] i par c kids [of c] by simp
    next
      case kid
      then show ?thesis using sw [of i] sw [of "(i - 1) div 2"] i par least [of i] by simp
    next
      case other
      then show ?thesis using sw [of i] sw [of "(i - 1) div 2"] i par edge [of i] by simp
    qed
  qed
  moreover have "\<not> lt (swap h p c ! i) (swap h p c ! ((c - 1) div 2))"
    if i: "0 < i" "i < length h" "(i - 1) div 2 = c" for i
  proof -
    have "c < i" using i by linarith
    then show ?thesis using sw [of i] sw [of p] p i c edge [of i] by simp
  qed
  ultimately show ?thesis unfolding any_hole_def by simp
qed

lemma descend_up_hole:
  "any_hole lt h p \<Longrightarrow> p < length h \<Longrightarrow> descend lt h p = (h', q) \<Longrightarrow> up_hole lt h' q"
proof (induction "length h - p" arbitrary: h p rule: less_induct)
  case less
  show ?case
  proof (cases "2 * p + 1 < length h")
    case True
    define c where "c = (if 2 * p + 2 < length h \<and> \<not> lt (h ! (2 * p + 1)) (h ! (2 * p + 2))
                     then 2 * p + 2 else 2 * p + 1)"
    have c: "c < length h" "(c - 1) div 2 = p" "0 < c" "p < c" using True by (auto simp: c_def)
    have step: "descend lt (swap h p c) c = (h', q)"
      using less.prems(3) True by (simp add: descend.simps [of lt h p] c_def Let_def)
    have "\<not> lt (h ! i) (h ! c)" if i: "0 < i" "i < length h" "(i - 1) div 2 = p" for i
    proof -
      have "i = 2 * p + 1 \<or> i = 2 * p + 2" using i by linarith
      then show ?thesis using i lt_irrefl lt_asym by (auto simp: c_def)
    qed
    then have "any_hole lt (swap h p c) c"
      using less.prems(1) c by (intro any_hole_step) auto
    then show ?thesis
      using less.hyps [of "swap h p c" c] c step by simp
  next
    case False
    then have "h' = h" "q = p" using less.prems(3) by (simp_all add: descend.simps [of lt h p])
    moreover have "(i - 1) div 2 \<noteq> p" if "0 < i" "i < length h" for i
      using that False by linarith
    ultimately show ?thesis
      using less.prems(1) unfolding any_hole_def up_hole_def by blast
  qed
qed

lemma heap_root_least: "is_heap lt h \<Longrightarrow> i < length h \<Longrightarrow> \<not> lt (h ! i) (h ! 0)"
proof (induction i rule: less_induct)
  case (less i)
  show ?case
  proof (cases "i = 0")
    case False
    then have q: "(i - 1) div 2 < i" by linarith
    with less have "\<not> lt (h ! ((i - 1) div 2)) (h ! 0)" by simp
    moreover have "\<not> lt (h ! i) (h ! ((i - 1) div 2))"
      using less.prems False unfolding is_heap_def by blast
    ultimately show ?thesis using lt_neg_trans by blast
  qed (simp add: lt_irrefl)
qed

lemma heappush_heap:
  assumes "is_heap lt h"
  shows "is_heap lt (heappush lt x h)"
proof -
  have "up_hole lt (h @ [x]) (length h)"
    unfolding up_hole_def
  proof (intro conjI allI impI)
    fix i
    assume i: "0 < i \<and> i < length (h @ [x]) \<and> i \<noteq> length h"
    then have "(i - 1) div 2 < length h" by (simp, linarith)
    then show "\<not> lt ((h @ [x]) ! i) ((h @ [x]) ! ((i - 1) div 2))"
      using assms i unfolding is_heap_def by (auto simp: nth_append)
  next
    fix i
    assume i: "0 < i \<and> i < length (h @ [x]) \<and> (i - 1) div 2 = length h \<and> 0 < length h"
    then have False by (simp, linarith)
    then show "\<not> lt ((h @ [x]) ! i) ((h @ [x]) ! ((length h - 1) div 2))" by simp
  qed
  then show ?thesis by (simp add: heappush_def siftdown_heap)
qed

lemma heappop_heap:
  assumes "is_heap lt h" and "heappop lt h = Some (x, h')"
  shows "is_heap lt h'"
proof (cases "h = [] \<or> butlast h = []")
  case True
  with assms(2) show ?thesis by (auto simp: heappop_def is_heap_def split: if_splits)
next
  case False
  define g where "g = (butlast h)[0 := last h]"
  obtain g' q where d: "descend lt g 0 = (g', q)" by fastforce
  from assms(2) False have h': "h' = siftdown lt g' q"
    by (auto simp: heappop_def siftup_def g_def [symmetric] d)
  have g: "0 < length g" using False unfolding g_def by (metis length_greater_0_conv length_list_update)
  have "any_hole lt g 0"
    using assms(1) unfolding any_hole_def is_heap_def g_def
    by (auto simp: nth_butlast nth_list_update)
  then show ?thesis
    using descend_up_hole [OF _ g d] descend_facts [OF g d] siftdown_heap h' by simp
qed

lemma heappop_least:
  assumes "is_heap lt h" and "heappop lt h = Some (x, h')" and "y \<in> set h"
  shows "\<not> lt y x"
proof -
  have "x = h ! 0"
    using assms(2) by (cases h rule: rev_cases)
      (auto simp: heappop_def hd_conv_nth nth_append split: if_splits)
  with assms(1,3) show ?thesis using heap_root_least by (auto simp: in_set_conv_nth)
qed

end

section \<open>The list operations satisfy the interface\<close>

sublocale strict_weak_order \<subseteq> heapq: priority_queue lt "[]" "heappush lt" "heappop lt" mset "is_heap lt"
proof unfold_locales
  show "is_heap lt []" by (simp add: is_heap_def)
  show "\<not> lt y x" if "is_heap lt q" "heappop lt q = Some (x, q')" "y \<in># mset q" for q x q' y
    using heappop_least [OF that(1,2)] that(3) by simp
qed (simp_all add: heappush_mset heappush_heap heappop_None heappop_mset heappop_heap)

end
