(* ===== verification/Karmarkar_Karp.thy ===== *)
theory Karmarkar_Karp
  imports Heapq "HOL-Library.Product_Lexorder" "HOL-Library.List_Lexorder"
begin

text \<open>
  \<open>karmarkar_karp\<close> of \<open>src/verl/utils/seqlen_balancing.py\<close>: the largest differencing method
  that distributes sequences over data-parallel ranks and micro-batches. The classes \<open>Set\<close> and
  \<open>State\<close> are the datatype \<open>kk_set\<close> and the record \<open>kstate\<close>, their \<open>__lt__\<close> methods are an
  instance of \<open>linorder\<close> and the function \<open>state_lt\<close>; the queue \<open>states_pq\<close> is the heap of the
  theory \<open>Heapq\<close>. Values are unbounded integers, the number of partitions is a natural number.
  The lemmas show what every merge keeps: the items, the sums, the decreasing order, the number
  of non-empty sets and the bound on the spread.
\<close>

section \<open>The class Set\<close>

datatype kk_set = KSet (set_sum: int) (set_items: "(nat \<times> int) list")

definition set_init :: kk_set where
  "set_init = KSet 0 []"

definition set_add :: "kk_set \<Rightarrow> nat \<Rightarrow> int \<Rightarrow> kk_set" where
  "set_add s idx val = KSet (set_sum s + val) (set_items s @ [(idx, val)])"

definition set_merge :: "kk_set \<Rightarrow> kk_set \<Rightarrow> kk_set" where
  "set_merge s other = foldl (\<lambda>t (idx, val). set_add t idx val) s (set_items other)"

text \<open>\<open>__lt__\<close>: the sum, then the number of items, then the items themselves.\<close>

definition set_lt :: "kk_set \<Rightarrow> kk_set \<Rightarrow> bool" where
  "set_lt s t =
     (if set_sum s \<noteq> set_sum t then set_sum s < set_sum t
      else if length (set_items s) \<noteq> length (set_items t)
      then length (set_items s) < length (set_items t)
      else set_items s < set_items t)"

instantiation kk_set :: linorder
begin

definition less_kk_set :: "kk_set \<Rightarrow> kk_set \<Rightarrow> bool" where
  "s < t \<longleftrightarrow> set_lt s t"

definition less_eq_kk_set :: "kk_set \<Rightarrow> kk_set \<Rightarrow> bool" where
  "s \<le> t \<longleftrightarrow> s = t \<or> set_lt s t"

instance
proof
  fix x y z :: kk_set
  have key: "set_lt s t \<longleftrightarrow> (set_sum s, length (set_items s), set_items s) <
                           (set_sum t, length (set_items t), set_items t)" for s t
    by (auto simp: set_lt_def less_prod_def')
  show "(x < y) = (x \<le> y \<and> \<not> y \<le> x)"
    unfolding less_kk_set_def less_eq_kk_set_def key by auto
  show "x \<le> x" by (simp add: less_eq_kk_set_def)
  show "x \<le> y \<Longrightarrow> y \<le> z \<Longrightarrow> x \<le> z"
    unfolding less_eq_kk_set_def key by (meson less_trans)
  show "x \<le> y \<Longrightarrow> y \<le> x \<Longrightarrow> x = y"
    unfolding less_eq_kk_set_def key by (meson less_asym)
  show "x \<le> y \<or> y \<le> x"
    unfolding less_eq_kk_set_def key by (metis kk_set.expand linorder_neqE prod.inject)
qed

end

lemma set_merge_items [simp]: "set_items (set_merge s t) = set_items s @ set_items t"
proof -
  have "set_items (foldl (\<lambda>t (idx, val). set_add t idx val) s xs) = set_items s @ xs" for xs
    by (induction xs arbitrary: s) (auto simp: set_add_def)
  then show ?thesis by (simp add: set_merge_def)
qed

text \<open>The \<open>sum\<close> field is the sum of the items.\<close>

definition set_ok :: "kk_set \<Rightarrow> bool" where
  "set_ok s \<longleftrightarrow> set_sum s = sum_list (map snd (set_items s))"

lemma set_ok_init [simp]: "set_ok set_init"
  by (simp add: set_ok_def set_init_def)

lemma set_ok_add: "set_ok s \<Longrightarrow> set_ok (set_add s i v)"
  by (simp add: set_ok_def set_add_def)

lemma set_merge_sum: "set_ok t \<Longrightarrow> set_sum (set_merge s t) = set_sum s + set_sum t"
proof -
  have "set_sum (foldl (\<lambda>t (idx, val). set_add t idx val) s xs) = set_sum s + sum_list (map snd xs)"
    for xs by (induction xs arbitrary: s) (auto simp: set_add_def)
  then show "set_ok t \<Longrightarrow> ?thesis" by (simp add: set_merge_def set_ok_def)
qed

lemma set_ok_merge: "set_ok s \<Longrightarrow> set_ok t \<Longrightarrow> set_ok (set_merge s t)"
  using set_merge_sum [of t s] by (simp add: set_ok_def)

lemma less_eq_kk_set_sum: "s \<le> t \<Longrightarrow> set_sum s \<le> set_sum t"
  by (auto simp: less_eq_kk_set_def set_lt_def split: if_splits)

section \<open>The class State\<close>

record kstate =
  state_k :: nat
  sets :: "kk_set list"

text \<open>\<open>sorted(self.sets, reverse=True)\<close>: equal sets are equal values, so stability is invisible.\<close>

definition sort_desc :: "'a :: linorder list \<Rightarrow> 'a list" where
  "sort_desc xs = rev (sort xs)"

definition state_init :: "(nat \<times> int) list \<Rightarrow> nat \<Rightarrow> kstate result" where
  "state_init items k =
     ensure (length items = 1 \<or> length items = k) AssertionError
       (ensure (length items \<le> k) IndexError
         (let filled = map (\<lambda>(idx, seqlen). set_add set_init idx seqlen) items @
                       replicate (k - length items) set_init
          in Inr \<lparr>state_k = k, sets = sort_desc filled\<rparr>))"

definition get_partitions :: "kstate \<Rightarrow> nat list list" where
  "get_partitions st = map (\<lambda>s. map fst (set_items s)) (sets st)"

definition state_merge :: "kstate \<Rightarrow> kstate \<Rightarrow> kstate" where
  "state_merge a b =
     a\<lparr>sets := sort_desc (map (\<lambda>i. set_merge (sets a ! i) (sets b ! (state_k a - 1 - i)))
                             [0..<state_k a])\<rparr>"

definition spread :: "kstate \<Rightarrow> int" where
  "spread st = set_sum (hd (sets st)) - set_sum (last (sets st))"

text \<open>\<open>__lt__\<close>: the largest spread is popped first, then the largest first set.\<close>

definition state_lt :: "kstate \<Rightarrow> kstate \<Rightarrow> bool" where
  "state_lt a b =
     (if spread a \<noteq> spread b then spread a > spread b else hd (sets a) > hd (sets b))"

interpretation kk: strict_weak_order state_lt
  by unfold_locales (auto simp: state_lt_def split: if_splits)

section \<open>The function karmarkar_karp\<close>

text \<open>\<open>while len(states_pq) > 1\<close>: the two states of largest spread are merged.\<close>

function kk_loop :: "kstate list \<Rightarrow> kstate list" where
  "kk_loop pq =
     (if length pq > 1
      then (case heappop state_lt pq of
              None \<Rightarrow> pq
            | Some (state0, pq1) \<Rightarrow>
                (case heappop state_lt pq1 of
                   None \<Rightarrow> pq1
                 | Some (state1, pq2) \<Rightarrow>
                     kk_loop (heappush state_lt (state_merge state0 state1) pq2)))
      else pq)"
  by pat_completeness auto
termination
  by (relation "measure length") (auto dest!: heappop_length simp: heappush_length)

declare kk_loop.simps [simp del]

definition sorted_seqlen_list :: "int list \<Rightarrow> (int \<times> nat) list" where
  "sorted_seqlen_list seqlen_list = sort (zip seqlen_list [0..<length seqlen_list])"

definition initial_items :: "int list \<Rightarrow> nat \<Rightarrow> bool \<Rightarrow> (nat \<times> int) list list" where
  "initial_items seqlen_list k equal_size =
     (let sorted = map (\<lambda>(seqlen, idx). (idx, seqlen)) (sorted_seqlen_list seqlen_list)
      in if equal_size then py_chunks k sorted else map (\<lambda>it. [it]) sorted)"

definition karmarkar_karp :: "int list \<Rightarrow> nat \<Rightarrow> bool \<Rightarrow> nat list list result" where
  "karmarkar_karp seqlen_list k_partitions equal_size =
     ensure (equal_size \<longrightarrow> k_partitions \<noteq> 0) ZeroDivisionError
      (ensure (equal_size \<longrightarrow> length seqlen_list mod k_partitions = 0) AssertionError
        (rbind (mapM_result (\<lambda>items. state_init items k_partitions)
                  (initial_items seqlen_list k_partitions equal_size)) (\<lambda>states.
         rbind (py_get (kk_loop (foldl (\<lambda>pq st. heappush state_lt st pq) [] states)) 0) (\<lambda>final_state.
         (let partitions = get_partitions final_state
          in ensure (equal_size \<longrightarrow>
                (\<forall>p\<in>set partitions. length p * k_partitions = length seqlen_list)) AssertionError
              (Inr partitions))))))"

section \<open>What a merge keeps\<close>

lemma mset_sort_desc [simp]: "mset (sort_desc xs) = mset xs"
  by (simp add: sort_desc_def)

lemma set_sort_desc [simp]: "set (sort_desc xs) = set xs"
  by (simp add: sort_desc_def)

lemma length_sort_desc [simp]: "length (sort_desc xs) = length xs"
  by (simp add: sort_desc_def)

lemma sorted_sort_desc [simp]: "sorted (rev (sort_desc xs))"
  by (simp add: sort_desc_def)

text \<open>
  The generic invariant of the loop: what every state satisfies and a merge keeps holds of the
  final state, and what a merge adds up is the sum over the initial states.
\<close>

lemma kk_loop_result:
  fixes f :: "kstate \<Rightarrow> 'b :: comm_monoid_add"
  assumes "pq \<noteq> []" and "\<forall>s\<in>set pq. P s"
    and P: "\<And>a b. P a \<Longrightarrow> P b \<Longrightarrow> P (state_merge a b)"
    and f: "\<And>a b. P a \<Longrightarrow> P b \<Longrightarrow> f (state_merge a b) = f a + f b"
  shows "\<exists>st. kk_loop pq = [st] \<and> P st \<and> f st = sum_list (map f pq)"
  using assms(1,2)
proof (induction pq rule: kk_loop.induct)
  case (1 pq)
  show ?case
  proof (cases "length pq > 1")
    case False
    with "1.prems" obtain st where "pq = [st]" by (cases pq) auto
    with "1.prems" show ?thesis by (simp add: kk_loop.simps [of "[st]"])
  next
    case True
    then have "pq \<noteq> []" by auto
    then obtain a pq1 where a: "heappop state_lt pq = Some (a, pq1)"
      using heappop_None [of state_lt pq] by (cases "heappop state_lt pq") auto
    have "pq1 \<noteq> []" using True heappop_length [OF a] by auto
    then obtain b pq2 where b: "heappop state_lt pq1 = Some (b, pq2)"
      using heappop_None [of state_lt pq1] by (cases "heappop state_lt pq1") auto
    define pq3 where "pq3 = heappush state_lt (state_merge a b) pq2"
    have m: "mset pq = add_mset a (add_mset b (mset pq2))"
      using heappop_mset [OF a] heappop_mset [OF b] by simp
    have m3: "mset pq3 = add_mset (state_merge a b) (mset pq2)"
      by (simp add: pq3_def heappush_mset)
    have ab: "P a" "P b" "\<forall>s\<in>set pq2. P s"
      using "1.prems"(2) m by (metis insertCI set_mset_add_mset_insert set_mset_mset)+
    have p3: "pq3 \<noteq> []" "\<forall>s\<in>set pq3. P s"
      using m3 ab P by (auto simp flip: set_mset_mset)
    have loop: "kk_loop pq = kk_loop pq3"
      using True by (simp add: kk_loop.simps [of pq] a b pq3_def)
    have "sum_list (map f pq) = sum_mset (image_mset f (mset pq))"
      by (metis mset_map sum_mset_sum_list)
    also have "\<dots> = sum_mset (image_mset f (mset pq3))"
      by (simp add: m m3 f ab ac_simps)
    also have "\<dots> = sum_list (map f pq3)"
      by (metis mset_map sum_mset_sum_list)
    finally show ?thesis
      using "1.IH" [OF True a refl b refl] p3 loop by (simp add: pq3_def)
  qed
qed

definition state_ok :: "nat \<Rightarrow> kstate \<Rightarrow> bool" where
  "state_ok k st \<longleftrightarrow>
     state_k st = k \<and> length (sets st) = k \<and> sorted (rev (sets st)) \<and> (\<forall>s\<in>set (sets st). set_ok s)"

definition state_items :: "kstate \<Rightarrow> (nat \<times> int) multiset" where
  "state_items st = mset (concat (map set_items (sets st)))"

definition merged_sets :: "kk_set list \<Rightarrow> kk_set list \<Rightarrow> kk_set list" where
  "merged_sets xs ys = map2 set_merge xs (rev ys)"

lemma merged_sets_eq:
  "length xs = k \<Longrightarrow> length ys = k \<Longrightarrow>
   map (\<lambda>i. set_merge (xs ! i) (ys ! (k - 1 - i))) [0..<k] = merged_sets xs ys"
  by (rule nth_equalityI) (auto simp: merged_sets_def rev_nth)

lemma state_merge_sets:
  "state_ok k a \<Longrightarrow> state_ok k b \<Longrightarrow>
   sets (state_merge a b) = sort_desc (merged_sets (sets a) (sets b))"
  using merged_sets_eq [of "sets a" k "sets b"] by (simp add: state_ok_def state_merge_def)

lemma length_merged [simp]: "length (merged_sets xs ys) = min (length xs) (length ys)"
  by (simp add: merged_sets_def)

lemma state_merge_ok:
  assumes "state_ok k a" and "state_ok k b"
  shows "state_ok k (state_merge a b)"
proof -
  have "\<forall>s\<in>set (merged_sets (sets a) (sets b)). set_ok s"
    using assms unfolding state_ok_def merged_sets_def
    by (auto intro!: set_ok_merge dest: set_zip_leftD set_zip_rightD)
  moreover have "state_k (state_merge a b) = k"
    using assms by (simp add: state_ok_def state_merge_def)
  ultimately show ?thesis
    using assms state_merge_sets [OF assms] by (simp add: state_ok_def)
qed

lemma merged_items:
  assumes "length xs = length ys"
  shows "mset (concat (map set_items (map2 set_merge xs ys))) =
         mset (concat (map set_items xs)) + mset (concat (map set_items ys))"
  using assms by (induction xs ys rule: list_induct2) (auto simp: ac_simps)

lemma state_merge_items:
  assumes "state_ok k a" and "state_ok k b"
  shows "state_items (state_merge a b) = state_items a + state_items b"
proof -
  have "mset (concat (map set_items (sets (state_merge a b)))) =
        mset (concat (map set_items (merged_sets (sets a) (sets b))))"
    unfolding state_merge_sets [OF assms] by (intro mset_concat_mset_eq) (simp add: mset_map)
  also have "\<dots> = mset (concat (map set_items (sets a))) + mset (concat (map set_items (rev (sets b))))"
    using assms unfolding merged_sets_def by (intro merged_items) (simp add: state_ok_def)
  also have "mset (concat (map set_items (rev (sets b)))) = mset (concat (map set_items (sets b)))"
    by (intro mset_concat_mset_eq) (simp add: mset_map flip: rev_map)
  finally show ?thesis by (simp add: state_items_def)
qed

subsection \<open>The spread\<close>

lemma sorted_desc_nth:
  fixes xs :: "'a :: linorder list"
  assumes "sorted (rev xs)" and "i \<le> j" and "j < length xs"
  shows "xs ! j \<le> xs ! i"
proof -
  have "rev xs ! (length xs - 1 - j) \<le> rev xs ! (length xs - 1 - i)"
    using assms by (intro sorted_nth_mono) auto
  with assms show ?thesis by (simp add: rev_nth)
qed

lemma spread_le_iff:
  assumes "state_ok k st" and "0 < k"
  shows "spread st \<le> M \<longleftrightarrow> (\<forall>s\<in>set (sets st). \<forall>t\<in>set (sets st). set_sum s - set_sum t \<le> M)"
proof
  have ne: "sets st \<noteq> []" using assms unfolding state_ok_def by auto
  assume M: "spread st \<le> M"
  show "\<forall>s\<in>set (sets st). \<forall>t\<in>set (sets st). set_sum s - set_sum t \<le> M"
  proof (intro ballI)
    fix s t
    assume "s \<in> set (sets st)" "t \<in> set (sets st)"
    then obtain i j where "i < k" "j < k" "s = sets st ! i" "t = sets st ! j"
      using assms(1) unfolding state_ok_def by (metis in_set_conv_nth)
    then have "s \<le> hd (sets st)" "last (sets st) \<le> t"
      using assms ne sorted_desc_nth [of "sets st" 0 i] sorted_desc_nth [of "sets st" j "k - 1"]
      by (auto simp: state_ok_def hd_conv_nth last_conv_nth)
    then show "set_sum s - set_sum t \<le> M"
      using M by (auto simp: spread_def dest!: less_eq_kk_set_sum)
  qed
next
  have ne: "sets st \<noteq> []" using assms unfolding state_ok_def by auto
  assume "\<forall>s\<in>set (sets st). \<forall>t\<in>set (sets st). set_sum s - set_sum t \<le> M"
  with ne show "spread st \<le> M" by (simp add: spread_def)
qed

lemma state_merge_spread:
  assumes a: "state_ok k a" and b: "state_ok k b" and k: "0 < k"
    and M: "spread a \<le> M" "spread b \<le> M"
  shows "spread (state_merge a b) \<le> M"
proof -
  have len: "length (sets a) = k" "length (sets b) = k"
    and dec: "sorted (rev (sets a))" "sorted (rev (sets b))"
    and oka: "\<And>i. i < k \<Longrightarrow> set_ok (sets a ! i)" and okb: "\<And>i. i < k \<Longrightarrow> set_ok (sets b ! i)"
    using a b by (auto simp: state_ok_def)
  define A B where "A i = set_sum (sets a ! i)" and "B i = set_sum (sets b ! i)" for i
  have diff: "A i - A j \<le> M" "B i - B j \<le> M" if "i < k" "j < k" for i j
    using that M spread_le_iff [OF a k] spread_le_iff [OF b k] len by (auto simp: A_def B_def)
  have mono: "A j \<le> A i" "B j \<le> B i" if "i \<le> j" "j < k" for i j
    using that sorted_desc_nth [OF dec(1)] sorted_desc_nth [OF dec(2)] len
    by (auto simp: A_def B_def intro!: less_eq_kk_set_sum)
  have sum: "set_sum (merged_sets (sets a) (sets b) ! i) = A i + B (k - 1 - i)" if "i < k" for i
    using that len oka okb by (simp add: merged_sets_def set_merge_sum rev_nth A_def B_def)
  have bound: "set_sum (merged_sets (sets a) (sets b) ! i) - set_sum (merged_sets (sets a) (sets b) ! j) \<le> M"
    if ij: "i < k" "j < k" for i j
  proof (cases "i \<le> j")
    case True
    then have "A i - A j \<le> M" "B (k - 1 - i) \<le> B (k - 1 - j)"
      using ij diff mono by auto
    then show ?thesis using sum ij by simp
  next
    case False
    then have "B (k - 1 - i) - B (k - 1 - j) \<le> M" "A i \<le> A j"
      using ij diff mono by auto
    then show ?thesis using sum ij by simp
  qed
  have "\<forall>s\<in>set (sets (state_merge a b)). \<forall>t\<in>set (sets (state_merge a b)). set_sum s - set_sum t \<le> M"
    unfolding state_merge_sets [OF a b] set_sort_desc using bound len
    by (auto simp: in_set_conv_nth [of _ "merged_sets (sets a) (sets b)"])
  then show ?thesis using spread_le_iff [OF state_merge_ok [OF a b] k] by simp
qed

subsection \<open>Non-empty sets\<close>

text \<open>With non-negative values the non-empty sets come first, and a merge leaves none empty it need not.\<close>

lemma prefix_filter:
  assumes "\<And>i j. i \<le> j \<Longrightarrow> j < length xs \<Longrightarrow> P (xs ! j) \<Longrightarrow> P (xs ! i)" and "i < length xs"
  shows "P (xs ! i) \<longleftrightarrow> i < length (filter P xs)"
  using assms
proof (induction xs arbitrary: i)
  case (Cons x xs)
  show ?case
  proof (cases "P x")
    case True
    have "P (xs ! j) \<longleftrightarrow> j < length (filter P xs)" if "j < length xs" for j
      using Cons.prems(1) [of "Suc a" "Suc b" for a b] that by (intro Cons.IH) auto
    with True Cons.prems(2) show ?thesis by (cases i) auto
  next
    case False
    then have none: "\<not> P ((x # xs) ! j)" if "j < length (x # xs)" for j
      using Cons.prems(1) [of 0 j] that by auto
    then have "filter P (x # xs) = []"
      by (metis filter_False in_set_conv_nth)
    with none Cons.prems(2) show ?thesis by simp
  qed
qed simp

definition state_full :: "kstate \<Rightarrow> bool" where
  "state_full st \<longleftrightarrow>
     (\<forall>i < length (sets st). set_items (sets st ! i) \<noteq> [] \<longleftrightarrow> i < size (state_items st))"

definition state_nonneg :: "kstate \<Rightarrow> bool" where
  "state_nonneg st \<longleftrightarrow> (\<forall>x\<in>#state_items st. 0 \<le> snd x)"

lemma nonempty_upward:
  assumes "set_ok s" "set_ok t" "s \<le> t" "set_items s \<noteq> []" "\<forall>x\<in>set (set_items s). 0 \<le> snd x"
  shows "set_items t \<noteq> []"
proof
  assume t: "set_items t = []"
  have "0 \<le> set_sum s"
    using assms(1,5) by (auto simp: set_ok_def intro!: sum_list_nonneg)
  moreover have "set_sum t = 0" using t assms(2) by (simp add: set_ok_def)
  ultimately show False
    using assms(3,4) t by (auto simp: less_eq_kk_set_def set_lt_def split: if_splits)
qed

lemma state_nonneg_set:
  "state_nonneg st \<Longrightarrow> s \<in> set (sets st) \<Longrightarrow> x \<in> set (set_items s) \<Longrightarrow> 0 \<le> snd x"
  by (auto simp: state_nonneg_def state_items_def)

lemma state_full_iff:
  assumes "state_ok k st" and "state_nonneg st"
  shows "state_full st \<longleftrightarrow>
     length (filter (\<lambda>s. set_items s \<noteq> []) (sets st)) = min k (size (state_items st))"
proof -
  have len: "length (sets st) = k" using assms(1) by (simp add: state_ok_def)
  have pre: "set_items (sets st ! i) \<noteq> [] \<longleftrightarrow> i < length (filter (\<lambda>s. set_items s \<noteq> []) (sets st))"
    if i: "i < k" for i
  proof (rule prefix_filter)
    fix i j
    assume ij: "i \<le> j" "j < length (sets st)" and ne: "set_items (sets st ! j) \<noteq> []"
    then have le: "sets st ! j \<le> sets st ! i"
      using assms(1) by (intro sorted_desc_nth) (simp_all add: state_ok_def)
    have mem: "sets st ! i \<in> set (sets st)" "sets st ! j \<in> set (sets st)"
      using ij by simp_all
    then have "set_ok (sets st ! i)" "set_ok (sets st ! j)"
      using assms(1) unfolding state_ok_def by blast+
    moreover have "\<forall>x\<in>set (set_items (sets st ! j)). 0 \<le> snd x"
      using state_nonneg_set [OF assms(2) mem(2)] by blast
    ultimately show "set_items (sets st ! i) \<noteq> []"
      using nonempty_upward le ne by blast
  qed (use i len in simp)
  define c where "c = length (filter (\<lambda>s. set_items s \<noteq> []) (sets st))"
  have c: "c \<le> k" using len by (metis c_def length_filter_le)
  have "(\<forall>i<k. i < c \<longleftrightarrow> i < size (state_items st)) \<longleftrightarrow> c = min k (size (state_items st))"
  proof
    assume all: "\<forall>i<k. i < c \<longleftrightarrow> i < size (state_items st)"
    show "c = min k (size (state_items st))"
    proof (rule ccontr)
      assume "c \<noteq> min k (size (state_items st))"
      then consider "c < k" "c < size (state_items st)"
        | "size (state_items st) < c" using c by linarith
      then show False
        using all c by cases (metis less_irrefl, metis less_irrefl less_le_trans)
    qed
  qed (use c in auto)
  with pre show ?thesis by (simp add: state_full_def len c_def)
qed

lemma state_merge_nonneg:
  "state_ok k a \<Longrightarrow> state_ok k b \<Longrightarrow> state_nonneg a \<Longrightarrow> state_nonneg b \<Longrightarrow>
   state_nonneg (state_merge a b)"
  by (auto simp: state_nonneg_def state_merge_items)

lemma card_prefix_suffix:
  "card {i :: nat. i < k \<and> (i < m \<or> k - 1 - i < n)} = min k (m + n)"
proof (cases "k \<le> m + n")
  case True
  then have "{i. i < k \<and> (i < m \<or> k - 1 - i < n)} = {..<k}" by auto
  with True show ?thesis by simp
next
  case False
  then have "{i. i < k \<and> (i < m \<or> k - 1 - i < n)} = {..<m} \<union> {k - n..<k}" by auto
  moreover have "card ({..<m} \<union> {k - n..<k}) = card {..<m} + card {k - n..<k}"
    using False by (intro card_Un_disjoint) auto
  ultimately show ?thesis using False by simp
qed

lemma state_merge_full:
  assumes a: "state_ok k a" "state_nonneg a" "state_full a"
    and b: "state_ok k b" "state_nonneg b" "state_full b"
  shows "state_full (state_merge a b)"
proof -
  have len: "length (sets a) = k" "length (sets b) = k" using a b by (simp_all add: state_ok_def)
  let ?ne = "\<lambda>s. set_items s \<noteq> []"
  have nth: "?ne (merged_sets (sets a) (sets b) ! i) \<longleftrightarrow>
      i < size (state_items a) \<or> k - 1 - i < size (state_items b)" if "i < k" for i
    using that len a(3) b(3) by (auto simp: merged_sets_def rev_nth state_full_def)
  have "mset (filter ?ne (sort_desc (merged_sets (sets a) (sets b)))) =
        mset (filter ?ne (merged_sets (sets a) (sets b)))"
    by simp
  then have "length (filter ?ne (sets (state_merge a b))) =
        length (filter ?ne (merged_sets (sets a) (sets b)))"
    unfolding state_merge_sets [OF a(1) b(1)] by (rule mset_eq_length)
  also have "\<dots> = card {i. i < k \<and> ?ne (merged_sets (sets a) (sets b) ! i)}"
    using len by (simp add: length_filter_conv_card)
  also have "{i. i < k \<and> ?ne (merged_sets (sets a) (sets b) ! i)} =
      {i. i < k \<and> (i < size (state_items a) \<or> k - 1 - i < size (state_items b))}"
    using nth by blast
  finally have "length (filter ?ne (sets (state_merge a b))) =
      min k (size (state_items (state_merge a b)))"
    unfolding card_prefix_suffix state_merge_items [OF a(1) b(1)] by simp
  then show ?thesis
    using state_full_iff state_merge_ok state_merge_nonneg a b by blast
qed

subsection \<open>Equal sizes\<close>

definition state_even :: "kstate \<Rightarrow> bool" where
  "state_even st \<longleftrightarrow> (\<exists>c. \<forall>s\<in>set (sets st). length (set_items s) = c)"

lemma state_merge_even:
  assumes "state_ok k a" and "state_ok k b" and "state_even a" and "state_even b"
  shows "state_even (state_merge a b)"
proof -
  obtain c d where c: "\<forall>s\<in>set (sets a). length (set_items s) = c"
    and d: "\<forall>s\<in>set (sets b). length (set_items s) = d"
    using assms(3,4) unfolding state_even_def by blast
  have "\<forall>s\<in>set (sets (state_merge a b)). length (set_items s) = c + d"
    unfolding state_merge_sets [OF assms(1,2)] set_sort_desc merged_sets_def
    using c d by (auto dest!: set_zip_leftD [of _ _ "sets a"] set_zip_rightD [of _ _ _ "rev (sets b)"]
        elim!: in_set_zipE)
  then show ?thesis unfolding state_even_def by blast
qed

section \<open>The initial states\<close>

definition filled_sets :: "(nat \<times> int) list \<Rightarrow> nat \<Rightarrow> kk_set list" where
  "filled_sets items k =
     map (\<lambda>(idx, seqlen). set_add set_init idx seqlen) items @ replicate (k - length items) set_init"

definition initial_state :: "(nat \<times> int) list \<Rightarrow> nat \<Rightarrow> kstate" where
  "initial_state items k = \<lparr>state_k = k, sets = sort_desc (filled_sets items k)\<rparr>"

lemma state_init_Inr:
  "0 < k \<Longrightarrow> length items = 1 \<or> length items = k \<Longrightarrow> state_init items k = Inr (initial_state items k)"
  by (auto simp: state_init_def initial_state_def filled_sets_def)

lemma initial_state_ok: "length items \<le> k \<Longrightarrow> state_ok k (initial_state items k)"
  by (auto simp: state_ok_def initial_state_def filled_sets_def intro!: set_ok_add)

lemma filled_items: "map set_items (filled_sets items k) =
    map (\<lambda>it. [it]) items @ replicate (k - length items) []"
  by (auto simp: filled_sets_def set_add_def set_init_def)

lemma initial_state_items: "state_items (initial_state items k) = mset items"
proof -
  have "state_items (initial_state items k) = mset (concat (map set_items (filled_sets items k)))"
    unfolding state_items_def initial_state_def
    by (intro mset_concat_mset_eq) (simp add: mset_map)
  also have "\<dots> = mset items"
    by (simp add: filled_items concat_map_singleton)
  finally show ?thesis .
qed

lemma initial_state_full:
  assumes "length items \<le> k" and "\<forall>x\<in>set items. 0 \<le> snd x"
  shows "state_full (initial_state items k)" and "state_nonneg (initial_state items k)"
proof -
  show nn: "state_nonneg (initial_state items k)"
    using assms(2) by (simp add: state_nonneg_def initial_state_items)
  have "length (filter (\<lambda>s. set_items s \<noteq> []) (sort_desc (filled_sets items k))) =
        length (filter (\<lambda>s. set_items s \<noteq> []) (filled_sets items k))"
    by (intro mset_eq_length) simp
  also have "\<dots> = length (filter (\<lambda>xs. xs \<noteq> []) (map set_items (filled_sets items k)))"
    by (simp add: filter_map comp_def)
  also have "\<dots> = length items"
    unfolding filled_items by (simp add: filter_map comp_def)
  finally show "state_full (initial_state items k)"
    using assms(1) by (simp add: state_full_iff [OF initial_state_ok nn] initial_state_items)
      (simp add: initial_state_def)
qed

lemma initial_state_spread:
  assumes "0 < k" "length items \<le> k" and "\<forall>x\<in>set items. 0 \<le> snd x \<and> snd x \<le> M" and "0 \<le> M"
  shows "spread (initial_state items k) \<le> M"
proof -
  have "\<forall>s\<in>set (filled_sets items k). 0 \<le> set_sum s \<and> set_sum s \<le> M"
    using assms(3,4) by (auto simp: filled_sets_def set_add_def set_init_def)
  then have "\<forall>s\<in>set (filled_sets items k). \<forall>t\<in>set (filled_sets items k).
      set_sum s - set_sum t \<le> M"
    by (smt (verit))
  then have "\<forall>s\<in>set (sets (initial_state items k)). \<forall>t\<in>set (sets (initial_state items k)).
      set_sum s - set_sum t \<le> M"
    by (simp add: initial_state_def)
  then show ?thesis using spread_le_iff initial_state_ok assms by blast
qed

lemma initial_state_even: "0 < k \<Longrightarrow> length items = k \<Longrightarrow> state_even (initial_state items k)"
  unfolding state_even_def initial_state_def filled_sets_def
  by (intro exI [of _ 1]) (auto simp: set_add_def set_init_def)

section \<open>The result of the whole run\<close>

definition indexed :: "int list \<Rightarrow> (nat \<times> int) list" where
  "indexed xs = zip [0..<length xs] xs"

lemma map_fst_indexed [simp]: "map fst (indexed xs) = [0..<length xs]"
  by (simp add: indexed_def)

lemma indexed_value: "(i, v) \<in> set (indexed xs) \<Longrightarrow> v = xs ! i"
  by (auto simp: indexed_def in_set_zip)

lemma indexed_mem: "(i, v) \<in> set (indexed xs) \<Longrightarrow> v \<in> set xs"
  by (auto simp: indexed_def dest: set_zip_rightD)

lemma sorted_items_mset:
  "mset (map (\<lambda>(seqlen, idx). (idx, seqlen)) (sorted_seqlen_list xs)) = mset (indexed xs)"
proof -
  have "mset (map (\<lambda>(seqlen, idx). (idx, seqlen)) (sorted_seqlen_list xs)) =
        mset (map (\<lambda>(seqlen, idx). (idx, seqlen)) (zip xs [0..<length xs]))"
    by (simp add: sorted_seqlen_list_def)
  also have "map (\<lambda>(seqlen, idx). (idx, seqlen)) (zip xs [0..<length xs]) = indexed xs"
    by (rule nth_equalityI) (auto simp: indexed_def)
  finally show ?thesis .
qed

lemma initial_items_concat:
  "(eq \<Longrightarrow> 0 < k) \<Longrightarrow> mset (concat (initial_items xs k eq)) = mset (indexed xs)"
proof -
  assume k: "eq \<Longrightarrow> 0 < k"
  define ys where "ys = map (\<lambda>(seqlen, idx). (idx, seqlen)) (sorted_seqlen_list xs)"
  have "concat (initial_items xs k eq) = ys"
    unfolding initial_items_def Let_def ys_def [symmetric]
    using k by (simp add: concat_py_chunks concat_map_singleton)
  then show ?thesis using sorted_items_mset [of xs] ys_def by simp
qed

lemma initial_items_length:
  assumes "eq \<longrightarrow> 0 < k \<and> k dvd length xs" and "its \<in> set (initial_items xs k eq)"
  shows "length its = (if eq then k else 1)"
proof (cases eq)
  case True
  then show ?thesis
    using assms py_chunks_lengths [of k "map (\<lambda>(seqlen, idx). (idx, seqlen)) (sorted_seqlen_list xs)"]
    by (auto simp: initial_items_def sorted_seqlen_list_def)
qed (use assms in \<open>auto simp: initial_items_def\<close>)

lemma kk_run:
  assumes k: "0 < k" and xs: "xs \<noteq> []" and eq: "eq \<longrightarrow> k dvd length xs"
    and init: "\<And>its. its \<in> set (initial_items xs k eq) \<Longrightarrow> P (initial_state its k)"
    and step: "\<And>a b. state_ok k a \<Longrightarrow> state_ok k b \<Longrightarrow> P a \<Longrightarrow> P b \<Longrightarrow> P (state_merge a b)"
  shows "\<exists>st. P st \<and> state_ok k st \<and> state_items st = mset (indexed xs) \<and>
     karmarkar_karp xs k eq =
       ensure (eq \<longrightarrow> (\<forall>p\<in>set (get_partitions st). length p * k = length xs)) AssertionError
         (Inr (get_partitions st))"
proof -
  define I where "I = initial_items xs k eq"
  have conc: "mset (concat I) = mset (indexed xs)"
    using k by (simp add: I_def initial_items_concat)
  have len: "\<And>its. its \<in> set I \<Longrightarrow> length its = 1 \<or> length its = k"
    using k eq initial_items_length [of eq k xs] by (auto simp: I_def)
  then have states: "mapM_result (\<lambda>its. state_init its k) I = Inr (map (\<lambda>its. initial_state its k) I)"
    using k by (intro mapM_result_Inr) (auto simp: state_init_Inr)
  define pq where "pq = foldl (\<lambda>pq st. heappush state_lt st pq) [] (map (\<lambda>its. initial_state its k) I)"
  have pq: "mset pq = mset (map (\<lambda>its. initial_state its k) I)"
    unfolding pq_def using kk.heapq.elems_push_all [of "[]"] by simp
  have "I \<noteq> []" using conc xs by (auto simp: indexed_def)
  then have ne: "pq \<noteq> []" using pq by auto
  have le: "length its \<le> k" if "its \<in> set I" for its using len [OF that] k by auto
  have "\<forall>st\<in>set pq. state_ok k st \<and> P st"
    using le init initial_state_ok mset_eq_setD [OF pq] by (auto simp: I_def)
  from kk_loop_result [OF ne this, of state_items]
  obtain st where st: "kk_loop pq = [st]" "state_ok k st" "P st"
      "state_items st = sum_list (map state_items pq)"
    using step state_merge_ok state_merge_items by blast
  have "sum_list (map state_items pq) = sum_list (map (mset :: _ \<Rightarrow> (nat \<times> int) multiset) I)"
    using sum_list_map_mset [OF pq, of state_items] by (simp add: comp_def initial_state_items)
  then have "state_items st = mset (indexed xs)" using st(4) conc by (simp add: mset_concat)
  moreover have "karmarkar_karp xs k eq =
       ensure (eq \<longrightarrow> (\<forall>p\<in>set (get_partitions st). length p * k = length xs)) AssertionError
         (Inr (get_partitions st))"
    using k eq states st(1) unfolding karmarkar_karp_def pq_def I_def
    by (simp add: Let_def dvd_eq_mod_eq_0)
  ultimately show ?thesis using st by blast
qed

definition part_sum :: "int list \<Rightarrow> nat list \<Rightarrow> int" where
  "part_sum xs p = sum_list (map (\<lambda>i. xs ! i) p)"

lemma partitions_mset:
  assumes "state_items st = mset (indexed xs)"
  shows "mset (concat (get_partitions st)) = mset [0..<length xs]"
proof -
  have "mset (concat (get_partitions st)) = image_mset fst (state_items st)"
    by (simp add: get_partitions_def state_items_def map_concat comp_def flip: mset_map)
  then show ?thesis using assms by (simp flip: mset_map)
qed

lemma partition_sum:
  assumes "state_ok k st" "state_items st = mset (indexed xs)" "s \<in> set (sets st)"
  shows "part_sum xs (map fst (set_items s)) = set_sum s"
proof -
  have mem: "x \<in> set (indexed xs)" if "x \<in> set (set_items s)" for x
  proof -
    have "x \<in># state_items st" using that assms(3) by (auto simp: state_items_def)
    then show ?thesis by (simp add: assms(2))
  qed
  have vals: "\<forall>x\<in>set (set_items s). xs ! fst x = snd x"
    using mem indexed_value by (metis prod.collapse)
  then have "map (\<lambda>x. xs ! fst x) (set_items s) = map snd (set_items s)"
    by simp
  then have "sum_list (map (\<lambda>x. xs ! fst x) (set_items s)) = sum_list (map snd (set_items s))"
    by (rule arg_cong)
  then show ?thesis
    using assms(1,3) by (simp add: part_sum_def comp_def state_ok_def set_ok_def)
qed

end
