(* ===== verification/Seqlen_Balancing.thy ===== *)
theory Seqlen_Balancing
  imports Karmarkar_Karp
begin

text \<open>
  The balancing functions of \<open>src/verl/utils/seqlen_balancing.py\<close> around the two partitioning
  algorithms: \<open>greedy_partition\<close>, \<open>get_seqlen_balanced_partitions\<close>,
  \<open>get_group_balanced_partitions\<close>, the workload estimate and the metrics. What a caller may rely
  on is a locale (\<open>partitioner\<close>, extended by \<open>full_partitioner\<close>), interpreted on
  \<open>karmarkar_karp\<close> and on \<open>greedy_partition\<close>.
\<close>

section \<open>The contract of a partitioning algorithm\<close>

locale partitioner =
  fixes partition_fn :: "int list \<Rightarrow> nat \<Rightarrow> bool \<Rightarrow> nat list list result"
  assumes part_ok:
    "0 < k \<Longrightarrow> xs \<noteq> [] \<Longrightarrow> \<forall>x\<in>set xs. 0 \<le> x \<Longrightarrow> (eq \<longrightarrow> k dvd length xs) \<Longrightarrow>
     \<exists>ps. partition_fn xs k eq = Inr ps \<and> length ps = k \<and> mset (concat ps) = mset [0..<length xs] \<and>
          (eq \<longrightarrow> (\<forall>p\<in>set ps. length p * k = length xs))"
    and part_spread:
    "0 < k \<Longrightarrow> xs \<noteq> [] \<Longrightarrow> \<forall>x\<in>set xs. 0 \<le> x \<and> x \<le> M \<Longrightarrow> partition_fn xs k False = Inr ps \<Longrightarrow>
     p \<in> set ps \<Longrightarrow> q \<in> set ps \<Longrightarrow> part_sum xs p - part_sum xs q \<le> M"
begin

text \<open>Every index is in exactly one part.\<close>

lemma part_unique:
  assumes "0 < k" "xs \<noteq> []" "\<forall>x\<in>set xs. 0 \<le> x" "partition_fn xs k False = Inr ps" "i < length xs"
  shows "\<exists>!j. j < k \<and> i \<in> set (ps ! j)"
proof -
  from part_ok [OF assms(1-3), of False] assms(4)
  have ps: "length ps = k" "mset (concat ps) = mset [0..<length xs]" by auto
  from mset_upt_perm [OF ps(2)] have d: "distinct (concat ps)" "set (concat ps) = {..<length xs}"
    by auto
  with assms(5) obtain p where "p \<in> set ps" "i \<in> set p" by auto
  then obtain j where j: "j < k" "i \<in> set (ps ! j)" using ps(1) by (metis in_set_conv_nth)
  have "j' = j" if "j' < k" "i \<in> set (ps ! j')" for j'
    using distinct_concat_nth [OF d(1), of j j'] j that ps(1) by auto
  with j show ?thesis by blast
qed

end

locale full_partitioner = partitioner partition_fn
  for partition_fn :: "int list \<Rightarrow> nat \<Rightarrow> bool \<Rightarrow> nat list list result" +
  assumes part_nonempty:
    "0 < k \<Longrightarrow> k \<le> length xs \<Longrightarrow> \<forall>x\<in>set xs. 0 \<le> x \<Longrightarrow> (eq \<longrightarrow> k dvd length xs) \<Longrightarrow>
     partition_fn xs k eq = Inr ps \<Longrightarrow> p \<in> set ps \<Longrightarrow> p \<noteq> []"

section \<open>Karmarkar-Karp satisfies it\<close>

lemma karmarkar_karp_total:
  assumes "0 < k" and "xs \<noteq> []" and "eq \<longrightarrow> k dvd length xs"
  shows "\<exists>ps. karmarkar_karp xs k eq = Inr ps \<and> length ps = k \<and>
     mset (concat ps) = mset [0..<length xs] \<and> (eq \<longrightarrow> (\<forall>p\<in>set ps. length p * k = length xs))"
proof -
  have "its \<in> set (initial_items xs k eq) \<Longrightarrow> eq \<longrightarrow> state_even (initial_state its k)" for its
    using assms initial_items_length [of eq k xs its] initial_state_even by simp
  moreover have "eq \<longrightarrow> state_even (state_merge a b)"
    if "state_ok k a" "state_ok k b" "eq \<longrightarrow> state_even a" "eq \<longrightarrow> state_even b" for a b
    using that state_merge_even by blast
  ultimately obtain st where st: "eq \<longrightarrow> state_even st" "state_ok k st"
      "state_items st = mset (indexed xs)"
    and run: "karmarkar_karp xs k eq =
       ensure (eq \<longrightarrow> (\<forall>p\<in>set (get_partitions st). length p * k = length xs)) AssertionError
         (Inr (get_partitions st))"
    using kk_run [OF assms, of "\<lambda>st. eq \<longrightarrow> state_even st"] by blast
  have perm: "mset (concat (get_partitions st)) = mset [0..<length xs]"
    using st(3) by (rule partitions_mset)
  have len: "length (get_partitions st) = k" using st(2) by (simp add: get_partitions_def state_ok_def)
  have even: "\<forall>p\<in>set (get_partitions st). length p * k = length xs" if e: eq
  proof -
    obtain c where c: "\<forall>s\<in>set (sets st). length (set_items s) = c"
      using st(1) e unfolding state_even_def by blast
    then have "\<forall>p\<in>set (get_partitions st). length p = c" by (simp add: get_partitions_def)
    moreover from this have "length (concat (get_partitions st)) = k * c"
      using len by (simp add: length_concat_same)
    moreover have "length (concat (get_partitions st)) = length xs"
      using mset_upt_perm(3) [OF perm] by simp
    ultimately show ?thesis by (simp add: ac_simps)
  qed
  then show ?thesis using run perm len by (intro exI [of _ "get_partitions st"]) simp
qed

lemma initial_items_mem:
  "0 < k \<Longrightarrow> its \<in> set (initial_items xs k eq) \<Longrightarrow> x \<in> set its \<Longrightarrow> snd x \<in> set xs"
proof -
  assume "0 < k" "its \<in> set (initial_items xs k eq)" "x \<in> set its"
  then have "x \<in># mset (concat (initial_items xs k eq))" by auto
  then have "x \<in> set (indexed xs)" using initial_items_concat [of eq k xs] \<open>0 < k\<close> by simp
  then show ?thesis using indexed_mem by (metis prod.collapse)
qed

lemma karmarkar_karp_balance:
  assumes k: "0 < k" and xs: "xs \<noteq> []" and eq: "eq \<longrightarrow> k dvd length xs"
    and M: "\<forall>x\<in>set xs. 0 \<le> x \<and> x \<le> M" and ps: "karmarkar_karp xs k eq = Inr ps"
  shows "\<forall>p\<in>set ps. \<forall>q\<in>set ps. part_sum xs p - part_sum xs q \<le> M"
    and "k \<le> length xs \<Longrightarrow> \<forall>p\<in>set ps. p \<noteq> []"
proof -
  have M0: "0 \<le> M" using M xs by (meson list.set_sel(1) order_trans)
  let ?P = "\<lambda>st. spread st \<le> M \<and> state_full st \<and> state_nonneg st"
  have "?P (initial_state its k)" if "its \<in> set (initial_items xs k eq)" for its
  proof -
    have "length its \<le> k" using that eq k initial_items_length [of eq k xs its] by auto
    moreover have "\<forall>x\<in>set its. 0 \<le> snd x \<and> snd x \<le> M"
      using M initial_items_mem [OF k that] by auto
    ultimately show ?thesis
      using initial_state_spread [OF k _ _ M0] initial_state_full by blast
  qed
  moreover have "?P (state_merge a b)" if "state_ok k a" "state_ok k b" "?P a" "?P b" for a b
    using that state_merge_spread [OF that(1,2) k] state_merge_full state_merge_nonneg by blast
  ultimately obtain st where st: "?P st" "state_ok k st" "state_items st = mset (indexed xs)"
    and "karmarkar_karp xs k eq =
       ensure (eq \<longrightarrow> (\<forall>p\<in>set (get_partitions st). length p * k = length xs)) AssertionError
         (Inr (get_partitions st))"
    using kk_run [OF k xs eq, of ?P] by blast
  then have ps: "ps = get_partitions st" using ps by (auto simp: ensure_def split: if_splits)
  show "\<forall>p\<in>set ps. \<forall>q\<in>set ps. part_sum xs p - part_sum xs q \<le> M"
    using spread_le_iff [OF st(2) k, of M] st(1) partition_sum [OF st(2,3)]
    by (auto simp: ps get_partitions_def)
  show "\<forall>p\<in>set ps. p \<noteq> []" if "k \<le> length xs"
  proof -
    have "\<forall>i<k. set_items (sets st ! i) \<noteq> []"
      using st that by (auto simp: state_full_def state_ok_def indexed_def)
    then show ?thesis
      using st(2) by (auto simp: ps get_partitions_def state_ok_def in_set_conv_nth)
  qed
qed

interpretation kkp: full_partitioner karmarkar_karp
proof unfold_locales
  fix k :: nat and xs :: "int list" and eq :: bool
  assume "0 < k" "xs \<noteq> []" "\<forall>x\<in>set xs. 0 \<le> x" "eq \<longrightarrow> k dvd length xs"
  then show "\<exists>ps. karmarkar_karp xs k eq = Inr ps \<and> length ps = k \<and>
     mset (concat ps) = mset [0..<length xs] \<and> (eq \<longrightarrow> (\<forall>p\<in>set ps. length p * k = length xs))"
    by (intro karmarkar_karp_total)
next
  fix k :: nat and xs :: "int list" and M ps p q
  assume "0 < k" "xs \<noteq> []" "\<forall>x\<in>set xs. 0 \<le> x \<and> x \<le> M" "karmarkar_karp xs k False = Inr ps"
    "p \<in> set ps" "q \<in> set ps"
  then show "part_sum xs p - part_sum xs q \<le> M"
    using karmarkar_karp_balance(1) [of k xs False M ps] by blast
next
  fix k :: nat and xs :: "int list" and eq ps p
  assume a: "0 < k" "k \<le> length xs" "\<forall>x\<in>set xs. 0 \<le> x" "eq \<longrightarrow> k dvd length xs"
    "karmarkar_karp xs k eq = Inr ps" "p \<in> set ps"
  then have "xs \<noteq> []" by auto
  moreover have "\<forall>x\<in>set xs. 0 \<le> x \<and> x \<le> Max (set xs)" using a(3) by simp
  ultimately show "p \<noteq> []"
    using a karmarkar_karp_balance(2) [of k xs eq "Max (set xs)" ps] by blast
qed

section \<open>greedy_partition\<close>

text \<open>The inner loop: the first index of least sum.\<close>

definition greedy_min_idx :: "int list \<Rightarrow> nat \<Rightarrow> nat option" where
  "greedy_min_idx partition_sums k =
     foldl (\<lambda>min_idx j. case min_idx of
              None \<Rightarrow> Some j
            | Some i \<Rightarrow> (if partition_sums ! j < partition_sums ! i then Some j else Some i))
       None [0..<k]"

fun greedy_loop ::
  "nat \<Rightarrow> (int \<times> nat) list \<Rightarrow> nat list list \<Rightarrow> int list \<Rightarrow> nat list list result" where
  "greedy_loop k [] partitions partition_sums = Inr partitions"
| "greedy_loop k ((seqlen, i) # rest) partitions partition_sums =
     (case greedy_min_idx partition_sums k of
        None \<Rightarrow> Inl TypeError
      | Some m \<Rightarrow> greedy_loop k rest (partitions[m := partitions ! m @ [i]])
                    (partition_sums[m := partition_sums ! m + seqlen]))"

definition greedy_partition :: "int list \<Rightarrow> nat \<Rightarrow> bool \<Rightarrow> nat list list result" where
  "greedy_partition seqlen_list k_partitions equal_size =
     (let bias = (if equal_size then sum_list seqlen_list + 1 else 0);
          sorted_seqlen = map (\<lambda>i. (seqlen_list ! i + bias, i)) [0..<length seqlen_list]
      in rbind (greedy_loop k_partitions sorted_seqlen (replicate k_partitions [])
                  (replicate k_partitions 0)) (\<lambda>partitions.
         ensure (equal_size \<longrightarrow>
              (\<forall>p\<in>set partitions. length p * k_partitions = length seqlen_list)) AssertionError
           (Inr partitions)))"

lemma greedy_min_idx_least:
  assumes "0 < k"
  shows "\<exists>m. greedy_min_idx psums k = Some m \<and> m < k \<and> (\<forall>j<k. psums ! m \<le> psums ! j)"
  using assms
proof (induction k)
  case (Suc k)
  show ?case
  proof (cases "k = 0")
    case True
    then show ?thesis by (simp add: greedy_min_idx_def)
  next
    case False
    with Suc.IH obtain m where "greedy_min_idx psums k = Some m" "m < k" "\<forall>j<k. psums ! m \<le> psums ! j"
      by auto
    moreover from this have "greedy_min_idx psums (Suc k) =
        (if psums ! k < psums ! m then Some k else Some m)"
      by (simp add: greedy_min_idx_def)
    ultimately show ?thesis by (auto simp: less_Suc_eq)
  qed
qed simp

lemma mset_concat_update:
  "m < length xss \<Longrightarrow> mset (concat (xss[m := xss ! m @ [i]])) = add_mset i (mset (concat xss))"
  by (induction xss arbitrary: m) (auto split: nat.splits)

text \<open>What the loop keeps after the indices \<open>done\<close>, for the biased values \<open>ys\<close>.\<close>

definition greedy_inv :: "nat \<Rightarrow> int list \<Rightarrow> nat list \<Rightarrow> nat list list \<Rightarrow> int list \<Rightarrow> bool" where
  "greedy_inv k ys seen parts psums \<longleftrightarrow>
     length parts = k \<and> length psums = k \<and> mset (concat parts) = mset seen \<and>
     (\<forall>j<k. psums ! j = part_sum ys (parts ! j))"

lemma greedy_inv_step:
  "greedy_inv k ys seen parts psums \<Longrightarrow> m < k \<Longrightarrow>
   greedy_inv k ys (seen @ [i]) (parts[m := parts ! m @ [i]]) (psums[m := psums ! m + ys ! i])"
  by (auto simp: greedy_inv_def nth_list_update part_sum_def mset_concat_update)

lemma greedy_loop_result:
  assumes k: "0 < k" and "greedy_inv k ys seen parts psums" and "Q parts" and "all_idx = seen @ is"
    and step: "\<And>seen rest parts psums m i. all_idx = seen @ i # rest \<Longrightarrow>
        greedy_inv k ys seen parts psums \<Longrightarrow> Q parts \<Longrightarrow> m < k \<Longrightarrow>
        \<forall>j<k. psums ! m \<le> psums ! j \<Longrightarrow> Q (parts[m := parts ! m @ [i]])"
  shows "\<exists>ps. greedy_loop k (map (\<lambda>i. (ys ! i, i)) is) parts psums = Inr ps \<and> length ps = k \<and> Q ps \<and>
     mset (concat ps) = mset all_idx"
  using assms(2-4)
proof (induction "is" arbitrary: seen parts psums)
  case Nil
  then show ?case by (auto simp: greedy_inv_def)
next
  case (Cons i "is")
  obtain m where m: "greedy_min_idx psums k = Some m" "m < k" "\<forall>j<k. psums ! m \<le> psums ! j"
    using greedy_min_idx_least [OF k] by blast
  have "Q (parts[m := parts ! m @ [i]])" using step Cons.prems m by blast
  with Cons.IH [OF greedy_inv_step [OF Cons.prems(1) m(2)]] Cons.prems(3) m(1)
  show ?case by simp
qed

lemma greedy_inv_start: "greedy_inv k ys [] (replicate k []) (replicate k 0)"
proof -
  have "concat (replicate k []) = []" by (induction k) auto
  then show ?thesis by (simp add: greedy_inv_def part_sum_def)
qed

lemma greedy_spread_step:
  assumes inv: "greedy_inv k ys seen parts psums" and m: "m < k" "\<forall>j<k. psums ! m \<le> psums ! j"
    and v: "0 \<le> ys ! i" "ys ! i \<le> M"
    and Q: "\<forall>p\<in>set parts. \<forall>q\<in>set parts. part_sum ys p - part_sum ys q \<le> M"
  shows "\<forall>p\<in>set (parts[m := parts ! m @ [i]]). \<forall>q\<in>set (parts[m := parts ! m @ [i]]).
           part_sum ys p - part_sum ys q \<le> M"
proof -
  let ?new = "parts ! m @ [i]"
  have len: "length parts = k" and s: "\<And>j. j < k \<Longrightarrow> psums ! j = part_sum ys (parts ! j)"
    using inv by (auto simp: greedy_inv_def)
  have new: "part_sum ys ?new = part_sum ys (parts ! m) + ys ! i" by (simp add: part_sum_def)
  have least: "part_sum ys (parts ! m) \<le> part_sum ys q" if "q \<in> set parts" for q
    using that m s len by (metis in_set_conv_nth)
  have old: "part_sum ys q - part_sum ys (parts ! m) \<le> M" if "q \<in> set parts" for q
    using that Q m(1) len by simp
  have M: "0 \<le> M" using v by linarith
  show ?thesis
  proof (intro ballI)
    fix p q
    assume "p \<in> set (parts[m := ?new])" "q \<in> set (parts[m := ?new])"
    then have "p = ?new \<or> p \<in> set parts" "q = ?new \<or> q \<in> set parts"
      using set_update_subset_insert by fast+
    then show "part_sum ys p - part_sum ys q \<le> M"
      using new least [of p] least [of q] old [of p] Q v M by fastforce
  qed
qed

lemma sub_part_sum:
  assumes "\<forall>x\<in>set xs. 0 \<le> x" and "mset p \<subseteq># mset [0..<length xs]"
  shows "0 \<le> part_sum xs p" and "part_sum xs p \<le> sum_list xs"
proof -
  obtain r where r: "mset [0..<length xs] = mset p + mset r"
    using assms(2) by (metis ex_mset subset_mset.add_diff_inverse)
  then have mem: "i < length xs" if "i \<in> set p \<or> i \<in> set r" for i
    using that mset_eq_setD [of "[0..<length xs]" "p @ r"] by auto
  then have nn: "0 \<le> part_sum xs p" "0 \<le> part_sum xs r"
    using assms(1) by (auto simp: part_sum_def intro!: sum_list_nonneg)
  have "mset [0..<length xs] = mset (p @ r)" using r by simp
  from sum_list_map_mset [OF this, of "\<lambda>i. xs ! i"]
  have "sum_list xs = part_sum xs p + part_sum xs r" by (simp add: part_sum_def map_nth)
  with nn show "0 \<le> part_sum xs p" and "part_sum xs p \<le> sum_list xs" by auto
qed

text \<open>With the bias, a part that is one item ahead never has the least sum.\<close>

definition level :: "nat list list \<Rightarrow> bool" where
  "level parts \<longleftrightarrow> (\<exists>c. \<forall>p\<in>set parts. length p = c \<or> length p = Suc c)"

lemma biased_part_sum:
  assumes "set p \<subseteq> {..<length xs}"
  shows "part_sum (map (\<lambda>x. x + b) xs) p = int (length p) * b + part_sum xs p"
  using assms by (induction p) (auto simp: part_sum_def algebra_simps)

lemma greedy_level_step:
  assumes nn: "\<forall>x\<in>set xs. 0 \<le> x" and ys: "ys = map (\<lambda>x. x + (sum_list xs + 1)) xs"
    and inv: "greedy_inv k ys seen parts psums" and all: "[0..<length xs] = seen @ i # rest"
    and m: "m < k" "\<forall>j<k. psums ! m \<le> psums ! j" and Q: "level parts"
  shows "level (parts[m := parts ! m @ [i]])"
proof -
  have len: "length parts = k" and s: "\<And>j. j < k \<Longrightarrow> psums ! j = part_sum ys (parts ! j)"
    and seen: "mset (concat parts) = mset seen"
    using inv by (auto simp: greedy_inv_def)
  have sub: "mset p \<subseteq># mset [0..<length xs]" if "p \<in> set parts" for p
  proof -
    have "mset p \<subseteq># mset (concat parts)" using that by (induction parts) (auto intro: subset_mset.add_increasing2 subset_mset.add_increasing)
    also have "\<dots> \<subseteq># mset [0..<length xs]" by (simp add: seen all)
    finally show ?thesis .
  qed
  have sums: "part_sum ys p = int (length p) * (sum_list xs + 1) + part_sum xs p"
      "0 \<le> part_sum xs p" "part_sum xs p \<le> sum_list xs" if "p \<in> set parts" for p
    using biased_part_sum sub_part_sum [OF nn sub] set_mset_mono [OF sub] that
    by (auto simp: ys atLeast0LessThan)
  obtain c where c: "\<forall>p\<in>set parts. length p = c \<or> length p = Suc c"
    using Q unfolding level_def by blast
  have pm: "parts ! m \<in> set parts" using m len by simp
  have upd: "p = parts ! m @ [i] \<or> p \<in> set parts" if "p \<in> set (parts[m := parts ! m @ [i]])" for p
    using that set_update_subset_insert by fast
  show ?thesis
  proof (cases "length (parts ! m) = c")
    case True
    then show ?thesis unfolding level_def using upd c by (intro exI [of _ c]) fastforce
  next
    case False
    with c pm have ahead: "length (parts ! m) = Suc c" by blast
    have "length p = Suc c" if p: "p \<in> set parts" for p
    proof (rule ccontr)
      assume "length p \<noteq> Suc c"
      with c p have "length p = c" by blast
      obtain j where "j < k" "p = parts ! j" using p len by (metis in_set_conv_nth)
      then have "part_sum ys (parts ! m) \<le> part_sum ys p" using m s by auto
      then have "(int c + 1) * (sum_list xs + 1) + part_sum xs (parts ! m) \<le>
          int c * (sum_list xs + 1) + part_sum xs p"
        using sums(1) [OF pm] sums(1) [OF p] ahead \<open>length p = c\<close> by (simp add: algebra_simps)
      then show False using sums(2) [OF pm] sums(3) [OF p] by (simp add: algebra_simps)
    qed
    then show ?thesis unfolding level_def using upd ahead by (intro exI [of _ "Suc c"]) fastforce
  qed
qed

lemma level_divisible:
  assumes "level parts" and "length parts = k" and "0 < k" and "k dvd length (concat parts)"
  shows "\<forall>p\<in>set parts. length p * k = length (concat parts)"
proof -
  obtain c where c: "\<forall>p\<in>set parts. length p = c \<or> length p = Suc c"
    using assms(1) unfolding level_def by blast
  define r where "r = length (filter (\<lambda>p. length p = Suc c) parts)"
  have total: "length (concat ps) = length ps * c + length (filter (\<lambda>p. length p = Suc c) ps)"
    if "\<forall>p\<in>set ps. length p = c \<or> length p = Suc c" for ps :: "nat list list"
    using that by (induction ps) auto
  have tot: "length (concat parts) = k * c + r"
    using total [OF c] assms(2) by (simp add: r_def)
  with assms(4) have "k dvd r" by (simp add: dvd_add_right_iff)
  moreover have "r \<le> k" using assms(2) by (metis r_def length_filter_le)
  ultimately have "r = 0 \<or> r = k" using dvd_imp_le [of k r] by auto
  then show ?thesis
  proof
    assume "r = 0"
    then have "\<forall>p\<in>set parts. length p = c" using c by (auto simp: r_def filter_empty_conv)
    then show ?thesis using tot \<open>r = 0\<close> by simp
  next
    assume "r = k"
    then have "filter (\<lambda>p. length p = Suc c) parts = parts"
      using assms(2) by (metis r_def filter_True filter_id_conv length_filter_less less_irrefl)
    then have "\<forall>p\<in>set parts. length p = Suc c" by (simp add: filter_id_conv)
    then show ?thesis using tot \<open>r = k\<close> by (simp add: algebra_simps)
  qed
qed

lemma greedy_partition_run:
  assumes k: "0 < k" and "Q (replicate k [])"
    and ys: "ys = map (\<lambda>x. x + (if eq then sum_list xs + 1 else 0)) xs"
    and step: "\<And>seen rest parts psums m i. [0..<length xs] = seen @ i # rest \<Longrightarrow>
        greedy_inv k ys seen parts psums \<Longrightarrow> Q parts \<Longrightarrow> m < k \<Longrightarrow>
        \<forall>j<k. psums ! m \<le> psums ! j \<Longrightarrow> Q (parts[m := parts ! m @ [i]])"
  shows "\<exists>ps. greedy_partition xs k eq =
       ensure (eq \<longrightarrow> (\<forall>p\<in>set ps. length p * k = length xs)) AssertionError (Inr ps) \<and>
     length ps = k \<and> Q ps \<and> mset (concat ps) = mset [0..<length xs]"
proof -
  have items: "map (\<lambda>i. (xs ! i + (if eq then sum_list xs + 1 else 0), i)) [0..<length xs] =
        map (\<lambda>i. (ys ! i, i)) [0..<length xs]"
    by (simp add: ys)
  have "\<exists>ps. greedy_loop k (map (\<lambda>i. (ys ! i, i)) [0..<length xs]) (replicate k [])
      (replicate k 0) = Inr ps \<and> length ps = k \<and> Q ps \<and> mset (concat ps) = mset [0..<length xs]"
    by (rule greedy_loop_result [where Q = Q and seen = "[]", OF k greedy_inv_start assms(2)])
      (use step in simp_all)
  then show ?thesis
    unfolding greedy_partition_def Let_def items by auto
qed

interpretation greedy: partitioner greedy_partition
proof unfold_locales
  fix k :: nat and xs :: "int list" and eq :: bool
  assume k: "0 < k" and "xs \<noteq> []" and nn: "\<forall>x\<in>set xs. 0 \<le> x" and eq: "eq \<longrightarrow> k dvd length xs"
  define ys where "ys = map (\<lambda>x. x + (if eq then sum_list xs + 1 else 0)) xs"
  have "\<exists>ps. greedy_partition xs k eq =
       ensure (eq \<longrightarrow> (\<forall>p\<in>set ps. length p * k = length xs)) AssertionError (Inr ps) \<and>
     length ps = k \<and> (eq \<longrightarrow> level ps) \<and> mset (concat ps) = mset [0..<length xs]"
  proof (rule greedy_partition_run [OF k _ ys_def])
    show "eq \<longrightarrow> level (replicate k [])" by (simp add: level_def)
    fix seen rest parts psums m i
    assume "[0..<length xs] = seen @ i # rest" "greedy_inv k ys seen parts psums"
      "eq \<longrightarrow> level parts" "m < k" "\<forall>j<k. psums ! m \<le> psums ! j"
    then show "eq \<longrightarrow> level (parts[m := parts ! m @ [i]])"
      using greedy_level_step [OF nn, of ys k seen parts psums i rest m] by (simp add: ys_def)
  qed
  then obtain ps where ps: "greedy_partition xs k eq =
       ensure (eq \<longrightarrow> (\<forall>p\<in>set ps. length p * k = length xs)) AssertionError (Inr ps)"
     "length ps = k" "eq \<longrightarrow> level ps" "mset (concat ps) = mset [0..<length xs]" by blast
  have "length (concat ps) = length xs" using mset_upt_perm(3) [OF ps(4)] .
  then have "eq \<longrightarrow> (\<forall>p\<in>set ps. length p * k = length xs)"
    using level_divisible [of ps k] ps k eq by auto
  with ps show "\<exists>ps. greedy_partition xs k eq = Inr ps \<and> length ps = k \<and>
      mset (concat ps) = mset [0..<length xs] \<and> (eq \<longrightarrow> (\<forall>p\<in>set ps. length p * k = length xs))"
    by (intro exI [of _ ps]) simp
next
  fix k :: nat and xs :: "int list" and M ps p q
  assume k: "0 < k" and ne: "xs \<noteq> []" and M: "\<forall>x\<in>set xs. 0 \<le> x \<and> x \<le> M"
    and run: "greedy_partition xs k False = Inr ps" and pq: "p \<in> set ps" "q \<in> set ps"
  let ?Q = "\<lambda>parts. \<forall>p\<in>set parts. \<forall>q\<in>set parts. part_sum xs p - part_sum xs q \<le> M"
  have M0: "0 \<le> M" using M ne by (meson list.set_sel(1) order_trans)
  have "\<exists>ps. greedy_partition xs k False =
       ensure (False \<longrightarrow> (\<forall>p\<in>set ps. length p * k = length xs)) AssertionError (Inr ps) \<and>
     length ps = k \<and> ?Q ps \<and> mset (concat ps) = mset [0..<length xs]"
  proof (rule greedy_partition_run [OF k, of ?Q xs])
    show "?Q (replicate k [])" using M0 by (simp add: part_sum_def)
    fix seen rest parts psums m i
    assume a: "[0..<length xs] = seen @ i # rest" "greedy_inv k xs seen parts psums" "?Q parts" "m < k"
      "\<forall>j<k. psums ! m \<le> psums ! j"
    have "i \<in> set [0..<length xs]" unfolding a(1) by simp
    then have "0 \<le> xs ! i" "xs ! i \<le> M" using M by auto
    with a show "?Q (parts[m := parts ! m @ [i]])" by (intro greedy_spread_step)
  qed simp
  with run pq show "part_sum xs p - part_sum xs q \<le> M" by auto
qed

section \<open>get_seqlen_balanced_partitions\<close>

definition calculate_workload :: "int \<Rightarrow> int" where
  "calculate_workload seqlen = 24576 * seqlen + seqlen ^ 2"

definition check_and_sort_partitions :: "nat \<Rightarrow> nat \<Rightarrow> nat list list \<Rightarrow> nat list list result" where
  "check_and_sort_partitions k n partitions =
     ensure (length partitions = k) AssertionError
      (ensure (\<forall>p\<in>set partitions. 0 < length p) AssertionError
        (ensure (set (concat partitions) = set [0..<n]) AssertionError
          (Inr (map sort partitions))))"

definition get_seqlen_balanced_partitions :: "int list \<Rightarrow> nat \<Rightarrow> bool \<Rightarrow> nat list list result" where
  "get_seqlen_balanced_partitions seqlen_list k_partitions equal_size =
     ensure (k_partitions \<le> length seqlen_list) AssertionError
      (rbind (karmarkar_karp seqlen_list k_partitions equal_size)
        (check_and_sort_partitions k_partitions (length seqlen_list)))"

text \<open>What the check accepts is a partition; what a \<open>full_partitioner\<close> returns is accepted.\<close>

definition partition_of :: "nat \<Rightarrow> nat \<Rightarrow> nat list list \<Rightarrow> bool" where
  "partition_of k n ps \<longleftrightarrow>
     length ps = k \<and> mset (concat ps) = mset [0..<n] \<and> (\<forall>p\<in>set ps. p \<noteq> [] \<and> sorted p)"

context full_partitioner begin

lemma checked_partition:
  assumes "0 < k" "k \<le> length xs" "\<forall>x\<in>set xs. 0 \<le> x" "eq \<longrightarrow> k dvd length xs"
  shows "\<exists>ps. partition_fn xs k eq = Inr ps \<and>
     check_and_sort_partitions k (length xs) ps = Inr (map sort ps) \<and>
     partition_of k (length xs) (map sort ps) \<and> (eq \<longrightarrow> (\<forall>p\<in>set ps. length p * k = length xs))"
proof -
  have "xs \<noteq> []" using assms(1,2) by auto
  then obtain ps where ps: "partition_fn xs k eq = Inr ps" "length ps = k"
      "mset (concat ps) = mset [0..<length xs]" "eq \<longrightarrow> (\<forall>p\<in>set ps. length p * k = length xs)"
    using part_ok assms by blast
  have ne: "\<forall>p\<in>set ps. p \<noteq> []" using part_nonempty [OF assms ps(1)] by blast
  have "mset (concat (map sort ps)) = mset (concat ps)" by (simp add: mset_concat comp_def)
  then have "partition_of k (length xs) (map sort ps)"
    using ps ne by (simp add: partition_of_def) (metis mset_sort mset_zero_iff)
  moreover have "check_and_sort_partitions k (length xs) ps = Inr (map sort ps)"
    using ps(2) ne mset_eq_setD [OF ps(3)] by (simp add: check_and_sort_partitions_def)
  ultimately show ?thesis using ps by blast
qed

end

lemma part_sum_sort [simp]: "part_sum xs (sort p) = part_sum xs p"
  unfolding part_sum_def by (rule sum_list_map_mset) simp

lemma balanced_partitions_run:
  assumes "0 < k" and "k \<le> length xs" and "\<forall>x\<in>set xs. 0 \<le> x" and "eq \<longrightarrow> k dvd length xs"
  shows "\<exists>ps. get_seqlen_balanced_partitions xs k eq = Inr ps \<and> partition_of k (length xs) ps \<and>
     (eq \<longrightarrow> (\<forall>p\<in>set ps. length p * k = length xs)) \<and>
     (\<forall>p\<in>set ps. \<forall>q\<in>set ps. part_sum xs p - part_sum xs q \<le> Max (set xs))"
proof -
  from kkp.checked_partition [OF assms] obtain ps where ps: "karmarkar_karp xs k eq = Inr ps"
      "check_and_sort_partitions k (length xs) ps = Inr (map sort ps)"
      "partition_of k (length xs) (map sort ps)" "eq \<longrightarrow> (\<forall>p\<in>set ps. length p * k = length xs)"
    by blast
  have ne: "xs \<noteq> []" using assms by auto
  have "\<forall>x\<in>set xs. 0 \<le> x \<and> x \<le> Max (set xs)" using assms(3) by simp
  from karmarkar_karp_balance(1) [OF assms(1) ne assms(4) this ps(1)] ps assms(2)
  show ?thesis
    by (intro exI [of _ "map sort ps"]) (simp add: get_seqlen_balanced_partitions_def)
qed

text \<open>
  C37: for non-negative lengths, \<open>1 <= k <= n\<close> parts and, with \<open>equal_size\<close>, \<open>k\<close> dividing \<open>n\<close>,
  \<open>get_seqlen_balanced_partitions\<close> returns: its \<open>k\<close> sorted non-empty parts hold every index
  exactly once, with \<open>equal_size\<close> they have the same number of items, and the sums of any two
  parts differ by at most the longest sequence. No assertion of the code can fail there.
\<close>

theorem balanced_partitions_total:
  assumes "0 < k" and "k \<le> length xs" and "\<forall>x\<in>set xs. 0 \<le> x" and "eq \<longrightarrow> k dvd length xs"
  shows "\<exists>ps. get_seqlen_balanced_partitions xs k eq = Inr ps \<and> partition_of k (length xs) ps \<and>
     (eq \<longrightarrow> (\<forall>p\<in>set ps. length p * k = length xs)) \<and>
     (\<forall>p\<in>set ps. \<forall>q\<in>set ps. part_sum xs p - part_sum xs q \<le> Max (set xs))"
  using balanced_partitions_run [OF assms] .

lemma balanced_partitions_total_witness:
  "\<exists>ps. get_seqlen_balanced_partitions [5, 0, 7, 2] 2 True = Inr ps \<and> partition_of 2 (4) ps \<and>
     (\<forall>p\<in>set ps. length p * 2 = 4) \<and>
     (\<forall>p\<in>set ps. \<forall>q\<in>set ps. part_sum [5, 0, 7, 2] p - part_sum [5, 0, 7, 2] q \<le> 7)"
proof -
  have "length [5, 0, 7, 2 :: int] = 4" by simp
  with balanced_partitions_total [of 2 "[5, 0, 7, 2]" True] show ?thesis
    by (simp del: list.size)
qed

text \<open>
  Which exception \<open>get_seqlen_balanced_partitions\<close> ends with on non-negative lengths, if any:
  too few items and, with \<open>equal_size\<close>, a count that \<open>k\<close> does not divide are assertion failures,
  \<open>k = 0\<close> is a division by zero with \<open>equal_size\<close> and an index error without; every other call
  returns.
\<close>

theorem balanced_partitions_errors:
  assumes "\<forall>x\<in>set xs. 0 \<le> x"
  shows "raised (get_seqlen_balanced_partitions xs k eq) =
     (if length xs < k then Some AssertionError
      else if k = 0 then Some (if eq then ZeroDivisionError else IndexError)
      else if eq \<and> \<not> k dvd length xs then Some AssertionError
      else None)"
proof -
  have zero: "get_seqlen_balanced_partitions xs 0 False = Inl IndexError"
    by (cases "sorted_seqlen_list xs")
      (simp_all add: get_seqlen_balanced_partitions_def karmarkar_karp_def initial_items_def Let_def
          py_get_def kk_loop.simps [of "[]"] state_init_def split_beta)
  have zero': "get_seqlen_balanced_partitions xs 0 True = Inl ZeroDivisionError"
    by (simp add: get_seqlen_balanced_partitions_def karmarkar_karp_def)
  have few: "length xs < k \<Longrightarrow> get_seqlen_balanced_partitions xs k eq = Inl AssertionError"
    by (simp add: get_seqlen_balanced_partitions_def)
  have div: "k \<le> length xs \<Longrightarrow> 0 < k \<Longrightarrow> \<not> k dvd length xs \<Longrightarrow>
     get_seqlen_balanced_partitions xs k True = Inl AssertionError"
    by (simp add: get_seqlen_balanced_partitions_def karmarkar_karp_def dvd_eq_mod_eq_0)
  have ok: "raised (get_seqlen_balanced_partitions xs k eq) = None"
    if "0 < k" "k \<le> length xs" "eq \<longrightarrow> k dvd length xs"
    using balanced_partitions_total [OF that(1,2) assms that(3)] by auto
  show ?thesis using zero zero' few div ok by (cases eq) auto
qed

lemma balanced_partitions_errors_witness:
  "raised (get_seqlen_balanced_partitions [3, 1, 4] 2 True) = Some AssertionError"
  using balanced_partitions_errors [of "[3, 1, 4]" 2 True] by simp

text \<open>Whatever the values, what the function returns is a partition.\<close>

lemma balanced_partitions_sound:
  assumes "get_seqlen_balanced_partitions xs k eq = Inr ps"
  shows "partition_of k (length xs) ps" and "0 < k"
proof -
  show k: "0 < k"
  proof (rule ccontr)
    assume "\<not> 0 < k"
    then have "get_seqlen_balanced_partitions xs 0 eq = Inr ps" using assms by simp
    then show False
      by (cases eq; cases "sorted_seqlen_list xs")
        (simp_all add: get_seqlen_balanced_partitions_def karmarkar_karp_def initial_items_def Let_def
          py_get_def kk_loop.simps [of "[]"] state_init_def split_beta)
  qed
  from assms obtain qs where qs: "karmarkar_karp xs k eq = Inr qs" "k \<le> length xs"
      "length qs = k" "\<forall>p\<in>set qs. p \<noteq> []" "ps = map sort qs"
    by (auto simp: get_seqlen_balanced_partitions_def check_and_sort_partitions_def rbind_eq_Inr
        ensure_eq_Inr)
  have "eq \<longrightarrow> k dvd length xs"
    using qs(1) k by (auto simp: karmarkar_karp_def ensure_eq_Inr dvd_eq_mod_eq_0)
  moreover have "xs \<noteq> []" using k qs(2) by auto
  ultimately have perm: "mset (concat qs) = mset [0..<length xs]"
    using karmarkar_karp_total [OF k, of xs eq] qs(1) by auto
  have "mset (concat (map sort qs)) = mset (concat qs)" by (simp add: mset_concat comp_def)
  moreover have "sort p \<noteq> []" if "p \<in> set qs" for p
    using qs(4) that by (metis mset_sort mset_zero_iff)
  ultimately show "partition_of k (length xs) ps"
    using qs perm by (auto simp: partition_of_def)
qed

section \<open>Integer helpers\<close>

text \<open>Python's \<open>//\<close> rounds towards minus infinity, as \<open>div\<close> on \<open>int\<close> does.\<close>

definition ceildiv :: "int \<Rightarrow> int \<Rightarrow> int result" where
  "ceildiv a b = ensure (b \<noteq> 0) ZeroDivisionError (Inr (- (a div (- b))))"

definition roundup_divisible :: "int \<Rightarrow> int \<Rightarrow> int result" where
  "roundup_divisible a b = ensure (b \<noteq> 0) ZeroDivisionError (Inr (((a + b - 1) div b) * b))"

lemma ceildiv_bounds:
  assumes "0 < b"
  shows "\<exists>c. ceildiv a b = Inr c \<and> a \<le> c * b \<and> c * b < a + b"
proof -
  have "a div (- b) = (- a) div b" by (rule div_minus_right)
  then have eq: "ceildiv a b = Inr (- ((- a) div b))" using assms by (simp add: ceildiv_def)
  define q r where "q = (- a) div b" and "r = (- a) mod b"
  have "- a = b * q + r" "0 \<le> r" "r < b" using assms by (simp_all add: q_def r_def)
  then have "a \<le> - q * b" "- q * b < a + b" by (simp_all add: algebra_simps)
  then have "a \<le> - ((- a) div b) * b" "- ((- a) div b) * b < a + b" by (simp_all add: q_def)
  with eq show ?thesis by blast
qed

lemma roundup_divisible_bounds:
  assumes "0 < b"
  shows "\<exists>c. roundup_divisible a b = Inr c \<and> b dvd c \<and> a \<le> c \<and> c < a + b"
proof -
  define q r where "q = (a + b - 1) div b" and "r = (a + b - 1) mod b"
  have "a + b - 1 = b * q + r" "0 \<le> r" "r < b" using assms by (simp_all add: q_def r_def)
  then have "a \<le> q * b" "q * b < a + b" by (simp_all add: algebra_simps)
  then have "a \<le> ((a + b - 1) div b) * b" "((a + b - 1) div b) * b < a + b" by (simp_all add: q_def)
  then show ?thesis using assms by (simp add: roundup_divisible_def)
qed

section \<open>log_seqlen_unbalance\<close>

record unbalance_metrics =
  m_min :: int
  m_max :: int
  m_minmax_diff :: int
  m_balanced_min :: int
  m_balanced_max :: int
  m_mean :: real

definition log_seqlen_unbalance :: "int list \<Rightarrow> nat list list \<Rightarrow> unbalance_metrics result" where
  "log_seqlen_unbalance seqlen_list partitions =
     (let k_partition = length partitions;
          batch_size = length seqlen_list div k_partition;
          chunk_sums = map sum_list (py_chunks batch_size seqlen_list)
      in ensure (k_partition \<noteq> 0) ZeroDivisionError
          (ensure (batch_size \<noteq> 0) ValueError
            (rbind (mapM_result (\<lambda>p. rbind (mapM_result (py_get seqlen_list) p) (\<lambda>vs. Inr (sum_list vs)))
                     partitions) (\<lambda>balanced.
              Inr \<lparr>m_min = Min (set chunk_sums), m_max = Max (set chunk_sums),
                   m_minmax_diff = Max (set chunk_sums) - Min (set chunk_sums),
                   m_balanced_min = Min (set balanced), m_balanced_max = Max (set balanced),
                   m_mean = real_of_int (sum_list chunk_sums) / real k_partition\<rparr>))))"

lemma sum_list_bounds:
  fixes xs :: "int list"
  assumes "xs \<noteq> []"
  shows "int (length xs) * Min (set xs) \<le> sum_list xs" and "sum_list xs \<le> int (length xs) * Max (set xs)"
proof -
  have lo: "int (length ys) * c \<le> sum_list ys" if "\<forall>y\<in>set ys. c \<le> y" for c and ys :: "int list"
    using that by (induction ys) (auto simp: algebra_simps)
  have hi: "sum_list ys \<le> int (length ys) * c" if "\<forall>y\<in>set ys. y \<le> c" for c and ys :: "int list"
    using that by (induction ys) (auto simp: algebra_simps)
  show "int (length xs) * Min (set xs) \<le> sum_list xs" by (rule lo) simp
  show "sum_list xs \<le> int (length xs) * Max (set xs)" by (rule hi) simp
qed

text \<open>
  On any distribution of the indices over \<open>k\<close> parts with \<open>k <= n\<close>, \<open>log_seqlen_unbalance\<close>
  returns, and the mean it reports lies between the least and the largest sum of a part.
\<close>

theorem log_seqlen_unbalance_mean:
  assumes "mset (concat ps) = mset [0..<length xs]" and "0 < length ps" and "length ps \<le> length xs"
  shows "\<exists>m. log_seqlen_unbalance xs ps = Inr m \<and> m_balanced_min m \<le> m_mean m \<and>
     m_mean m \<le> m_balanced_max m \<and> 0 \<le> m_minmax_diff m"
proof -
  define b where "b = length xs div length ps"
  have b: "0 < b" using assms(2,3) by (simp add: b_def div_greater_zero_iff)
  have "set (concat ps) = {..<length xs}" using mset_upt_perm(2) [OF assms(1)] .
  then have "mapM_result (py_get xs) p = Inr (map ((!) xs) p)" if "p \<in> set ps" for p
    using that by (intro mapM_result_Inr) (auto intro!: py_get_in_range)
  then have bal: "mapM_result (\<lambda>p. rbind (mapM_result (py_get xs) p) (\<lambda>vs. Inr (sum_list vs))) ps =
      Inr (map (part_sum xs) ps)"
    by (intro mapM_result_Inr) (simp add: part_sum_def)
  have tot: "sum_list (map sum_list (py_chunks b xs)) = sum_list xs"
    using concat_py_chunks [OF b, of xs] by (metis sum_list_concat)
  have "sum_list (map (part_sum xs) ps) = sum_list (map ((!) xs) (concat ps))"
    by (simp add: part_sum_def [abs_def] sum_list_concat map_concat comp_def)
  also have "\<dots> = sum_list (map ((!) xs) [0..<length xs])" by (rule sum_list_map_mset [OF assms(1)])
  finally have parts: "sum_list (map (part_sum xs) ps) = sum_list xs" by (simp add: map_nth)
  let ?S = "map (part_sum xs) ps"
  have "?S \<noteq> []" using assms(2) by auto
  from sum_list_bounds [OF this] parts
  have lo: "int (length ps) * Min (set ?S) \<le> sum_list xs"
    and hi: "sum_list xs \<le> int (length ps) * Max (set ?S)" by simp_all
  have lo': "real_of_int (Min (set ?S)) \<le> real_of_int (sum_list xs) / real (length ps)"
    using lo assms(2) by (simp add: pos_le_divide_eq mult.commute) (metis of_int_le_iff of_int_mult of_int_of_nat_eq)
  have hi': "real_of_int (sum_list xs) / real (length ps) \<le> real_of_int (Max (set ?S))"
    using hi assms(2) by (simp add: pos_divide_le_eq mult.commute) (metis of_int_le_iff of_int_mult of_int_of_nat_eq)
  have ne: "set (map sum_list (py_chunks b xs)) \<noteq> {}"
    using b assms(2,3) by (auto simp: py_chunks.simps [of b xs])
  then have "Min (set (map sum_list (py_chunks b xs))) \<le> Max (set (map sum_list (py_chunks b xs)))"
    by (meson List.finite_set Max_ge Min_in)
  with lo' hi' bal tot b assms(2) show ?thesis
    unfolding log_seqlen_unbalance_def Let_def b_def [symmetric] by simp
qed

lemma log_seqlen_unbalance_mean_witness:
  "\<exists>m. log_seqlen_unbalance [5, 0, 7, 2] [[2], [0, 3, 1]] = Inr m \<and> m_balanced_min m \<le> m_mean m \<and>
     m_mean m \<le> m_balanced_max m \<and> 0 \<le> m_minmax_diff m"
  using log_seqlen_unbalance_mean [of "[[2], [0, 3, 1]]" "[5, 0, 7, 2]"]
  by (simp add: upt_rec numeral_2_eq_2 numeral_3_eq_3)

section \<open>get_group_balanced_partitions\<close>

text \<open>
  A uid is an \<open>option\<close>: \<open>None\<close> is Python's \<open>None\<close>, the initial value of \<open>current_uid\<close>.
\<close>

record 'u group_state =
  groups :: "(nat list \<times> int) list"
  current_uid :: "'u option"
  current_indices :: "nat list"
  current_seqlen :: int

definition close_group :: "'u group_state \<Rightarrow> (nat list \<times> int) list" where
  "close_group st =
     (if current_indices st \<noteq> [] then groups st @ [(current_indices st, current_seqlen st)]
      else groups st)"

definition group_step :: "int list \<Rightarrow> 'u option list \<Rightarrow> 'u group_state \<Rightarrow> nat \<Rightarrow> 'u group_state" where
  "group_step seqlen_list uid_list st i =
     (if uid_list ! i \<noteq> current_uid st
      then \<lparr>groups = close_group st, current_uid = uid_list ! i, current_indices = [i],
            current_seqlen = seqlen_list ! i\<rparr>
      else st\<lparr>current_indices := current_indices st @ [i],
              current_seqlen := current_seqlen st + seqlen_list ! i\<rparr>)"

definition build_groups :: "int list \<Rightarrow> 'u option list \<Rightarrow> nat \<Rightarrow> 'u group_state" where
  "build_groups seqlen_list uid_list n =
     foldl (group_step seqlen_list uid_list)
       \<lparr>groups = [], current_uid = None, current_indices = [], current_seqlen = 0\<rparr> [0..<n]"

definition get_group_balanced_partitions ::
  "int list \<Rightarrow> 'u option list \<Rightarrow> nat \<Rightarrow> nat list list result" where
  "get_group_balanced_partitions seqlen_list uid_list k_partitions =
     ensure (length seqlen_list = length uid_list) AssertionError
       (let gs = close_group (build_groups seqlen_list uid_list (length seqlen_list));
            group_workloads =
              map (\<lambda>(indices, _). sum_list (map (\<lambda>i. calculate_workload (seqlen_list ! i)) indices)) gs
        in ensure (k_partitions \<le> length gs) AssertionError
            (rbind (get_seqlen_balanced_partitions group_workloads k_partitions True)
              (\<lambda>group_partitions.
                Inr (map (\<lambda>gp. sort (concat (map (\<lambda>g. fst (gs ! g)) gp))) group_partitions))))"

text \<open>The groups are the maximal runs of one uid, in order.\<close>

definition run_groups :: "'u option list \<Rightarrow> nat \<Rightarrow> nat list list \<Rightarrow> bool" where
  "run_groups uids n gs \<longleftrightarrow>
     concat gs = [0..<n] \<and> [] \<notin> set gs \<and>
     (\<forall>g\<in>set gs. \<forall>i\<in>set g. Suc i < n \<and> uids ! i = uids ! Suc i \<longrightarrow> Suc i \<in> set g)"

lemma build_groups_inv:
  "build_groups xs uids n = st \<Longrightarrow>
   (n = 0 \<longrightarrow> current_indices st = [] \<and> groups st = []) \<and>
   (0 < n \<longrightarrow> current_indices st \<noteq> [] \<and> current_uid st = uids ! (n - 1)) \<and>
   run_groups uids n (map fst (close_group st))"
proof (induction n arbitrary: st)
  case 0
  then show ?case by (auto simp: build_groups_def close_group_def run_groups_def)
next
  case (Suc n)
  define s where "s = build_groups xs uids n"
  have st: "st = group_step xs uids s n"
    using Suc.prems by (simp add: build_groups_def s_def)
  note IH = Suc.IH [OF s_def [symmetric]]
  have runs: "concat (map fst (close_group s)) = [0..<n]" "[] \<notin> set (map fst (close_group s))"
    and closed: "\<And>g i. g \<in> set (map fst (close_group s)) \<Longrightarrow> i \<in> set g \<Longrightarrow> Suc i < n \<Longrightarrow>
        uids ! i = uids ! Suc i \<Longrightarrow> Suc i \<in> set g"
    using IH unfolding run_groups_def by blast+
  have below: "i < n" if "g \<in> set (map fst (close_group s))" "i \<in> set g" for g i
  proof -
    have "i \<in> set (concat (map fst (close_group s)))" using that by auto
    then show ?thesis unfolding runs(1) by simp
  qed
  show ?case
  proof (cases "uids ! n = current_uid s")
    case False
    have new: "map fst (close_group st) = map fst (close_group s) @ [[n]]"
      using False by (simp add: st group_step_def close_group_def)
    have "Suc i \<in> set g" if "g \<in> set (map fst (close_group s))" "i \<in> set g" "Suc i < Suc n"
      "uids ! i = uids ! Suc i" for g i
    proof (cases "Suc i < n")
      case True
      with that closed show ?thesis by blast
    next
      case False
      then have "i = n - 1" "0 < n" using that(3) by auto
      with IH that(4) \<open>uids ! n \<noteq> current_uid s\<close> show ?thesis by simp
    qed
    then have "run_groups uids (Suc n) (map fst (close_group st))"
      unfolding run_groups_def new using runs by auto
    with False show ?thesis by (simp add: st group_step_def)
  next
    case True
    show ?thesis
    proof (cases "n = 0")
      case True
      then show ?thesis
        using IH \<open>uids ! n = current_uid s\<close>
        by (auto simp: st group_step_def close_group_def run_groups_def)
    next
      case n: False
      then have ne: "current_indices s \<noteq> []" using IH by simp
      have old: "map fst (close_group s) = map fst (groups s) @ [current_indices s]"
        using ne by (simp add: close_group_def)
      have new: "map fst (close_group st) = map fst (groups s) @ [current_indices s @ [n]]"
        using True by (simp add: st group_step_def close_group_def)
      have last: "n - 1 \<in> set (current_indices s)"
      proof -
        have "last (concat (map fst (close_group s))) = n - 1" using runs(1) n by simp
        moreover have "last (concat (map fst (close_group s))) = last (current_indices s)"
          unfolding old using ne by simp
        ultimately show ?thesis using ne by (metis last_in_set)
      qed
      have notin: "n - 1 \<notin> set g" if "g \<in> set (map fst (groups s))" for g
      proof
        assume "n - 1 \<in> set g"
        moreover have "distinct (concat (map fst (close_group s)))" unfolding runs(1) by simp
        ultimately show False using last that unfolding old by auto
      qed
      have "Suc i \<in> set g" if "g \<in> set (map fst (groups s))" "i \<in> set g" "Suc i < Suc n"
        "uids ! i = uids ! Suc i" for g i
      proof -
        have "i \<noteq> n - 1" using notin that by blast
        then have "Suc i < n" using that(3) by linarith
        then show ?thesis using closed [of g i] that old by simp
      qed
      moreover have "Suc i \<in> set (current_indices s @ [n])"
        if "i \<in> set (current_indices s @ [n])" "Suc i < Suc n" "uids ! i = uids ! Suc i" for i
        using that closed [of "current_indices s" i] old n by (cases "Suc i = n") auto
      moreover have "concat (map fst (close_group st)) = [0..<Suc n]"
        using runs(1) unfolding old new by simp
      ultimately have "run_groups uids (Suc n) (map fst (close_group st))"
        unfolding run_groups_def new using runs(2) old by auto
      with True ne show ?thesis by (simp add: st group_step_def)
    qed
  qed
qed

lemma remdups_adj_snoc:
  "xs \<noteq> [] \<Longrightarrow> length (remdups_adj (xs @ [x])) =
     (if last xs = x then length (remdups_adj xs) else Suc (length (remdups_adj xs)))"
  by (induction xs rule: remdups_adj.induct) auto

lemma group_count:
  "n \<le> length uids \<Longrightarrow>
   length (close_group (build_groups xs uids n)) = length (remdups_adj (take n uids))"
proof (induction n)
  case 0
  then show ?case by (simp add: build_groups_def close_group_def)
next
  case (Suc n)
  define s where "s = build_groups xs uids n"
  note inv = build_groups_inv [OF s_def [symmetric]]
  have b: "build_groups xs uids (Suc n) = group_step xs uids s n"
    by (simp add: build_groups_def s_def)
  have take: "take (Suc n) uids = take n uids @ [uids ! n]"
    using Suc.prems by (simp add: take_Suc_conv_app_nth)
  show ?case
  proof (cases "n = 0")
    case True
    then show ?thesis using inv unfolding b take by (auto simp: group_step_def close_group_def)
  next
    case False
    then have ne: "take n uids \<noteq> []" using Suc.prems by auto
    then have "last (take n uids) = uids ! (n - 1)"
      using Suc.prems False by (simp add: last_conv_nth min_absorb2)
    then show ?thesis
      using inv Suc False ne unfolding b take
      by (auto simp: remdups_adj_snoc group_step_def close_group_def s_def)
  qed
qed

lemma mset_concat_index:
  assumes "mset (concat ps) = mset [0..<length gs]"
  shows "mset (concat (map (\<lambda>p. concat (map (\<lambda>g. gs ! g) p)) ps)) = mset (concat gs)"
proof -
  have "concat (map (\<lambda>p. concat (map (\<lambda>g. gs ! g) p)) ps) = concat (map (\<lambda>g. gs ! g) (concat ps))"
    by (induction ps) auto
  moreover have "mset (map (\<lambda>g. gs ! g) (concat ps)) = mset (map (\<lambda>g. gs ! g) [0..<length gs])"
    using assms by (simp only: mset_map)
  then have "mset (concat (map (\<lambda>g. gs ! g) (concat ps))) = mset (concat (map (\<lambda>g. gs ! g) [0..<length gs]))"
    by (rule mset_concat_mset_eq)
  ultimately show ?thesis by (simp only: map_nth)
qed

text \<open>
  For non-negative lengths and \<open>k\<close> dividing the number of runs of equal uids,
  \<open>get_group_balanced_partitions\<close> returns \<open>k\<close> sorted non-empty parts that hold every sample
  exactly once, and two neighbouring samples of one uid are in the same part.
\<close>

theorem group_partitions_keep_uids:
  assumes "length uids = length xs" and "0 < k" and "k \<le> length (remdups_adj uids)"
    and "k dvd length (remdups_adj uids)" and "\<forall>x\<in>set xs. 0 \<le> x"
  shows "\<exists>ps. get_group_balanced_partitions xs uids k = Inr ps \<and> partition_of k (length xs) ps \<and>
     (\<forall>p\<in>set ps. \<forall>i\<in>set p. Suc i < length xs \<and> uids ! i = uids ! Suc i \<longrightarrow> Suc i \<in> set p)"
proof -
  define gs where "gs = close_group (build_groups xs uids (length xs))"
  define fs where "fs = map fst gs"
  define ws where
    "ws = map (\<lambda>(indices, _). sum_list (map (\<lambda>i. calculate_workload (xs ! i)) indices)) gs"
  have len: "length gs = length (remdups_adj uids)" "length ws = length gs" "length fs = length gs"
    using group_count [of "length xs" uids xs] assms(1) by (simp_all add: gs_def ws_def fs_def)
  have runs: "concat fs = [0..<length xs]" "[] \<notin> set fs"
    and closed: "\<And>g i. g \<in> set fs \<Longrightarrow> i \<in> set g \<Longrightarrow> Suc i < length xs \<Longrightarrow>
        uids ! i = uids ! Suc i \<Longrightarrow> Suc i \<in> set g"
    using build_groups_inv [where xs = xs and uids = uids and n = "length xs", OF refl]
    unfolding run_groups_def gs_def [symmetric] fs_def [symmetric] by blast+
  have "i < length xs" if "g \<in> set gs" "i \<in> set (fst g)" for g i
  proof -
    have "i \<in> set (concat fs)" using that by (auto simp: fs_def)
    then show ?thesis unfolding runs(1) by simp
  qed
  then have "\<forall>w\<in>set ws. 0 \<le> w"
    using assms(5) by (auto simp: ws_def calculate_workload_def intro!: sum_list_nonneg)
  with kkp.checked_partition [of k ws True] assms len
  obtain ps where run: "karmarkar_karp ws k True = Inr ps"
      "check_and_sort_partitions k (length ws) ps = Inr (map sort ps)"
      "partition_of k (length ws) (map sort ps)"
    by auto
  define qs where "qs = map sort ps"
  have qs: "length qs = k" "mset (concat qs) = mset [0..<length fs]" "\<forall>q\<in>set qs. q \<noteq> []"
    using run(3) len by (auto simp: qs_def partition_of_def)
  define rs where "rs = map (\<lambda>gp. sort (concat (map (\<lambda>g. fst (gs ! g)) gp))) qs"
  have res: "get_group_balanced_partitions xs uids k = Inr rs"
    using run assms len
    by (simp add: get_group_balanced_partitions_def get_seqlen_balanced_partitions_def Let_def
        gs_def [symmetric] ws_def [symmetric] rs_def qs_def)
  have idx: "g < length gs" if "q \<in> set qs" "g \<in> set q" for q g
  proof -
    have "g \<in> set (concat qs)" using that by auto
    then have "g \<in> {..<length fs}" unfolding mset_upt_perm(2) [OF qs(2)] .
    then show ?thesis using len by simp
  qed
  then have fst: "map (\<lambda>g. fst (gs ! g)) q = map (\<lambda>g. fs ! g) q" if "q \<in> set qs" for q
    using that by (auto simp: fs_def)
  have rs: "rs = map (\<lambda>q. sort (concat (map (\<lambda>g. fs ! g) q))) qs"
    unfolding rs_def by (rule map_cong [OF refl]) (simp only: fst)
  have "mset (concat rs) = mset (concat (map (\<lambda>q. concat (map (\<lambda>g. fs ! g) q)) qs))"
    unfolding rs by (simp add: mset_concat comp_def)
  also have "\<dots> = mset [0..<length xs]"
    using mset_concat_index [OF qs(2)] runs(1) by simp
  finally have perm: "mset (concat rs) = mset [0..<length xs]" .
  have "sort (concat (map (\<lambda>g. fs ! g) q)) \<noteq> []" if q: "q \<in> set qs" for q
  proof -
    obtain g where g: "g \<in> set q" using qs(3) q by (metis last_in_set)
    then have "fs ! g \<in> set fs" using idx [OF q g] len by simp
    then have "fs ! g \<noteq> []" using runs(2) by auto
    then have "concat (map (\<lambda>g. fs ! g) q) \<noteq> []" using g by auto
    then show ?thesis by (metis mset_sort mset_zero_iff)
  qed
  then have part: "partition_of k (length xs) rs"
    using perm qs(1) by (auto simp: partition_of_def rs)
  have "Suc i \<in> set p" if "p \<in> set rs" "i \<in> set p" "Suc i < length xs" "uids ! i = uids ! Suc i" for p i
  proof -
    from that(1,2) obtain q g where "q \<in> set qs" "p = sort (concat (map (\<lambda>g. fs ! g) q))" "g \<in> set q"
        "i \<in> set (fs ! g)"
      by (auto simp: rs)
    moreover from this have "Suc i \<in> set (fs ! g)"
      using closed [of "fs ! g" i] that(3,4) idx len by simp
    ultimately show ?thesis by auto
  qed
  with res part show ?thesis by blast
qed

lemma group_partitions_keep_uids_witness:
  "\<exists>ps. get_group_balanced_partitions [5, 0, 7, 2] [Some 1, Some 1, None, Some (2 :: int)] 3 = Inr ps \<and>
     partition_of 3 4 ps"
proof -
  have l: "length [5, 0, 7, 2 :: int] = 4" "length [Some 1, Some 1, None, Some (2 :: int)] = 4"
    "length (remdups_adj [Some 1, Some 1, None, Some (2 :: int)]) = 3"
    by simp_all
  from group_partitions_keep_uids [of "[Some 1, Some 1, None, Some (2 :: int)]" "[5, 0, 7, 2]" 3,
      unfolded l]
  show ?thesis by force
qed

end
