(* ===== verification/Dynamic_Batch.thy ===== *)
theory Dynamic_Batch
  imports Seqlen_Balancing
begin

text \<open>
  Dynamic micro-batching of \<open>src/verl/utils/seqlen_balancing.py\<close>: \<open>rearrange_micro_batches\<close>,
  which splits a batch by token count, and \<open>restore_dynamic_batch\<close>, which puts the outputs of
  the micro-batches back in order. The rows of the batch are an arbitrary type; the
  \<open>all_reduce\<close> over the data-parallel group is the parameter \<open>sync\<close> (\<open>None\<close> when the code does
  not call it). The lemmas show that the micro-batches partition the batch, keep forced groups
  together and are undone by the restoration.
\<close>

section \<open>The input\<close>

text \<open>
  \<open>NestedIds\<close> holds the differences of the offsets of a nested \<open>input_ids\<close> tensor, \<open>PaddedMask\<close>
  the width and the rows of \<open>attention_mask\<close>.
\<close>

datatype seq_input = NestedIds "int list" | PaddedMask nat "int list list"

fun seq_len_effective :: "seq_input \<Rightarrow> int list" where
  "seq_len_effective (NestedIds lens) = lens"
| "seq_len_effective (PaddedMask w rows) = map sum_list rows"

fun max_seq_len :: "seq_input \<Rightarrow> int result" where
  "max_seq_len (NestedIds lens) = ensure (lens \<noteq> []) ValueError (Inr (Max (set lens)))"
| "max_seq_len (PaddedMask w rows) = Inr (int w)"

section \<open>rearrange_micro_batches\<close>

definition num_micro_batches ::
  "nat \<Rightarrow> int \<Rightarrow> int \<Rightarrow> (int \<Rightarrow> int) option \<Rightarrow> nat option \<Rightarrow> nat option \<Rightarrow> int result" where
  "num_micro_batches num_groups total_seqlen max_token_len sync num_batches_divided_by min_num_micro_batch =
     rbind (ceildiv total_seqlen max_token_len) (\<lambda>c.
       (let n0 = min (int num_groups) c;
            n1 = (case min_num_micro_batch of None \<Rightarrow> n0 | Some m \<Rightarrow> max (int m) n0);
            n2 = (case sync of None \<Rightarrow> n1 | Some all_reduce_max \<Rightarrow> all_reduce_max n1)
        in case num_batches_divided_by of None \<Rightarrow> Inr n2 | Some d \<Rightarrow> roundup_divisible n2 (int d)))"

text \<open>\<open>partition[::n]\<close> and \<open>list.sort(key=..., reverse=True)\<close>, which is stable.\<close>

definition every_nth :: "nat \<Rightarrow> 'a list \<Rightarrow> 'a list" where
  "every_nth n xs = map hd (py_chunks n xs)"

definition sort_key_desc :: "('a \<Rightarrow> 'b :: linorder) \<Rightarrow> 'a list \<Rightarrow> 'a list" where
  "sort_key_desc key xs = rev (sort_key key (rev xs))"

definition batch_key :: "int list \<Rightarrow> nat \<Rightarrow> nat list \<Rightarrow> int \<times> nat" where
  "batch_key workloads force_group_size part =
     (if 1 < force_group_size
      then (sum_list (map (\<lambda>idx. workloads ! (idx div force_group_size))
              (every_nth force_group_size part)),
            (case part of [] \<Rightarrow> 0 | i # _ \<Rightarrow> i))
      else (sum_list (map (\<lambda>idx. workloads ! idx) part),
            (case part of [] \<Rightarrow> 0 | i # _ \<Rightarrow> i)))"

text \<open>\<open>micro_bsz_idx[::2][::-1] + micro_bsz_idx[1::2]\<close>\<close>

definition bubble_order :: "'a list \<Rightarrow> 'a list" where
  "bubble_order xs = rev (evens xs) @ odds xs"

definition expand_groups :: "nat \<Rightarrow> nat list \<Rightarrow> nat list" where
  "expand_groups g part = concat (map (\<lambda>group_idx. [group_idx * g..<group_idx * g + g]) part)"

definition micro_bsz_workloads :: "nat \<Rightarrow> int list \<Rightarrow> int list" where
  "micro_bsz_workloads force_group_size lens =
     (let workloads = map calculate_workload lens
      in if 1 < force_group_size then map sum_list (py_chunks force_group_size workloads)
         else workloads)"

definition rearrange_indices ::
  "seq_input \<Rightarrow> int \<Rightarrow> (int \<Rightarrow> int) option \<Rightarrow> nat option \<Rightarrow> nat option \<Rightarrow> bool \<Rightarrow> nat \<Rightarrow>
   nat list list result" where
  "rearrange_indices inp max_token_len sync num_batches_divided_by min_num_micro_batch
       use_dynamic_bsz_balance force_group_size =
     rbind (max_seq_len inp) (\<lambda>msl.
      ensure (msl \<le> max_token_len) AssertionError
       (let lens = seq_len_effective inp; batch_size = length lens
        in ensure (force_group_size \<noteq> 0) ZeroDivisionError
         (ensure (batch_size mod force_group_size = 0) AssertionError
          (let num_groups = batch_size div force_group_size
           in rbind (num_micro_batches num_groups (sum_list lens) max_token_len sync
                       num_batches_divided_by min_num_micro_batch) (\<lambda>n.
            ensure (n \<le> int num_groups) AssertionError
             (let workloads = micro_bsz_workloads force_group_size lens
              in rbind (get_seqlen_balanced_partitions workloads (nat n) False) (\<lambda>ps.
               (let micro_bsz_idx =
                      (if 1 < force_group_size then map (expand_groups force_group_size) ps else ps)
                in Inr (if use_dynamic_bsz_balance
                        then bubble_order (sort_key_desc (batch_key workloads force_group_size)
                               micro_bsz_idx)
                        else micro_bsz_idx)))))))))"

definition index_rows :: "'r list \<Rightarrow> nat list \<Rightarrow> 'r list result" where
  "index_rows rows idx = mapM_result (py_get rows) idx"

definition rearrange_micro_batches ::
  "'r list \<Rightarrow> seq_input \<Rightarrow> int \<Rightarrow> (int \<Rightarrow> int) option \<Rightarrow> nat option \<Rightarrow> nat option \<Rightarrow> bool \<Rightarrow> nat \<Rightarrow>
   ('r list list \<times> nat list list) result" where
  "rearrange_micro_batches rows inp max_token_len sync num_batches_divided_by min_num_micro_batch
       use_dynamic_bsz_balance force_group_size =
     rbind (rearrange_indices inp max_token_len sync num_batches_divided_by min_num_micro_batch
              use_dynamic_bsz_balance force_group_size) (\<lambda>micro_bsz_idx.
     rbind (mapM_result (index_rows rows) micro_bsz_idx) (\<lambda>micro_batches.
       Inr (micro_batches, micro_bsz_idx)))"

section \<open>Restoring the order\<close>

definition get_reverse_idx :: "nat list \<Rightarrow> nat list result" where
  "get_reverse_idx idx_map =
     foldl (\<lambda>acc (i, idx). rbind acc (\<lambda>r. ensure (idx < length r) IndexError (Inr (r[idx := i]))))
       (Inr idx_map) (zip [0..<length idx_map] idx_map)"

definition restore_dynamic_batch :: "'r list \<Rightarrow> nat list list \<Rightarrow> 'r list result" where
  "restore_dynamic_batch data batch_idx_list =
     (let indices = concat batch_idx_list
      in ensure (length indices = length data) AssertionError
          (rbind (get_reverse_idx indices) (\<lambda>revert_indices. index_rows data revert_indices)))"

section \<open>The micro-batches partition the batch\<close>

lemma mset_sort_key_desc [simp]: "mset (sort_key_desc key xs) = mset xs"
  by (simp add: sort_key_desc_def)

lemma mset_bubble_order [simp]: "mset (bubble_order xs) = mset xs"
  by (simp add: bubble_order_def mset_evens_odds)

lemma concat_expand: "concat (map (expand_groups g) ps) = expand_groups g (concat ps)"
  unfolding expand_groups_def by (induction ps) auto

lemma expand_range: "expand_groups g [0..<m] = [0..<m * g]"
proof (induction m)
  case (Suc m)
  have "[0..<m * g + g] = [0..<m * g] @ [m * g..<m * g + g]" by (rule upt_add_eq_append) simp
  with Suc show ?case by (simp add: expand_groups_def add.commute)
qed (simp add: expand_groups_def)

lemma expand_perm:
  "mset (concat ps) = mset [0..<m] \<Longrightarrow> mset (concat (map (expand_groups g) ps)) = mset [0..<m * g]"
proof -
  let ?run = "\<lambda>group_idx. [group_idx * g..<group_idx * g + g]"
  assume "mset (concat ps) = mset [0..<m]"
  then have "mset (map ?run (concat ps)) = mset (map ?run [0..<m])" by (simp only: mset_map)
  then have "mset (expand_groups g (concat ps)) = mset (expand_groups g [0..<m])"
    unfolding expand_groups_def by (rule mset_concat_mset_eq)
  then show ?thesis by (simp only: concat_expand expand_range)
qed

lemma length_py_chunks:
  "0 < n \<Longrightarrow> n dvd length xs \<Longrightarrow> length (py_chunks n xs) = length xs div n"
proof (induction n xs rule: py_chunks.induct)
  case (1 n xs)
  show ?case
  proof (cases "xs = []")
    case False
    with "1.prems" have le: "n \<le> length xs" by (simp add: dvd_imp_le)
    have "length (py_chunks n (drop n xs)) = (length xs - n) div n"
      using 1 False by (simp add: dvd_diff_nat)
    with le "1.prems" False show ?thesis
      by (simp add: py_chunks.simps [of n xs] le_div_geq)
  qed simp
qed

lemma micro_bsz_workloads_length:
  "0 < g \<Longrightarrow> length lens mod g = 0 \<Longrightarrow> length (micro_bsz_workloads g lens) = length lens div g"
  by (cases "g = 1") (auto simp: micro_bsz_workloads_def Let_def length_py_chunks dvd_eq_mod_eq_0)

text \<open>One group of \<open>g\<close> consecutive samples is never split.\<close>

definition keeps_groups :: "nat \<Rightarrow> nat list list \<Rightarrow> bool" where
  "keeps_groups g ps \<longleftrightarrow> (\<forall>p\<in>set ps. \<forall>i\<in>set p. \<forall>j. j div g = i div g \<longrightarrow> j \<in> set p)"

lemma expand_member: "0 < g \<Longrightarrow> i \<in> set (expand_groups g p) \<longleftrightarrow> i div g \<in> set p"
proof -
  assume g: "0 < g"
  have "x * g \<le> i \<and> i < x * g + g \<longleftrightarrow> i div g = x" for x
    using g by (metis add.commute div_nat_eqI dividend_less_times_div times_div_less_eq_dividend
        mult.commute mult_Suc_right)
  then show ?thesis by (auto simp: expand_groups_def)
qed

lemma rearrange_indices_sound:
  assumes run: "rearrange_indices inp L sync d mn bal g = Inr idx"
  shows "mset (concat idx) = mset [0..<length (seq_len_effective inp)] \<and> [] \<notin> set idx \<and>
     keeps_groups g idx \<and> 0 < g"
proof -
  define lens where "lens = seq_len_effective inp"
  define W where "W = micro_bsz_workloads g lens"
  from run obtain n ps where g: "0 < g" "length lens mod g = 0"
    and n: "n \<le> int (length lens div g)"
    and ps: "get_seqlen_balanced_partitions W (nat n) False = Inr ps"
    and idx: "idx = (if bal then bubble_order (sort_key_desc (batch_key W g)
                  (if 1 < g then map (expand_groups g) ps else ps))
               else (if 1 < g then map (expand_groups g) ps else ps))"
    unfolding rearrange_indices_def Let_def
    by (auto simp: rbind_eq_Inr ensure_eq_Inr lens_def W_def)
  have W: "length W = length lens div g"
    unfolding W_def using g by (intro micro_bsz_workloads_length)
  have sound: "mset (concat ps) = mset [0..<length W]" "[] \<notin> set ps"
    using balanced_partitions_sound [OF ps] by (auto simp: partition_of_def)
  define qs where "qs = (if 1 < g then map (expand_groups g) ps else ps)"
  have m: "mset idx = mset qs" by (simp add: idx qs_def)
  have tot: "length W * g = length lens"
    using W g(2) by (metis dvd_div_mult_self mod_eq_0_iff_dvd)
  have perm: "mset (concat qs) = mset [0..<length lens]"
  proof (cases "1 < g")
    case True
    then show ?thesis using expand_perm [OF sound(1), of g] tot by (simp add: qs_def)
  next
    case False
    with g(1) have "g = 1" by simp
    then show ?thesis using sound(1) tot by (simp add: qs_def)
  qed
  have "expand_groups g p \<noteq> []" if "p \<in> set ps" for p
  proof -
    have "p \<noteq> []" using that sound(2) by auto
    then have "hd p * g \<in> set (expand_groups g p)" using g(1) by (simp add: expand_member)
    then show ?thesis by auto
  qed
  then have ne: "[] \<notin> set qs" using sound(2) by (cases "1 < g") (simp_all add: qs_def image_iff, metis)
  have "keeps_groups g qs"
  proof (cases "1 < g")
    case True
    then show ?thesis by (auto simp: keeps_groups_def qs_def expand_member)
  next
    case False
    with g(1) have "g = 1" by simp
    then show ?thesis by (simp add: keeps_groups_def)
  qed
  moreover have "set idx = set qs" using m by (rule mset_eq_setD)
  ultimately show ?thesis
    using perm ne g(1) mset_concat_mset_eq [OF m] by (simp add: keeps_groups_def lens_def)
qed

section \<open>Restoration undoes the rearrangement\<close>

lemma reverse_idx_fold:
  assumes "distinct (is @ js)" and "set (is @ js) \<subseteq> {..<length r}" and "length is = m"
    and "\<forall>t < m. r ! (is ! t) = t"
  shows "\<exists>r'. foldl (\<lambda>acc (i, idx). rbind acc (\<lambda>r. ensure (idx < length r) IndexError (Inr (r[idx := i]))))
       (Inr r) (zip [m..<m + length js] js) = Inr r' \<and> length r' = length r \<and>
     (\<forall>t < m + length js. r' ! ((is @ js) ! t) = t)"
  using assms
proof (induction js arbitrary: "is" r m)
  case Nil
  then show ?case by simp
next
  case (Cons j js)
  have j: "j < length r" "j \<notin> set is" using Cons.prems(1,2) by auto
  have "(r[j := m]) ! ((is @ [j]) ! t) = t" if "t < Suc m" for t
  proof (cases "t < m")
    case True
    then have "is ! t \<noteq> j" using j(2) Cons.prems(3) by (metis nth_mem)
    then show ?thesis using True Cons.prems(3,4) by (simp add: nth_append)
  next
    case False
    then have "t = m" using that by simp
    then show ?thesis using j(1) Cons.prems(3) by (simp add: nth_append)
  qed
  with Cons.IH [of "is @ [j]" "r[j := m]" "Suc m"] Cons.prems
  obtain r' where "foldl (\<lambda>acc (i, idx). rbind acc (\<lambda>r. ensure (idx < length r) IndexError (Inr (r[idx := i]))))
       (Inr (r[j := m])) (zip [Suc m..<Suc m + length js] js) = Inr r'" "length r' = length r"
     "\<forall>t < Suc m + length js. r' ! (((is @ [j]) @ js) ! t) = t"
    by auto
  moreover have "[m..<m + length (j # js)] = m # [Suc m..<Suc m + length js]"
    by (simp add: upt_rec)
  ultimately show ?case using j(1) by (intro exI [of _ r']) simp
qed

lemma get_reverse_idx_inverse:
  assumes "mset idx = mset [0..<length idx]"
  shows "\<exists>r. get_reverse_idx idx = Inr r \<and> length r = length idx \<and> (\<forall>t < length idx. r ! (idx ! t) = t)"
proof -
  note perm = mset_upt_perm [OF assms]
  show ?thesis
    using reverse_idx_fold [of "[]" idx idx 0] perm by (simp add: get_reverse_idx_def)
qed

lemma index_rows_Inr: "set idx \<subseteq> {..<length rows} \<Longrightarrow> index_rows rows idx = Inr (map (\<lambda>i. rows ! i) idx)"
  unfolding index_rows_def by (intro mapM_result_Inr) (auto intro!: py_get_in_range)

lemma restore_permuted:
  assumes "mset (concat idx) = mset [0..<length rows]"
  shows "restore_dynamic_batch (map (\<lambda>i. rows ! i) (concat idx)) idx = Inr rows"
proof -
  let ?I = "concat idx"
  note perm = mset_upt_perm [OF assms]
  have "mset ?I = mset [0..<length ?I]" unfolding perm(3) by (rule assms)
  then obtain r where r: "get_reverse_idx ?I = Inr r" "length r = length ?I"
      "\<forall>t < length ?I. r ! (?I ! t) = t"
    using get_reverse_idx_inverse by blast
  have inv: "r ! j < length ?I \<and> rows ! (?I ! (r ! j)) = rows ! j" if "j < length rows" for j
  proof -
    have "j \<in> set ?I" using that unfolding perm(2) by simp
    then obtain t where "t < length ?I" "?I ! t = j" by (metis in_set_conv_nth)
    with r(3) show ?thesis by auto
  qed
  have "set r \<subseteq> {..<length ?I}"
    using inv r(2) perm(3) by (auto simp: in_set_conv_nth)
  then have "index_rows (map (\<lambda>i. rows ! i) ?I) r = Inr (map (\<lambda>t. map (\<lambda>i. rows ! i) ?I ! t) r)"
    by (intro index_rows_Inr) simp
  also have "map (\<lambda>t. map (\<lambda>i. rows ! i) ?I ! t) r = rows"
  proof (rule nth_equalityI)
    show "length (map (\<lambda>t. map (\<lambda>i. rows ! i) ?I ! t) r) = length rows" using r(2) perm(3) by simp
    fix j
    assume "j < length (map (\<lambda>t. map (\<lambda>i. rows ! i) ?I ! t) r)"
    then have j: "j < length r" "j < length rows" using r(2) perm(3) by simp_all
    with inv [of j] show "map (\<lambda>t. map (\<lambda>i. rows ! i) ?I ! t) r ! j = rows ! j" by simp
  qed
  finally show ?thesis using r(1) by (simp add: restore_dynamic_batch_def Let_def)
qed

text \<open>
  C38: whatever \<open>rearrange_micro_batches\<close> returns, for any settings and any group
  synchronisation, processing the rows of the micro-batches one by one, concatenating the outputs
  and calling \<open>restore_dynamic_batch\<close> gives what processing the rows of the whole batch gives.
\<close>

theorem rearrange_restore:
  assumes "rearrange_micro_batches rows inp L sync d mn bal g = Inr (mbs, idx)"
    and "length rows = length (seq_len_effective inp)"
  shows "restore_dynamic_batch (concat (map (map f) mbs)) idx = Inr (map f rows)"
proof -
  from assms(1) have idx: "rearrange_indices inp L sync d mn bal g = Inr idx"
    and mbs: "mapM_result (index_rows rows) idx = Inr mbs"
    by (auto simp: rearrange_micro_batches_def rbind_eq_Inr)
  from rearrange_indices_sound [OF idx] assms(2)
  have perm: "mset (concat idx) = mset [0..<length rows]" by simp
  have below: "set p \<subseteq> {..<length rows}" if "p \<in> set idx" for p
    using mset_upt_perm(2) [OF perm] that by auto
  then have "mapM_result (index_rows rows) idx = Inr (map (map (\<lambda>i. rows ! i)) idx)"
    by (intro mapM_result_Inr index_rows_Inr)
  with mbs have "mbs = map (map (\<lambda>i. rows ! i)) idx" by simp
  then have "concat (map (map f) mbs) = map (\<lambda>i. f (rows ! i)) (concat idx)"
    by (simp add: map_concat comp_def)
  also have "\<dots> = map (\<lambda>i. map f rows ! i) (concat idx)"
  proof (rule map_cong [OF refl])
    fix i
    assume "i \<in> set (concat idx)"
    then have "i < length rows" using below by auto
    then show "f (rows ! i) = map f rows ! i" by simp
  qed
  finally show ?thesis using restore_permuted [of idx "map f rows"] perm by simp
qed

section \<open>When the rearrangement returns\<close>

lemma sum_py_chunks_nonneg:
  assumes "0 < n" and "\<forall>x\<in>set xs. (0 :: int) \<le> x" and "w \<in> set (map sum_list (py_chunks n xs))"
  shows "0 \<le> w"
proof -
  obtain c where c: "c \<in> set (py_chunks n xs)" "w = sum_list c" using assms(3) by auto
  then have "set c \<subseteq> set (concat (py_chunks n xs))" by auto
  then have "set c \<subseteq> set xs" by (simp add: concat_py_chunks [OF assms(1)])
  with c assms(2) show ?thesis by (auto intro!: sum_list_nonneg)
qed

lemma micro_bsz_workloads_nonneg:
  assumes "0 < g" and "\<forall>x\<in>set lens. 0 \<le> x"
  shows "\<forall>w\<in>set (micro_bsz_workloads g lens). 0 \<le> w"
proof -
  have w: "\<forall>w\<in>set (map calculate_workload lens). 0 \<le> w"
    using assms(2) by (simp add: calculate_workload_def)
  moreover have "\<forall>w\<in>set (map sum_list (py_chunks g (map calculate_workload lens))). 0 \<le> w"
    using sum_py_chunks_nonneg [OF assms(1) w] by (rule ballI)
  ultimately show ?thesis by (cases "1 < g") (simp_all add: micro_bsz_workloads_def Let_def)
qed

text \<open>
  With the default settings (no synchronisation, no rounding, no minimum), non-negative lengths
  that each fit into the token limit, a positive total and a group size dividing the batch,
  \<open>rearrange_micro_batches\<close> returns, and the number of micro-batches is the total number of tokens
  divided by the limit, rounded up, or the number of groups if that is less.
\<close>

theorem rearrange_returns:
  assumes lens: "lens = seq_len_effective inp" "\<forall>x\<in>set lens. 0 \<le> x" "0 < sum_list lens"
    and rows: "length rows = length lens" and L: "max_seq_len inp = Inr m" "m \<le> L" "0 < L"
    and g: "0 < g" "g dvd length lens"
  shows "\<exists>mbs idx c. rearrange_micro_batches rows inp L None None None bal g = Inr (mbs, idx) \<and>
     sum_list lens \<le> c * L \<and> c * L < sum_list lens + L \<and>
     int (length mbs) = min (int (length lens div g)) c"
proof -
  obtain c where c: "ceildiv (sum_list lens) L = Inr c" "sum_list lens \<le> c * L" "c * L < sum_list lens + L"
    using ceildiv_bounds [OF L(3)] by blast
  define n where "n = min (int (length lens div g)) c"
  have "0 < c * L" using c(2) lens(3) by linarith
  then have "0 < c" using L(3) by (simp add: zero_less_mult_iff)
  moreover have "lens \<noteq> []" using lens(3) by auto
  then have "0 < length lens div g" using g by (simp add: div_greater_zero_iff dvd_imp_le)
  ultimately have n: "0 < n" "n \<le> int (length lens div g)" by (auto simp: n_def)
  define W where "W = micro_bsz_workloads g lens"
  have mod: "length lens mod g = 0" using g(2) by (simp add: dvd_eq_mod_eq_0)
  have W: "length W = length lens div g" "\<forall>w\<in>set W. 0 \<le> w"
    using g mod lens(2) micro_bsz_workloads_nonneg by (simp_all add: W_def micro_bsz_workloads_length)
  obtain ps where ps: "get_seqlen_balanced_partitions W (nat n) False = Inr ps"
    using balanced_partitions_total [of "nat n" W False] n W by (auto simp: nat_le_iff)
  then have len: "length ps = nat n"
    using balanced_partitions_sound(1) by (simp add: partition_of_def)
  define qs where "qs = (if 1 < g then map (expand_groups g) ps else ps)"
  define idx where "idx = (if bal then bubble_order (sort_key_desc (batch_key W g) qs) else qs)"
  have "num_micro_batches (length lens div g) (sum_list lens) L None None None = Inr n"
    by (simp add: num_micro_batches_def c(1) n_def)
  then have run: "rearrange_indices inp L None None None bal g = Inr idx"
    using L g mod n ps unfolding rearrange_indices_def Let_def
    by (simp add: lens(1) [symmetric] W_def [symmetric] idx_def qs_def)
  from rearrange_indices_sound [OF this]
  have perm: "mset (concat idx) = mset [0..<length rows]" by (simp add: rows lens(1))
  have "set p \<subseteq> {..<length rows}" if "p \<in> set idx" for p
    using mset_upt_perm(2) [OF perm] that by auto
  then have "mapM_result (index_rows rows) idx = Inr (map (map (\<lambda>i. rows ! i)) idx)"
    by (intro mapM_result_Inr index_rows_Inr)
  moreover have "length idx = nat n"
  proof -
    have "mset idx = mset qs" by (simp add: idx_def)
    then have "length idx = length qs" by (rule mset_eq_length)
    then show ?thesis by (simp add: qs_def len)
  qed
  ultimately have "rearrange_micro_batches rows inp L None None None bal g =
      Inr (map (map (\<lambda>i. rows ! i)) idx, idx)" "int (length (map (map (\<lambda>i. rows ! i)) idx)) = n"
    using run n(1) by (simp_all add: rearrange_micro_batches_def)
  then show ?thesis using c(2,3) unfolding n_def by blast
qed

lemma rearrange_returns_witness:
  "\<exists>mbs idx c. rearrange_micro_batches [''a'', ''b'', ''c''] (NestedIds [2, 1, 4]) 4 None None None True 1 =
       Inr (mbs, idx) \<and> 7 \<le> c * 4 \<and> c * 4 < (11 :: int) \<and> int (length mbs) = min 3 c"
  using rearrange_returns [of "[2, 1, 4]" "NestedIds [2, 1, 4]" "[''a'', ''b'', ''c'']" 4 4 1 True]
  by simp

lemma rearrange_restore_witness:
  "\<exists>mbs idx. rearrange_micro_batches [10, 20, 30 :: nat] (NestedIds [2, 1, 4]) 4 None None None True 1 =
       Inr (mbs, idx) \<and> restore_dynamic_batch (concat (map (map Suc) mbs)) idx = Inr [11, 21, 31]"
proof -
  obtain mbs idx where run: "rearrange_micro_batches [10, 20, 30 :: nat] (NestedIds [2, 1, 4]) 4 None
       None None True 1 = Inr (mbs, idx)"
    by (cases "rearrange_micro_batches [10, 20, 30 :: nat] (NestedIds [2, 1, 4]) 4 None None None True 1")
      (code_simp, auto)
  from rearrange_restore [OF this, of Suc] run show ?thesis by simp
qed

text \<open>
  The token limit bounds the number of micro-batches, not their size: three sequences of three
  tokens with a limit of five end in two micro-batches, one of them with six tokens.
\<close>

theorem token_limit_exceeded:
  "rearrange_indices (NestedIds [3, 3, 3]) 5 None None None False 1 = Inr [[0, 1], [2]] \<and>
   sum_list (map (\<lambda>i. seq_len_effective (NestedIds [3, 3, 3]) ! i) [0, 1]) = 6"
  by code_simp

end
