(* ===== verification/Message_Queue.thy ===== *)
theory Message_Queue
  imports Verl_Base "HOL-Library.Sublist"
begin

text \<open>
  The actor \<open>MessageQueue\<close> of \<open>src/verl/experimental/fully_async_policy/message_queue.py\<close>,
  through which the rollouter hands samples to the trainer. The methods run under one lock, so
  each is one atomic function on the record \<open>mq\<close>; a \<open>get_sample\<close> that finds the queue empty
  waits on the condition and is woken by \<open>notify_all\<close>. The concurrent system is the step relation
  \<open>mq_step\<close>. Its invariants account for every sample, bound the queue and show that no wake-up is
  lost; the locale \<open>lossy_fifo\<close> is the contract the queue offers to its clients.
\<close>

section \<open>The actor\<close>

record ('a, 'v) mq =
  max_queue_size :: nat
  queue :: "'a list"
  val_queue :: "'v list"
  running :: bool
  total_produced :: nat
  total_consumed :: nat
  dropped_samples :: nat

text \<open>
  \<open>__init__\<close>: \<open>None\<close> is refused by the code, a negative length by \<open>deque(maxlen=...)\<close>; both are a
  \<open>ValueError\<close>.
\<close>

definition mq_init :: "int option \<Rightarrow> ('a, 'v) mq result" where
  "mq_init max_size =
     (case max_size of
        None \<Rightarrow> Inl ValueError
      | Some n \<Rightarrow> ensure (0 \<le> n) ValueError
          (Inr \<lparr>max_queue_size = nat n, queue = [], val_queue = [], running = True,
                total_produced = 0, total_consumed = 0, dropped_samples = 0\<rparr>))"

text \<open>\<open>popleft\<close>, and \<open>append\<close> on a \<open>deque\<close> with a maximal length, which drops from the left.\<close>

definition popleft :: "'a list \<Rightarrow> ('a \<times> 'a list) result" where
  "popleft q = (case q of [] \<Rightarrow> Inl IndexError | x # xs \<Rightarrow> Inr (x, xs))"

definition deque_append :: "nat \<Rightarrow> 'a \<Rightarrow> 'a list \<Rightarrow> 'a list" where
  "deque_append maxlen x q = (let q' = q @ [x] in drop (length q' - maxlen) q')"

definition put_sample :: "'a \<Rightarrow> ('a, 'v) mq \<Rightarrow> (bool \<times> ('a, 'v) mq) result" where
  "put_sample sample s =
     rbind (if max_queue_size s \<le> length (queue s)
            then rbind (popleft (queue s)) (\<lambda>(_, q).
                   Inr (True, s\<lparr>queue := q, dropped_samples := dropped_samples s + 1\<rparr>))
            else Inr (False, s)) (\<lambda>(is_drop, s1).
       (let s2 = s1\<lparr>queue := deque_append (max_queue_size s1) sample (queue s1),
                    total_produced := total_produced s1 + 1\<rparr>
        in Inr (\<not> is_drop, s2)))"

text \<open>One pass of \<open>get_sample\<close>: it waits, sees the queue closed, or takes a sample.\<close>

datatype ('a, 'v) get_outcome =
    Waits
  | Closed
  | Got 'a nat "('a, 'v) mq"

definition get_sample :: "('a, 'v) mq \<Rightarrow> ('a, 'v) get_outcome" where
  "get_sample s =
     (if length (queue s) = 0 \<and> running s then Waits
      else if \<not> running s \<and> length (queue s) = 0 then Closed
      else (case popleft (queue s) of
              Inl _ \<Rightarrow> Closed
            | Inr (data, q) \<Rightarrow> Got data (length q)
                (s\<lparr>queue := q, total_consumed := total_consumed s + 1\<rparr>)))"

definition get_queue_size :: "('a, 'v) mq \<Rightarrow> nat" where
  "get_queue_size s = length (queue s)"

record statistics =
  st_queue_size :: nat
  st_produced :: nat
  st_consumed :: nat
  st_dropped :: nat
  st_max :: nat

definition get_statistics :: "('a, 'v) mq \<Rightarrow> statistics" where
  "get_statistics s =
     \<lparr>st_queue_size = length (queue s), st_produced = total_produced s,
      st_consumed = total_consumed s, st_dropped = dropped_samples s, st_max = max_queue_size s\<rparr>"

definition clear_queue :: "('a, 'v) mq \<Rightarrow> ('a, 'v) mq" where
  "clear_queue s = s\<lparr>queue := []\<rparr>"

definition shutdown :: "('a, 'v) mq \<Rightarrow> ('a, 'v) mq" where
  "shutdown s = s\<lparr>running := False\<rparr>"

definition put_validate :: "'v \<Rightarrow> ('a, 'v) mq \<Rightarrow> ('a, 'v) mq" where
  "put_validate data s = s\<lparr>val_queue := val_queue s @ [data]\<rparr>"

definition get_validate :: "('a, 'v) mq \<Rightarrow> 'v option \<times> ('a, 'v) mq" where
  "get_validate s = (case val_queue s of [] \<Rightarrow> (None, s) | x # xs \<Rightarrow> (Some x, s\<lparr>val_queue := xs\<rparr>))"

text \<open>
  \<open>get_memory_usage\<close>: the estimate is the size of the first sample times the number of samples.
  \<open>sample_size\<close> is the size \<open>sys.getsizeof\<close> and the attributes of a sample give, \<open>None\<close> when
  the estimation raises.
\<close>

definition get_memory_usage :: "('a \<Rightarrow> nat option) \<Rightarrow> ('a, 'v) mq \<Rightarrow> nat \<times> nat" where
  "get_memory_usage sample_size s =
     (let sample_count = length (queue s)
      in (sample_count,
          case queue s of
            [] \<Rightarrow> 0
          | sample # _ \<Rightarrow> (case sample_size sample of
                             Some sz \<Rightarrow> sz * sample_count
                           | None \<Rightarrow> sample_count * 15000)))"

section \<open>The contract\<close>

text \<open>A bounded queue that forgets its oldest entry when it is full.\<close>

locale lossy_fifo =
  fixes cap :: nat
    and contents :: "'s \<Rightarrow> 'a list"
    and put :: "'a \<Rightarrow> 's \<Rightarrow> 's"
    and get :: "'s \<Rightarrow> ('a \<times> 's) option"
    and invar :: "'s \<Rightarrow> bool"
  assumes invar_put: "invar s \<Longrightarrow> invar (put x s)"
    and invar_get: "invar s \<Longrightarrow> get s = Some (x, s') \<Longrightarrow> invar s'"
    and contents_bound: "invar s \<Longrightarrow> length (contents s) \<le> cap"
    and contents_put: "invar s \<Longrightarrow>
        contents (put x s) = drop (Suc (length (contents s)) - cap) (contents s @ [x])"
    and get_empty: "invar s \<Longrightarrow> get s = None \<longleftrightarrow> contents s = []"
    and contents_get: "invar s \<Longrightarrow> get s = Some (x, s') \<Longrightarrow> contents s = x # contents s'"
begin

definition put_all :: "'a list \<Rightarrow> 's \<Rightarrow> 's" where
  "put_all xs s = foldl (\<lambda>s x. put x s) s xs"

primrec get_many :: "nat \<Rightarrow> 's \<Rightarrow> 'a list" where
  "get_many 0 s = []"
| "get_many (Suc n) s = (case get s of None \<Rightarrow> [] | Some (x, s') \<Rightarrow> x # get_many n s')"

lemma invar_put_all: "invar s \<Longrightarrow> invar (put_all xs s)"
  unfolding put_all_def by (induction xs arbitrary: s) (auto simp: invar_put)

lemma drop_snoc:
  "drop (Suc (length ys - (length ys - cap)) - cap) (drop (length ys - cap) ys @ [x]) =
   drop (Suc (length ys) - cap) (ys @ [x])"
  by (cases "length ys < cap"; cases cap) (auto simp: Suc_diff_le Suc_diff_Suc)

text \<open>After any number of puts the queue holds the latest \<open>cap\<close> entries, in order.\<close>

lemma contents_put_all:
  "invar s \<Longrightarrow> contents (put_all xs s) =
     drop (length (contents s) + length xs - cap) (contents s @ xs)"
proof (induction xs rule: rev_induct)
  case Nil
  then show ?case using contents_bound [of s] by (simp add: put_all_def)
next
  case (snoc x xs)
  let ?t = "put_all xs s"
  have t: "contents ?t = drop (length (contents s) + length xs - cap) (contents s @ xs)"
    using snoc by simp
  have inv: "invar ?t" using snoc.prems by (rule invar_put_all)
  have "contents (put x ?t) = drop (Suc (length (contents ?t)) - cap) (contents ?t @ [x])"
    using inv by (rule contents_put)
  moreover have "put_all (xs @ [x]) s = put x ?t" by (simp add: put_all_def)
  ultimately show ?case
    using drop_snoc [of "contents s @ xs" x]
    by (simp add: t del: drop_append)
qed

lemma get_many_contents: "invar s \<Longrightarrow> get_many n s = take n (contents s)"
proof (induction n arbitrary: s)
  case (Suc n)
  show ?case
  proof (cases "get s")
    case None
    with get_empty [OF Suc.prems] show ?thesis by simp
  next
    case (Some r)
    then obtain x s' where r: "get s = Some (x, s')" by (cases r) auto
    then show ?thesis
      using Suc contents_get invar_get by (simp add: contents_get [OF Suc.prems r])
  qed
qed simp

text \<open>Taking as many as fit returns the latest \<open>cap\<close> entries put into an empty queue, oldest first.\<close>

lemma put_then_get:
  assumes "invar s" and "contents s = []"
  shows "get_many cap (put_all xs s) = drop (length xs - cap) xs"
  using contents_put_all [OF assms(1)] get_many_contents [OF invar_put_all [OF assms(1)]] assms(2)
  by simp

end

text \<open>The model satisfies the contract whenever \<open>max_queue_size\<close> is positive.\<close>

definition mq_put :: "'a \<Rightarrow> ('a, 'v) mq \<Rightarrow> ('a, 'v) mq" where
  "mq_put x s = (case put_sample x s of Inr (_, s') \<Rightarrow> s' | Inl _ \<Rightarrow> s)"

definition mq_get :: "('a, 'v) mq \<Rightarrow> ('a \<times> ('a, 'v) mq) option" where
  "mq_get s = (case get_sample s of Got x _ s' \<Rightarrow> Some (x, s') | _ \<Rightarrow> None)"

definition mq_ok :: "nat \<Rightarrow> ('a, 'v) mq \<Rightarrow> bool" where
  "mq_ok cap s \<longleftrightarrow> max_queue_size s = cap \<and> 0 < cap \<and> length (queue s) \<le> cap"

lemma put_sample_ok:
  assumes "mq_ok cap s"
  shows "put_sample x s = Inr (length (queue s) < cap,
     s\<lparr>queue := drop (Suc (length (queue s)) - cap) (queue s @ [x]),
       dropped_samples := dropped_samples s + (if length (queue s) < cap then 0 else 1),
       total_produced := total_produced s + 1\<rparr>)"
  using assms
  by (cases "queue s")
    (auto simp: put_sample_def mq_ok_def popleft_def deque_append_def Let_def Suc_diff_le not_le)

lemma get_sample_cases:
  "get_sample s = (case queue s of
      [] \<Rightarrow> (if running s then Waits else Closed)
    | x # q \<Rightarrow> Got x (length q) (s\<lparr>queue := q, total_consumed := total_consumed s + 1\<rparr>))"
  by (simp add: get_sample_def popleft_def split: list.split)

lemma mq_get_eq:
  "mq_get s = (case queue s of
      [] \<Rightarrow> None | x # q \<Rightarrow> Some (x, s\<lparr>queue := q, total_consumed := total_consumed s + 1\<rparr>))"
  by (simp add: mq_get_def get_sample_cases split: list.split)

lemma mq_put_eq:
  "mq_ok cap s \<Longrightarrow> queue (mq_put x s) = drop (Suc (length (queue s)) - cap) (queue s @ [x]) \<and>
     max_queue_size (mq_put x s) = cap"
  using put_sample_ok [of cap s x] by (simp add: mq_put_def mq_ok_def)

interpretation mq: lossy_fifo cap queue mq_put mq_get "mq_ok cap"
proof unfold_locales
  fix s :: "('a, 'v) mq" and x
  assume ok: "mq_ok cap s"
  then show "queue (mq_put x s) = drop (Suc (length (queue s)) - cap) (queue s @ [x])"
    and "length (queue s) \<le> cap"
    using mq_put_eq [OF ok, of x] by (simp_all add: mq_ok_def)
  then show "mq_ok cap (mq_put x s)" using ok mq_put_eq [OF ok, of x] by (auto simp: mq_ok_def)
qed (auto simp: mq_get_eq mq_ok_def split: list.splits)

section \<open>The concurrent system\<close>

text \<open>
  \<open>asleep\<close> are the calls of \<open>get_sample\<close> that wait on the condition, \<open>woken\<close> those that
  \<open>notify_all\<close> has released and that have not run yet, \<open>returned\<close> the results so far. The
  histories \<open>accepted\<close>, \<open>delivered\<close> and \<open>cleared\<close> are not in the code: they record what was put,
  what was handed out and how many samples \<open>clear_queue\<close> removed.
\<close>

record ('a, 'v) mq_sys =
  actor :: "('a, 'v) mq"
  asleep :: "nat list"
  woken :: "nat list"
  returned :: "(nat \<times> 'a option) list"
  accepted :: "'a list"
  delivered :: "'a list"
  cleared :: nat

definition sys_init :: "('a, 'v) mq \<Rightarrow> ('a, 'v) mq_sys" where
  "sys_init m = \<lparr>actor = m, asleep = [], woken = [], returned = [], accepted = [], delivered = [],
                cleared = 0\<rparr>"

definition notify_all :: "('a, 'v) mq_sys \<Rightarrow> ('a, 'v) mq_sys" where
  "notify_all s = s\<lparr>asleep := [], woken := woken s @ asleep s\<rparr>"

text \<open>One pass of the loop of \<open>get_sample\<close> by the caller \<open>c\<close>.\<close>

definition run_get :: "nat \<Rightarrow> ('a, 'v) mq_sys \<Rightarrow> ('a, 'v) mq_sys" where
  "run_get c s =
     (case get_sample (actor s) of
        Waits \<Rightarrow> s\<lparr>asleep := asleep s @ [c]\<rparr>
      | Closed \<Rightarrow> s\<lparr>returned := returned s @ [(c, None)]\<rparr>
      | Got x _ m \<Rightarrow> s\<lparr>actor := m, returned := returned s @ [(c, Some x)],
                      delivered := delivered s @ [x]\<rparr>)"

inductive mq_step :: "('a, 'v) mq_sys \<Rightarrow> ('a, 'v) mq_sys \<Rightarrow> bool" where
  put: "put_sample x (actor s) = Inr (b, m) \<Longrightarrow>
        mq_step s (notify_all (s\<lparr>actor := m, accepted := accepted s @ [x]\<rparr>))"
| get: "mq_step s (run_get c s)"
| resume: "c \<in> set (woken s) \<Longrightarrow> mq_step s (run_get c (s\<lparr>woken := remove1 c (woken s)\<rparr>))"
| clear: "mq_step s (s\<lparr>actor := clear_queue (actor s),
                      cleared := cleared s + length (queue (actor s))\<rparr>)"
| stop: "mq_step s (notify_all (s\<lparr>actor := shutdown (actor s)\<rparr>))"
| put_val: "mq_step s (s\<lparr>actor := put_validate v (actor s)\<rparr>)"
| get_val: "mq_step s (s\<lparr>actor := snd (get_validate (actor s))\<rparr>)"

inductive mq_reachable :: "nat \<Rightarrow> ('a, 'v) mq_sys \<Rightarrow> bool" for n :: nat where
  init: "mq_init (Some (int n)) = Inr m \<Longrightarrow> mq_reachable n (sys_init m)"
| step: "mq_reachable n s \<Longrightarrow> mq_step s t \<Longrightarrow> mq_reachable n t"

inductive_cases mq_step_cases: "mq_step s t"

subsection \<open>Invariants\<close>

definition accounted :: "('a, 'v) mq_sys \<Rightarrow> bool" where
  "accounted s \<longleftrightarrow>
     total_produced (actor s) =
       total_consumed (actor s) + dropped_samples (actor s) + cleared s + length (queue (actor s)) \<and>
     total_produced (actor s) = length (accepted s) \<and> total_consumed (actor s) = length (delivered s)"

definition in_order :: "('a, 'v) mq_sys \<Rightarrow> bool" where
  "in_order s \<longleftrightarrow> (\<exists>pre. accepted s = pre @ queue (actor s) \<and> subseq (delivered s) pre)"

definition awake :: "('a, 'v) mq_sys \<Rightarrow> bool" where
  "awake s \<longleftrightarrow> (asleep s \<noteq> [] \<longrightarrow> queue (actor s) = [] \<and> running (actor s))"

definition sys_ok :: "nat \<Rightarrow> ('a, 'v) mq_sys \<Rightarrow> bool" where
  "sys_ok n s \<longleftrightarrow> mq_ok n (actor s) \<and> accounted s \<and> in_order s \<and> awake s"

lemma run_get_ok: "sys_ok n s \<Longrightarrow> sys_ok n (run_get c s)"
proof (cases "queue (actor s)")
  case Nil
  then show "sys_ok n s \<Longrightarrow> ?thesis"
    by (auto simp: sys_ok_def mq_ok_def accounted_def in_order_def awake_def run_get_def get_sample_cases)
next
  case (Cons x q)
  assume ok: "sys_ok n s"
  then obtain pre where "accepted s = (pre @ [x]) @ q" "subseq (delivered s @ [x]) (pre @ [x])"
    using Cons by (auto simp: sys_ok_def in_order_def intro: list_emb_append_mono)
  then show ?thesis
    using ok Cons by (auto simp: sys_ok_def mq_ok_def accounted_def awake_def in_order_def run_get_def
        get_sample_cases)
qed

lemma woken_ok: "sys_ok n (s\<lparr>woken := w\<rparr>) = sys_ok n s"
  by (simp add: sys_ok_def accounted_def in_order_def awake_def)

lemma put_ok:
  assumes ok: "sys_ok n s" and put: "put_sample x (actor s) = Inr (b, m)"
  shows "sys_ok n (notify_all (s\<lparr>actor := m, accepted := accepted s @ [x]\<rparr>))"
proof -
  have mok: "mq_ok n (actor s)" using ok by (simp add: sys_ok_def)
  then have n: "0 < n" "length (queue (actor s)) \<le> n" by (simp_all add: mq_ok_def)
  obtain pre where pre: "accepted s = pre @ queue (actor s)" "subseq (delivered s) pre"
    using ok by (auto simp: sys_ok_def in_order_def)
  let ?d = "Suc (length (queue (actor s))) - n"
  have m: "m = (actor s)\<lparr>queue := drop ?d (queue (actor s) @ [x]),
       dropped_samples := dropped_samples (actor s) + (if length (queue (actor s)) < n then 0 else 1),
       total_produced := total_produced (actor s) + 1\<rparr>"
    using put unfolding put_sample_ok [OF mok] by (auto simp del: drop_append)
  have "accepted s @ [x] = (pre @ take ?d (queue (actor s) @ [x])) @ queue m"
    by (simp add: m pre(1) append_take_drop_id del: drop_append take_append)
  moreover have "subseq (delivered s) (pre @ take ?d (queue (actor s) @ [x]))"
    using pre(2) by (rule subseq_rev_drop_many)
  ultimately have "in_order (notify_all (s\<lparr>actor := m, accepted := accepted s @ [x]\<rparr>))"
    unfolding in_order_def notify_all_def by auto
  moreover have "accounted (notify_all (s\<lparr>actor := m, accepted := accepted s @ [x]\<rparr>))"
  proof (cases "length (queue (actor s)) < n")
    case True
    then show ?thesis using ok by (auto simp: sys_ok_def accounted_def notify_all_def m)
  next
    case False
    then have "?d = 1" "length (queue (actor s)) = n" using n by simp_all
    then show ?thesis using ok n by (auto simp: sys_ok_def accounted_def notify_all_def m)
  qed
  moreover have "mq_ok n m" using n mok by (auto simp: m mq_ok_def)
  ultimately show ?thesis by (simp add: sys_ok_def awake_def notify_all_def)
qed

lemma mq_step_ok: "mq_step s t \<Longrightarrow> sys_ok n s \<Longrightarrow> sys_ok n t"
proof (induction rule: mq_step.induct)
  case (put x s b m)
  then show ?case by (intro put_ok)
next
  case (get s c)
  then show ?case by (rule run_get_ok)
next
  case (resume c s)
  then show ?case by (intro run_get_ok) (simp add: woken_ok)
next
  case (clear s)
  then obtain pre where "accepted s = pre @ queue (actor s)" "subseq (delivered s) pre"
    by (auto simp: sys_ok_def in_order_def)
  then have "subseq (delivered s) (accepted s)" by (simp add: subseq_rev_drop_many)
  with clear show ?case
    by (auto simp: sys_ok_def mq_ok_def accounted_def in_order_def awake_def clear_queue_def)
next
  case (stop s)
  then show ?case
    by (auto simp: sys_ok_def mq_ok_def accounted_def in_order_def awake_def notify_all_def shutdown_def)
next
  case (put_val s v)
  then show ?case
    by (auto simp: sys_ok_def mq_ok_def accounted_def in_order_def awake_def put_validate_def)
next
  case (get_val s)
  then show ?case
    by (auto simp: sys_ok_def mq_ok_def accounted_def in_order_def awake_def get_validate_def
        split: list.splits)
qed

lemma reachable_ok: "mq_reachable n s \<Longrightarrow> 0 < n \<Longrightarrow> sys_ok n s"
proof (induction rule: mq_reachable.induct)
  case (init m)
  then show ?case
    by (auto simp: mq_init_def sys_ok_def mq_ok_def accounted_def in_order_def awake_def sys_init_def)
next
  case (step s t)
  then show ?case using mq_step_ok by blast
qed

subsection \<open>What clients rely on\<close>

text \<open>
  In every reachable state of a queue of positive size the statistics add up: what was
  produced was consumed, dropped, cleared or is still queued, and the queue never exceeds its
  maximal size.
\<close>

theorem mq_accounting:
  assumes "mq_reachable n s" and "0 < n"
  shows "st_produced (get_statistics (actor s)) =
       st_consumed (get_statistics (actor s)) + st_dropped (get_statistics (actor s)) + cleared s +
       st_queue_size (get_statistics (actor s)) \<and>
     st_queue_size (get_statistics (actor s)) \<le> n"
  using reachable_ok [OF assms] by (simp add: get_statistics_def sys_ok_def accounted_def mq_ok_def)

text \<open>
  C39: samples are delivered in the order they were accepted, none twice, ahead of all queued ones;
  when nothing was dropped or cleared, what was delivered and what is queued is all that was put.
\<close>

theorem mq_fifo:
  assumes "mq_reachable n s" and "0 < n"
  shows "\<exists>pre. accepted s = pre @ queue (actor s) \<and> subseq (delivered s) pre \<and>
     (dropped_samples (actor s) = 0 \<and> cleared s = 0 \<longrightarrow> delivered s = pre)"
proof -
  have ok: "in_order s" "accounted s" using reachable_ok [OF assms] by (simp_all add: sys_ok_def)
  then obtain pre where pre: "accepted s = pre @ queue (actor s)" "subseq (delivered s) pre"
    by (auto simp: in_order_def)
  have all: "delivered s = pre" if "dropped_samples (actor s) = 0" "cleared s = 0"
  proof -
    have "length (accepted s) = length pre + length (queue (actor s))" unfolding pre(1) by simp
    then have "length (delivered s) = length pre"
      using ok(2) that unfolding accounted_def by linarith
    with pre(2) show ?thesis by (rule subseq_same_length)
  qed
  show ?thesis by (intro exI conjI impI) (use pre all in simp_all)
qed

text \<open>
  C40: no wake-up is lost: in a reachable state a consumer sleeps only while the queue is empty and
  running.
\<close>

theorem mq_no_lost_wakeup:
  assumes "mq_reachable n s" and "0 < n" and "asleep s \<noteq> []"
  shows "queue (actor s) = [] \<and> running (actor s)"
  using reachable_ok [OF assms(1,2)] assms(3) by (simp add: sys_ok_def awake_def)

text \<open>All woken callers run once.\<close>

definition run_woken :: "('a, 'v) mq_sys \<Rightarrow> ('a, 'v) mq_sys" where
  "run_woken s = foldl (\<lambda>s c. run_get c (s\<lparr>woken := remove1 c (woken s)\<rparr>)) s (woken s)"

lemma run_get_stopped:
  "\<not> running (actor s) \<Longrightarrow> asleep (run_get c s) = asleep s \<and> woken (run_get c s) = woken s \<and>
     \<not> running (actor (run_get c s)) \<and> map fst (returned (run_get c s)) = map fst (returned s) @ [c]"
  by (auto simp: run_get_def get_sample_cases split: list.split)

lemma run_woken_stopped:
  assumes "\<not> running (actor s)" and "woken s = cs"
  shows "let t = foldl (\<lambda>s c. run_get c (s\<lparr>woken := remove1 c (woken s)\<rparr>)) s cs
    in mq_step\<^sup>*\<^sup>* s t \<and> woken t = [] \<and> asleep t = asleep s \<and>
       map fst (returned t) = map fst (returned s) @ cs"
  using assms
proof (induction cs arbitrary: s)
  case (Cons c cs)
  let ?u = "run_get c (s\<lparr>woken := remove1 c (woken s)\<rparr>)"
  have u: "\<not> running (actor ?u)" "woken ?u = cs" "asleep ?u = asleep s"
      "map fst (returned ?u) = map fst (returned s) @ [c]"
    using run_get_stopped [of "s\<lparr>woken := remove1 c (woken s)\<rparr>" c] Cons.prems by simp_all
  have "mq_step s ?u" using Cons.prems(2) by (intro mq_step.resume) simp
  with Cons.IH [OF u(1,2)] u(3,4) show ?case
    by (auto simp: Let_def intro: converse_rtranclp_into_rtranclp)
qed simp

text \<open>
  Shutdown releases everyone: after \<open>shutdown\<close> in a reachable state, one more pass of each
  waiting call ends all of them, with nobody asleep.
\<close>

theorem mq_shutdown_releases:
  assumes "mq_reachable n s" and "0 < n"
  shows "let t = run_woken (notify_all (s\<lparr>actor := shutdown (actor s)\<rparr>))
    in mq_reachable n t \<and> asleep t = [] \<and> woken t = [] \<and>
       map fst (returned t) = map fst (returned s) @ woken s @ asleep s"
proof -
  let ?s = "notify_all (s\<lparr>actor := shutdown (actor s)\<rparr>)"
  have s: "mq_reachable n ?s" using assms(1) mq_step.stop by (rule mq_reachable.step)
  have reach: "mq_reachable n t" if "mq_step\<^sup>*\<^sup>* ?s t" for t
    using that s by (induction rule: rtranclp_induct) (auto intro: mq_reachable.step)
  have "\<not> running (actor ?s)" by (simp add: notify_all_def shutdown_def)
  from run_woken_stopped [OF this refl] have run: "mq_step\<^sup>*\<^sup>* ?s (run_woken ?s)"
      "woken (run_woken ?s) = []" "asleep (run_woken ?s) = asleep ?s"
      "map fst (returned (run_woken ?s)) = map fst (returned ?s) @ woken ?s"
    unfolding Let_def run_woken_def by blast+
  have s_eq: "asleep ?s = []" "returned ?s = returned s" "woken ?s = woken s @ asleep s"
    by (simp_all add: notify_all_def)
  show ?thesis
    unfolding Let_def run(2-4) s_eq using reach [OF run(1)] by blast
qed

primrec take_samples :: "nat \<Rightarrow> ('a, 'v) mq \<Rightarrow> 'a list" where
  "take_samples 0 s = []"
| "take_samples (Suc n) s = (case mq_get s of None \<Rightarrow> [] | Some (x, s') \<Rightarrow> x # take_samples n s')"

lemma take_samples_eq: "take_samples n s = mq.get_many n s"
  by (induction n arbitrary: s) (auto split: option.split)

text \<open>
  Putting any number of samples into a fresh queue of size \<open>n > 0\<close> and taking \<open>n\<close> returns the
  latest \<open>n\<close> of them, oldest first.
\<close>

theorem mq_keeps_latest:
  assumes "mq_init (Some (int n)) = Inr m" and "0 < n"
  shows "take_samples n (foldl (\<lambda>s x. mq_put x s) m xs) = drop (length xs - n) xs"
proof -
  have "mq_ok n m" "queue m = []" using assms by (auto simp: mq_init_def mq_ok_def)
  from mq.put_then_get [OF this] show ?thesis
    by (simp add: take_samples_eq mq.put_all_def)
qed

lemma mq_keeps_latest_witness:
  "\<exists>m. mq_init (Some (int 2)) = Inr m \<and>
     take_samples 2 (foldl (\<lambda>s x. mq_put x s) (m :: (nat, nat) mq) [7, 8, 9]) = [8, 9]"
  using mq_keeps_latest [of 2 _ "[7, 8, 9 :: nat]"] by (simp add: mq_init_def)

text \<open>
  A queue created with maximal size zero cannot be used: the constructor accepts the size and
  every \<open>put_sample\<close> then raises an \<open>IndexError\<close>.
\<close>

theorem mq_zero_size:
  "\<exists>m. mq_init (Some 0) = Inr m \<and> put_sample x m = Inl IndexError"
  by (simp add: mq_init_def put_sample_def popleft_def)

text \<open>A run with a caller that sleeps, a put that wakes it and a shutdown, for the witnesses.\<close>

definition demo_mq :: "(nat, nat) mq" where
  "demo_mq = \<lparr>max_queue_size = 2, queue = [], val_queue = [], running = True, total_produced = 0,
             total_consumed = 0, dropped_samples = 0\<rparr>"

definition demo_asleep :: "(nat, nat) mq_sys" where
  "demo_asleep = run_get 5 (sys_init demo_mq)"

definition demo_woken :: "(nat, nat) mq_sys" where
  "demo_woken = notify_all (demo_asleep\<lparr>actor := mq_put 7 demo_mq, accepted := [7]\<rparr>)"

lemma demo_asleep_reachable: "mq_reachable 2 demo_asleep"
proof -
  have "mq_reachable 2 (sys_init demo_mq)"
    by (rule mq_reachable.init) (simp add: mq_init_def demo_mq_def)
  then show ?thesis unfolding demo_asleep_def by (rule mq_reachable.step) (rule mq_step.get)
qed

lemma demo_woken_reachable: "mq_reachable 2 demo_woken"
proof -
  have eq: "actor demo_asleep = demo_mq" "accepted demo_asleep = []"
    by (simp_all add: demo_asleep_def run_get_def sys_init_def get_sample_def demo_mq_def)
  have "put_sample 7 (actor demo_asleep) = Inr (True, mq_put 7 demo_mq)"
    by (simp add: eq put_sample_def mq_put_def demo_mq_def Let_def)
  from mq_reachable.step [OF demo_asleep_reachable mq_step.put [OF this]] show ?thesis
    by (simp add: demo_woken_def eq)
qed

lemma mq_accounting_witness: "st_queue_size (get_statistics (actor demo_woken)) \<le> 2"
  using mq_accounting [OF demo_woken_reachable] by simp

lemma mq_fifo_witness:
  "\<exists>pre. accepted demo_woken = pre @ queue (actor demo_woken) \<and> subseq (delivered demo_woken) pre"
  using mq_fifo [OF demo_woken_reachable] by auto

lemma mq_no_lost_wakeup_witness: "queue (actor demo_asleep) = [] \<and> running (actor demo_asleep)"
proof -
  have "asleep demo_asleep \<noteq> []"
    by (simp add: demo_asleep_def run_get_def sys_init_def get_sample_def demo_mq_def)
  with mq_no_lost_wakeup [OF demo_asleep_reachable] show ?thesis by simp
qed

lemma mq_shutdown_releases_witness:
  "asleep (run_woken (notify_all (demo_asleep\<lparr>actor := shutdown (actor demo_asleep)\<rparr>))) = []"
  using mq_shutdown_releases [OF demo_asleep_reachable] by (simp add: Let_def)

end
