(* ===== verification/Replay_Pool.thy ===== *)
theory Replay_Pool
  imports Verl_Base
begin

text \<open>
  The ring buffer \<open>SACReplayPool\<close> of \<open>src/verl/experimental/vla/sac/replay_pool.py\<close>. A
  \<open>TensorDict\<close> is its batch size with an association list from keys to rows; a row is an
  arbitrary type with a zero, the row \<open>torch.zeros\<close> makes. Devices are not modelled,
  \<open>torch.randperm\<close> is the parameter \<open>randperm\<close>, and a saved file is the pair the code stores.
  The lemmas show that the pool always holds the latest rows.
\<close>

section \<open>The pool\<close>

record 'r tensor_dict =
  td_batch_size :: nat
  td_fields :: "(string \<times> 'r list) list"

record 'r replay_pool =
  pool :: "'r tensor_dict option"
  capacity :: nat
  size :: nat
  position :: nat

definition pool_init :: "nat \<Rightarrow> 'r replay_pool" where
  "pool_init cap = \<lparr>pool = None, capacity = cap, size = 0, position = 0\<rparr>"

text \<open>\<open>_lazy_init_pool\<close>: zero rows for every key of the sample.\<close>

definition lazy_init_pool :: "'r :: zero tensor_dict \<Rightarrow> 'r replay_pool \<Rightarrow> 'r replay_pool" where
  "lazy_init_pool sample p =
     p\<lparr>pool := Some \<lparr>td_batch_size = capacity p,
                     td_fields = map (\<lambda>(key, value). (key, replicate (capacity p) 0)) (td_fields sample)\<rparr>\<rparr>"

text \<open>\<open>value.index_copy_(0, idx, rows)\<close>\<close>

definition index_copy :: "nat list \<Rightarrow> 'r list \<Rightarrow> 'r list \<Rightarrow> 'r list" where
  "index_copy idx rows value = foldl (\<lambda>v (i, r). v[i := r]) value (zip idx rows)"

fun update_key :: "string \<Rightarrow> ('r list \<Rightarrow> 'r list) \<Rightarrow> (string \<times> 'r list) list \<Rightarrow>
    (string \<times> 'r list) list result" where
  "update_key key f [] = Inl KeyError"
| "update_key key f ((k, v) # kvs) =
     (if k = key then Inr ((k, f v) # kvs)
      else rbind (update_key key f kvs) (\<lambda>kvs'. Inr ((k, v) # kvs')))"

fun copy_keys :: "nat list \<Rightarrow> nat \<Rightarrow> (string \<times> 'r list) list \<Rightarrow> (string \<times> 'r list) list \<Rightarrow>
    (string \<times> 'r list) list result" where
  "copy_keys idx len [] kvs = Inr kvs"
| "copy_keys idx len ((key, rows) # src) kvs =
     rbind (update_key key (index_copy idx (take len rows)) kvs) (copy_keys idx len src)"

definition insert_block_to_pool :: "'r tensor_dict \<Rightarrow> 'r replay_pool \<Rightarrow> 'r replay_pool result" where
  "insert_block_to_pool source p =
     (let len = min (td_batch_size source) (capacity p);
          idx = map (\<lambda>i. (position p + i) mod capacity p) [0..<len]
      in case pool p of
           None \<Rightarrow> Inl TypeError
         | Some td \<Rightarrow>
             rbind (copy_keys idx len (td_fields source) (td_fields td)) (\<lambda>kvs.
               ensure (capacity p \<noteq> 0) ZeroDivisionError
                 (Inr (p\<lparr>pool := Some (td\<lparr>td_fields := kvs\<rparr>),
                        position := (position p + len) mod capacity p,
                        size := min (size p + len) (capacity p)\<rparr>))))"

definition add_batch :: "'r :: zero tensor_dict \<Rightarrow> 'r replay_pool \<Rightarrow> 'r replay_pool result" where
  "add_batch batch p =
     insert_block_to_pool batch (if pool p = None then lazy_init_pool batch p else p)"

definition sample_batch ::
  "(nat \<Rightarrow> nat list) \<Rightarrow> nat \<Rightarrow> 'r replay_pool \<Rightarrow> 'r tensor_dict result" where
  "sample_batch randperm n p =
     ensure (n \<le> size p) AssertionError
       (let idx = take n (randperm (size p))
        in case pool p of
             None \<Rightarrow> Inl AttributeError
           | Some td \<Rightarrow>
               rbind (mapM_result (\<lambda>(key, value). rbind (mapM_result (py_get value) idx)
                        (\<lambda>rows. Inr (key, rows))) (td_fields td)) (\<lambda>kvs.
                 Inr \<lparr>td_batch_size = n, td_fields = kvs\<rparr>))"

definition insert_and_resample ::
  "(nat \<Rightarrow> nat list) \<Rightarrow> 'r :: zero tensor_dict \<Rightarrow> 'r replay_pool \<Rightarrow>
   ('r tensor_dict \<times> 'r replay_pool) result" where
  "insert_and_resample randperm source p =
     rbind (add_batch source p) (\<lambda>p'.
     rbind (sample_batch randperm (td_batch_size source) p') (\<lambda>td. Inr (td, p')))"

section \<open>Saving and loading\<close>

record meta_info =
  meta_size :: nat
  meta_capacity :: nat
  meta_position :: nat

definition save :: "'r replay_pool \<Rightarrow> ('r tensor_dict \<times> meta_info) option" where
  "save p = (case pool p of
     None \<Rightarrow> None
   | Some td \<Rightarrow> Some (td, \<lparr>meta_size = size p, meta_capacity = capacity p, meta_position = position p\<rparr>))"

text \<open>\<open>load\<close>: \<open>None\<close> is a file that does not exist or that \<open>torch.load\<close> cannot read.\<close>

definition load ::
  "('r :: zero tensor_dict \<times> meta_info) option \<Rightarrow> 'r replay_pool \<Rightarrow> (bool \<times> 'r replay_pool) result" where
  "load file p =
     (case file of
        None \<Rightarrow> Inr (False, p)
      | Some (td, meta) \<Rightarrow>
          (let td' = (if meta_capacity meta \<noteq> capacity p
                      then (if meta_capacity meta > capacity p
                            then \<lparr>td_batch_size = capacity p,
                                  td_fields = map (\<lambda>(key, value). (key, take (capacity p) value)) (td_fields td)\<rparr>
                            else \<lparr>td_batch_size = capacity p,
                                  td_fields = map (\<lambda>(key, value). (key, value @
                                     replicate (capacity p - meta_capacity meta) 0)) (td_fields td)\<rparr>)
                      else td)
           in ensure (capacity p \<noteq> 0) ZeroDivisionError
               (Inr (True, p\<lparr>pool := Some td', size := min (meta_size meta) (capacity p),
                             position := meta_position meta mod capacity p\<rparr>))))"

definition from_path :: "'r tensor_dict \<times> meta_info \<Rightarrow> 'r replay_pool" where
  "from_path file = (case file of (td, meta) \<Rightarrow>
     (pool_init (meta_capacity meta))\<lparr>pool := Some td, size := meta_size meta,
        position := meta_position meta\<rparr>)"

definition pool_len :: "'r replay_pool \<Rightarrow> nat" where
  "pool_len p = size p"

section \<open>The pool holds the latest rows\<close>

text \<open>
  \<open>hist\<close> is everything written to one key so far. The slots of the latest \<open>cap\<close> entries hold
  them; the slot of entry \<open>t\<close> is \<open>t mod cap\<close>.
\<close>

definition ring_ok :: "nat \<Rightarrow> 'r list \<Rightarrow> 'r list \<Rightarrow> bool" where
  "ring_ok cap hist buf \<longleftrightarrow> length buf = cap \<and>
     (\<forall>t < length hist. length hist - cap \<le> t \<longrightarrow> buf ! (t mod cap) = hist ! t)"

lemma ring_ok_one:
  assumes "ring_ok cap hist buf" and "0 < cap"
  shows "ring_ok cap (hist @ [r]) (buf[length hist mod cap := r])"
  unfolding ring_ok_def
proof (intro conjI allI impI)
  show "length (buf[length hist mod cap := r]) = cap" using assms by (simp add: ring_ok_def)
  fix t
  assume t: "t < length (hist @ [r])" "length (hist @ [r]) - cap \<le> t"
  show "buf[length hist mod cap := r] ! (t mod cap) = (hist @ [r]) ! t"
  proof (cases "t = length hist")
    case True
    then show ?thesis using assms by (simp add: ring_ok_def)
  next
    case False
    then have lt: "t < length hist" "length hist - t < cap" "0 < length hist - t"
      using t assms(2) by auto
    have "length hist mod cap \<noteq> t mod cap"
    proof
      assume "length hist mod cap = t mod cap"
      then have "cap dvd length hist - t" using lt by (simp add: mod_eq_dvd_iff_nat)
      then show False using lt by (auto dest: dvd_imp_le)
    qed
    moreover have "length hist - cap \<le> t" using t by simp
    ultimately show ?thesis using assms(1) lt by (simp add: ring_ok_def nth_append)
  qed
qed

lemma ring_ok_block:
  assumes "ring_ok cap hist buf" and "0 < cap"
  shows "ring_ok cap (hist @ rows)
     (index_copy (map (\<lambda>i. (length hist + i) mod cap) [0..<length rows]) rows buf)"
  using assms(1)
proof (induction rows arbitrary: hist buf)
  case Nil
  then show ?case by (simp add: index_copy_def)
next
  case (Cons r rows)
  have idx: "map (\<lambda>i. (length hist + i) mod cap) [0..<length (r # rows)] =
      length hist mod cap # map (\<lambda>i. (length (hist @ [r]) + i) mod cap) [0..<length rows]"
    by (simp add: upt_conv_Cons map_Suc_upt [symmetric] comp_def del: upt_Suc)
  have "ring_ok cap ((hist @ [r]) @ rows)
     (index_copy (map (\<lambda>i. (length (hist @ [r]) + i) mod cap) [0..<length rows]) rows
        (buf[length hist mod cap := r]))"
    by (rule Cons.IH [OF ring_ok_one [OF Cons.prems assms(2)]])
  then show ?case unfolding idx by (simp add: index_copy_def)
qed

lemma update_key_eq:
  "key \<in> fst ` set kvs \<Longrightarrow> distinct (map fst kvs) \<Longrightarrow>
   update_key key f kvs = Inr (map (\<lambda>(k, v). (k, if k = key then f v else v)) kvs)"
proof (induction kvs)
  case (Cons kv kvs)
  obtain k v where kv: "kv = (k, v)" by (cases kv)
  show ?case
  proof (cases "k = key")
    case True
    then have "map (\<lambda>(k, v). (k, if k = key then f v else v)) kvs = kvs"
      using Cons.prems kv by (intro map_idI) force
    then show ?thesis using True by (simp add: kv)
  next
    case False
    then show ?thesis using Cons kv by auto
  qed
qed simp

lemma copy_keys_eq:
  assumes "fst ` set src \<subseteq> fst ` set kvs" and "distinct (map fst src)" and "distinct (map fst kvs)"
  shows "copy_keys idx len src kvs = Inr (map (\<lambda>(k, v). (k, case map_of src k of
       None \<Rightarrow> v | Some rows \<Rightarrow> index_copy idx (take len rows) v)) kvs)"
  using assms
proof (induction src arbitrary: kvs)
  case (Cons kr src)
  obtain key rows where kr: "kr = (key, rows)" by (cases kr)
  define kvs' where
    "kvs' = map (\<lambda>(k, v). (k, if k = key then index_copy idx (take len rows) v else v)) kvs"
  have keys: "map fst kvs' = map fst kvs" by (auto simp: kvs'_def)
  then have "fst ` set kvs' = fst ` set kvs" by (metis list.set_map)
  then have "copy_keys idx len src kvs' = Inr (map (\<lambda>(k, v). (k, case map_of src k of
       None \<Rightarrow> v | Some rows \<Rightarrow> index_copy idx (take len rows) v)) kvs')"
    using Cons.prems keys by (intro Cons.IH) (auto simp: kr)
  moreover have "map_of src key = None" using Cons.prems(2) by (simp add: kr map_of_eq_None_iff)
  ultimately show ?case
    using Cons.prems update_key_eq [of key kvs] by (auto simp: kr kvs'_def)
qed (simp add: map_idI)

text \<open>A well-formed dict: distinct keys, every buf with \<open>batch_size\<close> rows.\<close>

definition dict_ok :: "'r tensor_dict \<Rightarrow> bool" where
  "dict_ok td \<longleftrightarrow> distinct (map fst (td_fields td)) \<and>
     (\<forall>kv\<in>set (td_fields td). length (snd kv) = td_batch_size td)"

definition dict_rows :: "'r tensor_dict \<Rightarrow> string \<Rightarrow> 'r list" where
  "dict_rows td k = (case map_of (td_fields td) k of None \<Rightarrow> [] | Some rows \<Rightarrow> rows)"

definition keys_of :: "'r tensor_dict \<Rightarrow> string set" where
  "keys_of td = fst ` set (td_fields td)"

text \<open>
  The pool after \<open>n\<close> rows per key: the history \<open>hist k\<close> of every key is in its ring, and size and
  position are those of \<open>n\<close> writes.
\<close>

definition pool_ok :: "(string \<Rightarrow> 'r list) \<Rightarrow> nat \<Rightarrow> string set \<Rightarrow> 'r replay_pool \<Rightarrow> bool" where
  "pool_ok hist n K p \<longleftrightarrow> 0 < capacity p \<and> size p = min n (capacity p) \<and>
     position p = n mod capacity p \<and> (\<forall>k. k \<in> K \<longrightarrow> length (hist k) = n) \<and>
     (\<exists>td. pool p = Some td \<and> keys_of td = K \<and> distinct (map fst (td_fields td)) \<and>
        td_batch_size td = capacity p \<and>
        (\<forall>kv\<in>set (td_fields td). ring_ok (capacity p) (hist (fst kv)) (snd kv)))"

lemma lazy_init_pool_ok:
  assumes "dict_ok batch" and "0 < cap"
  shows "pool_ok (\<lambda>_. []) 0 (keys_of batch) (lazy_init_pool batch (pool_init cap))"
  using assms
  by (simp add: pool_ok_def lazy_init_pool_def pool_init_def keys_of_def ring_ok_def dict_ok_def
      comp_def split_def image_image)

lemma insert_block_ok:
  assumes ok: "pool_ok hist n K p" and src: "dict_ok source" "keys_of source = K"
  shows "\<exists>p'. insert_block_to_pool source p = Inr p' \<and> capacity p' = capacity p \<and>
     pool_ok (\<lambda>k. hist k @ take (capacity p) (dict_rows source k))
       (n + min (td_batch_size source) (capacity p)) K p'"
proof -
  obtain td where td: "pool p = Some td" "keys_of td = K" "distinct (map fst (td_fields td))"
      "td_batch_size td = capacity p"
      "\<forall>kv\<in>set (td_fields td). ring_ok (capacity p) (hist (fst kv)) (snd kv)"
    and p: "0 < capacity p" "size p = min n (capacity p)" "position p = n mod capacity p"
      "\<forall>k. k \<in> K \<longrightarrow> length (hist k) = n"
    using ok by (auto simp: pool_ok_def)
  define len where "len = min (td_batch_size source) (capacity p)"
  define idx where "idx = map (\<lambda>i. (position p + i) mod capacity p) [0..<len]"
  define kvs where "kvs = map (\<lambda>(k, v). (k, case map_of (td_fields source) k of
       None \<Rightarrow> v | Some rows \<Rightarrow> index_copy idx (take len rows) v)) (td_fields td)"
  have copy: "copy_keys idx len (td_fields source) (td_fields td) = Inr kvs"
    unfolding kvs_def using src td by (intro copy_keys_eq) (auto simp: dict_ok_def keys_of_def)
  have keys: "map fst kvs = map fst (td_fields td)" by (auto simp: kvs_def)
  have rows: "length (dict_rows source k) = td_batch_size source"
      "map_of (td_fields source) k = Some (dict_rows source k)" if "k \<in> K" for k
  proof -
    have "k \<in> fst ` set (td_fields source)" using that src(2) by (simp add: keys_of_def)
    then obtain r where r: "map_of (td_fields source) k = Some r"
      by (metis map_of_eq_None_iff not_None_eq)
    then show "map_of (td_fields source) k = Some (dict_rows source k)" by (simp add: dict_rows_def)
    show "length (dict_rows source k) = td_batch_size source"
      using map_of_SomeD [OF r] src(1) r by (auto simp: dict_ok_def dict_rows_def)
  qed
  have take: "take (capacity p) (dict_rows source k) = take len (dict_rows source k)" if "k \<in> K" for k
    using rows(1) [OF that] by (simp add: len_def min_def)
  have ring: "ring_ok (capacity p) (hist (fst kv) @ take (capacity p) (dict_rows source (fst kv))) (snd kv)"
    if kv: "kv \<in> set kvs" for kv
  proof -
    obtain v where v: "(fst kv, v) \<in> set (td_fields td)" "snd kv = (case map_of (td_fields source) (fst kv) of
       None \<Rightarrow> v | Some rows \<Rightarrow> index_copy idx (take len rows) v)"
      using kv by (auto simp: kvs_def)
    then have "fst kv \<in> keys_of td" unfolding keys_of_def by (metis fst_conv image_eqI)
    then have k: "fst kv \<in> K" unfolding td(2) .
    let ?r = "take len (dict_rows source (fst kv))"
    have "length ?r = len" using rows(1) [OF k] by (simp add: len_def)
    moreover have "idx = map (\<lambda>i. (length (hist (fst kv)) + i) mod capacity p) [0..<len]"
      using p(3,4) k by (simp add: idx_def mod_add_left_eq)
    moreover have "ring_ok (capacity p) (hist (fst kv)) v" using td(5) v(1) by force
    ultimately have "ring_ok (capacity p) (hist (fst kv) @ ?r) (index_copy idx ?r v)"
      using ring_ok_block [OF _ p(1), of "hist (fst kv)" v ?r] by simp
    then show ?thesis using v(2) rows(2) [OF k] take [OF k] by simp
  qed
  define p' where "p' = p\<lparr>pool := Some (td\<lparr>td_fields := kvs\<rparr>),
     position := (position p + len) mod capacity p, size := min (size p + len) (capacity p)\<rparr>"
  have run: "insert_block_to_pool source p = Inr p'"
    using td(1) copy p(1) by (simp add: insert_block_to_pool_def Let_def len_def idx_def p'_def)
  have "keys_of (td\<lparr>td_fields := kvs\<rparr>) = K"
    using keys td(2) by (simp add: keys_of_def) (metis list.set_map)
  moreover have "length (hist k @ take (capacity p) (dict_rows source k)) = n + len" if "k \<in> K" for k
    using p(4) rows(1) [OF that] that by (simp add: len_def min.commute)
  moreover have "min (min n (capacity p) + len) (capacity p) = min (n + len) (capacity p)" by linarith
  ultimately have "pool_ok (\<lambda>k. hist k @ take (capacity p) (dict_rows source k)) (n + len) K p'"
    unfolding pool_ok_def using p td(3,4) keys ring
    by (simp add: p'_def mod_add_left_eq)
  with run show ?thesis by (simp add: p'_def len_def)
qed

definition add_all :: "'r :: zero tensor_dict list \<Rightarrow> 'r replay_pool \<Rightarrow> 'r replay_pool result" where
  "add_all batches p = foldl (\<lambda>acc b. rbind acc (add_batch b)) (Inr p) batches"

definition written :: "nat \<Rightarrow> 'r tensor_dict list \<Rightarrow> string \<Rightarrow> 'r list" where
  "written cap batches k = concat (map (\<lambda>b. take cap (dict_rows b k)) batches)"

definition written_count :: "nat \<Rightarrow> 'r tensor_dict list \<Rightarrow> nat" where
  "written_count cap batches = sum_list (map (\<lambda>b. min (td_batch_size b) cap) batches)"

lemma add_all_ok:
  assumes "0 < cap" and "batches \<noteq> []" and "\<forall>b\<in>set batches. dict_ok b \<and> keys_of b = K"
  shows "\<exists>p. add_all batches (pool_init cap) = Inr p \<and> capacity p = cap \<and>
     pool_ok (written cap batches) (written_count cap batches) K p"
  using assms(2,3)
proof (induction batches rule: rev_induct)
  case (snoc b bs)
  have b: "dict_ok b" "keys_of b = K" using snoc.prems by auto
  have "\<exists>p q. add_all bs (pool_init cap) = Inr p \<and> capacity q = cap \<and>
      add_batch b p = insert_block_to_pool b q \<and> pool_ok (written cap bs) (written_count cap bs) K q"
  proof (cases "bs = []")
    case True
    have "add_batch b (pool_init cap) =
        insert_block_to_pool b (lazy_init_pool b (pool_init cap))"
      by (simp add: add_batch_def pool_init_def)
    moreover have "capacity (lazy_init_pool b (pool_init cap)) = cap"
      by (simp add: lazy_init_pool_def pool_init_def)
    moreover have "written cap [] = (\<lambda>_. [] :: 'a list)" by (rule ext) (simp add: written_def)
    ultimately show ?thesis
      using lazy_init_pool_ok [OF b(1) assms(1)] True b(2)
      by (intro exI [of _ "pool_init cap"] exI [of _ "lazy_init_pool b (pool_init cap)"])
        (simp add: add_all_def written_count_def)
  next
    case False
    then obtain p where p: "add_all bs (pool_init cap) = Inr p" "capacity p = cap"
        "pool_ok (written cap bs) (written_count cap bs) K p"
      using snoc by auto
    then have "pool p \<noteq> None" by (auto simp: pool_ok_def)
    then have "add_batch b p = insert_block_to_pool b p" by (auto simp: add_batch_def)
    with p show ?thesis by blast
  qed
  then obtain p q where pq: "add_all bs (pool_init cap) = Inr p" "capacity q = cap"
      "add_batch b p = insert_block_to_pool b q" "pool_ok (written cap bs) (written_count cap bs) K q"
    by blast
  from insert_block_ok [OF pq(4) b] obtain p' where p': "insert_block_to_pool b q = Inr p'"
      "capacity p' = capacity q"
      "pool_ok (\<lambda>k. written cap bs k @ take (capacity q) (dict_rows b k))
         (written_count cap bs + min (td_batch_size b) (capacity q)) K p'"
    by blast
  have "(\<lambda>k. written cap bs k @ take (capacity q) (dict_rows b k)) = written cap (bs @ [b])"
    by (rule ext) (simp add: written_def pq(2))
  moreover have "written_count cap bs + min (td_batch_size b) (capacity q) = written_count cap (bs @ [b])"
    by (simp add: written_count_def pq(2))
  moreover have "add_all (bs @ [b]) (pool_init cap) = Inr p'"
    using pq(1,3) p'(1) by (simp add: add_all_def)
  ultimately show ?case using p' pq(2) by auto
qed simp

text \<open>
  After any sequence of batches with the same keys, the replay pool holds, for every key, the
  latest \<open>min total capacity\<close> rows of what was written (the first \<open>capacity\<close> rows of each batch):
  row number \<open>t\<close> is in slot \<open>t mod capacity\<close>, and \<open>size\<close> counts exactly those rows.
\<close>

theorem pool_holds_latest:
  assumes "0 < cap" and "batches \<noteq> []" and "\<forall>b\<in>set batches. dict_ok b \<and> keys_of b = K"
  shows "\<exists>p td. add_all batches (pool_init cap) = Inr p \<and> pool p = Some td \<and>
     size p = min (written_count cap batches) cap \<and>
     (\<forall>k\<in>K. length (written cap batches k) = written_count cap batches \<and>
        (\<forall>t < written_count cap batches. written_count cap batches - cap \<le> t \<longrightarrow>
           dict_rows td k ! (t mod cap) = written cap batches k ! t))"
proof -
  obtain p where p: "add_all batches (pool_init cap) = Inr p" "capacity p = cap"
      "pool_ok (written cap batches) (written_count cap batches) K p"
    using add_all_ok [OF assms] by blast
  then obtain td where td: "pool p = Some td" "keys_of td = K" "distinct (map fst (td_fields td))"
      "\<forall>kv\<in>set (td_fields td). ring_ok cap (written cap batches (fst kv)) (snd kv)"
    and sz: "size p = min (written_count cap batches) cap"
      "\<forall>k. k \<in> K \<longrightarrow> length (written cap batches k) = written_count cap batches"
    by (auto simp: pool_ok_def)
  have "ring_ok cap (written cap batches k) (dict_rows td k)" if "k \<in> K" for k
  proof -
    have "k \<in> fst ` set (td_fields td)" using that td(2) by (simp add: keys_of_def)
    then obtain v where v: "(k, v) \<in> set (td_fields td)" by auto
    then have "dict_rows td k = v" using td(3) by (simp add: dict_rows_def)
    with v td(4) show ?thesis by force
  qed
  with p td sz show ?thesis by (intro exI [of _ p] exI [of _ td]) (simp add: ring_ok_def)
qed

definition demo_batch :: "nat \<Rightarrow> nat tensor_dict" where
  "demo_batch n = \<lparr>td_batch_size = 2, td_fields = [(''obs'', [n, n + 1])]\<rparr>"

lemma pool_holds_latest_witness:
  "\<exists>p td. add_all [demo_batch 1, demo_batch 3] (pool_init 3) = Inr p \<and> pool p = Some td \<and>
     size p = 3 \<and> dict_rows td ''obs'' ! 0 = 4"
proof -
  let ?bs = "[demo_batch 1, demo_batch 3]"
  have pre: "0 < (3 :: nat)" "?bs \<noteq> []" "\<forall>b\<in>set ?bs. dict_ok b \<and> keys_of b = {''obs''}"
    by (simp_all add: demo_batch_def dict_ok_def keys_of_def)
  have cnt: "written_count 3 ?bs = 4" by (simp add: written_count_def demo_batch_def)
  have rows: "written 3 ?bs ''obs'' = [1, 2, 3, 4]"
    by (simp add: written_def demo_batch_def dict_rows_def)
  from pool_holds_latest [OF pre] obtain p td where p: "add_all ?bs (pool_init 3) = Inr p"
      "pool p = Some td" "size p = min (written_count 3 ?bs) 3"
    and slots: "\<forall>t < written_count 3 ?bs. written_count 3 ?bs - 3 \<le> t \<longrightarrow>
           dict_rows td ''obs'' ! (t mod 3) = written 3 ?bs ''obs'' ! t"
    by blast
  have "dict_rows td ''obs'' ! (3 mod 3) = written 3 ?bs ''obs'' ! 3"
    by (rule slots [rule_format]; unfold cnt) simp_all
  then have "dict_rows td ''obs'' ! 0 = 4" unfolding rows by simp
  with p show ?thesis unfolding cnt by (intro exI conjI) simp_all
qed

text \<open>
  Sampling from a pool of \<open>size\<close> rows returns the asked number of rows, each at a distinct
  filled slot, and fails its assertion exactly when more rows are asked for than there are, provided
  \<open>torch.randperm\<close> returns a permutation.
\<close>

theorem sample_batch_spec:
  assumes "\<And>n. mset (randperm n) = mset [0..<n]" and "pool_ok hist n K p"
  shows "if m \<le> size p
     then \<exists>idx td td'. pool p = Some td \<and> sample_batch randperm m p = Inr td' \<and> td_batch_size td' = m \<and>
            distinct idx \<and> length idx = m \<and> set idx \<subseteq> {..<size p} \<and>
            td_fields td' = map (\<lambda>(k, v). (k, map (\<lambda>i. v ! i) idx)) (td_fields td)
     else sample_batch randperm m p = Inl AssertionError"
proof (cases "m \<le> size p")
  case True
  obtain td where td: "pool p = Some td"
      "\<forall>kv\<in>set (td_fields td). ring_ok (capacity p) (hist (fst kv)) (snd kv)" "size p \<le> capacity p"
    using assms(2) by (auto simp: pool_ok_def)
  note perm = mset_upt_perm [OF assms(1) [of "size p"]]
  define idx where "idx = take m (randperm (size p))"
  have idx: "distinct idx" "length idx = m" "set idx \<subseteq> {..<size p}"
    using perm True set_take_subset [of m "randperm (size p)"] by (auto simp: idx_def)
  have "mapM_result (\<lambda>(key, v). rbind (mapM_result (py_get v) idx) (\<lambda>rows. Inr (key, rows)))
      (td_fields td) = Inr (map (\<lambda>(k, v). (k, map (\<lambda>i. v ! i) idx)) (td_fields td))"
  proof (rule mapM_result_Inr)
    fix kv
    assume kv: "kv \<in> set (td_fields td)"
    obtain k v where [simp]: "kv = (k, v)" by (cases kv)
    have "length v = capacity p" using td(2) kv by (auto simp: ring_ok_def)
    then have "mapM_result (py_get v) idx = Inr (map (\<lambda>i. v ! i) idx)"
      using idx(3) td(3) by (intro mapM_result_Inr py_get_in_range) auto
    then show "(case kv of (key, v) \<Rightarrow> rbind (mapM_result (py_get v) idx) (\<lambda>rows. Inr (key, rows))) =
        Inr (case kv of (k, v) \<Rightarrow> (k, map (\<lambda>i. v ! i) idx))"
      by simp
  qed
  then have "sample_batch randperm m p = Inr \<lparr>td_batch_size = m,
      td_fields = map (\<lambda>(k, v). (k, map (\<lambda>i. v ! i) idx)) (td_fields td)\<rparr>"
    using True td(1) by (simp add: sample_batch_def Let_def idx_def [symmetric])
  with True td(1) idx show ?thesis by (intro if_P [THEN iffD2]) auto
next
  case False
  then show ?thesis by (simp add: sample_batch_def)
qed

lemma sample_batch_spec_witness:
  "\<exists>p td. add_all [demo_batch 1] (pool_init 3) = Inr p \<and> sample_batch (\<lambda>n. rev [0..<n]) 2 p = Inr td \<and>
     td_batch_size td = 2 \<and> sample_batch (\<lambda>n. rev [0..<n]) 3 p = Inl AssertionError"
proof -
  let ?p = "lazy_init_pool (demo_batch 1) (pool_init 3)"
  have d: "dict_ok (demo_batch 1)" by (simp add: demo_batch_def dict_ok_def)
  obtain p where p: "insert_block_to_pool (demo_batch 1) ?p = Inr p" "capacity p = capacity ?p"
     "pool_ok (\<lambda>k. [] @ take (capacity ?p) (dict_rows (demo_batch 1) k))
       (0 + min (td_batch_size (demo_batch 1)) (capacity ?p)) (keys_of (demo_batch 1)) p"
    using insert_block_ok [OF lazy_init_pool_ok [OF d] d refl, of 3] by auto
  have "capacity ?p = 3" by (simp add: lazy_init_pool_def pool_init_def)
  then have sz: "size p = 2" using p(2,3) by (simp add: pool_ok_def demo_batch_def)
  have "add_all [demo_batch 1] (pool_init 3) = Inr p"
    using p(1) by (simp add: add_all_def add_batch_def pool_init_def)
  moreover have perm: "mset (rev [0..<n]) = mset [0..<n]" for n by simp
  ultimately show ?thesis
    using sample_batch_spec [OF perm p(3), of 2] sample_batch_spec [OF perm p(3), of 3] sz
    by auto
qed

section \<open>Checkpoints\<close>

text \<open>
  A pool that has been written to is restored by \<open>load\<close> into a pool of the same capacity and
  by \<open>from_path\<close>: same rows, size and position.
\<close>

theorem save_load:
  assumes "pool_ok hist n K p"
  shows "load (save p) (pool_init (capacity p)) = Inr (True, p) \<and>
     (\<exists>file. save p = Some file \<and> from_path file = p)"
proof -
  obtain td where td: "pool p = Some td" using assms by (auto simp: pool_ok_def)
  have p: "0 < capacity p" "size p = min n (capacity p)" "position p = n mod capacity p"
    using assms by (simp_all add: pool_ok_def)
  have "load (save p) (pool_init (capacity p)) = Inr (True, p)"
    using p td by (cases p) (simp add: save_def load_def pool_init_def Let_def)
  moreover have "save p = Some (td, \<lparr>meta_size = size p, meta_capacity = capacity p,
      meta_position = position p\<rparr>)"
    by (simp add: save_def td)
  moreover have "from_path (td, \<lparr>meta_size = size p, meta_capacity = capacity p,
      meta_position = position p\<rparr>) = p"
    using td by (cases p) (simp add: from_path_def pool_init_def)
  ultimately show ?thesis by blast
qed

lemma save_load_witness:
  "load (save (lazy_init_pool (demo_batch 1) (pool_init 3)))
     (pool_init (capacity (lazy_init_pool (demo_batch 1) (pool_init 3)))) =
   Inr (True, lazy_init_pool (demo_batch 1) (pool_init 3))"
proof -
  have "dict_ok (demo_batch 1)" by (simp add: demo_batch_def dict_ok_def)
  from save_load [OF lazy_init_pool_ok [OF this, of 3]] show ?thesis by simp
qed

text \<open>
  A full pool loaded into a larger capacity is not restored: the next batch overwrites the
  oldest rows instead of using the new slots, and a zero slot that was never written counts as a
  sample.
\<close>

theorem load_larger_capacity:
  "rbind (add_all [demo_batch 1] (pool_init 2)) (\<lambda>p.
   rbind (load (save p) (pool_init 4)) (\<lambda>(_, q).
   rbind (add_batch \<lparr>td_batch_size = 1, td_fields = [(''obs'', [7])]\<rparr> q) (\<lambda>r.
     Inr (size r, map_option (\<lambda>td. take (size r) (dict_rows td ''obs'')) (pool r))))) =
   Inr (3, Some [7, 2, 0])"
  by code_simp

end
