(* ===== verification/Torch_Functional.thy ===== *)
theory Torch_Functional
  imports Verl_Base "HOL-Library.List_Lexorder" "HOL-Library.Char_ord"
begin

text \<open>
  The tensor helpers of \<open>src/verl/utils/torch_functional.py\<close> (masked sums, means, variances and
  whitening, clipping, the response mask, padding and truncation) and the group statistics of
  \<open>src/verl/utils/groupwise.py\<close>. Floating-point numbers are real numbers, so rounding, overflow
  and NaN are not modelled; the small constants the code adds to denominators are kept. A batch of
  sequences is the list of its rows.
\<close>

section \<open>Masked reductions\<close>

definition masked_value :: "real \<Rightarrow> real \<Rightarrow> real" where
  "masked_value v m = (if m \<noteq> 0 then v else 0) * m"

definition row_masked_sum :: "vec \<Rightarrow> vec \<Rightarrow> real" where
  "row_masked_sum vs ms = sum_list (map2 masked_value vs ms)"

definition masked_sum :: "mat \<Rightarrow> mat \<Rightarrow> real" where
  "masked_sum values msk = sum_list (map2 row_masked_sum values msk)"

definition row_masked_mean :: "vec \<Rightarrow> vec \<Rightarrow> real" where
  "row_masked_mean vs ms = row_masked_sum vs ms / (sum_list ms + 1 / 10 ^ 8)"

definition masked_mean :: "mat \<Rightarrow> mat \<Rightarrow> real" where
  "masked_mean values msk = masked_sum values msk / (mat_sum msk + 1 / 10 ^ 8)"

definition map_mat :: "('a \<Rightarrow> 'b) \<Rightarrow> 'a list list \<Rightarrow> 'b list list" where
  "map_mat f A = map (map f) A"

definition masked_var :: "mat \<Rightarrow> mat \<Rightarrow> bool \<Rightarrow> real result" where
  "masked_var values msk unbiased =
     (let mean = masked_mean values msk;
          variance = masked_mean (map_mat (\<lambda>v. (v - mean) ^ 2) values) msk;
          mask_sum = mat_sum msk
      in if unbiased
         then ensure (mask_sum \<noteq> 0) ValueError
               (ensure (mask_sum \<noteq> 1) ValueError (Inr (variance * (mask_sum / (mask_sum - 1)))))
         else Inr variance)"

definition masked_whiten :: "mat \<Rightarrow> mat \<Rightarrow> bool \<Rightarrow> mat result" where
  "masked_whiten values msk shift_mean =
     (let mean = masked_mean values msk
      in rbind (masked_var values msk True) (\<lambda>var.
           Inr (map_mat (\<lambda>v. (v - mean) * (1 / sqrt (var + 1 / 10 ^ 8)) +
                             (if shift_mean then 0 else mean)) values)))"

definition clip_by_value :: "real \<Rightarrow> real \<Rightarrow> real \<Rightarrow> real" where
  "clip_by_value x tensor_min tensor_max = max (min x tensor_max) tensor_min"

definition clamp :: "real \<Rightarrow> real \<Rightarrow> real \<Rightarrow> real" where
  "clamp lo hi x = min (max x lo) hi"

text \<open>\<open>softmax\<close>, \<open>logsumexp\<close> and the entropy of one distribution.\<close>

definition logsumexp :: "vec \<Rightarrow> real" where
  "logsumexp xs = ln (sum_list (map exp xs))"

definition softmax :: "vec \<Rightarrow> vec" where
  "softmax xs = map (\<lambda>x. exp x / sum_list (map exp xs)) xs"

definition entropy_from_logits :: "vec \<Rightarrow> real" where
  "entropy_from_logits logits = logsumexp logits - sum_list (map2 (*) (softmax logits) logits)"

text \<open>The loop of the chunked version writes the entropies of each chunk in place.\<close>

definition entropy_from_logits_with_chunking :: "nat \<Rightarrow> mat \<Rightarrow> vec result" where
  "entropy_from_logits_with_chunking chunk_size logits =
     ensure (chunk_size \<noteq> 0) ValueError
       (Inr (concat (map (map entropy_from_logits) (py_chunks chunk_size logits))))"

section \<open>Masks, padding and truncation of token sequences\<close>

text \<open>\<open>eos_mask.cumsum(1) - eos_mask == 0\<close>: no end-of-sequence token strictly before.\<close>

definition get_response_mask_row :: "int list \<Rightarrow> int list \<Rightarrow> int list" where
  "get_response_mask_row eos_tokens row =
     (let eos_mask = map (\<lambda>t. if t \<in> set eos_tokens then 1 else (0 :: int)) row
      in map (\<lambda>i. if sum_list (take (i + 1) eos_mask) - eos_mask ! i = 0 then 1 else 0)
           [0..<length row])"

definition pad_2d_list_to_length :: "int list list \<Rightarrow> int \<Rightarrow> nat option \<Rightarrow> int list list result" where
  "pad_2d_list_to_length response pad_token_id max_length =
     ensure (response \<noteq> []) ValueError
       (let response_length = Max (set (map length response));
            target_length = (case max_length of
                None \<Rightarrow> response_length
              | Some m \<Rightarrow> if m > response_length then m else response_length)
        in Inr (map (\<lambda>sub. sub @ replicate (target_length - length sub) pad_token_id) response))"

definition pad_sequence_to_length :: "int list \<Rightarrow> nat \<Rightarrow> int \<Rightarrow> bool \<Rightarrow> int list" where
  "pad_sequence_to_length row max_seq_len pad_token_id left_pad =
     (if length row \<ge> max_seq_len then row
      else if left_pad then replicate (max_seq_len - length row) pad_token_id @ row
      else row @ replicate (max_seq_len - length row) pad_token_id)"

text \<open>\<open>xs[-n:]\<close> for a natural \<open>n\<close>; \<open>xs[-0:]\<close> is the whole list.\<close>

definition py_last :: "nat \<Rightarrow> 'a list \<Rightarrow> 'a list" where
  "py_last n xs = (if n = 0 then xs else drop (length xs - n) xs)"

datatype truncation = TruncLeft | TruncRight | TruncMiddle | TruncError

definition truncate_row :: "truncation \<Rightarrow> nat \<Rightarrow> int list \<Rightarrow> int list result" where
  "truncate_row trunc max_length row =
     (case trunc of
        TruncLeft \<Rightarrow> Inr (py_last max_length row)
      | TruncRight \<Rightarrow> Inr (take max_length row)
      | TruncMiddle \<Rightarrow>
          (let left_half = max_length div 2; right_half = max_length - left_half
           in Inr (take left_half row @ py_last right_half row))
      | TruncError \<Rightarrow> Inl NotImplementedError)"

definition postprocess_data ::
  "int list \<Rightarrow> int list \<Rightarrow> nat \<Rightarrow> int \<Rightarrow> bool \<Rightarrow> truncation \<Rightarrow> (int list \<times> int list) result" where
  "postprocess_data input_ids attention_mask max_length pad_token_id left_pad trunc =
     (let sequence_length = length input_ids
      in if sequence_length < max_length
         then Inr (pad_sequence_to_length input_ids max_length pad_token_id left_pad,
                   pad_sequence_to_length attention_mask max_length 0 left_pad)
         else if sequence_length > max_length
         then rbind (truncate_row trunc max_length input_ids) (\<lambda>ids.
              rbind (truncate_row trunc max_length attention_mask) (\<lambda>msk. Inr (ids, msk)))
         else Inr (input_ids, attention_mask))"

text \<open>\<open>ids[len(ids) - mask.sum():]\<close>, for a mask whose sum is between zero and the length.\<close>

definition remove_pad_token_row :: "int list \<Rightarrow> nat list \<Rightarrow> int list" where
  "remove_pad_token_row ids msk = drop (length ids - sum_list msk) ids"

section \<open>Group statistics\<close>

text \<open>The label arrays \<open>as_torch_index\<close> receives, by the dtype NumPy gives them.\<close>

datatype labels = IntLabels "int list" | FloatLabels "real list" | StrLabels "string list"

definition unique_inverse :: "'a :: linorder list \<Rightarrow> int list" where
  "unique_inverse xs = map (\<lambda>x. int (length (filter (\<lambda>y. y < x) (remdups xs)))) xs"

definition trunc_zero :: "real \<Rightarrow> int" where
  "trunc_zero r = (if 0 \<le> r then \<lfloor>r\<rfloor> else \<lceil>r\<rceil>)"

definition near_integer :: "real \<Rightarrow> bool" where
  "near_integer r \<longleftrightarrow> \<bar>r - of_int (round r)\<bar> \<le> 1 / 10 ^ 6"

text \<open>
  \<open>parse_int\<close> is NumPy's conversion of a string to an integer. Float labels that are not all near
  integers reach the conversion \<open>arr.astype(np.int64)\<close>, which truncates.
\<close>

definition as_torch_index :: "(string \<Rightarrow> int option) \<Rightarrow> labels \<Rightarrow> int list" where
  "as_torch_index parse_int index =
     (case index of
        IntLabels is \<Rightarrow> is
      | FloatLabels rs \<Rightarrow>
          (if list_all near_integer rs then map round rs else map trunc_zero rs)
      | StrLabels ss \<Rightarrow>
          (if list_all (\<lambda>s. parse_int s \<noteq> None) ss then map (\<lambda>s. the (parse_int s)) ss
           else unique_inverse ss))"

definition group_sum :: "(real \<Rightarrow> real) \<Rightarrow> vec \<Rightarrow> int list \<Rightarrow> nat \<Rightarrow> real" where
  "group_sum f scores gidx g =
     foldl (\<lambda>acc (s, k). if k = int g then acc + f s else acc) 0 (zip scores gidx)"

definition group_mean_std :: "vec \<Rightarrow> int list \<Rightarrow> real \<Rightarrow> (vec \<times> vec \<times> vec) result" where
  "group_mean_std scores gidx eps =
     ensure (length scores = length gidx) ValueError
      (let G_int = (if gidx = [] then 0 else Max (set gidx) + 1); G = nat G_int
       in if G_int = 0 then Inr ([], [], [])
          else ensure (0 \<le> G_int) RuntimeError
           (ensure (\<forall>k\<in>set gidx. 0 \<le> k) IndexError
            (let count = group_sum (\<lambda>_. 1) scores gidx;
                 s1 = group_sum (\<lambda>s. s) scores gidx;
                 s2 = group_sum (\<lambda>s. s * s) scores gidx;
                 mean = (\<lambda>g. s1 g / max (count g) 1);
                 var = (\<lambda>g. (s2 g - s1 g * s1 g / max (count g) 1) / max (count g - 1) 1);
                 std = (\<lambda>g. sqrt (max (var g) eps))
             in Inr (map (\<lambda>g. if count g \<le> 1 then 0 else mean g) [0..<G],
                     map (\<lambda>g. if count g \<le> 1 then 1 else std g) [0..<G],
                     map count [0..<G]))))"

section \<open>Properties of masks and padding\<close>

lemma take_no_eos:
  fixes eos :: "int list"
  shows "sum_list (map (\<lambda>t. if t \<in> set eos then 1 else (0 :: int)) xs) = 0 \<longleftrightarrow> set xs \<inter> set eos = {}"
    and "0 \<le> sum_list (map (\<lambda>t. if t \<in> set eos then 1 else (0 :: int)) xs)"
proof -
  show nn: "0 \<le> sum_list (map (\<lambda>t. if t \<in> set eos then 1 else (0 :: int)) xs)" for xs
    by (intro sum_list_nonneg) auto
  show "sum_list (map (\<lambda>t. if t \<in> set eos then 1 else (0 :: int)) xs) = 0 \<longleftrightarrow> set xs \<inter> set eos = {}"
  proof (induction xs)
    case (Cons x xs)
    then show ?case using nn [of xs] by (cases "x \<in> set eos") auto
  qed simp
qed

lemma no_eos_before:
  assumes "i \<le> length row"
  shows "set (take i row) \<inter> set eos = {} \<longleftrightarrow> i \<le> length (takeWhile (\<lambda>t. t \<notin> set eos) row)"
  using assms
proof (induction row arbitrary: i)
  case (Cons x row)
  then show ?case by (cases i) auto
qed simp

text \<open>
  The response mask keeps everything up to and including the first end-of-sequence token: it is
  one at position \<open>i\<close> exactly when no token before \<open>i\<close> ends the sequence, so it is a block of ones
  followed by zeros.
\<close>

theorem response_mask_prefix:
  "get_response_mask_row eos row =
     (let k = length (takeWhile (\<lambda>t. t \<notin> set eos) row)
      in map (\<lambda>i. if i \<le> k then 1 else 0) [0..<length row])"
proof -
  let ?f = "\<lambda>t. if t \<in> set eos then 1 else (0 :: int)"
  have "(sum_list (take (i + 1) (map ?f row)) - map ?f row ! i = 0) \<longleftrightarrow>
      i \<le> length (takeWhile (\<lambda>t. t \<notin> set eos) row)"
    if i: "i < length row" for i
  proof -
    have "sum_list (take (i + 1) (map ?f row)) - map ?f row ! i = sum_list (map ?f (take i row))"
      using i by (simp add: take_Suc_conv_app_nth take_map)
    then show ?thesis
      using take_no_eos(1) [of eos "take i row"] no_eos_before [of i row eos] i by simp
  qed
  then show ?thesis unfolding get_response_mask_row_def Let_def by simp
qed

text \<open>
  For a positive target length every call of \<open>postprocess_data\<close> that returns gives ids and mask
  of exactly that length; and a prompt that is padded on the left is recovered by
  \<open>remove_pad_token\<close>.
\<close>

theorem postprocess_shape:
  assumes "0 < n" and "length msk = length ids" and "postprocess_data ids msk n pad left trunc = Inr (ids', msk')"
  shows "length ids' = n \<and> length msk' = n \<and>
     (left \<and> length ids \<le> n \<and> msk = replicate (length ids) 1 \<longrightarrow>
        remove_pad_token_row ids' (map nat msk') = ids)"
proof -
  have trunc: "length r' = n" if "truncate_row trunc n r = Inr r'" "n < length r" for r r'
    using that assms(1)
    by (auto simp: truncate_row_def py_last_def Let_def split: truncation.splits if_splits)
  have lens: "length ids' = n \<and> length msk' = n"
    using assms trunc
    by (auto simp: postprocess_data_def pad_sequence_to_length_def Let_def rbind_eq_Inr split: if_splits)
  have "remove_pad_token_row ids' (map nat msk') = ids"
    if "left" "length ids \<le> n" "msk = replicate (length ids) 1"
  proof -
    have "ids' = replicate (n - length ids) pad @ ids \<and> msk' = replicate (n - length ids) 0 @ msk"
      using assms that
      by (auto simp: postprocess_data_def pad_sequence_to_length_def Let_def split: if_splits)
    then show ?thesis using that by (simp add: remove_pad_token_row_def sum_list_replicate)
  qed
  with lens show ?thesis by blast
qed

lemma postprocess_shape_witness:
  "postprocess_data [5, 6] [1, 1] 4 0 True TruncError = Inr ([0, 0, 5, 6], [0, 0, 1, 1]) \<and>
   remove_pad_token_row [0, 0, 5, 6] (map nat [0, 0, 1, 1]) = [5, 6]"
proof -
  have run: "postprocess_data [5, 6] [1, 1] 4 0 True TruncError = Inr ([0, 0, 5, 6], [0, 0, 1, 1])"
    by (simp add: postprocess_data_def pad_sequence_to_length_def numeral_eq_Suc)
  from postprocess_shape [OF _ _ run] run show ?thesis by (simp add: numeral_eq_Suc)
qed

text \<open>
  Float group labels that are not near integers are truncated, not factorised: two different
  labels become one group.
\<close>

theorem float_labels_merge:
  "as_torch_index parse_int (FloatLabels [1 / 5, 7 / 10]) = [0, 0]"
proof -
  have r: "round (1 / 5 :: real) = 0" by (rule round_unique) auto
  have "\<not> near_integer (1 / 5)" unfolding near_integer_def r by simp
  moreover have "trunc_zero (1 / 5) = 0" "trunc_zero (7 / 10) = 0"
    by (simp_all add: trunc_zero_def floor_eq_iff)
  ultimately show ?thesis by (simp add: as_torch_index_def)
qed

section \<open>Properties of masked statistics\<close>

text \<open>A mask of zeros and ones, and agreement on the ones.\<close>

definition binary_mask :: "mat \<Rightarrow> bool" where
  "binary_mask msk \<longleftrightarrow> (\<forall>row\<in>set msk. \<forall>x\<in>set row. x = 0 \<or> x = 1)"

definition agree_on :: "mat \<Rightarrow> mat \<Rightarrow> mat \<Rightarrow> bool" where
  "agree_on msk A B \<longleftrightarrow> same_shape A msk \<and> same_shape B msk \<and>
     (\<forall>i < length msk. \<forall>j < length (msk ! i). msk ! i ! j \<noteq> 0 \<longrightarrow> A ! i ! j = B ! i ! j)"

lemma masked_sum_cong:
  assumes "agree_on msk A B"
  shows "masked_sum (map_mat f A) msk = masked_sum (map_mat f B) msk"
proof -
  have len: "length A = length msk" "length B = length msk"
    using assms same_shape_length by (auto simp: agree_on_def)
  have "map2 row_masked_sum (map_mat f A) msk = map2 row_masked_sum (map_mat f B) msk"
  proof (rule nth_equalityI)
    fix i
    assume "i < length (map2 row_masked_sum (map_mat f A) msk)"
    then have i: "i < length msk" by simp
    then have row: "length (A ! i) = length (msk ! i)" "length (B ! i) = length (msk ! i)"
      using assms len same_shape_nth [of A msk i] same_shape_nth [of B msk i]
      by (simp_all add: agree_on_def)
    have "map2 masked_value (map f (A ! i)) (msk ! i) = map2 masked_value (map f (B ! i)) (msk ! i)"
      using row assms i
      by (intro nth_equalityI) (auto simp: agree_on_def masked_value_def)
    then show "map2 row_masked_sum (map_mat f A) msk ! i = map2 row_masked_sum (map_mat f B) msk ! i"
      using i len by (simp add: map_mat_def row_masked_sum_def)
  qed (simp add: map_mat_def len)
  then show ?thesis by (simp add: masked_sum_def)
qed

lemma map_mat_id: "map_mat (\<lambda>x. x) A = A"
  by (simp add: map_mat_def)

lemma masked_mean_cong: "agree_on msk A B \<Longrightarrow> masked_mean (map_mat f A) msk = masked_mean (map_mat f B) msk"
  using masked_sum_cong [of msk A B f] by (simp add: masked_mean_def)

lemma masked_var_cong: "agree_on msk A B \<Longrightarrow> masked_var A msk u = masked_var B msk u"
  using masked_mean_cong [of msk A B "\<lambda>x. x"] masked_mean_cong [of msk A B "\<lambda>v. (v - masked_mean B msk) ^ 2"]
  by (simp add: masked_var_def map_mat_id Let_def)

text \<open>
  \<open>masked_whiten\<close> raises exactly when the mask selects nothing or its sum is one, and otherwise
  the result at a selected position depends only on the selected values: entries outside the mask
  do not leak into the statistics.
\<close>

theorem masked_whiten_masked:
  assumes "agree_on msk A B"
  shows "raised (masked_whiten A msk shift) =
       (if mat_sum msk = 0 \<or> mat_sum msk = 1 then Some ValueError else None) \<and>
     (\<forall>WA WB. masked_whiten A msk shift = Inr WA \<and> masked_whiten B msk shift = Inr WB \<longrightarrow>
        agree_on msk WA WB)"
proof -
  have mean: "masked_mean A msk = masked_mean B msk"
    using masked_mean_cong [OF assms, of "\<lambda>x. x"] by (simp add: map_mat_id)
  have var: "masked_var A msk True = masked_var B msk True" using assms by (rule masked_var_cong)
  have "raised (masked_whiten A msk shift) =
       (if mat_sum msk = 0 \<or> mat_sum msk = 1 then Some ValueError else None)"
    by (simp add: masked_whiten_def masked_var_def Let_def ensure_def)
  moreover have "agree_on msk (map_mat f A) (map_mat f B)" for f
  proof -
    have shape: "same_shape (map_mat f A) msk" "same_shape (map_mat f B) msk"
      using assms by (simp_all add: agree_on_def same_shape_def map_mat_def comp_def)
    have "map_mat f A ! i ! j = map_mat f B ! i ! j"
      if "i < length msk" "j < length (msk ! i)" "msk ! i ! j \<noteq> 0" for i j
    proof -
      have "length A = length msk" "length B = length msk"
        "length (A ! i) = length (msk ! i)" "length (B ! i) = length (msk ! i)"
        using assms that(1) same_shape_length [of A msk] same_shape_length [of B msk]
          same_shape_nth [of A msk i] same_shape_nth [of B msk i]
        by (simp_all add: agree_on_def)
      with that assms show ?thesis by (simp add: map_mat_def agree_on_def)
    qed
    with shape show ?thesis by (simp add: agree_on_def)
  qed
  ultimately show ?thesis
    using mean var by (auto simp: masked_whiten_def Let_def rbind_eq_Inr)
qed

lemma masked_whiten_masked_witness:
  "\<exists>WA WB. masked_whiten [[1, 2, 9]] [[1, 1, 0]] True = Inr WA \<and>
     masked_whiten [[1, 2, -5]] [[1, 1, 0]] True = Inr WB \<and> agree_on [[1, 1, 0]] WA WB"
proof -
  have sum: "mat_sum [[1, 1, 0]] = 2" by (simp add: mat_sum_def)
  have agree: "agree_on [[1, 1, 0]] [[1, 2, 9]] [[1, 2, -5]]"
    by (auto simp: agree_on_def same_shape_def nth_Cons split: nat.splits)
  have agree': "agree_on [[1, 1, 0]] [[1, 2, -5]] [[1, 2, 9]]"
    by (auto simp: agree_on_def same_shape_def nth_Cons split: nat.splits)
  from masked_whiten_masked [OF agree, of True] masked_whiten_masked [OF agree', of True] sum
  show ?thesis by (auto simp: raised_None)
qed

end
