(* ===== verification/Advantages.thy ===== *)
theory Advantages
  imports Torch_Functional
begin

text \<open>
  The advantage estimators of \<open>src/verl/trainer/ppo/core_algos.py\<close>, their registry and the KL
  controllers. Rewards, values and masks are matrices of real numbers (rows are responses); a group
  label is any type with equality, and the dictionaries \<open>id2score\<close>, \<open>id2mean\<close>, ... are functions of
  the label. The branch \<open>no score in prompt index\<close> of the estimators is dead code (every key of the
  dictionary was inserted with a score) and has no counterpart. \<open>torch.topk\<close>'s choice among equal
  maxima is a parameter.
\<close>

section \<open>Registries\<close>

datatype adv_estimator =
    GAE | GRPO | REINFORCE_PLUS_PLUS | REINFORCE_PLUS_PLUS_BASELINE | REMAX | RLOO | OPO | GRPO_PASSK
  | GPG | RLOO_VECTORIZED | GRPO_VECTORIZED | OPTIMAL_TOKEN_BASELINE | TIR_OPTIMAL_TOKEN_BASELINE
  | GDPO

fun estimator_name :: "adv_estimator \<Rightarrow> string" where
  "estimator_name GAE = ''gae''"
| "estimator_name GRPO = ''grpo''"
| "estimator_name REINFORCE_PLUS_PLUS = ''reinforce_plus_plus''"
| "estimator_name REINFORCE_PLUS_PLUS_BASELINE = ''reinforce_plus_plus_baseline''"
| "estimator_name REMAX = ''remax''"
| "estimator_name RLOO = ''rloo''"
| "estimator_name OPO = ''opo''"
| "estimator_name GRPO_PASSK = ''grpo_passk''"
| "estimator_name GPG = ''gpg''"
| "estimator_name RLOO_VECTORIZED = ''rloo_vectorized''"
| "estimator_name GRPO_VECTORIZED = ''grpo_vectorized''"
| "estimator_name OPTIMAL_TOKEN_BASELINE = ''optimal_token_baseline''"
| "estimator_name TIR_OPTIMAL_TOKEN_BASELINE = ''tir_optimal_token_baseline''"
| "estimator_name GDPO = ''gdpo''"

datatype name_or_enum = Name string | Enum adv_estimator

definition resolve_name :: "name_or_enum \<Rightarrow> string" where
  "resolve_name n = (case n of Name s \<Rightarrow> s | Enum e \<Rightarrow> estimator_name e)"

definition register_adv_est ::
  "name_or_enum \<Rightarrow> 'f \<Rightarrow> (string \<rightharpoonup> 'f) \<Rightarrow> (string \<rightharpoonup> 'f) result" where
  "register_adv_est n fn registry =
     (case registry (resolve_name n) of
        Some g \<Rightarrow> ensure (g = fn) ValueError (Inr (registry(resolve_name n \<mapsto> fn)))
      | None \<Rightarrow> Inr (registry(resolve_name n \<mapsto> fn)))"

definition get_adv_estimator_fn :: "name_or_enum \<Rightarrow> (string \<rightharpoonup> 'f) \<Rightarrow> 'f result" where
  "get_adv_estimator_fn n registry =
     (case registry (resolve_name n) of None \<Rightarrow> Inl ValueError | Some f \<Rightarrow> Inr f)"

definition register_policy_loss :: "string \<Rightarrow> 'f \<Rightarrow> (string \<rightharpoonup> 'f) \<Rightarrow> (string \<rightharpoonup> 'f)" where
  "register_policy_loss name func registry = registry(name \<mapsto> func)"

definition get_policy_loss_fn :: "string \<Rightarrow> (string \<rightharpoonup> 'f) \<Rightarrow> 'f result" where
  "get_policy_loss_fn name registry =
     (case registry name of None \<Rightarrow> Inl ValueError | Some f \<Rightarrow> Inr f)"

section \<open>KL controllers\<close>

record adaptive_kl =
  kl_value :: real
  kl_target :: real
  kl_horizon :: real

datatype kl_controller = FixedKL real | AdaptiveKL adaptive_kl

definition adaptive_update :: "real \<Rightarrow> nat \<Rightarrow> adaptive_kl \<Rightarrow> adaptive_kl" where
  "adaptive_update current_kl n_steps c =
     (let proportional_error = clamp (-(2 / 10)) (2 / 10) (current_kl / kl_target c - 1);
          mult = 1 + proportional_error * real n_steps / kl_horizon c
      in c\<lparr>kl_value := kl_value c * mult\<rparr>)"

fun kl_update :: "real \<Rightarrow> nat \<Rightarrow> kl_controller \<Rightarrow> kl_controller" where
  "kl_update current_kl n_steps (FixedKL v) = FixedKL v"
| "kl_update current_kl n_steps (AdaptiveKL c) = AdaptiveKL (adaptive_update current_kl n_steps c)"

fun kl_coef :: "kl_controller \<Rightarrow> real" where
  "kl_coef (FixedKL v) = v"
| "kl_coef (AdaptiveKL c) = kl_value c"

record kl_ctrl_config =
  kl_type :: string
  cfg_kl_coef :: real
  cfg_target_kl :: real
  cfg_horizon :: real

definition get_kl_controller :: "kl_ctrl_config \<Rightarrow> kl_controller result" where
  "get_kl_controller cfg =
     (if kl_type cfg = ''fixed'' then Inr (FixedKL (cfg_kl_coef cfg))
      else if kl_type cfg = ''adaptive''
      then ensure (cfg_horizon cfg > 0) AssertionError
             (Inr (AdaptiveKL \<lparr>kl_value = cfg_kl_coef cfg, kl_target = cfg_target_kl cfg,
                              kl_horizon = cfg_horizon cfg\<rparr>))
      else Inl NotImplementedError)"

section \<open>Generalised advantage estimation\<close>

text \<open>
  The loop runs from the last token to the first; the state after the tokens of a suffix is the
  list of advantages with \<open>lastgaelam\<close> and \<open>nextvalues\<close>.
\<close>

fun gae_scan :: "real \<Rightarrow> real \<Rightarrow> (real \<times> real \<times> real) list \<Rightarrow> vec \<times> real \<times> real" where
  "gae_scan gamma lam [] = ([], 0, 0)"
| "gae_scan gamma lam ((reward, val, m) # rest) =
     (case gae_scan gamma lam rest of (advs, lastgaelam, nextvalues) \<Rightarrow>
       (let delta = reward + gamma * nextvalues - val;
            cur_gaelam = delta + gamma * lam * lastgaelam;
            nextvalues' = val * m + (1 - m) * nextvalues;
            lastgaelam' = cur_gaelam * m + (1 - m) * lastgaelam
        in (lastgaelam' # advs, lastgaelam', nextvalues')))"

definition gae_row :: "real \<Rightarrow> real \<Rightarrow> vec \<Rightarrow> vec \<Rightarrow> vec \<Rightarrow> vec" where
  "gae_row gamma lam rewards vals ms = fst (gae_scan gamma lam (zip rewards (zip vals ms)))"

definition compute_gae_advantage_return ::
  "mat \<Rightarrow> mat \<Rightarrow> mat \<Rightarrow> real \<Rightarrow> real \<Rightarrow> (mat \<times> mat) result" where
  "compute_gae_advantage_return token_level_rewards val response_mask gamma lam =
     (let advantages = map (\<lambda>i. gae_row gamma lam (token_level_rewards ! i) (val ! i) (response_mask ! i))
                         [0..<length token_level_rewards];
          returns = ew2 (+) advantages val
      in rbind (masked_whiten advantages response_mask True) (\<lambda>adv. Inr (adv, returns)))"

section \<open>Group-relative estimators\<close>

definition outcome_scores :: "mat \<Rightarrow> vec" where
  "outcome_scores token_level_rewards = map sum_list token_level_rewards"

text \<open>\<open>for i in range(bsz): id2score[index[i]].append(scores[i])\<close>\<close>

definition collect :: "'i list \<Rightarrow> 'b list \<Rightarrow> 'i \<Rightarrow> 'b list" where
  "collect index xs = foldl (\<lambda>d (k, x). d(k := d k @ [x])) (\<lambda>_. []) (zip index xs)"

definition torch_mean :: "vec \<Rightarrow> real" where
  "torch_mean xs = sum_list xs / real (length xs)"

definition torch_std :: "vec \<Rightarrow> real" where
  "torch_std xs = sqrt (sum_list (map (\<lambda>x. (x - torch_mean xs) ^ 2) xs) / (real (length xs) - 1))"

definition id2mean :: "vec \<Rightarrow> real" where
  "id2mean scores = (if length scores = 1 then 0 else torch_mean scores)"

definition id2std :: "vec \<Rightarrow> real" where
  "id2std scores = (if length scores = 1 then 1 else torch_std scores)"

text \<open>\<open>scores.unsqueeze(-1) * response_mask\<close>\<close>

definition spread_scores :: "vec \<Rightarrow> mat \<Rightarrow> mat" where
  "spread_scores scores response_mask = map2 (\<lambda>s row. map (\<lambda>m. s * m) row) scores response_mask"

definition compute_grpo_outcome_advantage ::
  "mat \<Rightarrow> mat \<Rightarrow> 'i list \<Rightarrow> real \<Rightarrow> bool \<Rightarrow> (mat \<times> mat) result" where
  "compute_grpo_outcome_advantage token_level_rewards response_mask index epsilon norm_adv_by_std =
     (let scores = outcome_scores token_level_rewards;
          id2score = collect index scores
      in ensure (length scores \<le> length index) IndexError
          (let out = map2 (\<lambda>s k. if norm_adv_by_std
                                then (s - id2mean (id2score k)) / (id2std (id2score k) + epsilon)
                                else s - id2mean (id2score k)) scores index;
               adv = spread_scores out response_mask
           in Inr (adv, adv)))"

definition compute_grpo_vectorized_outcome_advantage ::
  "(string \<Rightarrow> int option) \<Rightarrow> mat \<Rightarrow> mat \<Rightarrow> labels \<Rightarrow> real \<Rightarrow> bool \<Rightarrow> (mat \<times> mat) result" where
  "compute_grpo_vectorized_outcome_advantage parse_int token_level_rewards response_mask index epsilon
       norm_adv_by_std =
     (let scores = outcome_scores token_level_rewards;
          g = as_torch_index parse_int index
      in rbind (group_mean_std scores g epsilon) (\<lambda>(mean_g, std_g, _).
          (let scalars = map2 (\<lambda>s k. if norm_adv_by_std
                                   then (s - mean_g ! nat k) / (std_g ! nat k + epsilon)
                                   else s - mean_g ! nat k) scores g;
               adv = spread_scores scalars response_mask
           in Inr (adv, adv))))"

text \<open>
  GDPO: \<open>gdpo_inputs\<close> is present when the code has \<open>config\<close>, \<open>non_tensor_batch\<close> and \<open>batch\<close>;
  \<open>response_attention\<close> is \<open>attention_mask[:, prompt_length:]\<close>.
\<close>

record gdpo_inputs =
  gdpo_reward_keys :: "string list"
  gdpo_reward_weights :: "vec option"
  gdpo_components :: "string \<Rightarrow> vec option"
  response_attention :: "nat list list"

definition place_reward :: "nat \<Rightarrow> nat \<Rightarrow> real \<Rightarrow> vec result" where
  "place_reward width n r =
     (if n = 0 then ensure (0 < width) IndexError (Inr ((replicate width 0)[width - 1 := r]))
      else ensure (n - 1 < width) IndexError (Inr ((replicate width 0)[n - 1 := r])))"

definition gdpo_component :: "gdpo_inputs \<Rightarrow> mat \<Rightarrow> string \<Rightarrow> mat result" where
  "gdpo_component inp response_mask key =
     (case gdpo_components inp key of
        None \<Rightarrow> Inl AssertionError
      | Some rm_score \<Rightarrow>
          ensure (length rm_score = length response_mask) RuntimeError
           (mapM_result (\<lambda>i. place_reward (length (response_mask ! i))
                (sum_list (response_attention inp ! i)) (rm_score ! i)) [0..<length response_mask]))"

definition gdpo_score_list :: "gdpo_inputs option \<Rightarrow> mat \<Rightarrow> mat \<Rightarrow> (mat list \<times> vec option) result" where
  "gdpo_score_list inp token_level_rewards response_mask =
     (case inp of
        None \<Rightarrow> Inr ([token_level_rewards], None)
      | Some c \<Rightarrow> ensure (gdpo_reward_keys c \<noteq> []) AssertionError
           (rbind (mapM_result (gdpo_component c response_mask) (gdpo_reward_keys c)) (\<lambda>scores.
              Inr (scores, gdpo_reward_weights c))))"

fun gdpo_sum :: "(mat \<Rightarrow> mat result) \<Rightarrow> mat list \<Rightarrow> vec \<Rightarrow> mat option \<Rightarrow> mat option result" where
  "gdpo_sum norm_fn [] ws acc = Inr acc"
| "gdpo_sum norm_fn (s # ss) ws acc =
     rbind (norm_fn s) (\<lambda>n.
       (case ws of
          [] \<Rightarrow> Inl IndexError
        | w # ws' \<Rightarrow>
            (let term = map_mat (\<lambda>x. w * x) n
             in gdpo_sum norm_fn ss ws'
                  (Some (case acc of None \<Rightarrow> term | Some a \<Rightarrow> ew2 (+) a term)))))"

definition compute_gdpo_outcome_advantage ::
  "mat \<Rightarrow> mat \<Rightarrow> 'i list \<Rightarrow> real \<Rightarrow> bool \<Rightarrow> gdpo_inputs option \<Rightarrow> (mat \<times> mat) result" where
  "compute_gdpo_outcome_advantage token_level_rewards response_mask index epsilon norm_adv_by_std inp =
     rbind (gdpo_score_list inp token_level_rewards response_mask) (\<lambda>(score_list, reward_weights).
       (let weights = (case reward_weights of None \<Rightarrow> replicate (length score_list) 1 | Some ws \<Rightarrow> ws);
            norm_fn = (\<lambda>s. rbind (compute_grpo_outcome_advantage s response_mask index epsilon
                                     norm_adv_by_std) (\<lambda>(n, _). Inr n))
        in rbind (gdpo_sum norm_fn score_list weights None) (\<lambda>acc.
             (case acc of
                None \<Rightarrow> Inl TypeError
              | Some new_advantage \<Rightarrow>
                  rbind (masked_whiten new_advantage response_mask True) (\<lambda>w.
                    (let advantages = ew2 (*) w response_mask in Inr (advantages, advantages)))))))"

section \<open>Pass@k, REINFORCE++ baseline, RLOO, OPO and GPG\<close>

text \<open>
  \<open>torch.topk(rewards, 2)\<close>: \<open>top1\<close> chooses the index of a largest entry; the second value is the
  largest of the others.
\<close>

definition remove_nth :: "nat \<Rightarrow> 'a list \<Rightarrow> 'a list" where
  "remove_nth i xs = take i xs @ drop (i + 1) xs"

definition group_indices :: "'i list \<Rightarrow> nat \<Rightarrow> 'i \<Rightarrow> nat list" where
  "group_indices index n k = filter (\<lambda>i. index ! i = k) [0..<n]"

definition passk_advantage :: "(vec \<Rightarrow> nat) \<Rightarrow> real \<Rightarrow> bool \<Rightarrow> vec \<Rightarrow> real" where
  "passk_advantage top1 epsilon by_std rewards =
     (let advantage = rewards ! top1 rewards - Max (set (remove_nth (top1 rewards) rewards))
      in if by_std then advantage / (torch_std rewards + epsilon) else advantage)"

definition compute_grpo_passk_outcome_advantage ::
  "(vec \<Rightarrow> nat) \<Rightarrow> mat \<Rightarrow> mat \<Rightarrow> 'i list \<Rightarrow> real \<Rightarrow> bool option \<Rightarrow> (mat \<times> mat) result" where
  "compute_grpo_passk_outcome_advantage top1 token_level_rewards response_mask index epsilon config_norm =
     (case config_norm of
        None \<Rightarrow> Inl AssertionError
      | Some by_std \<Rightarrow>
         (let scores = outcome_scores token_level_rewards;
              n = length scores;
              id2scores = collect index scores;
              id2indices = collect index [0..<n]
          in ensure (n \<le> length index) IndexError
              (ensure (\<forall>k\<in>set (take n index). 2 \<le> length (id2scores k)) ValueError
                (let advantages = map (\<lambda>i.
                       (let rewards = id2scores (index ! i)
                        in if i = id2indices (index ! i) ! top1 rewards
                           then passk_advantage top1 epsilon by_std rewards else 0)) [0..<n];
                     adv = spread_scores advantages response_mask
                 in Inr (adv, adv)))))"

definition compute_reinforce_plus_plus_baseline_outcome_advantage ::
  "mat \<Rightarrow> mat \<Rightarrow> 'i list \<Rightarrow> (mat \<times> mat) result" where
  "compute_reinforce_plus_plus_baseline_outcome_advantage token_level_rewards response_mask index =
     (let scores = outcome_scores token_level_rewards;
          id2score = collect index scores
      in ensure (length scores \<le> length index) IndexError
          (let out = map2 (\<lambda>s k. s - id2mean (id2score k)) scores index;
               tiled = spread_scores out response_mask
           in rbind (masked_whiten tiled response_mask True) (\<lambda>w.
                (let adv = ew2 (*) w response_mask in Inr (adv, adv)))))"

definition compute_rloo_outcome_advantage ::
  "mat \<Rightarrow> mat \<Rightarrow> 'i list \<Rightarrow> (mat \<times> mat) result" where
  "compute_rloo_outcome_advantage token_level_rewards response_mask index =
     (let scores = outcome_scores token_level_rewards;
          id2score = collect index scores
      in ensure (length scores \<le> length index) IndexError
          (let out = map2 (\<lambda>s k.
                 (let response_num = real (length (id2score k))
                  in if response_num > 1
                     then s * response_num / (response_num - 1) -
                          id2mean (id2score k) * response_num / (response_num - 1)
                     else s)) scores index;
               adv = spread_scores out response_mask
           in Inr (adv, adv)))"

definition opo_baseline :: "vec \<Rightarrow> vec \<Rightarrow> real" where
  "opo_baseline lens scores =
     (if length scores = 1 then 0 else sum_list (map2 (*) lens scores) / sum_list lens)"

definition compute_opo_outcome_advantage ::
  "mat \<Rightarrow> mat \<Rightarrow> 'i list \<Rightarrow> (mat \<times> mat) result" where
  "compute_opo_outcome_advantage token_level_rewards response_mask index =
     (let response_length = map sum_list response_mask;
          scores = outcome_scores token_level_rewards;
          id2score = collect index scores;
          id2len = collect index response_length
      in ensure (length scores \<le> length index) IndexError
          (let out = map2 (\<lambda>s k. s - opo_baseline (id2len k) (id2score k)) scores index;
               adv = spread_scores out response_mask
           in Inr (adv, adv)))"

definition compute_gpg_outcome_advantage ::
  "mat \<Rightarrow> mat \<Rightarrow> 'i list \<Rightarrow> real \<Rightarrow> real \<Rightarrow> (mat \<times> mat) result" where
  "compute_gpg_outcome_advantage token_level_rewards response_mask index f_norm alpha_arg =
     (let scores = outcome_scores token_level_rewards;
          bsz = length scores;
          m = length (filter (\<lambda>s. s \<noteq> 0) scores);
          alpha = real bsz / real (max m 1);
          id2score = collect index scores
      in ensure (bsz \<le> length index) IndexError
          (let out = map2 (\<lambda>s k. alpha * (s - id2mean (id2score k)) / f_norm) scores index;
               adv = spread_scores out response_mask
           in Inr (adv, adv)))"

text \<open>\<open>torch.bincount(bins)\<close> and \<open>torch.bincount(bins, weights)\<close> at one bin.\<close>

definition bincount :: "int list \<Rightarrow> vec \<Rightarrow> int \<Rightarrow> real" where
  "bincount bins weights k = sum_list (map snd (filter (\<lambda>(j, _). j = k) (zip bins weights)))"

definition compute_rloo_vectorized_outcome_advantage ::
  "mat \<Rightarrow> mat \<Rightarrow> 'i :: linorder list \<Rightarrow> (mat \<times> mat) result" where
  "compute_rloo_vectorized_outcome_advantage token_level_rewards response_mask index =
     (let scores = outcome_scores token_level_rewards;
          bins = unique_inverse index
      in ensure (length scores = length index) RuntimeError
          (let c = (\<lambda>k. bincount bins (replicate (length bins) 1) k);
               out = map2 (\<lambda>s k. (c k * s - bincount bins scores k) / max (c k - 1) 1 *
                                (if c k > 1 then 1 else 0)) scores bins;
               adv = spread_scores out response_mask
           in Inr (adv, adv)))"

section \<open>Returns-based estimators\<close>

text \<open>\<open>x.flip(-1).cumsum(-1).flip(-1)\<close> and \<open>x.cumsum(-1)\<close> on one row.\<close>

definition suffix_sums :: "vec \<Rightarrow> vec" where
  "suffix_sums xs = map (\<lambda>i. sum_list (drop i xs)) [0..<length xs]"

definition prefix_sums :: "vec \<Rightarrow> vec" where
  "prefix_sums xs = map (\<lambda>i. sum_list (take (i + 1) xs)) [0..<length xs]"

fun rf_returns :: "real \<Rightarrow> (real \<times> real) list \<Rightarrow> vec \<times> real" where
  "rf_returns gamma [] = ([], 0)"
| "rf_returns gamma ((reward, m) # rest) =
     (case rf_returns gamma rest of (returns, running_return) \<Rightarrow>
        (let running = reward + gamma * running_return in (running # returns, running * m)))"

definition compute_reinforce_plus_plus_outcome_advantage ::
  "mat \<Rightarrow> mat \<Rightarrow> real option \<Rightarrow> (mat \<times> mat) result" where
  "compute_reinforce_plus_plus_outcome_advantage token_level_rewards response_mask config_gamma =
     (case config_gamma of
        None \<Rightarrow> Inl AssertionError
      | Some gamma \<Rightarrow>
         (let returns = map2 (\<lambda>rs ms. fst (rf_returns gamma (zip rs ms))) token_level_rewards response_mask
          in rbind (masked_whiten returns response_mask True) (\<lambda>w.
               Inr (ew2 (*) w response_mask, returns))))"

definition masked_returns :: "mat \<Rightarrow> mat \<Rightarrow> mat" where
  "masked_returns token_level_rewards response_mask =
     map suffix_sums (ew2 (*) token_level_rewards response_mask)"

definition compute_remax_outcome_advantage :: "mat \<Rightarrow> vec \<Rightarrow> mat \<Rightarrow> mat \<times> mat" where
  "compute_remax_outcome_advantage token_level_rewards reward_baselines response_mask =
     (let returns = masked_returns token_level_rewards response_mask
      in (ew2 (-) returns (spread_scores reward_baselines response_mask), returns))"

definition compute_rewards :: "mat \<Rightarrow> mat \<Rightarrow> mat \<Rightarrow> real \<Rightarrow> mat" where
  "compute_rewards token_level_scores old_log_prob ref_log_prob kl_ratio =
     ew2 (\<lambda>score kl. score - kl * kl_ratio) token_level_scores (ew2 (-) old_log_prob ref_log_prob)"

section \<open>Optimal token baselines\<close>

definition w_per_timestep :: "mat \<Rightarrow> mat \<Rightarrow> mat option \<Rightarrow> mat" where
  "w_per_timestep old_log_probs sum_pi_squared rollout_is_weights =
     (let w = ew2 (\<lambda>lp sq. 1 - 2 * exp lp + sq) old_log_probs sum_pi_squared
      in case rollout_is_weights of None \<Rightarrow> w | Some rho \<Rightarrow> ew2 (\<lambda>x r. x * r ^ 2) w rho)"

definition w_cumulative :: "mat \<Rightarrow> mat \<Rightarrow> mat" where
  "w_cumulative w response_mask = map prefix_sums (ew2 (*) w response_mask)"

text \<open>
  \<open>tail_start\<close> is the position from which the baseline of trajectory \<open>i\<close> is zeroed: the second
  largest length of the group, for the only longest trajectory.
\<close>

definition tail_start :: "vec \<Rightarrow> nat \<Rightarrow> nat \<Rightarrow> nat option" where
  "tail_start group_lengths pos width =
     (let sorted = sort group_lengths;
          max_length = \<lfloor>sorted ! (length sorted - 1)\<rfloor>;
          second_max_length = \<lfloor>sorted ! (length sorted - 2)\<rfloor>
      in if length (filter (\<lambda>l. l = of_int max_length) group_lengths) = 1 \<and>
            max_length > second_max_length \<and> group_lengths ! pos = of_int max_length
         then Some (nat second_max_length) else None)"

definition otb_baseline_row :: "mat \<Rightarrow> mat \<Rightarrow> mat \<Rightarrow> nat list \<Rightarrow> real \<Rightarrow> nat \<Rightarrow> vec" where
  "otb_baseline_row returns w msk grp epsilon width =
     map (\<lambda>t. sum_list (map (\<lambda>j. returns ! j ! t * w ! j ! t * msk ! j ! t) grp) /
              (sum_list (map (\<lambda>j. w ! j ! t * msk ! j ! t) grp) + epsilon)) [0..<width]"

definition zero_from :: "nat option \<Rightarrow> vec \<Rightarrow> vec" where
  "zero_from start row = (case start of
     None \<Rightarrow> row
   | Some s \<Rightarrow> map (\<lambda>t. if s \<le> t then 0 else row ! t) [0..<length row])"

definition position_of :: "nat \<Rightarrow> nat list \<Rightarrow> nat" where
  "position_of i grp = length (takeWhile (\<lambda>j. j \<noteq> i) grp)"

definition compute_optimal_token_baseline_advantage ::
  "mat \<Rightarrow> mat \<Rightarrow> 'i list \<Rightarrow> mat \<Rightarrow> mat \<Rightarrow> mat option \<Rightarrow> bool \<Rightarrow> real \<Rightarrow> (mat \<times> mat) result" where
  "compute_optimal_token_baseline_advantage token_level_rewards response_mask index old_log_probs
       sum_pi_squared rollout_is_weights handle_zero_tail epsilon =
     (let batch_size = length token_level_rewards;
          returns = masked_returns token_level_rewards response_mask;
          w = w_cumulative (w_per_timestep old_log_probs sum_pi_squared rollout_is_weights) response_mask;
          baseline = (\<lambda>i.
            let grp = group_indices index batch_size (index ! i); width = length (returns ! i)
            in if length grp = 1 then replicate width 0
               else let row = otb_baseline_row returns w response_mask grp epsilon width
                    in if handle_zero_tail
                       then zero_from (tail_start (map (\<lambda>j. sum_list (response_mask ! j)) grp)
                                         (position_of i grp) width) row
                       else row)
      in ensure (batch_size \<le> length index) IndexError
          (Inr (map (\<lambda>i. map2 (\<lambda>d m. d * m) (map2 (-) (returns ! i) (baseline i)) (response_mask ! i))
                  [0..<batch_size], returns)))"

text \<open>
  The multi-turn version first moves the selected positions of every trajectory to the front
  (\<open>x[i, mask]\<close> into a row of zeros), and scatters the advantages back.
\<close>

definition select_masked :: "vec \<Rightarrow> vec \<Rightarrow> vec" where
  "select_masked xs ms = map fst (filter (\<lambda>(_, m). m \<noteq> 0) (zip xs ms))"

definition compress_row :: "nat \<Rightarrow> vec \<Rightarrow> vec \<Rightarrow> vec" where
  "compress_row width xs ms =
     (let sel = select_masked xs ms in sel @ replicate (width - length sel) 0)"

fun scatter_masked :: "vec \<Rightarrow> vec \<Rightarrow> vec" where
  "scatter_masked vs [] = []"
| "scatter_masked vs (m # ms) =
     (if m \<noteq> 0 then (case vs of [] \<Rightarrow> 0 # scatter_masked [] ms | v # vs' \<Rightarrow> v # scatter_masked vs' ms)
      else 0 # scatter_masked vs ms)"

definition multi_turn_baseline_row :: "mat \<Rightarrow> mat \<Rightarrow> nat list \<Rightarrow> real \<Rightarrow> nat \<Rightarrow> vec" where
  "multi_turn_baseline_row all_returns all_w grp epsilon width =
     map (\<lambda>t. sum_list (map (\<lambda>j. all_returns ! j ! t * all_w ! j ! t) grp) /
              (sum_list (map (\<lambda>j. all_w ! j ! t) grp) + epsilon)) [0..<width]"

definition compute_multi_turn_optimal_token_baseline_advantage ::
  "mat \<Rightarrow> mat \<Rightarrow> 'i list \<Rightarrow> mat \<Rightarrow> mat \<Rightarrow> mat option \<Rightarrow> bool \<Rightarrow> real \<Rightarrow> (mat \<times> mat) result" where
  "compute_multi_turn_optimal_token_baseline_advantage token_level_rewards response_mask index
       old_log_probs sum_pi_squared rollout_is_weights handle_zero_tail epsilon =
     (let token_returns = masked_returns token_level_rewards response_mask;
          w = w_cumulative (w_per_timestep old_log_probs sum_pi_squared rollout_is_weights) response_mask;
          bsz = length response_mask;
          lengths = map (\<lambda>row. nat \<lfloor>sum_list row\<rfloor>) response_mask;
          width = (if lengths = [] then 0 else Max (set lengths));
          all_w = map2 (compress_row width) w response_mask;
          all_returns = map2 (compress_row width) token_returns response_mask;
          nonempty = filter (\<lambda>i. lengths ! i \<noteq> 0) [0..<bsz];
          baseline = (\<lambda>i.
            let grp = filter (\<lambda>j. index ! j = index ! i) nonempty
            in if length grp = 1 then replicate width 0
               else let row = multi_turn_baseline_row all_returns all_w grp epsilon width
                    in if handle_zero_tail
                       then zero_from (tail_start (map (\<lambda>j. real (lengths ! j)) grp)
                                         (position_of i grp) width) row
                       else row)
      in ensure (\<forall>i\<in>set nonempty. i < length index) IndexError
          (Inr (map (\<lambda>i. if lengths ! i = 0 then replicate (length (response_mask ! i)) 0
                        else map2 (*) (scatter_masked (map2 (-) (all_returns ! i) (baseline i))
                                         (response_mask ! i)) (response_mask ! i))
                  [0..<bsz], token_returns)))"

end
