(* ===== verification/Advantage_Properties.thy ===== *)
theory Advantage_Properties
  imports Advantages
begin

text \<open>
  What the advantage estimators compute: generalised advantage estimation is the discounted sum of
  TD errors over the selected tokens, the group baselines are centred, leave-one-out is leave-one-out,
  and the vectorised versions agree with the loops on the inputs for which they are meant.
\<close>

section \<open>Generalised advantage estimation\<close>

lemma gae_scan_length: "length (fst (gae_scan gamma lam xs)) = length xs"
  by (induction xs rule: gae_scan.induct) (auto simp: Let_def split: prod.splits)

lemma gae_row_length:
  "length vs = length rs \<Longrightarrow> length ms = length rs \<Longrightarrow> length (gae_row gamma lam rs vs ms) = length rs"
  by (simp add: gae_row_def gae_scan_length)

text \<open>A token with mask zero passes the state through.\<close>

lemma gae_scan_filter:
  assumes "\<forall>(r, v, m)\<in>set xs. m = 0 \<or> m = 1"
  shows "snd (gae_scan gamma lam xs) = snd (gae_scan gamma lam (filter (\<lambda>(r, v, m). m \<noteq> 0) xs)) \<and>
    map fst (filter (\<lambda>(_, m). m \<noteq> 0) (zip (fst (gae_scan gamma lam xs)) (map (\<lambda>(r, v, m). m) xs))) =
      fst (gae_scan gamma lam (filter (\<lambda>(r, v, m). m \<noteq> 0) xs))"
  using assms
  by (induction gamma lam xs rule: gae_scan.induct) (auto simp: Let_def split: prod.splits)

lemma select_zip:
  assumes "length rs = length ms" and "length vs = length ms"
  shows "filter (\<lambda>(r, v, m). m \<noteq> 0) (zip rs (zip vs ms)) =
    zip (select_masked rs ms) (zip (select_masked vs ms) (select_masked ms ms))"
  using assms
proof (induction rs arbitrary: vs ms)
  case (Cons r rs)
  then show ?case by (cases vs; cases ms) (auto simp: select_masked_def)
qed (simp add: select_masked_def)

text \<open>
  Generalised advantage estimation skips the tokens the mask excludes: the advantages at the
  selected positions are those of the sequence with the other tokens deleted.
\<close>

theorem gae_skips_masked:
  assumes "length rs = length ms" and "length vs = length ms" and "\<forall>m\<in>set ms. m = 0 \<or> m = 1"
  shows "select_masked (gae_row gamma lam rs vs ms) ms =
    gae_row gamma lam (select_masked rs ms) (select_masked vs ms) (select_masked ms ms)"
proof -
  let ?xs = "zip rs (zip vs ms)"
  have "\<forall>(r, v, m)\<in>set ?xs. m = 0 \<or> m = 1"
    using assms(3) by (auto dest!: set_zip_rightD)
  moreover have "map (\<lambda>(r, v, m). m) ?xs = ms"
    using assms(1,2) by (intro nth_equalityI) auto
  ultimately show ?thesis
    using gae_scan_filter [of ?xs gamma lam] select_zip [OF assms(1,2)]
    by (simp add: gae_row_def select_masked_def)
qed

lemma gae_skips_masked_witness:
  "select_masked (gae_row 1 1 [5, 7, 2] [1, 9, 1] [1, 0, 1]) [1, 0, 1] = gae_row 1 1 [5, 2] [1, 1] [1, 1]"
  using gae_skips_masked [of "[5, 7, 2]" "[1, 0, 1]" "[1, 9, 1]" 1 1] by (simp add: select_masked_def)

text \<open>The TD error of token \<open>t\<close>; after the last token the value is zero.\<close>

definition td_error :: "real \<Rightarrow> vec \<Rightarrow> vec \<Rightarrow> nat \<Rightarrow> real" where
  "td_error gamma rs vs t =
     rs ! t + gamma * (if Suc t < length vs then vs ! Suc t else 0) - vs ! t"

lemma gae_all_selected:
  assumes "length vs = length rs"
  shows "case gae_scan gamma lam (zip rs (zip vs (replicate (length rs) 1))) of (as, lastgae, nextv) \<Rightarrow>
     nextv = (if vs = [] then 0 else hd vs) \<and> lastgae = (if as = [] then 0 else hd as) \<and>
     (\<forall>t < length rs. as ! t = (\<Sum>l < length rs - t. (gamma * lam) ^ l * td_error gamma rs vs (t + l)))"
  using assms
proof (induction rs arbitrary: vs)
  case (Cons r rs)
  then obtain v vs' where vs: "vs = v # vs'" "length vs' = length rs" by (cases vs) auto
  obtain as lg nv where scan: "gae_scan gamma lam (zip rs (zip vs' (replicate (length rs) 1))) = (as, lg, nv)"
    by (metis prod_cases3)
  from Cons.IH [OF vs(2)] scan have IH: "nv = (if vs' = [] then 0 else hd vs')"
      "lg = (if as = [] then 0 else hd as)"
      "\<And>t. t < length rs \<Longrightarrow> as ! t = (\<Sum>l < length rs - t. (gamma * lam) ^ l * td_error gamma rs vs' (t + l))"
    by auto
  have len: "length as = length rs"
    using gae_scan_length [of gamma lam "zip rs (zip vs' (replicate (length rs) 1))"] scan vs(2) by simp
  have td: "td_error gamma (r # rs) vs (Suc t) = td_error gamma rs vs' t" for t
    by (simp add: td_error_def vs)
  have td0: "td_error gamma (r # rs) vs 0 = r + gamma * nv - v"
    using IH(1) by (cases vs') (auto simp: td_error_def vs)
  have head: "td_error gamma (r # rs) vs 0 + gamma * lam * lg =
      (\<Sum>l < Suc (length rs). (gamma * lam) ^ l * td_error gamma (r # rs) vs l)"
  proof (cases "rs = []")
    case True
    then show ?thesis using IH(2) len by simp
  next
    case False
    then have "lg = as ! 0" using IH(2) len by (auto simp: hd_conv_nth)
    then have "lg = (\<Sum>l < length rs. (gamma * lam) ^ l * td_error gamma rs vs' l)"
      using IH(3) [of 0] False by simp
    then have "gamma * lam * lg = (\<Sum>l < length rs. (gamma * lam) ^ Suc l * td_error gamma (r # rs) vs (Suc l))"
      by (simp add: td sum_distrib_left mult.assoc)
    then show ?thesis
      unfolding sum.lessThan_Suc_shift [of _ "length rs"] by simp
  qed
  have "((td_error gamma (r # rs) vs 0 + gamma * lam * lg) # as) ! t =
      (\<Sum>l < length (r # rs) - t. (gamma * lam) ^ l * td_error gamma (r # rs) vs (t + l))"
    if "t < length (r # rs)" for t
    using that head IH(3) by (cases t) (auto simp: td)
  then show ?case using scan td0 by (simp add: vs Let_def)
qed simp

text \<open>
  C35: on fully selected tokens the GAE loop computes the definition: the advantage of token \<open>t\<close> is
  the sum of the TD errors from \<open>t\<close> on, discounted by \<open>gamma * lam\<close>.
\<close>

theorem gae_closed_form:
  assumes "length vs = length rs" and "t < length rs"
  shows "gae_row gamma lam rs vs (replicate (length rs) 1) ! t =
    (\<Sum>l < length rs - t. (gamma * lam) ^ l * td_error gamma rs vs (t + l))"
  using gae_all_selected [OF assms(1), of gamma lam] assms(2)
  by (auto simp: gae_row_def split: prod.splits)

lemma gae_closed_form_witness:
  "gae_row (1 / 2) 1 [1, 2] [3, 4] (replicate (length [1, 2 :: real]) 1) ! 0 =
    (\<Sum>l < length [1, 2 :: real] - 0. (1 / 2 * 1) ^ l * td_error (1 / 2) [1, 2] [3, 4] (0 + l))"
  by (rule gae_closed_form) simp_all

section \<open>Groups\<close>

lemma collect_filter:
  fixes index :: "'i list" and xs :: "'b list"
  shows "collect index xs k = map snd (filter (\<lambda>p. fst p = k) (zip index xs))"
proof -
  have "foldl (\<lambda>d (k, x). d(k := d k @ [x])) d ps k = d k @ map snd (filter (\<lambda>p. fst p = k) ps)"
    for d and ps :: "('i \<times> 'b) list" and k
    by (induction ps arbitrary: d) auto
  then show ?thesis by (simp add: collect_def)
qed

lemma zip_index: "length xs \<le> length index \<Longrightarrow>
    zip index xs = map (\<lambda>i. (index ! i, xs ! i)) [0..<length xs]"
  by (intro nth_equalityI) auto

lemma collect_indices:
  "length xs \<le> length index \<Longrightarrow>
   collect index xs k = map (\<lambda>i. xs ! i) (group_indices index (length xs) k)"
  by (simp add: collect_filter zip_index filter_map comp_def group_indices_def)

lemma length_collect:
  "length xs \<le> length index \<Longrightarrow> length (collect index xs k) = length (group_indices index (length xs) k)"
  by (simp add: collect_indices)

lemma group_indices_mem: "i \<in> set (group_indices index n k) \<longleftrightarrow> i < n \<and> index ! i = k"
  by (auto simp: group_indices_def)

lemma group_sum_map2:
  assumes "length xs \<le> length index"
  shows "sum_list (map (\<lambda>i. map2 (\<lambda>s k'. f s k') xs index ! i) (group_indices index (length xs) k)) =
    (sum_list (map (\<lambda>s. f s k) (collect index xs k)) :: real)"
proof -
  have "map (\<lambda>i. map2 (\<lambda>s k'. f s k') xs index ! i) (group_indices index (length xs) k) =
      map (\<lambda>i. f (xs ! i) k) (group_indices index (length xs) k)"
    using assms by (intro map_cong) (auto simp: group_indices_mem)
  moreover have "map (\<lambda>i. f (xs ! i) k) (group_indices index (length xs) k) =
      map (\<lambda>s. f s k) (collect index xs k)"
    using assms by (simp add: collect_indices comp_def)
  ultimately show ?thesis by (simp only:)
qed

lemma sum_centred:
  assumes "xs \<noteq> []"
  shows "sum_list (map (\<lambda>x. x - torch_mean xs) xs) = 0"
proof -
  have "sum_list (map (\<lambda>x. x - c) xs) = sum_list xs - real (length xs) * c" for c
    by (induction xs) (auto simp: algebra_simps)
  then show ?thesis using assms by (simp add: torch_mean_def)
qed

lemma sum_div: "sum_list (map (\<lambda>x. f x / c) xs) = sum_list (map f xs) / (c :: real)"
  by (induction xs) (auto simp: add_divide_distrib)

text \<open>
  C36: the GRPO advantages of every group with at least two responses sum to zero (with and without
  normalisation by the standard deviation), a response alone in its group keeps its score, and
  every response's advantage is the same at all selected tokens.
\<close>

theorem grpo_group_centred:
  assumes "length rewards = length index"
  shows "\<exists>out. compute_grpo_outcome_advantage rewards msk index eps nrm =
       Inr (spread_scores out msk, spread_scores out msk) \<and> length out = length rewards \<and>
     (\<forall>k. (2 \<le> length (group_indices index (length rewards) k) \<longrightarrow>
            sum_list (map (\<lambda>i. out ! i) (group_indices index (length rewards) k)) = 0) \<and>
          (\<forall>i. group_indices index (length rewards) k = [i] \<longrightarrow>
            out ! i = sum_list (rewards ! i) / (if nrm then 1 + eps else 1)))"
proof -
  define scores where "scores = outcome_scores rewards"
  define f where "f = (\<lambda>s k. if nrm then (s - id2mean (collect index scores k)) /
       (id2std (collect index scores k) + eps) else s - id2mean (collect index scores k))"
  define out where "out = map2 f scores index"
  have len: "length scores = length rewards" "length scores \<le> length index"
    using assms by (simp_all add: scores_def outcome_scores_def)
  have run: "compute_grpo_outcome_advantage rewards msk index eps nrm =
       Inr (spread_scores out msk, spread_scores out msk)"
    using len by (simp add: compute_grpo_outcome_advantage_def Let_def scores_def [symmetric] out_def f_def)
  have zero: "sum_list (map (\<lambda>i. out ! i) (group_indices index (length rewards) k)) = 0"
    if "2 \<le> length (group_indices index (length rewards) k)" for k
  proof -
    let ?g = "collect index scores k"
    have n: "2 \<le> length ?g" using that length_collect [OF len(2)] len(1) by simp
    then have "id2mean ?g = torch_mean ?g" "?g \<noteq> []" by (auto simp: id2mean_def)
    then have "sum_list (map (\<lambda>s. f s k) ?g) = 0"
      using sum_centred [of ?g] by (cases nrm) (simp_all add: f_def sum_div)
    then show ?thesis
      using group_sum_map2 [OF len(2), of f k] len(1) by (simp add: out_def)
  qed
  have single: "out ! i = sum_list (rewards ! i) / (if nrm then 1 + eps else 1)"
    if g: "group_indices index (length rewards) k = [i]" for k i
  proof -
    have i: "i < length rewards" "index ! i = k"
      using group_indices_mem [of i index "length rewards" k] g by auto
    have "collect index scores k = [scores ! i]"
      using collect_indices [OF len(2), of k] g len(1) by simp
    then show ?thesis
      using i len by (simp add: out_def f_def id2mean_def id2std_def scores_def outcome_scores_def)
  qed
  show ?thesis
    by (intro exI [of _ out] conjI allI impI) (use run len zero single in \<open>simp_all add: out_def\<close>)
qed

lemma grpo_group_centred_witness:
  "\<exists>out. compute_grpo_outcome_advantage [[1], [2], [5]] [[1], [1], [1]] ''aab'' 0 False =
       Inr (spread_scores out [[1], [1], [1]], spread_scores out [[1], [1], [1]]) \<and>
     sum_list (map (\<lambda>i. out ! i) [0, 1]) = 0"
proof -
  have g: "group_indices ''aab'' (length [[1], [2], [5 :: real]]) CHR ''a'' = [0, 1]"
    by (simp add: group_indices_def upt_rec numeral_2_eq_2)
  from grpo_group_centred [of "[[1], [2], [5]]" "''aab''" "[[1], [1], [1]]" 0 False] g show ?thesis
    by (auto dest!: spec [of _ "CHR ''a''"])
qed

section \<open>Leave-one-out\<close>

definition rloo_value :: "real \<Rightarrow> vec \<Rightarrow> real" where
  "rloo_value s grp =
     (let response_num = real (length grp)
      in if response_num > 1
         then s * response_num / (response_num - 1) - id2mean grp * response_num / (response_num - 1)
         else s)"

lemma rloo_run:
  assumes "length rewards = length index"
  shows "compute_rloo_outcome_advantage rewards msk index =
    (let adv = spread_scores (map2 (\<lambda>s k. rloo_value s (collect index (outcome_scores rewards) k))
                 (outcome_scores rewards) index) msk in Inr (adv, adv))"
  using assms
  by (simp add: compute_rloo_outcome_advantage_def Let_def rloo_value_def outcome_scores_def)

lemma rloo_value_others:
  assumes "2 \<le> length grp"
  shows "rloo_value s grp = s - (sum_list grp - s) / (real (length grp) - 1)"
proof -
  define n where "n = real (length grp)"
  have n: "1 < n" "real (length grp) = n" using assms by (simp_all add: n_def)
  then have "rloo_value s grp = (s * n - sum_list grp) / (n - 1)"
    using assms by (simp add: rloo_value_def id2mean_def torch_mean_def Let_def diff_divide_distrib)
  also have "\<dots> = s - (sum_list grp - s) / (n - 1)"
    using n by (simp add: field_simps)
  finally show ?thesis by (simp add: n)
qed

lemma sum_others:
  assumes "distinct is" and "i \<in> set is"
  shows "sum_list (map f is) - f i = (sum_list (map f (filter (\<lambda>j. j \<noteq> i) is)) :: real)"
  using assms
proof (induction "is")
  case (Cons j "is")
  show ?case
  proof (cases "j = i")
    case True
    with Cons.prems have "filter (\<lambda>j. j \<noteq> i) is = is" by (auto simp: filter_id_conv)
    with True show ?thesis by simp
  next
    case False
    with Cons show ?thesis by auto
  qed
qed simp

lemma length_others:
  "distinct is \<Longrightarrow> i \<in> set is \<Longrightarrow> length is = Suc (length (filter (\<lambda>j. j \<noteq> i) is))"
proof (induction "is")
  case (Cons j "is")
  show ?case
  proof (cases "j = i")
    case True
    with Cons.prems have "filter (\<lambda>j. j \<noteq> i) is = is" by (auto simp: filter_id_conv)
    with True show ?thesis by simp
  next
    case False
    with Cons show ?thesis by auto
  qed
qed simp

text \<open>
  RLOO is leave-one-out: the advantage of a response is its score minus the mean score of the
  other responses of its group; a response alone in its group keeps its score.
\<close>

theorem rloo_leave_one_out:
  assumes "length rewards = length index"
  shows "\<exists>out. compute_rloo_outcome_advantage rewards msk index =
       Inr (spread_scores out msk, spread_scores out msk) \<and> length out = length rewards \<and>
     (\<forall>i < length rewards.
        let others = filter (\<lambda>j. j \<noteq> i) (group_indices index (length rewards) (index ! i));
            score = sum_list (rewards ! i)
        in out ! i = (if others = [] then score
                      else score - torch_mean (map (\<lambda>j. sum_list (rewards ! j)) others)))"
proof -
  define scores where "scores = outcome_scores rewards"
  define out where "out = map2 (\<lambda>s k. rloo_value s (collect index scores k)) scores index"
  have len: "length scores = length rewards" "length scores \<le> length index"
    using assms by (simp_all add: scores_def outcome_scores_def)
  have "let others = filter (\<lambda>j. j \<noteq> i) (group_indices index (length rewards) (index ! i));
            score = sum_list (rewards ! i)
        in out ! i = (if others = [] then score
                      else score - torch_mean (map (\<lambda>j. sum_list (rewards ! j)) others))"
    if i: "i < length rewards" for i
  proof -
    let ?is = "group_indices index (length rewards) (index ! i)"
    let ?o = "filter (\<lambda>j. j \<noteq> i) ?is"
    let ?f = "\<lambda>j. sum_list (rewards ! j)"
    have mem: "i \<in> set ?is" using i by (simp add: group_indices_mem)
    have d: "distinct ?is" by (simp add: group_indices_def)
    have grp: "collect index scores (index ! i) = map ?f ?is"
      unfolding collect_indices [OF len(2)] len(1)
      by (intro map_cong) (auto simp: group_indices_mem scores_def outcome_scores_def)
    have si: "scores ! i = ?f i" using i by (simp add: scores_def outcome_scores_def)
    have oi: "out ! i = rloo_value (?f i) (map ?f ?is)"
      using i len assms si grp by (simp add: out_def)
    have n: "length ?is = Suc (length ?o)"
      using length_others [OF d mem] .
    show ?thesis
    proof (cases "?o = []")
      case True
      then show ?thesis using oi n by (simp add: rloo_value_def)
    next
      case False
      then have "2 \<le> length (map ?f ?is)" using n by (cases ?o) auto
      from rloo_value_others [OF this, of "?f i"] oi sum_others [OF d mem, of ?f] n False
      show ?thesis by (simp add: torch_mean_def)
    qed
  qed
  moreover have "compute_rloo_outcome_advantage rewards msk index =
       Inr (spread_scores out msk, spread_scores out msk)"
    unfolding rloo_run [OF assms] by (simp add: out_def scores_def Let_def)
  moreover have "length out = length rewards" using len assms by (simp add: out_def)
  ultimately show ?thesis by blast
qed

lemma rloo_leave_one_out_witness:
  "\<exists>out. compute_rloo_outcome_advantage [[1], [2], [5]] [[1], [1], [1]] ''aab'' =
       Inr (spread_scores out [[1], [1], [1]], spread_scores out [[1], [1], [1]]) \<and>
     out ! 0 = -1 \<and> out ! 2 = 5"
proof -
  have g: "group_indices ''aab'' (length [[1], [2], [5 :: real]]) CHR ''a'' = [0, 1]"
    "group_indices ''aab'' (length [[1], [2], [5 :: real]]) CHR ''b'' = [2]"
    by (simp_all add: group_indices_def upt_rec numeral_2_eq_2)
  from rloo_leave_one_out [of "[[1], [2], [5]]" "''aab''" "[[1], [1], [1]]"] obtain out where
    out: "compute_rloo_outcome_advantage [[1], [2], [5]] [[1], [1], [1]] ''aab'' =
       Inr (spread_scores out [[1], [1], [1]], spread_scores out [[1], [1], [1]])"
    and vals: "\<forall>i < length [[1], [2], [5 :: real]].
        let others = filter (\<lambda>j. j \<noteq> i) (group_indices ''aab'' (length [[1], [2], [5 :: real]]) (''aab'' ! i));
            score = sum_list ([[1], [2], [5]] ! i)
        in out ! i = (if others = [] then score
                      else score - torch_mean (map (\<lambda>j. sum_list ([[1], [2], [5]] ! j)) others))"
    by auto
  from vals [rule_format, of 0] vals [rule_format, of 2] g out show ?thesis
    by (intro exI [of _ out]) (simp add: torch_mean_def)
qed

text \<open>The vectorised version groups by the rank of a label among the distinct labels.\<close>

lemma unique_inverse_rank:
  "unique_inverse xs = map (\<lambda>x. int (card {y \<in> set xs. y < x})) xs"
proof -
  have "length (filter (\<lambda>y. y < x) (remdups xs)) = card {y \<in> set xs. y < x}" for x
  proof -
    have "distinct (filter (\<lambda>y. y < x) (remdups xs))" by simp
    then have "length (filter (\<lambda>y. y < x) (remdups xs)) = card (set (filter (\<lambda>y. y < x) (remdups xs)))"
      by (simp only: distinct_card)
    then show ?thesis by (simp add: Collect_conj_eq Int_commute)
  qed
  then show ?thesis by (simp add: unique_inverse_def)
qed

lemma rank_inj:
  fixes x y :: "'a :: linorder"
  assumes "x \<in> set xs" and "y \<in> set xs"
  shows "card {z \<in> set xs. z < x} = card {z \<in> set xs. z < y} \<longleftrightarrow> x = y"
proof
  assume c: "card {z \<in> set xs. z < x} = card {z \<in> set xs. z < y}"
  have less: "card {z \<in> set xs. z < a} < card {z \<in> set xs. z < b}" if "a < b" "a \<in> set xs" for a b
  proof (rule psubset_card_mono)
    show "{z \<in> set xs. z < a} \<subset> {z \<in> set xs. z < b}" using that by auto
  qed simp
  show "x = y" using c less [of x y] less [of y x] assms by (cases x y rule: linorder_cases) auto
qed simp

lemma bincount_group:
  fixes index :: "'a :: linorder list"
  assumes "x \<in> set index"
  shows "bincount (unique_inverse index) ws (int (card {y \<in> set index. y < x})) =
    sum_list (collect index ws x)"
proof -
  let ?r = "\<lambda>x. int (card {y \<in> set index. y < x})"
  have zip: "zip (unique_inverse index) ws = map (\<lambda>(k, w). (?r k, w)) (zip index ws)"
    unfolding unique_inverse_rank by (simp add: zip_map1)
  have "filter (\<lambda>(j, _). j = ?r x) (zip (unique_inverse index) ws) =
      map (\<lambda>(k, w). (?r k, w)) (filter (\<lambda>p. fst p = x) (zip index ws))"
  proof -
    have "filter (\<lambda>p. ?r (fst p) = ?r x) (zip index ws) = filter (\<lambda>p. fst p = x) (zip index ws)"
    proof (rule filter_cong [OF refl])
      fix p
      assume "p \<in> set (zip index ws)"
      then have "fst p \<in> set index" by (metis prod.collapse set_zip_leftD)
      then show "(?r (fst p) = ?r x) = (fst p = x)" using rank_inj [OF _ assms] by simp
    qed
    then show ?thesis unfolding zip by (simp add: filter_map comp_def split_def)
  qed
  then show ?thesis by (simp add: bincount_def collect_filter comp_def split_def)
qed

text \<open>
  The vectorised RLOO gives the same advantages as the loop whenever every response shares its
  group with another one.
\<close>

theorem rloo_vectorized_agrees:
  assumes "length rewards = length index"
    and "\<forall>k\<in>set index. 2 \<le> length (group_indices index (length rewards) k)"
  shows "compute_rloo_vectorized_outcome_advantage rewards msk index =
    compute_rloo_outcome_advantage rewards msk index"
proof -
  define scores where "scores = outcome_scores rewards"
  let ?bins = "unique_inverse index"
  let ?c = "\<lambda>k. bincount ?bins (replicate (length ?bins) 1) k"
  have len: "length scores = length index" "length ?bins = length index"
    using assms(1) by (simp_all add: scores_def outcome_scores_def unique_inverse_def)
  have "map2 (\<lambda>s k. (?c k * s - bincount ?bins scores k) / max (?c k - 1) 1 *
            (if ?c k > 1 then 1 else 0)) scores ?bins =
        map2 (\<lambda>s k. rloo_value s (collect index scores k)) scores index"
  proof (rule nth_equalityI)
    fix i
    assume "i < length (map2 (\<lambda>s k. (?c k * s - bincount ?bins scores k) / max (?c k - 1) 1 *
            (if ?c k > 1 then 1 else 0)) scores ?bins)"
    then have i: "i < length index" using len by simp
    let ?x = "index ! i"
    let ?g = "collect index scores ?x"
    have x: "?x \<in> set index" using i by simp
    have bin: "?bins ! i = int (card {y \<in> set index. y < ?x})"
      using i by (simp add: unique_inverse_rank)
    have n: "2 \<le> length ?g"
      using assms x length_collect [of scores index ?x] len by simp
    have "map (\<lambda>i. replicate (length index) (1 :: real) ! i) (group_indices index (length index) ?x) =
        map (\<lambda>_. 1) (group_indices index (length index) ?x)"
      by (intro map_cong) (simp_all add: group_indices_mem)
    then have "collect index (replicate (length ?bins) (1 :: real)) ?x = replicate (length ?g) 1"
      using collect_indices [of scores index ?x] collect_indices [of "replicate (length ?bins) (1 :: real)" index ?x]
        len by (simp add: map_replicate_const)
    then have c: "?c (?bins ! i) = real (length ?g)"
      unfolding bin bincount_group [OF x] by (simp add: sum_list_replicate)
    have s: "bincount ?bins scores (?bins ! i) = sum_list ?g"
      unfolding bin by (rule bincount_group [OF x])
    define m where "m = real (length ?g)"
    have m: "2 \<le> m" using n by (simp add: m_def)
    have "rloo_value (scores ! i) ?g = scores ! i - (sum_list ?g - scores ! i) / (m - 1)"
      unfolding m_def using n by (rule rloo_value_others)
    also have "\<dots> = (m * scores ! i - sum_list ?g) / (m - 1)" using m by (simp add: field_simps)
    finally have "rloo_value (scores ! i) ?g =
        (m * scores ! i - sum_list ?g) / max (m - 1) 1 * (if m > 1 then 1 else 0)"
      using m by simp
    then show "map2 (\<lambda>s k. (?c k * s - bincount ?bins scores k) / max (?c k - 1) 1 *
            (if ?c k > 1 then 1 else 0)) scores ?bins ! i =
        map2 (\<lambda>s k. rloo_value s (collect index scores k)) scores index ! i"
      using i len c s by (simp add: m_def)
  qed (simp add: len)
  then show ?thesis
    unfolding rloo_run [OF assms(1)] compute_rloo_vectorized_outcome_advantage_def Let_def
    using len by (simp add: scores_def)
qed

lemma rloo_vectorized_agrees_witness:
  "compute_rloo_vectorized_outcome_advantage [[1], [2], [5], [7]] [[1], [1], [1], [1]] [3, 4, 3, 4 :: int] =
   compute_rloo_outcome_advantage [[1], [2], [5], [7]] [[1], [1], [1], [1]] [3, 4, 3, 4 :: int]"
  by (rule rloo_vectorized_agrees) (simp_all add: group_indices_def upt_rec numeral_eq_Suc)

text \<open>
  They differ on a response alone in its group: the loop keeps its score, the vectorised
  version gives zero.
\<close>

theorem rloo_singleton_differs:
  "compute_rloo_outcome_advantage [[5]] [[1]] [k :: int] = Inr ([[5]], [[5]]) \<and>
   compute_rloo_vectorized_outcome_advantage [[5]] [[1]] [k] = Inr ([[0]], [[0]])"
  by (simp add: compute_rloo_outcome_advantage_def compute_rloo_vectorized_outcome_advantage_def
      outcome_scores_def collect_def Let_def spread_scores_def unique_inverse_def bincount_def)

section \<open>The vectorised GRPO\<close>

lemma group_sum_collect: "group_sum f scores gidx g = sum_list (map f (collect gidx scores (int g)))"
proof -
  have "foldl (\<lambda>acc (s, k). if k = int g then acc + f s else acc) a (zip xs ks) =
      a + sum_list (map f (map snd (filter (\<lambda>p. fst p = int g) (zip ks xs))))"
    for a :: real and xs :: "real list" and ks :: "int list"
  proof (induction xs arbitrary: a ks)
    case (Cons x xs)
    then show ?case by (cases ks) auto
  qed simp
  then show ?thesis by (simp add: group_sum_def collect_filter)
qed

definition group_var :: "vec \<Rightarrow> real" where
  "group_var xs = sum_list (map (\<lambda>x. (x - torch_mean xs) ^ 2) xs) / (real (length xs) - 1)"

lemma sum_squares:
  assumes "xs \<noteq> []"
  shows "sum_list (map (\<lambda>x. (x - torch_mean xs) ^ 2) xs) =
    sum_list (map (\<lambda>x. x * x) xs) - sum_list xs * sum_list xs / real (length xs)"
proof -
  have "sum_list (map (\<lambda>x. (x - c) ^ 2) xs) =
      sum_list (map (\<lambda>x. x * x) xs) - 2 * c * sum_list xs + real (length xs) * c * c" for c
    by (induction xs) (auto simp: algebra_simps power2_eq_square)
  from this [of "torch_mean xs"] show ?thesis using assms by (simp add: torch_mean_def)
qed

lemma group_stats:
  assumes "length scores = length gidx" and "\<forall>k\<in>set gidx. 0 \<le> k" and "gidx \<noteq> []"
  shows "\<exists>mean_g std_g count. group_mean_std scores gidx eps = Inr (mean_g, std_g, count) \<and>
    (\<forall>k\<in>set gidx. mean_g ! nat k = id2mean (collect gidx scores k) \<and>
       std_g ! nat k = (if length (collect gidx scores k) = 1 then 1
                        else sqrt (max (group_var (collect gidx scores k)) eps)))"
proof -
  define G where "G = nat (Max (set gidx) + 1)"
  have max: "0 \<le> Max (set gidx)" using assms(2,3) by (metis List.finite_set Max_in set_empty)
  let ?count = "\<lambda>g. group_sum (\<lambda>_. 1) scores gidx g"
  let ?s1 = "\<lambda>g. group_sum (\<lambda>s. s) scores gidx g"
  let ?s2 = "\<lambda>g. group_sum (\<lambda>s. s * s) scores gidx g"
  let ?mean = "map (\<lambda>g. if ?count g \<le> 1 then 0 else ?s1 g / max (?count g) 1) [0..<G]"
  let ?std = "map (\<lambda>g. if ?count g \<le> 1 then 1 else sqrt (max
      ((?s2 g - ?s1 g * ?s1 g / max (?count g) 1) / max (?count g - 1) 1) eps)) [0..<G]"
  have run: "group_mean_std scores gidx eps = Inr (?mean, ?std, map ?count [0..<G])"
    using assms max by (simp add: group_mean_std_def Let_def G_def)
  have "?mean ! nat k = id2mean (collect gidx scores k) \<and>
       ?std ! nat k = (if length (collect gidx scores k) = 1 then 1
                        else sqrt (max (group_var (collect gidx scores k)) eps))"
    if k: "k \<in> set gidx" for k
  proof -
    let ?g = "collect gidx scores k"
    have k0: "0 \<le> k" "int (nat k) = k" using assms(2) k by auto
    have "k \<le> Max (set gidx)" using k by simp
    then have kG: "nat k < G" using k0 max by (simp add: G_def nat_less_iff)
    have cnt: "?count (nat k) = real (length ?g)" "?s1 (nat k) = sum_list ?g"
      "?s2 (nat k) = sum_list (map (\<lambda>s. s * s) ?g)"
      by (simp_all add: group_sum_collect k0 sum_list_triv)
    obtain i where "i < length gidx" "gidx ! i = k" using k by (metis in_set_conv_nth)
    then have "i \<in> set (group_indices gidx (length scores) k)"
      using assms(1) by (simp add: group_indices_mem)
    then have ne: "?g \<noteq> []" using assms(1) by (auto simp: collect_indices)
    show ?thesis
    proof (cases "length ?g = 1")
      case True
      then show ?thesis using kG cnt by (simp add: id2mean_def)
    next
      case False
      then have "2 \<le> length ?g" using ne by (cases ?g) (auto simp: Suc_le_eq)
      then have m: "2 \<le> real (length ?g)" by simp
      then show ?thesis
        using kG cnt False sum_squares [OF ne]
        by (simp add: id2mean_def torch_mean_def group_var_def)
    qed
  qed
  with run show ?thesis by blast
qed

text \<open>
  On non-negative integer labels the vectorised GRPO gives the same advantages as the loop, if
  the scores are not normalised or the variance of every group of two or more reaches \<open>epsilon\<close> (below
  it the vectorised version divides by the square root of \<open>epsilon\<close> instead).
\<close>

theorem grpo_vectorized_agrees:
  assumes "length rewards = length gidx" and "gidx \<noteq> []" and "\<forall>k\<in>set gidx. 0 \<le> k"
    and "nrm \<longrightarrow> (\<forall>k\<in>set gidx. length (collect gidx (outcome_scores rewards) k) = 1 \<or>
                     eps \<le> group_var (collect gidx (outcome_scores rewards) k))"
  shows "compute_grpo_vectorized_outcome_advantage parse_int rewards msk (IntLabels gidx) eps nrm =
    compute_grpo_outcome_advantage rewards msk gidx eps nrm"
proof -
  define scores where "scores = outcome_scores rewards"
  have len: "length scores = length gidx" using assms(1) by (simp add: scores_def outcome_scores_def)
  from group_stats [OF len assms(3,2), of eps] obtain mean_g std_g count where
    st: "group_mean_std scores gidx eps = Inr (mean_g, std_g, count)"
    and vals: "\<And>k. k \<in> set gidx \<Longrightarrow> mean_g ! nat k = id2mean (collect gidx scores k)"
      "\<And>k. k \<in> set gidx \<Longrightarrow> std_g ! nat k = (if length (collect gidx scores k) = 1 then 1
                        else sqrt (max (group_var (collect gidx scores k)) eps))"
    by blast
  have std: "std_g ! nat k = id2std (collect gidx scores k)" if "nrm" "k \<in> set gidx" for k
    using vals(2) [OF that(2)] assms(4) that
    by (auto simp: id2std_def torch_std_def group_var_def scores_def max_def)
  have "map2 (\<lambda>s k. if nrm then (s - mean_g ! nat k) / (std_g ! nat k + eps) else s - mean_g ! nat k)
          scores gidx =
        map2 (\<lambda>s k. if nrm then (s - id2mean (collect gidx scores k)) / (id2std (collect gidx scores k) + eps)
                   else s - id2mean (collect gidx scores k)) scores gidx"
    using vals(1) std by (intro map_cong) (auto dest!: set_zip_rightD)
  then show ?thesis
    using st len
    unfolding compute_grpo_vectorized_outcome_advantage_def compute_grpo_outcome_advantage_def
      as_torch_index_def Let_def scores_def [symmetric]
    by (simp only: labels.case rbind_simps ensure_def prod.case order_refl if_True)
qed

lemma grpo_vectorized_agrees_witness:
  "compute_grpo_vectorized_outcome_advantage (\<lambda>_. None) [[1], [3], [5]] [[1], [1], [1]]
     (IntLabels [0, 0, 2]) (1 / 10) True =
   compute_grpo_outcome_advantage [[1], [3], [5]] [[1], [1], [1]] [0, 0, 2 :: int] (1 / 10) True"
proof (rule grpo_vectorized_agrees)
  have "collect [0, 0, 2] (outcome_scores [[1], [3], [5]]) k =
      (if k = 0 then [1, 3] else if k = 2 then [5] else [])" for k :: int
    by (simp add: collect_def outcome_scores_def)
  moreover have "group_var [1, 3] = 2" by (simp add: group_var_def torch_mean_def)
  ultimately show "True \<longrightarrow> (\<forall>k\<in>set [0, 0, 2 :: int].
      length (collect [0, 0, 2] (outcome_scores [[1], [3], [5]]) k) = 1 \<or>
      1 / 10 \<le> group_var (collect [0, 0, 2] (outcome_scores [[1], [3], [5]]) k))"
    by simp
qed simp_all

section \<open>Pass@k\<close>

lemma passk_advantage_nonneg:
  assumes "2 \<le> length rewards" and "\<forall>xs. xs \<noteq> [] \<longrightarrow> top1 xs < length xs \<and> (\<forall>x\<in>set xs. x \<le> xs ! top1 xs)"
    and "0 \<le> eps"
  shows "0 \<le> passk_advantage top1 eps by_std rewards"
proof -
  have ne: "rewards \<noteq> []" using assms(1) by auto
  let ?rest = "remove_nth (top1 rewards) rewards"
  have "length ?rest = length rewards - 1"
    using assms(2) ne by (auto simp: remove_nth_def)
  then have "set ?rest \<noteq> {}" using assms(1) by auto
  moreover have "set ?rest \<subseteq> set rewards"
    by (auto simp: remove_nth_def dest: in_set_takeD in_set_dropD)
  ultimately have "Max (set ?rest) \<in> set rewards" by (meson List.finite_set Max_in subsetD)
  then have "Max (set ?rest) \<le> rewards ! top1 rewards" using assms(2) ne by blast
  moreover have "0 \<le> torch_std rewards"
  proof -
    have "0 \<le> sum_list (map (\<lambda>x. (x - torch_mean rewards) ^ 2) rewards)"
      by (intro sum_list_nonneg) auto
    then show ?thesis using assms(1) by (auto simp: torch_std_def intro!: divide_nonneg_nonneg)
  qed
  ultimately show ?thesis using assms(3) by (simp add: passk_advantage_def Let_def)
qed

text \<open>
  The pass@k estimator raises when some group has a single response; otherwise only the best
  response of each group can have a non-zero advantage, and no advantage is negative.
\<close>

theorem passk_only_best:
  assumes "length rewards = length index" and "0 \<le> eps"
    and "\<forall>xs. xs \<noteq> [] \<longrightarrow> top1 xs < length xs \<and> (\<forall>x\<in>set xs. x \<le> xs ! top1 xs)"
  shows "if \<forall>k\<in>set index. 2 \<le> length (group_indices index (length rewards) k)
     then \<exists>out. compute_grpo_passk_outcome_advantage top1 rewards msk index eps (Some by_std) =
            Inr (spread_scores out msk, spread_scores out msk) \<and>
          (\<forall>i < length rewards. 0 \<le> out ! i \<and>
            (out ! i \<noteq> 0 \<longrightarrow> (\<forall>j < length rewards. index ! j = index ! i \<longrightarrow>
               sum_list (rewards ! j) \<le> sum_list (rewards ! i))))
     else compute_grpo_passk_outcome_advantage top1 rewards msk index eps (Some by_std) = Inl ValueError"
proof -
  define scores where "scores = outcome_scores rewards"
  have len: "length scores = length rewards" by (simp add: scores_def outcome_scores_def)
  have size: "length (collect index scores k) = length (group_indices index (length rewards) k)" for k
    using length_collect [of scores index k] assms(1) len by simp
  define out where "out = map (\<lambda>i. let rewards = collect index scores (index ! i)
      in if i = collect index [0..<length scores] (index ! i) ! top1 rewards
         then passk_advantage top1 eps by_std rewards else 0) [0..<length scores]"
  show ?thesis
  proof (cases "\<forall>k\<in>set index. 2 \<le> length (group_indices index (length rewards) k)")
    case True
    have run: "compute_grpo_passk_outcome_advantage top1 rewards msk index eps (Some by_std) =
        Inr (spread_scores out msk, spread_scores out msk)"
      using True assms(1) len size
      by (simp add: compute_grpo_passk_outcome_advantage_def Let_def scores_def [symmetric] out_def)
    have "0 \<le> out ! i \<and> (out ! i \<noteq> 0 \<longrightarrow> (\<forall>j < length rewards. index ! j = index ! i \<longrightarrow>
               sum_list (rewards ! j) \<le> sum_list (rewards ! i)))" if i: "i < length rewards" for i
    proof -
      let ?is = "group_indices index (length rewards) (index ! i)"
      let ?g = "collect index scores (index ! i)"
      have two: "2 \<le> length ?g" using True i assms(1) size by simp
      have g: "?g = map (\<lambda>i. scores ! i) ?is"
        using collect_indices [of scores index "index ! i"] assms(1) len by simp
      have ids: "collect index [0..<length scores] (index ! i) = ?is"
      proof -
        have "map (\<lambda>j. [0..<length scores] ! j) ?is = ?is"
          by (rule map_idI) (simp add: group_indices_mem len)
        then show ?thesis
          using collect_indices [of "[0..<length scores]" index "index ! i"] assms(1) len by simp
      qed
      have val: "out ! i = (if i = ?is ! top1 ?g then passk_advantage top1 eps by_std ?g else 0)"
        using i len ids by (simp add: out_def Let_def)
      have "0 \<le> out ! i" using passk_advantage_nonneg [OF two assms(3,2)] val by simp
      moreover have "sum_list (rewards ! j) \<le> sum_list (rewards ! i)"
        if "out ! i \<noteq> 0" "j < length rewards" "index ! j = index ! i" for j
      proof -
        have "?g \<noteq> []" using two by auto
        with assms(3) have top: "top1 ?g < length ?g" "\<forall>x\<in>set ?g. x \<le> ?g ! top1 ?g" by blast+
        have "j \<in> set ?is" using that(2,3) by (simp add: group_indices_mem)
        then have "scores ! j \<in> set ?g" unfolding g by simp
        then have "scores ! j \<le> ?g ! top1 ?g" using top(2) by blast
        moreover have "?g ! top1 ?g = scores ! i"
          using val that(1) top(1) g by (auto split: if_splits)
        ultimately show ?thesis using i that(2) by (simp add: scores_def outcome_scores_def)
      qed
      ultimately show ?thesis by blast
    qed
    then have "\<exists>out. compute_grpo_passk_outcome_advantage top1 rewards msk index eps (Some by_std) =
            Inr (spread_scores out msk, spread_scores out msk) \<and>
          (\<forall>i < length rewards. 0 \<le> out ! i \<and>
            (out ! i \<noteq> 0 \<longrightarrow> (\<forall>j < length rewards. index ! j = index ! i \<longrightarrow>
               sum_list (rewards ! j) \<le> sum_list (rewards ! i))))"
      using run by (intro exI [of _ out]) simp
    then show ?thesis unfolding if_P [OF True] .
  next
    case False
    then show ?thesis
      using assms(1) len size
      by (auto simp: compute_grpo_passk_outcome_advantage_def Let_def scores_def [symmetric] ensure_def)
  qed
qed

definition first_max :: "vec \<Rightarrow> nat" where
  "first_max xs = length (takeWhile (\<lambda>x. x \<noteq> Max (set xs)) xs)"

lemma first_max_law: "xs \<noteq> [] \<Longrightarrow> first_max xs < length xs \<and> (\<forall>x\<in>set xs. x \<le> xs ! first_max xs)"
proof -
  assume ne: "xs \<noteq> []"
  then have "Max (set xs) \<in> set xs" by simp
  then have "takeWhile (\<lambda>x. x \<noteq> Max (set xs)) xs \<noteq> xs" by (auto simp: takeWhile_eq_all_conv)
  then have "first_max xs \<noteq> length xs" unfolding first_max_def by (metis takeWhile_eq_take take_all_iff order_refl)
  then have "first_max xs < length xs"
    using length_takeWhile_le [of "\<lambda>x. x \<noteq> Max (set xs)" xs] by (simp add: first_max_def)
  moreover from this have "xs ! first_max xs = Max (set xs)"
    unfolding first_max_def using nth_length_takeWhile by fastforce
  ultimately show ?thesis by simp
qed

lemma passk_only_best_witness:
  "\<exists>out. compute_grpo_passk_outcome_advantage first_max [[1], [2]] [[1], [1]] [7, 7 :: int] 0 (Some False) =
     Inr (spread_scores out [[1], [1]], spread_scores out [[1], [1]]) \<and> 0 \<le> out ! 0"
proof -
  have "group_indices [7, 7 :: int] (length [[1], [2 :: real]]) 7 = [0, 1]"
    by (simp add: group_indices_def upt_rec numeral_2_eq_2)
  with passk_only_best [of "[[1], [2]]" "[7, 7 :: int]" 0 first_max "[[1], [1]]" False] first_max_law
  show ?thesis by auto
qed

section \<open>Optimal reward baseline\<close>

lemma opo_equal_lengths:
  assumes "length scores = length lens" and "scores \<noteq> []" and "\<forall>l\<in>set lens. l = c" and "c \<noteq> 0"
  shows "opo_baseline lens scores = id2mean scores"
proof -
  have "sum_list (map2 (*) lens scores) = c * sum_list scores \<and> sum_list lens = c * real (length scores)"
    using assms(1,3)
    by (induction lens scores rule: list_induct2') (auto simp: algebra_simps)
  then show ?thesis
    using assms(2,4) by (simp add: opo_baseline_def id2mean_def torch_mean_def)
qed

text \<open>
  When all responses have the same positive number of selected tokens, the length-weighted
  baseline of OPO is the group mean: OPO gives the unnormalised GRPO advantages.
\<close>

theorem opo_is_grpo_on_equal_lengths:
  assumes "length rewards = length index" and "length msk = length rewards"
    and "\<forall>row\<in>set msk. sum_list row = c" and "c \<noteq> 0"
  shows "compute_opo_outcome_advantage rewards msk index =
    compute_grpo_outcome_advantage rewards msk index eps False"
proof -
  define scores where "scores = outcome_scores rewards"
  define lens where "lens = map sum_list msk"
  have len: "length scores = length index" "length lens = length index"
    using assms(1,2) by (simp_all add: scores_def outcome_scores_def lens_def)
  have base: "opo_baseline (collect index lens k) (collect index scores k) =
      id2mean (collect index scores k)" if "k \<in> set index" for k
  proof (rule opo_equal_lengths [OF _ _ _ assms(4)])
    from that obtain i where "i < length index" "index ! i = k" by (metis in_set_conv_nth)
    then have "i \<in> set (group_indices index (length index) k)" by (simp add: group_indices_mem)
    then show "collect index scores k \<noteq> []" using len by (auto simp: collect_indices)
    show "length (collect index scores k) = length (collect index lens k)"
      using len by (simp add: length_collect)
    show "\<forall>l\<in>set (collect index lens k). l = c"
    proof -
      have all: "lens ! i = c" if "i < length lens" for i
        using assms(3) that by (simp add: lens_def)
      have "collect index lens k = map (\<lambda>i. lens ! i) (group_indices index (length lens) k)"
        by (rule collect_indices) (simp add: len(2))
      then show ?thesis using all by (auto simp: group_indices_mem)
    qed
  qed
  have "map2 (\<lambda>s k. s - opo_baseline (collect index lens k) (collect index scores k)) scores index =
      map2 (\<lambda>s k. s - id2mean (collect index scores k)) scores index"
    using base by (intro map_cong) (auto dest!: set_zip_rightD)
  then show ?thesis
    using len unfolding compute_opo_outcome_advantage_def compute_grpo_outcome_advantage_def Let_def
      scores_def [symmetric] lens_def [symmetric] by (simp only: ensure_def order_refl if_True if_False)
qed

lemma opo_is_grpo_on_equal_lengths_witness:
  "compute_opo_outcome_advantage [[1], [3]] [[1], [1]] [0, 0 :: int] =
    compute_grpo_outcome_advantage [[1], [3]] [[1], [1]] [0, 0 :: int] 0 False"
  by (rule opo_is_grpo_on_equal_lengths [where c = 1]) simp_all

section \<open>Optimal token baseline\<close>

lemma weighted_mean_bound:
  fixes f w :: "nat \<Rightarrow> real"
  assumes "\<forall>j\<in>set js. 0 \<le> w j \<and> \<bar>f j\<bar> \<le> M" and "0 < eps" and "0 \<le> M"
  shows "\<bar>sum_list (map (\<lambda>j. f j * w j) js) / (sum_list (map w js) + eps)\<bar> \<le> M"
proof -
  have "0 \<le> sum_list (map w js) \<and> \<bar>sum_list (map (\<lambda>j. f j * w j) js)\<bar> \<le> M * sum_list (map w js)"
    using assms(1)
  proof (induction js)
    case (Cons j js)
    then have j: "0 \<le> w j" "\<bar>f j\<bar> \<le> M"
      and IH: "0 \<le> sum_list (map w js)" "\<bar>sum_list (map (\<lambda>j. f j * w j) js)\<bar> \<le> M * sum_list (map w js)"
      by auto
    have "\<bar>f j * w j\<bar> \<le> M * w j" using j by (simp add: abs_mult mult_right_mono)
    with IH j show ?case by (auto simp: algebra_simps)
  qed simp
  then have s: "0 \<le> sum_list (map w js)"
      "\<bar>sum_list (map (\<lambda>j. f j * w j) js)\<bar> \<le> M * (sum_list (map w js) + eps)"
    using assms(2,3) by (auto simp: algebra_simps intro: order_trans)
  then show ?thesis using assms(2) by (simp add: abs_divide pos_divide_le_eq)
qed

lemma score_energy_nonneg:
  assumes "(exp lp)\<^sup>2 \<le> sq"
  shows "0 \<le> 1 - 2 * exp lp + (sq :: real)"
proof -
  have "0 \<le> (1 - exp lp)\<^sup>2" by simp
  also have "\<dots> = 1 - 2 * exp lp + (exp lp)\<^sup>2" by (simp add: power2_eq_square algebra_simps)
  finally show ?thesis using assms by linarith
qed

text \<open>
  The token baseline is a weighted mean: with non-negative masked weights and a positive
  \<open>epsilon\<close> its absolute value at a token is at most the largest absolute return of the group at that
  token. The weights are sums of \<open>1 - 2 pi + sum pi^2\<close>, which is non-negative because the sum of
  squares is at least the square of the chosen token's probability.
\<close>

theorem otb_baseline_bounded:
  assumes "t < width" and "0 < eps" and "0 \<le> M"
    and "\<forall>j\<in>set grp. 0 \<le> w ! j ! t * msk ! j ! t \<and> \<bar>returns ! j ! t\<bar> \<le> M"
  shows "\<bar>otb_baseline_row returns w msk grp eps width ! t\<bar> \<le> M \<and>
    (\<forall>lp sq. (exp lp)\<^sup>2 \<le> sq \<longrightarrow> 0 \<le> hd (hd (w_per_timestep [[lp]] [[sq]] None)))"
  using weighted_mean_bound [of grp "\<lambda>j. w ! j ! t * msk ! j ! t" "\<lambda>j. returns ! j ! t" M eps] assms
  by (simp add: otb_baseline_row_def w_per_timestep_def ew2_def score_energy_nonneg mult.assoc)

lemma otb_baseline_bounded_witness:
  "\<bar>otb_baseline_row [[2], [-3]] [[1], [1]] [[1], [1]] [0, 1] (1 / 10) 1 ! 0\<bar> \<le> 3"
  using otb_baseline_bounded [of 0 1 "1 / 10" 3 "[0, 1]" "[[1], [1]]" "[[1], [1]]" "[[2], [-3]]"] by simp

section \<open>KL controllers\<close>

text \<open>
  The adaptive controller moves the coefficient towards the target: with a positive target and
  coefficient and \<open>n_steps\<close> below five horizons the new coefficient is positive, not smaller than the
  old one when the KL is at least the target, not larger when it is at most the target, and changes
  by at most the fraction \<open>0.2 * n_steps / horizon\<close>.
\<close>

theorem adaptive_kl_step:
  assumes "0 < kl_target c" and "0 < kl_value c" and "real n < 5 * kl_horizon c" and "0 < kl_horizon c"
  shows "0 < kl_value (adaptive_update kl n c) \<and>
    (kl_target c \<le> kl \<longrightarrow> kl_value c \<le> kl_value (adaptive_update kl n c)) \<and>
    (kl \<le> kl_target c \<longrightarrow> kl_value (adaptive_update kl n c) \<le> kl_value c) \<and>
    \<bar>kl_value (adaptive_update kl n c) - kl_value c\<bar> \<le> kl_value c * (real n / (5 * kl_horizon c))"
proof -
  define e where "e = clamp (-(2 / 10)) (2 / 10) (kl / kl_target c - 1)"
  define q where "q = real n / kl_horizon c"
  have e: "\<bar>e\<bar> \<le> 1 / 5" unfolding e_def clamp_def abs_le_iff by linarith
  have up: "0 \<le> e" if "kl_target c \<le> kl" 
  proof -
    have "1 \<le> kl / kl_target c" using that assms(1) by simp
    then show ?thesis unfolding e_def clamp_def by linarith
  qed
  have down: "e \<le> 0" if "kl \<le> kl_target c"
  proof -
    have "kl / kl_target c \<le> 1" using that assms(1) by simp
    then show ?thesis unfolding e_def clamp_def by linarith
  qed
  have q: "0 \<le> q" "q < 5" using assms(3,4) by (simp_all add: q_def pos_divide_less_eq mult.commute)
  have val: "kl_value (adaptive_update kl n c) = kl_value c * (1 + e * q)"
    by (simp add: adaptive_update_def Let_def e_def q_def)
  have small: "\<bar>e * q\<bar> \<le> q / 5" using e q(1) mult_right_mono [of "\<bar>e\<bar>" "1 / 5" q] by (simp add: abs_mult)
  then have "0 < 1 + e * q" using q(2) by linarith
  moreover have "\<bar>kl_value c * (1 + e * q) - kl_value c\<bar> = kl_value c * \<bar>e * q\<bar>"
    using assms(2) by (simp add: abs_mult [symmetric] algebra_simps) (simp add: abs_mult)
  moreover have "kl_value c * \<bar>e * q\<bar> \<le> kl_value c * (q / 5)"
    using small assms(2) by (intro mult_left_mono) simp_all
  moreover have "0 \<le> e * q" if "kl_target c \<le> kl" using up [OF that] q(1) by simp
  moreover have "e * q \<le> 0" if "kl \<le> kl_target c" using down [OF that] q(1) by (simp add: mult_nonpos_nonneg)
  ultimately show ?thesis
    using assms(2) by (simp add: val q_def mult_le_cancel_left1 mult_le_cancel_left2)
qed

lemma adaptive_kl_step_witness:
  "0 < kl_value (adaptive_update 3 10 \<lparr>kl_value = 1, kl_target = 2, kl_horizon = 100\<rparr>)"
  using adaptive_kl_step [of "\<lparr>kl_value = 1, kl_target = 2, kl_horizon = 100\<rparr>" 10 3] by simp

text \<open>
  Beyond five horizons per update the coefficient can turn negative: a KL of zero with ten
  steps and a horizon of one multiplies it by minus one.
\<close>

theorem adaptive_kl_negative:
  "rbind (get_kl_controller \<lparr>kl_type = ''adaptive'', cfg_kl_coef = 1, cfg_target_kl = 1, cfg_horizon = 1\<rparr>)
     (\<lambda>c. Inr (kl_coef (kl_update 0 10 c))) = Inr (-1)"
  by (simp add: get_kl_controller_def adaptive_update_def clamp_def Let_def)

end
