(* ===== verification/Policy_Losses.thy ===== *)
theory Policy_Losses
  imports Torch_Functional
begin

text \<open>
  The losses of \<open>src/verl/trainer/ppo/core_algos.py\<close>: the aggregation \<open>agg_loss\<close>, the registered
  policy losses, the value and entropy losses and the KL penalties. Each loss is a function of one
  token, lifted to the matrices. \<open>detach\<close> is the identity on values. Division of tensors by zero,
  which gives NaN or infinity in the code, is zero in the model; the lemmas assume positive counts.
  \<open>torch.randperm\<close>, \<open>torch.topk\<close>'s choice and \<open>torch.multinomial\<close> are parameters. The loss
  \<open>bypass_mode\<close> is in the theory of rollout correction.
\<close>

section \<open>Aggregation\<close>

text \<open>The keyword arguments \<open>**config.global_batch_info\<close>.\<close>

record batch_info =
  dp_size :: nat
  batch_num_tokens :: "real option"
  global_batch_size :: "real option"
  loss_scale_factor :: "real option"

definition default_info :: batch_info where
  "default_info = \<lparr>dp_size = 1, batch_num_tokens = None, global_batch_size = None,
                   loss_scale_factor = None\<rparr>"

definition required_count :: "nat \<Rightarrow> real option \<Rightarrow> real \<Rightarrow> real result" where
  "required_count dp given local =
     (case given of
        Some n \<Rightarrow> Inr n
      | None \<Rightarrow> ensure (\<not> dp > 1) ValueError (Inr local))"

definition seq_token_sums :: "mat \<Rightarrow> mat \<Rightarrow> vec" where
  "seq_token_sums loss_mat loss_mask = map2 (\<lambda>l m. sum_list (map2 (*) l m)) loss_mat loss_mask"

definition seq_mask_of :: "mat \<Rightarrow> vec" where
  "seq_mask_of loss_mask = map (\<lambda>row. if sum_list row > 0 then 1 else 0) loss_mask"

definition mat_width :: "mat \<Rightarrow> nat" where
  "mat_width A = (case A of [] \<Rightarrow> 0 | row # _ \<Rightarrow> length row)"

definition agg_loss :: "mat \<Rightarrow> mat \<Rightarrow> string \<Rightarrow> batch_info \<Rightarrow> real result" where
  "agg_loss loss_mat loss_mask loss_agg_mode info =
     (if loss_agg_mode = ''token-mean''
      then rbind (required_count (dp_size info) (batch_num_tokens info) (mat_sum loss_mask)) (\<lambda>n.
             Inr (masked_sum loss_mat loss_mask / n * real (dp_size info)))
      else if loss_agg_mode = ''seq-mean-token-sum'' \<or> loss_agg_mode = ''seq-mean-token-sum-norm''
      then (let seq_losses = seq_token_sums loss_mat loss_mask;
                seq_mask = seq_mask_of loss_mask
            in rbind (required_count (dp_size info) (global_batch_size info) (sum_list seq_mask)) (\<lambda>n.
                (let loss = row_masked_sum seq_losses seq_mask / n * real (dp_size info)
                 in Inr (if loss_agg_mode = ''seq-mean-token-sum-norm''
                         then loss / (case loss_scale_factor info of
                                        None \<Rightarrow> real (mat_width loss_mask) | Some f \<Rightarrow> f)
                         else loss))))
      else if loss_agg_mode = ''seq-mean-token-mean''
      then (let counts = map sum_list loss_mask;
                seq_losses = map2 (\<lambda>s c. s / (c + 1 / 10 ^ 8)) (seq_token_sums loss_mat loss_mask) counts;
                seq_mask = seq_mask_of loss_mask
            in rbind (required_count (dp_size info) (global_batch_size info) (sum_list seq_mask)) (\<lambda>n.
                 Inr (row_masked_sum seq_losses seq_mask / n * real (dp_size info))))
      else Inl ValueError)"

section \<open>The clipped policy loss\<close>

record actor_config =
  clip_ratio :: real
  clip_ratio_low :: "real option"
  clip_ratio_high :: "real option"
  clip_ratio_c :: "real option"
  tau_pos :: real
  tau_neg :: real
  clip_cov_ratio :: "real option"
  clip_cov_lb :: "real option"
  clip_cov_ub :: "real option"
  kl_cov_ratio :: "real option"
  ppo_kl_coef :: "real option"
  global_batch_info :: batch_info

record pg_metrics =
  pg_clipfrac :: real
  ppo_kl :: real
  pg_clipfrac_lower :: real

definition default_to :: "'a \<Rightarrow> 'a option \<Rightarrow> 'a" where
  "default_to d x = (case x of None \<Rightarrow> d | Some y \<Rightarrow> y)"

definition low_of :: "actor_config \<Rightarrow> real" where
  "low_of c = default_to (clip_ratio c) (clip_ratio_low c)"

definition high_of :: "actor_config \<Rightarrow> real" where
  "high_of c = default_to (clip_ratio c) (clip_ratio_high c)"

definition approx_kl :: "real \<Rightarrow> real \<Rightarrow> real" where
  "approx_kl old_log_prob log_prob = clamp (-20) 20 (log_prob - old_log_prob)"

definition neg_kl_mean :: "(real \<Rightarrow> real \<Rightarrow> real) \<Rightarrow> mat \<Rightarrow> mat \<Rightarrow> mat \<Rightarrow> real" where
  "neg_kl_mean f old_log_prob log_prob response_mask =
     masked_mean (ew2 (\<lambda>o_lp lp. - f o_lp lp) old_log_prob log_prob) response_mask"

text \<open>The loss of one token: the two surrogate losses, their maximum, and the dual clip.\<close>

definition surrogate1 :: "real \<Rightarrow> real \<Rightarrow> real" where
  "surrogate1 ratio adv = - adv * ratio"

definition surrogate2 :: "real \<Rightarrow> real \<Rightarrow> real \<Rightarrow> real \<Rightarrow> real" where
  "surrogate2 low high ratio adv = - adv * clamp (1 - low) (1 + high) ratio"

definition clipped_loss :: "real \<Rightarrow> real \<Rightarrow> real \<Rightarrow> real \<Rightarrow> real" where
  "clipped_loss low high ratio adv = max (surrogate1 ratio adv) (surrogate2 low high ratio adv)"

definition dual_clip_loss :: "real \<Rightarrow> real \<Rightarrow> real \<Rightarrow> real \<Rightarrow> real \<Rightarrow> real" where
  "dual_clip_loss low high c ratio adv =
     (if adv < 0 then min (- adv * c) (clipped_loss low high ratio adv)
      else clipped_loss low high ratio adv)"

definition indicator_of :: "bool \<Rightarrow> real" where
  "indicator_of b = (if b then 1 else 0)"

definition ppo_parts :: "real \<Rightarrow> real \<Rightarrow> real \<Rightarrow> mat \<Rightarrow> mat \<Rightarrow> mat \<Rightarrow> mat \<Rightarrow> mat \<times> pg_metrics" where
  "ppo_parts low high c old_log_prob log_prob advantages response_mask =
     (let ratio = ew2 (\<lambda>o_lp lp. exp (approx_kl o_lp lp)) old_log_prob log_prob
      in (ew2 (dual_clip_loss low high c) ratio advantages,
          \<lparr>pg_clipfrac = masked_mean (ew2 (\<lambda>r a. indicator_of (surrogate2 low high r a > surrogate1 r a))
                            ratio advantages) response_mask,
           ppo_kl = neg_kl_mean approx_kl old_log_prob log_prob response_mask,
           pg_clipfrac_lower = masked_mean (ew2 (\<lambda>r a. indicator_of (clipped_loss low high r a > - a * c) *
                            indicator_of (a < 0)) ratio advantages) response_mask\<rparr>))"

text \<open>
  The deprecated \<open>compute_policy_loss\<close>: without \<open>cliprange\<close> and one of the two sides the code
  computes \<open>1 - None\<close>, a \<open>TypeError\<close>.
\<close>

definition compute_policy_loss ::
  "mat \<Rightarrow> mat \<Rightarrow> mat \<Rightarrow> mat \<Rightarrow> real option \<Rightarrow> real option \<Rightarrow> real option \<Rightarrow> real \<Rightarrow> string \<Rightarrow>
   (real \<times> pg_metrics) result" where
  "compute_policy_loss old_log_prob log_prob advantages response_mask cliprange cliprange_low
       cliprange_high c loss_agg_mode =
     ensure (c > 1) AssertionError
      (case (if cliprange_low = None then cliprange else cliprange_low,
             if cliprange_high = None then cliprange else cliprange_high) of
         (Some low, Some high) \<Rightarrow>
           (case ppo_parts low high c old_log_prob log_prob advantages response_mask of (pg_losses, metrics) \<Rightarrow>
             rbind (agg_loss pg_losses response_mask loss_agg_mode default_info) (\<lambda>pg_loss.
               Inr (pg_loss, metrics)))
       | _ \<Rightarrow> Inl TypeError)"

definition apply_weights :: "mat option \<Rightarrow> mat \<Rightarrow> mat" where
  "apply_weights rollout_is_weights pg_losses =
     (case rollout_is_weights of None \<Rightarrow> pg_losses | Some w \<Rightarrow> ew2 (*) pg_losses w)"

text \<open>\<open>assert config is not None\<close> of every registered loss is the option type of \<open>config\<close>.\<close>

definition with_config :: "actor_config option \<Rightarrow> (actor_config \<Rightarrow> 'a result) \<Rightarrow> 'a result" where
  "with_config config f = (case config of None \<Rightarrow> Inl AssertionError | Some c \<Rightarrow> f c)"

definition compute_policy_loss_vanilla ::
  "mat \<Rightarrow> mat \<Rightarrow> mat \<Rightarrow> mat \<Rightarrow> string \<Rightarrow> actor_config option \<Rightarrow> mat option \<Rightarrow> (real \<times> pg_metrics) result" where
  "compute_policy_loss_vanilla old_log_prob log_prob advantages response_mask loss_agg_mode config
       rollout_is_weights =
     with_config config (\<lambda>cfg.
       (let c = default_to 3 (clip_ratio_c cfg)
        in ensure (c > 1) AssertionError
            (case ppo_parts (low_of cfg) (high_of cfg) c old_log_prob log_prob advantages response_mask of
               (pg_losses, metrics) \<Rightarrow>
                 rbind (agg_loss (apply_weights rollout_is_weights pg_losses) response_mask loss_agg_mode
                          (global_batch_info cfg)) (\<lambda>pg_loss. Inr (pg_loss, metrics)))))"

section \<open>DPPO, GSPO, SAPO, GPG and CISPO\<close>

text \<open>
  The two DPPO losses differ in the validity test of a token. \<open>dppo_loss\<close> is what they share: the
  truncated ratio times the log-probability, masked by validity.
\<close>

definition tv_valid :: "real \<Rightarrow> real \<Rightarrow> real \<Rightarrow> real \<Rightarrow> real \<Rightarrow> bool" where
  "tv_valid low high o_lp lp adv =
     (if adv > 0 then exp lp - exp o_lp \<le> high else exp lp - exp o_lp \<ge> - low)"

definition binary_kl :: "real \<Rightarrow> real \<Rightarrow> real" where
  "binary_kl o_lp lp =
     exp o_lp * (o_lp - lp) +
     (1 - exp o_lp) * ln ((1 - exp o_lp + 1 / 10 ^ 8) / (1 - exp lp + 1 / 10 ^ 8))"

definition kl_valid :: "real \<Rightarrow> real \<Rightarrow> real \<Rightarrow> real \<Rightarrow> real \<Rightarrow> bool" where
  "kl_valid low high o_lp lp adv =
     (if adv > 0 then binary_kl o_lp lp \<le> high \<or> exp lp \<le> exp o_lp
      else binary_kl o_lp lp \<le> low \<or> exp lp \<ge> exp o_lp)"

definition dppo_loss ::
  "(real \<Rightarrow> real \<Rightarrow> real \<Rightarrow> bool) \<Rightarrow> mat \<Rightarrow> mat \<Rightarrow> mat \<Rightarrow> mat \<Rightarrow> string \<Rightarrow> actor_config \<Rightarrow> mat option \<Rightarrow>
   (real \<times> pg_metrics) result" where
  "dppo_loss valid old_log_prob log_prob advantages response_mask loss_agg_mode cfg rollout_is_weights =
     (let c = default_to 20 (clip_ratio_c cfg);
          ratio = (\<lambda>o_lp lp. exp (approx_kl o_lp lp));
          pg_losses = ew3 (\<lambda>o_lp lp a. - a * min (ratio o_lp lp) c * lp * indicator_of (valid o_lp lp a))
                        old_log_prob log_prob advantages
      in rbind (agg_loss (apply_weights rollout_is_weights pg_losses) response_mask loss_agg_mode
                  (global_batch_info cfg)) (\<lambda>pg_loss.
           Inr (pg_loss,
             \<lparr>pg_clipfrac = masked_mean (ew3 (\<lambda>o_lp lp a. 1 - indicator_of (valid o_lp lp a))
                              old_log_prob log_prob advantages) response_mask,
              ppo_kl = neg_kl_mean approx_kl old_log_prob log_prob response_mask,
              pg_clipfrac_lower = masked_mean (ew3 (\<lambda>o_lp lp a. indicator_of (ratio o_lp lp > c) *
                              indicator_of (valid o_lp lp a)) old_log_prob log_prob advantages)
                              response_mask\<rparr>)))"

definition compute_policy_loss_dppo_tv ::
  "mat \<Rightarrow> mat \<Rightarrow> mat \<Rightarrow> mat \<Rightarrow> string \<Rightarrow> actor_config option \<Rightarrow> mat option \<Rightarrow> (real \<times> pg_metrics) result" where
  "compute_policy_loss_dppo_tv old_log_prob log_prob advantages response_mask loss_agg_mode config w =
     with_config config (\<lambda>cfg. dppo_loss (tv_valid (low_of cfg) (high_of cfg)) old_log_prob log_prob
       advantages response_mask loss_agg_mode cfg w)"

definition compute_policy_loss_dppo_kl ::
  "mat \<Rightarrow> mat \<Rightarrow> mat \<Rightarrow> mat \<Rightarrow> string \<Rightarrow> actor_config option \<Rightarrow> mat option \<Rightarrow> (real \<times> pg_metrics) result" where
  "compute_policy_loss_dppo_kl old_log_prob log_prob advantages response_mask loss_agg_mode config w =
     with_config config (\<lambda>cfg. dppo_loss (kl_valid (low_of cfg) (high_of cfg)) old_log_prob log_prob
       advantages response_mask loss_agg_mode cfg w)"

text \<open>GSPO: the sequence-level ratio, added to \<open>log_prob - log_prob.detach()\<close> and capped at \<open>exp 10\<close>.\<close>

definition gspo_seq_kl :: "vec \<Rightarrow> vec \<Rightarrow> vec \<Rightarrow> real" where
  "gspo_seq_kl old_row row ms =
     sum_list (map2 (*) (map2 (\<lambda>o_lp lp. lp - o_lp) old_row row) ms) / max (sum_list ms) 1"

definition gspo_ratio_row :: "vec \<Rightarrow> vec \<Rightarrow> vec \<Rightarrow> vec" where
  "gspo_ratio_row old_row row ms =
     map (\<lambda>lp. exp (min (lp - lp + gspo_seq_kl old_row row ms) 10)) row"

definition compute_policy_loss_gspo ::
  "mat \<Rightarrow> mat \<Rightarrow> mat \<Rightarrow> mat \<Rightarrow> string \<Rightarrow> actor_config option \<Rightarrow> mat option \<Rightarrow> (real \<times> pg_metrics) result" where
  "compute_policy_loss_gspo old_log_prob log_prob advantages response_mask loss_agg_mode config w =
     with_config config (\<lambda>cfg.
       (let ratio = map2 (\<lambda>(o_row, row) ms. gspo_ratio_row o_row row ms) (zip old_log_prob log_prob) response_mask;
            pg_losses = ew2 (clipped_loss (low_of cfg) (high_of cfg)) ratio advantages
        in rbind (agg_loss (apply_weights w pg_losses) response_mask ''seq-mean-token-mean''
                    (global_batch_info cfg)) (\<lambda>pg_loss.
             Inr (pg_loss,
               \<lparr>pg_clipfrac = masked_mean (ew2 (\<lambda>r a. indicator_of
                    (surrogate2 (low_of cfg) (high_of cfg) r a > surrogate1 r a)) ratio advantages) response_mask,
                ppo_kl = neg_kl_mean (\<lambda>o_lp lp. lp - o_lp) old_log_prob log_prob response_mask,
                pg_clipfrac_lower = 0\<rparr>))))"

definition sigmoid :: "real \<Rightarrow> real" where
  "sigmoid x = 1 / (1 + exp (- x))"

definition gate_function :: "real \<Rightarrow> real \<Rightarrow> real" where
  "gate_function tau x = sigmoid (tau * (x - 1)) * (4 / tau)"

definition sapo_token_loss :: "real \<Rightarrow> real \<Rightarrow> real \<Rightarrow> real \<Rightarrow> real" where
  "sapo_token_loss tp tn ratio adv = - gate_function (if adv > 0 then tp else tn) ratio * adv"

definition compute_policy_loss_sapo ::
  "mat \<Rightarrow> mat \<Rightarrow> mat \<Rightarrow> mat \<Rightarrow> string \<Rightarrow> actor_config option \<Rightarrow> mat option \<Rightarrow> (real \<times> pg_metrics) result" where
  "compute_policy_loss_sapo old_log_prob log_prob advantages response_mask loss_agg_mode config w =
     with_config config (\<lambda>cfg.
       (let pg_losses = ew3 (\<lambda>o_lp lp a. sapo_token_loss (tau_pos cfg) (tau_neg cfg)
                          (exp (approx_kl o_lp lp)) a) old_log_prob log_prob advantages
        in rbind (agg_loss (apply_weights w pg_losses) response_mask ''seq-mean-token-mean''
                    (global_batch_info cfg)) (\<lambda>pg_loss.
             Inr (pg_loss, \<lparr>pg_clipfrac = 0,
                ppo_kl = neg_kl_mean approx_kl old_log_prob log_prob response_mask,
                pg_clipfrac_lower = 0\<rparr>))))"

definition compute_policy_loss_gpg ::
  "mat \<Rightarrow> mat \<Rightarrow> mat \<Rightarrow> mat \<Rightarrow> string \<Rightarrow> actor_config option \<Rightarrow> mat option \<Rightarrow> real result" where
  "compute_policy_loss_gpg old_log_prob log_prob advantages response_mask loss_agg_mode config w =
     with_config config (\<lambda>cfg.
       agg_loss (apply_weights w (ew2 (\<lambda>lp a. - lp * a) log_prob advantages)) response_mask loss_agg_mode
         (global_batch_info cfg))"

definition compute_policy_loss_cispo ::
  "mat \<Rightarrow> mat \<Rightarrow> mat \<Rightarrow> mat \<Rightarrow> string \<Rightarrow> actor_config option \<Rightarrow> mat option \<Rightarrow> (real \<times> pg_metrics) result" where
  "compute_policy_loss_cispo old_log_prob log_prob advantages response_mask loss_agg_mode config w =
     with_config config (\<lambda>cfg.
       (let ratio = (\<lambda>o_lp lp. exp (approx_kl o_lp lp));
            clipped = (\<lambda>o_lp lp. clamp (1 - low_of cfg) (1 + high_of cfg) (ratio o_lp lp));
            pg_losses = ew3 (\<lambda>o_lp lp a. - clipped o_lp lp * a * lp) old_log_prob log_prob advantages
        in rbind (agg_loss (apply_weights w pg_losses) response_mask loss_agg_mode (global_batch_info cfg))
             (\<lambda>pg_loss. Inr (pg_loss,
               \<lparr>pg_clipfrac = masked_mean (ew2 (\<lambda>o_lp lp. indicator_of (ratio o_lp lp \<noteq> clipped o_lp lp))
                                old_log_prob log_prob) response_mask,
                ppo_kl = neg_kl_mean approx_kl old_log_prob log_prob response_mask,
                pg_clipfrac_lower = 0\<rparr>))))"

definition compute_policy_loss_reinforce ::
  "mat \<Rightarrow> mat \<Rightarrow> mat \<Rightarrow> mat \<Rightarrow> string \<Rightarrow> actor_config option \<Rightarrow> mat option \<Rightarrow> (real \<times> real) result" where
  "compute_policy_loss_reinforce rollout_log_prob log_prob advantages response_mask loss_agg_mode config w =
     with_config config (\<lambda>cfg.
       (let pg_losses = (case w of
                None \<Rightarrow> ew2 (\<lambda>a lp. - a * lp) advantages log_prob
              | Some ws \<Rightarrow> ew2 (*) (ew2 (\<lambda>a lp. - a * lp) advantages log_prob) ws)
        in rbind (agg_loss pg_losses response_mask loss_agg_mode (global_batch_info cfg)) (\<lambda>pg_loss.
             Inr (pg_loss, neg_kl_mean (\<lambda>o_lp lp. lp - o_lp) rollout_log_prob log_prob response_mask))))"

section \<open>Covariance clipping and the geometric mean\<close>

text \<open>
  The positions of a matrix in row-major order, as \<open>torch.nonzero\<close> lists them, and the assignment
  \<open>A[rows, cols] = v\<close>.
\<close>

definition positions :: "mat \<Rightarrow> (nat \<times> nat) list" where
  "positions A = concat (map (\<lambda>i. map (\<lambda>j. (i, j)) [0..<length (A ! i)]) [0..<length A])"

definition mat_at :: "'a list list \<Rightarrow> nat \<times> nat \<Rightarrow> 'a" where
  "mat_at A p = A ! fst p ! snd p"

definition imap_mat :: "(nat \<times> nat \<Rightarrow> 'a \<Rightarrow> 'b) \<Rightarrow> 'a list list \<Rightarrow> 'b list list" where
  "imap_mat f A = map (\<lambda>i. map (\<lambda>j. f (i, j) (A ! i ! j)) [0..<length (A ! i)]) [0..<length A]"

definition ratio_of :: "real \<Rightarrow> real \<Rightarrow> real" where
  "ratio_of o_lp lp = exp (lp - o_lp)"

text \<open>
  A covariance of \<open>-inf\<close> (a masked token, or one the clip already affects) fails the test
  \<open>cov_all > clip_cov_lb\<close>, so such a token is no candidate.
\<close>

definition cov_candidates :: "actor_config \<Rightarrow> mat \<Rightarrow> mat \<Rightarrow> mat \<Rightarrow> mat \<Rightarrow> (nat \<times> nat) list" where
  "cov_candidates cfg old_log_prob log_prob advantages response_mask =
     (let mean_a = masked_mean advantages response_mask;
          mean_lp = masked_mean log_prob response_mask;
          cov = (\<lambda>p. (mat_at advantages p - mean_a) * (mat_at log_prob p - mean_lp));
          r = (\<lambda>p. ratio_of (mat_at old_log_prob p) (mat_at log_prob p));
          clip_by_origin = (\<lambda>p. surrogate2 (low_of cfg) (high_of cfg) (r p) (mat_at advantages p)
                                 > surrogate1 (r p) (mat_at advantages p) \<and> mat_at response_mask p > 0)
      in filter (\<lambda>p. mat_at response_mask p > 0 \<and> \<not> clip_by_origin p \<and>
                   cov p < default_to 5 (clip_cov_ub cfg) \<and> cov p > default_to 1 (clip_cov_lb cfg))
           (positions advantages))"

definition clip_cov_num :: "actor_config \<Rightarrow> mat \<Rightarrow> nat" where
  "clip_cov_num cfg response_mask =
     nat (max (trunc_zero (default_to (1 / 5000) (clip_cov_ratio cfg) * mat_sum response_mask)) 1)"

definition clip_cov_corr :: "(nat \<Rightarrow> nat list) \<Rightarrow> nat \<Rightarrow> (nat \<times> nat) list \<Rightarrow> mat \<Rightarrow> mat" where
  "clip_cov_corr randperm clip_num cands advantages =
     (let top_k_idx = (if length cands > 0
                       then map (\<lambda>k. cands ! k) (take (min clip_num (length cands)) (randperm (length cands)))
                       else [])
      in imap_mat (\<lambda>p _. if p \<in> set top_k_idx then 0 else 1) advantages)"

definition compute_policy_loss_clip_cov ::
  "(nat \<Rightarrow> nat list) \<Rightarrow> mat \<Rightarrow> mat \<Rightarrow> mat \<Rightarrow> mat \<Rightarrow> string \<Rightarrow> actor_config option \<Rightarrow> mat option \<Rightarrow>
   (real \<times> real \<times> real) result" where
  "compute_policy_loss_clip_cov randperm old_log_prob log_prob advantages response_mask loss_agg_mode config w =
     with_config config (\<lambda>cfg.
       ensure (default_to (1 / 5000) (clip_cov_ratio cfg) > 0) AssertionError
        (let cands = cov_candidates cfg old_log_prob log_prob advantages response_mask;
             corr = clip_cov_corr randperm (clip_cov_num cfg response_mask) cands advantages;
             ratio = ew2 ratio_of old_log_prob log_prob;
             pg_losses = ew2 (*) (ew2 (clipped_loss (low_of cfg) (high_of cfg)) ratio advantages) corr
         in rbind (agg_loss (apply_weights w pg_losses) response_mask loss_agg_mode (global_batch_info cfg))
              (\<lambda>pg_loss. Inr (pg_loss,
                masked_mean (map_mat (\<lambda>x. indicator_of (x = 0)) corr) response_mask,
                neg_kl_mean (\<lambda>o_lp lp. lp - o_lp) old_log_prob log_prob response_mask))))"

definition vec_mean :: "vec \<Rightarrow> real" where
  "vec_mean xs = sum_list xs / real (length xs)"

text \<open>
  The tokens with the largest covariance get the KL term. \<open>torch.topk\<close> raises when asked for more
  elements than there are.
\<close>

definition kl_cov_chosen ::
  "(vec \<Rightarrow> nat \<Rightarrow> nat list) \<Rightarrow> real \<Rightarrow> mat \<Rightarrow> mat \<Rightarrow> mat \<Rightarrow> (nat \<times> nat) list result" where
  "kl_cov_chosen topk ratio log_prob advantages response_mask =
     (let all_valid_idx = filter (\<lambda>p. mat_at response_mask p > 0) (positions response_mask);
          adv = map (mat_at advantages) all_valid_idx;
          logp = map (mat_at log_prob) all_valid_idx
      in if min ratio (real (length adv)) \<noteq> 0
         then (let cov = map2 (\<lambda>a l. (a - vec_mean adv) * (l - vec_mean logp)) adv logp;
                   k = nat (max 1 (trunc_zero (real (length cov) * ratio)))
               in ensure (k \<le> length cov) RuntimeError
                    (Inr (map (\<lambda>i. all_valid_idx ! i) (topk cov k))))
         else Inr [])"

definition compute_policy_loss_kl_cov ::
  "(vec \<Rightarrow> nat \<Rightarrow> nat list) \<Rightarrow> mat \<Rightarrow> mat \<Rightarrow> mat \<Rightarrow> mat \<Rightarrow> string \<Rightarrow> actor_config option \<Rightarrow> mat option \<Rightarrow>
   (real \<times> real) result" where
  "compute_policy_loss_kl_cov topk old_log_prob log_prob advantages response_mask loss_agg_mode config w =
     with_config config (\<lambda>cfg.
       (let ratio = default_to (1 / 5000) (kl_cov_ratio cfg); coef = default_to 1 (ppo_kl_coef cfg)
        in ensure (ratio > 0) AssertionError
            (rbind (kl_cov_chosen topk ratio log_prob advantages response_mask) (\<lambda>chosen.
              (let pg_losses1 = ew3 (\<lambda>o_lp lp a. surrogate1 (ratio_of o_lp lp) a) old_log_prob log_prob advantages;
                   pg_losses_kl = ew3 (\<lambda>o_lp lp a. surrogate1 (ratio_of o_lp lp) a + coef * \<bar>lp - o_lp\<bar>)
                                    old_log_prob log_prob advantages;
                   pg_losses = imap_mat (\<lambda>p x. if p \<in> set chosen then mat_at pg_losses_kl p else x) pg_losses1
               in rbind (agg_loss (apply_weights w pg_losses) response_mask loss_agg_mode (global_batch_info cfg))
                    (\<lambda>pg_loss. Inr (pg_loss,
                       masked_mean (ew2 (\<lambda>o_lp lp. \<bar>lp - o_lp\<bar>) old_log_prob log_prob) response_mask)))))))"

text \<open>GMPO: a wider clip of the log-ratio, the geometric mean of the ratios, and a plain batch mean.\<close>

definition gmpo_kl_min :: "real \<Rightarrow> real \<Rightarrow> real \<Rightarrow> real \<Rightarrow> real" where
  "gmpo_kl_min low high nkl adv =
     sgn adv * min (sgn adv * nkl) (sgn adv * clamp (- low) high nkl)"

definition row_mean8 :: "vec \<Rightarrow> vec \<Rightarrow> real" where
  "row_mean8 xs ms = sum_list (map2 (*) xs ms) / (sum_list ms + 1 / 10 ^ 8)"

definition compute_policy_loss_geo_mean ::
  "mat \<Rightarrow> mat \<Rightarrow> mat \<Rightarrow> mat \<Rightarrow> string \<Rightarrow> actor_config option \<Rightarrow> mat option \<Rightarrow> (real \<times> pg_metrics) result" where
  "compute_policy_loss_geo_mean old_log_prob log_prob advantages response_mask loss_agg_mode config w =
     with_config config (\<lambda>cfg.
       (let nkl = ew2 (\<lambda>o_lp lp. lp - o_lp) old_log_prob log_prob;
            clipped = (\<lambda>x. x \<noteq> clamp (- low_of cfg) (high_of cfg) x);
            nkl_min = ew2 (gmpo_kl_min (low_of cfg) (high_of cfg)) nkl advantages;
            ratio = map2 (\<lambda>row ms. exp (row_mean8 row ms)) nkl_min response_mask;
            advantage = map2 row_mean8 advantages response_mask;
            pg_losses = map2 (\<lambda>a r. - a * r) advantage ratio;
            weighted = (case w of
                None \<Rightarrow> pg_losses
              | Some ws \<Rightarrow> map2 (*) pg_losses
                  (map2 (\<lambda>row ms. exp (row_mean8 (map (\<lambda>x. ln (x + 1 / 10 ^ 10)) row) ms)) ws response_mask))
        in Inr (vec_mean weighted,
             \<lparr>pg_clipfrac = masked_mean (ew2 (\<lambda>x a. indicator_of (clipped x \<and> a > 0)) nkl advantages) response_mask,
              ppo_kl = neg_kl_mean (\<lambda>o_lp lp. lp - o_lp) old_log_prob log_prob response_mask,
              pg_clipfrac_lower = masked_mean (ew2 (\<lambda>x a. indicator_of (clipped x \<and> a < 0)) nkl advantages)
                                    response_mask\<rparr>)))"

section \<open>Entropy, value and KL losses\<close>

definition compute_entropy_loss :: "vec list list \<Rightarrow> mat \<Rightarrow> string \<Rightarrow> real result" where
  "compute_entropy_loss logits response_mask loss_agg_mode =
     agg_loss (map_mat entropy_from_logits logits) response_mask loss_agg_mode default_info"

definition vf_loss1 :: "real \<Rightarrow> real \<Rightarrow> real" where
  "vf_loss1 vpred ret = (vpred - ret) ^ 2"

definition vf_loss2 :: "real \<Rightarrow> real \<Rightarrow> real \<Rightarrow> real \<Rightarrow> real" where
  "vf_loss2 cliprange_value vpred val ret =
     (clip_by_value vpred (val - cliprange_value) (val + cliprange_value) - ret) ^ 2"

definition compute_value_loss :: "mat \<Rightarrow> mat \<Rightarrow> mat \<Rightarrow> mat \<Rightarrow> real \<Rightarrow> string \<Rightarrow> (real \<times> real) result" where
  "compute_value_loss vpreds returns values response_mask cliprange_value loss_agg_mode =
     (let clipped_vf_losses = ew3 (\<lambda>vp v r. max (vf_loss1 vp r) (vf_loss2 cliprange_value vp v r))
                                vpreds values returns
      in rbind (agg_loss clipped_vf_losses response_mask loss_agg_mode default_info) (\<lambda>l.
           Inr (1 / 2 * l,
                masked_mean (ew3 (\<lambda>vp v r. indicator_of (vf_loss2 cliprange_value vp v r > vf_loss1 vp r))
                  vpreds values returns) response_mask)))"

text \<open>The KL estimators, on one token: the code applies them to whole tensors, elementwise.\<close>

definition kl_penalty_forward :: "real \<Rightarrow> real \<Rightarrow> string \<Rightarrow> real result" where
  "kl_penalty_forward logprob ref_logprob name =
     (if name = ''kl'' \<or> name = ''k1'' then Inr (logprob - ref_logprob)
      else if name = ''abs'' then Inr \<bar>logprob - ref_logprob\<bar>
      else if name = ''mse'' \<or> name = ''k2'' then Inr (1 / 2 * (logprob - ref_logprob) ^ 2)
      else if name = ''low_var_kl'' \<or> name = ''k3'' then
        (let kl = clamp (-20) 20 (ref_logprob - logprob)
         in Inr (clamp (-10) 10 (exp kl - kl - 1)))
      else if name = ''full'' then Inl NotImplementedError
      else Inl NotImplementedError)"

definition endswith_plus :: "string \<Rightarrow> bool" where
  "endswith_plus name \<longleftrightarrow> name \<noteq> [] \<and> last name = CHR ''+''"

definition kl_penalty :: "real \<Rightarrow> real \<Rightarrow> string \<Rightarrow> real result" where
  "kl_penalty logprob ref_logprob name =
     rbind (kl_penalty_forward logprob ref_logprob name) (\<lambda>forward_score.
       if \<not> endswith_plus name \<or> name = ''mse'' \<or> name = ''k2'' then Inr forward_score
       else (let backward_score = 1 / 2 * (logprob - ref_logprob) ^ 2
             in Inr (backward_score - backward_score + forward_score)))"

end
