(* ===== verification/Policy_Loss_Properties.thy ===== *)
theory Policy_Loss_Properties
  imports Policy_Losses
begin

text \<open>
  Properties of the losses of \<open>core_algos.py\<close>: when \<open>agg_loss\<close> raises and why its value does not
  depend on how the batch is sharded over data-parallel ranks; the closed form of the dual-clipped
  PPO token loss and what the registered losses do on policy; the soft trust region of SAPO; which
  tokens Clip-Cov and KL-Cov select; the range of the KL estimators; the clipped value loss.
\<close>

section \<open>Aggregation over ranks\<close>

definition agg_modes :: "string set" where
  "agg_modes = {''token-mean'', ''seq-mean-token-sum'', ''seq-mean-token-sum-norm'', ''seq-mean-token-mean''}"

definition seq_num :: "mat \<Rightarrow> mat \<Rightarrow> real" where
  "seq_num L M = row_masked_sum (seq_token_sums L M) (seq_mask_of M)"

definition seq_mean_num :: "mat \<Rightarrow> mat \<Rightarrow> real" where
  "seq_mean_num L M =
     row_masked_sum (map2 (\<lambda>s c. s / (c + 1 / 10 ^ 8)) (seq_token_sums L M) (map sum_list M)) (seq_mask_of M)"

lemma sum_list_scaled: "sum_list (map (\<lambda>x. f x / d * c) xs) = sum_list (map f xs) / d * (c :: real)"
  by (induction xs) (auto simp: add_divide_distrib distrib_right)

text \<open>
  The interface \<open>agg_loss\<close> relies on: a numerator that is a sum over the sequences of the batch.
\<close>

locale batch_additive =
  fixes num :: "mat \<Rightarrow> mat \<Rightarrow> real"
  assumes num_empty: "num [] [] = 0"
    and num_append: "length A = length M \<Longrightarrow> num (A @ B) (M @ N) = num A M + num B N"
begin

lemma num_concat:
  "\<forall>s\<in>set shards. length (fst s) = length (snd s) \<Longrightarrow>
   num (concat (map fst shards)) (concat (map snd shards)) = sum_list (map (\<lambda>s. num (fst s) (snd s)) shards)"
  by (induction shards) (auto simp: num_empty num_append)

lemma dp_mean:
  assumes "shards \<noteq> []" and "\<forall>s\<in>set shards. length (fst s) = length (snd s)"
  shows "vec_mean (map (\<lambda>s. num (fst s) (snd s) / d * real (length shards)) shards) =
     num (concat (map fst shards)) (concat (map snd shards)) / d"
  unfolding vec_mean_def length_map sum_list_scaled num_concat [OF assms(2)] using assms(1) by simp

end

lemma row_masked_sum_append:
  "length xs = length ms \<Longrightarrow> row_masked_sum (xs @ ys) (ms @ ns) = row_masked_sum xs ms + row_masked_sum ys ns"
  by (simp add: row_masked_sum_def)

lemma seq_token_sums_append:
  "length A = length M \<Longrightarrow> seq_token_sums (A @ B) (M @ N) = seq_token_sums A M @ seq_token_sums B N"
  by (simp add: seq_token_sums_def)

lemma seq_mask_of_append: "seq_mask_of (M @ N) = seq_mask_of M @ seq_mask_of N"
  by (simp add: seq_mask_of_def)

lemma length_seq_token_sums [simp]: "length (seq_token_sums A M) = min (length A) (length M)"
  by (simp add: seq_token_sums_def)

lemma length_seq_mask_of [simp]: "length (seq_mask_of M) = length M"
  by (simp add: seq_mask_of_def)

interpretation token_num: batch_additive masked_sum
  by unfold_locales (simp_all add: masked_sum_def)

interpretation seq_sum: batch_additive seq_num
  by unfold_locales (simp_all add: seq_num_def seq_token_sums_append seq_mask_of_append row_masked_sum_append,
    simp add: seq_token_sums_def seq_mask_of_def row_masked_sum_def)

interpretation seq_mean: batch_additive seq_mean_num
  by unfold_locales (simp_all add: seq_mean_num_def seq_token_sums_append seq_mask_of_append row_masked_sum_append,
    simp add: seq_token_sums_def seq_mask_of_def row_masked_sum_def)

text \<open>The four modes as one quotient: numerator, divisor and the count a rank needs.\<close>

definition agg_num :: "string \<Rightarrow> mat \<Rightarrow> mat \<Rightarrow> real" where
  "agg_num mode = (if mode = ''token-mean'' then masked_sum
                   else if mode = ''seq-mean-token-mean'' then seq_mean_num else seq_num)"

definition agg_count :: "string \<Rightarrow> batch_info \<Rightarrow> real option" where
  "agg_count mode info = (if mode = ''token-mean'' then batch_num_tokens info else global_batch_size info)"

lemma agg_modes_cases [consumes 1, case_names token seq_sum seq_norm seq_mean]:
  assumes "mode \<in> agg_modes"
  obtains "mode = ''token-mean''" | "mode = ''seq-mean-token-sum''" | "mode = ''seq-mean-token-sum-norm''"
    | "mode = ''seq-mean-token-mean''"
  using assms unfolding agg_modes_def insert_iff empty_iff by (elim disjE FalseE)

lemma agg_loss_given:
  assumes "mode \<in> agg_modes" and "agg_count mode info = Some n"
    and "mode = ''seq-mean-token-sum-norm'' \<Longrightarrow> loss_scale_factor info = Some f"
    and "mode \<noteq> ''seq-mean-token-sum-norm'' \<Longrightarrow> f = 1"
  shows "agg_loss L M mode info = Inr (agg_num mode L M / (n * f) * real (dp_size info))"
proof -
  from assms(1) show ?thesis
    using assms(2-4)
    by (cases rule: agg_modes_cases) (simp_all add: agg_loss_def agg_num_def agg_count_def required_count_def Let_def
        seq_num_def seq_mean_num_def)
qed

lemma agg_num_dp_mean:
  assumes "shards \<noteq> []" and "\<forall>s\<in>set shards. length (fst s) = length (snd s)"
  shows "vec_mean (map (\<lambda>s. agg_num mode (fst s) (snd s) / d * real (length shards)) shards) =
     agg_num mode (concat (map fst shards)) (concat (map snd shards)) / d"
  using token_num.dp_mean [OF assms] seq_sum.dp_mean [OF assms] seq_mean.dp_mean [OF assms]
  by (simp add: agg_num_def)

text \<open>
  C34: the aggregated loss does not depend on the data-parallel layout: when every rank gets the
  global counts and the number of ranks, the average over the ranks of the losses of their shards is
  the loss one process computes on the whole batch, in each of the four modes.
\<close>

theorem agg_loss_dp_invariant:
  assumes "shards \<noteq> []" and "\<forall>s\<in>set shards. length (fst s) = length (snd s)"
    and "mode \<in> agg_modes" and "batch_num_tokens info = Some n" and "global_batch_size info = Some g"
    and "mode = ''seq-mean-token-sum-norm'' \<longrightarrow> loss_scale_factor info = Some f"
  shows "\<exists>losses.
     mapM_result (\<lambda>s. agg_loss (fst s) (snd s) mode (info\<lparr>dp_size := length shards\<rparr>)) shards = Inr losses \<and>
     agg_loss (concat (map fst shards)) (concat (map snd shards)) mode (info\<lparr>dp_size := 1\<rparr>) =
       Inr (vec_mean losses)"
proof -
  define cnt where "cnt = (if mode = ''token-mean'' then n else g)"
  define fac where "fac = (if mode = ''seq-mean-token-sum-norm'' then f else 1)"
  have run: "agg_loss L M mode (info\<lparr>dp_size := k\<rparr>) = Inr (agg_num mode L M / (cnt * fac) * real k)" for L M k
    using assms agg_loss_given [of mode "info\<lparr>dp_size := k\<rparr>" cnt fac L M]
    by (simp add: agg_count_def cnt_def fac_def)
  show ?thesis
    using agg_num_dp_mean [OF assms(1,2), of mode "cnt * fac"] run
    by (simp add: mapM_result_Inr)
qed

lemma agg_loss_dp_invariant_witness:
  "\<exists>losses. mapM_result (\<lambda>s. agg_loss (fst s) (snd s) ''token-mean''
        (default_info\<lparr>batch_num_tokens := Some 3, global_batch_size := Some 2, dp_size := 2\<rparr>))
      [([[1, 2]], [[1, 1]]), ([[5, 7]], [[1, 0]])] = Inr losses \<and>
     agg_loss [[1, 2], [5, 7]] [[1, 1], [1, 0]] ''token-mean''
        (default_info\<lparr>batch_num_tokens := Some 3, global_batch_size := Some 2, dp_size := 1\<rparr>) =
       Inr (vec_mean losses)"
  using agg_loss_dp_invariant [of "[([[1, 2]], [[1, 1]]), ([[5, 7]], [[1, 0]])]" "''token-mean''"
      "default_info\<lparr>batch_num_tokens := Some 3, global_batch_size := Some 2\<rparr>" 3 2]
  by (simp add: agg_modes_def numeral_2_eq_2)

text \<open>
  \<open>agg_loss\<close> raises, always a \<open>ValueError\<close>, exactly for an unknown mode or for more than one
  rank without the global count its mode needs.
\<close>

theorem agg_loss_error:
  "raised (agg_loss L M mode info) =
     (if mode \<in> agg_modes
      then (if dp_size info > 1 \<and> agg_count mode info = None then Some ValueError else None)
      else Some ValueError)"
proof (cases "mode \<in> agg_modes")
  case True
  then show ?thesis
    by (cases rule: agg_modes_cases) (simp_all add: agg_loss_def agg_modes_def agg_count_def required_count_def ensure_def Let_def
        split: option.split)
next
  case False
  then show ?thesis by (simp add: agg_loss_def agg_modes_def)
qed

section \<open>The dual-clipped loss\<close>

lemma clamp_cases:
  "lo \<le> hi \<Longrightarrow> clamp lo hi x = (if x < lo then lo else if hi < x then hi else x)"
  by (simp add: clamp_def min_def max_def)

lemma clamp_within: "lo \<le> hi \<Longrightarrow> lo \<le> clamp lo hi x \<and> clamp lo hi x \<le> hi"
  by (simp add: clamp_def)

lemma clamp_id: "lo \<le> x \<Longrightarrow> x \<le> hi \<Longrightarrow> clamp lo hi x = x"
  by (simp add: clamp_def)

lemma neg_mult_max:
  assumes "0 \<le> a"
  shows "max (- a * x) (- a * y) = - a * min x (y :: real)"
proof (cases "x \<le> y")
  case True
  then show ?thesis using mult_left_mono [OF True assms] by (simp add: max_def)
next
  case False
  then have "y \<le> x" by simp
  then show ?thesis using mult_left_mono [OF \<open>y \<le> x\<close> assms] by (simp add: max_def)
qed

lemma neg_mult_max_neg: "a < 0 \<Longrightarrow> max (- a * x) (- a * y) = - a * max x (y :: real)"
  by (simp add: max_def mult_le_cancel_left)

lemma neg_mult_min_neg: "a < 0 \<Longrightarrow> min (- a * x) (- a * y) = - a * min x (y :: real)"
  by (simp add: min_def mult_le_cancel_left)

text \<open>
  The token loss of dual-clip PPO in closed form. A token with a non-negative advantage
  contributes \<open>- A min(r, 1 + high)\<close>; one with a negative advantage contributes
  \<open>- A min(c, max(r, 1 - low))\<close>, so its loss lies between \<open>- A (1 - low)\<close> and \<open>- A c\<close> and its slope in
  the ratio is zero outside \<open>[1 - low, c]\<close>.
\<close>

theorem dual_clip_closed_form:
  assumes "- low \<le> high" and "1 - low \<le> c"
  shows "dual_clip_loss low high c r a =
       (if a < 0 then - a * min c (max r (1 - low)) else - a * min r (1 + high)) \<and>
     (a < 0 \<longrightarrow> - a * (1 - low) \<le> dual_clip_loss low high c r a \<and> dual_clip_loss low high c r a \<le> - a * c) \<and>
     (0 \<le> a \<longrightarrow> - a * (1 + high) \<le> dual_clip_loss low high c r a)"
proof -
  have "max r (clamp (1 - low) (1 + high) r) = max r (1 - low)"
    and "min r (clamp (1 - low) (1 + high) r) = min r (1 + high)"
    using assms by (auto simp: clamp_def min_def max_def)
  then have closed: "dual_clip_loss low high c r a =
      (if a < 0 then - a * min c (max r (1 - low)) else - a * min r (1 + high))"
    using neg_mult_max [of a] neg_mult_max_neg [of a] neg_mult_min_neg [of a]
    by (simp add: dual_clip_loss_def clipped_loss_def surrogate1_def surrogate2_def)
  have "- a * (1 - low) \<le> - a * min c (max r (1 - low)) \<and> - a * min c (max r (1 - low)) \<le> - a * c"
    if "a < 0" using that assms by (intro conjI mult_left_mono) auto
  moreover have "- a * (1 + high) \<le> - a * min r (1 + high)" if "0 \<le> a"
    using that by (intro mult_left_mono_neg) auto
  ultimately show ?thesis unfolding closed by auto
qed

lemma dual_clip_closed_form_witness:
  "dual_clip_loss (1 / 5) (1 / 5) 3 10 (- 1) = 3 \<and> dual_clip_loss (1 / 5) (1 / 5) 3 10 2 = - (12 / 5)"
  using dual_clip_closed_form [of "1 / 5" "1 / 5" 3 10 "- 1"] dual_clip_closed_form [of "1 / 5" "1 / 5" 3 10 2]
  by simp

section \<open>Losses on policy\<close>

lemma ew2_diag: "ew2 f A A = map_mat (\<lambda>x. f x x) A"
  by (simp add: ew2_def map_mat_def map2_map_map [of _ "\<lambda>x. x" _ "\<lambda>x. x", simplified])

lemma map2_const_left: "length xs = length ys \<Longrightarrow> map2 f (map (\<lambda>_. c) xs) ys = map (f c) ys"
  by (induction xs ys rule: list_induct2) auto

lemma ew2_const_left:
  assumes "same_shape A B"
  shows "ew2 f (map_mat (\<lambda>_. c) A) B = map_mat (f c) B"
proof (rule nth_equalityI)
  show "length (ew2 f (map_mat (\<lambda>_. c) A) B) = length (map_mat (f c) B)"
    using same_shape_length [OF assms] by (simp add: map_mat_def)
  fix i
  assume "i < length (ew2 f (map_mat (\<lambda>_. c) A) B)"
  then have i: "i < length A" "i < length B" by (simp_all add: map_mat_def)
  then show "ew2 f (map_mat (\<lambda>_. c) A) B ! i = map_mat (f c) B ! i"
    using same_shape_nth [OF assms i(1)]
    by (simp add: map_mat_def ew2_nth map2_const_left)
qed

lemma row_masked_sum_zero: "row_masked_sum (map (\<lambda>_. 0) xs) ms = 0"
proof (induction xs arbitrary: ms)
  case (Cons x xs)
  then show ?case by (cases ms) (auto simp: row_masked_sum_def masked_value_def)
qed (simp add: row_masked_sum_def)

lemma masked_mean_zero: "masked_mean (map_mat (\<lambda>_. 0) A) M = 0"
proof -
  have "masked_sum (map_mat (\<lambda>_. 0) A) M = 0"
  proof (induction A arbitrary: M)
    case (Cons row A)
    then show ?case
      by (cases M) (auto simp: masked_sum_def map_mat_def row_masked_sum_zero)
  qed (simp add: masked_sum_def map_mat_def)
  then show ?thesis by (simp add: masked_mean_def)
qed

lemma approx_kl_same [simp]: "approx_kl x x = 0"
  by (simp add: approx_kl_def clamp_def)

lemma ppo_parts_on_policy:
  assumes "0 \<le> low" and "0 \<le> high" and "1 < c" and "same_shape lp A"
  shows "ppo_parts low high c lp lp A M =
     (map_mat uminus A, \<lparr>pg_clipfrac = 0, ppo_kl = 0, pg_clipfrac_lower = 0\<rparr>)"
proof -
  have clip: "clamp (1 - low) (1 + high) 1 = 1" using assms by (intro clamp_id) auto
  have tok: "dual_clip_loss low high c 1 a = - a" for a
  proof (cases "a < 0")
    case True
    then have "- a \<le> - a * c" using assms(3) mult_left_mono [of 1 c "- a"] by simp
    with True show ?thesis
      by (simp add: dual_clip_loss_def clipped_loss_def surrogate1_def surrogate2_def clip)
  qed (simp add: dual_clip_loss_def clipped_loss_def surrogate1_def surrogate2_def clip)
  have low: "indicator_of (clipped_loss low high 1 a > - (a * c)) * indicator_of (a < 0) = 0" for a
  proof (cases "a < 0")
    case True
    then have "- a \<le> - a * c" using assms(3) mult_left_mono [of 1 c "- a"] by simp
    then show ?thesis
      by (simp add: indicator_of_def clipped_loss_def surrogate1_def surrogate2_def clip)
  qed (simp add: indicator_of_def)
  have frac: "indicator_of (surrogate2 low high 1 a > surrogate1 1 a) = 0" for a
    by (simp add: indicator_of_def surrogate1_def surrogate2_def clip)
  have "dual_clip_loss low high c 1 = uminus" by (rule ext) (rule tok)
  then show ?thesis
    using assms(4)
    by (simp add: ppo_parts_def ew2_diag ew2_const_left low frac masked_mean_zero neg_kl_mean_def)
qed

text \<open>
  On policy, where the two log-probabilities agree, the vanilla loss is the aggregated negative
  advantage: nothing is clipped and all three metrics are zero.
\<close>

theorem vanilla_on_policy:
  assumes "0 \<le> low_of cfg" and "0 \<le> high_of cfg" and "1 < default_to 3 (clip_ratio_c cfg)"
    and "same_shape lp A"
  shows "compute_policy_loss_vanilla lp lp A M mode (Some cfg) None =
     rbind (agg_loss (map_mat uminus A) M mode (global_batch_info cfg)) (\<lambda>loss.
       Inr (loss, \<lparr>pg_clipfrac = 0, ppo_kl = 0, pg_clipfrac_lower = 0\<rparr>))"
  using ppo_parts_on_policy [OF assms]
  by (simp add: compute_policy_loss_vanilla_def with_config_def apply_weights_def assms(3) Let_def)

definition example_config :: actor_config where
  "example_config = \<lparr>clip_ratio = 1 / 5, clip_ratio_low = None, clip_ratio_high = None, clip_ratio_c = None,
     tau_pos = 1, tau_neg = 1, clip_cov_ratio = None, clip_cov_lb = None, clip_cov_ub = None,
     kl_cov_ratio = None, ppo_kl_coef = None, global_batch_info = default_info\<rparr>"

lemma vanilla_on_policy_witness:
  "compute_policy_loss_vanilla [[- 1, - 2]] [[- 1, - 2]] [[1, - 3]] [[1, 1]] ''token-mean''
      (Some example_config) None = Inr (1, \<lparr>pg_clipfrac = 0, ppo_kl = 0, pg_clipfrac_lower = 0\<rparr>)"
proof -
  have shape: "same_shape [[- 1, - 2 :: real]] [[1, - 3 :: real]]" by (simp add: same_shape_def)
  have agg: "agg_loss (map_mat uminus [[1, - 3]]) [[1, 1]] ''token-mean'' default_info = Inr 1"
    by (simp add: agg_loss_def required_count_def default_info_def mat_sum_def masked_sum_def
        row_masked_sum_def masked_value_def map_mat_def)
  show ?thesis
    using vanilla_on_policy [OF _ _ _ shape, of example_config "[[1, 1]]" "''token-mean''"] agg
    by (simp add: low_of_def high_of_def default_to_def example_config_def)
qed

text \<open>
  The deprecated \<open>compute_policy_loss\<close> computes what the registered \<open>vanilla\<close> loss computes for
  the same clip ranges without global batch counts.
\<close>

theorem deprecated_is_vanilla:
  "compute_policy_loss old_lp lp A M (Some clip) lo hi c mode =
   compute_policy_loss_vanilla old_lp lp A M mode
     (Some (example_config\<lparr>clip_ratio := clip, clip_ratio_low := lo, clip_ratio_high := hi,
        clip_ratio_c := Some c\<rparr>)) None"
  by (cases lo; cases hi)
     (simp_all add: compute_policy_loss_def compute_policy_loss_vanilla_def with_config_def low_of_def
        high_of_def default_to_def apply_weights_def example_config_def Let_def)

section \<open>The soft gate of SAPO\<close>

lemma sigmoid_bounds: "0 < sigmoid x" "sigmoid x < 1"
  by (simp_all add: sigmoid_def add_pos_pos)

lemma sigmoid_deriv: "(sigmoid has_real_derivative sigmoid x * (1 - sigmoid x)) (at x)"
proof -
  have pos: "1 + exp (- x) \<noteq> 0" using exp_gt_zero [of "- x"] by linarith
  have "((\<lambda>x. 1 / (1 + exp (- x))) has_real_derivative exp (- x) / (1 + exp (- x)) ^ 2) (at x)"
    using pos by (auto intro!: derivative_eq_intros simp: power2_eq_square)
  moreover have "exp (- x) / (1 + exp (- x)) ^ 2 = sigmoid x * (1 - sigmoid x)"
    using pos by (simp add: sigmoid_def field_simps power2_eq_square)
  ultimately show ?thesis by (simp add: sigmoid_def [abs_def])
qed

text \<open>
  The gate of SAPO for a positive temperature is positive and below \<open>4 / tau\<close>, its slope in the
  ratio is \<open>4 s (1 - s)\<close> for the sigmoid value \<open>s\<close>, hence positive and at most one, and it is exactly
  one at ratio one: a soft trust region around the old policy.
\<close>

theorem sapo_gate_soft_trust_region:
  assumes "0 < tau"
  shows "0 < gate_function tau r \<and> gate_function tau r < 4 / tau \<and>
     (let s = sigmoid (tau * (r - 1))
      in (gate_function tau has_real_derivative 4 * s * (1 - s)) (at r) \<and> 0 < 4 * s * (1 - s) \<and>
         4 * s * (1 - s) \<le> 1) \<and>
     (gate_function tau has_real_derivative 1) (at 1)"
proof -
  let ?s = "\<lambda>r. sigmoid (tau * (r - 1))"
  have deriv: "(gate_function tau has_real_derivative 4 * ?s r * (1 - ?s r)) (at r)" for r
  proof -
    have "((\<lambda>x. sigmoid (tau * (x - 1))) has_real_derivative (?s r * (1 - ?s r)) * tau) (at r)"
      by (rule DERIV_chain2 [OF sigmoid_deriv]) (auto intro!: derivative_eq_intros)
    then have "((\<lambda>x. sigmoid (tau * (x - 1)) * (4 / tau)) has_real_derivative
        (?s r * (1 - ?s r)) * tau * (4 / tau)) (at r)"
      by (rule DERIV_cmult_right)
    moreover have "(?s r * (1 - ?s r)) * tau * (4 / tau) = 4 * ?s r * (1 - ?s r)"
      using assms by (simp add: field_simps)
    ultimately show ?thesis by (simp add: gate_function_def [abs_def])
  qed
  have "4 * ?s r * (1 - ?s r) \<le> 1" for r
    using zero_le_power2 [of "2 * ?s r - 1"] by (simp add: power2_eq_square algebra_simps)
  moreover have "0 < 4 * ?s r * (1 - ?s r)" for r
    using sigmoid_bounds [of "tau * (r - 1)"] by simp
  moreover have "gate_function tau r < 4 / tau"
    using sigmoid_bounds(2) [of "tau * (r - 1)"] mult_strict_right_mono [of "?s r" 1 "4 / tau"] assms
    by (simp add: gate_function_def)
  moreover have "0 < gate_function tau r"
    using sigmoid_bounds(1) [of "tau * (r - 1)"] assms by (simp add: gate_function_def)
  moreover have "(gate_function tau has_real_derivative 1) (at 1)"
    using deriv [of 1] by (simp add: sigmoid_def)
  ultimately show ?thesis using deriv [of r] by (simp add: Let_def)
qed

lemma sapo_gate_soft_trust_region_witness:
  "gate_function 1 5 < 4 \<and> (gate_function 1 has_real_derivative 1) (at 1)"
  using sapo_gate_soft_trust_region [of 1 5] by simp

section \<open>Covariance selection\<close>

lemma positions_set: "set (positions A) = {(i, j). i < length A \<and> j < length (A ! i)}"
  by (auto simp: positions_def)

lemma distinct_positions: "distinct (positions A)"
proof -
  have "distinct (concat (map (\<lambda>i. map (\<lambda>j. (i, j)) [0..<length (A ! i)]) ks))" if "distinct ks" for ks
    using that by (induction ks) (auto simp: distinct_map inj_on_def)
  then show ?thesis by (simp add: positions_def)
qed

lemma mat_at_imap:
  assumes "p \<in> set (positions A)"
  shows "mat_at (imap_mat f A) p = f p (mat_at A p)"
  using assms by (auto simp: positions_set mat_at_def imap_mat_def)

text \<open>
  Clip-Cov zeroes the factor of exactly \<open>min(clip_num, candidates)\<close> tokens, whatever the random
  permutation: each one is selected by the response mask, has a covariance strictly between the two
  bounds and is not already affected by the ratio clip; every other token keeps the factor one.
\<close>

theorem clip_cov_zeroes_candidates:
  fixes old_lp lp A M :: mat and cfg :: actor_config
  defines "cands \<equiv> cov_candidates cfg old_lp lp A M"
  assumes "distinct (randperm (length cands))" and "set (randperm (length cands)) = {..<length cands}"
  shows "let corr = clip_cov_corr randperm (clip_cov_num cfg M) cands A;
             zeroed = filter (\<lambda>p. mat_at corr p = 0) (positions A)
         in length zeroed = min (clip_cov_num cfg M) (length cands) \<and> set zeroed \<subseteq> set cands \<and>
            (\<forall>p\<in>set zeroed. mat_at M p > 0) \<and>
            (\<forall>p\<in>set (positions A) - set zeroed. mat_at corr p = 1)"
proof -
  define n where "n = length cands"
  define num where "num = clip_cov_num cfg M"
  define chosen where
    "chosen = (if n > 0 then map (\<lambda>k. cands ! k) (take (min num n) (randperm n)) else [])"
  define corr where "corr = clip_cov_corr randperm num cands A"
  have cands: "distinct cands" "set cands \<subseteq> set (positions A)" "\<forall>p\<in>set cands. mat_at M p > 0"
    by (auto simp: cands_def cov_candidates_def Let_def distinct_positions)
  have len_perm: "length (randperm n) = n"
    using assms(2,3) distinct_card [of "randperm n"] by (simp add: n_def)
  have in_range: "set (take k (randperm n)) \<subseteq> {..<n}" for k
    using assms(3) set_take_subset [of k "randperm n"] by (simp add: n_def)
  have chosen: "distinct chosen" "set chosen \<subseteq> set cands" "length chosen = min num n"
  proof -
    have inj: "inj_on (\<lambda>k. cands ! k) (set (take (min num n) (randperm n)))"
      using in_range by (intro inj_on_nth [OF cands(1)]) (auto simp: n_def)
    have "distinct (randperm n)" using assms(2) by (simp add: n_def)
    then have "distinct (map (\<lambda>k. cands ! k) (take (min num n) (randperm n)))"
      unfolding distinct_map using inj by simp
    then show "distinct chosen" by (simp add: chosen_def)
    show "set chosen \<subseteq> set cands" using in_range [of "min num n"] by (auto simp: chosen_def n_def)
    show "length chosen = min num n" using len_perm by (auto simp: chosen_def)
  qed
  have corr_eq: "corr = imap_mat (\<lambda>p _. if p \<in> set chosen then 0 else 1) A"
    unfolding corr_def clip_cov_corr_def chosen_def n_def Let_def by simp
  have corr_at: "mat_at corr p = (if p \<in> set chosen then 0 else 1)" if "p \<in> set (positions A)" for p
    unfolding corr_eq mat_at_imap [OF that] ..
  have set_zeroed: "set (filter (\<lambda>p. mat_at corr p = 0) (positions A)) = set chosen"
    using corr_at chosen(2) cands(2) by (auto split: if_splits)
  then have len: "length (filter (\<lambda>p. mat_at corr p = 0) (positions A)) = min num n"
    using distinct_card [OF chosen(1)] distinct_card [of "filter (\<lambda>p. mat_at corr p = 0) (positions A)"]
      distinct_positions [of A] chosen(3) by simp
  have "\<forall>p\<in>set chosen. mat_at M p > 0" using chosen(2) cands(3) by blast
  moreover have "\<forall>p\<in>set (positions A) - set chosen. mat_at corr p = 1" using corr_at by simp
  ultimately show ?thesis
    unfolding Let_def corr_def [symmetric] num_def [symmetric] n_def [symmetric] set_zeroed
    using len chosen(2) by blast
qed

lemma clip_cov_zeroes_candidates_witness:
  "length (filter (\<lambda>p. mat_at (clip_cov_corr (\<lambda>n. [0..<n]) (clip_cov_num example_config [[1, 1, 1]])
       (cov_candidates example_config [[0, 0, 0]] [[0, 0, 0]] [[1, 2, 3]] [[1, 1, 1]]) [[1, 2, 3]]) p = 0)
     (positions [[1, 2, 3]])) =
   min (clip_cov_num example_config [[1, 1, 1]])
     (length (cov_candidates example_config [[0, 0, 0]] [[0, 0, 0]] [[1, 2, 3]] [[1, 1, 1]]))"
proof -
  have "set [0..<n] = {..<n}" for n by auto
  from clip_cov_zeroes_candidates [where randperm = "\<lambda>n. [0..<n]" and cfg = example_config and
        old_lp = "[[0, 0, 0]]" and lp = "[[0, 0, 0]]" and A = "[[1, 2, 3]]" and M = "[[1, 1, 1]]",
        OF distinct_upt this, unfolded Let_def]
  show ?thesis by (rule conjunct1)
qed

lemma nat_max_one: "nat (max 1 x) = max 1 (nat x)"
  by (simp add: max_def) linarith

lemma trunc_zero_le: "0 \<le> x \<Longrightarrow> x \<le> real n \<Longrightarrow> nat (trunc_zero x) \<le> n"
  by (simp add: trunc_zero_def) linarith

text \<open>
  KL-Cov with a ratio in \<open>(0, 1]\<close> never asks \<open>topk\<close> for more tokens than there are: it selects
  \<open>max(1, int(n * ratio))\<close> of the \<open>n\<close> valid tokens, all of them selected by the response mask, and
  none when there is no valid token.
\<close>

theorem kl_cov_selects_valid:
  fixes M :: mat
  defines "n \<equiv> length (filter (\<lambda>p. mat_at M p > 0) (positions M))"
  assumes "0 < ratio" and "ratio \<le> 1"
    and topk: "\<And>xs k. k \<le> length xs \<Longrightarrow> length (topk xs k) = k \<and> set (topk xs k) \<subseteq> {..<length xs}"
  shows "\<exists>chosen. kl_cov_chosen topk ratio lp A M = Inr chosen \<and>
     length chosen = (if n = 0 then 0 else max 1 (nat (trunc_zero (real n * ratio)))) \<and>
     (\<forall>p\<in>set chosen. mat_at M p > 0)"
proof -
  define idx where "idx = filter (\<lambda>p. mat_at M p > 0) (positions M)"
  have n: "n = length idx" by (simp add: n_def idx_def)
  show ?thesis
  proof (cases "n = 0")
    case True
    then have "kl_cov_chosen topk ratio lp A M = Inr []"
      using assms(2) by (simp add: kl_cov_chosen_def idx_def [symmetric] n Let_def min_def)
    with True show ?thesis by simp
  next
    case False
    define cov where "cov = map2 (\<lambda>a l. (a - vec_mean (map (mat_at A) idx)) * (l - vec_mean (map (mat_at lp) idx)))
      (map (mat_at A) idx) (map (mat_at lp) idx)"
    define k where "k = nat (max 1 (trunc_zero (real n * ratio)))"
    have len: "length cov = n" by (simp add: cov_def n)
    have "real n * ratio \<le> real n" using assms(3) mult_left_mono [of ratio 1 "real n"] by simp
    then have k: "k \<le> length cov"
      using trunc_zero_le [of "real n * ratio" n] assms(2) False len by (simp add: k_def)
    have "min ratio (real n) \<noteq> 0" using assms(2) False by (simp add: min_def)
    then have run: "kl_cov_chosen topk ratio lp A M = Inr (map (\<lambda>i. idx ! i) (topk cov k))"
      using k by (simp add: kl_cov_chosen_def idx_def [symmetric] Let_def n cov_def k_def)
    have "\<forall>p\<in>set idx. mat_at M p > 0" by (simp add: idx_def)
    then have "\<forall>p\<in>set (map (\<lambda>i. idx ! i) (topk cov k)). mat_at M p > 0"
      using topk [OF k] len n by (auto simp: subset_iff)
    then show ?thesis using run topk [OF k] False by (simp add: k_def nat_max_one)
  qed
qed

lemma kl_cov_selects_valid_witness:
  "\<exists>chosen. kl_cov_chosen (\<lambda>xs k. [0..<k]) (1 / 2) [[- 1, - 2]] [[1, 3]] [[1, 1]] = Inr chosen \<and>
     (\<forall>p\<in>set chosen. mat_at [[1, 1 :: real]] p > 0)"
  by (rule exE [OF kl_cov_selects_valid [where ratio = "1 / 2" and topk = "\<lambda>xs k. [0..<k]" and
        M = "[[1, 1]]" and lp = "[[- 1, - 2]]" and A = "[[1, 3]]"]]) (simp, simp, simp add: subset_iff, elim conjE, intro exI conjI)

section \<open>KL estimators, value loss and entropy loss\<close>

lemma exp_minus_linear:
  fixes x :: real
  shows "0 \<le> exp x - x - 1" and "exp x - x - 1 = 0 \<longleftrightarrow> x = 0"
proof -
  show "0 \<le> exp x - x - 1" using exp_ge_add_one_self [of x] by linarith
  have "x = 0" if "exp x - x - 1 = 0"
  proof (rule ccontr)
    assume "x \<noteq> 0"
    have half: "1 + x / 2 \<le> exp (x / 2)" by (rule exp_ge_add_one_self)
    have sq: "exp x = exp (x / 2) ^ 2" by (simp add: power2_eq_square exp_add [symmetric])
    show False
    proof (cases "0 \<le> 1 + x / 2")
      case True
      then have "(1 + x / 2) ^ 2 \<le> exp x" unfolding sq using half by (intro power_mono)
      moreover have "(1 + x / 2) ^ 2 = 1 + x + (x / 2) ^ 2" by (simp add: power2_eq_square algebra_simps)
      moreover have "0 < (x / 2) ^ 2" using \<open>x \<noteq> 0\<close> by simp
      ultimately show False using that by linarith
    next
      case False
      then show False using that exp_gt_zero [of x] by linarith
    qed
  qed
  then show "exp x - x - 1 = 0 \<longleftrightarrow> x = 0" by auto
qed

text \<open>
  Every KL estimate of the code is non-negative except \<open>k1\<close>, the \<open>k3\<close> estimate stays within
  \<open>[0, 10]\<close>, and each of them is zero exactly when the two log-probabilities are equal.
\<close>

theorem kl_estimators:
  assumes "kl_penalty_forward lp ref name = Inr kl"
  shows "(kl = 0 \<longleftrightarrow> lp = ref) \<and> (name \<notin> {''kl'', ''k1''} \<longrightarrow> 0 \<le> kl) \<and>
     (name \<in> {''low_var_kl'', ''k3''} \<longrightarrow> kl \<le> 10)"
proof -
  define d where "d = clamp (- 20) 20 (ref - lp)"
  have d0: "d = 0 \<longleftrightarrow> lp = ref" by (auto simp: d_def clamp_def min_def max_def)
  have clamp10: "clamp (- 10) 10 y = min y 10" if "0 \<le> y" for y using that by (simp add: clamp_def)
  have k3_min: "clamp (- 10) 10 (exp d - d - 1) = min (exp d - d - 1) 10"
    using exp_minus_linear(1) by (rule clamp10)
  then have k3_zero: "clamp (- 10) 10 (exp d - d - 1) = 0 \<longleftrightarrow> lp = ref"
    using exp_minus_linear(2) [of d] d0 by (auto simp: min_def)
  from assms consider (k1) "name = ''kl'' \<or> name = ''k1''" "kl = lp - ref"
    | (abs) "name = ''abs''" "kl = \<bar>lp - ref\<bar>"
    | (mse) "name = ''mse'' \<or> name = ''k2''" "kl = 1 / 2 * (lp - ref) ^ 2"
    | (k3) "name = ''low_var_kl'' \<or> name = ''k3''" "kl = clamp (- 10) 10 (exp d - d - 1)"
    unfolding kl_penalty_forward_def d_def Let_def by (simp split: if_splits)
  then show ?thesis
  proof cases
    case k1
    then show ?thesis by (elim disjE) simp_all
  next
    case abs
    then show ?thesis by simp
  next
    case mse
    have "0 \<le> kl \<and> (kl = 0 \<longleftrightarrow> lp = ref)" unfolding mse(2) by simp
    with mse(1) show ?thesis by (elim disjE) simp_all
  next
    case k3
    then have "0 \<le> kl \<and> kl \<le> 10 \<and> (kl = 0 \<longleftrightarrow> lp = ref)"
      using k3_zero k3_min exp_minus_linear(1) [of d] by simp
    with k3(1) show ?thesis by (elim disjE) simp_all
  qed
qed

lemma kl_estimators_witness:
  "\<exists>kl. kl_penalty_forward (- 1) (- 2) ''k3'' = Inr kl \<and> 0 \<le> kl \<and> kl \<le> 10 \<and> kl \<noteq> 0"
proof -
  obtain kl where run: "kl_penalty_forward (- 1) (- 2) ''k3'' = Inr kl"
    by (simp add: kl_penalty_forward_def Let_def)
  from kl_estimators [OF run] run show ?thesis by simp
qed

text \<open>
  No name that ends with a plus sign is a KL penalty: the straight-through branch of
  \<open>kl_penalty\<close>, written for such names, is unreachable because the forward pass is called with the
  unstripped name and raises \<open>NotImplementedError\<close>.
\<close>

theorem kl_straight_through_unreachable:
  assumes "endswith_plus name"
  shows "kl_penalty lp ref name = Inl NotImplementedError"
proof -
  from assms have "last name = CHR ''+''" by (simp add: endswith_plus_def)
  then have "name \<notin> {''kl'', ''k1'', ''abs'', ''mse'', ''k2'', ''low_var_kl'', ''k3''}" by auto
  then show ?thesis by (simp add: kl_penalty_def kl_penalty_forward_def)
qed

lemma kl_straight_through_unreachable_witness: "kl_penalty 0 1 ''k3+'' = Inl NotImplementedError"
  using kl_straight_through_unreachable [of "''k3+''" 0 1] by (simp add: endswith_plus_def)

lemma ew3_cong:
  assumes "\<And>i j. i < length A \<Longrightarrow> i < length B \<Longrightarrow> i < length C \<Longrightarrow> j < length (A ! i) \<Longrightarrow>
     j < length (B ! i) \<Longrightarrow> j < length (C ! i) \<Longrightarrow>
     f (A ! i ! j) (B ! i ! j) (C ! i ! j) = g (A ! i ! j) (B ! i ! j) (C ! i ! j)"
  shows "ew3 f A B C = ew3 g A B C"
proof (rule nth_equalityI)
  fix i
  assume "i < length (ew3 f A B C)"
  then have i: "i < length A" "i < length B" "i < length C" by (simp_all add: ew3_def)
  then show "ew3 f A B C ! i = ew3 g A B C ! i"
    using assms [OF i] by (auto simp: ew3_def ew2_nth intro!: nth_equalityI)
qed (simp add: ew3_def)

lemma ew3_zero_mean: "masked_mean (ew3 (\<lambda>_ _ _. 0) A B C) M = 0"
proof -
  have "ew3 (\<lambda>_ _ _. 0 :: real) A B C = map_mat (\<lambda>_. 0) (ew3 (\<lambda>_ _ _. 0 :: real) A B C)"
    by (rule nth_equalityI) (auto simp: ew3_def map_mat_def ew2_nth in_set_zip)
  then show ?thesis using masked_mean_zero [of "ew3 (\<lambda>_ _ _. 0 :: real) A B C" M] by simp
qed

text \<open>
  While every prediction stays within the clip range of the old value, the clipped value loss is
  half the aggregated squared error and nothing counts as clipped; a token outside the range never
  has a smaller loss than its squared error.
\<close>

theorem value_loss_in_range:
  assumes "\<forall>i < length vpreds. \<forall>j < length (vpreds ! i). \<bar>vpreds ! i ! j - values ! i ! j\<bar> \<le> clip"
  shows "compute_value_loss vpreds returns values M clip mode =
     rbind (agg_loss (ew3 (\<lambda>vp _ r. (vp - r) ^ 2) vpreds values returns) M mode default_info)
       (\<lambda>l. Inr (1 / 2 * l, 0)) \<and>
     vf_loss1 vp r \<le> max (vf_loss1 vp r) (vf_loss2 clip vp v r)"
proof -
  have same: "vf_loss2 clip (vpreds ! i ! j) (values ! i ! j) r = vf_loss1 (vpreds ! i ! j) r"
    if "i < length vpreds" "j < length (vpreds ! i)" for i j r
  proof -
    have "\<bar>vpreds ! i ! j - values ! i ! j\<bar> \<le> clip" using assms that by blast
    then show ?thesis by (simp add: vf_loss1_def vf_loss2_def clip_by_value_def abs_le_iff)
  qed
  have "ew3 (\<lambda>vp v r. max (vf_loss1 vp r) (vf_loss2 clip vp v r)) vpreds values returns =
      ew3 (\<lambda>vp _ r. (vp - r) ^ 2) vpreds values returns"
    by (rule ew3_cong) (simp add: same vf_loss1_def)
  moreover have "ew3 (\<lambda>vp v r. indicator_of (vf_loss2 clip vp v r > vf_loss1 vp r)) vpreds values returns =
      ew3 (\<lambda>_ _ _. 0) vpreds values returns"
    by (rule ew3_cong) (simp add: same indicator_of_def)
  ultimately show ?thesis by (simp add: compute_value_loss_def ew3_zero_mean)
qed

lemma value_loss_in_range_witness:
  "\<exists>l. compute_value_loss [[1, 2]] [[3, 1]] [[1, 2]] [[1, 1]] (1 / 2) ''token-mean'' = Inr (l, 0)"
proof -
  have "\<forall>i < length [[1, 2 :: real]]. \<forall>j < length ([[1, 2 :: real]] ! i).
      \<bar>[[1, 2]] ! i ! j - [[1, 2]] ! i ! j\<bar> \<le> (1 / 2 :: real)" by simp
  from value_loss_in_range [OF this, of "[[3, 1]]" "[[1, 1]]" "''token-mean''"]
  show ?thesis by (simp add: agg_loss_def required_count_def default_info_def)
qed

end
