(* ===== verification/Self_Distillation.thy ===== *)
theory Self_Distillation
  imports Policy_Loss_Properties
begin

text \<open>
  Self-distillation (SDPO): the loss \<open>compute_self_distillation_loss\<close> of
  \<open>src/verl/trainer/ppo/core_algos.py\<close>, the configuration checks of \<open>SelfDistillationConfig\<close> and the
  two teachers of \<open>src/verl/workers/actor/dp_actor.py\<close>, the exponential moving average and the trust
  region. A tensor of shape \<open>(bs, length, vocab)\<close> is a list of rows of vectors of log-probabilities.
\<close>

section \<open>Configuration\<close>

record sd_config =
  full_logit_distillation :: bool
  sd_alpha :: real
  success_reward_threshold :: real
  teacher_regularization :: string
  teacher_update_rate :: real
  distillation_topk :: "int option"
  distillation_add_tail :: bool
  is_clip :: "real option"
  dont_reprompt_on_self_success :: bool
  remove_thinking_from_demonstration :: bool
  include_environment_feedback :: bool
  environment_feedback_only_without_solution :: bool
  use_dataset_expert_answer :: bool
  skip_distillation_on_correct :: bool
  always_apply_reprompt :: bool

definition sd_post_init :: "sd_config \<Rightarrow> sd_config result" where
  "sd_post_init c =
     ensure (0 \<le> sd_alpha c \<and> sd_alpha c \<le> 1) ValueError
      (ensure (teacher_regularization c = ''ema'' \<or> teacher_regularization c = ''trust-region'') ValueError
      (ensure (0 \<le> teacher_update_rate c \<and> teacher_update_rate c \<le> 1) ValueError
      (ensure (case distillation_topk c of None \<Rightarrow> True | Some k \<Rightarrow> k > 0) ValueError
      (ensure (case is_clip c of None \<Rightarrow> True | Some x \<Rightarrow> x > 0) ValueError
        (Inr c)))))"

section \<open>Divergences of log-probability vectors\<close>

text \<open>\<open>F.kl_div(input, target, reduction="none", log_target=True)\<close> and \<open>torch.lerp\<close>.\<close>

definition kl_div :: "vec \<Rightarrow> vec \<Rightarrow> vec" where
  "kl_div input target = map2 (\<lambda>i t. exp t * (t - i)) input target"

definition lerp :: "real \<Rightarrow> real \<Rightarrow> real \<Rightarrow> real" where
  "lerp start stop weight = start + weight * (stop - start)"

definition add_tail :: "vec \<Rightarrow> vec" where
  "add_tail log_probs =
     (let log_s = min (logsumexp log_probs) (- 1 / 10 ^ 7)
      in log_probs @ [ln (- (exp log_s - 1))])"

definition renorm_topk_log_probs :: "vec \<Rightarrow> vec" where
  "renorm_topk_log_probs logp = map (\<lambda>x. x - logsumexp logp) logp"

definition mixture_log_probs :: "real \<Rightarrow> vec \<Rightarrow> vec \<Rightarrow> vec" where
  "mixture_log_probs alpha student teacher =
     map2 (\<lambda>s t. logsumexp [s + ln (1 - alpha), t + ln alpha]) student teacher"

definition distill_kl :: "real \<Rightarrow> vec \<Rightarrow> vec \<Rightarrow> vec" where
  "distill_kl alpha student teacher =
     (if alpha = 0 then kl_div student teacher
      else if alpha = 1 then kl_div teacher student
      else (let m = mixture_log_probs alpha student teacher;
                kl_teacher = kl_div m teacher;
                kl_student = kl_div m student
            in map2 (\<lambda>a b. lerp a b alpha) kl_student kl_teacher))"

section \<open>The loss\<close>

type_synonym cube = "vec list list"

record sd_inputs =
  student_log_probs :: mat
  teacher_log_probs :: mat
  response_mask :: mat
  old_log_probs :: "mat option"
  student_all_log_probs :: "cube option"
  teacher_all_log_probs :: "cube option"
  student_topk_log_probs :: "cube option"
  teacher_topk_log_probs :: "cube option"
  self_distillation_mask :: "vec option"
  sd_rollout_is_weights :: "mat option"

record sd_metrics =
  log_ratio_mean :: real
  log_ratio_abs_mean :: real
  is_ratio_mean :: "real option"
  active_token_fraction :: real

text \<open>
  The dictionary \<open>global_batch_info\<close>: the outer \<open>None\<close> is an absent key. The call passes
  \<open>batch_num_tokens\<close> itself, so a dictionary with that key is a \<open>TypeError\<close>.
\<close>

record batch_kwargs =
  kw_dp_size :: "nat option"
  kw_batch_num_tokens :: "real option option"
  kw_global_batch_size :: "real option option"
  kw_loss_scale_factor :: "real option option"

definition sd_batch_info :: "real \<Rightarrow> batch_kwargs option \<Rightarrow> batch_info result" where
  "sd_batch_info tokens kwargs =
     (case kwargs of
        None \<Rightarrow> Inr (default_info\<lparr>batch_num_tokens := Some tokens\<rparr>)
      | Some k \<Rightarrow> ensure (kw_batch_num_tokens k = None) TypeError
          (Inr \<lparr>dp_size = default_to 1 (kw_dp_size k), batch_num_tokens = Some tokens,
                global_batch_size = default_to None (kw_global_batch_size k),
                loss_scale_factor = default_to None (kw_loss_scale_factor k)\<rparr>))"

definition sd_loss_mask :: "mat \<Rightarrow> vec option \<Rightarrow> mat" where
  "sd_loss_mask msk sd_mask =
     (case sd_mask of None \<Rightarrow> msk | Some v \<Rightarrow> map2 (\<lambda>row k. map (\<lambda>x. x * k) row) msk v)"

text \<open>The two distributions a full-logit distillation compares at each position.\<close>

definition distill_inputs :: "sd_config \<Rightarrow> sd_inputs \<Rightarrow> (cube \<times> cube) result" where
  "distill_inputs cfg inp =
     (if distillation_topk cfg \<noteq> None
      then (case (student_topk_log_probs inp, teacher_topk_log_probs inp) of
              (Some s, Some t) \<Rightarrow>
                (let f = (if distillation_add_tail cfg then add_tail else renorm_topk_log_probs)
                 in Inr (map_mat f s, map_mat f t))
            | _ \<Rightarrow> Inl ValueError)
      else (case (student_all_log_probs inp, teacher_all_log_probs inp) of
              (Some s, Some t) \<Rightarrow> Inr (s, t)
            | _ \<Rightarrow> Inl ValueError))"

definition per_token_loss :: "sd_config \<Rightarrow> sd_inputs \<Rightarrow> mat result" where
  "per_token_loss cfg inp =
     (if full_logit_distillation cfg
      then rbind (distill_inputs cfg inp) (\<lambda>(s, t).
             Inr (ew2 (\<lambda>sv tv. sum_list (distill_kl (sd_alpha cfg) sv tv)) s t))
      else ensure (sd_alpha cfg = 1) ValueError
             (Inr (ew2 (\<lambda>s t. (s - t) * s) (student_log_probs inp) (teacher_log_probs inp))))"

definition is_ratio :: "real \<Rightarrow> real \<Rightarrow> real \<Rightarrow> real" where
  "is_ratio clip old_lp lp = min (exp (approx_kl old_lp lp)) clip"

definition apply_is_clip ::
  "sd_config \<Rightarrow> sd_inputs \<Rightarrow> mat \<Rightarrow> mat \<Rightarrow> (mat \<times> real option) result" where
  "apply_is_clip cfg inp loss_mask losses =
     (case is_clip cfg of
        None \<Rightarrow> Inr (losses, None)
      | Some clip \<Rightarrow>
          (case old_log_probs inp of
             None \<Rightarrow> Inl ValueError
           | Some old \<Rightarrow>
               (let ratio = ew2 (is_ratio clip) old (student_log_probs inp)
                in Inr (ew2 (*) losses ratio, Some (masked_mean ratio loss_mask)))))"

definition compute_self_distillation_loss ::
  "sd_config \<Rightarrow> sd_inputs \<Rightarrow> string \<Rightarrow> batch_kwargs option \<Rightarrow> (real \<times> sd_metrics) result" where
  "compute_self_distillation_loss cfg inp loss_agg_mode kwargs =
     (let loss_mask = sd_loss_mask (response_mask inp) (self_distillation_mask inp);
          diff = ew2 (\<lambda>t s. t - s) (teacher_log_probs inp) (student_log_probs inp);
          any_token = mat_sum loss_mask > 0
      in rbind (per_token_loss cfg inp) (\<lambda>raw.
         rbind (apply_is_clip cfg inp loss_mask raw) (\<lambda>(clipped, ratio_mean).
         rbind (sd_batch_info (max (mat_sum loss_mask) 1) kwargs) (\<lambda>info.
         rbind (agg_loss (apply_weights (sd_rollout_is_weights inp) clipped) loss_mask loss_agg_mode info) (\<lambda>loss.
           Inr (loss,
             \<lparr>log_ratio_mean = (if any_token then masked_mean diff loss_mask else 0),
              log_ratio_abs_mean = (if any_token then masked_mean (map_mat abs diff) loss_mask else 0),
              is_ratio_mean = ratio_mean,
              active_token_fraction = mat_sum loss_mask / max (mat_sum (response_mask inp)) 1\<rparr>))))))"

section \<open>The teachers\<close>

text \<open>
  \<open>TrustRegionTeacher.forward\<close> interpolates the logits of the reference and of the student.
\<close>

definition trust_region_logits :: "real \<Rightarrow> vec \<Rightarrow> vec \<Rightarrow> vec" where
  "trust_region_logits mix_coef ref_logits student_logits =
     map2 (\<lambda>r s. lerp r s mix_coef) ref_logits student_logits"

text \<open>
  The teacher module of an actor: absent, the actor module itself, or a separate one with its own
  parameters. A parameter tensor is the list of its entries;
  \<open>zip\<close> leaves the parameters beyond the shorter list unchanged.
\<close>

datatype teacher = NoTeacher | SameModule | Separate (teacher_params: "vec list")

definition ema_step :: "real \<Rightarrow> vec list \<Rightarrow> vec list \<Rightarrow> vec list" where
  "ema_step update_rate teacher_ps student_ps =
     map2 (map2 (\<lambda>t s. t * (1 - update_rate) + update_rate * s)) teacher_ps student_ps
       @ drop (length student_ps) teacher_ps"

definition update_teacher :: "sd_config option \<Rightarrow> string \<Rightarrow> teacher \<Rightarrow> vec list \<Rightarrow> teacher result" where
  "update_teacher cfg loss_mode tch student_ps =
     (case cfg of
        None \<Rightarrow> Inr tch
      | Some c \<Rightarrow>
          if loss_mode \<noteq> ''sdpo'' then Inr tch
          else if teacher_regularization c \<noteq> ''ema'' then Inr tch
          else if teacher_update_rate c = 0 then Inr tch
          else (case tch of
                  Separate ps \<Rightarrow> Inr (Separate (ema_step (teacher_update_rate c) ps student_ps))
                | _ \<Rightarrow> Inl ValueError))"

section \<open>Divergence is non-negative\<close>

definition mass :: "vec \<Rightarrow> real" where
  "mass v = sum_list (map exp v)"

lemma mass_simps [simp]: "mass [] = 0" "mass (x # xs) = exp x + mass xs" "mass (xs @ ys) = mass xs + mass ys"
  by (simp_all add: mass_def)

lemma mass_pos: "v \<noteq> [] \<Longrightarrow> 0 < mass v"
  by (induction v) (auto simp: add_pos_nonneg mass_def intro!: add_pos_nonneg sum_list_nonneg)

lemma mass_nonneg: "0 \<le> mass v"
  by (auto simp: mass_def intro!: sum_list_nonneg)

lemma kl_term_ge: "exp t - exp s \<le> exp t * (t - s)" for s t :: real
proof -
  have "exp t * (exp (s - t) - (s - t) - 1) \<ge> 0" using exp_minus_linear(1) [of "s - t"] by simp
  moreover have "exp t * exp (s - t) = exp s" by (simp add: exp_add [symmetric])
  ultimately show ?thesis by (simp add: algebra_simps)
qed

lemma kl_term_eq: "exp t * (t - s) = exp t - exp s \<longleftrightarrow> s = t" for s t :: real
proof
  assume "exp t * (t - s) = exp t - exp s"
  moreover have "exp t * exp (s - t) = exp s" by (simp add: exp_add [symmetric])
  ultimately have "exp t * (exp (s - t) - (s - t) - 1) = 0" by (simp add: algebra_simps)
  then have "exp (s - t) - (s - t) - 1 = 0" by simp
  then show "s = t" using exp_minus_linear(2) [of "s - t"] by simp
qed simp

text \<open>Gibbs' inequality for unnormalised vectors, with its case of equality.\<close>

lemma kl_div_ge:
  assumes "length s = length t"
  shows "mass t - mass s \<le> sum_list (kl_div s t)"
  using assms
proof (induction s t rule: list_induct2)
  case (Cons x xs y ys)
  then show ?case using kl_term_ge [of y x] by (simp add: kl_div_def)
qed (simp add: kl_div_def)

lemma kl_div_eq_iff:
  assumes "length s = length t"
  shows "sum_list (kl_div s t) = mass t - mass s \<longleftrightarrow> s = t"
  using assms
proof (induction s t rule: list_induct2)
  case (Cons x xs y ys)
  have ge: "exp y - exp x \<le> exp y * (y - x)" "mass ys - mass xs \<le> sum_list (kl_div xs ys)"
    using kl_term_ge [of y x] kl_div_ge [OF Cons.hyps] by simp_all
  have "sum_list (kl_div (x # xs) (y # ys)) = mass (y # ys) - mass (x # xs) \<longleftrightarrow>
      exp y * (y - x) = exp y - exp x \<and> sum_list (kl_div xs ys) = mass ys - mass xs"
    using ge by (simp add: kl_div_def) linarith
  then show ?case using Cons.IH kl_term_eq by auto
qed (simp add: kl_div_def)

lemma kl_div_self [simp]: "sum_list (kl_div s s) = 0"
  using kl_div_eq_iff [of s s] by simp

section \<open>Normalised inputs\<close>

lemma exp_logsumexp: "v \<noteq> [] \<Longrightarrow> exp (logsumexp v) = mass v"
  using mass_pos [of v] by (simp add: logsumexp_def mass_def)

text \<open>
  Both truncations of the top-k distillation give a probability distribution: renormalising
  always does, and appending the tail bucket does whenever the kept probability is at most
  \<open>exp (-1e-7)\<close>; beyond that the clamp of the code adds at most \<open>1e-7\<close>.
\<close>

theorem topk_normalised:
  assumes "v \<noteq> []" and "mass v \<le> 1"
  shows "mass (renorm_topk_log_probs v) = 1 \<and>
     (logsumexp v \<le> - 1 / 10 ^ 7 \<longrightarrow> mass (add_tail v) = 1) \<and>
     1 \<le> mass (add_tail v) \<and> mass (add_tail v) \<le> 1 + 1 / 10 ^ 7"
proof -
  have shift: "mass (map (\<lambda>x. x - c) v) = mass v / exp c" for c
    by (induction v) (auto simp: exp_diff add_divide_distrib)
  have renorm: "mass (renorm_topk_log_probs v) = 1"
    using mass_pos [OF assms(1)] by (simp add: renorm_topk_log_probs_def shift exp_logsumexp assms(1))
  define l where "l = min (logsumexp v) (- 1 / 10 ^ 7)"
  have "l < 0" by (simp add: l_def min_def)
  then have tail: "mass (add_tail v) = mass v + (1 - exp l)"
    unfolding add_tail_def Let_def l_def [symmetric] by simp
  have kept: "exp l = mass v" if "logsumexp v \<le> - 1 / 10 ^ 7"
    using that exp_logsumexp [OF assms(1)] by (simp add: l_def min_def)
  have "l \<le> logsumexp v" by (simp add: l_def)
  then have over: "exp l \<le> mass v" using exp_logsumexp [OF assms(1)] by (metis exp_le_cancel_iff)
  have "1 - 1 / 10 ^ 7 \<le> exp l" if "\<not> logsumexp v \<le> - 1 / 10 ^ 7"
    using that exp_ge_add_one_self [of "- 1 / 10 ^ 7"] by (simp add: l_def min_def)
  then have "mass (add_tail v) \<le> 1 + 1 / 10 ^ 7"
    using tail kept assms(2) by (cases "logsumexp v \<le> - 1 / 10 ^ 7") auto
  then show ?thesis using renorm tail kept over by auto
qed

lemma topk_normalised_witness: "mass (renorm_topk_log_probs [- 2, - 3]) = 1"
proof -
  have "exp (- 2) \<le> 1 / (1 + 2 :: real)" "exp (- 3) \<le> 1 / (1 + 3 :: real)"
    using exp_ge_add_one_self [of 2] exp_ge_add_one_self [of 3] by (simp_all add: exp_minus field_simps)
  then have "mass [- 2, - 3] \<le> 1" by simp
  with topk_normalised [of "[- 2, - 3]"] show ?thesis by simp
qed

section \<open>The three divergences\<close>

lemma length_mixture [simp]: "length (mixture_log_probs a s t) = min (length s) (length t)"
  by (simp add: mixture_log_probs_def)

lemma exp_mixture_entry:
  assumes "0 < a" "a < 1"
  shows "exp (logsumexp [x + ln (1 - a), y + ln a]) = (1 - a) * exp x + a * exp y"
  using assms by (simp add: logsumexp_def exp_add add_pos_pos)

lemma mass_mixture:
  assumes "0 < a" "a < 1" "length s = length t"
  shows "mass (mixture_log_probs a s t) = (1 - a) * mass s + a * mass t"
  using assms(3)
proof (induction s t rule: list_induct2)
  case (Cons x xs y ys)
  have "mass (mixture_log_probs a (x # xs) (y # ys)) =
      exp (logsumexp [x + ln (1 - a), y + ln a]) + mass (mixture_log_probs a xs ys)"
    by (simp add: mixture_log_probs_def)
  also have "\<dots> = ((1 - a) * exp x + a * exp y) + ((1 - a) * mass xs + a * mass ys)"
    using exp_mixture_entry [OF assms(1,2)] Cons.IH by simp
  finally show ?case by (simp add: algebra_simps)
qed (simp add: mixture_log_probs_def)

lemma sum_lerp:
  assumes "length xs = length ys"
  shows "sum_list (map2 (\<lambda>a b. lerp a b w) xs ys) = (1 - w) * sum_list xs + w * sum_list ys"
  using assms
  by (induction xs ys rule: list_induct2) (auto simp: lerp_def algebra_simps)

lemma length_kl_div [simp]: "length (kl_div s t) = min (length s) (length t)"
  by (simp add: kl_div_def)

lemma distill_kl_mixed:
  assumes "0 < a" "a < 1" "length s = length t"
  shows "sum_list (distill_kl a s t) =
     (1 - a) * sum_list (kl_div (mixture_log_probs a s t) s) + a * sum_list (kl_div (mixture_log_probs a s t) t)"
  using assms by (simp add: distill_kl_def Let_def sum_lerp)

lemma distill_kl_cases:
  fixes a :: real
  assumes "0 \<le> a" "a \<le> 1"
  obtains "a = 0" | "a = 1" | "0 < a" "a < 1"
proof -
  have "a = 0 \<or> a = 1 \<or> 0 < a \<and> a < 1" using assms by linarith
  then show ?thesis using that by blast
qed

lemma mixture_ge:
  assumes "0 < a" "a < 1"
  shows "x + ln (1 - a) \<le> logsumexp [x + ln (1 - a), y + ln a]"
    and "y + ln a \<le> logsumexp [x + ln (1 - a), y + ln a]"
proof -
  let ?m = "logsumexp [x + ln (1 - a), y + ln a]"
  have "exp (x + ln (1 - a)) \<le> exp ?m" "exp (y + ln a) \<le> exp ?m"
    using assms unfolding exp_mixture_entry [OF assms] by (simp_all add: exp_add)
  then show "x + ln (1 - a) \<le> ?m" "y + ln a \<le> ?m" by simp_all
qed

lemma mixture_self:
  assumes "0 < a" "a < 1"
  shows "mixture_log_probs a s s = s"
proof -
  have "logsumexp [x + ln (1 - a), x + ln a] = x" for x
  proof -
    have "exp (logsumexp [x + ln (1 - a), x + ln a]) = exp x"
      using exp_mixture_entry [OF assms, of x x] by (simp add: algebra_simps)
    then show ?thesis by simp
  qed
  then show ?thesis
    by (induction s) (auto simp: mixture_log_probs_def)
qed

lemma distill_kl_nonneg_zero:
  assumes "0 \<le> a" "a \<le> 1" and "length s = length t" and "mass s = mass t"
  shows "0 \<le> sum_list (distill_kl a s t) \<and> (sum_list (distill_kl a s t) = 0 \<longleftrightarrow> s = t)"
  using assms(1,2)
proof (cases rule: distill_kl_cases)
  case 1
  then show ?thesis
    using kl_div_ge [OF assms(3)] kl_div_eq_iff [OF assms(3)] assms(4) by (simp add: distill_kl_def)
next
  case 2
  then show ?thesis
    using kl_div_ge [OF assms(3) [symmetric]] kl_div_eq_iff [OF assms(3) [symmetric]] assms(4)
    by (auto simp: distill_kl_def)
next
  case 3
  define m where "m = mixture_log_probs a s t"
  have mass: "mass m = (1 - a) * mass s + a * mass t"
    using mass_mixture [OF 3 assms(3)] by (simp add: m_def)
  have len: "length m = length s" "length m = length t" using assms(3) by (simp_all add: m_def)
  have sum: "sum_list (distill_kl a s t) = (1 - a) * sum_list (kl_div m s) + a * sum_list (kl_div m t)"
    using distill_kl_mixed [OF 3 assms(3)] by (simp add: m_def)
  have mass': "mass m = mass s" "mass m = mass t" using mass assms(4) by (simp_all add: algebra_simps)
  have ge: "0 \<le> sum_list (kl_div m s)" "0 \<le> sum_list (kl_div m t)"
    using kl_div_ge [OF len(1)] kl_div_ge [OF len(2)] mass' by simp_all
  then have parts: "0 \<le> (1 - a) * sum_list (kl_div m s)" "0 \<le> a * sum_list (kl_div m t)"
    using 3 by simp_all
  have "s = t" if "sum_list (distill_kl a s t) = 0"
  proof -
    have "sum_list (kl_div m s) = 0" "sum_list (kl_div m t) = 0"
      using that parts sum 3 by (simp_all add: add_nonneg_eq_0_iff)
    then show ?thesis
      using kl_div_eq_iff [OF len(1)] kl_div_eq_iff [OF len(2)] mass' by simp
  qed
  moreover have "sum_list (distill_kl a s t) = 0" if "s = t"
    using that sum mixture_self [OF 3, of s] by (simp add: m_def)
  ultimately show ?thesis using parts sum by auto
qed

lemmas distill_kl_nonneg = distill_kl_nonneg_zero [THEN conjunct1]

lemma distill_kl_same: "0 \<le> a \<Longrightarrow> a \<le> 1 \<Longrightarrow> sum_list (distill_kl a s s) = 0"
  using distill_kl_nonneg_zero [of a s s] by simp

text \<open>
  C1: the divergence that full-logit distillation minimises at a position is a divergence: for
  log-probability vectors of equal total mass and any mixing coefficient in \<open>[0, 1]\<close>, it is
  non-negative, and zero exactly when student and teacher agree on every token of the support.
\<close>

theorem distill_kl_is_divergence:
  assumes "0 \<le> a" "a \<le> 1" and "length s = length t" and "mass s = mass t"
  shows "0 \<le> sum_list (distill_kl a s t) \<and> (sum_list (distill_kl a s t) = 0 \<longleftrightarrow> s = t)"
  using assms by (rule distill_kl_nonneg_zero)

lemma distill_kl_is_divergence_witness:
  "0 \<le> sum_list (distill_kl (1 / 2) [ln (1 / 4), ln (3 / 4)] [ln (1 / 2), ln (1 / 2)])"
  using distill_kl_is_divergence [of "1 / 2" "[ln (1 / 4), ln (3 / 4)]" "[ln (1 / 2), ln (1 / 2)]"] by simp

text \<open>
  Strictly between forward and reverse KL, the generalised Jensen-Shannon loss of a position is
  bounded by the binary entropy of the mixing coefficient, weighted by the two masses, whatever the
  log-probabilities are: unlike the two KL losses it cannot blow up.
\<close>

theorem jsd_bounded:
  assumes "0 < a" "a < 1" and "length s = length t"
  shows "0 \<le> sum_list (distill_kl a s t) \<and>
     sum_list (distill_kl a s t) \<le> - ((1 - a) * ln (1 - a) * mass s) - a * ln a * mass t"
proof -
  define m where "m = mixture_log_probs a s t"
  have len: "length m = length s" "length m = length t" using assms(3) by (simp_all add: m_def)
  have sum: "sum_list (distill_kl a s t) = (1 - a) * sum_list (kl_div m s) + a * sum_list (kl_div m t)"
    using distill_kl_mixed [OF assms] by (simp add: m_def)
  have lower: "(1 - a) * (mass s - mass m) + a * (mass t - mass m) = 0"
    using mass_mixture [OF assms] by (simp add: m_def algebra_simps)
  have "(1 - a) * (mass s - mass m) \<le> (1 - a) * sum_list (kl_div m s)"
    and "a * (mass t - mass m) \<le> a * sum_list (kl_div m t)"
    using kl_div_ge [OF len(1)] kl_div_ge [OF len(2)] assms by (simp_all add: mult_left_mono)
  then have nonneg: "0 \<le> sum_list (distill_kl a s t)" using sum lower by linarith
  have upper: "sum_list (kl_div (mixture_log_probs a xs ys) xs) \<le> - ln (1 - a) * mass xs"
    "sum_list (kl_div (mixture_log_probs a xs ys) ys) \<le> - ln a * mass ys"
    if "length xs = length ys" for xs ys
    using that
  proof (induction xs ys rule: list_induct2)
    case (Cons x xs y ys)
    let ?m = "logsumexp [x + ln (1 - a), y + ln a]"
    have "exp x * (x - ?m) \<le> exp x * (- ln (1 - a))" "exp y * (y - ?m) \<le> exp y * (- ln a)"
      using mixture_ge [OF assms(1,2), where x = x and y = y] by (intro mult_left_mono; simp)+
    with Cons.IH show "sum_list (kl_div (mixture_log_probs a (x # xs) (y # ys)) (x # xs)) \<le> - ln (1 - a) * mass (x # xs)"
      and "sum_list (kl_div (mixture_log_probs a (x # xs) (y # ys)) (y # ys)) \<le> - ln a * mass (y # ys)"
      by (simp_all add: kl_div_def mixture_log_probs_def algebra_simps)
  qed (simp_all add: kl_div_def mixture_log_probs_def)
  have "(1 - a) * sum_list (kl_div m s) \<le> (1 - a) * (- ln (1 - a) * mass s)"
    and "a * sum_list (kl_div m t) \<le> a * (- ln a * mass t)"
    unfolding m_def using upper [OF assms(3)] assms by (intro mult_left_mono; simp)+
  then show ?thesis using nonneg sum by (simp add: algebra_simps)
qed

lemma jsd_bounded_witness:
  "sum_list (distill_kl (1 / 2) [0, - 100] [- 100, 0]) \<le> ln 2 * (1 + exp (- 100))"
  using jsd_bounded [of "1 / 2" "[0, - 100]" "[- 100, 0]"] by (simp add: ln_div algebra_simps)

section \<open>The loss of a batch\<close>

definition nonneg_mat :: "mat \<Rightarrow> bool" where
  "nonneg_mat A \<longleftrightarrow> (\<forall>row\<in>set A. \<forall>x\<in>set row. 0 \<le> x)"

lemma nonneg_ew2:
  assumes "\<And>i j. i < length A \<Longrightarrow> i < length B \<Longrightarrow> j < length (A ! i) \<Longrightarrow> j < length (B ! i) \<Longrightarrow>
     0 \<le> f (A ! i ! j) (B ! i ! j)"
  shows "nonneg_mat (ew2 f A B)"
  using assms by (auto simp: nonneg_mat_def ew2_def in_set_zip)

lemma nonneg_mat_nth: "nonneg_mat A \<Longrightarrow> i < length A \<Longrightarrow> j < length (A ! i) \<Longrightarrow> 0 \<le> A ! i ! j"
  unfolding nonneg_mat_def by (meson nth_mem)

lemma nonneg_times: "nonneg_mat A \<Longrightarrow> nonneg_mat B \<Longrightarrow> nonneg_mat (ew2 (*) A B)"
  by (rule nonneg_ew2) (simp add: nonneg_mat_nth)

lemma row_masked_sum_nonneg: "\<forall>x\<in>set row. 0 \<le> x \<Longrightarrow> \<forall>x\<in>set ms. 0 \<le> x \<Longrightarrow> 0 \<le> row_masked_sum row ms"
proof (induction row arbitrary: ms)
  case (Cons x row)
  then show ?case by (cases ms) (auto simp: row_masked_sum_def masked_value_def)
qed (simp add: row_masked_sum_def)

lemma masked_sum_nonneg: "nonneg_mat A \<Longrightarrow> nonneg_mat M \<Longrightarrow> 0 \<le> masked_sum A M"
proof (induction A arbitrary: M)
  case (Cons row A)
  then show ?case
    by (cases M) (auto simp: masked_sum_def nonneg_mat_def intro!: add_nonneg_nonneg row_masked_sum_nonneg)
qed (simp add: masked_sum_def)

definition zero_mat :: "mat \<Rightarrow> bool" where
  "zero_mat A \<longleftrightarrow> (\<forall>row\<in>set A. \<forall>x\<in>set row. x = 0)"

lemma zero_ew2:
  assumes "\<And>i j. i < length A \<Longrightarrow> i < length B \<Longrightarrow> j < length (A ! i) \<Longrightarrow> j < length (B ! i) \<Longrightarrow>
     f (A ! i ! j) (B ! i ! j) = 0"
  shows "zero_mat (ew2 f A B)"
  using assms by (auto simp: zero_mat_def ew2_def in_set_zip)

lemma zero_mat_nth: "zero_mat A \<Longrightarrow> i < length A \<Longrightarrow> j < length (A ! i) \<Longrightarrow> A ! i ! j = 0"
  unfolding zero_mat_def by (meson nth_mem)

lemma zero_times: "zero_mat A \<Longrightarrow> zero_mat (ew2 (*) A B)"
  by (rule zero_ew2) (simp add: zero_mat_nth)

lemma row_sum_zero: "\<forall>x\<in>set row. x = 0 \<Longrightarrow> row_masked_sum row ms = 0"
proof (induction row arbitrary: ms)
  case (Cons x row)
  then show ?case by (cases ms) (auto simp: row_masked_sum_def masked_value_def)
qed (simp add: row_masked_sum_def)

lemma masked_sum_zero: "zero_mat A \<Longrightarrow> masked_sum A M = 0"
proof (induction A arbitrary: M)
  case (Cons row A)
  then show ?case
    by (cases M) (auto simp: masked_sum_def zero_mat_def row_sum_zero)
qed (simp add: masked_sum_def)

lemma apply_is_clip_sign:
  assumes "apply_is_clip cfg inp loss_mask losses = Inr (out, r)"
    and "\<And>clip. is_clip cfg = Some clip \<Longrightarrow> 0 < clip"
  shows "(nonneg_mat losses \<longrightarrow> nonneg_mat out) \<and> (zero_mat losses \<longrightarrow> zero_mat out)"
proof (cases "is_clip cfg")
  case None
  then show ?thesis using assms(1) by (simp add: apply_is_clip_def)
next
  case (Some clip)
  then have clip: "0 < clip" using assms(2) by simp
  from Some assms(1) obtain old where
    out: "out = ew2 (*) losses (ew2 (is_ratio clip) old (student_log_probs inp))"
    by (auto simp: apply_is_clip_def Let_def split: option.splits)
  have "nonneg_mat (ew2 (is_ratio clip) old (student_log_probs inp))"
    using clip by (intro nonneg_ew2) (simp add: is_ratio_def)
  then show ?thesis unfolding out using nonneg_times zero_times by blast
qed

lemma agg_token_mean:
  assumes "sd_batch_info tokens kwargs = Inr info" and "0 < tokens"
  shows "\<exists>c\<ge>0. agg_loss L M ''token-mean'' info = Inr (c * masked_sum L M)"
proof -
  have "batch_num_tokens info = Some tokens"
    using assms(1) by (auto simp: sd_batch_info_def ensure_def split: option.splits if_splits)
  then have "agg_loss L M ''token-mean'' info = Inr (masked_sum L M / tokens * real (dp_size info))"
    by (simp add: agg_loss_def required_count_def)
  then show ?thesis
    using assms(2) by (intro exI [of _ "real (dp_size info) / tokens"]) simp
qed

text \<open>
  The distillation loss of a whole batch with full logits, in token-mean mode and for any
  data-parallel information: whenever the call returns and the compared vectors have equal masses,
  the loss is non-negative, and it is zero when the two distributions are equal at every position.
  The importance ratio and the masks of the code do not change this.
\<close>

theorem sd_loss_sign:
  assumes run: "compute_self_distillation_loss cfg inp ''token-mean'' kwargs = Inr (loss, metrics)"
    and cfg: "sd_post_init cfg = Inr cfg" "full_logit_distillation cfg"
    and dists: "distill_inputs cfg inp = Inr (S, T)"
    and pos: "\<forall>i<length S. \<forall>j<length (S ! i). i < length T \<and> j < length (T ! i) \<longrightarrow>
       length (S ! i ! j) = length (T ! i ! j) \<and> mass (S ! i ! j) = mass (T ! i ! j)"
    and masks: "nonneg_mat (sd_loss_mask (response_mask inp) (self_distillation_mask inp))"
      "\<forall>w. sd_rollout_is_weights inp = Some w \<longrightarrow> nonneg_mat w"
  shows "0 \<le> loss \<and> (S = T \<longrightarrow> loss = 0)"
proof -
  define M where "M = sd_loss_mask (response_mask inp) (self_distillation_mask inp)"
  define raw where "raw = ew2 (\<lambda>sv tv. sum_list (distill_kl (sd_alpha cfg) sv tv)) S T"
  have alpha: "0 \<le> sd_alpha cfg" "sd_alpha cfg \<le> 1" and clip: "\<And>c. is_clip cfg = Some c \<Longrightarrow> 0 < c"
    using cfg(1) by (auto simp: sd_post_init_def ensure_eq_Inr)
  have "per_token_loss cfg inp = Inr raw"
    using cfg(2) dists by (simp add: per_token_loss_def raw_def)
  with run obtain clipped r info where
    steps: "apply_is_clip cfg inp M raw = Inr (clipped, r)"
      "sd_batch_info (max (mat_sum M) 1) kwargs = Inr info"
      "agg_loss (apply_weights (sd_rollout_is_weights inp) clipped) M ''token-mean'' info = Inr loss"
    by (auto simp: compute_self_distillation_loss_def Let_def rbind_eq_Inr M_def)
  obtain c where c: "0 \<le> c" "loss = c * masked_sum (apply_weights (sd_rollout_is_weights inp) clipped) M"
    using agg_token_mean [OF steps(2), of "apply_weights (sd_rollout_is_weights inp) clipped" M] steps(3)
    by (auto simp: less_max_iff_disj)
  have "nonneg_mat raw" unfolding raw_def
  proof (rule nonneg_ew2)
    fix i j
    assume "i < length S" "i < length T" "j < length (S ! i)" "j < length (T ! i)"
    then have "length (S ! i ! j) = length (T ! i ! j) \<and> mass (S ! i ! j) = mass (T ! i ! j)"
      using pos by blast
    then show "0 \<le> sum_list (distill_kl (sd_alpha cfg) (S ! i ! j) (T ! i ! j))"
      using distill_kl_nonneg [OF alpha] by simp
  qed
  then have "nonneg_mat clipped" using apply_is_clip_sign [OF steps(1) clip] by blast
  then have "nonneg_mat (apply_weights (sd_rollout_is_weights inp) clipped)"
    using masks(2) nonneg_times by (auto simp: apply_weights_def split: option.split)
  then have "0 \<le> loss" using c masked_sum_nonneg masks(1) by (simp add: M_def)
  moreover have "loss = 0" if "S = T"
  proof -
    have "zero_mat raw" unfolding raw_def using that distill_kl_same [OF alpha] by (intro zero_ew2) simp
    then have "zero_mat clipped" using apply_is_clip_sign [OF steps(1) clip] by blast
    then have "zero_mat (apply_weights (sd_rollout_is_weights inp) clipped)"
      using zero_times by (auto simp: apply_weights_def split: option.split)
    then show ?thesis using c masked_sum_zero by simp
  qed
  ultimately show ?thesis by blast
qed

definition example_sd_config :: sd_config where
  "example_sd_config = \<lparr>full_logit_distillation = True, sd_alpha = 0, success_reward_threshold = 1,
     teacher_regularization = ''ema'', teacher_update_rate = 1 / 20, distillation_topk = None,
     distillation_add_tail = True, is_clip = None, dont_reprompt_on_self_success = False,
     remove_thinking_from_demonstration = False, include_environment_feedback = False,
     environment_feedback_only_without_solution = False, use_dataset_expert_answer = False,
     skip_distillation_on_correct = False, always_apply_reprompt = False\<rparr>"

definition example_sd_inputs :: sd_inputs where
  "example_sd_inputs = \<lparr>student_log_probs = [[ln (1 / 4)]], teacher_log_probs = [[ln (1 / 2)]],
     response_mask = [[1]], old_log_probs = None,
     student_all_log_probs = Some [[[ln (1 / 4), ln (3 / 4)]]],
     teacher_all_log_probs = Some [[[ln (1 / 2), ln (1 / 2)]]],
     student_topk_log_probs = None, teacher_topk_log_probs = None,
     self_distillation_mask = Some [1], sd_rollout_is_weights = None\<rparr>"

lemma sd_loss_sign_witness:
  "\<exists>loss metrics. compute_self_distillation_loss example_sd_config example_sd_inputs ''token-mean'' None
     = Inr (loss, metrics) \<and> 0 \<le> loss"
proof -
  have dists: "distill_inputs example_sd_config example_sd_inputs =
      Inr ([[[ln (1 / 4), ln (3 / 4)]]], [[[ln (1 / 2), ln (1 / 2)]]])"
    by (simp add: distill_inputs_def example_sd_config_def example_sd_inputs_def)
  have post: "sd_post_init example_sd_config = Inr example_sd_config"
    by (simp add: sd_post_init_def example_sd_config_def)
  obtain loss metrics where run:
    "compute_self_distillation_loss example_sd_config example_sd_inputs ''token-mean'' None = Inr (loss, metrics)"
    by (simp add: compute_self_distillation_loss_def per_token_loss_def dists apply_is_clip_def sd_batch_info_def
        agg_loss_def required_count_def example_sd_config_def [THEN arg_cong, of full_logit_distillation, simplified]
        example_sd_config_def [THEN arg_cong, of is_clip, simplified] Let_def)
  have "0 \<le> loss"
    using sd_loss_sign [OF run post _ dists]
    by (simp add: example_sd_config_def example_sd_inputs_def sd_loss_mask_def nonneg_mat_def)
  with run show ?thesis by blast
qed

definition sd_inputs_missing :: "sd_config \<Rightarrow> sd_inputs \<Rightarrow> bool" where
  "sd_inputs_missing cfg inp =
     (if full_logit_distillation cfg
      then (if distillation_topk cfg = None
            then student_all_log_probs inp = None \<or> teacher_all_log_probs inp = None
            else student_topk_log_probs inp = None \<or> teacher_topk_log_probs inp = None)
      else sd_alpha cfg \<noteq> 1)"

definition kwargs_token_count :: "batch_kwargs option \<Rightarrow> real option option" where
  "kwargs_token_count kwargs = (case kwargs of None \<Rightarrow> None | Some k \<Rightarrow> kw_batch_num_tokens k)"

lemma per_token_loss_returns: "(\<exists>raw. per_token_loss cfg inp = Inr raw) \<longleftrightarrow> \<not> sd_inputs_missing cfg inp"
  and per_token_loss_raises: "sd_inputs_missing cfg inp \<Longrightarrow> per_token_loss cfg inp = Inl ValueError"
  by (auto simp: per_token_loss_def distill_inputs_def sd_inputs_missing_def Let_def rbind_def ensure_def
      split: option.splits if_splits)

text \<open>
  The exceptions of the distillation loss in their order: missing distributions for the chosen
  mode, or sampled-token distillation with a mixing coefficient other than one; then a clip without
  old log-probabilities; then a \<open>TypeError\<close> when the batch information already carries
  \<open>batch_num_tokens\<close>, which the documentation lists as allowed; otherwise, in
  token-mean mode, the call returns.
\<close>

theorem sd_loss_errors:
  "raised (compute_self_distillation_loss cfg inp ''token-mean'' kwargs) =
     (if sd_inputs_missing cfg inp then Some ValueError
      else if is_clip cfg \<noteq> None \<and> old_log_probs inp = None then Some ValueError
      else if kwargs_token_count kwargs = None then None
      else Some TypeError)"
proof (cases "sd_inputs_missing cfg inp")
  case True
  then show ?thesis by (simp add: compute_self_distillation_loss_def Let_def per_token_loss_raises)
next
  case False
  then obtain raw where raw: "per_token_loss cfg inp = Inr raw" using per_token_loss_returns by blast
  have agg: "\<exists>l. agg_loss L M ''token-mean'' info = Inr l" if "batch_num_tokens info = Some n" for L M info n
    using that by (simp add: agg_loss_def required_count_def)
  show ?thesis
  proof (cases kwargs)
    case None
    then show ?thesis using raw False
      by (auto simp: compute_self_distillation_loss_def Let_def apply_is_clip_def sd_batch_info_def
          kwargs_token_count_def agg_loss_def required_count_def split: option.splits)
  next
    case (Some k)
    then show ?thesis using raw False
      by (cases "kw_batch_num_tokens k")
        (auto simp: compute_self_distillation_loss_def Let_def apply_is_clip_def sd_batch_info_def
          kwargs_token_count_def agg_loss_def required_count_def split: option.splits)
  qed
qed

section \<open>The moving-average teacher\<close>

lemma ema_step_nth:
  assumes "same_shape T S" "i < length T" "j < length (T ! i)"
  shows "ema_step r T S ! i ! j = S ! i ! j + (1 - r) * (T ! i ! j - S ! i ! j)"
  using assms same_shape_length [OF assms(1)] same_shape_nth [OF assms(1,2)]
  by (simp add: ema_step_def nth_append algebra_simps)

lemma ema_step_shape: "same_shape T S \<Longrightarrow> same_shape (ema_step r T S) S"
proof -
  assume shape: "same_shape T S"
  have "map length (ema_step r T S) = map length T"
    using same_shape_length [OF shape] same_shape_nth [OF shape]
    by (intro nth_equalityI) (simp_all add: ema_step_def nth_append)
  with shape show ?thesis by (simp add: same_shape_def)
qed

lemma ema_iterates:
  assumes "same_shape T S"
  shows "same_shape (((\<lambda>ps. ema_step r ps S) ^^ n) T) S \<and>
     (\<forall>i<length T. \<forall>j<length (T ! i).
        ((\<lambda>ps. ema_step r ps S) ^^ n) T ! i ! j = S ! i ! j + (1 - r) ^ n * (T ! i ! j - S ! i ! j))"
proof (induction n)
  case (Suc n)
  let ?P = "((\<lambda>ps. ema_step r ps S) ^^ n) T"
  have shape: "same_shape ?P S" using Suc by simp
  have "ema_step r ?P S ! i ! j = S ! i ! j + (1 - r) ^ Suc n * (T ! i ! j - S ! i ! j)"
    if "i < length T" "j < length (T ! i)" for i j
  proof -
    have len: "length ?P = length T"
      using same_shape_length [OF shape] same_shape_length [OF assms] by simp
    then have "length (?P ! i) = length (T ! i)"
      using same_shape_nth [OF shape, of i] same_shape_nth [OF assms, of i] that by simp
    with len that have "i < length ?P" "j < length (?P ! i)" by simp_all
    then show ?thesis using ema_step_nth [OF shape] Suc that by simp
  qed
  then show ?case using ema_step_shape [OF shape] by simp
qed (use assms in simp)

text \<open>
  C23: while the student does not change, every entry of the moving-average teacher after \<open>n\<close> updates
  is the student's entry plus the initial gap times \<open>(1 - r) ^ n\<close>: the teacher never overshoots and,
  for a rate in \<open>(0, 1]\<close>, converges to the student.
\<close>

theorem ema_teacher_converges:
  assumes "same_shape T S" and "0 < r" "r \<le> 1" and "i < length T" "j < length (T ! i)"
  shows "((\<lambda>ps. ema_step r ps S) ^^ n) T ! i ! j = S ! i ! j + (1 - r) ^ n * (T ! i ! j - S ! i ! j) \<and>
     \<bar>((\<lambda>ps. ema_step r ps S) ^^ n) T ! i ! j - S ! i ! j\<bar> \<le> \<bar>T ! i ! j - S ! i ! j\<bar> \<and>
     (\<lambda>n. ((\<lambda>ps. ema_step r ps S) ^^ n) T ! i ! j) \<longlonglongrightarrow> S ! i ! j"
proof -
  have eq: "((\<lambda>ps. ema_step r ps S) ^^ n) T ! i ! j = S ! i ! j + (1 - r) ^ n * (T ! i ! j - S ! i ! j)" for n
    using ema_iterates [OF assms(1)] assms(4,5) by blast
  have rate: "\<bar>1 - r\<bar> < 1" "0 \<le> 1 - r" "1 - r \<le> 1" using assms by auto
  have "(\<lambda>n. S ! i ! j + (1 - r) ^ n * (T ! i ! j - S ! i ! j)) \<longlonglongrightarrow> S ! i ! j + 0 * (T ! i ! j - S ! i ! j)"
    using rate(1) by (intro tendsto_intros LIMSEQ_power_zero) simp
  moreover have "(1 - r) ^ n * \<bar>T ! i ! j - S ! i ! j\<bar> \<le> 1 * \<bar>T ! i ! j - S ! i ! j\<bar>"
    using rate by (intro mult_right_mono power_le_one) auto
  ultimately show ?thesis using rate by (simp add: eq abs_mult)
qed

lemma ema_teacher_converges_witness:
  "(\<lambda>n. ((\<lambda>ps. ema_step (1 / 2) ps [[1]]) ^^ n) [[5]] ! 0 ! 0) \<longlonglongrightarrow> (1 :: real)"
  using ema_teacher_converges [of "[[5]]" "[[1]]" "1 / 2" 0 0 0] by (simp add: same_shape_def)

text \<open>
  When the configuration asks for a moving-average teacher with a positive rate, the update raises
  exactly when the worker has no separate teacher module; every other configuration leaves the
  teacher alone.
\<close>

lemma update_teacher_cases:
  "update_teacher (Some c) mode tch student =
     (if mode = ''sdpo'' \<and> teacher_regularization c = ''ema'' \<and> teacher_update_rate c \<noteq> 0
      then (if tch = NoTeacher \<or> tch = SameModule then Inl ValueError
            else Inr (Separate (ema_step (teacher_update_rate c) (teacher_params tch) student)))
      else Inr tch)"
  by (cases tch) (simp_all add: update_teacher_def)

end
