(* ===== verification/Py_String.thy ===== *)
theory Py_String
  imports Verl_Base "HOL-Library.Sublist"
begin

text \<open>
  The string operations the program uses, on strings of code points below 256: \<open>str.strip\<close>,
  \<open>str.replace\<close>, \<open>str.join\<close>, \<open>str.format\<close> with keyword fields, and the removal of a delimited block as
  \<open>re.sub\<close> does it.
\<close>

section \<open>Whitespace\<close>

text \<open>\<open>str.isspace\<close> on code points below 256, which is also the class the regular expression \<open>\s\<close> matches.\<close>

definition py_space :: "char \<Rightarrow> bool" where
  "py_space c \<longleftrightarrow> (let n = (of_char c :: nat) in (9 \<le> n \<and> n \<le> 13) \<or> (28 \<le> n \<and> n \<le> 32) \<or> n = 133 \<or> n = 160)"

definition py_strip :: "string \<Rightarrow> string" where
  "py_strip s = rev (dropWhile py_space (rev (dropWhile py_space s)))"

definition py_join :: "string \<Rightarrow> string list \<Rightarrow> string" where
  "py_join sep xs = concat (case xs of [] \<Rightarrow> [] | y # ys \<Rightarrow> y # map (\<lambda>s. sep @ s) ys)"

section \<open>Searching and replacing\<close>

text \<open>The text before and after the first occurrence of a pattern.\<close>

fun split_first :: "string \<Rightarrow> string \<Rightarrow> (string \<times> string) option" where
  "split_first pat [] = (if pat = [] then Some ([], []) else None)"
| "split_first pat (c # cs) =
     (if prefix pat (c # cs) then Some ([], drop (length pat) (c # cs))
      else map_option (\<lambda>(a, b). (c # a, b)) (split_first pat cs))"

lemma split_first_Some: "split_first pat s = Some (a, b) \<Longrightarrow> s = a @ pat @ b"
proof (induction pat s arbitrary: a rule: split_first.induct)
  case (2 pat c cs)
  then show ?case
    by (auto simp: prefix_def split: if_splits)
qed (auto split: if_splits)

lemma split_first_length: "split_first pat s = Some (a, b) \<Longrightarrow> length b + length pat \<le> length s"
  by (drule split_first_Some) simp

lemma split_first_None: "split_first pat s = None \<longleftrightarrow> \<not> sublist pat s"
proof (induction pat s rule: split_first.induct)
  case (2 pat c cs)
  then show ?case by (auto simp: sublist_Cons_right)
qed simp

text \<open>\<open>s.replace(pat, new)\<close> for a non-empty pattern.\<close>

function py_replace :: "string \<Rightarrow> string \<Rightarrow> string \<Rightarrow> string" where
  "py_replace pat new s =
     (if pat = [] then s
      else case split_first pat s of None \<Rightarrow> s | Some (a, b) \<Rightarrow> a @ new @ py_replace pat new b)"
  by pat_completeness auto
termination
  by (relation "measure (\<lambda>(pat, new, s). length s)") (auto dest!: split_first_length simp: neq_Nil_conv)

declare py_replace.simps [simp del]

lemma py_replace_absent: "\<not> sublist pat s \<Longrightarrow> py_replace pat new s = s"
  by (subst py_replace.simps) (simp add: split_first_None [symmetric])

section \<open>Formatting\<close>

text \<open>
  \<open>template.format(**args)\<close> with plain field names: no conversions, format specifications, attribute
  or index lookups. Doubled braces are literal braces; an empty or numeric name refers to a
  positional argument, of which there are none.
\<close>

definition py_lookup :: "(string \<times> string) list \<Rightarrow> string \<Rightarrow> string result" where
  "py_lookup args name =
     (if list_all (\<lambda>c. 48 \<le> (of_char c :: nat) \<and> (of_char c :: nat) \<le> 57) name then Inl IndexError
      else case map_of args name of None \<Rightarrow> Inl KeyError | Some v \<Rightarrow> Inr v)"

function py_format :: "(string \<times> string) list \<Rightarrow> string \<Rightarrow> string result" where
  "py_format args s =
     (case s of
        [] \<Rightarrow> Inr []
      | c # cs \<Rightarrow>
          if c = CHR ''{'' then
            (if prefix ''{'' cs then rbind (py_format args (tl cs)) (\<lambda>r. Inr (CHR ''{'' # r))
             else case split_first ''}'' cs of
                    None \<Rightarrow> Inl ValueError
                  | Some (name, rest) \<Rightarrow>
                      if CHR ''{'' \<in> set name then Inl ValueError
                      else rbind (py_lookup args name) (\<lambda>v.
                             rbind (py_format args rest) (\<lambda>r. Inr (v @ r))))
          else if c = CHR ''}'' then
            (if prefix ''}'' cs then rbind (py_format args (tl cs)) (\<lambda>r. Inr (CHR ''}'' # r))
             else Inl ValueError)
          else rbind (py_format args cs) (\<lambda>r. Inr (c # r)))"
  by pat_completeness auto
termination
  by (relation "measure (\<lambda>(args, s). length s)") (auto dest!: split_first_length)

declare py_format.simps [simp del]

lemma py_format_Nil [simp]: "py_format args [] = Inr []"
  by (simp add: py_format.simps)

definition braceless :: "string \<Rightarrow> bool" where
  "braceless s \<longleftrightarrow> CHR ''{'' \<notin> set s \<and> CHR ''}'' \<notin> set s"

lemma py_format_literal:
  "braceless s \<Longrightarrow> py_format args (s @ t) = rbind (py_format args t) (\<lambda>r. Inr (s @ r))"
proof (induction s)
  case Nil
  then show ?case by (cases "py_format args t") simp_all
next
  case (Cons c s)
  then have "braceless s" "c \<noteq> CHR ''{''" "c \<noteq> CHR ''}''" by (auto simp: braceless_def)
  with Cons.IH show ?case
    by (subst py_format.simps) (cases "py_format args t", simp_all)
qed

lemma split_first_close: "CHR ''}'' \<notin> set name \<Longrightarrow> split_first ''}'' (name @ ''}'' @ t) = Some (name, t)"
  by (induction name) (auto simp: prefix_def)

text \<open>A field is replaced by its value; the value is not interpreted again.\<close>

lemma py_format_field:
  assumes "braceless name"
  shows "py_format args (CHR ''{'' # name @ CHR ''}'' # t) =
     rbind (py_lookup args name) (\<lambda>v. rbind (py_format args t) (\<lambda>r. Inr (v @ r)))"
proof -
  have "\<not> prefix ''{'' (name @ CHR ''}'' # t)"
    using assms by (cases name) (auto simp: braceless_def)
  moreover have "split_first ''}'' (name @ CHR ''}'' # t) = Some (name, t)"
    using split_first_close [of name t] assms by (simp add: braceless_def)
  moreover have "CHR ''{'' \<notin> set name" using assms by (simp add: braceless_def)
  ultimately show ?thesis by (subst py_format.simps) simp
qed

section \<open>Removing delimited blocks\<close>

text \<open>
  \<open>re.sub(open + ".*?" + close + "\s*", "", s, flags=DOTALL)\<close> for non-empty delimiters: at the first
  position where an opening delimiter is followed by some closing one, everything up to the first
  closing one and the whitespace after it goes away, and the scan continues behind it.
\<close>

function remove_blocks :: "string \<Rightarrow> string \<Rightarrow> string \<Rightarrow> string" where
  "remove_blocks op cl s =
     (if op = [] then s
      else case split_first op s of
             None \<Rightarrow> s
           | Some (before, inside) \<Rightarrow>
               (case split_first cl inside of
                  None \<Rightarrow> s
                | Some (_, after) \<Rightarrow> before @ remove_blocks op cl (dropWhile py_space after)))"
  by pat_completeness auto
termination
proof (relation "measure (\<lambda>(op, cl, s). length s)", goal_cases)
  case (2 op cl s x before inside y skipped after)
  then have "length inside < length s" "length after \<le> length inside"
    using split_first_length [of op s before inside] split_first_length [of cl inside skipped after]
    by (auto simp: neq_Nil_conv)
  then show ?case using length_dropWhile_le [of py_space after] by simp
qed simp

declare remove_blocks.simps [simp del]

lemma remove_blocks_length: "length (remove_blocks op cl s) \<le> length s"
proof (induction op cl s rule: remove_blocks.induct)
  case (1 op cl s)
  show ?case
  proof (cases "op = [] \<or> split_first op s = None")
    case True
    then show ?thesis by (subst remove_blocks.simps) auto
  next
    case False
    then obtain before inside where o: "op \<noteq> []" "split_first op s = Some (before, inside)" by auto
    show ?thesis
    proof (cases "split_first cl inside")
      case None
      then show ?thesis using o by (subst remove_blocks.simps) simp
    next
      case (Some p)
      then obtain skipped after where c: "split_first cl inside = Some (skipped, after)" by (cases p) simp
      have "length (remove_blocks op cl (dropWhile py_space after)) \<le> length (dropWhile py_space after)"
        using 1 [OF _ o(2) _ c] o(1) by simp
      also have "\<dots> \<le> length after" by (rule length_dropWhile_le)
      finally show ?thesis
        using o c split_first_Some [OF o(2)] split_first_Some [OF c]
        by (subst remove_blocks.simps) simp
    qed
  qed
qed

end
