(* ===== verification/Teacher_Batch.thy ===== *)
theory Teacher_Batch
  imports Self_Distillation Py_String
begin

text \<open>
  The teacher batch of self-distillation, built by \<open>_maybe_build_self_distillation_batch\<close> and its
  helpers in \<open>src/verl/trainer/ppo/ray_trainer.py\<close>: which solution and which feedback a sample's
  teacher sees, the reprompted messages, the token tensors and the mask of the samples that take part
  in the loss. The tokenizer is a parameter. The random debugging print has no counterpart.
\<close>

section \<open>State and inputs\<close>

record message =
  role :: string
  content :: string

record templates =
  reprompt_template :: string
  solution_template :: string
  feedback_template :: string
  expert_answer_template :: string

datatype expert_answer = NoAnswer | AnswerList "string list" | AnswerText string

text \<open>An entry of the raw feedback list: a string, or anything else.\<close>

datatype feedback_entry = FeedbackText string | OtherFeedback

record td_batch =
  td_responses :: "int list list"
  td_response_mask :: "int list list"
  td_uids :: "string list"
  td_raw_prompt :: "message list list option"
  td_expert_answers :: "expert_answer list option"

text \<open>
  The tokenizer: \<open>decode\<close> turns response ids into text; \<open>apply_chat_template\<close> with padding and
  truncation turns the conversations into the rows of \<open>input_ids\<close> and \<open>attention_mask\<close>, and without
  tokenization into text (\<open>render\<close>).
\<close>

record tokenizer =
  decode :: "int list \<Rightarrow> string"
  render :: "message list list \<Rightarrow> string list"
  apply_chat_template :: "message list list \<Rightarrow> int list list \<times> int list list"

section \<open>Solutions and feedback\<close>

definition collect_feedback :: "bool \<Rightarrow> feedback_entry list option option \<Rightarrow> nat \<Rightarrow> string option list" where
  "collect_feedback include_feedback reward_extra batch_size =
     (if include_feedback \<and> reward_extra \<noteq> None
      then (let raw_feedback = (case the reward_extra of None \<Rightarrow> [] | Some l \<Rightarrow> l)
            in map (\<lambda>i. if i < min (length raw_feedback) batch_size
                        then (case raw_feedback ! i of
                                FeedbackText s \<Rightarrow> if s \<noteq> [] \<and> py_strip s \<noteq> [] then Some s else None
                              | OtherFeedback \<Rightarrow> None)
                        else None) [0..<batch_size])
      else replicate batch_size None)"

definition remove_thinking_trace :: "string \<Rightarrow> string" where
  "remove_thinking_trace text = remove_blocks ''<think>'' ''</think>'' text"

text \<open>The loop over the samples; \<open>defaultdict(list)\<close> is a function into lists.\<close>

definition collect_solutions_by_uid :: "'u list \<Rightarrow> vec \<Rightarrow> real \<Rightarrow> 'u \<Rightarrow> nat list" where
  "collect_solutions_by_uid uids seq_scores threshold =
     foldl (\<lambda>success (idx, uid). if seq_scores ! idx \<ge> threshold
                                 then success(uid := success uid @ [idx]) else success)
       (\<lambda>_. []) (enumerate 0 uids)"

definition get_solution ::
  "nat \<Rightarrow> ('u \<Rightarrow> nat list) \<Rightarrow> 'u list \<Rightarrow> string list \<Rightarrow> bool \<Rightarrow> bool \<Rightarrow> string option" where
  "get_solution idx success_by_uid uids response_texts dont_reprompt remove_thinking =
     (let solution_idxs = success_by_uid (uids ! idx);
          solution_idxs = (if dont_reprompt then filter (\<lambda>j. j \<noteq> idx) solution_idxs else solution_idxs)
      in case solution_idxs of
           [] \<Rightarrow> None
         | j # _ \<Rightarrow> Some (if remove_thinking then remove_thinking_trace (response_texts ! j)
                          else response_texts ! j))"

definition get_expert_solution :: "expert_answer list option \<Rightarrow> string \<Rightarrow> nat \<Rightarrow> string option" where
  "get_expert_solution answers template idx =
     (case answers of
        None \<Rightarrow> None
      | Some as \<Rightarrow>
          (case (case as ! idx of
                   NoAnswer \<Rightarrow> None
                 | AnswerList items \<Rightarrow> Some (py_join '' | '' items)
                 | AnswerText s \<Rightarrow> Some s) of
             None \<Rightarrow> None
           | Some text \<Rightarrow> if py_strip text = [] then None
                          else Some (py_replace ''{expert_answer}'' text template)))"

section \<open>The teacher message\<close>

definition use_feedback :: "sd_config \<Rightarrow> string option \<Rightarrow> string option \<Rightarrow> bool" where
  "use_feedback cfg solution feedback \<longleftrightarrow>
     feedback \<noteq> None \<and> (\<not> environment_feedback_only_without_solution cfg \<or> solution = None)"

definition reprompt_text ::
  "sd_config \<Rightarrow> templates \<Rightarrow> string \<Rightarrow> string option \<Rightarrow> string option \<Rightarrow> string result" where
  "reprompt_text cfg tmpl prompt solution feedback =
     rbind (case solution of None \<Rightarrow> Inr []
            | Some s \<Rightarrow> py_format [(''successful_previous_attempt'', s)] (solution_template tmpl)) (\<lambda>solution_section.
     rbind (if use_feedback cfg solution feedback
            then py_format [(''feedback_raw'', the feedback)] (feedback_template tmpl) else Inr []) (\<lambda>feedback_section.
     if solution \<noteq> None \<or> use_feedback cfg solution feedback \<or> always_apply_reprompt cfg
     then py_format [(''prompt'', prompt), (''solution'', solution_section), (''feedback'', feedback_section)]
            (reprompt_template tmpl)
     else Inr prompt))"

definition build_teacher_message ::
  "sd_config \<Rightarrow> templates \<Rightarrow> message list \<Rightarrow> string option \<Rightarrow> string option \<Rightarrow> message list result" where
  "build_teacher_message cfg tmpl raw_prompt solution feedback =
     rbind (reprompt_text cfg tmpl (content (last raw_prompt)) solution feedback) (\<lambda>text.
       Inr (butlast raw_prompt @ [\<lparr>role = ''user'', content = text\<rparr>]))"

section \<open>The batch\<close>

definition compute_position_id_with_mask :: "int list \<Rightarrow> int list" where
  "compute_position_id_with_mask msk = map (\<lambda>i. max 0 (sum_list (take (i + 1) msk) - 1)) [0..<length msk]"

definition cat_rows :: "'a list list \<Rightarrow> 'a list list \<Rightarrow> 'a list list" where
  "cat_rows = map2 (@)"

record td_metrics =
  success_group_fraction :: real
  success_sample_fraction :: real
  feedback_available_fraction :: real
  feedback_used_fraction :: real
  reprompt_sample_fraction :: real
  already_correct_fraction :: real
  expert_answer_fraction :: real

record td_result =
  teacher_input_ids :: "int list list"
  teacher_attention_mask :: "int list list"
  teacher_position_ids :: "int list list"
  td_self_distillation_mask :: vec
  correct_mask :: "bool list"
  teacher_messages :: "message list list"
  teacher_prompt :: "string list option"

text \<open>
  \<open>teacher_prompt\<close> is the entry the code adds to \<open>reward_extra_infos_dict\<close> when there is one.
\<close>

definition solutions_and_feedback ::
  "sd_config \<Rightarrow> templates \<Rightarrow> tokenizer \<Rightarrow> td_batch \<Rightarrow> vec \<Rightarrow> feedback_entry list option option \<Rightarrow>
   string option list \<times> string option list \<times> (string \<Rightarrow> nat list)" where
  "solutions_and_feedback cfg tmpl tok batch seq_scores reward_extra =
     (let bs = length (td_responses batch);
          texts = map (decode tok) (td_responses batch)
      in if use_dataset_expert_answer cfg
         then (map (get_expert_solution (td_expert_answers batch) (expert_answer_template tmpl)) [0..<bs],
               replicate bs None, (\<lambda>_. []))
         else (let success = collect_solutions_by_uid (td_uids batch) seq_scores (success_reward_threshold cfg)
               in (map (\<lambda>i. get_solution i success (td_uids batch) texts (dont_reprompt_on_self_success cfg)
                              (remove_thinking_from_demonstration cfg)) [0..<bs],
                   collect_feedback (include_environment_feedback cfg) reward_extra bs, success)))"

definition distillation_mask :: "sd_config \<Rightarrow> string option list \<Rightarrow> string option list \<Rightarrow> vec \<Rightarrow> vec" where
  "distillation_mask cfg solutions feedback seq_scores =
     (let base = map2 (\<lambda>s f. indicator_of (s \<noteq> None \<or> use_feedback cfg s f \<or> always_apply_reprompt cfg))
                   solutions feedback;
          already_correct = map (\<lambda>x. indicator_of (x \<ge> success_reward_threshold cfg)) seq_scores
      in if use_dataset_expert_answer cfg \<and> skip_distillation_on_correct cfg
         then map2 (\<lambda>b c. b * (1 - c)) base already_correct
         else base)"

definition count_true :: "('a \<Rightarrow> bool) \<Rightarrow> 'a list \<Rightarrow> real" where
  "count_true P xs = real (length (filter P xs))"

definition td_metrics_of ::
  "sd_config \<Rightarrow> string list \<Rightarrow> string option list \<Rightarrow> string option list \<Rightarrow> (string \<Rightarrow> nat list) \<Rightarrow> vec \<Rightarrow>
   vec \<Rightarrow> td_metrics" where
  "td_metrics_of cfg uids solutions feedback success msk seq_scores =
     (let n = real (max (length solutions) 1); groups = remdups uids
      in \<lparr>success_group_fraction = count_true (\<lambda>u. length (success u) > 0) groups / real (max (length groups) 1),
          success_sample_fraction = count_true (\<lambda>s. s \<noteq> None) solutions / n,
          feedback_available_fraction = count_true (\<lambda>f. f \<noteq> None) feedback / n,
          feedback_used_fraction = count_true (\<lambda>(s, f). use_feedback cfg s f) (zip solutions feedback) / n,
          reprompt_sample_fraction = vec_mean msk,
          already_correct_fraction = count_true (\<lambda>x. x \<ge> success_reward_threshold cfg) seq_scores / n,
          expert_answer_fraction =
            (if use_dataset_expert_answer cfg then count_true (\<lambda>s. s \<noteq> None) solutions / n else 0)\<rparr>)"

definition maybe_build_self_distillation_batch ::
  "sd_config option \<Rightarrow> string \<Rightarrow> templates \<Rightarrow> tokenizer \<Rightarrow> td_batch \<Rightarrow> mat \<Rightarrow>
   feedback_entry list option option \<Rightarrow> (td_result \<times> td_metrics) option result" where
  "maybe_build_self_distillation_batch config loss_mode tmpl tok batch reward_tensor reward_extra =
     (case config of
        None \<Rightarrow> Inr None
      | Some cfg \<Rightarrow>
          if loss_mode \<noteq> ''sdpo'' then Inr None
          else (case td_raw_prompt batch of
                  None \<Rightarrow> Inl ValueError
                | Some prompts \<Rightarrow>
                    ensure (list_all (\<lambda>p. p \<noteq> []) prompts) IndexError
                     (let seq_scores = map sum_list reward_tensor
                      in case solutions_and_feedback cfg tmpl tok batch seq_scores reward_extra of
                           (solutions, feedback, success) \<Rightarrow>
                             rbind (mapM_result (\<lambda>(p, s, f). build_teacher_message cfg tmpl p s f)
                                      (zip prompts (zip solutions feedback))) (\<lambda>messages.
                              (let (prompt_ids, prompt_mask) = apply_chat_template tok messages;
                                   attn = cat_rows prompt_mask (td_response_mask batch);
                                   msk = distillation_mask cfg solutions feedback seq_scores
                               in Inr (Some
                                    (\<lparr>teacher_input_ids = cat_rows prompt_ids (td_responses batch),
                                      teacher_attention_mask = attn,
                                      teacher_position_ids = map compute_position_id_with_mask attn,
                                      td_self_distillation_mask = msk,
                                      correct_mask = map (\<lambda>x. x \<ge> success_reward_threshold cfg) seq_scores,
                                      teacher_messages = messages,
                                      teacher_prompt = (case reward_extra of
                                          None \<Rightarrow> None | Some _ \<Rightarrow> Some (render tok messages))\<rparr>,
                                     td_metrics_of cfg (td_uids batch) solutions feedback success msk
                                       seq_scores)))))))"

text \<open>The default templates of \<open>SelfDistillationConfig\<close>.\<close>

definition default_templates :: templates where
  "default_templates = \<lparr>
     reprompt_template = ''{prompt}{solution}{feedback}'' @ [CHR 0x0A, CHR 0x0A] @
       ''Correctly solve the original question.'' @ [CHR 0x0A],
     solution_template = [CHR 0x0A] @ ''Correct solution:'' @ [CHR 0x0A, CHR 0x0A] @
       ''{successful_previous_attempt}'' @ [CHR 0x0A, CHR 0x0A],
     feedback_template = [CHR 0x0A] @ ''The following is feedback from your unsuccessful earlier attempt:'' @
       [CHR 0x0A, CHR 0x0A] @ ''{feedback_raw}'' @ [CHR 0x0A, CHR 0x0A],
     expert_answer_template = ''<answer>{expert_answer}</answer>''\<rparr>"

section \<open>Which solution a sample sees\<close>

lemma collect_solutions_filter:
  "collect_solutions_by_uid uids scores thr u =
     filter (\<lambda>i. uids ! i = u \<and> scores ! i \<ge> thr) [0..<length uids]"
proof -
  let ?step = "\<lambda>success (idx, uid). if scores ! idx \<ge> thr then success(uid := success uid @ [idx]) else success"
  have "foldl ?step (\<lambda>_. []) (enumerate 0 us) u =
      filter (\<lambda>i. us ! i = u \<and> scores ! i \<ge> thr) [0..<length us]" for us
  proof (induction us rule: rev_induct)
    case (snoc x us)
    have "enumerate 0 (us @ [x]) = enumerate 0 us @ [(length us, x)]" by (simp add: enumerate_append_eq)
    moreover have "filter (\<lambda>i. (us @ [x]) ! i = u \<and> scores ! i \<ge> thr) [0..<length us] =
        filter (\<lambda>i. us ! i = u \<and> scores ! i \<ge> thr) [0..<length us]"
      by (intro filter_cong) (auto simp: nth_append)
    ultimately show ?case using snoc by (auto simp: nth_append)
  qed simp
  then show ?thesis by (simp add: collect_solutions_by_uid_def)
qed

text \<open>The samples whose response may demonstrate the solution of sample \<open>i\<close>.\<close>

definition demonstrates :: "string list \<Rightarrow> vec \<Rightarrow> real \<Rightarrow> bool \<Rightarrow> nat \<Rightarrow> nat \<Rightarrow> bool" where
  "demonstrates uids scores thr dont_self i j \<longleftrightarrow>
     j < length uids \<and> uids ! j = uids ! i \<and> scores ! j \<ge> thr \<and> (if dont_self then j \<noteq> i else True)"

lemma demonstration_list:
  "(if dont_self then filter (\<lambda>j. j \<noteq> i) (collect_solutions_by_uid uids scores thr (uids ! i))
    else collect_solutions_by_uid uids scores thr (uids ! i)) =
   filter (demonstrates uids scores thr dont_self i) [0..<length uids]"
  by (auto simp: collect_solutions_filter demonstrates_def conj_ac intro!: filter_cong)

lemma filter_upt_first:
  assumes "filter P [0..<n] = j # js"
  shows "P j \<and> j < n \<and> (\<forall>k<j. \<not> P k)"
proof -
  have j: "P j" "j < n" using assms by (metis filter_eq_ConsD in_set_conv_decomp set_upt atLeastLessThan_iff)+
  moreover have "\<not> P k" if "k < j" for k
  proof
    assume "P k"
    have "sorted (j # js)" unfolding assms [symmetric] by (simp add: sorted_wrt_filter)
    moreover have "k \<in> set (j # js)" unfolding assms [symmetric] using \<open>P k\<close> that j(2) by simp
    ultimately show False using that by auto
  qed
  ultimately show ?thesis by blast
qed

text \<open>
  C4: a sample's teacher is shown a solution exactly when some sample of the same prompt reached the
  success threshold (other than itself, when self-demonstrations are excluded), and then it is the
  response of the first such sample, with its thinking trace removed if so configured.
\<close>

theorem solution_from_own_group:
  "get_solution i (collect_solutions_by_uid uids scores thr) uids texts dont_self strip_thinking =
     (if \<exists>j. demonstrates uids scores thr dont_self i j
      then Some (let text = texts ! (LEAST j. demonstrates uids scores thr dont_self i j)
                 in if strip_thinking then remove_thinking_trace text else text)
      else None)"
proof (cases "filter (demonstrates uids scores thr dont_self i) [0..<length uids]")
  case Nil
  then have "\<not> demonstrates uids scores thr dont_self i j" for j
    by (auto simp: filter_empty_conv demonstrates_def)
  then show ?thesis using Nil by (simp only: get_solution_def Let_def demonstration_list) simp
next
  case (Cons j js)
  note first = filter_upt_first [OF Cons]
  have "(LEAST j. demonstrates uids scores thr dont_self i j) = j"
    using first by (intro Least_equality) (auto simp: not_less [symmetric])
  then show ?thesis
    unfolding get_solution_def Let_def demonstration_list Cons using first by auto
qed

section \<open>The rendered prompt\<close>

definition solution_section :: "string option \<Rightarrow> string" where
  "solution_section solution =
     (case solution of None \<Rightarrow> []
      | Some s \<Rightarrow> [CHR 0x0A] @ ''Correct solution:'' @ [CHR 0x0A, CHR 0x0A] @ s @ [CHR 0x0A, CHR 0x0A])"

definition feedback_section :: "string option \<Rightarrow> string" where
  "feedback_section feedback =
     (case feedback of None \<Rightarrow> []
      | Some f \<Rightarrow> [CHR 0x0A] @ ''The following is feedback from your unsuccessful earlier attempt:'' @
          [CHR 0x0A, CHR 0x0A] @ f @ [CHR 0x0A, CHR 0x0A])"

lemma py_format_one:
  assumes "braceless pre" "braceless name" "braceless post" "py_lookup args name = Inr v"
  shows "py_format args (pre @ ''{'' @ name @ ''}'' @ post) = Inr (pre @ v @ post)"
  using py_format_literal [OF assms(1)] py_format_field [OF assms(2), of args post]
    py_format_literal [OF assms(3), of args "[]"] assms(4) by simp

lemma solution_template_format:
  "py_format [(''successful_previous_attempt'', s)] (solution_template default_templates) =
     Inr (solution_section (Some s))"
  using py_format_one [of "[CHR 0x0A] @ ''Correct solution:'' @ [CHR 0x0A, CHR 0x0A]"
      "''successful_previous_attempt''" "[CHR 0x0A, CHR 0x0A]" "[(''successful_previous_attempt'', s)]" s]
  by (simp add: default_templates_def solution_section_def braceless_def py_lookup_def)

lemma feedback_template_format:
  "py_format [(''feedback_raw'', s)] (feedback_template default_templates) = Inr (feedback_section (Some s))"
  using py_format_one [of "[CHR 0x0A] @ ''The following is feedback from your unsuccessful earlier attempt:'' @
        [CHR 0x0A, CHR 0x0A]" "''feedback_raw''" "[CHR 0x0A, CHR 0x0A]" "[(''feedback_raw'', s)]" s]
  by (simp add: default_templates_def feedback_section_def braceless_def py_lookup_def)

lemma reprompt_template_format:
  "py_format [(''prompt'', p), (''solution'', s), (''feedback'', f)] (reprompt_template default_templates) =
     Inr (p @ s @ f @ [CHR 0x0A, CHR 0x0A] @ ''Correctly solve the original question.'' @ [CHR 0x0A])"
proof -
  let ?args = "[(''prompt'', p), (''solution'', s), (''feedback'', f)]"
  let ?post = "[CHR 0x0A, CHR 0x0A] @ ''Correctly solve the original question.'' @ [CHR 0x0A]"
  have post: "py_format ?args ?post = Inr ?post"
    using py_format_literal [of ?post ?args "[]"] by (simp add: braceless_def)
  show ?thesis
    using py_format_field [of "''prompt''" ?args] py_format_field [of "''solution''" ?args]
      py_format_field [of "''feedback''" ?args] post
    by (simp add: default_templates_def braceless_def py_lookup_def)
qed

text \<open>
  With the default templates the teacher's prompt never fails to render and is the student's
  prompt followed by the solution section, the feedback section and the closing instruction; the
  inserted texts are copied verbatim, braces included, whatever the model or the environment wrote.
\<close>

theorem default_reprompt:
  "reprompt_text cfg default_templates prompt solution feedback =
     Inr (if (case solution of None \<Rightarrow> False | Some _ \<Rightarrow> True) \<or> use_feedback cfg solution feedback
             \<or> always_apply_reprompt cfg
          then prompt @ solution_section solution @
                 feedback_section (if use_feedback cfg solution feedback then feedback else None) @
                 [CHR 0x0A, CHR 0x0A] @ ''Correctly solve the original question.'' @ [CHR 0x0A]
          else prompt)"
proof -
  have sol: "(case solution of None \<Rightarrow> Inr [] | Some s \<Rightarrow>
      py_format [(''successful_previous_attempt'', s)] (solution_template default_templates)) =
      Inr (solution_section solution)"
    by (cases solution) (simp_all only: option.case solution_template_format, simp add: solution_section_def)
  have fb: "(if use_feedback cfg solution feedback
       then py_format [(''feedback_raw'', the feedback)] (feedback_template default_templates) else Inr []) =
      Inr (feedback_section (if use_feedback cfg solution feedback then feedback else None))"
  proof (cases "use_feedback cfg solution feedback")
    case True
    then obtain f where "feedback = Some f" by (auto simp: use_feedback_def)
    with True show ?thesis by (simp only: if_True option.sel feedback_template_format)
  qed (simp add: feedback_section_def)
  have some: "(solution \<noteq> None) = (case solution of None \<Rightarrow> False | Some _ \<Rightarrow> True)"
    by (cases solution) simp_all
  show ?thesis
    unfolding reprompt_text_def sol fb rbind_simps reprompt_template_format some
    by (rule if_distrib [of Inr, symmetric])
qed

section \<open>Thinking traces\<close>

lemma split_first_head:
  assumes "c \<notin> set pre"
  shows "split_first (c # pat) (pre @ (c # pat) @ t) = Some (pre, t)"
  using assms by (induction pre) (auto simp: prefix_def)

text \<open>
  Removing thinking traces: a text without a complete \<open><think> ... </think>\<close> block is unchanged,
  the result is never longer, and a trace whose body holds no closing tag is dropped together with
  the whitespace behind it, after which the rest of the text is processed in the same way.
\<close>

theorem remove_thinking_spec:
  assumes "CHR ''<'' \<notin> set pre" and "CHR ''<'' \<notin> set body"
  shows "remove_thinking_trace (pre @ ''<think>'' @ body @ ''</think>'' @ rest) =
       pre @ remove_thinking_trace (dropWhile py_space rest) \<and>
     remove_thinking_trace pre = pre \<and>
     remove_thinking_trace (pre @ ''<think>'' @ body) = pre @ ''<think>'' @ body \<and>
     length (remove_thinking_trace text) \<le> length text"
proof -
  have op: "split_first ''<think>'' (pre @ ''<think>'' @ t) = Some (pre, t)" for t
    using split_first_head [OF assms(1), of "''think>''" t] by simp
  have cl: "split_first ''</think>'' (body @ ''</think>'' @ rest) = Some (body, rest)"
    using split_first_head [OF assms(2), of "''/think>''" rest] by simp
  have none: "split_first (CHR ''<'' # p) s = None" if "CHR ''<'' \<notin> set s" for p s
    using that by (induction s) (auto simp: prefix_def)
  show ?thesis
    unfolding remove_thinking_trace_def
    using remove_blocks.simps [of "''<think>''" "''</think>''" "pre @ ''<think>'' @ body @ ''</think>'' @ rest"]
      remove_blocks.simps [of "''<think>''" "''</think>''" pre]
      remove_blocks.simps [of "''<think>''" "''</think>''" "pre @ ''<think>'' @ body"]
      op [of "body @ ''</think>'' @ rest"] op [of body] cl none [OF assms(1)] none [OF assms(2)] remove_blocks_length
    by simp
qed

lemma remove_thinking_spec_witness:
  "remove_thinking_trace ''A<think>x y</think>  B'' = ''AB''"
proof -
  have "py_space (CHR '' '')" "\<not> py_space (CHR ''B'')" by (simp_all add: py_space_def)
  moreover have "remove_thinking_trace ''B'' = ''B''"
    using remove_thinking_spec [of "''B''" "[]" "[]" "[]"] by simp
  ultimately show ?thesis using remove_thinking_spec [of "''A''" "''x y''" "''  B''" "[]"] by simp
qed

section \<open>The token tensors\<close>

lemma length_position_ids [simp]: "length (compute_position_id_with_mask m) = length m"
  by (simp add: compute_position_id_with_mask_def)

text \<open>
  What the code relies on of the tokenizer: with padding, one row of ids and one mask row per
  conversation, all of one width.
\<close>

definition pads_rows :: "(message list list \<Rightarrow> int list list \<times> int list list) \<Rightarrow> bool" where
  "pads_rows template \<longleftrightarrow> (\<forall>ms. length (fst (template ms)) = length ms \<and> length (snd (template ms)) = length ms \<and>
     (\<exists>w. \<forall>r \<in> set (fst (template ms)) \<union> set (snd (template ms)). length r = w))"

lemma length_solutions:
  assumes "solutions_and_feedback cfg tmpl tok batch scores extra = (solutions, feedback, success)"
  shows "length solutions = length (td_responses batch) \<and> length feedback = length (td_responses batch)"
  using assms by (auto simp: solutions_and_feedback_def collect_feedback_def Let_def split: if_splits)

lemma in_cat_rows:
  assumes "r \<in> set (cat_rows A B)"
  obtains a b where "a \<in> set A" "b \<in> set B" "r = a @ b"
  using assms by (auto simp: cat_rows_def dest: set_zip_leftD set_zip_rightD)

text \<open>
  The teacher tensors of a batch: one row per response, ids, mask and position ids of one common
  width, and the last columns of the ids are exactly the student's response, so the log-probabilities
  the teacher computes on them are aligned with those of the student.
\<close>

theorem teacher_rows_aligned:
  assumes run: "maybe_build_self_distillation_batch config mode tmpl tok batch rewards extra = Inr (Some (res, metrics))"
    and tok: "pads_rows (apply_chat_template tok)"
    and shapes: "length (the (td_raw_prompt batch)) = length (td_responses batch)"
      "same_shape (td_responses batch) (td_response_mask batch)"
      "\<forall>r\<in>set (td_responses batch). length r = L"
  shows "length (teacher_input_ids res) = length (td_responses batch) \<and>
     same_shape (teacher_input_ids res) (teacher_attention_mask res) \<and>
     same_shape (teacher_attention_mask res) (teacher_position_ids res) \<and>
     (\<exists>w. \<forall>r\<in>set (teacher_input_ids res). length r = w + L) \<and>
     (\<forall>i<length (td_responses batch). \<exists>p. teacher_input_ids res ! i = p @ td_responses batch ! i)"
proof -
  let ?R = "td_responses batch" and ?M = "td_response_mask batch"
  from run obtain cfg where cfg: "config = Some cfg" "mode = ''sdpo''"
    by (cases config) (auto simp: maybe_build_self_distillation_batch_def split: if_splits)
  with run obtain prompts where prompts: "td_raw_prompt batch = Some prompts"
    by (cases "td_raw_prompt batch") (auto simp: maybe_build_self_distillation_batch_def)
  obtain solutions feedback success where sf:
    "solutions_and_feedback cfg tmpl tok batch (map sum_list rewards) extra = (solutions, feedback, success)"
    by (metis prod_cases3)
  from run cfg prompts sf obtain ms where
    msgs: "mapM_result (\<lambda>(p, s, f). build_teacher_message cfg tmpl p s f) (zip prompts (zip solutions feedback)) = Inr ms"
    and fields: "teacher_input_ids res = cat_rows (fst (apply_chat_template tok ms)) ?R"
      "teacher_attention_mask res = cat_rows (snd (apply_chat_template tok ms)) ?M"
      "teacher_position_ids res = map compute_position_id_with_mask (cat_rows (snd (apply_chat_template tok ms)) ?M)"
    by (auto simp: maybe_build_self_distillation_batch_def Let_def ensure_eq_Inr rbind_eq_Inr case_prod_beta)
  obtain ids msk where tmplt: "apply_chat_template tok ms = (ids, msk)" by fastforce
  note res = fields [unfolded tmplt fst_conv snd_conv]
  have "length ms = length ?R"
    using mapM_result_length [OF msgs] length_solutions [OF sf] shapes(1) prompts by simp
  with tok tmplt obtain w where w: "length ids = length ?R" "length msk = length ?R"
    "\<forall>r\<in>set ids. length r = w" "\<forall>r\<in>set msk. length r = w"
    unfolding pads_rows_def by (metis UnI1 UnI2 fst_conv snd_conv)
  have len: "length ?M = length ?R" using same_shape_length [OF shapes(2)] by simp
  have "same_shape (cat_rows ids ?R) (cat_rows msk ?M)"
    unfolding same_shape_def
    using w len same_shape_nth [OF shapes(2)]
    by (intro nth_equalityI) (auto simp: cat_rows_def)
  moreover have "\<forall>r\<in>set (cat_rows ids ?R). length r = w + L"
    using w(3) shapes(3) by (auto elim!: in_cat_rows)
  moreover have "cat_rows ids ?R ! i = ids ! i @ ?R ! i" if "i < length ?R" for i
    using that w(1) by (simp add: cat_rows_def)
  moreover have "length (cat_rows ids ?R) = length ?R" using w(1) by (simp add: cat_rows_def)
  moreover have "same_shape (cat_rows msk ?M) (map compute_position_id_with_mask (cat_rows msk ?M))"
    by (simp add: same_shape_def)
  ultimately show ?thesis unfolding res by blast
qed

definition toy_tokenizer :: tokenizer where
  "toy_tokenizer = \<lparr>decode = (\<lambda>_. ''r''), render = (\<lambda>ms. map (\<lambda>_. ''p'') ms), apply_chat_template = (\<lambda>ms. (map (\<lambda>_. [7, 8]) ms, map (\<lambda>_. [0, 1]) ms))\<rparr>"

definition toy_batch :: td_batch where
  "toy_batch = \<lparr>td_responses = [[5, 6]], td_response_mask = [[1, 1]], td_uids = [''u''],
     td_raw_prompt = Some [[\<lparr>role = ''user'', content = ''q''\<rparr>]], td_expert_answers = None\<rparr>"

lemma teacher_rows_aligned_witness:
  "\<exists>res metrics. maybe_build_self_distillation_batch (Some example_sd_config) ''sdpo'' default_templates
       toy_tokenizer toy_batch [[0]] None = Inr (Some (res, metrics)) \<and> (\<exists>p. teacher_input_ids res ! 0 = p @ [5, 6])"
proof -
  have tok: "pads_rows (apply_chat_template toy_tokenizer)"
    by (auto simp: pads_rows_def toy_tokenizer_def)
  have sf: "solutions_and_feedback example_sd_config default_templates toy_tokenizer toy_batch [0] None =
      ([None], [None], \<lambda>_. [])"
    by (simp add: solutions_and_feedback_def example_sd_config_def toy_batch_def collect_feedback_def
        collect_solutions_by_uid_def get_solution_def numeral_eq_Suc)
  have msg: "build_teacher_message example_sd_config default_templates [\<lparr>role = ''user'', content = ''q''\<rparr>] None None =
      Inr [\<lparr>role = ''user'', content = ''q''\<rparr>]"
    by (simp add: build_teacher_message_def reprompt_text_def use_feedback_def example_sd_config_def)
  obtain res metrics where run: "maybe_build_self_distillation_batch (Some example_sd_config) ''sdpo''
      default_templates toy_tokenizer toy_batch [[0]] None = Inr (Some (res, metrics))"
    using sf msg by (simp add: maybe_build_self_distillation_batch_def toy_batch_def toy_tokenizer_def Let_def)
  from teacher_rows_aligned [OF run tok, of 2] run show ?thesis
    by (force simp: toy_batch_def same_shape_def)
qed

section \<open>The mask and the messages agree\<close>

text \<open>Whether the environment feedback of a sample is shown, and the text a reprompted sample sees.\<close>

definition feedback_shown :: "bool \<Rightarrow> string option \<Rightarrow> string option \<Rightarrow> string option" where
  "feedback_shown only_without_solution solution feedback =
     (if only_without_solution \<and> solution \<noteq> None then None else feedback)"

definition rendered_section :: "string \<Rightarrow> string \<Rightarrow> string option \<Rightarrow> string \<Rightarrow> bool" where
  "rendered_section field template content_shown section_text \<longleftrightarrow>
     (case content_shown of None \<Rightarrow> section_text = []
      | Some c \<Rightarrow> py_format [(field, c)] template = Inr section_text)"

definition rendered_reprompt :: "templates \<Rightarrow> string \<Rightarrow> string option \<Rightarrow> string option \<Rightarrow> string \<Rightarrow> bool" where
  "rendered_reprompt tmpl prompt solution shown message_text \<longleftrightarrow>
     (\<exists>sol fb. rendered_section ''successful_previous_attempt'' (solution_template tmpl) solution sol \<and>
        rendered_section ''feedback_raw'' (feedback_template tmpl) shown fb \<and>
        py_format [(''prompt'', prompt), (''solution'', sol), (''feedback'', fb)] (reprompt_template tmpl) =
          Inr message_text)"

lemma use_feedback_shown:
  "use_feedback cfg solution feedback \<longleftrightarrow>
     feedback_shown (environment_feedback_only_without_solution cfg) solution feedback \<noteq> None"
  by (auto simp: use_feedback_def feedback_shown_def)

lemma shown_feedback:
  "use_feedback cfg solution feedback \<Longrightarrow>
     feedback_shown (environment_feedback_only_without_solution cfg) solution feedback = Some (the feedback)"
  by (auto simp: use_feedback_def feedback_shown_def)

lemma reprompt_text_rendered:
  assumes "reprompt_text cfg tmpl prompt solution feedback = Inr message_text"
    and "solution \<noteq> None \<or> use_feedback cfg solution feedback \<or> always_apply_reprompt cfg"
  shows "rendered_reprompt tmpl prompt solution
     (feedback_shown (environment_feedback_only_without_solution cfg) solution feedback) message_text"
proof -
  from assms obtain sol fb where
    sol: "(case solution of None \<Rightarrow> Inr [] | Some s \<Rightarrow>
       py_format [(''successful_previous_attempt'', s)] (solution_template tmpl)) = Inr sol"
    and fb: "(if use_feedback cfg solution feedback
       then py_format [(''feedback_raw'', the feedback)] (feedback_template tmpl) else Inr []) = Inr fb"
    and message_text: "py_format [(''prompt'', prompt), (''solution'', sol), (''feedback'', fb)]
       (reprompt_template tmpl) = Inr message_text"
    by (auto simp: reprompt_text_def rbind_eq_Inr)
  have "rendered_section ''successful_previous_attempt'' (solution_template tmpl) solution sol"
    using sol by (cases solution) (simp_all add: rendered_section_def)
  moreover have "rendered_section ''feedback_raw'' (feedback_template tmpl)
      (feedback_shown (environment_feedback_only_without_solution cfg) solution feedback) fb"
    using fb use_feedback_shown [of cfg solution feedback] shown_feedback [of cfg solution feedback]
    by (auto simp: rendered_section_def split: if_splits)
  ultimately show ?thesis using message_text by (auto simp: rendered_reprompt_def)
qed

lemma teacher_message_cases:
  assumes "build_teacher_message cfg tmpl raw solution feedback = Inr msg" and "raw \<noteq> []"
    and "shown = feedback_shown (environment_feedback_only_without_solution cfg) solution feedback"
  shows "(solution \<noteq> None \<or> shown \<noteq> None \<or> always_apply_reprompt cfg \<longrightarrow>
       (\<exists>message_text. rendered_reprompt tmpl (content (last raw)) solution shown message_text \<and>
          msg = butlast raw @ [\<lparr>role = ''user'', content = message_text\<rparr>])) \<and>
     (\<not> (solution \<noteq> None \<or> shown \<noteq> None \<or> always_apply_reprompt cfg) \<longrightarrow>
       msg = butlast raw @ [\<lparr>role = ''user'', content = content (last raw)\<rparr>])"
proof -
  from assms(1) obtain message_text where
    message_text: "reprompt_text cfg tmpl (content (last raw)) solution feedback = Inr message_text"
    and msg: "msg = butlast raw @ [\<lparr>role = ''user'', content = message_text\<rparr>]"
    by (auto simp: build_teacher_message_def rbind_eq_Inr)
  have shown: "use_feedback cfg solution feedback \<longleftrightarrow> shown \<noteq> None"
    unfolding assms(3) by (rule use_feedback_shown)
  have "message_text = content (last raw)"
    if "\<not> (solution \<noteq> None \<or> shown \<noteq> None \<or> always_apply_reprompt cfg)"
    using message_text that shown by (simp add: reprompt_text_def)
  with reprompt_text_rendered [OF message_text] msg show ?thesis unfolding assms(3) [symmetric] shown by blast
qed

lemma distillation_mask_nth:
  assumes "i < length solutions" "length feedback = length solutions" "length scores = length solutions"
  shows "distillation_mask cfg solutions feedback scores ! i =
     (if (solutions ! i \<noteq> None \<or> use_feedback cfg (solutions ! i) (feedback ! i) \<or> always_apply_reprompt cfg) \<and>
         \<not> (use_dataset_expert_answer cfg \<and> skip_distillation_on_correct cfg \<and>
            scores ! i \<ge> success_reward_threshold cfg)
      then 1 else 0)"
  using assms by (auto simp: distillation_mask_def Let_def indicator_of_def)

lemma build_batch_run:
  assumes "maybe_build_self_distillation_batch (Some cfg) mode tmpl tok batch rewards extra = Inr (Some (res, metrics))"
    and "td_raw_prompt batch = Some prompts"
    and "solutions_and_feedback cfg tmpl tok batch (map sum_list rewards) extra = (solutions, feedback, success)"
  shows "mapM_result (\<lambda>(p, s, f). build_teacher_message cfg tmpl p s f) (zip prompts (zip solutions feedback)) =
       Inr (teacher_messages res) \<and>
     td_self_distillation_mask res = distillation_mask cfg solutions feedback (map sum_list rewards) \<and>
     list_all (\<lambda>p. p \<noteq> []) prompts"
  using assms by (auto simp: maybe_build_self_distillation_batch_def Let_def ensure_eq_Inr rbind_eq_Inr
      case_prod_beta split: if_splits)

text \<open>
  C6: in every batch the builder returns, sample \<open>i\<close> is reprompted exactly when it has a solution, has
  feedback that is shown (feedback is dropped beside a solution if so configured), or reprompting is
  forced. Reprompted, its teacher message is the conversation of the student with the last message
  replaced by the reprompt template filled with the student's prompt, the rendered solution section
  (empty without a solution) and the rendered feedback section (empty without shown feedback); not
  reprompted, it is the student's conversation with the text of its last message. The mask of a sample
  is one exactly when it is reprompted and not skipped (expert answers with
  \<open>skip_distillation_on_correct\<close> skip the samples that reached the success threshold), and zero
  otherwise: no sample is distilled towards the prompt it already saw.
\<close>

theorem mask_iff_reprompted:
  assumes run: "maybe_build_self_distillation_batch (Some cfg) mode tmpl tok batch rewards extra =
       Inr (Some (res, metrics))"
    and prompts: "td_raw_prompt batch = Some prompts"
    and sf: "solutions_and_feedback cfg tmpl tok batch (map sum_list rewards) extra = (solutions, feedback, success)"
    and shapes: "length prompts = length (td_responses batch)" "length rewards = length (td_responses batch)"
    and i: "i < length (td_responses batch)"
  shows "let shown = feedback_shown (environment_feedback_only_without_solution cfg) (solutions ! i) (feedback ! i);
         reprompted = (solutions ! i \<noteq> None \<or> shown \<noteq> None \<or> always_apply_reprompt cfg);
         skipped = (use_dataset_expert_answer cfg \<and> skip_distillation_on_correct cfg \<and>
           sum_list (rewards ! i) \<ge> success_reward_threshold cfg);
         raw = prompts ! i; msg = teacher_messages res ! i
     in td_self_distillation_mask res ! i = (if reprompted \<and> \<not> skipped then 1 else 0) \<and>
        (if reprompted
         then \<exists>message_text. rendered_reprompt tmpl (content (last raw)) (solutions ! i) shown message_text \<and>
                msg = butlast raw @ [\<lparr>role = ''user'', content = message_text\<rparr>]
         else msg = butlast raw @ [\<lparr>role = ''user'', content = content (last raw)\<rparr>])"
proof -
  note len = length_solutions [OF sf]
  note built = build_batch_run [OF run prompts sf]
  define shown where
    "shown = feedback_shown (environment_feedback_only_without_solution cfg) (solutions ! i) (feedback ! i)"
  have "build_teacher_message cfg tmpl (prompts ! i) (solutions ! i) (feedback ! i) = Inr (teacher_messages res ! i)"
    using mapM_result_nth [OF conjunct1 [OF built], of i] i shapes(1) len by simp
  moreover have "prompts ! i \<noteq> []" using built i shapes(1) by (simp add: list_all_length)
  ultimately have msg: "(solutions ! i \<noteq> None \<or> shown \<noteq> None \<or> always_apply_reprompt cfg \<longrightarrow>
       (\<exists>message_text. rendered_reprompt tmpl (content (last (prompts ! i))) (solutions ! i) shown message_text \<and>
          teacher_messages res ! i = butlast (prompts ! i) @ [\<lparr>role = ''user'', content = message_text\<rparr>])) \<and>
     (\<not> (solutions ! i \<noteq> None \<or> shown \<noteq> None \<or> always_apply_reprompt cfg) \<longrightarrow>
       teacher_messages res ! i = butlast (prompts ! i) @ [\<lparr>role = ''user'', content = content (last (prompts ! i))\<rparr>])"
    using shown_def by (rule teacher_message_cases)
  have mask_at: "td_self_distillation_mask res ! i =
     (if (solutions ! i \<noteq> None \<or> shown \<noteq> None \<or> always_apply_reprompt cfg) \<and>
         \<not> (use_dataset_expert_answer cfg \<and> skip_distillation_on_correct cfg \<and>
            sum_list (rewards ! i) \<ge> success_reward_threshold cfg)
      then 1 else 0)"
    using distillation_mask_nth [of i solutions feedback "map sum_list rewards" cfg] built i shapes(2) len
    by (simp add: use_feedback_shown shown_def)
  show ?thesis unfolding Let_def shown_def [symmetric] using msg mask_at by auto
qed

definition feedback_config :: sd_config where
  "feedback_config = example_sd_config\<lparr>include_environment_feedback := True\<rparr>"

definition pair_batch :: td_batch where
  "pair_batch = \<lparr>td_responses = [[5, 6], [5, 7]], td_response_mask = [[1, 1], [1, 1]], td_uids = [''u'', ''v''],
     td_raw_prompt = Some [[\<lparr>role = ''user'', content = ''q''\<rparr>], [\<lparr>role = ''user'', content = ''s''\<rparr>]],
     td_expert_answers = None\<rparr>"

text \<open>
  Two failed samples, of which the first got feedback: it is reprompted, with mask one, although no
  solution is known; the second keeps its prompt, with mask zero.
\<close>

lemma mask_iff_reprompted_witness:
  "\<exists>res metrics. maybe_build_self_distillation_batch (Some feedback_config) ''sdpo'' default_templates toy_tokenizer
       pair_batch [[0], [0]] (Some (Some [FeedbackText ''no''])) = Inr (Some (res, metrics)) \<and>
     td_self_distillation_mask res ! 0 = 1 \<and> td_self_distillation_mask res ! 1 = 0 \<and>
     (\<exists>message_text. rendered_reprompt default_templates ''q'' None (Some ''no'') message_text \<and>
        teacher_messages res ! 0 = [\<lparr>role = ''user'', content = message_text\<rparr>]) \<and>
     teacher_messages res ! 1 = [\<lparr>role = ''user'', content = ''s''\<rparr>]"
proof -
  let ?extra = "Some (Some [FeedbackText ''no''])"
  have prompts: "td_raw_prompt pair_batch = Some [[\<lparr>role = ''user'', content = ''q''\<rparr>], [\<lparr>role = ''user'', content = ''s''\<rparr>]]"
    by (simp add: pair_batch_def)
  have sf: "solutions_and_feedback feedback_config default_templates toy_tokenizer pair_batch
      (map sum_list [[0], [0]]) ?extra = ([None, None], [Some ''no'', None], \<lambda>_. [])"
    by (simp add: solutions_and_feedback_def feedback_config_def example_sd_config_def pair_batch_def
        collect_feedback_def collect_solutions_by_uid_def get_solution_def numeral_eq_Suc py_strip_def py_space_def)
  obtain res metrics where run: "maybe_build_self_distillation_batch (Some feedback_config) ''sdpo'' default_templates
      toy_tokenizer pair_batch [[0], [0]] ?extra = Inr (Some (res, metrics))"
    using sf by (simp add: maybe_build_self_distillation_batch_def pair_batch_def toy_tokenizer_def Let_def
        build_teacher_message_def default_reprompt)
  note facts = mask_iff_reprompted [OF run prompts sf]
  have cfg: "\<not> environment_feedback_only_without_solution feedback_config" "\<not> use_dataset_expert_answer feedback_config"
    "\<not> always_apply_reprompt feedback_config"
    by (simp_all add: feedback_config_def example_sd_config_def)
  from run facts [of 0] facts [of 1] show ?thesis
    by (auto simp: pair_batch_def cfg feedback_shown_def)
qed

end
