(* ===== verification/Data_Proto.thy ===== *)
theory Data_Proto
  imports Verl_Base "HOL-Library.AList"
begin

text \<open>
  The data container of the program, \<open>DataProto\<close> of \<open>src/verl/protocol.py\<close>: a dictionary of tensors
  with one batch size, a dictionary of arrays and a dictionary of meta information. A dictionary is an
  association list in insertion order; a tensor or array is the list of its rows, of any type.
  \<open>TensorDict\<close> is modelled by what its documentation promises of the operations the code uses (one
  batch size, indexing by rows, \<open>cat\<close> on equal key sets, \<open>chunk\<close> with upper rounding). Devices,
  dtypes, deep copies and byte buffers are not modelled.
\<close>

section \<open>Dictionaries\<close>

type_synonym 'v dict = "(string \<times> 'v) list"

definition keys :: "'v dict \<Rightarrow> string list" where
  "keys d = map fst d"

definition dict_map :: "('v \<Rightarrow> 'w) \<Rightarrow> 'v dict \<Rightarrow> 'w dict" where
  "dict_map f d = map (\<lambda>(k, v). (k, f v)) d"

lemma keys_dict_map [simp]: "keys (dict_map f d) = keys d"
  by (simp add: keys_def dict_map_def comp_def case_prod_beta)

lemma keys_simps [simp]: "keys [] = []" "keys ((k, v) # d) = k # keys d" "keys (d @ e) = keys d @ keys e"
  by (simp_all add: keys_def)

lemma dict_map_simps [simp]: "dict_map f [] = []" "dict_map f ((k, v) # d) = (k, f v) # dict_map f d"
  by (simp_all add: dict_map_def)

lemma dict_map_comp [simp]: "dict_map f (dict_map g d) = dict_map (\<lambda>x. f (g x)) d"
  by (induction d) auto

lemma dict_map_cong: "(\<And>k v. (k, v) \<in> set d \<Longrightarrow> f v = g v) \<Longrightarrow> dict_map f d = dict_map g d"
  by (auto simp: dict_map_def)

lemma dict_map_id: "(\<And>k v. (k, v) \<in> set d \<Longrightarrow> f v = v) \<Longrightarrow> dict_map f d = d"
  unfolding dict_map_def by (rule map_idI) auto

lemma map_of_dict_map: "map_of (dict_map f d) k = map_option f (map_of d k)"
  by (induction d) auto

text \<open>\<open>list_of_dict_to_dict_of_list\<close>: a key of a later dictionary must be a key of the first one.\<close>

definition list_of_dict_to_dict_of_list :: "'v dict list \<Rightarrow> 'v list dict result" where
  "list_of_dict_to_dict_of_list ds =
     (case ds of
        [] \<Rightarrow> Inr []
      | d # _ \<Rightarrow>
          ensure (\<forall>e\<in>set ds. set (keys e) \<subseteq> set (keys d)) AssertionError
            (Inr (map (\<lambda>k. (k, List.map_filter (\<lambda>e. map_of e k) ds)) (keys d))))"

section \<open>The state\<close>

text \<open>Meta values: atoms, flags, \<open>None\<close>, lists and dictionaries (the metrics).\<close>

datatype 'm meta_value = Atom 'm | Flag bool | NoneValue | ListV "'m meta_value list" | DictV "(string \<times> 'm meta_value) list"

record 'a tensordict =
  td_size :: nat
  td_items :: "'a list dict"

record ('a, 'b, 'm) dataproto =
  batch :: "'a tensordict option"
  non_tensor :: "'b list dict"
  meta :: "'m meta_value dict"

definition dp_len :: "('a, 'b, 'm) dataproto \<Rightarrow> nat" where
  "dp_len d =
     (case batch d of
        Some td \<Rightarrow> td_size td
      | None \<Rightarrow> (case non_tensor d of [] \<Rightarrow> 0 | (_, v) # _ \<Rightarrow> length v))"

text \<open>\<open>check_consistency\<close>: the arrays have as many rows as the tensors, when there are tensors.\<close>

definition check_consistency :: "('a, 'b, 'm) dataproto \<Rightarrow> bool" where
  "check_consistency d \<longleftrightarrow>
     (case batch d of None \<Rightarrow> True | Some td \<Rightarrow> list_all (\<lambda>(_, v). length v = td_size td) (non_tensor d))"

text \<open>The constructor with \<open>__post_init__\<close>.\<close>

definition make ::
  "'a tensordict option \<Rightarrow> 'b list dict \<Rightarrow> 'm meta_value dict \<Rightarrow> ('a, 'b, 'm) dataproto result" where
  "make b n m =
     (let d = \<lparr>batch = b, non_tensor = n, meta = m\<rparr>
      in ensure (check_consistency d) AssertionError (Inr d))"

definition auto_padding_key :: string where
  "auto_padding_key = ''_verl_auto_padding''"

definition from_dict ::
  "'a list dict \<Rightarrow> 'b list dict \<Rightarrow> 'm meta_value dict \<Rightarrow> bool \<Rightarrow> ('a, 'b, 'm) dataproto result" where
  "from_dict tensors non_tensors meta_info auto_padding =
     (let m = (if auto_padding then AList.update auto_padding_key (Flag True) meta_info else meta_info)
      in case tensors of
           [] \<Rightarrow> make None non_tensors m
         | (_, v) # _ \<Rightarrow>
             ensure (list_all (\<lambda>(_, w). length w = length v) tensors) AssertionError
               (make (Some \<lparr>td_size = length v, td_items = tensors\<rparr>) non_tensors m))"

section \<open>Rows\<close>

text \<open>
  Every operation on rows picks a list of row indices and applies it to each tensor and array:
  \<open>take_rows\<close>. Indexing with a negative index counts from the end.
\<close>

definition take_rows :: "nat list \<Rightarrow> 'a list \<Rightarrow> 'a list" where
  "take_rows idx xs = map (\<lambda>i. xs ! i) idx"

definition td_take :: "nat list \<Rightarrow> 'a tensordict \<Rightarrow> 'a tensordict" where
  "td_take idx td = \<lparr>td_size = length idx, td_items = dict_map (take_rows idx) (td_items td)\<rparr>"

definition dp_take :: "nat list \<Rightarrow> ('a, 'b, 'm) dataproto \<Rightarrow> ('a, 'b, 'm) dataproto" where
  "dp_take idx d =
     \<lparr>batch = map_option (td_take idx) (batch d), non_tensor = dict_map (take_rows idx) (non_tensor d),
      meta = meta d\<rparr>"

definition py_index :: "nat \<Rightarrow> int \<Rightarrow> nat result" where
  "py_index n i =
     (if 0 \<le> i \<and> i < int n then Inr (nat i)
      else if - int n \<le> i \<and> i < 0 then Inr (nat (int n + i))
      else Inl IndexError)"

definition select_idxs :: "int list \<Rightarrow> ('a, 'b, 'm) dataproto \<Rightarrow> ('a, 'b, 'm) dataproto result" where
  "select_idxs idxs d =
     rbind (mapM_result (py_index (dp_len d)) idxs) (\<lambda>is.
       let r = dp_take is d in make (batch r) (non_tensor r) (meta r))"

text \<open>The mask variant: the rows whose flag is set; the mask must have one flag per row.\<close>

definition select_mask :: "bool list \<Rightarrow> ('a, 'b, 'm) dataproto \<Rightarrow> ('a, 'b, 'm) dataproto result" where
  "select_mask flags d =
     ensure (length flags = dp_len d) IndexError
       (let r = dp_take (filter (\<lambda>i. flags ! i) [0..<dp_len d]) d
        in make (batch r) (non_tensor r) (meta r))"

text \<open>\<open>slice.indices(n)\<close> for a positive step.\<close>

definition slice_bound :: "nat \<Rightarrow> nat \<Rightarrow> int option \<Rightarrow> nat" where
  "slice_bound n dflt b =
     (case b of
        None \<Rightarrow> dflt
      | Some i \<Rightarrow> if i < 0 then nat (max 0 (int n + i)) else nat (min i (int n)))"

definition slice_indices :: "nat \<Rightarrow> int option \<Rightarrow> int option \<Rightarrow> nat \<Rightarrow> nat list" where
  "slice_indices n start stop step =
     (let lo = slice_bound n 0 start; hi = slice_bound n n stop
      in map (\<lambda>k. lo + k * step) [0..<(hi - lo + step - 1) div step])"

definition dp_slice ::
  "int option \<Rightarrow> int option \<Rightarrow> nat option \<Rightarrow> ('a, 'b, 'm) dataproto \<Rightarrow> ('a, 'b, 'm) dataproto result" where
  "dp_slice start stop step d =
     ensure (step \<noteq> Some 0) ValueError
       (let r = dp_take (slice_indices (dp_len d) start stop (case step of None \<Rightarrow> 1 | Some s \<Rightarrow> s)) d
        in make (batch r) (non_tensor r) (meta r))"

text \<open>\<open>reorder\<close> is in place and skips the consistency check; without tensors it indexes \<open>None\<close>.\<close>

definition reorder :: "int list \<Rightarrow> ('a, 'b, 'm) dataproto \<Rightarrow> ('a, 'b, 'm) dataproto result" where
  "reorder indices d =
     ensure (batch d \<noteq> None) TypeError
       (rbind (mapM_result (py_index (dp_len d)) indices) (\<lambda>is. Inr (dp_take is d)))"

definition repeat_indices :: "nat \<Rightarrow> nat \<Rightarrow> bool \<Rightarrow> nat list" where
  "repeat_indices n repeat_times interleave =
     (if interleave then concat (map (\<lambda>i. replicate repeat_times i) [0..<n])
      else concat (replicate repeat_times [0..<n]))"

definition dp_repeat :: "nat \<Rightarrow> bool \<Rightarrow> ('a, 'b, 'm) dataproto \<Rightarrow> ('a, 'b, 'm) dataproto result" where
  "dp_repeat repeat_times interleave d =
     (let r = dp_take (repeat_indices (dp_len d) repeat_times interleave) d
      in make (batch r) (non_tensor r) (meta r))"

definition sample_level_repeat :: "nat list \<Rightarrow> ('a, 'b, 'm) dataproto \<Rightarrow> ('a, 'b, 'm) dataproto result" where
  "sample_level_repeat repeat_times d =
     ensure (length repeat_times = dp_len d) RuntimeError
       (let r = dp_take (concat (map (\<lambda>i. replicate (repeat_times ! i) i) [0..<dp_len d])) d
        in make (batch r) (non_tensor r) (meta r))"

section \<open>Selecting and merging columns\<close>

definition td_select :: "string list \<Rightarrow> 'a tensordict \<Rightarrow> 'a tensordict result" where
  "td_select ks td =
     ensure (set ks \<subseteq> set (keys (td_items td))) KeyError
       (Inr (td\<lparr>td_items := filter (\<lambda>(k, _). k \<in> set ks) (td_items td)\<rparr>))"

definition dict_select :: "string list option \<Rightarrow> 'v dict \<Rightarrow> 'v dict" where
  "dict_select ks d = (case ks of None \<Rightarrow> d | Some l \<Rightarrow> filter (\<lambda>(k, _). k \<in> set l) d)"

definition dp_select ::
  "string list option \<Rightarrow> string list option \<Rightarrow> string list option \<Rightarrow> ('a, 'b, 'm) dataproto \<Rightarrow>
   ('a, 'b, 'm) dataproto result" where
  "dp_select batch_keys non_tensor_keys meta_keys d =
     rbind (case batch_keys of
              None \<Rightarrow> Inr (batch d)
            | Some ks \<Rightarrow> (case batch d of
                 None \<Rightarrow> Inl AttributeError
               | Some td \<Rightarrow> rbind (td_select ks td) (\<lambda>t. Inr (Some t)))) (\<lambda>b.
       make b (dict_select non_tensor_keys (non_tensor d)) (dict_select meta_keys (meta d)))"

text \<open>Popping keys from a dictionary: the popped items in the order of the request, and the rest.\<close>

fun pop_keys :: "string list \<Rightarrow> 'v dict \<Rightarrow> ('v dict \<times> 'v dict) result" where
  "pop_keys [] d = Inr ([], d)"
| "pop_keys (k # ks) d =
     (case map_of d k of
        None \<Rightarrow> Inl AssertionError
      | Some v \<Rightarrow> rbind (pop_keys ks (AList.delete k d)) (\<lambda>(popped, rest). Inr ((k, v) # popped, rest)))"

text \<open>\<open>pop\<close> changes the object and returns a new one: the result is the pair.\<close>

definition dp_pop ::
  "string list \<Rightarrow> string list \<Rightarrow> string list \<Rightarrow> ('a, 'b, 'm) dataproto \<Rightarrow>
   (('a, 'b, 'm) dataproto \<times> ('a, 'b, 'm) dataproto) result" where
  "dp_pop batch_keys non_tensor_keys meta_keys d =
     rbind (case batch d of
              None \<Rightarrow> ensure (batch_keys = []) AttributeError (Inr ([], None))
            | Some td \<Rightarrow> rbind (pop_keys batch_keys (td_items td)) (\<lambda>(popped, rest).
                Inr (popped, Some (td\<lparr>td_items := rest\<rparr>)))) (\<lambda>(tensors, b).
     rbind (pop_keys non_tensor_keys (non_tensor d)) (\<lambda>(non_tensors, n).
     rbind (pop_keys meta_keys (meta d)) (\<lambda>(metas, m).
     rbind (from_dict tensors non_tensors metas False) (\<lambda>popped.
       Inr (popped, \<lparr>batch = b, non_tensor = n, meta = m\<rparr>)))))"

text \<open>The three unions: a key in both dictionaries must have equal values.\<close>

fun union_dict :: "'v dict \<Rightarrow> 'v dict \<Rightarrow> 'v dict result" where
  "union_dict d [] = Inr d"
| "union_dict d ((k, v) # e) =
     (case map_of d k of
        None \<Rightarrow> union_dict (AList.update k v d) e
      | Some w \<Rightarrow> ensure (w = v) AssertionError (union_dict (AList.update k v d) e))"

definition union_tensor_dict :: "'a tensordict \<Rightarrow> 'a tensordict \<Rightarrow> 'a tensordict result" where
  "union_tensor_dict td1 td2 =
     ensure (td_size td1 = td_size td2) AssertionError
       (rbind (union_dict (td_items td1) (td_items td2)) (\<lambda>items. Inr (td1\<lparr>td_items := items\<rparr>)))"

definition dp_union :: "('a, 'b, 'm) dataproto \<Rightarrow> ('a, 'b, 'm) dataproto \<Rightarrow> ('a, 'b, 'm) dataproto result" where
  "dp_union d other =
     (case (batch d, batch other) of
        (Some t1, Some t2) \<Rightarrow>
          rbind (union_tensor_dict t1 t2) (\<lambda>b.
          rbind (union_dict (non_tensor d) (non_tensor other)) (\<lambda>n.
          rbind (union_dict (meta d) (meta other)) (\<lambda>m.
            Inr \<lparr>batch = Some b, non_tensor = n, meta = m\<rparr>)))
      | _ \<Rightarrow> Inl AttributeError)"

section \<open>Splitting and concatenating\<close>

definition truthy :: "'m meta_value option \<Rightarrow> bool" where
  "truthy v = (case v of None \<Rightarrow> False | Some (Flag b) \<Rightarrow> b | Some NoneValue \<Rightarrow> False
               | Some (ListV l) \<Rightarrow> l \<noteq> [] | Some (DictV e) \<Rightarrow> e \<noteq> [] | Some (Atom _) \<Rightarrow> True)"

text \<open>\<open>global_padding\<close> is the class property \<open>DataProtoConfig.auto_padding\<close>.\<close>

definition is_padding_enabled :: "bool \<Rightarrow> ('a, 'b, 'm) dataproto \<Rightarrow> bool" where
  "is_padding_enabled global_padding d \<longleftrightarrow> truthy (map_of (meta d) auto_padding_key) \<or> global_padding"

text \<open>\<open>TensorDict.chunk\<close>: pieces of \<open>ceil(n / k)\<close> rows, possibly fewer than \<open>k\<close> of them.\<close>

definition chunk_size :: "nat \<Rightarrow> nat \<Rightarrow> nat" where
  "chunk_size n k = (n + k - 1) div k"

definition td_chunk :: "nat \<Rightarrow> 'a tensordict \<Rightarrow> 'a tensordict list" where
  "td_chunk k td = map (\<lambda>idx. td_take idx td) (py_chunks (chunk_size (td_size td) k) [0..<td_size td])"

text \<open>\<open>np.array_split\<close> at given piece lengths (the last piece is what remains), and into \<open>k\<close> pieces.\<close>

fun np_split :: "nat list \<Rightarrow> 'a list \<Rightarrow> 'a list list" where
  "np_split [] xs = [xs]"
| "np_split (n # ns) xs = take n xs # np_split ns (drop n xs)"

definition np_array_split :: "nat \<Rightarrow> 'a list \<Rightarrow> 'a list list" where
  "np_array_split k xs =
     np_split (butlast (replicate (length xs mod k) (length xs div k + 1) @
                        replicate (k - length xs mod k) (length xs div k))) xs"

definition dp_chunk :: "bool \<Rightarrow> nat \<Rightarrow> ('a, 'b, 'm) dataproto \<Rightarrow> ('a, 'b, 'm) dataproto list result" where
  "dp_chunk global_padding chunks d =
     ensure (chunks \<noteq> 0) ZeroDivisionError
      (ensure (is_padding_enabled global_padding d \<or> dp_len d mod chunks = 0) AssertionError
        (let tds = (case batch d of None \<Rightarrow> None | Some td \<Rightarrow> Some (td_chunk chunks td));
             pieces = (\<lambda>v. case tds of
                         None \<Rightarrow> np_array_split chunks v
                       | Some ts \<Rightarrow> np_split (butlast (map td_size ts)) v)
         in ensure (list_all (\<lambda>(_, v). length (pieces v) = chunks) (non_tensor d)) AssertionError
             (mapM_result (\<lambda>i.
                rbind (case tds of None \<Rightarrow> Inr None | Some ts \<Rightarrow> rbind (py_get ts i) (\<lambda>t. Inr (Some t))) (\<lambda>b.
                  make b (dict_map (\<lambda>v. pieces v ! i) (non_tensor d)) (meta d))) [0..<chunks])))"

text \<open>\<open>split\<close>: slices of \<open>split_size\<close> rows.\<close>

definition dp_split :: "nat \<Rightarrow> ('a, 'b, 'm) dataproto \<Rightarrow> ('a, 'b, 'm) dataproto list result" where
  "dp_split split_size d =
     ensure (split_size \<noteq> 0) ValueError
       (mapM_result (\<lambda>i. dp_slice (Some (int i)) (Some (int (i + split_size))) None d)
          (map (\<lambda>k. k * split_size) [0..<(dp_len d + split_size - 1) div split_size]))"

text \<open>\<open>torch.cat\<close> of tensor dictionaries: the key sets must agree.\<close>

definition td_cat :: "'a tensordict list \<Rightarrow> 'a tensordict result" where
  "td_cat tds =
     (case tds of
        [] \<Rightarrow> Inl RuntimeError
      | td # _ \<Rightarrow>
          ensure (\<forall>t\<in>set tds. set (keys (td_items t)) = set (keys (td_items td))) KeyError
            (Inr \<lparr>td_size = sum_list (map td_size tds),
                  td_items = map (\<lambda>k. (k, concat (map (\<lambda>t. the (map_of (td_items t) k)) tds)))
                               (keys (td_items td))\<rparr>))"

text \<open>Merging the meta information: metrics are collected, every other key must have one value.\<close>

fun merge_meta :: "'m meta_value dict \<Rightarrow> 'm meta_value dict \<times> 'm meta_value list \<Rightarrow>
    ('m meta_value dict \<times> 'm meta_value list) result" where
  "merge_meta [] acc = Inr acc"
| "merge_meta ((k, v) # items) (merged, metrics) =
     (if k = ''metrics''
      then merge_meta items (merged,
             (case v of NoneValue \<Rightarrow> metrics | ListV l \<Rightarrow> metrics @ l | _ \<Rightarrow> metrics @ [v]))
      else (case map_of merged k of
              None \<Rightarrow> merge_meta items (AList.update k v merged, metrics)
            | Some w \<Rightarrow> ensure (w = v) AssertionError (merge_meta items (merged, metrics))))"

fun merge_metas :: "'m meta_value dict list \<Rightarrow> 'm meta_value dict \<times> 'm meta_value list \<Rightarrow>
    ('m meta_value dict \<times> 'm meta_value list) result" where
  "merge_metas [] acc = Inr acc"
| "merge_metas (m # ms) acc = rbind (merge_meta m acc) (merge_metas ms)"

definition dict_of_value :: "'m meta_value \<Rightarrow> 'm meta_value dict result" where
  "dict_of_value v = (case v of DictV e \<Rightarrow> Inr e | _ \<Rightarrow> Inl AttributeError)"

definition concat_metas :: "'m meta_value dict list \<Rightarrow> 'm meta_value dict result" where
  "concat_metas ms =
     rbind (merge_metas ms ([], [])) (\<lambda>(merged, metrics).
       if metrics = [] then Inr merged
       else rbind (mapM_result dict_of_value metrics) (\<lambda>ds.
            rbind (list_of_dict_to_dict_of_list ds) (\<lambda>e.
              Inr (AList.update ''metrics'' (DictV (dict_map ListV e)) merged))))"

definition dp_concat :: "('a, 'b, 'm) dataproto list \<Rightarrow> ('a, 'b, 'm) dataproto result" where
  "dp_concat ds =
     (case ds of
        [] \<Rightarrow> Inl IndexError
      | d # _ \<Rightarrow>
          rbind (if batch d = None then Inr None
                 else ensure (\<forall>e\<in>set ds. batch e \<noteq> None) TypeError
                        (rbind (td_cat (map (\<lambda>e. the (batch e)) ds)) (\<lambda>b. Inr (Some b)))) (\<lambda>b.
          rbind (list_of_dict_to_dict_of_list (map non_tensor ds)) (\<lambda>n.
          rbind (concat_metas (map meta ds)) (\<lambda>m.
            make b (dict_map concat n) m))))"

section \<open>Padding\<close>

text \<open>The sizes of the pieces the padding loop takes; it makes progress because the batch is not empty.\<close>

function pad_sizes :: "nat \<Rightarrow> nat \<Rightarrow> nat list" where
  "pad_sizes n remaining =
     (if remaining = 0 \<or> n = 0 then [] else min remaining n # pad_sizes n (remaining - min remaining n))"
  by pat_completeness auto
termination
  by (relation "measure (\<lambda>(n, r). r)") (auto simp: min_def)

declare pad_sizes.simps [simp del]

definition pad_dataproto_to_divisor ::
  "('a, 'b, 'm) dataproto \<Rightarrow> nat \<Rightarrow> (('a, 'b, 'm) dataproto \<times> nat) result" where
  "pad_dataproto_to_divisor d size_divisor =
     ensure (size_divisor \<noteq> 0) ZeroDivisionError
       (if dp_len d mod size_divisor \<noteq> 0
        then (let pad_size = size_divisor - dp_len d mod size_divisor
              in rbind (mapM_result (\<lambda>n. dp_slice None (Some (int n)) None d) (pad_sizes (dp_len d) pad_size))
                   (\<lambda>protos. rbind (dp_concat (d # protos)) (\<lambda>p. Inr (p, pad_size))))
        else Inr (d, 0))"

definition unpad_dataproto :: "('a, 'b, 'm) dataproto \<Rightarrow> nat \<Rightarrow> ('a, 'b, 'm) dataproto result" where
  "unpad_dataproto d pad_size =
     (if pad_size \<noteq> 0 then dp_slice None (Some (- int pad_size)) None d else Inr d)"

text \<open>\<open>padding\<close> is in place; the meta information stays that of the object.\<close>

definition dp_padding ::
  "nat \<Rightarrow> string \<Rightarrow> ('a, 'b, 'm) dataproto \<Rightarrow> ('a, 'b, 'm) dataproto result" where
  "dp_padding padding_size padding_candidate d =
     (if padding_size = 0 then Inr d
      else rbind (select_idxs [if padding_candidate = ''first'' then 0 else int (dp_len d) - 1] d) (\<lambda>cand.
           rbind (dp_repeat padding_size True cand) (\<lambda>part.
           rbind (dp_concat [d, part]) (\<lambda>p.
             Inr (d\<lparr>batch := batch p, non_tensor := non_tensor p\<rparr>)))))"

section \<open>Renaming and unfolding columns\<close>

text \<open>
  \<open>rename\<close> passes the names as tuples to \<open>TensorDict.rename_key_\<close>, where a tuple is one nested key:
  equal keys are a no-op, one name is renamed (over an existing column of the new name), and several
  names are looked up as a path, which a flat container does not hold.
\<close>

definition rename_key :: "string list \<Rightarrow> string list \<Rightarrow> 'v dict \<Rightarrow> 'v dict result" where
  "rename_key old_key new_key d =
     (if old_key = new_key then Inr d
      else case old_key of
             [] \<Rightarrow> Inl KeyError
           | k # path \<Rightarrow>
               (case map_of d k of
                  None \<Rightarrow> Inl KeyError
                | Some v \<Rightarrow> ensure (path = [] \<and> length new_key = 1) ValueError
                    (Inr (AList.delete k (AList.update (hd new_key) v d)))))"

definition dp_rename ::
  "string list option \<Rightarrow> string list option \<Rightarrow> ('a, 'b, 'm) dataproto \<Rightarrow> ('a, 'b, 'm) dataproto result" where
  "dp_rename old_keys new_keys d =
     (case (old_keys, new_keys) of
        (Some olds, Some news) \<Rightarrow>
          ensure (length news = length olds) ValueError
            (case batch d of
               None \<Rightarrow> Inl AttributeError
             | Some td \<Rightarrow> rbind (rename_key olds news (td_items td)) (\<lambda>items.
                 Inr (d\<lparr>batch := Some (td\<lparr>td_items := items\<rparr>)\<rparr>)))
      | _ \<Rightarrow> Inl TypeError)"

text \<open>
  \<open>unfold_column_chunks\<close>: the row of a split key is cut along its columns into \<open>n\<close> rows, any other row
  is repeated. How a row is cut depends on its type and is an argument (\<open>cut_columns\<close> for rows that
  are lists); a reshape that does not fit is its exception. Without \<open>split_keys\<close> the test of an array
  key fails.
\<close>

definition cut_columns :: "nat \<Rightarrow> 'c list \<Rightarrow> 'c list list result" where
  "cut_columns n row =
     ensure (n \<noteq> 0) ZeroDivisionError
      (ensure (length row mod n = 0) RuntimeError
        (let w = length row div n in Inr (map (\<lambda>j. take w (drop (j * w) row)) [0..<n])))"

definition unfold_column :: "(nat \<Rightarrow> 'a \<Rightarrow> 'a list result) \<Rightarrow> nat \<Rightarrow> bool \<Rightarrow> 'a list \<Rightarrow> 'a list result" where
  "unfold_column cut_row n is_split rows =
     (if is_split then rbind (mapM_result (cut_row n) rows) (\<lambda>ps. Inr (concat ps))
      else Inr (concat (map (replicate n) rows)))"

definition unfold_items ::
  "(nat \<Rightarrow> 'a \<Rightarrow> 'a list result) \<Rightarrow> nat \<Rightarrow> (string \<Rightarrow> bool) \<Rightarrow> 'a list dict \<Rightarrow> 'a list dict result" where
  "unfold_items cut_row n chosen d =
     mapM_result (\<lambda>(k, v). rbind (unfold_column cut_row n (chosen k) v) (\<lambda>w. Inr (k, w))) d"

definition unfold_column_chunks ::
  "(nat \<Rightarrow> 'a \<Rightarrow> 'a list result) \<Rightarrow> (nat \<Rightarrow> 'b \<Rightarrow> 'b list result) \<Rightarrow> nat \<Rightarrow> string list option \<Rightarrow>
   ('a, 'b, 'm) dataproto \<Rightarrow> ('a, 'b, 'm) dataproto result" where
  "unfold_column_chunks cut_tensor cut_array n_split split_keys d =
     rbind (case batch d of
              None \<Rightarrow> Inr None
            | Some td \<Rightarrow>
                rbind (unfold_items cut_tensor n_split
                         (\<lambda>k. case split_keys of None \<Rightarrow> False | Some ks \<Rightarrow> k \<in> set ks) (td_items td)) (\<lambda>items.
                  Inr (Some \<lparr>td_size = td_size td * n_split, td_items = items\<rparr>))) (\<lambda>b.
     ensure (split_keys \<noteq> None \<or> non_tensor d = []) TypeError
       (rbind (unfold_items cut_array n_split (\<lambda>k. k \<in> set (the split_keys)) (non_tensor d)) (\<lambda>arrays.
          make b arrays (meta d))))"

end
