(* ===== verification/Data_Proto_Properties.thy ===== *)
theory Data_Proto_Properties
  imports Data_Proto
begin

text \<open>
  Properties of \<open>DataProto\<close>: the representation invariant and the operations that keep it, the algebra
  of row selection (every operation on rows is \<open>dp_take\<close> of an index list), and the round trips of
  chunking, splitting, padding, reordering and popping.
\<close>

section \<open>The invariant\<close>

definition wf_dp :: "('a, 'b, 'm) dataproto \<Rightarrow> bool" where
  "wf_dp d \<longleftrightarrow>
     (case batch d of
        None \<Rightarrow> True
      | Some td \<Rightarrow> distinct (keys (td_items td)) \<and> (\<forall>(k, v)\<in>set (td_items td). length v = td_size td)) \<and>
     distinct (keys (non_tensor d)) \<and> (\<forall>(k, v)\<in>set (non_tensor d). length v = dp_len d) \<and>
     distinct (keys (meta d))"

lemma wf_dpI:
  assumes "\<And>td. batch d = Some td \<Longrightarrow> distinct (keys (td_items td))"
    and "\<And>td k v. batch d = Some td \<Longrightarrow> (k, v) \<in> set (td_items td) \<Longrightarrow> length v = td_size td"
    and "distinct (keys (non_tensor d))" and "\<And>k v. (k, v) \<in> set (non_tensor d) \<Longrightarrow> length v = dp_len d"
    and "distinct (keys (meta d))"
  shows "wf_dp d"
  using assms by (auto simp: wf_dp_def split: option.split)

lemma wf_dpD:
  assumes "wf_dp d"
  shows "\<And>td. batch d = Some td \<Longrightarrow> distinct (keys (td_items td))"
    and "\<And>td k v. batch d = Some td \<Longrightarrow> (k, v) \<in> set (td_items td) \<Longrightarrow> length v = dp_len d"
    and "distinct (keys (non_tensor d))" and "\<And>k v. (k, v) \<in> set (non_tensor d) \<Longrightarrow> length v = dp_len d"
    and "distinct (keys (meta d))"
  using assms by (auto simp: wf_dp_def dp_len_def)

definition has_rows :: "('a, 'b, 'm) dataproto \<Rightarrow> bool" where
  "has_rows d \<longleftrightarrow> batch d \<noteq> None \<or> non_tensor d \<noteq> []"

lemma no_rows_len: "\<not> has_rows d \<Longrightarrow> dp_len d = 0"
  by (simp add: has_rows_def dp_len_def)

lemma wf_consistent: "wf_dp d \<Longrightarrow> check_consistency d"
  by (cases "batch d") (auto simp: wf_dp_def check_consistency_def dp_len_def list_all_iff)

lemma make_wf:
  assumes "wf_dp d"
  shows "make (batch d) (non_tensor d) (meta d) = Inr d"
proof -
  have eq: "\<lparr>batch = batch d, non_tensor = non_tensor d, meta = meta d\<rparr> = d" by simp
  show ?thesis unfolding make_def Let_def eq using wf_consistent [OF assms] by simp
qed

section \<open>Row selection\<close>

lemma length_take_rows [simp]: "length (take_rows idx xs) = length idx"
  by (simp add: take_rows_def)

lemma take_rows_all: "length xs = n \<Longrightarrow> take_rows [0..<n] xs = xs"
  by (auto simp: take_rows_def map_nth)

lemma take_rows_take_rows:
  "set js \<subseteq> {..<length is} \<Longrightarrow> take_rows js (take_rows is xs) = take_rows (map (\<lambda>j. is ! j) js) xs"
  by (auto simp: take_rows_def)

lemma take_rows_compose:
  "set js \<subseteq> {..<length is} \<Longrightarrow> (\<lambda>xs. take_rows js (take_rows is xs)) = take_rows (map (\<lambda>j. is ! j) js)"
  by (rule ext) (rule take_rows_take_rows)

lemma take_rows_append: "take_rows (is @ js) xs = take_rows is xs @ take_rows js xs"
  by (simp add: take_rows_def)

lemma take_rows_concat: "take_rows (concat iss) xs = concat (map (\<lambda>is. take_rows is xs) iss)"
  by (induction iss) (simp_all add: take_rows_def)

lemma dp_take_sel [simp]:
  "batch (dp_take idx d) = map_option (td_take idx) (batch d)"
  "non_tensor (dp_take idx d) = dict_map (take_rows idx) (non_tensor d)"
  "meta (dp_take idx d) = meta d"
  by (simp_all add: dp_take_def)

lemma td_take_sel [simp]:
  "td_size (td_take idx td) = length idx"
  "td_items (td_take idx td) = dict_map (take_rows idx) (td_items td)"
  by (simp_all add: td_take_def)

lemma dp_len_take: "has_rows d \<Longrightarrow> dp_len (dp_take idx d) = length idx"
  by (cases "batch d"; cases "non_tensor d") (auto simp: dp_len_def has_rows_def)

lemma has_rows_take [simp]: "has_rows (dp_take idx d) = has_rows d"
  by (cases "non_tensor d") (auto simp: has_rows_def)

lemma in_dict_map: "(k, w) \<in> set (dict_map f d) \<Longrightarrow> \<exists>v. (k, v) \<in> set d \<and> w = f v"
  by (auto simp: dict_map_def)

lemma wf_take:
  assumes "wf_dp d"
  shows "wf_dp (dp_take idx d)"
proof (rule wf_dpI)
  show "length v = dp_len (dp_take idx d)" if "(k, v) \<in> set (non_tensor (dp_take idx d))" for k v
  proof -
    from that have "has_rows d" by (cases "non_tensor d") (auto simp: has_rows_def)
    then show ?thesis using that dp_len_take [of d idx] by (auto dest!: in_dict_map)
  qed
qed (use wf_dpD [OF assms] in \<open>auto dest!: in_dict_map\<close>)

lemma take_all:
  assumes "wf_dp d"
  shows "dp_take [0..<dp_len d] d = d"
proof -
  have "batch (dp_take [0..<dp_len d] d) = batch d"
  proof (cases "batch d")
    case (Some td)
    then have size: "dp_len d = td_size td" by (simp add: dp_len_def)
    have "dict_map (take_rows [0..<td_size td]) (td_items td) = td_items td"
      using wf_dpD(2) [OF assms Some] size by (intro dict_map_id take_rows_all) auto
    then show ?thesis using Some size by (simp add: td_take_def)
  qed simp
  moreover have "non_tensor (dp_take [0..<dp_len d] d) = non_tensor d"
    using wf_dpD(4) [OF assms] by (simp, intro dict_map_id take_rows_all) auto
  ultimately show ?thesis by simp
qed

lemma take_take:
  assumes "set js \<subseteq> {..<length is}"
  shows "dp_take js (dp_take is d) = dp_take (map (\<lambda>j. is ! j) js) d"
  by (cases "batch d") (simp_all add: dp_take_def td_take_def take_rows_compose [OF assms])

lemma py_index_in_range: "0 \<le> i \<Longrightarrow> i < int n \<Longrightarrow> py_index n i = Inr (nat i)"
  by (simp add: py_index_def)

lemma py_index_nats: "set is \<subseteq> {..<n} \<Longrightarrow> mapM_result (py_index n) (map int is) = Inr is"
  by (induction "is") (auto simp: py_index_in_range)

lemma select_idxs_take:
  assumes "wf_dp d" and "set is \<subseteq> {..<dp_len d}"
  shows "select_idxs (map int is) d = Inr (dp_take is d)"
  using make_wf [OF wf_take [OF assms(1), of "is"]] py_index_nats [OF assms(2)]
  by (simp add: select_idxs_def Let_def)

lemma slice_indices_range:
  assumes "lo \<le> hi" "hi \<le> n"
  shows "slice_indices n (Some (int lo)) (Some (int hi)) 1 = [lo..<hi]"
proof -
  have "slice_bound n 0 (Some (int lo)) = lo" "slice_bound n n (Some (int hi)) = hi"
    using assms by (simp_all add: slice_bound_def)
  moreover have "map (\<lambda>k. lo + k) [0..<hi - lo] = [lo..<hi]"
    using assms by (intro nth_equalityI) auto
  ultimately show ?thesis by (simp add: slice_indices_def Let_def)
qed

lemma slice_take:
  assumes "wf_dp d"
  shows "dp_slice a b None d = Inr (dp_take (slice_indices (dp_len d) a b 1) d)"
  using make_wf [OF wf_take [OF assms]] by (simp add: dp_slice_def Let_def)

section \<open>Concatenation\<close>

definition metric_free :: "('a, 'b, 'm) dataproto \<Rightarrow> bool" where
  "metric_free d \<longleftrightarrow> ''metrics'' \<notin> set (keys (meta d))"

lemma map_of_keys: "k \<in> set (keys d) \<Longrightarrow> distinct (keys d) \<Longrightarrow> \<exists>v. map_of d k = Some v \<and> (k, v) \<in> set d"
  by (induction d) auto

lemma map_of_in: "(k, v) \<in> set d \<Longrightarrow> distinct (keys d) \<Longrightarrow> map_of d k = Some v"
  unfolding keys_def by (rule map_of_is_SomeI)

lemma rebuild_dict:
  assumes "distinct (keys d)"
  shows "map (\<lambda>k. (k, f (the (map_of d k)))) (keys d) = dict_map f d"
proof -
  have "map (\<lambda>k. (k, f (the (map_of d k)))) (keys d) = map (\<lambda>(k, v). (k, f (the (map_of d k)))) d"
    by (simp add: keys_def comp_def case_prod_beta)
  also have "\<dots> = dict_map f d"
    unfolding dict_map_def using map_of_in [OF _ assms] by (intro map_cong) auto
  finally show ?thesis .
qed

lemma map_of_update_same: "map_of d k = Some v \<Longrightarrow> AList.update k v d = d"
  by (rule AList.update_triv)

lemma merge_meta_known:
  assumes "\<And>k v. (k, v) \<in> set items \<Longrightarrow> map_of merged k = Some v \<and> k \<noteq> ''metrics''"
  shows "merge_meta items (merged, metrics) = Inr (merged, metrics)"
  using assms
proof (induction items)
  case (Cons p items)
  obtain k v where p: "p = (k, v)" by (cases p)
  from Cons.prems [of k v] p have "map_of merged k = Some v" "k \<noteq> ''metrics''" by simp_all
  moreover have "merge_meta items (merged, metrics) = Inr (merged, metrics)"
    using Cons.prems by (intro Cons.IH) auto
  ultimately show ?case by (simp add: p)
qed simp

lemma update_new: "k \<notin> set (keys d) \<Longrightarrow> AList.update k v d = d @ [(k, v)]"
  by (induction d) auto

lemma map_of_new: "k \<notin> set (keys d) \<Longrightarrow> map_of d k = None"
  by (induction d) auto

lemma merge_meta_fresh:
  assumes "distinct (keys (merged @ items))" and "''metrics'' \<notin> set (keys items)"
  shows "merge_meta items (merged, metrics) = Inr (merged @ items, metrics)"
  using assms
proof (induction items arbitrary: merged)
  case (Cons p items)
  obtain k v where p: "p = (k, v)" by (cases p)
  with Cons.prems have "k \<notin> set (keys merged)" "k \<noteq> ''metrics''" by auto
  then show ?case using Cons.IH [of "merged @ [p]"] Cons.prems by (simp add: p map_of_new update_new)
qed simp

lemma merge_metas_same:
  assumes "\<forall>m\<in>set ms. m = merged" and "distinct (keys merged)" and "''metrics'' \<notin> set (keys merged)"
  shows "merge_metas ms (merged, metrics) = Inr (merged, metrics)"
  using assms
proof (induction ms)
  case (Cons m ms)
  have "map_of merged k = Some v \<and> k \<noteq> ''metrics''" if "(k, v) \<in> set merged" for k v
  proof -
    from that have "k \<in> set (keys merged)" by (force simp: keys_def)
    then show ?thesis using Cons.prems map_of_in [OF that] by auto
  qed
  then have "merge_meta m (merged, metrics) = Inr (merged, metrics)"
    using Cons.prems by (intro merge_meta_known) auto
  then show ?case using Cons by simp
qed simp

lemma concat_metas_same:
  assumes "\<forall>m\<in>set (m0 # ms). m = m0" and "distinct (keys m0)" and "''metrics'' \<notin> set (keys m0)"
  shows "concat_metas (m0 # ms) = Inr m0"
proof -
  have "merge_metas (m0 # ms) ([], []) = Inr (m0, [])"
    using merge_meta_fresh [of "[]" m0 "[]"] merge_metas_same [of ms m0 "[]"] assms by simp
  then show ?thesis by (simp add: concat_metas_def)
qed

lemma list_of_dict_same_keys:
  assumes "ds \<noteq> []" and "\<And>d. d \<in> set ds \<Longrightarrow> keys d = ks" and "distinct ks"
  shows "list_of_dict_to_dict_of_list ds = Inr (map (\<lambda>k. (k, map (\<lambda>d. the (map_of d k)) ds)) ks)"
proof -
  have "List.map_filter (\<lambda>e. map_of e k) ds = map (\<lambda>d. the (map_of d k)) ds" if "k \<in> set ks" for k
  proof -
    have "\<forall>d\<in>set ds. \<exists>v. map_of d k = Some v"
      using assms(2,3) that map_of_keys by fastforce
    then show ?thesis by (induction ds) (auto simp: List.map_filter_simps)
  qed
  then show ?thesis
    using assms by (cases ds) (simp_all add: list_of_dict_to_dict_of_list_def)
qed

lemma concat_columns:
  assumes "distinct (keys d)"
  shows "map (\<lambda>k. (k, concat (map (\<lambda>e. the (map_of e k)) (map (\<lambda>idx. dict_map (take_rows idx) d) iss)))) (keys d) =
     dict_map (take_rows (concat iss)) d"
proof -
  have "concat (map (\<lambda>e. the (map_of e k)) (map (\<lambda>idx. dict_map (take_rows idx) d) iss)) =
      take_rows (concat iss) (the (map_of d k))" if "k \<in> set (keys d)" for k
    using map_of_keys [OF that assms] by (auto simp: map_of_dict_map take_rows_concat comp_def)
  then show ?thesis using rebuild_dict [OF assms, of "take_rows (concat iss)", symmetric] by simp
qed

text \<open>Concatenating selections of one container is selecting the concatenated indices.\<close>

lemma concat_take:
  assumes "wf_dp d" and "metric_free d" and "iss \<noteq> []"
  shows "dp_concat (map (\<lambda>idx. dp_take idx d) iss) = Inr (dp_take (concat iss) d)"
proof -
  let ?ds = "map (\<lambda>idx. dp_take idx d) iss" and ?r = "dp_take (concat iss) d"
  obtain idx0 rest where iss: "iss = idx0 # rest" using assms(3) by (cases iss) auto
  have metas: "concat_metas (map meta ?ds) = Inr (meta d)"
    unfolding iss using concat_metas_same [of "meta d" "map (\<lambda>_. meta d) rest"] wf_dpD(5) [OF assms(1)] assms(2)
    by (simp add: metric_free_def comp_def)
  have cols: "list_of_dict_to_dict_of_list (map non_tensor ?ds) =
      Inr (map (\<lambda>k. (k, map (\<lambda>e. the (map_of e k)) (map non_tensor ?ds))) (keys (non_tensor d)))"
    using assms(3) wf_dpD(3) [OF assms(1)] by (intro list_of_dict_same_keys) auto
  have arrays: "dict_map concat (map (\<lambda>k. (k, map (\<lambda>e. the (map_of e k)) (map non_tensor ?ds))) (keys (non_tensor d))) =
      non_tensor ?r"
    using concat_columns [OF wf_dpD(3) [OF assms(1)], of iss]
    by (simp add: dict_map_def comp_def)
  have tensors: "(if batch (hd ?ds) = None then Inr None
      else ensure (\<forall>e\<in>set ?ds. batch e \<noteq> None) TypeError
             (rbind (td_cat (map (\<lambda>e. the (batch e)) ?ds)) (\<lambda>b. Inr (Some b)))) = Inr (batch ?r)"
  proof (cases "batch d")
    case (Some td)
    have parts: "map (\<lambda>e. the (batch e)) ?ds = map (\<lambda>idx. td_take idx td) iss"
      using Some by simp
    have "td_cat (map (\<lambda>idx. td_take idx td) iss) = Inr (td_take (concat iss) td)"
      using concat_columns [OF wf_dpD(1) [OF assms(1) Some], of iss]
      by (simp add: td_cat_def iss td_take_def comp_def length_concat)
    then show ?thesis using Some parts by (simp add: iss comp_def)
  qed (simp add: iss)
  have hd: "?ds = dp_take idx0 d # map (\<lambda>idx. dp_take idx d) rest" by (simp add: iss)
  have "dp_concat ?ds = make (batch ?r) (non_tensor ?r) (meta d)"
    using tensors metas cols arrays unfolding hd by (simp add: dp_concat_def)
  then show ?thesis using make_wf [OF wf_take [OF assms(1), of "concat iss"]] by simp
qed

section \<open>Chunks and splits\<close>

lemma np_split_concat: "yss \<noteq> [] \<Longrightarrow> np_split (butlast (map length yss)) (concat yss) = yss"
proof (induction yss)
  case (Cons ys yss)
  then show ?case by (cases "yss = []") (auto simp: butlast_append)
qed simp

lemma np_split_rows:
  assumes "concat iss = [0..<length xs]" and "iss \<noteq> []"
  shows "np_split (butlast (map length iss)) xs = map (\<lambda>idx. take_rows idx xs) iss"
proof -
  have "concat (map (\<lambda>idx. take_rows idx xs) iss) = xs"
    using take_rows_concat [of iss xs] take_rows_all [of xs "length xs"] assms(1) by simp
  moreover have "map length (map (\<lambda>idx. take_rows idx xs) iss) = map length iss" by (simp add: comp_def)
  ultimately show ?thesis
    using np_split_concat [of "map (\<lambda>idx. take_rows idx xs) iss"] assms(2) by (metis map_is_Nil_conv)
qed

lemma py_chunks_upt:
  assumes "0 < s"
  shows "py_chunks s [a..<n] = map (\<lambda>j. [a + j * s..<min (a + j * s + s) n]) [0..<(n - a + s - 1) div s]"
proof (induction "n - a" arbitrary: a rule: less_induct)
  case less
  show ?case
  proof (cases "a < n")
    case False
    then have "(n - a + s - 1) div s = 0" using assms by simp
    with False show ?thesis by simp
  next
    case True
    define q where "q = (n - (a + s) + s - 1) div s"
    have q: "(n - a + s - 1) div s = Suc q"
    proof (cases "a + s \<le> n")
      case le: True
      then have eq: "n - a + s - 1 = (n - (a + s) + s - 1) + s" using True assms by simp
      show ?thesis unfolding eq q_def using assms by (simp only: div_add_self2)
    next
      case False
      then have "q = 0" using assms by (simp add: q_def)
      moreover have "(n - a + s - 1) div s = 1"
        using True False assms by (intro div_nat_eqI) auto
      ultimately show ?thesis by simp
    qed
    have chunk: "take s [a..<n] = [a..<min (a + s) n]" by (simp add: take_upt min_def)
    have "py_chunks s (drop s [a..<n]) = map (\<lambda>j. [a + s + j * s..<min (a + s + j * s + s) n]) [0..<q]"
      using less [of "a + s"] True assms by (simp add: q_def)
    moreover have "map (\<lambda>j. [a + j * s..<min (a + j * s + s) n]) [0..<Suc q] =
        [a..<min (a + s) n] # map (\<lambda>j. [a + s + j * s..<min (a + s + j * s + s) n]) [0..<q]"
      by (subst upt_conv_Cons) (simp_all add: map_Suc_upt [symmetric] comp_def ac_simps del: upt_Suc)
    ultimately show ?thesis using True chunk assms unfolding q by (subst py_chunks.simps) (simp del: upt_Suc)
  qed
qed

lemma chunks_exact:
  assumes "0 < k" and "k dvd n" and "0 < n"
  shows "length (py_chunks (n div k) [0..<n]) = k"
    and "\<And>c. c \<in> set (py_chunks (n div k) [0..<n]) \<Longrightarrow> length c = n div k"
    and "concat (py_chunks (n div k) [0..<n]) = [0..<n]"
    and "chunk_size n k = n div k"
proof -
  obtain q where q: "n = k * q" using assms(2) by (rule dvdE)
  then have "0 < q" "n div k = q" using assms by simp_all
  have ceil: "(a * b + b - 1) div b = a" if "0 < b" for a b :: nat
  proof -
    have eq: "a * b + b - 1 = (b - 1) + a * b" using that by simp
    show ?thesis unfolding eq using that by (simp only: div_mult_self1) simp
  qed
  then have "(k * q + q - 1) div q = k" using \<open>0 < q\<close> by blast
  then show "length (py_chunks (n div k) [0..<n]) = k"
    using py_chunks_upt [OF \<open>0 < q\<close>, of 0 n] \<open>n div k = q\<close> q by simp
  show "length c = n div k" if "c \<in> set (py_chunks (n div k) [0..<n])" for c
    using py_chunks_lengths [of "n div k" "[0..<n]" c] that \<open>0 < q\<close> \<open>n div k = q\<close> q by simp
  show "concat (py_chunks (n div k) [0..<n]) = [0..<n]"
    using \<open>0 < q\<close> \<open>n div k = q\<close> by (simp add: concat_py_chunks)
  show "chunk_size n k = n div k"
    unfolding chunk_size_def \<open>n div k = q\<close> q using ceil [of k q] assms(1) by (simp add: mult.commute)
qed

lemma map_length_chunks:
  assumes "0 < k" and "k dvd n" and "0 < n"
  shows "map length (py_chunks (n div k) [0..<n]) = replicate k (n div k)"
  using chunks_exact(1,2) [OF assms] by (intro nth_equalityI) auto

text \<open>An equal chunking selects consecutive blocks of rows.\<close>

lemma chunk_take:
  fixes d :: "('a, 'b, 'm) dataproto"
  assumes wf: "wf_dp d" and k: "0 < k" "k dvd dp_len d" "0 < dp_len d"
  shows "dp_chunk g k d = Inr (map (\<lambda>idx. dp_take idx d) (py_chunks (dp_len d div k) [0..<dp_len d]))"
proof -
  let ?n = "dp_len d"
  let ?iss = "py_chunks (?n div k) [0..<?n]"
  note iss = chunks_exact [OF k] map_length_chunks [OF k]
  have ne: "?iss \<noteq> []" using iss(1) k(1) by (metis list.size(3) less_irrefl)
  define tds where "tds = (case batch d of None \<Rightarrow> None | Some td \<Rightarrow> Some (td_chunk k td))"
  have tds: "tds = map_option (\<lambda>td. map (\<lambda>idx. td_take idx td) ?iss) (batch d)"
    using iss(4) by (cases "batch d") (simp_all add: tds_def td_chunk_def dp_len_def)
  define pieces where "pieces = (\<lambda>v :: 'b list. case tds of
      None \<Rightarrow> np_array_split k v | Some ts \<Rightarrow> np_split (butlast (map td_size ts)) v)"
  have fold_pieces: "(case tds of None \<Rightarrow> np_array_split k v | Some ts \<Rightarrow> np_split (butlast (map td_size ts)) v) =
      pieces v" for v
    by (simp add: pieces_def)
  have pieces: "pieces v = map (\<lambda>idx. take_rows idx v) ?iss" if "length v = ?n" for v
  proof (cases tds)
    case None
    have "?n mod k = 0" using k(2) by simp
    then show ?thesis
      using np_split_rows [of ?iss v] that None iss(3,5) ne by (simp add: pieces_def np_array_split_def)
  next
    case (Some ts)
    then have "map td_size ts = map length ?iss" using tds by (cases "batch d") (auto simp: comp_def)
    then show ?thesis using np_split_rows [of ?iss v] that Some iss(3) ne by (simp add: pieces_def)
  qed
  have cols: "dict_map (\<lambda>v. pieces v ! i) (non_tensor d) = dict_map (take_rows (?iss ! i)) (non_tensor d)"
    if "i < k" for i
    using pieces wf_dpD(4) [OF wf] that iss(1) by (intro dict_map_cong) auto
  have step: "rbind (case tds of None \<Rightarrow> Inr None | Some ts \<Rightarrow> rbind (py_get ts i) (\<lambda>t. Inr (Some t))) (\<lambda>b.
      make b (dict_map (\<lambda>v. pieces v ! i) (non_tensor d)) (meta d)) = Inr (dp_take (?iss ! i) d)"
    if "i \<in> set [0..<k]" for i
  proof -
    have i: "i < k" using that by simp
    have "make (batch (dp_take (?iss ! i) d)) (non_tensor (dp_take (?iss ! i) d)) (meta (dp_take (?iss ! i) d)) =
        Inr (dp_take (?iss ! i) d)"
      using wf_take [OF wf] by (rule make_wf)
    then show ?thesis using i cols [OF i] iss(1) tds by (cases "batch d") simp_all
  qed
  have "map (\<lambda>i. dp_take (?iss ! i) d) [0..<k] = map (\<lambda>idx. dp_take idx d) ?iss"
    using iss(1) by (intro nth_equalityI) auto
  moreover have "list_all (\<lambda>(_, v). length (pieces v) = k) (non_tensor d)"
    using pieces wf_dpD(4) [OF wf] iss(1) by (auto simp: list_all_iff)
  moreover have "?n mod k = 0" using k(2) by simp
  ultimately show ?thesis
    unfolding dp_chunk_def Let_def tds_def [symmetric] fold_pieces
    using mapM_result_Inr [OF step, of "[0..<k]"] k(1) by simp
qed

lemma slice_bound_nat: "slice_bound n dflt (Some (int i)) = min i n"
  by (simp add: slice_bound_def min_def)

lemma split_take:
  assumes wf: "wf_dp d" and s: "0 < s"
  shows "dp_split s d = Inr (map (\<lambda>idx. dp_take idx d) (py_chunks s [0..<dp_len d]))"
proof -
  let ?n = "dp_len d"
  have "dp_slice (Some (int i)) (Some (int (i + s))) None d = Inr (dp_take [i..<min (i + s) ?n] d)" for i
  proof -
    have "slice_indices ?n (Some (int i)) (Some (int (i + s))) 1 =
        map (\<lambda>k. min i ?n + k) [0..<min (i + s) ?n - min i ?n]"
      unfolding slice_indices_def slice_bound_nat Let_def by simp
    also have "\<dots> = [i..<min (i + s) ?n]" by (intro nth_equalityI) (auto simp: min_def)
    finally show ?thesis using slice_take [OF wf] by simp
  qed
  then show ?thesis
    using s py_chunks_upt [OF s, of 0 ?n]
    by (simp add: dp_split_def mapM_result_Inr [of _ _ "\<lambda>i. dp_take [i..<min (i + s) ?n] d"] comp_def)
qed

text \<open>
  C25: cutting a container into equal chunks or into splits of any positive size and concatenating the
  pieces gives back the container, with or without tensors, for every well-formed non-empty container
  whose meta information holds no metrics.
\<close>

theorem chunk_split_concat:
  assumes "wf_dp d" and "metric_free d" and "0 < dp_len d" and "0 < k" and "0 < s"
  shows "rbind (dp_split s d) dp_concat = Inr d \<and>
     (k dvd dp_len d \<longrightarrow> rbind (dp_chunk g k d) dp_concat = Inr d \<and>
        (\<forall>parts. dp_chunk g k d = Inr parts \<longrightarrow> length parts = k \<and> (\<forall>p\<in>set parts. dp_len p = dp_len d div k)))"
proof -
  have rows: "has_rows d" using assms(3) no_rows_len by fastforce
  have rejoin: "rbind (Inr (map (\<lambda>idx. dp_take idx d) iss)) dp_concat = Inr d" if "concat iss = [0..<dp_len d]" for iss
  proof -
    have "concat iss \<noteq> []" unfolding that using assms(3) by simp
    then have "iss \<noteq> []" by auto
    then show ?thesis using concat_take [OF assms(1,2)] take_all [OF assms(1)] that by simp
  qed
  have "rbind (dp_split s d) dp_concat = Inr d"
    unfolding split_take [OF assms(1,5)] using assms(5) by (intro rejoin concat_py_chunks)
  moreover have "rbind (dp_chunk g k d) dp_concat = Inr d \<and>
      (\<forall>parts. dp_chunk g k d = Inr parts \<longrightarrow> length parts = k \<and> (\<forall>p\<in>set parts. dp_len p = dp_len d div k))"
    if "k dvd dp_len d"
  proof -
    note iss = chunks_exact [OF assms(4) that assms(3)]
    show ?thesis
      unfolding chunk_take [OF assms(1,4) that assms(3)]
      using rejoin [OF iss(3)] iss(1,2) dp_len_take [OF rows] by auto
  qed
  ultimately show ?thesis by blast
qed

definition sample_dp :: "(nat, string, nat) dataproto" where
  "sample_dp =
     \<lparr>batch = Some \<lparr>td_size = 3, td_items = [(''ids'', [5, 6, 7]), (''len'', [1, 2, 3])]\<rparr>,
      non_tensor = [(''uid'', [''a'', ''b'', ''c''])], meta = [(''step'', Atom 1)]\<rparr>"

lemma sample_dp_facts [simp]: "wf_dp sample_dp" "metric_free sample_dp" "dp_len sample_dp = 3"
  by (simp_all add: sample_dp_def wf_dp_def metric_free_def dp_len_def)

theorem chunk_split_concat_witness:
  "rbind (dp_split 2 sample_dp) dp_concat = Inr sample_dp \<and> rbind (dp_chunk False 3 sample_dp) dp_concat = Inr sample_dp"
  using chunk_split_concat [of sample_dp 3 2 False] by simp

section \<open>Padding\<close>

lemma pad_sizes_rows:
  assumes "0 < n"
  shows "concat (map (\<lambda>m. [0..<min m n]) (pad_sizes n r)) = map (\<lambda>i. i mod n) [0..<r]"
proof (induction r rule: less_induct)
  case (less r)
  show ?case
  proof (cases "n < r")
    case True
    then have "concat (map (\<lambda>m. [0..<min m n]) (pad_sizes n r)) = [0..<n] @ map (\<lambda>i. i mod n) [0..<r - n]"
      using less [of "r - n"] assms by (subst pad_sizes.simps) simp
    also have "[0..<n] = map (\<lambda>i. i mod n) [0..<n]" by (intro nth_equalityI) auto
    also have "map (\<lambda>i. i mod n) [0..<r - n] = map (\<lambda>i. i mod n) [n..<r]"
      using True by (intro nth_equalityI) auto
    also have "map (\<lambda>i. i mod n) [0..<n] @ map (\<lambda>i. i mod n) [n..<r] = map (\<lambda>i. i mod n) [0..<r]"
      using True upt_add_eq_append [of 0 n "r - n"] by (simp flip: map_append)
    finally show ?thesis .
  next
    case False
    have "concat (map (\<lambda>m. [0..<min m n]) (pad_sizes n r)) = [0..<r]"
    proof (cases "r = 0")
      case False
      then show ?thesis using \<open>\<not> n < r\<close> assms
        by (subst pad_sizes.simps) (simp add: min_def pad_sizes.simps)
    qed (simp add: pad_sizes.simps)
    also have "\<dots> = map (\<lambda>i. i mod n) [0..<r]" using False by (intro nth_equalityI) auto
    finally show ?thesis .
  qed
qed

lemma slice_prefix: "wf_dp d \<Longrightarrow> dp_slice None (Some (int m)) None d = Inr (dp_take [0..<min m (dp_len d)] d)"
  unfolding slice_take slice_indices_def slice_bound_nat by (simp add: slice_bound_def Let_def map_idI)

text \<open>
  C26: padding to a divisor appends the rows of the container again from the start, cyclically, as many
  times as it needs even when the container is shorter than the padding, up to the next multiple of
  the divisor, and unpadding gives back the container.
\<close>

theorem pad_unpad:
  assumes "wf_dp d" and "metric_free d" and "0 < dp_len d" and "0 < k"
  shows "\<exists>p m. pad_dataproto_to_divisor d k = Inr (p, m) \<and> m < k \<and> k dvd dp_len p \<and>
     p = dp_take (map (\<lambda>i. i mod dp_len d) [0..<dp_len d + m]) d \<and> unpad_dataproto p m = Inr d"
proof -
  let ?n = "dp_len d"
  let ?idx = "\<lambda>m. map (\<lambda>i. i mod ?n) [0..<?n + m]"
  have rows: "has_rows d" using assms(3) no_rows_len by fastforce
  have id: "map (\<lambda>i. i mod ?n) [0..<?n] = [0..<?n]" by (intro nth_equalityI) auto
  show ?thesis
  proof (cases "?n mod k = 0")
    case True
    then have "pad_dataproto_to_divisor d k = Inr (d, 0)"
      using assms(4) by (simp add: pad_dataproto_to_divisor_def)
    moreover have "dp_take (?idx 0) d = d" using id take_all [OF assms(1)] by simp
    ultimately show ?thesis
      using True assms(4) by (intro exI [of _ d] exI [of _ 0]) (auto simp: unpad_dataproto_def)
  next
    case False
    define m where "m = k - ?n mod k"
    have m: "0 < m" "m < k" using False assms(4) mod_less_divisor [OF assms(4), of ?n] by (auto simp: m_def)
    have dvd: "k dvd ?n + m"
    proof -
      have "?n + m = k * (?n div k) + k"
        using mult_div_mod_eq [of k ?n] mod_less_divisor [OF assms(4), of ?n] unfolding m_def by linarith
      then show ?thesis by simp
    qed
    let ?iss = "[0..<?n] # map (\<lambda>j. [0..<min j ?n]) (pad_sizes ?n m)"
    have shift: "map (\<lambda>i. i mod ?n) [?n..<?n + m] = map (\<lambda>i. i mod ?n) [0..<m]"
      by (intro nth_equalityI) auto
    have "?idx m = map (\<lambda>i. i mod ?n) [0..<?n] @ map (\<lambda>i. i mod ?n) [?n..<?n + m]"
      using upt_add_eq_append [of 0 ?n m] by (simp only: map_append le0)
    then have idx: "concat ?iss = ?idx m"
      unfolding id shift using pad_sizes_rows [OF assms(3), of m] by (simp only: concat.simps)
    have "mapM_result (\<lambda>j. dp_slice None (Some (int j)) None d) (pad_sizes ?n m) =
        Inr (map (\<lambda>j. dp_take [0..<min j ?n] d) (pad_sizes ?n m))"
      by (intro mapM_result_Inr slice_prefix assms(1))
    moreover have "dp_concat (d # map (\<lambda>j. dp_take [0..<min j ?n] d) (pad_sizes ?n m)) = Inr (dp_take (?idx m) d)"
      using concat_take [OF assms(1,2), of ?iss] take_all [OF assms(1)] unfolding idx
      by (simp add: comp_def)
    ultimately have pad: "pad_dataproto_to_divisor d k = Inr (dp_take (?idx m) d, m)"
      using False assms(4) by (simp add: pad_dataproto_to_divisor_def m_def)
    have len: "dp_len (dp_take (?idx m) d) = ?n + m" using dp_len_take [OF rows] by simp
    have "slice_indices (?n + m) None (Some (- int m)) 1 = [0..<?n]"
      using m by (simp add: slice_indices_def slice_bound_def map_idI)
    then have "unpad_dataproto (dp_take (?idx m) d) m = Inr (dp_take [0..<?n] (dp_take (?idx m) d))"
      using m slice_take [OF wf_take [OF assms(1), of "?idx m"], of None "Some (- int m)"]
      unfolding len by (simp add: unpad_dataproto_def)
    also have "dp_take [0..<?n] (dp_take (?idx m) d) = dp_take [0..<?n] d"
    proof -
      have "map (\<lambda>j. ?idx m ! j) [0..<?n] = [0..<?n]" by (intro nth_equalityI) auto
      moreover have "set [0..<?n] \<subseteq> {..<length (?idx m)}" by auto
      ultimately show ?thesis using take_take [of "[0..<?n]" "?idx m" d] by presburger
    qed
    finally show ?thesis
      using pad dvd len m take_all [OF assms(1)] by (intro exI [of _ "dp_take (?idx m) d"] exI [of _ m]) simp
  qed
qed

theorem pad_unpad_witness:
  "\<exists>p m. pad_dataproto_to_divisor sample_dp 8 = Inr (p, m) \<and> m < 8 \<and> 8 dvd dp_len p \<and>
     p = dp_take (map (\<lambda>i. i mod dp_len sample_dp) [0..<dp_len sample_dp + m]) sample_dp \<and>
     unpad_dataproto p m = Inr sample_dp"
  using pad_unpad [of sample_dp 8] by simp

section \<open>Preservation of the invariant\<close>

lemma make_eq_Inr: "make b n m = Inr r \<longleftrightarrow> r = \<lparr>batch = b, non_tensor = n, meta = m\<rparr> \<and> check_consistency r"
  by (auto simp: make_def Let_def ensure_eq_Inr)

lemma make_take_wf:
  assumes "wf_dp d" and "(let r = dp_take is d in make (batch r) (non_tensor r) (meta r)) = Inr r"
  shows "wf_dp r"
  using assms make_wf [OF wf_take [OF assms(1), of "is"]] wf_take [OF assms(1), of "is"] by (simp add: Let_def)

lemma keys_filter: "keys (filter (\<lambda>(k, v). P k) d) = filter P (keys d)"
  by (induction d) auto

lemma dict_select_sub: "set (dict_select ks d) \<subseteq> set d"
  by (auto simp: dict_select_def split: option.split)

lemma dict_select_distinct: "distinct (keys d) \<Longrightarrow> distinct (keys (dict_select ks d))"
  by (auto simp: dict_select_def keys_filter split: option.split)

text \<open>Without tensors a container is well formed when all its arrays have one length.\<close>

lemma wf_no_tensors:
  assumes "\<forall>(k, v)\<in>set n. length v = len" and "distinct (keys n)" and "distinct (keys m)"
  shows "wf_dp \<lparr>batch = None, non_tensor = n, meta = m\<rparr>"
proof -
  have "dp_len \<lparr>batch = None, non_tensor = n, meta = m\<rparr> = len" if "n \<noteq> []"
    using that assms(1) by (cases n) (auto simp: dp_len_def)
  then show ?thesis using assms by (cases "n = []") (auto simp: wf_dp_def)
qed

lemma wf_tensors:
  assumes "\<forall>(k, v)\<in>set ts. length v = len" and "\<forall>(k, v)\<in>set n. length v = len"
    and "distinct (keys ts)" and "distinct (keys n)" and "distinct (keys m)"
  shows "wf_dp \<lparr>batch = Some \<lparr>td_size = len, td_items = ts\<rparr>, non_tensor = n, meta = m\<rparr>"
  using assms by (simp add: wf_dp_def dp_len_def)

lemma wf_select:
  assumes "wf_dp d" and "dp_select bks nks mks d = Inr r"
  shows "wf_dp r"
proof -
  note sub = dict_select_sub [of nks "non_tensor d"]
  have lens: "\<forall>(k, v)\<in>set (dict_select nks (non_tensor d)). length v = dp_len d"
    using sub wf_dpD(4) [OF assms(1)] by blast
  note dist = dict_select_distinct [OF wf_dpD(3) [OF assms(1)], of nks]
    dict_select_distinct [OF wf_dpD(5) [OF assms(1)], of mks]
  show ?thesis
  proof (cases "batch d")
    case None
    then have "r = \<lparr>batch = None, non_tensor = dict_select nks (non_tensor d), meta = dict_select mks (meta d)\<rparr>"
      using assms(2) by (cases bks) (auto simp: dp_select_def make_eq_Inr)
    then show ?thesis using wf_no_tensors [OF lens dist] by simp
  next
    case (Some td)
    note td = wf_dpD(1,2) [OF assms(1) Some]
    obtain ts where r: "r = \<lparr>batch = Some \<lparr>td_size = dp_len d, td_items = ts\<rparr>,
          non_tensor = dict_select nks (non_tensor d), meta = dict_select mks (meta d)\<rparr>"
        and ts: "set ts \<subseteq> set (td_items td)" "distinct (keys ts)"
    proof (cases bks)
      case None
      then show ?thesis
        using that [of "td_items td"] assms(2) Some td(1) by (auto simp: dp_select_def make_eq_Inr dp_len_def)
    next
      case bks: (Some ks)
      show ?thesis
        using that [of "filter (\<lambda>(k, _). k \<in> set ks) (td_items td)"] assms(2) Some td(1) bks
        by (auto simp: dp_select_def make_eq_Inr dp_len_def td_select_def keys_filter rbind_eq_Inr ensure_eq_Inr)
    qed
    have "\<forall>(k, v)\<in>set ts. length v = dp_len d" using ts(1) td(2) by blast
    then show ?thesis unfolding r using lens ts(2) dist by (intro wf_tensors) 
  qed
qed

lemma keys_delete: "keys (AList.delete k d) = filter (\<lambda>j. j \<noteq> k) (keys d)"
  by (induction d) auto

lemma delete_sub: "set (AList.delete k d) \<subseteq> set d"
  by (auto simp: AList.delete_eq)

lemma pop_keys_facts:
  assumes "pop_keys ks d = Inr (popped, rest)" and "distinct (keys d)"
  shows "set popped \<subseteq> set d \<and> set rest \<subseteq> set d \<and> keys popped = ks \<and> distinct ks \<and>
     keys rest = filter (\<lambda>k. k \<notin> set ks) (keys d)"
  using assms
proof (induction ks arbitrary: d popped rest)
  case Nil
  then show ?case by (simp add: keys_def filter_True)
next
  case (Cons k ks)
  obtain v where v: "map_of d k = Some v" using Cons.prems(1) by (cases "map_of d k") auto
  obtain p' where p': "pop_keys ks (AList.delete k d) = Inr (p', rest)" "popped = (k, v) # p'"
    using Cons.prems(1) v by (auto simp: rbind_eq_Inr)
  have "distinct (keys (AList.delete k d))" using Cons.prems(2) by (simp add: keys_delete)
  note IH = Cons.IH [OF p'(1) this]
  have "k \<notin> set ks" 
  proof -
    have "set (keys p') \<subseteq> set (keys (AList.delete k d))" using IH unfolding keys_def by force
    then show ?thesis using IH by (auto simp: keys_delete)
  qed
  then show ?case
    using IH delete_sub [of k d] map_of_SomeD [OF v] p'(2) by (auto simp: keys_delete intro: filter_cong)
qed

lemma from_dict_wf:
  assumes "from_dict ts n m False = Inr r" and "\<forall>(k, v)\<in>set ts. length v = len" and "\<forall>(k, v)\<in>set n. length v = len"
    and "distinct (keys ts)" and "distinct (keys n)" and "distinct (keys m)"
  shows "wf_dp r"
proof (cases ts)
  case Nil
  then show ?thesis using assms wf_no_tensors [OF assms(3,5,6)] by (auto simp: from_dict_def make_eq_Inr)
next
  case (Cons p ts')
  then obtain k v where p: "p = (k, v)" "length v = len" using assms(2) by (cases p) auto
  then have "r = \<lparr>batch = Some \<lparr>td_size = len, td_items = ts\<rparr>, non_tensor = n, meta = m\<rparr>"
    using assms(1) Cons by (auto simp: from_dict_def make_eq_Inr ensure_eq_Inr)
  then show ?thesis using wf_tensors [OF assms(2-6)] by simp
qed

lemma wf_pop:
  assumes "wf_dp d" and "dp_pop bks nks mks d = Inr (p, r)"
  shows "wf_dp p \<and> wf_dp r"
proof -
  obtain ts b where b: "(case batch d of None \<Rightarrow> ensure (bks = []) AttributeError (Inr ([], None))
      | Some td \<Rightarrow> rbind (pop_keys bks (td_items td)) (\<lambda>(popped, rest).
           Inr (popped, Some (td\<lparr>td_items := rest\<rparr>)))) = Inr (ts, b)"
    and rest: "rbind (pop_keys nks (non_tensor d)) (\<lambda>(non_tensors, n).
      rbind (pop_keys mks (meta d)) (\<lambda>(metas, m). rbind (from_dict ts non_tensors metas False) (\<lambda>popped.
        Inr (popped, \<lparr>batch = b, non_tensor = n, meta = m\<rparr>)))) = Inr (p, r)"
    using assms(2) unfolding dp_pop_def rbind_eq_Inr by (auto simp: rbind_eq_Inr)
  obtain nt n mt m where n: "pop_keys nks (non_tensor d) = Inr (nt, n)" and m: "pop_keys mks (meta d) = Inr (mt, m)"
    and p: "from_dict ts nt mt False = Inr p" and r: "r = \<lparr>batch = b, non_tensor = n, meta = m\<rparr>"
    using rest by (auto simp: rbind_eq_Inr)
  note n' = pop_keys_facts [OF n wf_dpD(3) [OF assms(1)]] and m' = pop_keys_facts [OF m wf_dpD(5) [OF assms(1)]]
  have dist: "distinct (keys nt)" "distinct (keys n)" "distinct (keys mt)" "distinct (keys m)"
    using n' m' wf_dpD(3,5) [OF assms(1)] by simp_all
  have lens: "\<forall>(k, v)\<in>set nt. length v = dp_len d" "\<forall>(k, v)\<in>set n. length v = dp_len d"
    using n' wf_dpD(4) [OF assms(1)] by blast+
  show ?thesis
  proof (cases "batch d")
    case None
    then have "ts = []" "b = None" using b by (auto simp: ensure_eq_Inr)
    then show ?thesis
      using from_dict_wf [OF p, of "dp_len d"] lens dist wf_no_tensors [OF lens(2) dist(2,4)] unfolding r by simp
  next
    case (Some td)
    then obtain rt where rt: "pop_keys bks (td_items td) = Inr (ts, rt)" "b = Some (td\<lparr>td_items := rt\<rparr>)"
      using b by (auto simp: rbind_eq_Inr)
    note td = wf_dpD(1,2) [OF assms(1) Some] and t' = pop_keys_facts [OF rt(1) wf_dpD(1) [OF assms(1) Some]]
    have b': "b = Some \<lparr>td_size = dp_len d, td_items = rt\<rparr>" using rt(2) Some by (simp add: dp_len_def)
    have tl: "\<forall>(k, v)\<in>set ts. length v = dp_len d" "\<forall>(k, v)\<in>set rt. length v = dp_len d"
      using t' td(2) by blast+
    have "distinct (keys ts)" "distinct (keys rt)" using t' td(1) by simp_all
    then show ?thesis
      using from_dict_wf [OF p tl(1) lens(1)] wf_tensors [OF tl(2) lens(2)] dist unfolding r b' by simp
  qed
qed

lemma update_elems: "(j, w) \<in> set (AList.update k v d) \<Longrightarrow> (j, w) = (k, v) \<or> (j, w) \<in> set d"
  by (induction d) (auto split: if_splits)

lemma union_dict_facts:
  assumes "union_dict d e = Inr r" and "distinct (keys d)" and "\<forall>(k, v)\<in>set d. P v" and "\<forall>(k, v)\<in>set e. P v"
  shows "distinct (keys r) \<and> (\<forall>(k, v)\<in>set r. P v)"
  using assms
proof (induction d e rule: union_dict.induct)
  case (2 d k v e)
  have step: "union_dict (AList.update k v d) e = Inr r"
    using "2.prems"(1) by (auto simp: ensure_eq_Inr split: option.splits)
  have dist: "distinct (keys (AList.update k v d))" using "2.prems"(2) by (simp add: keys_def distinct_update)
  have "P w" if "(j, w) \<in> set (AList.update k v d)" for j w
    using update_elems [OF that] "2.prems"(3,4) by force
  then have all: "\<forall>(j, w)\<in>set (AList.update k v d). P w" by blast
  have rest: "\<forall>(k, v)\<in>set e. P v" using "2.prems"(4) by simp
  show ?case
  proof (cases "map_of d k")
    case None
    from "2.IH"(1) [OF None step dist all rest] show ?thesis .
  next
    case (Some w)
    then have "w = v" using "2.prems"(1) by (simp add: ensure_eq_Inr)
    from "2.IH"(2) [OF Some step dist all rest] show ?thesis .
  qed
qed simp

lemma wf_union:
  assumes "wf_dp d" and "wf_dp e" and "dp_union d e = Inr r"
  shows "wf_dp r"
proof -
  obtain t1 t2 where t: "batch d = Some t1" "batch e = Some t2"
    using assms(3) by (auto simp: dp_union_def split: option.splits)
  obtain items n m where u: "td_size t1 = td_size t2" "union_dict (td_items t1) (td_items t2) = Inr items"
      "union_dict (non_tensor d) (non_tensor e) = Inr n" "union_dict (meta d) (meta e) = Inr m"
      and r: "r = \<lparr>batch = Some (t1\<lparr>td_items := items\<rparr>), non_tensor = n, meta = m\<rparr>"
    using assms(3) t by (auto simp: dp_union_def union_tensor_dict_def rbind_eq_Inr ensure_eq_Inr)
  have len: "dp_len d = td_size t1" "dp_len e = td_size t1" using t u(1) by (simp_all add: dp_len_def)
  note t1 = wf_dpD(1-5) [OF assms(1)] and t2 = wf_dpD(1-5) [OF assms(2)]
  have "distinct (keys items) \<and> (\<forall>(k, v)\<in>set items. length v = td_size t1)"
    using t1(1,2) [OF t(1)] t2(2) [OF t(2)] len by (intro union_dict_facts [OF u(2)]) auto
  moreover have "distinct (keys n) \<and> (\<forall>(k, v)\<in>set n. length v = td_size t1)"
    using t1(3,4) t2(4) len by (intro union_dict_facts [OF u(3)]) auto
  moreover have "distinct (keys m) \<and> (\<forall>(k, v)\<in>set m. True)"
    using t1(5) by (intro union_dict_facts [OF u(4)]) auto
  ultimately show ?thesis unfolding r by (simp add: wf_dp_def dp_len_def)
qed

lemma merge_meta_distinct:
  "merge_meta items acc = Inr acc' \<Longrightarrow> distinct (keys (fst acc)) \<Longrightarrow> distinct (keys (fst acc'))"
proof (induction items acc rule: merge_meta.induct)
  case (2 k v items merged metrics)
  have "distinct (keys (AList.update k v merged))" using "2.prems"(2) by (simp add: keys_def distinct_update)
  then show ?case
    using "2.IH" "2.prems" by (cases "map_of merged k") (auto simp: ensure_eq_Inr split: if_splits)
qed simp

lemma merge_metas_distinct:
  "merge_metas ms acc = Inr acc' \<Longrightarrow> distinct (keys (fst acc)) \<Longrightarrow> distinct (keys (fst acc'))"
  by (induction ms acc rule: merge_metas.induct) (auto simp: rbind_eq_Inr dest: merge_meta_distinct)

lemma concat_metas_distinct: "concat_metas ms = Inr m \<Longrightarrow> distinct (keys m)"
  by (auto simp: concat_metas_def rbind_eq_Inr keys_def distinct_update split: if_splits
      dest!: merge_metas_distinct)

lemma length_concat_map:
  "(\<And>t. t \<in> set ts \<Longrightarrow> length (g t) = h t) \<Longrightarrow> length (concat (map g ts)) = sum_list (map h ts)"
  by (induction ts) auto

lemma wf_concat:
  assumes "\<forall>d\<in>set ds. wf_dp d" and "\<forall>d. ds = d # tl ds \<longrightarrow> batch d \<noteq> None" and "dp_concat ds = Inr r"
  shows "wf_dp r"
proof -
  obtain d rest where ds: "ds = d # rest" using assms(3) by (cases ds) (auto simp: dp_concat_def)
  then have "batch d \<noteq> None" using assms(2) by simp
  then obtain b n m where some: "\<forall>e\<in>set ds. batch e \<noteq> None" and b: "td_cat (map (\<lambda>e. the (batch e)) ds) = Inr b"
      and n: "list_of_dict_to_dict_of_list (map non_tensor ds) = Inr n" and m: "concat_metas (map meta ds) = Inr m"
      and r: "make (Some b) (dict_map concat n) m = Inr r"
    using assms(3) ds by (auto simp: dp_concat_def rbind_eq_Inr ensure_eq_Inr)
  let ?tds = "map (\<lambda>e. the (batch e)) ds"
  have wf_td: "distinct (keys (td_items t)) \<and> (\<forall>(k, v)\<in>set (td_items t). length v = td_size t)" if "t \<in> set ?tds" for t
  proof -
    from that some obtain e where "e \<in> set ds" "batch e = Some t" by auto
    then show ?thesis using assms(1) wf_dpD(1,2) [of e t] by (auto simp: dp_len_def)
  qed
  have b': "b = \<lparr>td_size = sum_list (map td_size ?tds),
        td_items = map (\<lambda>k. (k, concat (map (\<lambda>t. the (map_of (td_items t) k)) ?tds))) (keys (td_items (the (batch d))))\<rparr>"
      and same: "\<forall>t\<in>set ?tds. set (keys (td_items t)) = set (keys (td_items (the (batch d))))"
    using b by (auto simp: td_cat_def ds ensure_eq_Inr)
  have cols: "length (concat (map (\<lambda>t. the (map_of (td_items t) k)) ?tds)) = td_size b"
    if "k \<in> set (keys (td_items (the (batch d))))" for k
  proof -
    have "length (the (map_of (td_items t) k)) = td_size t" if t: "t \<in> set ?tds" for t
    proof -
      have "k \<in> set (keys (td_items t))" using same t \<open>k \<in> _\<close> by blast
      then obtain v where "map_of (td_items t) k = Some v" "(k, v) \<in> set (td_items t)"
        using map_of_keys wf_td [OF t] by metis
      then show ?thesis using wf_td [OF t] by auto
    qed
    then have "length (concat (map (\<lambda>t. the (map_of (td_items t) k)) ?tds)) = sum_list (map td_size ?tds)"
      by (intro length_concat_map) blast
    then show ?thesis unfolding b' by simp
  qed
  have nk: "keys n = keys (non_tensor d)" using n by (auto simp: list_of_dict_to_dict_of_list_def ds ensure_eq_Inr keys_def comp_def)
  have "distinct (keys (td_items b))" "\<forall>(k, v)\<in>set (td_items b). length v = td_size b"
    using cols wf_td [of "the (batch d)"] unfolding b' by (auto simp: ds keys_def comp_def)
  moreover have "distinct (keys (dict_map concat n))" using nk wf_dpD(3) [of d] assms(1) ds by simp
  moreover have "\<forall>(k, v)\<in>set (dict_map concat n). length v = td_size b"
    using r by (auto simp: make_eq_Inr check_consistency_def list_all_iff)
  moreover have "distinct (keys m)" using m by (rule concat_metas_distinct)
  ultimately show ?thesis using r by (auto simp: make_eq_Inr wf_dp_def dp_len_def)
qed

lemma np_split_same_lengths: "length v = length w \<Longrightarrow> map length (np_split ns v) = map length (np_split ns w)"
  by (induction ns arbitrary: v w) auto

lemma mapM_result_mem: "mapM_result f xs = Inr ys \<Longrightarrow> y \<in> set ys \<Longrightarrow> \<exists>x\<in>set xs. f x = Inr y"
  by (induction xs arbitrary: ys) (auto simp: rbind_eq_Inr)

lemma wf_chunk:
  assumes "wf_dp d" and "dp_chunk g k d = Inr ps" and "p \<in> set ps"
  shows "wf_dp p"
proof -
  define tds where "tds = (case batch d of None \<Rightarrow> None | Some td \<Rightarrow> Some (td_chunk k td))"
  define pieces where "pieces = (\<lambda>v :: 'b list. case tds of
      None \<Rightarrow> np_array_split k v | Some ts \<Rightarrow> np_split (butlast (map td_size ts)) v)"
  have "list_all (\<lambda>(_, v). length (pieces v) = k) (non_tensor d)"
    and *: "mapM_result (\<lambda>i. rbind (case tds of None \<Rightarrow> Inr None | Some ts \<Rightarrow> rbind (py_get ts i) (\<lambda>t. Inr (Some t)))
        (\<lambda>b. make b (dict_map (\<lambda>v. pieces v ! i) (non_tensor d)) (meta d))) [0..<k] = Inr ps"
    using assms(2) unfolding dp_chunk_def Let_def tds_def [symmetric] pieces_def by (simp_all add: ensure_eq_Inr)
  then have len: "\<And>j v. (j, v) \<in> set (non_tensor d) \<Longrightarrow> length (pieces v) = k" by (auto simp: list_all_iff)
  obtain i b where i: "i < k" and b: "(case tds of None \<Rightarrow> Inr None | Some ts \<Rightarrow> rbind (py_get ts i) (\<lambda>t. Inr (Some t))) = Inr b"
    and p: "p = \<lparr>batch = b, non_tensor = dict_map (\<lambda>v. pieces v ! i) (non_tensor d), meta = meta d\<rparr>" "check_consistency p"
    using mapM_result_mem [OF * assms(3)] by (auto simp: rbind_eq_Inr make_eq_Inr)
  note d = wf_dpD [OF assms(1)]
  show ?thesis
  proof (cases "batch d")
    case None
    then have none: "b = None" using b by (simp add: tds_def)
    have same: "length (pieces v ! i) = length (pieces w ! i)"
      if "(j, v) \<in> set (non_tensor d)" "(j', w) \<in> set (non_tensor d)" for j v j' w
    proof -
      have "length v = length w" using d(4) that by metis
      then have "map length (pieces v) = map length (pieces w)"
        using np_split_same_lengths by (auto simp: pieces_def np_array_split_def split: option.split)
      then show ?thesis using len that i by (metis length_map nth_map)
    qed
    have "\<exists>n. \<forall>(j, v)\<in>set (dict_map (\<lambda>v. pieces v ! i) (non_tensor d)). length v = n"
    proof (cases "non_tensor d")
      case (Cons q rest)
      obtain j0 v0 where "q = (j0, v0)" by (cases q)
      then have "(j0, v0) \<in> set (non_tensor d)" using Cons by simp
      then have "length (pieces v ! i) = length (pieces v0 ! i)" if "(j, v) \<in> set (non_tensor d)" for j v
        using same that by blast
      then have "\<forall>(j, w)\<in>set (dict_map (\<lambda>v. pieces v ! i) (non_tensor d)). length w = length (pieces v0 ! i)"
        by (auto dest!: in_dict_map)
      then show ?thesis by blast
    qed simp
    then show ?thesis unfolding p(1) none using d(3,5) by (auto intro: wf_no_tensors)
  next
    case (Some td)
    then obtain t where t: "b = Some t" "t \<in> set (td_chunk k td)"
      using b by (auto simp: tds_def rbind_eq_Inr py_get_def split: if_splits)
    then obtain idx where "t = td_take idx td" by (auto simp: td_chunk_def)
    then have "distinct (keys (td_items t)) \<and> (\<forall>(j, v)\<in>set (td_items t). length v = td_size t)"
      using d(1) [OF Some] by (auto dest: in_dict_map)
    then show ?thesis
      using p(2) d(3,5) unfolding p(1) t(1)
      by (auto simp: wf_dp_def dp_len_def check_consistency_def list_all_iff)
  qed
qed

lemma wf_select_idxs: "wf_dp d \<Longrightarrow> select_idxs idxs d = Inr r \<Longrightarrow> wf_dp r"
  unfolding select_idxs_def rbind_eq_Inr by (elim exE conjE) (rule make_take_wf)

lemma wf_slice: "wf_dp d \<Longrightarrow> dp_slice a b c d = Inr r \<Longrightarrow> wf_dp r"
  unfolding dp_slice_def ensure_eq_Inr by (elim conjE) (rule make_take_wf)

lemma wf_repeat: "wf_dp d \<Longrightarrow> dp_repeat n il d = Inr r \<Longrightarrow> wf_dp r"
  unfolding dp_repeat_def by (rule make_take_wf)

lemma wf_split: "wf_dp d \<Longrightarrow> dp_split n d = Inr ps \<Longrightarrow> p \<in> set ps \<Longrightarrow> wf_dp p"
  unfolding dp_split_def ensure_eq_Inr by (auto dest!: mapM_result_mem intro: wf_slice)

lemma wf_selections:
  assumes "wf_dp d"
  shows "select_mask flags d = Inr r \<Longrightarrow> wf_dp r" and "sample_level_repeat reps d = Inr r \<Longrightarrow> wf_dp r"
    and "reorder idxs d = Inr r \<Longrightarrow> wf_dp r" and "unpad_dataproto d n = Inr r \<Longrightarrow> wf_dp r"
  using make_take_wf [OF assms] wf_slice [OF assms] wf_take [OF assms] assms
  by (auto simp: select_mask_def sample_level_repeat_def reorder_def unpad_dataproto_def ensure_eq_Inr
      rbind_eq_Inr split: if_splits)

text \<open>Concatenation without tensors keeps the rows aligned when every part has the arrays of the first.\<close>

definition same_arrays :: "('a, 'b, 'm) dataproto \<Rightarrow> ('a, 'b, 'm) dataproto \<Rightarrow> bool" where
  "same_arrays d e \<longleftrightarrow> set (keys (non_tensor e)) = set (keys (non_tensor d))"

lemma map_filter_total: "\<forall>x\<in>set xs. \<exists>y. f x = Some y \<Longrightarrow> List.map_filter f xs = map (\<lambda>x. the (f x)) xs"
  by (induction xs) (auto simp: List.map_filter_simps)

lemma list_of_dict_columns:
  assumes "\<And>e. e \<in> set (d # ds) \<Longrightarrow> distinct (keys e) \<and> set (keys e) = set (keys d)"
  shows "list_of_dict_to_dict_of_list (d # ds) = Inr (map (\<lambda>k. (k, map (\<lambda>e. the (map_of e k)) (d # ds))) (keys d))"
proof -
  have "List.map_filter (\<lambda>e. map_of e k) (d # ds) = map (\<lambda>e. the (map_of e k)) (d # ds)" if "k \<in> set (keys d)" for k
  proof -
    have "\<forall>e\<in>set (d # ds). \<exists>v. map_of e k = Some v" using assms that map_of_keys by metis
    then show ?thesis by (rule map_filter_total)
  qed
  moreover have "\<forall>e\<in>set (d # ds). set (keys e) \<subseteq> set (keys d)" using assms by blast
  ultimately show ?thesis by (simp add: list_of_dict_to_dict_of_list_def)
qed

lemma keys_columns: "keys (map (\<lambda>k. (k, f k)) ks) = ks"
  by (simp add: keys_def comp_def)

lemma wf_concat_arrays:
  assumes wf: "\<forall>e\<in>set (d # ds). wf_dp e" and same: "\<forall>e\<in>set ds. same_arrays d e" and none: "batch d = None"
    and run: "dp_concat (d # ds) = Inr r"
  shows "wf_dp r"
proof -
  let ?D = "d # ds"
  from run none obtain n m where n: "list_of_dict_to_dict_of_list (map non_tensor ?D) = Inr n"
    and m: "concat_metas (map meta ?D) = Inr m" and r: "r = \<lparr>batch = None, non_tensor = dict_map concat n, meta = m\<rparr>"
    by (auto simp: dp_concat_def rbind_eq_Inr make_eq_Inr)
  have cols: "n = map (\<lambda>k. (k, map (\<lambda>e. the (map_of e k)) (map non_tensor ?D))) (keys (non_tensor d))"
  proof -
    have "list_of_dict_to_dict_of_list (map non_tensor ?D) =
       Inr (map (\<lambda>k. (k, map (\<lambda>e. the (map_of e k)) (map non_tensor ?D))) (keys (non_tensor d)))"
      using same wf_dpD(3) wf list_of_dict_columns [of "non_tensor d" "map non_tensor ds"]
      by (auto simp: same_arrays_def)
    with n show ?thesis by simp
  qed
  have lens: "length (concat (map (\<lambda>e. the (map_of e k)) (map non_tensor ?D))) = sum_list (map dp_len ?D)"
    if k: "k \<in> set (keys (non_tensor d))" for k
  proof -
    have "length (the (map_of (non_tensor e) k)) = dp_len e" if e: "e \<in> set ?D" for e
    proof -
      have "k \<in> set (keys (non_tensor e))" using e k same by (auto simp: same_arrays_def)
      then obtain v where "map_of (non_tensor e) k = Some v" "(k, v) \<in> set (non_tensor e)"
        using map_of_keys wf_dpD(3) wf e by metis
      then show ?thesis using wf_dpD(4) wf e by fastforce
    qed
    then show ?thesis unfolding map_map comp_def by (intro length_concat_map) blast
  qed
  have "distinct (keys (dict_map concat n))" using wf_dpD(3) [of d] wf unfolding cols keys_dict_map keys_columns by simp
  moreover have "length v = sum_list (map dp_len ?D)" if "(k, v) \<in> set (dict_map concat n)" for k v
    using that lens unfolding cols by (auto simp: dict_map_def)
  then have "\<forall>(k, v)\<in>set (dict_map concat n). length v = sum_list (map dp_len ?D)" by blast
  ultimately show ?thesis unfolding r using concat_metas_distinct [OF m] wf_no_tensors by blast
qed

lemma wf_concat_parts:
  assumes "\<forall>e\<in>set (d # ds). wf_dp e" and "batch d \<noteq> None \<or> (\<forall>e\<in>set ds. same_arrays d e)"
    and "dp_concat (d # ds) = Inr r"
  shows "wf_dp r"
proof (cases "batch d = None")
  case True
  with assms wf_concat_arrays [of d ds r] show ?thesis by blast
next
  case False
  with assms wf_concat [of "d # ds" r] show ?thesis by simp
qed

lemma take_same_arrays: "same_arrays d (dp_take idx d)"
  by (simp add: same_arrays_def)

lemma wf_pad:
  assumes "wf_dp d" and "pad_dataproto_to_divisor d k = Inr (r, n)"
  shows "wf_dp r"
proof (cases "dp_len d mod k = 0")
  case False
  with assms(2) obtain protos where protos:
      "mapM_result (\<lambda>n. dp_slice None (Some (int n)) None d) (pad_sizes (dp_len d) n) = Inr protos"
      and r: "dp_concat (d # protos) = Inr r"
    by (auto simp: pad_dataproto_to_divisor_def ensure_eq_Inr rbind_eq_Inr Let_def)
  have parts: "\<exists>idx. e = dp_take idx d" if "e \<in> set protos" for e
    using mapM_result_mem [OF protos that] slice_prefix [OF assms(1)] by auto
  show ?thesis
  proof (rule wf_concat_parts [OF _ _ r])
    show "\<forall>e\<in>set (d # protos). wf_dp e" using parts wf_take [OF assms(1)] assms(1) by fastforce
    show "batch d \<noteq> None \<or> (\<forall>e\<in>set protos. same_arrays d e)" using parts take_same_arrays by metis
  qed
qed (use assms in \<open>auto simp: pad_dataproto_to_divisor_def ensure_eq_Inr\<close>)

lemma wf_padding:
  assumes "wf_dp d" and "dp_padding n candidate d = Inr r"
  shows "wf_dp r"
proof (cases "n = 0")
  case False
  with assms(2) obtain cand part p where cand: "select_idxs [if candidate = ''first'' then 0 else int (dp_len d) - 1] d = Inr cand"
      and part: "dp_repeat n True cand = Inr part" and p: "dp_concat [d, part] = Inr p"
      and r: "r = d\<lparr>batch := batch p, non_tensor := non_tensor p\<rparr>"
    by (auto simp: dp_padding_def rbind_eq_Inr)
  have "same_arrays d part"
    using cand part by (auto simp: select_idxs_def dp_repeat_def rbind_eq_Inr Let_def make_eq_Inr same_arrays_def)
  moreover have "wf_dp part" using wf_repeat [OF wf_select_idxs [OF assms(1) cand] part] .
  ultimately have "wf_dp p" using assms(1) by (intro wf_concat_parts [OF _ _ p]) simp_all
  then show ?thesis using wf_dpD(5) [OF assms(1)] unfolding r
    by (auto simp: wf_dp_def dp_len_def split: option.splits)
qed (use assms in \<open>simp add: dp_padding_def\<close>)

lemma rename_key_facts:
  assumes "rename_key olds news d = Inr e" and "distinct (keys d)"
  shows "distinct (keys e) \<and> (\<forall>(k, v)\<in>set e. \<exists>j. (j, v) \<in> set d)"
proof (cases "olds = news")
  case False
  with assms(1) obtain k path v where v: "map_of d k = Some v" "e = AList.delete k (AList.update (hd news) v d)"
    by (auto simp: rename_key_def ensure_eq_Inr split: list.splits option.splits)
  have "distinct (keys (AList.update (hd news) v d))" using assms(2) distinct_update by (simp add: keys_def)
  then have "distinct (keys e)" unfolding v(2) keys_delete by (rule distinct_filter)
  moreover have "\<exists>j. (j, w) \<in> set d" if "(i, w) \<in> set e" for i w
  proof -
    have "(i, w) \<in> set (AList.update (hd news) v d)" using that delete_sub v(2) by fast
    then have "(i, w) = (hd news, v) \<or> (i, w) \<in> set d" by (rule update_elems)
    then show ?thesis using map_of_SomeD [OF v(1)] by auto
  qed
  ultimately show ?thesis by blast
qed (use assms in \<open>auto simp: rename_key_def\<close>)

lemma wf_rename:
  assumes "wf_dp d" and "dp_rename olds news d = Inr r"
  shows "wf_dp r"
proof -
  from assms(2) obtain o' n' td items where td: "batch d = Some td"
    and items: "rename_key o' n' (td_items td) = Inr items" and r: "r = d\<lparr>batch := Some (td\<lparr>td_items := items\<rparr>)\<rparr>"
    by (auto simp: dp_rename_def ensure_eq_Inr rbind_eq_Inr split: option.splits)
  have facts: "distinct (keys items)" "\<And>k v. (k, v) \<in> set items \<Longrightarrow> \<exists>j. (j, v) \<in> set (td_items td)"
    using rename_key_facts [OF items wf_dpD(1) [OF assms(1) td]] by auto
  have len: "dp_len r = dp_len d" "td_size td = dp_len d" using td r by (simp_all add: dp_len_def)
  have rows: "length v = dp_len d" if "(k, v) \<in> set items" for k v
    using facts(2) [OF that] wf_dpD(2) [OF assms(1) td] by blast
  show ?thesis
    by (rule wf_dpI)
      (use facts(1) rows wf_dpD(3,4,5) [OF assms(1)] len in \<open>auto simp: r\<close>)
qed

text \<open>What unfolding relies on of the reshape: the row of a split key becomes \<open>n\<close> rows.\<close>

definition cuts_rows :: "(nat \<Rightarrow> 'a \<Rightarrow> 'a list result) \<Rightarrow> bool" where
  "cuts_rows cut_row \<longleftrightarrow> (\<forall>n x ps. cut_row n x = Inr ps \<longrightarrow> length ps = n)"

lemma cut_columns_cuts: "cuts_rows cut_columns"
  by (auto simp: cuts_rows_def cut_columns_def ensure_eq_Inr Let_def)

lemma unfold_column_length:
  assumes "cuts_rows cut_row" and "unfold_column cut_row n c v = Inr w"
  shows "length w = length v * n"
proof (cases c)
  case True
  with assms(2) obtain ps where ps: "mapM_result (cut_row n) v = Inr ps" and w: "w = concat ps"
    by (auto simp: unfold_column_def rbind_eq_Inr)
  have "length p = n" if "p \<in> set ps" for p
    using mapM_result_mem [OF ps that] assms(1) by (auto simp: cuts_rows_def)
  then have "map length ps = replicate (length ps) n" by (simp add: map_replicate_const [symmetric])
  then show ?thesis using mapM_result_length [OF ps] by (simp only: w length_concat sum_list_replicate of_nat_id)
next
  case False
  with assms(2) have "w = concat (map (replicate n) v)" by (simp add: unfold_column_def)
  then show ?thesis by (simp add: length_concat comp_def sum_list_triv)
qed

lemma unfold_items_facts:
  assumes "cuts_rows cut_row" and "unfold_items cut_row n chosen d = Inr e"
  shows "keys e = keys d" and "(k, w) \<in> set e \<Longrightarrow> \<exists>v. (k, v) \<in> set d \<and> length w = length v * n"
proof -
  let ?f = "\<lambda>(k, v). rbind (unfold_column cut_row n (chosen k) v) (\<lambda>w. Inr (k, w))"
  have run: "mapM_result ?f d = Inr e" using assms(2) by (simp add: unfold_items_def)
  show "keys e = keys d"
    unfolding keys_def
  proof (rule nth_equalityI)
    fix i assume "i < length (map fst e)"
    then show "map fst e ! i = map fst d ! i"
      using mapM_result_nth [OF run, of i] mapM_result_length [OF run]
      by (auto simp: rbind_eq_Inr case_prod_beta dest!: arg_cong [of _ "e ! i" fst])
  qed (simp add: mapM_result_length [OF run])
  assume "(k, w) \<in> set e"
  then obtain v where "(k, v) \<in> set d" "unfold_column cut_row n (chosen k) v = Inr w"
    using mapM_result_mem [OF run, of "(k, w)"] by (auto simp: rbind_eq_Inr)
  then show "\<exists>v. (k, v) \<in> set d \<and> length w = length v * n" using unfold_column_length [OF assms(1)] by blast
qed

lemma wf_unfold:
  assumes "wf_dp d" and cuts: "cuts_rows cut_t" "cuts_rows cut_a"
    and run: "unfold_column_chunks cut_t cut_a n ks d = Inr r"
  shows "wf_dp r"
proof -
  from run obtain b arrays where
    b: "(case batch d of None \<Rightarrow> Inr None | Some td \<Rightarrow> rbind (unfold_items cut_t n
          (\<lambda>k. case ks of None \<Rightarrow> False | Some ks \<Rightarrow> k \<in> set ks) (td_items td)) (\<lambda>items.
            Inr (Some \<lparr>td_size = td_size td * n, td_items = items\<rparr>))) = Inr b"
    and arrays: "unfold_items cut_a n (\<lambda>k. k \<in> set (the ks)) (non_tensor d) = Inr arrays"
    and r: "r = \<lparr>batch = b, non_tensor = arrays, meta = meta d\<rparr>"
    by (auto simp: unfold_column_chunks_def rbind_eq_Inr ensure_eq_Inr make_eq_Inr)
  note d = wf_dpD [OF assms(1)]
  have cols: "length w = dp_len d * n" if "(k, w) \<in> set arrays" for k w
    using unfold_items_facts(2) [OF cuts(2) arrays that] d(4) by auto
  have ks_arrays: "distinct (keys arrays)" using unfold_items_facts(1) [OF cuts(2) arrays] d(3) by simp
  show ?thesis
  proof (cases "batch d")
    case None
    with b have none: "b = None" by simp
    have "\<forall>(k, w)\<in>set arrays. length w = dp_len d * n" using cols by blast
    then show ?thesis unfolding r none using ks_arrays d(5) by (rule wf_no_tensors)
  next
    case (Some td)
    with b obtain items where items: "unfold_items cut_t n (\<lambda>k. case ks of None \<Rightarrow> False | Some ks \<Rightarrow> k \<in> set ks)
        (td_items td) = Inr items" and b': "b = Some \<lparr>td_size = td_size td * n, td_items = items\<rparr>"
      by (auto simp: rbind_eq_Inr)
    have size: "td_size td = dp_len d" using Some by (simp add: dp_len_def)
    have "length w = dp_len d * n" if "(k, w) \<in> set items" for k w
      using unfold_items_facts(2) [OF cuts(1) items that] d(2) [OF Some] by auto
    then show ?thesis
      using unfold_items_facts(1) [OF cuts(1) items] d(1) [OF Some] cols ks_arrays d(5) size
      by (intro wf_dpI) (auto simp: r b' dp_len_def)
  qed
qed

text \<open>One call on a container, and a container the call returns or leaves behind.\<close>

inductive dp_step :: "('a, 'b, 'm) dataproto \<Rightarrow> ('a, 'b, 'm) dataproto \<Rightarrow> bool" where
  "select_idxs idxs d = Inr r \<Longrightarrow> dp_step d r"
| "select_mask flags d = Inr r \<Longrightarrow> dp_step d r"
| "dp_slice start stop st d = Inr r \<Longrightarrow> dp_step d r"
| "dp_repeat n interleave d = Inr r \<Longrightarrow> dp_step d r"
| "sample_level_repeat reps d = Inr r \<Longrightarrow> dp_step d r"
| "reorder idxs d = Inr r \<Longrightarrow> dp_step d r"
| "unpad_dataproto d n = Inr r \<Longrightarrow> dp_step d r"
| "dp_select bks nks mks d = Inr r \<Longrightarrow> dp_step d r"
| "dp_pop bks nks mks d = Inr (r, rest) \<Longrightarrow> dp_step d r"
| "dp_pop bks nks mks d = Inr (popped, r) \<Longrightarrow> dp_step d r"
| "wf_dp e \<Longrightarrow> dp_union d e = Inr r \<Longrightarrow> dp_step d r"
| "dp_chunk padding k d = Inr parts \<Longrightarrow> r \<in> set parts \<Longrightarrow> dp_step d r"
| "dp_split k d = Inr parts \<Longrightarrow> r \<in> set parts \<Longrightarrow> dp_step d r"
| "list_all wf_dp ds \<Longrightarrow> batch d \<noteq> None \<or> list_all (same_arrays d) ds \<Longrightarrow> dp_concat (d # ds) = Inr r \<Longrightarrow>
     dp_step d r"
| "pad_dataproto_to_divisor d k = Inr (r, n) \<Longrightarrow> dp_step d r"
| "dp_padding n candidate d = Inr r \<Longrightarrow> dp_step d r"
| "dp_rename olds news d = Inr r \<Longrightarrow> dp_step d r"
| "cuts_rows cut_t \<Longrightarrow> cuts_rows cut_a \<Longrightarrow> unfold_column_chunks cut_t cut_a n ks d = Inr r \<Longrightarrow> dp_step d r"

lemma wf_step: "dp_step d r \<Longrightarrow> wf_dp d \<Longrightarrow> wf_dp r"
proof (induction rule: dp_step.induct)
  case (14 ds d r)
  then show ?case by (intro wf_concat_parts [of d ds]) (auto simp: list_all_iff)
qed (use wf_select_idxs wf_selections wf_slice wf_repeat wf_select wf_pop wf_union wf_chunk wf_split wf_pad
    wf_padding wf_rename wf_unfold in metis)+

text \<open>
  C24: every container reached from a well-formed one by a sequence of the calls below is well formed:
  unique keys, and every tensor and array with as many rows as the batch size. The calls are row
  selection by indices, by a mask and by a slice, both repetitions, reordering, unpadding, column
  selection, popping (both containers), union with a well-formed container, every piece of a chunking
  or splitting, padding to a divisor, in-place padding, renaming, unfolding of column chunks (for any
  cutting of rows that gives \<open>n\<close> rows), and concatenation with well-formed containers when the first
  container has tensors or all parts have the same array keys. Concatenation without tensors of parts
  with different array keys is excluded: it can break the invariant
  (\<open>concat_without_tensors_misaligns\<close>). \<open>fold_batch_dim\<close> and \<open>unfold_batch_dim\<close>, which change what a row
  is, are not among the calls either.
\<close>

theorem dataproto_invariant:
  assumes "dp_step\<^sup>*\<^sup>* d r" and "wf_dp d"
  shows "wf_dp r"
  using assms by (induction rule: rtranclp_induct) (auto intro: wf_step)

theorem dataproto_invariant_witness:
  "\<exists>r. select_mask [True, False, True] sample_dp = Inr r \<and>
       dp_repeat 2 True r = Inr (dp_take [0, 0, 2, 2] sample_dp) \<and> wf_dp (dp_take [0, 0, 2, 2] sample_dp)"
proof -
  let ?r = "dp_take [0, 2] sample_dp" and ?s = "dp_take [0, 0, 2, 2] sample_dp"
  have r: "select_mask [True, False, True] sample_dp = Inr ?r" and s: "dp_repeat 2 True ?r = Inr ?s"
    by code_simp+
  have "dp_step\<^sup>*\<^sup>* sample_dp ?s"
    using dp_step.intros(2) [OF r] dp_step.intros(4) [OF s] by (rule converse_rtranclp_into_rtranclp [OF _ r_into_rtranclp])
  then show ?thesis using dataproto_invariant [of sample_dp ?s] r s by auto
qed

text \<open>
  Without tensors the concatenation is not checked: a key missing from a later part misaligns the rows,
  and the result of two well-formed containers is not well formed.
\<close>

lemma concat_without_tensors_misaligns:
  "let d = \<lparr>batch = (None :: nat tensordict option), non_tensor = [(''a'', [1 :: nat]), (''b'', [2])],
         meta = [] :: nat meta_value dict\<rparr>;
       e = \<lparr>batch = None, non_tensor = [(''a'', [3])], meta = []\<rparr>;
       r = \<lparr>batch = None, non_tensor = [(''a'', [1, 3]), (''b'', [2])], meta = []\<rparr>
   in dp_concat [d, e] = Inr r \<and> wf_dp d \<and> wf_dp e \<and> \<not> wf_dp r"
  unfolding Let_def by (intro conjI; code_simp)

end
