(* ===== verification/Dispatch.thy ===== *)
theory Dispatch
  imports Data_Proto_Properties
begin

text \<open>
  The single controller: how a call on a worker group is cut into one call per worker and how the
  outputs are put together again (\<open>src/verl/single_controller/base/decorator.py\<close>, the registration of
  \<open>worker.py\<close>, the bound method of \<open>src/verl/single_controller/ray/base.py\<close>) and the futures of
  \<open>src/verl/protocol.py\<close>. A worker method is a function parameter; remote execution, processes and
  object references are not modelled, nor are \<open>TensorDict\<close> arguments.
\<close>

section \<open>Arguments, workers and groups\<close>

text \<open>A Python object an argument or an output can be: a container, a function, or anything else.\<close>

datatype ('a, 'b, 'm, 'o) item = Proto "('a, 'b, 'm) dataproto" | Function 'o | Plain 'o

text \<open>An argument after dispatch: a list with one element per worker, or another object.\<close>

datatype 'v arg = Single 'v | Shards "'v list"

record worker =
  dispatch_dp_rank :: "string \<Rightarrow> nat option"
  collect_dp_rank :: "string \<Rightarrow> bool option"

definition register_dispatch_collect_info :: "string \<Rightarrow> nat \<Rightarrow> bool \<Rightarrow> worker \<Rightarrow> worker result" where
  "register_dispatch_collect_info mesh_name dp_rank is_collect w =
     ensure (dispatch_dp_rank w mesh_name = None \<and> collect_dp_rank w mesh_name = None) ValueError
       (Inr (w\<lparr>dispatch_dp_rank := (dispatch_dp_rank w)(mesh_name \<mapsto> dp_rank),
               collect_dp_rank := (collect_dp_rank w)(mesh_name \<mapsto> is_collect)\<rparr>))"

definition required :: "'v option \<Rightarrow> 'v result" where
  "required v = (case v of None \<Rightarrow> Inl AssertionError | Some x \<Rightarrow> Inr x)"

definition query_dispatch_info :: "string \<Rightarrow> worker \<Rightarrow> nat result" where
  "query_dispatch_info mesh_name w = required (dispatch_dp_rank w mesh_name)"

definition query_collect_info :: "string \<Rightarrow> worker \<Rightarrow> bool result" where
  "query_collect_info mesh_name w = required (collect_dp_rank w mesh_name)"

record worker_group =
  workers :: "worker list"
  dispatch_info :: "string \<Rightarrow> nat list option"
  collect_info :: "string \<Rightarrow> bool list option"

definition world_size :: "worker_group \<Rightarrow> nat" where
  "world_size wg = length (workers wg)"

section \<open>Splitting the arguments\<close>

definition dict_mapM :: "('v \<Rightarrow> 'w result) \<Rightarrow> 'v dict \<Rightarrow> 'w dict result" where
  "dict_mapM f d = mapM_result (\<lambda>(k, v). rbind (f v) (\<lambda>w. Inr (k, w))) d"

definition split_item :: "bool \<Rightarrow> nat \<Rightarrow> ('a, 'b, 'm, 'o) item \<Rightarrow> ('a, 'b, 'm, 'o) item arg result" where
  "split_item global_padding chunks it =
     (case it of
        Proto d \<Rightarrow> rbind (dp_chunk global_padding chunks d) (\<lambda>ps.
          ensure (length ps = chunks) AssertionError (Inr (Shards (map Proto ps))))
      | _ \<Rightarrow> Inl AssertionError)"

definition split_args_kwargs_data_proto ::
  "bool \<Rightarrow> nat \<Rightarrow> ('a, 'b, 'm, 'o) item list \<Rightarrow> ('a, 'b, 'm, 'o) item dict \<Rightarrow>
   (('a, 'b, 'm, 'o) item arg list \<times> ('a, 'b, 'm, 'o) item arg dict) result" where
  "split_args_kwargs_data_proto global_padding chunks args kwargs =
     rbind (mapM_result (split_item global_padding chunks) args) (\<lambda>sargs.
     rbind (dict_mapM (split_item global_padding chunks) kwargs) (\<lambda>skwargs.
       Inr (sargs, skwargs)))"

text \<open>
  With automatic padding the first padded argument fixes the length and the padding of all of them.
  \<open>obj.padding\<close> changes the caller's object, so the padded object is part of the result.
\<close>

type_synonym pad_state = "(nat \<times> nat) option"

definition padding_for :: "nat \<Rightarrow> nat \<Rightarrow> nat" where
  "padding_for chunks n = (if n mod chunks > 0 then chunks - n mod chunks else 0)"

definition padding_and_split ::
  "bool \<Rightarrow> nat \<Rightarrow> ('a, 'b, 'm, 'o) item \<Rightarrow> pad_state \<Rightarrow>
   ((('a, 'b, 'm, 'o) item arg \<times> ('a, 'b, 'm, 'o) item) \<times> pad_state) result" where
  "padding_and_split global_padding chunks it st =
     (case it of
        Proto d \<Rightarrow>
          rbind (if is_padding_enabled global_padding d
                 then rbind (case st of
                        None \<Rightarrow> ensure (chunks \<noteq> 0) ZeroDivisionError
                                  (Inr (dp_len d, padding_for chunks (dp_len d)))
                      | Some (n, p) \<Rightarrow> ensure (n = dp_len d) AssertionError (Inr (n, p))) (\<lambda>(n, p).
                      rbind (dp_padding p [] d) (\<lambda>padded. Inr (padded, Some (n, p))))
                 else Inr (d, st)) (\<lambda>(padded, st').
          rbind (dp_chunk global_padding chunks padded) (\<lambda>ps. Inr ((Shards (map Proto ps), Proto padded), st')))
      | _ \<Rightarrow> Inl AssertionError)"

fun split_all_padding ::
  "bool \<Rightarrow> nat \<Rightarrow> ('a, 'b, 'm, 'o) item list \<Rightarrow> pad_state \<Rightarrow>
   ((('a, 'b, 'm, 'o) item arg \<times> ('a, 'b, 'm, 'o) item) list \<times> pad_state) result" where
  "split_all_padding g chunks [] st = Inr ([], st)"
| "split_all_padding g chunks (it # its) st =
     rbind (padding_and_split g chunks it st) (\<lambda>(r, st').
     rbind (split_all_padding g chunks its st') (\<lambda>(rs, st'').
       Inr (r # rs, st'')))"

record ('a, 'b, 'm, 'o) dispatched =
  split_args :: "('a, 'b, 'm, 'o) item arg list"
  split_kwargs :: "('a, 'b, 'm, 'o) item arg dict"
  padding_count :: nat
  caller_args :: "('a, 'b, 'm, 'o) item list"
  caller_kwargs :: "('a, 'b, 'm, 'o) item dict"

text \<open>
  \<open>padding_count\<close> is the entry \<open>_padding_size_key\<close> of the keyword arguments, which the bound method
  pops before the call (zero when absent).
\<close>

definition split_with_auto_padding ::
  "bool \<Rightarrow> nat \<Rightarrow> ('a, 'b, 'm, 'o) item list \<Rightarrow> ('a, 'b, 'm, 'o) item dict \<Rightarrow> ('a, 'b, 'm, 'o) dispatched result" where
  "split_with_auto_padding g chunks args kwargs =
     rbind (split_all_padding g chunks args None) (\<lambda>(rs, st).
     rbind (split_all_padding g chunks (map snd kwargs) st) (\<lambda>(ks, st').
       Inr \<lparr>split_args = map fst rs, split_kwargs = zip (keys kwargs) (map fst ks),
            padding_count = (case st' of None \<Rightarrow> 0 | Some (_, p) \<Rightarrow> p),
            caller_args = map snd rs, caller_kwargs = zip (keys kwargs) (map snd ks)\<rparr>))"

section \<open>Dispatch functions\<close>

definition no_padding ::
  "('a, 'b, 'm, 'o) item arg list \<Rightarrow> ('a, 'b, 'm, 'o) item arg dict \<Rightarrow> ('a, 'b, 'm, 'o) item list \<Rightarrow>
   ('a, 'b, 'm, 'o) item dict \<Rightarrow> ('a, 'b, 'm, 'o) dispatched" where
  "no_padding sargs skwargs args kwargs =
     \<lparr>split_args = sargs, split_kwargs = skwargs, padding_count = 0, caller_args = args, caller_kwargs = kwargs\<rparr>"

definition dispatch_one_to_all ::
  "nat \<Rightarrow> ('a, 'b, 'm, 'o) item list \<Rightarrow> ('a, 'b, 'm, 'o) item dict \<Rightarrow> ('a, 'b, 'm, 'o) dispatched" where
  "dispatch_one_to_all ws args kwargs =
     no_padding (map (\<lambda>v. Shards (replicate ws v)) args) (dict_map (\<lambda>v. Shards (replicate ws v)) kwargs) args kwargs"

definition dispatch_all_to_all ::
  "('a, 'b, 'm, 'o) item list \<Rightarrow> ('a, 'b, 'm, 'o) item dict \<Rightarrow> ('a, 'b, 'm, 'o) dispatched" where
  "dispatch_all_to_all args kwargs = no_padding (map Single args) (dict_map Single kwargs) args kwargs"

definition dispatch_dp_compute_data_proto_with_func ::
  "bool \<Rightarrow> nat \<Rightarrow> ('a, 'b, 'm, 'o) item list \<Rightarrow> ('a, 'b, 'm, 'o) item dict \<Rightarrow> ('a, 'b, 'm, 'o) dispatched result" where
  "dispatch_dp_compute_data_proto_with_func g ws args kwargs =
     (case args of
        [] \<Rightarrow> Inl IndexError
      | fn # rest \<Rightarrow>
          ensure (case fn of Function _ \<Rightarrow> True | _ \<Rightarrow> False) AssertionError
            (rbind (split_args_kwargs_data_proto g ws rest kwargs) (\<lambda>(sargs, skwargs).
              Inr (no_padding (Shards (replicate ws fn) # sargs) skwargs args kwargs))))"

text \<open>
  \<open>dispatch_nd_compute\<close>: worker \<open>i\<close> receives the shard of its data-parallel rank.
\<close>

definition pick_shards :: "nat list \<Rightarrow> nat \<Rightarrow> nat \<Rightarrow> 'v arg \<Rightarrow> 'v arg result" where
  "pick_shards dp_rank_mapping dp_size ws a =
     (case a of
        Shards vs \<Rightarrow>
          ensure (length vs = dp_size) AssertionError
            (rbind (mapM_result (\<lambda>i. rbind (py_get dp_rank_mapping i) (py_get vs)) [0..<ws]) (\<lambda>l. Inr (Shards l)))
      | Single _ \<Rightarrow> Inl AssertionError)"

definition dispatch_nd_compute ::
  "nat list \<Rightarrow> nat \<Rightarrow> nat \<Rightarrow> 'v arg list \<Rightarrow> 'v arg dict \<Rightarrow> ('v arg list \<times> 'v arg dict) result" where
  "dispatch_nd_compute dp_rank_mapping dp_size ws args kwargs =
     ensure (args \<noteq> []) IndexError
       (rbind (mapM_result (pick_shards dp_rank_mapping dp_size ws) args) (\<lambda>all_args.
        rbind (dict_mapM (pick_shards dp_rank_mapping dp_size ws) kwargs) (\<lambda>all_kwargs.
          Inr (all_args, all_kwargs))))"

definition dispatch_nd_compute_dataproto ::
  "bool \<Rightarrow> nat list \<Rightarrow> nat \<Rightarrow> nat \<Rightarrow> ('a, 'b, 'm, 'o) item list \<Rightarrow> ('a, 'b, 'm, 'o) item dict \<Rightarrow>
   ('a, 'b, 'm, 'o) dispatched result" where
  "dispatch_nd_compute_dataproto g dp_rank_mapping dp_size ws args kwargs =
     rbind (split_args_kwargs_data_proto g dp_size args kwargs) (\<lambda>(sargs, skwargs).
     rbind (dispatch_nd_compute dp_rank_mapping dp_size ws sargs skwargs) (\<lambda>(all_args, all_kwargs).
       Inr (no_padding all_args all_kwargs args kwargs)))"

text \<open>The lazy variants query the workers once and cache the answer in the group.\<close>

definition cached_dispatch_info :: "string \<Rightarrow> worker_group \<Rightarrow> (nat list \<times> worker_group) result" where
  "cached_dispatch_info mesh_name wg =
     (case dispatch_info wg mesh_name of
        Some mapping \<Rightarrow> Inr (mapping, wg)
      | None \<Rightarrow> rbind (mapM_result (query_dispatch_info mesh_name) (workers wg)) (\<lambda>mapping.
          ensure (length mapping = world_size wg) AssertionError
            (Inr (mapping, wg\<lparr>dispatch_info := (dispatch_info wg)(mesh_name \<mapsto> mapping)\<rparr>))))"

definition cached_collect_info :: "string \<Rightarrow> worker_group \<Rightarrow> (bool list \<times> worker_group) result" where
  "cached_collect_info mesh_name wg =
     ensure (dispatch_info wg mesh_name \<noteq> None) AssertionError
       (case collect_info wg mesh_name of
          Some msk \<Rightarrow> Inr (msk, wg)
        | None \<Rightarrow> rbind (mapM_result (query_collect_info mesh_name) (workers wg)) (\<lambda>msk.
            ensure (length msk = world_size wg) AssertionError
              (Inr (msk, wg\<lparr>collect_info := (collect_info wg)(mesh_name \<mapsto> msk)\<rparr>))))"

definition dp_size_of :: "nat list \<Rightarrow> nat result" where
  "dp_size_of mapping = (if mapping = [] then Inl ValueError else Inr (Max (set mapping) + 1))"

definition dispatch_lazy_compute_data_proto ::
  "bool \<Rightarrow> string \<Rightarrow> worker_group \<Rightarrow> ('a, 'b, 'm, 'o) item list \<Rightarrow> ('a, 'b, 'm, 'o) item dict \<Rightarrow>
   (('a, 'b, 'm, 'o) dispatched \<times> worker_group) result" where
  "dispatch_lazy_compute_data_proto g mesh_name wg args kwargs =
     rbind (cached_dispatch_info mesh_name wg) (\<lambda>(mapping, wg').
     rbind (dp_size_of mapping) (\<lambda>dp_size.
     rbind (dispatch_nd_compute_dataproto g mapping dp_size (world_size wg') args kwargs) (\<lambda>r.
       Inr (r, wg'))))"

section \<open>Execution and collection\<close>

text \<open>\<open>execute_all\<close>: the shards go to their workers when every argument has one per worker, otherwise
  every worker receives the arguments as they are.\<close>

definition arg_lists :: "nat \<Rightarrow> 'v arg list \<Rightarrow> bool" where
  "arg_lists ws as \<longleftrightarrow> list_all (\<lambda>a. case a of Shards vs \<Rightarrow> length vs = ws | Single _ \<Rightarrow> False) as"

definition shard_at :: "nat \<Rightarrow> 'v arg \<Rightarrow> 'v arg" where
  "shard_at i a = (case a of Shards vs \<Rightarrow> Single (vs ! i) | Single v \<Rightarrow> Single v)"

definition execute_all ::
  "(nat \<Rightarrow> 'v arg list \<Rightarrow> 'v arg dict \<Rightarrow> 'r result) \<Rightarrow> nat \<Rightarrow> 'v arg list \<Rightarrow> 'v arg dict \<Rightarrow> 'r list result" where
  "execute_all method ws args kwargs =
     (if arg_lists ws args \<and> arg_lists ws (map snd kwargs)
      then mapM_result (\<lambda>i. method i (map (shard_at i) args) (dict_map (shard_at i) kwargs)) [0..<ws]
      else mapM_result (\<lambda>i. method i args kwargs) [0..<ws])"

datatype ('a, 'b, 'm, 'o) call_output = Collected "('a, 'b, 'm, 'o) item" | Outputs "('a, 'b, 'm, 'o) item list"

definition is_proto :: "('a, 'b, 'm, 'o) item \<Rightarrow> bool" where
  "is_proto it = (case it of Proto _ \<Rightarrow> True | _ \<Rightarrow> False)"

definition the_proto :: "('a, 'b, 'm, 'o) item \<Rightarrow> ('a, 'b, 'm) dataproto" where
  "the_proto it = (case it of Proto d \<Rightarrow> d | _ \<Rightarrow> \<lparr>batch = None, non_tensor = [], meta = []\<rparr>)"

text \<open>\<open>BatchData(output).is_concatable()\<close>, the equal types, and the concatenation.\<close>

definition concat_data_proto :: "('a, 'b, 'm, 'o) item list \<Rightarrow> ('a, 'b, 'm) dataproto result" where
  "concat_data_proto outs =
     ensure (list_all is_proto outs) AssertionError (dp_concat (map the_proto outs))"

definition is_concatable :: "('a, 'b, 'm, 'o) item list \<Rightarrow> bool" where
  "is_concatable outs \<longleftrightarrow> outs \<noteq> [] \<and> is_proto (hd outs)"

definition collect_dp_compute :: "nat \<Rightarrow> 'v list \<Rightarrow> 'v list result" where
  "collect_dp_compute ws outs = ensure (length outs = ws) AssertionError (Inr outs)"

definition collect_dp_compute_data_proto ::
  "nat \<Rightarrow> ('a, 'b, 'm, 'o) item list \<Rightarrow> ('a, 'b, 'm) dataproto result" where
  "collect_dp_compute_data_proto ws outs =
     ensure (is_concatable outs) AssertionError (rbind (collect_dp_compute ws outs) concat_data_proto)"

definition collect_nd_compute :: "bool list \<Rightarrow> nat \<Rightarrow> 'v list \<Rightarrow> 'v list result" where
  "collect_nd_compute collect_mask ws outs =
     ensure (length outs = ws) AssertionError
       (rbind (mapM_result (\<lambda>i. rbind (py_get collect_mask i) (\<lambda>c. Inr (c, outs ! i))) [0..<ws]) (\<lambda>l.
         Inr (map snd (filter fst l))))"

definition collect_nd_compute_dataproto ::
  "bool list \<Rightarrow> nat \<Rightarrow> ('a, 'b, 'm, 'o) item list \<Rightarrow> ('a, 'b, 'm) dataproto result" where
  "collect_nd_compute_dataproto collect_mask ws outs =
     rbind (collect_nd_compute collect_mask ws outs) (\<lambda>sel.
       ensure (is_concatable sel) AssertionError (concat_data_proto sel))"

definition collect_lazy_compute_data_proto ::
  "string \<Rightarrow> worker_group \<Rightarrow> ('a, 'b, 'm, 'o) item list \<Rightarrow> (('a, 'b, 'm) dataproto \<times> worker_group) result" where
  "collect_lazy_compute_data_proto mesh_name wg outs =
     rbind (cached_collect_info mesh_name wg) (\<lambda>(msk, wg').
     rbind (collect_nd_compute_dataproto msk (world_size wg') outs) (\<lambda>d.
       Inr (d, wg')))"

section \<open>The bound methods\<close>

text \<open>The rows or elements the padding added are dropped from the collected output.\<close>

definition drop_padding :: "nat \<Rightarrow> ('a, 'b, 'm, 'o) call_output \<Rightarrow> ('a, 'b, 'm, 'o) call_output result" where
  "drop_padding padded out =
     (if padded > 0
      then (case out of
              Collected (Proto d) \<Rightarrow>
                rbind (select_idxs (map int (take (dp_len d - padded) [0..<dp_len d])) d) (\<lambda>r.
                  Inr (Collected (Proto r)))
            | Outputs l \<Rightarrow> Inr (Outputs (take (length l - padded) l))
            | _ \<Rightarrow> Inr out)
      else Inr out)"

datatype dispatch_mode =
    RANK_ZERO | ONE_TO_ALL | ALL_TO_ALL | DP_COMPUTE_PROTO | DP_COMPUTE_PROTO_WITH_FUNC | DP_COMPUTE_METRIC
  | DIRECT_ROLLOUT_METHOD

text \<open>
  The registry. \<open>DP_COMPUTE\<close>, whose caller passes the shards itself, is \<open>dispatch_dp_compute\<close> below.
\<close>

definition dispatch_fn ::
  "bool \<Rightarrow> dispatch_mode \<Rightarrow> nat \<Rightarrow> ('a, 'b, 'm, 'o) item list \<Rightarrow> ('a, 'b, 'm, 'o) item dict \<Rightarrow>
   ('a, 'b, 'm, 'o) dispatched result" where
  "dispatch_fn g mode ws args kwargs =
     (case mode of
        RANK_ZERO \<Rightarrow> Inl KeyError
      | ONE_TO_ALL \<Rightarrow> Inr (dispatch_one_to_all ws args kwargs)
      | ALL_TO_ALL \<Rightarrow> Inr (dispatch_all_to_all args kwargs)
      | DP_COMPUTE_PROTO \<Rightarrow> split_with_auto_padding g ws args kwargs
      | DP_COMPUTE_PROTO_WITH_FUNC \<Rightarrow> dispatch_dp_compute_data_proto_with_func g ws args kwargs
      | DP_COMPUTE_METRIC \<Rightarrow> split_with_auto_padding g ws args kwargs
      | DIRECT_ROLLOUT_METHOD \<Rightarrow> Inl NotImplementedError)"

definition collect_fn ::
  "dispatch_mode \<Rightarrow> nat \<Rightarrow> ('a, 'b, 'm, 'o) item list \<Rightarrow> ('a, 'b, 'm, 'o) call_output result" where
  "collect_fn mode ws outs =
     (case mode of
        RANK_ZERO \<Rightarrow> Inl KeyError
      | ONE_TO_ALL \<Rightarrow> Inr (Outputs outs)
      | ALL_TO_ALL \<Rightarrow> Inr (Outputs outs)
      | DP_COMPUTE_PROTO \<Rightarrow> rbind (collect_dp_compute_data_proto ws outs) (\<lambda>d. Inr (Collected (Proto d)))
      | DP_COMPUTE_PROTO_WITH_FUNC \<Rightarrow>
          rbind (collect_dp_compute_data_proto ws outs) (\<lambda>d. Inr (Collected (Proto d)))
      | DP_COMPUTE_METRIC \<Rightarrow> rbind (collect_dp_compute ws outs) (\<lambda>l. Inr (Outputs l))
      | DIRECT_ROLLOUT_METHOD \<Rightarrow> Inl NotImplementedError)"

definition dispatch_dp_compute :: "nat \<Rightarrow> 'v arg list \<Rightarrow> 'v arg dict \<Rightarrow> ('v arg list \<times> 'v arg dict) result" where
  "dispatch_dp_compute ws args kwargs =
     ensure (arg_lists ws args \<and> arg_lists ws (map snd kwargs)) AssertionError (Inr (args, kwargs))"

text \<open>A blocking call of a method registered with \<open>Execute.ALL\<close>; the result comes with the arguments as
  the caller's objects are left.\<close>

definition call ::
  "bool \<Rightarrow> (nat \<Rightarrow> ('a, 'b, 'm, 'o) item arg list \<Rightarrow> ('a, 'b, 'm, 'o) item arg dict \<Rightarrow> ('a, 'b, 'm, 'o) item result) \<Rightarrow>
   dispatch_mode \<Rightarrow> nat \<Rightarrow> ('a, 'b, 'm, 'o) item list \<Rightarrow> ('a, 'b, 'm, 'o) item dict \<Rightarrow>
   (('a, 'b, 'm, 'o) call_output \<times> ('a, 'b, 'm, 'o) item list) result" where
  "call g method mode ws args kwargs =
     rbind (dispatch_fn g mode ws args kwargs) (\<lambda>r.
     rbind (execute_all method ws (split_args r) (split_kwargs r)) (\<lambda>outs.
     rbind (collect_fn mode ws outs) (\<lambda>out.
     rbind (drop_padding (padding_count r) out) (\<lambda>final.
       Inr (final, caller_args r)))))"

definition call_lazy ::
  "bool \<Rightarrow> (nat \<Rightarrow> ('a, 'b, 'm, 'o) item arg list \<Rightarrow> ('a, 'b, 'm, 'o) item arg dict \<Rightarrow> ('a, 'b, 'm, 'o) item result) \<Rightarrow>
   string \<Rightarrow> worker_group \<Rightarrow> ('a, 'b, 'm, 'o) item list \<Rightarrow> ('a, 'b, 'm, 'o) item dict \<Rightarrow>
   (('a, 'b, 'm) dataproto \<times> worker_group) result" where
  "call_lazy g method mesh_name wg args kwargs =
     rbind (dispatch_lazy_compute_data_proto g mesh_name wg args kwargs) (\<lambda>(r, wg').
     rbind (execute_all method (world_size wg') (split_args r) (split_kwargs r)) (\<lambda>outs.
       collect_lazy_compute_data_proto mesh_name wg' outs))"

section \<open>Futures\<close>

text \<open>
  A future holds the outputs it waits for and, after \<open>chunk\<close>, which chunk of their concatenation it
  stands for.
\<close>

record ('a, 'b, 'm) future =
  futures :: "('a, 'b, 'm) dataproto list"
  dispatch_chunk :: "(nat \<times> nat) option"

definition future_concat :: "('a, 'b, 'm) dataproto list \<Rightarrow> ('a, 'b, 'm) future" where
  "future_concat ds = \<lparr>futures = ds, dispatch_chunk = None\<rparr>"

definition future_chunk :: "nat \<Rightarrow> ('a, 'b, 'm) future \<Rightarrow> ('a, 'b, 'm) future list" where
  "future_chunk chunks f = map (\<lambda>i. \<lparr>futures = futures f, dispatch_chunk = Some (i, chunks)\<rparr>) [0..<chunks]"

definition future_get :: "bool \<Rightarrow> ('a, 'b, 'm) future \<Rightarrow> ('a, 'b, 'm) dataproto result" where
  "future_get g f =
     ensure (futures f \<noteq> []) IndexError
       (rbind (dp_concat (futures f)) (\<lambda>x.
         case dispatch_chunk f of
           None \<Rightarrow> Inr x
         | Some (i, chunks) \<Rightarrow> rbind (dp_chunk g chunks x) (\<lambda>ps. py_get ps i)))"

end
