(* ===== verification/Dispatch_Properties.thy ===== *)
theory Dispatch_Properties
  imports Dispatch
begin

text \<open>
  Properties of the controller: a call that is cut into shards, executed and collected computes what
  one call on the whole container would, with and without padding and on any layout of the workers
  in which the collected ranks are in order; the caches of the worker group stay true; futures.
\<close>

section \<open>Row-local methods\<close>

text \<open>
  A worker method is row-local with result \<open>e\<close> on \<open>d\<close> when, on any selection of rows of \<open>d\<close>, it returns the
  same selection of rows of \<open>e\<close>: forward passes and log-probabilities are of this kind.
\<close>

definition row_local ::
  "(('a, 'b, 'm) dataproto \<Rightarrow> ('a, 'b, 'm) dataproto result) \<Rightarrow> ('a, 'b, 'm) dataproto \<Rightarrow>
   ('a, 'b, 'm) dataproto \<Rightarrow> bool" where
  "row_local f d e \<longleftrightarrow> dp_len e = dp_len d \<and> wf_dp e \<and> metric_free e \<and>
     (\<forall>idx. set idx \<subseteq> {..<dp_len d} \<longrightarrow> f (dp_take idx d) = Inr (dp_take idx e))"

lemma row_localD:
  assumes "row_local f d e"
  shows "dp_len e = dp_len d" "wf_dp e" "metric_free e"
    "\<And>idx. set idx \<subseteq> {..<dp_len d} \<Longrightarrow> f (dp_take idx d) = Inr (dp_take idx e)"
  using assms by (auto simp: row_local_def)

text \<open>A worker method of one container argument.\<close>

definition on_first ::
  "(('a, 'b, 'm) dataproto \<Rightarrow> ('a, 'b, 'm) dataproto result) \<Rightarrow> nat \<Rightarrow> ('a, 'b, 'm, 'o) item arg list \<Rightarrow>
   ('a, 'b, 'm, 'o) item arg dict \<Rightarrow> ('a, 'b, 'm, 'o) item result" where
  "on_first f i args kwargs =
     (case args of
        [Single (Proto d)] \<Rightarrow> rbind (f d) (\<lambda>r. Inr (Proto r))
      | _ \<Rightarrow> Inl TypeError)"

lemma protos: "list_all is_proto (map Proto ds)" "map the_proto (map Proto ds) = ds"
  by (induction ds) (auto simp: is_proto_def the_proto_def)

lemma map_nth_apply: "length xs = n \<Longrightarrow> map (\<lambda>i. g (xs ! i)) [0..<n] = map g xs"
  by (intro nth_equalityI) auto

lemma execute_shards:
  fixes d e :: "('a, 'b, 'm) dataproto"
  assumes "length iss = ws" and "row_local f d e" and "\<And>idx. idx \<in> set iss \<Longrightarrow> set idx \<subseteq> {..<dp_len d}"
  shows "execute_all (on_first f) ws [Shards (map (\<lambda>idx. Proto (dp_take idx d) :: ('a, 'b, 'm, 'o) item) iss)] [] =
     Inr (map (\<lambda>idx. Proto (dp_take idx e)) iss)"
proof -
  let ?args = "[Shards (map (\<lambda>idx. Proto (dp_take idx d) :: ('a, 'b, 'm, 'o) item) iss)]"
  have "on_first f i (map (shard_at i) ?args) [] = Inr (Proto (dp_take (iss ! i) e))" if "i \<in> set [0..<ws]" for i
    using that assms row_localD(4) [OF assms(2)] by (simp add: on_first_def shard_at_def)
  then have "mapM_result (\<lambda>i. on_first f i (map (shard_at i) ?args) (dict_map (shard_at i) [])) [0..<ws] =
      Inr (map (\<lambda>idx. Proto (dp_take idx e)) iss)"
    unfolding map_nth_apply [OF assms(1), symmetric] by (intro mapM_result_Inr) simp
  then show ?thesis using assms(1) by (simp add: execute_all_def arg_lists_def)
qed

lemma concat_protos:
  assumes "wf_dp e" and "metric_free e" and "iss \<noteq> []"
  shows "concat_data_proto (map (\<lambda>idx. Proto (dp_take idx e)) iss) = Inr (dp_take (concat iss) e)"
proof -
  have eq: "map (\<lambda>idx. Proto (dp_take idx e)) iss = map Proto (map (\<lambda>idx. dp_take idx e) iss)" by simp
  show ?thesis unfolding concat_data_proto_def eq using concat_take [OF assms] protos by (metis ensure_simps(1))
qed

lemma is_concatable_protos: "ds \<noteq> [] \<Longrightarrow> is_concatable (map (\<lambda>x. Proto (g x)) ds)"
  by (cases ds) (auto simp: is_concatable_def is_proto_def)

section \<open>Padding in place\<close>

lemma repeat_take: "wf_dp d \<Longrightarrow> dp_repeat n il d = Inr (dp_take (repeat_indices (dp_len d) n il) d)"
  unfolding dp_repeat_def Let_def by (rule make_wf) (rule wf_take)

lemma dp_padding_take:
  assumes "wf_dp d" and "metric_free d" and "0 < dp_len d"
  shows "dp_padding p cand d = Inr (dp_take ([0..<dp_len d] @ replicate p (if cand = ''first'' then 0 else dp_len d - 1)) d)"
proof (cases "p = 0")
  case True
  then show ?thesis using take_all [OF assms(1)] by (simp add: dp_padding_def)
next
  case False
  let ?n = "dp_len d"
  let ?c = "if cand = ''first'' then 0 else ?n - 1"
  have rows: "has_rows d" using assms(3) no_rows_len by fastforce
  have c: "?c < ?n" using assms(3) by simp
  have "[if cand = ''first'' then 0 else int ?n - 1] = map int [?c]" using assms(3) by auto
  then have cand: "select_idxs [if cand = ''first'' then 0 else int ?n - 1] d = Inr (dp_take [?c] d)"
    using select_idxs_take [OF assms(1), of "[?c]"] c by (metis empty_subsetI insert_subset lessThan_iff list.set(1,2))
  have "dp_len (dp_take [?c] d) = 1" using dp_len_take [OF rows] by simp
  moreover have "repeat_indices 1 p True = replicate p 0" by (simp add: repeat_indices_def)
  ultimately have "dp_repeat p True (dp_take [?c] d) = Inr (dp_take (replicate p 0) (dp_take [?c] d))"
    unfolding repeat_take [OF wf_take [OF assms(1), of "[?c]"]] by simp
  also have "dp_take (replicate p 0) (dp_take [?c] d) = dp_take (replicate p ?c) d"
  proof -
    have "set (replicate p 0) \<subseteq> {..<length [?c]}" by auto
    from take_take [OF this, of d] show ?thesis unfolding map_replicate by (simp only: nth_Cons_0)
  qed
  finally have part: "dp_repeat p True (dp_take [?c] d) = Inr (dp_take (replicate p ?c) d)" .
  have whole: "dp_concat [d, dp_take (replicate p ?c) d] = Inr (dp_take ([0..<?n] @ replicate p ?c) d)"
    using concat_take [OF assms(1,2), of "[[0..<?n], replicate p ?c]"] take_all [OF assms(1)] by simp
  have "d\<lparr>batch := batch (dp_take idx d), non_tensor := non_tensor (dp_take idx d)\<rparr> = dp_take idx d" for idx
    by (simp add: dp_take_def)
  then show ?thesis using False part cand whole unfolding dp_padding_def by simp
qed

section \<open>Calls on a padded container\<close>

text \<open>The rows of the padded container, and the shards as selections of the container itself.\<close>

definition padded_rows :: "nat \<Rightarrow> nat \<Rightarrow> nat list" where
  "padded_rows n p = [0..<n] @ replicate p (n - 1)"

definition shard_rows :: "nat \<Rightarrow> nat \<Rightarrow> nat \<Rightarrow> nat list list" where
  "shard_rows ws n p = map (map (\<lambda>j. padded_rows n p ! j)) (py_chunks ((n + p) div ws) [0..<n + p])"

lemma padded_rows_facts:
  assumes "0 < n"
  shows "length (padded_rows n p) = n + p" and "set (padded_rows n p) \<subseteq> {..<n}"
  using assms by (auto simp: padded_rows_def)

lemma shard_rows_facts:
  assumes "0 < ws" and "ws dvd n + p" and "0 < n"
  shows "length (shard_rows ws n p) = ws" and "concat (shard_rows ws n p) = padded_rows n p"
    and "\<And>idx. idx \<in> set (shard_rows ws n p) \<Longrightarrow> set idx \<subseteq> {..<n}"
    and "shard_rows ws n p \<noteq> []"
proof -
  have pos: "0 < n + p" using assms(3) by simp
  note c = chunks_exact [OF assms(1,2) pos]
  show len: "length (shard_rows ws n p) = ws" using c(1) by (simp add: shard_rows_def)
  show rows: "concat (shard_rows ws n p) = padded_rows n p"
    unfolding shard_rows_def map_concat [symmetric] c(3)
    using padded_rows_facts(1) [OF assms(3), of p] by (metis map_nth)
  show "set idx \<subseteq> {..<n}" if "idx \<in> set (shard_rows ws n p)" for idx
  proof -
    have "set idx \<subseteq> set (concat (shard_rows ws n p))" using that by auto
    then show ?thesis unfolding rows using padded_rows_facts(2) [OF assms(3)] by (rule order_trans)
  qed
  show "shard_rows ws n p \<noteq> []" using len assms(1) by auto
qed

lemma py_chunks_mem: "c \<in> set (py_chunks n xs) \<Longrightarrow> set c \<subseteq> set xs"
proof (induction n xs rule: py_chunks.induct)
  case (1 n xs)
  then show ?case
    by (subst (asm) (2) py_chunks.simps) (auto split: if_splits dest: in_set_takeD in_set_dropD)
qed

lemma chunk_padded:
  assumes "wf_dp d" and "0 < ws" and "ws dvd dp_len d + p" and "0 < dp_len d"
  shows "dp_chunk g ws (dp_take (padded_rows (dp_len d) p) d) =
     Inr (map (\<lambda>idx. dp_take idx d) (shard_rows ws (dp_len d) p))"
proof -
  let ?n = "dp_len d" and ?J = "padded_rows (dp_len d) p"
  have "has_rows d" using assms(4) no_rows_len by fastforce
  then have len: "dp_len (dp_take ?J d) = ?n + p" using dp_len_take padded_rows_facts(1) [OF assms(4)] by metis
  have "dp_take c (dp_take ?J d) = dp_take (map (\<lambda>j. ?J ! j) c) d"
    if "c \<in> set (py_chunks ((?n + p) div ws) [0..<?n + p])" for c
    using py_chunks_mem [OF that] padded_rows_facts(1) [OF assms(4)] by (intro take_take) auto
  moreover have "0 < ?n + p" using assms(4) by simp
  ultimately show ?thesis
    using chunk_take [OF wf_take [OF assms(1)] assms(2), of ?J g] assms(3) unfolding len
    by (simp add: shard_rows_def)
qed

lemma drop_padding_take:
  assumes "wf_dp e" and "0 < dp_len e"
  shows "drop_padding p (Collected (Proto (dp_take (padded_rows (dp_len e) p) e))) = Inr (Collected (Proto e))"
proof -
  let ?n = "dp_len e" and ?J = "padded_rows (dp_len e) p"
  have "has_rows e" using assms(2) no_rows_len by fastforce
  then have len: "dp_len (dp_take ?J e) = ?n + p" using dp_len_take padded_rows_facts(1) [OF assms(2)] by metis
  have "take (?n + p - p) [0..<?n + p] = [0..<?n]" by (simp add: take_upt)
  moreover have "select_idxs (map int [0..<?n]) (dp_take ?J e) = Inr (dp_take [0..<?n] (dp_take ?J e))"
    using len by (intro select_idxs_take wf_take assms(1)) auto
  moreover have "dp_take [0..<?n] (dp_take ?J e) = e"
  proof -
    have "map (\<lambda>j. ?J ! j) [0..<?n] = [0..<?n]" by (intro nth_equalityI) (auto simp: padded_rows_def nth_append)
    moreover have "set [0..<?n] \<subseteq> {..<length ?J}" using padded_rows_facts(1) [OF assms(2)] by auto
    ultimately show ?thesis using take_take [of "[0..<?n]" ?J e] take_all [OF assms(1)] by presburger
  qed
  moreover have "?J = [0..<?n]" if "p = 0" using that by (simp add: padded_rows_def)
  ultimately show ?thesis using len take_all [OF assms(1)] by (cases "p = 0") (simp_all add: drop_padding_def)
qed

lemma padding_for_dvd: "0 < ws \<Longrightarrow> ws dvd n + padding_for ws n"
proof (cases "n mod ws = 0")
  case False
  assume ws: "0 < ws"
  have "n + (ws - n mod ws) = ws * (n div ws) + ws"
    using mult_div_mod_eq [of ws n] mod_less_divisor [OF ws, of n] by linarith
  then show ?thesis using False by (simp add: padding_for_def)
qed (simp add: padding_for_def mod_eq_0_iff_dvd)

text \<open>
  C27: a data-parallel call is transparent. When a method works row by row, calling it on a worker group
  of any size -- padding the batch to a multiple of the group if padding is enabled, cutting it into one
  shard per worker, running every worker, concatenating the outputs and dropping the padded rows --
  returns exactly what one call on the whole batch would. The caller's batch, however, is left padded
  by up to \<open>world_size - 1\<close> copies of its last row.
\<close>

theorem dp_call_transparent:
  assumes "wf_dp d" "metric_free d" "0 < dp_len d" and "0 < ws" and "row_local f d e"
    and "is_padding_enabled g d \<or> ws dvd dp_len d"
  shows "call g (on_first f) DP_COMPUTE_PROTO ws [Proto d] [] =
     Inr (Collected (Proto e),
       [Proto (if is_padding_enabled g d then dp_take (padded_rows (dp_len d) (padding_for ws (dp_len d))) d else d)])"
proof -
  let ?n = "dp_len d"
  define p where "p = (if is_padding_enabled g d then padding_for ws ?n else 0)"
  let ?J = "padded_rows ?n p"
  have dvd: "ws dvd ?n + p" using assms(4,6) padding_for_dvd by (auto simp: p_def)
  note e = row_localD [OF assms(5)] and S = shard_rows_facts [OF assms(4) dvd assms(3)]
  have padded: "(if is_padding_enabled g d then dp_take ?J d else d) = dp_take ?J d"
    using take_all [OF assms(1)] by (simp add: p_def padded_rows_def)
  have pad: "dp_padding p [] d = Inr (dp_take ?J d)"
    using dp_padding_take [OF assms(1-3), of p "[]"] by (simp add: padded_rows_def)
  have split: "split_with_auto_padding g ws [Proto d] [] =
      Inr \<lparr>split_args = [Shards (map (\<lambda>idx. Proto (dp_take idx d)) (shard_rows ws ?n p))], split_kwargs = [],
           padding_count = p, caller_args = [Proto (dp_take ?J d)], caller_kwargs = []\<rparr>"
  proof (cases "is_padding_enabled g d")
    case True
    then have "padding_for ws ?n = p" by (simp add: p_def)
    then show ?thesis
      using True pad chunk_padded [OF assms(1,4) dvd assms(3), of g] assms(4)
      by (simp add: split_with_auto_padding_def padding_and_split_def comp_def)
  next
    case False
    then have "dp_take ?J d = d" "p = 0" using padded by (simp_all add: p_def)
    then show ?thesis
      using False chunk_padded [OF assms(1,4) dvd assms(3), of g]
      by (simp add: split_with_auto_padding_def padding_and_split_def comp_def)
  qed
  have run: "execute_all (on_first f) ws [Shards (map (\<lambda>idx. Proto (dp_take idx d)) (shard_rows ws ?n p))] [] =
      Inr (map (\<lambda>idx. Proto (dp_take idx e)) (shard_rows ws ?n p))"
    using execute_shards [OF S(1) assms(5)] S(3) by blast
  have collect: "collect_dp_compute_data_proto ws (map (\<lambda>idx. Proto (dp_take idx e)) (shard_rows ws ?n p)) =
      Inr (dp_take ?J e)"
    using S(1,2) by (simp add: collect_dp_compute_data_proto_def collect_dp_compute_def
        concat_protos [OF e(2,3) S(4)] is_concatable_protos [OF S(4)])
  have drop: "drop_padding p (Collected (Proto (dp_take ?J e))) = Inr (Collected (Proto e))"
    using drop_padding_take [OF e(2), of p] e(1) assms(3) by simp
  have "call g (on_first f) DP_COMPUTE_PROTO ws [Proto d] [] =
      Inr (Collected (Proto e), [Proto (dp_take ?J d)])"
    by (simp add: call_def dispatch_fn_def collect_fn_def split run collect drop)
  moreover have "(if is_padding_enabled g d then dp_take (padded_rows ?n (padding_for ws ?n)) d else d) = dp_take ?J d"
    using padded by (cases "is_padding_enabled g d") (simp_all add: p_def)
  ultimately show ?thesis by simp
qed

text \<open>An example of a row-local method: a new tensor column computed from the rows.\<close>

definition add_column :: "(nat, string, nat) dataproto \<Rightarrow> (nat, string, nat) dataproto result" where
  "add_column d = Inr (d\<lparr>batch := map_option (\<lambda>td. td\<lparr>td_items := dict_map (map Suc) (td_items td)\<rparr>) (batch d)\<rparr>)"

definition sample_out :: "(nat, string, nat) dataproto" where
  "sample_out = sample_dp\<lparr>batch := Some \<lparr>td_size = 3, td_items = [(''ids'', [6, 7, 8]), (''len'', [2, 3, 4])]\<rparr>\<rparr>"

lemma sample_row_local: "row_local add_column sample_dp sample_out"
proof -
  have "add_column (dp_take idx sample_dp) = Inr (dp_take idx sample_out)" if "set idx \<subseteq> {..<3}" for idx
  proof -
    have range: "i = 0 \<or> i = 1 \<or> i = 2" if "i \<in> set idx" for i
      using \<open>set idx \<subseteq> _\<close> that by auto
    have "map (\<lambda>i. Suc ([5, 6, 7] ! i)) idx = map (\<lambda>i. [6, 7, 8] ! i) idx"
      and "map (\<lambda>i. Suc ([1, 2, 3] ! i)) idx = map (\<lambda>i. [2, 3, 4] ! i) idx"
      using range by (intro map_cong refl; fastforce)+
    then show ?thesis
      by (simp add: add_column_def sample_dp_def sample_out_def dp_take_def td_take_def take_rows_def comp_def)
  qed
  moreover have "wf_dp sample_out" "metric_free sample_out" "dp_len sample_out = 3"
    by (simp_all add: sample_out_def sample_dp_def wf_dp_def metric_free_def dp_len_def)
  ultimately show ?thesis by (simp add: row_local_def)
qed

theorem dp_call_transparent_witness:
  "call True (on_first add_column) DP_COMPUTE_PROTO 2 [Proto sample_dp :: (nat, string, nat, unit) item] [] =
     Inr (Collected (Proto sample_out), [Proto (dp_take [0, 1, 2, 2] sample_dp)])"
proof -
  have pad: "is_padding_enabled True sample_dp" by (simp add: is_padding_enabled_def)
  have rows: "padded_rows 3 (padding_for 2 3) = [0, 1, 2, 2]" by code_simp
  show ?thesis
    using dp_call_transparent [OF sample_dp_facts(1,2) _ _ sample_row_local, of 2 True] pad rows by simp
qed

section \<open>Calls on a device mesh\<close>

text \<open>
  A layout of the workers: the data-parallel rank of each and whether its output is collected. The
  collected workers must have the ranks \<open>0, ..., dp_size - 1\<close> in this order.
\<close>

definition layout_ok :: "nat list \<Rightarrow> bool list \<Rightarrow> nat \<Rightarrow> bool" where
  "layout_ok mapping msk k \<longleftrightarrow>
     length mapping = length msk \<and> set mapping \<subseteq> {..<k} \<and> map fst (filter snd (zip mapping msk)) = [0..<k]"

lemma layout_ranks:
  assumes "layout_ok mapping msk k"
  shows "set mapping = {..<k}"
proof
  have "map fst (filter snd (zip mapping msk)) = [0..<k]" using assms by (simp add: layout_ok_def)
  from this [symmetric] have "set [0..<k] \<subseteq> set mapping" by (auto dest: set_zip_leftD)
  then show "{..<k} \<subseteq> set mapping" by auto
qed (use assms in \<open>auto simp: layout_ok_def\<close>)

lemma layout_size:
  assumes "layout_ok mapping msk k" and "0 < k"
  shows "dp_size_of mapping = Inr k"
proof -
  have "Max {..<k} = k - 1" using assms(2) by (intro Max_eqI) auto
  moreover have "mapping \<noteq> []" using layout_ranks [OF assms(1)] assms(2) by fastforce
  ultimately show ?thesis
    unfolding dp_size_of_def layout_ranks [OF assms(1)] using assms(2) by simp
qed

text \<open>The mesh of the actor: \<open>k\<close> data-parallel ranks of \<open>sp\<close> workers, the first worker of each collected.\<close>

lemma filter_mod_upt:
  fixes sp :: nat
  assumes "0 < sp"
  shows "map (\<lambda>r. r div sp) (filter (\<lambda>r. r mod sp = 0) [0..<k * sp]) = [0..<k]"
proof (induction k)
  case (Suc k)
  have split: "[0..<Suc k * sp] = [0..<k * sp] @ map (\<lambda>j. k * sp + j) [0..<sp]"
    using upt_add_eq_append [of 0 "k * sp" sp] map_add_upt [of "k * sp" sp] by (simp add: add.commute)
  have "filter (\<lambda>j. (k * sp + j) mod sp = 0) [0..<sp] = filter (\<lambda>j. j = 0) [0..<sp]"
    by (intro filter_cong) auto
  also have "\<dots> = [0]"
  proof -
    obtain m where "sp = Suc m" using assms by (cases sp) auto
    moreover have "filter (\<lambda>j. j = 0) [1..<n] = []" for n :: nat by simp
    ultimately show ?thesis by (simp only: upt_conv_Cons zero_less_Suc One_nat_def [symmetric]) simp
  qed
  finally have "filter (\<lambda>j. (k * sp + j) mod sp = 0) [0..<sp] = [0]" .
  then show ?case using Suc assms unfolding split by (simp add: filter_map comp_def)
qed simp

lemma mesh_layout:
  fixes sp :: nat
  assumes "0 < sp"
  shows "layout_ok (map (\<lambda>r. r div sp) [0..<k * sp]) (map (\<lambda>r. r mod sp = 0) [0..<k * sp]) k"
proof -
  have "zip (map (\<lambda>r. r div sp) rs) (map (\<lambda>r. r mod sp = 0) rs) = map (\<lambda>r. (r div sp, r mod sp = 0)) rs" for rs
    by (induction rs) auto
  then have "map fst (filter snd (zip (map (\<lambda>r. r div sp) [0..<k * sp]) (map (\<lambda>r. r mod sp = 0) [0..<k * sp]))) = [0..<k]"
    using filter_mod_upt [OF assms, of k] by (simp add: filter_map comp_def)
  then show ?thesis by (auto simp: layout_ok_def less_mult_imp_div_less)
qed

text \<open>The workers of a group registered a layout for a mesh, and the caches, when filled, hold it.\<close>

definition registered :: "string \<Rightarrow> nat list \<Rightarrow> bool list \<Rightarrow> worker_group \<Rightarrow> bool" where
  "registered mesh_name mapping msk wg \<longleftrightarrow>
     map (\<lambda>w. dispatch_dp_rank w mesh_name) (workers wg) = map Some mapping \<and>
     map (\<lambda>w. collect_dp_rank w mesh_name) (workers wg) = map Some msk \<and>
     dispatch_info wg mesh_name \<in> {None, Some mapping} \<and> collect_info wg mesh_name \<in> {None, Some msk}"

lemma query_all:
  "map q ws = map Some xs \<Longrightarrow> mapM_result (\<lambda>w. required (q w)) ws = Inr xs"
  by (induction ws arbitrary: xs) (auto simp: required_def)

lemma registered_queries:
  assumes "registered mesh_name mapping msk wg"
  shows "\<exists>wg'. cached_dispatch_info mesh_name wg = Inr (mapping, wg') \<and> registered mesh_name mapping msk wg' \<and>
     dispatch_info wg' mesh_name = Some mapping \<and> workers wg' = workers wg"
    and "dispatch_info wg mesh_name = Some mapping \<Longrightarrow>
     \<exists>wg'. cached_collect_info mesh_name wg = Inr (msk, wg') \<and> registered mesh_name mapping msk wg' \<and>
       dispatch_info wg' mesh_name = Some mapping \<and> collect_info wg' mesh_name = Some msk \<and> workers wg' = workers wg"
proof -
  have r: "map (\<lambda>w. dispatch_dp_rank w mesh_name) (workers wg) = map Some mapping"
      "map (\<lambda>w. collect_dp_rank w mesh_name) (workers wg) = map Some msk"
    using assms by (simp_all add: registered_def)
  have q: "mapM_result (query_dispatch_info mesh_name) (workers wg) = Inr mapping"
      "mapM_result (query_collect_info mesh_name) (workers wg) = Inr msk"
    using query_all [OF r(1)] query_all [OF r(2)]
    by (simp_all add: query_dispatch_info_def [abs_def] query_collect_info_def [abs_def])
  have len: "length mapping = world_size wg" "length msk = world_size wg"
    using arg_cong [OF r(1), of length] arg_cong [OF r(2), of length] by (simp_all add: world_size_def)
  show "\<exists>wg'. cached_dispatch_info mesh_name wg = Inr (mapping, wg') \<and> registered mesh_name mapping msk wg' \<and>
      dispatch_info wg' mesh_name = Some mapping \<and> workers wg' = workers wg"
    using assms q len by (cases "dispatch_info wg mesh_name") (auto simp: cached_dispatch_info_def registered_def)
  show "\<exists>wg'. cached_collect_info mesh_name wg = Inr (msk, wg') \<and> registered mesh_name mapping msk wg' \<and>
      dispatch_info wg' mesh_name = Some mapping \<and> collect_info wg' mesh_name = Some msk \<and> workers wg' = workers wg"
    if "dispatch_info wg mesh_name = Some mapping"
    using assms q len that by (cases "collect_info wg mesh_name") (auto simp: cached_collect_info_def registered_def)
qed

lemma pick_shards_mapping:
  assumes "length mapping = ws" and "set mapping \<subseteq> {..<k}" and "length vs = k"
  shows "pick_shards mapping k ws (Shards vs) = Inr (Shards (map (\<lambda>r. vs ! r) mapping))"
proof -
  have "rbind (py_get mapping i) (py_get vs) = Inr (vs ! (mapping ! i))" if "i \<in> set [0..<ws]" for i
    using that assms by (auto simp: subset_iff)
  then have "mapM_result (\<lambda>i. rbind (py_get mapping i) (py_get vs)) [0..<ws] = Inr (map (\<lambda>r. vs ! r) mapping)"
    unfolding map_nth_apply [OF assms(1), symmetric] by (rule mapM_result_Inr)
  then show ?thesis using assms(3) by (simp add: pick_shards_def)
qed

lemma collect_nd_filter:
  assumes "length msk = ws" and "length outs = ws"
  shows "collect_nd_compute msk ws outs = Inr (map snd (filter fst (zip msk outs)))"
proof -
  have "mapM_result (\<lambda>i. rbind (py_get msk i) (\<lambda>c. Inr (c, outs ! i))) [0..<ws] = Inr (map (\<lambda>i. (msk ! i, outs ! i)) [0..<ws])"
    using assms by (intro mapM_result_Inr) simp
  moreover have "map (\<lambda>i. (msk ! i, outs ! i)) [0..<ws] = zip msk outs"
    using assms by (intro nth_equalityI) auto
  ultimately show ?thesis using assms by (simp add: collect_nd_compute_def)
qed

lemma filter_layout:
  "length mapping = length msk \<Longrightarrow>
   map snd (filter fst (zip msk (map g mapping))) = map g (map fst (filter snd (zip mapping msk)))"
  by (induction mapping msk rule: list_induct2) auto

text \<open>
  C28: a call through a device mesh is transparent on every layout in which the collected workers have
  the ranks \<open>0, ..., dp_size - 1\<close> in order, whatever the sequence- or tensor-parallel workers beside them
  are: each worker gets the chunk of its rank, one output per rank is collected, and the result is that
  of one call on the whole batch. The two caches are filled with what the workers registered.
\<close>

theorem mesh_call_transparent:
  assumes "registered mesh_name mapping msk wg" and "layout_ok mapping msk k" and "0 < k"
    and "wf_dp d" "metric_free d" "0 < dp_len d" "k dvd dp_len d" and "row_local f d e"
  shows "\<exists>wg'. call_lazy g (on_first f) mesh_name wg [Proto d] [] = Inr (e, wg') \<and> workers wg' = workers wg \<and>
     dispatch_info wg' mesh_name = Some mapping \<and> collect_info wg' mesh_name = Some msk"
proof -
  obtain wg1 where d1: "cached_dispatch_info mesh_name wg = Inr (mapping, wg1)" and r1: "registered mesh_name mapping msk wg1"
      and i1: "dispatch_info wg1 mesh_name = Some mapping" "workers wg1 = workers wg"
    using registered_queries(1) [OF assms(1)] by blast
  obtain wg2 where d2: "cached_collect_info mesh_name wg1 = Inr (msk, wg2)"
      and i2: "dispatch_info wg2 mesh_name = Some mapping" "collect_info wg2 mesh_name = Some msk" "workers wg2 = workers wg1"
    using registered_queries(2) [OF r1 i1(1)] by blast
  let ?n = "dp_len d"
  let ?iss = "py_chunks (?n div k) [0..<?n]" and ?ws = "world_size wg1"
  let ?g = "\<lambda>r. ?iss ! r"
  note L = assms(2) [unfolded layout_ok_def] and e = row_localD [OF assms(8)] and c = chunks_exact [OF assms(3,7,6)]
  have len: "length mapping = ?ws" "length msk = ?ws"
    using r1 L arg_cong [of _ _ length] unfolding registered_def world_size_def by (metis length_map)+
  note kmem = layout_ranks [OF assms(2)] and size = layout_size [OF assms(2,3)]
  have split: "split_args_kwargs_data_proto g k [Proto d] [] =
      Inr ([Shards (map (\<lambda>idx. Proto (dp_take idx d)) ?iss)], [])"
    using chunk_take [OF assms(4,3,7,6), of g] c(1)
    by (simp add: split_args_kwargs_data_proto_def split_item_def dict_mapM_def comp_def)
  have pick: "pick_shards mapping k ?ws (Shards (map P ?iss)) = Inr (Shards (map P (map ?g mapping)))"
    for P :: "nat list \<Rightarrow> ('a, 'b, 'm, 'o) item"
  proof -
    have "map (\<lambda>r. map P ?iss ! r) mapping = map P (map ?g mapping)"
      unfolding map_map comp_def using kmem c(1) by (intro map_cong refl nth_map) simp
    then show ?thesis
      using pick_shards_mapping [OF len(1) L [THEN conjunct2, THEN conjunct1], of "map P ?iss"] c(1)
      by (simp only: length_map)
  qed
  have picked: "dispatch_nd_compute_dataproto g mapping k ?ws [Proto d] [] =
      Inr (no_padding [Shards (map (\<lambda>idx. Proto (dp_take idx d)) (map ?g mapping))] [] [Proto d] [])"
    by (simp add: dispatch_nd_compute_dataproto_def dispatch_nd_compute_def split dict_mapM_def pick)
  have sub: "set idx \<subseteq> {..<?n}" if "idx \<in> set (map ?g mapping)" for idx
  proof -
    from that obtain r where "r \<in> set mapping" "idx = ?iss ! r" by auto
    then have "idx \<in> set ?iss" using kmem c(1) by simp
    then show ?thesis using py_chunks_mem by fastforce
  qed
  have run: "execute_all (on_first f) ?ws [Shards (map (\<lambda>idx. Proto (dp_take idx d)) (map ?g mapping))] [] =
      Inr (map (\<lambda>idx. Proto (dp_take idx e)) (map ?g mapping))"
    using len(1) by (intro execute_shards assms(8) sub) simp_all
  have chosen: "map snd (filter fst (zip msk (map (\<lambda>idx. Proto (dp_take idx e)) (map ?g mapping)))) =
      map (\<lambda>idx. Proto (dp_take idx e)) ?iss"
  proof -
    have "map snd (filter fst (zip msk (map (\<lambda>r. Proto (dp_take (?g r) e)) mapping))) =
        map (\<lambda>r. Proto (dp_take (?g r) e)) [0..<k]"
      using filter_layout [of mapping msk "\<lambda>r. Proto (dp_take (?g r) e)"] L by simp
    also have "\<dots> = map (\<lambda>idx. Proto (dp_take idx e)) ?iss" using c(1) by (intro map_nth_apply)
    finally show ?thesis by (simp add: comp_def)
  qed
  have ne: "?iss \<noteq> []" using c(1) assms(3) by (metis list.size(3) less_irrefl)
  have collect: "collect_nd_compute_dataproto msk (world_size wg2)
      (map (\<lambda>idx. Proto (dp_take idx e)) (map ?g mapping)) = Inr e"
  proof -
    have sel: "collect_nd_compute msk (world_size wg2) (map (\<lambda>idx. Proto (dp_take idx e)) (map ?g mapping)) =
        Inr (map (\<lambda>idx. Proto (dp_take idx e)) ?iss)"
      unfolding chosen [symmetric] using len i2(3) by (intro collect_nd_filter) (simp_all add: world_size_def)
    show ?thesis
      unfolding collect_nd_compute_dataproto_def sel using c(3) take_all [OF e(2)] e(1)
      by (simp add: concat_protos [OF e(2,3) ne] is_concatable_protos [OF ne])
  qed
  have "call_lazy g (on_first f) mesh_name wg [Proto d] [] = Inr (e, wg2)"
    by (simp add: call_lazy_def dispatch_lazy_compute_data_proto_def d1 size picked no_padding_def
        run [unfolded map_map comp_def] collect_lazy_compute_data_proto_def d2 collect [unfolded map_map comp_def] comp_def)
  then show ?thesis using i1 i2 by auto
qed

text \<open>Three data-parallel ranks of two sequence-parallel workers.\<close>

definition sample_group :: worker_group where
  "sample_group =
     \<lparr>workers = map (\<lambda>r. \<lparr>dispatch_dp_rank = [''actor'' \<mapsto> r div 2], collect_dp_rank = [''actor'' \<mapsto> r mod 2 = 0]\<rparr>) [0..<6],
      dispatch_info = (\<lambda>_. None), collect_info = (\<lambda>_. None)\<rparr>"

theorem mesh_call_transparent_witness:
  "\<exists>wg'. call_lazy False (on_first add_column) ''actor'' sample_group [Proto sample_dp :: (nat, string, nat, unit) item] [] =
       Inr (sample_out, wg') \<and> dispatch_info wg' ''actor'' = Some [0, 0, 1, 1, 2, 2]"
proof -
  have maps: "map (\<lambda>r. r div 2) [0..<6] = [0, 0, 1, 1, 2, 2 :: nat]" by (simp add: upt_rec)
  have "registered ''actor'' (map (\<lambda>r. r div 2) [0..<3 * 2]) (map (\<lambda>r. r mod 2 = 0) [0..<3 * 2]) sample_group"
    by (simp add: registered_def sample_group_def comp_def)
  from mesh_call_transparent [OF this mesh_layout _ sample_dp_facts(1,2) _ _ sample_row_local, of False]
  show ?thesis using maps by auto
qed

section \<open>Futures and lost outputs\<close>

text \<open>
  Waiting for the chunks of a future is chunking what the future stands for; chunking a chunk of a
  future forgets which chunk it was.
\<close>

lemma future_chunks:
  assumes "ds \<noteq> []" and "dp_concat ds = Inr x" and "dp_chunk g k x = Inr ps"
  shows "mapM_result (future_get g) (future_chunk k (future_concat ds)) = Inr ps"
proof -
  have len: "length ps = k"
    using assms(3) by (auto simp: dp_chunk_def Let_def ensure_eq_Inr dest: mapM_result_length)
  have "mapM_result (future_get g) (map (\<lambda>i. \<lparr>futures = ds, dispatch_chunk = Some (i, k)\<rparr>) xs) =
      mapM_result (py_get ps) xs" for xs
    using assms by (induction xs) (auto simp: future_get_def)
  then have "mapM_result (future_get g) (future_chunk k (future_concat ds)) = mapM_result (py_get ps) [0..<k]"
    by (simp add: future_chunk_def future_concat_def)
  also have "\<dots> = Inr (map (\<lambda>i. ps ! i) [0..<k])" using len by (intro mapM_result_Inr) simp
  also have "map (\<lambda>i. ps ! i) [0..<k] = ps" using len by (metis map_nth)
  finally show ?thesis .
qed

lemma future_chunk_forgets:
  "i < k \<Longrightarrow> future_chunk m (future_chunk k f ! i) = future_chunk m f"
  by (simp add: future_chunk_def)

text \<open>
  In the metric mode the outputs are one value per worker, yet as many of them are dropped as rows
  were padded: a batch of three rows on four workers loses the output of the last worker.
\<close>

lemma metric_mode_loses_outputs:
  "rbind (call True (\<lambda>i _ _. Inr (Plain i)) DP_COMPUTE_METRIC 4 [Proto sample_dp] []) (\<lambda>(out, _). Inr out) =
     Inr (Outputs [Plain 0, Plain 1, Plain 2])"
proof -
  have "dp_len sample_dp = 3" "is_padding_enabled True sample_dp" by (simp_all add: is_padding_enabled_def)
  moreover have pad: "dp_padding 1 [] sample_dp = Inr (dp_take (padded_rows 3 1) sample_dp)"
    using dp_padding_take [OF sample_dp_facts(1,2), of 1 "[]"] by (simp add: padded_rows_def)
  moreover have "dp_chunk True 4 (dp_take (padded_rows 3 1) sample_dp) =
      Inr (map (\<lambda>idx. dp_take idx sample_dp) (shard_rows 4 3 1))"
    using chunk_padded [OF sample_dp_facts(1), of 4 1 True] by simp
  moreover have "length (shard_rows 4 3 1) = 4" using shard_rows_facts(1) [of 4 3 1] by simp
  moreover have "padding_for 4 3 = 1" by (simp add: padding_for_def)
  ultimately show ?thesis
    by (simp add: call_def dispatch_fn_def collect_fn_def split_with_auto_padding_def padding_and_split_def
        execute_all_def arg_lists_def mapM_result_Inr collect_dp_compute_def drop_padding_def upt_rec)
qed

end
