(* ===== verification/Balance_Batch.thy ===== *)
theory Balance_Batch
  imports Dispatch_Properties Dynamic_Batch
begin

text \<open>
  Balancing a batch over the data-parallel ranks: \<open>_get_dp_size\<close> and \<open>_balance_batch\<close> of
  \<open>src/verl/trainer/ppo/ray_trainer.py\<close>, which reorder the batch so that the equal chunks the dispatch
  cuts it into are the parts of a balanced partition. The sum of a row of the attention mask is the
  parameter \<open>row_sum\<close>, since rows of tensors have any type here.
\<close>

section \<open>The code\<close>

definition get_dp_size :: "worker_group \<Rightarrow> string \<Rightarrow> (nat \<times> worker_group) result" where
  "get_dp_size wg role =
     (case dispatch_info wg role of
        Some mapping \<Rightarrow> rbind (dp_size_of mapping) (\<lambda>k. Inr (k, wg))
      | None \<Rightarrow> rbind (mapM_result (query_dispatch_info role) (workers wg)) (\<lambda>mapping.
          rbind (dp_size_of mapping) (\<lambda>k.
            Inr (k, wg\<lparr>dispatch_info := (dispatch_info wg)(role \<mapsto> mapping)\<rparr>))))"

record balance_config =
  use_prefix_grouper :: bool
  keep_minibatch :: bool
  ppo_mini_batch_size :: nat

text \<open>The loop over the mini-batches: the parts of each are appended to the parts of the ranks.\<close>

definition minibatch_partitions :: "int list \<Rightarrow> nat \<Rightarrow> nat \<Rightarrow> nat list list result" where
  "minibatch_partitions workloads minibatch_size dp_size =
     ensure (minibatch_size \<noteq> 0) ZeroDivisionError
       (foldl (\<lambda>acc i. rbind acc (\<lambda>parts.
           rbind (get_seqlen_balanced_partitions
                    (slice (i * minibatch_size) ((i + 1) * minibatch_size) workloads) dp_size True) (\<lambda>new.
             Inr (map2 (\<lambda>p part. p @ map (\<lambda>x. x + minibatch_size * i) part) parts new))))
         (Inr (replicate dp_size [])) [0..<length workloads div minibatch_size])"

definition global_partitions ::
  "balance_config \<Rightarrow> int list \<Rightarrow> int list \<Rightarrow> 'u list option \<Rightarrow> nat \<Rightarrow> nat list list result" where
  "global_partitions cfg seqlens workloads uids dp_size =
     (case (use_prefix_grouper cfg, uids) of
        (True, Some us) \<Rightarrow>
          ensure (card (set us) mod dp_size = 0) ValueError
            (get_group_balanced_partitions seqlens (map Some us) dp_size)
      | _ \<Rightarrow>
          if keep_minibatch cfg then minibatch_partitions workloads (ppo_mini_batch_size cfg) dp_size
          else get_seqlen_balanced_partitions workloads dp_size True)"

text \<open>\<open>partition.sort(key=(workload, index))\<close>, then \<open>partition[::2] + partition[1::2][::-1]\<close>.\<close>

definition order_part :: "int list \<Rightarrow> nat list \<Rightarrow> nat list" where
  "order_part workloads part =
     (let s = sort_key (\<lambda>x. (workloads ! x, x)) part in evens s @ rev (odds s))"

definition balance_batch ::
  "('a \<Rightarrow> int) \<Rightarrow> balance_config \<Rightarrow> worker_group \<Rightarrow> ('a, 'b, 'm) dataproto \<Rightarrow>
   (('a, 'b, 'm) dataproto \<times> unbalance_metrics \<times> worker_group) result" where
  "balance_batch row_sum cfg wg d =
     (case batch d of
        None \<Rightarrow> Inl TypeError
      | Some td \<Rightarrow>
          (case map_of (td_items td) ''attention_mask'' of
             None \<Rightarrow> Inl KeyError
           | Some rows \<Rightarrow>
               (let seqlens = map row_sum rows; workloads = map calculate_workload seqlens
                in rbind (get_dp_size wg ''actor'') (\<lambda>(dp_size, wg').
                   rbind (global_partitions cfg seqlens workloads (map_of (non_tensor d) ''uid'') dp_size) (\<lambda>parts.
                   (let ordered = (if use_prefix_grouper cfg then parts else map (order_part workloads) parts)
                    in rbind (reorder (map int (concat ordered)) d) (\<lambda>d'.
                       rbind (log_seqlen_unbalance seqlens ordered) (\<lambda>stats.
                         Inr (d', stats, wg')))))))))"

section \<open>Every rank gets its part\<close>

lemma calculate_workload_nonneg: "0 \<le> x \<Longrightarrow> 0 \<le> calculate_workload x"
  by (simp add: calculate_workload_def)

lemma mset_order_part [simp]: "mset (order_part ws p) = mset p"
  by (simp add: order_part_def Let_def mset_evens_odds)

lemma get_dp_size_registered:
  assumes "registered role mapping msk wg" and "layout_ok mapping msk k" and "0 < k"
  shows "\<exists>wg'. get_dp_size wg role = Inr (k, wg') \<and> registered role mapping msk wg'"
proof -
  have r: "map (\<lambda>w. dispatch_dp_rank w role) (workers wg) = map Some mapping"
    using assms(1) by (simp add: registered_def)
  have q: "mapM_result (query_dispatch_info role) (workers wg) = Inr mapping"
    using query_all [OF r] by (simp add: query_dispatch_info_def [abs_def])
  have size: "dp_size_of mapping = Inr k" by (rule layout_size [OF assms(2,3)])
  show ?thesis
    using assms(1) q size by (cases "dispatch_info wg role") (auto simp: get_dp_size_def registered_def)
qed

text \<open>Selecting rows part by part and chunking equally gives back the parts.\<close>

lemma chunks_of_equal_parts:
  assumes "\<forall>p\<in>set ps. length p = m" and "0 < m"
  shows "py_chunks m (concat ps) = ps"
  using assms(1)
proof (induction ps)
  case (Cons p ps)
  then have "length p = m" by simp
  then have "p @ concat ps \<noteq> []" using assms(2) by auto
  then have "py_chunks m (p @ concat ps) = take m (p @ concat ps) # py_chunks m (drop m (p @ concat ps))"
    using assms(2) by (subst py_chunks.simps) simp
  then show ?case using Cons \<open>length p = m\<close> by simp
qed simp

lemma py_chunks_map: "py_chunks m (map f xs) = map (map f) (py_chunks m xs)"
proof (induction m xs rule: py_chunks.induct)
  case (1 m xs)
  show ?case
  proof (cases "m = 0 \<or> xs = []")
    case True
    then show ?thesis by (auto simp: py_chunks.simps [of m])
  next
    case False
    then show ?thesis
      using 1 by (simp add: py_chunks.simps [of m "map f xs"] py_chunks.simps [of m xs] drop_map take_map)
  qed
qed

lemma chunk_reordered:
  assumes "wf_dp d" and "has_rows d" and "0 < length ps" and "\<forall>p\<in>set ps. length p * length ps = n" and "0 < n"
    and "set (concat ps) \<subseteq> {..<dp_len d}"
  shows "dp_chunk g (length ps) (dp_take (concat ps) d) = Inr (map (\<lambda>p. dp_take p d) ps)"
proof -
  let ?k = "length ps" and ?J = "concat ps"
  have part: "length p = n div ?k" if "p \<in> set ps" for p using assms(3,4) that by auto
  then have n: "length ?J = ?k * (n div ?k)" by (intro length_concat_same)
  obtain p where "p \<in> set ps" using assms(3) by (cases ps) auto
  then have "length p * ?k = n" using assms(4) by blast
  then have dvd: "?k dvd n" by (metis dvd_triv_right)
  then have len: "length ?J = n" using n by simp
  have m: "0 < n div ?k" using part [OF \<open>p \<in> set ps\<close>] \<open>length p * ?k = n\<close> assms(5) by (metis gr0I mult_0)
  have size: "dp_len (dp_take ?J d) = n" using dp_len_take [OF assms(2)] len by simp
  have parts: "map (\<lambda>c. map (\<lambda>j. ?J ! j) c) (py_chunks (n div ?k) [0..<n]) = ps"
  proof -
    have "map (\<lambda>c. map (\<lambda>j. ?J ! j) c) (py_chunks (n div ?k) [0..<n]) = py_chunks (n div ?k) (map (\<lambda>j. ?J ! j) [0..<n])"
      by (rule py_chunks_map [symmetric])
    also have "map (\<lambda>j. ?J ! j) [0..<n] = ?J" unfolding len [symmetric] by (rule map_nth)
    finally show ?thesis using chunks_of_equal_parts [OF _ m, of ps] part by simp
  qed
  have takes: "dp_take c (dp_take ?J d) = dp_take (map (\<lambda>j. ?J ! j) c) d"
    if "c \<in> set (py_chunks (n div ?k) [0..<n])" for c
    using py_chunks_mem [OF that] len by (intro take_take) auto
  have "map (\<lambda>c. dp_take c (dp_take ?J d)) (py_chunks (n div ?k) [0..<n]) =
      map (\<lambda>c. dp_take (map (\<lambda>j. ?J ! j) c) d) (py_chunks (n div ?k) [0..<n])"
    by (intro map_cong refl takes)
  also have "\<dots> = map (\<lambda>p. dp_take p d) (map (\<lambda>c. map (\<lambda>j. ?J ! j) c) (py_chunks (n div ?k) [0..<n]))"
    by (simp only: map_map comp_def)
  finally have "map (\<lambda>c. dp_take c (dp_take ?J d)) (py_chunks (n div ?k) [0..<n]) = map (\<lambda>p. dp_take p d) ps"
    unfolding parts .
  then show ?thesis
    using chunk_take [OF wf_take [OF assms(1), of ?J] assms(3), of g] dvd assms(5) unfolding size by simp
qed

lemma part_sum_mset: "mset p = mset q \<Longrightarrow> part_sum xs p = part_sum xs q"
  unfolding part_sum_def by (rule sum_list_map_mset)

lemma mset_concat_map_same:
  "(\<And>p. p \<in> set ps \<Longrightarrow> mset (f p) = mset p) \<Longrightarrow> mset (concat (map f ps)) = mset (concat ps)"
  by (induction ps) auto

lemma reorder_take:
  assumes "batch d \<noteq> None" and "set idx \<subseteq> {..<dp_len d}"
  shows "reorder (map int idx) d = Inr (dp_take idx d)"
  using assms py_index_nats [OF assms(2)] by (simp add: reorder_def)

lemma balance_batch_run:
  assumes reg: "registered ''actor'' mapping msk wg" "layout_ok mapping msk k" "0 < k"
    and d: "wf_dp d" "batch d = Some td" "map_of (td_items td) ''attention_mask'' = Some rows" "0 < dp_len d" "k dvd dp_len d"
    and sums: "\<forall>r\<in>set rows. 0 \<le> row_sum r"
    and cfg: "\<not> use_prefix_grouper cfg" "\<not> keep_minibatch cfg"
  shows "\<exists>ps stats wg'. balance_batch row_sum cfg wg d = Inr (dp_take (concat ps) d, stats, wg') \<and>
     mset (concat ps) = mset [0..<dp_len d] \<and> (\<forall>p\<in>set ps. length p * k = dp_len d) \<and>
     dp_chunk g k (dp_take (concat ps) d) = Inr (map (\<lambda>p. dp_take p d) ps) \<and>
     (let w = map (\<lambda>r. calculate_workload (row_sum r)) rows
      in \<forall>p\<in>set ps. \<forall>q\<in>set ps. part_sum w p - part_sum w q \<le> Max (set w))"
proof -
  let ?n = "dp_len d" and ?s = "map row_sum rows"
  let ?w = "map calculate_workload ?s"
  let ?f = "order_part ?w"
  obtain wg' where size: "get_dp_size wg ''actor'' = Inr (k, wg')"
    using get_dp_size_registered [OF reg] by blast
  have len: "length rows = ?n" using wf_dpD(2) [OF d(1,2)] map_of_SomeD [OF d(3)] by blast
  have kn: "k \<le> ?n" using d(4,5) by (simp add: dvd_imp_le)
  have "\<forall>x\<in>set ?w. 0 \<le> x" using sums calculate_workload_nonneg by auto
  then obtain ps where ps: "get_seqlen_balanced_partitions ?w k True = Inr ps" "partition_of k ?n ps"
      "\<forall>p\<in>set ps. length p * k = ?n" "\<forall>p\<in>set ps. \<forall>q\<in>set ps. part_sum ?w p - part_sum ?w q \<le> Max (set ?w)"
    using balanced_partitions_run [OF reg(3), of ?w True] kn d(5) len by auto
  let ?ps = "map ?f ps"
  have perm: "mset (concat ?ps) = mset [0..<?n]"
    using ps(2) mset_concat_map_same [of ps ?f] by (simp add: partition_of_def)
  have k: "length ?ps = k" using ps(2) by (simp add: partition_of_def)
  have lens: "\<forall>p\<in>set ?ps. length p * k = ?n"
    using ps(3) by (auto simp flip: size_mset)
  have sums': "\<forall>p\<in>set ?ps. \<forall>q\<in>set ?ps. part_sum ?w p - part_sum ?w q \<le> Max (set ?w)"
    using ps(4) part_sum_mset [OF mset_order_part] by auto
  have range: "set (concat ?ps) \<subseteq> {..<?n}" using mset_upt_perm(2) [OF perm] by simp
  have parts: "global_partitions cfg ?s ?w (map_of (non_tensor d) ''uid'') k = Inr ps"
    using cfg ps(1) by (cases "map_of (non_tensor d) ''uid''") (simp_all add: global_partitions_def)
  have re: "reorder (map int (concat ?ps)) d = Inr (dp_take (concat ?ps) d)"
    using d(2) range by (intro reorder_take) simp
  obtain stats where stats: "log_seqlen_unbalance ?s ?ps = Inr stats"
    using log_seqlen_unbalance_mean [of ?ps ?s] perm k kn reg(3) len by auto
  have run: "balance_batch row_sum cfg wg d = Inr (dp_take (concat ?ps) d, stats, wg')"
    using d(2,3) cfg(1) re stats unfolding balance_batch_def by (simp add: Let_def size parts del: map_map)
  have chunks: "dp_chunk g k (dp_take (concat ?ps) d) = Inr (map (\<lambda>p. dp_take p d) ?ps)"
  proof -
    have rows: "has_rows d" using d(2) by (simp add: has_rows_def)
    have pos: "0 < length ?ps" unfolding k by (rule reg(3))
    have "\<forall>p\<in>set ?ps. length p * length ?ps = ?n" unfolding k by (rule lens)
    from chunk_reordered [OF d(1) rows pos this d(4) range, of g] show ?thesis unfolding k .
  qed
  have "?w = map (\<lambda>r. calculate_workload (row_sum r)) rows" by simp
  with run chunks perm lens sums' show ?thesis unfolding Let_def by (intro exI [of _ ?ps]) metis
qed

text \<open>
  C29: balancing and dispatching fit together. For a batch whose size the number of data-parallel ranks
  divides, \<open>_balance_batch\<close> with its default settings returns, on every worker layout that numbers the
  collected ranks in order; the chunk that the dispatch later sends to a rank consists of the rows of one
  part of a partition of the batch, all parts have the same number of rows, and the estimated workloads
  of any two ranks differ by at most that of the longest sequence.
\<close>

theorem balanced_batch_dispatch:
  assumes reg: "registered ''actor'' mapping msk wg" "layout_ok mapping msk k" "0 < k"
    and d: "wf_dp d" "batch d = Some td" "map_of (td_items td) ''attention_mask'' = Some rows" "0 < dp_len d" "k dvd dp_len d"
    and sums: "\<forall>r\<in>set rows. 0 \<le> row_sum r"
    and cfg: "\<not> use_prefix_grouper cfg" "\<not> keep_minibatch cfg"
  shows "\<exists>ps d' stats wg'. balance_batch row_sum cfg wg d = Inr (d', stats, wg') \<and>
     mset (concat ps) = mset [0..<dp_len d] \<and> (\<forall>p\<in>set ps. length p * k = dp_len d) \<and>
     dp_chunk g k d' = Inr (map (\<lambda>p. dp_take p d) ps) \<and>
     (let w = map (\<lambda>r. calculate_workload (row_sum r)) rows
      in \<forall>p\<in>set ps. \<forall>q\<in>set ps. part_sum w p - part_sum w q \<le> Max (set w))"
  using balance_batch_run [OF assms, of g] by blast

definition masked_dp :: "(int list, string, nat) dataproto" where
  "masked_dp =
     \<lparr>batch = Some \<lparr>td_size = 3, td_items = [(''attention_mask'', [[1, 1, 0], [1, 0, 0], [1, 1, 1]])]\<rparr>,
      non_tensor = [], meta = []\<rparr>"

definition default_balance :: balance_config where
  "default_balance = \<lparr>use_prefix_grouper = False, keep_minibatch = False, ppo_mini_batch_size = 2\<rparr>"

lemma balanced_batch_dispatch_witness:
  "\<exists>ps d' stats wg'. balance_batch sum_list default_balance sample_group masked_dp = Inr (d', stats, wg') \<and>
     mset (concat ps) = mset [0..<3] \<and> dp_chunk False 3 d' = Inr (map (\<lambda>p. dp_take p masked_dp) ps)"
proof -
  have reg: "registered ''actor'' (map (\<lambda>r. r div 2) [0..<3 * 2]) (map (\<lambda>r. r mod 2 = 0) [0..<3 * 2]) sample_group"
    by (simp add: registered_def sample_group_def comp_def)
  have wf: "wf_dp masked_dp" "dp_len masked_dp = 3" by (simp_all add: masked_dp_def wf_dp_def dp_len_def)
  have batch: "batch masked_dp =
      Some \<lparr>td_size = 3, td_items = [(''attention_mask'', [[1, 1, 0], [1, 0, 0], [1, 1, 1]])]\<rparr>"
    by (simp add: masked_dp_def)
  from balanced_batch_dispatch [OF reg mesh_layout _ wf(1) batch, of _ sum_list default_balance False]
  show ?thesis unfolding wf(2) by (simp add: default_balance_def) blast
qed

section \<open>Keeping the mini-batches\<close>

text \<open>
  With \<open>keep_minibatch\<close> each mini-batch is balanced on its own, but the parts are then sorted as a whole,
  which mixes the mini-batches again: with mini-batches of two rows, the first two rows of the single
  rank below are the rows 0 and 3. Rows beyond the last full mini-batch are dropped.
\<close>

lemma keep_minibatch_mixes:
  "minibatch_partitions (map calculate_workload [1, 5, 2, 3]) 2 1 = Inr [[0, 1, 2, 3]] \<and>
   order_part (map calculate_workload [1, 5, 2, 3]) [0, 1, 2, 3] = [0, 3, 1, 2]"
  by code_simp

lemma keep_minibatch_drops_tail:
  "minibatch_partitions (map calculate_workload [1, 2, 3]) 2 1 = Inr [[0, 1]]"
  by code_simp

end
