(* ===== verification/Trainer_Steps.thy ===== *)
theory Trainer_Steps
  imports Data_Proto_Properties Advantage_Properties Policy_Loss_Properties
begin

text \<open>
  The steps of the trainer between the rollout and the update of the policy, on the container it passes
  around: \<open>apply_kl_penalty\<close>, \<open>compute_response_mask\<close> and \<open>compute_advantage\<close> of
  \<open>src/verl/trainer/ppo/ray_trainer.py\<close>, and the resampling \<open>compute_pf_ppo_reweight_data\<close> of
  \<open>core_algos.py\<close>. Tensors of a batch have one row per sample: token ids and masks are embedded in the
  real numbers, and a tensor of shape \<open>(bs,)\<close> has rows of length one.
\<close>

section \<open>Reading and writing the batch\<close>

datatype entry = Str string | Num real

type_synonym 'm rl_data = "(vec, entry, 'm) dataproto"

definition tensor :: "(vec, 'b, 'm) dataproto \<Rightarrow> string \<Rightarrow> mat result" where
  "tensor d k =
     (case batch d of
        None \<Rightarrow> Inl TypeError
      | Some td \<Rightarrow> (case map_of (td_items td) k of None \<Rightarrow> Inl KeyError | Some v \<Rightarrow> Inr v))"

definition has_tensor :: "(vec, 'b, 'm) dataproto \<Rightarrow> string \<Rightarrow> bool" where
  "has_tensor d k \<longleftrightarrow> (case batch d of None \<Rightarrow> False | Some td \<Rightarrow> map_of (td_items td) k \<noteq> None)"

text \<open>\<open>data.batch[k] = v\<close>: the new tensor must have one row per sample.\<close>

definition set_tensor :: "string \<Rightarrow> mat \<Rightarrow> (vec, 'b, 'm) dataproto \<Rightarrow> (vec, 'b, 'm) dataproto result" where
  "set_tensor k v d =
     (case batch d of
        None \<Rightarrow> Inl TypeError
      | Some td \<Rightarrow> ensure (length v = td_size td) RuntimeError
          (Inr (d\<lparr>batch := Some (td\<lparr>td_items := AList.update k v (td_items td)\<rparr>)\<rparr>)))"

definition entry_text :: "entry \<Rightarrow> string" where
  "entry_text x = (case x of Str s \<Rightarrow> s | Num _ \<Rightarrow> [])"

definition entry_value :: "entry \<Rightarrow> real" where
  "entry_value x = (case x of Num r \<Rightarrow> r | Str _ \<Rightarrow> 0)"

text \<open>The array \<open>uid\<close>, whose entries are strings.\<close>

definition uids_of :: "'m rl_data \<Rightarrow> string list option" where
  "uids_of d = map_option (map entry_text) (map_of (non_tensor d) ''uid'')"

section \<open>The KL penalty in the reward\<close>

record kl_metrics =
  reward_kl_penalty :: real
  reward_kl_penalty_coeff :: real

definition kl_penalty_mat :: "mat \<Rightarrow> mat \<Rightarrow> string \<Rightarrow> mat result" where
  "kl_penalty_mat old ref name =
     mapM_result (\<lambda>(o_row, r_row). mapM_result (\<lambda>(x, y). kl_penalty x y name) (zip o_row r_row)) (zip old ref)"

definition apply_kl_penalty ::
  "'m rl_data \<Rightarrow> kl_controller \<Rightarrow> string \<Rightarrow> ('m rl_data \<times> kl_controller \<times> kl_metrics) result" where
  "apply_kl_penalty d kl_ctrl name =
     rbind (tensor d ''response_mask'') (\<lambda>response_mask.
     rbind (tensor d ''token_level_scores'') (\<lambda>scores.
     rbind (tensor d ''old_log_probs'') (\<lambda>old.
     rbind (tensor d ''ref_log_prob'') (\<lambda>ref.
     rbind (kl_penalty_mat old ref name) (\<lambda>raw.
       (let kld = ew2 (*) raw response_mask;
            beta = kl_coef kl_ctrl;
            rewards = ew2 (\<lambda>s k. s - beta * k) scores kld;
            current_kl = vec_mean (map2 row_masked_mean kld response_mask)
        in rbind (set_tensor ''token_level_rewards'' rewards d) (\<lambda>d'.
             Inr (d', kl_update current_kl (dp_len d) kl_ctrl,
                  \<lparr>reward_kl_penalty = current_kl, reward_kl_penalty_coeff = beta\<rparr>))))))))"

section \<open>Advantages\<close>

definition compute_response_mask :: "'m rl_data \<Rightarrow> mat result" where
  "compute_response_mask d =
     rbind (tensor d ''responses'') (\<lambda>responses.
     rbind (tensor d ''attention_mask'') (\<lambda>attention_mask.
       Inr (map (py_last (mat_width responses)) attention_mask)))"

record algo_config =
  algo_norm_by_std :: bool
  algo_gamma :: real
  use_pf_ppo :: bool
  pf_reweight_method :: string
  pf_weight_pow :: real
  algo_gdpo_keys :: "string list"
  algo_gdpo_weights :: "vec option"

text \<open>The parameters of an estimator: the required ones, those with a default, and \<open>**kwargs\<close>.\<close>

record signature =
  required_params :: "string list"
  default_params :: "string list"
  var_kwargs :: bool

definition outcome_signature :: "string list \<Rightarrow> bool \<Rightarrow> signature" where
  "outcome_signature defaults kw =
     \<lparr>required_params = [''token_level_rewards'', ''response_mask'', ''index''], default_params = defaults, var_kwargs = kw\<rparr>"

fun signature_of :: "adv_estimator \<Rightarrow> signature" where
  "signature_of GAE = \<lparr>required_params = [''token_level_rewards'', ''values'', ''response_mask'', ''gamma'', ''lam''],
     default_params = [], var_kwargs = False\<rparr>"
| "signature_of GRPO = outcome_signature [''epsilon'', ''norm_adv_by_std_in_grpo'', ''config''] False"
| "signature_of GRPO_VECTORIZED = outcome_signature [''epsilon'', ''norm_adv_by_std_in_grpo'', ''config''] False"
| "signature_of GDPO = outcome_signature [''epsilon'', ''norm_adv_by_std_in_grpo'', ''config'', ''non_tensor_batch'', ''batch''] True"
| "signature_of GRPO_PASSK = outcome_signature [''epsilon'', ''norm_adv_by_std_in_grpo'', ''config''] True"
| "signature_of REINFORCE_PLUS_PLUS_BASELINE = outcome_signature [''epsilon'', ''config''] True"
| "signature_of RLOO = outcome_signature [''epsilon'', ''config''] True"
| "signature_of OPO = outcome_signature [''epsilon'', ''config''] True"
| "signature_of RLOO_VECTORIZED = outcome_signature [''epsilon'', ''config''] True"
| "signature_of GPG = outcome_signature [''epsilon'', ''f_norm'', ''alpha'', ''config''] True"
| "signature_of REINFORCE_PLUS_PLUS = \<lparr>required_params = [''token_level_rewards'', ''response_mask''],
     default_params = [''config''], var_kwargs = True\<rparr>"
| "signature_of REMAX = \<lparr>required_params = [''token_level_rewards'', ''reward_baselines'', ''response_mask''],
     default_params = [''config''], var_kwargs = True\<rparr>"
| "signature_of OPTIMAL_TOKEN_BASELINE = \<lparr>required_params =
       [''token_level_rewards'', ''response_mask'', ''index'', ''old_log_probs'', ''sum_pi_squared''],
     default_params = [''rollout_is_weights'', ''handle_zero_tail'', ''epsilon''], var_kwargs = False\<rparr>"
| "signature_of TIR_OPTIMAL_TOKEN_BASELINE = \<lparr>required_params =
       [''token_level_rewards'', ''response_mask'', ''index'', ''old_log_probs'', ''sum_pi_squared''],
     default_params = [''rollout_is_weights'', ''handle_zero_tail'', ''epsilon''], var_kwargs = False\<rparr>"

definition accepts :: "signature \<Rightarrow> string list \<Rightarrow> bool" where
  "accepts s passed \<longleftrightarrow>
     set (required_params s) \<subseteq> set passed \<and>
     (var_kwargs s \<or> set passed \<subseteq> set (required_params s) \<union> set (default_params s))"

definition is_otb :: "adv_estimator \<Rightarrow> bool" where
  "is_otb est \<longleftrightarrow> est = OPTIMAL_TOKEN_BASELINE \<or> est = TIR_OPTIMAL_TOKEN_BASELINE"

text \<open>The keys of \<open>adv_kwargs\<close>.\<close>

definition passed_params :: "adv_estimator \<Rightarrow> 'm rl_data \<Rightarrow> string list" where
  "passed_params est d =
     [''token_level_rewards'', ''response_mask'', ''config''] @
     (if uids_of d \<noteq> None then [''index''] else []) @
     (if has_tensor d ''reward_baselines'' then [''reward_baselines''] else []) @
     (if est = GDPO then [''non_tensor_batch'', ''batch''] else []) @
     (if is_otb est then [''sum_pi_squared'', ''rollout_is_weights''] else [])"

text \<open>The registry: the fourteen estimators by name; an unknown name is a \<open>ValueError\<close>.\<close>

definition all_estimators :: "adv_estimator list" where
  "all_estimators =
     [GAE, GRPO, REINFORCE_PLUS_PLUS, REINFORCE_PLUS_PLUS_BASELINE, REMAX, RLOO, OPO, GRPO_PASSK, GPG,
      RLOO_VECTORIZED, GRPO_VECTORIZED, OPTIMAL_TOKEN_BASELINE, TIR_OPTIMAL_TOKEN_BASELINE, GDPO]"

definition estimator_registry :: "string \<rightharpoonup> adv_estimator" where
  "estimator_registry = map_of (map (\<lambda>e. (estimator_name e, e)) all_estimators)"

definition gdpo_data :: "algo_config \<Rightarrow> 'm rl_data \<Rightarrow> gdpo_inputs result" where
  "gdpo_data cfg d =
     ensure (algo_gdpo_keys cfg \<noteq> []) AssertionError
       (rbind (tensor d ''prompts'') (\<lambda>prompts.
        rbind (tensor d ''attention_mask'') (\<lambda>attention_mask.
          Inr \<lparr>gdpo_reward_keys = algo_gdpo_keys cfg, gdpo_reward_weights = algo_gdpo_weights cfg,
               gdpo_components = (\<lambda>k. map_option (map entry_value) (map_of (non_tensor d) k)),
               response_attention = map (\<lambda>row. map (\<lambda>x. nat \<lfloor>x\<rfloor>) (drop (mat_width prompts) row)) attention_mask\<rparr>)))"

text \<open>
  The call of the estimator with the arguments of \<open>adv_kwargs\<close>; \<open>top1\<close> and \<open>parse_int\<close> are the tie rule of
  \<open>torch.topk\<close> and NumPy's conversion of strings. What \<open>adv_kwargs\<close> does not hold takes its default.
  The generalised and the two token-baseline estimators need parameters that are never passed, so
  \<open>accepts\<close> is false for them.
\<close>

definition run_estimator ::
  "(vec \<Rightarrow> nat) \<Rightarrow> (string \<Rightarrow> int option) \<Rightarrow> adv_estimator \<Rightarrow> algo_config \<Rightarrow> 'm rl_data \<Rightarrow> mat \<Rightarrow> mat \<Rightarrow>
   (mat \<times> mat) result" where
  "run_estimator top1 parse_int est cfg d rewards response_mask =
     (let index = (case uids_of d of None \<Rightarrow> [] | Some us \<Rightarrow> us); eps = 1 / 10 ^ 6
       in case est of
            GAE \<Rightarrow> Inl TypeError
          | OPTIMAL_TOKEN_BASELINE \<Rightarrow> Inl TypeError
          | TIR_OPTIMAL_TOKEN_BASELINE \<Rightarrow> Inl TypeError
          | GRPO \<Rightarrow> compute_grpo_outcome_advantage rewards response_mask index eps True
          | GRPO_VECTORIZED \<Rightarrow>
              compute_grpo_vectorized_outcome_advantage parse_int rewards response_mask (StrLabels index) eps True
          | GDPO \<Rightarrow> rbind (gdpo_data cfg d) (\<lambda>inp.
              compute_gdpo_outcome_advantage rewards response_mask index eps True (Some inp))
          | GRPO_PASSK \<Rightarrow>
              compute_grpo_passk_outcome_advantage top1 rewards response_mask index eps (Some (algo_norm_by_std cfg))
          | REINFORCE_PLUS_PLUS_BASELINE \<Rightarrow>
              compute_reinforce_plus_plus_baseline_outcome_advantage rewards response_mask index
          | RLOO \<Rightarrow> compute_rloo_outcome_advantage rewards response_mask index
          | OPO \<Rightarrow> compute_opo_outcome_advantage rewards response_mask index
          | GPG \<Rightarrow> compute_gpg_outcome_advantage rewards response_mask index 1 1
          | RLOO_VECTORIZED \<Rightarrow> compute_rloo_vectorized_outcome_advantage rewards response_mask index
          | REINFORCE_PLUS_PLUS \<Rightarrow>
              compute_reinforce_plus_plus_outcome_advantage rewards response_mask (Some (algo_gamma cfg))
          | REMAX \<Rightarrow> rbind (tensor d ''reward_baselines'') (\<lambda>b.
              Inr (compute_remax_outcome_advantage rewards (map hd b) response_mask)))"

definition call_estimator ::
  "(vec \<Rightarrow> nat) \<Rightarrow> (string \<Rightarrow> int option) \<Rightarrow> adv_estimator \<Rightarrow> algo_config \<Rightarrow> 'm rl_data \<Rightarrow> mat \<Rightarrow> mat \<Rightarrow>
   (mat \<times> mat) result" where
  "call_estimator top1 parse_int est cfg d rewards response_mask =
     ensure (accepts (signature_of est) (passed_params est d)) TypeError
       (run_estimator top1 parse_int est cfg d rewards response_mask)"

section \<open>Resampling (PF-PPO)\<close>

definition torch_pow :: "real \<Rightarrow> real \<Rightarrow> real" where
  "torch_pow x p = (if p = 0 then 1 else x powr p)"

definition pf_weights :: "vec \<Rightarrow> string \<Rightarrow> real \<Rightarrow> vec result" where
  "pf_weights scores reweight_method weight_pow =
     (if reweight_method = ''pow'' then Inr (map (\<lambda>s. torch_pow \<bar>s\<bar> weight_pow) scores)
      else if reweight_method = ''max_min''
      then Inr (map (\<lambda>s. if s = Max (set scores) \<or> s = Min (set scores) then 1 else 0) scores)
      else if reweight_method = ''max_random''
      then Inr (map (\<lambda>s. if s = Max (set scores) then 4 / 10 else 1 / 10) scores)
      else Inl ValueError)"

text \<open>\<open>multinomial\<close> is the random draw with replacement: weights and a number of draws to indices.\<close>

definition compute_pf_ppo_reweight_data ::
  "(vec \<Rightarrow> nat \<Rightarrow> nat list) \<Rightarrow> string \<Rightarrow> real \<Rightarrow> 'm rl_data \<Rightarrow> 'm rl_data result" where
  "compute_pf_ppo_reweight_data multinomial reweight_method weight_pow d =
     rbind (tensor d ''token_level_scores'') (\<lambda>token_scores.
       (let scores = map sum_list token_scores in
     rbind (pf_weights scores reweight_method weight_pow) (\<lambda>weights.
       (let idx = multinomial (map (\<lambda>w. max (w + 1 / 10 ^ 8) (1 / 10 ^ 8)) weights) (length scores);
            r = dp_take idx d
        in Inr (r\<lparr>meta := dict_map (\<lambda>v. case v of
                    ListV l \<Rightarrow> if length l = length scores then ListV (take_rows idx l) else v
                  | _ \<Rightarrow> v) (meta d)\<rparr>)))))"

section \<open>compute_advantage\<close>

definition with_response_mask :: "'m rl_data \<Rightarrow> 'm rl_data result" where
  "with_response_mask d =
     (if has_tensor d ''response_mask'' then Inr d
      else rbind (compute_response_mask d) (\<lambda>v. set_tensor ''response_mask'' v d))"

definition store_advantages :: "mat \<times> mat \<Rightarrow> 'm rl_data \<Rightarrow> 'm rl_data result" where
  "store_advantages r d =
     rbind (set_tensor ''advantages'' (fst r) d) (set_tensor ''returns'' (snd r))"

definition compute_advantage ::
  "(vec \<Rightarrow> nat) \<Rightarrow> (string \<Rightarrow> int option) \<Rightarrow> (vec \<Rightarrow> nat \<Rightarrow> nat list) \<Rightarrow> 'm rl_data \<Rightarrow> string \<Rightarrow> real \<Rightarrow> real \<Rightarrow>
   bool \<Rightarrow> algo_config \<Rightarrow> 'm rl_data result" where
  "compute_advantage top1 parse_int multinomial d0 adv_estimator gamma lam norm_adv_by_std cfg =
     rbind (with_response_mask d0) (\<lambda>d.
       if adv_estimator = estimator_name GAE
       then rbind (tensor d ''token_level_rewards'') (\<lambda>rewards.
            rbind (tensor d ''values'') (\<lambda>vals.
            rbind (tensor d ''response_mask'') (\<lambda>response_mask.
            rbind (compute_gae_advantage_return rewards vals response_mask gamma lam) (\<lambda>r.
            rbind (store_advantages r d) (\<lambda>d'.
              if use_pf_ppo cfg
              then compute_pf_ppo_reweight_data multinomial (pf_reweight_method cfg) (pf_weight_pow cfg) d'
              else Inr d')))))
       else if adv_estimator = estimator_name GRPO
       then rbind (tensor d ''response_mask'') (\<lambda>response_mask.
            rbind (tensor d ''token_level_rewards'') (\<lambda>rewards.
              (case uids_of d of
                 None \<Rightarrow> Inl KeyError
               | Some index \<Rightarrow>
                   rbind (compute_grpo_outcome_advantage rewards response_mask index (1 / 10 ^ 6) norm_adv_by_std) (\<lambda>r.
                     store_advantages r d))))
       else (case estimator_registry adv_estimator of
               None \<Rightarrow> Inl ValueError
             | Some est \<Rightarrow>
                 rbind (tensor d ''token_level_rewards'') (\<lambda>rewards.
                 rbind (tensor d ''response_mask'') (\<lambda>response_mask.
                 rbind (ensure (\<not> is_otb est \<or> has_tensor d ''sum_pi_squared'') AssertionError (Inr ())) (\<lambda>_.
                 rbind (call_estimator top1 parse_int est cfg d rewards response_mask) (\<lambda>r.
                   store_advantages r d))))))"

end
