(* ===== verification/Trainer_Properties.thy ===== *)
theory Trainer_Properties
  imports Trainer_Steps
begin

text \<open>
  Properties of the trainer's steps: which estimators the trainer can call, the KL penalty of a policy
  that equals the reference, the order of the batch does not matter for the group-relative advantages,
  and the steps keep the container well formed.
\<close>

section \<open>Which estimators can be called\<close>

lemma registry_names: "estimator_registry (estimator_name est) = Some est"
  by (cases est) (simp_all add: estimator_registry_def all_estimators_def)

lemma names_differ: "estimator_name est = estimator_name GAE \<longleftrightarrow> est = GAE" "estimator_name est = estimator_name GRPO \<longleftrightarrow> est = GRPO"
  by (cases est; simp)+

definition call_refused :: "adv_estimator \<Rightarrow> 'm rl_data \<Rightarrow> bool" where
  "call_refused est d \<longleftrightarrow>
     is_otb est \<or> est = GAE \<or> (est = REMAX \<and> \<not> has_tensor d ''reward_baselines'') \<or>
     ((est = GRPO_VECTORIZED \<or> est = GRPO) \<and> has_tensor d ''reward_baselines'') \<or>
     (est \<noteq> REMAX \<and> est \<noteq> REINFORCE_PLUS_PLUS \<and> uids_of d = None)"

lemma accepts_iff: "accepts (signature_of est) (passed_params est d) \<longleftrightarrow> \<not> call_refused est d"
  by (cases est; cases "uids_of d"; cases "has_tensor d ''reward_baselines''") (simp_all add: accepts_def passed_params_def call_refused_def is_otb_def outcome_signature_def)

text \<open>
  C30: for every estimator but the generalised and the group-relative one, \<open>compute_advantage\<close> either runs
  the estimator and stores its two results, or ends with a \<open>TypeError\<close>: always for the two optimal token
  baselines, whose \<open>old_log_probs\<close> it never passes, for ReMax without reward baselines, for the
  vectorised GRPO with them, and for the estimators by group without uids.
\<close>

theorem compute_advantage_estimators:
  assumes "est \<noteq> GAE" "est \<noteq> GRPO" and "tensor d ''response_mask'' = Inr response_mask"
    and "tensor d ''token_level_rewards'' = Inr rewards" and "is_otb est \<longrightarrow> has_tensor d ''sum_pi_squared''"
  shows "compute_advantage top1 parse_int multinomial d (estimator_name est) gamma lam by_std cfg =
     (if call_refused est d then Inl TypeError
      else rbind (run_estimator top1 parse_int est cfg d rewards response_mask) (\<lambda>r. store_advantages r d))"
proof -
  have "with_response_mask d = Inr d"
    using assms(3) by (auto simp: with_response_mask_def has_tensor_def tensor_def split: option.splits)
  moreover have "call_estimator top1 parse_int est cfg d rewards response_mask =
      (if call_refused est d then Inl TypeError else run_estimator top1 parse_int est cfg d rewards response_mask)"
    by (simp add: call_estimator_def accepts_iff)
  ultimately show ?thesis
    unfolding compute_advantage_def using assms names_differ [of est] by (simp add: registry_names)
qed

text \<open>A batch of two responses of one prompt, with everything the token baselines read.\<close>

definition sample_rl :: "nat rl_data" where
  "sample_rl =
     \<lparr>batch = Some \<lparr>td_size = 2, td_items =
        [(''response_mask'', [[1, 1], [1, 0]]), (''token_level_rewards'', [[0, 1], [0, 0]]),
         (''token_level_scores'', [[0, 1], [0, 0]]), (''sum_pi_squared'', [[1, 1], [1, 1]]),
         (''old_log_probs'', [[- 1, - 2], [- 3, - 1]]), (''ref_log_prob'', [[- 1, - 2], [- 3, - 1]])]\<rparr>,
      non_tensor = [(''uid'', [Str ''p'', Str ''p''])], meta = []\<rparr>"

lemma sample_rl_tensors:
  "tensor sample_rl ''response_mask'' = Inr [[1, 1], [1, 0]]"
  "tensor sample_rl ''token_level_rewards'' = Inr [[0, 1], [0, 0]]"
  "tensor sample_rl ''token_level_scores'' = Inr [[0, 1], [0, 0]]"
  "tensor sample_rl ''old_log_probs'' = Inr [[- 1, - 2], [- 3, - 1]]"
  "tensor sample_rl ''ref_log_prob'' = Inr [[- 1, - 2], [- 3, - 1]]"
  "has_tensor sample_rl ''sum_pi_squared''" "batch sample_rl \<noteq> None" "dp_len sample_rl = 2"
  by (simp_all add: tensor_def has_tensor_def sample_rl_def dp_len_def)

definition sample_algo :: algo_config where
  "sample_algo = \<lparr>algo_norm_by_std = True, algo_gamma = 1, use_pf_ppo = False, pf_reweight_method = [],
     pf_weight_pow = 2, algo_gdpo_keys = [], algo_gdpo_weights = None\<rparr>"

theorem compute_advantage_estimators_witness:
  "compute_advantage (\<lambda>_. 0) (\<lambda>_. None) (\<lambda>_ _. []) sample_rl ''optimal_token_baseline'' 1 1 True sample_algo =
     Inl TypeError"
  using compute_advantage_estimators [of OPTIMAL_TOKEN_BASELINE sample_rl _ _ "\<lambda>_. 0" "\<lambda>_. None" "\<lambda>_ _. []" 1 1 True
      sample_algo] sample_rl_tensors by (simp add: call_refused_def is_otb_def)

section \<open>The KL penalty\<close>

text \<open>The names of the estimators without the straight-through variants.\<close>

definition kl_names :: "string list" where
  "kl_names = [''kl'', ''k1'', ''abs'', ''mse'', ''k2'', ''low_var_kl'', ''k3'']"

lemma kl_penalty_self:
  assumes "name \<in> set kl_names"
  shows "kl_penalty x x name = Inr 0"
proof -
  have "kl_penalty_forward x x name = Inr 0" "\<not> endswith_plus name"
    using assms by (auto simp: kl_names_def kl_penalty_forward_def endswith_plus_def clamp_def)
  then show ?thesis by (simp add: kl_penalty_def)
qed

lemma kl_penalty_mat_self:
  assumes "name \<in> set kl_names"
  shows "kl_penalty_mat A A name = Inr (map_mat (\<lambda>_. 0) A)"
proof -
  have row: "mapM_result (\<lambda>(x, y). kl_penalty x y name) (zip r r) = Inr (map (\<lambda>_. 0) r)" for r :: vec
    using kl_penalty_self [OF assms] by (induction r) auto
  have "zip A A = map (\<lambda>r. (r, r)) A" by (induction A) auto
  then show ?thesis
    using mapM_result_Inr [of "map (\<lambda>r. (r, r)) A" "\<lambda>(o_row, r_row). mapM_result (\<lambda>(x, y). kl_penalty x y name) (zip o_row r_row)"
        "\<lambda>(r, _). map (\<lambda>_. 0) r"] row
    by (auto simp: kl_penalty_mat_def map_mat_def comp_def)
qed

lemma tensor_batch: "tensor d k = Inr v \<Longrightarrow> \<exists>td. batch d = Some td \<and> map_of (td_items td) k = Some v"
  by (auto simp: tensor_def split: option.splits)

lemma tensor_set_tensor:
  assumes "set_tensor k v d = Inr d'"
  shows "tensor d' k = Inr v" and "j \<noteq> k \<Longrightarrow> tensor d' j = tensor d j" and "non_tensor d' = non_tensor d" "meta d' = meta d"
    and "dp_len d' = dp_len d" and "wf_dp d \<Longrightarrow> wf_dp d'"
proof -
  obtain td where td: "batch d = Some td" "length v = td_size td"
      and d': "d' = d\<lparr>batch := Some (td\<lparr>td_items := AList.update k v (td_items td)\<rparr>)\<rparr>"
    using assms by (auto simp: set_tensor_def ensure_eq_Inr split: option.splits)
  show "tensor d' k = Inr v" "j \<noteq> k \<Longrightarrow> tensor d' j = tensor d j" "non_tensor d' = non_tensor d" "meta d' = meta d"
    "dp_len d' = dp_len d"
    using td by (simp_all add: d' tensor_def update_conv' dp_len_def)
  show "wf_dp d'" if "wf_dp d"
  proof -
    have "length w = td_size td" if "(j, w) \<in> set (AList.update k v (td_items td))" for j w
      using update_elems [OF that] td wf_dpD(2) [OF \<open>wf_dp d\<close> td(1)] by (auto simp: dp_len_def)
    moreover have "distinct (keys (AList.update k v (td_items td)))"
      using wf_dpD(1) [OF that td(1)] by (simp add: keys_def distinct_update)
    ultimately show ?thesis
      using that td(1) by (auto simp: d' wf_dp_def dp_len_def)
  qed
qed

text \<open>
  The reward penalty of a policy that still equals the reference: with any of the seven estimators
  the call returns a well-formed batch whose rewards are the scores, reports a KL of zero and the
  coefficient of before the update, and an adaptive controller lowers its coefficient by a fifth of the
  batch size over the horizon.
\<close>

theorem kl_penalty_on_reference:
  assumes "wf_dp d" and "name \<in> set kl_names"
    and "tensor d ''response_mask'' = Inr response_mask" "tensor d ''token_level_scores'' = Inr scores"
    and "tensor d ''old_log_probs'' = Inr lp" "tensor d ''ref_log_prob'' = Inr lp"
    and "same_shape lp response_mask" "same_shape scores response_mask"
  shows "\<exists>d'. apply_kl_penalty d ctrl name =
       Inr (d', kl_update 0 (dp_len d) ctrl, \<lparr>reward_kl_penalty = 0, reward_kl_penalty_coeff = kl_coef ctrl\<rparr>) \<and>
     wf_dp d' \<and> tensor d' ''token_level_rewards'' = Inr scores \<and>
     (\<forall>c. ctrl = AdaptiveKL c \<longrightarrow>
        kl_coef (kl_update 0 (dp_len d) ctrl) = kl_coef ctrl * (1 - 1 / 5 * real (dp_len d) / kl_horizon c))"
proof -
  let ?kld = "ew2 (*) (map_mat (\<lambda>_. 0) lp) response_mask"
  have zero: "?kld = map_mat (\<lambda>_. 0) response_mask"
  proof -
    have "map2 (*) (map (\<lambda>_. 0) r) ms = map (\<lambda>_. 0) (ms :: vec)" if "length r = length ms" for r ms :: vec
      using that by (induction r ms rule: list_induct2) auto
    with assms(7) have "\<forall>i<length lp. map2 (*) (map (\<lambda>_. 0) (lp ! i)) (response_mask ! i) = map (\<lambda>_. 0) (response_mask ! i)"
      using same_shape_nth by blast
    then show ?thesis using same_shape_length [OF assms(7)]
      by (intro nth_equalityI) (simp_all add: ew2_def map_mat_def)
  qed
  have rewards: "ew2 (\<lambda>s k. s - kl_coef ctrl * k) scores ?kld = scores"
  proof -
    have "map2 (\<lambda>s k. s - kl_coef ctrl * k) r (map (\<lambda>_. 0) ms) = r" if "length r = length ms" for r ms :: vec
      using that by (induction r ms rule: list_induct2) auto
    then have "\<forall>i<length scores. map2 (\<lambda>s k. s - kl_coef ctrl * k) (scores ! i) (map (\<lambda>_. 0) (response_mask ! i)) = scores ! i"
      using same_shape_nth [OF assms(8)] by blast
    then show ?thesis unfolding zero using same_shape_length [OF assms(8)]
      by (intro nth_equalityI) (simp_all add: ew2_def map_mat_def)
  qed
  have kl: "vec_mean (map2 row_masked_mean ?kld response_mask) = 0"
  proof -
    have "row_masked_mean (map (\<lambda>_. 0) r) r = 0" for r
    proof -
      have "map2 masked_value (map (\<lambda>_. 0) r) r = map (\<lambda>_. 0) r" by (induction r) (auto simp: masked_value_def)
      then show ?thesis by (simp add: row_masked_mean_def row_masked_sum_def)
    qed
    then have "map2 row_masked_mean ?kld response_mask = map (\<lambda>_. 0) response_mask"
      unfolding zero by (intro nth_equalityI) (simp_all add: map_mat_def)
    then show ?thesis by (simp add: vec_mean_def)
  qed
  obtain td where td: "batch d = Some td" "map_of (td_items td) ''token_level_scores'' = Some scores"
    using tensor_batch [OF assms(4)] by blast
  then have len: "length scores = td_size td"
    using wf_dpD(2) [OF assms(1) td(1) map_of_SomeD [OF td(2)]] by (simp add: dp_len_def)
  then obtain d' where d': "set_tensor ''token_level_rewards'' scores d = Inr d'"
    using td(1) by (simp add: set_tensor_def)
  have "apply_kl_penalty d ctrl name =
      Inr (d', kl_update 0 (dp_len d) ctrl, \<lparr>reward_kl_penalty = 0, reward_kl_penalty_coeff = kl_coef ctrl\<rparr>)"
    using assms(3-6) kl_penalty_mat_self [OF assms(2), of lp] rewards kl d' by (simp add: apply_kl_penalty_def)
  moreover have "kl_coef (kl_update 0 (dp_len d) ctrl) = kl_coef ctrl * (1 - 1 / 5 * real (dp_len d) / kl_horizon c)"
    if "ctrl = AdaptiveKL c" for c
    using that by (simp add: adaptive_update_def clamp_def)
  ultimately show ?thesis using tensor_set_tensor(1,6) [OF d'] assms(1) by blast
qed

lemma sample_rl_wf: "wf_dp sample_rl"
  by (simp add: sample_rl_def wf_dp_def dp_len_def)

theorem kl_penalty_on_reference_witness:
  "\<exists>d'. apply_kl_penalty sample_rl (AdaptiveKL \<lparr>kl_value = 1, kl_target = 6, kl_horizon = 4\<rparr>) ''k3'' =
       Inr (d', AdaptiveKL \<lparr>kl_value = 9 / 10, kl_target = 6, kl_horizon = 4\<rparr>,
            \<lparr>reward_kl_penalty = 0, reward_kl_penalty_coeff = 1\<rparr>) \<and>
     tensor d' ''token_level_rewards'' = Inr [[0, 1], [0, 0]]"
proof -
  have "''k3'' \<in> set kl_names" by (simp add: kl_names_def)
  from kl_penalty_on_reference [OF sample_rl_wf this sample_rl_tensors(1,3,4,5),
      of "AdaptiveKL \<lparr>kl_value = 1, kl_target = 6, kl_horizon = 4\<rparr>"]
  show ?thesis by (auto simp: same_shape_def adaptive_update_def clamp_def sample_rl_tensors(8))
qed

section \<open>The order of the batch\<close>

text \<open>The statistics of a group depend only on the multiset of its scores.\<close>

lemma torch_mean_mset: "mset xs = mset ys \<Longrightarrow> torch_mean xs = torch_mean ys"
  using sum_list_map_mset [of xs ys "\<lambda>x. x"] mset_eq_length [of xs ys] by (simp add: torch_mean_def)

lemma torch_std_mset:
  assumes "mset xs = mset ys"
  shows "torch_std xs = torch_std ys"
  unfolding torch_std_def torch_mean_mset [OF assms] mset_eq_length [OF assms]
  using sum_list_map_mset [OF assms, of "\<lambda>x. (x - torch_mean ys) ^ 2"] by presburger

lemma group_stats_mset:
  assumes "mset xs = mset ys"
  shows "id2mean xs = id2mean ys" and "id2std xs = id2std ys"
  using mset_eq_length [OF assms] torch_mean_mset [OF assms] torch_std_mset [OF assms]
  by (simp_all add: id2mean_def id2std_def)

lemma mset_take_perm:
  assumes "mset idx = mset [0..<length xs]"
  shows "mset (take_rows idx xs) = mset xs"
proof -
  have "mset (take_rows idx xs) = image_mset (\<lambda>i. xs ! i) (mset idx)" by (simp add: take_rows_def)
  also have "\<dots> = mset (map (\<lambda>i. xs ! i) [0..<length xs])" unfolding assms by simp
  finally show ?thesis by (simp add: map_nth)
qed

lemma take_rows_zip:
  assumes "set idx \<subseteq> {..<length xs}" and "length xs = length ys"
  shows "zip (take_rows idx xs) (take_rows idx ys) = take_rows idx (zip xs ys)"
proof (intro nth_equalityI)
  fix i
  assume "i < length (zip (take_rows idx xs) (take_rows idx ys))"
  then have i: "i < length idx" by (simp add: take_rows_def)
  then have "idx ! i \<in> {..<length xs}" using assms(1) by (meson nth_mem subsetD)
  then have "idx ! i < length ys" using assms(2) by simp
  then show "zip (take_rows idx xs) (take_rows idx ys) ! i = take_rows idx (zip xs ys) ! i"
    using i assms(2) by (simp add: take_rows_def)
qed (simp add: take_rows_def)

lemma take_rows_map:
  "set idx \<subseteq> {..<length xs} \<Longrightarrow> take_rows idx (map f xs) = map f (take_rows idx xs)"
  by (auto simp: take_rows_def)

lemma take_rows_map2:
  assumes "set idx \<subseteq> {..<length xs}" and "length xs = length ys"
  shows "take_rows idx (map2 f xs ys) = map2 f (take_rows idx xs) (take_rows idx ys)"
proof -
  have "take_rows idx (map2 f xs ys) = map (\<lambda>(x, y). f x y) (take_rows idx (zip xs ys))"
    using assms by (intro take_rows_map) simp
  then show ?thesis using take_rows_zip [OF assms] by simp
qed

lemma collect_mset:
  assumes "mset idx = mset [0..<length scores]" and "length uids = length scores"
  shows "mset (collect (take_rows idx uids) (take_rows idx scores) k) = mset (collect uids scores k)"
proof -
  have sub: "set idx \<subseteq> {..<length uids}" using mset_upt_perm(2) [OF assms(1)] assms(2) by simp
  have z: "zip (take_rows idx uids) (take_rows idx scores) = take_rows idx (zip uids scores)"
    by (rule take_rows_zip [OF sub assms(2)])
  have "mset (take_rows idx (zip uids scores)) = mset (zip uids scores)"
    using assms by (intro mset_take_perm) simp
  then show ?thesis unfolding collect_filter z mset_map mset_filter by simp
qed

lemma grpo_permuted:
  assumes "mset idx = mset [0..<length rewards]" and "length uids = length rewards" and "length msk = length rewards"
    and "compute_grpo_outcome_advantage rewards msk uids eps by_std = Inr (adv, ret)"
  shows "compute_grpo_outcome_advantage (take_rows idx rewards) (take_rows idx msk) (take_rows idx uids) eps by_std =
     Inr (take_rows idx adv, take_rows idx ret)"
proof -
  let ?s = "outcome_scores rewards"
  let ?f = "\<lambda>S U s k. if by_std then (s - id2mean (collect U S k)) / (id2std (collect U S k) + eps)
              else s - id2mean (collect U S k)"
  have len: "length ?s = length rewards" by (simp add: outcome_scores_def)
  have sub: "set idx \<subseteq> {..<length rewards}" using mset_upt_perm(2) [OF assms(1)] by simp
  have s': "outcome_scores (take_rows idx rewards) = take_rows idx ?s"
    unfolding outcome_scores_def using sub by (intro take_rows_map [symmetric])
  have f: "?f (take_rows idx ?s) (take_rows idx uids) = ?f ?s uids"
    using group_stats_mset [OF collect_mset [of idx ?s uids]] assms(1,2) len by (intro ext) simp
  have adv: "adv = spread_scores (map2 (?f ?s uids) ?s uids) msk" "ret = adv"
    using assms(4) by (auto simp: compute_grpo_outcome_advantage_def Let_def ensure_eq_Inr)
  have "spread_scores (map2 (?f ?s uids) (take_rows idx ?s) (take_rows idx uids)) (take_rows idx msk) = take_rows idx adv"
    unfolding adv(1) spread_scores_def
    using sub len assms(2,3) by (simp add: take_rows_map2)
  then show ?thesis
    unfolding compute_grpo_outcome_advantage_def Let_def s' f adv(2) using assms(2) by simp
qed

lemma tensor_take: "tensor d k = Inr v \<Longrightarrow> tensor (dp_take idx d) k = Inr (take_rows idx v)"
  by (auto simp: tensor_def map_of_dict_map split: option.splits)

lemma uids_take: "uids_of d = Some us \<Longrightarrow> set idx \<subseteq> {..<length us} \<Longrightarrow>
    uids_of (dp_take idx d) = Some (take_rows idx us)"
  by (auto simp: uids_of_def map_of_dict_map take_rows_map)

lemma dict_map_update: "dict_map f (AList.update k v d) = AList.update k (f v) (dict_map f d)"
  by (induction d) auto

lemma set_tensor_take:
  "set_tensor k v d = Inr r \<Longrightarrow> set_tensor k (take_rows idx v) (dp_take idx d) = Inr (dp_take idx r)"
  by (auto simp: set_tensor_def ensure_eq_Inr dp_take_def td_take_def dict_map_update split: option.splits)

text \<open>
  Balancing the batch before computing the advantages is harmless. Reordering the batch by any
  permutation and computing the group-relative advantages gives the reordered result of computing them
  first: the groups are found by uid, wherever their samples are.
\<close>

theorem grpo_order_independent:
  assumes "wf_dp d" and "mset idx = mset [0..<dp_len d]" and "has_tensor d ''response_mask''"
    and "compute_advantage top1 parse_int multinomial d ''grpo'' gamma lam by_std cfg = Inr r"
  shows "compute_advantage top1 parse_int multinomial (dp_take idx d) ''grpo'' gamma lam by_std cfg = Inr (dp_take idx r)"
proof -
  have mask: "with_response_mask d = Inr d" using assms(3) by (simp add: with_response_mask_def)
  obtain msk rewards us res where t: "tensor d ''response_mask'' = Inr msk" "tensor d ''token_level_rewards'' = Inr rewards"
      "uids_of d = Some us" and res: "compute_grpo_outcome_advantage rewards msk us (1 / 10 ^ 6) by_std = Inr res"
      and r: "store_advantages res d = Inr r"
    using assms(4) unfolding compute_advantage_def mask
    by (auto simp: rbind_eq_Inr split: option.splits)
  have rows: "length v = dp_len d" if "tensor d k = Inr v" for k v
    using tensor_batch [OF that] wf_dpD(2) [OF assms(1)] map_of_SomeD by metis
  have us: "length us = dp_len d"
    using t(3) wf_dpD(4) [OF assms(1)] map_of_SomeD by (fastforce simp: uids_of_def)
  have sub: "set idx \<subseteq> {..<dp_len d}" using mset_upt_perm(2) [OF assms(2)] by simp
  obtain adv ret where ar: "res = (adv, ret)" by (cases res)
  have "compute_grpo_outcome_advantage (take_rows idx rewards) (take_rows idx msk) (take_rows idx us) (1 / 10 ^ 6) by_std =
      Inr (take_rows idx adv, take_rows idx ret)"
    using grpo_permuted [of idx rewards us msk] assms(2) rows [OF t(1)] rows [OF t(2)] us res ar by simp
  moreover have "store_advantages (take_rows idx adv, take_rows idx ret) (dp_take idx d) = Inr (dp_take idx r)"
    using r unfolding store_advantages_def ar by (auto simp: rbind_eq_Inr set_tensor_take)
  moreover have "with_response_mask (dp_take idx d) = Inr (dp_take idx d)"
    using tensor_take [OF t(1), of idx] by (auto simp: with_response_mask_def has_tensor_def tensor_def split: option.splits)
  moreover have "uids_of (dp_take idx d) = Some (take_rows idx us)" using uids_take [OF t(3)] sub us by simp
  ultimately show ?thesis
    unfolding compute_advantage_def using tensor_take [OF t(1), of idx] tensor_take [OF t(2), of idx] by simp
qed

theorem grpo_order_independent_witness:
  "\<exists>r. compute_advantage (\<lambda>_. 0) (\<lambda>_. None) (\<lambda>_ _. []) sample_rl ''grpo'' 1 1 False sample_algo = Inr r \<and>
     compute_advantage (\<lambda>_. 0) (\<lambda>_. None) (\<lambda>_ _. []) (dp_take [1, 0] sample_rl) ''grpo'' 1 1 False sample_algo =
       Inr (dp_take [1, 0] r)"
proof -
  have "\<exists>r. compute_advantage (\<lambda>_. 0) (\<lambda>_. None) (\<lambda>_ _. []) sample_rl ''grpo'' 1 1 False sample_algo = Inr r"
    by (simp add: compute_advantage_def with_response_mask_def has_tensor_def sample_rl_def tensor_def uids_of_def
        compute_grpo_outcome_advantage_def outcome_scores_def store_advantages_def set_tensor_def Let_def
        entry_text_def spread_scores_def)
  then obtain r where r: "compute_advantage (\<lambda>_. 0) (\<lambda>_. None) (\<lambda>_ _. []) sample_rl ''grpo'' 1 1 False sample_algo = Inr r" ..
  have "mset [1, 0] = mset [0..<dp_len sample_rl]" by (simp add: sample_rl_tensors(8) numeral_2_eq_2)
  moreover have "has_tensor sample_rl ''response_mask''" by (simp add: sample_rl_def has_tensor_def)
  ultimately show ?thesis using grpo_order_independent [OF sample_rl_wf _ _ r] r by blast
qed

text \<open>The vectorised GRPO ignores the setting of the trainer for the normalisation by the deviation.\<close>

lemma grpo_vectorized_ignores_setting:
  "compute_advantage top1 parse_int multinomial d ''grpo_vectorized'' gamma lam True cfg =
   compute_advantage top1 parse_int multinomial d ''grpo_vectorized'' gamma lam False cfg"
  by (simp add: compute_advantage_def)

end
