(* ===== verification/Py_Number.thy ===== *)
theory Py_Number
  imports Py_String
begin

text \<open>
  Numbers in strings: \<open>str.split\<close> at a character, and the conversion \<open>float(s)\<close> of decimal numerals with
  sign, fraction, exponent and digit-separating underscores. The names \<open>inf\<close> and \<open>nan\<close> denote no real
  number; the model rejects them.
\<close>

section \<open>Splitting\<close>

fun py_split :: "char \<Rightarrow> string \<Rightarrow> string list" where
  "py_split c [] = [[]]"
| "py_split c (x # xs) =
     (if x = c then [] # py_split c xs
      else case py_split c xs of [] \<Rightarrow> [[x]] | y # ys \<Rightarrow> (x # y) # ys)"

lemma py_split_not_Nil [simp]: "py_split c s \<noteq> []"
  by (cases s) (auto split: list.splits)

lemma py_split_join: "py_join [c] (py_split c s) = s"
proof (induction s)
  case (Cons x xs)
  have "(@) [c] = (#) c" by auto
  with Cons show ?case
    by (auto simp: py_join_def split: list.splits)
qed (simp add: py_join_def)

lemma py_split_free: "c \<notin> set s \<Longrightarrow> py_split c s = [s]"
  by (induction s) auto

lemma py_split_parts: "x \<in> set (py_split c s) \<Longrightarrow> c \<notin> set x"
  by (induction s arbitrary: x) (auto split: if_splits list.splits)

lemma py_split_append: "c \<notin> set s \<Longrightarrow> py_split c (s @ c # t) = s # py_split c t"
  by (induction s) auto

section \<open>Numerals\<close>

definition char_code :: "char \<Rightarrow> nat" where
  "char_code c = of_char c"

definition digit_of :: "char \<Rightarrow> nat option" where
  "digit_of c = (if 48 \<le> char_code c \<and> char_code c \<le> 57 then Some (char_code c - 48) else None)"

text \<open>An underscore between two digits is skipped.\<close>

definition skip_underscore :: "string \<Rightarrow> string" where
  "skip_underscore s =
     (case s of u # d # _ \<Rightarrow> if u = CHR ''_'' \<and> digit_of d \<noteq> None then tl s else s | _ \<Rightarrow> s)"

lemma skip_underscore_length: "length (skip_underscore s) \<le> length s"
  by (auto simp: skip_underscore_def split: list.splits)

text \<open>The longest run of digits at the front, and what follows it.\<close>

function digit_run :: "string \<Rightarrow> nat list \<times> string" where
  "digit_run s =
     (case s of
        [] \<Rightarrow> ([], [])
      | c # cs \<Rightarrow> (case digit_of c of
            None \<Rightarrow> ([], c # cs)
          | Some d \<Rightarrow> (case digit_run (skip_underscore cs) of (ds, r) \<Rightarrow> (d # ds, r))))"
  by pat_completeness auto
termination
  by (relation "measure length") (auto simp: le_imp_less_Suc skip_underscore_length)

declare digit_run.simps [simp del]

definition number_of :: "nat list \<Rightarrow> nat" where
  "number_of ds = foldl (\<lambda>n d. 10 * n + d) 0 ds"

text \<open>A sign at the front: the factor it stands for, and the rest.\<close>

definition read_sign :: "string \<Rightarrow> real \<times> string" where
  "read_sign s =
     (case s of c # cs \<Rightarrow> if c = CHR ''-'' then (-1, cs) else if c = CHR ''+'' then (1, cs) else (1, s)
      | [] \<Rightarrow> (1, []))"

definition read_exponent :: "string \<Rightarrow> real option" where
  "read_exponent s =
     (case s of
        [] \<Rightarrow> Some 1
      | c # cs \<Rightarrow>
          if c = CHR ''e'' \<or> c = CHR ''E'' then
            (case read_sign cs of (sg, t) \<Rightarrow> case digit_run t of (ds, r) \<Rightarrow>
               if ds \<noteq> [] \<and> r = []
               then Some (if sg < 0 then 1 / 10 ^ number_of ds else 10 ^ number_of ds) else None)
          else None)"

text \<open>
  \<open>float\<close> strips the white space of \<open>str.strip\<close>, but in a string of ASCII characters only that of C's
  \<open>isspace\<close>.
\<close>

definition float_space :: "string \<Rightarrow> char \<Rightarrow> bool" where
  "float_space s c \<longleftrightarrow> py_space c \<and> (list_all (\<lambda>x. char_code x < 128) s \<longrightarrow> char_code c \<le> 13 \<or> char_code c = 32)"

definition float_strip :: "string \<Rightarrow> string" where
  "float_strip s = rev (dropWhile (float_space s) (rev (dropWhile (float_space s) s)))"

definition py_float :: "string \<Rightarrow> real option" where
  "py_float s =
     (case read_sign (float_strip s) of (sg, t) \<Rightarrow> case digit_run t of (ds, r) \<Rightarrow>
        case (case r of c # cs \<Rightarrow> if c = CHR ''.'' then digit_run cs else ([], r) | [] \<Rightarrow> ([], [])) of (fs, r') \<Rightarrow>
          if ds @ fs = [] then None
          else map_option (\<lambda>e. sg * (real (number_of (ds @ fs)) / 10 ^ length fs) * e) (read_exponent r'))"

lemmas number_defs = py_float_def float_strip_def float_space_def read_sign_def read_exponent_def
  digit_run.simps skip_underscore_def digit_of_def char_code_def number_of_def py_space_def

lemma float_examples:
  "py_float ''0.01'' = Some (1 / 100)" "py_float '' -1_0.5e1 '' = Some (-105)"
  "py_float ''1__0'' = None" "py_float ''.'' = None" "py_float ''0.999'' = Some (999 / 1000)"
  by (simp_all add: number_defs)

end
