(* ===== verification/Rollout_Correction.thy ===== *)
theory Rollout_Correction
  imports Trainer_Steps Py_Number
begin

text \<open>
  Rollout correction, \<open>src/verl/trainer/ppo/rollout_corr_helper.py\<close>: truncated importance weights and
  hard rejection for a batch whose rollout policy differs from the training policy, the metrics both
  report, the configuration presets of \<open>src/verl/trainer/config/algorithm.py\<close> and the loss
  \<open>bypass_mode\<close> of \<open>core_algos.py\<close>. A metrics dictionary is an association list of names and values.
  The reduction over a distributed group is the parameter \<open>all_reduce\<close> (\<open>None\<close> when no group is
  initialised). A numeric threshold is turned into a string and back by the code, which gives the
  number again: \<open>RawNum\<close>.
\<close>

section \<open>Options and thresholds\<close>

datatype rs_level = TokenLevel | SeqSum | SeqMean | SeqMax

datatype rs_div = DivK1 | DivK2 | DivK3

type_synonym rs_option = "rs_level \<times> rs_div"

definition level_name :: "rs_level \<Rightarrow> string" where
  "level_name l = (case l of TokenLevel \<Rightarrow> ''token'' | SeqSum \<Rightarrow> ''seq_sum'' | SeqMean \<Rightarrow> ''seq_mean'' | SeqMax \<Rightarrow> ''seq_max'')"

definition div_name :: "rs_div \<Rightarrow> string" where
  "div_name d = (case d of DivK1 \<Rightarrow> ''k1'' | DivK2 \<Rightarrow> ''k2'' | DivK3 \<Rightarrow> ''k3'')"

definition option_name :: "rs_option \<Rightarrow> string" where
  "option_name opt = level_name (fst opt) @ ''_'' @ div_name (snd opt)"

definition supported_rs_options :: "rs_option list" where
  "supported_rs_options =
     [(TokenLevel, DivK1), (TokenLevel, DivK2), (TokenLevel, DivK3),
      (SeqSum, DivK1), (SeqSum, DivK2), (SeqSum, DivK3),
      (SeqMean, DivK1), (SeqMean, DivK2), (SeqMean, DivK3),
      (SeqMax, DivK2), (SeqMax, DivK3)]"

definition rs_option_of :: "string \<Rightarrow> rs_option option" where
  "rs_option_of s = map_of (map (\<lambda>opt. (option_name opt, opt)) supported_rs_options) s"

text \<open>The argument \<open>rollout_rs_threshold\<close> when it is not \<open>None\<close>, and one raw specification.\<close>

datatype rs_threshold = NumThreshold real | StrThreshold string | OtherThreshold

datatype raw_spec = RawNum real | RawStr string

definition raw_float :: "raw_spec \<Rightarrow> real option" where
  "raw_float spec = (case spec of RawNum r \<Rightarrow> Some r | RawStr s \<Rightarrow> py_float s)"

definition float_or_raise :: "real option \<Rightarrow> real result" where
  "float_or_raise x = (case x of None \<Rightarrow> Inl ValueError | Some r \<Rightarrow> Inr r)"

text \<open>The part of a specification before and after its first underscore.\<close>

definition spec_halves :: "raw_spec \<Rightarrow> (string \<times> string) option" where
  "spec_halves spec = (case spec of RawNum _ \<Rightarrow> None | RawStr s \<Rightarrow> split_first ''_'' s)"

text \<open>
  A \<open>k1\<close> option takes \<open>lower_upper\<close>, or one number whose reciprocal is the lower bound; the division
  happens before the checks, so the specification \<open>0\<close> ends with a \<open>ZeroDivisionError\<close>.
\<close>

definition parse_k1 :: "raw_spec \<Rightarrow> (real option \<times> real) result" where
  "parse_k1 spec =
     rbind (case spec_halves spec of
              Some (lower_str, upper_str) \<Rightarrow>
                rbind (float_or_raise (py_float lower_str)) (\<lambda>lower.
                rbind (float_or_raise (py_float upper_str)) (\<lambda>upper. Inr (lower, upper)))
            | None \<Rightarrow>
                rbind (float_or_raise (raw_float spec)) (\<lambda>upper.
                  ensure (upper \<noteq> 0) ZeroDivisionError (Inr (1 / upper, upper))))
       (\<lambda>(lower, upper). ensure (\<not> (lower \<le> 0 \<or> upper \<le> 0)) ValueError (Inr (Some lower, upper)))"

definition parse_upper :: "raw_spec \<Rightarrow> (real option \<times> real) result" where
  "parse_upper spec =
     ensure (spec_halves spec = None) ValueError
       (rbind (float_or_raise (raw_float spec)) (\<lambda>upper. ensure (\<not> upper \<le> 0) ValueError (Inr (None, upper))))"

definition parse_threshold :: "rs_option \<Rightarrow> raw_spec \<Rightarrow> (real option \<times> real) result" where
  "parse_threshold opt spec = (if snd opt = DivK1 then parse_k1 spec else parse_upper spec)"

definition raw_specs_of :: "rs_threshold \<Rightarrow> raw_spec list result" where
  "raw_specs_of spec =
     (case spec of
        NumThreshold r \<Rightarrow> Inr [RawNum r]
      | StrThreshold s \<Rightarrow> Inr (map RawStr (filter (\<lambda>p. p \<noteq> []) (map py_strip (py_split (CHR '','') s))))
      | OtherThreshold \<Rightarrow> Inl TypeError)"

definition parse_rollout_rs_thresholds ::
  "rs_option list \<Rightarrow> rs_threshold option \<Rightarrow> (rs_option \<times> real option \<times> real) list result" where
  "parse_rollout_rs_thresholds options threshold_spec =
     (case threshold_spec of
        None \<Rightarrow> Inl ValueError
      | Some spec \<Rightarrow>
          rbind (raw_specs_of spec) (\<lambda>raw_specs.
            ensure (raw_specs \<noteq> []) ValueError
             (ensure (length raw_specs = 1 \<or> length raw_specs = length options) ValueError
              (let specs = (if length raw_specs = 1 \<and> length options > 1
                            then replicate (length options) (hd raw_specs) else raw_specs)
               in mapM_result (\<lambda>(opt, sp). rbind (parse_threshold opt sp) (\<lambda>b. Inr (opt, b)))
                    (zip options specs)))))"

text \<open>The options of the comma-separated argument, each once, in the order of first occurrence.\<close>

fun first_occurrences :: "'a list \<Rightarrow> 'a list \<Rightarrow> 'a list" where
  "first_occurrences seen [] = []"
| "first_occurrences seen (x # xs) =
     (if x \<in> set seen then first_occurrences seen xs else x # first_occurrences (x # seen) xs)"

definition parse_options :: "string \<Rightarrow> rs_option list result" where
  "parse_options rollout_rs =
     (let option_modes = filter (\<lambda>p. p \<noteq> []) (map py_strip (py_split (CHR '','') rollout_rs))
      in ensure (option_modes \<noteq> []) ValueError
           (rbind (mapM_result (\<lambda>opt. case rs_option_of opt of None \<Rightarrow> Inl ValueError | Some x \<Rightarrow> Inr x) option_modes)
              (\<lambda>opts. Inr (first_occurrences [] opts))))"

section \<open>Statistics\<close>

definition safety_bound :: real where
  "safety_bound = 20"

definition token_stat :: "rs_div \<Rightarrow> real \<Rightarrow> real" where
  "token_stat d log_ratio =
     (let l = clamp (- safety_bound) safety_bound log_ratio
      in case d of DivK1 \<Rightarrow> - l | DivK2 \<Rightarrow> 1 / 2 * l ^ 2 | DivK3 \<Rightarrow> exp l - 1 - l)"

definition row_selected :: "vec \<Rightarrow> vec \<Rightarrow> vec" where
  "row_selected vs ms = map fst (filter (\<lambda>(v, x). x \<noteq> 0) (zip vs ms))"

definition row_masked_max :: "vec \<Rightarrow> vec \<Rightarrow> real" where
  "row_masked_max vs ms = (case row_selected vs ms of [] \<Rightarrow> 0 | x # xs \<Rightarrow> Max (set (x # xs)))"

definition row_stat :: "rs_level \<Rightarrow> vec \<Rightarrow> vec \<Rightarrow> real" where
  "row_stat l = (case l of SeqSum \<Rightarrow> row_masked_sum | SeqMean \<Rightarrow> row_masked_mean | _ \<Rightarrow> row_masked_max)"

text \<open>The statistic at every token, and per sequence for the sequence levels.\<close>

definition option_stat :: "rs_option \<Rightarrow> mat \<Rightarrow> mat \<Rightarrow> mat \<times> vec option" where
  "option_stat opt log_ratio response_mask =
     (let token = map_mat (token_stat (snd opt)) log_ratio
      in if fst opt = TokenLevel then (token, None)
         else (let seq = map2 (row_stat (fst opt)) token response_mask
               in (map2 (\<lambda>v row. replicate (length row) v) seq response_mask, Some seq)))"

text \<open>The bounds of an option: of the logarithm of the ratio for \<open>k1\<close>, of the statistic otherwise.\<close>

definition option_bounds :: "rs_div \<Rightarrow> real option \<times> real \<Rightarrow> (real option \<times> real) result" where
  "option_bounds d thr =
     (if d = DivK1
      then (case fst thr of None \<Rightarrow> Inl ValueError | Some lower \<Rightarrow> Inr (Some (ln lower), ln (snd thr)))
      else Inr (None, snd thr))"

definition in_bounds :: "real option \<times> real \<Rightarrow> real \<Rightarrow> bool" where
  "in_bounds b x = ((case fst b of None \<Rightarrow> True | Some lo \<Rightarrow> lo \<le> x) \<and> x \<le> snd b)"

section \<open>Metrics\<close>

type_synonym metrics = "real dict"

definition dict_update :: "'v dict \<Rightarrow> 'v dict \<Rightarrow> 'v dict" where
  "dict_update d e = foldl (\<lambda>m (k, v). AList.update k v m) d e"

definition any_token :: "mat \<Rightarrow> bool" where
  "any_token response_mask \<longleftrightarrow> (\<exists>row\<in>set response_mask. \<exists>x\<in>set row. x \<noteq> 0)"

definition seq_valid :: "mat \<Rightarrow> bool list" where
  "seq_valid response_mask = map (\<lambda>row. sum_list row > 0) response_mask"

definition pick_valid :: "vec \<Rightarrow> bool list \<Rightarrow> vec" where
  "pick_valid xs bs = map fst (filter snd (zip xs bs))"

definition selected :: "mat \<Rightarrow> mat \<Rightarrow> vec" where
  "selected values msk = concat (map2 row_selected values msk)"

definition fraction :: "(real \<Rightarrow> bool) \<Rightarrow> vec \<Rightarrow> real" where
  "fraction P xs = vec_mean (map (\<lambda>x. indicator_of (P x)) xs)"

definition masked_fraction :: "(real \<Rightarrow> bool) \<Rightarrow> mat \<Rightarrow> mat \<Rightarrow> real" where
  "masked_fraction P values msk = masked_mean (map_mat (\<lambda>x. indicator_of (P x)) values) msk"

definition clamped_std :: "real \<Rightarrow> real \<Rightarrow> mat \<Rightarrow> mat \<Rightarrow> real" where
  "clamped_std lo hi values msk =
     (if mat_sum msk > 1
      then (let c = map_mat (clamp lo hi) values
            in sqrt (max (masked_mean (map_mat (\<lambda>x. x ^ 2) c) msk - masked_mean c msk ^ 2) 0))
      else 0)"

definition std_or_zero :: "vec \<Rightarrow> real" where
  "std_or_zero xs = (if length xs > 1 then torch_std xs else 0)"

definition rs_seq_metrics :: "string \<Rightarrow> vec \<Rightarrow> real option \<times> real \<Rightarrow> metrics" where
  "rs_seq_metrics pre seq_values_valid b =
     (if seq_values_valid \<noteq> []
      then [(pre @ ''_seq_mean'', vec_mean seq_values_valid),
            (pre @ ''_seq_std'', std_or_zero seq_values_valid),
            (pre @ ''_seq_max'', Max (set seq_values_valid)),
            (pre @ ''_seq_min'', Min (set seq_values_valid)),
            (pre @ ''_seq_max_deviation'', Max (set (map abs seq_values_valid))),
            (pre @ ''_seq_fraction_high'', fraction (\<lambda>x. x > snd b) seq_values_valid)] @
           (case fst b of None \<Rightarrow> []
            | Some lo \<Rightarrow> [(pre @ ''_seq_fraction_low'', fraction (\<lambda>x. x < lo) seq_values_valid)])
      else map (\<lambda>k. (pre @ k, 0)) [''_seq_mean'', ''_seq_std'', ''_seq_max'', ''_seq_min'',
             ''_seq_max_deviation'', ''_seq_fraction_high'', ''_seq_fraction_low''])"

text \<open>A lower bound is present exactly when \<open>apply_lower_threshold\<close> holds.\<close>

definition compute_rs_metrics ::
  "rs_option \<Rightarrow> mat \<Rightarrow> mat \<Rightarrow> vec option \<Rightarrow> real option \<times> real \<Rightarrow> metrics result" where
  "compute_rs_metrics opt rs_statistic response_mask per_sequence_values b =
     ensure (any_token response_mask) ValueError
      (let pre = ''rollout_rs_'' @ option_name opt;
           seq_values = (case per_sequence_values of Some s \<Rightarrow> s
                         | None \<Rightarrow> map2 row_masked_mean rs_statistic response_mask);
           seq_values_valid = pick_valid seq_values (seq_valid response_mask);
           by_seq = (fst opt \<noteq> TokenLevel \<and> seq_values_valid \<noteq> []);
           entries = (if by_seq then seq_values_valid else selected rs_statistic response_mask);
           part = (\<lambda>P. if by_seq then fraction P seq_values_valid
                       else masked_fraction P rs_statistic response_mask)
       in Inr ([(pre @ ''_mean'', masked_mean rs_statistic response_mask),
                (pre @ ''_max'', Max (set entries)),
                (pre @ ''_min'', Min (set entries)),
                (pre @ ''_fraction_high'', part (\<lambda>x. x > snd b)),
                (pre @ ''_fraction_low'', case fst b of None \<Rightarrow> 0 | Some lo \<Rightarrow> part (\<lambda>x. x < lo)),
                (pre @ ''_std'', clamped_std (default_to 0 (fst b)) (snd b) rs_statistic response_mask)] @
               rs_seq_metrics pre seq_values_valid b))"

section \<open>Rejection\<close>

definition keep_matrix :: "real option \<times> real \<Rightarrow> mat \<Rightarrow> mat" where
  "keep_matrix b stat = map_mat (\<lambda>x. indicator_of (in_bounds b x)) stat"

text \<open>A sequence is kept when no valid token of it is rejected.\<close>

definition seq_kept :: "mat \<Rightarrow> mat \<Rightarrow> bool list" where
  "seq_kept keep response_mask = map2 (\<lambda>ks ms. list_all (\<lambda>(k, x). k \<noteq> 0 \<or> x = 0) (zip ks ms)) keep response_mask"

definition seq_masked_fraction :: "mat \<Rightarrow> mat \<Rightarrow> real" where
  "seq_masked_fraction keep response_mask =
     (let seq_valid_float = map indicator_of (seq_valid response_mask)
      in if sum_list seq_valid_float > 0
         then sum_list (map2 (\<lambda>k v. (1 - indicator_of k) * v) (seq_kept keep response_mask) seq_valid_float)
              / sum_list seq_valid_float
         else 0)"

definition rs_step ::
  "mat \<Rightarrow> mat \<Rightarrow> rs_option \<times> real option \<times> real \<Rightarrow> mat \<times> metrics \<Rightarrow> (mat \<times> metrics) result" where
  "rs_step log_ratio response_mask ot st =
     (case ot of (opt, thr) \<Rightarrow> case st of (combined_mask, ms) \<Rightarrow>
        rbind (option_bounds (snd opt) thr) (\<lambda>b.
        case option_stat opt log_ratio response_mask of (stat, per_seq) \<Rightarrow>
          (let keep = keep_matrix b stat;
               pre = ''rollout_rs_'' @ option_name opt
           in rbind (compute_rs_metrics opt stat response_mask per_seq b) (\<lambda>om.
                Inr (ew2 (*) combined_mask keep,
                     dict_update (dict_update ms om)
                       [(pre @ ''_masked_fraction'', masked_mean (map_mat (\<lambda>k. 1 - k) keep) response_mask),
                        (pre @ ''_seq_masked_fraction'', seq_masked_fraction keep response_mask)])))))"

fun rs_loop ::
  "mat \<Rightarrow> mat \<Rightarrow> (rs_option \<times> real option \<times> real) list \<Rightarrow> mat \<times> metrics \<Rightarrow> (mat \<times> metrics) result" where
  "rs_loop log_ratio response_mask [] st = Inr st"
| "rs_loop log_ratio response_mask (ot # ots) st =
     rbind (rs_step log_ratio response_mask ot st) (rs_loop log_ratio response_mask ots)"

definition compute_rollout_rejection_mask ::
  "mat \<Rightarrow> mat \<Rightarrow> string option \<Rightarrow> rs_threshold option \<Rightarrow> (mat \<times> metrics) result" where
  "compute_rollout_rejection_mask log_ratio response_mask rollout_rs rollout_rs_threshold =
     (case rollout_rs of
        None \<Rightarrow> Inl ValueError
      | Some rs \<Rightarrow>
          ensure (rollout_rs_threshold \<noteq> None) ValueError
           (if length log_ratio = 0 then Inr (response_mask, [])
            else rbind (parse_options rs) (\<lambda>options.
                 rbind (parse_rollout_rs_thresholds options rollout_rs_threshold) (\<lambda>specs.
                 rbind (rs_loop log_ratio response_mask specs (map_mat (\<lambda>_. 1) response_mask, []))
                   (\<lambda>(final_mask, ms).
                     (let kept = ew2 (\<lambda>f x. indicator_of (f > 1 / 2 \<and> x \<noteq> 0)) final_mask response_mask
                      in Inr (ew2 (*) response_mask final_mask,
                           dict_update ms
                             [(''rollout_rs_masked_fraction'', masked_mean (map_mat (\<lambda>f. 1 - f) final_mask) response_mask),
                              (''rollout_rs_seq_masked_fraction'',
                                 vec_mean (map (\<lambda>k. indicator_of (\<not> k)) (seq_kept kept response_mask)))])))))))"

section \<open>Importance weights\<close>

text \<open>
  The metrics of the weights, which the code computes before it truncates them. The division of Python
  numbers raises; a mean of squares of tensors is never zero when a token is valid.
\<close>

definition is_level_metrics :: "mat \<Rightarrow> mat \<Rightarrow> mat \<Rightarrow> string \<Rightarrow> real \<Rightarrow> metrics" where
  "is_level_metrics weights log_ratio_for_metrics response_mask rollout_is threshold =
     (let lower = 1 / threshold
      in if rollout_is = ''sequence''
         then (let ratios = concat log_ratio_for_metrics
               in [(''rollout_is_max'', exp (min (Max (set ratios)) safety_bound)),
                   (''rollout_is_min'', exp (Min (set ratios))),
                   (''rollout_is_mean'', masked_mean weights response_mask),
                   (''rollout_is_ratio_fraction_high'', fraction (\<lambda>x. x > ln threshold) ratios),
                   (''rollout_is_ratio_fraction_low'', fraction (\<lambda>x. x < ln lower) ratios)])
         else [(''rollout_is_mean'', masked_mean weights response_mask),
               (''rollout_is_ratio_fraction_high'', masked_fraction (\<lambda>x. x > threshold) weights response_mask),
               (''rollout_is_ratio_fraction_low'', masked_fraction (\<lambda>x. x < lower) weights response_mask),
               (''rollout_is_max'', Max (set (selected weights response_mask))),
               (''rollout_is_min'', Min (set (selected weights response_mask)))])"

definition mean_square_normalised :: "real \<Rightarrow> mat \<Rightarrow> mat \<Rightarrow> real" where
  "mean_square_normalised threshold weights response_mask =
     (let for_ess = map_mat (clamp (1 / threshold) threshold) weights;
          mean_for_ess = masked_mean for_ess response_mask
      in masked_mean (map_mat (\<lambda>w. (w / (mean_for_ess + 1 / 10 ^ 8)) ^ 2) for_ess) response_mask)"

definition is_seq_metrics :: "real \<Rightarrow> mat \<Rightarrow> mat \<Rightarrow> metrics" where
  "is_seq_metrics threshold weights response_mask =
     (let seq_mean_weights = map2 row_masked_mean weights response_mask
      in [(''rollout_is_seq_mean'', vec_mean seq_mean_weights),
          (''rollout_is_seq_std'', std_or_zero seq_mean_weights),
          (''rollout_is_seq_max'', Max (set seq_mean_weights)),
          (''rollout_is_seq_min'', Min (set seq_mean_weights)),
          (''rollout_is_seq_max_deviation'', Max (set (map (\<lambda>x. \<bar>x - 1\<bar>) seq_mean_weights))),
          (''rollout_is_seq_fraction_high'', fraction (\<lambda>x. x > threshold) seq_mean_weights),
          (''rollout_is_seq_fraction_low'', fraction (\<lambda>x. x < 1 / threshold) seq_mean_weights)])"

definition compute_is_metrics :: "mat \<Rightarrow> mat \<Rightarrow> mat \<Rightarrow> string \<Rightarrow> real \<Rightarrow> metrics result" where
  "compute_is_metrics weights log_ratio_for_metrics response_mask rollout_is threshold =
     ensure (any_token response_mask) ValueError
      (ensure (threshold \<noteq> 0) ZeroDivisionError
       (let mean_square = mean_square_normalised threshold weights response_mask
        in ensure (mean_square \<noteq> 0) ZeroDivisionError
         (Inr (is_level_metrics weights log_ratio_for_metrics response_mask rollout_is threshold @
               [(''rollout_is_std'', clamped_std (1 / threshold) threshold weights response_mask),
                (''rollout_is_eff_sample_size'', 1 / mean_square)] @
               is_seq_metrics threshold weights response_mask))))"

text \<open>\<open>distributed_masked_mean\<close>: the sum and the count are reduced over the group.\<close>

type_synonym group_reduce = "real \<times> real \<Rightarrow> real \<times> real"

definition distributed_masked_mean :: "group_reduce \<Rightarrow> mat \<Rightarrow> mat \<Rightarrow> real" where
  "distributed_masked_mean all_reduce local_tensor local_mask =
     (case all_reduce (mat_sum (ew2 (*) local_tensor local_mask), mat_sum local_mask) of (s, n) \<Rightarrow> s / n)"

text \<open>The mean the batch normalisation divides by: over tokens, or over sequences with a valid token.\<close>

definition weights_mean :: "group_reduce option \<Rightarrow> string \<Rightarrow> mat \<Rightarrow> mat \<Rightarrow> real" where
  "weights_mean all_reduce rollout_is weights response_mask =
     (if rollout_is = ''token''
      then (case all_reduce of
              Some r \<Rightarrow> distributed_masked_mean r weights response_mask
            | None \<Rightarrow> masked_mean weights response_mask)
      else (let seq_weights = map2 row_masked_mean weights response_mask;
                seq_mask = map indicator_of (seq_valid response_mask)
            in case all_reduce of
                 Some r \<Rightarrow> distributed_masked_mean r [seq_weights] [seq_mask]
               | None \<Rightarrow> sum_list (map2 (*) seq_weights seq_mask) / max (sum_list seq_mask) (1 / 10 ^ 8)))"

definition safe_exp :: "real \<Rightarrow> real" where
  "safe_exp x = exp (clamp (- safety_bound) safety_bound x)"

text \<open>The weights before truncation, and the log-ratios the metrics use.\<close>

definition raw_weights :: "string \<Rightarrow> mat \<Rightarrow> mat \<Rightarrow> mat \<times> mat" where
  "raw_weights rollout_is log_ratio response_mask =
     (if rollout_is = ''token''
      then (ew2 (*) (map_mat safe_exp log_ratio) response_mask, log_ratio)
      else (let log_ratio_sum = map2 row_masked_sum log_ratio response_mask
            in (map2 (\<lambda>s row. map (\<lambda>x. safe_exp s * x) row) log_ratio_sum response_mask,
                map (\<lambda>s. [s]) log_ratio_sum)))"

definition compute_rollout_correction_weights ::
  "group_reduce option \<Rightarrow> mat \<Rightarrow> mat \<Rightarrow> string \<Rightarrow> real \<Rightarrow> bool \<Rightarrow> (mat \<times> metrics) result" where
  "compute_rollout_correction_weights all_reduce log_ratio response_mask rollout_is threshold batch_normalize =
     ensure (rollout_is \<in> {''token'', ''sequence''}) ValueError
      (ensure (\<not> threshold \<le> 0) ValueError
       (case raw_weights rollout_is log_ratio response_mask of (raw, for_metrics) \<Rightarrow>
         rbind (compute_is_metrics raw for_metrics response_mask rollout_is threshold) (\<lambda>ms.
           (let weights = map_mat (\<lambda>w. min w threshold) raw
            in if batch_normalize
               then (let wm = weights_mean all_reduce rollout_is weights response_mask
                     in if wm > 1 / 10 ^ 8
                        then Inr (map_mat (\<lambda>w. w / wm) weights,
                                  dict_update ms [(''rollout_is_batch_norm_factor'', wm)])
                        else Inr (weights, dict_update ms [(''rollout_is_batch_norm_factor'', 1)]))
               else Inr (weights, ms)))))"

section \<open>Off-policy metrics\<close>

definition row_means :: "mat \<Rightarrow> mat \<Rightarrow> vec" where
  "row_means values msk = map2 row_masked_mean values msk"

definition gap_metrics :: "mat \<Rightarrow> mat \<Rightarrow> mat \<Rightarrow> metrics" where
  "gap_metrics old_log_prob rollout_log_prob response_mask =
     (let log_ratio = ew2 (-) old_log_prob rollout_log_prob;
          training = row_means old_log_prob response_mask;
          rollout = row_means rollout_log_prob response_mask;
          log_ppl_diff = map2 (-) rollout training;
          log_ratio_sum = map2 row_masked_sum log_ratio response_mask
      in [(''kl'', masked_mean (ew2 (-) rollout_log_prob old_log_prob) response_mask),
          (''k3_kl'', masked_mean (map_mat (\<lambda>l. exp l - l - 1) log_ratio) response_mask),
          (''rollout_ppl'', vec_mean (map (\<lambda>x. exp (- x)) rollout)),
          (''rollout_log_ppl'', vec_mean (map uminus rollout)),
          (''log_ppl_diff'', vec_mean log_ppl_diff),
          (''log_ppl_abs_diff'', vec_mean (map abs log_ppl_diff)),
          (''log_ppl_diff_max'', Max (set log_ppl_diff)),
          (''log_ppl_diff_min'', Min (set log_ppl_diff)),
          (''ppl_ratio'', vec_mean (map exp log_ppl_diff)),
          (''chi2_token'', masked_mean (map_mat (\<lambda>l. safe_exp l ^ 2) log_ratio) response_mask - 1),
          (''chi2_seq'', vec_mean (map (\<lambda>s. exp (2 * clamp (- safety_bound) safety_bound s)) log_ratio_sum) - 1)])"

definition compute_offpolicy_metrics :: "mat \<Rightarrow> mat option \<Rightarrow> mat \<Rightarrow> metrics result" where
  "compute_offpolicy_metrics old_log_prob rollout_log_prob response_mask =
     ensure (any_token response_mask) AssertionError
      (let training = row_means old_log_prob response_mask
       in Inr ([(''training_ppl'', vec_mean (map (\<lambda>x. exp (- x)) training)),
                (''training_log_ppl'', vec_mean (map uminus training))] @
               (case rollout_log_prob of None \<Rightarrow> []
                | Some r \<Rightarrow> gap_metrics old_log_prob r response_mask)))"

definition with_prefix :: "metrics \<Rightarrow> metrics" where
  "with_prefix ms = map (\<lambda>(k, v). (''rollout_corr/'' @ k, v)) ms"

definition compute_rollout_corr_metrics_from_logprobs :: "mat \<Rightarrow> mat \<Rightarrow> mat \<Rightarrow> metrics result" where
  "compute_rollout_corr_metrics_from_logprobs log_prob rollout_log_prob response_mask =
     rbind (compute_offpolicy_metrics log_prob (Some rollout_log_prob) response_mask) (\<lambda>ms. Inr (with_prefix ms))"

section \<open>The unified interface\<close>

text \<open>The weights as the code wraps them: a container with the one tensor \<open>rollout_is_weights\<close>.\<close>

definition weights_proto :: "mat option \<Rightarrow> 'm rl_data option result" where
  "weights_proto weights =
     (case weights of
        None \<Rightarrow> Inr None
      | Some w \<Rightarrow> rbind (from_dict [(''rollout_is_weights'', w)] [] [] False) (\<lambda>d. Inr (Some d)))"

definition optional_weights ::
  "group_reduce option \<Rightarrow> mat \<Rightarrow> mat \<Rightarrow> string option \<Rightarrow> real option \<Rightarrow> bool \<Rightarrow> (mat option \<times> metrics) result" where
  "optional_weights all_reduce log_ratio response_mask rollout_is threshold batch_normalize =
     (case (rollout_is, threshold) of
        (Some level, Some thr) \<Rightarrow>
          rbind (compute_rollout_correction_weights all_reduce log_ratio response_mask level thr batch_normalize)
            (\<lambda>(w, ms). Inr (Some w, ms))
      | _ \<Rightarrow> Inr (None, []))"

definition optional_rejection ::
  "mat \<Rightarrow> mat \<Rightarrow> string option \<Rightarrow> rs_threshold option \<Rightarrow> (mat \<times> metrics) result" where
  "optional_rejection log_ratio response_mask rollout_rs rs_threshold =
     (if rollout_rs = None then Inr (response_mask, [])
      else ensure (rs_threshold \<noteq> None) ValueError
             (compute_rollout_rejection_mask log_ratio response_mask rollout_rs rs_threshold))"

record rollout_corr_config =
  rollout_is :: "string option"
  rollout_is_threshold :: "real option"
  rollout_is_batch_normalize :: bool
  rollout_rs :: "string option"
  rollout_rs_threshold :: "rs_threshold option"
  bypass_mode :: bool
  loss_type :: string

definition compute_rollout_correction_and_rejection_mask ::
  "group_reduce option \<Rightarrow> mat \<Rightarrow> mat \<Rightarrow> mat \<Rightarrow> rollout_corr_config \<Rightarrow>
   ('m rl_data option \<times> mat \<times> metrics) result" where
  "compute_rollout_correction_and_rejection_mask all_reduce old_log_prob rollout_log_prob response_mask cfg =
     ensure (any_token response_mask) ValueError
      (ensure (same_shape old_log_prob rollout_log_prob) ValueError
       (ensure (same_shape old_log_prob response_mask) ValueError
        (let log_ratio = ew2 (-) old_log_prob rollout_log_prob
         in rbind (optional_weights all_reduce log_ratio response_mask (rollout_is cfg)
                     (rollout_is_threshold cfg) (rollout_is_batch_normalize cfg)) (\<lambda>(weights, is_ms).
            rbind (optional_rejection log_ratio response_mask (rollout_rs cfg) (rollout_rs_threshold cfg))
              (\<lambda>(modified_response_mask, rs_ms).
            rbind (compute_offpolicy_metrics old_log_prob (Some rollout_log_prob) response_mask) (\<lambda>off_ms.
            rbind (weights_proto weights) (\<lambda>proto.
              Inr (proto, modified_response_mask,
                   with_prefix (dict_update (dict_update (dict_update [] is_ms) rs_ms) off_ms)))))))))"

section \<open>The trainer's side\<close>

definition compute_rollout_correction_and_add_to_batch ::
  "group_reduce option \<Rightarrow> 'm rl_data \<Rightarrow> rollout_corr_config \<Rightarrow> ('m rl_data \<times> metrics) result" where
  "compute_rollout_correction_and_add_to_batch all_reduce d cfg =
     rbind (tensor d ''old_log_probs'') (\<lambda>old_log_prob.
     rbind (tensor d ''rollout_log_probs'') (\<lambda>rollout_log_prob.
     rbind (tensor d ''response_mask'') (\<lambda>response_mask.
     rbind (compute_rollout_correction_and_rejection_mask all_reduce old_log_prob rollout_log_prob
              response_mask cfg) (\<lambda>(proto, modified_response_mask, ms).
     rbind (set_tensor ''response_mask'' modified_response_mask d) (\<lambda>d'.
     rbind (case proto of None \<Rightarrow> Inr d' | Some w \<Rightarrow> dp_union d' w) (\<lambda>d''.
       Inr (d'', ms)))))))"

text \<open>The two fields of \<open>PolicyLossConfig\<close> that the bypass mode sets.\<close>

record policy_loss_config =
  loss_mode :: string
  rollout_correction :: "rollout_corr_config option"

definition apply_bypass_mode ::
  "'m rl_data \<Rightarrow> rollout_corr_config option \<Rightarrow> policy_loss_config \<Rightarrow> ('m rl_data \<times> policy_loss_config) result" where
  "apply_bypass_mode d rollout_corr policy_loss =
     ensure (batch d \<noteq> None) TypeError
      (ensure (has_tensor d ''rollout_log_probs'') ValueError
       (rbind (tensor d ''rollout_log_probs'') (\<lambda>rollout_log_probs.
        rbind (set_tensor ''old_log_probs'' rollout_log_probs d) (\<lambda>d'.
          Inr (d', policy_loss\<lparr>rollout_correction := rollout_corr, loss_mode := ''bypass_mode''\<rparr>)))))"

text \<open>The trainer in decoupled mode: the correction runs once per batch when the rollout gave log-probabilities.\<close>

definition decoupled_correction ::
  "group_reduce option \<Rightarrow> rollout_corr_config option \<Rightarrow> 'm rl_data \<Rightarrow> ('m rl_data \<times> metrics) result" where
  "decoupled_correction all_reduce rollout_corr d =
     (case rollout_corr of
        Some cfg \<Rightarrow>
          (if has_tensor d ''rollout_log_probs'' \<and> \<not> bypass_mode cfg
           then compute_rollout_correction_and_add_to_batch all_reduce d cfg else Inr (d, []))
      | None \<Rightarrow> Inr (d, []))"

section \<open>The loss of the bypass mode\<close>

definition vanilla_metrics :: "pg_metrics \<Rightarrow> metrics" where
  "vanilla_metrics p =
     [(''actor/pg_clipfrac'', pg_clipfrac p), (''actor/ppo_kl'', ppo_kl p),
      (''actor/pg_clipfrac_lower'', pg_clipfrac_lower p)]"

text \<open>
  \<open>rollout_corr\<close> is \<open>config.policy_loss.get("rollout_correction", None)\<close>. A container of no rows is
  falsy, so its weights are not used.
\<close>

definition computed_weights :: "'m rl_data option \<Rightarrow> mat option result" where
  "computed_weights proto =
     (case proto of
        None \<Rightarrow> Inr None
      | Some d \<Rightarrow> (if dp_len d = 0 then Inr None
                   else rbind (tensor d ''rollout_is_weights'') (\<lambda>w. Inr (Some w))))"

definition compute_policy_loss_bypass_mode ::
  "group_reduce option \<Rightarrow> rollout_corr_config option \<Rightarrow> mat \<Rightarrow> mat \<Rightarrow> mat \<Rightarrow> mat \<Rightarrow> string \<Rightarrow>
   actor_config option \<Rightarrow> (real \<times> metrics) result" where
  "compute_policy_loss_bypass_mode all_reduce rollout_corr old_log_prob log_prob advantages response_mask
       loss_agg_mode config =
     ensure (config \<noteq> None) AssertionError
      (case rollout_corr of
         None \<Rightarrow> Inl ValueError
       | Some cfg \<Rightarrow>
           rbind (compute_rollout_correction_and_rejection_mask all_reduce log_prob old_log_prob response_mask cfg
                    :: (unit rl_data option \<times> mat \<times> metrics) result)
             (\<lambda>(proto, effective_mask, rollout_metrics).
           rbind (computed_weights proto) (\<lambda>weights.
             if loss_type cfg = ''reinforce''
             then rbind (compute_policy_loss_reinforce old_log_prob log_prob advantages effective_mask
                           loss_agg_mode config weights) (\<lambda>(pg_loss, kl).
                    Inr (pg_loss, dict_update [(''actor/ppo_kl'', kl)] rollout_metrics))
             else if loss_type cfg = ''ppo_clip''
             then rbind (compute_policy_loss_vanilla old_log_prob log_prob advantages effective_mask
                           loss_agg_mode config None) (\<lambda>(pg_loss, pm).
                    Inr (pg_loss, dict_update (vanilla_metrics pm) rollout_metrics))
             else Inl ValueError)))"

section \<open>Presets\<close>

text \<open>The defaults of \<open>RolloutCorrectionConfig\<close>, and its factory methods. The arguments have the stated defaults.\<close>

definition default_rollout_corr :: rollout_corr_config where
  "default_rollout_corr =
     \<lparr>rollout_is = Some ''sequence'', rollout_is_threshold = Some 2, rollout_is_batch_normalize = False,
      rollout_rs = None, rollout_rs_threshold = None, bypass_mode = False, loss_type = ''ppo_clip''\<rparr>"

definition decoupled_token_is :: "real \<Rightarrow> rollout_corr_config" where
  "decoupled_token_is thr = default_rollout_corr
     \<lparr>rollout_is := Some ''token'', rollout_is_threshold := Some thr, rollout_rs := None\<rparr>"

definition decoupled_seq_is :: "real \<Rightarrow> rollout_corr_config" where
  "decoupled_seq_is thr = default_rollout_corr
     \<lparr>rollout_is := Some ''sequence'', rollout_is_threshold := Some thr, rollout_rs := None\<rparr>"

definition decoupled_seq_is_rs :: "real \<Rightarrow> rs_threshold option \<Rightarrow> rollout_corr_config" where
  "decoupled_seq_is_rs thr rs = default_rollout_corr
     \<lparr>rollout_is := Some ''sequence'', rollout_is_threshold := Some thr, rollout_rs := Some ''seq_sum_k1'', rollout_rs_threshold := rs\<rparr>"

definition decoupled_geo_rs :: "rs_threshold option \<Rightarrow> rollout_corr_config" where
  "decoupled_geo_rs rs = default_rollout_corr
     \<lparr>rollout_is := None, rollout_rs := Some ''seq_mean_k1'', rollout_rs_threshold := rs\<rparr>"

definition bypass_ppo_clip :: "rollout_corr_config" where
  "bypass_ppo_clip = default_rollout_corr
     \<lparr>rollout_is := None, rollout_rs := None, bypass_mode := True, loss_type := ''ppo_clip''\<rparr>"

definition bypass_ppo_clip_geo_rs :: "rs_threshold option \<Rightarrow> rollout_corr_config" where
  "bypass_ppo_clip_geo_rs rs = default_rollout_corr
     \<lparr>rollout_is := None, rollout_rs := Some ''seq_mean_k1'', rollout_rs_threshold := rs, bypass_mode := True, loss_type := ''ppo_clip''\<rparr>"

definition bypass_ppo_clip_k3_rs :: "rs_threshold option \<Rightarrow> rollout_corr_config" where
  "bypass_ppo_clip_k3_rs rs = default_rollout_corr
     \<lparr>rollout_is := None, rollout_rs := Some ''seq_mean_k3'', rollout_rs_threshold := rs, bypass_mode := True, loss_type := ''ppo_clip''\<rparr>"

definition bypass_pg_is :: "real \<Rightarrow> rollout_corr_config" where
  "bypass_pg_is thr = default_rollout_corr
     \<lparr>rollout_is := Some ''sequence'', rollout_is_threshold := Some thr, rollout_rs := None, bypass_mode := True, loss_type := ''reinforce''\<rparr>"

definition bypass_pg_geo_rs :: "rs_threshold option \<Rightarrow> rollout_corr_config" where
  "bypass_pg_geo_rs rs = default_rollout_corr
     \<lparr>rollout_is := None, rollout_rs := Some ''seq_mean_k1'', rollout_rs_threshold := rs, bypass_mode := True, loss_type := ''reinforce''\<rparr>"

definition decoupled_geo_rs_seq_tis :: "real \<Rightarrow> rs_threshold option \<Rightarrow> rollout_corr_config" where
  "decoupled_geo_rs_seq_tis thr rs = default_rollout_corr
     \<lparr>rollout_is := Some ''sequence'', rollout_is_threshold := Some thr, rollout_rs := Some ''seq_mean_k1'', rollout_rs_threshold := rs\<rparr>"

definition decoupled_geo_rs_token_tis :: "real \<Rightarrow> rs_threshold option \<Rightarrow> rollout_corr_config" where
  "decoupled_geo_rs_token_tis thr rs = default_rollout_corr
     \<lparr>rollout_is := Some ''token'', rollout_is_threshold := Some thr, rollout_rs := Some ''seq_mean_k1'', rollout_rs_threshold := rs\<rparr>"

definition bypass_pg_geo_rs_seq_tis :: "real \<Rightarrow> rs_threshold option \<Rightarrow> rollout_corr_config" where
  "bypass_pg_geo_rs_seq_tis thr rs = default_rollout_corr
     \<lparr>rollout_is := Some ''sequence'', rollout_is_threshold := Some thr, rollout_rs := Some ''seq_mean_k1'', rollout_rs_threshold := rs, bypass_mode := True, loss_type := ''reinforce''\<rparr>"

definition bypass_pg_geo_rs_token_tis :: "real \<Rightarrow> rs_threshold option \<Rightarrow> rollout_corr_config" where
  "bypass_pg_geo_rs_token_tis thr rs = default_rollout_corr
     \<lparr>rollout_is := Some ''token'', rollout_is_threshold := Some thr, rollout_rs := Some ''seq_mean_k1'', rollout_rs_threshold := rs, bypass_mode := True, loss_type := ''reinforce''\<rparr>"

definition decoupled_k3_rs :: "rs_threshold option \<Rightarrow> rollout_corr_config" where
  "decoupled_k3_rs rs = default_rollout_corr
     \<lparr>rollout_is := None, rollout_rs := Some ''seq_mean_k3'', rollout_rs_threshold := rs\<rparr>"

definition decoupled_k3_rs_seq_tis :: "real \<Rightarrow> rs_threshold option \<Rightarrow> rollout_corr_config" where
  "decoupled_k3_rs_seq_tis thr rs = default_rollout_corr
     \<lparr>rollout_is := Some ''sequence'', rollout_is_threshold := Some thr, rollout_rs := Some ''seq_mean_k3'', rollout_rs_threshold := rs\<rparr>"

definition decoupled_k3_rs_token_tis :: "real \<Rightarrow> rs_threshold option \<Rightarrow> rollout_corr_config" where
  "decoupled_k3_rs_token_tis thr rs = default_rollout_corr
     \<lparr>rollout_is := Some ''token'', rollout_is_threshold := Some thr, rollout_rs := Some ''seq_mean_k3'', rollout_rs_threshold := rs\<rparr>"

definition disabled :: "rollout_corr_config" where
  "disabled = default_rollout_corr
     \<lparr>rollout_is := None, rollout_rs := None\<rparr>"

end
