(* ===== verification/Rollout_Correction_Properties.thy ===== *)
theory Rollout_Correction_Properties
  imports Rollout_Correction Trainer_Properties
begin

text \<open>
  Properties of rollout correction: a token survives rejection exactly when every requested option
  accepts it, the importance weights are truncated and their group mean is one after normalisation, a
  batch whose two policies agree is left alone, every preset runs, and the loss of the bypass mode.
\<close>

section \<open>Matrices entry by entry\<close>

lemma mat_eqI:
  assumes "same_shape A B" and "\<And>i j. i < length A \<Longrightarrow> j < length (A ! i) \<Longrightarrow> A ! i ! j = B ! i ! j"
  shows "A = B"
proof (rule nth_equalityI)
  show "length A = length B" by (rule same_shape_length [OF assms(1)])
  show "A ! i = B ! i" if "i < length A" for i
    by (rule nth_equalityI) (use assms that in \<open>auto simp: same_shape_nth\<close>)
qed

lemma lengths_map_mat [simp]: "map length (map_mat f A) = map length A"
  by (simp add: map_mat_def comp_def)

lemma length_map_mat [simp]: "length (map_mat f A) = length A"
  by (simp add: map_mat_def)

lemma map_mat_entry [simp]:
  "i < length A \<Longrightarrow> j < length (A ! i) \<Longrightarrow> map_mat f A ! i ! j = f (A ! i ! j)"
  "i < length A \<Longrightarrow> map_mat f A ! i = map f (A ! i)"
  by (simp_all add: map_mat_def)

lemma lengths_ew2: "same_shape A B \<Longrightarrow> map length (ew2 f A B) = map length A"
  by (intro nth_equalityI) (auto simp: ew2_nth same_shape_nth same_shape_length)

lemma ew2_entry:
  "same_shape A B \<Longrightarrow> i < length A \<Longrightarrow> j < length (A ! i) \<Longrightarrow> ew2 f A B ! i ! j = f (A ! i ! j) (B ! i ! j)"
  using same_shape_nth [of A B i] same_shape_length [of A B] by (simp add: ew2_nth)

lemma ew2_row_length: "same_shape A B \<Longrightarrow> i < length A \<Longrightarrow> length (ew2 f A B ! i) = length (A ! i)"
  using same_shape_nth [of A B i] same_shape_length [of A B] by (simp add: ew2_nth)

lemma imap_row_length [simp]: "i < length A \<Longrightarrow> length (imap_mat f A ! i) = length (A ! i)"
  by (simp add: imap_mat_def)

lemma lengths_imap [simp]: "map length (imap_mat f A) = map length A"
  by (intro nth_equalityI) (auto simp: imap_mat_def)

lemma length_imap [simp]: "length (imap_mat f A) = length A"
  by (simp add: imap_mat_def)

lemma imap_entry [simp]:
  "i < length A \<Longrightarrow> j < length (A ! i) \<Longrightarrow> imap_mat f A ! i ! j = f (i, j) (A ! i ! j)"
  by (simp add: imap_mat_def)

lemma same_shape_map_mat [simp]:
  "same_shape (map_mat f A) B = same_shape A B" "same_shape B (map_mat f A) = same_shape B A"
  by (simp_all add: same_shape_def)

lemma same_shape_imap [simp]:
  "same_shape (imap_mat f A) B = same_shape A B" "same_shape B (imap_mat f A) = same_shape B A"
  by (simp_all add: same_shape_def)

lemma same_shape_ew2: "same_shape A B \<Longrightarrow> same_shape (ew2 f A B) C = same_shape A C"
  by (simp add: same_shape_def lengths_ew2)

lemma same_shape_sym: "same_shape A B \<Longrightarrow> same_shape B A"
  by (simp add: same_shape_def)

lemma same_shape_refl [simp]: "same_shape A A"
  by (simp add: same_shape_def)

lemma imap_mat_cong:
  "(\<And>i j. i < length A \<Longrightarrow> j < length (A ! i) \<Longrightarrow> f (i, j) (A ! i ! j) = g (i, j) (A ! i ! j)) \<Longrightarrow>
   imap_mat f A = imap_mat g A"
  by (intro mat_eqI) auto

lemma ew2_as_imap: "same_shape A B \<Longrightarrow> ew2 f A B = imap_mat (\<lambda>p x. f x (mat_at B p)) A"
  by (intro mat_eqI)
    (simp_all add: same_shape_ew2 ew2_row_length ew2_entry mat_at_def same_shape_length [symmetric])

section \<open>Acceptance\<close>

text \<open>
  What an option promises: the statistic of the token, or of its sequence, is inside the trust region.
  For \<open>k1\<close> the region is given by bounds on the ratio \<open>exp\<close> of the statistic.
\<close>

definition token_or_seq_stat :: "rs_option \<Rightarrow> mat \<Rightarrow> mat \<Rightarrow> nat \<times> nat \<Rightarrow> real" where
  "token_or_seq_stat opt log_ratio response_mask p =
     (if fst opt = TokenLevel then token_stat (snd opt) (mat_at log_ratio p)
      else row_stat (fst opt) (map (token_stat (snd opt)) (log_ratio ! fst p)) (response_mask ! fst p))"

definition accepted :: "mat \<Rightarrow> mat \<Rightarrow> nat \<times> nat \<Rightarrow> rs_option \<times> real option \<times> real \<Rightarrow> bool" where
  "accepted log_ratio response_mask p ot =
     (case ot of (opt, lower, upper) \<Rightarrow>
       (let x = token_or_seq_stat opt log_ratio response_mask p
        in if snd opt = DivK1
           then (case lower of None \<Rightarrow> False | Some lo \<Rightarrow> lo \<le> exp x \<and> exp x \<le> upper)
           else x \<le> upper))"

definition good_threshold :: "rs_option \<times> real option \<times> real \<Rightarrow> bool" where
  "good_threshold ot =
     (case ot of (opt, lower, upper) \<Rightarrow>
        upper > 0 \<and> (if snd opt = DivK1 then (case lower of None \<Rightarrow> False | Some lo \<Rightarrow> lo > 0) else lower = None))"

lemma parse_threshold_good: "parse_threshold opt spec = Inr b \<Longrightarrow> good_threshold (opt, b)"
  by (auto simp: parse_threshold_def parse_k1_def parse_upper_def good_threshold_def rbind_eq_Inr ensure_eq_Inr
      split: if_splits option.splits)

lemma mapM_result_set:
  "mapM_result f xs = Inr ys \<Longrightarrow> y \<in> set ys \<Longrightarrow> \<exists>x\<in>set xs. f x = Inr y"
  by (induction xs arbitrary: ys) (auto simp: rbind_eq_Inr)

lemma parse_thresholds_good:
  assumes "parse_rollout_rs_thresholds options spec = Inr specs"
  shows "list_all good_threshold specs"
proof -
  from assms obtain raw where "mapM_result (\<lambda>(opt, sp). rbind (parse_threshold opt sp) (\<lambda>b. Inr (opt, b)))
      (zip options raw) = Inr specs"
    by (auto simp: parse_rollout_rs_thresholds_def rbind_eq_Inr ensure_eq_Inr Let_def split: option.splits)
  then show ?thesis
    by (auto simp: list_all_iff rbind_eq_Inr dest!: mapM_result_set intro: parse_threshold_good)
qed

lemma good_bounds:
  assumes "good_threshold (opt, thr)"
  obtains b where "option_bounds (snd opt) thr = Inr b"
    and "\<And>lr m p. in_bounds b (token_or_seq_stat opt lr m p) = accepted lr m p (opt, thr)"
proof -
  obtain lower upper where thr: "thr = (lower, upper)" by (cases thr)
  have le: "ln a \<le> x \<longleftrightarrow> a \<le> exp x" "x \<le> ln a \<longleftrightarrow> exp x \<le> a" if "a > 0" for a x :: real
    using that by (metis exp_le_cancel_iff exp_ln)+
  show thesis
    by (rule that [of "if snd opt = DivK1 then (Some (ln (the lower)), ln upper) else (None, upper)"])
      (use assms in \<open>auto simp: thr good_threshold_def option_bounds_def in_bounds_def accepted_def Let_def le
        split: option.splits if_splits\<close>)
qed

lemma option_stat_spec:
  assumes "same_shape log_ratio response_mask"
  shows "same_shape (fst (option_stat opt log_ratio response_mask)) response_mask"
    and "\<And>i j. i < length response_mask \<Longrightarrow> j < length (response_mask ! i) \<Longrightarrow>
      fst (option_stat opt log_ratio response_mask) ! i ! j = token_or_seq_stat opt log_ratio response_mask (i, j)"
proof -
  note len = same_shape_length [OF assms] same_shape_nth [OF assms]
  show "same_shape (fst (option_stat opt log_ratio response_mask)) response_mask"
  proof (cases "fst opt = TokenLevel")
    case True
    then show ?thesis by (simp add: option_stat_def assms)
  next
    case False
    then show ?thesis
      by (auto simp: option_stat_def Let_def same_shape_def len(1) intro!: nth_equalityI)
  qed
  show "fst (option_stat opt log_ratio response_mask) ! i ! j = token_or_seq_stat opt log_ratio response_mask (i, j)"
    if "i < length response_mask" "j < length (response_mask ! i)" for i j
    using that len by (simp add: option_stat_def Let_def token_or_seq_stat_def mat_at_def)
qed

lemma compute_rs_metrics_total: "any_token response_mask \<Longrightarrow> \<exists>om. compute_rs_metrics opt stat response_mask per_seq b = Inr om"
  unfolding compute_rs_metrics_def Let_def by (simp only: ensure_simps) blast

lemma rs_step_spec:
  assumes shape: "same_shape log_ratio response_mask" and tok: "any_token response_mask"
    and good: "good_threshold ot"
  obtains ms' where "rs_step log_ratio response_mask ot (imap_mat f response_mask, ms) =
    Inr (imap_mat (\<lambda>p x. if accepted log_ratio response_mask p ot then f p x else 0) response_mask, ms')"
proof -
  obtain opt thr where ot: "ot = (opt, thr)" by (cases ot)
  from good obtain b where b: "option_bounds (snd opt) thr = Inr b"
    "\<And>p. in_bounds b (token_or_seq_stat opt log_ratio response_mask p) = accepted log_ratio response_mask p ot"
    unfolding ot by (rule good_bounds) auto
  obtain stat per_seq where st: "option_stat opt log_ratio response_mask = (stat, per_seq)" by fastforce
  obtain om where om: "compute_rs_metrics opt stat response_mask per_seq b = Inr om"
    using tok by (blast dest: compute_rs_metrics_total)
  have stat: "same_shape stat response_mask"
    "\<And>i j. i < length response_mask \<Longrightarrow> j < length (response_mask ! i) \<Longrightarrow>
       stat ! i ! j = token_or_seq_stat opt log_ratio response_mask (i, j)"
    using option_stat_spec [OF shape, where opt = opt] by (simp_all add: st)
  have "ew2 (*) (imap_mat f response_mask) (keep_matrix b stat) =
    imap_mat (\<lambda>p x. if accepted log_ratio response_mask p ot then f p x else 0) response_mask"
    using same_shape_sym [OF stat(1)] same_shape_length [OF stat(1)] same_shape_nth [OF stat(1)]
    by (intro mat_eqI)
      (simp_all add: keep_matrix_def same_shape_ew2 ew2_row_length ew2_entry stat(2) b(2) indicator_of_def)
  then show thesis
    by (intro that) (simp add: ot rs_step_def b(1) st om Let_def)
qed

lemma rs_loop_spec:
  assumes shape: "same_shape log_ratio response_mask" and tok: "any_token response_mask"
    and good: "list_all good_threshold specs"
  shows "\<exists>ms'. rs_loop log_ratio response_mask specs (imap_mat f response_mask, ms) =
    Inr (imap_mat (\<lambda>p x. if list_all (accepted log_ratio response_mask p) specs then f p x else 0) response_mask, ms')"
  using good
proof (induction specs arbitrary: f ms)
  case Nil
  then show ?case by auto
next
  case (Cons ot ots)
  obtain ms' where st: "rs_step log_ratio response_mask ot (imap_mat f response_mask, ms) =
    Inr (imap_mat (\<lambda>p x. if accepted log_ratio response_mask p ot then f p x else 0) response_mask, ms')"
    using Cons.prems by (auto intro: rs_step_spec [OF shape tok])
  have "(if list_all (accepted log_ratio response_mask p) ots
        then if accepted log_ratio response_mask p ot then f p x else 0 else 0) =
      (if list_all (accepted log_ratio response_mask p) (ot # ots) then f p x else 0)" for p x
    by simp
  with Cons.IH [of "\<lambda>p x. if accepted log_ratio response_mask p ot then f p x else 0" ms'] Cons.prems
  show ?case by (simp add: st cong: if_cong)
qed

section \<open>Rejection\<close>

definition surviving :: "(rs_option \<times> real option \<times> real) list \<Rightarrow> mat \<Rightarrow> mat \<Rightarrow> mat" where
  "surviving specs log_ratio response_mask =
     imap_mat (\<lambda>p x. if list_all (accepted log_ratio response_mask p) specs then x else 0) response_mask"

lemma rejection_run:
  assumes "same_shape log_ratio response_mask" and "any_token response_mask"
    and "parse_options rs = Inr options" and "parse_rollout_rs_thresholds options (Some thr) = Inr specs"
  shows "\<exists>ms. compute_rollout_rejection_mask log_ratio response_mask (Some rs) (Some thr) =
    Inr (surviving specs log_ratio response_mask, ms)"
proof -
  have ones: "map_mat (\<lambda>_. 1) response_mask = imap_mat (\<lambda>_ _. 1) response_mask"
    by (intro mat_eqI) auto
  obtain ms where loop: "rs_loop log_ratio response_mask specs (map_mat (\<lambda>_. 1) response_mask, []) =
    Inr (imap_mat (\<lambda>p x. if list_all (accepted log_ratio response_mask p) specs then 1 else 0) response_mask, ms)"
    using rs_loop_spec [OF assms(1,2) parse_thresholds_good [OF assms(4)], of "\<lambda>_ _. 1" "[]"]
    unfolding ones by blast
  have product: "ew2 (*) response_mask
      (imap_mat (\<lambda>p x. if list_all (accepted log_ratio response_mask p) specs then 1 else 0) response_mask) =
    surviving specs log_ratio response_mask"
    unfolding surviving_def by (intro mat_eqI) (auto simp: same_shape_ew2 ew2_row_length ew2_entry)
  have "length log_ratio \<noteq> 0"
    using assms(2) same_shape_length [OF assms(1)] by (auto simp: any_token_def)
  then show ?thesis
    unfolding compute_rollout_rejection_mask_def using assms(3,4) loop product
    by (simp add: Let_def del: same_shape_imap)
qed

text \<open>Sequence-level options keep or reject a sequence as a whole.\<close>

lemma sequence_level_atomic:
  "list_all (\<lambda>(opt, _). fst opt \<noteq> TokenLevel) specs \<Longrightarrow>
   list_all (accepted log_ratio response_mask (i, j)) specs =
   list_all (accepted log_ratio response_mask (i, k)) specs"
proof (induction specs)
  case (Cons ot specs)
  have "fst (fst ot) \<noteq> TokenLevel" "list_all (\<lambda>(opt, _). fst opt \<noteq> TokenLevel) specs"
    using Cons.prems by (auto split: prod.splits)
  moreover from this(1) have "accepted log_ratio response_mask (i, j) ot = accepted log_ratio response_mask (i, k) ot"
    by (simp add: accepted_def token_or_seq_stat_def split_def)
  ultimately show ?case using Cons.IH by simp
qed simp

text \<open>
  The ratio \<open>rho\<close> of the training to the rollout policy that section 3.5 of \<open>docs/algo/rollout_corr_math.md\<close>
  bounds, on clamped log-ratios: of the token, or the product or geometric mean over its sequence.
\<close>

definition documented_ratio :: "rs_level \<Rightarrow> mat \<Rightarrow> mat \<Rightarrow> nat \<times> nat \<Rightarrow> real" where
  "documented_ratio level log_ratio response_mask p =
     (let safe = clamp (- safety_bound) safety_bound
      in exp (if level = TokenLevel then safe (mat_at log_ratio p)
              else row_stat level (map safe (log_ratio ! fst p)) (response_mask ! fst p)))"

lemma row_stat_minus:
  assumes "level = SeqSum \<or> level = SeqMean"
  shows "row_stat level (map (\<lambda>x. - f x) vs) ms = - row_stat level (map f vs) ms"
proof -
  have "row_masked_sum (map (\<lambda>x. - f x) vs) ms = - row_masked_sum (map f vs) ms"
    by (induction vs arbitrary: ms; case_tac ms) (auto simp: row_masked_sum_def masked_value_def)
  then show ?thesis using assms by (auto simp: row_stat_def row_masked_mean_def)
qed

lemma k1_stat: "token_stat DivK1 = (\<lambda>x. - clamp (- safety_bound) safety_bound x)"
  by (rule ext) (simp add: token_stat_def Let_def)

lemma k1_inverse_ratio:
  assumes "level \<noteq> SeqMax" and "0 < lo" and "0 < hi"
  shows "accepted log_ratio response_mask p ((level, DivK1), Some lo, hi) \<longleftrightarrow>
     1 / hi \<le> documented_ratio level log_ratio response_mask p \<and> documented_ratio level log_ratio response_mask p \<le> 1 / lo"
proof -
  have "exp (token_or_seq_stat (level, DivK1) log_ratio response_mask p) = 1 / documented_ratio level log_ratio response_mask p"
  proof (cases "level = TokenLevel")
    case True
    then show ?thesis by (simp add: token_or_seq_stat_def documented_ratio_def k1_stat exp_minus divide_inverse Let_def)
  next
    case False
    with assms(1) have "level = SeqSum \<or> level = SeqMean" by (cases level) simp_all
    then show ?thesis using False
      by (simp add: token_or_seq_stat_def documented_ratio_def k1_stat row_stat_minus exp_minus divide_inverse Let_def)
  qed
  moreover have "0 < documented_ratio level log_ratio response_mask p" by (simp add: documented_ratio_def Let_def)
  moreover have "lo \<le> 1 / r \<and> 1 / r \<le> hi \<longleftrightarrow> 1 / hi \<le> r \<and> r \<le> 1 / lo" if "0 < r" for r :: real
    using that assms(2,3) by (auto simp: field_simps)
  ultimately show ?thesis by (simp add: accepted_def Let_def)
qed

lemma first_occurrences_set: "set (first_occurrences seen xs) \<subseteq> set xs"
  by (induction seen xs rule: first_occurrences.induct) auto

lemma parsed_supported:
  assumes "parse_options rs = Inr options" and "opt \<in> set options"
  shows "opt \<in> set supported_rs_options"
  using assms first_occurrences_set
  by (fastforce simp: parse_options_def rbind_eq_Inr ensure_eq_Inr Let_def rs_option_of_def
      dest!: mapM_result_set map_of_SomeD split: option.splits)

lemma parsed_spec_option:
  assumes "parse_rollout_rs_thresholds options thr = Inr specs" and "(opt, b) \<in> set specs"
  shows "opt \<in> set options"
proof -
  from assms(1) obtain raw where "mapM_result (\<lambda>(opt, sp). rbind (parse_threshold opt sp) (\<lambda>b. Inr (opt, b)))
      (zip options raw) = Inr specs"
    by (auto simp: parse_rollout_rs_thresholds_def rbind_eq_Inr ensure_eq_Inr Let_def split: option.splits)
  from mapM_result_set [OF this assms(2)] show ?thesis by (auto simp: rbind_eq_Inr dest: set_zip_leftD)
qed

text \<open>
  C32: whenever the options and their thresholds parse, rejection ends without an exception and returns a
  mask of the same shape in which a token keeps its value if every requested option accepts it and is set
  to zero otherwise. A token-level option judges the token; with sequence-level options only, the tokens
  of a sequence all stay or all go. A \<open>k2\<close> or \<open>k3\<close> option accepts statistics up to its upper bound. A
  \<open>k1\<close> option with the bounds \<open>lower_upper\<close> accepts the ratios \<open>rho\<close> of training to rollout policy with
  \<open>1 / upper \<le> rho \<le> 1 / lower\<close>, of the token, or their product or geometric mean over the sequence: the
  code bounds the inverse ratio, contrary to section 3.5 of \<open>docs/algo/rollout_corr_math.md\<close>, which
  documents \<open>lower \<le> rho \<le> upper\<close> (a ratio the documented bounds keep and the code rejects:
  \<open>token_k1_rejects_documented_ratio\<close>).
\<close>

theorem rejection_mask_spec:
  assumes "same_shape log_ratio response_mask" and "any_token response_mask"
    and "parse_options rs = Inr options" and "parse_rollout_rs_thresholds options (Some thr) = Inr specs"
  shows "\<exists>M ms. compute_rollout_rejection_mask log_ratio response_mask (Some rs) (Some thr) = Inr (M, ms) \<and>
    same_shape M response_mask \<and>
    (\<forall>i < length response_mask. \<forall>j < length (response_mask ! i).
       M ! i ! j = (if list_all (accepted log_ratio response_mask (i, j)) specs then response_mask ! i ! j else 0)) \<and>
    (list_all (\<lambda>(opt, _). fst opt \<noteq> TokenLevel) specs \<longrightarrow>
       (\<forall>i < length response_mask. M ! i = response_mask ! i \<or> (\<forall>x\<in>set (M ! i). x = 0))) \<and>
    (\<forall>((level, d), lower, upper)\<in>set specs. \<forall>p.
       accepted log_ratio response_mask p ((level, d), lower, upper) \<longleftrightarrow>
         (if d = DivK1
          then 1 / upper \<le> documented_ratio level log_ratio response_mask p \<and>
               documented_ratio level log_ratio response_mask p \<le> 1 / the lower
          else token_or_seq_stat (level, d) log_ratio response_mask p \<le> upper))"
proof -
  let ?M = "surviving specs log_ratio response_mask"
  have "?M ! i = response_mask ! i \<or> (\<forall>x\<in>set (?M ! i). x = 0)"
    if "list_all (\<lambda>(opt, _). fst opt \<noteq> TokenLevel) specs" and i: "i < length response_mask" for i
  proof (cases "list_all (accepted log_ratio response_mask (i, 0)) specs")
    case True
    with sequence_level_atomic [OF that(1)] have "list_all (accepted log_ratio response_mask (i, j)) specs" for j
      by blast
    then have "?M ! i = response_mask ! i"
      by (intro nth_equalityI) (simp_all add: surviving_def i)
    then show ?thesis ..
  next
    case False
    with sequence_level_atomic [OF that(1)] have "\<not> list_all (accepted log_ratio response_mask (i, j)) specs" for j
      by blast
    then show ?thesis by (auto simp: surviving_def i in_set_conv_nth)
  qed
  moreover have "accepted log_ratio response_mask p ((level, d), lower, upper) \<longleftrightarrow>
         (if d = DivK1
          then 1 / upper \<le> documented_ratio level log_ratio response_mask p \<and>
               documented_ratio level log_ratio response_mask p \<le> 1 / the lower
          else token_or_seq_stat (level, d) log_ratio response_mask p \<le> upper)"
    if spec: "((level, d), lower, upper) \<in> set specs" for level d lower upper p
  proof (cases "d = DivK1")
    case True
    have "good_threshold ((level, d), lower, upper)"
      using parse_thresholds_good [OF assms(4)] spec by (auto simp: list_all_iff)
    then obtain lo where lo: "lower = Some lo" "0 < lo" "0 < upper"
      using True by (auto simp: good_threshold_def split: option.splits)
    have "(level, d) \<in> set supported_rs_options"
      using parsed_supported [OF assms(3)] parsed_spec_option [OF assms(4) spec] by blast
    then have "level \<noteq> SeqMax" using True by (auto simp: supported_rs_options_def)
    then show ?thesis using True lo k1_inverse_ratio by simp
  qed (simp add: accepted_def Let_def)
  ultimately show ?thesis using rejection_run [OF assms]
    by (intro exI [of _ ?M]) (auto simp: surviving_def simp del: if_split)
qed

lemma example_options: "parse_options ''token_k1'' = Inr [(TokenLevel, DivK1)]"
  by (simp add: parse_options_def rs_option_of_def supported_rs_options_def option_name_def level_name_def
      div_name_def py_strip_def py_space_def)

lemma example_thresholds:
  "parse_rollout_rs_thresholds [(TokenLevel, DivK1)] (Some (StrThreshold ''0.5_2'')) =
   Inr [((TokenLevel, DivK1), Some (1 / 2), 2)]"
  by (simp add: parse_rollout_rs_thresholds_def raw_specs_of_def parse_threshold_def parse_k1_def spec_halves_def
      float_or_raise_def py_strip_def number_defs prefix_def)

lemma example_accepted:
  "accepted [[0, 2]] [[1, 1]] (0, 0) ((TokenLevel, DivK1), Some (1 / 2), 2)"
  "\<not> accepted [[0, 2]] [[1, 1]] (0, 1) ((TokenLevel, DivK1), Some (1 / 2), 2)"
proof -
  have "exp (- 2) < (1 / 2 :: real)"
    using exp_ge_add_one_self [of 2] by (simp add: exp_minus divide_simps)
  then show "accepted [[0, 2]] [[1, 1]] (0, 0) ((TokenLevel, DivK1), Some (1 / 2), 2)"
    "\<not> accepted [[0, 2]] [[1, 1]] (0, 1) ((TokenLevel, DivK1), Some (1 / 2), 2)"
    by (simp_all add: accepted_def token_or_seq_stat_def token_stat_def mat_at_def clamp_def safety_bound_def Let_def)
qed

theorem rejection_mask_spec_witness:
  "\<exists>M ms. compute_rollout_rejection_mask [[0, 2]] [[1, 1]] (Some ''token_k1'') (Some (StrThreshold ''0.5_2'')) =
     Inr (M, ms) \<and> M ! 0 ! 0 = 1 \<and> M ! 0 ! 1 = 0"
proof -
  have "same_shape [[0, 2 :: real]] [[1, 1 :: real]]" "any_token [[1, 1]]"
    by (simp_all add: same_shape_def any_token_def)
  from rejection_mask_spec [OF this example_options example_thresholds] obtain M ms where
    "compute_rollout_rejection_mask [[0, 2]] [[1, 1]] (Some ''token_k1'') (Some (StrThreshold ''0.5_2'')) = Inr (M, ms)"
    and "\<forall>i < length [[1, 1 :: real]]. \<forall>j < length ([[1, 1 :: real]] ! i).
       M ! i ! j = (if list_all (accepted [[0, 2]] [[1, 1]] (i, j)) [((TokenLevel, DivK1), Some (1 / 2), 2)]
                    then [[1, 1]] ! i ! j else 0)"
    by blast
  with example_accepted show ?thesis by (auto simp: less_Suc_eq all_conj_distrib)
qed

text \<open>
  The statistic \<open>k1\<close> is the logarithm of the ratio of the rollout to the training policy, so the bounds
  \<open>lower_upper\<close> hold for the inverse of the documented ratio: a token whose ratio is \<open>0.65\<close> is rejected
  by the bounds \<open>0.6_1.4\<close>.
\<close>

lemma token_k1_bounds_inverse_ratio:
  assumes "0 < lo" and "0 < hi" and "\<bar>mat_at log_ratio p\<bar> \<le> safety_bound"
  shows "accepted log_ratio response_mask p ((TokenLevel, DivK1), Some lo, hi) \<longleftrightarrow>
    1 / hi \<le> exp (mat_at log_ratio p) \<and> exp (mat_at log_ratio p) \<le> 1 / lo"
proof -
  have "clamp (- safety_bound) safety_bound (mat_at log_ratio p) = mat_at log_ratio p"
    using assms(3) by (simp add: clamp_def)
  moreover have "lo \<le> exp (- x) \<longleftrightarrow> exp x \<le> 1 / lo" "exp (- x) \<le> hi \<longleftrightarrow> 1 / hi \<le> exp x" for x :: real
    using assms(1,2) by (simp_all add: exp_minus field_simps)
  ultimately show ?thesis
    by (auto simp: accepted_def token_or_seq_stat_def token_stat_def Let_def)
qed

lemma token_k1_rejects_documented_ratio:
  "\<exists>l. 3 / 5 \<le> exp l \<and> exp l \<le> 7 / 5 \<and>
    \<not> accepted [[l]] [[1]] (0, 0) ((TokenLevel, DivK1), Some (3 / 5), 7 / 5)"
proof (intro exI conjI)
  let ?l = "ln (13 / 20) :: real"
  show "3 / 5 \<le> exp ?l" "exp ?l \<le> 7 / 5" by simp_all
  have "\<bar>?l\<bar> \<le> 1"
  proof -
    have "exp (-1) \<le> (13 / 20 :: real)"
      using exp_ge_add_one_self [of 1] by (simp add: exp_minus divide_simps)
    then have "-1 \<le> ?l" by (metis exp_gt_zero ln_exp ln_le_cancel_iff zero_less_divide_iff zero_less_numeral)
    then show ?thesis by simp
  qed
  then show "\<not> accepted [[?l]] [[1]] (0, 0) ((TokenLevel, DivK1), Some (3 / 5), 7 / 5)"
    by (subst token_k1_bounds_inverse_ratio) (simp_all add: mat_at_def safety_bound_def)
qed

text \<open>Bounds in the wrong order are accepted by the parser and reject every token.\<close>

lemma inverted_bounds_reject_all:
  "hi < lo \<Longrightarrow> \<not> accepted log_ratio response_mask p ((l, DivK1), Some lo, hi)"
  by (simp add: accepted_def Let_def)

section \<open>Importance weights\<close>

definition valid_mask :: "mat \<Rightarrow> bool" where
  "valid_mask response_mask \<longleftrightarrow> binary_mask response_mask \<and> any_token response_mask"

lemma binary_entry:
  "binary_mask M \<Longrightarrow> i < length M \<Longrightarrow> j < length (M ! i) \<Longrightarrow> M ! i ! j = 0 \<or> M ! i ! j = 1"
  unfolding binary_mask_def by (metis nth_mem)

lemma binary_mat_sum_nonneg: "binary_mask M \<Longrightarrow> 0 \<le> mat_sum M"
  unfolding mat_sum_def binary_mask_def
  by (intro sum_list_nonneg) (auto intro!: sum_list_nonneg, metis order_refl zero_le_one)

lemma map2_nth_set:
  "y \<in> set (map2 f xs ys) \<Longrightarrow> \<exists>i. i < length xs \<and> i < length ys \<and> y = f (xs ! i) (ys ! i)"
  by (auto simp: set_zip)

lemma sum_list_pos_member:
  "(\<And>y. y \<in> set ys \<Longrightarrow> 0 \<le> y) \<Longrightarrow> x \<in> set ys \<Longrightarrow> 0 < x \<Longrightarrow> 0 < (sum_list ys :: real)"
  by (induction ys) (auto intro: add_pos_nonneg add_nonneg_pos sum_list_nonneg)

lemma masked_mean_pos:
  assumes shape: "same_shape A M" and mask: "valid_mask M"
    and pos: "\<And>i j. i < length A \<Longrightarrow> j < length (A ! i) \<Longrightarrow> 0 < A ! i ! j"
  shows "0 < masked_mean A M"
proof -
  have bin: "binary_mask M" using mask by (simp add: valid_mask_def)
  have entry: "0 \<le> masked_value (A ! i ! j) (M ! i ! j)"
    "M ! i ! j \<noteq> 0 \<Longrightarrow> 0 < masked_value (A ! i ! j) (M ! i ! j)"
    if "i < length A" "j < length (A ! i)" for i j
    using binary_entry [OF bin, of i j] pos [OF that] that same_shape_length [OF shape] same_shape_nth [OF shape]
    by (auto simp: masked_value_def)
  have row: "0 \<le> y" if "y \<in> set (map2 masked_value (A ! i) (M ! i))" "i < length A" for y i
    using map2_nth_set [OF that(1)] entry(1) that(2) by auto
  have nonneg: "0 \<le> row_masked_sum (A ! i) (M ! i)" if "i < length A" for i
    unfolding row_masked_sum_def using row [OF _ that] by (intro sum_list_nonneg) blast
  obtain i j where ij: "i < length M" "j < length (M ! i)" "M ! i ! j \<noteq> 0"
    using mask unfolding valid_mask_def any_token_def by (metis in_set_conv_nth)
  have i: "i < length A" "j < length (A ! i)"
    using ij same_shape_length [OF shape] same_shape_nth [OF shape] by auto
  have "masked_value (A ! i ! j) (M ! i ! j) \<in> set (map2 masked_value (A ! i) (M ! i))"
    using i(2) ij(2) by (auto simp: set_zip)
  then have "0 < row_masked_sum (A ! i) (M ! i)"
    unfolding row_masked_sum_def using entry(2) [OF i ij(3)] row [OF _ i(1)] by (blast intro: sum_list_pos_member)
  moreover have "row_masked_sum (A ! i) (M ! i) \<in> set (map2 row_masked_sum A M)"
    using i(1) ij(1) by (auto simp: set_zip)
  moreover have "0 \<le> y" if "y \<in> set (map2 row_masked_sum A M)" for y
    using map2_nth_set [OF that] nonneg by auto
  ultimately have "0 < masked_sum A M"
    unfolding masked_sum_def by (blast intro: sum_list_pos_member)
  with binary_mat_sum_nonneg [OF bin] show ?thesis
    by (simp add: masked_mean_def add_nonneg_pos)
qed

lemma clamp_pos: "0 < hi \<Longrightarrow> 0 < lo \<Longrightarrow> 0 < clamp lo hi x"
  by (auto simp: clamp_def)

lemma mean_square_nonzero:
  assumes "same_shape weights response_mask" and "valid_mask response_mask" and "0 < threshold"
  shows "mean_square_normalised threshold weights response_mask \<noteq> 0"
proof -
  let ?c = "map_mat (clamp (1 / threshold) threshold) weights"
  have "0 < masked_mean ?c response_mask"
    using assms by (intro masked_mean_pos) (auto intro: clamp_pos)
  then have "0 < masked_mean (map_mat (\<lambda>w. (w / (masked_mean ?c response_mask + 1 / 10 ^ 8)) ^ 2) ?c) response_mask"
    using assms clamp_pos [of threshold "1 / threshold", THEN less_imp_neq, THEN not_sym]
    by (intro masked_mean_pos) (auto simp: zero_less_power2)
  then show ?thesis unfolding mean_square_normalised_def Let_def by simp
qed

lemma compute_is_metrics_total:
  assumes "same_shape weights response_mask" and "valid_mask response_mask" and "0 < threshold"
  shows "\<exists>ms. compute_is_metrics weights lr response_mask level threshold = Inr ms"
  using assms mean_square_nonzero [OF assms]
  by (simp add: compute_is_metrics_def valid_mask_def Let_def)

text \<open>The ratio a level assigns to a token: its own, or the product over its sequence.\<close>

definition level_ratio :: "string \<Rightarrow> mat \<Rightarrow> mat \<Rightarrow> nat \<times> nat \<Rightarrow> real" where
  "level_ratio level log_ratio response_mask p =
     safe_exp (if level = ''token'' then mat_at log_ratio p
               else row_masked_sum (log_ratio ! fst p) (response_mask ! fst p))"

definition truncated_weights :: "string \<Rightarrow> real \<Rightarrow> mat \<Rightarrow> mat \<Rightarrow> mat" where
  "truncated_weights level threshold log_ratio response_mask =
     imap_mat (\<lambda>p x. min (level_ratio level log_ratio response_mask p) threshold * x) response_mask"

lemma raw_weights_spec:
  assumes "same_shape log_ratio response_mask"
  shows "fst (raw_weights level log_ratio response_mask) =
    imap_mat (\<lambda>p x. level_ratio level log_ratio response_mask p * x) response_mask"
proof (cases "level = ''token''")
  case True
  then show ?thesis using assms
    by (intro mat_eqI)
      (simp_all add: raw_weights_def level_ratio_def mat_at_def same_shape_ew2 ew2_row_length ew2_entry
        same_shape_length same_shape_nth)
next
  case False
  let ?R = "map2 (\<lambda>s row. map (\<lambda>x. safe_exp s * x) row) (map2 row_masked_sum log_ratio response_mask) response_mask"
  have rows: "length ?R = length response_mask"
    "?R ! i = map (\<lambda>x. safe_exp (row_masked_sum (log_ratio ! i) (response_mask ! i)) * x) (response_mask ! i)"
    if "i < length response_mask" for i
    using that same_shape_length [OF assms] by auto
  have "length ?R = length response_mask" using same_shape_length [OF assms] by simp
  then have "same_shape ?R response_mask"
    unfolding same_shape_def by (intro nth_equalityI) (simp_all add: rows(2) del: map_map)
  moreover have "fst (raw_weights level log_ratio response_mask) = ?R"
    using False by (simp add: raw_weights_def Let_def)
  ultimately show ?thesis
    by (intro mat_eqI) (simp_all add: rows same_shape_length level_ratio_def False del: map2_map_map)
qed

lemma truncation_spec:
  assumes "same_shape log_ratio response_mask" and "binary_mask response_mask" and "0 < threshold"
  shows "map_mat (\<lambda>w. min w threshold) (fst (raw_weights level log_ratio response_mask)) =
    truncated_weights level threshold log_ratio response_mask"
proof (rule mat_eqI)
  show "map_mat (\<lambda>w. min w threshold) (fst (raw_weights level log_ratio response_mask)) ! i ! j =
      truncated_weights level threshold log_ratio response_mask ! i ! j"
    if "i < length (map_mat (\<lambda>w. min w threshold) (fst (raw_weights level log_ratio response_mask)))"
      and "j < length (map_mat (\<lambda>w. min w threshold) (fst (raw_weights level log_ratio response_mask)) ! i)" for i j
    using that binary_entry [OF assms(2), of i j] assms(3)
    by (auto simp: raw_weights_spec [OF assms(1)] truncated_weights_def)
qed (simp add: raw_weights_spec [OF assms(1)] truncated_weights_def)

lemma weights_run:
  assumes "same_shape log_ratio response_mask" and "valid_mask response_mask"
    and "level \<in> {''token'', ''sequence''}" and "0 < threshold"
  shows "\<exists>ms. compute_rollout_correction_weights r log_ratio response_mask level threshold False =
    Inr (truncated_weights level threshold log_ratio response_mask, ms)"
proof -
  have bin: "binary_mask response_mask" using assms(2) by (simp add: valid_mask_def)
  obtain raw fm where raw: "raw_weights level log_ratio response_mask = (raw, fm)" by fastforce
  have "same_shape raw response_mask"
    using raw_weights_spec [OF assms(1), of level] by (simp add: raw)
  with compute_is_metrics_total assms obtain ms
    where "compute_is_metrics raw fm response_mask level threshold = Inr ms" by blast
  then show ?thesis
    using assms truncation_spec [OF assms(1) bin assms(4), of level]
    unfolding compute_rollout_correction_weights_def Let_def raw by auto
qed

text \<open>
  On a batch with a valid token the importance weights are computed without an exception: a valid
  token gets the ratio of the two policies for itself or for its sequence, clamped to the safety bound
  and truncated at the threshold, and padding gets zero; so every weight lies between zero and the threshold.
\<close>

theorem correction_weights_truncated:
  assumes "same_shape log_ratio response_mask" and "valid_mask response_mask"
    and "level \<in> {''token'', ''sequence''}" and "0 < threshold"
  shows "(\<exists>ms. compute_rollout_correction_weights r log_ratio response_mask level threshold False =
      Inr (truncated_weights level threshold log_ratio response_mask, ms)) \<and>
    list_all (list_all (\<lambda>w. 0 \<le> w \<and> w \<le> threshold)) (truncated_weights level threshold log_ratio response_mask)"
proof (rule conjI)
  show "\<exists>ms. compute_rollout_correction_weights r log_ratio response_mask level threshold False =
      Inr (truncated_weights level threshold log_ratio response_mask, ms)"
    using assms by (rule weights_run)
  have "binary_mask response_mask" using assms(2) by (simp add: valid_mask_def)
  then show "list_all (list_all (\<lambda>w. 0 \<le> w \<and> w \<le> threshold))
      (truncated_weights level threshold log_ratio response_mask)"
    using binary_entry assms(4)
    by (fastforce simp: list_all_length truncated_weights_def level_ratio_def safe_exp_def)
qed

theorem correction_weights_truncated_witness:
  "(\<exists>ms. compute_rollout_correction_weights None [[0, 5]] [[1, 1]] ''token'' 2 False = Inr ([[1, 2]], ms)) \<and>
   list_all (list_all (\<lambda>w. 0 \<le> w \<and> w \<le> 2)) (truncated_weights ''token'' 2 [[0, 5]] [[1, 1]])"
proof -
  have mask: "same_shape [[0, 5]] [[1, 1 :: real]]" "valid_mask [[1, 1]]" "''token'' \<in> {''token'', ''sequence''}" "0 < (2 :: real)"
    by (simp_all add: same_shape_def valid_mask_def binary_mask_def any_token_def)
  have "truncated_weights ''token'' 2 [[0, 5]] [[1, 1]] = [[1, 2]]"
    using exp_ge_add_one_self [of "5 :: real"]
    by (simp add: truncated_weights_def level_ratio_def safe_exp_def clamp_def safety_bound_def imap_mat_def
        mat_at_def upt_rec)
  with correction_weights_truncated [OF mask] show ?thesis by simp
qed

section \<open>Batch normalisation\<close>

text \<open>The sum and the count a rank contributes to the mean, and the mean over the group.\<close>

definition local_pair :: "string \<Rightarrow> mat \<times> mat \<Rightarrow> real \<times> real" where
  "local_pair level wm =
     (case wm of (weights, response_mask) \<Rightarrow>
        if level = ''token'' then (mat_sum (ew2 (*) weights response_mask), mat_sum response_mask)
        else (let seq_mask = map indicator_of (seq_valid response_mask)
              in (sum_list (map2 (*) (map2 row_masked_mean weights response_mask) seq_mask), sum_list seq_mask)))"

definition group_totals :: "string \<Rightarrow> (mat \<times> mat) list \<Rightarrow> real \<times> real" where
  "group_totals level ranks =
     (sum_list (map (\<lambda>r. fst (local_pair level r)) ranks), sum_list (map (\<lambda>r. snd (local_pair level r)) ranks))"

definition group_mean :: "string \<Rightarrow> (mat \<times> mat) list \<Rightarrow> real" where
  "group_mean level ranks = fst (group_totals level ranks) / snd (group_totals level ranks)"

lemma row_masked_sum_scale: "row_masked_sum (map (\<lambda>x. x / c) xs) ms = row_masked_sum xs ms / c"
proof (induction xs arbitrary: ms)
  case (Cons x xs)
  then show ?case
    by (cases ms) (auto simp: row_masked_sum_def masked_value_def add_divide_distrib)
qed (simp add: row_masked_sum_def)

lemma row_masked_mean_scale: "row_masked_mean (map (\<lambda>x. x / c) xs) ms = row_masked_mean xs ms / c"
  by (simp add: row_masked_mean_def row_masked_sum_scale)

lemma sum_list_divide: "sum_list (map (\<lambda>x. f x / c) xs) = sum_list (map f xs) / (c :: real)"
  by (induction xs) (auto simp: add_divide_distrib)

lemma masked_sum_scale: "masked_sum (map_mat (\<lambda>x. x / c) A) M = masked_sum A M / c"
proof -
  have "map2 row_masked_sum (map_mat (\<lambda>x. x / c) A) M = map (\<lambda>y. y / c) (map2 row_masked_sum A M)"
    by (simp add: map_mat_def map_zip_map row_masked_sum_scale split_def)
  then show ?thesis
    unfolding masked_sum_def by (simp only: sum_list_divide [where f = "\<lambda>y. y"] list.map_ident)
qed

lemma local_pair_scale:
  "local_pair level (map_mat (\<lambda>x. x / c) A, M) = (fst (local_pair level (A, M)) / c, snd (local_pair level (A, M)))"
proof -
  have "map2 row_masked_mean (map_mat (\<lambda>x. x / c) A) M = map (\<lambda>y. y / c) (map2 row_masked_mean A M)"
    by (simp add: map_mat_def map_zip_map row_masked_mean_scale split_def)
  moreover have "sum_list (map2 (*) (map (\<lambda>y. y / c) xs) ys) = sum_list (map2 (*) xs ys) / c" for xs ys
    by (simp add: map_zip_map split_def sum_list_divide [symmetric])
  moreover have "ew2 (*) (map_mat (\<lambda>x. x / c) A) M = map_mat (\<lambda>x. x / c) (ew2 (*) A M)"
    by (simp add: ew2_def map_mat_def map_zip_map split_def)
  moreover have "mat_sum (map_mat (\<lambda>x. x / c) B) = mat_sum B / c" for B
    by (simp add: mat_sum_def map_mat_def comp_def sum_list_divide sum_list_divide [where f = "\<lambda>y. y", simplified])
  ultimately show ?thesis by (simp add: local_pair_def Let_def del: map_map)
qed

lemma distributed_is_group:
  assumes "level \<in> {''token'', ''sequence''}"
  shows "weights_mean (Some (\<lambda>_. totals)) level weights response_mask = fst totals / snd totals"
  using assms by (auto simp: weights_mean_def distributed_masked_mean_def Let_def split_def)

lemma normalised_weights:
  assumes "same_shape log_ratio response_mask" and "valid_mask response_mask"
    and "level \<in> {''token'', ''sequence''}" and "0 < threshold"
    and "wm = weights_mean r level (truncated_weights level threshold log_ratio response_mask) response_mask"
    and "1 / 10 ^ 8 < wm"
  shows "\<exists>ms. compute_rollout_correction_weights r log_ratio response_mask level threshold True =
    Inr (map_mat (\<lambda>w. w / wm) (truncated_weights level threshold log_ratio response_mask), ms)"
proof -
  have bin: "binary_mask response_mask" using assms(2) by (simp add: valid_mask_def)
  obtain raw fm where raw: "raw_weights level log_ratio response_mask = (raw, fm)" by fastforce
  have "same_shape raw response_mask"
    using raw_weights_spec [OF assms(1), of level] by (simp add: raw)
  with compute_is_metrics_total assms obtain ms
    where "compute_is_metrics raw fm response_mask level threshold = Inr ms" by blast
  then show ?thesis
    using assms(3,4,6) truncation_spec [OF assms(1) bin assms(4), of level]
    unfolding compute_rollout_correction_weights_def Let_def raw by (auto simp: assms(5))
qed

text \<open>Without a group the mean over the batch is one.\<close>

lemma local_mean_one:
  assumes "level \<in> {''token'', ''sequence''}" and "wm = weights_mean None level weights response_mask" and "wm \<noteq> 0"
  shows "weights_mean None level (map_mat (\<lambda>w. w / wm) weights) response_mask = 1"
proof (cases "level = ''token''")
  case True
  then obtain D where D: "\<And>A. weights_mean None level A response_mask = masked_sum A response_mask / D"
    by (auto simp: weights_mean_def masked_mean_def)
  have "weights_mean None level (map_mat (\<lambda>w. w / wm) weights) response_mask =
      masked_sum weights response_mask / D / wm"
    unfolding D masked_sum_scale by simp
  also have "\<dots> = 1" using assms(2,3) unfolding D by simp
  finally show ?thesis .
next
  case False
  then have M: "weights_mean None level A response_mask =
    fst (local_pair level (A, response_mask)) / max (snd (local_pair level (A, response_mask))) (1 / 10 ^ 8)" for A
    by (simp add: weights_mean_def local_pair_def Let_def)
  let ?D = "max (snd (local_pair level (weights, response_mask))) (1 / 10 ^ 8)"
  have "weights_mean None level (map_mat (\<lambda>w. w / wm) weights) response_mask =
      fst (local_pair level (weights, response_mask)) / ?D / wm"
    unfolding M local_pair_scale by simp
  also have "\<dots> = 1" using assms(2,3) unfolding M by simp
  finally show ?thesis .
qed

definition truncated_rank :: "string \<Rightarrow> real \<Rightarrow> mat \<times> mat \<Rightarrow> mat \<times> mat" where
  "truncated_rank level threshold rank = (truncated_weights level threshold (fst rank) (snd rank), snd rank)"

definition corrected_rank :: "group_reduce \<Rightarrow> string \<Rightarrow> real \<Rightarrow> mat \<times> mat \<Rightarrow> (mat \<times> mat) result" where
  "corrected_rank r level threshold rank =
     rbind (compute_rollout_correction_weights (Some r) (fst rank) (snd rank) level threshold True)
       (\<lambda>(w, ms). Inr (w, snd rank))"

lemma group_totals_scale:
  "group_totals level (map (\<lambda>(w, m). (map_mat (\<lambda>x. x / c) w, m)) rs) =
   (fst (group_totals level rs) / c, snd (group_totals level rs))"
  by (induction rs) (auto simp: group_totals_def local_pair_scale add_divide_distrib)

text \<open>
  With batch normalisation in a group of data-parallel ranks, whose reduction returns the totals of
  the group, every rank divides its truncated weights by the same number, and the mean of the weights
  over the whole group is then exactly one, at the token level and at the sequence level.
\<close>

theorem batch_normalised_group_mean:
  assumes ranks: "list_all (\<lambda>(lr, m). same_shape lr m \<and> valid_mask m) ranks"
    and level: "level \<in> {''token'', ''sequence''}" and thr: "0 < threshold"
    and reduce: "all_reduce = (\<lambda>_. group_totals level (map (truncated_rank level threshold) ranks))"
    and wm: "wm = group_mean level (map (truncated_rank level threshold) ranks)" "1 / 10 ^ 8 < wm"
  shows "\<exists>outs. mapM_result (corrected_rank all_reduce level threshold) ranks = Inr outs \<and>
    outs = map (\<lambda>(w, m). (map_mat (\<lambda>x. x / wm) w, m)) (map (truncated_rank level threshold) ranks) \<and>
    group_mean level outs = 1"
proof -
  let ?T = "map (truncated_rank level threshold) ranks"
  have mean: "weights_mean (Some all_reduce) level w m = wm" for w m
    unfolding reduce using level by (simp only: distributed_is_group wm(1) group_mean_def)
  have one: "corrected_rank all_reduce level threshold rank =
      Inr (map_mat (\<lambda>x. x / wm) (fst (truncated_rank level threshold rank)), snd rank)" if "rank \<in> set ranks" for rank
  proof -
    have ok: "same_shape (fst rank) (snd rank)" "valid_mask (snd rank)"
      using ranks that by (auto simp: list_all_iff)
    obtain ms where "compute_rollout_correction_weights (Some all_reduce) (fst rank) (snd rank) level threshold True =
        Inr (map_mat (\<lambda>w. w / wm) (truncated_weights level threshold (fst rank) (snd rank)), ms)"
      using normalised_weights [OF ok level thr mean [symmetric] wm(2)] by blast
    then show ?thesis by (simp add: corrected_rank_def truncated_rank_def)
  qed
  have outs: "mapM_result (corrected_rank all_reduce level threshold) ranks =
      Inr (map (\<lambda>(w, m). (map_mat (\<lambda>x. x / wm) w, m)) ?T)"
    using mapM_result_Inr [of ranks "corrected_rank all_reduce level threshold", OF one]
    by (simp add: truncated_rank_def comp_def)
  have "wm \<noteq> 0" using wm(2) by auto
  then have "group_mean level (map (\<lambda>(w, m). (map_mat (\<lambda>x. x / wm) w, m)) ?T) = 1"
    unfolding group_mean_def group_totals_scale using wm(1) by (simp add: group_mean_def)
  with outs show ?thesis by blast
qed

definition example_ranks :: "(mat \<times> mat) list" where
  "example_ranks = [([[0, 0]], [[1, 1]]), ([[9, 0]], [[1, 0]])]"

theorem batch_normalised_group_mean_witness:
  "mapM_result (corrected_rank (\<lambda>_. (4, 3)) ''token'' 2) example_ranks =
   Inr [([[3 / 4, 3 / 4]], [[1, 1]]), ([[3 / 2, 0]], [[1, 0]])]"
proof -
  have e: "\<not> exp 9 < (2 :: real)" using exp_ge_add_one_self [of "9 :: real"] by simp
  have T: "map (truncated_rank ''token'' 2) example_ranks = [([[1, 1]], [[1, 1]]), ([[2, 0]], [[1, 0]])]"
    using e by (simp add: example_ranks_def truncated_rank_def truncated_weights_def level_ratio_def safe_exp_def
        clamp_def safety_bound_def imap_mat_def mat_at_def upt_rec)
  have totals: "group_totals ''token'' (map (truncated_rank ''token'' 2) example_ranks) = (4, 3)"
    unfolding T by (simp add: group_totals_def local_pair_def ew2_def mat_sum_def)
  have "list_all (\<lambda>(lr, m). same_shape lr m \<and> valid_mask m) example_ranks"
    by (simp add: example_ranks_def same_shape_def valid_mask_def binary_mask_def any_token_def)
  from batch_normalised_group_mean [OF this, of "''token''" 2 "\<lambda>_. (4, 3)" "4 / 3"]
  have "mapM_result (corrected_rank (\<lambda>_. (4, 3)) ''token'' 2) example_ranks =
      Inr (map (\<lambda>(w, m). (map_mat (\<lambda>x. x / (4 / 3)) w, m)) (map (truncated_rank ''token'' 2) example_ranks))"
    unfolding group_mean_def totals by auto
  then show ?thesis unfolding T by (simp add: map_mat_def)
qed

section \<open>The whole correction\<close>

text \<open>The configurations the correction can run with, and the parsed rejection options.\<close>

definition weights_ok :: "rollout_corr_config \<Rightarrow> bool" where
  "weights_ok cfg \<longleftrightarrow>
     (case (rollout_is cfg, rollout_is_threshold cfg) of
        (Some level, Some thr) \<Rightarrow> level \<in> {''token'', ''sequence''} \<and> 0 < thr | _ \<Rightarrow> True)"

definition rs_specs :: "rollout_corr_config \<Rightarrow> (rs_option \<times> real option \<times> real) list \<Rightarrow> bool" where
  "rs_specs cfg specs \<longleftrightarrow>
     (case rollout_rs cfg of
        None \<Rightarrow> specs = []
      | Some rs \<Rightarrow> (case (rollout_rs_threshold cfg, parse_options rs) of
            (Some thr, Inr options) \<Rightarrow> parse_rollout_rs_thresholds options (Some thr) = Inr specs
          | _ \<Rightarrow> False))"

definition correction_weights :: "rollout_corr_config \<Rightarrow> mat \<Rightarrow> mat \<Rightarrow> mat option" where
  "correction_weights cfg log_ratio response_mask =
     (case (rollout_is cfg, rollout_is_threshold cfg) of
        (Some level, Some thr) \<Rightarrow> Some (truncated_weights level thr log_ratio response_mask) | _ \<Rightarrow> None)"

definition weights_container :: "mat \<Rightarrow> 'm rl_data" where
  "weights_container w =
     \<lparr>batch = Some \<lparr>td_size = length w, td_items = [(''rollout_is_weights'', w)]\<rparr>, non_tensor = [], meta = []\<rparr>"

lemma weights_proto_eq: "weights_proto w = Inr (map_option weights_container w)"
  by (cases w) (auto simp: weights_proto_def from_dict_def Data_Proto.make_def Let_def check_consistency_def weights_container_def)

lemma imap_mat_id: "imap_mat (\<lambda>_ x. x) A = A"
  by (intro mat_eqI) auto

lemma optional_rejection_spec:
  assumes "same_shape log_ratio response_mask" and "valid_mask response_mask" and "rs_specs cfg specs"
  shows "\<exists>ms. optional_rejection log_ratio response_mask (rollout_rs cfg) (rollout_rs_threshold cfg) =
    Inr (surviving specs log_ratio response_mask, ms)"
proof (cases "rollout_rs cfg")
  case None
  with assms(3) show ?thesis
    by (simp add: optional_rejection_def rs_specs_def surviving_def imap_mat_id)
next
  case (Some rs)
  with assms(3) obtain thr options where o: "rollout_rs_threshold cfg = Some thr" "parse_options rs = Inr options"
    "parse_rollout_rs_thresholds options (Some thr) = Inr specs"
    by (auto simp: rs_specs_def split: option.splits sum.splits)
  have "any_token response_mask" using assms(2) by (simp add: valid_mask_def)
  from rejection_run [OF assms(1) this o(2,3)] show ?thesis
    by (simp add: optional_rejection_def Some o(1))
qed

lemma optional_weights_spec:
  assumes "same_shape log_ratio response_mask" and "valid_mask response_mask" and "weights_ok cfg"
  shows "\<exists>ms. optional_weights r log_ratio response_mask (rollout_is cfg) (rollout_is_threshold cfg) False =
    Inr (correction_weights cfg log_ratio response_mask, ms)"
proof (cases "\<exists>level thr. rollout_is cfg = Some level \<and> rollout_is_threshold cfg = Some thr")
  case True
  then obtain level thr where c: "rollout_is cfg = Some level" "rollout_is_threshold cfg = Some thr" by blast
  with assms(3) have "level \<in> {''token'', ''sequence''}" "0 < thr" by (simp_all add: weights_ok_def)
  from weights_run [OF assms(1,2) this, of r] show ?thesis
    by (auto simp: optional_weights_def correction_weights_def c)
next
  case False
  then show ?thesis
    by (auto simp: optional_weights_def correction_weights_def split: option.splits)
qed

lemma correction_spec:
  assumes "same_shape old_log_prob rollout_log_prob" and "same_shape old_log_prob response_mask"
    and "valid_mask response_mask" and "weights_ok cfg" and "rs_specs cfg specs" and "\<not> rollout_is_batch_normalize cfg"
  shows "\<exists>is_ms rs_ms off_ms.
    compute_offpolicy_metrics old_log_prob (Some rollout_log_prob) response_mask = Inr off_ms \<and>
    compute_rollout_correction_and_rejection_mask r old_log_prob rollout_log_prob response_mask cfg =
    Inr (map_option weights_container (correction_weights cfg (ew2 (-) old_log_prob rollout_log_prob) response_mask),
         surviving specs (ew2 (-) old_log_prob rollout_log_prob) response_mask,
         with_prefix (dict_update (dict_update (dict_update [] is_ms) rs_ms) off_ms))"
proof -
  let ?lr = "ew2 (-) old_log_prob rollout_log_prob"
  have shape: "same_shape ?lr response_mask"
    using assms(1,2) by (simp add: same_shape_ew2)
  have tok: "any_token response_mask" using assms(3) by (simp add: valid_mask_def)
  obtain is_ms where w: "optional_weights r ?lr response_mask (rollout_is cfg) (rollout_is_threshold cfg) False =
      Inr (correction_weights cfg ?lr response_mask, is_ms)"
    using optional_weights_spec [OF shape assms(3,4)] by blast
  obtain rs_ms where rs: "optional_rejection ?lr response_mask (rollout_rs cfg) (rollout_rs_threshold cfg) =
      Inr (surviving specs ?lr response_mask, rs_ms)"
    using optional_rejection_spec [OF shape assms(3,5)] by blast
  obtain off_ms where off: "compute_offpolicy_metrics old_log_prob (Some rollout_log_prob) response_mask = Inr off_ms"
    using tok unfolding compute_offpolicy_metrics_def Let_def by (simp only: ensure_simps)
  show ?thesis
    using assms(1,2,6) tok w rs off
    unfolding compute_rollout_correction_and_rejection_mask_def Let_def
    by (intro exI [of _ is_ms] exI [of _ rs_ms] exI [of _ off_ms]) (simp add: weights_proto_eq)
qed

section \<open>Metrics by name\<close>

lemma map_of_dict_update:
  "map_of (dict_update d e) k = (case map_of (rev e) k of Some v \<Rightarrow> Some v | None \<Rightarrow> map_of d k)"
proof (induction e arbitrary: d)
  case (Cons kv e)
  obtain k' v where kv: "kv = (k', v)" by (cases kv)
  have "dict_update d (kv # e) = dict_update (AList.update k' v d) e"
    by (simp add: dict_update_def kv)
  then show ?case
    by (auto simp: Cons.IH kv map_add_def update_conv' split: option.splits)
qed (simp add: dict_update_def)

lemma map_of_dict_update_distinct:
  "distinct (map fst e) \<Longrightarrow>
   map_of (dict_update d e) k = (case map_of e k of Some v \<Rightarrow> Some v | None \<Rightarrow> map_of d k)"
  using map_of_inject_set [of "rev e" e] by (simp add: map_of_dict_update rev_map [symmetric])

lemma map_of_with_prefix: "map_of (with_prefix ms) (''rollout_corr/'' @ k) = map_of ms k"
  by (induction ms) (auto simp: with_prefix_def)

section \<open>Policies that agree\<close>

lemma token_stat_zero: "token_stat d 0 = 0"
  by (cases d) (simp_all add: token_stat_def clamp_def safety_bound_def)

lemma row_masked_sum_zeros: "list_all (\<lambda>x. x = 0) xs \<Longrightarrow> row_masked_sum xs ms = 0"
proof (induction xs arbitrary: ms)
  case (Cons x xs)
  then show ?case by (cases ms) (auto simp: row_masked_sum_def masked_value_def)
qed (simp add: row_masked_sum_def)

lemma row_stat_zeros:
  assumes "list_all (\<lambda>x. x = 0) xs"
  shows "row_stat l xs ms = 0"
proof -
  have "row_masked_max xs ms = 0"
  proof (cases "row_selected xs ms")
    case (Cons y ys)
    have "set (row_selected xs ms) \<subseteq> {0}"
      using assms by (auto simp: row_selected_def list_all_iff dest!: set_zip_leftD)
    with Cons have "set (y # ys) = {0}" by auto
    with Cons show ?thesis by (simp only: row_masked_max_def list.case) simp
  qed (simp add: row_masked_max_def)
  then show ?thesis
    using row_masked_sum_zeros [OF assms] by (cases l) (simp_all add: row_stat_def row_masked_mean_def)
qed

text \<open>An option that accepts the ratio one.\<close>

definition contains_one :: "rs_option \<times> real option \<times> real \<Rightarrow> bool" where
  "contains_one ot =
     (case ot of (opt, lower, upper) \<Rightarrow>
        if snd opt = DivK1 then (case lower of None \<Rightarrow> False | Some lo \<Rightarrow> lo \<le> 1) \<and> 1 \<le> upper else 0 \<le> upper)"

lemma accepted_at_zero:
  assumes "i < length lr" and "j < length (lr ! i)" and "list_all (\<lambda>x. x = 0) (lr ! i)"
  shows "accepted lr m (i, j) ot = contains_one ot"
proof -
  obtain l d lower upper where ot: "ot = ((l, d), lower, upper)" by (metis surj_pair)
  have "lr ! i ! j = 0" using assms(2,3) by (simp add: list_all_length)
  moreover have "list_all (\<lambda>x. x = 0) (map (token_stat d) (lr ! i))"
    using assms(3) by (auto simp: list_all_iff token_stat_zero)
  ultimately have "token_or_seq_stat (l, d) lr m (i, j) = 0"
    by (simp add: token_or_seq_stat_def mat_at_def token_stat_zero row_stat_zeros)
  then show ?thesis
    by (simp add: accepted_def contains_one_def ot split: option.split)
qed

lemma difference_with_itself: "list_all (list_all (\<lambda>x. x = 0)) (ew2 (-) A (A :: mat))"
  by (simp add: ew2_diag map_mat_def list_all_iff)

lemma surviving_on_policy:
  assumes "same_shape A M" and "list_all contains_one specs"
  shows "surviving specs (ew2 (-) A A) M = M"
proof -
  have shape: "same_shape (ew2 (-) A A) M" using assms(1) by (simp add: same_shape_ew2)
  have "list_all (accepted (ew2 (-) A A) M (i, j)) specs" if "i < length M" "j < length (M ! i)" for i j
  proof -
    have i: "i < length (ew2 (-) A A)" "j < length (ew2 (-) A A ! i)"
      using that same_shape_length [OF shape] same_shape_nth [OF shape] by auto
    have "list_all (\<lambda>x. x = 0) (ew2 (-) A A ! i)"
      using difference_with_itself [of A] i(1) by (metis list_all_length)
    then have "accepted (ew2 (-) A A) M (i, j) ot = contains_one ot" for ot
      by (rule accepted_at_zero [OF i])
    then show ?thesis using assms(2) by (simp add: list_all_iff)
  qed
  then show ?thesis
    unfolding surviving_def by (intro mat_eqI) auto
qed

lemma truncated_on_policy:
  assumes "same_shape A M" and "1 \<le> thr"
  shows "truncated_weights level thr (ew2 (-) A A) M = M"
proof -
  have shape: "same_shape (ew2 (-) A A) M" using assms(1) by (simp add: same_shape_ew2)
  have "level_ratio level (ew2 (-) A A) M (i, j) = 1" if "i < length M" "j < length (M ! i)" for i j
  proof -
    have i: "i < length (ew2 (-) A A)" "j < length (ew2 (-) A A ! i)"
      using that same_shape_length [OF shape] same_shape_nth [OF shape] by auto
    have z: "list_all (\<lambda>x. x = 0) (ew2 (-) A A ! i)"
      using difference_with_itself [of A] i(1) by (metis list_all_length)
    then have "ew2 (-) A A ! i ! j = 0" using i(2) by (simp add: list_all_length)
    with row_masked_sum_zeros [OF z] show ?thesis
      by (simp add: level_ratio_def mat_at_def safe_exp_def clamp_def safety_bound_def)
  qed
  then show ?thesis
    using assms(2) unfolding truncated_weights_def by (intro mat_eqI) auto
qed

lemma gap_metrics_on_policy:
  "map_of (gap_metrics A A M) ''kl'' = Some 0" "map_of (gap_metrics A A M) ''k3_kl'' = Some 0"
  by (simp_all add: gap_metrics_def Let_def ew2_diag map_mat_def comp_def masked_mean_zero [unfolded map_mat_def])

end
