(* ===== verification/Rollout_Pipeline.thy ===== *)
theory Rollout_Pipeline
  imports Rollout_Correction_Properties
begin

text \<open>
  Rollout correction inside the training step: what it does when the policies agree, which presets can
  run, how the trainer stores its result in the batch, and the loss the bypass mode computes.
\<close>

section \<open>Policies that agree\<close>

lemma off_metrics_on_policy:
  assumes "compute_offpolicy_metrics A (Some A) M = Inr off_ms"
  shows "map_of off_ms ''kl'' = Some 0" and "map_of off_ms ''k3_kl'' = Some 0" and "distinct (map fst off_ms)"
proof -
  from assms have off: "off_ms = [(''training_ppl'', vec_mean (map (\<lambda>x. exp (- x)) (row_means A M))),
      (''training_log_ppl'', vec_mean (map uminus (row_means A M)))] @ gap_metrics A A M"
    by (simp add: compute_offpolicy_metrics_def ensure_eq_Inr Let_def)
  show "map_of off_ms ''kl'' = Some 0" "map_of off_ms ''k3_kl'' = Some 0"
    unfolding off by (simp_all add: gap_metrics_on_policy)
  show "distinct (map fst off_ms)"
    unfolding off by (simp add: gap_metrics_def Let_def)
qed

definition lenient :: "rollout_corr_config \<Rightarrow> bool" where
  "lenient cfg \<longleftrightarrow> (case rollout_is_threshold cfg of None \<Rightarrow> True | Some thr \<Rightarrow> 1 \<le> thr)"

lemma on_policy_run:
  assumes "same_shape log_prob response_mask" and "valid_mask response_mask" and "weights_ok cfg"
    and "rs_specs cfg specs" and "list_all contains_one specs" and "lenient cfg"
    and "\<not> rollout_is_batch_normalize cfg"
  shows "\<exists>ms. compute_rollout_correction_and_rejection_mask r log_prob log_prob response_mask cfg =
      Inr (if rollout_is cfg = None \<or> rollout_is_threshold cfg = None then None
           else Some (weights_container response_mask :: 'm rl_data), response_mask, ms) \<and>
    map_of ms ''rollout_corr/kl'' = Some 0 \<and> map_of ms ''rollout_corr/k3_kl'' = Some 0"
proof -
  obtain is_ms rs_ms off_ms where run: "compute_offpolicy_metrics log_prob (Some log_prob) response_mask = Inr off_ms"
    "compute_rollout_correction_and_rejection_mask r log_prob log_prob response_mask cfg =
     Inr (map_option weights_container (correction_weights cfg (ew2 (-) log_prob log_prob) response_mask)
         :: 'm rl_data option,
       surviving specs (ew2 (-) log_prob log_prob) response_mask,
       with_prefix (dict_update (dict_update (dict_update [] is_ms) rs_ms) off_ms))"
    using correction_spec [OF same_shape_refl assms(1,2,3,4,7)] by blast
  note off = off_metrics_on_policy [OF run(1)]
  have w: "correction_weights cfg (ew2 (-) log_prob log_prob) response_mask =
    (if rollout_is cfg = None \<or> rollout_is_threshold cfg = None then None else Some response_mask)"
    using assms(6) truncated_on_policy [OF assms(1)]
    by (auto simp: correction_weights_def lenient_def split: option.splits)
  have kl: "map_of (with_prefix (dict_update d off_ms)) (''rollout_corr/'' @ k) = Some 0"
    if "map_of off_ms k = Some 0" for d k
    unfolding map_of_with_prefix map_of_dict_update_distinct [OF off(3)] using that by simp
  show ?thesis
    unfolding run(2) surviving_on_policy [OF assms(1,5)] w
    using kl [OF off(1)] kl [OF off(2)] by (intro exI conjI) (auto simp: o_def)
qed

text \<open>
  When the training policy and the rollout policy give the same log-probabilities, correction with a
  truncation threshold of at least one and rejection bounds that contain the ratio one changes nothing:
  every token keeps its mask value, every valid token has weight one, and both KL estimates are zero.
\<close>

theorem on_policy_correction_noop:
  assumes "same_shape log_prob response_mask" and "valid_mask response_mask" and "weights_ok cfg"
    and "rs_specs cfg specs" and "list_all contains_one specs" and "lenient cfg"
    and "\<not> rollout_is_batch_normalize cfg"
  shows "\<exists>ms. compute_rollout_correction_and_rejection_mask r log_prob log_prob response_mask cfg =
      Inr (if rollout_is cfg = None \<or> rollout_is_threshold cfg = None then None
           else Some (weights_container response_mask :: 'm rl_data), response_mask, ms) \<and>
    map_of ms ''rollout_corr/kl'' = Some 0 \<and> map_of ms ''rollout_corr/k3_kl'' = Some 0"
  using assms by (rule on_policy_run)

section \<open>Presets\<close>

definition seq_bounds :: "rs_threshold option" where
  "seq_bounds = Some (StrThreshold ''0.5_2.0'')"

definition geo_bounds :: "rs_threshold option" where
  "geo_bounds = Some (StrThreshold ''0.999_1.001'')"

definition k3_bound :: "rs_threshold option" where
  "k3_bound = Some (NumThreshold (1 / 100))"

definition presets :: "rollout_corr_config list" where
  "presets =
     [default_rollout_corr, decoupled_token_is 2, decoupled_seq_is 2, decoupled_seq_is_rs 2 seq_bounds,
      decoupled_geo_rs geo_bounds, bypass_ppo_clip, bypass_ppo_clip_geo_rs geo_bounds, bypass_ppo_clip_k3_rs k3_bound,
      bypass_pg_is 2, bypass_pg_geo_rs geo_bounds, decoupled_geo_rs_seq_tis 2 geo_bounds,
      decoupled_geo_rs_token_tis 2 geo_bounds, bypass_pg_geo_rs_seq_tis 2 geo_bounds,
      bypass_pg_geo_rs_token_tis 2 geo_bounds, decoupled_k3_rs k3_bound, decoupled_k3_rs_seq_tis 2 k3_bound,
      decoupled_k3_rs_token_tis 2 k3_bound, disabled]"

lemmas preset_defs = default_rollout_corr_def decoupled_token_is_def decoupled_seq_is_def decoupled_seq_is_rs_def
  decoupled_geo_rs_def bypass_ppo_clip_def bypass_ppo_clip_geo_rs_def bypass_ppo_clip_k3_rs_def
  bypass_pg_is_def bypass_pg_geo_rs_def decoupled_geo_rs_seq_tis_def decoupled_geo_rs_token_tis_def
  bypass_pg_geo_rs_seq_tis_def bypass_pg_geo_rs_token_tis_def decoupled_k3_rs_def decoupled_k3_rs_seq_tis_def
  decoupled_k3_rs_token_tis_def disabled_def

lemma single_option:
  "parse_options ''seq_sum_k1'' = Inr [(SeqSum, DivK1)]"
  "parse_options ''seq_mean_k1'' = Inr [(SeqMean, DivK1)]"
  "parse_options ''seq_mean_k3'' = Inr [(SeqMean, DivK3)]"
  by (simp_all add: parse_options_def rs_option_of_def supported_rs_options_def option_name_def level_name_def
      div_name_def py_strip_def py_space_def)

lemma preset_thresholds:
  "parse_rollout_rs_thresholds [opt] seq_bounds = rbind (parse_threshold opt (RawStr ''0.5_2.0'')) (\<lambda>b. Inr [(opt, b)])"
  "parse_rollout_rs_thresholds [opt] geo_bounds = rbind (parse_threshold opt (RawStr ''0.999_1.001'')) (\<lambda>b. Inr [(opt, b)])"
  "parse_rollout_rs_thresholds [opt] k3_bound = rbind (parse_threshold opt (RawNum (1 / 100))) (\<lambda>b. Inr [(opt, b)])"
  by (cases "parse_threshold opt (RawStr ''0.5_2.0'')"; cases "parse_threshold opt (RawStr ''0.999_1.001'')";
      cases "parse_threshold opt (RawNum (1 / 100))";
      simp add: parse_rollout_rs_thresholds_def seq_bounds_def geo_bounds_def k3_bound_def raw_specs_of_def
        py_strip_def py_space_def)+

lemma preset_parsed:
  "parse_threshold (l, DivK1) (RawStr ''0.5_2.0'') = Inr (Some (1 / 2), 2)"
  "parse_threshold (l, DivK1) (RawStr ''0.999_1.001'') = Inr (Some (999 / 1000), 1001 / 1000)"
  "parse_threshold (l, DivK3) (RawNum (1 / 100)) = Inr (None, 1 / 100)"
  by (simp_all add: parse_threshold_def parse_k1_def parse_upper_def spec_halves_def float_or_raise_def raw_float_def
      number_defs prefix_def)

lemma preset_configs:
  assumes "cfg \<in> set presets"
  shows "weights_ok cfg" and "lenient cfg" and "\<not> rollout_is_batch_normalize cfg"
    and "\<exists>specs. rs_specs cfg specs \<and> list_all contains_one specs"
proof -
  have all: "list_all (\<lambda>cfg. weights_ok cfg \<and> lenient cfg \<and> \<not> rollout_is_batch_normalize cfg) presets"
    by (simp add: presets_def preset_defs weights_ok_def lenient_def)
  then show "weights_ok cfg" "lenient cfg" "\<not> rollout_is_batch_normalize cfg"
    using assms by (auto simp: list_all_iff)
  have "list_all (\<lambda>cfg. \<exists>specs. rs_specs cfg specs \<and> list_all contains_one specs) presets"
    by (simp add: presets_def preset_defs rs_specs_def single_option preset_thresholds preset_parsed
        contains_one_def seq_bounds_def [symmetric] geo_bounds_def [symmetric] k3_bound_def [symmetric]
        split: option.split)
      (simp add: seq_bounds_def geo_bounds_def k3_bound_def)
  then show "\<exists>specs. rs_specs cfg specs \<and> list_all contains_one specs"
    using assms by (auto simp: list_all_iff)
qed

lemma sample_correction:
  "same_shape [[-1, -2 :: real]] [[1, 0 :: real]]" "valid_mask [[1, 0]]"
  by (simp_all add: same_shape_def valid_mask_def binary_mask_def any_token_def)

theorem on_policy_correction_noop_witness:
  "\<exists>ms. compute_rollout_correction_and_rejection_mask None [[-1, -2]] [[-1, -2]] [[1, 0]]
      (decoupled_seq_is_rs 2 seq_bounds) = Inr (Some (weights_container [[1, 0]] :: unit rl_data), [[1, 0]], ms) \<and>
    map_of ms ''rollout_corr/kl'' = Some 0 \<and> map_of ms ''rollout_corr/k3_kl'' = Some 0"
proof -
  have "decoupled_seq_is_rs 2 seq_bounds \<in> set presets" by (simp add: presets_def)
  note ok = preset_configs [OF this]
  from ok(4) obtain specs where "rs_specs (decoupled_seq_is_rs 2 seq_bounds) specs" "list_all contains_one specs" by blast
  from on_policy_correction_noop [OF sample_correction ok(1) this ok(2,3), of None] show ?thesis
    by (simp add: decoupled_seq_is_rs_def default_rollout_corr_def)
qed

text \<open>
  Every preset of the configuration, with the default values of its arguments, runs without an
  exception on every batch with a valid token, whatever the two policies; its thresholds parse, and it
  leaves a batch alone whose two policies agree.
\<close>

theorem presets_run:
  assumes "cfg \<in> set presets" and "same_shape old_log_prob rollout_log_prob"
    and "same_shape old_log_prob response_mask" and "valid_mask response_mask"
  shows "(\<exists>proto M ms. compute_rollout_correction_and_rejection_mask r old_log_prob rollout_log_prob response_mask cfg =
      Inr (proto :: 'm rl_data option, M, ms)) \<and>
    (\<exists>proto ms. compute_rollout_correction_and_rejection_mask r old_log_prob old_log_prob response_mask cfg =
      Inr (proto :: 'm rl_data option, response_mask, ms))"
proof -
  obtain specs where specs: "rs_specs cfg specs" "list_all contains_one specs"
    using preset_configs(4) [OF assms(1)] by blast
  note ok = preset_configs(1-3) [OF assms(1)]
  show ?thesis
    using correction_spec [OF assms(2-4) ok(1) specs(1) ok(3), of r]
      on_policy_run [OF assms(3,4) ok(1) specs ok(2,3), of r] by blast
qed

theorem presets_run_witness:
  "\<exists>proto M ms. compute_rollout_correction_and_rejection_mask None [[-1, -2]] [[-3, -2]] [[1, 0]]
     (bypass_pg_geo_rs_token_tis 2 geo_bounds) = Inr (proto :: unit rl_data option, M, ms)"
proof -
  have "bypass_pg_geo_rs_token_tis 2 geo_bounds \<in> set presets" by (simp add: presets_def)
  moreover have "same_shape [[-1, -2 :: real]] [[-3, -2 :: real]]" by (simp add: same_shape_def)
  ultimately show ?thesis
    using presets_run [OF _ _ sample_correction, of _ _ None] by blast
qed

section \<open>The loss of the bypass mode\<close>

lemma computed_weights_container:
  "w \<noteq> Some [] \<Longrightarrow> computed_weights (map_option weights_container w) = Inr w"
  by (cases w) (auto simp: computed_weights_def weights_container_def dp_len_def tensor_def)

text \<open>
  C21: the loss of the bypass mode. With the rollout's log-probabilities in the place of the old ones, the
  loss type \<open>ppo_clip\<close> is the clipped loss on the surviving tokens and does not depend on the importance
  weights, which only enter the metrics; the loss type \<open>reinforce\<close> weights every token by its truncated
  ratio to the rollout policy; any other type is refused.
\<close>

theorem bypass_loss:
  assumes "same_shape log_prob old_log_prob" and "same_shape log_prob response_mask" and "valid_mask response_mask"
    and "weights_ok cfg" and "rs_specs cfg specs" and "\<not> rollout_is_batch_normalize cfg"
  shows "rbind (compute_policy_loss_bypass_mode r (Some cfg) old_log_prob log_prob advantages response_mask mode (Some c))
      (\<lambda>(l, _). Inr l) =
    (let M = surviving specs (ew2 (-) log_prob old_log_prob) response_mask;
         pg = ew2 (\<lambda>a lp. - a * lp) advantages log_prob
     in if loss_type cfg = ''ppo_clip''
        then rbind (compute_policy_loss_vanilla old_log_prob log_prob advantages M mode (Some c) None) (\<lambda>(l, _). Inr l)
        else if loss_type cfg = ''reinforce''
        then agg_loss (case correction_weights cfg (ew2 (-) log_prob old_log_prob) response_mask of
                         None \<Rightarrow> pg | Some w \<Rightarrow> ew2 (*) pg w) M mode (global_batch_info c)
        else Inl ValueError)"
proof -
  let ?lr = "ew2 (-) log_prob old_log_prob"
  obtain ms where run: "compute_rollout_correction_and_rejection_mask r log_prob old_log_prob response_mask cfg =
     Inr (map_option weights_container (correction_weights cfg ?lr response_mask) :: unit rl_data option,
       surviving specs ?lr response_mask, ms)"
    using correction_spec [OF assms, of r] by blast
  have "response_mask \<noteq> []" using assms(3) by (auto simp: valid_mask_def any_token_def)
  then have "correction_weights cfg ?lr response_mask \<noteq> Some []"
    by (auto simp: correction_weights_def truncated_weights_def imap_mat_def split: option.splits)
  note w = computed_weights_container [OF this]
  have drop_metrics: "rbind (rbind m (\<lambda>(l, k). Inr (l, f k))) (\<lambda>(l, _). Inr l) = rbind m (\<lambda>(l, _). Inr l)"
    for m :: "(real \<times> 'k) result" and f :: "'k \<Rightarrow> metrics"
    by (cases m) auto
  have drop_kl: "rbind (rbind m (\<lambda>l. Inr (l, k))) (\<lambda>(l, _). Inr l) = m" for m :: "real result" and k :: real
    by (cases m) auto
  have minus: "(\<lambda>a. (*) (- a)) = (\<lambda>a lp. - (a * lp :: real))"
    by (simp add: fun_eq_iff)
  show ?thesis
    unfolding compute_policy_loss_bypass_mode_def
    by (simp add: run w drop_metrics Let_def)
      (simp add: compute_policy_loss_reinforce_def with_config_def Let_def drop_kl minus split: option.split)
qed

definition sample_actor :: actor_config where
  "sample_actor = \<lparr>clip_ratio = 1 / 5, clip_ratio_low = None, clip_ratio_high = None, clip_ratio_c = None,
     tau_pos = 1, tau_neg = 1, clip_cov_ratio = None, clip_cov_lb = None, clip_cov_ub = None,
     kl_cov_ratio = None, ppo_kl_coef = None, global_batch_info = default_info\<rparr>"

theorem bypass_loss_witness:
  "rbind (compute_policy_loss_bypass_mode None (Some (bypass_pg_is 2)) [[-9, -2]] [[-1, -2]] [[3, 1]] [[1, 0]]
     ''token-mean'' (Some sample_actor)) (\<lambda>(l, _). Inr l) = Inr 6"
proof -
  have preset: "bypass_pg_is 2 \<in> set presets" by (simp add: presets_def)
  have specs: "rs_specs (bypass_pg_is 2) []" by (simp add: rs_specs_def bypass_pg_is_def default_rollout_corr_def)
  have shape: "same_shape [[-1, -2 :: real]] [[-9, -2 :: real]]" by (simp add: same_shape_def)
  have w: "correction_weights (bypass_pg_is 2) [[8, 0]] [[1, 0]] = Some [[2, 0]]"
    using exp_ge_add_one_self [of "8 :: real"]
    by (simp add: correction_weights_def bypass_pg_is_def default_rollout_corr_def truncated_weights_def level_ratio_def
        safe_exp_def clamp_def safety_bound_def imap_mat_def mat_at_def upt_rec row_masked_sum_def masked_value_def)
  have lt: "loss_type (bypass_pg_is 2) = ''reinforce''" by (simp add: bypass_pg_is_def)
  note pr = preset_configs(1,3) [OF preset]
  show ?thesis
    using bypass_loss [OF shape sample_correction(1,2) pr(1) specs pr(2), of None "[[3, 1]]" "''token-mean''" sample_actor]
    by (simp add: ew2_def w surviving_def imap_mat_id lt Let_def)
      (simp add: agg_loss_def required_count_def sample_actor_def default_info_def masked_sum_def row_masked_sum_def
        masked_value_def mat_sum_def)
qed

section \<open>The batch after the correction\<close>

lemma union_weights:
  assumes "batch d = Some td" and "td_size td = length w" and "map_of (td_items td) ''rollout_is_weights'' = None"
  shows "dp_union d (weights_container w) =
    Inr (d\<lparr>batch := Some (td\<lparr>td_items := AList.update ''rollout_is_weights'' w (td_items td)\<rparr>)\<rparr>)"
  using assms by (simp add: dp_union_def weights_container_def union_tensor_dict_def)

text \<open>
  The trainer's correction of a batch that has the log-probabilities of both policies: the response
  mask becomes the mask of the surviving tokens, the weights are added under their key when they are
  requested, no other tensor, array or meta entry changes, and the container stays well formed.
\<close>

theorem correction_updates_batch:
  fixes d :: "'m rl_data"
  assumes wf: "wf_dp d" and tensors: "tensor d ''old_log_probs'' = Inr old" "tensor d ''rollout_log_probs'' = Inr roll"
    "tensor d ''response_mask'' = Inr M" and fresh: "\<not> has_tensor d ''rollout_is_weights''"
    and ok: "same_shape old roll" "same_shape old M" "valid_mask M" "weights_ok cfg" "rs_specs cfg specs"
      "\<not> rollout_is_batch_normalize cfg"
  shows "\<exists>d' ms. compute_rollout_correction_and_add_to_batch r d cfg = Inr (d', ms) \<and> wf_dp d' \<and>
    tensor d' ''response_mask'' = Inr (surviving specs (ew2 (-) old roll) M) \<and>
    (case correction_weights cfg (ew2 (-) old roll) M of
       None \<Rightarrow> \<not> has_tensor d' ''rollout_is_weights'' | Some w \<Rightarrow> tensor d' ''rollout_is_weights'' = Inr w) \<and>
    (\<forall>k. k \<noteq> ''response_mask'' \<and> k \<noteq> ''rollout_is_weights'' \<longrightarrow> tensor d' k = tensor d k) \<and>
    non_tensor d' = non_tensor d \<and> meta d' = meta d"
proof -
  let ?lr = "ew2 (-) old roll" and ?W = "correction_weights cfg (ew2 (-) old roll) M"
  obtain ms where run: "compute_rollout_correction_and_rejection_mask r old roll M cfg =
     Inr (map_option weights_container ?W :: 'm rl_data option, surviving specs ?lr M, ms)"
    using correction_spec [OF ok, of r] by blast
  obtain td where td: "batch d = Some td" "map_of (td_items td) ''response_mask'' = Some M"
    using tensor_batch [OF tensors(3)] by blast
  have len: "length M = td_size td"
    using wf_dpD(2) [OF wf td(1) map_of_SomeD [OF td(2)]] td(1) by (simp add: dp_len_def)
  then obtain d1 where d1: "set_tensor ''response_mask'' (surviving specs ?lr M) d = Inr d1"
    using td(1) by (simp add: set_tensor_def surviving_def)
  note s = tensor_set_tensor [OF d1]
  from d1 td(1) have d1_eq: "d1 = d\<lparr>batch := Some (td\<lparr>td_items := AList.update ''response_mask''
      (surviving specs ?lr M) (td_items td)\<rparr>)\<rparr>"
    by (simp add: set_tensor_def ensure_eq_Inr)
  show ?thesis
  proof (cases ?W)
    case None
    have "\<not> has_tensor d1 ''rollout_is_weights''"
      using fresh td(1) by (simp add: d1_eq has_tensor_def update_conv')
    with s(6) [OF wf] s(1-4) show ?thesis
      unfolding compute_rollout_correction_and_add_to_batch_def
      by (intro exI [of _ d1] exI [of _ ms]) (simp add: tensors run None d1)
  next
    case (Some w)
    have w: "length w = td_size td"
      using Some len by (auto simp: correction_weights_def truncated_weights_def split: option.splits)
    have fresh1: "map_of (AList.update ''response_mask'' (surviving specs ?lr M) (td_items td)) ''rollout_is_weights'' = None"
      using fresh td(1) by (auto simp: has_tensor_def update_conv' split: option.splits)
    obtain d2 where d2: "set_tensor ''rollout_is_weights'' w d1 = Inr d2"
      using w by (simp add: set_tensor_def d1_eq)
    note s2 = tensor_set_tensor [OF d2]
    have union: "dp_union d1 (weights_container w) = Inr d2"
      using union_weights [of d1 _ w] fresh1 w d2 by (simp add: d1_eq set_tensor_def)
    show ?thesis
      using s2(6) [OF s(6) [OF wf]] s2(1-4) s(1-4)
      unfolding compute_rollout_correction_and_add_to_batch_def
      by (intro exI [of _ d2] exI [of _ ms]) (simp add: tensors run Some d1 union)
  qed
qed

definition corr_batch :: "unit rl_data" where
  "corr_batch = \<lparr>batch = Some \<lparr>td_size = 1, td_items = [(''old_log_probs'', [[8, 0]]), (''rollout_log_probs'', [[0, 0]]),
     (''response_mask'', [[1, 0]])]\<rparr>, non_tensor = [], meta = []\<rparr>"

theorem correction_updates_batch_witness:
  "\<exists>d' ms. compute_rollout_correction_and_add_to_batch None corr_batch (decoupled_token_is 2) = Inr (d', ms) \<and>
     wf_dp d' \<and> tensor d' ''response_mask'' = Inr [[1, 0]] \<and> tensor d' ''rollout_is_weights'' = Inr [[2, 0]]"
proof -
  have preset: "decoupled_token_is 2 \<in> set presets" by (simp add: presets_def)
  note pr = preset_configs(1,3) [OF preset]
  have batch: "wf_dp corr_batch" "tensor corr_batch ''old_log_probs'' = Inr [[8, 0]]"
    "tensor corr_batch ''rollout_log_probs'' = Inr [[0, 0]]" "tensor corr_batch ''response_mask'' = Inr [[1, 0]]"
    "\<not> has_tensor corr_batch ''rollout_is_weights''"
    by (simp_all add: corr_batch_def wf_dp_def dp_len_def keys_def tensor_def has_tensor_def)
  have ok: "same_shape [[8, 0 :: real]] [[0, 0 :: real]]" "same_shape [[8, 0 :: real]] [[1, 0 :: real]]"
    "rs_specs (decoupled_token_is 2) []"
    by (simp_all add: same_shape_def rs_specs_def decoupled_token_is_def default_rollout_corr_def)
  have w: "correction_weights (decoupled_token_is 2) [[8, 0]] [[1, 0]] = Some [[2, 0]]"
    using exp_ge_add_one_self [of "8 :: real"]
    by (simp add: correction_weights_def decoupled_token_is_def default_rollout_corr_def truncated_weights_def
        level_ratio_def safe_exp_def clamp_def safety_bound_def imap_mat_def mat_at_def upt_rec)
  from correction_updates_batch [OF batch ok(1,2) sample_correction(2) pr(1) ok(3) pr(2), of None]
  show ?thesis by (auto simp: ew2_def w surviving_def imap_mat_id)
qed

end
