(* ===== verification/Actor_Forward.thy ===== *)
theory Actor_Forward
  imports Torch_Functional
begin

text \<open>
  The forward pass of the actor, \<open>_forward_micro_batch\<close> of \<open>src/verl/workers/actor/dp_actor.py\<close>, with
  the tensor helpers it uses: log-probabilities of the response tokens from the logits of a model. The
  model is a parameter, once on padded rows and once on the packed tokens of a batch. Modelled are the
  padded path and the path that removes the padding, without sequence parallelism, for text inputs;
  of the fused kernels and the prefix grouper only the refusal of logit distillation. Rows of a batch are
  lists; token ids, positions and masks are natural numbers. The main result: the two paths give the same
  log-probabilities at the tokens that matter.
\<close>

section \<open>Log-probabilities from logits\<close>

definition log_softmax :: "vec \<Rightarrow> vec" where
  "log_softmax logits = map (\<lambda>x. x - logsumexp logits) logits"

text \<open>\<open>torch.gather\<close> along the last dimension, for one label: an index out of range raises.\<close>

definition gather_from_labels :: "'a list \<Rightarrow> nat \<Rightarrow> 'a result" where
  "gather_from_labels data label = (if label < length data then Inr (data ! label) else Inl RuntimeError)"

text \<open>One position of \<open>logprobs_from_logits_naive\<close> and of the \<open>float32\<close> branch of \<open>logprobs_from_logits_v2\<close>.\<close>

definition logprob_naive :: "vec \<Rightarrow> nat \<Rightarrow> real result" where
  "logprob_naive logits label = gather_from_labels (log_softmax logits) label"

definition logprob_v2 :: "vec \<Rightarrow> nat \<Rightarrow> real result" where
  "logprob_v2 logits label = rbind (gather_from_labels logits label) (\<lambda>x. Inr (x - logsumexp logits))"

text \<open>A row of logits with its row of labels; the shapes must agree.\<close>

definition logprobs_from_logits :: "vec list \<Rightarrow> nat list \<Rightarrow> vec result" where
  "logprobs_from_logits logits labels =
     ensure (length labels = length logits) RuntimeError
       (mapM_result (\<lambda>(v, y). logprob_v2 v y) (zip logits labels))"

definition sum_pi_squared_of :: "vec \<Rightarrow> real" where
  "sum_pi_squared_of logits = exp (logsumexp (map (\<lambda>x. 2 * x) logits) - 2 * logsumexp logits)"

section \<open>Removing and restoring the padding\<close>

text \<open>\<open>xs[-n - 1 : -1]\<close>.\<close>

definition resp_slice :: "nat \<Rightarrow> 'a list \<Rightarrow> 'a list" where
  "resp_slice n xs = butlast (drop (length xs - (n + 1)) xs)"

text \<open>The indices of the valid tokens in the flattened batch, and the tokens at these indices.\<close>

definition nonzero_indices :: "nat list \<Rightarrow> nat list" where
  "nonzero_indices flat_mask = filter (\<lambda>p. flat_mask ! p \<noteq> 0) [0..<length flat_mask]"

definition unpad_input :: "'a list list \<Rightarrow> nat list list \<Rightarrow> 'a list \<times> nat list" where
  "unpad_input rows attention_mask =
     (let indices = nonzero_indices (concat attention_mask)
      in (map (\<lambda>p. concat rows ! p) indices, indices))"

text \<open>\<open>output[indices] = values\<close> on a tensor of zeros, and the rows of the result.\<close>

definition index_put :: "'a \<Rightarrow> 'a list \<Rightarrow> nat list \<Rightarrow> nat \<Rightarrow> 'a list" where
  "index_put zero values indices n =
     foldl (\<lambda>out (p, v). out[p := v]) (replicate n zero) (zip indices values)"

definition pad_input :: "'a \<Rightarrow> 'a list \<Rightarrow> nat list \<Rightarrow> nat \<Rightarrow> nat \<Rightarrow> 'a list list" where
  "pad_input zero values indices batch_size seqlen =
     py_chunks seqlen (index_put zero values indices (batch_size * seqlen))"

section \<open>The forward pass\<close>

text \<open>
  The model: logits of every position from ids, mask and positions of the padded rows, or from the
  packed ids and positions of all valid tokens (the variable-length attention, which finds the sequences
  by their positions starting at zero).
\<close>

record lm =
  padded_logits :: "nat list list \<Rightarrow> nat list list \<Rightarrow> nat list list \<Rightarrow> vec list list"
  packed_logits :: "nat list \<Rightarrow> nat list \<Rightarrow> vec list"

record micro_inputs =
  in_responses :: "nat list list"
  in_ids :: "nat list list"
  in_mask :: "nat list list"
  in_positions :: "nat list list"

record fwd_flags =
  want_entropy :: bool
  want_sum_pi :: bool
  want_all_logps :: bool
  want_topk :: "nat option"
  given_topk :: "nat list list list option"
  fused_kernels :: bool
  temperature :: real

record fwd_out =
  out_log_probs :: mat
  out_entropys :: "mat option"
  out_sum_pi :: "mat option"
  out_all_logps :: "vec list list option"
  out_topk_logps :: "vec list list option"
  out_topk_indices :: "nat list list list option"

definition width :: "'a list list \<Rightarrow> nat" where
  "width A = (case A of [] \<Rightarrow> 0 | row # _ \<Rightarrow> length row)"

definition use_topk :: "fwd_flags \<Rightarrow> bool" where
  "use_topk f \<longleftrightarrow> want_topk f \<noteq> None \<or> given_topk f \<noteq> None"

definition compute_all_logps :: "fwd_flags \<Rightarrow> bool" where
  "compute_all_logps f \<longleftrightarrow> want_all_logps f \<and> \<not> use_topk f"

text \<open>The top-k indices of a position (\<open>torch.topk\<close> picks them) and their log-probabilities.\<close>

definition topk_position :: "(vec \<Rightarrow> nat \<Rightarrow> nat list) \<Rightarrow> nat option \<Rightarrow> vec \<Rightarrow> nat list" where
  "topk_position topk k logits = topk logits (min (case k of None \<Rightarrow> 0 | Some n \<Rightarrow> n) (length logits))"

definition topk_logps_at :: "vec \<Rightarrow> nat list \<Rightarrow> vec result" where
  "topk_logps_at logits idx =
     rbind (mapM_result (gather_from_labels logits) idx) (\<lambda>xs. Inr (map (\<lambda>x. x - logsumexp logits) xs))"

definition topk_logps_row :: "vec list \<Rightarrow> nat list list \<Rightarrow> vec list result" where
  "topk_logps_row logits idx =
     ensure (length idx = length logits) RuntimeError
       (mapM_result (\<lambda>(v, js). topk_logps_at v js) (zip logits idx))"

definition scaled_logits :: "real \<Rightarrow> vec list \<Rightarrow> vec list" where
  "scaled_logits temp logits = map (map (\<lambda>x. x / temp)) logits"

definition out_if :: "bool \<Rightarrow> 'a \<Rightarrow> 'a option" where
  "out_if b x = (if b then Some x else None)"

definition forward_padded ::
  "(vec \<Rightarrow> nat \<Rightarrow> nat list) \<Rightarrow> lm \<Rightarrow> fwd_flags \<Rightarrow> micro_inputs \<Rightarrow> fwd_out result" where
  "forward_padded topk model f inp =
     ensure (\<not> ((want_all_logps f \<or> use_topk f) \<and> fused_kernels f)) ValueError
      (let response_length = width (in_responses inp);
           logits = map (\<lambda>row. resp_slice response_length (scaled_logits (temperature f) row))
                      (padded_logits model (in_ids inp) (in_mask inp) (in_positions inp));
           indices = (case given_topk f of
                        None \<Rightarrow> map_mat (topk_position topk (want_topk f)) logits | Some idx \<Rightarrow> idx)
       in ensure (length (in_responses inp) = length logits) RuntimeError
        (rbind (mapM_result (\<lambda>(row, ys). logprobs_from_logits row ys) (zip logits (in_responses inp))) (\<lambda>log_probs.
         rbind (if use_topk f
                then ensure (length indices = length logits) RuntimeError
                       (rbind (mapM_result (\<lambda>(row, js). topk_logps_row row js) (zip logits indices)) (\<lambda>t. Inr (Some t)))
                else Inr None) (\<lambda>topk_logps.
           Inr \<lparr>out_log_probs = log_probs,
                out_entropys = out_if (want_entropy f) (map_mat entropy_from_logits logits),
                out_sum_pi = out_if (want_sum_pi f) (map_mat sum_pi_squared_of logits),
                out_all_logps = out_if (compute_all_logps f) (map_mat log_softmax logits),
                out_topk_logps = topk_logps,
                out_topk_indices = out_if (use_topk f \<and> given_topk f = None) indices\<rparr>))))"

text \<open>
  The path with removed padding. A batch without valid tokens feeds one zero token to the model and drops
  its outputs. \<open>pad_back\<close> scatters packed values to the padded shape and keeps the response part.
\<close>

definition pad_back :: "'a \<Rightarrow> nat list \<Rightarrow> nat \<Rightarrow> nat \<Rightarrow> nat \<Rightarrow> 'a list \<Rightarrow> 'a list list" where
  "pad_back zero indices batch_size seqlen response_length values =
     map (resp_slice response_length) (pad_input zero values indices batch_size seqlen)"

text \<open>Given indices have one row per response token; the other positions of the sequence get zeros.\<close>

definition full_topk_row :: "nat \<Rightarrow> nat \<Rightarrow> nat list list \<Rightarrow> nat list list result" where
  "full_topk_row seqlen response_length js =
     ensure (length js = response_length \<and> response_length < seqlen) RuntimeError
       (let zeros = replicate (width js) 0
        in Inr (replicate (seqlen - response_length - 1) zeros @ js @ [zeros]))"

definition packed_topk_indices ::
  "(vec \<Rightarrow> nat \<Rightarrow> nat list) \<Rightarrow> fwd_flags \<Rightarrow> micro_inputs \<Rightarrow> nat list \<Rightarrow> vec list \<Rightarrow> nat list list result" where
  "packed_topk_indices topk f inp indices logits =
     (case given_topk f of
        None \<Rightarrow> Inr (map (topk_position topk (want_topk f)) logits)
      | Some idx \<Rightarrow>
          rbind (mapM_result (full_topk_row (width (in_ids inp)) (width (in_responses inp))) idx) (\<lambda>full.
            Inr (map (\<lambda>p. concat full ! p) indices)))"

definition forward_rmpad ::
  "(vec \<Rightarrow> nat \<Rightarrow> nat list) \<Rightarrow> lm \<Rightarrow> fwd_flags \<Rightarrow> micro_inputs \<Rightarrow> fwd_out result" where
  "forward_rmpad topk model f inp =
     ensure (\<not> ((want_all_logps f \<or> use_topk f) \<and> fused_kernels f)) ValueError
      (let response_length = width (in_responses inp);
           batch_size = length (in_ids inp);
           seqlen = width (in_ids inp);
           (valid_ids, indices) = unpad_input (in_ids inp) (in_mask inp);
           (valid_positions, _) = unpad_input (in_positions inp) (in_mask inp);
           all_zero = sum_list (concat (in_mask inp)) = 0;
           input_ids_rmpad = (if all_zero then [0] else valid_ids);
           position_ids_rmpad = (if all_zero then [0] else valid_positions);
           input_ids_rmpad_rolled = rotate1 input_ids_rmpad;
           logits = scaled_logits (temperature f) (packed_logits model input_ids_rmpad position_ids_rmpad);
           kept = (if all_zero then [] else logits)
       in rbind (logprobs_from_logits logits input_ids_rmpad_rolled) (\<lambda>log_probs.
          rbind (packed_topk_indices topk f inp indices kept) (\<lambda>topk_indices.
          rbind (if use_topk f then rbind (topk_logps_row kept topk_indices) (\<lambda>t. Inr (Some t)) else Inr None) (\<lambda>topk_logps.
            (let vocab = width logits; k = width topk_indices
             in Inr \<lparr>out_log_probs = pad_back 0 indices batch_size seqlen response_length
                       (if all_zero then [] else log_probs),
                  out_entropys = out_if (want_entropy f)
                       (pad_back 0 indices batch_size seqlen response_length (map entropy_from_logits kept)),
                  out_sum_pi = out_if (want_sum_pi f)
                       (pad_back 0 indices batch_size seqlen response_length (map sum_pi_squared_of logits)),
                  out_all_logps = out_if (compute_all_logps f)
                       (pad_back (replicate vocab 0) indices batch_size seqlen response_length (map log_softmax kept)),
                  out_topk_logps = map_option
                       (pad_back (replicate k 0) indices batch_size seqlen response_length) topk_logps,
                  out_topk_indices = out_if (use_topk f \<and> given_topk f = None)
                       (pad_back (replicate k 0) indices batch_size seqlen response_length topk_indices)\<rparr>)))))"

text \<open>The dispatch on \<open>use_remove_padding\<close>.\<close>

definition forward_micro_batch ::
  "bool \<Rightarrow> (vec \<Rightarrow> nat \<Rightarrow> nat list) \<Rightarrow> lm \<Rightarrow> fwd_flags \<Rightarrow> micro_inputs \<Rightarrow> fwd_out result" where
  "forward_micro_batch use_remove_padding topk model f inp =
     (if use_remove_padding then forward_rmpad topk model f inp else forward_padded topk model f inp)"

text \<open>The stand-alone helpers of \<open>torch_functional\<close>, for logits that are already computed.\<close>

definition log_probs_from_logits_response :: "nat list list \<Rightarrow> vec list list \<Rightarrow> nat \<Rightarrow> mat result" where
  "log_probs_from_logits_response input_ids logits response_length =
     mapM_result (\<lambda>(row, ids). logprobs_from_logits (resp_slice response_length row) (py_last response_length ids))
       (zip logits input_ids)"

definition log_probs_from_logits_response_rmpad ::
  "nat list list \<Rightarrow> nat list list \<Rightarrow> vec list \<Rightarrow> nat \<Rightarrow> mat result" where
  "log_probs_from_logits_response_rmpad input_ids attention_mask logits_rmpad response_length =
     (let (ids, indices) = unpad_input input_ids attention_mask
      in rbind (logprobs_from_logits logits_rmpad (rotate1 ids)) (\<lambda>log_probs.
           Inr (pad_back 0 indices (length input_ids) (width input_ids) response_length log_probs)))"

end
