(* ===== verification/Actor_Forward_Properties.thy ===== *)
theory Actor_Forward_Properties
  imports Actor_Forward
begin

text \<open>
  What the forward pass returns, and that removing the padding does not change it: for a model whose
  packed and padded outputs come from the same per-sequence logits, the two paths agree at every response
  token whose predecessor is valid.
\<close>

section \<open>Helpers on logits\<close>

lemma gather_log_softmax: "logprob_naive logits label = logprob_v2 logits label"
  by (simp add: logprob_naive_def logprob_v2_def gather_from_labels_def log_softmax_def)

lemma logprobs_run:
  assumes "length ys = length logits" and "\<And>k. k < length ys \<Longrightarrow> ys ! k < length (logits ! k)"
  shows "logprobs_from_logits logits ys = Inr (map2 (\<lambda>v y. v ! y - logsumexp v) logits ys)"
proof -
  have "mapM_result (\<lambda>(v, y). logprob_v2 v y) (zip logits ys) = Inr (map (\<lambda>(v, y). v ! y - logsumexp v) (zip logits ys))"
    using assms(2) by (intro mapM_result_Inr) (auto simp: set_zip logprob_v2_def gather_from_labels_def assms(1))
  then show ?thesis using assms(1) by (simp add: logprobs_from_logits_def)
qed

lemma length_resp_slice [simp]: "n < length xs \<Longrightarrow> length (resp_slice n xs) = n"
  by (simp add: resp_slice_def)

lemma nth_resp_slice: "n < length xs \<Longrightarrow> j < n \<Longrightarrow> resp_slice n xs ! j = xs ! (length xs - n - 1 + j)"
  by (simp add: resp_slice_def nth_butlast)

lemma resp_slice_scaled: "resp_slice n (scaled_logits temp row) = scaled_logits temp (resp_slice n row)"
  by (simp add: resp_slice_def scaled_logits_def drop_map map_butlast)

section \<open>Valid tokens\<close>

definition select_valid :: "'a list \<Rightarrow> nat list \<Rightarrow> 'a list" where
  "select_valid xs ms = map fst (filter (\<lambda>(x, m). m \<noteq> 0) (zip xs ms))"

definition rank :: "nat list \<Rightarrow> nat \<Rightarrow> nat" where
  "rank ms p = length (filter (\<lambda>m. m \<noteq> 0) (take p ms))"

definition valid_count :: "nat list \<Rightarrow> nat" where
  "valid_count ms = length (filter (\<lambda>m. m \<noteq> 0) ms)"

lemma rank_Suc: "p < length ms \<Longrightarrow> rank ms (Suc p) = rank ms p + (if ms ! p \<noteq> 0 then 1 else 0)"
  by (simp add: rank_def take_Suc_conv_app_nth)

lemma rank_le_count: "rank ms p \<le> valid_count ms"
  by (metis append_take_drop_id filter_append le_add1 length_append rank_def valid_count_def)

lemma rank_less: "p < length ms \<Longrightarrow> ms ! p \<noteq> 0 \<Longrightarrow> rank ms p < valid_count ms"
  using rank_Suc [of p ms] rank_le_count [of ms "Suc p"] by simp

lemma select_valid_append:
  "length xs = length ms \<Longrightarrow> select_valid (xs @ ys) (ms @ ns) = select_valid xs ms @ select_valid ys ns"
  by (simp add: select_valid_def)

lemma length_select_valid: "length xs = length ms \<Longrightarrow> length (select_valid xs ms) = valid_count ms"
proof (induction xs ms rule: list_induct2)
  case (Cons x xs m ms)
  then show ?case by (simp add: select_valid_def valid_count_def)
qed (simp add: select_valid_def valid_count_def)

lemma nth_select_valid:
  assumes "length xs = length ms" and "p < length ms" and "ms ! p \<noteq> 0"
  shows "select_valid xs ms ! rank ms p = xs ! p"
  using assms
proof (induction xs ms arbitrary: p rule: list_induct2)
  case (Cons x xs m ms)
  then show ?case by (cases p) (auto simp: select_valid_def rank_def)
qed simp

lemma select_valid_subset: "set (select_valid xs ms) \<subseteq> set xs"
  by (auto simp: select_valid_def dest: set_zip_leftD)

lemma nonzero_indices_snoc:
  "nonzero_indices (ms @ [m]) = nonzero_indices ms @ (if m \<noteq> 0 then [length ms] else [])"
proof -
  have "filter (\<lambda>p. (ms @ [m]) ! p \<noteq> 0) [0..<length ms] = filter (\<lambda>p. ms ! p \<noteq> 0) [0..<length ms]"
    by (intro filter_cong) (auto simp: nth_append)
  then show ?thesis by (simp add: nonzero_indices_def)
qed

lemma length_nonzero_indices: "length (nonzero_indices ms) = valid_count ms"
proof (induction ms rule: rev_induct)
  case (snoc m ms)
  then show ?case by (simp add: nonzero_indices_snoc valid_count_def)
qed (simp add: nonzero_indices_def valid_count_def)

lemma select_by_indices:
  "length xs = length ms \<Longrightarrow> map (\<lambda>p. xs ! p) (nonzero_indices ms) = select_valid xs ms"
proof (induction ms arbitrary: xs rule: rev_induct)
  case (snoc m ms)
  then obtain ys y where xs: "xs = ys @ [y]" "length ys = length ms" by (cases xs rule: rev_cases) auto
  have "map (\<lambda>p. xs ! p) (nonzero_indices ms) = map (\<lambda>p. ys ! p) (nonzero_indices ms)"
    using xs by (intro map_cong) (auto simp: nonzero_indices_def nth_append)
  then show ?case using snoc.IH [OF xs(2)] xs
    by (simp add: nonzero_indices_snoc select_valid_append) (simp add: select_valid_def nth_append)
qed (simp add: nonzero_indices_def select_valid_def)

lemma index_put_snoc_zero:
  assumes "\<forall>p\<in>set idx. p < n"
  shows "index_put z vals idx (Suc n) = index_put z vals idx n @ [z]"
proof -
  have "foldl (\<lambda>out (p, v). out[p := v]) (xs @ [z]) ps = foldl (\<lambda>out (p, v). out[p := v]) xs ps @ [z]"
    if "\<forall>(p, v)\<in>set ps. p < length xs" for xs :: "'a list" and ps
    using that by (induction ps arbitrary: xs) (auto simp: list_update_append)
  moreover have "\<forall>(p, v)\<in>set (zip idx vals). p < n" using assms by (auto dest: set_zip_leftD)
  ultimately show ?thesis
    unfolding index_put_def by (simp add: replicate_append_same [symmetric] del: replicate_append_same)
qed

lemma index_put_spec:
  assumes "length vals = valid_count ms"
  shows "length (index_put z vals (nonzero_indices ms) (length ms)) = length ms \<and>
     (\<forall>p < length ms. index_put z vals (nonzero_indices ms) (length ms) ! p =
        (if ms ! p \<noteq> 0 then vals ! rank ms p else z))"
  using assms
proof (induction ms arbitrary: vals rule: rev_induct)
  case (snoc m ms)
  have below: "\<forall>p\<in>set (nonzero_indices ms). p < length ms" by (auto simp: nonzero_indices_def)
  have rank: "rank (ms @ [m]) p = rank ms p" if "p \<le> length ms" for p
    using that by (simp add: rank_def)
  have full: "rank ms (length ms) = valid_count ms" by (simp add: rank_def valid_count_def)
  show ?case
  proof (cases "m = 0")
    case True
    then have "length vals = valid_count ms" using snoc.prems by (simp add: valid_count_def)
    from snoc.IH [OF this] show ?thesis
      using True below rank by (auto simp: nonzero_indices_snoc index_put_snoc_zero nth_append)
  next
    case False
    then obtain ws w where vals: "vals = ws @ [w]" "length ws = valid_count ms"
      using snoc.prems by (cases vals rule: rev_cases) (auto simp: valid_count_def)
    have zip: "zip (nonzero_indices (ms @ [m])) vals = zip (nonzero_indices ms) ws @ [(length ms, w)]"
      using False vals by (simp add: nonzero_indices_snoc length_nonzero_indices)
    have "index_put z vals (nonzero_indices (ms @ [m])) (length (ms @ [m])) =
        (index_put z ws (nonzero_indices ms) (Suc (length ms)))[length ms := w]"
      by (simp add: index_put_def zip)
    with snoc.IH [OF vals(2)] show ?thesis
      using below rank full False vals
      by (auto simp: index_put_snoc_zero nth_append list_update_append less_Suc_eq nth_list_update
          dest: rank_less)
  qed
qed (simp add: index_put_def nonzero_indices_def)

section \<open>Rows\<close>

definition rectangular :: "nat \<Rightarrow> 'a list list \<Rightarrow> bool" where
  "rectangular w A \<longleftrightarrow> (\<forall>row\<in>set A. length row = w)"

lemma nth_concat_rect:
  assumes "rectangular w A" and "i < length A" and "t < w"
  shows "concat A ! (i * w + t) = A ! i ! t" and "i * w + t < length (concat A)"
proof -
  have len: "length (concat A) = length A * w" using assms(1)
    by (induction A) (auto simp: rectangular_def)
  have "i * w + t < Suc i * w" using assms(3) by simp
  also have "\<dots> \<le> length A * w" using assms(2) by (intro mult_le_mono1) simp
  finally show "i * w + t < length (concat A)" unfolding len .
  show "concat A ! (i * w + t) = A ! i ! t"
    using assms
  proof (induction A arbitrary: i)
    case (Cons row A)
    then show ?case by (cases i) (auto simp: rectangular_def nth_append)
  qed simp
qed

lemma nth_concat_segs:
  "i < length segs \<Longrightarrow> k < length (segs ! i) \<Longrightarrow>
   concat segs ! (sum_list (map length (take i segs)) + k) = segs ! i ! k \<and>
   sum_list (map length (take i segs)) + k < length (concat segs)"
proof (induction segs arbitrary: i)
  case (Cons s segs)
  then show ?case by (cases i) (auto simp: nth_append)
qed simp

lemma rank_concat:
  assumes "rectangular w M" and "i < length M" and "t < w"
  shows "rank (concat M) (i * w + t) = sum_list (map valid_count (take i M)) + rank (M ! i) t"
  using assms
proof (induction M arbitrary: i)
  case (Cons row M)
  then show ?case by (cases i) (auto simp: rectangular_def rank_def valid_count_def)
qed simp

lemma select_valid_concat:
  assumes "list_all2 (\<lambda>xs ms. length xs = length ms) A M"
  shows "select_valid (concat A) (concat M) = concat (map2 select_valid A M)"
  using assms by (induction rule: list_all2_induct) (simp_all add: select_valid_append, simp add: select_valid_def)

lemma valid_count_concat: "valid_count (concat M) = sum_list (map valid_count M)"
  by (induction M) (simp_all add: valid_count_def)

lemma unpad_rows:
  assumes "list_all2 (\<lambda>xs ms. length xs = length ms) A M"
  shows "unpad_input A M = (concat (map2 select_valid A M), nonzero_indices (concat M))"
proof -
  have "length (concat A) = length (concat M)" using assms by (induction rule: list_all2_induct) auto
  then show ?thesis
    using assms by (simp add: unpad_input_def Let_def select_by_indices select_valid_concat)
qed

lemma nth_py_chunks:
  assumes "0 < w" and "length ys = n * w" and "i < n"
  shows "length (py_chunks w ys ! i) = w" and "\<forall>t < w. py_chunks w ys ! i ! t = ys ! (i * w + t)"
    and "length (py_chunks w ys) = n"
proof -
  have "length (py_chunks w ys) = n \<and> (\<forall>i < n. length (py_chunks w ys ! i) = w \<and>
      (\<forall>t < w. py_chunks w ys ! i ! t = ys ! (i * w + t)))"
    using assms(2)
  proof (induction n arbitrary: ys)
    case (Suc n)
    then have ne: "ys \<noteq> []" using assms(1) by auto
    have len: "length (drop w ys) = n * w" using Suc.prems by simp
    have c: "py_chunks w ys = take w ys # py_chunks w (drop w ys)"
      using ne assms(1) by (subst py_chunks.simps) simp
    show ?case unfolding c
      using Suc.IH [OF len] Suc.prems by (auto simp: nth_Cons algebra_simps split: nat.split)
  qed simp
  then show "length (py_chunks w ys ! i) = w" "\<forall>t < w. py_chunks w ys ! i ! t = ys ! (i * w + t)"
    "length (py_chunks w ys) = n" using assms(3) by auto
qed

text \<open>The value that padding puts at token \<open>t\<close> of row \<open>i\<close>: the packed value of the token, or zero.\<close>

lemma pad_input_entry:
  assumes "rectangular w M" and "0 < w" and "length vals = valid_count (concat M)"
    and "i < length M" and "t < w"
  shows "pad_input z vals (nonzero_indices (concat M)) (length M) w ! i ! t =
     (if M ! i ! t \<noteq> 0 then vals ! (sum_list (map valid_count (take i M)) + rank (M ! i) t) else z)"
    and "length (pad_input z vals (nonzero_indices (concat M)) (length M) w ! i) = w"
    and "length (pad_input z vals (nonzero_indices (concat M)) (length M) w) = length M"
proof -
  have len: "length (concat M) = length M * w" using assms(1) by (induction M) (auto simp: rectangular_def)
  note put = index_put_spec [OF assms(3), of z, unfolded len]
  note cell = nth_concat_rect [OF assms(1,4,5)]
  note chunks = nth_py_chunks [OF assms(2) put [THEN conjunct1] assms(4)]
  show "pad_input z vals (nonzero_indices (concat M)) (length M) w ! i ! t =
     (if M ! i ! t \<noteq> 0 then vals ! (sum_list (map valid_count (take i M)) + rank (M ! i) t) else z)"
    using chunks(2) put cell rank_concat [OF assms(1,4,5)] assms(5) len
    unfolding pad_input_def by simp
  show "length (pad_input z vals (nonzero_indices (concat M)) (length M) w ! i) = w"
    "length (pad_input z vals (nonzero_indices (concat M)) (length M) w) = length M"
    unfolding pad_input_def using chunks by simp_all
qed

section \<open>Both paths agree\<close>

text \<open>
  The contract of the model: logits of a token depend on its own sequence only, both on the padded rows
  (for rows whose valid positions count from zero) and on packed sequences. \<open>seq\<close> gives the logits of
  one sequence without padding.
\<close>

definition packing_model :: "lm \<Rightarrow> (nat list \<Rightarrow> vec list) \<Rightarrow> nat \<Rightarrow> bool" where
  "packing_model model seq vocab \<longleftrightarrow>
     0 < vocab \<and>
     (\<forall>ids. length (seq ids) = length ids \<and> (\<forall>v\<in>set (seq ids). length v = vocab)) \<and>
     (\<forall>segs. packed_logits model (concat segs) (concat (map (\<lambda>s. [0..<length s]) segs)) = concat (map seq segs)) \<and>
     (\<forall>ids msk pos. length msk = length ids \<and> length pos = length ids \<longrightarrow>
        length (padded_logits model ids msk pos) = length ids \<and>
        (\<forall>i < length ids. length (padded_logits model ids msk pos ! i) = length (ids ! i) \<and>
           (\<forall>v\<in>set (padded_logits model ids msk pos ! i). length v = vocab) \<and>
           (length (msk ! i) = length (ids ! i) \<and> length (pos ! i) = length (ids ! i) \<and>
              select_valid (pos ! i) (msk ! i) = [0..<valid_count (msk ! i)] \<longrightarrow>
            (\<forall>t < length (ids ! i). msk ! i ! t \<noteq> 0 \<longrightarrow>
               padded_logits model ids msk pos ! i ! t =
                 seq (select_valid (ids ! i) (msk ! i)) ! rank (msk ! i) t))))"

text \<open>A micro-batch of \<open>n\<close> rows of \<open>L\<close> tokens that end with \<open>R\<close> response tokens.\<close>

definition good_micro :: "nat \<Rightarrow> nat \<Rightarrow> nat \<Rightarrow> micro_inputs \<Rightarrow> bool" where
  "good_micro L R vocab inp \<longleftrightarrow>
     R < L \<and> in_ids inp \<noteq> [] \<and> rectangular L (in_ids inp) \<and> rectangular L (in_mask inp) \<and>
     rectangular L (in_positions inp) \<and> length (in_mask inp) = length (in_ids inp) \<and>
     length (in_positions inp) = length (in_ids inp) \<and>
     in_responses inp = map (drop (L - R)) (in_ids inp) \<and>
     (\<forall>row\<in>set (in_ids inp). \<forall>y\<in>set row. y < vocab) \<and>
     (\<forall>i < length (in_ids inp).
        select_valid (in_positions inp ! i) (in_mask inp ! i) = [0..<valid_count (in_mask inp ! i)])"

lemma good_micro_width: "good_micro L R vocab inp \<Longrightarrow> width (in_ids inp) = L \<and> width (in_responses inp) = R"
  by (cases "in_ids inp") (auto simp: good_micro_def width_def rectangular_def)

text \<open>The log-probability a path should give for the token after position \<open>t\<close>.\<close>

definition token_logp :: "fwd_flags \<Rightarrow> vec \<Rightarrow> nat \<Rightarrow> real" where
  "token_logp f logits y = map (\<lambda>x. x / temperature f) logits ! y - logsumexp (map (\<lambda>x. x / temperature f) logits)"

definition plain :: "fwd_flags \<Rightarrow> bool" where
  "plain f \<longleftrightarrow> \<not> want_all_logps f \<and> \<not> use_topk f"

lemma forward_padded_run:
  assumes model: "packing_model model seq vocab" and good: "good_micro L R vocab inp" and "plain f"
  shows "\<exists>a. forward_padded topk model f inp = Inr a \<and>
     (\<forall>i < length (in_ids inp). \<forall>j < R.
        out_log_probs a ! i ! j = token_logp f (padded_logits model (in_ids inp) (in_mask inp) (in_positions inp) ! i ! (L - R - 1 + j))
           (in_ids inp ! i ! (L - R + j))) \<and>
     out_entropys a = out_if (want_entropy f) (map (\<lambda>row. map (\<lambda>v. entropy_from_logits (map (\<lambda>x. x / temperature f) v)) (resp_slice R row))
        (padded_logits model (in_ids inp) (in_mask inp) (in_positions inp)))"
proof -
  define P where "P = padded_logits model (in_ids inp) (in_mask inp) (in_positions inp)"
  define G where "G = map (\<lambda>row. resp_slice R (scaled_logits (temperature f) row)) P"
  note w = good_micro_width [OF good]
  from good have shape: "R < L" "rectangular L (in_ids inp)" "in_responses inp = map (drop (L - R)) (in_ids inp)"
    "length (in_mask inp) = length (in_ids inp)" "length (in_positions inp) = length (in_ids inp)"
    and vocab: "\<forall>row\<in>set (in_ids inp). \<forall>y\<in>set row. y < vocab"
    by (simp_all add: good_micro_def)
  have P: "length P = length (in_ids inp)"
    "length (P ! i) = L \<and> (\<forall>v\<in>set (P ! i). length v = vocab)" if "i < length (in_ids inp)" for i
    using model shape that unfolding packing_model_def P_def rectangular_def by auto
  have lenP: "length P = length (in_ids inp)" using model shape unfolding packing_model_def P_def by auto
  have entry: "G ! i ! j = map (\<lambda>x. x / temperature f) (P ! i ! (L - R - 1 + j))" "length (G ! i) = R"
    "length (P ! i ! (L - R - 1 + j)) = vocab"
    if "i < length (in_ids inp)" "j < R" for i j
    using that P(2) [OF that(1)] shape(1) lenP by (simp_all add: G_def scaled_logits_def nth_resp_slice)
  have lenG: "length (G ! i) = R" if "i < length (in_ids inp)" for i
    using that P(2) [OF that(1)] shape(1) lenP by (simp add: G_def scaled_logits_def)
  have ids: "length (in_ids inp ! i) = L" if "i < length (in_ids inp)" for i
    using shape(2) that by (simp add: rectangular_def)
  have row: "logprobs_from_logits (G ! i) (in_responses inp ! i) =
      Inr (map2 (\<lambda>v y. v ! y - logsumexp v) (G ! i) (in_responses inp ! i))" if i: "i < length (in_ids inp)" for i
  proof (rule logprobs_run)
    show "length (in_responses inp ! i) = length (G ! i)" using i shape lenG [OF i] ids [OF i] by simp
    fix k
    assume "k < length (in_responses inp ! i)"
    then have k: "k < R" "in_responses inp ! i ! k = in_ids inp ! i ! (L - R + k)" using i shape ids [OF i] by simp_all
    have "in_ids inp ! i ! (L - R + k) \<in> set (in_ids inp ! i)" using i k(1) shape(1) ids [OF i] by (intro nth_mem) simp
    then have "in_ids inp ! i ! (L - R + k) < vocab" using vocab i by auto
    then show "in_responses inp ! i ! k < length (G ! i ! k)" using entry [OF i k(1)] k(2) by simp
  qed
  have run: "mapM_result (\<lambda>(row, ys). logprobs_from_logits row ys) (zip G (in_responses inp)) =
      Inr (map (\<lambda>(row, ys). map2 (\<lambda>v y. v ! y - logsumexp v) row ys) (zip G (in_responses inp)))"
    using row lenP shape(3) by (intro mapM_result_Inr) (auto simp: set_zip G_def)
  have G_eq: "map (\<lambda>row. resp_slice (width (in_responses inp)) (scaled_logits (temperature f) row))
      (padded_logits model (in_ids inp) (in_mask inp) (in_positions inp)) = G"
    by (simp add: G_def P_def w)
  have ent: "map_mat entropy_from_logits G = map (\<lambda>row. map (\<lambda>v. entropy_from_logits (map (\<lambda>x. x / temperature f) v)) (resp_slice R row)) P"
    by (simp add: G_def map_mat_def resp_slice_scaled) (simp add: scaled_logits_def comp_def)
  let ?a = "\<lparr>out_log_probs = map (\<lambda>(row, ys). map2 (\<lambda>v y. v ! y - logsumexp v) row ys) (zip G (in_responses inp)),
      out_entropys = out_if (want_entropy f) (map_mat entropy_from_logits G),
      out_sum_pi = out_if (want_sum_pi f) (map_mat sum_pi_squared_of G), out_all_logps = None,
      out_topk_logps = None, out_topk_indices = None\<rparr>"
  have "forward_padded topk model f inp = Inr ?a"
    using \<open>plain f\<close> run lenP shape(3)
    unfolding forward_padded_def G_eq Let_def by (simp add: plain_def compute_all_logps_def out_if_def G_def)
  moreover have "out_log_probs ?a ! i ! j = token_logp f (P ! i ! (L - R - 1 + j)) (in_ids inp ! i ! (L - R + j))"
    if "i < length (in_ids inp)" "j < R" for i j
    using that entry [OF that] lenG [OF that(1)] lenP shape ids [OF that(1)]
    by (simp add: G_def [symmetric] token_logp_def) (simp add: G_def)
  ultimately show ?thesis unfolding P_def [symmetric] using ent by (intro exI [of _ ?a]) simp
qed

lemma packed_width:
  assumes "packing_model model seq vocab" and "p < length (packed_logits model (concat segs) (concat (map (\<lambda>s. [0..<length s]) segs)))"
  shows "length (packed_logits model (concat segs) (concat (map (\<lambda>s. [0..<length s]) segs)) ! p) = vocab"
proof -
  have eq: "packed_logits model (concat segs) (concat (map (\<lambda>s. [0..<length s]) segs)) = concat (map seq segs)"
    using assms(1) by (simp add: packing_model_def)
  have "concat (map seq segs) ! p \<in> set (concat (map seq segs))" using assms(2) unfolding eq by (rule nth_mem)
  then show ?thesis using assms(1) unfolding eq packing_model_def by auto
qed

lemma nth_rotate1: "Suc k < length xs \<Longrightarrow> rotate1 xs ! k = xs ! Suc k"
  by (cases xs) (auto simp: nth_append)

text \<open>The packed values of one batch: the segments are the valid tokens of the rows.\<close>

lemma packed_batch:
  assumes model: "packing_model model seq vocab" and good: "good_micro L R vocab inp"
  defines "segs \<equiv> map2 select_valid (in_ids inp) (in_mask inp)"
  shows "unpad_input (in_ids inp) (in_mask inp) = (concat segs, nonzero_indices (concat (in_mask inp)))"
    and "fst (unpad_input (in_positions inp) (in_mask inp)) = concat (map (\<lambda>s. [0..<length s]) segs)"
    and "packed_logits model (concat segs) (concat (map (\<lambda>s. [0..<length s]) segs)) = concat (map seq segs)"
    and "length (concat (map seq segs)) = length (concat segs)"
    and "length (concat segs) = valid_count (concat (in_mask inp))"
    and "\<And>i. i < length (in_ids inp) \<Longrightarrow> sum_list (map length (take i segs)) = sum_list (map valid_count (take i (in_mask inp)))"
    and "\<And>i. i < length (in_ids inp) \<Longrightarrow> segs ! i = select_valid (in_ids inp ! i) (in_mask inp ! i)"
    and "\<And>i. i < length (in_ids inp) \<Longrightarrow> length (segs ! i) = valid_count (in_mask inp ! i)"
proof -
  from good have rect: "rectangular L (in_ids inp)" "rectangular L (in_mask inp)" "rectangular L (in_positions inp)"
    "length (in_mask inp) = length (in_ids inp)" "length (in_positions inp) = length (in_ids inp)"
    by (simp_all add: good_micro_def)
  have l1: "list_all2 (\<lambda>xs ms. length xs = length ms) (in_ids inp) (in_mask inp)"
    and l2: "list_all2 (\<lambda>xs ms. length xs = length ms) (in_positions inp) (in_mask inp)"
    using rect by (auto simp: list_all2_conv_all_nth rectangular_def)
  show 1: "unpad_input (in_ids inp) (in_mask inp) = (concat segs, nonzero_indices (concat (in_mask inp)))"
    unfolding segs_def by (rule unpad_rows [OF l1])
  show seg: "segs ! i = select_valid (in_ids inp ! i) (in_mask inp ! i)" if "i < length (in_ids inp)" for i
    using that rect by (simp add: segs_def)
  have same: "length (in_ids inp ! i) = length (in_mask inp ! i)" if "i < length (in_ids inp)" for i
    using that rect by (simp add: rectangular_def)
  show cnt: "length (segs ! i) = valid_count (in_mask inp ! i)" if "i < length (in_ids inp)" for i
    using that same [OF that] by (simp add: seg length_select_valid)
  have len: "length segs = length (in_ids inp)" using rect by (simp add: segs_def)
  have lens: "map length segs = map valid_count (in_mask inp)"
    using cnt len rect(4) by (intro nth_equalityI) auto
  show "sum_list (map length (take i segs)) = sum_list (map valid_count (take i (in_mask inp)))" for i
    using lens by (simp add: take_map [symmetric])
  show "length (concat segs) = valid_count (concat (in_mask inp))"
    using lens by (simp add: length_concat valid_count_concat)
  have "map2 select_valid (in_positions inp) (in_mask inp) = map (\<lambda>s. [0..<length s]) segs"
    using good cnt len rect by (intro nth_equalityI) (auto simp: good_micro_def)
  then show "fst (unpad_input (in_positions inp) (in_mask inp)) = concat (map (\<lambda>s. [0..<length s]) segs)"
    by (simp add: unpad_rows [OF l2])
  show "packed_logits model (concat segs) (concat (map (\<lambda>s. [0..<length s]) segs)) = concat (map seq segs)"
    using model by (simp add: packing_model_def)
  have "map length (map seq segs) = map length segs" using model by (simp add: packing_model_def)
  then show "length (concat (map seq segs)) = length (concat segs)" by (simp only: length_concat)
qed

lemma forward_rmpad_run:
  assumes model: "packing_model model seq vocab" and good: "good_micro L R vocab inp" and "plain f"
    and some: "sum_list (concat (in_mask inp)) \<noteq> 0"
  defines "segs \<equiv> map2 select_valid (in_ids inp) (in_mask inp)"
  shows "forward_rmpad topk model f inp = Inr
     \<lparr>out_log_probs = pad_back 0 (nonzero_indices (concat (in_mask inp))) (length (in_ids inp)) L R
        (map2 (\<lambda>v y. token_logp f v y) (concat (map seq segs)) (rotate1 (concat segs))),
      out_entropys = out_if (want_entropy f) (pad_back 0 (nonzero_indices (concat (in_mask inp))) (length (in_ids inp)) L R
        (map (\<lambda>v. entropy_from_logits (map (\<lambda>x. x / temperature f) v)) (concat (map seq segs)))),
      out_sum_pi = out_if (want_sum_pi f) (pad_back 0 (nonzero_indices (concat (in_mask inp))) (length (in_ids inp)) L R
        (map (\<lambda>v. sum_pi_squared_of (map (\<lambda>x. x / temperature f) v)) (concat (map seq segs)))),
      out_all_logps = None, out_topk_logps = None, out_topk_indices = None\<rparr>"
proof -
  note w = good_micro_width [OF good]
  note packed = packed_batch [OF model good, folded segs_def]
  define G where "G = scaled_logits (temperature f) (concat (map seq segs))"
  have width: "length v = vocab" if "v \<in> set (concat (map seq segs))" for v
    using model that by (auto simp: packing_model_def)
  have ids: "y < vocab" if "y \<in> set (concat segs)" for y
  proof -
    from that obtain s where "s \<in> set segs" "y \<in> set s" by auto
    then obtain row ms where "row \<in> set (in_ids inp)" "y \<in> set (select_valid row ms)"
      by (auto simp: segs_def dest: set_zip_leftD)
    then show ?thesis using good select_valid_subset [of row ms] by (auto simp: good_micro_def)
  qed
  have lp: "logprobs_from_logits G (rotate1 (concat segs)) = Inr (map2 (\<lambda>v y. v ! y - logsumexp v) G (rotate1 (concat segs)))"
  proof (rule logprobs_run)
    show "length (rotate1 (concat segs)) = length G" using packed(4) by (simp add: G_def scaled_logits_def)
    fix k
    assume k: "k < length (rotate1 (concat segs))"
    then have "rotate1 (concat segs) ! k \<in> set (concat segs)" by (metis nth_mem set_rotate1)
    then have "rotate1 (concat segs) ! k < vocab" by (rule ids)
    moreover have "length (G ! k) = vocab"
      using k packed(4) width [of "concat (map seq segs) ! k"] by (simp add: G_def scaled_logits_def del: set_concat)
    ultimately show "rotate1 (concat segs) ! k < length (G ! k)" by simp
  qed
  have eq: "map2 (\<lambda>v y. v ! y - logsumexp v) G (rotate1 (concat segs)) =
      map2 (\<lambda>v y. token_logp f v y) (concat (map seq segs)) (rotate1 (concat segs))"
    by (simp add: G_def scaled_logits_def token_logp_def zip_map1 comp_def case_prod_beta)
  obtain u where pos: "unpad_input (in_positions inp) (in_mask inp) = (concat (map (\<lambda>s. [0..<length s]) segs), u)"
    using packed(2) by (metis prod.collapse)
  have given: "given_topk f = None" "\<not> use_topk f" "\<not> want_all_logps f"
    using \<open>plain f\<close> by (auto simp: plain_def use_topk_def)
  have maps: "map g G = map (\<lambda>v. g (map (\<lambda>x. x / temperature f) v)) (concat (map seq segs))" for g :: "vec \<Rightarrow> real"
    by (simp add: G_def scaled_logits_def comp_def)
  show ?thesis
    unfolding forward_rmpad_def w packed(1) pos Let_def prod.case
    using some given
    by (simp only: if_False packed(3) G_def [symmetric] lp rbind_simps packed_topk_indices_def option.case eq maps)
      (simp add: out_if_def compute_all_logps_def w)
qed

text \<open>A packed value at token \<open>t\<close> of row \<open>i\<close>, after padding back.\<close>

lemma pad_back_entry:
  assumes good: "good_micro L R vocab inp" and len: "length vals = valid_count (concat (in_mask inp))"
    and i: "i < length (in_ids inp)" and j: "j < R"
  shows "pad_back z (nonzero_indices (concat (in_mask inp))) (length (in_ids inp)) L R vals ! i ! j =
     (if in_mask inp ! i ! (L - R - 1 + j) \<noteq> 0
      then vals ! (sum_list (map valid_count (take i (in_mask inp))) + rank (in_mask inp ! i) (L - R - 1 + j)) else z)"
proof -
  from good have m: "rectangular L (in_mask inp)" "0 < L" "length (in_mask inp) = length (in_ids inp)" "R < L"
    by (auto simp: good_micro_def)
  have t: "L - R - 1 + j < L" using j m by simp
  have i': "i < length (in_mask inp)" using i m by simp
  note e = pad_input_entry [OF m(1,2) len i' t, of z, unfolded m(3)]
  show ?thesis using e i j m(4) by (simp add: pad_back_def nth_resp_slice)
qed

lemma rank_bound: "good_micro L R vocab inp \<Longrightarrow> i < length (in_ids inp) \<Longrightarrow> t < L \<Longrightarrow> in_mask inp ! i ! t \<noteq> 0 \<Longrightarrow>
   rank (in_mask inp ! i) t < valid_count (in_mask inp ! i)"
  by (intro rank_less) (auto simp: good_micro_def rectangular_def)

lemma segment_value:
  assumes model: "packing_model model seq vocab" and good: "good_micro L R vocab inp"
    and i: "i < length (in_ids inp)" and t: "t < L" "in_mask inp ! i ! t \<noteq> 0"
  defines "segs \<equiv> map2 select_valid (in_ids inp) (in_mask inp)"
  defines "p \<equiv> sum_list (map valid_count (take i (in_mask inp))) + rank (in_mask inp ! i) t"
  shows "concat (map seq segs) ! p = padded_logits model (in_ids inp) (in_mask inp) (in_positions inp) ! i ! t"
    and "p < length (concat segs)" and "concat segs ! p = in_ids inp ! i ! t"
proof -
  note packed = packed_batch [OF model good, folded segs_def]
  have len: "length segs = length (in_ids inp)" "length (map seq segs) = length segs"
    using good by (simp_all add: segs_def good_micro_def)
  have seq: "length (seq s) = length s" for s using model by (simp add: packing_model_def)
  have k: "rank (in_mask inp ! i) t < length (segs ! i)" using rank_bound [OF good i t] packed(8) [OF i] by simp
  have off: "sum_list (map valid_count (take i (in_mask inp))) = sum_list (map length (take i segs))"
    using packed(6) [OF i] by simp
  have off': "sum_list (map length (take i (map seq segs))) = sum_list (map length (take i segs))"
    by (simp add: take_map comp_def seq)
  have "concat (map seq segs) ! p = seq (segs ! i) ! rank (in_mask inp ! i) t"
    using nth_concat_segs [of i "map seq segs" "rank (in_mask inp ! i) t"] i len k seq
    by (simp add: p_def off off')
  also have "\<dots> = padded_logits model (in_ids inp) (in_mask inp) (in_positions inp) ! i ! t"
    using model good i t packed(7) [OF i] unfolding packing_model_def good_micro_def rectangular_def by auto
  finally show "concat (map seq segs) ! p = padded_logits model (in_ids inp) (in_mask inp) (in_positions inp) ! i ! t" .
  have c: "concat segs ! p = segs ! i ! rank (in_mask inp ! i) t \<and> p < length (concat segs)"
    using nth_concat_segs [of i segs, OF _ k] i len by (simp add: p_def off)
  show "p < length (concat segs)" using c by simp
  show "concat segs ! p = in_ids inp ! i ! t"
    using c packed(7) [OF i] nth_select_valid [of "in_ids inp ! i" "in_mask inp ! i" t] good i t
    by (auto simp: good_micro_def rectangular_def)
qed

text \<open>
  C22: with and without padding removed, the forward pass gives the same log-probability at every response
  token that is valid and follows a valid token, and the same entropy at every position whose predecessor
  is valid; where the predecessor is padding, the path without padding reports zero. So the two settings
  of \<open>use_remove_padding\<close> train on the same numbers.
\<close>

theorem rmpad_agrees:
  assumes model: "packing_model model seq vocab" and good: "good_micro L R vocab inp" and plain: "plain f"
    and some: "sum_list (concat (in_mask inp)) \<noteq> 0"
  shows "\<exists>a b. forward_micro_batch False topk model f inp = Inr a \<and> forward_micro_batch True topk model f inp = Inr b \<and>
     (\<forall>i < length (in_ids inp). \<forall>j < R.
        (in_mask inp ! i ! (L - R - 1 + j) \<noteq> 0 \<and> in_mask inp ! i ! (L - R + j) \<noteq> 0 \<longrightarrow>
           out_log_probs b ! i ! j = out_log_probs a ! i ! j) \<and>
        (in_mask inp ! i ! (L - R - 1 + j) \<noteq> 0 \<and> want_entropy f \<longrightarrow>
           the (out_entropys b) ! i ! j = the (out_entropys a) ! i ! j) \<and>
        (in_mask inp ! i ! (L - R - 1 + j) = 0 \<longrightarrow> out_log_probs b ! i ! j = 0))"
proof -
  define P where "P = padded_logits model (in_ids inp) (in_mask inp) (in_positions inp)"
  define segs where "segs = map2 select_valid (in_ids inp) (in_mask inp)"
  from forward_padded_run [OF model good plain, of topk] obtain a where a: "forward_padded topk model f inp = Inr a"
    and lp_a: "\<And>i j. i < length (in_ids inp) \<Longrightarrow> j < R \<Longrightarrow>
        out_log_probs a ! i ! j = token_logp f (P ! i ! (L - R - 1 + j)) (in_ids inp ! i ! (L - R + j))"
    and ent_a: "out_entropys a = out_if (want_entropy f)
        (map (\<lambda>row. map (\<lambda>v. entropy_from_logits (map (\<lambda>x. x / temperature f) v)) (resp_slice R row)) P)"
    unfolding P_def by blast
  from forward_rmpad_run [OF model good plain some, of topk, folded segs_def]
  obtain b where b: "forward_rmpad topk model f inp = Inr b"
    and lp_b: "out_log_probs b = pad_back 0 (nonzero_indices (concat (in_mask inp))) (length (in_ids inp)) L R
        (map2 (\<lambda>v y. token_logp f v y) (concat (map seq segs)) (rotate1 (concat segs)))"
    and ent_b: "out_entropys b = out_if (want_entropy f) (pad_back 0 (nonzero_indices (concat (in_mask inp))) (length (in_ids inp)) L R
        (map (\<lambda>v. entropy_from_logits (map (\<lambda>x. x / temperature f) v)) (concat (map seq segs))))"
    by auto
  note packed = packed_batch [OF model good, folded segs_def]
  from good have R: "R < L" by (simp add: good_micro_def)
  have P: "length P = length (in_ids inp)" "length (P ! i) = L" if "i < length (in_ids inp)" for i
    using model good that unfolding packing_model_def good_micro_def P_def rectangular_def by auto
  let ?vals = "map2 (\<lambda>v y. token_logp f v y) (concat (map seq segs)) (rotate1 (concat segs))"
  let ?ents = "map (\<lambda>v. entropy_from_logits (map (\<lambda>x. x / temperature f) v)) (concat (map seq segs))"
  have lens: "length ?vals = valid_count (concat (in_mask inp))" "length ?ents = valid_count (concat (in_mask inp))"
    using packed(4,5) by simp_all
  have "(in_mask inp ! i ! (L - R - 1 + j) \<noteq> 0 \<and> in_mask inp ! i ! (L - R + j) \<noteq> 0 \<longrightarrow>
           out_log_probs b ! i ! j = out_log_probs a ! i ! j) \<and>
        (in_mask inp ! i ! (L - R - 1 + j) \<noteq> 0 \<and> want_entropy f \<longrightarrow>
           the (out_entropys b) ! i ! j = the (out_entropys a) ! i ! j) \<and>
        (in_mask inp ! i ! (L - R - 1 + j) = 0 \<longrightarrow> out_log_probs b ! i ! j = 0)"
    if i: "i < length (in_ids inp)" and j: "j < R" for i j
  proof -
    define t where "t = L - R - 1 + j"
    have t: "t < L" "Suc t < L" "L - R + j = Suc t" using R j by (auto simp: t_def)
    note entry = pad_back_entry [OF good _ i j, folded t_def]
    have lp: "out_log_probs b ! i ! j = out_log_probs a ! i ! j" if v: "in_mask inp ! i ! t \<noteq> 0" "in_mask inp ! i ! Suc t \<noteq> 0"
    proof -
      note now = segment_value [OF model good i t(1) v(1), folded segs_def P_def]
      note nxt = segment_value [OF model good i t(2) v(2), folded segs_def P_def]
      have "t < length (in_mask inp ! i)" using good i t by (auto simp: good_micro_def rectangular_def)
      then have "rank (in_mask inp ! i) (Suc t) = Suc (rank (in_mask inp ! i) t)" using v by (simp add: rank_Suc)
      moreover have "out_log_probs a ! i ! j = token_logp f (P ! i ! t) (in_ids inp ! i ! Suc t)"
        using lp_a [OF i j] unfolding t_def [symmetric] t(3) .
      ultimately show ?thesis
        using entry [OF lens(1), of 0] now nxt v packed(4)
        by (simp add: lp_b nth_rotate1)
    qed
    have ent: "the (out_entropys b) ! i ! j = the (out_entropys a) ! i ! j"
      if v: "in_mask inp ! i ! t \<noteq> 0" "want_entropy f"
    proof -
      have "resp_slice R (P ! i) ! j = P ! i ! t" "length (resp_slice R (P ! i)) = R"
        using P [OF i] R j by (simp_all add: nth_resp_slice t_def)
      then show ?thesis
        using entry [OF lens(2), of 0] segment_value [OF model good i t(1) v(1), folded segs_def P_def] v packed(4)
          P [OF i] i j
        by (simp add: ent_a ent_b out_if_def)
    qed
    have zero: "out_log_probs b ! i ! j = 0" if "in_mask inp ! i ! t = 0"
      using that entry [OF lens(1), of 0] by (simp add: lp_b)
    show ?thesis unfolding t_def [symmetric] t(3) using lp ent zero by blast
  qed
  then show ?thesis using a b by (auto simp: forward_micro_batch_def)
qed

text \<open>A model whose logits depend on the token and its position, and a batch of two rows with padding on both sides.\<close>

definition sample_logit :: "nat \<Rightarrow> nat \<Rightarrow> vec" where
  "sample_logit y k = [real y, real k, 1]"

definition sample_lm :: lm where
  "sample_lm = \<lparr>padded_logits = (\<lambda>ids msk pos. map2 (map2 sample_logit) ids
       (map2 (\<lambda>row p. take (length row) (p @ replicate (length row) 0)) ids pos)),
     packed_logits = map2 sample_logit\<rparr>"

definition sample_micro :: micro_inputs where
  "sample_micro = \<lparr>in_responses = [[2, 1], [0, 0]], in_ids = [[0, 1, 2, 1], [1, 2, 0, 0]],
     in_mask = [[0, 1, 1, 1], [1, 1, 0, 0]], in_positions = [[0, 0, 1, 2], [0, 1, 1, 1]]\<rparr>"

definition sample_flags :: fwd_flags where
  "sample_flags = \<lparr>want_entropy = True, want_sum_pi = False, want_all_logps = False, want_topk = None,
     given_topk = None, fused_kernels = False, temperature = 1\<rparr>"

lemma concat_map2:
  "list_all2 (\<lambda>xs ys. length xs = length ys) A B \<Longrightarrow>
   map2 f (concat A) (concat B) = concat (map2 (\<lambda>xs ys. map2 f xs ys) A B)"
  by (induction rule: list_all2_induct) auto

lemma rank_upt:
  "select_valid xs ms = [0..<valid_count ms] \<Longrightarrow> length xs = length ms \<Longrightarrow> t < length ms \<Longrightarrow> ms ! t \<noteq> 0 \<Longrightarrow>
   xs ! t = rank ms t"
  by (metis add_0 nth_select_valid nth_upt rank_less)

lemma sample_packing: "packing_model sample_lm (\<lambda>ids. map2 sample_logit ids [0..<length ids]) 3"
proof -
  have "map2 sample_logit (concat segs) (concat (map (\<lambda>s. [0..<length s]) segs)) =
      concat (map (\<lambda>ids. map2 sample_logit ids [0..<length ids]) segs)" for segs
  proof -
    have "list_all2 (\<lambda>xs ys. length xs = length ys) segs (map (\<lambda>s. [0..<length s]) segs)"
      by (simp add: list_all2_conv_all_nth)
    from concat_map2 [OF this, of sample_logit] show ?thesis
      by (simp add: zip_map2 comp_def case_prod_beta zip_same_conv_map)
  qed
  moreover have "length (sample_logit y k) = 3" for y k by (simp add: sample_logit_def)
  moreover have "sample_logit (ids ! t) (take (length ids) (pos @ replicate (length ids) 0) ! t) =
      map2 sample_logit (select_valid ids msk) [0..<length (select_valid ids msk)] ! rank msk t"
    if "length msk = length ids" "length pos = length ids" "select_valid pos msk = [0..<valid_count msk]"
      "t < length ids" "msk ! t \<noteq> 0" for ids msk pos :: "nat list" and t
    using that rank_less [of t msk] rank_upt [of pos msk t] nth_select_valid [of ids msk t]
    by (simp add: length_select_valid nth_append)
  ultimately show ?thesis
    unfolding packing_model_def sample_lm_def by (auto simp: set_zip)
qed

lemma sample_good: "good_micro 4 2 3 sample_micro"
  by (simp add: good_micro_def sample_micro_def rectangular_def select_valid_def valid_count_def
      less_Suc_eq numeral_eq_Suc upt_rec nth_Cons')

theorem rmpad_agrees_witness:
  "\<exists>a b. forward_micro_batch False (\<lambda>v k. [0..<k]) sample_lm sample_flags sample_micro = Inr a \<and>
     forward_micro_batch True (\<lambda>v k. [0..<k]) sample_lm sample_flags sample_micro = Inr b \<and>
     out_log_probs b ! 0 ! 1 = out_log_probs a ! 0 ! 1 \<and> out_log_probs b ! 1 ! 1 = 0"
proof -
  have "plain sample_flags" by (simp add: plain_def sample_flags_def use_topk_def)
  moreover have "sum_list (concat (in_mask sample_micro)) \<noteq> 0" by (simp add: sample_micro_def)
  ultimately obtain a b where ab: "forward_micro_batch False (\<lambda>v k. [0..<k]) sample_lm sample_flags sample_micro = Inr a"
    "forward_micro_batch True (\<lambda>v k. [0..<k]) sample_lm sample_flags sample_micro = Inr b"
    and all: "\<And>i j. i < length (in_ids sample_micro) \<Longrightarrow> j < 2 \<Longrightarrow>
        (in_mask sample_micro ! i ! (4 - 2 - 1 + j) \<noteq> 0 \<and> in_mask sample_micro ! i ! (4 - 2 + j) \<noteq> 0 \<longrightarrow>
           out_log_probs b ! i ! j = out_log_probs a ! i ! j) \<and>
        (in_mask sample_micro ! i ! (4 - 2 - 1 + j) = 0 \<longrightarrow> out_log_probs b ! i ! j = 0)"
    using rmpad_agrees [OF sample_packing sample_good, of sample_flags "\<lambda>v k. [0..<k]"] by blast
  from all [of 0 1] all [of 1 1] have "out_log_probs b ! 0 ! 1 = out_log_probs a ! 0 ! 1" "out_log_probs b ! 1 ! 1 = 0"
    by (simp_all add: sample_micro_def numeral_eq_Suc)
  with ab show ?thesis by blast
qed

end
