(* ===== verification/Actor_Update.thy ===== *)
theory Actor_Update
  imports Actor_Forward_Properties Rollout_Pipeline Teacher_Batch Dynamic_Batch
begin

text \<open>
  The actor worker, \<open>DataParallelPPOActor\<close> of \<open>src/verl/workers/actor/dp_actor.py\<close>:
  \<open>compute_log_prob\<close>, \<open>update_policy\<close> with its loop over epochs, mini-batches and micro-batches, and
  \<open>_optimizer_step\<close>; with \<open>prepare_dynamic_batch\<close> of \<open>seqlen_balancing.py\<close> and \<open>append_to_dict\<close> of
  \<open>py_functional.py\<close>. The network is the model of the forward pass with its parameters; the gradient and
  the optimizer are parameters of the model, and the gradient that is accumulated since the last
  \<open>zero_grad\<close> is the list of the micro-batches whose scaled loss was backpropagated. Loss scaling,
  devices, the prefix grouper and the fused forward are not modelled.
\<close>

section \<open>Dictionaries of metrics\<close>

datatype 'v metric_value = Scalar 'v | Listed "'v list"

fun metric_list :: "'v metric_value \<Rightarrow> 'v list" where
  "metric_list (Scalar v) = [v]"
| "metric_list (Listed vs) = vs"

definition prefixed :: "string \<Rightarrow> string \<Rightarrow> string" where
  "prefixed pre k = (if take (length pre) k = pre then k else pre @ k)"

definition append_to_dict :: "'v list dict \<Rightarrow> 'v metric_value dict \<Rightarrow> string \<Rightarrow> 'v list dict" where
  "append_to_dict data new_data pre =
     foldl (\<lambda>d (k, v). let k' = prefixed pre k; old = (case map_of d k' of None \<Rightarrow> [] | Some vs \<Rightarrow> vs)
                        in AList.update k' (old @ metric_list v) d) data new_data"

section \<open>Multi-modal inputs\<close>

text \<open>An entry of the array \<open>multi_modal_inputs\<close>; a tensor is given by its number of elements.\<close>

datatype mm_value = MMNone | MMTensor nat | MMOther

datatype mm_inputs = InputsNone | InputsDict "(string \<times> mm_value) list" | InputsOther

fun non_empty_value :: "mm_value \<Rightarrow> bool" where
  "non_empty_value MMNone \<longleftrightarrow> False"
| "non_empty_value (MMTensor numel) \<longleftrightarrow> numel \<noteq> 0"
| "non_empty_value MMOther \<longleftrightarrow> True"

fun non_empty_inputs :: "mm_inputs \<Rightarrow> bool" where
  "non_empty_inputs InputsNone \<longleftrightarrow> False"
| "non_empty_inputs (InputsDict items) \<longleftrightarrow> list_ex (\<lambda>(_, v). non_empty_value v) items"
| "non_empty_inputs InputsOther \<longleftrightarrow> True"

definition has_non_empty_multi_modal_inputs :: "mm_inputs list option \<Rightarrow> bool" where
  "has_non_empty_multi_modal_inputs xs \<longleftrightarrow> (case xs of None \<Rightarrow> False | Some l \<Rightarrow> list_ex non_empty_inputs l)"

section \<open>Dynamic micro-batches of a container\<close>

definition batch_items :: "'m rl_data \<Rightarrow> mat dict" where
  "batch_items d = (case batch d of None \<Rightarrow> [] | Some td \<Rightarrow> td_items td)"

definition attention_input :: "mat \<Rightarrow> seq_input" where
  "attention_input attention_mask = PaddedMask (mat_width attention_mask) (map_mat (\<lambda>x. \<lfloor>x\<rfloor>) attention_mask)"

definition prepare_dynamic_batch ::
  "'m rl_data \<Rightarrow> int \<Rightarrow> (int \<Rightarrow> int) option \<Rightarrow> nat option \<Rightarrow> nat option \<Rightarrow> bool \<Rightarrow>
   ('m rl_data list \<times> nat list list) result" where
  "prepare_dynamic_batch d max_token_len sync num_batches_divided_by min_num_micro_batch use_dynamic_bsz_balance =
     rbind (tensor d ''attention_mask'') (\<lambda>attention_mask.
     rbind (rearrange_micro_batches [0..<dp_len d] (attention_input attention_mask) max_token_len sync
              num_batches_divided_by min_num_micro_batch use_dynamic_bsz_balance 1) (\<lambda>(rows, batch_idx_list).
     rbind (mapM_result (\<lambda>batch_idx. from_dict (dict_map (take_rows batch_idx) (batch_items d))
              (dict_map (take_rows batch_idx) (non_tensor d)) (meta d) False) batch_idx_list) (\<lambda>micro_batches.
       Inr (micro_batches, batch_idx_list))))"

section \<open>Networks\<close>

definition nat_mat :: "mat \<Rightarrow> nat list list" where
  "nat_mat A = map_mat (\<lambda>x. nat \<lfloor>x\<rfloor>) A"

definition micro_of :: "mat \<Rightarrow> mat \<Rightarrow> mat \<Rightarrow> mat \<Rightarrow> micro_inputs" where
  "micro_of responses input_ids attention_mask position_ids =
     \<lparr>in_responses = nat_mat responses, in_ids = nat_mat input_ids, in_mask = nat_mat attention_mask,
      in_positions = nat_mat position_ids\<rparr>"

text \<open>\<open>TrustRegionTeacher\<close>: its logits interpolate those of the reference and of the student.\<close>

definition trust_region_lm :: "real \<Rightarrow> lm \<Rightarrow> lm \<Rightarrow> lm" where
  "trust_region_lm mix_coef ref_module student_module =
     \<lparr>padded_logits = (\<lambda>ids msk pos. map2 (map2 (trust_region_logits mix_coef))
        (padded_logits ref_module ids msk pos) (padded_logits student_module ids msk pos)),
      packed_logits = (\<lambda>ids pos. map2 (trust_region_logits mix_coef)
        (packed_logits ref_module ids pos) (packed_logits student_module ids pos))\<rparr>"

text \<open>
  What the actor gets from outside: the network as a function of its parameters, \<open>torch.topk\<close> and
  \<open>torch.randperm\<close>, the reduction over the workers that the bypass loss may use, the gradient norm
  (\<open>None\<close> when it is not finite) and the clipped optimizer step, both functions of the backpropagated
  losses, and the reading of the objects in \<open>multi_modal_inputs\<close>.
\<close>

type_synonym 'm backlog = "('m rl_data \<times> real) list"

record ('o, 'm) world =
  network :: "vec list \<Rightarrow> lm"
  pick_topk :: "vec \<Rightarrow> nat \<Rightarrow> nat list"
  pick_perm :: "nat \<Rightarrow> nat list"
  reduce :: "group_reduce option"
  grad_norm_of :: "'o \<Rightarrow> vec list \<Rightarrow> 'm backlog \<Rightarrow> real option"
  apply_grads :: "real \<Rightarrow> 'o \<Rightarrow> vec list \<Rightarrow> 'm backlog \<Rightarrow> 'o \<times> vec list"
  mm_of :: "entry \<Rightarrow> mm_inputs"

record update_config =
  u_policy_loss :: policy_loss_config
  u_actor :: actor_config
  u_kwargs :: "batch_kwargs option"
  u_self_distillation :: "sd_config option"
  u_loss_agg_mode :: string
  u_mini_batch_size :: nat
  u_micro_batch_size :: nat
  u_dynamic_bsz :: bool
  u_max_token_len :: int
  u_sp_size :: int
  u_epochs :: nat
  u_entropy_coeff :: real
  u_calculate_entropy :: bool
  u_calculate_sum_pi :: bool
  u_use_kl_loss :: bool
  u_kl_loss_coef :: real
  u_kl_loss_type :: string
  u_fused_kernels :: bool
  u_remove_padding :: bool
  u_use_rollout_log_probs :: bool
  u_grad_clip :: "real option"

record 'o actor_state =
  params :: "vec list"
  optim :: 'o
  teacher_module :: teacher

definition sdpo_enabled :: "update_config \<Rightarrow> bool" where
  "sdpo_enabled cfg \<longleftrightarrow> loss_mode (u_policy_loss cfg) = ''sdpo''"

definition has_mm :: "('o, 'm) world \<Rightarrow> 'm rl_data \<Rightarrow> bool" where
  "has_mm W d \<longleftrightarrow> has_non_empty_multi_modal_inputs (map_option (map (mm_of W)) (map_of (non_tensor d) ''multi_modal_inputs''))"

section \<open>compute_log_prob\<close>

text \<open>The values the method reads from \<open>data.meta_info\<close>.\<close>

record lp_meta =
  lp_micro_batch_size :: nat
  lp_temperature :: real
  lp_dynamic_bsz :: bool
  lp_max_token_len :: int
  lp_topk :: "nat option"

definition forward_of :: "('o, 'm) world \<Rightarrow> update_config \<Rightarrow> lm \<Rightarrow> fwd_flags \<Rightarrow> 'm rl_data \<Rightarrow> fwd_out result" where
  "forward_of W cfg model f d =
     rbind (tensor d ''responses'') (\<lambda>responses.
     rbind (tensor d ''input_ids'') (\<lambda>input_ids.
     rbind (tensor d ''attention_mask'') (\<lambda>attention_mask.
     rbind (tensor d ''position_ids'') (\<lambda>position_ids.
       forward_micro_batch (u_remove_padding cfg) (pick_topk W) model f
         (micro_of responses input_ids attention_mask position_ids)))))"

definition cat_field :: "(fwd_out \<Rightarrow> 'a list option) \<Rightarrow> fwd_out list \<Rightarrow> 'a list option result" where
  "cat_field fld outs =
     rbind (mapM_result (\<lambda>out. case fld out of None \<Rightarrow> Inl KeyError | Some v \<Rightarrow> Inr v) outs) (\<lambda>vs. Inr (Some (concat vs)))"

definition cat_if :: "bool \<Rightarrow> (fwd_out \<Rightarrow> 'a list option) \<Rightarrow> fwd_out list \<Rightarrow> 'a list option result" where
  "cat_if b fld outs = (if b then cat_field fld outs else Inr None)"

text \<open>\<open>torch.concat\<close> of the outputs of all micro-batches; of no micro-batches it raises.\<close>

definition concat_outputs :: "bool \<Rightarrow> bool \<Rightarrow> bool \<Rightarrow> fwd_out list \<Rightarrow> fwd_out result" where
  "concat_outputs with_entropy with_sum_pi with_topk outs =
     ensure (outs \<noteq> []) RuntimeError
      (rbind (cat_if with_entropy out_entropys outs) (\<lambda>entropys.
       rbind (cat_if with_sum_pi out_sum_pi outs) (\<lambda>sum_pi.
       rbind (cat_if with_topk out_topk_logps outs) (\<lambda>topk_logps.
       rbind (cat_if with_topk out_topk_indices outs) (\<lambda>topk_indices.
         Inr \<lparr>out_log_probs = concat (map out_log_probs outs), out_entropys = entropys, out_sum_pi = sum_pi,
              out_all_logps = None, out_topk_logps = topk_logps, out_topk_indices = topk_indices\<rparr>)))))"

definition restore_field :: "nat list list \<Rightarrow> 'a list option \<Rightarrow> 'a list option result" where
  "restore_field batch_idx_list v =
     (case v of None \<Rightarrow> Inr None | Some rows \<Rightarrow> rbind (restore_dynamic_batch rows batch_idx_list) (\<lambda>r. Inr (Some r)))"

definition restore_outputs :: "nat list list \<Rightarrow> fwd_out \<Rightarrow> fwd_out result" where
  "restore_outputs batch_idx_list out =
     rbind (restore_dynamic_batch (out_log_probs out) batch_idx_list) (\<lambda>log_probs.
     rbind (restore_field batch_idx_list (out_entropys out)) (\<lambda>entropys.
     rbind (restore_field batch_idx_list (out_sum_pi out)) (\<lambda>sum_pi.
     rbind (restore_field batch_idx_list (out_topk_logps out)) (\<lambda>topk_logps.
     rbind (restore_field batch_idx_list (out_topk_indices out)) (\<lambda>topk_indices.
       Inr (out\<lparr>out_log_probs := log_probs, out_entropys := entropys, out_sum_pi := sum_pi,
                out_topk_logps := topk_logps, out_topk_indices := topk_indices\<rparr>))))))"

definition log_prob_flags :: "update_config \<Rightarrow> lp_meta \<Rightarrow> bool \<Rightarrow> fwd_flags" where
  "log_prob_flags cfg info calculate_entropy =
     \<lparr>want_entropy = calculate_entropy, want_sum_pi = u_calculate_sum_pi cfg, want_all_logps = False,
      want_topk = lp_topk info, given_topk = None, fused_kernels = u_fused_kernels cfg,
      temperature = lp_temperature info\<rparr>"

definition compute_log_prob ::
  "('o, 'm) world \<Rightarrow> update_config \<Rightarrow> 'o actor_state \<Rightarrow> lp_meta \<Rightarrow> bool \<Rightarrow> 'm rl_data \<Rightarrow> fwd_out result" where
  "compute_log_prob W cfg st info calculate_entropy d =
     rbind (dp_select (Some [''responses'', ''input_ids'', ''attention_mask'', ''position_ids''])
              (Some (if has_mm W d then [''multi_modal_inputs''] else [])) None d) (\<lambda>data.
     rbind (if lp_dynamic_bsz info
            then rbind (prepare_dynamic_batch data (lp_max_token_len info * u_sp_size cfg) None None None True)
                   (\<lambda>(mbs, idx). Inr (mbs, Some idx))
            else rbind (dp_split (lp_micro_batch_size info) data) (\<lambda>mbs. Inr (mbs, None))) (\<lambda>(micro_batches, batch_idx_list).
     rbind (mapM_result (forward_of W cfg (network W (params st)) (log_prob_flags cfg info calculate_entropy)) micro_batches)
       (\<lambda>outs.
     rbind (concat_outputs calculate_entropy (u_calculate_sum_pi cfg) (lp_topk info \<noteq> None) outs) (\<lambda>out.
       case batch_idx_list of None \<Rightarrow> Inr out | Some idx \<Rightarrow> restore_outputs idx out))))"

section \<open>The policy loss of a micro-batch\<close>

definition with_vanilla :: "(real \<times> pg_metrics) result \<Rightarrow> (real \<times> metrics) result" where
  "with_vanilla r = rbind r (\<lambda>(loss, pm). Inr (loss, vanilla_metrics pm))"

text \<open>\<open>get_policy_loss_fn\<close> and the call of the registered function; \<open>sdpo\<close> is not registered.\<close>

definition registered_policy_loss ::
  "('o, 'm) world \<Rightarrow> policy_loss_config \<Rightarrow> mat \<Rightarrow> mat \<Rightarrow> mat \<Rightarrow> mat \<Rightarrow> string \<Rightarrow> actor_config \<Rightarrow> mat option \<Rightarrow>
   (real \<times> metrics) result" where
  "registered_policy_loss W pl old_log_prob log_prob advantages resp_mask agg cfg weights =
     (let name = loss_mode pl; c = Some cfg
      in if name = ''vanilla'' then
           with_vanilla (compute_policy_loss_vanilla old_log_prob log_prob advantages resp_mask agg c weights)
         else if name = ''dppo_tv'' then
           with_vanilla (compute_policy_loss_dppo_tv old_log_prob log_prob advantages resp_mask agg c weights)
         else if name = ''dppo_kl'' then
           with_vanilla (compute_policy_loss_dppo_kl old_log_prob log_prob advantages resp_mask agg c weights)
         else if name = ''gspo'' then
           with_vanilla (compute_policy_loss_gspo old_log_prob log_prob advantages resp_mask agg c weights)
         else if name = ''sapo'' then
           with_vanilla (compute_policy_loss_sapo old_log_prob log_prob advantages resp_mask agg c weights)
         else if name = ''gpg'' then
           rbind (compute_policy_loss_gpg old_log_prob log_prob advantages resp_mask agg c weights) (\<lambda>loss. Inr (loss, []))
         else if name = ''clip_cov'' then
           rbind (compute_policy_loss_clip_cov (pick_perm W) old_log_prob log_prob advantages resp_mask agg c weights)
             (\<lambda>(loss, clipfrac, kl). Inr (loss, [(''actor/pg_clipfrac'', clipfrac), (''actor/ppo_kl'', kl)]))
         else if name = ''kl_cov'' then
           rbind (compute_policy_loss_kl_cov (pick_topk W) old_log_prob log_prob advantages resp_mask agg c weights)
             (\<lambda>(loss, kl). Inr (loss, [(''actor/ppo_kl'', kl)]))
         else if name = ''geo_mean'' then
           with_vanilla (compute_policy_loss_geo_mean old_log_prob log_prob advantages resp_mask agg c weights)
         else if name = ''cispo'' then
           with_vanilla (compute_policy_loss_cispo old_log_prob log_prob advantages resp_mask agg c weights)
         else if name = ''bypass_mode'' then
           compute_policy_loss_bypass_mode (reduce W) (rollout_correction pl) old_log_prob log_prob advantages
             resp_mask agg c
         else Inl ValueError)"

definition optional_tensor :: "'m rl_data \<Rightarrow> string \<Rightarrow> mat option" where
  "optional_tensor d k = map_of (batch_items d) k"

definition calculate_entropy_of :: "update_config \<Rightarrow> bool" where
  "calculate_entropy_of cfg \<longleftrightarrow> u_calculate_entropy cfg \<or> u_entropy_coeff cfg \<noteq> 0"

text \<open>
  \<open>self_distillation_cfg\<close> is read only for \<open>sdpo\<close>; \<open>None\<close> has no attributes. The second and third
  component are \<open>return_all_logps\<close> and \<open>distill_topk\<close>, which \<open>__post_init__\<close> has checked to be positive.
\<close>

definition distillation_request :: "update_config \<Rightarrow> (string option \<times> bool \<times> nat option) result" where
  "distillation_request cfg =
     (if \<not> sdpo_enabled cfg then Inr (None, False, None)
      else case u_self_distillation cfg of
             None \<Rightarrow> Inl AttributeError
           | Some sd \<Rightarrow> Inr (Some (teacher_regularization sd),
               full_logit_distillation sd \<and> distillation_topk sd = None,
               if full_logit_distillation sd then map_option nat (distillation_topk sd) else None))"

definition loss_scale :: "update_config \<Rightarrow> nat \<Rightarrow> real result" where
  "loss_scale cfg rows =
     (if u_dynamic_bsz cfg
      then ensure (u_mini_batch_size cfg \<noteq> 0) ZeroDivisionError (Inr (real rows / real (u_mini_batch_size cfg)))
      else (let gradient_accumulation = u_mini_batch_size cfg div u_micro_batch_size cfg
            in ensure (gradient_accumulation \<noteq> 0) ZeroDivisionError (Inr (1 / real gradient_accumulation))))"

text \<open>The teacher: \<open>self.teacher_module or self.actor_module\<close>.\<close>

definition teacher_lm :: "('o, 'm) world \<Rightarrow> update_config \<Rightarrow> 'o actor_state \<Rightarrow> lm" where
  "teacher_lm W cfg st =
     (case teacher_module st of
        Separate ps \<Rightarrow>
          (case u_self_distillation cfg of
             Some sd \<Rightarrow> if teacher_regularization sd = ''trust-region''
                        then trust_region_lm (teacher_update_rate sd) (network W ps) (network W (params st))
                        else network W ps
           | None \<Rightarrow> network W ps)
      | _ \<Rightarrow> network W (params st))"

definition truthy_topk :: "nat option \<Rightarrow> bool" where
  "truthy_topk k \<longleftrightarrow> k \<noteq> None \<and> k \<noteq> Some 0"

definition sd_metric_dict :: "sd_metrics \<Rightarrow> metrics" where
  "sd_metric_dict p =
     [(''self_distillation/log_ratio_mean'', log_ratio_mean p),
      (''self_distillation/log_ratio_abs_mean'', log_ratio_abs_mean p)] @
     (case is_ratio_mean p of None \<Rightarrow> [] | Some x \<Rightarrow> [(''self_distillation/is_ratio_mean'', x)]) @
     [(''self_distillation/active_token_fraction'', active_token_fraction p)]"

text \<open>The row vector of a tensor of shape \<open>(bs,)\<close>.\<close>

definition column :: "mat \<Rightarrow> vec" where
  "column A = map (\<lambda>row. case row of [] \<Rightarrow> 0 | x # _ \<Rightarrow> x) A"

definition sdpo_loss ::
  "('o, 'm) world \<Rightarrow> update_config \<Rightarrow> 'o actor_state \<Rightarrow> real \<Rightarrow> bool \<Rightarrow> nat option \<Rightarrow> 'm rl_data \<Rightarrow> fwd_out \<Rightarrow>
   mat \<Rightarrow> mat option \<Rightarrow> (real \<times> metrics) result" where
  "sdpo_loss W cfg st temp return_all_logps distill_topk d student old_log_prob weights =
     rbind (tensor d ''responses'') (\<lambda>responses.
     rbind (tensor d ''teacher_input_ids'') (\<lambda>ids.
     rbind (tensor d ''teacher_attention_mask'') (\<lambda>msk.
     rbind (tensor d ''teacher_position_ids'') (\<lambda>pos.
     ensure (\<not> (map_option teacher_regularization (u_self_distillation cfg) = Some ''trust-region'' \<and>
               teacher_module st \<in> {NoTeacher, SameModule})) ValueError
      (let student_topk_logps = (if truthy_topk distill_topk then out_topk_logps student else None);
           student_topk_indices = (if truthy_topk distill_topk then out_topk_indices student else None);
           flags = \<lparr>want_entropy = False, want_sum_pi = u_calculate_sum_pi cfg, want_all_logps = return_all_logps,
                    want_topk = distill_topk, given_topk = student_topk_indices, fused_kernels = u_fused_kernels cfg,
                    temperature = temp\<rparr>
       in rbind (forward_micro_batch (u_remove_padding cfg) (pick_topk W) (teacher_lm W cfg st) flags
                   (micro_of responses ids msk pos)) (\<lambda>teacher_out.
          rbind (tensor d ''response_mask'') (\<lambda>response_mask.
          rbind (case u_self_distillation cfg of None \<Rightarrow> Inl AttributeError | Some sd \<Rightarrow> Inr sd) (\<lambda>sd.
          (let sd_mask = map_option column (optional_tensor d ''self_distillation_mask'');
               inp = \<lparr>student_log_probs = out_log_probs student, teacher_log_probs = out_log_probs teacher_out,
                 response_mask = response_mask, old_log_probs = Some old_log_prob,
                 student_all_log_probs = (if return_all_logps then out_all_logps student else None),
                 teacher_all_log_probs = (if return_all_logps then out_all_logps teacher_out else None),
                 student_topk_log_probs = student_topk_logps,
                 teacher_topk_log_probs = (if truthy_topk distill_topk then out_topk_logps teacher_out else None),
                 self_distillation_mask = sd_mask, sd_rollout_is_weights = weights\<rparr>
           in rbind (compute_self_distillation_loss sd inp (u_loss_agg_mode cfg) (u_kwargs cfg)) (\<lambda>(loss, pm).
                Inr (loss, sd_metric_dict pm @
                  [(''self_distillation/empty_target_batch'',
                    indicator_of (case sd_mask of None \<Rightarrow> False | Some v \<Rightarrow> sum_list v = 0))])))))))))))"

section \<open>One micro-batch\<close>

record micro_result =
  scaled_loss :: real
  logged_pg :: real
  logged_kl :: real
  micro_metrics :: metrics

definition rollout_metrics_of :: "update_config \<Rightarrow> mat \<Rightarrow> mat option \<Rightarrow> mat \<Rightarrow> metrics result" where
  "rollout_metrics_of cfg log_prob rollout_log_prob resp_mask =
     (case rollout_log_prob of
        Some r \<Rightarrow> if loss_mode (u_policy_loss cfg) \<noteq> ''bypass_mode''
                  then compute_rollout_corr_metrics_from_logprobs log_prob r resp_mask else Inr []
      | None \<Rightarrow> Inr [])"

text \<open>
  The entropy bonus. \<open>policy_loss -= entropy_agg * entropy_coeff\<close> works in place on the tensor that is
  also \<open>pg_loss\<close>, so the value logged as \<open>actor/pg_loss\<close> changes with it: the result is the loss after the
  bonus, which is both.
\<close>

definition entropy_bonus :: "update_config \<Rightarrow> mat option \<Rightarrow> mat \<Rightarrow> real \<Rightarrow> (real \<times> metrics) result" where
  "entropy_bonus cfg entropy resp_mask pg_loss =
     (case entropy of
        Some e \<Rightarrow> rbind (agg_loss e resp_mask (u_loss_agg_mode cfg) default_info) (\<lambda>entropy_agg.
          Inr (if u_entropy_coeff cfg \<noteq> 0 then pg_loss - entropy_agg * u_entropy_coeff cfg else pg_loss,
               [(''actor/entropy'', entropy_agg)]))
      | None \<Rightarrow> Inr (pg_loss, []))"

definition kl_term ::
  "update_config \<Rightarrow> 'm rl_data \<Rightarrow> mat \<Rightarrow> mat \<Rightarrow> real result" where
  "kl_term cfg d log_prob resp_mask =
     rbind (tensor d ''ref_log_prob'') (\<lambda>ref_log_prob.
     rbind (kl_penalty_mat log_prob ref_log_prob (u_kl_loss_type cfg)) (\<lambda>kld.
       agg_loss kld resp_mask (u_loss_agg_mode cfg) default_info))"

definition micro_step ::
  "('o, 'm) world \<Rightarrow> update_config \<Rightarrow> 'o actor_state \<Rightarrow> bool \<Rightarrow> bool \<Rightarrow> real \<Rightarrow> 'm rl_data \<Rightarrow> micro_result result" where
  "micro_step W cfg st on_policy multi_modal temp d =
     rbind (tensor d ''response_mask'') (\<lambda>response_mask.
     rbind (tensor d ''old_log_probs'') (\<lambda>stored_log_prob.
     rbind (tensor d ''advantages'') (\<lambda>advantages.
     ensure (\<not> (sdpo_enabled cfg \<and> multi_modal)) ValueError
      (rbind (loss_scale cfg (length response_mask)) (\<lambda>scale.
       rbind (distillation_request cfg) (\<lambda>(regularization, return_all_logps, distill_topk).
       ensure (\<not> (regularization = Some ''trust-region'' \<and> u_fused_kernels cfg)) ValueError
       (rbind (forward_of W cfg (network W (params st))
                 \<lparr>want_entropy = calculate_entropy_of cfg, want_sum_pi = u_calculate_sum_pi cfg,
                  want_all_logps = return_all_logps, want_topk = distill_topk, given_topk = None,
                  fused_kernels = u_fused_kernels cfg, temperature = temp\<rparr> d) (\<lambda>student.
        (let log_prob = out_log_probs student;
             old_log_prob = (if u_use_rollout_log_probs cfg \<or> \<not> on_policy then stored_log_prob else log_prob);
             weights = optional_tensor d ''rollout_is_weights''
         in rbind (if sdpo_enabled cfg
                   then sdpo_loss W cfg st temp return_all_logps distill_topk d student old_log_prob weights
                   else registered_policy_loss W (u_policy_loss cfg) old_log_prob log_prob advantages response_mask
                          (u_loss_agg_mode cfg) (u_actor cfg) weights) (\<lambda>(pg_loss, pg_metrics).
            rbind (rollout_metrics_of cfg log_prob (optional_tensor d ''rollout_log_probs'') response_mask) (\<lambda>rollout_metrics.
            rbind (entropy_bonus cfg (out_entropys student) response_mask pg_loss) (\<lambda>(policy_loss, entropy_metrics).
            rbind (if u_use_kl_loss cfg then kl_term cfg d log_prob response_mask else Inr 0) (\<lambda>kl_loss.
              Inr \<lparr>scaled_loss = (if u_use_kl_loss cfg then policy_loss + kl_loss * u_kl_loss_coef cfg else policy_loss) * scale,
                   logged_pg = policy_loss * scale,
                   logged_kl = (if u_use_kl_loss cfg then kl_loss * scale else 0),
                   micro_metrics = dict_update (dict_update (dict_update (dict_update [] pg_metrics) rollout_metrics) entropy_metrics)
                     (if u_use_kl_loss cfg then [(''actor/kl_coef'', u_kl_loss_coef cfg)] else [])\<rparr>)))))))))))))"

section \<open>The update\<close>

record update_metrics =
  total_pg :: real
  total_kl :: real
  appended :: "real option list dict"

record ('o, 'm) update_state =
  worker :: "'o actor_state"
  backlog :: "'m backlog"
  logs :: update_metrics
  did_update :: bool

definition log_micro :: "micro_result \<Rightarrow> update_metrics \<Rightarrow> update_metrics" where
  "log_micro r ms =
     ms\<lparr>total_kl := total_kl ms + logged_kl r, total_pg := total_pg ms + logged_pg r,
        appended := append_to_dict (appended ms) (dict_map (\<lambda>v. Scalar (Some v)) (micro_metrics r)) []\<rparr>"

fun micro_loop ::
  "('o, 'm) world \<Rightarrow> update_config \<Rightarrow> bool \<Rightarrow> bool \<Rightarrow> real \<Rightarrow> 'm rl_data list \<Rightarrow> ('o, 'm) update_state \<Rightarrow>
   ('o, 'm) update_state result" where
  "micro_loop W cfg on_policy multi_modal temp [] st = Inr st"
| "micro_loop W cfg on_policy multi_modal temp (d # ds) st =
     rbind (micro_step W cfg (worker st) on_policy multi_modal temp d) (\<lambda>r.
       micro_loop W cfg on_policy multi_modal temp ds
         (st\<lparr>backlog := backlog st @ [(d, scaled_loss r)], logs := log_micro r (logs st)\<rparr>))"

text \<open>\<open>_optimizer_step\<close> returns the gradient norm; a norm that is not finite drops the gradient.\<close>

definition optimizer_step ::
  "('o, 'm) world \<Rightarrow> update_config \<Rightarrow> ('o, 'm) update_state \<Rightarrow> (('o, 'm) update_state \<times> real option) result" where
  "optimizer_step W cfg st =
     (case u_grad_clip cfg of
        None \<Rightarrow> Inl AssertionError
      | Some clip \<Rightarrow>
          (let a = worker st; grad_norm = grad_norm_of W (optim a) (params a) (backlog st)
           in case grad_norm of
                None \<Rightarrow> Inr (st\<lparr>backlog := []\<rparr>, None)
              | Some n \<Rightarrow>
                  (case apply_grads W clip (optim a) (params a) (backlog st) of
                     (o', ps) \<Rightarrow> Inr (st\<lparr>worker := a\<lparr>optim := o', params := ps\<rparr>\<rparr>, Some n))))"

definition micro_batches_of :: "update_config \<Rightarrow> 'm rl_data \<Rightarrow> 'm rl_data list result" where
  "micro_batches_of cfg mini_batch =
     (if u_dynamic_bsz cfg
      then rbind (prepare_dynamic_batch mini_batch (u_max_token_len cfg * u_sp_size cfg) None None None True)
             (\<lambda>(mbs, _). Inr mbs)
      else ensure (u_micro_batch_size cfg \<noteq> 0) ZeroDivisionError (dp_split (u_micro_batch_size cfg) mini_batch))"

definition mini_step ::
  "('o, 'm) world \<Rightarrow> update_config \<Rightarrow> bool \<Rightarrow> bool \<Rightarrow> real \<Rightarrow> 'm rl_data \<Rightarrow> ('o, 'm) update_state \<Rightarrow>
   ('o, 'm) update_state result" where
  "mini_step W cfg on_policy multi_modal temp mini_batch st =
     rbind (micro_batches_of cfg mini_batch) (\<lambda>micro_batches.
     rbind (micro_loop W cfg on_policy multi_modal temp micro_batches (st\<lparr>backlog := []\<rparr>)) (\<lambda>st1.
     rbind (optimizer_step W cfg st1) (\<lambda>(st2, grad_norm).
       Inr (st2\<lparr>did_update := (did_update st2 \<or> grad_norm \<noteq> None),
                logs := (logs st2)\<lparr>appended := append_to_dict (appended (logs st2))
                          [(''actor/grad_norm'', Scalar grad_norm)] []\<rparr>\<rparr>))))"

fun mini_loop ::
  "('o, 'm) world \<Rightarrow> update_config \<Rightarrow> bool \<Rightarrow> bool \<Rightarrow> real \<Rightarrow> 'm rl_data list \<Rightarrow> ('o, 'm) update_state \<Rightarrow>
   ('o, 'm) update_state result" where
  "mini_loop W cfg on_policy multi_modal temp [] st = Inr st"
| "mini_loop W cfg on_policy multi_modal temp (d # ds) st =
     rbind (mini_step W cfg on_policy multi_modal temp d st) (mini_loop W cfg on_policy multi_modal temp ds)"

definition sdpo_keys :: "string list" where
  "sdpo_keys = [''self_distillation_mask'', ''teacher_attention_mask'', ''teacher_input_ids'', ''teacher_position_ids'']"

definition update_keys :: "update_config \<Rightarrow> 'm rl_data \<Rightarrow> string list" where
  "update_keys cfg d =
     [''responses'', ''response_mask'', ''input_ids'', ''attention_mask'', ''position_ids'', ''old_log_probs'', ''advantages''] @
     (if u_use_kl_loss cfg then [''ref_log_prob''] else []) @
     (if sdpo_enabled cfg then sdpo_keys else []) @
     (if has_tensor d ''rollout_is_weights'' then [''rollout_is_weights''] else []) @
     (if has_tensor d ''rollout_log_probs'' then [''rollout_log_probs''] else [])"

text \<open>The start of the method; \<open>temperature\<close> is read from the meta information of the batch.\<close>

definition select_update_data :: "('o, 'm) world \<Rightarrow> update_config \<Rightarrow> 'm rl_data \<Rightarrow> 'm rl_data result" where
  "select_update_data W cfg d =
     ensure (batch d \<noteq> None) AttributeError
      (ensure (sdpo_enabled cfg \<longrightarrow> (\<forall>k\<in>set sdpo_keys. has_tensor d k)) ValueError
        (dp_select (Some (update_keys cfg d)) (Some (if has_mm W d then [''multi_modal_inputs''] else [])) None d))"

definition update_policy ::
  "('o, 'm) world \<Rightarrow> update_config \<Rightarrow> real \<Rightarrow> 'm rl_data \<Rightarrow> 'o actor_state \<Rightarrow> ('o actor_state \<times> update_metrics) result" where
  "update_policy W cfg temp d a =
     rbind (select_update_data W cfg d) (\<lambda>data.
     rbind (dp_split (u_mini_batch_size cfg) data) (\<lambda>mini_batches.
       (let on_policy = (length mini_batches = 1 \<and> u_epochs cfg = 1);
            st0 = \<lparr>worker = a, backlog = [], logs = \<lparr>total_pg = 0, total_kl = 0, appended = []\<rparr>, did_update = False\<rparr>
        in rbind (mini_loop W cfg on_policy (has_mm W d) temp (concat (replicate (u_epochs cfg) mini_batches)) st0) (\<lambda>st.
             if did_update st
             then rbind (update_teacher (u_self_distillation cfg) (loss_mode (u_policy_loss cfg)) (teacher_module (worker st))
                           (params (worker st))) (\<lambda>t. Inr ((worker st)\<lparr>teacher_module := t\<rparr>, logs st))
             else Inr (worker st, logs st)))))"

end
