(* ===== verification/Actor_Update_Properties.thy ===== *)
theory Actor_Update_Properties
  imports Actor_Update Trainer_Properties
begin

text \<open>
  Lemmas on the actor worker: what the loops of \<open>update_policy\<close> do to the worker, the rows of the
  forward pass, and how micro-batches are cut and put together again.
\<close>

section \<open>The teacher and the optimizer\<close>

lemma micro_loop_worker:
  "micro_loop W cfg op mm temp ds st = Inr st' \<Longrightarrow> worker st' = worker st \<and> did_update st' = did_update st"
proof (induction ds arbitrary: st)
  case (Cons d ds)
  then show ?case by (auto simp: rbind_eq_Inr dest!: Cons.IH)
qed simp

lemma optimizer_step_worker:
  assumes "optimizer_step W cfg st = Inr (st', g)"
  shows "teacher_module (worker st') = teacher_module (worker st) \<and> did_update st' = did_update st \<and>
     (g = None \<longrightarrow> worker st' = worker st \<and> backlog st' = []) \<and>
     (grad_norm_of W (optim (worker st)) (params (worker st)) (backlog st) = g)"
  using assms by (auto simp: optimizer_step_def Let_def split: option.splits prod.splits)

lemma mini_step_worker:
  assumes "mini_step W cfg op mm temp d st = Inr st'"
  shows "teacher_module (worker st') = teacher_module (worker st) \<and>
     (did_update st \<longrightarrow> did_update st') \<and> (\<not> did_update st' \<longrightarrow> worker st' = worker st) \<and>
     ((\<forall>oo ps b. grad_norm_of W oo ps b = None) \<longrightarrow> did_update st' = did_update st) \<and>
     ((\<forall>oo ps b. grad_norm_of W oo ps b \<noteq> None) \<longrightarrow> did_update st')"
proof -
  from assms obtain mbs st1 st2 g where run: "micro_batches_of cfg d = Inr mbs"
    "micro_loop W cfg op mm temp mbs (st\<lparr>backlog := []\<rparr>) = Inr st1" "optimizer_step W cfg st1 = Inr (st2, g)"
    and st': "st' = st2\<lparr>did_update := (did_update st2 \<or> g \<noteq> None),
                logs := (logs st2)\<lparr>appended := append_to_dict (appended (logs st2))
                          [(''actor/grad_norm'', Scalar g)] []\<rparr>\<rparr>"
    unfolding mini_step_def by (auto simp: rbind_eq_Inr)
  have st1: "worker st1 = worker st" "did_update st1 = did_update st"
    using micro_loop_worker [OF run(2)] by simp_all
  show ?thesis
    using optimizer_step_worker [OF run(3)] st1 unfolding st' by auto
qed

lemma mini_loop_worker:
  "mini_loop W cfg op mm temp ds st = Inr st' \<Longrightarrow>
   teacher_module (worker st') = teacher_module (worker st) \<and>
     (did_update st \<longrightarrow> did_update st') \<and> (\<not> did_update st' \<longrightarrow> worker st' = worker st) \<and>
     ((\<forall>oo ps b. grad_norm_of W oo ps b = None) \<longrightarrow> did_update st' = did_update st) \<and>
     ((\<forall>oo ps b. grad_norm_of W oo ps b \<noteq> None) \<and> ds \<noteq> [] \<longrightarrow> did_update st')"
proof (induction ds arbitrary: st)
  case (Cons d ds)
  then obtain st1 where 1: "mini_step W cfg op mm temp d st = Inr st1" "mini_loop W cfg op mm temp ds st1 = Inr st'"
    by (auto simp: rbind_eq_Inr)
  note a = mini_step_worker [OF 1(1)] and b = Cons.IH [OF 1(2)]
  show ?case using a b by (cases "did_update st'"; cases "did_update st1") (auto, (metis+)?)
qed simp

lemma select_len:
  assumes "dp_select (Some ks) nks mks d = Inr r"
  shows "dp_len r = dp_len d"
  using assms by (auto simp: dp_select_def rbind_eq_Inr make_eq_Inr td_select_def ensure_eq_Inr dp_len_def split: option.splits)

lemma select_data:
  assumes "select_update_data W cfg d = Inr data" and "wf_dp d"
  shows "dp_len data = dp_len d \<and> wf_dp data"
  using assms select_len wf_select unfolding select_update_data_def ensure_eq_Inr by blast

lemma select_returns:
  assumes "wf_dp d" and "\<And>k. k \<in> set ks \<Longrightarrow> \<exists>v. tensor d k = Inr v" and "ks \<noteq> []"
  shows "\<exists>r. dp_select (Some ks) nks None d = Inr r"
proof -
  obtain td where td: "batch d = Some td" using assms(2) [of "hd ks"] assms(3) by (auto simp: tensor_def split: option.splits)
  have "set ks \<subseteq> set (keys (td_items td))"
  proof
    fix k
    assume "k \<in> set ks"
    from assms(2) [OF this] td have "map_of (td_items td) k \<noteq> None" by (auto simp: tensor_def split: option.splits)
    then show "k \<in> set (keys (td_items td))" by (auto simp: keys_def map_of_eq_None_iff)
  qed
  then have ts: "td_select ks td = Inr (td\<lparr>td_items := filter (\<lambda>(k, _). k \<in> set ks) (td_items td)\<rparr>)"
    by (simp add: td_select_def)
  have "list_all (\<lambda>(_, v). length v = td_size td) (dict_select nks (non_tensor d))"
    using dict_select_sub [of nks "non_tensor d"] wf_dpD(4) [OF assms(1)] td by (auto simp: list_all_iff dp_len_def)
  then show ?thesis using td ts by (simp add: dp_select_def Data_Proto.make_def check_consistency_def)
qed

lemma oversized_micro_batch:
  "\<not> u_dynamic_bsz cfg \<Longrightarrow> u_mini_batch_size cfg < u_micro_batch_size cfg \<Longrightarrow> loss_scale cfg n = Inl ZeroDivisionError"
  by (simp add: loss_scale_def)

section \<open>Rows of the forward pass\<close>

lemma mapM_take_rows:
  assumes "mapM_result f xs = Inr ys" and "set idx \<subseteq> {..<length xs}"
  shows "mapM_result f (take_rows idx xs) = Inr (take_rows idx ys)"
proof -
  have entry: "f (xs ! i) = Inr (ys ! i)" if "i < length xs" for i
    using assms(1) that
  proof (induction xs arbitrary: ys i)
    case (Cons x xs)
    then show ?case by (cases i) (auto simp: rbind_eq_Inr)
  qed simp
  have "mapM_result f (map (\<lambda>i. xs ! i) js) = Inr (map (\<lambda>i. ys ! i) js)" if "set js \<subseteq> {..<length xs}" for js
    using that by (induction js) (auto simp: entry)
  then show ?thesis using assms(2) by (simp add: take_rows_def)
qed

lemma mapM_result_map: "mapM_result f (map g xs) = mapM_result (\<lambda>x. f (g x)) xs"
  by (induction xs) auto

text \<open>A network that treats the rows of a padded batch one by one.\<close>

definition row_local :: "lm \<Rightarrow> bool" where
  "row_local m \<longleftrightarrow> (\<forall>ids msk pos. length msk = length ids \<and> length pos = length ids \<longrightarrow>
     length (padded_logits m ids msk pos) = length ids \<and>
     (\<forall>idx. set idx \<subseteq> {..<length ids} \<longrightarrow>
        padded_logits m (take_rows idx ids) (take_rows idx msk) (take_rows idx pos) =
          take_rows idx (padded_logits m ids msk pos)))"

definition take_micro :: "nat list \<Rightarrow> micro_inputs \<Rightarrow> micro_inputs" where
  "take_micro idx inp = \<lparr>in_responses = take_rows idx (in_responses inp), in_ids = take_rows idx (in_ids inp),
     in_mask = take_rows idx (in_mask inp), in_positions = take_rows idx (in_positions inp)\<rparr>"

definition take_out :: "nat list \<Rightarrow> fwd_out \<Rightarrow> fwd_out" where
  "take_out idx out = \<lparr>out_log_probs = take_rows idx (out_log_probs out),
     out_entropys = map_option (take_rows idx) (out_entropys out), out_sum_pi = map_option (take_rows idx) (out_sum_pi out),
     out_all_logps = map_option (take_rows idx) (out_all_logps out),
     out_topk_logps = map_option (take_rows idx) (out_topk_logps out),
     out_topk_indices = map_option (take_rows idx) (out_topk_indices out)\<rparr>"

definition aligned :: "micro_inputs \<Rightarrow> bool" where
  "aligned inp \<longleftrightarrow> length (in_mask inp) = length (in_ids inp) \<and> length (in_positions inp) = length (in_ids inp) \<and>
     length (in_responses inp) = length (in_ids inp) \<and> rectangular (width (in_responses inp)) (in_responses inp)"

lemma width_take_rows:
  assumes "idx \<noteq> []" and "set idx \<subseteq> {..<length A}" and "rectangular (width A) A"
  shows "width (take_rows idx A) = width A"
  using assms by (cases idx) (auto simp: width_def take_rows_def rectangular_def)

lemma forward_padded_take:
  assumes local: "row_local model" and run: "forward_padded topk model f inp = Inr out" and "given_topk f = None"
    and idx: "idx \<noteq> []" "set idx \<subseteq> {..<length (in_ids inp)}" and al: "aligned inp"
  shows "forward_padded topk model f (take_micro idx inp) = Inr (take_out idx out)"
proof -
  let ?R = "width (in_responses inp)"
  define G where "G = map (\<lambda>row. resp_slice ?R (scaled_logits (temperature f) row))
      (padded_logits model (in_ids inp) (in_mask inp) (in_positions inp))"
  have P: "length (padded_logits model (in_ids inp) (in_mask inp) (in_positions inp)) = length (in_ids inp)"
    "padded_logits model (take_rows idx (in_ids inp)) (take_rows idx (in_mask inp)) (take_rows idx (in_positions inp)) =
       take_rows idx (padded_logits model (in_ids inp) (in_mask inp) (in_positions inp))"
    using local al idx(2) by (auto simp: row_local_def aligned_def)
  have lenG: "length G = length (in_ids inp)" using P(1) by (simp add: G_def)
  have sub: "set idx \<subseteq> {..<length G}" using idx(2) lenG by simp
  have R: "width (take_rows idx (in_responses inp)) = ?R"
    using idx al by (intro width_take_rows) (auto simp: aligned_def)
  have G': "map (\<lambda>row. resp_slice ?R (scaled_logits (temperature f) row)) (take_rows idx
      (padded_logits model (in_ids inp) (in_mask inp) (in_positions inp))) = take_rows idx G"
    unfolding G_def using idx(2) P(1) by (intro take_rows_map [symmetric]) simp
  define topk_idx where "topk_idx = map_mat (topk_position topk (want_topk f)) G"
  have lenR: "length (in_responses inp) = length G" using al lenG by (simp add: aligned_def)
  from run obtain lp tk where lp: "mapM_result (\<lambda>(row, ys). logprobs_from_logits row ys) (zip G (in_responses inp)) = Inr lp"
    and tk: "(if use_topk f then ensure (length topk_idx = length G) RuntimeError
                       (rbind (mapM_result (\<lambda>(row, js). topk_logps_row row js) (zip G topk_idx)) (\<lambda>t. Inr (Some t)))
                else Inr None) = Inr tk"
    and refused: "\<not> ((want_all_logps f \<or> use_topk f) \<and> fused_kernels f)"
    and out: "out = \<lparr>out_log_probs = lp, out_entropys = out_if (want_entropy f) (map_mat entropy_from_logits G),
                out_sum_pi = out_if (want_sum_pi f) (map_mat sum_pi_squared_of G),
                out_all_logps = out_if (compute_all_logps f) (map_mat log_softmax G),
                out_topk_logps = tk, out_topk_indices = out_if (use_topk f \<and> given_topk f = None) topk_idx\<rparr>"
    unfolding forward_padded_def Let_def G_def [symmetric] \<open>given_topk f = None\<close> option.case topk_idx_def [symmetric]
    by (auto simp: rbind_eq_Inr ensure_eq_Inr)
  have maps: "map_mat g (take_rows idx G) = take_rows idx (map_mat g G)" for g :: "vec \<Rightarrow> 'b"
    unfolding map_mat_def by (rule take_rows_map [OF sub, symmetric])
  have lp': "mapM_result (\<lambda>(row, ys). logprobs_from_logits row ys) (zip (take_rows idx G) (take_rows idx (in_responses inp))) =
      Inr (take_rows idx lp)"
    unfolding take_rows_zip [OF sub lenR [symmetric]] using lp sub lenR by (intro mapM_take_rows) simp_all
  have tk': "(if use_topk f then ensure (length (take_rows idx topk_idx) = length (take_rows idx G)) RuntimeError
                       (rbind (mapM_result (\<lambda>(row, js). topk_logps_row row js) (zip (take_rows idx G) (take_rows idx topk_idx)))
                          (\<lambda>t. Inr (Some t)))
                else Inr None) = Inr (map_option (take_rows idx) tk)"
  proof (cases "use_topk f")
    case True
    have len: "length topk_idx = length G" by (simp add: topk_idx_def map_mat_def)
    from tk True len obtain t where t: "mapM_result (\<lambda>(row, js). topk_logps_row row js) (zip G topk_idx) = Inr t" "tk = Some t"
      by (auto simp: rbind_eq_Inr)
    have "mapM_result (\<lambda>(row, js). topk_logps_row row js) (take_rows idx (zip G topk_idx)) = Inr (take_rows idx t)"
      using t(1) sub len by (intro mapM_take_rows) simp_all
    then show ?thesis using True t(2) by (simp add: take_rows_zip [OF sub len [symmetric]])
  qed (use tk in simp)
  have topk': "map_mat (topk_position topk (want_topk f)) (take_rows idx G) = take_rows idx topk_idx"
    by (simp add: topk_idx_def maps)
  show ?thesis
    unfolding forward_padded_def Let_def take_micro_def micro_inputs.simps R P(2) G' \<open>given_topk f = None\<close> option.case topk'
    using refused lp' tk' \<open>given_topk f = None\<close> by (simp add: out take_out_def out_if_def maps)
qed

lemma nat_mat_take: "set idx \<subseteq> {..<length A} \<Longrightarrow> nat_mat (take_rows idx A) = take_rows idx (nat_mat A)"
  unfolding nat_mat_def map_mat_def by (rule take_rows_map [symmetric])

text \<open>The tensors that the forward pass reads from a batch.\<close>

definition forward_inputs :: "'m rl_data \<Rightarrow> micro_inputs \<Rightarrow> bool" where
  "forward_inputs d inp \<longleftrightarrow> (\<exists>r i m p. tensor d ''responses'' = Inr r \<and> tensor d ''input_ids'' = Inr i \<and>
     tensor d ''attention_mask'' = Inr m \<and> tensor d ''position_ids'' = Inr p \<and> inp = micro_of r i m p)"

lemma forward_of_inputs:
  "forward_inputs d inp \<Longrightarrow>
   forward_of W cfg model f d = forward_micro_batch (u_remove_padding cfg) (pick_topk W) model f inp"
  by (auto simp: forward_inputs_def forward_of_def)

lemma forward_inputs_take:
  assumes "forward_inputs d inp" and "aligned inp" and "set idx \<subseteq> {..<length (in_ids inp)}"
  shows "forward_inputs (dp_take idx d) (take_micro idx inp)"
proof -
  from assms(1) obtain r i m p where t: "tensor d ''responses'' = Inr r" "tensor d ''input_ids'' = Inr i"
    "tensor d ''attention_mask'' = Inr m" "tensor d ''position_ids'' = Inr p" and inp: "inp = micro_of r i m p"
    by (auto simp: forward_inputs_def)
  have len: "length r = length i" "length m = length i" "length p = length i" "set idx \<subseteq> {..<length i}"
    using assms(2,3) by (auto simp: inp aligned_def micro_of_def nat_mat_def map_mat_def)
  have "take_micro idx inp = micro_of (take_rows idx r) (take_rows idx i) (take_rows idx m) (take_rows idx p)"
    using len by (simp add: inp take_micro_def micro_of_def nat_mat_take)
  then show ?thesis
    unfolding forward_inputs_def using tensor_take [OF t(1)] tensor_take [OF t(2)] tensor_take [OF t(3)] tensor_take [OF t(4)]
    by blast
qed

lemma forward_of_take:
  assumes "forward_inputs d inp" and "aligned inp" and "row_local model" and "\<not> u_remove_padding cfg"
    and "forward_of W cfg model f d = Inr out" and "given_topk f = None"
    and "idx \<noteq> []" and "set idx \<subseteq> {..<length (in_ids inp)}"
  shows "forward_of W cfg model f (dp_take idx d) = Inr (take_out idx out)"
proof -
  have "forward_padded (pick_topk W) model f inp = Inr out"
    using assms(4,5) by (simp add: forward_of_inputs [OF assms(1)] forward_micro_batch_def)
  from forward_padded_take [OF assms(3) this assms(6,7,8,2)] show ?thesis
    using assms(4) by (simp add: forward_of_inputs [OF forward_inputs_take [OF assms(1,2,8)]] forward_micro_batch_def)
qed

section \<open>Log-probabilities do not depend on the micro-batches\<close>

lemma from_dict_take:
  assumes "wf_dp d" and "batch_items d \<noteq> []"
  shows "from_dict (dict_map (take_rows idx) (batch_items d)) (dict_map (take_rows idx) (non_tensor d)) (meta d) False =
    Inr (dp_take idx d)"
proof -
  obtain td where td: "batch d = Some td" using assms(2) by (cases "batch d") (auto simp: batch_items_def)
  then obtain k v items where items: "td_items td = (k, v) # items" using assms(2)
    by (cases "td_items td") (auto simp: batch_items_def)
  have take: "dp_take idx d = \<lparr>batch = Some \<lparr>td_size = length idx, td_items = dict_map (take_rows idx) (batch_items d)\<rparr>,
      non_tensor = dict_map (take_rows idx) (non_tensor d), meta = meta d\<rparr>"
    by (simp add: dp_take_def td td_take_def batch_items_def)
  have "list_all (\<lambda>(_, w). length w = length (take_rows idx v)) (dict_map (take_rows idx) (batch_items d))"
    by (auto simp: list_all_iff dict_map_def)
  then show ?thesis
    using make_wf [OF wf_take [OF assms(1)], of idx]
    unfolding from_dict_def Let_def by (simp add: take td items batch_items_def)
qed

lemma prepare_dynamic_batch_take:
  assumes "wf_dp d" and "prepare_dynamic_batch d L sync dv mn bal = Inr (mbs, idx)"
    and "tensor d ''attention_mask'' = Inr m"
  shows "mbs = map (\<lambda>is. dp_take is d) idx \<and> mset (concat idx) = mset [0..<dp_len d] \<and> [] \<notin> set idx"
proof -
  have len: "length m = dp_len d"
    using assms(3) wf_dpD(2) [OF assms(1)] by (auto simp: tensor_def split: option.splits dest!: map_of_SomeD)
  from assms(2,3) obtain rows where r: "rearrange_micro_batches [0..<dp_len d] (attention_input m) L sync dv mn bal 1 = Inr (rows, idx)"
    and mbs: "mapM_result (\<lambda>batch_idx. from_dict (dict_map (take_rows batch_idx) (batch_items d))
              (dict_map (take_rows batch_idx) (non_tensor d)) (meta d) False) idx = Inr mbs"
    by (auto simp: prepare_dynamic_batch_def rbind_eq_Inr)
  from r have "rearrange_indices (attention_input m) L sync dv mn bal 1 = Inr idx"
    by (auto simp: rearrange_micro_batches_def rbind_eq_Inr)
  from rearrange_indices_sound [OF this]
  have perm: "mset (concat idx) = mset [0..<dp_len d]" "[] \<notin> set idx"
    by (simp_all add: attention_input_def map_mat_def len)
  have "batch_items d \<noteq> []" using assms(3) by (auto simp: batch_items_def tensor_def split: option.splits)
  then have "mbs = map (\<lambda>is. dp_take is d) idx"
    using mbs from_dict_take [OF assms(1)] mapM_result_Inr [of idx _ "\<lambda>is. dp_take is d"] by simp
  with perm show ?thesis by simp
qed

lemma chunks_nonempty: "[] \<notin> set (py_chunks n xs)"
proof (induction n xs rule: py_chunks.induct)
  case (1 n xs)
  then show ?case by (cases "n = 0 \<or> xs = []") (auto simp: py_chunks.simps [of n xs])
qed

lemma cat_if_take:
  assumes "\<forall>idx\<in>set iss. set idx \<subseteq> {..<n}" and "v = None \<longleftrightarrow> \<not> b" and "\<And>x. fld (take_out x out) = map_option (take_rows x) v"
  shows "cat_if b fld (map (\<lambda>idx. take_out idx out) iss) = Inr (map_option (take_rows (concat iss)) v)"
proof (cases v)
  case (Some rows)
  have "mapM_result (\<lambda>out. case fld out of None \<Rightarrow> Inl KeyError | Some v \<Rightarrow> Inr v) (map (\<lambda>idx. take_out idx out) iss) =
      Inr (map (\<lambda>idx. take_rows idx rows) iss)"
    by (induction iss) (simp_all add: assms(3) Some)
  then show ?thesis using assms(2) Some by (simp add: cat_if_def cat_field_def take_rows_concat)
qed (use assms(2) in \<open>simp add: cat_if_def\<close>)

lemma take_restored:
  "mset (concat iss) = mset [0..<length xs] \<Longrightarrow> restore_dynamic_batch (take_rows (concat iss) xs) iss = Inr xs"
  unfolding take_rows_def by (rule restore_permuted)

lemma concat_outputs_take:
  assumes out: "forward_padded topk model f inp = Inr out" and f: "want_entropy f = e" "want_sum_pi f = s" "want_topk f = k"
      "want_all_logps f = False" "given_topk f = None"
    and iss: "iss \<noteq> []" "\<forall>idx\<in>set iss. set idx \<subseteq> {..<n}"
  shows "concat_outputs e s (k \<noteq> None) (map (\<lambda>idx. take_out idx out) iss) = Inr (take_out (concat iss) out)"
proof -
  have fields: "out_entropys out = None \<longleftrightarrow> \<not> e" "out_sum_pi out = None \<longleftrightarrow> \<not> s"
    "out_topk_logps out = None \<longleftrightarrow> k = None" "out_topk_indices out = None \<longleftrightarrow> k = None" "out_all_logps out = None"
    using out f by (auto simp: forward_padded_def Let_def rbind_eq_Inr ensure_eq_Inr out_if_def use_topk_def
        compute_all_logps_def split: if_splits)
  have "cat_if e out_entropys (map (\<lambda>idx. take_out idx out) iss) = Inr (map_option (take_rows (concat iss)) (out_entropys out))"
    "cat_if s out_sum_pi (map (\<lambda>idx. take_out idx out) iss) = Inr (map_option (take_rows (concat iss)) (out_sum_pi out))"
    "cat_if (k \<noteq> None) out_topk_logps (map (\<lambda>idx. take_out idx out) iss) = Inr (map_option (take_rows (concat iss)) (out_topk_logps out))"
    "cat_if (k \<noteq> None) out_topk_indices (map (\<lambda>idx. take_out idx out) iss) = Inr (map_option (take_rows (concat iss)) (out_topk_indices out))"
    by (intro cat_if_take [OF iss(2)]; simp add: fields take_out_def)+
  then show ?thesis
    using iss(1) fields(5) by (simp add: concat_outputs_def take_out_def take_rows_concat comp_def)
qed

lemma forward_padded_lengths:
  assumes out: "forward_padded topk model f inp = Inr out" and "row_local model" and "aligned inp" and "given_topk f = None"
  shows "length (out_log_probs out) = length (in_ids inp)"
    and "\<forall>v. out_entropys out = Some v \<or> out_sum_pi out = Some v \<longrightarrow> length v = length (in_ids inp)"
    and "\<forall>v. out_topk_logps out = Some v \<or> out_all_logps out = Some v \<longrightarrow> length v = length (in_ids inp)"
    and "\<forall>v. out_topk_indices out = Some v \<longrightarrow> length v = length (in_ids inp)"
proof -
  have P: "length (padded_logits model (in_ids inp) (in_mask inp) (in_positions inp)) = length (in_ids inp)"
    using assms(2,3) by (auto simp: row_local_def aligned_def)
  show "length (out_log_probs out) = length (in_ids inp)"
    and "\<forall>v. out_entropys out = Some v \<or> out_sum_pi out = Some v \<longrightarrow> length v = length (in_ids inp)"
    and "\<forall>v. out_topk_logps out = Some v \<or> out_all_logps out = Some v \<longrightarrow> length v = length (in_ids inp)"
    and "\<forall>v. out_topk_indices out = Some v \<longrightarrow> length v = length (in_ids inp)"
    using out P \<open>aligned inp\<close> \<open>given_topk f = None\<close>
    by (auto simp: forward_padded_def Let_def rbind_eq_Inr ensure_eq_Inr out_if_def aligned_def map_mat_def
        dest!: mapM_result_length split: if_splits)
qed

lemma take_out_all:
  assumes "forward_padded topk model f inp = Inr out" and "row_local model" and "aligned inp" and "given_topk f = None"
  shows "take_out [0..<length (in_ids inp)] out = out"
proof -
  note len = forward_padded_lengths [OF assms]
  have opt: "map_option (take_rows [0..<length (in_ids inp)]) v = v" if "\<forall>x. v = Some x \<longrightarrow> length x = length (in_ids inp)"
    for v :: "'b list option"
    using that by (cases v) (simp_all add: take_rows_all)
  have "map_option (take_rows [0..<length (in_ids inp)]) (out_entropys out) = out_entropys out"
    "map_option (take_rows [0..<length (in_ids inp)]) (out_sum_pi out) = out_sum_pi out"
    "map_option (take_rows [0..<length (in_ids inp)]) (out_all_logps out) = out_all_logps out"
    "map_option (take_rows [0..<length (in_ids inp)]) (out_topk_logps out) = out_topk_logps out"
    "map_option (take_rows [0..<length (in_ids inp)]) (out_topk_indices out) = out_topk_indices out"
    using len by (intro opt; blast)+
  then show ?thesis using len(1) by (simp add: take_out_def take_rows_all)
qed

lemma restore_take_out:
  assumes out: "forward_padded topk model f inp = Inr out" and "row_local model" and "aligned inp" and "given_topk f = None"
    and "want_all_logps f = False" and perm: "mset (concat iss) = mset [0..<length (in_ids inp)]"
  shows "restore_outputs iss (take_out (concat iss) out) = Inr out"
proof -
  note len = forward_padded_lengths [OF assms(1-4)]
  have fld: "restore_field iss (map_option (take_rows (concat iss)) v) = Inr v"
    if "\<forall>x. v = Some x \<longrightarrow> length x = length (in_ids inp)" for v :: "'b list option"
    using that take_restored [of iss "the v"] perm by (cases v) (auto simp: restore_field_def)
  have "restore_field iss (map_option (take_rows (concat iss)) (out_entropys out)) = Inr (out_entropys out)"
    "restore_field iss (map_option (take_rows (concat iss)) (out_sum_pi out)) = Inr (out_sum_pi out)"
    "restore_field iss (map_option (take_rows (concat iss)) (out_topk_logps out)) = Inr (out_topk_logps out)"
    "restore_field iss (map_option (take_rows (concat iss)) (out_topk_indices out)) = Inr (out_topk_indices out)"
    using len by (intro fld; blast)+
  moreover have "out_all_logps out = None"
    using out \<open>want_all_logps f = False\<close>
    by (auto simp: forward_padded_def Let_def rbind_eq_Inr ensure_eq_Inr out_if_def compute_all_logps_def split: if_splits)
  ultimately show ?thesis
    unfolding restore_outputs_def
    using take_restored [of iss "out_log_probs out"] perm len(1) by (simp add: take_out_def)
qed

lemma select_tensor:
  "dp_select (Some ks) nks mks d = Inr r \<Longrightarrow> tensor d k = Inr v \<Longrightarrow> k \<in> set ks \<Longrightarrow> tensor r k = Inr v"
proof -
  have "map_of (filter (\<lambda>(k, _). k \<in> set ks) items) k = map_of items k" if "k \<in> set ks" for items :: "mat dict"
    using that by (induction items) auto
  then show "dp_select (Some ks) nks mks d = Inr r \<Longrightarrow> tensor d k = Inr v \<Longrightarrow> k \<in> set ks \<Longrightarrow> tensor r k = Inr v"
    by (auto simp: dp_select_def rbind_eq_Inr make_eq_Inr td_select_def ensure_eq_Inr tensor_def split: option.splits)
qed

definition cut_batch :: "update_config \<Rightarrow> lp_meta \<Rightarrow> 'm rl_data \<Rightarrow> ('m rl_data list \<times> nat list list option) result" where
  "cut_batch cfg info data =
     (if lp_dynamic_bsz info
      then rbind (prepare_dynamic_batch data (lp_max_token_len info * u_sp_size cfg) None None None True)
             (\<lambda>(mbs, idx). Inr (mbs, Some idx))
      else rbind (dp_split (lp_micro_batch_size info) data) (\<lambda>mbs. Inr (mbs, None)))"

lemma log_prob_of_cut:
  assumes cut: "cut_batch cfg info data = Inr (mbs, ix)" and data: "wf_dp data" "0 < dp_len data"
    and inputs: "forward_inputs data inp" "aligned inp" and len: "length (in_ids inp) = dp_len data"
    and net: "row_local (network W (params st))" "\<not> u_remove_padding cfg"
    and whole: "forward_padded (pick_topk W) (network W (params st)) (log_prob_flags cfg info e) inp = Inr out"
  shows "rbind (mapM_result (forward_of W cfg (network W (params st)) (log_prob_flags cfg info e)) mbs) (\<lambda>outs.
     rbind (concat_outputs e (u_calculate_sum_pi cfg) (lp_topk info \<noteq> None) outs) (\<lambda>out.
       case ix of None \<Rightarrow> Inr out | Some idx \<Rightarrow> restore_outputs idx out)) = Inr out"
proof -
  obtain iss where mbs: "mbs = map (\<lambda>idx. dp_take idx data) iss" and perm: "mset (concat iss) = mset [0..<dp_len data]"
    and ne: "[] \<notin> set iss" and ix: "ix = (if lp_dynamic_bsz info then Some iss else None)"
    and order: "\<not> lp_dynamic_bsz info \<Longrightarrow> concat iss = [0..<dp_len data]"
  proof (cases "lp_dynamic_bsz info")
    case True
    then obtain idx where p: "prepare_dynamic_batch data (lp_max_token_len info * u_sp_size cfg) None None None True = Inr (mbs, idx)"
      "ix = Some idx" using cut by (auto simp: cut_batch_def rbind_eq_Inr)
    obtain m where "tensor data ''attention_mask'' = Inr m" using inputs by (auto simp: forward_inputs_def)
    from prepare_dynamic_batch_take [OF data(1) p(1) this] p(2) True show ?thesis by (intro that) auto
  next
    case False
    then have s: "dp_split (lp_micro_batch_size info) data = Inr mbs" "ix = None"
      using cut by (auto simp: cut_batch_def rbind_eq_Inr)
    then have pos: "0 < lp_micro_batch_size info" by (auto simp: dp_split_def ensure_eq_Inr)
    show ?thesis
      using s split_take [OF data(1) pos] chunks_nonempty [of "lp_micro_batch_size info" "[0..<dp_len data]"]
        concat_py_chunks [OF pos, of "[0..<dp_len data]"] False
      by (intro that [of "py_chunks (lp_micro_batch_size info) [0..<dp_len data]"]) auto
  qed
  have below: "\<forall>idx\<in>set iss. set idx \<subseteq> {..<length (in_ids inp)}"
    using mset_upt_perm(2) [OF perm] len by auto
  have "length (concat iss) = dp_len data" using mset_upt_perm(3) [OF perm] by simp
  then have some: "iss \<noteq> []" using data(2) by auto
  let ?flags = "log_prob_flags cfg info e"
  have flags: "want_entropy ?flags = e" "want_sum_pi ?flags = u_calculate_sum_pi cfg" "want_topk ?flags = lp_topk info"
    "want_all_logps ?flags = False" "given_topk ?flags = None" by (simp_all add: log_prob_flags_def)
  have fwd: "forward_of W cfg (network W (params st)) ?flags data = Inr out"
    using whole net(2) by (simp add: forward_of_inputs [OF inputs(1)] forward_micro_batch_def)
  have "forward_of W cfg (network W (params st)) ?flags (dp_take idx data) = Inr (take_out idx out)" if "idx \<in> set iss" for idx
    using that ne below by (intro forward_of_take [OF inputs net fwd flags(5)]) auto
  then have "mapM_result (\<lambda>idx. forward_of W cfg (network W (params st)) ?flags (dp_take idx data)) iss =
      Inr (map (\<lambda>idx. take_out idx out) iss)" by (intro mapM_result_Inr)
  then have outs: "mapM_result (forward_of W cfg (network W (params st)) ?flags) mbs = Inr (map (\<lambda>idx. take_out idx out) iss)"
    by (simp add: mbs mapM_result_map)
  show ?thesis
    using outs ix order len concat_outputs_take [OF whole flags some below] perm
      restore_take_out [OF whole net(1) inputs(2) flags(5,4), of iss] take_out_all [OF whole net(1) inputs(2) flags(5)]
    by (cases "lp_dynamic_bsz info") simp_all
qed

text \<open>Conditions under which the batch can be cut: a positive size, or token counts that fit the limit.\<close>

definition can_cut :: "update_config \<Rightarrow> lp_meta \<Rightarrow> micro_inputs \<Rightarrow> bool" where
  "can_cut cfg info inp \<longleftrightarrow>
     (if lp_dynamic_bsz info
      then 0 < sum_list (concat (in_mask inp)) \<and> int (width (in_mask inp)) \<le> lp_max_token_len info * u_sp_size cfg \<and>
        0 < lp_max_token_len info * u_sp_size cfg
      else 0 < lp_micro_batch_size info)"

lemma cut_returns:
  assumes "can_cut cfg info inp" and "wf_dp data" and "forward_inputs data inp"
    and msk: "\<And>m. tensor data ''attention_mask'' = Inr m \<Longrightarrow> (\<forall>row\<in>set m. \<forall>x\<in>set row. 0 \<le> x)"
  shows "\<exists>mbs ix. cut_batch cfg info data = Inr (mbs, ix)"
proof (cases "lp_dynamic_bsz info")
  case True
  obtain m where m: "tensor data ''attention_mask'' = Inr m" "in_mask inp = nat_mat m"
    using assms(3) by (auto simp: forward_inputs_def micro_of_def)
  define L where "L = lp_max_token_len info * u_sp_size cfg"
  have floors: "map sum_list (map_mat (\<lambda>x. \<lfloor>x\<rfloor>) m) = map (\<lambda>row. int (sum_list row)) (nat_mat m)"
  proof -
    have "sum_list (map (\<lambda>x. \<lfloor>x\<rfloor>) row) = int (sum_list (map (\<lambda>x. nat \<lfloor>x\<rfloor>) row))" if "\<forall>x\<in>set row. (0 :: real) \<le> x" for row
      using that by (induction row) auto
    then show ?thesis using msk [OF m(1)] by (simp add: nat_mat_def map_mat_def)
  qed
  have total: "sum_list (map (\<lambda>row. int (sum_list row)) A) = int (sum_list (concat A))" for A :: "nat list list"
    by (induction A) auto
  have w: "width (in_mask inp) = mat_width m" by (cases m) (auto simp: m(2) width_def mat_width_def nat_mat_def map_mat_def)
  have len: "length m = dp_len data"
    using m(1) wf_dpD(2) [OF assms(2)] by (auto simp: tensor_def split: option.splits dest!: map_of_SomeD)
  have eff: "seq_len_effective (attention_input m) = map (\<lambda>row. int (sum_list row)) (nat_mat m)"
    by (simp add: attention_input_def floors)
  have eff': "\<forall>x\<in>set (seq_len_effective (attention_input m)). 0 \<le> x" "length (seq_len_effective (attention_input m)) = dp_len data"
    "0 < sum_list (seq_len_effective (attention_input m))"
    using assms(1) True unfolding eff total can_cut_def m(2) by (auto simp: nat_mat_def map_mat_def len)
  have "\<exists>rows idx c. rearrange_micro_batches [0..<dp_len data] (attention_input m) L None None None True 1 = Inr (rows, idx) \<and>
     sum_list (seq_len_effective (attention_input m)) \<le> c * L \<and> c * L < sum_list (seq_len_effective (attention_input m)) + L \<and>
     int (length rows) = min (int (length (seq_len_effective (attention_input m)) div 1)) c"
  proof (rule rearrange_returns [OF refl eff'(1,3), where m = "int (mat_width m)"])
    show "max_seq_len (attention_input m) = Inr (int (mat_width m))" by (simp add: attention_input_def)
    show "int (mat_width m) \<le> L" "0 < L" using assms(1) True w by (auto simp: can_cut_def L_def)
  qed (simp_all add: eff'(2))
  then obtain rows idx where r: "rearrange_micro_batches [0..<dp_len data] (attention_input m) L None None None True 1 = Inr (rows, idx)"
    by blast
  have "batch_items data \<noteq> []" using m(1) by (auto simp: batch_items_def tensor_def split: option.splits)
  then have "mapM_result (\<lambda>batch_idx. from_dict (dict_map (take_rows batch_idx) (batch_items data))
      (dict_map (take_rows batch_idx) (non_tensor data)) (meta data) False) idx = Inr (map (\<lambda>is. dp_take is data) idx)"
    by (intro mapM_result_Inr from_dict_take [OF assms(2)])
  then show ?thesis using True m(1) r by (simp add: cut_batch_def prepare_dynamic_batch_def L_def)
next
  case False
  then show ?thesis using assms(1) split_take [OF assms(2)] by (simp add: cut_batch_def can_cut_def)
qed

end
