(* ===== verification/Actor_Accumulation.thy ===== *)
theory Actor_Accumulation
  imports Actor_Update_Properties
begin

text \<open>
  What the actor worker guarantees: accumulating the scaled losses of the micro-batches gives the loss of
  the mini-batch, log-probabilities do not depend on the micro-batching, and the teacher moves at most once
  per update and only after a finite gradient step.
\<close>

section \<open>Accumulating the losses of the micro-batches\<close>

definition seq_modes :: "string set" where
  "seq_modes = {''seq-mean-token-sum'', ''seq-mean-token-sum-norm'', ''seq-mean-token-mean''}"

text \<open>The loss of one sequence in a mode that averages over sequences.\<close>

definition seq_loss :: "string \<Rightarrow> nat \<Rightarrow> vec \<Rightarrow> vec \<Rightarrow> real" where
  "seq_loss mode w ls ms =
     (let s = sum_list (map2 (*) ls ms)
      in if mode = ''seq-mean-token-mean'' then s / (sum_list ms + 1 / 10 ^ 8)
         else if mode = ''seq-mean-token-sum-norm'' then s / real w else s)"

definition seq_losses :: "string \<Rightarrow> mat \<Rightarrow> mat \<Rightarrow> vec" where
  "seq_losses mode M A = map2 (seq_loss mode (mat_width M)) A M"

definition all_valid :: "mat \<Rightarrow> bool" where
  "all_valid M \<longleftrightarrow> M \<noteq> [] \<and> rectangular (mat_width M) M \<and> (\<forall>row\<in>set M. 0 < sum_list row)"

lemma row_masked_sum_ones: "length xs = n \<Longrightarrow> row_masked_sum xs (replicate n 1) = sum_list xs"
proof (induction xs arbitrary: n)
  case (Cons x xs)
  then show ?case by (cases n) (auto simp: row_masked_sum_def masked_value_def)
qed (simp add: row_masked_sum_def)

lemma agg_rows:
  assumes "mode \<in> seq_modes" and "length A = length M" and "all_valid M"
  shows "agg_loss A M mode default_info = Inr (vec_mean (seq_losses mode M A))"
proof -
  have sm: "seq_mask_of M = replicate (length M) 1"
    using assms(3) by (auto simp: seq_mask_of_def all_valid_def intro!: nth_equalityI)
  have n: "sum_list (seq_mask_of M) = real (length M)" unfolding sm by (simp add: sum_list_replicate)
  have norm: "sum_list (map2 (\<lambda>l m. sum_list (map2 (*) l m) / c) A M) = sum_list (map2 (\<lambda>l m. sum_list (map2 (*) l m)) A M) / c" for c
    using assms(2) by (induction A M rule: list_induct2) (auto simp: add_divide_distrib)
  have rs: "row_masked_sum (map2 f A M) (seq_mask_of M) = sum_list (map2 f A M)" for f
    unfolding sm using assms(2) by (intro row_masked_sum_ones) simp
  have tm: "map2 (\<lambda>s c. s / (c + eps)) (seq_token_sums A M) (map sum_list M) =
      map2 (\<lambda>l m. sum_list (map2 (*) l m) / (sum_list m + eps)) A M" for eps
    unfolding seq_token_sums_def using assms(2) by (induction A M rule: list_induct2) auto
  have len: "length (seq_losses mode M A) = length M" using assms(2) by (simp add: seq_losses_def)
  from assms(1) consider "mode = ''seq-mean-token-sum''" | "mode = ''seq-mean-token-sum-norm''" | "mode = ''seq-mean-token-mean''"
    by (auto simp: seq_modes_def)
  then show ?thesis
  proof cases
    case 1
    then show ?thesis
      using assms(2) by (simp add: agg_loss_def Let_def required_count_def default_info_def vec_mean_def len n)
        (simp add: seq_token_sums_def rs seq_losses_def seq_loss_def)
  next
    case 2
    then show ?thesis
      using assms(2) by (simp add: agg_loss_def Let_def required_count_def default_info_def vec_mean_def len n)
        (simp add: seq_token_sums_def rs seq_losses_def seq_loss_def norm)
  next
    case 3
    then show ?thesis
      using assms(2) by (simp add: agg_loss_def Let_def required_count_def default_info_def vec_mean_def len n tm rs)
        (simp add: seq_losses_def seq_loss_def)
  qed
qed

text \<open>The mean of a vector is the weighted sum of the means of the parts of a partition.\<close>

lemma mean_of_parts:
  assumes "mset (concat iss) = mset [0..<length v]" and "[] \<notin> set iss"
  shows "sum_list (map (\<lambda>idx. vec_mean (take_rows idx v) * (real (length idx) / real (length v))) iss) = vec_mean v"
proof -
  have "sum_list (map (\<lambda>idx. vec_mean (take_rows idx v) * (real (length idx) / real (length v))) iss) =
      sum_list (map (\<lambda>idx. sum_list (take_rows idx v) / real (length v)) iss)"
    using assms(2) by (intro arg_cong [where f = sum_list] map_cong) (auto simp: vec_mean_def)
  also have "\<dots> = sum_list (concat (map (\<lambda>idx. take_rows idx v) iss)) / real (length v)"
    by (induction iss) (simp_all add: add_divide_distrib)
  also have "sum_list (concat (map (\<lambda>idx. take_rows idx v) iss)) = sum_list v"
  proof -
    have "mset (take_rows (concat iss) v) = mset v" using assms(1) by (rule mset_take_perm)
    then have "sum_list (take_rows (concat iss) v) = sum_list v" by (metis sum_mset_sum_list)
    then show ?thesis by (simp add: take_rows_concat)
  qed
  finally show ?thesis by (simp add: vec_mean_def)
qed

lemma seq_losses_take:
  assumes "all_valid M" and "length A = length M" and "idx \<noteq> []" "set idx \<subseteq> {..<length M}"
  shows "seq_losses mode (take_rows idx M) (take_rows idx A) = take_rows idx (seq_losses mode M A)"
    and "all_valid (take_rows idx M)"
proof -
  have w: "mat_width (take_rows idx M) = mat_width M"
    using assms by (cases idx) (auto simp: mat_width_def take_rows_def all_valid_def rectangular_def)
  show "seq_losses mode (take_rows idx M) (take_rows idx A) = take_rows idx (seq_losses mode M A)"
    unfolding seq_losses_def w using assms by (intro take_rows_map2 [symmetric]) simp_all
  show "all_valid (take_rows idx M)"
    using assms unfolding all_valid_def w by (auto simp: take_rows_def rectangular_def)
qed

definition student_flags :: "update_config \<Rightarrow> real \<Rightarrow> fwd_flags" where
  "student_flags cfg temp = \<lparr>want_entropy = calculate_entropy_of cfg, want_sum_pi = u_calculate_sum_pi cfg,
     want_all_logps = False, want_topk = None, given_topk = None, fused_kernels = u_fused_kernels cfg, temperature = temp\<rparr>"

text \<open>The clipped PPO loss, averaged over sequences, without values handed in for the global batch.\<close>

definition plain_update :: "update_config \<Rightarrow> bool" where
  "plain_update cfg \<longleftrightarrow> loss_mode (u_policy_loss cfg) = ''vanilla'' \<and> u_loss_agg_mode cfg \<in> seq_modes \<and>
     global_batch_info (u_actor cfg) = default_info \<and> 1 < default_to 3 (clip_ratio_c (u_actor cfg))"

definition token_losses :: "actor_config \<Rightarrow> mat \<Rightarrow> mat \<Rightarrow> mat \<Rightarrow> mat option \<Rightarrow> mat" where
  "token_losses cfg old lp adv w = apply_weights w
     (ew2 (dual_clip_loss (low_of cfg) (high_of cfg) (default_to 3 (clip_ratio_c cfg)))
       (ew2 (\<lambda>o_lp l. exp (approx_kl o_lp l)) old lp) adv)"

text \<open>What a micro-batch needs: \<open>M\<close> the response mask, \<open>S\<close> the stored log-probabilities, \<open>A\<close> the advantages, \<open>K\<close> the KL values.\<close>

definition ready ::
  "('o, 'm) world \<Rightarrow> update_config \<Rightarrow> 'o actor_state \<Rightarrow> real \<Rightarrow> 'm rl_data \<Rightarrow> fwd_out \<Rightarrow> mat \<Rightarrow> mat \<Rightarrow> mat \<Rightarrow> mat \<Rightarrow> bool" where
  "ready W cfg st temp d out M S A K \<longleftrightarrow>
     tensor d ''response_mask'' = Inr M \<and> tensor d ''old_log_probs'' = Inr S \<and> tensor d ''advantages'' = Inr A \<and>
     forward_of W cfg (network W (params st)) (student_flags cfg temp) d = Inr out \<and>
     all_valid M \<and> length S = length M \<and> length A = length M \<and> length (out_log_probs out) = length M \<and>
     (out_entropys out \<noteq> None \<longleftrightarrow> calculate_entropy_of cfg) \<and>
     (\<forall>e. out_entropys out = Some e \<longrightarrow> length e = length M) \<and>
     (\<forall>w. optional_tensor d ''rollout_is_weights'' = Some w \<longrightarrow> length w = length M) \<and>
     (u_use_kl_loss cfg \<longrightarrow> (\<exists>ref. tensor d ''ref_log_prob'' = Inr ref \<and> length ref = length M \<and>
        kl_penalty_mat (out_log_probs out) ref (u_kl_loss_type cfg) = Inr K))"

definition old_of :: "update_config \<Rightarrow> bool \<Rightarrow> mat \<Rightarrow> fwd_out \<Rightarrow> mat" where
  "old_of cfg on_policy S out = (if u_use_rollout_log_probs cfg \<or> \<not> on_policy then S else out_log_probs out)"

definition row_losses :: "update_config \<Rightarrow> bool \<Rightarrow> mat \<Rightarrow> mat \<Rightarrow> mat \<Rightarrow> mat option \<Rightarrow> fwd_out \<Rightarrow> vec" where
  "row_losses cfg on_policy M S A w out = seq_losses (u_loss_agg_mode cfg) M
     (token_losses (u_actor cfg) (old_of cfg on_policy S out) (out_log_probs out) A w)"

definition pg_part :: "update_config \<Rightarrow> bool \<Rightarrow> mat \<Rightarrow> mat \<Rightarrow> mat \<Rightarrow> mat option \<Rightarrow> fwd_out \<Rightarrow> real" where
  "pg_part cfg on_policy M S A w out =
     vec_mean (row_losses cfg on_policy M S A w out) -
     (case out_entropys out of
        Some e \<Rightarrow> if u_entropy_coeff cfg \<noteq> 0 then vec_mean (seq_losses (u_loss_agg_mode cfg) M e) * u_entropy_coeff cfg else 0
      | None \<Rightarrow> 0)"

definition kl_part :: "update_config \<Rightarrow> mat \<Rightarrow> mat \<Rightarrow> real" where
  "kl_part cfg M K = (if u_use_kl_loss cfg then vec_mean (seq_losses (u_loss_agg_mode cfg) M K) else 0)"

lemma kl_penalty_mat_length: "kl_penalty_mat a b nm = Inr k \<Longrightarrow> length k = min (length a) (length b)"
  by (auto simp: kl_penalty_mat_def dest!: mapM_result_length)

lemma all_valid_any: "all_valid M \<Longrightarrow> any_token M"
proof -
  assume "all_valid M"
  then obtain row where row: "row \<in> set M" "0 < sum_list row" by (cases M) (auto simp: all_valid_def)
  have "sum_list xs = 0" if "\<forall>x\<in>set xs. x = 0" for xs :: vec using that by (induction xs) auto
  then have "\<exists>x\<in>set row. x \<noteq> 0" using row(2) by force
  then show ?thesis using row(1) by (auto simp: any_token_def)
qed

lemma micro_step_run:
  assumes ready: "ready W cfg st temp d out M S A K" and plain: "plain_update cfg"
    and scale: "loss_scale cfg (length M) = Inr scale"
  shows "\<exists>r. micro_step W cfg st op mm temp d = Inr r \<and>
     scaled_loss r = (pg_part cfg op M S A (optional_tensor d ''rollout_is_weights'') out + kl_part cfg M K * u_kl_loss_coef cfg) * scale \<and>
     logged_pg r = pg_part cfg op M S A (optional_tensor d ''rollout_is_weights'') out * scale"
proof -
  let ?w = "optional_tensor d ''rollout_is_weights''"
  let ?mode = "u_loss_agg_mode cfg"
  have not_sdpo: "\<not> sdpo_enabled cfg" using plain by (simp add: sdpo_enabled_def plain_update_def)
  have lens: "length (token_losses (u_actor cfg) (old_of cfg op S out) (out_log_probs out) A ?w) = length M"
    using ready by (auto simp: token_losses_def apply_weights_def old_of_def ready_def split: option.splits)
  have mode: "?mode \<in> seq_modes" and valid: "all_valid M" using plain ready by (simp_all add: plain_update_def ready_def)
  obtain pm where pg: "registered_policy_loss W (u_policy_loss cfg) (old_of cfg op S out) (out_log_probs out) A M ?mode (u_actor cfg) ?w =
      Inr (vec_mean (row_losses cfg op M S A ?w out), pm)"
    using plain agg_rows [OF mode lens valid]
    by (auto simp: registered_policy_loss_def with_vanilla_def compute_policy_loss_vanilla_def with_config_def Let_def
        ppo_parts_def plain_update_def token_losses_def row_losses_def)
  have "\<exists>x. compute_offpolicy_metrics (out_log_probs out) (Some r) M = Inr x" for r
    using all_valid_any [OF valid] by (simp add: compute_offpolicy_metrics_def Let_def)
  then have "\<exists>rm. compute_rollout_corr_metrics_from_logprobs (out_log_probs out) r M = Inr rm" for r
    by (metis compute_rollout_corr_metrics_from_logprobs_def rbind_simps(2))
  then have "\<exists>rm. rollout_metrics_of cfg (out_log_probs out) (optional_tensor d ''rollout_log_probs'') M = Inr rm"
    by (cases "optional_tensor d ''rollout_log_probs''") (auto simp: rollout_metrics_of_def)
  then obtain rm where rm: "rollout_metrics_of cfg (out_log_probs out) (optional_tensor d ''rollout_log_probs'') M = Inr rm" ..
  obtain em where em: "entropy_bonus cfg (out_entropys out) M (vec_mean (row_losses cfg op M S A ?w out)) =
      Inr (pg_part cfg op M S A ?w out, em)"
    using ready agg_rows [OF mode _ valid]
    by (auto simp: entropy_bonus_def pg_part_def ready_def split: option.splits)
  have kl: "(if u_use_kl_loss cfg then kl_term cfg d (out_log_probs out) M else Inr 0) = Inr (kl_part cfg M K)"
  proof (cases "u_use_kl_loss cfg")
    case True
    with ready obtain ref where ref: "tensor d ''ref_log_prob'' = Inr ref" "length ref = length M"
      "kl_penalty_mat (out_log_probs out) ref (u_kl_loss_type cfg) = Inr K" by (auto simp: ready_def)
    have "length K = length M" using kl_penalty_mat_length [OF ref(3)] ref(2) ready by (simp add: ready_def)
    then show ?thesis using True ref agg_rows [OF mode _ valid, of K] by (simp add: kl_term_def kl_part_def)
  qed (simp add: kl_part_def)
  have flags: "\<lparr>want_entropy = calculate_entropy_of cfg, want_sum_pi = u_calculate_sum_pi cfg,
       want_all_logps = False, want_topk = None, given_topk = None,
       fused_kernels = u_fused_kernels cfg, temperature = temp\<rparr> = student_flags cfg temp"
    by (simp add: student_flags_def)
  have old: "(if u_use_rollout_log_probs cfg \<or> \<not> op then S else out_log_probs out) = old_of cfg op S out"
    by (simp add: old_of_def)
  have dr: "distillation_request cfg = Inr (None, False, None)" using not_sdpo by (simp add: distillation_request_def)
  from ready have t: "tensor d ''response_mask'' = Inr M" "tensor d ''old_log_probs'' = Inr S" "tensor d ''advantages'' = Inr A"
    and fwd: "forward_of W cfg (network W (params st)) (student_flags cfg temp) d = Inr out" by (simp_all add: ready_def)
  show ?thesis
    unfolding micro_step_def t rbind_simps scale dr prod.case flags fwd Let_def old
    using not_sdpo by (auto simp: pg rm em kl kl_part_def)
qed

lemma ew2_take:
  "set idx \<subseteq> {..<length A} \<Longrightarrow> length A = length B \<Longrightarrow> ew2 f (take_rows idx A) (take_rows idx B) = take_rows idx (ew2 f A B)"
  unfolding ew2_def by (rule take_rows_map2 [symmetric])

lemma optional_tensor_take:
  "optional_tensor (dp_take idx d) k = map_option (take_rows idx) (optional_tensor d k)"
  by (cases "batch d") (simp_all add: optional_tensor_def batch_items_def map_of_dict_map)

lemma kl_penalty_mat_take:
  assumes "kl_penalty_mat a b nm = Inr k" and "set idx \<subseteq> {..<length a}" and "length a = length b"
  shows "kl_penalty_mat (take_rows idx a) (take_rows idx b) nm = Inr (take_rows idx k)"
  unfolding kl_penalty_mat_def take_rows_zip [OF assms(2,3)]
  using assms by (intro mapM_take_rows) (simp_all add: kl_penalty_mat_def)

lemma token_losses_take:
  assumes "set idx \<subseteq> {..<n}" and "length old = n" "length lp = n" "length adv = n" and "\<forall>x. w = Some x \<longrightarrow> length x = n"
  shows "token_losses cfg (take_rows idx old) (take_rows idx lp) (take_rows idx adv) (map_option (take_rows idx) w) =
    take_rows idx (token_losses cfg old lp adv w)"
  using assms by (cases w) (simp_all add: token_losses_def apply_weights_def ew2_take)

lemma ready_take:
  assumes ready: "ready W cfg st temp d out M S A K" and inputs: "forward_inputs d inp" "aligned inp" "length (in_ids inp) = length M"
    and net: "row_local (network W (params st))" "\<not> u_remove_padding cfg"
    and idx: "idx \<noteq> []" "set idx \<subseteq> {..<length M}"
  shows "ready W cfg st temp (dp_take idx d) (take_out idx out) (take_rows idx M) (take_rows idx S) (take_rows idx A) (take_rows idx K)"
proof -
  from ready have t: "tensor d ''response_mask'' = Inr M" "tensor d ''old_log_probs'' = Inr S" "tensor d ''advantages'' = Inr A"
    and fwd: "forward_of W cfg (network W (params st)) (student_flags cfg temp) d = Inr out"
    and v: "all_valid M" and ent: "out_entropys out \<noteq> None \<longleftrightarrow> calculate_entropy_of cfg"
    and len: "length (out_log_probs out) = length M" by (simp_all add: ready_def)
  have "forward_of W cfg (network W (params st)) (student_flags cfg temp) (dp_take idx d) = Inr (take_out idx out)"
    using idx inputs(3) by (intro forward_of_take [OF inputs(1,2) net fwd]) (simp_all add: student_flags_def)
  moreover have "\<exists>ref. tensor (dp_take idx d) ''ref_log_prob'' = Inr ref \<and> length ref = length (take_rows idx M) \<and>
      kl_penalty_mat (take_rows idx (out_log_probs out)) ref (u_kl_loss_type cfg) = Inr (take_rows idx K)" if "u_use_kl_loss cfg"
  proof -
    from ready that obtain ref where ref: "tensor d ''ref_log_prob'' = Inr ref" "length ref = length M"
      "kl_penalty_mat (out_log_probs out) ref (u_kl_loss_type cfg) = Inr K" by (auto simp: ready_def)
    show ?thesis
      using tensor_take [OF ref(1)] kl_penalty_mat_take [OF ref(3), of idx] idx(2) len ref(2) by auto
  qed
  ultimately show ?thesis
    using tensor_take [OF t(1)] tensor_take [OF t(2)] tensor_take [OF t(3)] ent
      seq_losses_take(2) [OF v refl idx]
    by (auto simp: ready_def take_out_def optional_tensor_take)
qed

lemma parts_take:
  assumes ready: "ready W cfg st temp d out M S A K" and idx: "idx \<noteq> []" "set idx \<subseteq> {..<length M}"
    and w: "w = optional_tensor d ''rollout_is_weights''"
  shows "row_losses cfg op (take_rows idx M) (take_rows idx S) (take_rows idx A) (map_option (take_rows idx) w) (take_out idx out) =
      take_rows idx (row_losses cfg op M S A w out)"
    and "out_entropys out = Some e \<Longrightarrow> seq_losses mode (take_rows idx M) (take_rows idx e) = take_rows idx (seq_losses mode M e)"
    and "u_use_kl_loss cfg \<Longrightarrow> seq_losses mode (take_rows idx M) (take_rows idx K) = take_rows idx (seq_losses mode M K)"
proof -
  from ready have v: "all_valid M" and len: "length S = length M" "length A = length M" "length (out_log_probs out) = length M"
    and wl: "\<forall>x. w = Some x \<longrightarrow> length x = length M" by (auto simp: ready_def w)
  have old: "old_of cfg op (take_rows idx S) (take_out idx out) = take_rows idx (old_of cfg op S out)"
    "length (old_of cfg op S out) = length M" using len by (simp_all add: old_of_def take_out_def)
  have "length (token_losses (u_actor cfg) (old_of cfg op S out) (out_log_probs out) A w) = length M"
    using old(2) len wl by (cases w) (simp_all add: token_losses_def apply_weights_def)
  from seq_losses_take(1) [OF v this idx, of "u_loss_agg_mode cfg"]
  show "row_losses cfg op (take_rows idx M) (take_rows idx S) (take_rows idx A) (map_option (take_rows idx) w) (take_out idx out) =
      take_rows idx (row_losses cfg op M S A w out)"
    unfolding row_losses_def old(1) using token_losses_take [OF idx(2) old(2) len(3,2) wl, of "u_actor cfg"]
    by (simp add: take_out_def)
  show "seq_losses mode (take_rows idx M) (take_rows idx e) = take_rows idx (seq_losses mode M e)" if "out_entropys out = Some e"
    using ready that by (intro seq_losses_take(1) [OF v _ idx]) (simp add: ready_def)
  show "seq_losses mode (take_rows idx M) (take_rows idx K) = take_rows idx (seq_losses mode M K)" if kl: "u_use_kl_loss cfg"
  proof -
    have "length K = length M" using ready kl len(3) by (auto simp: ready_def dest: kl_penalty_mat_length)
    then show ?thesis by (intro seq_losses_take(1) [OF v _ idx])
  qed
qed

lemma parts_sum:
  assumes ready: "ready W cfg st temp d out M S A K" and perm: "mset (concat iss) = mset [0..<length M]" and ne: "[] \<notin> set iss"
  defines "w \<equiv> optional_tensor d ''rollout_is_weights''"
  shows "sum_list (map (\<lambda>idx. pg_part cfg op (take_rows idx M) (take_rows idx S) (take_rows idx A) (map_option (take_rows idx) w)
       (take_out idx out) * (real (length idx) / real (length M))) iss) = pg_part cfg op M S A w out"
    and "sum_list (map (\<lambda>idx. kl_part cfg (take_rows idx M) (take_rows idx K) * (real (length idx) / real (length M))) iss) = kl_part cfg M K"
proof -
  have idx: "idx \<noteq> [] \<and> set idx \<subseteq> {..<length M}" if "idx \<in> set iss" for idx
    using that ne mset_upt_perm(2) [OF perm] by auto
  have lens: "length (row_losses cfg op M S A w out) = length M"
    using ready by (auto simp: row_losses_def seq_losses_def token_losses_def apply_weights_def old_of_def ready_def w_def split: option.splits)
  have rows: "sum_list (map (\<lambda>idx. vec_mean (row_losses cfg op (take_rows idx M) (take_rows idx S) (take_rows idx A)
      (map_option (take_rows idx) w) (take_out idx out)) * (real (length idx) / real (length M))) iss) = vec_mean (row_losses cfg op M S A w out)"
    (is "sum_list (map ?f iss) = _")
  proof -
    have "map ?f iss = map (\<lambda>idx. vec_mean (take_rows idx (row_losses cfg op M S A w out)) * (real (length idx) / real (length M))) iss"
      using idx by (intro map_cong) (simp_all add: parts_take(1) [OF ready _ _ w_def [THEN meta_eq_to_obj_eq]])
    then show ?thesis using mean_of_parts [of iss "row_losses cfg op M S A w out", unfolded lens, OF perm ne] by (simp only:)
  qed
  have part: "sum_list (map (\<lambda>idx. vec_mean (seq_losses mode (take_rows idx M) (take_rows idx X)) * (real (length idx) / real (length M))) iss) =
      vec_mean (seq_losses mode M X)" if "length X = length M" for X mode
  proof -
    have v: "all_valid M" using ready by (simp add: ready_def)
    have "map (\<lambda>idx. vec_mean (seq_losses mode (take_rows idx M) (take_rows idx X)) * (real (length idx) / real (length M))) iss =
       map (\<lambda>idx. vec_mean (take_rows idx (seq_losses mode M X)) * (real (length idx) / real (length M))) iss"
      using idx by (intro map_cong) (simp_all add: seq_losses_take(1) [OF v that])
    moreover have len: "length (seq_losses mode M X) = length M" using that by (simp add: seq_losses_def)
    ultimately show ?thesis using mean_of_parts [of iss "seq_losses mode M X", unfolded len, OF perm ne] by (simp only:)
  qed
  show "sum_list (map (\<lambda>idx. kl_part cfg (take_rows idx M) (take_rows idx K) * (real (length idx) / real (length M))) iss) = kl_part cfg M K"
  proof (cases "u_use_kl_loss cfg")
    case True
    then have "length K = length M" using ready by (auto simp: ready_def dest: kl_penalty_mat_length)
    then show ?thesis using True part by (simp add: kl_part_def)
  next
    case False
    then show ?thesis by (simp add: kl_part_def)
  qed
  have sub: "sum_list (map (\<lambda>x. (f x - g x * c) * h x) iss) = sum_list (map (\<lambda>x. f x * h x) iss) - sum_list (map (\<lambda>x. g x * h x) iss) * c"
    for f g h :: "nat list \<Rightarrow> real" and c
    by (induction iss) (simp_all add: algebra_simps)
  show "sum_list (map (\<lambda>idx. pg_part cfg op (take_rows idx M) (take_rows idx S) (take_rows idx A) (map_option (take_rows idx) w)
       (take_out idx out) * (real (length idx) / real (length M))) iss) = pg_part cfg op M S A w out"
  proof (cases "out_entropys out")
    case None
    then show ?thesis using rows by (simp add: pg_part_def take_out_def)
  next
    case (Some e)
    then have "length e = length M" using ready by (simp add: ready_def)
    from part [OF this] have e: "sum_list (map (\<lambda>idx. vec_mean (seq_losses (u_loss_agg_mode cfg) (take_rows idx M) (take_rows idx e)) *
        (real (length idx) / real (length M))) iss) = vec_mean (seq_losses (u_loss_agg_mode cfg) M e)" .
    have oe: "out_entropys (take_out idx out) = Some (take_rows idx e)" for idx using Some by (simp add: take_out_def)
    show ?thesis
    proof (cases "u_entropy_coeff cfg = 0")
      case True
      then show ?thesis using rows by (simp add: pg_part_def Some oe)
    next
      case False
      show ?thesis unfolding pg_part_def oe Some option.case using False by (simp only: simp_thms if_True sub rows e)
    qed
  qed
qed

lemma micro_loop_losses:
  fixes st :: "('o, 'm) update_state"
  assumes "\<And>i. i \<in> set iss \<Longrightarrow> \<exists>r. micro_step W cfg a op mm temp (h i) = Inr r \<and> scaled_loss r = f i \<and> logged_pg r = g i"
    and "worker st = a"
  shows "\<exists>st'. micro_loop W cfg op mm temp (map h iss) st = Inr st' \<and>
     map snd (backlog st') = map snd (backlog st) @ map f iss \<and> map fst (backlog st') = map fst (backlog st) @ map h iss \<and>
     total_pg (logs st') = total_pg (logs st) + sum_list (map g iss)"
  using assms
proof (induction iss arbitrary: st)
  case (Cons i iss)
  from Cons.prems(1) [of i] obtain r where r: "micro_step W cfg a op mm temp (h i) = Inr r"
    "scaled_loss r = f i" "logged_pg r = g i" by auto
  let ?st = "st\<lparr>backlog := backlog st @ [(h i, scaled_loss r)], logs := log_micro r (logs st)\<rparr>"
  have "\<exists>st'. micro_loop W cfg op mm temp (map h iss) ?st = Inr st' \<and>
     map snd (backlog st') = map snd (backlog ?st) @ map f iss \<and> map fst (backlog st') = map fst (backlog ?st) @ map h iss \<and>
     total_pg (logs st') = total_pg (logs ?st) + sum_list (map g iss)"
    using Cons.prems by (intro Cons.IH) auto
  then show ?case using r Cons.prems(2) by (auto simp: log_micro_def)
qed auto

text \<open>A full mini-batch of as many samples as \<open>ppo_mini_batch_size\<close>, with micro-batches of equal size when they are fixed.\<close>

definition full_mini_batch :: "update_config \<Rightarrow> nat \<Rightarrow> bool" where
  "full_mini_batch cfg n \<longleftrightarrow> 0 < n \<and> u_mini_batch_size cfg = n \<and>
     (u_dynamic_bsz cfg \<or> 0 < u_micro_batch_size cfg \<and> u_micro_batch_size cfg dvd n)"

lemma micro_scale:
  assumes "full_mini_batch cfg n" and "u_dynamic_bsz cfg \<or> k = u_micro_batch_size cfg"
  shows "loss_scale cfg k = Inr (real k / real n)"
proof (cases "u_dynamic_bsz cfg")
  case False
  with assms have m: "0 < k" "k dvd n" "k = u_micro_batch_size cfg" "u_mini_batch_size cfg = n" "0 < n"
    by (auto simp: full_mini_batch_def)
  then have "n div k \<noteq> 0" "real (n div k) = real n / real k"
    by (auto simp: real_of_nat_div dvd_imp_le div_eq_0_iff)
  then show ?thesis using False m by (simp add: loss_scale_def)
qed (use assms in \<open>simp add: loss_scale_def full_mini_batch_def\<close>)

lemma accumulation_run:
  assumes ready: "ready W cfg (worker st) temp d out M S A K" and plain: "plain_update cfg"
    and d: "wf_dp d" "dp_len d = length M" and inputs: "forward_inputs d inp" "aligned inp" "length (in_ids inp) = length M"
    and net: "row_local (network W (params (worker st)))" "\<not> u_remove_padding cfg"
    and full: "full_mini_batch cfg (length M)" and mbs: "micro_batches_of cfg d = Inr mbs"
  shows "\<exists>st' r. micro_loop W cfg op mm temp mbs (st\<lparr>backlog := []\<rparr>) = Inr st' \<and>
     micro_step W (cfg\<lparr>u_dynamic_bsz := True\<rparr>) (worker st) op mm temp d = Inr r \<and>
     map fst (backlog st') = mbs \<and> sum_list (map snd (backlog st')) = scaled_loss r \<and>
     total_pg (logs st') - total_pg (logs st) = logged_pg r"
proof -
  let ?n = "length M"
  define w where "w = optional_tensor d ''rollout_is_weights''"
  obtain iss where mbs': "mbs = map (\<lambda>idx. dp_take idx d) iss" and perm: "mset (concat iss) = mset [0..<?n]" and ne: "[] \<notin> set iss"
    and size: "\<And>idx. idx \<in> set iss \<Longrightarrow> u_dynamic_bsz cfg \<or> length idx = u_micro_batch_size cfg"
  proof (cases "u_dynamic_bsz cfg")
    case True
    then obtain idx where p: "prepare_dynamic_batch d (u_max_token_len cfg * u_sp_size cfg) None None None True = Inr (mbs, idx)"
      using mbs by (auto simp: micro_batches_of_def rbind_eq_Inr)
    obtain m where "tensor d ''attention_mask'' = Inr m" using inputs by (auto simp: forward_inputs_def)
    from prepare_dynamic_batch_take [OF d(1) p this] True d(2) show ?thesis by (intro that) auto
  next
    case False
    then have pos: "0 < u_micro_batch_size cfg" "u_micro_batch_size cfg dvd ?n" using full by (auto simp: full_mini_batch_def)
    then have "mbs = map (\<lambda>idx. dp_take idx d) (py_chunks (u_micro_batch_size cfg) [0..<?n])"
      using mbs False split_take [OF d(1) pos(1)] d(2) by (simp add: micro_batches_of_def)
    moreover have "mset (concat (py_chunks (u_micro_batch_size cfg) [0..<?n])) = mset [0..<?n]"
      by (simp only: concat_py_chunks [OF pos(1)])
    moreover have "length c = u_micro_batch_size cfg" if "c \<in> set (py_chunks (u_micro_batch_size cfg) [0..<?n])" for c
      using pos that by (intro py_chunks_lengths [of _ "[0..<?n]"]) simp_all
    ultimately show ?thesis using that chunks_nonempty by blast
  qed
  have idx: "idx \<noteq> [] \<and> set idx \<subseteq> {..<?n}" if "idx \<in> set iss" for idx
    using that ne mset_upt_perm(2) [OF perm] by auto
  let ?a = "worker st"
  define pg where "pg idx = pg_part cfg op (take_rows idx M) (take_rows idx S) (take_rows idx A) (map_option (take_rows idx) w)
      (take_out idx out) * (real (length idx) / real ?n)" for idx
  define kl where "kl idx = kl_part cfg (take_rows idx M) (take_rows idx K) * (real (length idx) / real ?n)" for idx
  have step: "\<exists>r. micro_step W cfg ?a op mm temp (dp_take idx d) = Inr r \<and>
      scaled_loss r = pg idx + kl idx * u_kl_loss_coef cfg \<and> logged_pg r = pg idx" if "idx \<in> set iss" for idx
  proof -
    note i = idx [OF that]
    have "ready W cfg ?a temp (dp_take idx d) (take_out idx out) (take_rows idx M) (take_rows idx S) (take_rows idx A) (take_rows idx K)"
      using i by (intro ready_take [OF ready inputs net]) simp_all
    moreover have "loss_scale cfg (length (take_rows idx M)) = Inr (real (length idx) / real ?n)"
      using micro_scale [OF full size [OF that]] by simp
    ultimately show ?thesis
      using micro_step_run [OF _ plain, of W ?a temp "dp_take idx d" "take_out idx out"]
      unfolding pg_def kl_def optional_tensor_take w_def [symmetric] by (fastforce simp: algebra_simps)
  qed
  have "\<exists>st'. micro_loop W cfg op mm temp (map (\<lambda>idx. dp_take idx d) iss) (st\<lparr>backlog := []\<rparr>) = Inr st' \<and>
      map snd (backlog st') = map snd (backlog (st\<lparr>backlog := []\<rparr>)) @ map (\<lambda>idx. pg idx + kl idx * u_kl_loss_coef cfg) iss \<and>
      map fst (backlog st') = map fst (backlog (st\<lparr>backlog := []\<rparr>)) @ map (\<lambda>idx. dp_take idx d) iss \<and>
      total_pg (logs st') = total_pg (logs (st\<lparr>backlog := []\<rparr>)) + sum_list (map pg iss)"
    by (rule micro_loop_losses [OF step]) simp_all
  then obtain st' where loop: "micro_loop W cfg op mm temp mbs (st\<lparr>backlog := []\<rparr>) = Inr st'"
    and snds: "map snd (backlog st') = map (\<lambda>idx. pg idx + kl idx * u_kl_loss_coef cfg) iss" and fsts: "map fst (backlog st') = mbs"
    and tot: "total_pg (logs st') = total_pg (logs st) + sum_list (map pg iss)" unfolding mbs' by auto
  let ?cfg = "cfg\<lparr>u_dynamic_bsz := True\<rparr>"
  have ready': "ready W ?cfg ?a temp d out M S A K"
    using ready by (simp add: ready_def student_flags_def calculate_entropy_of_def forward_of_def)
  have plain': "plain_update ?cfg" using plain by (simp add: plain_update_def)
  have scale: "loss_scale ?cfg ?n = Inr 1" using full by (simp add: loss_scale_def full_mini_batch_def)
  have parts: "pg_part ?cfg op M S A w out = pg_part cfg op M S A w out" "kl_part ?cfg M K = kl_part cfg M K"
    by (simp_all add: pg_part_def row_losses_def old_of_def kl_part_def split: option.split)
  obtain r where r: "micro_step W ?cfg ?a op mm temp d = Inr r"
    "scaled_loss r = pg_part cfg op M S A w out + kl_part cfg M K * u_kl_loss_coef cfg" "logged_pg r = pg_part cfg op M S A w out"
    using micro_step_run [OF ready' plain' scale, of op mm] unfolding w_def [symmetric] parts by auto
  note sums = parts_sum [OF ready perm ne, folded w_def]
  have "sum_list (map pg iss) = pg_part cfg op M S A w out" "sum_list (map kl iss) = kl_part cfg M K"
    unfolding pg_def kl_def using sums by (simp_all only:)
  moreover have "sum_list (map (\<lambda>idx. pg idx + kl idx * u_kl_loss_coef cfg) iss) =
      sum_list (map pg iss) + sum_list (map kl iss) * u_kl_loss_coef cfg"
    by (induction iss) (simp_all add: algebra_simps)
  ultimately show ?thesis using loop r snds fsts tot by (intro exI [of _ st'] exI [of _ r]) simp
qed

text \<open>
  C11: gradient accumulation is exact for losses averaged over sequences. The conditions are those of
  \<open>plain_update\<close>, \<open>ready\<close> and \<open>full_mini_batch\<close>: the clipped PPO loss (\<open>vanilla\<close>) without values for
  the global batch; an aggregation mode of \<open>seq_modes\<close>; a mini-batch of exactly \<open>ppo_mini_batch_size\<close>
  samples whose responses all have a valid token; no remove-padding; and a network that treats rows one by
  one. Then, with or without entropy bonus, KL loss and rollout weights, the losses that are
  backpropagated for its micro-batches, of a fixed size that divides the mini-batch or dynamic, sum up to
  the loss of the whole mini-batch in one forward pass, and so does the logged policy loss. The default
  mode \<open>token-mean\<close> is not covered, and the equation is false for it: \<open>token_mean_not_exact\<close>.
\<close>

theorem accumulation_exact:
  assumes ready: "ready W cfg (worker st) temp d out M S A K" and plain: "plain_update cfg"
    and d: "wf_dp d" "dp_len d = length M" and inputs: "forward_inputs d inp" "aligned inp" "length (in_ids inp) = length M"
    and net: "row_local (network W (params (worker st)))" "\<not> u_remove_padding cfg"
    and full: "full_mini_batch cfg (length M)" and mbs: "micro_batches_of cfg d = Inr mbs"
  shows "\<exists>st' r. micro_loop W cfg op mm temp mbs (st\<lparr>backlog := []\<rparr>) = Inr st' \<and>
     micro_step W (cfg\<lparr>u_dynamic_bsz := True\<rparr>) (worker st) op mm temp d = Inr r \<and>
     map fst (backlog st') = mbs \<and> sum_list (map snd (backlog st')) = scaled_loss r \<and>
     total_pg (logs st') - total_pg (logs st) = logged_pg r"
  using assms by (rule accumulation_run)

text \<open>A mini-batch of two samples, a network with fixed logits and a configuration with an entropy bonus.\<close>

definition sample_ppo_batch :: "unit rl_data" where
  "sample_ppo_batch = \<lparr>batch = Some \<lparr>td_size = 2, td_items =
     [(''responses'', [[2, 1], [1, 0]]), (''response_mask'', [[1, 1], [1, 0]]),
      (''input_ids'', [[0, 1, 2, 1], [1, 2, 1, 0]]), (''attention_mask'', [[0, 1, 1, 1], [1, 1, 1, 0]]),
      (''position_ids'', [[0, 0, 1, 2], [0, 1, 2, 2]]),
      (''old_log_probs'', [[- 1, - 2], [- 1, - 3]]), (''advantages'', [[1, 1], [- 1, - 1]])]\<rparr>,
     non_tensor = [], meta = []\<rparr>"

definition sample_inputs :: micro_inputs where
  "sample_inputs = micro_of [[2, 1], [1, 0]] [[0, 1, 2, 1], [1, 2, 1, 0]] [[0, 1, 1, 1], [1, 1, 1, 0]] [[0, 0, 1, 2], [0, 1, 2, 2]]"

definition sample_world :: "(unit, unit) world" where
  "sample_world = \<lparr>network = (\<lambda>_. sample_lm), pick_topk = (\<lambda>v k. [0..<k]), pick_perm = (\<lambda>n. [0..<n]), reduce = None,
     grad_norm_of = (\<lambda>_ _ _. Some 1), apply_grads = (\<lambda>_ _ ps b. ((), map (map (\<lambda>x. x - sum_list (map snd b))) ps)),
     mm_of = (\<lambda>_. InputsNone)\<rparr>"

definition sample_update :: update_config where
  "sample_update = \<lparr>u_policy_loss = \<lparr>loss_mode = ''vanilla'', rollout_correction = None\<rparr>,
     u_actor = \<lparr>clip_ratio = 1 / 5, clip_ratio_low = None, clip_ratio_high = None, clip_ratio_c = Some 3, tau_pos = 1, tau_neg = 1,
       clip_cov_ratio = None, clip_cov_lb = None, clip_cov_ub = None, kl_cov_ratio = None, ppo_kl_coef = None,
       global_batch_info = default_info\<rparr>,
     u_kwargs = None, u_self_distillation = None, u_loss_agg_mode = ''seq-mean-token-mean'', u_mini_batch_size = 2,
     u_micro_batch_size = 1, u_dynamic_bsz = False, u_max_token_len = 8, u_sp_size = 1, u_epochs = 1, u_entropy_coeff = 1 / 100,
     u_calculate_entropy = False, u_calculate_sum_pi = False, u_use_kl_loss = False, u_kl_loss_coef = 0, u_kl_loss_type = ''kl'',
     u_fused_kernels = False, u_remove_padding = False, u_use_rollout_log_probs = False, u_grad_clip = Some 1\<rparr>"

definition sample_worker :: "unit actor_state" where
  "sample_worker = \<lparr>params = [[0]], optim = (), teacher_module = NoTeacher\<rparr>"

lemma sample_lm_local: "row_local sample_lm"
proof -
  have rows: "map2 f (take_rows idx ids) (map2 g (take_rows idx ids) (take_rows idx pos)) = take_rows idx (map2 f ids (map2 g ids pos))"
    if "set idx \<subseteq> {..<length ids}" "length pos = length ids" for f g idx and ids pos :: "nat list list"
    using that by (subst take_rows_map2 [symmetric], simp_all)+
  show ?thesis unfolding row_local_def sample_lm_def by (simp add: rows)
qed

lemma sample_wf: "wf_dp sample_ppo_batch" "dp_len sample_ppo_batch = 2"
  by (simp_all add: sample_ppo_batch_def wf_dp_def dp_len_def)

lemma sample_forward_inputs: "forward_inputs sample_ppo_batch sample_inputs" "aligned sample_inputs" "length (in_ids sample_inputs) = 2"
  by (auto simp: forward_inputs_def sample_ppo_batch_def sample_inputs_def tensor_def aligned_def micro_of_def nat_mat_def map_mat_def
      rectangular_def width_def)

lemma sample_inputs_good: "good_micro 4 2 3 sample_inputs"
  by (simp add: good_micro_def sample_inputs_def micro_of_def nat_mat_def map_mat_def rectangular_def select_valid_def valid_count_def
      less_Suc_eq numeral_eq_Suc upt_rec nth_Cons')

lemma sample_forward:
  assumes "plain f" and "given_topk f = None"
  shows "\<exists>out. forward_padded (pick_topk sample_world) sample_lm f sample_inputs = Inr out \<and> length (out_log_probs out) = 2 \<and>
     (out_entropys out \<noteq> None \<longleftrightarrow> want_entropy f) \<and> (\<forall>e. out_entropys out = Some e \<longrightarrow> length e = 2)"
proof -
  obtain out where out: "forward_padded (pick_topk sample_world) sample_lm f sample_inputs = Inr out"
    and ent: "out_entropys out \<noteq> None \<longleftrightarrow> want_entropy f"
    using forward_padded_run [OF sample_packing sample_inputs_good assms(1), of "pick_topk sample_world"] by (auto simp: out_if_def)
  from forward_padded_lengths [OF out sample_lm_local sample_forward_inputs(2) assms(2)] sample_forward_inputs(3)
  show ?thesis using out ent by auto
qed

lemma sample_ready:
  "\<exists>out. ready sample_world sample_update sample_worker 1 sample_ppo_batch out [[1, 1], [1, 0]] [[- 1, - 2], [- 1, - 3]] [[1, 1], [- 1, - 1]] []"
proof -
  have f: "plain (student_flags sample_update 1)" "given_topk (student_flags sample_update 1) = None"
    by (simp_all add: plain_def student_flags_def use_topk_def)
  obtain out where out: "forward_padded (pick_topk sample_world) sample_lm (student_flags sample_update 1) sample_inputs = Inr out"
    "length (out_log_probs out) = 2" "out_entropys out \<noteq> None \<longleftrightarrow> want_entropy (student_flags sample_update 1)"
    "\<forall>e. out_entropys out = Some e \<longrightarrow> length e = 2" using sample_forward [OF f] by blast
  have net: "network sample_world (params sample_worker) = sample_lm" by (simp add: sample_world_def)
  have "forward_of sample_world sample_update sample_lm (student_flags sample_update 1) sample_ppo_batch = Inr out"
    using out(1) by (simp add: forward_of_inputs [OF sample_forward_inputs(1)] forward_micro_batch_def sample_update_def)
  then have "ready sample_world sample_update sample_worker 1 sample_ppo_batch out [[1, 1], [1, 0]] [[- 1, - 2], [- 1, - 3]] [[1, 1], [- 1, - 1]] []"
    unfolding ready_def net using out(2-4)
    by (simp add: student_flags_def)
      (simp add: sample_ppo_batch_def tensor_def all_valid_def mat_width_def rectangular_def optional_tensor_def batch_items_def sample_update_def)
  then show ?thesis ..
qed

lemma sample_plain: "plain_update sample_update" "full_mini_batch sample_update 2"
  by (simp_all add: plain_update_def sample_update_def seq_modes_def default_to_def full_mini_batch_def)

lemma sample_cut: "micro_batches_of sample_update sample_ppo_batch = Inr [dp_take [0] sample_ppo_batch, dp_take [1] sample_ppo_batch]"
proof -
  have "py_chunks 1 [0..<2] = [[0], [1 :: nat]]"
    by (simp add: py_chunks.simps numeral_eq_Suc upt_rec)
  then show ?thesis using split_take [OF sample_wf(1), of 1]
    by (simp add: micro_batches_of_def sample_update_def sample_wf)
qed

theorem accumulation_exact_witness:
  "\<exists>st' r. micro_loop sample_world sample_update True False 1 [dp_take [0] sample_ppo_batch, dp_take [1] sample_ppo_batch]
      \<lparr>worker = sample_worker, backlog = [], logs = \<lparr>total_pg = 0, total_kl = 0, appended = []\<rparr>, did_update = False\<rparr> = Inr st' \<and>
     micro_step sample_world (sample_update\<lparr>u_dynamic_bsz := True\<rparr>) sample_worker True False 1 sample_ppo_batch = Inr r \<and>
     sum_list (map snd (backlog st')) = scaled_loss r"
proof -
  let ?st = "\<lparr>worker = sample_worker, backlog = [], logs = \<lparr>total_pg = 0, total_kl = 0, appended = []\<rparr>, did_update = False\<rparr> :: (unit, unit) update_state"
  obtain out where ready: "ready sample_world sample_update (worker ?st) 1 sample_ppo_batch out [[1, 1], [1, 0]] [[- 1, - 2], [- 1, - 3]] [[1, 1], [- 1, - 1]] []"
    using sample_ready by auto
  have "row_local (network sample_world (params (worker ?st)))" "\<not> u_remove_padding sample_update"
    using sample_lm_local by (simp_all add: sample_world_def sample_update_def)
  with accumulation_exact [OF ready sample_plain(1) sample_wf(1) _ sample_forward_inputs(1,2) _ _ _ _ sample_cut, of True False]
  show ?thesis using sample_wf(2) sample_forward_inputs(3) sample_plain(2) by (auto simp: numeral_2_eq_2)
qed

text \<open>
  Under \<open>token-mean\<close> every micro-batch is averaged over its own tokens and weighted by its rows, so a short
  response counts as much as a long one: with token losses 1, 1 in one response and 4 in another, the two
  micro-batches of one row contribute 5/2, while the mean over the tokens of the mini-batch is 2.
\<close>

lemma token_mean_not_exact:
  "agg_loss [[1, 1]] [[1, 1]] ''token-mean'' default_info = Inr 1 \<and>
   agg_loss [[4, 4]] [[1, 0]] ''token-mean'' default_info = Inr 4 \<and>
   loss_scale sample_update (Suc 0) = Inr (1 / 2) \<and>
   agg_loss [[1, 1], [4, 4]] [[1, 1], [1, 0]] ''token-mean'' default_info = Inr 2 \<and>
   1 * (1 / 2) + 4 * (1 / 2) \<noteq> (2 :: real)"
  by (simp add: agg_loss_def required_count_def default_info_def mat_sum_def masked_sum_def row_masked_sum_def masked_value_def
      loss_scale_def sample_update_def)

section \<open>The log-probabilities\<close>

text \<open>
  The log-probabilities (with entropies, squared sums and top-k values) that \<open>compute_log_prob\<close>
  returns do not depend on how the batch is cut: for a network that treats rows one by one, micro-batches
  of any fixed size and dynamic micro-batches under any token limit return what one forward pass on the
  whole batch returns, in the order of the batch; and they do return whenever the size is positive or
  every row fits the token limit.
\<close>

theorem log_prob_batching:
  assumes d: "wf_dp d" "0 < dp_len d" "forward_inputs d inp" "aligned inp" "length (in_ids inp) = dp_len d"
    and net: "row_local (network W (params st))" "\<not> u_remove_padding cfg"
    and whole: "forward_padded (pick_topk W) (network W (params st)) (log_prob_flags cfg info e) inp = Inr out"
  shows "(\<forall>r. compute_log_prob W cfg st info e d = Inr r \<longrightarrow> r = out) \<and>
     (can_cut cfg info inp \<and> (\<forall>m. tensor d ''attention_mask'' = Inr m \<longrightarrow> (\<forall>row\<in>set m. \<forall>x\<in>set row. 0 \<le> x)) \<longrightarrow>
        compute_log_prob W cfg st info e d = Inr out)"
proof -
  let ?keys = "[''responses'', ''input_ids'', ''attention_mask'', ''position_ids'']"
  let ?sel = "dp_select (Some ?keys) (Some (if has_mm W d then [''multi_modal_inputs''] else [])) None d"
  have unfold: "compute_log_prob W cfg st info e d = rbind ?sel (\<lambda>data. rbind (cut_batch cfg info data) (\<lambda>(mbs, ix).
      rbind (mapM_result (forward_of W cfg (network W (params st)) (log_prob_flags cfg info e)) mbs) (\<lambda>outs.
      rbind (concat_outputs e (u_calculate_sum_pi cfg) (lp_topk info \<noteq> None) outs) (\<lambda>out.
       case ix of None \<Rightarrow> Inr out | Some idx \<Rightarrow> restore_outputs idx out))))"
    by (simp add: compute_log_prob_def cut_batch_def case_prod_beta)
  have facts: "wf_dp data" "dp_len data = dp_len d" "forward_inputs data inp" if "?sel = Inr data" for data
  proof -
    show "wf_dp data" "dp_len data = dp_len d" using wf_select [OF d(1) that] select_len [OF that] by simp_all
    from d(3) obtain r i m p where t: "tensor d ''responses'' = Inr r" "tensor d ''input_ids'' = Inr i"
      "tensor d ''attention_mask'' = Inr m" "tensor d ''position_ids'' = Inr p" "inp = micro_of r i m p"
      unfolding forward_inputs_def by blast
    have "tensor data ''responses'' = Inr r" "tensor data ''input_ids'' = Inr i"
      "tensor data ''attention_mask'' = Inr m" "tensor data ''position_ids'' = Inr p"
      by (rule select_tensor [OF that]; simp add: t)+
    with t(5) show "forward_inputs data inp" unfolding forward_inputs_def by blast
  qed
  have runs: "compute_log_prob W cfg st info e d = Inr out" if "?sel = Inr data" "cut_batch cfg info data = Inr (mbs, ix)"
    for data mbs ix
  proof -
    have "0 < dp_len data" "length (in_ids inp) = dp_len data" using d(2,5) facts(2) [OF that(1)] by simp_all
    from log_prob_of_cut [OF that(2) facts(1) [OF that(1)] this(1) facts(3) [OF that(1)] d(4) this(2) net whole]
    show ?thesis unfolding unfold using that by simp
  qed
  obtain data where sel: "?sel = Inr data"
    using select_returns [OF d(1), of ?keys] d(3) by (auto simp: forward_inputs_def)
  have "r = out" if "compute_log_prob W cfg st info e d = Inr r" for r
  proof -
    from that obtain mbs ix where "cut_batch cfg info data = Inr (mbs, ix)"
      unfolding unfold sel by (auto simp: rbind_eq_Inr)
    from runs [OF sel this] that show ?thesis by simp
  qed
  moreover have "compute_log_prob W cfg st info e d = Inr out"
    if cc: "can_cut cfg info inp" and nn: "\<forall>m. tensor d ''attention_mask'' = Inr m \<longrightarrow> (\<forall>row\<in>set m. \<forall>x\<in>set row. 0 \<le> x)"
  proof -
    obtain m where m: "tensor d ''attention_mask'' = Inr m" using d(3) by (auto simp: forward_inputs_def)
    then have "tensor data ''attention_mask'' = Inr m" using select_tensor [OF sel] by simp
    then obtain mbs ix where "cut_batch cfg info data = Inr (mbs, ix)"
      using cut_returns [OF cc facts(1,3) [OF sel]] nn m by auto
    from runs [OF sel this] show ?thesis .
  qed
  ultimately show ?thesis by blast
qed

theorem log_prob_batching_witness:
  "\<exists>out. compute_log_prob sample_world sample_update sample_worker \<lparr>lp_micro_batch_size = 1, lp_temperature = 1,
        lp_dynamic_bsz = False, lp_max_token_len = 8, lp_topk = None\<rparr> True sample_ppo_batch = Inr out \<and>
     compute_log_prob sample_world sample_update sample_worker \<lparr>lp_micro_batch_size = 1, lp_temperature = 1,
        lp_dynamic_bsz = True, lp_max_token_len = 4, lp_topk = None\<rparr> True sample_ppo_batch = Inr out"
proof -
  define info where "info b L = \<lparr>lp_micro_batch_size = 1, lp_temperature = 1, lp_dynamic_bsz = b, lp_max_token_len = L, lp_topk = None\<rparr>"
    for b L
  define fl where "fl = log_prob_flags sample_update (info False 8) True"
  have flags: "log_prob_flags sample_update (info b L) True = fl" for b L
    by (simp add: fl_def log_prob_flags_def info_def)
  have f: "plain fl" "given_topk fl = None"
    by (simp_all add: fl_def plain_def log_prob_flags_def use_topk_def info_def)
  obtain out where out: "forward_padded (pick_topk sample_world) (network sample_world (params sample_worker))
      fl sample_inputs = Inr out"
    using sample_forward [OF f] by (auto simp: sample_world_def)
  have net: "row_local (network sample_world (params sample_worker))" "\<not> u_remove_padding sample_update"
    using sample_lm_local by (simp_all add: sample_world_def sample_update_def)
  have cut: "can_cut sample_update (info False 8) sample_inputs" "can_cut sample_update (info True 4) sample_inputs"
    by (simp_all add: can_cut_def info_def sample_update_def sample_inputs_def micro_of_def nat_mat_def map_mat_def width_def)
  have nn: "\<forall>m. tensor sample_ppo_batch ''attention_mask'' = Inr m \<longrightarrow> (\<forall>row\<in>set m. \<forall>x\<in>set row. 0 \<le> x)"
    by (simp add: sample_ppo_batch_def tensor_def)
  have "compute_log_prob sample_world sample_update sample_worker (info b L) True sample_ppo_batch = Inr out"
    if "can_cut sample_update (info b L) sample_inputs" for b L
  proof -
    have size: "0 < dp_len sample_ppo_batch" "length (in_ids sample_inputs) = dp_len sample_ppo_batch"
      using sample_wf(2) sample_forward_inputs(3) by simp_all
    have whole: "forward_padded (pick_topk sample_world) (network sample_world (params sample_worker))
        (log_prob_flags sample_update (info b L) True) sample_inputs = Inr out" unfolding flags by (rule out)
    from log_prob_batching [OF sample_wf(1) size(1) sample_forward_inputs(1,2) size(2) net whole] that nn
    show ?thesis by blast
  qed
  from this [OF cut(1)] this [OF cut(2)] show ?thesis unfolding info_def by blast
qed

section \<open>The teacher\<close>

text \<open>
  C20: an update of the policy moves the teacher at most once, after all epochs and mini-batches: the
  teacher of the result is the one \<open>_update_teacher\<close> computes from the old teacher and the final
  parameters of the policy, and if no gradient step was finite, the parameters, the optimizer and the
  teacher are all as before. If every gradient is finite and there is a mini-batch, the teacher does move.
\<close>

theorem update_policy_teacher:
  assumes "update_policy W cfg temp d a = Inr (a', ms)"
  shows "(update_teacher (u_self_distillation cfg) (loss_mode (u_policy_loss cfg)) (teacher_module a) (params a') =
            Inr (teacher_module a') \<or> a' = a) \<and>
     ((\<forall>oo ps b. grad_norm_of W oo ps b = None) \<longrightarrow> a' = a) \<and>
     ((\<forall>oo ps b. grad_norm_of W oo ps b \<noteq> None) \<and> 0 < dp_len d \<and> wf_dp d \<and> 0 < u_epochs cfg \<longrightarrow>
        update_teacher (u_self_distillation cfg) (loss_mode (u_policy_loss cfg)) (teacher_module a) (params a') =
          Inr (teacher_module a'))"
proof -
  from assms obtain data minis st where sel: "select_update_data W cfg d = Inr data"
    and split: "dp_split (u_mini_batch_size cfg) data = Inr minis"
    and loop: "mini_loop W cfg (length minis = 1 \<and> u_epochs cfg = 1) (has_mm W d) temp
        (concat (replicate (u_epochs cfg) minis))
        \<lparr>worker = a, backlog = [], logs = \<lparr>total_pg = 0, total_kl = 0, appended = []\<rparr>, did_update = False\<rparr> = Inr st"
    and fin: "(if did_update st
        then rbind (update_teacher (u_self_distillation cfg) (loss_mode (u_policy_loss cfg)) (teacher_module (worker st))
                     (params (worker st))) (\<lambda>t. Inr ((worker st)\<lparr>teacher_module := t\<rparr>, logs st))
        else Inr (worker st, logs st)) = Inr (a', ms)"
    unfolding update_policy_def Let_def by (auto simp: rbind_eq_Inr)
  note w = mini_loop_worker [OF loop, simplified]
  have upd: "update_teacher (u_self_distillation cfg) (loss_mode (u_policy_loss cfg)) (teacher_module a) (params a') =
      Inr (teacher_module a')" if "did_update st"
    using fin that w by (auto simp: rbind_eq_Inr)
  have keep: "a' = a" if "\<not> did_update st" using fin that w by simp
  have "did_update st" if "\<forall>oo ps b. grad_norm_of W oo ps b \<noteq> None" "0 < dp_len d" "wf_dp d" "0 < u_epochs cfg"
  proof -
    have data: "dp_len data = dp_len d" "wf_dp data" using select_data [OF sel that(3)] by simp_all
    have "minis \<noteq> []"
    proof -
      have "0 < u_mini_batch_size cfg" using split by (auto simp: dp_split_def ensure_eq_Inr)
      then have "minis = map (\<lambda>idx. dp_take idx data) (py_chunks (u_mini_batch_size cfg) [0..<dp_len data])"
        using split split_take [OF data(2)] by simp
      moreover have "py_chunks (u_mini_batch_size cfg) [0..<dp_len data] \<noteq> []"
        using that(2) data(1) \<open>0 < u_mini_batch_size cfg\<close> by (subst py_chunks.simps) simp
      ultimately show ?thesis by simp
    qed
    then have "concat (replicate (u_epochs cfg) minis) \<noteq> []" using that(4) by (cases "u_epochs cfg") auto
    then show ?thesis using w that(1) by auto
  qed
  then show ?thesis using upd keep w by (cases "did_update st") auto
qed

lemma mini_step_returns:
  assumes "micro_batches_of cfg d = Inr mbs" and "micro_loop W cfg op mm temp mbs (st\<lparr>backlog := []\<rparr>) = Inr st1"
    and "u_grad_clip cfg = Some c"
  shows "\<exists>st'. mini_step W cfg op mm temp d st = Inr st'"
proof -
  have "\<exists>p. optimizer_step W cfg st1 = Inr p"
    using assms(3) by (auto simp: optimizer_step_def Let_def split: option.split prod.split)
  then obtain st2 g where "optimizer_step W cfg st1 = Inr (st2, g)" by auto
  then show ?thesis using assms by (simp add: mini_step_def)
qed

lemma sample_select: "select_update_data sample_world sample_update sample_ppo_batch = Inr sample_ppo_batch"
  by (simp add: select_update_data_def sample_ppo_batch_def sdpo_enabled_def sample_update_def update_keys_def dp_select_def td_select_def
      Data_Proto.make_def check_consistency_def dict_select_def has_tensor_def)

lemma sample_minis: "dp_split 2 sample_ppo_batch = Inr [sample_ppo_batch]"
proof -
  have "py_chunks 2 [0..<2] = [[0..<2 :: nat]]" by (simp add: py_chunks.simps)
  then show ?thesis using split_take [OF sample_wf(1), of 2] take_all [OF sample_wf(1)] by (simp add: sample_wf(2))
qed

theorem update_policy_teacher_witness:
  "\<exists>a' ms. update_policy sample_world sample_update 1 sample_ppo_batch sample_worker = Inr (a', ms) \<and>
     update_teacher None ''vanilla'' NoTeacher (params a') = Inr (teacher_module a')"
proof -
  let ?st = "\<lparr>worker = sample_worker, backlog = [], logs = \<lparr>total_pg = 0, total_kl = 0, appended = []\<rparr>, did_update = False\<rparr> :: (unit, unit) update_state"
  obtain out where ready: "ready sample_world sample_update (worker ?st) 1 sample_ppo_batch out [[1, 1], [1, 0]] [[- 1, - 2], [- 1, - 3]] [[1, 1], [- 1, - 1]] []"
    using sample_ready by auto
  have net: "row_local (network sample_world (params (worker ?st)))" "\<not> u_remove_padding sample_update"
    using sample_lm_local by (simp_all add: sample_world_def sample_update_def)
  from accumulation_run [OF ready sample_plain(1) sample_wf(1) _ sample_forward_inputs(1,2) _ net _ sample_cut, of True False]
  obtain st' where loop: "micro_loop sample_world sample_update True False 1 [dp_take [0] sample_ppo_batch, dp_take [1] sample_ppo_batch] ?st = Inr st'"
    using sample_wf(2) sample_forward_inputs(3) sample_plain(2) by (auto simp: numeral_2_eq_2)
  have "\<exists>st. mini_step sample_world sample_update True False 1 sample_ppo_batch ?st = Inr st"
    using loop by (intro mini_step_returns [OF sample_cut]) (simp_all add: sample_update_def)
  then obtain st where st: "mini_step sample_world sample_update True False 1 sample_ppo_batch ?st = Inr st" ..
  have mm: "has_mm sample_world sample_ppo_batch = False"
    by (simp add: has_mm_def sample_ppo_batch_def has_non_empty_multi_modal_inputs_def)
  have "\<exists>a' ms. update_policy sample_world sample_update 1 sample_ppo_batch sample_worker = Inr (a', ms)"
    using st sample_minis
    by (simp add: update_policy_def sample_select Let_def mm) (simp add: sample_update_def update_teacher_def)
  then obtain a' ms where run: "update_policy sample_world sample_update 1 sample_ppo_batch sample_worker = Inr (a', ms)" by blast
  from update_policy_teacher [OF run] sample_wf have
    "update_teacher (u_self_distillation sample_update) (loss_mode (u_policy_loss sample_update)) (teacher_module sample_worker) (params a') =
       Inr (teacher_module a')"
    by (simp add: sample_world_def sample_update_def)
  with run show ?thesis by (auto simp: sample_update_def sample_worker_def)
qed

end
