(* ===== verification/Token_Bucket.thy ===== *)
theory Token_Bucket
  imports Verl_Base
begin

text \<open>
  \<open>AsyncTokenBucket\<close> of \<open>verl/experimental/reward_loop/reward_manager/limited.py\<close>: the bucket, one pass
  of \<open>acquire\<close> through its lock, the coroutines that share a bucket as a step relation over a clock, and
  \<open>acquire\<close> of one coroutine as a loop. The class-level limiters of \<open>RateLimitedRewardManager\<close> follow.
\<close>

section \<open>The bucket\<close>

record token_bucket =
  rate_limit :: real
  max_tokens :: real
  tokens :: real
  last_update :: "real option"

text \<open>\<open>max_tokens or rate_limit\<close>: a capacity of zero counts as missing.\<close>

definition new_bucket :: "real \<Rightarrow> real option \<Rightarrow> token_bucket" where
  "new_bucket rate cap =
     (let m = (case cap of None \<Rightarrow> rate | Some c \<Rightarrow> if c = 0 then rate else c)
      in \<lparr>rate_limit = rate, max_tokens = m, tokens = m, last_update = None\<rparr>)"

text \<open>The first statements under the lock: the tokens that arrived since the last update, up to the capacity.\<close>

definition refilled :: "real \<Rightarrow> token_bucket \<Rightarrow> real" where
  "refilled now b =
     (let last = (case last_update b of None \<Rightarrow> now | Some t \<Rightarrow> t);
          elapsed = now - last;
          new_tokens = elapsed * rate_limit b
      in min (max_tokens b) (tokens b + new_tokens))"

text \<open>
  What one pass through the lock tells the coroutine to do: return, sleep and then return, sleep and try
  again, or fail.
\<close>

datatype acquire_outcome =
    Granted
  | Granted_After real
  | Retry_After real
  | Acquire_Raises py_error

text \<open>
  A request above the capacity takes its tokens at once, so that the balance may become negative, and
  sleeps for as long as the missing tokens need to arrive. The division raises before the tokens are taken
  and before \<open>last_update\<close> is set to the present time, but after the refill.
\<close>

definition acquire_oversized :: "real \<Rightarrow> real \<Rightarrow> token_bucket \<Rightarrow> acquire_outcome \<times> token_bucket" where
  "acquire_oversized now num b =
     (let b1 = (case last_update b of None \<Rightarrow> b\<lparr>last_update := Some now\<rparr> | Some _ \<Rightarrow> b);
          level = refilled now b;
          b2 = b1\<lparr>tokens := level\<rparr>;
          tokens_needed = num - level;
          b3 = b2\<lparr>tokens := level - num, last_update := Some now\<rparr>
      in if tokens_needed > 0
         then if rate_limit b = 0 then (Acquire_Raises ZeroDivisionError, b2)
              else let wait_time = tokens_needed / rate_limit b
                   in (if wait_time > 0 then Granted_After wait_time else Granted, b3)
         else (Granted, b3))"

text \<open>
  One round of the loop for a request within the capacity. A wait that is not positive goes straight back to
  the lock, which is a retry after no time.
\<close>

definition acquire_round :: "real \<Rightarrow> real \<Rightarrow> token_bucket \<Rightarrow> acquire_outcome \<times> token_bucket" where
  "acquire_round now num b =
     (let level = refilled now b;
          b1 = b\<lparr>tokens := level, last_update := Some now\<rparr>
      in if level \<ge> num then (Granted, b1\<lparr>tokens := level - num\<rparr>)
         else let tokens_needed = num - level
              in if rate_limit b = 0 then (Acquire_Raises ZeroDivisionError, b1)
                 else (Retry_After (max 0 (tokens_needed / rate_limit b)), b1))"

definition acquire_pass :: "real \<Rightarrow> real \<Rightarrow> token_bucket \<Rightarrow> acquire_outcome \<times> token_bucket" where
  "acquire_pass now num b =
     (if num > max_tokens b then acquire_oversized now num b else acquire_round now num b)"

section \<open>Coroutines sharing a bucket\<close>

text \<open>
  A coroutine inside \<open>acquire num\<close> is about to enter the lock, not before a given time (the start of the call
  or the end of its sleep); or its tokens are taken and it returns, not before a given time; or it has
  returned, or failed. \<open>asyncio.sleep w\<close> ends at some time no earlier than \<open>w\<close> seconds later.
\<close>

datatype acquirer =
    Entering (amount: real) (not_before: real)
  | Holding (amount: real) (not_before: real)
  | Returned (amount: real) (not_before: real)
  | Failed (amount: real) py_error

record bucket_world =
  clock :: real
  bucket :: token_bucket
  acquirers :: "acquirer list"

definition after_pass :: "real \<Rightarrow> real \<Rightarrow> acquire_outcome \<Rightarrow> acquirer" where
  "after_pass now num out = (case out of
       Granted \<Rightarrow> Holding num now
     | Granted_After w \<Rightarrow> Holding num (now + w)
     | Retry_After w \<Rightarrow> Entering num (now + w)
     | Acquire_Raises e \<Rightarrow> Failed num e)"

text \<open>The critical section runs without an \<open>await\<close>, so it is one step.\<close>

inductive bucket_step :: "bucket_world \<Rightarrow> bucket_world \<Rightarrow> bool" where
  tick: "0 \<le> d \<Longrightarrow> bucket_step W (W\<lparr>clock := clock W + d\<rparr>)"
| call: "0 \<le> num \<Longrightarrow> bucket_step W (W\<lparr>acquirers := acquirers W @ [Entering num (clock W)]\<rparr>)"
| pass: "\<lbrakk>i < length (acquirers W); acquirers W ! i = Entering num t; t \<le> clock W;
          acquire_pass (clock W) num (bucket W) = (out, b)\<rbrakk> \<Longrightarrow>
         bucket_step W (W\<lparr>bucket := b, acquirers := (acquirers W)[i := after_pass (clock W) num out]\<rparr>)"
| return: "\<lbrakk>i < length (acquirers W); acquirers W ! i = Holding num t; t \<le> clock W\<rbrakk> \<Longrightarrow>
         bucket_step W (W\<lparr>acquirers := (acquirers W)[i := Returned num t]\<rparr>)"

inductive bucket_reach :: "bucket_world \<Rightarrow> bucket_world \<Rightarrow> bool" for W0 where
  start: "bucket_reach W0 W0"
| more: "\<lbrakk>bucket_reach W0 W; bucket_step W W'\<rbrakk> \<Longrightarrow> bucket_reach W0 W'"

definition fresh_world :: "real \<Rightarrow> token_bucket \<Rightarrow> bucket_world" where
  "fresh_world t0 b = \<lparr>clock = t0, bucket = b, acquirers = []\<rparr>"

text \<open>The tokens of the calls that hold their tokens, and of the calls that have returned.\<close>

fun holds :: "acquirer \<Rightarrow> bool" where
  "holds (Holding num t) = True"
| "holds (Returned num t) = True"
| "holds _ = False"

fun has_returned :: "acquirer \<Rightarrow> bool" where
  "has_returned (Returned num t) = True"
| "has_returned _ = False"

definition tokens_of :: "(acquirer \<Rightarrow> bool) \<Rightarrow> acquirer list \<Rightarrow> real" where
  "tokens_of P as = sum_list (map amount (filter P as))"

section \<open>One coroutine\<close>

text \<open>
  \<open>acquire\<close> of a coroutine with no competitor: \<open>delay k\<close> is the time by which the \<open>k\<close>-th sleep is longer
  than asked for. The result is the time at which the call returns, or the exception; a call that never
  returns has no result.
\<close>

partial_function (option) acquire_loop ::
  "(nat \<Rightarrow> real) \<Rightarrow> nat \<Rightarrow> real \<Rightarrow> real \<Rightarrow> token_bucket \<Rightarrow> (real result \<times> token_bucket) option" where
  "acquire_loop delay k now num b = (case acquire_pass now num b of
       (Granted, b') \<Rightarrow> Some (Inr now, b')
     | (Granted_After w, b') \<Rightarrow> Some (Inr (now + w + delay k), b')
     | (Retry_After w, b') \<Rightarrow> acquire_loop delay (Suc k) (now + w + delay k) num b'
     | (Acquire_Raises e, b') \<Rightarrow> Some (Inl e, b'))"

end
