(* ===== verification/Token_Bucket_Properties.thy ===== *)
theory Token_Bucket_Properties
  imports Token_Bucket
begin

text \<open>
  What the token bucket promises: the balance never exceeds the capacity; up to any time no more tokens
  are handed out than the capacity and the refill since the start, whatever the calls and their order; the
  admissions of any time window are bounded in the same way when no call is larger than the bucket; a call
  that has the bucket to itself returns after at most one sleep.
\<close>

section \<open>One pass\<close>

lemma refilled_le_capacity: "refilled now b \<le> max_tokens b"
  by (simp add: refilled_def Let_def)

lemma acquire_pass_config [simp]:
  "rate_limit (snd (acquire_pass now num b)) = rate_limit b"
  "max_tokens (snd (acquire_pass now num b)) = max_tokens b"
  by (simp_all add: acquire_pass_def acquire_oversized_def acquire_round_def Let_def split: option.split)

lemma acquire_pass_last:
  assumes "0 < rate_limit b"
  shows "last_update (snd (acquire_pass now num b)) = Some now"
  using assms by (simp add: acquire_pass_def acquire_oversized_def acquire_round_def Let_def)

text \<open>The balance after a pass that took the tokens, and after one that did not.\<close>

lemma acquire_pass_cases:
  assumes "0 < rate_limit b" and "acquire_pass now num b = (out, b')"
  obtains
    (granted) "out = Granted" "tokens b' = refilled now b - num" "num \<le> refilled now b"
  | (granted_after) "out = Granted_After ((num - refilled now b) / rate_limit b)"
      "tokens b' = refilled now b - num" "refilled now b < num" "max_tokens b < num"
  | (retry) "out = Retry_After ((num - refilled now b) / rate_limit b)"
      "tokens b' = refilled now b" "refilled now b < num" "num \<le> max_tokens b"
  using assms
  by (fastforce simp: acquire_pass_def acquire_oversized_def acquire_round_def Let_def max_def
      divide_less_0_iff split: if_splits)

section \<open>Sums over the coroutines\<close>

lemma tokens_of_alt: "tokens_of P as = sum_list (map (\<lambda>a. if P a then amount a else 0) as)"
  by (simp add: tokens_of_def sum_list_map_filter')

lemma tokens_of_snoc [simp]:
  "tokens_of P (as @ [a]) = tokens_of P as + (if P a then amount a else 0)"
  by (simp add: tokens_of_alt)

lemma tokens_of_Nil [simp]: "tokens_of P [] = 0"
  by (simp add: tokens_of_def)

lemma sum_list_replace:
  "i < length xs \<Longrightarrow> sum_list (xs[i := x]) = sum_list xs - xs ! i + (x :: real)"
  by (induction xs arbitrary: i) (auto split: nat.split)

lemma tokens_of_update:
  assumes "i < length as"
  shows "tokens_of P (as[i := a]) =
    tokens_of P as - (if P (as ! i) then amount (as ! i) else 0) + (if P a then amount a else 0)"
  using assms by (simp add: tokens_of_alt map_update sum_list_replace)

lemma tokens_of_mono:
  assumes "\<And>a. a \<in> set as \<Longrightarrow> P a \<Longrightarrow> Q a" and "\<And>a. a \<in> set as \<Longrightarrow> 0 \<le> amount a"
  shows "tokens_of P as \<le> tokens_of Q as"
  unfolding tokens_of_alt using assms by (auto intro!: sum_list_mono)

lemma tokens_of_cong:
  assumes "\<And>a. a \<in> set as \<Longrightarrow> P a = Q a"
  shows "tokens_of P as = tokens_of Q as"
  unfolding tokens_of_alt using assms by (auto intro!: arg_cong [where f = sum_list])

lemma tokens_of_none:
  assumes "\<And>a. a \<in> set as \<Longrightarrow> \<not> P a"
  shows "tokens_of P as = 0"
  using assms by (simp add: tokens_of_def)

text \<open>The calls that were admitted within a window: their tokens are taken, and the wait they owe is over in it.\<close>

definition admitted_in :: "real \<Rightarrow> real \<Rightarrow> acquirer \<Rightarrow> bool" where
  "admitted_in s t a \<longleftrightarrow> holds a \<and> s \<le> not_before a \<and> not_before a \<le> t"

lemma holds_after_pass:
  "holds (after_pass now num out) \<longleftrightarrow> (case out of Granted \<Rightarrow> True | Granted_After w \<Rightarrow> True | _ \<Rightarrow> False)"
  by (simp add: after_pass_def split: acquire_outcome.split)

lemma amount_after_pass [simp]: "amount (after_pass now num out) = num"
  by (simp add: after_pass_def split: acquire_outcome.split)

section \<open>The account of the bucket\<close>

definition last_refill :: "real \<Rightarrow> token_bucket \<Rightarrow> real" where
  "last_refill t0 b = (case last_update b of None \<Rightarrow> t0 | Some t \<Rightarrow> t)"

lemma refilled_account:
  assumes "0 \<le> rate_limit b" and "t0 \<le> last_refill t0 b" and "last_refill t0 b \<le> now"
  shows "refilled now b \<le> tokens b + rate_limit b * (now - last_refill t0 b)"
proof -
  have "0 \<le> rate_limit b * (now - t0)" if "last_update b = None"
    using assms that by (simp add: last_refill_def)
  then show ?thesis
    by (auto simp: refilled_def last_refill_def Let_def algebra_simps split: option.splits)
qed

text \<open>
  The invariant of all reachable states: the balance and the tokens taken so far never exceed the capacity
  and the refill since the start, and the same bound holds at every time \<open>T\<close> for the tokens whose wait is
  over at \<open>T\<close>.
\<close>

definition metered :: "real \<Rightarrow> token_bucket \<Rightarrow> bucket_world \<Rightarrow> bool" where
  "metered t0 b0 W \<longleftrightarrow>
     rate_limit (bucket W) = rate_limit b0 \<and> max_tokens (bucket W) = max_tokens b0 \<and>
     tokens (bucket W) \<le> max_tokens b0 \<and>
     t0 \<le> last_refill t0 (bucket W) \<and> last_refill t0 (bucket W) \<le> clock W \<and>
     (\<forall>a \<in> set (acquirers W). 0 \<le> amount a \<and> (holds a \<longrightarrow> t0 \<le> not_before a) \<and>
        (has_returned a \<longrightarrow> not_before a \<le> clock W)) \<and>
     tokens_of holds (acquirers W) + tokens (bucket W)
       \<le> max_tokens b0 + rate_limit b0 * (last_refill t0 (bucket W) - t0) \<and>
     (\<forall>T \<ge> t0. tokens_of (admitted_in t0 T) (acquirers W) \<le> max_tokens b0 + rate_limit b0 * (T - t0))"

lemma metered_fresh:
  assumes "0 \<le> rate_limit b0" and "0 \<le> max_tokens b0" and "tokens b0 \<le> max_tokens b0"
    and "last_update b0 = None"
  shows "metered t0 b0 (fresh_world t0 b0)"
  using assms by (simp add: metered_def fresh_world_def last_refill_def)

lemma not_holds_not_admitted [simp]: "\<not> holds a \<Longrightarrow> \<not> admitted_in s t a"
  by (simp add: admitted_in_def)

lemma holds_of_returned: "has_returned a \<Longrightarrow> holds a"
  by (cases a) simp_all

text \<open>A pass that takes the tokens charges the account of the bucket.\<close>

lemma metered_charge:
  assumes inv: "metered t0 b0 W" and rate: "0 < rate_limit b0"
    and i: "i < length (acquirers W)" and task: "acquirers W ! i = Entering num t"
    and b: "rate_limit b = rate_limit b0" "max_tokens b = max_tokens b0" "last_update b = Some (clock W)"
    and tok: "tokens b = refilled (clock W) (bucket W) - num"
    and u: "clock W \<le> u" "- tokens b \<le> rate_limit b0 * (u - clock W)"
  shows "metered t0 b0 (W\<lparr>bucket := b, acquirers := (acquirers W)[i := Holding num u]\<rparr>)"
proof -
  let ?r = "rate_limit b0" and ?c = "max_tokens b0"
  have in_set: "Entering num t \<in> set (acquirers W)" using i task by (metis nth_mem)
  have num: "0 \<le> num" using inv in_set by (fastforce simp: metered_def)
  have clk: "t0 \<le> clock W" using inv by (simp add: metered_def)
  have ref: "refilled (clock W) (bucket W)
      \<le> tokens (bucket W) + ?r * (clock W - last_refill t0 (bucket W))"
    using refilled_account [of "bucket W" t0 "clock W"] inv rate by (simp add: metered_def)
  have cap: "refilled (clock W) (bucket W) \<le> ?c"
    using refilled_le_capacity [of "clock W" "bucket W"] inv by (simp add: metered_def)
  have acc: "tokens_of holds (acquirers W) + num + tokens b \<le> ?c + ?r * (clock W - t0)"
  proof -
    have "tokens_of holds (acquirers W) + tokens (bucket W)
        \<le> ?c + ?r * (last_refill t0 (bucket W) - t0)"
      using inv by (simp add: metered_def)
    then show ?thesis using ref tok by (simp add: algebra_simps)
  qed
  have adm: "tokens_of (admitted_in t0 T) ((acquirers W)[i := Holding num u]) \<le> ?c + ?r * (T - t0)"
    if T: "t0 \<le> T" for T
  proof (cases "u \<le> T")
    case True
    have "tokens_of (admitted_in t0 T) (acquirers W) \<le> tokens_of holds (acquirers W)"
      using inv by (intro tokens_of_mono) (auto simp: metered_def admitted_in_def)
    moreover have "?r * (u - t0) \<le> ?r * (T - t0)"
      by (rule mult_left_mono) (use True rate in auto)
    moreover have "?r * (clock W - t0) + ?r * (u - clock W) = ?r * (u - t0)"
      by (simp add: algebra_simps)
    ultimately have "tokens_of (admitted_in t0 T) (acquirers W) + num \<le> ?c + ?r * (T - t0)"
      using acc u(2) by linarith
    moreover have "admitted_in t0 T (Holding num u)"
      using True u(1) clk by (simp add: admitted_in_def)
    ultimately show ?thesis
      using i task by (simp add: tokens_of_update)
  next
    case False
    then show ?thesis
      using i task inv T by (simp add: tokens_of_update) (simp add: admitted_in_def metered_def)
  qed
  have all: "\<forall>a \<in> set ((acquirers W)[i := Holding num u]). 0 \<le> amount a \<and> (holds a \<longrightarrow> t0 \<le> not_before a) \<and>
      (has_returned a \<longrightarrow> not_before a \<le> clock W)"
  proof
    fix a assume "a \<in> set ((acquirers W)[i := Holding num u])"
    then have "a = Holding num u \<or> a \<in> set (acquirers W)"
      by (metis insertE set_update_subset_insert subsetD)
    then show "0 \<le> amount a \<and> (holds a \<longrightarrow> t0 \<le> not_before a) \<and>
        (has_returned a \<longrightarrow> not_before a \<le> clock W)"
      using inv num u clk by (auto simp: metered_def)
  qed
  show ?thesis
    unfolding metered_def using inv b tok cap num clk acc all adm i task
    by (simp add: last_refill_def tokens_of_update)
qed

lemma metered_retry:
  assumes inv: "metered t0 b0 W" and rate: "0 < rate_limit b0"
    and i: "i < length (acquirers W)" and task: "acquirers W ! i = Entering num t"
    and b: "rate_limit b = rate_limit b0" "max_tokens b = max_tokens b0" "last_update b = Some (clock W)"
    and tok: "tokens b = refilled (clock W) (bucket W)"
  shows "metered t0 b0 (W\<lparr>bucket := b, acquirers := (acquirers W)[i := Entering num u]\<rparr>)"
proof -
  let ?r = "rate_limit b0" and ?c = "max_tokens b0"
  have in_set: "Entering num t \<in> set (acquirers W)" using i task by (metis nth_mem)
  have num: "0 \<le> num" using inv in_set by (fastforce simp: metered_def)
  have clk: "t0 \<le> clock W" using inv by (simp add: metered_def)
  have ref: "refilled (clock W) (bucket W)
      \<le> tokens (bucket W) + ?r * (clock W - last_refill t0 (bucket W))"
    using refilled_account [of "bucket W" t0 "clock W"] inv rate by (simp add: metered_def)
  have cap: "refilled (clock W) (bucket W) \<le> ?c"
    using refilled_le_capacity [of "clock W" "bucket W"] inv by (simp add: metered_def)
  have acc: "tokens_of holds (acquirers W) + tokens b \<le> ?c + ?r * (clock W - t0)"
  proof -
    have "tokens_of holds (acquirers W) + tokens (bucket W)
        \<le> ?c + ?r * (last_refill t0 (bucket W) - t0)"
      using inv by (simp add: metered_def)
    then show ?thesis using ref tok by (simp add: algebra_simps)
  qed
  have all: "\<forall>a \<in> set ((acquirers W)[i := Entering num u]). 0 \<le> amount a \<and> (holds a \<longrightarrow> t0 \<le> not_before a) \<and>
      (has_returned a \<longrightarrow> not_before a \<le> clock W)"
  proof
    fix a assume "a \<in> set ((acquirers W)[i := Entering num u])"
    then have "a = Entering num u \<or> a \<in> set (acquirers W)"
      by (metis insertE set_update_subset_insert subsetD)
    then show "0 \<le> amount a \<and> (holds a \<longrightarrow> t0 \<le> not_before a) \<and>
        (has_returned a \<longrightarrow> not_before a \<le> clock W)"
      using inv num by (auto simp: metered_def)
  qed
  show ?thesis
    unfolding metered_def using inv [unfolded metered_def] b tok cap clk acc all i task
    by (simp add: last_refill_def tokens_of_update)
qed

lemma metered_pass:
  assumes inv: "metered t0 b0 W" and rate: "0 < rate_limit b0"
    and i: "i < length (acquirers W)" and task: "acquirers W ! i = Entering num t"
    and pass: "acquire_pass (clock W) num (bucket W) = (out, b)"
  shows "metered t0 b0 (W\<lparr>bucket := b, acquirers := (acquirers W)[i := after_pass (clock W) num out]\<rparr>)"
proof -
  have r: "rate_limit (bucket W) = rate_limit b0" "max_tokens (bucket W) = max_tokens b0"
    using inv by (simp_all add: metered_def)
  have b: "rate_limit b = rate_limit b0" "max_tokens b = max_tokens b0" "last_update b = Some (clock W)"
    using acquire_pass_config [of "clock W" num "bucket W"] acquire_pass_last [of "bucket W" "clock W" num]
      r rate pass by simp_all
  have "0 < rate_limit (bucket W)" using r rate by simp
  from this pass show ?thesis
  proof (cases rule: acquire_pass_cases)
    case granted
    then show ?thesis
      using metered_charge [OF inv rate i task b, of "clock W"] by (simp add: after_pass_def)
  next
    case granted_after
    let ?w = "(num - refilled (clock W) (bucket W)) / rate_limit b0"
    have "0 \<le> ?w" using granted_after rate by simp
    moreover have "rate_limit b0 * ?w = num - refilled (clock W) (bucket W)" using rate by simp
    ultimately show ?thesis
      using metered_charge [OF inv rate i task b granted_after(2), of "clock W + ?w"] granted_after r
      by (simp add: after_pass_def)
  next
    case retry
    then show ?thesis
      using metered_retry [OF inv rate i task b retry(2)] by (simp add: after_pass_def)
  qed
qed

lemma metered_return:
  assumes inv: "metered t0 b0 W"
    and i: "i < length (acquirers W)" and task: "acquirers W ! i = Holding num t" and t: "t \<le> clock W"
  shows "metered t0 b0 (W\<lparr>acquirers := (acquirers W)[i := Returned num t]\<rparr>)"
proof -
  have in_set: "Holding num t \<in> set (acquirers W)" using i task by (metis nth_mem)
  have h: "0 \<le> num" "t0 \<le> t" using inv in_set by (fastforce simp: metered_def)+
  have sum: "tokens_of P ((acquirers W)[i := Returned num t]) = tokens_of P (acquirers W)"
    if "P (Returned num t) = P (Holding num t)" for P
    using i task that by (simp add: tokens_of_update)
  have "admitted_in t0 T (Returned num t) = admitted_in t0 T (Holding num t)" for T
    by (simp add: admitted_in_def)
  then show ?thesis
    using inv h t set_update_subset_insert [of "acquirers W" i "Returned num t"]
    by (auto simp: metered_def sum)
qed

lemma metered_step:
  assumes "bucket_step W W'" and "metered t0 b0 W" and "0 < rate_limit b0"
  shows "metered t0 b0 W'"
  using assms
proof (induction rule: bucket_step.induct)
  case (tick d W)
  then show ?case by (fastforce simp: metered_def)
next
  case (call num W)
  then show ?case by (auto simp: metered_def)
next
  case (pass i W num t out b)
  then show ?case using metered_pass by blast
next
  case (return i W num t)
  then show ?case using metered_return by blast
qed

lemma metered_reach:
  assumes "bucket_reach W0 W" and "metered t0 b0 W0" and "0 < rate_limit b0"
  shows "metered t0 b0 W"
  using assms by (induction rule: bucket_reach.induct) (auto intro: metered_step)

section \<open>Bounds on the tokens handed out\<close>

lemma new_bucket_metered:
  assumes "0 < rate" and "0 < cap"
  shows "metered t0 (new_bucket rate (Some cap)) (fresh_world t0 (new_bucket rate (Some cap)))"
    and "0 < rate_limit (new_bucket rate (Some cap))"
  using assms by (simp_all add: metered_fresh new_bucket_def Let_def)

text \<open>
  C10: Calls of \<open>acquire\<close> that share a bucket, in any order and any number, with requests of any size and
  sleeps that may end late, never get more than the bucket promises: at every time the tokens of all calls
  that have returned are at most the capacity plus the rate times the time since the start. Requests above the
  capacity, for which the balance becomes negative, are included.
\<close>

theorem released_tokens_bounded:
  assumes "0 < rate" and "0 < cap"
    and "bucket_reach (fresh_world t0 (new_bucket rate (Some cap))) W"
  shows "tokens_of has_returned (acquirers W) \<le> cap + rate * (clock W - t0)"
proof -
  let ?b = "new_bucket rate (Some cap)"
  have inv: "metered t0 ?b W"
    by (rule metered_reach [OF assms(3) new_bucket_metered [OF assms(1,2)]])
  have "tokens_of has_returned (acquirers W) \<le> tokens_of (admitted_in t0 (clock W)) (acquirers W)"
    using inv by (intro tokens_of_mono) (auto simp: metered_def admitted_in_def intro: holds_of_returned)
  also have "\<dots> \<le> max_tokens ?b + rate_limit ?b * (clock W - t0)"
    using inv by (simp add: metered_def)
  finally show ?thesis
    using assms(2) by (simp add: new_bucket_def Let_def)
qed

text \<open>
  The invariant behind the bound on windows: when no request is larger than the bucket, an admitted request
  was admitted at the time of a pass, and what was admitted since \<open>s\<close> and the balance are paid by the
  capacity and the refill since \<open>s\<close>.
\<close>

definition windowed :: "real \<Rightarrow> token_bucket \<Rightarrow> bucket_world \<Rightarrow> bool" where
  "windowed t0 b0 W \<longleftrightarrow>
     (let last = last_refill t0 (bucket W)
      in (\<forall>a \<in> set (acquirers W). holds a \<longrightarrow> not_before a \<le> last) \<and>
         (\<forall>s. t0 \<le> s \<and> s \<le> last \<longrightarrow>
            tokens_of (admitted_in s last) (acquirers W) + tokens (bucket W)
              \<le> max_tokens b0 + rate_limit b0 * (last - s)) \<and>
         (\<forall>s T. t0 \<le> s \<and> s \<le> T \<longrightarrow>
            tokens_of (admitted_in s T) (acquirers W) \<le> max_tokens b0 + rate_limit b0 * (T - s)))"

lemma windowed_refill:
  assumes win: "windowed t0 b0 W" and inv: "metered t0 b0 W" and rate: "0 < rate_limit b0"
    and s: "t0 \<le> s" "s \<le> clock W" and T: "clock W \<le> T"
  shows "tokens_of (admitted_in s T) (acquirers W) + refilled (clock W) (bucket W)
    \<le> max_tokens b0 + rate_limit b0 * (clock W - s)"
proof -
  let ?last = "last_refill t0 (bucket W)" and ?r = "rate_limit b0"
  have last: "?last \<le> clock W" using inv by (simp add: metered_def)
  have ref: "refilled (clock W) (bucket W) \<le> tokens (bucket W) + ?r * (clock W - ?last)"
    using refilled_account [of "bucket W" t0 "clock W"] inv rate by (simp add: metered_def)
  have cap: "refilled (clock W) (bucket W) \<le> max_tokens b0"
    using refilled_le_capacity [of "clock W" "bucket W"] inv by (simp add: metered_def)
  show ?thesis
  proof (cases "s \<le> ?last")
    case True
    have "tokens_of (admitted_in s T) (acquirers W) = tokens_of (admitted_in s ?last) (acquirers W)"
      using win last T by (intro tokens_of_cong) (fastforce simp: windowed_def Let_def admitted_in_def)
    moreover have "tokens_of (admitted_in s ?last) (acquirers W) + tokens (bucket W)
        \<le> max_tokens b0 + ?r * (?last - s)"
      using win True s by (simp add: windowed_def Let_def)
    moreover have "?r * (?last - s) + ?r * (clock W - ?last) = ?r * (clock W - s)"
      by (simp add: algebra_simps)
    ultimately show ?thesis using ref by linarith
  next
    case False
    have "tokens_of (admitted_in s T) (acquirers W) = 0"
      using win False by (intro tokens_of_none) (fastforce simp: windowed_def Let_def admitted_in_def)
    moreover have "0 \<le> ?r * (clock W - s)" using rate s by simp
    ultimately show ?thesis using cap by linarith
  qed
qed

lemma windowed_charge:
  assumes win: "windowed t0 b0 W" and inv: "metered t0 b0 W" and rate: "0 < rate_limit b0"
    and i: "i < length (acquirers W)" and task: "acquirers W ! i = Entering num t"
    and b: "last_update b = Some (clock W)"
    and tok: "tokens b = refilled (clock W) (bucket W) - num" and num: "num \<le> refilled (clock W) (bucket W)"
  shows "windowed t0 b0 (W\<lparr>bucket := b, acquirers := (acquirers W)[i := Holding num (clock W)]\<rparr>)"
proof -
  let ?r = "rate_limit b0" and ?c = "max_tokens b0"
  have sum: "tokens_of (admitted_in s T) ((acquirers W)[i := Holding num (clock W)]) =
      tokens_of (admitted_in s T) (acquirers W) + (if s \<le> clock W \<and> clock W \<le> T then num else 0)" for s T
  proof -
    have "admitted_in s T (Holding num (clock W)) \<longleftrightarrow> s \<le> clock W \<and> clock W \<le> T"
      by (simp add: admitted_in_def)
    then show ?thesis using i task by (auto simp add: tokens_of_update)
  qed
  have late: "tokens_of (admitted_in s T) ((acquirers W)[i := Holding num (clock W)]) \<le> ?c + ?r * (T - s)"
    if s: "t0 \<le> s" "s \<le> T" for s T
  proof (cases "s \<le> clock W \<and> clock W \<le> T")
    case True
    have "?r * (clock W - s) \<le> ?r * (T - s)" by (rule mult_left_mono) (use True rate in auto)
    then show ?thesis
      using windowed_refill [OF win inv rate s(1), of T] True num by (simp add: sum)
  next
    case False
    then show ?thesis using win s by (auto simp: sum windowed_def Let_def)
  qed
  have held: "\<forall>a \<in> set ((acquirers W)[i := Holding num (clock W)]). holds a \<longrightarrow> not_before a \<le> clock W"
  proof
    fix a assume "a \<in> set ((acquirers W)[i := Holding num (clock W)])"
    then have "a = Holding num (clock W) \<or> a \<in> set (acquirers W)"
      by (metis insertE set_update_subset_insert subsetD)
    then show "holds a \<longrightarrow> not_before a \<le> clock W"
      using win inv by (fastforce simp: windowed_def metered_def Let_def)
  qed
  have now: "tokens_of (admitted_in s (clock W)) ((acquirers W)[i := Holding num (clock W)]) + tokens b
      \<le> ?c + ?r * (clock W - s)" if "t0 \<le> s" "s \<le> clock W" for s
    using windowed_refill [OF win inv rate that, of "clock W"] that tok by (simp add: sum)
  show ?thesis
    unfolding windowed_def using b late held now by (simp add: last_refill_def Let_def)
qed

lemma windowed_retry:
  assumes win: "windowed t0 b0 W" and inv: "metered t0 b0 W" and rate: "0 < rate_limit b0"
    and i: "i < length (acquirers W)" and task: "acquirers W ! i = Entering num t"
    and b: "last_update b = Some (clock W)" and tok: "tokens b = refilled (clock W) (bucket W)"
  shows "windowed t0 b0 (W\<lparr>bucket := b, acquirers := (acquirers W)[i := Entering num u]\<rparr>)"
proof -
  have sum: "tokens_of (admitted_in s T) ((acquirers W)[i := Entering num u]) =
      tokens_of (admitted_in s T) (acquirers W)" for s T
    using i task by (simp add: tokens_of_update)
  have held: "\<forall>a \<in> set ((acquirers W)[i := Entering num u]). holds a \<longrightarrow> not_before a \<le> clock W"
  proof
    fix a assume "a \<in> set ((acquirers W)[i := Entering num u])"
    then have "a = Entering num u \<or> a \<in> set (acquirers W)"
      by (metis insertE set_update_subset_insert subsetD)
    then show "holds a \<longrightarrow> not_before a \<le> clock W"
      using win inv by (fastforce simp: windowed_def metered_def Let_def)
  qed
  show ?thesis
    unfolding windowed_def
    using b tok held windowed_refill [OF win inv rate, of _ "clock W"] win [unfolded windowed_def Let_def]
    by (simp add: last_refill_def Let_def sum)
qed

definition small_requests :: "bucket_world \<Rightarrow> bool" where
  "small_requests W \<longleftrightarrow> (\<forall>a \<in> set (acquirers W). amount a \<le> max_tokens (bucket W))"

lemma small_requests_back:
  assumes "bucket_step W W'" and "small_requests W'" and "metered t0 b0 W" and "metered t0 b0 W'"
  shows "small_requests W"
proof -
  have "\<exists>as. map amount (acquirers W') = map amount (acquirers W) @ as"
    using assms(1)
  proof cases
    case (pass i num t out b)
    then have "map amount (acquirers W') = map amount (acquirers W)"
      by (simp add: map_update list_update_same_conv)
    then show ?thesis by simp
  next
    case (return i num t)
    then have "map amount (acquirers W') = map amount (acquirers W)"
      by (simp add: map_update list_update_same_conv)
    then show ?thesis by simp
  qed simp_all
  then obtain as where "map amount (acquirers W') = map amount (acquirers W) @ as" ..
  then have "amount ` set (acquirers W) \<subseteq> amount ` set (acquirers W')"
    by (metis Un_upper1 list.set_map set_append)
  moreover have "\<forall>x \<in> amount ` set (acquirers W'). x \<le> max_tokens b0"
    using assms(2,4) by (simp add: small_requests_def metered_def)
  ultimately show ?thesis
    using assms(3) unfolding small_requests_def metered_def by auto
qed

lemma windowed_step:
  assumes "bucket_step W W'" and "windowed t0 b0 W" and "metered t0 b0 W" and "0 < rate_limit b0"
    and "small_requests W"
  shows "windowed t0 b0 W'"
  using assms
proof (induction rule: bucket_step.induct)
  case (tick d W)
  then show ?case by (simp add: windowed_def)
next
  case (call num W)
  then show ?case by (auto simp: windowed_def Let_def)
next
  case (pass i W num t out b)
  have r: "rate_limit (bucket W) = rate_limit b0" "max_tokens (bucket W) = max_tokens b0"
    using pass by (simp_all add: metered_def)
  have b: "last_update b = Some (clock W)"
    using acquire_pass_last [of "bucket W" "clock W" num] r pass by simp
  have "Entering num t \<in> set (acquirers W)" using pass by (metis nth_mem)
  then have small: "num \<le> max_tokens (bucket W)"
    using pass(8) by (auto simp: small_requests_def)
  have "0 < rate_limit (bucket W)" using r pass by simp
  from this pass(4) show ?case
  proof (cases rule: acquire_pass_cases)
    case granted
    then show ?thesis
      using windowed_charge [OF pass(5,6,7,1,2) b] by (simp add: after_pass_def)
  next
    case granted_after
    then show ?thesis using small by simp
  next
    case retry
    then show ?thesis
      using windowed_retry [OF pass(5,6,7,1,2) b] by (simp add: after_pass_def)
  qed
next
  case (return i W num t)
  have sum: "tokens_of (admitted_in s T) ((acquirers W)[i := Returned num t]) =
      tokens_of (admitted_in s T) (acquirers W)" for s T
  proof -
    have "admitted_in s T (Returned num t) = admitted_in s T (Holding num t)"
      by (simp add: admitted_in_def)
    then show ?thesis using return by (simp add: tokens_of_update)
  qed
  have "Holding num t \<in> set (acquirers W)" using return by (metis nth_mem)
  then have t: "t \<le> last_refill t0 (bucket W)"
    using return(4) by (fastforce simp: windowed_def Let_def)
  have "\<forall>a \<in> set ((acquirers W)[i := Returned num t]). holds a \<longrightarrow> not_before a \<le> last_refill t0 (bucket W)"
  proof
    fix a assume "a \<in> set ((acquirers W)[i := Returned num t])"
    then have "a = Returned num t \<or> a \<in> set (acquirers W)"
      by (metis insertE set_update_subset_insert subsetD)
    then show "holds a \<longrightarrow> not_before a \<le> last_refill t0 (bucket W)"
      using return(4) t by (auto simp: windowed_def Let_def)
  qed
  then show ?case
    using return(4) by (simp add: windowed_def Let_def sum)
qed

lemma windowed_reach:
  assumes "bucket_reach W0 W" and "metered t0 b0 W0" and "windowed t0 b0 W0" and "0 < rate_limit b0"
    and "small_requests W"
  shows "windowed t0 b0 W"
  using assms
proof (induction rule: bucket_reach.induct)
  case (more W W')
  have m: "metered t0 b0 W" "metered t0 b0 W'"
    using metered_reach more by (blast, blast intro: metered_step metered_reach)
  then show ?case
    using more windowed_step small_requests_back by blast
qed

lemma windowed_fresh:
  assumes "0 \<le> rate_limit b0" and "0 \<le> max_tokens b0" and "tokens b0 \<le> max_tokens b0"
    and "last_update b0 = None"
  shows "windowed t0 b0 (fresh_world t0 b0)"
  using assms by (auto simp: windowed_def fresh_world_def last_refill_def)

text \<open>
  In any time window, the calls admitted by the bucket take at most its capacity plus the rate times
  the length of the window, when no request is larger than the capacity; so the burst is bounded by the
  capacity at any moment of a run, not only at its start.
\<close>

theorem window_tokens_bounded:
  assumes "0 < rate" and "0 < cap"
    and "bucket_reach (fresh_world t0 (new_bucket rate (Some cap))) W"
    and "small_requests W" and "t0 \<le> s" and "s \<le> t"
  shows "tokens_of (admitted_in s t) (acquirers W) \<le> cap + rate * (t - s)"
proof -
  let ?b = "new_bucket rate (Some cap)"
  have b: "0 \<le> rate_limit ?b" "0 \<le> max_tokens ?b" "tokens ?b \<le> max_tokens ?b" "last_update ?b = None"
    using assms(1,2) by (simp_all add: new_bucket_def Let_def)
  have "windowed t0 ?b W"
    using windowed_reach [OF assms(3) new_bucket_metered(1) [OF assms(1,2)] windowed_fresh [OF b]
        new_bucket_metered(2) [OF assms(1,2)] assms(4)] .
  then show ?thesis
    using assms(2,5,6) by (simp add: windowed_def new_bucket_def Let_def)
qed

section \<open>A call on its own\<close>

lemma acquire_loop_at_once:
  assumes "0 < rate_limit b" and "num \<le> max_tokens b" and "num \<le> refilled now b"
  shows "acquire_loop delay k now num b =
    Some (Inr now, b\<lparr>tokens := refilled now b - num, last_update := Some now\<rparr>)"
  using assms
  by (subst acquire_loop.simps) (simp add: acquire_pass_def acquire_round_def Let_def)

text \<open>After a sleep of the computed length the tokens are there.\<close>

lemma refilled_after_sleep:
  assumes "0 < rate_limit b" and "num \<le> max_tokens b" and "0 \<le> d" and "refilled now b < num"
  shows "num \<le> refilled (now + ((num - refilled now b) / rate_limit b + d))
    (b\<lparr>tokens := refilled now b, last_update := Some now\<rparr>)"
proof -
  have "((num - refilled now b) / rate_limit b + d) * rate_limit b =
      (num - refilled now b) + d * rate_limit b"
    using assms(1) by (simp add: distrib_right)
  moreover have "0 \<le> d * rate_limit b" using assms by simp
  ultimately show ?thesis
    using assms(2) by (simp add: refilled_def [of _ "b\<lparr>tokens := _, last_update := _\<rparr>"] Let_def)
qed

text \<open>
  A call that has the bucket to itself returns, however late its sleeps end: at once when the
  tokens are there, and otherwise after one sleep, exactly the time the missing tokens need plus the delay of
  the sleep. So the loop of \<open>acquire\<close> makes at most two rounds.
\<close>

theorem acquire_alone_returns:
  assumes "0 < rate_limit b" and "0 \<le> delay k"
  shows "\<exists>b'. acquire_loop delay k now num b =
    Some (Inr (if num \<le> refilled now b then now
               else now + ((num - refilled now b) / rate_limit b + delay k)), b')"
proof (cases "num \<le> max_tokens b")
  case large: False
  then show ?thesis
    using assms refilled_le_capacity [of now b]
    by (subst acquire_loop.simps)
      (simp add: acquire_pass_def acquire_oversized_def Let_def divide_simps)
next
  case small: True
  show ?thesis
  proof (cases "num \<le> refilled now b")
    case True
    then show ?thesis using acquire_loop_at_once [OF assms(1) small] by simp
  next
    case False
    let ?b = "b\<lparr>tokens := refilled now b, last_update := Some now\<rparr>"
    let ?t = "now + ((num - refilled now b) / rate_limit b + delay k)"
    have pass: "acquire_pass now num b = (Retry_After ((num - refilled now b) / rate_limit b), ?b)"
      using small False assms(1) by (simp add: acquire_pass_def acquire_round_def Let_def max_def)
    have "acquire_loop delay (Suc k) ?t num ?b =
        Some (Inr ?t, ?b\<lparr>tokens := refilled ?t ?b - num, last_update := Some ?t\<rparr>)"
      using assms(1) small refilled_after_sleep [OF assms(1) small assms(2)] False
      by (intro acquire_loop_at_once) simp_all
    then show ?thesis
      using False by (subst acquire_loop.simps) (simp add: pass add.assoc)
  qed
qed

text \<open>A bucket of one request per second, asked twice at once: the second call waits one second.\<close>

lemma acquire_alone_returns_witness:
  "\<exists>b'. acquire_loop (\<lambda>k. 1/2) 0 10 1
     \<lparr>rate_limit = 1, max_tokens = 1, tokens = 0, last_update = Some 10\<rparr> = Some (Inr (23/2), b')"
proof -
  let ?b = "\<lparr>rate_limit = 1, max_tokens = 1, tokens = 0, last_update = Some 10\<rparr>"
  have "refilled 10 ?b = 0" by (simp add: refilled_def)
  then show ?thesis
    using acquire_alone_returns [of ?b "\<lambda>k. 1/2" 0 10 1] by simp
qed

section \<open>A run of the bucket\<close>

text \<open>
  A capacity of two tokens, one token per second: a request for two is admitted at once, one for five is
  larger than the bucket and owes five seconds, and returns when the clock has reached them.
\<close>

definition sample_bucket :: token_bucket where
  "sample_bucket = new_bucket 1 (Some 2)"

lemma sample_bucket_admitted:
  "bucket_reach (fresh_world 0 sample_bucket)
     \<lparr>clock = 0, bucket = \<lparr>rate_limit = 1, max_tokens = 2, tokens = 0, last_update = Some 0\<rparr>,
      acquirers = [Holding 2 0]\<rparr>"
proof -
  let ?W = "\<lambda>b as. \<lparr>clock = 0, bucket = b, acquirers = as\<rparr>"
  let ?b = "\<lparr>rate_limit = 1, max_tokens = 2, tokens = 0, last_update = Some 0\<rparr>"
  have "bucket_reach (fresh_world 0 sample_bucket) (?W sample_bucket [])"
    using bucket_reach.start by (simp add: fresh_world_def)
  then have "bucket_reach (fresh_world 0 sample_bucket) (?W sample_bucket [Entering 2 0])"
    by (rule bucket_reach.more) (use bucket_step.call [of 2 "?W sample_bucket []"] in simp)
  then show ?thesis
    by (rule bucket_reach.more)
      (use bucket_step.pass [of 0 "?W sample_bucket [Entering 2 0]" 2 0 Granted ?b] in
        \<open>simp add: acquire_pass_def acquire_round_def refilled_def sample_bucket_def new_bucket_def after_pass_def\<close>)
qed

lemma sample_bucket_run:
  "bucket_reach (fresh_world 0 sample_bucket)
     \<lparr>clock = 5, bucket = \<lparr>rate_limit = 1, max_tokens = 2, tokens = - 5, last_update = Some 0\<rparr>,
      acquirers = [Returned 2 0, Returned 5 5]\<rparr>"
proof -
  let ?W = "\<lambda>t b as. \<lparr>clock = t, bucket = b, acquirers = as\<rparr>"
  let ?b = "\<lambda>n. \<lparr>rate_limit = 1, max_tokens = 2, tokens = n, last_update = Some 0\<rparr>"
  have "bucket_reach (fresh_world 0 sample_bucket) (?W 0 (?b 0) [Holding 2 0, Entering 5 0])"
    by (rule bucket_reach.more [OF sample_bucket_admitted])
      (use bucket_step.call [of 5 "?W 0 (?b 0) [Holding 2 0]"] in simp)
  then have "bucket_reach (fresh_world 0 sample_bucket) (?W 0 (?b (- 5)) [Holding 2 0, Holding 5 5])"
    by (rule bucket_reach.more)
      (use bucket_step.pass [of 1 "?W 0 (?b 0) [Holding 2 0, Entering 5 0]" 5 0 "Granted_After 5" "?b (- 5)"] in
        \<open>simp add: acquire_pass_def acquire_oversized_def refilled_def after_pass_def\<close>)
  then have "bucket_reach (fresh_world 0 sample_bucket) (?W 0 (?b (- 5)) [Returned 2 0, Holding 5 5])"
    by (rule bucket_reach.more)
      (use bucket_step.return [of 0 "?W 0 (?b (- 5)) [Holding 2 0, Holding 5 5]" 2 0] in simp)
  then have "bucket_reach (fresh_world 0 sample_bucket) (?W 5 (?b (- 5)) [Returned 2 0, Holding 5 5])"
    by (rule bucket_reach.more)
      (use bucket_step.tick [of 5 "?W 0 (?b (- 5)) [Returned 2 0, Holding 5 5]"] in simp)
  then show ?thesis
    by (rule bucket_reach.more)
      (use bucket_step.return [of 1 "?W 5 (?b (- 5)) [Returned 2 0, Holding 5 5]" 5 5] in simp)
qed

lemma released_tokens_bounded_witness:
  "tokens_of has_returned [Returned 2 0, Returned 5 5] = 7 \<and>
   tokens_of has_returned [Returned 2 0, Returned 5 5] \<le> 2 + 1 * (5 - 0)"
  using released_tokens_bounded [of 1 2 0 "\<lparr>clock = 5,
      bucket = \<lparr>rate_limit = 1, max_tokens = 2, tokens = - 5, last_update = Some 0\<rparr>,
      acquirers = [Returned 2 0, Returned 5 5]\<rparr>"] sample_bucket_run
  by (simp add: sample_bucket_def tokens_of_def)

lemma window_tokens_bounded_witness:
  "tokens_of (admitted_in 0 1) [Holding 2 0] = 2 \<and>
   tokens_of (admitted_in 0 1) [Holding 2 0] \<le> 2 + 1 * (1 - 0)"
  using window_tokens_bounded [of 1 2 0 "\<lparr>clock = 0,
      bucket = \<lparr>rate_limit = 1, max_tokens = 2, tokens = 0, last_update = Some 0\<rparr>,
      acquirers = [Holding 2 0]\<rparr>" 0 1] sample_bucket_admitted
  by (simp add: sample_bucket_def small_requests_def tokens_of_def admitted_in_def)

end
