(* ===== verification/Reward_Managers.thy ===== *)
theory Reward_Managers
  imports Trainer_Steps Py_String Py_Number Token_Bucket_Properties
begin

text \<open>
  The reward managers: those called on a whole batch (\<open>verl/workers/reward_manager\<close>: naive, dapo, batch,
  prime) and those that score one sample at a time (\<open>verl/experimental/reward_loop/reward_manager\<close>: naive,
  dapo, gdpo, remote, rate limited). The scoring function and the tokenizer are parameters. The dictionaries
  of the column \<open>extra_info\<close> are mutable objects that several samples may share, so they live in a store and
  the column holds their addresses.
\<close>

section \<open>Values\<close>

datatype pyobj = PNone | PBool bool | PNum real | PText string | PList "pyobj list"
  | PDict "(string \<times> pyobj) list" | PRef nat

type_synonym store = "nat \<Rightarrow> pyobj dict"
type_synonym reward_data = "(vec, pyobj, string) dataproto"

text \<open>\<open>float(x)\<close> of a number or a flag, as the assignment to a tensor needs it.\<close>

definition as_float :: "pyobj \<Rightarrow> real result" where
  "as_float x = (case x of PNum r \<Rightarrow> Inr r | PBool b \<Rightarrow> Inr (if b then 1 else 0) | _ \<Rightarrow> Inl TypeError)"

text \<open>\<open>d[k]\<close> on a dictionary value, and on any other value.\<close>

definition obj_get :: "string \<Rightarrow> pyobj \<Rightarrow> pyobj result" where
  "obj_get k x = (case x of
       PDict d \<Rightarrow> (case map_of d k of None \<Rightarrow> Inl KeyError | Some v \<Rightarrow> Inr v)
     | _ \<Rightarrow> Inl TypeError)"

definition obj_of_option :: "pyobj option \<Rightarrow> pyobj" where
  "obj_of_option x = (case x of None \<Rightarrow> PNone | Some v \<Rightarrow> v)"

text \<open>\<open>d.update(e)\<close>.\<close>

definition obj_update :: "'v dict \<Rightarrow> 'v dict \<Rightarrow> 'v dict" where
  "obj_update d e = fold (\<lambda>(k, v). AList.update k v) e d"

text \<open>The cell of row \<open>i\<close> in a column: \<open>data_item.non_tensor_batch[k]\<close> and \<open>.get(k)\<close>.\<close>

definition cell_opt :: "reward_data \<Rightarrow> string \<Rightarrow> nat \<Rightarrow> pyobj option" where
  "cell_opt d k i = map_option (\<lambda>col. col ! i) (map_of (non_tensor d) k)"

definition cell :: "reward_data \<Rightarrow> string \<Rightarrow> nat \<Rightarrow> pyobj result" where
  "cell d k i = (case cell_opt d k i of None \<Rightarrow> Inl KeyError | Some v \<Rightarrow> Inr v)"

definition tensor_row :: "reward_data \<Rightarrow> string \<Rightarrow> nat \<Rightarrow> vec result" where
  "tensor_row d k i = rbind (tensor d k) (\<lambda>m. py_get m i)"

text \<open>
  The dictionary \<open>extra_info\<close> of a row: its address, when the column exists, and its contents. A row of
  another kind fails at the first assignment of a key.
\<close>

definition extra_of :: "reward_data \<Rightarrow> store \<Rightarrow> nat \<Rightarrow> (nat option \<times> pyobj dict) result" where
  "extra_of d st i = (case cell_opt d ''extra_info'' i of
       None \<Rightarrow> Inr (None, [])
     | Some (PRef a) \<Rightarrow> Inr (Some a, st a)
     | Some _ \<Rightarrow> Inl TypeError)"

definition write_extra :: "nat option \<Rightarrow> pyobj dict \<Rightarrow> store \<Rightarrow> store" where
  "write_extra addr e st = (case addr of None \<Rightarrow> st | Some a \<Rightarrow> st(a := e))"

section \<open>Scoring functions\<close>

text \<open>
  The keyword arguments of \<open>compute_score\<close>. A result is a dictionary or a number; a call may raise, and a
  call under \<open>asyncio.wait_for\<close> may time out.
\<close>

record score_args =
  solution_str :: string
  ground_truth :: pyobj
  extra_info :: "pyobj dict"
  data_source :: "pyobj option"
  scoring_module :: "pyobj option"
  router_address :: "string option"

datatype score_out = ScoreDict "pyobj dict" | ScoreValue pyobj

type_synonym score_fn = "score_args \<Rightarrow> score_out result"

record reward_tokenizer =
  decode_ids :: "vec \<Rightarrow> string"
  eos_text :: "string option"
  eos_id :: real

text \<open>\<open>score = result["score"]\<close> or \<open>score = result\<close>.\<close>

definition score_of :: "score_out \<Rightarrow> pyobj result" where
  "score_of out = (case out of ScoreDict d \<Rightarrow> obj_get ''score'' (PDict d) | ScoreValue v \<Rightarrow> Inr v)"

section \<open>Lengths\<close>

definition mask_len :: "vec \<Rightarrow> nat" where
  "mask_len m = nat \<lfloor>sum_list m\<rfloor>"

text \<open>\<open>attention_mask[prompt_length:].sum()\<close> and \<open>attention_mask[-response_length:].sum()\<close>.\<close>

definition valid_after_prompt :: "vec \<Rightarrow> vec \<Rightarrow> nat" where
  "valid_after_prompt prompt attention = mask_len (drop (length prompt) attention)"

definition valid_response_len :: "vec \<Rightarrow> vec \<Rightarrow> nat" where
  "valid_response_len response attention = mask_len (py_last (length response) attention)"

text \<open>
  \<open>reward_tensor[i, valid_response_length - 1] = reward\<close>: Python reads a column of \<open>-1\<close> as the last one.
\<close>

definition reward_at :: "nat \<Rightarrow> nat \<Rightarrow> real \<Rightarrow> vec result" where
  "reward_at width valid r =
     rbind (py_index width (int valid - 1)) (\<lambda>j. Inr ((replicate width 0)[j := r]))"

section \<open>Managers called on a batch\<close>

text \<open>A \<open>defaultdict(list)\<close>.\<close>

definition list_append :: "string \<Rightarrow> 'v \<Rightarrow> 'v list dict \<Rightarrow> 'v list dict" where
  "list_append k v d = AList.update k ((case map_of d k of None \<Rightarrow> [] | Some l \<Rightarrow> l) @ [v]) d"

definition append_all :: "pyobj dict \<Rightarrow> pyobj list dict \<Rightarrow> pyobj list dict" where
  "append_all e d = fold (\<lambda>(k, v). list_append k v) e d"

datatype manager_out = TensorOnly mat | TensorAndInfo mat "pyobj list dict option"

definition manager_return :: "bool \<Rightarrow> mat \<Rightarrow> pyobj list dict \<Rightarrow> manager_out" where
  "manager_return return_dict rewards info =
     (if return_dict then TensorAndInfo rewards (Some info) else TensorOnly rewards)"

definition meta_strings :: "string meta_value option \<Rightarrow> string list result" where
  "meta_strings v = (case v of
       None \<Rightarrow> Inr []
     | Some (ListV l) \<Rightarrow> mapM_result (\<lambda>x. case x of Atom s \<Rightarrow> Inr s | _ \<Rightarrow> Inl TypeError) l
     | Some _ \<Rightarrow> Inl TypeError)"

definition extra_columns :: "reward_data \<Rightarrow> pyobj list dict result" where
  "extra_columns d =
     rbind (meta_strings (map_of (meta d) ''reward_extra_keys'')) (\<lambda>ks.
       mapM_result (\<lambda>k. case map_of (non_tensor d) k of None \<Rightarrow> Inl KeyError | Some col \<Rightarrow> Inr (k, col)) ks)"

definition extract_reward_from_rm_scores :: "reward_data \<Rightarrow> bool \<Rightarrow> manager_out option result" where
  "extract_reward_from_rm_scores d return_dict =
     (if \<not> has_tensor d ''rm_scores'' then Inr None
      else rbind (tensor d ''rm_scores'') (\<lambda>scores.
        if return_dict then rbind (extra_columns d) (\<lambda>info. Inr (Some (TensorAndInfo scores (Some info))))
        else Inr (Some (TensorOnly scores))))"

text \<open>The rows of a batch in order, with the store threaded through the calls.\<close>

fun over_rows ::
  "(nat \<Rightarrow> store \<Rightarrow> pyobj list dict \<Rightarrow> (vec \<times> store \<times> pyobj list dict) result) \<Rightarrow> nat list \<Rightarrow> store \<Rightarrow>
   pyobj list dict \<Rightarrow> (mat \<times> store \<times> pyobj list dict) result" where
  "over_rows f [] st info = Inr ([], st, info)"
| "over_rows f (i # is) st info =
     rbind (f i st info) (\<lambda>(row, st', info').
     rbind (over_rows f is st' info') (\<lambda>(rows, st'', info'').
       Inr (row # rows, st'', info'')))"

text \<open>\<open>prompt_ids\<close>, \<open>response_ids\<close>, \<open>attention_mask\<close> of a row.\<close>

definition row_tensors :: "reward_data \<Rightarrow> nat \<Rightarrow> (vec \<times> vec \<times> vec) result" where
  "row_tensors d i =
     rbind (tensor_row d ''prompts'' i) (\<lambda>prompt_ids.
     rbind (tensor_row d ''attention_mask'' i) (\<lambda>attention.
     rbind (tensor_row d ''responses'' i) (\<lambda>response_ids.
       Inr (prompt_ids, response_ids, attention))))"

text \<open>\<open>NaiveRewardManager.__call__\<close> of \<open>verl/workers/reward_manager/naive.py\<close>.\<close>

definition naive_args ::
  "reward_tokenizer \<Rightarrow> bool \<Rightarrow> string \<Rightarrow> reward_data \<Rightarrow> nat \<Rightarrow> store \<Rightarrow> string \<Rightarrow> (score_args \<times> store) result" where
  "naive_args tok is_default fn_key d i st response_str =
     rbind (cell d ''reward_model'' i) (\<lambda>rm.
     rbind (obj_get ''ground_truth'' rm) (\<lambda>truth.
     rbind (obj_get ''scoring_module'' rm) (\<lambda>module.
     rbind (cell d fn_key i) (\<lambda>source.
     rbind (extra_of d st i) (\<lambda>(addr, extra).
       let extra' = AList.update ''rollout_reward_scores''
             (case cell_opt d ''reward_scores'' i of None \<Rightarrow> PDict [] | Some v \<Rightarrow> v)
             (AList.update ''num_turns'' (obj_of_option (cell_opt d ''__num_turns__'' i)) extra)
       in Inr (\<lparr>solution_str = response_str, ground_truth = truth, extra_info = extra',
                data_source = (if is_default then Some source else None),
                scoring_module = (if is_default then None else Some module),
                router_address = None\<rparr>, write_extra addr extra' st))))))"

definition naive_row ::
  "reward_tokenizer \<Rightarrow> score_fn \<Rightarrow> bool \<Rightarrow> string \<Rightarrow> reward_data \<Rightarrow> nat \<Rightarrow> store \<Rightarrow> pyobj list dict \<Rightarrow>
   (vec \<times> store \<times> pyobj list dict) result" where
  "naive_row tok score is_default fn_key d i st info =
     rbind (row_tensors d i) (\<lambda>(prompt_ids, response_ids, attention).
       let valid = valid_after_prompt prompt_ids attention;
           response_str = decode_ids tok (take valid response_ids)
       in rbind (naive_args tok is_default fn_key d i st response_str) (\<lambda>(args, st').
          rbind (score args) (\<lambda>out.
          rbind (score_of out) (\<lambda>reward.
          rbind (as_float reward) (\<lambda>r.
          rbind (reward_at (length response_ids) valid r) (\<lambda>row.
            Inr (row, st', (case out of ScoreDict e \<Rightarrow> append_all e info | ScoreValue _ \<Rightarrow> info))))))))"

definition naive_call ::
  "reward_tokenizer \<Rightarrow> score_fn \<Rightarrow> bool \<Rightarrow> string \<Rightarrow> bool \<Rightarrow> reward_data \<Rightarrow> store \<Rightarrow>
   (manager_out \<times> store) result" where
  "naive_call tok score is_default fn_key return_dict d st =
     rbind (extract_reward_from_rm_scores d return_dict) (\<lambda>early. case early of
       Some out \<Rightarrow> Inr (out, st)
     | None \<Rightarrow> rbind (over_rows (naive_row tok score is_default fn_key d) [0..<dp_len d] st [])
         (\<lambda>(rows, st', info). Inr (manager_return return_dict rows info, st')))"

text \<open>
  \<open>DAPORewardManager\<close> of \<open>verl/workers/reward_manager/dapo.py\<close>: the constructor's checks, the removal of the
  end-of-sequence text and the penalty on overlong responses. \<open>s[:-n]\<close> with \<open>n = 0\<close> is empty.
\<close>

record overlong_cfg =
  buffer_len :: nat
  penalty_enabled :: bool
  penalty_factor :: real
  penalty_log :: bool

definition dapo_init :: "overlong_cfg option \<Rightarrow> nat option \<Rightarrow> unit result" where
  "dapo_init cfg max_resp_len = (case cfg of
       None \<Rightarrow> Inr ()
     | Some c \<Rightarrow> (case max_resp_len of
           None \<Rightarrow> Inl AssertionError
         | Some m \<Rightarrow> ensure (buffer_len c \<le> m) AssertionError
             (ensure (\<not> penalty_enabled c \<or> 0 < buffer_len c) AssertionError (Inr ()))))"

definition overlong_reward :: "overlong_cfg \<Rightarrow> nat \<Rightarrow> nat \<Rightarrow> real" where
  "overlong_reward c max_resp_len valid =
     (let overlong_buffer_len = real (buffer_len c);
          expected_len = real max_resp_len - overlong_buffer_len;
          exceed_len = real valid - expected_len
      in min (- exceed_len / overlong_buffer_len * penalty_factor c) 0)"

definition drop_eos :: "string option \<Rightarrow> string \<Rightarrow> string result" where
  "drop_eos eos s = (case eos of
       None \<Rightarrow> Inl TypeError
     | Some e \<Rightarrow> Inr (if suffix e s then (if e = [] then [] else take (length s - length e) s) else s))"

definition with_overlong ::
  "overlong_cfg option \<Rightarrow> nat option \<Rightarrow> nat \<Rightarrow> real \<Rightarrow> (real \<times> (string \<times> pyobj) list) result" where
  "with_overlong cfg max_resp_len valid r = (case cfg of
       None \<Rightarrow> Inl AttributeError
     | Some c \<Rightarrow>
         if \<not> penalty_enabled c then Inr (r, [])
         else (case max_resp_len of
             None \<Rightarrow> Inl TypeError
           | Some m \<Rightarrow>
               let p = overlong_reward c m valid
               in Inr (r + p, if penalty_log c
                              then [(''overlong_reward'', PNum p), (''overlong'', PBool (p < 0))] else [])))"

definition dapo_args ::
  "string \<Rightarrow> reward_data \<Rightarrow> nat \<Rightarrow> store \<Rightarrow> string \<Rightarrow> (score_args \<times> store) result" where
  "dapo_args fn_key d i st response_str =
     rbind (cell d ''reward_model'' i) (\<lambda>rm.
     rbind (obj_get ''ground_truth'' rm) (\<lambda>truth.
     rbind (cell d fn_key i) (\<lambda>source.
     rbind (extra_of d st i) (\<lambda>(addr, extra).
       let extra' = AList.update ''rollout_reward_scores''
             (case cell_opt d ''reward_scores'' i of None \<Rightarrow> PDict [] | Some v \<Rightarrow> v) extra
       in Inr (\<lparr>solution_str = response_str, ground_truth = truth, extra_info = extra',
                data_source = Some source, scoring_module = None, router_address = None\<rparr>,
               write_extra addr extra' st)))))"

definition extra_entries :: "score_out \<Rightarrow> pyobj dict" where
  "extra_entries out = (case out of ScoreDict e \<Rightarrow> e | ScoreValue v \<Rightarrow> [(''acc'', v)])"

definition dapo_row ::
  "reward_tokenizer \<Rightarrow> score_fn \<Rightarrow> string \<Rightarrow> overlong_cfg option \<Rightarrow> nat option \<Rightarrow> reward_data \<Rightarrow> nat \<Rightarrow> store \<Rightarrow>
   pyobj list dict \<Rightarrow> (vec \<times> store \<times> pyobj list dict) result" where
  "dapo_row tok score fn_key cfg max_resp_len d i st info =
     rbind (row_tensors d i) (\<lambda>(prompt_ids, response_ids, attention).
       let valid = valid_after_prompt prompt_ids attention
       in rbind (drop_eos (eos_text tok) (decode_ids tok (take valid response_ids))) (\<lambda>response_str.
          rbind (dapo_args fn_key d i st response_str) (\<lambda>(args, st').
          rbind (score args) (\<lambda>out.
          rbind (score_of out) (\<lambda>reward.
          rbind (as_float reward) (\<lambda>r.
          rbind (with_overlong cfg max_resp_len valid r) (\<lambda>(r', logged).
          rbind (reward_at (length response_ids) valid r') (\<lambda>row.
            Inr (row, st', append_all logged (append_all (extra_entries out) info))))))))))"

definition dapo_call ::
  "reward_tokenizer \<Rightarrow> score_fn \<Rightarrow> string \<Rightarrow> overlong_cfg option \<Rightarrow> nat option \<Rightarrow> bool \<Rightarrow> reward_data \<Rightarrow> store \<Rightarrow>
   (manager_out \<times> store) result" where
  "dapo_call tok score fn_key cfg max_resp_len return_dict d st =
     rbind (extract_reward_from_rm_scores d return_dict) (\<lambda>early. case early of
       Some out \<Rightarrow> Inr (out, st)
     | None \<Rightarrow> rbind (over_rows (dapo_row tok score fn_key cfg max_resp_len d) [0..<dp_len d] st [])
         (\<lambda>(rows, st', info). Inr (manager_return return_dict rows info, st')))"

text \<open>
  \<open>BatchRewardManager\<close> of \<open>verl/workers/reward_manager/batch.py\<close>: one call scores the whole batch. All keys
  are written before the scoring function reads the dictionaries.
\<close>

type_synonym batch_score_fn = "pyobj list \<Rightarrow> string list \<Rightarrow> pyobj list \<Rightarrow> pyobj dict list \<Rightarrow> score_out list result"

fun write_scores :: "(nat option \<times> pyobj) list \<Rightarrow> store \<Rightarrow> store" where
  "write_scores [] st = st"
| "write_scores ((addr, v) # rest) st =
     write_scores rest (case addr of None \<Rightarrow> st
       | Some a \<Rightarrow> st(a := AList.update ''rollout_reward_scores'' v (st a)))"

definition extra_address :: "reward_data \<Rightarrow> nat \<Rightarrow> nat option result" where
  "extra_address d i = (case cell_opt d ''extra_info'' i of
       None \<Rightarrow> Inr None | Some (PRef a) \<Rightarrow> Inr (Some a) | Some _ \<Rightarrow> Inl TypeError)"

definition ground_truth_or_none :: "reward_data \<Rightarrow> nat \<Rightarrow> pyobj result" where
  "ground_truth_or_none d i =
     rbind (cell d ''reward_model'' i) (\<lambda>rm. case rm of
       PDict e \<Rightarrow> Inr (obj_of_option (map_of e ''ground_truth''))
     | _ \<Rightarrow> Inl AttributeError)"

definition batch_valid_lens :: "reward_data \<Rightarrow> nat list result" where
  "batch_valid_lens d =
     rbind (tensor d ''prompts'') (\<lambda>prompts.
     rbind (tensor d ''attention_mask'') (\<lambda>attention.
       Inr (map (\<lambda>row. mask_len (drop (mat_width prompts) row)) attention)))"

definition batch_verify ::
  "reward_tokenizer \<Rightarrow> batch_score_fn \<Rightarrow> string \<Rightarrow> reward_data \<Rightarrow> store \<Rightarrow> (score_out list \<times> store) result" where
  "batch_verify tok score fn_key d st =
     rbind (batch_valid_lens d) (\<lambda>lens.
     rbind (tensor d ''responses'') (\<lambda>responses.
     rbind (mapM_result (ground_truth_or_none d) [0..<dp_len d]) (\<lambda>truths.
     rbind (mapM_result (cell d fn_key) [0..<dp_len d]) (\<lambda>sources.
     rbind (mapM_result (extra_address d) [0..<dp_len d]) (\<lambda>addrs.
       let strs = map2 (\<lambda>ids n. decode_ids tok (take n ids)) responses lens;
           scores = map (\<lambda>i. case cell_opt d ''reward_scores'' i of None \<Rightarrow> PDict [] | Some v \<Rightarrow> v) [0..<dp_len d];
           st' = write_scores (zip addrs scores) st;
           extras = map2 (\<lambda>addr v. case addr of None \<Rightarrow> [(''rollout_reward_scores'', v)] | Some a \<Rightarrow> st' a) addrs scores
       in rbind (score sources strs truths extras) (\<lambda>outs. Inr (outs, st')))))))"

definition batch_row ::
  "nat \<Rightarrow> nat list \<Rightarrow> score_out list \<Rightarrow> nat \<Rightarrow> (vec \<times> real) result" where
  "batch_row width lens outs i =
     rbind (py_get outs i) (\<lambda>out.
     rbind (score_of out) (\<lambda>reward.
     rbind (as_float reward) (\<lambda>r.
     rbind (reward_at width (lens ! i) r) (\<lambda>row. Inr (row, r)))))"

definition batch_call ::
  "reward_tokenizer \<Rightarrow> batch_score_fn \<Rightarrow> string \<Rightarrow> bool \<Rightarrow> reward_data \<Rightarrow> store \<Rightarrow>
   (manager_out \<times> reward_data \<times> store) result" where
  "batch_call tok score fn_key return_dict d st =
     rbind (extract_reward_from_rm_scores d return_dict) (\<lambda>early. case early of
       Some out \<Rightarrow> Inr (out, d, st)
     | None \<Rightarrow>
         rbind (tensor d ''responses'') (\<lambda>responses.
         rbind (batch_valid_lens d) (\<lambda>lens.
         rbind (mapM_result (cell d fn_key) [0..<dp_len d]) (\<lambda>_.
         rbind (batch_verify tok score fn_key d st) (\<lambda>(outs, st').
         rbind (mapM_result (batch_row (mat_width responses) lens outs) [0..<dp_len d]) (\<lambda>rows.
         rbind (set_tensor ''acc'' (map (\<lambda>(_, r). [r]) rows) d) (\<lambda>d'.
           let info = fold (\<lambda>i. case outs ! i of ScoreDict e \<Rightarrow> append_all e | ScoreValue _ \<Rightarrow> id) [0..<dp_len d] []
           in Inr (manager_return return_dict (map fst rows) info, d', st'))))))))"

text \<open>
  \<open>PrimeRewardManager\<close> of \<open>verl/workers/reward_manager/prime.py\<close>: a call that times out or raises counts as
  a score of zero; a result that is no number is read at position zero, and an exception there makes all
  scores of the batch zero. The evaluation is a parameter: \<open>None\<close> stands for a timeout.
\<close>

type_synonym eval_fn = "pyobj \<Rightarrow> string \<Rightarrow> pyobj \<Rightarrow> pyobj \<Rightarrow> pyobj result option"

definition single_compute_score :: "eval_fn \<Rightarrow> string \<Rightarrow> pyobj \<Rightarrow> pyobj \<Rightarrow> pyobj \<Rightarrow> pyobj" where
  "single_compute_score eval completion reference source extra =
     (case eval source completion reference extra of
        Some (Inr v) \<Rightarrow> v
      | Some (Inl _) \<Rightarrow> PNone
      | None \<Rightarrow> PNone)"

definition first_item :: "pyobj \<Rightarrow> real result" where
  "first_item x = (case x of
       PList [] \<Rightarrow> Inl IndexError
     | PList (v # _) \<Rightarrow> as_float v
     | PText [] \<Rightarrow> Inl IndexError
     | PText (c # _) \<Rightarrow> (case py_float [c] of None \<Rightarrow> Inl ValueError | Some r \<Rightarrow> Inr r)
     | PDict _ \<Rightarrow> Inl KeyError
     | _ \<Rightarrow> Inl TypeError)"

definition prime_score :: "pyobj \<Rightarrow> real result" where
  "prime_score x = (case x of
       PNone \<Rightarrow> Inr 0
     | PNum r \<Rightarrow> Inr r
     | PBool b \<Rightarrow> Inr (if b then 1 else 0)
     | _ \<Rightarrow> first_item x)"

definition parallel_compute_score ::
  "eval_fn \<Rightarrow> string list \<Rightarrow> pyobj list \<Rightarrow> pyobj list \<Rightarrow> pyobj list option \<Rightarrow> vec result" where
  "parallel_compute_score eval completions references sources extras =
     (let es = (case extras of None \<Rightarrow> replicate (length sources) PNone | Some l \<Rightarrow> l)
      in ensure (length references = length completions \<and> length sources = length completions \<and>
                 length es = length completions) ValueError
          (mapM_result (\<lambda>(c, r, t, e). prime_score (single_compute_score eval c r t e))
             (zip completions (zip references (zip sources es)))))"

definition resolve :: "store \<Rightarrow> pyobj \<Rightarrow> pyobj" where
  "resolve st x = (case x of PRef a \<Rightarrow> PDict (st a) | _ \<Rightarrow> x)"

definition prime_truth :: "reward_data \<Rightarrow> nat \<Rightarrow> pyobj result" where
  "prime_truth d i = rbind (cell d ''reward_model'' i) (obj_get ''ground_truth'')"

definition prime_verify ::
  "reward_tokenizer \<Rightarrow> eval_fn \<Rightarrow> string \<Rightarrow> reward_data \<Rightarrow> store \<Rightarrow> (vec \<times> reward_data) result" where
  "prime_verify tok eval fn_key d st =
     rbind (tensor d ''responses'') (\<lambda>responses.
     rbind (mapM_result (prime_truth d) [0..<dp_len d]) (\<lambda>truths.
     rbind (mapM_result (cell d fn_key) [0..<dp_len d]) (\<lambda>sources.
       let strs = map (decode_ids tok) responses;
           extras = map_option (map (resolve st)) (map_of (non_tensor d) ''extra_info'')
       in ensure (length strs = length truths \<and> length truths = length sources) AssertionError
           (let scores = (case parallel_compute_score eval strs truths sources extras of
                  Inr v \<Rightarrow> v | Inl _ \<Rightarrow> replicate (length strs) 0)
            in rbind (set_tensor ''acc'' (map (\<lambda>r. [r]) scores) d) (\<lambda>d'. Inr (scores, d'))))))"

definition prime_call ::
  "reward_tokenizer \<Rightarrow> eval_fn \<Rightarrow> string \<Rightarrow> bool \<Rightarrow> reward_data \<Rightarrow> store \<Rightarrow> (manager_out \<times> reward_data) result" where
  "prime_call tok eval fn_key return_dict d st =
     rbind (extract_reward_from_rm_scores d return_dict) (\<lambda>early. case early of
       Some out \<Rightarrow> Inr (out, d)
     | None \<Rightarrow>
         rbind (tensor d ''responses'') (\<lambda>responses.
         rbind (batch_valid_lens d) (\<lambda>lens.
         rbind (mapM_result (cell d ''data_source'') [0..<dp_len d]) (\<lambda>_.
         rbind (prime_verify tok eval fn_key d st) (\<lambda>(scores, d').
         rbind (mapM_result (\<lambda>i. rbind (py_get scores i) (reward_at (mat_width responses) (lens ! i)))
                  [0..<dp_len d]) (\<lambda>rows.
           Inr (if return_dict then TensorAndInfo rows None else TensorOnly rows, d')))))))"

end
