(* ===== verification/Reward_Loop.thy ===== *)
theory Reward_Loop
  imports Reward_Managers
begin

text \<open>
  The reward loop (\<open>verl/experimental/reward_loop/reward_loop.py\<close>) and its managers: \<open>run_single\<close> of the
  naive, dapo, gdpo, remote and rate limited managers, the worker that scores the samples of its chunk
  concurrently, the requests to a reward model with their retries, and \<open>compute_rm_score\<close>, which spreads a
  batch over the workers. The class-level limiters of the rate limited manager come first.
\<close>

section \<open>The limiters shared by all rate limited managers of a process\<close>

record limiter_cfg =
  cfg_max_concurrent :: nat
  cfg_max_rpm :: "real option"
  cfg_max_tpm :: "real option"
  cfg_estimated_tokens :: real

record limiter_class =
  max_concurrent :: nat
  max_rpm :: "real option"
  rpm_limiter :: "token_bucket option"
  max_tpm :: "real option"
  tpm_limiter :: "token_bucket option"
  estimated_tokens :: real

text \<open>
  \<open>init_class\<close>: the class state is \<open>None\<close> until the first instance is created; later configurations change
  nothing and may be reported in a warning, which is the second result.
\<close>

definition per_minute :: "real \<Rightarrow> token_bucket" where
  "per_minute m = (let per_second = m / 60 in new_bucket per_second (Some per_second))"

definition init_class :: "limiter_cfg \<Rightarrow> limiter_class option \<Rightarrow> limiter_class \<times> bool" where
  "init_class cfg cls = (case cls of
       Some c \<Rightarrow>
         (c, (cfg_max_rpm cfg \<noteq> max_rpm c \<or> cfg_max_tpm cfg \<noteq> max_tpm c) \<and>
             (cfg_max_rpm cfg \<noteq> None \<or> cfg_max_tpm cfg \<noteq> None \<or> max_rpm c \<noteq> None \<or> max_tpm c \<noteq> None))
     | None \<Rightarrow>
         (\<lparr>max_concurrent = cfg_max_concurrent cfg,
           max_rpm = cfg_max_rpm cfg, rpm_limiter = map_option per_minute (cfg_max_rpm cfg),
           max_tpm = cfg_max_tpm cfg, tpm_limiter = map_option per_minute (cfg_max_tpm cfg),
           estimated_tokens = cfg_estimated_tokens cfg\<rparr>, False))"

text \<open>
  The two limiters a request of \<open>run_single\<close> passes one after the other, for a request that has them to itself:
  the time at which the second one lets it go.
\<close>

definition pass_limiter ::
  "(nat \<Rightarrow> real) \<Rightarrow> real \<Rightarrow> real \<Rightarrow> token_bucket option \<Rightarrow> (real result \<times> token_bucket option) option" where
  "pass_limiter delay now num limiter = (case limiter of
       None \<Rightarrow> Some (Inr now, None)
     | Some b \<Rightarrow> map_option (\<lambda>(t, b'). (t, Some b')) (acquire_loop delay 0 now num b))"

definition pass_limiters ::
  "(nat \<Rightarrow> real) \<Rightarrow> (nat \<Rightarrow> real) \<Rightarrow> real \<Rightarrow> limiter_class \<Rightarrow> (real result \<times> limiter_class) option" where
  "pass_limiters delay1 delay2 now cls = (case pass_limiter delay1 now 1 (rpm_limiter cls) of
       None \<Rightarrow> None
     | Some (Inl e, r) \<Rightarrow> Some (Inl e, cls\<lparr>rpm_limiter := r\<rparr>)
     | Some (Inr t, r) \<Rightarrow> (case pass_limiter delay2 t (estimated_tokens cls) (tpm_limiter cls) of
           None \<Rightarrow> None
         | Some (u, p) \<Rightarrow> Some (u, cls\<lparr>rpm_limiter := r, tpm_limiter := p\<rparr>)))"

section \<open>Managers that score one sample\<close>

text \<open>
  The managers differ in what they write into \<open>extra_info\<close>, in the keyword arguments and in what they do with
  the score. \<open>run_single\<close> suspends at the decoding of the response: what comes before is one step, and a
  second one follows with the call of the scoring function.
\<close>

datatype reward_manager =
    Naive bool
  | Dapo "overlong_cfg option" "nat option"
  | Gdpo pyobj
  | Remote
  | Rate_Limited "py_error \<Rightarrow> string"

record prepared =
  prep_valid :: nat
  prep_ids :: vec
  prep_source :: pyobj
  prep_truth :: pyobj
  prep_module :: "pyobj option"
  prep_addr :: "nat option"
  prep_extra :: "pyobj dict"

definition truncated_flag :: "reward_tokenizer \<Rightarrow> vec \<Rightarrow> bool" where
  "truncated_flag tok ids \<longleftrightarrow> \<not> list_ex (\<lambda>t. t = eos_id tok) ids"

text \<open>\<open>extra_info.update(tool_extra_fields.items())\<close> when the column holds a dictionary.\<close>

definition add_tool_fields :: "reward_data \<Rightarrow> nat \<Rightarrow> pyobj dict \<Rightarrow> pyobj dict result" where
  "add_tool_fields d i extra = (case cell_opt d ''tool_extra_fields'' i of
       None \<Rightarrow> Inr extra
     | Some PNone \<Rightarrow> Inr extra
     | Some (PDict e) \<Rightarrow> Inr (obj_update extra e)
     | Some _ \<Rightarrow> Inl AttributeError)"

definition add_turns :: "reward_data \<Rightarrow> nat \<Rightarrow> pyobj dict \<Rightarrow> pyobj dict" where
  "add_turns d i extra =
     AList.update ''rollout_reward_scores'' (case cell_opt d ''reward_scores'' i of None \<Rightarrow> PDict [] | Some v \<Rightarrow> v)
       (AList.update ''num_turns'' (obj_of_option (cell_opt d ''__num_turns__'' i)) extra)"

definition manager_extra :: "reward_manager \<Rightarrow> reward_data \<Rightarrow> nat \<Rightarrow> pyobj dict \<Rightarrow> pyobj dict result" where
  "manager_extra mgr d i extra = (case mgr of
       Naive _ \<Rightarrow> rbind (add_tool_fields d i extra) (\<lambda>e. Inr (add_turns d i e))
     | Remote \<Rightarrow> rbind (add_tool_fields d i extra) (\<lambda>e. Inr (add_turns d i e))
     | Rate_Limited _ \<Rightarrow> add_tool_fields d i extra
     | Gdpo experiment_name \<Rightarrow> Inr (AList.update ''experiment_name'' experiment_name extra)
     | Dapo _ _ \<Rightarrow> Inr extra)"

definition manager_module :: "reward_manager \<Rightarrow> pyobj \<Rightarrow> pyobj option result" where
  "manager_module mgr rm = (case mgr of
       Naive _ \<Rightarrow> rbind (obj_get ''scoring_module'' rm) (\<lambda>m. Inr (Some m))
     | _ \<Rightarrow> Inr None)"

text \<open>The first step, on the only row of \<open>data\<close>; it writes to the store.\<close>

definition run_single_start ::
  "reward_manager \<Rightarrow> reward_tokenizer \<Rightarrow> reward_data \<Rightarrow> store \<Rightarrow> (prepared \<times> store) result" where
  "run_single_start mgr tok d st =
     ensure (dp_len d = 1) AssertionError
      (rbind (tensor_row d ''responses'' 0) (\<lambda>response_ids.
       rbind (tensor_row d ''attention_mask'' 0) (\<lambda>attention.
         let valid = valid_response_len response_ids attention;
             ids = take valid response_ids
         in rbind (cell d ''data_source'' 0) (\<lambda>source.
            rbind (cell d ''reward_model'' 0) (\<lambda>rm.
            rbind (obj_get ''ground_truth'' rm) (\<lambda>truth.
            rbind (manager_module mgr rm) (\<lambda>module.
            rbind (extra_of d st 0) (\<lambda>(addr, extra).
            rbind (manager_extra mgr d 0 extra) (\<lambda>extra'.
              let extra'' = AList.update ''truncated'' (PBool (truncated_flag tok ids)) extra'
              in Inr (\<lparr>prep_valid = valid, prep_ids = ids, prep_source = source, prep_truth = truth,
                       prep_module = module, prep_addr = addr, prep_extra = extra''\<rparr>,
                      write_extra addr extra'' st))))))))))"

text \<open>The second step reads the dictionary as it is then.\<close>

definition prep_args ::
  "reward_manager \<Rightarrow> reward_tokenizer \<Rightarrow> string option \<Rightarrow> prepared \<Rightarrow> store \<Rightarrow> score_args" where
  "prep_args mgr tok address p st =
     (let by_source = (case mgr of Naive is_default \<Rightarrow> is_default | _ \<Rightarrow> True)
      in \<lparr>solution_str = decode_ids tok (prep_ids p), ground_truth = prep_truth p,
          extra_info = (case prep_addr p of None \<Rightarrow> prep_extra p | Some a \<Rightarrow> st a),
          data_source = (if by_source then Some (prep_source p) else None),
          scoring_module = (if by_source then None else prep_module p),
          router_address = address\<rparr>)"

text \<open>A scoring call under a deadline: \<open>None\<close> is a timeout. Only the rate limited manager sets a deadline.\<close>

type_synonym timed_score_fn = "score_args \<Rightarrow> score_out result option"

record single_out =
  reward_score :: pyobj
  reward_extra :: "pyobj dict option"

definition plain_out :: "score_out \<Rightarrow> single_out result" where
  "plain_out out =
     rbind (score_of out) (\<lambda>reward.
       Inr \<lparr>reward_score = reward, reward_extra = Some (obj_update [] (extra_entries out))\<rparr>)"

definition dapo_out :: "overlong_cfg option \<Rightarrow> nat option \<Rightarrow> nat \<Rightarrow> score_out \<Rightarrow> single_out result" where
  "dapo_out cfg max_resp_len valid out =
     (case cfg of
        None \<Rightarrow> plain_out out
      | Some c \<Rightarrow>
          if \<not> penalty_enabled c then plain_out out
          else rbind (score_of out) (\<lambda>reward.
               rbind (as_float reward) (\<lambda>r.
               rbind (with_overlong cfg max_resp_len valid r) (\<lambda>(r', logged).
                 Inr \<lparr>reward_score = PNum r',
                      reward_extra = Some (obj_update (obj_update [] (extra_entries out)) logged)\<rparr>))))"

definition guarded_out :: "(py_error \<Rightarrow> string) \<Rightarrow> score_out result option \<Rightarrow> single_out" where
  "guarded_out message reply =
     (case reply of
        None \<Rightarrow> \<lparr>reward_score = PNum 0, reward_extra = Some [(''timeout'', PBool True), (''acc'', PNum 0)]\<rparr>
      | Some r \<Rightarrow> (case rbind r plain_out of
            Inr out \<Rightarrow> out
          | Inl e \<Rightarrow> \<lparr>reward_score = PNum 0,
                      reward_extra = Some [(''error'', PText (message e)), (''acc'', PNum 0)]\<rparr>))"

definition run_single_finish ::
  "reward_manager \<Rightarrow> reward_tokenizer \<Rightarrow> timed_score_fn \<Rightarrow> string option \<Rightarrow> prepared \<Rightarrow> store \<Rightarrow> single_out result" where
  "run_single_finish mgr tok score address p st =
     (let reply = score (prep_args mgr tok address p st)
      in case mgr of
           Rate_Limited message \<Rightarrow> Inr (guarded_out message reply)
         | Dapo cfg max_resp_len \<Rightarrow> rbind (case reply of None \<Rightarrow> Inl RuntimeError | Some r \<Rightarrow> r)
             (dapo_out cfg max_resp_len (prep_valid p))
         | _ \<Rightarrow> rbind (case reply of None \<Rightarrow> Inl RuntimeError | Some r \<Rightarrow> r) plain_out)"

definition run_single ::
  "reward_manager \<Rightarrow> reward_tokenizer \<Rightarrow> timed_score_fn \<Rightarrow> string option \<Rightarrow> reward_data \<Rightarrow> store \<Rightarrow>
   (single_out \<times> store) result" where
  "run_single mgr tok score address d st =
     rbind (run_single_start mgr tok d st) (\<lambda>(p, st').
     rbind (run_single_finish mgr tok score address p st') (\<lambda>out. Inr (out, st')))"

section \<open>Scores of a reward model\<close>

text \<open>
  \<open>_post_request\<close>: a client error ends the call, every other failure is retried with a growing pause. The
  result is what the call returns (nothing when no attempt is allowed), the number of requests sent, and
  the pauses in seconds. \<open>server k\<close> answers attempt \<open>k\<close>; a failed request is a \<open>RuntimeError\<close>.
\<close>

datatype http_reply = Json pyobj | Http_Error nat | Connection_Failure

record post_out =
  answer :: "pyobj option result"
  requests :: nat
  pauses :: "nat list"

fun post_from :: "(nat \<Rightarrow> http_reply) \<Rightarrow> nat \<Rightarrow> nat \<Rightarrow> post_out" where
  "post_from server attempt 0 =
     \<lparr>answer = (if attempt = 0 then Inr None else Inl RuntimeError), requests = attempt, pauses = []\<rparr>"
| "post_from server attempt (Suc left) = (case server attempt of
       Json v \<Rightarrow> \<lparr>answer = Inr (Some v), requests = Suc attempt, pauses = []\<rparr>
     | reply \<Rightarrow>
         if (case reply of Http_Error s \<Rightarrow> 400 \<le> s \<and> s < 500 | _ \<Rightarrow> False)
         then \<lparr>answer = Inl RuntimeError, requests = Suc attempt, pauses = []\<rparr>
         else let out = post_from server (Suc attempt) left
              in if left = 0 then out else out\<lparr>pauses := min (2 ^ attempt) 30 # pauses out\<rparr>)"

definition post_request :: "(nat \<Rightarrow> http_reply) \<Rightarrow> nat \<Rightarrow> post_out" where
  "post_request server max_retries = post_from server 0 max_retries"

record rm_config =
  custom_reward :: bool
  rm_enabled :: bool
  engine_name :: string
  decode_full :: "vec \<Rightarrow> string"
  rm_chat_template :: "pyobj list \<Rightarrow> string"
  rm_bos :: "string option"

definition py_list :: "pyobj \<Rightarrow> pyobj list result" where
  "py_list x = (case x of
       PList l \<Rightarrow> Inr l
     | PText s \<Rightarrow> Inr (map (\<lambda>c. PText [c]) s)
     | PDict e \<Rightarrow> Inr (map (\<lambda>(k, _). PText k) e)
     | _ \<Rightarrow> Inl TypeError)"

definition preprocess_reward_inputs :: "rm_config \<Rightarrow> reward_tokenizer \<Rightarrow> reward_data \<Rightarrow> string result" where
  "preprocess_reward_inputs cfg tok d =
     ensure (dp_len d = 1) AssertionError
      (case cell_opt d ''raw_prompt'' 0 of
         None \<Rightarrow> Inl AssertionError
       | Some raw \<Rightarrow>
           rbind (py_list raw) (\<lambda>chat.
           rbind (tensor_row d ''responses'' 0) (\<lambda>response_ids.
           rbind (tensor_row d ''attention_mask'' 0) (\<lambda>attention.
             let ids = take (valid_response_len response_ids attention) response_ids
             in rbind (case eos_text tok of None \<Rightarrow> Inl TypeError
                       | Some eos \<Rightarrow> Inr (py_replace eos [] (decode_full cfg ids))) (\<lambda>rollout.
                  let chat' = chat @ [PDict [(''role'', PText ''assistant''), (''content'', PText rollout)]];
                      rm_prompt = rm_chat_template cfg chat'
                  in Inr (case rm_bos cfg of
                        None \<Rightarrow> rm_prompt
                      | Some bos \<Rightarrow> if prefix bos rm_prompt then drop (length bos) rm_prompt else rm_prompt))))))"

definition obj_last :: "pyobj \<Rightarrow> pyobj result" where
  "obj_last x = (case x of
       PList l \<Rightarrow> if l = [] then Inl IndexError else Inr (last l)
     | _ \<Rightarrow> Inl TypeError)"

definition read_rm_score :: "string \<Rightarrow> pyobj option \<Rightarrow> pyobj result" where
  "read_rm_score key reply =
     rbind (obj_get ''data'' (obj_of_option reply)) (\<lambda>dat.
     rbind (obj_last dat) (\<lambda>entry.
     rbind (obj_get key entry) obj_last))"

definition compute_score_disrm ::
  "rm_config \<Rightarrow> reward_tokenizer \<Rightarrow> (string \<Rightarrow> string \<Rightarrow> nat \<Rightarrow> http_reply) \<Rightarrow> reward_data \<Rightarrow> single_out result" where
  "compute_score_disrm cfg tok server d =
     rbind (preprocess_reward_inputs cfg tok d) (\<lambda>prompt.
     rbind (if engine_name cfg = ''vllm'' then
              rbind (answer (post_request (server ''classify'' prompt) 16)) (read_rm_score ''probs'')
            else if engine_name cfg = ''sglang'' then
              rbind (answer (post_request (server ''v1/embeddings'' prompt) 16)) (read_rm_score ''embedding'')
            else if engine_name cfg = ''trtllm'' then Inl ValueError
            else Inl NotImplementedError) (\<lambda>rm_score.
       Inr \<lparr>reward_score = rm_score, reward_extra = None\<rparr>))"

section \<open>A worker\<close>

record loop_worker =
  w_manager :: reward_manager
  w_tokenizer :: reward_tokenizer
  w_score :: timed_score_fn
  w_address :: "string option"
  w_rm :: rm_config
  w_server :: "string \<Rightarrow> string \<Rightarrow> nat \<Rightarrow> http_reply"

definition uses_rm :: "loop_worker \<Rightarrow> bool" where
  "uses_rm w \<longleftrightarrow> \<not> custom_reward (w_rm w) \<and> rm_enabled (w_rm w)"

text \<open>
  \<open>compute_score_batch\<close>: one task per sample. Every task runs to its first suspension before any decoding
  can complete, so all first steps precede all second steps; after that the store does not change, and
  the order of the second steps does not matter. When several tasks fail, the first in the order of the
  rows stands for the one that fails first.
\<close>

fun start_rows ::
  "reward_manager \<Rightarrow> reward_tokenizer \<Rightarrow> reward_data list \<Rightarrow> store \<Rightarrow> (prepared list \<times> store) result" where
  "start_rows mgr tok [] st = Inr ([], st)"
| "start_rows mgr tok (d # ds) st =
     rbind (run_single_start mgr tok d st) (\<lambda>(p, st').
     rbind (start_rows mgr tok ds st') (\<lambda>(ps, st'').
       Inr (p # ps, st'')))"

definition single_rows :: "reward_data \<Rightarrow> reward_data list result" where
  "single_rows d = mapM_result (\<lambda>i. dp_slice (Some (int i)) (Some (int i + 1)) None d) [0..<dp_len d]"

definition compute_score_batch :: "loop_worker \<Rightarrow> reward_data \<Rightarrow> store \<Rightarrow> single_out list result" where
  "compute_score_batch w d st =
     rbind (single_rows d) (\<lambda>rows.
       if uses_rm w
       then mapM_result (compute_score_disrm (w_rm w) (w_tokenizer w) (w_server w)) rows
       else rbind (start_rows (w_manager w) (w_tokenizer w) rows st) (\<lambda>(ps, st').
              mapM_result (\<lambda>p. run_single_finish (w_manager w) (w_tokenizer w) (w_score w) (w_address w) p st') ps))"

section \<open>The manager in the trainer\<close>

definition extra_array :: "pyobj dict list \<Rightarrow> string \<Rightarrow> (string \<times> pyobj list) result" where
  "extra_array infos k =
     rbind (mapM_result (\<lambda>info. case map_of info k of None \<Rightarrow> Inl KeyError | Some v \<Rightarrow> Inr v) infos)
       (\<lambda>col. Inr (k, col))"

definition gather_outputs :: "reward_data \<Rightarrow> single_out list \<Rightarrow> reward_data result" where
  "gather_outputs d outs =
     rbind (batch_valid_lens d) (\<lambda>lens.
     rbind (tensor d ''responses'') (\<lambda>responses.
     rbind (mapM_result (\<lambda>out. as_float (reward_score out)) outs) (\<lambda>scores.
     rbind (ensure (length scores = length lens) RuntimeError
              (mapM_result (\<lambda>(n, r). reward_at (mat_width responses) n r) (zip lens scores))) (\<lambda>rm_scores.
       let infos = map (\<lambda>out. case reward_extra out of None \<Rightarrow> [] | Some e \<Rightarrow> e) outs
       in rbind (py_get infos 0) (\<lambda>first.
          rbind (mapM_result (extra_array infos) (keys first)) (\<lambda>cols.
            Data_Proto.make (Some \<lparr>td_size = dp_len d, td_items = [(''rm_scores'', rm_scores)]\<rparr>) cols
              [(''reward_extra_keys'', ListV (map Atom (keys first)))]))))))"

definition compute_rm_score :: "bool \<Rightarrow> loop_worker list \<Rightarrow> reward_data \<Rightarrow> store \<Rightarrow> reward_data result" where
  "compute_rm_score global_padding workers d st =
     rbind (dp_chunk global_padding (length workers) d) (\<lambda>chunks.
     rbind (mapM_result (\<lambda>(w, c). compute_score_batch w c st) (zip workers chunks)) (\<lambda>outputs.
       gather_outputs d (concat outputs)))"

text \<open>\<open>extract_reward\<close> of \<open>verl/trainer/ppo/reward.py\<close>.\<close>

definition extract_reward :: "reward_data \<Rightarrow> (mat \<times> pyobj list dict) result" where
  "extract_reward d =
     rbind (tensor d ''rm_scores'') (\<lambda>rewards.
     rbind (extra_columns d) (\<lambda>info. Inr (rewards, info)))"

end
