(* ===== verification/Reward_Loop_Properties.thy ===== *)
theory Reward_Loop_Properties
  imports Reward_Loop
begin

text \<open>
  Properties of the reward loop: the rewards do not depend on the number of workers; a reward is the sum of its
  row; samples that share a dictionary \<open>extra_info\<close> overwrite each other's flags; a timeout in one sample
  can fail the batch; the penalty on overlong responses; retries; the class-level limiters.
\<close>

section \<open>One sample\<close>

text \<open>The address a row writes to.\<close>

definition row_address :: "reward_data \<Rightarrow> nat option" where
  "row_address d = (case cell_opt d ''extra_info'' 0 of Some (PRef a) \<Rightarrow> Some a | _ \<Rightarrow> None)"

lemma extra_of_Inr:
  "extra_of d st 0 = Inr (addr, e) \<Longrightarrow>
    addr = row_address d \<and> e = (case row_address d of None \<Rightarrow> [] | Some a \<Rightarrow> st a)"
  by (auto simp: extra_of_def row_address_def split: option.splits pyobj.splits)

lemma extra_of_store:
  assumes "\<And>a. row_address d = Some a \<Longrightarrow> st a = st' a"
  shows "extra_of d st 0 = extra_of d st' 0"
  using assms by (auto simp: extra_of_def row_address_def split: option.splits pyobj.splits)

lemma run_single_start_Inr:
  assumes "run_single_start mgr tok d st = Inr (p, st')"
  shows "prep_addr p = row_address d" and "st' = write_extra (row_address d) (prep_extra p) st"
proof -
  from assms have "prep_addr p = row_address d \<and> st' = write_extra (row_address d) (prep_extra p) st"
    unfolding run_single_start_def ensure_eq_Inr rbind_eq_Inr Let_def
    by (auto dest!: extra_of_Inr simp: rbind_eq_Inr)
  then show "prep_addr p = row_address d" and "st' = write_extra (row_address d) (prep_extra p) st"
    by simp_all
qed

text \<open>What a row prepares depends on the store only at its own address.\<close>

lemma run_single_start_local:
  assumes "\<And>a. row_address d = Some a \<Longrightarrow> st a = st' a"
  shows "map_sum id fst (run_single_start mgr tok d st) = map_sum id fst (run_single_start mgr tok d st')"
proof -
  have eq: "extra_of d st 0 = extra_of d st' 0" using assms by (rule extra_of_store)
  show ?thesis
    unfolding run_single_start_def eq
    by (simp add: rbind_def ensure_def Let_def split: sum.split prod.split)
qed

lemma run_single_start_at:
  assumes "run_single_start mgr tok d st = Inr (p, st1)" and "\<And>a. row_address d = Some a \<Longrightarrow> st a = st' a"
  shows "run_single_start mgr tok d st' = Inr (p, write_extra (row_address d) (prep_extra p) st')"
proof -
  have "map_sum id fst (run_single_start mgr tok d st') = Inr p"
    using run_single_start_local [of d st st' mgr tok] assms by simp
  then obtain st2 where "run_single_start mgr tok d st' = Inr (p, st2)"
    by (cases "run_single_start mgr tok d st'") auto
  then show ?thesis using run_single_start_Inr(2) by blast
qed

section \<open>The samples of a chunk\<close>

text \<open>No two rows hold the same dictionary.\<close>

definition unshared :: "reward_data list \<Rightarrow> bool" where
  "unshared ds \<longleftrightarrow> distinct (List.map_filter row_address ds)"

lemma in_map_filter: "y \<in> set (List.map_filter f xs) \<longleftrightarrow> (\<exists>x \<in> set xs. f x = Some y)"
  by (induction xs) (auto simp: List.map_filter_simps split: option.split)

lemma unshared_Cons:
  "unshared (d # ds) \<longleftrightarrow> unshared ds \<and> (\<forall>a. row_address d = Some a \<longrightarrow> (\<forall>e \<in> set ds. row_address e \<noteq> Some a))"
  by (auto simp: unshared_def List.map_filter_simps in_map_filter split: option.split)

text \<open>The store after the first steps: each row has written its dictionary.\<close>

lemma start_rows_keeps:
  assumes "start_rows mgr tok ds st = Inr (ps, st')" and "\<forall>e \<in> set ds. row_address e \<noteq> Some a"
  shows "st' a = st a"
  using assms
proof (induction ds arbitrary: st ps)
  case (Cons d ds)
  then obtain p st1 qs where 1: "run_single_start mgr tok d st = Inr (p, st1)"
    and 2: "start_rows mgr tok ds st1 = Inr (qs, st')"
    by (auto simp: rbind_eq_Inr)
  have "st' a = st1 a" using Cons.IH [OF 2] Cons.prems(2) by simp
  also have "st1 a = st a"
    using run_single_start_Inr(2) [OF 1] Cons.prems(2) by (auto simp: write_extra_def split: option.split)
  finally show ?case .
qed simp

lemma finish_local:
  assumes "\<And>a. prep_addr p = Some a \<Longrightarrow> st a = st' a"
  shows "run_single_finish mgr tok score address p st = run_single_finish mgr tok score address p st'"
proof -
  have "prep_args mgr tok address p st = prep_args mgr tok address p st'"
    using assms by (simp add: prep_args_def split: option.split)
  then show ?thesis by (simp add: run_single_finish_def)
qed

definition solo_out ::
  "loop_worker \<Rightarrow> store \<Rightarrow> reward_data \<Rightarrow> single_out result" where
  "solo_out w st d =
     (if uses_rm w then compute_score_disrm (w_rm w) (w_tokenizer w) (w_server w) d
      else rbind (run_single (w_manager w) (w_tokenizer w) (w_score w) (w_address w) d st) (\<lambda>(out, _). Inr out))"

lemma map_filter_append: "List.map_filter f (xs @ ys) = List.map_filter f xs @ List.map_filter f ys"
  by (induction xs) (auto simp: List.map_filter_simps split: option.split)

text \<open>
  The first steps of unshared rows in a chunk are those of the rows alone, and the dictionary a row sees in
  its second step is the one it wrote.
\<close>

lemma start_rows_solo:
  assumes "unshared ds" and "\<And>d a. d \<in> set ds \<Longrightarrow> row_address d = Some a \<Longrightarrow> st a = st0 a"
  shows "(\<exists>st'. start_rows mgr tok ds st = Inr (ps, st')) \<longleftrightarrow>
    list_all2 (\<lambda>d p. \<exists>s. run_single_start mgr tok d st0 = Inr (p, s)) ds ps"
  using assms
proof (induction ds arbitrary: st ps)
  case (Cons d ds)
  show ?case
  proof
    assume "\<exists>st'. start_rows mgr tok (d # ds) st = Inr (ps, st')"
    then obtain p st1 qs st' where 1: "run_single_start mgr tok d st = Inr (p, st1)"
      and 2: "start_rows mgr tok ds st1 = Inr (qs, st')" and ps: "ps = p # qs"
      by (auto simp: rbind_eq_Inr)
    have st1: "st1 a = st0 a" if "e \<in> set ds" "row_address e = Some a" for e a
      using that Cons.prems run_single_start_Inr(2) [OF 1]
      by (auto simp: unshared_Cons write_extra_def split: option.split)
    have "list_all2 (\<lambda>d p. \<exists>s. run_single_start mgr tok d st0 = Inr (p, s)) ds qs"
      using Cons.IH [of st1 qs] Cons.prems(1) st1 2 by (auto simp: unshared_Cons)
    moreover have "\<exists>s. run_single_start mgr tok d st0 = Inr (p, s)"
      using run_single_start_at [OF 1, of st0] Cons.prems(2) by auto
    ultimately show "list_all2 (\<lambda>d p. \<exists>s. run_single_start mgr tok d st0 = Inr (p, s)) (d # ds) ps"
      using ps by simp
  next
    assume "list_all2 (\<lambda>d p. \<exists>s. run_single_start mgr tok d st0 = Inr (p, s)) (d # ds) ps"
    then obtain p qs s where ps: "ps = p # qs" and d: "run_single_start mgr tok d st0 = Inr (p, s)"
      and ds: "list_all2 (\<lambda>d p. \<exists>s. run_single_start mgr tok d st0 = Inr (p, s)) ds qs"
      by (auto simp: list_all2_Cons1)
    let ?st1 = "write_extra (row_address d) (prep_extra p) st"
    have 1: "run_single_start mgr tok d st = Inr (p, ?st1)"
      using run_single_start_at [OF d, of st] Cons.prems(2) [of d, symmetric] by simp
    have st1: "?st1 a = st0 a" if "e \<in> set ds" "row_address e = Some a" for e a
      using that Cons.prems by (auto simp: unshared_Cons write_extra_def split: option.split)
    have "\<exists>st'. start_rows mgr tok ds ?st1 = Inr (qs, st')"
      using Cons.IH [of ?st1 qs] Cons.prems(1) st1 ds by (auto simp: unshared_Cons)
    then show "\<exists>st'. start_rows mgr tok (d # ds) st = Inr (ps, st')"
      using 1 ps by auto
  qed
qed auto

lemma start_rows_own:
  assumes "start_rows mgr tok ds st = Inr (ps, st')" and "unshared ds" and "p \<in> set ps" and "prep_addr p = Some a"
  shows "st' a = prep_extra p"
  using assms
proof (induction ds arbitrary: st ps)
  case (Cons d ds)
  then obtain q st1 qs where 1: "run_single_start mgr tok d st = Inr (q, st1)"
    and 2: "start_rows mgr tok ds st1 = Inr (qs, st')" and ps: "ps = q # qs"
    by (auto simp: rbind_eq_Inr)
  show ?case
  proof (cases "p \<in> set qs")
    case True
    then show ?thesis using Cons.IH [OF 2] Cons.prems by (simp add: unshared_Cons)
  next
    case False
    then have p: "p = q" using Cons.prems(3) ps by simp
    then have addr: "row_address d = Some a" using run_single_start_Inr(1) [OF 1] Cons.prems(4) by simp
    then have "st' a = st1 a"
      using start_rows_keeps [OF 2] Cons.prems(2) by (simp add: unshared_Cons)
    then show ?thesis using run_single_start_Inr(2) [OF 1] addr p by (simp add: write_extra_def)
  qed
qed simp

lemma finish_own:
  assumes start: "start_rows mgr tok ds st = Inr (ps, st')" and un: "unshared ds" and p: "p \<in> set ps"
    and d: "run_single_start mgr tok d st = Inr (p, s)"
  shows "run_single_finish mgr tok score address p st' = run_single_finish mgr tok score address p s"
proof (rule finish_local)
  fix a assume a: "prep_addr p = Some a"
  then have "s a = prep_extra p"
    using run_single_start_Inr [OF d] by (simp add: write_extra_def)
  then show "st' a = s a" using start_rows_own [OF start un p a] by simp
qed

lemma batch_rows_solo:
  assumes un: "unshared ds"
  shows "rbind (start_rows mgr tok ds st) (\<lambda>(ps, st').
      mapM_result (\<lambda>p. run_single_finish mgr tok score address p st') ps) = Inr outs \<longleftrightarrow>
    mapM_result (\<lambda>d. rbind (run_single mgr tok score address d st) (\<lambda>(out, _). Inr out)) ds = Inr outs"
    (is "?batch \<longleftrightarrow> ?solo")
proof
  let ?S = "\<lambda>d p. \<exists>s. run_single_start mgr tok d st = Inr (p, s)"
  assume ?batch
  then obtain ps st' where start: "start_rows mgr tok ds st = Inr (ps, st')"
    and fin: "list_all2 (\<lambda>p out. run_single_finish mgr tok score address p st' = Inr out) ps outs"
    by (auto simp: rbind_eq_Inr mapM_result_all2)
  have S: "list_all2 ?S ds ps" using start_rows_solo [OF un, of st st] start by blast
  show ?solo
    unfolding mapM_result_all2 list_all2_conv_all_nth
  proof (intro conjI allI impI)
    show "length ds = length outs" using S fin by (simp add: list_all2_lengthD)
    fix i assume i: "i < length ds"
    then have len: "i < length ps" using S by (simp add: list_all2_lengthD)
    obtain s where s: "run_single_start mgr tok (ds ! i) st = Inr (ps ! i, s)"
      using list_all2_nthD [OF S i] by blast
    have "run_single_finish mgr tok score address (ps ! i) s = Inr (outs ! i)"
      using finish_own [OF start un _ s] list_all2_nthD [OF fin len] len by simp
    then show "rbind (run_single mgr tok score address (ds ! i) st) (\<lambda>(out, _). Inr out) = Inr (outs ! i)"
      by (simp add: run_single_def s)
  qed
next
  let ?S = "\<lambda>d p. \<exists>s. run_single_start mgr tok d st = Inr (p, s)"
  let ?F = "\<lambda>d p out. \<exists>s. run_single_start mgr tok d st = Inr (p, s) \<and> run_single_finish mgr tok score address p s = Inr out"
  assume ?solo
  then have all: "list_all2 (\<lambda>d out. \<exists>p. ?F d p out) ds outs"
    unfolding mapM_result_all2 by (rule list_all2_mono) (auto simp: run_single_def rbind_eq_Inr)
  then have len: "length ds = length outs" by (rule list_all2_lengthD)
  have "\<forall>i. \<exists>p. i < length ds \<longrightarrow> ?F (ds ! i) p (outs ! i)"
    using list_all2_nthD [OF all] by blast
  then obtain f where f: "\<And>i. i < length ds \<Longrightarrow> ?F (ds ! i) (f i) (outs ! i)" by metis
  let ?ps = "map f [0..<length ds]"
  have "list_all2 ?S ds ?ps" using f by (auto simp: list_all2_conv_all_nth)
  then obtain st' where start: "start_rows mgr tok ds st = Inr (?ps, st')"
    using start_rows_solo [OF un, of st st] by blast
  have "list_all2 (\<lambda>p out. run_single_finish mgr tok score address p st' = Inr out) ?ps outs"
    unfolding list_all2_conv_all_nth
  proof (intro conjI allI impI)
    show "length ?ps = length outs" using len by simp
    fix i assume i: "i < length ?ps"
    then obtain s where s: "run_single_start mgr tok (ds ! i) st = Inr (f i, s)"
      and out: "run_single_finish mgr tok score address (f i) s = Inr (outs ! i)"
      using f by auto
    have "f i \<in> set ?ps" using i by simp
    then show "run_single_finish mgr tok score address (?ps ! i) st' = Inr (outs ! i)"
      using finish_own [OF start un _ s] out i by simp
  qed
  then show ?batch using start by (simp add: mapM_result_all2)
qed

section \<open>The whole batch\<close>

definition row_data :: "reward_data \<Rightarrow> nat \<Rightarrow> reward_data" where
  "row_data d i = dp_take [i] d"

lemma single_rows_take:
  assumes wf: "wf_dp d" and rows: "has_rows d" and idx: "set idx \<subseteq> {..<dp_len d}"
  shows "single_rows (dp_take idx d) = Inr (map (row_data d) idx)"
proof -
  let ?e = "dp_take idx d"
  have len: "dp_len ?e = length idx" using rows by (rule dp_len_take)
  have "dp_slice (Some (int i)) (Some (int i + 1)) None ?e = Inr (row_data d (idx ! i))" if "i < length idx" for i
  proof -
    have "int i + 1 = int (Suc i)" by simp
    then have "slice_indices (length idx) (Some (int i)) (Some (int i + 1)) 1 = [i]"
      using that unfolding slice_indices_def \<open>int i + 1 = int (Suc i)\<close> slice_bound_nat Let_def by simp
    then show ?thesis
      using slice_take [OF wf_take [OF wf], of "Some (int i)" "Some (int i + 1)" idx] len that
      by (simp add: row_data_def take_take)
  qed
  then have "single_rows ?e = Inr (map (\<lambda>i. row_data d (idx ! i)) [0..<length idx])"
    unfolding single_rows_def len by (intro mapM_result_Inr) simp
  also have "map (\<lambda>i. row_data d (idx ! i)) [0..<length idx] = map (row_data d) idx"
    by (intro nth_equalityI) simp_all
  finally show ?thesis .
qed

lemma unshared_sub:
  assumes "unshared (map (row_data d) (concat iss))" and "is \<in> set iss"
  shows "unshared (map (row_data d) is)"
proof -
  obtain us vs where "iss = us @ is # vs" using assms(2) by (meson split_list)
  then show ?thesis using assms(1) by (simp add: unshared_def map_filter_append)
qed

lemma batch_solo:
  assumes wf: "wf_dp d" and rows: "has_rows d" and idx: "set idx \<subseteq> {..<dp_len d}"
    and un: "unshared (map (row_data d) idx)"
  shows "compute_score_batch w (dp_take idx d) st = Inr outs \<longleftrightarrow>
    mapM_result (solo_out w st) (map (row_data d) idx) = Inr outs"
proof (cases "uses_rm w")
  case True
  then show ?thesis
    by (simp add: compute_score_batch_def single_rows_take [OF wf rows idx] solo_out_def [abs_def])
next
  case False
  then show ?thesis
    using batch_rows_solo [OF un, of "w_manager w" "w_tokenizer w" st "w_score w" "w_address w" outs]
    by (simp add: compute_score_batch_def single_rows_take [OF wf rows idx] solo_out_def [abs_def])
qed

lemma zip_replicate_map: "zip (replicate (length xs) w) xs = map (\<lambda>x. (w, x)) xs"
  by (induction xs) simp_all

text \<open>
  C7: The rewards of a batch do not depend on how many workers of the reward loop score it, nor on the
  concurrency within a worker: \<open>compute_rm_score\<close> returns exactly what scoring every sample alone and
  placing the scores returns, when no two samples share their dictionary \<open>extra_info\<close>.
\<close>

theorem reward_loop_workers:
  assumes wf: "wf_dp d" and n: "0 < n" "n dvd dp_len d" and ne: "0 < dp_len d"
    and un: "unshared (map (row_data d) [0..<dp_len d])"
  shows "compute_rm_score global_padding (replicate n w) d st = Inr r \<longleftrightarrow>
    rbind (mapM_result (solo_out w st) (map (row_data d) [0..<dp_len d])) (gather_outputs d) = Inr r"
proof -
  let ?iss = "py_chunks (dp_len d div n) [0..<dp_len d]"
  have rows: "has_rows d" using ne no_rows_len by fastforce
  note iss = chunks_exact [OF n ne]
  have sub: "set is \<subseteq> {..<dp_len d}" if "is \<in> set ?iss" for "is"
    using that iss(3) by (metis UN_upper atLeast0LessThan atLeast_upt set_concat)
  have un': "unshared (map (row_data d) is)" if "is \<in> set ?iss" for "is"
    using unshared_sub [of d ?iss "is"] un that iss(3) by simp
  have each: "compute_score_batch w (dp_take is d) st = Inr outs \<longleftrightarrow>
      mapM_result (solo_out w st) (map (row_data d) is) = Inr outs" if "is \<in> set ?iss" for "is" outs
    using batch_solo [OF wf rows sub [OF that] un' [OF that]] .
  have "mapM_result (\<lambda>(v, c). compute_score_batch v c st) (zip (replicate n w) (map (\<lambda>is. dp_take is d) ?iss)) = Inr yss
      \<longleftrightarrow> mapM_result (mapM_result (solo_out w st)) (map (map (row_data d)) ?iss) = Inr yss" for yss
  proof -
    have "zip (replicate n w) (map (\<lambda>is. dp_take is d) ?iss) = map (\<lambda>is. (w, dp_take is d)) ?iss"
      using zip_replicate_map [of "map (\<lambda>is. dp_take is d) ?iss" w] iss(1) by (simp add: comp_def)
    moreover have "list_all2 (\<lambda>is outs. compute_score_batch w (dp_take is d) st = Inr outs) ?iss yss \<longleftrightarrow>
        list_all2 (\<lambda>is outs. mapM_result (solo_out w st) (map (row_data d) is) = Inr outs) ?iss yss"
      unfolding list_all2_conv_all_nth using each [OF nth_mem] by auto
    ultimately show ?thesis
      unfolding mapM_result_all2 [of _ "zip _ _"] mapM_result_all2 [of _ "map (map (row_data d)) _"]
      by (simp add: list_all2_map1)
  qed
  then have "compute_rm_score global_padding (replicate n w) d st = Inr r \<longleftrightarrow>
      (\<exists>yss. mapM_result (mapM_result (solo_out w st)) (map (map (row_data d)) ?iss) = Inr yss \<and>
        gather_outputs d (concat yss) = Inr r)"
    using chunk_take [OF wf n ne] by (simp add: compute_rm_score_def rbind_eq_Inr)
  also have "\<dots> \<longleftrightarrow> rbind (mapM_result (solo_out w st) (concat (map (map (row_data d)) ?iss))) (gather_outputs d) = Inr r"
    unfolding mapM_result_concat by (auto simp: rbind_eq_Inr)
  also have "concat (map (map (row_data d)) ?iss) = map (row_data d) [0..<dp_len d]"
    using iss(3) by (simp add: map_concat [symmetric])
  finally show ?thesis .
qed

section \<open>Placing the rewards\<close>

lemma place_reward_valid:
  assumes "0 < valid" and "valid \<le> width"
  shows "reward_at width valid r = Inr ((replicate width 0)[valid - 1 := r])"
  using assms by (simp add: reward_at_def py_index_def nat_diff_distrib)

text \<open>A response without a valid token has its reward on the last column.\<close>

lemma place_reward_empty:
  assumes "0 < width"
  shows "reward_at width 0 r = Inr ((replicate width 0)[width - 1 := r])"
  using assms by (simp add: reward_at_def py_index_def nat_diff_distrib)

lemma place_reward_sum:
  assumes "reward_at width valid r = Inr row"
  shows "sum_list row = r"
proof -
  obtain j where j: "py_index width (int valid - 1) = Inr j" and row: "row = (replicate width 0)[j := r]"
    using assms by (auto simp: reward_at_def rbind_eq_Inr)
  have "j < width" using j by (auto simp: py_index_def split: if_splits)
  then show ?thesis using row by (simp add: sum_list_replace sum_list_replicate)
qed

lemma gather_outputs_rows:
  assumes "gather_outputs d outs = Inr r" and "batch_valid_lens d = Inr lens" and "tensor d ''responses'' = Inr responses"
  shows "\<exists>m. tensor r ''rm_scores'' = Inr m \<and> length m = length outs \<and>
    (\<forall>i < length outs. \<exists>s. as_float (reward_score (outs ! i)) = Inr s \<and>
       reward_at (mat_width responses) (lens ! i) s = Inr (m ! i))"
proof -
  obtain scores rm_scores cols where
    scores: "mapM_result (\<lambda>out. as_float (reward_score out)) outs = Inr scores" and
    len: "length scores = length lens" and
    rm: "mapM_result (\<lambda>(n, s). reward_at (mat_width responses) n s) (zip lens scores) = Inr rm_scores" and
    mk: "\<exists>ks. Data_Proto.make (Some \<lparr>td_size = dp_len d, td_items = [(''rm_scores'', rm_scores)]\<rparr>) cols ks = Inr r"
    using assms by (auto simp: gather_outputs_def rbind_eq_Inr ensure_eq_Inr Let_def)
  have t: "tensor r ''rm_scores'' = Inr rm_scores"
    using mk by (auto simp: make_eq_Inr tensor_def)
  have l: "length scores = length outs" "length rm_scores = length lens"
    using mapM_result_length [OF scores] mapM_result_length [OF rm] len by simp_all
  have "as_float (reward_score (outs ! i)) = Inr (scores ! i) \<and>
      reward_at (mat_width responses) (lens ! i) (scores ! i) = Inr (rm_scores ! i)" if "i < length outs" for i
    using mapM_result_nth [OF scores that] mapM_result_nth [OF rm, of i] l len that by simp
  then show ?thesis using t l len by auto
qed

text \<open>
  The reward tensor the trainer gets carries each sample's score on the last valid token of its
  response and zeros elsewhere, so the sum of a row, which the advantage estimators and the metrics read as the
  reward of the sample, is the score.
\<close>

theorem reward_on_last_token:
  assumes "gather_outputs d outs = Inr r" and "i < length outs"
    and "batch_valid_lens d = Inr lens" and "tensor d ''responses'' = Inr responses"
    and "0 < lens ! i" and "lens ! i \<le> mat_width responses"
  shows "\<exists>m s. tensor r ''rm_scores'' = Inr m \<and> as_float (reward_score (outs ! i)) = Inr s \<and>
    m ! i = (replicate (mat_width responses) 0)[lens ! i - 1 := s] \<and> sum_list (m ! i) = s"
proof -
  obtain m s where "tensor r ''rm_scores'' = Inr m" and s: "as_float (reward_score (outs ! i)) = Inr s"
    and p: "reward_at (mat_width responses) (lens ! i) s = Inr (m ! i)"
    using gather_outputs_rows [OF assms(1,3,4)] assms(2) by blast
  then show ?thesis
    using place_reward_valid [OF assms(5,6), of s] place_reward_sum [OF p] by auto
qed

section \<open>Timeouts\<close>

lemma extra_array_missing:
  assumes "info \<in> set infos" and "map_of info k = None"
  shows "extra_array infos k = Inl KeyError"
proof -
  let ?f = "\<lambda>info. case map_of info k of None \<Rightarrow> Inl KeyError | Some v \<Rightarrow> Inr v"
  have "mapM_result ?f infos = Inl KeyError"
    by (rule mapM_result_raises [OF assms(1)]) (use assms(2) in \<open>auto split: option.splits\<close>)
  then show ?thesis by (simp add: extra_array_def)
qed

lemma guarded_scores:
  assumes "\<And>r. Some (Inr r) \<in> set replies \<Longrightarrow> \<exists>v s. score_of r = Inr v \<and> as_float v = Inr s"
  shows "\<exists>scores. mapM_result (\<lambda>out. as_float (reward_score out)) (map (guarded_out message) replies) = Inr scores"
  using assms
proof (induction replies)
  case (Cons reply replies)
  have "\<exists>s. as_float (reward_score (guarded_out message reply)) = Inr s"
  proof (cases reply)
    case None
    then show ?thesis by (simp add: guarded_out_def as_float_def)
  next
    case (Some r)
    show ?thesis
    proof (cases r)
      case (Inl e)
      then show ?thesis using Some by (simp add: guarded_out_def as_float_def)
    next
      case (Inr out)
      then obtain v s where "score_of out = Inr v" "as_float v = Inr s"
        using Cons.prems [of out] Some by auto
      then show ?thesis using Some Inr by (simp add: guarded_out_def plain_out_def)
    qed
  qed
  moreover obtain scores where
    "mapM_result (\<lambda>out. as_float (reward_score out)) (map (guarded_out message) replies) = Inr scores"
    using Cons by auto
  ultimately show ?case by auto
qed simp

lemma keys_fold_update:
  "set (keys (fold (\<lambda>(k, v). AList.update k v) e d)) = set (keys e) \<union> set (keys d)"
proof (induction e arbitrary: d)
  case (Cons x e)
  obtain k v where x: "x = (k, v)" by (cases x)
  have "set (keys (AList.update k v d)) = insert k (set (keys d))"
    by (simp add: keys_def dom_update)
  then show ?case using Cons.IH [of "AList.update k v d"] x by simp
qed simp

lemma plain_out_keys:
  assumes "plain_out out = Inr r" and "reward_extra r = Some e"
  shows "set (keys e) = set (keys (extra_entries out))"
proof -
  have "e = obj_update [] (extra_entries out)"
    using assms by (auto simp: plain_out_def rbind_eq_Inr)
  then show ?thesis by (simp add: obj_update_def keys_fold_update)
qed

text \<open>
  C9: Under the rate limited manager one timeout can cost the rewards of the whole batch. The keys of the
  extra information are those of the first sample; when the first sample times out and any other one is
  answered, without a key named \<open>timeout\<close> in its answer, collecting the outputs raises a
  \<open>KeyError\<close>, although every sample has a numeric score.
\<close>

theorem first_timeout_fails_batch:
  assumes lens: "batch_valid_lens d = Inr lens" and resp: "tensor d ''responses'' = Inr responses"
    and n: "length replies = length lens" and w: "list_all (\<lambda>n. 0 < n \<and> n \<le> mat_width responses) lens"
    and num: "\<And>r. Some (Inr r) \<in> set replies \<Longrightarrow> \<exists>v s. score_of r = Inr v \<and> as_float v = Inr s"
    and first: "0 < length replies" "replies ! 0 = None"
    and other: "j < length replies" "replies ! j = Some (Inr out)" "''timeout'' \<notin> set (keys (extra_entries out))"
  shows "gather_outputs d (map (guarded_out message) replies) = Inl KeyError"
proof -
  let ?outs = "map (guarded_out message) replies"
  let ?infos = "map (\<lambda>out. case reward_extra out of None \<Rightarrow> [] | Some e \<Rightarrow> e) ?outs"
  obtain scores where scores: "mapM_result (\<lambda>out. as_float (reward_score out)) ?outs = Inr scores"
    using guarded_scores [OF num] by blast
  have len: "length scores = length lens" using mapM_result_length [OF scores] n by simp
  have "mapM_result (\<lambda>(n, s). reward_at (mat_width responses) n s) (zip lens scores) =
      Inr (map (\<lambda>(n, s). (replicate (mat_width responses) 0)[n - 1 := s]) (zip lens scores))"
  proof (rule mapM_result_Inr)
    fix x assume "x \<in> set (zip lens scores)"
    then have "fst x \<in> set lens" by (metis in_set_zipE prod.collapse)
    then have "0 < fst x" "fst x \<le> mat_width responses" using w by (auto simp: list_all_iff)
    then show "(\<lambda>(n, s). reward_at (mat_width responses) n s) x =
        Inr ((\<lambda>(n, s). (replicate (mat_width responses) 0)[n - 1 := s]) x)"
      using place_reward_valid by (simp add: case_prod_beta)
  qed
  then have "\<exists>m. mapM_result (\<lambda>(n, s). reward_at (mat_width responses) n s) (zip lens scores) = Inr m" ..
  then obtain m where m: "mapM_result (\<lambda>(n, s). reward_at (mat_width responses) n s) (zip lens scores) = Inr m" ..
  have info0: "?infos ! 0 = [(''timeout'', PBool True), (''acc'', PNum 0)]"
    using first by (simp add: guarded_out_def)
  obtain v s where sc: "score_of out = Inr v" using num [of out] other by (metis nth_mem)
  then obtain e where e: "plain_out out = Inr \<lparr>reward_score = v, reward_extra = Some e\<rparr>"
    by (simp add: plain_out_def)
  have infoj: "?infos ! j = e" using other e by (simp add: guarded_out_def)
  have "''timeout'' \<notin> set (keys e)" using plain_out_keys [OF e] other(3) by simp
  then have "map_of (?infos ! j) ''timeout'' = None" using infoj by (simp add: map_of_new)
  moreover have "?infos ! j \<in> set ?infos" using other(1) by (intro nth_mem) simp
  ultimately have "extra_array ?infos ''timeout'' = Inl KeyError" by (rule extra_array_missing [rotated])
  then show ?thesis
    using scores len m info0 first(1)
    by (simp add: gather_outputs_def lens resp ensure_def Let_def py_get_def nth_map)
qed

section \<open>Samples that share a dictionary\<close>

lemma start_rows_append:
  "start_rows mgr tok (ds @ es) st = rbind (start_rows mgr tok ds st) (\<lambda>(ps, st1).
     rbind (start_rows mgr tok es st1) (\<lambda>(qs, st2). Inr (ps @ qs, st2)))"
proof (induction ds arbitrary: st)
  case Nil
  then show ?case by (cases "start_rows mgr tok es st") auto
next
  case (Cons d ds)
  show ?case
  proof (cases "run_single_start mgr tok d st")
    case (Inr r)
    then obtain p st1 where r: "run_single_start mgr tok d st = Inr (p, st1)" by (cases r) simp
    then show ?thesis
    proof (cases "start_rows mgr tok ds st1")
      case (Inr q)
      then obtain ps st2 where "start_rows mgr tok ds st1 = Inr (ps, st2)" by (cases q) simp
      then show ?thesis using r by (cases "start_rows mgr tok es st2") (auto simp: Cons.IH)
    qed (simp add: r Cons.IH)
  qed simp
qed

lemma start_rows_length: "start_rows mgr tok ds st = Inr (ps, st') \<Longrightarrow> length ps = length ds"
  by (induction ds arbitrary: st ps) (auto simp: rbind_eq_Inr)

lemma start_rows_address:
  "start_rows mgr tok ds st = Inr (ps, st') \<Longrightarrow> i < length ds \<Longrightarrow> prep_addr (ps ! i) = row_address (ds ! i)"
proof (induction ds arbitrary: st ps i)
  case (Cons d ds)
  then obtain p st1 qs where "run_single_start mgr tok d st = Inr (p, st1)"
    and "start_rows mgr tok ds st1 = Inr (qs, st')" and "ps = p # qs"
    by (auto simp: rbind_eq_Inr)
  then show ?case using Cons run_single_start_Inr(1) by (cases i) auto
qed simp

lemma prep_extra_truncated:
  assumes "run_single_start mgr tok d st = Inr (p, st')"
  shows "map_of (prep_extra p) ''truncated'' = Some (PBool (truncated_flag tok (prep_ids p)))"
proof -
  from assms obtain e ids where "prep_extra p = AList.update ''truncated'' (PBool (truncated_flag tok ids)) e"
    and "prep_ids p = ids"
    unfolding run_single_start_def ensure_eq_Inr rbind_eq_Inr Let_def by (auto simp: rbind_eq_Inr)
  then show ?thesis by (simp add: update_conv')
qed

text \<open>
  C8: Samples of one chunk that hold the same \<open>extra_info\<close> dictionary, as the repeated samples of one
  prompt do, are all scored with the flag \<open>truncated\<close> of the last of them: every task has written its flag
  into the shared dictionary before the first scoring function is called.
\<close>

theorem shared_extra_info_last_flag:
  assumes start: "start_rows mgr tok ds st = Inr (ps, st')"
    and i: "i < length ds" "row_address (ds ! i) = Some a"
    and j: "j < length ds" "row_address (ds ! j) = Some a" "list_all (\<lambda>d. row_address d \<noteq> Some a) (drop (Suc j) ds)"
  shows "map_of (extra_info (prep_args mgr tok address (ps ! i) st')) ''truncated'' =
    Some (PBool (truncated_flag tok (prep_ids (ps ! j))))"
proof -
  have ds: "ds = take j ds @ ds ! j # drop (Suc j) ds" using j(1) by (rule id_take_nth_drop)
  obtain us st1 p st2 vs where 1: "start_rows mgr tok (take j ds) st = Inr (us, st1)"
    and 2: "run_single_start mgr tok (ds ! j) st1 = Inr (p, st2)"
    and 3: "start_rows mgr tok (drop (Suc j) ds) st2 = Inr (vs, st')" and ps: "ps = us @ p # vs"
    using start by (subst (asm) ds) (auto simp: start_rows_append rbind_eq_Inr)
  have us: "length us = j" using start_rows_length [OF 1] j(1) by simp
  have pj: "ps ! j = p" unfolding ps us [symmetric] by (rule nth_append_length)
  have "st' a = st2 a" using start_rows_keeps [OF 3] j(3) by (simp add: list_all_iff)
  also have "st2 a = prep_extra p" using run_single_start_Inr(2) [OF 2] j(2) by (simp add: write_extra_def)
  finally have "st' a = prep_extra (ps ! j)" using pj by simp
  moreover have "prep_addr (ps ! i) = Some a" using start_rows_address [OF start i(1)] i(2) by simp
  ultimately show ?thesis
    using prep_extra_truncated [OF 2] pj by (simp add: prep_args_def Let_def)
qed

section \<open>The penalty on overlong responses\<close>

text \<open>
  The overlong penalty of both DAPO managers, for a configuration their constructors accept and responses up to
  the maximal length, is zero up to the expected length (the maximum minus the buffer), falls linearly inside the
  buffer and reaches the penalty factor at the maximal length.
\<close>

theorem overlong_penalty_closed_form:
  assumes "dapo_init (Some c) (Some m) = Inr ()" and "penalty_enabled c" and "0 \<le> penalty_factor c"
  shows "overlong_reward c m valid =
    - penalty_factor c * real (valid - (m - buffer_len c)) / real (buffer_len c)"
proof -
  have b: "buffer_len c \<le> m" "0 < buffer_len c"
    using assms(1,2) by (auto simp: dapo_init_def ensure_eq_Inr)
  have e: "real m - real (buffer_len c) = real (m - buffer_len c)" using b by simp
  let ?e = "m - buffer_len c" and ?L = "real (buffer_len c)" and ?f = "penalty_factor c"
  have L: "0 < ?L" using b by simp
  show ?thesis
  proof (cases "valid \<le> ?e")
    case True
    have "0 \<le> - (real valid - real ?e) / ?L * ?f"
      using True L assms(3) by (intro mult_nonneg_nonneg divide_nonneg_pos) simp_all
    then have "overlong_reward c m valid = 0"
      unfolding overlong_reward_def Let_def e by (rule min.absorb2)
    then show ?thesis using True by simp
  next
    case False
    have "- (real valid - real ?e) / ?L * ?f \<le> 0"
      using False L assms(3) by (intro mult_nonpos_nonneg divide_nonpos_pos) simp_all
    moreover have "real (valid - ?e) = real valid - real ?e" using False by simp
    ultimately have "overlong_reward c m valid = - (real (valid - ?e)) / ?L * ?f"
      unfolding overlong_reward_def Let_def e by (simp only: min.absorb1)
    then show ?thesis by (simp add: mult.commute)
  qed
qed

section \<open>Retries\<close>

text \<open>A reply that ends the call: an answer, or a client error.\<close>

definition decisive :: "http_reply \<Rightarrow> bool" where
  "decisive reply \<longleftrightarrow> (case reply of Json _ \<Rightarrow> True | Http_Error s \<Rightarrow> 400 \<le> s \<and> s < 500 | Connection_Failure \<Rightarrow> False)"

lemma post_from_step:
  assumes "\<not> decisive (server attempt)"
  shows "post_from server attempt (Suc left) =
    (let out = post_from server (Suc attempt) left
     in if left = 0 then out else out\<lparr>pauses := min (2 ^ attempt) 30 # pauses out\<rparr>)"
  using assms by (auto simp: decisive_def Let_def split: http_reply.splits)

lemma post_from_decisive:
  assumes "attempt \<le> k" and "k < attempt + left" and "decisive (server k)"
    and "\<And>i. attempt \<le> i \<Longrightarrow> i < k \<Longrightarrow> \<not> decisive (server i)"
  shows "post_from server attempt left =
    \<lparr>answer = (case server k of Json v \<Rightarrow> Inr (Some v) | _ \<Rightarrow> Inl RuntimeError), requests = Suc k,
     pauses = map (\<lambda>i. min (2 ^ i) 30) [attempt..<k]\<rparr>"
  using assms
proof (induction left arbitrary: attempt)
  case (Suc left)
  show ?case
  proof (cases "attempt = k")
    case True
    then show ?thesis using Suc.prems(3) by (auto simp: decisive_def split: http_reply.splits)
  next
    case False
    then have lt: "attempt < k" using Suc.prems(1) by simp
    then have left: "left \<noteq> 0" using Suc.prems(2) by simp
    have "post_from server (Suc attempt) left =
        \<lparr>answer = (case server k of Json v \<Rightarrow> Inr (Some v) | _ \<Rightarrow> Inl RuntimeError), requests = Suc k,
         pauses = map (\<lambda>i. min (2 ^ i) 30) [Suc attempt..<k]\<rparr>"
      using Suc.prems lt by (intro Suc.IH) auto
    then show ?thesis
      using post_from_step [of server attempt left] Suc.prems(4) [of attempt] lt left
      by (simp del: post_from.simps add: upt_conv_Cons Let_def)
  qed
qed simp

lemma post_from_none:
  assumes "\<And>i. attempt \<le> i \<Longrightarrow> i < attempt + Suc left \<Longrightarrow> \<not> decisive (server i)"
  shows "post_from server attempt (Suc left) =
    \<lparr>answer = Inl RuntimeError, requests = attempt + Suc left,
     pauses = map (\<lambda>i. min (2 ^ i) 30) [attempt..<attempt + left]\<rparr>"
  using assms
proof (induction left arbitrary: attempt)
  case 0
  then show ?case using post_from_step [of server attempt 0] by (simp del: post_from.simps(2) add: Let_def)
next
  case (Suc left)
  have "post_from server (Suc attempt) (Suc left) =
      \<lparr>answer = Inl RuntimeError, requests = Suc attempt + Suc left,
       pauses = map (\<lambda>i. min (2 ^ i) 30) [Suc attempt..<Suc attempt + left]\<rparr>"
    using Suc.prems by (intro Suc.IH) auto
  then show ?case
    using post_from_step [of server attempt "Suc left"] Suc.prems [of attempt]
    by (simp del: post_from.simps upt_Suc add: upt_conv_Cons Let_def)
qed

text \<open>
  A request to the reward model returns the first answer, or raises on the first client error, when one comes
  within the allowed attempts: it sends no request after it and has paused one, two, four, eight, sixteen
  and then thirty seconds between the attempts before it.
\<close>

theorem post_request_first_decisive:
  assumes "k < max_retries" and "decisive (server k)" and "list_all (\<lambda>i. \<not> decisive (server i)) [0..<k]"
  shows "post_request server max_retries =
    \<lparr>answer = (case server k of Json v \<Rightarrow> Inr (Some v) | _ \<Rightarrow> Inl RuntimeError), requests = Suc k,
     pauses = map (\<lambda>i. min (2 ^ i) 30) [0..<k]\<rparr>"
  using post_from_decisive [of 0 k max_retries server] assms by (simp add: post_request_def list_all_iff)

lemma post_request_gives_up:
  assumes "\<And>i. i < Suc n \<Longrightarrow> \<not> decisive (server i)"
  shows "post_request server (Suc n) =
    \<lparr>answer = Inl RuntimeError, requests = Suc n, pauses = map (\<lambda>i. min (2 ^ i) 30) [0..<n]\<rparr>"
  using post_from_none [of 0 n server] assms by (simp add: post_request_def)

section \<open>The class-level limiters\<close>

text \<open>
  The first configuration decides for all managers of the process: the state is the one of the first call,
  whatever configurations follow.
\<close>

lemma init_class_first:
  "fold (\<lambda>cfg cls. Some (fst (init_class cfg cls))) cfgs (Some (fst (init_class cfg0 None))) =
    Some (fst (init_class cfg0 None))"
  by (induction cfgs) (simp_all add: init_class_def)

text \<open>A limit of zero requests per minute does not block: the first request divides by zero.\<close>

lemma zero_rpm_raises:
  assumes "cfg_max_rpm cfg = Some 0"
  shows "map_option fst (pass_limiters delay1 delay2 now (fst (init_class cfg None))) = Some (Inl ZeroDivisionError)"
  using assms
  by (simp add: pass_limiters_def pass_limiter_def init_class_def per_minute_def new_bucket_def Let_def
      acquire_loop.simps acquire_pass_def acquire_oversized_def refilled_def)

section \<open>A concrete batch\<close>

text \<open>
  Two samples with a prompt of one token and responses of two and one valid tokens; token 2 ends a sequence,
  so the second response counts as truncated. The score is the number of letters of the decoded response,
  and one less when it was truncated.
\<close>

definition demo_tokenizer :: reward_tokenizer where
  "demo_tokenizer = \<lparr>decode_ids = (\<lambda>ids. map (\<lambda>_. CHR ''x'') ids), eos_text = Some ''</s>'', eos_id = 2\<rparr>"

definition demo_rewards :: "nat \<Rightarrow> nat \<Rightarrow> reward_data" where
  "demo_rewards a b =
     \<lparr>batch = Some \<lparr>td_size = 2, td_items =
        [(''prompts'', [[1], [1]]), (''responses'', [[5, 2], [6, 0]]), (''attention_mask'', [[1, 1, 1], [1, 1, 0]])]\<rparr>,
      non_tensor = [(''data_source'', [PText ''math'', PText ''math'']),
        (''reward_model'', [PDict [(''ground_truth'', PText ''a''), (''scoring_module'', PText ''m'')],
                            PDict [(''ground_truth'', PText ''b''), (''scoring_module'', PText ''m'')]]),
        (''extra_info'', [PRef a, PRef b])],
      meta = []\<rparr>"

definition demo_score :: timed_score_fn where
  "demo_score args = Some (Inr (ScoreValue (PNum
     (real (length (solution_str args)) -
      (if map_of (extra_info args) ''truncated'' = Some (PBool True) then 1 else 0)))))"

definition demo_rm :: rm_config where
  "demo_rm = \<lparr>custom_reward = False, rm_enabled = False, engine_name = ''vllm'', decode_full = (\<lambda>_. []),
     rm_chat_template = (\<lambda>_. []), rm_bos = None\<rparr>"

definition demo_loop_worker :: "reward_manager \<Rightarrow> loop_worker" where
  "demo_loop_worker mgr = \<lparr>w_manager = mgr, w_tokenizer = demo_tokenizer, w_score = demo_score, w_address = None,
     w_rm = demo_rm, w_server = (\<lambda>_ _ _. Connection_Failure)\<rparr>"

definition demo_solo :: "single_out list" where
  "demo_solo = [\<lparr>reward_score = PNum 2, reward_extra = Some [(''acc'', PNum 2)]\<rparr>,
     \<lparr>reward_score = PNum 0, reward_extra = Some [(''acc'', PNum 0)]\<rparr>]"

lemma demo_rows:
  "row_data (demo_rewards a b) 0 =
     \<lparr>batch = Some \<lparr>td_size = 1, td_items =
        [(''prompts'', [[1]]), (''responses'', [[5, 2]]), (''attention_mask'', [[1, 1, 1]])]\<rparr>,
      non_tensor = [(''data_source'', [PText ''math'']),
        (''reward_model'', [PDict [(''ground_truth'', PText ''a''), (''scoring_module'', PText ''m'')]]),
        (''extra_info'', [PRef a])], meta = []\<rparr>"
  "row_data (demo_rewards a b) 1 =
     \<lparr>batch = Some \<lparr>td_size = 1, td_items =
        [(''prompts'', [[1]]), (''responses'', [[6, 0]]), (''attention_mask'', [[1, 1, 0]])]\<rparr>,
      non_tensor = [(''data_source'', [PText ''math'']),
        (''reward_model'', [PDict [(''ground_truth'', PText ''b''), (''scoring_module'', PText ''m'')]]),
        (''extra_info'', [PRef b])], meta = []\<rparr>"
  by (simp_all add: row_data_def demo_rewards_def dp_take_def td_take_def take_rows_def)

lemmas demo_simps = demo_tokenizer_def demo_score_def demo_rm_def demo_loop_worker_def
  solo_out_def uses_rm_def run_single_def run_single_start_def run_single_finish_def dp_len_def tensor_row_def
  tensor_def valid_response_len_def mask_len_def py_last_def cell_def cell_opt_def obj_get_def manager_module_def
  extra_of_def manager_extra_def add_tool_fields_def add_turns_def truncated_flag_def write_extra_def prep_args_def
  guarded_out_def plain_out_def score_of_def extra_entries_def obj_update_def

lemma demo_len [simp]: "dp_len (demo_rewards a b) = 2"
  by (simp add: demo_rewards_def dp_len_def)

lemma demo_wf: "wf_dp (demo_rewards a b)"
  by (rule wf_dpI) (auto simp: demo_rewards_def dp_len_def)

lemma demo_lens:
  "batch_valid_lens (demo_rewards a b) = Inr [2, 1]"
  "tensor (demo_rewards a b) ''responses'' = Inr [[5, 2], [6, 0]]"
  by (simp_all add: batch_valid_lens_def demo_rewards_def tensor_def mask_len_def mat_width_def)

lemma demo_solo_rows:
  "mapM_result (solo_out (demo_loop_worker (Rate_Limited (\<lambda>_. []))) (\<lambda>_. []))
     (map (row_data (demo_rewards 0 1)) [0..<2]) = Inr demo_solo"
  unfolding demo_solo_def by (simp add: upt_rec numeral_eq_Suc demo_rows [simplified] demo_simps Let_def)

definition demo_gathered :: reward_data where
  "demo_gathered =
     \<lparr>batch = Some \<lparr>td_size = 2, td_items = [(''rm_scores'', [[0, 2], [0, 0]])]\<rparr>,
      non_tensor = [(''acc'', [PNum 2, PNum 0])], meta = [(''reward_extra_keys'', ListV [Atom ''acc''])]\<rparr>"

lemma demo_gather: "gather_outputs (demo_rewards a b) demo_solo = Inr demo_gathered"
  by (simp add: gather_outputs_def demo_lens demo_solo_def as_float_def mat_width_def reward_at_def py_index_def
      extra_array_def Data_Proto.make_def check_consistency_def demo_gathered_def py_get_def Let_def)

lemma reward_loop_workers_witness:
  "compute_rm_score False (replicate 2 (demo_loop_worker (Rate_Limited (\<lambda>_. [])))) (demo_rewards 0 1) (\<lambda>_. []) =
    Inr demo_gathered"
proof -
  have "unshared (map (row_data (demo_rewards 0 1)) [0..<2])"
    by (simp add: upt_rec numeral_eq_Suc demo_rows [simplified] unshared_def List.map_filter_simps
        row_address_def cell_opt_def)
  then show ?thesis
    using reward_loop_workers [OF demo_wf, of 2 0 1 False "demo_loop_worker (Rate_Limited (\<lambda>_. []))" "\<lambda>_. []"
        demo_gathered] demo_solo_rows demo_gather
    by simp
qed

lemma reward_on_last_token_witness:
  "\<exists>m s. tensor demo_gathered ''rm_scores'' = Inr m \<and> as_float (PNum 2) = Inr s \<and>
    m ! 0 = (replicate 2 0)[1 := s] \<and> sum_list (m ! 0) = s"
  using reward_on_last_token [OF demo_gather _ demo_lens, of 0]
  by (simp add: demo_solo_def mat_width_def numeral_2_eq_2)

lemma first_timeout_fails_batch_witness:
  "gather_outputs (demo_rewards 0 1) (map (guarded_out (\<lambda>_. [])) [None, Some (Inr (ScoreValue (PNum 1)))]) =
    Inl KeyError"
  by (rule first_timeout_fails_batch [of _ "[2, 1]" "[[5, 2], [6, 0]]" _ 1 "ScoreValue (PNum 1)"])
    (auto simp: demo_lens mat_width_def score_of_def as_float_def extra_entries_def)

text \<open>With one dictionary for both samples the first one is scored as truncated too.\<close>

lemma shared_extra_info_last_flag_witness:
  "\<exists>ps st'. start_rows (Dapo None None) demo_tokenizer (map (row_data (demo_rewards 7 7)) [0, 1]) (\<lambda>_. []) = Inr (ps, st') \<and>
    truncated_flag demo_tokenizer (prep_ids (ps ! 0)) = False \<and>
    map_of (extra_info (prep_args (Dapo None None) demo_tokenizer None (ps ! 0) st')) ''truncated'' = Some (PBool True)"
proof -
  let ?ds = "map (row_data (demo_rewards 7 7)) [0, 1]"
  obtain ps st' where start: "start_rows (Dapo None None) demo_tokenizer ?ds (\<lambda>_. []) = Inr (ps, st')"
    and ids: "map prep_ids ps = [[5, 2], [6]]"
    by (simp add: demo_rows [simplified] demo_simps Let_def)
  have "map_of (extra_info (prep_args (Dapo None None) demo_tokenizer None (ps ! 0) st')) ''truncated'' =
      Some (PBool (truncated_flag demo_tokenizer (prep_ids (ps ! 1))))"
    by (rule shared_extra_info_last_flag [OF start, of 0 7 1])
      (simp_all add: demo_rows [simplified] row_address_def cell_opt_def)
  moreover have "prep_ids (ps ! 0) = [5, 2]" "prep_ids (ps ! 1) = [6]"
    using ids by (auto simp: map_eq_Cons_conv)
  ultimately show ?thesis
    using start by (auto simp: truncated_flag_def demo_tokenizer_def)
qed

lemma overlong_penalty_closed_form_witness:
  "overlong_reward \<lparr>buffer_len = 4, penalty_enabled = True, penalty_factor = 1/2, penalty_log = True\<rparr> 10 8 = - 1/4"
  using overlong_penalty_closed_form
    [of "\<lparr>buffer_len = 4, penalty_enabled = True, penalty_factor = 1/2, penalty_log = True\<rparr>" 10 8]
  by (simp add: dapo_init_def)

lemma post_request_first_decisive_witness:
  "post_request (\<lambda>k. if k = 0 then Http_Error 503 else if k = 1 then Connection_Failure else Json (PNum 1)) 16 =
    \<lparr>answer = Inr (Some (PNum 1)), requests = 3, pauses = [1, 2]\<rparr>"
  using post_request_first_decisive
    [of 2 16 "\<lambda>k. if k = 0 then Http_Error 503 else if k = 1 then Connection_Failure else Json (PNum 1)"]
  by (simp add: decisive_def upt_rec numeral_eq_Suc)

end
