(* ===== verification/Metrics.thy ===== *)
theory Metrics
  imports Trainer_Steps Rollout_Correction
begin

text \<open>
  The metrics of training and validation: \<open>verl/utils/metric/utils.py\<close> (reduction of metric lists and the
  class \<open>Metric\<close> with its reduction over data-parallel ranks) and \<open>verl/trainer/ppo/metric_utils.py\<close>
  (statistics of a batch, timings, variance proxies, and the validation metrics with bootstrap and
  majority voting). The random indices of the bootstrap are a parameter.
\<close>

section \<open>Reductions of numpy and torch\<close>

definition np_max :: "vec \<Rightarrow> real result" where
  "np_max xs = (if xs = [] then Inl ValueError else Inr (Max (set xs)))"

definition np_min :: "vec \<Rightarrow> real result" where
  "np_min xs = (if xs = [] then Inl ValueError else Inr (Min (set xs)))"

definition np_std :: "vec \<Rightarrow> real" where
  "np_std xs = sqrt (vec_mean (map (\<lambda>x. (x - vec_mean xs) ^ 2) xs))"

text \<open>\<open>torch.max\<close> and \<open>torch.min\<close> of an empty tensor raise; \<open>torch.var\<close> divides by one less than the count.\<close>

definition torch_max :: "vec \<Rightarrow> real result" where
  "torch_max xs = (if xs = [] then Inl RuntimeError else Inr (Max (set xs)))"

definition torch_min :: "vec \<Rightarrow> real result" where
  "torch_min xs = (if xs = [] then Inl RuntimeError else Inr (Min (set xs)))"

definition torch_var :: "vec \<Rightarrow> real" where
  "torch_var xs = sum_list (map (\<lambda>x. (x - vec_mean xs) ^ 2) xs) / (real (length xs) - 1)"

section \<open>Metric lists\<close>

datatype aggregation = MeanAgg | SumAgg | MinAgg | MaxAgg

record metric =
  agg :: aggregation
  metric_values :: vec

definition aggregation_of :: "string \<Rightarrow> aggregation result" where
  "aggregation_of s =
     (if s = ''mean'' then Inr MeanAgg else if s = ''sum'' then Inr SumAgg
      else if s = ''min'' then Inr MinAgg else if s = ''max'' then Inr MaxAgg else Inl ValueError)"

text \<open>\<open>extend\<close> with another metric, which must have the same aggregation, and with values.\<close>

definition metric_append :: "real \<Rightarrow> metric \<Rightarrow> metric" where
  "metric_append v x = x\<lparr>metric_values := metric_values x @ [v]\<rparr>"

definition metric_extend :: "metric \<Rightarrow> metric \<Rightarrow> metric result" where
  "metric_extend other x =
     ensure (agg other = agg x) ValueError (Inr (fold metric_append (metric_values other) x))"

definition init_list :: "metric \<Rightarrow> metric" where
  "init_list x = \<lparr>agg = agg x, metric_values = []\<rparr>"

definition aggregate_values :: "aggregation \<Rightarrow> vec \<Rightarrow> real result" where
  "aggregate_values a xs = (case a of
       MeanAgg \<Rightarrow> Inr (vec_mean xs)
     | SumAgg \<Rightarrow> Inr (sum_list xs)
     | MinAgg \<Rightarrow> np_min xs
     | MaxAgg \<Rightarrow> np_max xs)"

definition aggregate :: "metric \<Rightarrow> real result" where
  "aggregate x = aggregate_values (agg x) (metric_values x)"

text \<open>
  \<open>aggregate_dp\<close>: one metric per rank with the same number of values; the columns are averaged over the
  ranks for mean and sum.
\<close>

definition column_means :: "vec list \<Rightarrow> vec" where
  "column_means xss = map (\<lambda>j. vec_mean (map (\<lambda>xs. xs ! j) xss)) [0..<length (hd xss)]"

definition aggregate_dp :: "metric list \<Rightarrow> real result" where
  "aggregate_dp xs = (case xs of
       [] \<Rightarrow> Inl ValueError
     | x # _ \<Rightarrow>
         ensure (list_all (\<lambda>y. length (metric_values y) = length (metric_values x)) xs) ValueError
           (case agg x of
              MeanAgg \<Rightarrow> aggregate_values MeanAgg (column_means (map metric_values xs))
            | SumAgg \<Rightarrow> aggregate_values SumAgg (column_means (map metric_values xs))
            | a \<Rightarrow> aggregate_values a (concat (map metric_values xs))))"

datatype metric_entry = MetricObject metric | MetricList vec

definition reduce_metric :: "string \<Rightarrow> metric_entry \<Rightarrow> real result" where
  "reduce_metric k v = (case v of
       MetricObject x \<Rightarrow> aggregate x
     | MetricList xs \<Rightarrow> if sublist ''max'' k then np_max xs else if sublist ''min'' k then np_min xs
                        else Inr (vec_mean xs))"

definition reduce_metrics :: "metric_entry dict \<Rightarrow> real dict result" where
  "reduce_metrics metrics = mapM_result (\<lambda>(k, v). rbind (reduce_metric k v) (\<lambda>r. Inr (k, r))) metrics"

section \<open>Statistics of a batch\<close>

definition drop_end :: "nat \<Rightarrow> 'a list \<Rightarrow> 'a list" where
  "drop_end n xs = (if n = 0 then [] else take (length xs - n) xs)"

text \<open>\<open>_compute_response_info\<close>: the lengths of the prompts and of the responses.\<close>

definition response_info :: "(vec, 'b, 'm) dataproto \<Rightarrow> (vec \<times> vec) result" where
  "response_info d =
     rbind (tensor d ''responses'') (\<lambda>responses.
     rbind (tensor d ''attention_mask'') (\<lambda>attention.
       let w = mat_width responses
       in Inr (map (\<lambda>row. sum_list (drop_end w row)) attention, map (\<lambda>row. sum_list (py_last w row)) attention)))"

definition selected_tokens :: "mat \<Rightarrow> mat \<Rightarrow> vec" where
  "selected_tokens values msk = concat (map2 (\<lambda>vs ms. map fst (filter (\<lambda>(_, m). m \<noteq> 0) (zip vs ms))) values msk)"

definition three_stats :: "string \<Rightarrow> vec \<Rightarrow> real dict result" where
  "three_stats name xs =
     rbind (torch_max xs) (\<lambda>hi. rbind (torch_min xs) (\<lambda>lo.
       Inr [(name @ ''/mean'', vec_mean xs), (name @ ''/max'', hi), (name @ ''/min'', lo)]))"

definition fraction_of :: "('a \<Rightarrow> bool) \<Rightarrow> 'a list \<Rightarrow> real" where
  "fraction_of P xs = vec_mean (map (\<lambda>x. if P x then 1 else 0) xs)"

definition critic_stats :: "(vec, 'b, 'm) dataproto \<Rightarrow> bool \<Rightarrow> mat \<Rightarrow> vec \<Rightarrow> real dict result" where
  "critic_stats d use_critic msk valid_returns =
     (if \<not> use_critic then Inr []
      else rbind (tensor d ''values'') (\<lambda>vals.
        let valid_values = selected_tokens vals msk;
            return_diff_var = torch_var (map2 (-) valid_returns valid_values);
            return_var = torch_var valid_returns
        in rbind (three_stats ''critic/values'' valid_values) (\<lambda>stats.
             Inr (stats @ [(''critic/vf_explained_var'', 1 - return_diff_var / (return_var + 1 / 10 ^ 5))]))))"

text \<open>Optional arrays of numbers: turns and tool calls.\<close>

definition array_stats :: "'m rl_data \<Rightarrow> string \<Rightarrow> string \<Rightarrow> real dict result" where
  "array_stats d key name = (case map_of (non_tensor d) key of
       None \<Rightarrow> Inr []
     | Some col \<Rightarrow>
         (let xs = map entry_value col
          in rbind (np_min xs) (\<lambda>lo. rbind (np_max xs) (\<lambda>hi.
               Inr [(name @ ''/min'', lo), (name @ ''/max'', hi), (name @ ''/mean'', vec_mean xs)]))))"

text \<open>
  \<open>compute_data_metrics\<close>. The statistics of scores and rewards are taken before the check that not all
  samples are aborted.
\<close>

definition compute_data_metrics :: "'m rl_data \<Rightarrow> bool \<Rightarrow> real dict result" where
  "compute_data_metrics d use_critic =
     rbind (tensor d ''token_level_scores'') (\<lambda>scores.
     rbind (tensor d ''token_level_rewards'') (\<lambda>rewards.
     rbind (tensor d ''advantages'') (\<lambda>advantages.
     rbind (tensor d ''returns'') (\<lambda>rets.
     rbind (tensor d ''responses'') (\<lambda>responses.
     rbind (tensor d ''attention_mask'') (\<lambda>attention.
     rbind (tensor d ''response_mask'') (\<lambda>msk.
     rbind (response_info d) (\<lambda>(prompt_length, response_length).
       let max_response_length = real (mat_width responses);
           max_prompt_length = real (length (drop_end (mat_width responses) (hd attention)));
           alive = (\<lambda>xs. map fst (filter (\<lambda>(_, n). n \<noteq> 0) (zip xs response_length)));
           valid_adv = selected_tokens advantages msk;
           valid_returns = selected_tokens rets msk;
           lens = filter (\<lambda>n. n \<noteq> 0) response_length
       in rbind (three_stats ''critic/score'' (alive (map sum_list scores))) (\<lambda>score_stats.
          rbind (three_stats ''critic/rewards'' (alive (map sum_list rewards))) (\<lambda>reward_stats.
          rbind (ensure (lens \<noteq> []) ValueError (Inr ())) (\<lambda>_.
          rbind (three_stats ''critic/advantages'' valid_adv) (\<lambda>adv_stats.
          rbind (three_stats ''critic/returns'' valid_returns) (\<lambda>return_stats.
          rbind (critic_stats d use_critic msk valid_returns) (\<lambda>value_stats.
          rbind (three_stats ''response_length'' response_length) (\<lambda>length_stats.
          rbind (three_stats ''response_length_non_aborted'' lens) (\<lambda>alive_stats.
          rbind (three_stats ''prompt_length'' prompt_length) (\<lambda>prompt_stats.
          rbind (array_stats d ''__num_turns__'' ''num_turns'') (\<lambda>turn_stats.
          rbind (array_stats d ''tool_call_counts'' ''tool_call_counts'') (\<lambda>tool_stats.
            Inr (score_stats @ reward_stats @ adv_stats @ return_stats @ value_stats @ length_stats @
              [(''response_length/clip_ratio'', fraction_of (\<lambda>n. n = max_response_length) response_length)] @ alive_stats @
              [(''response_length_non_aborted/clip_ratio'', fraction_of (\<lambda>n. n = max_response_length) lens),
               (''response/aborted_ratio'', fraction_of (\<lambda>n. n = 0) response_length)] @ prompt_stats @
              [(''prompt_length/clip_ratio'', fraction_of (\<lambda>n. n = max_prompt_length) prompt_length)] @
              turn_stats @ tool_stats))))))))))))))))))))"

definition compute_timing_metrics :: "'m rl_data \<Rightarrow> real dict \<Rightarrow> real dict result" where
  "compute_timing_metrics d timing =
     rbind (response_info d) (\<lambda>(prompt_length, response_length).
       let num_response_tokens = sum_list response_length;
           num_overall_tokens = sum_list prompt_length + num_response_tokens;
           section_tokens = (\<lambda>name. if name = ''gen'' then Some num_response_tokens
              else if name \<in> {''ref'', ''values'', ''adv'', ''update_critic'', ''update_actor''} then Some num_overall_tokens
              else None)
       in rbind (mapM_result (\<lambda>(name, t). case section_tokens name of
                   None \<Rightarrow> Inr []
                 | Some n \<Rightarrow> ensure (n \<noteq> 0) ZeroDivisionError (Inr [(''timing_per_token_ms/'' @ name, t * 1000 / n)])) timing) (\<lambda>per_token.
            Inr (map (\<lambda>(name, t). (''timing_s/'' @ name, t)) timing @ concat per_token)))"

definition compute_throughput_metrics :: "vec \<Rightarrow> real dict \<Rightarrow> nat \<Rightarrow> real dict result" where
  "compute_throughput_metrics global_token_num timing n_gpus =
     (case map_of timing ''step'' of
        None \<Rightarrow> Inl KeyError
      | Some t \<Rightarrow> ensure (t * real n_gpus \<noteq> 0) ZeroDivisionError
          (Inr [(''perf/total_num_tokens'', sum_list global_token_num), (''perf/time_per_step'', t),
                (''perf/throughput'', sum_list global_token_num / (t * real n_gpus))]))"

section \<open>Variance proxies\<close>

record variance_proxy =
  signal_strength :: real
  total_power :: real
  pure_noise :: real
  expected_a_squared :: real
  expected_w :: real

definition w_rows :: "mat \<Rightarrow> mat \<Rightarrow> mat" where
  "w_rows old_log_prob sum_pi_squared = ew2 (\<lambda>lp s. 1 - 2 * exp lp + s) old_log_prob sum_pi_squared"

definition power_of_rows :: "mat \<Rightarrow> mat \<Rightarrow> mat option \<Rightarrow> vec \<Rightarrow> vec \<Rightarrow> real" where
  "power_of_rows w msk is_weights advs w_sums = (case is_weights of
       None \<Rightarrow> vec_mean (map2 (\<lambda>a v. a ^ 2 * max v 0) advs w_sums)
     | Some rho \<Rightarrow>
         (let scalars = map2 row_masked_mean rho msk;
              original = map2 row_masked_sum (ew2 (\<lambda>w r. w / max (r ^ 2) (1 / 10 ^ 10)) w rho) msk
          in vec_mean (map2 (\<lambda>(r, a) v. r ^ 2 * a ^ 2 * max v 0) (zip scalars advs) original)))"

definition compute_variance_proxy_metrics ::
  "(vec, 'b, 'm) dataproto \<Rightarrow> real option \<Rightarrow> variance_proxy option result" where
  "compute_variance_proxy_metrics d gradient_norm =
     (if \<not> has_tensor d ''sum_pi_squared'' \<or> \<not> has_tensor d ''old_log_probs'' \<or> \<not> has_tensor d ''advantages''
      then Inr None
      else rbind (tensor d ''old_log_probs'') (\<lambda>old.
           rbind (tensor d ''sum_pi_squared'') (\<lambda>sps.
           rbind (tensor d ''response_mask'') (\<lambda>msk.
           rbind (tensor d ''advantages'') (\<lambda>advantages.
             let is_weights = (if has_tensor d ''rollout_is_weights'' then Some (projr (tensor d ''rollout_is_weights'')) else None);
                 w = (case is_weights of None \<Rightarrow> w_rows old sps | Some rho \<Rightarrow> ew2 (\<lambda>v r. v * r ^ 2) (w_rows old sps) rho);
                 advs = map2 row_masked_mean advantages msk;
                 w_sums = map2 row_masked_sum w msk;
                 power = power_of_rows w msk is_weights advs w_sums;
                 signal = map_option (\<lambda>g. g ^ 2) gradient_norm
             in Inr (Some \<lparr>signal_strength = (case signal of None \<Rightarrow> 0 | Some p \<Rightarrow> p), total_power = power,
                  pure_noise = (case signal of None \<Rightarrow> 0 | Some p \<Rightarrow>
                     if length advs > 1 then max 0 (1 / (real (length advs) - 1) * (power - p)) else 0),
                  expected_a_squared = vec_mean (map (\<lambda>a. a ^ 2) advs), expected_w = vec_mean w_sums\<rparr>))))))"

section \<open>Distribution of the log ratio\<close>

text \<open>\<open>torch.quantile\<close>: linear interpolation between the sorted values.\<close>

definition torch_quantile :: "real \<Rightarrow> vec \<Rightarrow> real" where
  "torch_quantile q xs =
     (let s = sort xs; pos = q * (real (length xs) - 1); lo = nat \<lfloor>pos\<rfloor>; hi = nat \<lceil>pos\<rceil>
      in s ! lo + (pos - real lo) * (s ! hi - s ! lo))"

definition compute_log_ratio_diagnostics :: "mat \<Rightarrow> mat \<Rightarrow> mat \<Rightarrow> real dict" where
  "compute_log_ratio_diagnostics log_probs old_log_prob msk =
     (let valid = selected_tokens (ew2 (-) log_probs old_log_prob) msk
      in if valid = [] then []
         else [(''actor/log_ratio/std'', np_std valid), (''actor/log_ratio/abs_mean'', vec_mean (map abs valid)),
               (''actor/log_ratio/p95'', torch_quantile (95 / 100) valid),
               (''actor/log_ratio/p99'', torch_quantile (99 / 100) valid),
               (''actor/log_ratio/max_abs'', Max (set (map abs valid)))])"

text \<open>Repetition at the tail of the responses; the compressed length of a byte string is a parameter.\<close>

definition tail_compression_ratio :: "(string \<Rightarrow> nat) \<Rightarrow> string \<Rightarrow> nat \<Rightarrow> real" where
  "tail_compression_ratio zlib_len response tail_bytes =
     (let tail = py_last tail_bytes response
      in if tail = [] then 1 else real (length tail) / real (zlib_len tail))"

definition repetition_ratios ::
  "(string \<Rightarrow> nat) \<Rightarrow> (vec \<Rightarrow> string) \<Rightarrow> nat \<Rightarrow> mat \<Rightarrow> mat \<Rightarrow> vec" where
  "repetition_ratios zlib_len decode tail_bytes responses msk =
     concat (map2 (\<lambda>ids ms. let valid = map fst (filter (\<lambda>(_, m). m \<noteq> 0) (zip ids ms))
                            in if valid = [] then [] else [tail_compression_ratio zlib_len (decode valid) tail_bytes])
        responses msk)"

section \<open>Bootstrap and majority voting\<close>

text \<open>The sizes of the subsets: the powers of two below the number of responses, and that number.\<close>

function powers_below :: "nat \<Rightarrow> nat \<Rightarrow> nat list" where
  "powers_below n limit = (if 0 < n \<and> n < limit then n # powers_below (2 * n) limit else [limit])"
  by pat_completeness auto
termination
  by (relation "measure (\<lambda>(n, limit). limit - n)") auto

declare powers_below.simps [simp del]

definition gen_ns :: "nat \<Rightarrow> nat list" where
  "gen_ns n_resps = (if n_resps \<le> 1 then [] else powers_below 2 n_resps)"

text \<open>
  \<open>np.random.choice\<close> with a fixed seed: the index lists are a function of the number of items and the size of
  a subset.
\<close>

type_synonym draws = "nat \<Rightarrow> nat \<Rightarrow> nat list list"

definition bootstrap_metric ::
  "draws \<Rightarrow> 'a list \<Rightarrow> nat \<Rightarrow> ('a list \<Rightarrow> real result) list \<Rightarrow> (real \<times> real) list result" where
  "bootstrap_metric draw xs subset_size reduce_fns =
     ensure (xs \<noteq> []) ValueError
      (mapM_result (\<lambda>reduce_fn.
         rbind (mapM_result (\<lambda>idx. reduce_fn (map (\<lambda>i. xs ! i) idx)) (draw (length xs) subset_size)) (\<lambda>rs.
           Inr (vec_mean rs, np_std rs))) reduce_fns)"

text \<open>A list of groups in the order of their first members; the largest group that comes first.\<close>

fun add_vote :: "'k \<Rightarrow> 'v \<Rightarrow> ('k \<times> 'v list) list \<Rightarrow> ('k \<times> 'v list) list" where
  "add_vote k v [] = [(k, [v])]"
| "add_vote k v ((j, vs) # rest) = (if j = k then (j, vs @ [v]) # rest else (j, vs) # add_vote k v rest)"

fun first_largest :: "('k \<times> 'v list) list \<Rightarrow> ('k \<times> 'v list) option" where
  "first_largest [] = None"
| "first_largest (g # gs) = (case first_largest gs of
       None \<Rightarrow> Some g
     | Some h \<Rightarrow> Some (if length (snd h) > length (snd g) then h else g))"

text \<open>\<open>calc_maj_val\<close> on pairs of a vote and a value.\<close>

definition calc_maj_val :: "('k \<times> real) list \<Rightarrow> real result" where
  "calc_maj_val votes = (case first_largest (fold (\<lambda>(k, v). add_vote k v) votes []) of
       None \<Rightarrow> Inl ValueError
     | Some (_, vs) \<Rightarrow> py_get vs 0)"

datatype info_value = Number real | Label string

datatype metric_name =
    Mean_At nat | Std_At nat | Best_Mean nat | Best_Std nat | Worst_Mean nat | Worst_Std nat
  | Maj_Mean nat | Maj_Std nat

definition number_of_info :: "info_value \<Rightarrow> real result" where
  "number_of_info x = (case x of Number r \<Rightarrow> Inr r | Label _ \<Rightarrow> Inl TypeError)"

definition subset_metrics ::
  "draws \<Rightarrow> vec \<Rightarrow> info_value list option \<Rightarrow> nat \<Rightarrow> (metric_name \<times> real) list result" where
  "subset_metrics draw xs preds n =
     rbind (bootstrap_metric draw xs n [np_max, np_min]) (\<lambda>r.
       let best = r ! 0; worst = r ! 1;
           base = [(Best_Mean n, fst best), (Best_Std n, snd best), (Worst_Mean n, fst worst), (Worst_Std n, snd worst)]
       in case preds of
            None \<Rightarrow> Inr base
          | Some ps \<Rightarrow>
              ensure (length ps = length xs) ValueError
                (rbind (bootstrap_metric draw (zip ps xs) n [calc_maj_val]) (\<lambda>m.
                   Inr (base @ [(Maj_Mean n, fst (m ! 0)), (Maj_Std n, snd (m ! 0))]))))"

text \<open>The metrics of one variable of one prompt; a variable without values or with text values is skipped.\<close>

definition variable_metrics ::
  "draws \<Rightarrow> info_value list option \<Rightarrow> info_value list \<Rightarrow> (metric_name \<times> real) list option result" where
  "variable_metrics draw preds vals =
     (case vals of
        [] \<Rightarrow> Inr None
      | Label _ # _ \<Rightarrow> Inr None
      | _ \<Rightarrow> rbind (mapM_result number_of_info vals) (\<lambda>xs.
          let n_resps = length xs
          in if n_resps \<le> 1 then Inr (Some [(Mean_At n_resps, vec_mean xs)])
             else rbind (mapM_result (subset_metrics draw xs preds) (gen_ns n_resps)) (\<lambda>parts.
                    Inr (Some ([(Mean_At n_resps, vec_mean xs), (Std_At n_resps, np_std xs)] @ concat parts)))))"

section \<open>Validation metrics\<close>

fun first_keys :: "'a list \<Rightarrow> 'a list" where
  "first_keys [] = []"
| "first_keys (x # xs) = x # filter (\<lambda>y. y \<noteq> x) (first_keys xs)"

type_synonym infos = "(string \<times> info_value list) list"

text \<open>The values of every variable at the samples of one prompt of one source.\<close>

definition prompt_values :: "string list \<Rightarrow> string list \<Rightarrow> infos \<Rightarrow> string \<Rightarrow> string \<Rightarrow> infos" where
  "prompt_values sources uids infos source uid =
     map (\<lambda>(k, vals). (k, map (\<lambda>i. vals ! i) (filter (\<lambda>i. sources ! i = source \<and> uids ! i = uid) [0..<length sources]))) infos"

definition prompt_metrics ::
  "draws \<Rightarrow> infos \<Rightarrow> (string \<times> (metric_name \<times> real) list) list result" where
  "prompt_metrics draw vals =
     rbind (mapM_result (\<lambda>(k, vs). rbind (variable_metrics draw (map_of vals ''pred'') vs) (\<lambda>r. Inr (k, r))) vals) (\<lambda>rs.
       Inr (List.map_filter (\<lambda>(k, r). map_option (\<lambda>x. (k, x)) r) rs))"

text \<open>The mean over the prompts that have a metric, for each variable and each name.\<close>

definition average_prompts ::
  "(string \<times> (metric_name \<times> real) list) list list \<Rightarrow> (string \<times> (metric_name \<times> real) list) list" where
  "average_prompts prompts =
     map (\<lambda>var.
       (var, let of_var = List.map_filter (\<lambda>p. map_of p var) prompts
             in map (\<lambda>name. (name, vec_mean (List.map_filter (\<lambda>ms. map_of ms name) of_var)))
                  (first_keys (concat (map (map fst) of_var)))))
       (first_keys (concat (map (map fst) prompts)))"

definition process_validation_metrics ::
  "draws \<Rightarrow> string list \<Rightarrow> string list \<Rightarrow> infos \<Rightarrow>
   (string \<times> (string \<times> (metric_name \<times> real) list) list) list result" where
  "process_validation_metrics draw sources uids infos =
     ensure (length sources \<le> length uids \<and> list_all (\<lambda>(_, vals). length sources \<le> length vals) infos) IndexError
      (rbind (mapM_result (\<lambda>source.
         let us = first_keys (map fst (filter (\<lambda>(u, s). s = source) (zip uids sources)))
         in rbind (mapM_result (\<lambda>uid. prompt_metrics draw (prompt_values sources uids infos source uid)) us) (\<lambda>prompts.
              Inr (source, average_prompts prompts))) (first_keys sources)) (\<lambda>rs.
        Inr (filter (\<lambda>(_, vars). vars \<noteq> []) rs)))"

end
