(* ===== verification/Metrics_Properties.thy ===== *)
theory Metrics_Properties
  imports Metrics
begin

text \<open>
  Properties of the metrics: the reduction over ranks agrees with the reduction of all values, majority voting
  returns the value of the first most frequent vote, the bootstrap of the best and the worst value is ordered and
  bounded by the data, and a batch of aborted samples fails before its own check.
\<close>

section \<open>Means\<close>

lemma vec_mean_ge:
  assumes "xs \<noteq> []" and "\<And>x. x \<in> set xs \<Longrightarrow> lo \<le> x"
  shows "lo \<le> vec_mean xs"
proof -
  have "real (length xs) * lo \<le> sum_list xs"
    using sum_list_mono [of xs "\<lambda>_. lo" "\<lambda>x. x"] assms(2) by (simp add: sum_list_triv)
  then show ?thesis using assms(1) by (simp add: vec_mean_def field_simps)
qed

lemma vec_mean_le:
  assumes "xs \<noteq> []" and "\<And>x. x \<in> set xs \<Longrightarrow> x \<le> hi"
  shows "vec_mean xs \<le> hi"
proof -
  have "sum_list xs \<le> real (length xs) * hi"
    using sum_list_mono [of xs "\<lambda>x. x" "\<lambda>_. hi"] assms(2) by (simp add: sum_list_triv)
  then show ?thesis using assms(1) by (simp add: vec_mean_def field_simps)
qed

lemma vec_mean_mono:
  assumes "length xs = length ys" and "\<And>i. i < length xs \<Longrightarrow> xs ! i \<le> ys ! i"
  shows "vec_mean xs \<le> vec_mean ys"
proof -
  have "sum_list xs \<le> sum_list ys"
    unfolding sum_list_sum_nth assms(1) by (rule sum_mono) (use assms in simp)
  then show ?thesis using assms(1) by (simp add: vec_mean_def divide_right_mono)
qed

section \<open>Reduction over data-parallel ranks\<close>

lemma sum_columns:
  fixes xss :: "vec list"
  assumes "\<And>xs. xs \<in> set xss \<Longrightarrow> length xs = m"
  shows "(\<Sum>j \<leftarrow> [0..<m]. \<Sum>xs \<leftarrow> xss. xs ! j) = sum_list (concat xss)"
  using assms
proof (induction xss)
  case (Cons xs xss)
  have "(\<Sum>j \<leftarrow> [0..<m]. xs ! j) = sum_list xs"
    using Cons.prems [of xs] by (metis list.set_intros(1) map_nth)
  moreover have "(\<Sum>j \<leftarrow> [0..<m]. xs ! j + (\<Sum>ys \<leftarrow> xss. ys ! j)) =
      (\<Sum>j \<leftarrow> [0..<m]. xs ! j) + (\<Sum>j \<leftarrow> [0..<m]. \<Sum>ys \<leftarrow> xss. ys ! j)"
    using sum_list_addf [of "\<lambda>j. xs ! j" "\<lambda>j. \<Sum>ys \<leftarrow> xss. ys ! j" "[0..<m]"] by simp
  ultimately show ?case using Cons by simp
qed simp

lemma sum_list_div: "(\<Sum>j \<leftarrow> js. f j / (c :: real)) = (\<Sum>j \<leftarrow> js. f j) / c"
  by (induction js) (simp_all add: add_divide_distrib)

lemma column_means_sum:
  assumes "xss \<noteq> []" and "\<And>xs. xs \<in> set xss \<Longrightarrow> length xs = m"
  shows "sum_list (column_means xss) = sum_list (concat xss) / real (length xss)"
proof -
  have m: "length (hd xss) = m" using assms by simp
  have "sum_list (column_means xss) = (\<Sum>j \<leftarrow> [0..<m]. (\<Sum>xs \<leftarrow> xss. xs ! j) / real (length xss))"
    by (simp add: column_means_def m vec_mean_def comp_def)
  also have "\<dots> = (\<Sum>j \<leftarrow> [0..<m]. \<Sum>xs \<leftarrow> xss. xs ! j) / real (length xss)"
    by (simp add: sum_list_div)
  finally show ?thesis using sum_columns [OF assms(2)] by simp
qed

text \<open>
  Reducing a metric over the data-parallel ranks gives the mean, minimum or maximum of all values of all ranks,
  and for a sum the sum of all values divided by the number of ranks, when every rank has the same positive
  number of values.
\<close>

lemma aggregate_dp_all_values:
  assumes "xs \<noteq> []" and "list_all (\<lambda>x. agg x = a \<and> length (metric_values x) = m) xs" and "0 < m"
  shows "aggregate_dp xs = (case a of
      SumAgg \<Rightarrow> Inr (sum_list (concat (map metric_values xs)) / real (length xs))
    | _ \<Rightarrow> aggregate_values a (concat (map metric_values xs)))"
proof -
  let ?xss = "map metric_values xs"
  obtain x rest where xs: "xs = x # rest" using assms(1) by (cases xs) auto
  have len: "length ys = m" if "ys \<in> set ?xss" for ys using assms(2) that by (auto simp: list_all_iff)
  have first: "agg x = a" "length (metric_values x) = m" using assms(2) xs by simp_all
  have eq: "list_all (\<lambda>y. length (metric_values y) = length (metric_values x)) xs"
    using assms(2) first by (auto simp: list_all_iff)
  have total: "sum_list (column_means ?xss) = sum_list (concat ?xss) / real (length xs)"
    using column_means_sum [of ?xss m] len assms(1) by simp
  have "length (concat ?xss) = length xs * m"
    using assms(2) by (induction xs) auto
  moreover have "length (column_means ?xss) = m" using first xs by (simp add: column_means_def)
  ultimately have "vec_mean (column_means ?xss) = vec_mean (concat ?xss)"
    using total assms(3) by (simp add: vec_mean_def)
  then show ?thesis
    using total eq first by (cases a) (simp_all add: aggregate_dp_def xs aggregate_values_def)
qed

lemma aggregate_dp_all_values_witness:
  "aggregate_dp [\<lparr>agg = SumAgg, metric_values = [1, 2]\<rparr>, \<lparr>agg = SumAgg, metric_values = [3, 6]\<rparr>] = Inr 6"
  using aggregate_dp_all_values [of "[\<lparr>agg = SumAgg, metric_values = [1, 2]\<rparr>, \<lparr>agg = SumAgg, metric_values = [3, 6]\<rparr>]" SumAgg 2]
  by simp

section \<open>Majority voting\<close>

text \<open>The groups of a list of votes: the keys in order of first occurrence, each with its values in order.\<close>

lemma first_keys_set [simp]: "set (first_keys xs) = set xs"
  by (induction xs) auto

lemma first_keys_distinct: "distinct (first_keys xs)"
  by (induction xs) auto

lemma first_keys_snoc:
  "first_keys (xs @ [x]) = (if x \<in> set xs then first_keys xs else first_keys xs @ [x])"
  by (induction xs) auto

lemma first_keys_filter: "filter P (first_keys xs) = first_keys (filter P xs)"
proof (induction xs)
  case (Cons x xs)
  let ?ys = "first_keys xs"
  show ?case
  proof (cases "P x")
    case True
    have "filter P (filter (\<lambda>y. y \<noteq> x) ?ys) = filter (\<lambda>y. y \<noteq> x) (filter P ?ys)"
      by (simp add: conj_commute)
    then show ?thesis using True Cons.IH by simp
  next
    case False
    have "filter P (filter (\<lambda>y. y \<noteq> x) ?ys) = filter P ?ys"
      unfolding filter_filter by (rule filter_cong) (use False in auto)
    then show ?thesis using False Cons.IH by simp
  qed
qed simp

definition values_for :: "('k \<times> 'v) list \<Rightarrow> 'k \<Rightarrow> 'v list" where
  "values_for votes k = map snd (filter (\<lambda>(j, _). j = k) votes)"

lemma add_vote_groups:
  "distinct ks \<Longrightarrow> add_vote k v (map (\<lambda>j. (j, f j)) ks) =
    (if k \<in> set ks then map (\<lambda>j. (j, if j = k then f j @ [v] else f j)) ks
     else map (\<lambda>j. (j, f j)) ks @ [(k, [v])])"
  by (induction ks) auto

lemma vote_groups:
  "fold (\<lambda>(k, v). add_vote k v) votes [] =
    map (\<lambda>k. (k, values_for votes k)) (first_keys (map fst votes))"
proof (induction votes rule: rev_induct)
  case (snoc kv votes)
  obtain k v where kv: "kv = (k, v)" by (cases kv)
  have new: "values_for votes k = []" if "k \<notin> fst ` set votes"
    using that by (force simp: values_for_def filter_empty_conv)
  have grow: "values_for (votes @ [(k, v)]) j = (if j = k then values_for votes j @ [v] else values_for votes j)" for j
    by (simp add: values_for_def)
  show ?case
    using snoc new
    by (auto simp: kv add_vote_groups first_keys_distinct first_keys_snoc grow image_iff
        intro!: map_cong)
qed simp

lemma first_largest_hd:
  "gs \<noteq> [] \<Longrightarrow> first_largest gs = Some (hd (filter (\<lambda>g. \<forall>h \<in> set gs. length (snd h) \<le> length (snd g)) gs)) \<and>
    filter (\<lambda>g. \<forall>h \<in> set gs. length (snd h) \<le> length (snd g)) gs \<noteq> []"
proof (induction gs)
  case (Cons g gs)
  show ?case
  proof (cases "gs = []")
    case False
    let ?M = "\<lambda>g'. \<forall>h \<in> set gs. length (snd h) \<le> length (snd g')"
    obtain h rest where h: "filter ?M gs = h # rest" and fl: "first_largest gs = Some h"
      using Cons.IH [OF False] by (cases "filter ?M gs") auto
    have "h \<in> set (filter ?M gs)" by (simp add: h)
    then have hM: "?M h" "h \<in> set gs" by simp_all
    show ?thesis
    proof (cases "length (snd h) > length (snd g)")
      case True
      have "filter (\<lambda>g'. \<forall>h' \<in> set (g # gs). length (snd h') \<le> length (snd g')) (g # gs) = filter ?M gs"
      proof -
        have "\<not> (\<forall>h' \<in> set (g # gs). length (snd h') \<le> length (snd g))"
          using True hM(2) by (meson leD list.set_intros(2))
        moreover have "(\<forall>h' \<in> set (g # gs). length (snd h') \<le> length (snd g')) = ?M g'" if "g' \<in> set gs" for g'
          using True hM by force
        ultimately show ?thesis by (auto intro!: filter_cong)
      qed
      then show ?thesis using True fl h by simp
    next
      case no: False
      have "\<forall>h' \<in> set (g # gs). length (snd h') \<le> length (snd g)" using no hM by force
      then show ?thesis using no fl by simp
    qed
  qed simp
qed simp

lemma hd_first_occurrences: "hd (first_keys xs) = hd xs"
  by (cases xs) simp_all

lemma map_fst_filter: "map fst (filter (\<lambda>(k, _). P k) xs) = filter P (map fst xs)"
  by (induction xs) auto

lemma values_for_count: "length (values_for votes k) = count_list (map fst votes) k"
  by (induction votes) (auto simp: values_for_def)

text \<open>The first vote that satisfies a predicate on keys heads the groups that satisfy it, and its own group.\<close>

lemma first_in_groups:
  assumes "filter (\<lambda>(k, _). P k) votes = (k, v) # rest"
  shows "hd (filter P (first_keys (map fst votes))) = k" and "values_for votes k = v # tl (values_for votes k)"
proof -
  have "map fst (filter (\<lambda>(k, _). P k) votes) = filter P (map fst votes)" by (rule map_fst_filter)
  then show "hd (filter P (first_keys (map fst votes))) = k"
    unfolding first_keys_filter hd_first_occurrences assms by (metis fst_conv list.sel(1) list.simps(9))
  have "(k, v) \<in> set (filter (\<lambda>(k, _). P k) votes)" unfolding assms by simp
  then have "P k" by simp
  then have eq: "filter (\<lambda>(j, _). j = k) votes = filter (\<lambda>(j, _). j = k) (filter (\<lambda>(k, _). P k) votes)"
    unfolding filter_filter by (intro filter_cong) auto
  have "values_for votes k = map snd (filter (\<lambda>(j, _). j = k) ((k, v) # rest))"
    unfolding values_for_def eq assms ..
  then show "values_for votes k = v # tl (values_for votes k)" by simp
qed

lemma first_largest_groups:
  assumes "ks \<noteq> []" and "P = (\<lambda>k. \<forall>j \<in> set ks. length (f j) \<le> length (f k))"
  shows "first_largest (map (\<lambda>k. (k, f k)) ks) = Some (hd (filter P ks), f (hd (filter P ks)))"
    and "filter P ks \<noteq> []"
proof -
  let ?gs = "map (\<lambda>k. (k, f k)) ks"
  have eq: "filter (\<lambda>g. \<forall>h \<in> set ?gs. length (snd h) \<le> length (snd g)) ?gs = map (\<lambda>k. (k, f k)) (filter P ks)"
    unfolding filter_map comp_def assms(2) by simp
  have "?gs \<noteq> []" using assms(1) by simp
  note first_largest_hd [OF this, unfolded eq]
  then show "filter P ks \<noteq> []" "first_largest ?gs = Some (hd (filter P ks), f (hd (filter P ks)))"
    by (simp_all add: hd_map)
qed

text \<open>A key is one of the most frequent ones when no key of the list occurs more often.\<close>

definition most_frequent :: "'k list \<Rightarrow> 'k \<Rightarrow> bool" where
  "most_frequent ks k \<longleftrightarrow> list_all (\<lambda>j. count_list ks j \<le> count_list ks k) ks"

text \<open>
  Majority voting returns the value of the first item whose vote is one of the most frequent votes, so a
  tie is decided by the vote that appears first, and without votes the maximum of nothing raises.
\<close>

theorem majority_first_of_most_frequent:
  "calc_maj_val votes =
    (case filter (\<lambda>(k, _). most_frequent (map fst votes) k) votes of
       [] \<Rightarrow> Inl ValueError
     | (_, v) # _ \<Rightarrow> Inr v)"
proof (cases "votes = []")
  case True
  then show ?thesis by (simp add: calc_maj_val_def)
next
  case False
  let ?ks = "map fst votes"
  define P where "P = (\<lambda>k. \<forall>j \<in> set ?ks. count_list ?ks j \<le> count_list ?ks k)"
  have P: "P = (\<lambda>k. \<forall>j \<in> set (first_keys ?ks). length (values_for votes j) \<le> length (values_for votes k))"
    unfolding P_def values_for_count first_keys_set ..
  have "first_keys ?ks \<noteq> []" using False by (cases votes) simp_all
  note largest = first_largest_groups [OF this P]
  have "filter P ?ks \<noteq> []" using largest(2) unfolding filter_empty_conv first_keys_set .
  then have "filter (\<lambda>(k, _). P k) votes \<noteq> []"
    using map_fst_filter [of P votes] by (metis list.map_disc_iff)
  then obtain k v rest where first: "filter (\<lambda>(k, _). P k) votes = (k, v) # rest"
    by (metis list.exhaust surj_pair)
  note group = first_in_groups [OF first]
  have "calc_maj_val votes = py_get (values_for votes k) 0"
    unfolding calc_maj_val_def vote_groups largest(1) group(1) by simp
  also have "\<dots> = Inr v" by (subst group(2)) (simp add: py_get_def)
  finally show ?thesis using first unfolding P_def most_frequent_def list_all_iff by simp
qed

section \<open>Bootstrap\<close>

lemma powers_below_spec:
  "0 < n \<Longrightarrow> set (powers_below n limit) \<subseteq> {min n limit..limit} \<and> limit \<in> set (powers_below n limit) \<and>
    sorted_wrt (<) (powers_below n limit)"
proof (induction n limit rule: powers_below.induct)
  case (1 n limit)
  show ?case
  proof (cases "n < limit")
    case True
    then have IH: "set (powers_below (2 * n) limit) \<subseteq> {min (2 * n) limit..limit}" "limit \<in> set (powers_below (2 * n) limit)"
      "sorted_wrt (<) (powers_below (2 * n) limit)"
      using 1 by simp_all
    have lt: "n < m \<and> m \<le> limit" if "m \<in> set (powers_below (2 * n) limit)" for m
    proof -
      have "m \<in> {min (2 * n) limit..limit}" using IH(1) that by blast
      then show ?thesis using True 1(2) by (auto simp: min_def split: if_splits)
    qed
    have eq: "powers_below n limit = n # powers_below (2 * n) limit"
      using True 1(2) by (simp add: powers_below.simps [of n limit])
    show ?thesis
      unfolding eq using IH(2,3) True lt by (force simp: less_imp_le)
  next
    case False
    then show ?thesis using 1(2) by (simp add: powers_below.simps)
  qed
qed

text \<open>The subset sizes increase strictly, lie between two and the number of responses, and end with it.\<close>

lemma gen_ns_spec:
  assumes "1 < n"
  shows "set (gen_ns n) \<subseteq> {2..n}" and "n \<in> set (gen_ns n)" and "sorted_wrt (<) (gen_ns n)"
  using powers_below_spec [of 2 n] assms by (auto simp: gen_ns_def)

text \<open>A generator draws non-empty lists of valid indices, and at least one list.\<close>

definition draws_valid :: "draws \<Rightarrow> bool" where
  "draws_valid draw \<longleftrightarrow> (\<forall>n k. 0 < n \<longrightarrow> 0 < k \<longrightarrow>
     draw n k \<noteq> [] \<and> (\<forall>idx \<in> set (draw n k). length idx = k \<and> set idx \<subseteq> {..<n}))"

lemma bootstrap_np:
  assumes "draws_valid draw" and "xs \<noteq> []" and "0 < k"
  shows "bootstrap_metric draw xs k [np_max, np_min] = Inr
    [(vec_mean (map (\<lambda>idx. Max (set (map ((!) xs) idx))) (draw (length xs) k)),
      np_std (map (\<lambda>idx. Max (set (map ((!) xs) idx))) (draw (length xs) k))),
     (vec_mean (map (\<lambda>idx. Min (set (map ((!) xs) idx))) (draw (length xs) k)),
      np_std (map (\<lambda>idx. Min (set (map ((!) xs) idx))) (draw (length xs) k)))]"
proof -
  have ne: "idx \<noteq> []" if "idx \<in> set (draw (length xs) k)" for idx
  proof -
    have "length idx = k" using assms that unfolding draws_valid_def by blast
    then show ?thesis using assms(3) by auto
  qed
  have "mapM_result (\<lambda>idx. np_max (map ((!) xs) idx)) (draw (length xs) k) =
      Inr (map (\<lambda>idx. Max (set (map ((!) xs) idx))) (draw (length xs) k))"
    by (rule mapM_result_Inr) (simp add: np_max_def ne)
  moreover have "mapM_result (\<lambda>idx. np_min (map ((!) xs) idx)) (draw (length xs) k) =
      Inr (map (\<lambda>idx. Min (set (map ((!) xs) idx))) (draw (length xs) k))"
    by (rule mapM_result_Inr) (simp add: np_min_def ne)
  ultimately show ?thesis using assms(2) by (simp add: bootstrap_metric_def)
qed

text \<open>
  For every subset size the validation uses, the bootstrap estimates of the worst and the best of the subset
  exist and are ordered: the smallest value of the prompt is at most the estimate of the worst, that is at most
  the estimate of the best, and that is at most the largest value.
\<close>

theorem bootstrap_best_worst:
  assumes "draws_valid draw" and "1 < length xs" and "n \<in> set (gen_ns (length xs))"
  shows "\<exists>best worst best_std worst_std.
    bootstrap_metric draw xs n [np_max, np_min] = Inr [(best, best_std), (worst, worst_std)] \<and>
    Min (set xs) \<le> worst \<and> worst \<le> best \<and> best \<le> Max (set xs)"
proof -
  let ?rows = "draw (length xs) n"
  let ?hi = "map (\<lambda>idx. Max (set (map ((!) xs) idx))) ?rows"
  let ?lo = "map (\<lambda>idx. Min (set (map ((!) xs) idx))) ?rows"
  have "n \<in> {2..length xs}" using gen_ns_spec(1) [OF assms(2)] assms(3) by blast
  then have n: "0 < n" by simp
  have l: "0 < length xs" using assms(2) by linarith
  have rows: "?rows \<noteq> []" using assms(1) l n unfolding draws_valid_def by blast
  have idx: "length idx = n" "set idx \<subseteq> {..<length xs}" if "idx \<in> set ?rows" for idx
    using that assms(1) l n unfolding draws_valid_def by blast+
  have sub: "set (map ((!) xs) idx) \<subseteq> set xs" "set (map ((!) xs) idx) \<noteq> {}" if "idx \<in> set ?rows" for idx
    using idx [OF that] n by auto
  have "Min (set xs) \<le> vec_mean ?lo"
  proof (rule vec_mean_ge)
    fix x assume "x \<in> set ?lo"
    then obtain idx where "idx \<in> set ?rows" and x: "x = Min (set (map ((!) xs) idx))" by auto
    then show "Min (set xs) \<le> x" unfolding x using sub by (intro Min_antimono) auto
  qed (use rows in simp)
  moreover have "vec_mean ?hi \<le> Max (set xs)"
  proof (rule vec_mean_le)
    fix x assume "x \<in> set ?hi"
    then obtain idx where "idx \<in> set ?rows" and x: "x = Max (set (map ((!) xs) idx))" by auto
    then show "x \<le> Max (set xs)" unfolding x using sub by (intro Max_mono) auto
  qed (use rows in simp)
  moreover have "vec_mean ?lo \<le> vec_mean ?hi"
  proof (rule vec_mean_mono)
    fix i assume "i < length ?lo"
    then have i: "?rows ! i \<in> set ?rows" "i < length ?rows" by simp_all
    obtain y where y: "y \<in> set (map ((!) xs) (?rows ! i))" using sub(2) [OF i(1)] by (metis all_not_in_conv)
    have "Min (set (map ((!) xs) (?rows ! i))) \<le> y" using y by (intro Min_le) simp_all
    also have "y \<le> Max (set (map ((!) xs) (?rows ! i)))" using y by (intro Max_ge) simp_all
    finally show "?lo ! i \<le> ?hi ! i" using i(2) by simp
  qed simp
  moreover have "xs \<noteq> []" using l by (rule length_greater_0_conv [THEN iffD1])
  ultimately show ?thesis using bootstrap_np [OF assms(1) _ n] by auto
qed

lemma bootstrap_best_worst_witness:
  "\<exists>best worst best_std worst_std.
    bootstrap_metric (\<lambda>n k. [replicate k 0, replicate k (n - 1)]) [1, 4, 2] 3 [np_max, np_min] =
      Inr [(best, best_std), (worst, worst_std)] \<and>
    1 \<le> worst \<and> worst \<le> best \<and> best \<le> 4"
  using bootstrap_best_worst [of "\<lambda>n k. [replicate k 0, replicate k (n - 1)]" "[1, 4, 2]" 3] gen_ns_spec(2) [of 3]
  by (simp add: draws_valid_def numeral_3_eq_3)

section \<open>Aborted samples\<close>

text \<open>
  When every sample is aborted, the maximum of no scores raises first; the \<open>ValueError\<close> that names the cause is
  never reached.
\<close>

lemma all_aborted_raises:
  assumes "\<And>k. k \<in> {''token_level_scores'', ''token_level_rewards'', ''advantages'', ''returns'', ''responses'',
      ''attention_mask'', ''response_mask''} \<Longrightarrow> \<exists>v. tensor d k = Inr v"
    and "response_info d = Inr (pl, rl)" and "\<And>n. n \<in> set rl \<Longrightarrow> n = 0"
  shows "compute_data_metrics d use_critic = Inl RuntimeError"
proof -
  have "filter (\<lambda>(_, n). n \<noteq> 0) (zip xs rl) = []" for xs :: vec
    using assms(3) by (auto simp: filter_empty_conv dest: set_zip_rightD)
  then show ?thesis
    using assms(1) [of "''token_level_scores''"] assms(1) [of "''token_level_rewards''"] assms(1) [of "''advantages''"]
      assms(1) [of "''returns''"] assms(1) [of "''responses''"] assms(1) [of "''attention_mask''"]
      assms(1) [of "''response_mask''"] assms(2)
    by (auto simp: compute_data_metrics_def three_stats_def torch_max_def Let_def)
qed

end
