(* ===== verification/Load_Balancer.thy ===== *)
theory Load_Balancer
  imports Data_Proto
begin

text \<open>
  The routing of generation requests to inference servers (\<open>GlobalRequestLoadBalancer\<close> and
  \<open>AsyncLLMServerManager\<close> of \<open>verl/experimental/agent_loop/agent_loop.py\<close>). The least-recently-used cache of the
  package cachetools is a parameter. Every agent-loop worker calls the balancer through messages, so the calls of
  all workers interleave; the system is a step relation over the balancer, the calls in progress and the release
  messages that have been sent and not yet handled.
\<close>

section \<open>The balancer\<close>

text \<open>A cache: reading an entry may reorder it, storing one may raise or evict others.\<close>

record 'c cache_ops =
  cache_empty :: 'c
  cache_get :: "'c \<Rightarrow> string \<Rightarrow> string option"
  cache_touch :: "string \<Rightarrow> 'c \<Rightarrow> 'c"
  cache_put :: "string \<Rightarrow> string \<Rightarrow> 'c \<Rightarrow> 'c result"

record 'c load_balancer =
  inflight :: "nat dict"
  routes :: 'c

text \<open>\<open>{sid: 0 for sid in server_actor_ids}\<close> keeps the first position of a repeated key.\<close>

definition new_balancer :: "'c cache_ops \<Rightarrow> string list \<Rightarrow> 'c load_balancer result" where
  "new_balancer ops ids =
     ensure (ids \<noteq> []) ValueError
       (Inr \<lparr>inflight = fold (\<lambda>sid d. AList.update sid 0 d) ids [], routes = cache_empty ops\<rparr>)"

text \<open>\<open>min(d, key=d.get)\<close>: the first key with the smallest value.\<close>

fun first_min :: "nat dict \<Rightarrow> string option" where
  "first_min [] = None"
| "first_min ((k, n) # d) = (case first_min d of
       None \<Rightarrow> Some k
     | Some j \<Rightarrow> (if the (map_of d j) < n then Some j else Some k))"

definition add_inflight :: "string \<Rightarrow> 'c load_balancer \<Rightarrow> 'c load_balancer result" where
  "add_inflight sid b = (case map_of (inflight b) sid of
       None \<Rightarrow> Inl KeyError
     | Some n \<Rightarrow> Inr (b\<lparr>inflight := AList.update sid (n + 1) (inflight b)\<rparr>))"

definition acquire_server ::
  "'c cache_ops \<Rightarrow> string \<Rightarrow> 'c load_balancer \<Rightarrow> (string \<times> 'c load_balancer) result" where
  "acquire_server ops rid b =
     (case cache_get ops (routes b) rid of
        Some sid \<Rightarrow> rbind (add_inflight sid (b\<lparr>routes := cache_touch ops rid (routes b)\<rparr>)) (\<lambda>b'. Inr (sid, b'))
      | None \<Rightarrow>
          case first_min (inflight b) of
            None \<Rightarrow> Inl ValueError
          | Some sid \<Rightarrow>
              rbind (cache_put ops rid sid (routes b)) (\<lambda>c.
              rbind (add_inflight sid (b\<lparr>routes := c\<rparr>)) (\<lambda>b'. Inr (sid, b'))))"

definition release_server :: "string \<Rightarrow> 'c load_balancer \<Rightarrow> 'c load_balancer result" where
  "release_server sid b = (case map_of (inflight b) sid of
       None \<Rightarrow> Inl ValueError
     | Some n \<Rightarrow> if n = 0 then Inl ValueError
                else Inr (b\<lparr>inflight := AList.update sid (n - 1) (inflight b)\<rparr>))"

section \<open>The system of balancer and workers\<close>

text \<open>
  \<open>calls\<close> holds the server of every \<open>generate\<close> in progress, \<open>releases\<close> the release messages under way.
  \<open>handles\<close> are the servers the managers know; an unknown server raises after it has been acquired, before the
  statement that would release it.
\<close>

record 'c lb_system =
  balancer :: "'c load_balancer"
  calls :: "string multiset"
  releases :: "string multiset"

inductive lb_step :: "'c cache_ops \<Rightarrow> string set \<Rightarrow> 'c lb_system \<Rightarrow> 'c lb_system \<Rightarrow> bool" for ops handles where
  generate_begins: "acquire_server ops rid (balancer s) = Inr (sid, b) \<Longrightarrow> sid \<in> handles \<Longrightarrow>
    lb_step ops handles s (s\<lparr>balancer := b, calls := add_mset sid (calls s)\<rparr>)"
| unknown_server: "acquire_server ops rid (balancer s) = Inr (sid, b) \<Longrightarrow> sid \<notin> handles \<Longrightarrow>
    lb_step ops handles s (s\<lparr>balancer := b\<rparr>)"
| acquire_raises: "acquire_server ops rid (balancer s) = Inl e \<Longrightarrow> lb_step ops handles s s"
| generate_ends: "sid \<in># calls s \<Longrightarrow>
    lb_step ops handles s (s\<lparr>calls := calls s - {#sid#}, releases := add_mset sid (releases s)\<rparr>)"
| release_handled: "sid \<in># releases s \<Longrightarrow> release_server sid (balancer s) = Inr b \<Longrightarrow>
    lb_step ops handles s (s\<lparr>balancer := b, releases := releases s - {#sid#}\<rparr>)"
| release_raises: "sid \<in># releases s \<Longrightarrow> release_server sid (balancer s) = Inl e \<Longrightarrow>
    lb_step ops handles s (s\<lparr>releases := releases s - {#sid#}\<rparr>)"

inductive lb_reachable :: "'c cache_ops \<Rightarrow> string set \<Rightarrow> string list \<Rightarrow> 'c lb_system \<Rightarrow> bool" for ops handles ids where
  lb_start: "new_balancer ops ids = Inr b \<Longrightarrow> lb_reachable ops handles ids \<lparr>balancer = b, calls = {#}, releases = {#}\<rparr>"
| lb_more: "lb_reachable ops handles ids s \<Longrightarrow> lb_step ops handles s s' \<Longrightarrow> lb_reachable ops handles ids s'"

section \<open>Choice of the server\<close>

lemma first_min_None: "first_min d = None \<longleftrightarrow> d = []"
  by (cases d) (auto split: option.splits if_splits)

lemma first_min_spec:
  "first_min d = Some k \<Longrightarrow> distinct (keys d) \<Longrightarrow>
    k \<in> set (keys d) \<and> (\<forall>j m. map_of d j = Some m \<longrightarrow> the (map_of d k) \<le> m)"
proof (induction d arbitrary: k)
  case (Cons p d)
  obtain j n where p: "p = (j, n)" by (cases p)
  show ?case
  proof (cases "first_min d")
    case None
    then have "d = []" by (simp add: first_min_None)
    then show ?thesis using Cons.prems p by (auto split: if_splits)
  next
    case (Some i)
    note IH = Cons.IH [OF Some]
    have "j \<noteq> i" "j \<notin> set (keys d)" "distinct (keys d)" using IH Cons.prems p by auto
    moreover have "n \<le> m" if "\<not> the (map_of d i) < n" "map_of d l = Some m" for l m
      using IH that \<open>distinct (keys d)\<close> by (meson leI order.trans)
    ultimately show ?thesis
      using IH Cons.prems(1) p Some by (cases "the (map_of d i) < n") (auto split: if_splits)
  qed
qed simp

text \<open>The laws of the cache: an entry that is found was stored under its key and not replaced since.\<close>

definition cache_laws :: "'c cache_ops \<Rightarrow> bool" where
  "cache_laws ops \<longleftrightarrow>
     (\<forall>k. cache_get ops (cache_empty ops) k = None) \<and>
     (\<forall>c j k. cache_get ops (cache_touch ops j c) k = cache_get ops c k) \<and>
     (\<forall>c c' j v k. cache_put ops j v c = Inr c' \<longrightarrow>
        cache_get ops c' j = Some v \<and> (k \<noteq> j \<longrightarrow> cache_get ops c' k \<in> {None, cache_get ops c k}))"

text \<open>
  A bounded cache that evicts the entry used longest ago, as a list with the latest entry first.
\<close>

definition lru_cache :: "nat \<Rightarrow> string dict cache_ops" where
  "lru_cache n = \<lparr>cache_empty = [], cache_get = map_of,
     cache_touch = (\<lambda>k c. case map_of c k of None \<Rightarrow> c | Some v \<Rightarrow> (k, v) # AList.delete k c),
     cache_put = (\<lambda>k v c. if n = 0 then Inl ValueError else Inr (take n ((k, v) # AList.delete k c)))\<rparr>"

lemma map_of_take: "map_of (take n d) k \<in> {None, map_of d k}"
  by (induction d arbitrary: n) (auto simp: take_Cons' split: if_splits)

lemma lru_cache_laws: "cache_laws (lru_cache n)"
proof -
  have "map_of (take m (AList.delete j c)) k \<in> {None, map_of c k}" if "k \<noteq> j" for m j k and c :: "string dict"
    using map_of_take [of m "AList.delete j c" k] that by (simp add: delete_conv)
  then show ?thesis
    by (auto simp: cache_laws_def lru_cache_def delete_conv take_Cons' split: option.splits if_splits)
qed

section \<open>Counting of requests\<close>

text \<open>The in-flight count of every server is the number of its calls and of its releases under way.\<close>

definition counts_agree :: "string list \<Rightarrow> 'c lb_system \<Rightarrow> bool" where
  "counts_agree ids s \<longleftrightarrow> set (keys (inflight (balancer s))) = set ids \<and>
     (\<forall>sid n. map_of (inflight (balancer s)) sid = Some n \<longrightarrow> n = Multiset.count (calls s) sid + Multiset.count (releases s) sid) \<and>
     set_mset (calls s) \<union> set_mset (releases s) \<subseteq> set ids"

lemma new_balancer_keys:
  "set (keys (fold (\<lambda>sid d. AList.update sid 0 d) ids d)) = set ids \<union> set (keys d)"
  by (induction ids arbitrary: d) (auto simp: keys_def dom_update)

lemma new_balancer_zero:
  "map_of (fold (\<lambda>sid d. AList.update sid (0 :: nat) d) ids d) sid = Some n \<Longrightarrow> n = 0 \<or> map_of d sid = Some n"
proof (induction ids arbitrary: d)
  case (Cons i ids)
  show ?case using Cons.IH [of "AList.update i 0 d"] Cons.prems by (auto simp: update_conv' split: if_splits)
qed simp

lemma add_inflight_Inr:
  "add_inflight sid b = Inr b' \<longleftrightarrow> (\<exists>n. map_of (inflight b) sid = Some n \<and> b' = b\<lparr>inflight := AList.update sid (n + 1) (inflight b)\<rparr>)"
  by (auto simp: add_inflight_def split: option.splits)

lemma acquire_server_Inr:
  assumes "acquire_server ops rid b = Inr (sid, b')"
  obtains n where "map_of (inflight b) sid = Some n" and "inflight b' = AList.update sid (n + 1) (inflight b)"
  using assms by (auto simp: acquire_server_def rbind_eq_Inr add_inflight_Inr split: option.splits)

lemma keys_update: "set (keys (AList.update k v d)) = insert k (set (keys d))"
  by (simp add: keys_def dom_update)

lemma in_keys: "k \<in> set (keys d) \<longleftrightarrow> (\<exists>v. map_of d k = Some v)"
  using map_of_eq_None_iff [of d k] by (auto simp: keys_def)

lemma known_key: "map_of d k = Some v \<Longrightarrow> k \<in> set (keys d)"
  by (drule map_of_SomeD) (force simp: keys_def)

lemma counts_agree_step:
  assumes "lb_step ops handles s s'" and "counts_agree ids s" and "set ids \<subseteq> handles"
  shows "counts_agree ids s'"
  using assms(1)
proof cases
  case (generate_begins rid sid b)
  obtain n where n: "map_of (inflight (balancer s)) sid = Some n"
    and b: "inflight b = AList.update sid (n + 1) (inflight (balancer s))"
    using generate_begins(2) by (rule acquire_server_Inr)
  have "sid \<in> set (keys (inflight (balancer s)))" using n by (rule known_key)
  then show ?thesis
    using assms(2) n by (auto simp: generate_begins(1) counts_agree_def b keys_update update_conv')
next
  case (unknown_server rid sid b)
  obtain n where "map_of (inflight (balancer s)) sid = Some n"
    using unknown_server(2) by (rule acquire_server_Inr)
  from known_key [OF this] have "sid \<in> set ids" using assms(2) unfolding counts_agree_def by simp
  then show ?thesis using unknown_server(3) assms(3) by blast
next
  case (generate_ends sid)
  then obtain C where "calls s = add_mset sid C" by (meson multi_member_split)
  then show ?thesis using generate_ends(1) assms(2) by (fastforce simp: counts_agree_def)
next
  case (release_handled sid b)
  then obtain n where n: "map_of (inflight (balancer s)) sid = Some n" "0 < n"
    and b: "b = (balancer s)\<lparr>inflight := AList.update sid (n - 1) (inflight (balancer s))\<rparr>"
    by (auto simp: release_server_def split: option.splits if_splits)
  have "sid \<in> set (keys (inflight (balancer s)))" using n(1) by (rule known_key)
  then show ?thesis
    using assms(2) n release_handled(2)
    by (auto simp: release_handled(1) counts_agree_def b keys_update update_conv' dest: in_diffD)
next
  case (release_raises sid e)
  then have "Multiset.count (releases s) sid > 0" "sid \<in> set ids" using assms(2) by (auto simp: counts_agree_def)
  then obtain n where "map_of (inflight (balancer s)) sid = Some n" "n > 0"
    using assms(2) unfolding counts_agree_def by (metis add_gr_0 in_keys)
  then show ?thesis using release_raises(3) by (simp add: release_server_def)
qed (use assms(2) in simp)

lemma reachable_counts:
  assumes "lb_reachable ops handles ids s" and "set ids \<subseteq> handles"
  shows "counts_agree ids s"
  using assms(1)
proof induction
  case (lb_start b)
  then have b: "b = \<lparr>inflight = fold (\<lambda>sid d. AList.update sid 0 d) ids [], routes = cache_empty ops\<rparr>"
    by (cases "ids = []") (simp_all add: new_balancer_def)
  show ?case
    using new_balancer_keys [of ids "[]"] new_balancer_zero [of ids "[]"] by (auto simp: counts_agree_def b)
next
  case (lb_more s s')
  then show ?case using counts_agree_step assms(2) by blast
qed

text \<open>
  When the managers know all servers, a release message that the balancer handles never raises, whatever the
  order in which the calls of all workers begin, end and release.
\<close>

theorem release_never_raises:
  assumes "lb_reachable ops handles ids s" and "set ids \<subseteq> handles" and "sid \<in># releases s"
  shows "\<exists>n. map_of (inflight (balancer s)) sid = Some n \<and> n = Multiset.count (calls s) sid + Multiset.count (releases s) sid \<and>
    release_server sid (balancer s) = Inr ((balancer s)\<lparr>inflight := AList.update sid (n - 1) (inflight (balancer s))\<rparr>)"
proof -
  have c: "counts_agree ids s" using assms(1,2) by (rule reachable_counts)
  then have "sid \<in> set (keys (inflight (balancer s)))" using assms(3) unfolding counts_agree_def by auto
  then obtain n where n: "map_of (inflight (balancer s)) sid = Some n"
    by (auto simp: in_keys)
  moreover have "n = Multiset.count (calls s) sid + Multiset.count (releases s) sid"
    using c n unfolding counts_agree_def by blast
  moreover have "n \<noteq> 0" using calculation(2) assms(3) by simp
  ultimately show ?thesis by (simp add: release_server_def)
qed

definition demo_balancer :: "string dict lb_system" where
  "demo_balancer = \<lparr>balancer = \<lparr>inflight = [(''a'', 1), (''b'', 0)], routes = [(''r'', ''a'')]\<rparr>, calls = {#}, releases = {#''a''#}\<rparr>"

lemma demo_balancer_reachable: "lb_reachable (lru_cache 2) {''a'', ''b''} [''a'', ''b''] demo_balancer"
proof -
  let ?ops = "lru_cache 2" and ?hs = "{''a'', ''b''}" and ?ids = "[''a'', ''b'']"
  let ?b0 = "\<lparr>inflight = [(''a'', 0), (''b'', 0)], routes = []\<rparr> :: string dict load_balancer"
  let ?b1 = "\<lparr>inflight = [(''a'', 1), (''b'', 0)], routes = [(''r'', ''a'')]\<rparr> :: string dict load_balancer"
  have 0: "lb_reachable ?ops ?hs ?ids \<lparr>balancer = ?b0, calls = {#}, releases = {#}\<rparr>"
    by (rule lb_start) (simp add: new_balancer_def lru_cache_def)
  have "acquire_server ?ops ''r'' ?b0 = Inr (''a'', ?b1)"
    by (simp add: acquire_server_def add_inflight_def lru_cache_def)
  then have 1: "lb_reachable ?ops ?hs ?ids \<lparr>balancer = ?b1, calls = {#''a''#}, releases = {#}\<rparr>"
    using lb_more [OF 0 generate_begins [of ?ops "''r''" _ "''a''" ?b1 ?hs]] by simp
  show ?thesis
    using lb_more [OF 1 generate_ends [of "''a''" _ ?ops ?hs]] by (simp add: demo_balancer_def)
qed

lemma release_never_raises_witness:
  "\<exists>n. map_of (inflight (balancer demo_balancer)) ''a'' = Some n \<and> n = 1"
  using release_never_raises [OF demo_balancer_reachable, of "''a''"] by (auto simp: demo_balancer_def)

text \<open>
  C17: A request of a conversation that has a route goes to the server of its last request; a new one goes to the
  first of the servers with the fewest requests in flight. Afterwards the route of the conversation is that server.
\<close>

theorem sticky_or_least_loaded:
  assumes "cache_laws ops" and "distinct (keys (inflight b))" and "acquire_server ops rid b = Inr (sid, b')"
  shows "cache_get ops (routes b') rid = Some sid \<and>
    (cache_get ops (routes b) rid = Some sid \<or>
     cache_get ops (routes b) rid = None \<and> first_min (inflight b) = Some sid \<and>
       the (map_of (inflight b) sid) = Min (snd ` set (inflight b)))"
proof (cases "cache_get ops (routes b) rid")
  case None
  then obtain c where f: "first_min (inflight b) = Some sid" and c: "cache_put ops rid sid (routes b) = Inr c" "routes b' = c"
    using assms(3) by (auto simp: acquire_server_def rbind_eq_Inr add_inflight_Inr split: option.splits)
  have g: "cache_get ops c rid = Some sid" using assms(1) c(1) unfolding cache_laws_def by blast
  have "sid \<in> set (keys (inflight b))" using first_min_spec [OF f assms(2)] by blast
  then obtain n where n: "map_of (inflight b) sid = Some n" by (auto simp: in_keys)
  have "n \<in> snd ` set (inflight b)" using map_of_SomeD [OF n] by force
  moreover have "n \<le> m" if "m \<in> snd ` set (inflight b)" for m
  proof -
    from that obtain x where "x \<in> set (inflight b)" "m = snd x" by blast
    then have "(fst x, m) \<in> set (inflight b)" by simp
    then have "map_of (inflight b) (fst x) = Some m" using assms(2) by (simp add: keys_def)
    then show ?thesis using first_min_spec [OF f assms(2)] n by force
  qed
  ultimately have "n = Min (snd ` set (inflight b))" by (intro Min_eqI [symmetric]) auto
  then show ?thesis using None f g c(2) n by simp
next
  case (Some s)
  then show ?thesis
    using assms(1,3) by (auto simp: acquire_server_def rbind_eq_Inr add_inflight_Inr cache_laws_def)
qed

lemma sticky_or_least_loaded_witness:
  "\<exists>b'. acquire_server (lru_cache 2) ''q'' (balancer demo_balancer) = Inr (''b'', b') \<and>
    cache_get (lru_cache 2) (routes b') ''q'' = Some ''b''"
proof -
  obtain b' where a: "acquire_server (lru_cache 2) ''q'' (balancer demo_balancer) = Inr (''b'', b')"
    by (simp add: acquire_server_def add_inflight_def lru_cache_def demo_balancer_def)
  have "distinct (keys (inflight (balancer demo_balancer)))" by (simp add: demo_balancer_def)
  then show ?thesis using sticky_or_least_loaded [OF lru_cache_laws _ a] a by blast
qed

end
