(* ===== verification/Tool_Agent.thy ===== *)
theory Tool_Agent
  imports Torch_Functional Py_String Data_Proto
begin

text \<open>
  The agent loop with tools (\<open>verl/experimental/agent_loop/tool_agent_loop.py\<close>), with the response formatting of
  \<open>agent_loop/utils.py\<close> and the agent loop of a single turn (\<open>single_turn_agent_loop.py\<close>).

  The inference server, the chat template, the tokenizer, the tool parser, the tools and the interaction are
  parameters, collected in the record \<open>environment\<close>. A call to a service that keeps state gets the number of the
  turn as an argument (a tool also its position among the calls of the turn), so its answer may depend on everything
  that happened before, in any interleaving. Images, videos, routing data and parsed arguments are objects of one
  type \<open>'o\<close> that the loop only passes on. Tools are assumed to leave the token lists of the agent data alone; time
  measurements and logging have no counterpart.
\<close>

section \<open>Data\<close>

datatype agent_state = PENDING | GENERATING | PROCESSING_TOOLS | TERMINATED | INTERACTING

datatype part = Image_Part | Video_Part | Text_Part string

datatype message_content = Plain string | Parts "part list"

record chat_message =
  role :: string
  msg_content :: message_content

record function_call =
  arguments :: string
  call_name :: string

record 'o tool_response =
  tool_text :: "string option"
  tool_image :: "'o option list option"
  tool_video :: "'o option list option"

text \<open>
  A value of \<open>extra_fields\<close>: what the server sent, a list of rewards, and what the worker adds to the output: the
  messages of the sample and the information of the reward function.
\<close>

datatype 'o extra = Server_Value 'o | Rewards "real list" | Raw_Prompt "chat_message list" | Reward_Info "'o dict"

record 'o token_output =
  token_ids :: "int list"
  log_probs :: "real list option"
  routed :: "'o option"
  num_preempted :: "int option"
  out_extra :: "'o dict"

record 'o agent_data =
  messages :: "chat_message list"
  image_data :: "'o list option"
  video_data :: "'o list option"
  preempted :: "int option"
  prompt_ids :: "int list"
  response_ids :: "int list"
  response_mask :: "int list"
  response_logprobs :: "real list"
  turn_scores :: "real list"
  tool_rewards :: "real list"
  user_turns :: nat
  assistant_turns :: nat
  tool_calls :: "function_call list"
  routed_experts :: "'o option"
  extra_fields :: "'o extra dict"

definition new_agent_data :: "chat_message list \<Rightarrow> 'o list option \<Rightarrow> 'o list option \<Rightarrow> 'o agent_data" where
  "new_agent_data msgs images videos =
     \<lparr>messages = msgs, image_data = images, video_data = videos, preempted = None, prompt_ids = [],
      response_ids = [], response_mask = [], response_logprobs = [], turn_scores = [], tool_rewards = [],
      user_turns = 0, assistant_turns = 0, tool_calls = [], routed_experts = None, extra_fields = []\<rparr>"

record agent_config =
  max_user_turns :: "int option"
  max_assistant_turns :: "int option"
  max_parallel_calls :: int
  max_tool_response_length :: int
  truncate_side :: string
  tool_format :: string
  response_length :: int
  interactive :: bool
  image_processor :: bool

record 'o environment =
  template :: "chat_message list \<Rightarrow> bool \<Rightarrow> 'o list option \<Rightarrow> 'o list option \<Rightarrow> int list result"
  system_prompt :: "int list"
  generate :: "nat \<Rightarrow> int list \<Rightarrow> 'o list option \<Rightarrow> 'o list option \<Rightarrow> 'o token_output result"
  extract_tool_calls :: "int list \<Rightarrow> (string \<times> function_call list) result"
  decode :: "int list \<Rightarrow> string"
  encode :: "string \<Rightarrow> int list"
  show_parts :: "part list \<Rightarrow> string"
  load_arguments :: "string \<Rightarrow> string + 'o"
  tool_names :: "string list"
  key_error :: "string \<Rightarrow> string"
  create_tool :: "nat \<Rightarrow> nat \<Rightarrow> string \<Rightarrow> string + string"
  execute_tool :: "nat \<Rightarrow> nat \<Rightarrow> string \<Rightarrow> string \<Rightarrow> 'o \<Rightarrow> string + 'o tool_response \<times> real option"
  release_tool :: "nat \<Rightarrow> nat \<Rightarrow> string \<Rightarrow> string \<Rightarrow> unit result"
  generate_response :: "nat \<Rightarrow> chat_message list \<Rightarrow> (bool \<times> string \<times> real option) result"
  object_truth :: "'o \<Rightarrow> bool"
  interaction_names :: "string list"
  start_interaction :: "string \<Rightarrow> unit result"

section \<open>Python helpers\<close>

text \<open>Slices \<open>xs[:n]\<close> and \<open>xs[-n:]\<close> with an integer bound of any sign.\<close>

definition py_upto :: "int \<Rightarrow> 'a list \<Rightarrow> 'a list" where
  "py_upto n xs = (if 0 \<le> n then take (nat n) xs else take (length xs - nat (- n)) xs)"

definition py_tail :: "int \<Rightarrow> 'a list \<Rightarrow> 'a list" where
  "py_tail n xs = (if 0 \<le> n then py_last (nat n) xs else drop (nat (- n)) xs)"

text \<open>The truth value of an optional integer and of an optional list.\<close>

definition int_truth :: "int option \<Rightarrow> bool" where
  "int_truth x \<longleftrightarrow> x \<noteq> None \<and> x \<noteq> Some 0"

definition list_truth :: "'a list option \<Rightarrow> bool" where
  "list_truth x \<longleftrightarrow> x \<noteq> None \<and> x \<noteq> Some []"

section \<open>The chat template\<close>

text \<open>\<open>AgentLoopBase.apply_chat_template\<close>; the flag of the template says whether the tool schemas are passed.\<close>

definition apply_chat_template ::
  "'o environment \<Rightarrow> chat_message list \<Rightarrow> bool \<Rightarrow> 'o list option \<Rightarrow> 'o list option \<Rightarrow> bool \<Rightarrow> int list result" where
  "apply_chat_template env msgs with_tools images videos remove_system_prompt =
     rbind (template env msgs with_tools images videos) (\<lambda>ids.
       Inr (if remove_system_prompt then drop (length (system_prompt env)) ids else ids))"

section \<open>A tool call\<close>

definition truncate_text :: "agent_config \<Rightarrow> string \<Rightarrow> string" where
  "truncate_text cfg t =
     (let m = max_tool_response_length cfg in
      if t \<noteq> [] \<and> m < int (length t)
      then if truncate_side cfg = ''left'' then py_upto m t @ ''...(truncated)''
           else if truncate_side cfg = ''right'' then ''(truncated)...'' @ py_tail m t
           else py_upto (m div 2) t @ ''...(truncated)...'' @ py_tail (m div 2) t
      else t)"

text \<open>
  The body of the \<open>try\<close> statement of \<open>_call_tool\<close>: the instance it leaves to be released, and the text of the
  exception or the answer of the tool.
\<close>

definition attempt_tool ::
  "'o environment \<Rightarrow> nat \<Rightarrow> nat \<Rightarrow> function_call \<Rightarrow> string option \<times> (string + 'o tool_response \<times> real option)" where
  "attempt_tool env turn i call =
     (case load_arguments env (arguments call) of
        Inl e \<Rightarrow> (None, Inl e)
      | Inr args \<Rightarrow>
          if call_name call \<notin> set (tool_names env) then (None, Inl (key_error env (call_name call)))
          else case create_tool env turn i (call_name call) of
                 Inl e \<Rightarrow> (None, Inl e)
               | Inr inst \<Rightarrow> (Some inst, execute_tool env turn i (call_name call) inst args))"

definition call_tool ::
  "'o environment \<Rightarrow> agent_config \<Rightarrow> nat \<Rightarrow> nat \<Rightarrow> function_call \<Rightarrow> ('o tool_response \<times> real option) result" where
  "call_tool env cfg turn i call =
     (case attempt_tool env turn i call of
        (inst, out) \<Rightarrow>
          rbind (case inst of
                   None \<Rightarrow> Inr ()
                 | Some x \<Rightarrow> if x = [] then Inr () else release_tool env turn i (call_name call) x) (\<lambda>_.
            case out of
              Inl e \<Rightarrow> Inr (\<lparr>tool_text = Some (''Error when executing tool: '' @ e), tool_image = None, tool_video = None\<rparr>, Some 0)
            | Inr (response, reward) \<Rightarrow>
                Inr (response\<lparr>tool_text := map_option (truncate_text cfg) (tool_text response)\<rparr>, reward)))"

section \<open>Responses of tools\<close>

definition tool_message :: "agent_config \<Rightarrow> 'o tool_response \<Rightarrow> chat_message result" where
  "tool_message cfg r =
     (if list_truth (tool_image r) \<or> list_truth (tool_video r)
      then ensure (image_processor cfg) ValueError (Inr \<lparr>role = ''tool'', msg_content = Parts
             ((if list_truth (tool_image r) then [Image_Part] else []) @
              (if list_truth (tool_video r) then [Video_Part] else []) @
              (if list_truth (tool_text r) then [Text_Part (the (tool_text r))] else []))\<rparr>)
      else Inr \<lparr>role = ''tool'', msg_content = Plain (case tool_text r of None \<Rightarrow> [] | Some t \<Rightarrow> t)\<rparr>)"

text \<open>The loop over the responses: the messages, the new images and the rewards, in order.\<close>

definition response_images :: "'o tool_response \<Rightarrow> 'o list" where
  "response_images r = (case tool_image r of None \<Rightarrow> [] | Some xs \<Rightarrow> List.map_filter (\<lambda>x. x) xs)"

fun process_responses ::
  "agent_config \<Rightarrow> ('o tool_response \<times> real option) list \<Rightarrow> (chat_message list \<times> 'o list \<times> real list) result" where
  "process_responses cfg [] = Inr ([], [], [])"
| "process_responses cfg ((r, reward) # rs) =
     rbind (tool_message cfg r) (\<lambda>m.
       ensure (\<not> list_truth (tool_video r)) NotImplementedError
         (rbind (process_responses cfg rs) (\<lambda>(ms, images, rewards).
            Inr (m # ms, response_images r @ images,
                 (case reward of None \<Rightarrow> rewards | Some x \<Rightarrow> x # rewards)))))"

definition format_gpt_oss_tool_response_manually :: "string \<Rightarrow> string \<Rightarrow> string" where
  "format_gpt_oss_tool_response_manually response tool =
     ''<|start|>functions.'' @ tool @ '' to=assistant<|channel|>commentary<|message|>'' @ response @ ''<|end|>''"

definition build_gpt_oss_tool_response_text :: "(part list \<Rightarrow> string) \<Rightarrow> chat_message list \<Rightarrow> string list \<Rightarrow> string result" where
  "build_gpt_oss_tool_response_text show_p msgs tools =
     rbind (mapM_result (\<lambda>i. rbind (py_get tools i) (\<lambda>tool.
              Inr (format_gpt_oss_tool_response_manually
                (case msg_content (msgs ! i) of Plain t \<Rightarrow> t | Parts ps \<Rightarrow> show_p ps) tool))) [0..<length msgs]) (\<lambda>texts.
       Inr (concat texts @ ''<|start|>assistant''))"

section \<open>The handlers\<close>

definition handle_pending_state :: "'o environment \<Rightarrow> 'o agent_data \<Rightarrow> (agent_state \<times> 'o agent_data) result" where
  "handle_pending_state env d =
     rbind (apply_chat_template env (messages d) True (image_data d) (video_data d) False) (\<lambda>ids.
       Inr (GENERATING, d\<lparr>prompt_ids := ids\<rparr>))"

text \<open>The bookkeeping of the server's answer, before the termination checks.\<close>

definition merge_extra :: "('o \<Rightarrow> bool) \<Rightarrow> 'o extra dict \<Rightarrow> 'o dict \<Rightarrow> 'o extra dict" where
  "merge_extra truth old new =
     (if old = [] then dict_map Server_Value new
      else case map_of new ''max_global_steps'' of
             None \<Rightarrow> old
           | Some v \<Rightarrow> if truth v then AList.update ''max_global_steps'' (Server_Value v) old else old)"

definition add_generation :: "'o environment \<Rightarrow> 'o token_output \<Rightarrow> 'o agent_data \<Rightarrow> 'o agent_data" where
  "add_generation env out d = d\<lparr>
     preempted := (case preempted d of
         None \<Rightarrow> Some (case num_preempted out of None \<Rightarrow> - 1 | Some n \<Rightarrow> n)
       | Some k \<Rightarrow> Some (k + (case num_preempted out of None \<Rightarrow> 0 | Some n \<Rightarrow> n))),
     extra_fields := merge_extra (object_truth env) (extra_fields d) (out_extra out),
     assistant_turns := assistant_turns d + 1,
     response_ids := token_ids out,
     prompt_ids := prompt_ids d @ token_ids out,
     response_mask := response_mask d @ replicate (length (token_ids out)) 1,
     response_logprobs := response_logprobs d @ (case log_probs out of None \<Rightarrow> [] | Some ls \<Rightarrow> ls),
     routed_experts := (case routed out of None \<Rightarrow> routed_experts d | Some x \<Rightarrow> Some x)\<rparr>"

definition turn_limit_reached :: "int option \<Rightarrow> nat \<Rightarrow> bool" where
  "turn_limit_reached limit turns \<longleftrightarrow> int_truth limit \<and> the limit \<le> int turns"

definition must_stop :: "agent_config \<Rightarrow> 'o agent_data \<Rightarrow> bool" where
  "must_stop cfg d \<longleftrightarrow> response_length cfg \<le> int (length (response_mask d))
     \<or> turn_limit_reached (max_assistant_turns cfg) (assistant_turns d)
     \<or> turn_limit_reached (max_user_turns cfg) (user_turns d)"

definition handle_generating_state ::
  "'o environment \<Rightarrow> agent_config \<Rightarrow> 'o agent_data \<Rightarrow> (agent_state \<times> 'o agent_data) result" where
  "handle_generating_state env cfg d =
     rbind (generate env (assistant_turns d) (prompt_ids d) (image_data d) (video_data d)) (\<lambda>out.
       let d = add_generation env out d in
       if must_stop cfg d then Inr (TERMINATED, d)
       else rbind (extract_tool_calls env (response_ids d)) (\<lambda>(_, calls).
              let d = d\<lparr>tool_calls := calls\<rparr>;
                  d = (if interactive cfg
                       then d\<lparr>messages := messages d @ [\<lparr>role = ''assistant'', msg_content = Plain (decode env (response_ids d))\<rparr>]\<rparr>
                       else d)
              in Inr (if calls \<noteq> [] then PROCESSING_TOOLS else if interactive cfg then INTERACTING else TERMINATED, d)))"

text \<open>Tokens of a tool or a user appended to the conversation.\<close>

definition add_observation :: "int list \<Rightarrow> 'o agent_data \<Rightarrow> 'o agent_data" where
  "add_observation ids d = d\<lparr>
     prompt_ids := prompt_ids d @ ids,
     response_mask := response_mask d @ replicate (length ids) 0,
     response_logprobs := (if response_logprobs d \<noteq> [] then response_logprobs d @ replicate (length ids) 0
                           else response_logprobs d)\<rparr>"

definition tool_response_ids ::
  "'o environment \<Rightarrow> agent_config \<Rightarrow> chat_message list \<Rightarrow> string list \<Rightarrow> 'o list \<Rightarrow> int list result" where
  "tool_response_ids env cfg msgs tools images =
     (if tool_format cfg = ''gpt-oss''
      then rbind (build_gpt_oss_tool_response_text (show_parts env) msgs tools) (\<lambda>t. Inr (encode env t))
      else apply_chat_template env msgs False (if images \<noteq> [] then Some images else None) None True)"

definition handle_processing_tools_state ::
  "'o environment \<Rightarrow> agent_config \<Rightarrow> 'o agent_data \<Rightarrow> (agent_state \<times> 'o agent_data) result" where
  "handle_processing_tools_state env cfg d =
     (let calls = py_upto (max_parallel_calls cfg) (tool_calls d) in
      rbind (mapM_result (\<lambda>i. call_tool env cfg (assistant_turns d) i (calls ! i)) [0..<length calls]) (\<lambda>responses.
      rbind (process_responses cfg responses) (\<lambda>(msgs, images, rewards).
        let d = d\<lparr>tool_rewards := tool_rewards d @ rewards, messages := messages d @ msgs\<rparr> in
        rbind (tool_response_ids env cfg msgs (map call_name calls) images) (\<lambda>ids.
          if response_length cfg \<le> int (length (response_mask d) + length ids) then Inr (TERMINATED, d)
          else
            let d = (if images \<noteq> []
                     then d\<lparr>image_data := Some ((case image_data d of None \<Rightarrow> [] | Some xs \<Rightarrow> xs) @ images)\<rparr> else d)
            in Inr (GENERATING, (add_observation ids d)\<lparr>user_turns := user_turns d + 1\<rparr>)))))"

definition handle_interacting_state ::
  "'o environment \<Rightarrow> 'o agent_data \<Rightarrow> (agent_state \<times> 'o agent_data) result" where
  "handle_interacting_state env d =
     rbind (generate_response env (user_turns d) (messages d)) (\<lambda>(stop, text, reward).
       let msgs = [\<lparr>role = ''user'', msg_content = Plain text\<rparr>];
           d = d\<lparr>user_turns := user_turns d + 1, messages := messages d @ msgs,
                turn_scores := (case reward of None \<Rightarrow> turn_scores d | Some x \<Rightarrow> turn_scores d @ [x])\<rparr>
       in rbind (apply_chat_template env msgs False None None True) (\<lambda>ids.
            Inr (if stop then TERMINATED else GENERATING, add_observation ids d)))"

section \<open>The loop\<close>

definition agent_step ::
  "'o environment \<Rightarrow> agent_config \<Rightarrow> agent_state \<Rightarrow> 'o agent_data \<Rightarrow> (agent_state \<times> 'o agent_data) result" where
  "agent_step env cfg st d = (case st of
       PENDING \<Rightarrow> handle_pending_state env d
     | GENERATING \<Rightarrow> handle_generating_state env cfg d
     | PROCESSING_TOOLS \<Rightarrow> handle_processing_tools_state env cfg d
     | INTERACTING \<Rightarrow> handle_interacting_state env d
     | TERMINATED \<Rightarrow> Inr (TERMINATED, d))"

partial_function (option) agent_loop ::
  "'o environment \<Rightarrow> agent_config \<Rightarrow> agent_state \<Rightarrow> 'o agent_data \<Rightarrow> 'o agent_data result option" where
  "agent_loop env cfg st d =
     (if st = TERMINATED then Some (Inr d)
      else case agent_step env cfg st d of
             Inl e \<Rightarrow> Some (Inl e)
           | Inr (st', d') \<Rightarrow> agent_loop env cfg st' d')"

section \<open>The output\<close>

record 'o agent_output =
  out_prompt :: "int list"
  out_response :: "int list"
  out_mask :: "int list"
  out_logprobs :: "real list option"
  out_experts :: "'o option"
  out_images :: "'o list option"
  out_videos :: "'o list option"
  num_turns :: nat
  out_preempted :: "int option"
  out_fields :: "'o extra dict"

definition finalize_output :: "agent_config \<Rightarrow> 'o agent_data \<Rightarrow> 'o agent_output" where
  "finalize_output cfg d =
     (let n = length (response_mask d); L = response_length cfg in
      \<lparr>out_prompt = take (length (prompt_ids d) - n) (prompt_ids d),
       out_response = py_upto L (py_last n (prompt_ids d)),
       out_mask = py_upto L (response_mask d),
       out_logprobs = (if response_logprobs d \<noteq> [] then Some (py_upto L (response_logprobs d)) else None),
       out_experts = routed_experts d,
       out_images = image_data d,
       out_videos = video_data d,
       num_turns = user_turns d + assistant_turns d + 1,
       out_preempted = preempted d,
       out_fields = AList.update ''tool_rewards'' (Rewards (tool_rewards d))
                      (AList.update ''turn_scores'' (Rewards (turn_scores d)) (extra_fields d))\<rparr>)"

text \<open>
  The look-up of the interaction by the name in the sample's \<open>interaction_kwargs\<close>, and the whole of
  \<open>ToolAgentLoop.run\<close>; \<open>None\<close> is a run that does not end.
\<close>

definition initialize_interaction :: "'o environment \<Rightarrow> agent_config \<Rightarrow> string option \<Rightarrow> unit result" where
  "initialize_interaction env cfg name =
     (if interactive cfg
      then case name of
             None \<Rightarrow> Inl ValueError
           | Some n \<Rightarrow> ensure (n \<in> set (interaction_names env)) ValueError (start_interaction env n)
      else Inr ())"

definition run_tool_agent ::
  "'o environment \<Rightarrow> agent_config \<Rightarrow> string option \<Rightarrow> chat_message list \<Rightarrow> 'o list option \<Rightarrow> 'o list option \<Rightarrow>
   'o agent_output result option" where
  "run_tool_agent env cfg interaction msgs images videos =
     (case initialize_interaction env cfg interaction of
        Inl e \<Rightarrow> Some (Inl e)
      | Inr _ \<Rightarrow> map_option (\<lambda>r. rbind r (\<lambda>d. Inr (finalize_output cfg d)))
          (agent_loop env cfg PENDING (new_agent_data msgs images videos)))"

text \<open>The agent loop of a single turn; the routing data is cut to the given number of rows by a parameter.\<close>

definition run_single_turn ::
  "'o environment \<Rightarrow> (nat \<Rightarrow> 'o \<Rightarrow> 'o) \<Rightarrow> nat \<Rightarrow> chat_message list \<Rightarrow> 'o list option \<Rightarrow> 'o list option \<Rightarrow> 'o agent_output result" where
  "run_single_turn env cut_rows L msgs images videos =
     rbind (apply_chat_template env msgs False images videos False) (\<lambda>ids.
     rbind (generate env 0 ids images videos) (\<lambda>out.
       Inr \<lparr>out_prompt = ids,
            out_response = take L (token_ids out),
            out_mask = take L (replicate (length (token_ids out)) 1),
            out_logprobs = (if list_truth (log_probs out) then Some (take L (the (log_probs out))) else None),
            out_experts = map_option (cut_rows (length ids + L)) (routed out),
            out_images = images,
            out_videos = videos,
            num_turns = 2,
            out_preempted = Some (case num_preempted out of None \<Rightarrow> - 1 | Some n \<Rightarrow> n),
            out_fields = AList.update ''tool_rewards'' (Rewards [])
                           (AList.update ''turn_scores'' (Rewards []) (dict_map Server_Value (out_extra out)))\<rparr>))"

end
