(* ===== verification/Agent_Output.thy ===== *)
theory Agent_Output
  imports Teacher_Batch Reward_Managers Tool_Agent
begin

text \<open>
  From the outputs of agent loops to the batch of the trainer (\<open>AgentLoopWorker\<close> of
  \<open>verl/experimental/agent_loop/agent_loop.py\<close>): padding of one output, its score, and the combination of the padded
  rows into a container. The case without a processor is modelled, so there are no multi-modal inputs and the
  position ids are the ones of the attention mask. \<open>tokenizer.pad\<close> is a parameter, as are the reward worker and
  the rows of a routing object.
\<close>

section \<open>One output\<close>

text \<open>\<open>tokenizer.pad\<close> to a length on a side (true for the left one): the padded ids and their attention mask.\<close>

type_synonym pad_fn = "bool \<Rightarrow> nat \<Rightarrow> int list \<Rightarrow> int list \<times> int list"

record 'o agent_row =
  row_prompt :: "int list"
  row_response :: "int list"
  row_input :: "int list"
  row_attention :: "int list"
  row_mask :: "int list"
  row_position :: "int list"
  row_logprobs :: "vec option"
  row_experts :: "mat option"
  row_score :: "real option"
  row_turns :: nat
  row_preempted :: "int option"
  row_fields :: "'o extra dict"

text \<open>The product of two tensors of shape \<open>(1, n)\<close> and \<open>(1, m)\<close>: a single column is broadcast.\<close>

definition mul_rows :: "int list \<Rightarrow> int list \<Rightarrow> int list result" where
  "mul_rows xs ys =
     (if length xs = length ys then Inr (map2 (*) xs ys)
      else if length xs = 1 then Inr (map ((*) (hd xs)) ys)
      else if length ys = 1 then Inr (map (\<lambda>x. x * hd ys) xs)
      else Inl RuntimeError)"

definition target_length :: "nat option \<Rightarrow> nat \<Rightarrow> nat" where
  "target_length given dflt = (case given of None \<Rightarrow> dflt | Some n \<Rightarrow> if n = 0 then dflt else n)"

text \<open>
  The routing data of the tokens, placed where the unpadded prompt starts, with zeros elsewhere; assigning a slice
  needs one row per position or a single row.
\<close>

definition place_experts :: "vec \<Rightarrow> nat \<Rightarrow> nat \<Rightarrow> nat \<Rightarrow> mat \<Rightarrow> mat result" where
  "place_experts zero total_len prompt_width n_prompt rows =
     (let start_pos = int prompt_width - int n_prompt;
          end_pos = min (start_pos + int (length rows)) (int total_len)
      in if start_pos < 0 \<or> int total_len < end_pos then Inl ValueError
         else let n = nat (end_pos - start_pos)
              in ensure (length rows = n \<or> length rows = 1) RuntimeError
                   (Inr (replicate (nat start_pos) zero @
                         (if length rows = n then rows else replicate n (hd rows)) @
                         replicate (total_len - nat start_pos - n) zero)))"

text \<open>The score of one sample: a given one is kept, otherwise the reward worker is asked if there is one.\<close>

type_synonym 'o score_row = "'o agent_row \<Rightarrow> (real \<times> 'o dict) result"

definition compute_row_score :: "'o score_row option \<Rightarrow> 'o agent_row \<Rightarrow> 'o agent_row result" where
  "compute_row_score scorer row =
     (case (row_score row, scorer) of
        (None, Some f) \<Rightarrow> rbind (f row) (\<lambda>(score, info).
           Inr (row\<lparr>row_score := Some score,
                    row_fields := AList.update ''reward_extra_info'' (Reward_Info info) (row_fields row)\<rparr>))
      | _ \<Rightarrow> Inr row)"

definition agent_loop_postprocess ::
  "pad_fn \<Rightarrow> ('o \<Rightarrow> mat) \<Rightarrow> vec \<Rightarrow> 'o score_row option \<Rightarrow> nat \<Rightarrow> nat option \<Rightarrow> nat \<Rightarrow> chat_message list \<Rightarrow>
   real option \<Rightarrow> 'o agent_output \<Rightarrow> 'o agent_row result" where
  "agent_loop_postprocess pad expert_rows zero scorer prompt_length target dflt raw_prompt given_score out =
     (let L = target_length target dflt;
          prompt = py_last prompt_length (out_prompt out);
          (p_ids, p_att) = pad True prompt_length prompt;
          (r_ids, r_att) = pad False L (out_response out);
          (m_ids, _) = pad False L (out_mask out);
          logprobs = map_option (\<lambda>ls. ls @ replicate (L - length ls) 0) (out_logprobs out)
      in rbind (mul_rows m_ids r_att) (\<lambda>msk.
         rbind (case out_experts out of
                  None \<Rightarrow> Inr None
                | Some e \<Rightarrow> rbind (place_experts zero (length p_ids + length r_ids) (length p_ids) (length prompt) (expert_rows e))
                             (\<lambda>x. Inr (Some x))) (\<lambda>experts.
         compute_row_score scorer
           \<lparr>row_prompt = p_ids, row_response = r_ids, row_input = p_ids @ r_ids, row_attention = p_att @ r_att,
            row_mask = msk, row_position = compute_position_id_with_mask (p_att @ r_att), row_logprobs = logprobs,
            row_experts = experts, row_score = given_score, row_turns = num_turns out, row_preempted = out_preempted out,
            row_fields = AList.update ''raw_prompt'' (Raw_Prompt raw_prompt) (out_fields out)\<rparr>)))"

section \<open>The batch\<close>

text \<open>Entries of the arrays and atoms of the meta information.\<close>

datatype 'o agent_cell = Turns nat | Field "'o extra option" | Info 'o | No_Inputs

datatype agent_meta = Preempted "int option" | Key string

type_synonym 'o agent_batch = "(vec, 'o agent_cell, agent_meta) dataproto"

text \<open>\<open>torch.cat\<close> of one row per sample along the batch: the rows must have one width.\<close>

definition cat_tensors :: "vec list \<Rightarrow> mat result" where
  "cat_tensors rows = ensure (rows \<noteq> [] \<and> (\<forall>r \<in> set rows. length r = length (hd rows))) RuntimeError (Inr rows)"

definition cat_ints :: "int list list \<Rightarrow> mat result" where
  "cat_ints rows = cat_tensors (map (map real_of_int) rows)"

text \<open>A tensor that only the outputs with log-probabilities or routing data have: the first sample decides.\<close>

definition cat_optional :: "string \<Rightarrow> vec option list \<Rightarrow> mat dict result" where
  "cat_optional name rows =
     (case rows of
        Some _ # _ \<Rightarrow>
          rbind (mapM_result (\<lambda>r. case r of None \<Rightarrow> Inl TypeError | Some x \<Rightarrow> Inr x) rows) (\<lambda>xs.
          rbind (cat_tensors xs) (\<lambda>t. Inr [(name, t)]))
      | _ \<Rightarrow> Inr [])"

definition reward_info :: "'o agent_row \<Rightarrow> 'o dict" where
  "reward_info row = (case map_of (row_fields row) ''reward_extra_info'' of Some (Reward_Info d) \<Rightarrow> d | _ \<Rightarrow> [])"

definition info_column :: "'o agent_row list \<Rightarrow> string \<Rightarrow> (string \<times> 'o agent_cell list) result" where
  "info_column rows k =
     rbind (mapM_result (\<lambda>row. case map_of (reward_info row) k of None \<Rightarrow> Inl KeyError | Some v \<Rightarrow> Inr (Info v)) rows)
       (\<lambda>col. Inr (k, col))"

definition default_extra_keys :: "string list" where
  "default_extra_keys = [''turn_scores'', ''tool_rewards'', ''min_global_steps'', ''max_global_steps'', ''extras'']"

definition field_columns :: "'o agent_row list \<Rightarrow> 'o agent_cell list dict" where
  "field_columns rows =
     map (\<lambda>k. (k, map (\<lambda>row. Field (map_of (row_fields row) k)) rows))
       (remdups (concat (map (\<lambda>row. keys (row_fields row)) rows) @ default_extra_keys))"

text \<open>The scores on the last token of each response, when every sample has one.\<close>

definition rm_scores_of :: "'o agent_row list \<Rightarrow> mat dict result" where
  "rm_scores_of rows =
     (if list_all (\<lambda>row. row_score row \<noteq> None) rows
      then rbind (mapM_result (\<lambda>row.
             reward_at (length (row_mask row)) (nat (sum_list (drop (length (row_prompt row)) (row_attention row)))) (the (row_score row))) rows)
             (\<lambda>m. Inr [(''rm_scores'', m)])
      else Inr [])"

text \<open>\<open>_postprocess\<close>; the last argument are the arrays of the input when there are no reward workers.\<close>

definition combine_rows :: "'o agent_row list \<Rightarrow> 'o agent_cell list dict option \<Rightarrow> 'o agent_batch result" where
  "combine_rows rows input_non_tensor =
     rbind (cat_ints (map row_prompt rows)) (\<lambda>prompts.
     rbind (cat_ints (map row_response rows)) (\<lambda>responses.
     rbind (cat_ints (map row_mask rows)) (\<lambda>msk.
     rbind (cat_ints (map row_attention rows)) (\<lambda>attention.
     rbind (cat_ints (map row_input rows)) (\<lambda>inputs.
     rbind (cat_ints (map row_position rows)) (\<lambda>positions.
     rbind (cat_optional ''rollout_log_probs'' (map row_logprobs rows)) (\<lambda>logprobs.
     rbind (cat_optional ''routed_experts'' (map (\<lambda>row. map_option concat (row_experts row)) rows)) (\<lambda>experts.
     rbind (rm_scores_of rows) (\<lambda>rm.
     rbind (mapM_result (info_column rows) (keys (reward_info (hd rows)))) (\<lambda>infos.
       Data_Proto.make
         (Some \<lparr>td_size = length rows,
                td_items = [(''prompts'', prompts), (''responses'', responses), (''response_mask'', msk),
                  (''input_ids'', inputs), (''attention_mask'', attention), (''position_ids'', positions)] @
                  logprobs @ experts @ rm\<rparr>)
         (obj_update
            (obj_update [(''__num_turns__'', map (\<lambda>row. Turns (row_turns row)) rows)]
              ((case input_non_tensor of None \<Rightarrow> [] | Some d \<Rightarrow> d) @ infos @ [(''multi_modal_inputs'', map (\<lambda>_. No_Inputs) rows)]))
            (field_columns rows))
         ([(''metrics'', ListV (map (\<lambda>row. Atom (Preempted (row_preempted row))) rows))] @
          (if rm \<noteq> [] then [(''reward_extra_keys'', ListV (map (Atom \<circ> Key) (keys (reward_info (hd rows)))))] else []))))))))))))"

section \<open>Bookkeeping of the samples\<close>

text \<open>\<open>get_trajectory_info\<close>: the number of a rollout among the neighbouring rows with the same index.\<close>

record 'i trajectory =
  trajectory_step :: int
  sample_index :: 'i
  rollout_n :: nat
  validate :: bool

fun number_rollouts :: "int \<Rightarrow> bool \<Rightarrow> 'i option \<Rightarrow> nat \<Rightarrow> 'i list \<Rightarrow> 'i trajectory list" where
  "number_rollouts t v prev n [] = []"
| "number_rollouts t v prev n (i # rest) =
     (let k = (if prev = Some i then n + 1 else 0)
      in \<lparr>trajectory_step = t, sample_index = i, rollout_n = k, validate = v\<rparr> # number_rollouts t v (Some i) k rest)"

definition get_trajectory_info :: "int \<Rightarrow> 'i list \<Rightarrow> bool \<Rightarrow> 'i trajectory list" where
  "get_trajectory_info t indices v = number_rollouts t v None 0 indices"

end
