(* ===== verification/Tool_Agent_Properties.thy ===== *)
theory Tool_Agent_Properties
  imports Tool_Agent
begin

text \<open>
  Properties of the agent loop with tools: what one handler does to the token lists, the loop as an iteration of
  handlers with an invariant and a measure, the conversation the output records, and the ends of a run.
\<close>

section \<open>One handler\<close>

text \<open>The token lists and counters of the agent data, which are all the loop decides on.\<close>

definition core :: "'o agent_data \<Rightarrow> int list \<times> int list \<times> real list \<times> nat \<times> nat" where
  "core d = (prompt_ids d, response_mask d, response_logprobs d, assistant_turns d, user_turns d)"

lemma core_eq:
  "core d = core e \<longleftrightarrow> prompt_ids d = prompt_ids e \<and> response_mask d = response_mask e \<and>
    response_logprobs d = response_logprobs e \<and> assistant_turns d = assistant_turns e \<and> user_turns d = user_turns e"
  by (simp add: core_def)

lemma core_simps [simp]:
  "prompt_ids (add_generation env out d) = prompt_ids d @ token_ids out"
  "response_mask (add_generation env out d) = response_mask d @ replicate (length (token_ids out)) 1"
  "response_logprobs (add_generation env out d) = response_logprobs d @ (case log_probs out of None \<Rightarrow> [] | Some ls \<Rightarrow> ls)"
  "assistant_turns (add_generation env out d) = Suc (assistant_turns d)"
  "user_turns (add_generation env out d) = user_turns d"
  "prompt_ids (add_observation ids d) = prompt_ids d @ ids"
  "response_mask (add_observation ids d) = response_mask d @ replicate (length ids) 0"
  "assistant_turns (add_observation ids d) = assistant_turns d"
  "user_turns (add_observation ids d) = user_turns d"
  by (simp_all add: add_generation_def add_observation_def)

lemma pending_core:
  assumes "handle_pending_state env d = Inr (st', d')"
  shows "st' = GENERATING \<and> (\<exists>ids. apply_chat_template env (messages d) True (image_data d) (video_data d) False = Inr ids \<and>
    d' = d\<lparr>prompt_ids := ids\<rparr>)"
  using assms by (auto simp: handle_pending_state_def rbind_eq_Inr)

lemma generating_core:
  assumes "handle_generating_state env cfg d = Inr (st', d')"
  obtains out where "generate env (assistant_turns d) (prompt_ids d) (image_data d) (video_data d) = Inr out"
    and "core d' = core (add_generation env out d)"
    and "st' = TERMINATED \<or> \<not> must_stop cfg (add_generation env out d) \<and> (st' = PROCESSING_TOOLS \<or> st' = INTERACTING \<and> interactive cfg)"
  using assms
  by (auto simp: handle_generating_state_def rbind_eq_Inr Let_def core_eq split: if_splits)

lemma core_add_observation:
  "core e = core d \<Longrightarrow> core ((add_observation ids e)\<lparr>user_turns := n\<rparr>) = core ((add_observation ids d)\<lparr>user_turns := n\<rparr>)"
  by (simp add: core_eq add_observation_def)

lemma rbind_InrE:
  assumes "rbind m f = Inr y"
  obtains x where "m = Inr x" and "f x = Inr y"
  using assms by (auto simp: rbind_eq_Inr)

lemma processing_core:
  fixes d :: "'o agent_data"
  assumes "handle_processing_tools_state env cfg d = Inr (st', d')"
  shows "st' = TERMINATED \<and> core d' = core d \<or>
    st' = GENERATING \<and> (\<exists>ids. int (length (response_mask d) + length ids) < response_length cfg \<and>
      core d' = core ((add_observation ids d)\<lparr>user_turns := Suc (user_turns d)\<rparr>))"
proof -
  obtain msgs rewards ids and images :: "'o list" where
    e: "(let d = d\<lparr>tool_rewards := tool_rewards d @ rewards, messages := messages d @ msgs\<rparr> in
      if response_length cfg \<le> int (length (response_mask d) + length ids) then Inr (TERMINATED, d)
      else let d = (if images \<noteq> []
                    then d\<lparr>image_data := Some ((case image_data d of None \<Rightarrow> [] | Some xs \<Rightarrow> xs) @ images)\<rparr> else d)
           in Inr (GENERATING, (add_observation ids d)\<lparr>user_turns := user_turns d + 1\<rparr>)) = (Inr (st', d') :: (agent_state \<times> 'o agent_data) result)"
    using assms unfolding handle_processing_tools_state_def Let_def
    by (elim rbind_InrE) (simp split: prod.splits, elim rbind_InrE, blast)
  define d1 where "d1 = d\<lparr>tool_rewards := tool_rewards d @ rewards, messages := messages d @ msgs\<rparr>"
  define d2 where "d2 = (if images \<noteq> [] then d1\<lparr>image_data := Some ((case image_data d1 of None \<Rightarrow> [] | Some xs \<Rightarrow> xs) @ images)\<rparr> else d1)"
  have c: "core d1 = core d" "core d2 = core d" by (simp_all add: d1_def d2_def core_def)
  have e': "(if response_length cfg \<le> int (length (response_mask d1) + length ids) then Inr (TERMINATED, d1)
      else Inr (GENERATING, (add_observation ids d2)\<lparr>user_turns := user_turns d2 + 1\<rparr>)) = (Inr (st', d') :: (agent_state \<times> 'o agent_data) result)"
    using e unfolding Let_def d1_def [symmetric] d2_def [symmetric] .
  have u: "user_turns d2 = user_turns d" "response_mask d1 = response_mask d" using c by (simp_all add: core_eq)
  show ?thesis using e' core_add_observation [OF c(2), of "Suc (user_turns d)" ids] c(1) u
    by (auto split: if_splits intro!: exI [of _ ids])
qed

lemma interacting_core:
  assumes "handle_interacting_state env d = Inr (st', d')"
  shows "(st' = TERMINATED \<or> st' = GENERATING) \<and>
    (\<exists>ids. core d' = core ((add_observation ids d)\<lparr>user_turns := Suc (user_turns d)\<rparr>))"
proof -
  obtain stop reply reward where "(let msgs = [\<lparr>role = ''user'', msg_content = Plain reply\<rparr>];
           d = d\<lparr>user_turns := user_turns d + 1, messages := messages d @ msgs,
                turn_scores := (case reward of None \<Rightarrow> turn_scores d | Some x \<Rightarrow> turn_scores d @ [x])\<rparr>
       in rbind (apply_chat_template env msgs False None None True) (\<lambda>ids.
            Inr (if stop then TERMINATED else GENERATING, add_observation ids d))) = Inr (st', d')"
    using assms unfolding handle_interacting_state_def by (elim rbind_InrE) (auto split: prod.splits)
  then obtain ids where "(if stop then TERMINATED else GENERATING, add_observation ids (d\<lparr>user_turns := user_turns d + 1,
      messages := messages d @ [\<lparr>role = ''user'', msg_content = Plain reply\<rparr>],
      turn_scores := (case reward of None \<Rightarrow> turn_scores d | Some x \<Rightarrow> turn_scores d @ [x])\<rparr>)) = (st', d')"
    unfolding Let_def by (elim rbind_InrE) blast
  then show ?thesis by (cases stop) (auto simp: core_eq add_observation_def intro!: exI [of _ ids])
qed

text \<open>One step by the state it starts in.\<close>

lemma agent_step_cases [consumes 1, case_names pending generating processing interacting terminated]:
  assumes "agent_step env cfg st d = Inr (st', d')"
  obtains "st = PENDING" and "handle_pending_state env d = Inr (st', d')"
    | "st = GENERATING" and "handle_generating_state env cfg d = Inr (st', d')"
    | "st = PROCESSING_TOOLS" and "handle_processing_tools_state env cfg d = Inr (st', d')"
    | "st = INTERACTING" and "handle_interacting_state env d = Inr (st', d')"
    | "st = TERMINATED" and "st' = TERMINATED" and "d' = d"
  using assms by (cases st) (auto simp: agent_step_def)

section \<open>The loop\<close>

lemma agent_loop_invariant:
  assumes "agent_loop env cfg st d = Some r" and "r = Inr e"
    and "I st d"
    and "\<And>st d st' d'. I st d \<Longrightarrow> agent_step env cfg st d = Inr (st', d') \<Longrightarrow> I st' d'"
  shows "I TERMINATED e"
  using assms
proof (induction env cfg st d r rule: agent_loop.raw_induct)
  case (1 loop env cfg st d r)
  show ?case
  proof (cases "st = TERMINATED")
    case True
    then show ?thesis using 1(2-5) by simp
  next
    case False
    show ?thesis
    proof (cases "agent_step env cfg st d")
      case (Inl x)
      then show ?thesis using False 1(2-4) by simp
    next
      case (Inr x)
      obtain st' d' where s: "agent_step env cfg st d = Inr (st', d')" using Inr by (cases x) simp
      then have l: "loop env cfg st' d' = Some r" using 1(2) False by simp
      have l': "agent_loop env cfg st' d' = Some r" using 1(3) False s by (simp add: agent_loop.simps [of env cfg st])
      show ?thesis
        by (rule 1(1) [OF l l' 1(4) 1(6) [OF 1(5) s] 1(6)])
    qed
  qed
qed (rule assms(1))

lemma agent_loop_returns:
  fixes f :: "agent_state \<Rightarrow> 'o agent_data \<Rightarrow> nat"
  assumes "\<And>st d st' d'. st \<noteq> TERMINATED \<Longrightarrow> agent_step env cfg st d = Inr (st', d') \<Longrightarrow> st' \<noteq> TERMINATED \<Longrightarrow> f st' d' < f st d"
  shows "agent_loop env cfg st d \<noteq> None"
proof (induction "f st d" arbitrary: st d rule: less_induct)
  case less
  show ?case
  proof (cases "agent_step env cfg st d")
    case (Inl e)
    then show ?thesis by (subst agent_loop.simps) simp
  next
    case (Inr x)
    obtain st' d' where x: "x = (st', d')" by (cases x)
    show ?thesis
    proof (cases "st = TERMINATED \<or> st' = TERMINATED")
      case True
      then show ?thesis using Inr x by (auto simp: agent_loop.simps)
    next
      case False
      then have "f st' d' < f st d" using assms Inr x by blast
      then have "agent_loop env cfg st' d' \<noteq> None" by (rule less)
      then show ?thesis using False Inr x by (subst agent_loop.simps) simp
    qed
  qed
qed


section \<open>The conversation\<close>

text \<open>
  A conversation starts with the prompt and grows by segments of tokens, each marked as generated or observed. A
  generated segment is what the server answered to exactly the tokens of the conversation so far.
\<close>

abbreviation tokens_of :: "(bool \<times> int list) list \<Rightarrow> int list" where
  "tokens_of segs \<equiv> concat (map snd segs)"

inductive conversation :: "'o environment \<Rightarrow> int list \<Rightarrow> (bool \<times> int list) list \<Rightarrow> nat \<Rightarrow> bool" for env p where
  conversation_start: "conversation env p [] 0"
| conversation_generated: "conversation env p segs n \<Longrightarrow>
    generate env n (p @ tokens_of segs) images videos = Inr out \<Longrightarrow>
    conversation env p (segs @ [(True, token_ids out)]) (Suc n)"
| conversation_observed: "conversation env p segs n \<Longrightarrow> conversation env p (segs @ [(False, ids)]) n"

definition segment_mask :: "(bool \<times> int list) list \<Rightarrow> int list" where
  "segment_mask segs = concat (map (\<lambda>(g, ids). replicate (length ids) (if g then 1 else 0)) segs)"

lemma segment_mask_append [simp]:
  "segment_mask [] = []"
  "segment_mask (segs @ [(g, ids)]) = segment_mask segs @ replicate (length ids) (if g then 1 else 0)"
  by (simp_all add: segment_mask_def)

lemma length_segment_mask [simp]: "length (segment_mask segs) = length (tokens_of segs)"
  by (induction segs) (auto simp: segment_mask_def)

text \<open>The agent data records a conversation.\<close>

definition records :: "'o environment \<Rightarrow> int list \<Rightarrow> (bool \<times> int list) list \<Rightarrow> 'o agent_data \<Rightarrow> bool" where
  "records env p segs d \<longleftrightarrow> conversation env p segs (assistant_turns d) \<and>
     prompt_ids d = p @ tokens_of segs \<and> response_mask d = segment_mask segs"

lemma records_core: "core d = core e \<Longrightarrow> records env p segs d \<longleftrightarrow> records env p segs e"
  by (simp add: records_def core_eq)

lemma records_generation:
  assumes "records env p segs d" and "generate env (assistant_turns d) (prompt_ids d) images videos = Inr out"
    and "core d' = core (add_generation env out d)"
  shows "records env p (segs @ [(True, token_ids out)]) d'"
  unfolding records_core [OF assms(3)]
  using assms(1,2) conversation_generated [of env p segs "assistant_turns d" images videos out]
  by (simp add: records_def)

lemma records_observation:
  assumes "records env p segs d" and "core d' = core ((add_observation ids d)\<lparr>user_turns := n\<rparr>)"
  shows "records env p (segs @ [(False, ids)]) d'"
  unfolding records_core [OF assms(2)]
  using assms(1) conversation_observed [of env p segs "assistant_turns d" ids] by (simp add: records_def)

text \<open>The invariant of the loop for a run that starts with given messages.\<close>

definition started :: "'o environment \<Rightarrow> chat_message list \<Rightarrow> 'o list option \<Rightarrow> 'o list option \<Rightarrow> int list \<Rightarrow> bool" where
  "started env msgs images videos p \<longleftrightarrow> apply_chat_template env msgs True images videos False = Inr p"

fun recording ::
  "'o environment \<Rightarrow> agent_config \<Rightarrow> chat_message list \<Rightarrow> 'o list option \<Rightarrow> 'o list option \<Rightarrow> agent_state \<Rightarrow> 'o agent_data \<Rightarrow> bool" where
  "recording env cfg msgs images videos PENDING d \<longleftrightarrow> d = new_agent_data msgs images videos"
| "recording env cfg msgs images videos st d \<longleftrightarrow> (\<exists>p segs. started env msgs images videos p \<and> records env p segs d)"

lemma recording_pending:
  assumes "handle_pending_state env (new_agent_data msgs images videos) = Inr (st', d')"
  shows "st' = GENERATING \<and> (\<exists>p. started env msgs images videos p \<and> records env p [] d')"
  using pending_core [OF assms] conversation_start [of env]
  by (auto simp: records_def started_def new_agent_data_def)

lemma recording_iff: "st \<noteq> PENDING \<Longrightarrow>
    recording env cfg msgs images videos st d \<longleftrightarrow> (\<exists>p segs. started env msgs images videos p \<and> records env p segs d)"
  by (cases st) simp_all

lemma recording_step:
  assumes "recording env cfg msgs images videos st d" and "agent_step env cfg st d = Inr (st', d')"
  shows "recording env cfg msgs images videos st' d'"
  using assms(2)
proof (cases rule: agent_step_cases)
  case pending
  then show ?thesis using assms(1) recording_pending by fastforce
next
  case generating
  then obtain p segs where r: "started env msgs images videos p" "records env p segs d" using assms(1) by auto
  obtain out where "generate env (assistant_turns d) (prompt_ids d) (image_data d) (video_data d) = Inr out"
    and "core d' = core (add_generation env out d)" and "st' \<noteq> PENDING"
    using generating(2) by (rule generating_core) auto
  then show ?thesis using r records_generation by (metis recording_iff)
next
  case processing
  then obtain p segs where r: "started env msgs images videos p" "records env p segs d" using assms(1) by auto
  show ?thesis
    using processing_core [OF processing(2)]
  proof (elim disjE conjE exE)
    assume "st' = TERMINATED" and "core d' = core d"
    then show ?thesis using r records_core by (metis agent_state.distinct(5) recording_iff)
  next
    fix ids
    assume "st' = GENERATING" and "core d' = core ((add_observation ids d)\<lparr>user_turns := Suc (user_turns d)\<rparr>)"
    then show ?thesis using r(1) records_observation [OF r(2)] by (metis agent_state.distinct(1) recording_iff)
  qed
next
  case interacting
  then obtain p segs where r: "started env msgs images videos p" "records env p segs d" using assms(1) by auto
  show ?thesis
    using interacting_core [OF interacting(2)] r(1) records_observation [OF r(2)]
    by (metis agent_state.distinct(1,5) recording_iff)
qed (use assms(1) in simp)


section \<open>The output of a run\<close>

lemma run_output:
  assumes "run_tool_agent env cfg interaction msgs images videos = Some (Inr out)"
  obtains d where "agent_loop env cfg PENDING (new_agent_data msgs images videos) = Some (Inr d)"
    and "out = finalize_output cfg d"
  using assms by (auto simp: run_tool_agent_def rbind_eq_Inr split: sum.splits)

lemma run_returns:
  "agent_loop env cfg PENDING (new_agent_data msgs images videos) \<noteq> None \<Longrightarrow>
    run_tool_agent env cfg interaction msgs images videos \<noteq> None"
  by (auto simp: run_tool_agent_def split: sum.splits)

text \<open>
  C12: When a run ends with an output, the output records a conversation that starts with the rendered messages and in
  which every generated segment is the server's answer to exactly the tokens recorded before it: the prompt is the
  rendered one, the response the tokens of all segments and the mask one on the generated and zero on the observed
  tokens, both cut to the response length. Without any response token the response is the prompt again.
\<close>

theorem tool_agent_records_conversation:
  assumes "run_tool_agent env cfg interaction msgs images videos = Some (Inr out)"
  shows "\<exists>p segs n. apply_chat_template env msgs True images videos False = Inr p \<and> conversation env p segs n \<and>
    out_prompt out = p \<and> out_mask out = py_upto (response_length cfg) (segment_mask segs) \<and>
    out_response out = py_upto (response_length cfg) (if tokens_of segs = [] then p else tokens_of segs)"
proof -
  obtain d where l: "agent_loop env cfg PENDING (new_agent_data msgs images videos) = Some (Inr d)"
    and out: "out = finalize_output cfg d"
    using assms by (rule run_output)
  have "recording env cfg msgs images videos TERMINATED d"
    by (rule agent_loop_invariant [OF l refl, where I = "recording env cfg msgs images videos"])
      (simp_all add: recording_step)
  then obtain p segs where p: "started env msgs images videos p" and r: "records env p segs d" by auto
  have d: "prompt_ids d = p @ tokens_of segs" "response_mask d = segment_mask segs" using r by (simp_all add: records_def)
  have "out_response out = py_upto (response_length cfg) (if tokens_of segs = [] then p else tokens_of segs)"
  proof -
    have "py_last (length (tokens_of segs)) (p @ tokens_of segs) = (if tokens_of segs = [] then p else tokens_of segs)"
      unfolding py_last_def by (cases "tokens_of segs") simp_all
    then show ?thesis unfolding out finalize_output_def Let_def d length_segment_mask by simp
  qed
  moreover have "out_prompt out = p" "out_mask out = py_upto (response_length cfg) (segment_mask segs)"
    unfolding out finalize_output_def Let_def d length_segment_mask by simp_all
  ultimately show ?thesis using p r unfolding started_def records_def by blast
qed

text \<open>A small environment: the server answers twice, first with a call, and the tool answers a number.\<close>

definition demo_env :: "nat environment" where
  "demo_env = \<lparr>template = (\<lambda>msgs tools i v. Inr (if tools then [1, 2] else [9, 8, 7])), system_prompt = [9],
     generate = (\<lambda>k p i v. Inr \<lparr>token_ids = (if k = 0 then [5, 6] else [4]), log_probs = None, routed = None,
       num_preempted = None, out_extra = []\<rparr>),
     extract_tool_calls = (\<lambda>ids. Inr ([], if ids = [5, 6] then [\<lparr>arguments = [], call_name = ''sum''\<rparr>] else [])),
     decode = (\<lambda>_. []), encode = (\<lambda>_. []), show_parts = (\<lambda>_. []), load_arguments = (\<lambda>_. Inr 0),
     tool_names = [''sum''], key_error = (\<lambda>k. k), create_tool = (\<lambda>_ _ _. Inr ''a''),
     execute_tool = (\<lambda>_ _ _ _ _. Inr (\<lparr>tool_text = Some ''42'', tool_image = None, tool_video = None\<rparr>, None)),
     release_tool = (\<lambda>_ _ _ _. Inr ()), generate_response = (\<lambda>_ _. Inl RuntimeError), object_truth = (\<lambda>_. True),
     interaction_names = [], start_interaction = (\<lambda>_. Inr ())\<rparr>"

definition demo_config :: agent_config where
  "demo_config = \<lparr>max_user_turns = None, max_assistant_turns = None, max_parallel_calls = 1, max_tool_response_length = 10,
     truncate_side = ''left'', tool_format = ''hermes'', response_length = 8, interactive = False, image_processor = False\<rparr>"

lemmas agent_eval = agent_loop.simps agent_step_def handle_pending_state_def handle_generating_state_def
  handle_processing_tools_state_def apply_chat_template_def tool_response_ids_def tool_message_def call_tool_def attempt_tool_def
  add_generation_def add_observation_def must_stop_def turn_limit_reached_def int_truth_def list_truth_def response_images_def
  new_agent_data_def merge_extra_def py_upto_def truncate_text_def Let_def

lemma demo_loop: "\<exists>d. agent_loop demo_env demo_config PENDING (new_agent_data [] None None) = Some (Inr d) \<and>
    prompt_ids d = [1, 2, 5, 6, 8, 7, 4] \<and> response_mask d = [1, 1, 0, 0, 1]"
  by (simp add: agent_eval demo_env_def demo_config_def)

lemma tool_agent_records_conversation_witness:
  "\<exists>out p segs n. run_tool_agent demo_env demo_config None [] None None = Some (Inr out) \<and>
    conversation demo_env p segs n \<and> out_prompt out = p \<and> out_mask out = take 8 (segment_mask segs)"
proof -
  obtain out where run: "run_tool_agent demo_env demo_config None [] None None = Some (Inr out)"
    using demo_loop by (auto simp: run_tool_agent_def initialize_interaction_def demo_config_def)
  show ?thesis
    using tool_agent_records_conversation [OF run] run by (auto simp: demo_config_def py_upto_def)
qed

text \<open>Without an interaction, what a tool says is recorded completely: only the last generation can be cut.\<close>

fun tool_run ::
  "'o environment \<Rightarrow> agent_config \<Rightarrow> chat_message list \<Rightarrow> 'o list option \<Rightarrow> 'o list option \<Rightarrow> agent_state \<Rightarrow> 'o agent_data \<Rightarrow> bool" where
  "tool_run env cfg msgs images videos PENDING d \<longleftrightarrow> d = new_agent_data msgs images videos"
| "tool_run env cfg msgs images videos GENERATING d \<longleftrightarrow> (\<exists>p segs. started env msgs images videos p \<and> records env p segs d \<and>
     int (length (tokens_of segs)) < response_length cfg)"
| "tool_run env cfg msgs images videos INTERACTING d \<longleftrightarrow> False"
| "tool_run env cfg msgs images videos st d \<longleftrightarrow> (\<exists>p segs ids. started env msgs images videos p \<and>
     records env p (segs @ [(True, ids)]) d \<and> int (length (tokens_of segs)) < response_length cfg)"

lemma tool_runI:
  assumes "started env msgs images videos p" and "records env p (segs @ [(True, ids)]) d"
    and "int (length (tokens_of segs)) < response_length cfg" and "st = TERMINATED \<or> st = PROCESSING_TOOLS"
  shows "tool_run env cfg msgs images videos st d"
  using assms(4) by (elim disjE) (simp, use assms(1-3) in blast)+

lemma tool_run_step:
  assumes "\<not> interactive cfg" and "0 < response_length cfg"
    and "tool_run env cfg msgs images videos st d" and "agent_step env cfg st d = Inr (st', d')"
  shows "tool_run env cfg msgs images videos st' d'"
  using assms(4)
proof (cases rule: agent_step_cases)
  case pending
  then have "d = new_agent_data msgs images videos" using assms(3) by simp
  then obtain p where "st' = GENERATING" "started env msgs images videos p" "records env p [] d'"
    using recording_pending pending(2) by blast
  moreover have "int (length (tokens_of [])) < response_length cfg" using assms(2) by simp
  ultimately have "tool_run env cfg msgs images videos GENERATING d'" unfolding tool_run.simps(2) by blast
  then show ?thesis using \<open>st' = GENERATING\<close> by simp
next
  case generating
  then obtain p segs where r: "started env msgs images videos p" "records env p segs d"
    "int (length (tokens_of segs)) < response_length cfg" using assms(3) by auto
  obtain out where g: "generate env (assistant_turns d) (prompt_ids d) (image_data d) (video_data d) = Inr out"
    and c: "core d' = core (add_generation env out d)" and st: "st' = TERMINATED \<or> st' = PROCESSING_TOOLS"
    using generating(2) assms(1) by (auto elim: generating_core)
  have "records env p (segs @ [(True, token_ids out)]) d'" by (rule records_generation [OF r(2) g c])
  then show ?thesis using r(1,3) st tool_runI by blast
next
  case processing
  then obtain p segs ids where r: "started env msgs images videos p" "records env p (segs @ [(True, ids)]) d"
    "int (length (tokens_of segs)) < response_length cfg" using assms(3) by auto
  show ?thesis
    using processing_core [OF processing(2)]
  proof (elim disjE conjE exE)
    assume "st' = TERMINATED" and "core d' = core d"
    then show ?thesis using r records_core tool_runI by blast
  next
    fix obs
    assume st: "st' = GENERATING" and c: "core d' = core ((add_observation obs d)\<lparr>user_turns := Suc (user_turns d)\<rparr>)"
      and "int (length (response_mask d) + length obs) < response_length cfg"
    then have "int (length (tokens_of ((segs @ [(True, ids)]) @ [(False, obs)]))) < response_length cfg"
      using r(2) unfolding records_def by simp
    then show ?thesis using r(1) st records_observation [OF r(2) c] unfolding st tool_run.simps(2) by blast
  qed
next
  case interacting
  then show ?thesis using assms(3) by simp
qed (use assms(3) in simp)

text \<open>
  C13: In a run without interactions every token sequence a tool answered stands completely in the response: the
  mask is the complete mask of all segments but the last, which the server generated and of which as many tokens are
  kept as fit in the response length.
\<close>

theorem tool_answers_kept_whole:
  assumes "run_tool_agent env cfg interaction msgs images videos = Some (Inr out)"
    and "\<not> interactive cfg" and "0 < response_length cfg"
  shows "\<exists>p segs ids n. conversation env p (segs @ [(True, ids)]) n \<and>
    int (length (tokens_of segs)) < response_length cfg \<and>
    out_mask out = segment_mask segs @ replicate (min (length ids) (nat (response_length cfg) - length (tokens_of segs))) 1"
proof -
  obtain d where l: "agent_loop env cfg PENDING (new_agent_data msgs images videos) = Some (Inr d)"
    and out: "out = finalize_output cfg d"
    using assms(1) by (rule run_output)
  have "tool_run env cfg msgs images videos TERMINATED d"
    by (rule agent_loop_invariant [OF l refl, where I = "tool_run env cfg msgs images videos"])
      (simp_all add: tool_run_step [OF assms(2,3)])
  then obtain p segs ids where r: "records env p (segs @ [(True, ids)]) d" "int (length (tokens_of segs)) < response_length cfg"
    by auto
  then have "out_mask out = segment_mask segs @ replicate (min (length ids) (nat (response_length cfg) - length (tokens_of segs))) 1"
    by (simp add: out finalize_output_def Let_def records_def py_upto_def min.commute)
  then show ?thesis using r unfolding records_def by blast
qed

lemma tool_answers_kept_whole_witness:
  "\<exists>out p segs ids n. run_tool_agent demo_env demo_config None [] None None = Some (Inr out) \<and>
    conversation demo_env p (segs @ [(True, ids)]) n \<and>
    out_mask out = segment_mask segs @ replicate (min (length ids) (8 - length (tokens_of segs))) 1"
proof -
  obtain out where run: "run_tool_agent demo_env demo_config None [] None None = Some (Inr out)"
    using demo_loop by (auto simp: run_tool_agent_def initialize_interaction_def demo_config_def)
  show ?thesis
    using tool_answers_kept_whole [OF run] run by (auto simp: demo_config_def)
qed

section \<open>Termination\<close>

text \<open>The server never answers without a token.\<close>

definition always_generates :: "'o environment \<Rightarrow> bool" where
  "always_generates env \<longleftrightarrow> (\<forall>k p images videos out. generate env k p images videos = Inr out \<longrightarrow> token_ids out \<noteq> [])"

text \<open>
  Progress that every generation makes and no step undoes, below a bound as long as the run goes on, ends the loop.
\<close>

fun rounds_left :: "nat \<Rightarrow> nat \<Rightarrow> agent_state \<Rightarrow> nat" where
  "rounds_left b n PENDING = 2 * b + 2"
| "rounds_left b n GENERATING = 2 * (b - n) + 1"
| "rounds_left b n _ = 2 * (b - n) + 2"

lemma generation_progress_returns:
  fixes f :: "'o agent_data \<Rightarrow> nat"
  assumes gen: "\<And>d st' d'. handle_generating_state env cfg d = Inr (st', d') \<Longrightarrow> st' \<noteq> TERMINATED \<Longrightarrow> f d < f d' \<and> f d' < b"
    and obs: "\<And>d d' ids n. core d' = core ((add_observation ids d)\<lparr>user_turns := n\<rparr>) \<Longrightarrow> f d \<le> f d'"
  shows "agent_loop env cfg st d \<noteq> None"
proof (rule agent_loop_returns [where f = "\<lambda>st d. rounds_left b (f d) st"])
  fix st d st' d'
  assume run: "st \<noteq> TERMINATED" "st' \<noteq> TERMINATED" and "agent_step env cfg st d = Inr (st', d')"
  from this(3) show "rounds_left b (f d') st' < rounds_left b (f d) st"
  proof (cases rule: agent_step_cases)
    case pending
    then show ?thesis using pending_core by fastforce
  next
    case generating
    then have "f d < f d'" "f d' < b" using gen run(2) by blast+
    moreover have "rounds_left b (f d') st' = 2 * (b - f d') + 2"
      using generating(2) run(2) by (auto elim!: generating_core)
    ultimately show ?thesis using generating(1) by simp
  next
    case processing
    then have "st' = GENERATING" "f d \<le> f d'" using processing_core [OF processing(2)] run(2) obs by blast+
    then show ?thesis using processing(1) by simp
  next
    case interacting
    then have "st' = GENERATING" "f d \<le> f d'" using interacting_core [OF interacting(2)] run(2) obs by blast+
    then show ?thesis using interacting(1) by simp
  qed (use run in simp)
qed


fun user_rounds_left :: "nat \<Rightarrow> nat \<Rightarrow> agent_state \<Rightarrow> nat" where
  "user_rounds_left b n PENDING = 3 * b + 2"
| "user_rounds_left b n GENERATING = 3 * (b - n) + 1"
| "user_rounds_left b n _ = (if n < b then 3 * (b - n) else 2)"

lemma round_arith: "n < b \<Longrightarrow> Suc (3 * (b - Suc n)) < 3 * (b - (n :: nat))"
  by arith

lemma user_turns_return:
  assumes "\<And>d :: 'o agent_data. \<not> must_stop cfg d \<Longrightarrow> user_turns d < b"
  shows "agent_loop env cfg st (d :: 'o agent_data) \<noteq> None"
proof (rule agent_loop_returns [where f = "\<lambda>st d. user_rounds_left b (user_turns d) st"])
  fix st st' and d d' :: "'o agent_data"
  assume run: "st \<noteq> TERMINATED" "st' \<noteq> TERMINATED" and "agent_step env cfg st d = Inr (st', d')"
  from this(3) show "user_rounds_left b (user_turns d') st' < user_rounds_left b (user_turns d) st"
  proof (cases rule: agent_step_cases)
    case pending
    then show ?thesis using pending_core by fastforce
  next
    case generating
    then obtain out where "\<not> must_stop cfg (add_generation env out d)" "core d' = core (add_generation env out d)"
      and st: "st' = PROCESSING_TOOLS \<or> st' = INTERACTING"
      using run(2) by (auto elim!: generating_core)
    then have "user_turns d' = user_turns d" "user_turns d < b"
      using assms [of "add_generation env out d"] by (simp_all add: core_eq)
    then show ?thesis using generating(1) st by auto
  next
    case processing
    then have "st' = GENERATING" "user_turns d' = Suc (user_turns d)"
      using processing_core [OF processing(2)] run(2) by (auto simp: core_eq)
    then show ?thesis using processing(1) by (auto simp: round_arith)
  next
    case interacting
    then have "st' = GENERATING" "user_turns d' = Suc (user_turns d)"
      using interacting_core [OF interacting(2)] run(2) by (auto simp: core_eq)
    then show ?thesis using interacting(1) by (auto simp: round_arith)
  qed (use run in simp)
qed

lemma limit_bound: "int_truth limit \<Longrightarrow> \<not> turn_limit_reached limit n \<Longrightarrow> n < nat (the limit)"
  by (auto simp: turn_limit_reached_def)

lemma generating_progress:
  assumes "handle_generating_state env cfg d = Inr (st', d')" and "st' \<noteq> TERMINATED"
  obtains out where "generate env (assistant_turns d) (prompt_ids d) (image_data d) (video_data d) = Inr out"
    and "core d' = core (add_generation env out d)" and "\<not> must_stop cfg (add_generation env out d)"
  using assms by (auto elim!: generating_core)

text \<open>
  C14: A run returns or raises when the number of assistant turns or of user turns is limited, or when the server
  never answers without a token.
\<close>

theorem tool_agent_returns:
  assumes "int_truth (max_assistant_turns cfg) \<or> int_truth (max_user_turns cfg) \<or> always_generates env"
  shows "run_tool_agent env cfg interaction msgs images videos \<noteq> None"
  using assms
proof (elim disjE)
  let ?loop = "agent_loop env cfg PENDING (new_agent_data msgs images videos)"
  assume lim: "int_truth (max_assistant_turns cfg)"
  have "?loop \<noteq> None"
  proof (rule generation_progress_returns [where f = assistant_turns and b = "nat (the (max_assistant_turns cfg))"])
    fix d st' d'
    assume "handle_generating_state env cfg d = Inr (st', d')" and "st' \<noteq> TERMINATED"
    then obtain out where "core d' = core (add_generation env out d)" "\<not> must_stop cfg (add_generation env out d)"
      by (rule generating_progress)
    then show "assistant_turns d < assistant_turns d' \<and> assistant_turns d' < nat (the (max_assistant_turns cfg))"
      using limit_bound [OF lim] by (auto simp: must_stop_def core_eq)
  qed (simp add: core_eq)
  then show ?thesis by (rule run_returns)
next
  let ?loop = "agent_loop env cfg PENDING (new_agent_data msgs images videos)"
  assume lim: "int_truth (max_user_turns cfg)"
  have "?loop \<noteq> None"
    by (rule user_turns_return [where b = "nat (the (max_user_turns cfg))"])
      (use limit_bound [OF lim] in \<open>auto simp: must_stop_def\<close>)
  then show ?thesis by (rule run_returns)
next
  let ?loop = "agent_loop env cfg PENDING (new_agent_data msgs images videos)"
  assume gen: "always_generates env"
  have "?loop \<noteq> None"
  proof (rule generation_progress_returns [where f = "\<lambda>d. length (response_mask d)" and b = "nat (response_length cfg)"])
    fix d st' d'
    assume "handle_generating_state env cfg d = Inr (st', d')" and "st' \<noteq> TERMINATED"
    then obtain out where g: "generate env (assistant_turns d) (prompt_ids d) (image_data d) (video_data d) = Inr out"
      and c: "core d' = core (add_generation env out d)" "\<not> must_stop cfg (add_generation env out d)"
      by (rule generating_progress)
    have "token_ids out \<noteq> []" using gen g unfolding always_generates_def by blast
    then show "length (response_mask d) < length (response_mask d') \<and> length (response_mask d') < nat (response_length cfg)"
      using c by (simp add: must_stop_def core_eq, linarith)
  qed (simp add: core_eq)
  then show ?thesis by (rule run_returns)
qed

lemma tool_agent_returns_witness: "run_tool_agent demo_env demo_config None [] None None \<noteq> None"
proof (rule tool_agent_returns)
  have "always_generates demo_env" by (auto simp: always_generates_def demo_env_def)
  then show "int_truth (max_assistant_turns demo_config) \<or> int_truth (max_user_turns demo_config) \<or> always_generates demo_env"
    by blast
qed

section \<open>Log-probabilities\<close>

text \<open>The server reports one log-probability per token and never answers without a token.\<close>

definition reports_log_probs :: "'o environment \<Rightarrow> bool" where
  "reports_log_probs env \<longleftrightarrow> (\<forall>k p images videos out. generate env k p images videos = Inr out \<longrightarrow>
     token_ids out \<noteq> [] \<and> (\<exists>ls. log_probs out = Some ls \<and> length ls = length (token_ids out)))"

lemma log_probs_aligned_step:
  assumes "reports_log_probs env"
    and "length (response_logprobs d) = length (response_mask d) \<and> (st = PROCESSING_TOOLS \<or> st = INTERACTING \<longrightarrow> response_mask d \<noteq> [])"
    and "agent_step env cfg st d = Inr (st', d')"
  shows "length (response_logprobs d') = length (response_mask d') \<and>
    (st' = PROCESSING_TOOLS \<or> st' = INTERACTING \<longrightarrow> response_mask d' \<noteq> [])"
  using assms(3)
proof (cases rule: agent_step_cases)
  case pending
  then show ?thesis using pending_core assms(2) by fastforce
next
  case generating
  then obtain out where g: "generate env (assistant_turns d) (prompt_ids d) (image_data d) (video_data d) = Inr out"
    and c: "core d' = core (add_generation env out d)" by (auto elim: generating_core)
  obtain ls where "log_probs out = Some ls" "length ls = length (token_ids out)" "token_ids out \<noteq> []"
    using assms(1) g unfolding reports_log_probs_def by blast
  then show ?thesis using c assms(2) by (simp add: core_eq)
next
  case processing
  then show ?thesis
    using processing_core [OF processing(2)] assms(2) by (auto simp: core_eq add_observation_def)
next
  case interacting
  then show ?thesis
    using interacting_core [OF interacting(2)] assms(2) by (auto simp: core_eq add_observation_def)
qed (use assms(2) in simp)

text \<open>With such a server the log-probabilities of the output belong to its mask, position by position.\<close>

lemma log_probs_aligned:
  assumes "run_tool_agent env cfg interaction msgs images videos = Some (Inr out)" and "reports_log_probs env"
  shows "out_logprobs out = None \<or> (\<exists>ls. out_logprobs out = Some ls \<and> length ls = length (out_mask out))"
proof -
  obtain d where l: "agent_loop env cfg PENDING (new_agent_data msgs images videos) = Some (Inr d)"
    and out: "out = finalize_output cfg d"
    using assms(1) by (rule run_output)
  have "length (response_logprobs d) = length (response_mask d) \<and>
      (TERMINATED = PROCESSING_TOOLS \<or> TERMINATED = INTERACTING \<longrightarrow> response_mask d \<noteq> [])"
    by (rule agent_loop_invariant [OF l refl, where I = "\<lambda>st d. length (response_logprobs d) = length (response_mask d) \<and>
        (st = PROCESSING_TOOLS \<or> st = INTERACTING \<longrightarrow> response_mask d \<noteq> [])"])
      (simp add: new_agent_data_def, rule log_probs_aligned_step [OF assms(2)])
  then show ?thesis by (auto simp: out finalize_output_def Let_def py_upto_def)
qed

text \<open>
  When the first answers have no log-probabilities (an empty generation before a user turn), later ones are
  appended without the zeros of the observed tokens: they no longer belong to the positions of the mask.
\<close>

lemma late_log_probs_misaligned:
  assumes "response_logprobs d = []" and "log_probs out = Some ls" and "length ls = length (token_ids out)"
  shows "length (response_logprobs (add_generation env out (add_observation ids d))) + length ids + length (response_mask d) =
    length (response_mask (add_generation env out (add_observation ids d)))"
  using assms by (simp add: add_observation_def)

section \<open>Truncation of tool answers\<close>

lemma length_py_upto: "0 \<le> n \<Longrightarrow> length (py_upto n xs) = min (length xs) (nat n)"
  by (simp add: py_upto_def)

lemma length_py_tail: "0 < n \<Longrightarrow> length (py_tail n xs) = min (length xs) (nat n)"
  by (auto simp: py_tail_def py_last_def)

lemma truncate_text_bound:
  assumes "2 \<le> max_tool_response_length cfg"
  shows "int (length (truncate_text cfg t)) \<le> max_tool_response_length cfg + 20"
  using assms length_py_upto [of "max_tool_response_length cfg" t] length_py_tail [of "max_tool_response_length cfg" t]
    length_py_upto [of "max_tool_response_length cfg div 2" t] length_py_tail [of "max_tool_response_length cfg div 2" t]
  by (auto simp: truncate_text_def Let_def)

text \<open>A limit of one character keeps the whole text when both ends are to be kept.\<close>

lemma truncate_middle_one:
  assumes "max_tool_response_length cfg = 1" and "truncate_side cfg = ''middle''" and "1 < length t"
  shows "truncate_text cfg t = ''...(truncated)...'' @ t"
  using assms by (auto simp: truncate_text_def Let_def py_upto_def py_tail_def py_last_def)

end
