(* ===== verification/Agent_Output_Properties.thy ===== *)
theory Agent_Output_Properties
  imports Agent_Output Tool_Agent_Properties
begin

text \<open>
  Properties of the padding of agent outputs and of the batch they form: the row of a sample gives back its tokens and
  its mask, rows of one width form a consistent container with the masks and the rewards of the samples, and
  rows of different widths never do.
\<close>

section \<open>The tokenizer's padding\<close>

text \<open>
  What the documentation of \<open>tokenizer.pad\<close> promises: padding tokens up to the length on the given side, an
  attention mask of zeros on them and of ones on the ids, and no truncation.
\<close>

definition tokenizer_pads :: "pad_fn \<Rightarrow> int \<Rightarrow> bool" where
  "tokenizer_pads pad pid \<longleftrightarrow> (\<forall>left n ids. pad left n ids =
     (let k = n - length ids
      in if left then (replicate k pid @ ids, replicate k 0 @ replicate (length ids) 1)
         else (ids @ replicate k pid, replicate (length ids) 1 @ replicate k 0)))"

definition plain_pad :: "int \<Rightarrow> pad_fn" where
  "plain_pad pid left n ids =
     (let k = n - length ids
      in if left then (replicate k pid @ ids, replicate k 0 @ replicate (length ids) 1)
         else (ids @ replicate k pid, replicate (length ids) 1 @ replicate k 0))"

lemma plain_pad_pads: "tokenizer_pads (plain_pad pid) pid"
  by (simp add: tokenizer_pads_def plain_pad_def)

text \<open>The row of one sample before it is scored.\<close>

definition padded_row :: "int \<Rightarrow> nat \<Rightarrow> nat \<Rightarrow> chat_message list \<Rightarrow> real option \<Rightarrow> mat option \<Rightarrow> 'o agent_output \<Rightarrow> 'o agent_row" where
  "padded_row pid P L msgs score experts out =
     (let prompt = py_last P (out_prompt out); n = P - length prompt; k = L - length (out_response out);
          att = replicate n 0 @ replicate (length prompt) 1 @ replicate (length (out_response out)) 1 @ replicate k 0
      in \<lparr>row_prompt = replicate n pid @ prompt, row_response = out_response out @ replicate k pid,
          row_input = replicate n pid @ prompt @ out_response out @ replicate k pid, row_attention = att,
          row_mask = out_mask out @ replicate k 0, row_position = compute_position_id_with_mask att,
          row_logprobs = map_option (\<lambda>ls. ls @ replicate (L - length ls) 0) (out_logprobs out),
          row_experts = experts, row_score = score, row_turns = num_turns out, row_preempted = out_preempted out,
          row_fields = AList.update ''raw_prompt'' (Raw_Prompt msgs) (out_fields out)\<rparr>)"

lemma mul_mask:
  "length xs = length ys \<Longrightarrow> mul_rows (xs @ replicate k pid) (replicate (length ys) 1 @ replicate k 0) = Inr (xs @ replicate k 0)"
proof -
  assume l: "length xs = length ys"
  have "map2 (*) (xs @ replicate k pid) (replicate (length xs) 1 @ replicate k 0) = xs @ replicate k (0 :: int)"
    by (induction xs) (auto simp: zip_replicate2 comp_def map_replicate_const)
  then show ?thesis using l by (simp add: mul_rows_def)
qed

lemma postprocess_row:
  assumes "tokenizer_pads pad pid" and "length (out_mask out) = length (out_response out)" and "out_experts out = None"
  shows "agent_loop_postprocess pad er zero scorer P target dflt msgs score out =
    compute_row_score scorer (padded_row pid P (target_length target dflt) msgs score None out)"
proof -
  have pad: "pad left n ids = (let k = n - length ids
      in if left then (replicate k pid @ ids, replicate k 0 @ replicate (length ids) 1)
         else (ids @ replicate k pid, replicate (length ids) 1 @ replicate k 0))" for left n ids
    using assms(1) unfolding tokenizer_pads_def by blast
  show ?thesis
    using mul_mask [OF assms(2), of "target_length target dflt - length (out_response out)" pid] assms(2,3)
    by (simp add: agent_loop_postprocess_def padded_row_def pad Let_def)
qed

lemma compute_row_score_same:
  assumes "compute_row_score scorer r = Inr r'"
  shows "row_prompt r' = row_prompt r \<and> row_response r' = row_response r \<and> row_input r' = row_input r \<and>
    row_attention r' = row_attention r \<and> row_mask r' = row_mask r \<and> row_position r' = row_position r \<and>
    row_logprobs r' = row_logprobs r \<and> row_experts r' = row_experts r"
  using assms by (auto simp: compute_row_score_def rbind_eq_Inr split: option.splits)

lemma compute_row_score_None [simp]: "compute_row_score None r = Inr r"
  by (simp add: compute_row_score_def split: option.splits)

section \<open>The row gives back the sample\<close>

text \<open>The elements of a row at the positions where a mask is one.\<close>

definition at_ones :: "'a list \<Rightarrow> int list \<Rightarrow> 'a list" where
  "at_ones xs msk = map fst (filter (\<lambda>(_, m). m = 1) (zip xs msk))"

lemma at_ones_append: "length xs = length ms \<Longrightarrow> at_ones (xs @ ys) (ms @ ns) = at_ones xs ms @ at_ones ys ns"
  by (simp add: at_ones_def)

lemma at_ones_const [simp]:
  "at_ones xs (replicate (length xs) 1) = xs"
  "at_ones (replicate n x) (replicate n 0) = []"
  by (induction xs) (auto simp: at_ones_def filter_empty_conv set_zip)

text \<open>
  C16: The padded row of a sample gives the sample back: the input ids at the attended positions are the last prompt
  tokens that fit followed by the response, and the response ids at the ones of the response mask are the response
  tokens the mask of the sample marks as generated.
\<close>

theorem row_unpads:
  assumes "tokenizer_pads pad pid" and "length (out_mask out) = length (out_response out)" and "out_experts out = None"
    and "agent_loop_postprocess pad er zero scorer P target dflt msgs score out = Inr row"
  shows "at_ones (row_input row) (row_attention row) = py_last P (out_prompt out) @ out_response out \<and>
    at_ones (row_response row) (row_mask row) = at_ones (out_response out) (out_mask out)"
proof -
  let ?r = "padded_row pid P (target_length target dflt) msgs score None out"
  have "compute_row_score scorer ?r = Inr row" using assms(4) unfolding postprocess_row [OF assms(1-3)] .
  note same = compute_row_score_same [OF this]
  show ?thesis
    using assms(2) by (simp add: same padded_row_def Let_def at_ones_append)
qed

lemma row_unpads_witness:
  fixes row :: "nat agent_row"
  shows "\<exists>row :: nat agent_row. at_ones (row_input row) (row_attention row) = [2, 5, 6] \<and> at_ones (row_response row) (row_mask row) = [5]"
proof -
  let ?out = "\<lparr>out_prompt = [1, 2], out_response = [5, 6], out_mask = [1, 0], out_logprobs = None, out_experts = None,
    out_images = None, out_videos = None, num_turns = 2, out_preempted = None, out_fields = []\<rparr> :: nat agent_output"
  let ?row = "padded_row 0 1 3 [] None None ?out"
  have "agent_loop_postprocess (plain_pad 0) (\<lambda>_. []) [] None 1 (Some 3) 3 [] None ?out = Inr ?row"
    by (simp add: postprocess_row [OF plain_pad_pads] target_length_def)
  from row_unpads [OF plain_pad_pads _ _ this]
  show ?thesis by (intro exI [of _ ?row]) (simp add: py_last_def at_ones_def)
qed

section \<open>Rows of one width form a batch\<close>

definition uniform_row :: "nat \<Rightarrow> nat \<Rightarrow> string list \<Rightarrow> 'o agent_row \<Rightarrow> bool" where
  "uniform_row P L ks row \<longleftrightarrow> length (row_prompt row) = P \<and> length (row_response row) = L \<and> length (row_mask row) = L \<and>
     length (row_attention row) = P + L \<and> length (row_input row) = P + L \<and> length (row_position row) = P + L \<and>
     row_experts row = None \<and> sum_list (drop P (row_attention row)) \<in> {0..int L} \<and> keys (reward_info row) = ks"

lemma cat_ints_uniform:
  "rows \<noteq> [] \<Longrightarrow> (\<And>r. r \<in> set rows \<Longrightarrow> length (f r) = n) \<Longrightarrow> cat_ints (map f rows) = Inr (map (map real_of_int \<circ> f) rows)"
  by (cases rows) (auto simp: cat_ints_def cat_tensors_def)

lemma reward_at_sum:
  assumes "0 < w" and "n \<le> w"
  shows "\<exists>row. reward_at w n r = Inr row \<and> length row = w \<and> sum_list row = r"
proof -
  have p: "\<exists>j < w. py_index w (int n - 1) = Inr j"
    using assms by (cases n) (auto simp: py_index_def intro!: exI [of _ "w - 1"] exI [of _ "n - 1"])
  then obtain j where j: "j < w" "py_index w (int n - 1) = Inr j" by blast
  have "sum_list ((replicate w 0)[j := r]) = r"
    using j(1) by (subst upd_conv_take_nth_drop) (simp_all add: sum_list_replicate)
  then show ?thesis using j by (simp add: reward_at_def)
qed

text \<open>Every row of the scores adds up to the score of its sample, also when the response has no token.\<close>

lemma rm_scores_uniform:
  assumes "list_all (uniform_row P L ks) rows" and "0 < L"
  shows "\<exists>t. rm_scores_of rows = Inr t \<and> (t = [] \<or> (\<exists>m. t = [(''rm_scores'', m)] \<and> map sum_list m = map (\<lambda>row. the (row_score row)) rows))"
proof (cases "list_all (\<lambda>row. row_score row \<noteq> None) rows")
  case True
  let ?f = "\<lambda>row. reward_at (length (row_mask row)) (nat (sum_list (drop (length (row_prompt row)) (row_attention row)))) (the (row_score row))"
  have "\<exists>v. ?f row = Inr v \<and> length v = L \<and> sum_list v = the (row_score row)" if "row \<in> set rows" for row
    using reward_at_sum [OF assms(2)] assms(1) that by (auto simp: list_all_iff uniform_row_def)
  then obtain g where g: "\<And>row. row \<in> set rows \<Longrightarrow> ?f row = Inr (g row) \<and> sum_list (g row) = the (row_score row)"
    by metis
  then have "mapM_result ?f rows = Inr (map g rows)" by (intro mapM_result_Inr) blast
  then show ?thesis using True g by (simp add: rm_scores_of_def)
qed (simp add: rm_scores_of_def)

lemma info_columns_uniform:
  assumes "list_all (uniform_row P L ks) rows" and "set js \<subseteq> set ks"
  shows "\<exists>cols. mapM_result (info_column rows) js = Inr cols \<and> list_all (\<lambda>(k, v). length v = length rows) cols"
proof -
  have "\<exists>col. info_column rows k = Inr (k, col) \<and> length col = length rows" if "k \<in> set ks" for k
  proof -
    have "\<exists>v. map_of (reward_info row) k = Some v" if "row \<in> set rows" for row
      using assms(1) that \<open>k \<in> set ks\<close> by (force simp: list_all_iff uniform_row_def keys_def intro: map_of_SomeD dest: weak_map_of_SomeI)
    then obtain g where "\<And>row. row \<in> set rows \<Longrightarrow> map_of (reward_info row) k = Some (g row)" by metis
    then have "mapM_result (\<lambda>row. case map_of (reward_info row) k of None \<Rightarrow> Inl KeyError | Some v \<Rightarrow> Inr (Info v)) rows =
        Inr (map (\<lambda>row. Info (g row)) rows)"
      by (intro mapM_result_Inr) simp
    then show ?thesis by (simp add: info_column_def)
  qed
  then have "\<And>k. k \<in> set js \<Longrightarrow> \<exists>col. info_column rows k = Inr (k, col) \<and> length col = length rows" using assms(2) by blast
  then show ?thesis
    by (induction js) (force)+
qed


lemma obj_update_lengths:
  assumes "list_all (\<lambda>(k, v). length v = n) d" and "list_all (\<lambda>(k, v). length v = n) e"
  shows "list_all (\<lambda>(k, v). length v = n) (obj_update d e)"
  using assms
proof (induction e arbitrary: d)
  case (Cons kv e)
  obtain k v where kv: "kv = (k, v)" by (cases kv)
  have "list_all (\<lambda>(k, v). length v = n) (AList.update k v d)"
    using Cons.prems(1) Cons.prems(2) kv by (induction d) auto
  from Cons.IH [OF this] show ?case using Cons.prems(2) kv by (simp add: obj_update_def)
qed (simp add: obj_update_def)

lemma optional_none: "list_all (\<lambda>row. f row = None) rows \<Longrightarrow> cat_optional name (map f rows) = Inr []"
  by (cases rows) (simp_all add: cat_optional_def)

text \<open>The first sample decides: without its value there is no tensor, with it every sample needs one.\<close>

lemma optional_uniform:
  assumes "rows \<noteq> []" and "f (hd rows) = None \<or> list_all (\<lambda>row. \<exists>x. f row = Some x \<and> length x = n) rows"
  shows "\<exists>t. cat_optional name (map f rows) = Inr t \<and> set (keys t) \<subseteq> {name}"
proof (cases "f (hd rows)")
  case None
  then show ?thesis using assms(1) by (cases rows) (simp_all add: cat_optional_def)
next
  case (Some y)
  then have all: "\<And>row. row \<in> set rows \<Longrightarrow> \<exists>x. f row = Some x \<and> length x = n"
    using assms(2) by (auto simp: list_all_iff)
  then obtain g where g: "\<And>row. row \<in> set rows \<Longrightarrow> f row = Some (g row) \<and> length (g row) = n" by metis
  have "mapM_result (\<lambda>r. case r of None \<Rightarrow> Inl TypeError | Some x \<Rightarrow> Inr x) (map f rows) = Inr (map (\<lambda>r. the (f r)) rows)"
    using g by (induction rows) auto
  moreover have "cat_tensors (map (\<lambda>r. the (f r)) rows) = Inr (map (\<lambda>r. the (f r)) rows)"
    using g assms(1) by (cases rows) (auto simp: cat_tensors_def)
  ultimately show ?thesis using assms(1) g by (cases rows) (auto simp: cat_optional_def keys_def)
qed

text \<open>The arrays of the input that the batch may take over have one entry per sample.\<close>

definition input_fits :: "'o agent_cell list dict option \<Rightarrow> nat \<Rightarrow> bool" where
  "input_fits extra n \<longleftrightarrow> (case extra of None \<Rightarrow> True | Some d \<Rightarrow> list_all (\<lambda>(k, v). length v = n) d)"

lemma batch_of_rows:
  assumes "list_all (uniform_row P L ks) rows" and "rows \<noteq> []" and "0 < L"
    and "row_logprobs (hd rows) = None \<or> list_all (\<lambda>row. \<exists>x. row_logprobs row = Some x \<and> length x = n) rows"
    and "input_fits extra (length rows)"
  shows "\<exists>d. combine_rows rows extra = Inr d \<and> check_consistency d \<and> dp_len d = length rows \<and>
    tensor d ''responses'' = Inr (map (map real_of_int \<circ> row_response) rows) \<and>
    tensor d ''response_mask'' = Inr (map (map real_of_int \<circ> row_mask) rows)"
proof -
  have u: "\<And>row. row \<in> set rows \<Longrightarrow> uniform_row P L ks row" using assms(1) by (simp add: list_all_iff)
  have len: "length (row_prompt row) = P" "length (row_response row) = L" "length (row_mask row) = L"
    "length (row_attention row) = P + L" "length (row_input row) = P + L" "length (row_position row) = P + L"
    "row_experts row = None" "keys (reward_info row) = ks" if "row \<in> set rows" for row
    using u [OF that] by (simp_all add: uniform_row_def)
  have cats: "cat_ints (map row_prompt rows) = Inr (map (map real_of_int \<circ> row_prompt) rows)"
    "cat_ints (map row_response rows) = Inr (map (map real_of_int \<circ> row_response) rows)"
    "cat_ints (map row_mask rows) = Inr (map (map real_of_int \<circ> row_mask) rows)"
    "cat_ints (map row_attention rows) = Inr (map (map real_of_int \<circ> row_attention) rows)"
    "cat_ints (map row_input rows) = Inr (map (map real_of_int \<circ> row_input) rows)"
    "cat_ints (map row_position rows) = Inr (map (map real_of_int \<circ> row_position) rows)"
    by (rule cat_ints_uniform [OF assms(2)], erule len)+
  obtain lp where lp: "cat_optional ''rollout_log_probs'' (map row_logprobs rows) = Inr lp" "set (keys lp) \<subseteq> {''rollout_log_probs''}"
    using optional_uniform [OF assms(2,4)] by blast
  have ex: "cat_optional ''routed_experts'' (map (\<lambda>row. map_option concat (row_experts row)) rows) = Inr []"
    by (rule optional_none) (simp add: list_all_iff len(7))
  obtain rm where rm: "rm_scores_of rows = Inr rm" "set (keys rm) \<subseteq> {''rm_scores''}"
    using rm_scores_uniform [OF assms(1,3)] by (auto simp: keys_def)
  have ks: "keys (reward_info (hd rows)) = ks" using len(8) assms(2) by simp
  obtain infos where infos: "mapM_result (info_column rows) ks = Inr infos" "list_all (\<lambda>(k, v). length v = length rows) infos"
    using info_columns_uniform [OF assms(1) subset_refl] by blast
  let ?nt = "obj_update (obj_update [(''__num_turns__'', map (\<lambda>row. Turns (row_turns row)) rows)]
      ((case extra of None \<Rightarrow> [] | Some d \<Rightarrow> d) @ infos @ [(''multi_modal_inputs'', map (\<lambda>_. No_Inputs) rows)])) (field_columns rows)"
  have nt: "list_all (\<lambda>(k, v). length v = length rows) ?nt"
    by (intro obj_update_lengths)
      (use infos(2) assms(5) in \<open>auto simp: field_columns_def list_all_iff input_fits_def split: option.splits\<close>)
  let ?td = "\<lparr>td_size = length rows, td_items = [(''prompts'', map (map real_of_int \<circ> row_prompt) rows),
      (''responses'', map (map real_of_int \<circ> row_response) rows), (''response_mask'', map (map real_of_int \<circ> row_mask) rows),
      (''input_ids'', map (map real_of_int \<circ> row_input) rows), (''attention_mask'', map (map real_of_int \<circ> row_attention) rows),
      (''position_ids'', map (map real_of_int \<circ> row_position) rows)] @ lp @ [] @ rm\<rparr>"
  have mk: "Data_Proto.make (Some ?td) ?nt m = Inr \<lparr>batch = Some ?td, non_tensor = ?nt, meta = m\<rparr>" for m
    using nt by (simp add: Data_Proto.make_def check_consistency_def)
  show ?thesis
    unfolding combine_rows_def cats lp(1) ex rm(1) ks infos(1) rbind_simps mk
    by (rule exI, intro conjI, rule refl) (use nt in \<open>simp_all add: check_consistency_def dp_len_def tensor_def\<close>)
qed

text \<open>Rows of two widths cannot be combined, for instance when one response was cut to another length.\<close>

lemma two_widths_raise:
  assumes "r \<in> set rows" and "r' \<in> set rows" and "length (row_response r) \<noteq> length (row_response r')"
  shows "combine_rows rows extra = Inl RuntimeError"
proof -
  have "\<not> (\<forall>x \<in> set rows. length (row_response x) = length (row_response (hd rows)))" using assms by metis
  then have "cat_ints (map row_response rows) = Inl RuntimeError"
    using assms(1) by (cases rows) (auto simp: cat_ints_def cat_tensors_def ensure_def)
  moreover have "cat_ints (map row_prompt rows) = Inl RuntimeError \<or> (\<exists>x. cat_ints (map row_prompt rows) = Inr x)"
    by (auto simp: cat_ints_def cat_tensors_def ensure_def)
  ultimately show ?thesis by (auto simp: combine_rows_def)
qed

section \<open>From the runs to the batch\<close>

lemma run_lengths:
  assumes "run_tool_agent env cfg interaction msgs images videos = Some (Inr out)" and "out_mask out \<noteq> []"
    and "response_length cfg = int L"
  shows "length (out_mask out) = length (out_response out) \<and> length (out_response out) \<le> L"
proof -
  obtain d where l: "agent_loop env cfg PENDING (new_agent_data msgs images videos) = Some (Inr d)"
    and out: "out = finalize_output cfg d"
    using assms(1) by (rule run_output)
  have "recording env cfg msgs images videos TERMINATED d"
    by (rule agent_loop_invariant [OF l refl, where I = "recording env cfg msgs images videos"])
      (simp_all add: recording_step)
  then obtain p segs where r: "records env p segs d" by auto
  then have "length (response_mask d) \<le> length (prompt_ids d)" by (simp add: records_def)
  moreover have "response_mask d \<noteq> []" using assms(2) by (auto simp: out finalize_output_def Let_def py_upto_def)
  ultimately show ?thesis
    using assms(3) by (simp add: out finalize_output_def Let_def py_upto_def py_last_def)
qed

text \<open>The keys of the extra information on the reward, which an output brings or the reward worker adds.\<close>

definition extra_info_keys :: "'o agent_output \<Rightarrow> string list" where
  "extra_info_keys out = (case map_of (out_fields out) ''reward_extra_info'' of Some (Reward_Info d) \<Rightarrow> keys d | _ \<Rightarrow> [])"

text \<open>A reward worker that returns, with extra information under the keys \<open>ks\<close>.\<close>

definition scores_with :: "'o score_row option \<Rightarrow> string list \<Rightarrow> bool" where
  "scores_with scorer ks \<longleftrightarrow>
     (case scorer of None \<Rightarrow> True | Some f \<Rightarrow> \<forall>row. \<exists>score info. f row = Inr (score, info) \<and> keys info = ks)"

lemma padded_row_uniform:
  assumes "length (out_mask out) = length (out_response out)" and "length (out_response out) \<le> L" and "0 < P"
  shows "uniform_row P L (extra_info_keys out) (padded_row pid P L msgs None None out)"
proof -
  have "length (py_last P (out_prompt out)) \<le> P" using assms(3) by (simp add: py_last_def)
  then show ?thesis
    using assms(1,2)
    by (auto simp: uniform_row_def padded_row_def Let_def sum_list_replicate reward_info_def update_conv' keys_def
        extra_info_keys_def split: option.splits extra.splits)
qed

lemma scored_row_uniform:
  assumes "uniform_row P L js row" and "row_score row = None" and "scores_with scorer ks" and "scorer = None \<longrightarrow> js = ks"
  shows "\<exists>row'. compute_row_score scorer row = Inr row' \<and> uniform_row P L ks row' \<and> row_mask row' = row_mask row \<and>
    row_logprobs row' = row_logprobs row"
proof (cases scorer)
  case None
  with assms show ?thesis by auto
next
  case (Some f)
  then have "\<exists>score info. f row = Inr (score, info) \<and> keys info = ks" using assms(3) by (simp add: scores_with_def)
  then obtain score info where "f row = Inr (score, info)" "keys info = ks" by blast
  then show ?thesis using Some assms(1,2)
    by (simp add: compute_row_score_def uniform_row_def reward_info_def update_conv')
qed

record 'o agent_sample =
  sample_env :: "'o environment"
  sample_interaction :: "string option"
  sample_messages :: "chat_message list"
  sample_images :: "'o list option"
  sample_videos :: "'o list option"
  sample_output :: "'o agent_output"

text \<open>
  A sample whose run ended with an output of at least one token and without routing data. When there is no reward
  worker, the output brings its extra information under the keys \<open>ks\<close>.
\<close>

definition run_sample :: "agent_config \<Rightarrow> 'o score_row option \<Rightarrow> string list \<Rightarrow> 'o agent_sample \<Rightarrow> bool" where
  "run_sample cfg scorer ks x \<longleftrightarrow>
     run_tool_agent (sample_env x) cfg (sample_interaction x) (sample_messages x) (sample_images x) (sample_videos x) =
       Some (Inr (sample_output x)) \<and> out_mask (sample_output x) \<noteq> [] \<and> out_experts (sample_output x) = None \<and>
     (scorer = None \<longrightarrow> extra_info_keys (sample_output x) = ks)"

lemma run_logprobs:
  assumes "run_tool_agent env cfg interaction msgs images videos = Some (Inr out)" and "response_length cfg = int L"
    and "out_logprobs out = Some ls"
  shows "length ls \<le> L"
  using assms(2,3) run_output [OF assms(1)] by (fastforce simp: finalize_output_def Let_def py_upto_def split: if_splits)

text \<open>
  C15: tool-agent runs form a batch. The conditions are: every run ended with an output whose response mask is not
  empty (an aborted run has an empty one) and without routing data; all rows are padded to the response length of
  the loop (another length gives two widths, which never form a batch: \<open>two_widths_raise\<close>); either the first
  output has no log-probabilities or every output has some; the reward worker, if there is one, returns extra
  information under the same keys for every row, and otherwise the outputs bring it under the same keys; arrays
  taken over from the input have one entry per sample. Then padding, scoring and combining the outputs returns a
  consistent container with one row per sample, whose response mask is the mask of every run followed by zeros.
\<close>

theorem agent_runs_form_batch:
  assumes pads: "tokenizer_pads pad pid" and ne: "samples \<noteq> []" and pos: "0 < P" "0 < L"
    and width: "response_length cfg = int L" and scorer: "scores_with scorer ks"
    and runs: "list_all (run_sample cfg scorer ks) samples"
    and logprobs: "out_logprobs (sample_output (hd samples)) = None \<or>
      list_all (\<lambda>x. out_logprobs (sample_output x) \<noteq> None) samples"
    and extra: "input_fits extra (length samples)"
  shows "\<exists>rows d. mapM_result (\<lambda>x. agent_loop_postprocess pad er zero scorer P (Some L) dflt (sample_messages x) None (sample_output x)) samples = Inr rows \<and>
    combine_rows rows extra = Inr d \<and> check_consistency d \<and> dp_len d = length samples \<and>
    tensor d ''response_mask'' = Inr (map (\<lambda>x. map real_of_int (out_mask (sample_output x)) @
      replicate (L - length (out_mask (sample_output x))) 0) samples)"
proof -
  let ?f = "\<lambda>x. padded_row pid P L (sample_messages x) None None (sample_output x)"
  have run: "run_sample cfg scorer ks x" if "x \<in> set samples" for x using runs that by (simp add: list_all_iff)
  have len: "length (out_mask (sample_output x)) = length (out_response (sample_output x)) \<and> length (out_response (sample_output x)) \<le> L"
    if "x \<in> set samples" for x
    using run [OF that] run_lengths [OF _ _ width] unfolding run_sample_def by metis
  have "\<exists>row'. compute_row_score scorer (?f x) = Inr row' \<and> uniform_row P L ks row' \<and> row_mask row' = row_mask (?f x) \<and>
      row_logprobs row' = row_logprobs (?f x)" if "x \<in> set samples" for x
    using run [OF that] len [OF that]
    by (intro scored_row_uniform [OF padded_row_uniform [OF _ _ pos(1)] _ scorer])
      (auto simp: run_sample_def padded_row_def Let_def)
  then obtain g where g: "\<And>x. x \<in> set samples \<Longrightarrow> compute_row_score scorer (?f x) = Inr (g x) \<and> uniform_row P L ks (g x) \<and>
      row_mask (g x) = row_mask (?f x) \<and> row_logprobs (g x) = row_logprobs (?f x)" by metis
  have L: "target_length (Some L) dflt = L" using pos(2) by (simp add: target_length_def)
  have rows: "mapM_result (\<lambda>x. agent_loop_postprocess pad er zero scorer P (Some L) dflt (sample_messages x) None (sample_output x)) samples =
      Inr (map g samples)"
    by (rule mapM_result_Inr) (use run g len in \<open>simp add: postprocess_row [OF pads] run_sample_def L\<close>)
  have "row_logprobs (hd (map g samples)) = None \<or> list_all (\<lambda>row. \<exists>x. row_logprobs row = Some x \<and> length x = L) (map g samples)"
  proof (cases "out_logprobs (sample_output (hd samples))")
    case None
    then show ?thesis using g [of "hd samples"] ne by (simp add: hd_map padded_row_def Let_def)
  next
    case (Some ls)
    have "\<exists>y. row_logprobs (g x) = Some y \<and> length y = L" if x: "x \<in> set samples" for x
    proof -
      obtain ls where ls: "out_logprobs (sample_output x) = Some ls"
        using logprobs Some x by (auto simp: list_all_iff)
      have "length ls \<le> L" using run [OF x] run_logprobs [OF _ width ls] unfolding run_sample_def by blast
      then show ?thesis using g [OF x] ls by (simp add: padded_row_def Let_def)
    qed
    then show ?thesis by (simp add: list_all_iff)
  qed
  moreover have "list_all (uniform_row P L ks) (map g samples)" using g by (simp add: list_all_iff)
  ultimately obtain d where d: "combine_rows (map g samples) extra = Inr d" "check_consistency d" "dp_len d = length samples"
      "tensor d ''response_mask'' = Inr (map (map real_of_int \<circ> row_mask) (map g samples))"
    using batch_of_rows [of P L ks "map g samples" L extra] ne pos(2) extra by auto
  have "map (map real_of_int \<circ> row_mask) (map g samples) = map (\<lambda>x. map real_of_int (out_mask (sample_output x)) @
      replicate (L - length (out_mask (sample_output x))) 0) samples"
    using len g by (simp add: padded_row_def Let_def)
  then show ?thesis using rows d by auto
qed

lemma demo_sample:
  "\<exists>out. run_tool_agent demo_env demo_config None [] None None = Some (Inr out) \<and> out_mask out = [1, 1, 0, 0, 1] \<and>
    out_experts out = None \<and> out_logprobs out = None \<and> map_of (out_fields out) ''reward_extra_info'' = None"
  by (simp add: run_tool_agent_def initialize_interaction_def finalize_output_def agent_eval demo_env_def demo_config_def
      update_conv')

text \<open>One run, scored by a reward worker that gives every row the score 1.\<close>

definition demo_scorer :: "nat score_row" where
  "demo_scorer = (\<lambda>_. Inr (1, [(''acc'', 1)]))"

lemma agent_runs_form_batch_witness:
  "\<exists>rows (d :: nat agent_batch). combine_rows rows None = Inr d \<and> dp_len d = 1 \<and>
     tensor d ''response_mask'' = Inr [[1, 1, 0, 0, 1, 0, 0, 0]]"
proof -
  obtain out where out: "run_tool_agent demo_env demo_config None [] None None = Some (Inr out)" "out_mask out = [1, 1, 0, 0, 1]"
    "out_experts out = None" "out_logprobs out = None"
    using demo_sample by blast
  let ?x = "\<lparr>sample_env = demo_env, sample_interaction = None, sample_messages = [], sample_images = None, sample_videos = None,
    sample_output = out\<rparr>"
  have "list_all (run_sample demo_config (Some demo_scorer) [''acc'']) [?x]" "response_length demo_config = int 8"
    using out by (simp_all add: run_sample_def demo_config_def)
  moreover have "scores_with (Some demo_scorer) [''acc'']" by (simp add: scores_with_def demo_scorer_def)
  ultimately show ?thesis
    using agent_runs_form_batch [OF plain_pad_pads [of 0] _ _ _ _ _ _ _ , of "[?x]" 4 8 demo_config "Some demo_scorer" "[''acc'']"
        None "\<lambda>_. []" "[]" 8] out(2,4)
    by (auto simp: input_fits_def numeral_eq_Suc)
qed

end
