(* ===== verification/Py_Regex.thy ===== *)
theory Py_Regex
  imports Py_String
begin

text \<open>
  A backtracking matcher for the regular expressions of the scoring functions, with the priorities of the module
  \<open>re\<close>: alternatives from left to right, greedy repetitions from the longest, lazy ones from the shortest. Repetitions are
  of one character class, which is what the expressions of the program use; groups are numbered. The strings are the ones of code points below 256.
\<close>

section \<open>Letter case\<close>

text \<open>\<open>str.lower\<close> on code points below 256.\<close>

definition lower_char :: "char \<Rightarrow> char" where
  "lower_char c = (let n = (of_char c :: nat) in
     if (65 \<le> n \<and> n \<le> 90) \<or> (192 \<le> n \<and> n \<le> 222 \<and> n \<noteq> 215) then char_of (n + 32) else c)"

definition py_lower :: "string \<Rightarrow> string" where
  "py_lower = map lower_char"

section \<open>Expressions\<close>

datatype regex =
    Chars "char \<Rightarrow> bool"
  | Then regex regex
  | Either regex regex
  | Repeat bool "char \<Rightarrow> bool"
  | Group nat regex
  | Empty
  | At_End
  | Word_Boundary

text \<open>A repetition is greedy when its flag is true. The abbreviations name the forms of the module.\<close>

definition literal :: "string \<Rightarrow> regex" where
  "literal s = foldr (\<lambda>c r. Then (Chars (\<lambda>d. d = c)) r) s Empty"

fun sequence :: "regex list \<Rightarrow> regex" where
  "sequence [] = Empty"
| "sequence [r] = r"
| "sequence (r # rs) = Then r (sequence rs)"

fun choice :: "regex list \<Rightarrow> regex" where
  "choice [] = Chars (\<lambda>_. False)"
| "choice [r] = r"
| "choice (r # rs) = Either r (choice rs)"

abbreviation spaces :: regex where
  "spaces \<equiv> Repeat True py_space"

definition some_of :: "(char \<Rightarrow> bool) \<Rightarrow> regex" where
  "some_of p = Then (Chars p) (Repeat True p)"

definition maybe :: "regex \<Rightarrow> regex" where
  "maybe r = Either r Empty"

text \<open>Letters without case: \<open>re.IGNORECASE\<close> on ASCII letters.\<close>

definition lower_ascii :: "char \<Rightarrow> char" where
  "lower_ascii c = (let n = (of_char c :: nat) in if 65 \<le> n \<and> n \<le> 90 then char_of (n + 32) else c)"

definition any_case :: "string \<Rightarrow> regex" where
  "any_case s = foldr (\<lambda>c r. Then (Chars (\<lambda>d. lower_ascii d = lower_ascii c)) r) s Empty"

definition is_digit :: "char \<Rightarrow> bool" where
  "is_digit c \<longleftrightarrow> (let n = (of_char c :: nat) in 48 \<le> n \<and> n \<le> 57)"

definition is_upper_letter :: "char \<Rightarrow> bool" where
  "is_upper_letter c \<longleftrightarrow> (let n = (of_char c :: nat) in 65 \<le> n \<and> n \<le> 90)"

text \<open>\<open>\w\<close> on code points below 256: letters, digits and the underscore.\<close>

definition word_char :: "char \<Rightarrow> bool" where
  "word_char c \<longleftrightarrow> (let n = (of_char c :: nat) in
     is_digit c \<or> is_upper_letter c \<or> (97 \<le> n \<and> n \<le> 122) \<or> n = 95 \<or>
     n \<in> {170, 178, 179, 181, 185, 186, 188, 189, 190} \<or> (192 \<le> n \<and> n \<le> 255 \<and> n \<noteq> 215 \<and> n \<noteq> 247))"

section \<open>Matching\<close>

text \<open>A position: the last character before it, the text ahead of it, and the groups matched so far.\<close>

record position =
  behind :: "char option"
  ahead :: string
  groups :: "(nat \<times> string) list"

definition move :: "nat \<Rightarrow> position \<Rightarrow> position" where
  "move n p = (if n = 0 then p else p\<lparr>behind := Some (ahead p ! (n - 1)), ahead := drop n (ahead p)\<rparr>)"

definition at_boundary :: "position \<Rightarrow> bool" where
  "at_boundary p \<longleftrightarrow>
     (case behind p of None \<Rightarrow> False | Some c \<Rightarrow> word_char c) \<noteq> (case ahead p of [] \<Rightarrow> False | c # _ \<Rightarrow> word_char c)"

text \<open>All ends of a match from a position, in the order in which backtracking tries them.\<close>

fun ends :: "regex \<Rightarrow> position \<Rightarrow> position list" where
  "ends (Chars f) p = (case ahead p of [] \<Rightarrow> [] | c # _ \<Rightarrow> if f c then [move 1 p] else [])"
| "ends (Then r s) p = concat (map (ends s) (ends r p))"
| "ends (Either r s) p = ends r p @ ends s p"
| "ends (Repeat greedy f) p =
     (let n = length (takeWhile f (ahead p)); counts = [0..<Suc n]
      in map (\<lambda>i. move i p) (if greedy then rev counts else counts))"
| "ends (Group k r) p =
     map (\<lambda>q. q\<lparr>groups := (k, take (length (ahead p) - length (ahead q)) (ahead p)) # groups q\<rparr>) (ends r p)"
| "ends Empty p = [p]"
| "ends At_End p = (if ahead p = [] \<or> ahead p = [CHR 0x0A] then [p] else [])"
| "ends Word_Boundary p = (if at_boundary p then [p] else [])"

definition first_end :: "regex \<Rightarrow> position \<Rightarrow> position option" where
  "first_end r p = (case ends r p of [] \<Rightarrow> None | q # _ \<Rightarrow> Some q)"

definition group_text :: "position \<Rightarrow> nat \<Rightarrow> string" where
  "group_text p k = (case map_of (groups p) k of None \<Rightarrow> [] | Some t \<Rightarrow> t)"

text \<open>
  \<open>re.finditer\<close>: the first group of every match from left to right; after a match the search goes on behind it. A match
  without a character, which the program's expressions do not have, ends the search.
\<close>

function find_groups_from :: "regex \<Rightarrow> position \<Rightarrow> string list" where
  "find_groups_from r p =
     (case first_end r p of
        Some q \<Rightarrow>
          if length (ahead q) < length (ahead p)
          then group_text q 1 # find_groups_from r (q\<lparr>groups := []\<rparr>)
          else []
      | None \<Rightarrow> (if ahead p = [] then [] else find_groups_from r (move 1 p)))"
  by pat_completeness auto
termination
  by (relation "measure (\<lambda>(r, p). length (ahead p))") (auto simp: move_def)

declare find_groups_from.simps [simp del]

definition start_of :: "string \<Rightarrow> position" where
  "start_of s = \<lparr>behind = None, ahead = s, groups = []\<rparr>"

definition find_groups :: "regex \<Rightarrow> string \<Rightarrow> string list" where
  "find_groups r s = find_groups_from r (start_of s)"

text \<open>\<open>re.search\<close> as a truth value.\<close>

function matches_from :: "regex \<Rightarrow> position \<Rightarrow> bool" where
  "matches_from r p =
     (if first_end r p \<noteq> None then True else if ahead p = [] then False else matches_from r (move 1 p))"
  by pat_completeness auto
termination
  by (relation "measure (\<lambda>(r, p). length (ahead p))") (auto simp: move_def)

declare matches_from.simps [simp del]

definition search_matches :: "regex \<Rightarrow> string \<Rightarrow> bool" where
  "search_matches r s = matches_from r (start_of s)"

text \<open>\<open>re.fullmatch\<close> as a truth value.\<close>

definition matches_fully :: "regex \<Rightarrow> string \<Rightarrow> bool" where
  "matches_fully r s \<longleftrightarrow> list_ex (\<lambda>q. ahead q = []) (ends r (start_of s))"

text \<open>\<open>re.sub(r, new, s)\<close>, where the replacement is built from the groups of the match.\<close>

function substitute_from :: "regex \<Rightarrow> ((nat \<Rightarrow> string) \<Rightarrow> string) \<Rightarrow> position \<Rightarrow> string" where
  "substitute_from r new p =
     (case first_end r p of
        Some q \<Rightarrow>
          if length (ahead q) < length (ahead p)
          then new (group_text q) @ substitute_from r new (q\<lparr>groups := []\<rparr>)
          else ahead p
      | None \<Rightarrow> (case ahead p of [] \<Rightarrow> [] | c # _ \<Rightarrow> c # substitute_from r new (move 1 p)))"
  by pat_completeness auto
termination
  by (relation "measure (\<lambda>(r, new, p). length (ahead p))") (auto simp: move_def)

declare substitute_from.simps [simp del]

definition substitute :: "regex \<Rightarrow> ((nat \<Rightarrow> string) \<Rightarrow> string) \<Rightarrow> string \<Rightarrow> string" where
  "substitute r new s = substitute_from r new (start_of s)"

end
