(* ===== verification/Tool_Parser.thy ===== *)
theory Tool_Parser
  imports Tool_Agent Py_Regex
begin

text \<open>
  The tool parsers (\<open>verl/experimental/agent_loop/tool_parser.py\<close>): the formats \<open>hermes\<close>, \<open>gpt-oss\<close> and
  \<open>qwen3_coder\<close>. The text is what the tokenizer decoded. The regular expressions of the module are modelled by the
  searches they stand for: the leftmost opening delimiter, then the first closing one. \<open>json.loads\<close>, \<open>json.dumps\<close>,
  \<open>eval\<close> and the conversions of numbers are parameters.
\<close>

section \<open>Delimited blocks\<close>

text \<open>
  \<open>findall\<close> and \<open>sub("")\<close> of \<open>open(.*?)close\<close> over all characters: the contents of the blocks and the text without
  them.
\<close>

function match_blocks :: "string \<Rightarrow> string \<Rightarrow> string \<Rightarrow> string list \<times> string" where
  "match_blocks op cl s =
     (if op = [] then ([], s)
      else case split_first op s of
             None \<Rightarrow> ([], s)
           | Some (before, inside) \<Rightarrow>
               (case split_first cl inside of
                  None \<Rightarrow> ([], s)
                | Some (content, after) \<Rightarrow>
                    (case match_blocks op cl after of (cs, rest) \<Rightarrow> (content # cs, before @ rest))))"
  by pat_completeness auto
termination
proof (relation "measure (\<lambda>(op, cl, s). length s)", goal_cases)
  case (2 op cl s x before inside y content after)
  then have "length inside < length s" "length after \<le> length inside"
    using split_first_length [of op s before inside] split_first_length [of cl inside content after]
    by (auto simp: neq_Nil_conv)
  then show ?case by simp
qed simp

declare match_blocks.simps [simp del]

text \<open>
  \<open>findall\<close> of \<open>open(.*?)close|open(.*?)$\<close>: a block without a closing delimiter reaches to the end of the text. A
  lazy group stops before a final line break, where \<open>$\<close> also matches; a greedy one takes it.
\<close>

definition before_end :: "bool \<Rightarrow> string \<Rightarrow> string" where
  "before_end lazy s = (if lazy \<and> s \<noteq> [] \<and> last s = CHR 0x0A then butlast s else s)"

function open_blocks :: "bool \<Rightarrow> string \<Rightarrow> string \<Rightarrow> string \<Rightarrow> string list" where
  "open_blocks lazy op cl s =
     (if op = [] then []
      else case split_first op s of
             None \<Rightarrow> []
           | Some (before, inside) \<Rightarrow>
               (case split_first cl inside of
                  None \<Rightarrow> [before_end lazy inside]
                | Some (content, after) \<Rightarrow> content # open_blocks lazy op cl after))"
  by pat_completeness auto
termination
proof (relation "measure (\<lambda>(lazy, op, cl, s). length s)", goal_cases)
  case (2 lazy op cl s x before inside y content after)
  then have "length inside < length s" "length after \<le> length inside"
    using split_first_length [of op s before inside] split_first_length [of cl inside content after]
    by (auto simp: neq_Nil_conv)
  then show ?case by simp
qed simp

declare open_blocks.simps [simp del]

definition contains :: "string \<Rightarrow> string \<Rightarrow> bool" where
  "contains pat s \<longleftrightarrow> split_first pat s \<noteq> None"

section \<open>JSON values\<close>

text \<open>Objects and strings are told apart from the other values, which the parsers do not look into.\<close>

datatype 'j json = JObject "(string \<times> 'j json) list" | JString string | JOther 'j

definition json_get :: "'j json \<Rightarrow> string \<Rightarrow> 'j json option" where
  "json_get v k = (case v of JObject kvs \<Rightarrow> map_of kvs k | _ \<Rightarrow> None)"

section \<open>The parser of the format hermes\<close>

text \<open>One match: any exception (no JSON, a missing key, a name that is not a string) skips it.\<close>

definition hermes_call :: "(string \<Rightarrow> 'j json option) \<Rightarrow> ('j json \<Rightarrow> string) \<Rightarrow> string \<Rightarrow> function_call option" where
  "hermes_call loads dumps t =
     (case loads t of
        None \<Rightarrow> None
      | Some v \<Rightarrow>
          (case (json_get v ''name'', json_get v ''arguments'') of
             (Some (JString name), Some args) \<Rightarrow> Some \<lparr>arguments = dumps args, call_name = name\<rparr>
           | _ \<Rightarrow> None))"

definition hermes_extract ::
  "(string \<Rightarrow> 'j json option) \<Rightarrow> ('j json \<Rightarrow> string) \<Rightarrow> string \<Rightarrow> string \<times> function_call list" where
  "hermes_extract loads dumps t =
     (if \<not> contains ''<tool_call>'' t \<or> \<not> contains ''</tool_call>'' t then (t, [])
      else case match_blocks ''<tool_call>'' ''</tool_call>'' t of
             (matches, rest) \<Rightarrow> (rest, List.map_filter (hermes_call loads dumps) matches))"

section \<open>The parser of the format gpt-oss\<close>

text \<open>
  The header of a call between the channel token and the next \<open><\<close>: \<open>[^<]* to=functions\.([^<]+) \<close>, where the first
  part is as long as it can be while a name remains.
\<close>

fun split_last_named :: "string \<Rightarrow> string \<Rightarrow> string option" where
  "split_last_named pat [] = None"
| "split_last_named pat (c # cs) =
     (case split_last_named pat cs of
        Some name \<Rightarrow> Some name
      | None \<Rightarrow> if prefix pat (c # cs) \<and> drop (length pat) (c # cs) \<noteq> [] then Some (drop (length pat) (c # cs)) else None)"

definition gpt_oss_header :: "string \<Rightarrow> string option" where
  "gpt_oss_header h =
     (if h \<noteq> [] \<and> last h = CHR '' '' then split_last_named '' to=functions.'' (butlast h) else None)"

text \<open>The rest of a text that begins with a pattern.\<close>

definition drop_prefix :: "string \<Rightarrow> string \<Rightarrow> string option" where
  "drop_prefix pat s = (if prefix pat s then Some (drop (length pat) s) else None)"

text \<open>The whole pattern at the beginning of a text: the name, the arguments and what follows the call.\<close>

definition gpt_oss_at :: "string \<Rightarrow> (string \<times> string \<times> string) option" where
  "gpt_oss_at s =
     (case drop_prefix ''<|start|>assistant<|channel|>'' s of
        None \<Rightarrow> None
      | Some s1 \<Rightarrow>
          (case drop_prefix ''<|constrain|>json<|message|>'' (dropWhile (\<lambda>c. c \<noteq> CHR ''<'') s1) of
             None \<Rightarrow> None
           | Some s2 \<Rightarrow>
               (case gpt_oss_header (takeWhile (\<lambda>c. c \<noteq> CHR ''<'') s1) of
                  None \<Rightarrow> None
                | Some name \<Rightarrow> map_option (\<lambda>(args, after). (name, args, after)) (split_first ''<|call|>'' s2))))"

lemma drop_prefix_length: "drop_prefix pat s = Some r \<Longrightarrow> length r \<le> length s"
  by (auto simp: drop_prefix_def split: if_splits)

lemma gpt_oss_at_length:
  assumes "gpt_oss_at s = Some (name, args, after)"
  shows "length after < length s"
proof -
  obtain s1 s2 where s1: "drop_prefix ''<|start|>assistant<|channel|>'' s = Some s1"
    and s2: "drop_prefix ''<|constrain|>json<|message|>'' (dropWhile (\<lambda>c. c \<noteq> CHR ''<'') s1) = Some s2"
    and c: "split_first ''<|call|>'' s2 = Some (args, after)"
    using assms unfolding gpt_oss_at_def by (auto split: option.splits)
  have "length after + 8 \<le> length s2" using split_first_length [OF c] by simp
  moreover have "length s2 \<le> length s1"
    using drop_prefix_length [OF s2] length_dropWhile_le [of "\<lambda>c. c \<noteq> CHR ''<''" s1] by linarith
  ultimately show ?thesis using drop_prefix_length [OF s1] by linarith
qed

text \<open>\<open>findall\<close> and \<open>sub("")\<close> of the pattern: the search goes on behind a match, otherwise one character further.\<close>

function gpt_oss_calls :: "string \<Rightarrow> (string \<times> string) list \<times> string" where
  "gpt_oss_calls s =
     (case s of
        [] \<Rightarrow> ([], [])
      | c # cs \<Rightarrow>
          (case gpt_oss_at s of
             Some (name, args, after) \<Rightarrow> (case gpt_oss_calls after of (ms, rest) \<Rightarrow> ((name, args) # ms, rest))
           | None \<Rightarrow> (case gpt_oss_calls cs of (ms, rest) \<Rightarrow> (ms, c # rest))))"
  by pat_completeness auto
termination
  by (relation "measure length") (auto dest: gpt_oss_at_length)

declare gpt_oss_calls.simps [simp del]

text \<open>Padding tokens and the chain of thought are removed first, so calls inside it are never found.\<close>

definition gpt_oss_visible :: "string \<Rightarrow> string \<Rightarrow> string" where
  "gpt_oss_visible pad_token t =
     (let t = py_replace pad_token [] t;
          t = snd (match_blocks ''<|start|>assistant<|channel|>analysis<|message|>'' ''<|end|>'' t)
      in snd (match_blocks ''<|channel|>analysis<|message|>'' ''<|end|>'' t))"

definition gpt_oss_extract :: "string \<Rightarrow> string \<Rightarrow> string \<times> function_call list" where
  "gpt_oss_extract pad_token t =
     (let t = gpt_oss_visible pad_token t in
      case gpt_oss_calls t of
        (matches, rest) \<Rightarrow>
          if matches = [] then (t, [])
          else (rest, map (\<lambda>(name, args). \<lparr>arguments = args, call_name = name\<rparr>) matches))"

section \<open>The parser of the format qwen3_coder\<close>

text \<open>The schema of a tool: its kind, its name and the types of its parameters.\<close>

record tool_schema =
  schema_type :: string
  schema_name :: string
  schema_properties :: "(string \<times> string option) list"

text \<open>A converted argument; objects come from \<open>json.loads\<close> or \<open>eval\<close>.\<close>

datatype 'j arg_value = ANull | AString string | AInt int | AFloat real | ABool bool | AObject 'j

record 'j conversions =
  read_int :: "string \<Rightarrow> int option"
  read_float :: "string \<Rightarrow> real option"
  read_json :: "string \<Rightarrow> 'j arg_value option"
  evaluate :: "string \<Rightarrow> 'j arg_value option"
  dump_args :: "(string \<times> 'j arg_value) list \<Rightarrow> string option"

definition get_arguments_config :: "tool_schema list \<Rightarrow> string \<Rightarrow> (string \<times> string option) list" where
  "get_arguments_config tools name =
     (case List.find (\<lambda>t. schema_type t = ''function'' \<and> schema_name t = name) tools of
        None \<Rightarrow> []
      | Some t \<Rightarrow> schema_properties t)"

definition starts_with_any :: "string list \<Rightarrow> string \<Rightarrow> bool" where
  "starts_with_any pats s \<longleftrightarrow> list_ex (\<lambda>p. prefix p s) pats"

definition convert_param_value ::
  "'j conversions \<Rightarrow> (string \<times> string option) list \<Rightarrow> string \<Rightarrow> string \<Rightarrow> 'j arg_value" where
  "convert_param_value cv config name v =
     (if py_lower v = ''null'' then ANull
      else case map_of config name of
             None \<Rightarrow> AString v
           | Some ty \<Rightarrow>
               (let t = (case ty of None \<Rightarrow> ''string'' | Some s \<Rightarrow> py_lower (py_strip s)) in
                if t \<in> {''string'', ''str'', ''text'', ''varchar'', ''char'', ''enum''} then AString v
                else if starts_with_any [''int'', ''uint'', ''long'', ''short'', ''unsigned''] t
                then (case read_int cv v of None \<Rightarrow> AString v | Some i \<Rightarrow> AInt i)
                else if starts_with_any [''num'', ''float''] t
                then (case read_float cv v of
                        None \<Rightarrow> AString v
                      | Some r \<Rightarrow> if r = of_int (if 0 \<le> r then \<lfloor>r\<rfloor> else \<lceil>r\<rceil>)
                                  then AInt (if 0 \<le> r then \<lfloor>r\<rfloor> else \<lceil>r\<rceil>) else AFloat r)
                else if t \<in> {''boolean'', ''bool'', ''binary''} then ABool (py_lower v = ''true'')
                else case (if t = ''object'' \<or> prefix ''dict'' t then read_json cv v else None) of
                       Some x \<Rightarrow> x
                     | None \<Rightarrow> (case evaluate cv v of Some x \<Rightarrow> x | None \<Rightarrow> AString v)))"

definition strip_breaks :: "string \<Rightarrow> string" where
  "strip_breaks v =
     (let v = (if v \<noteq> [] \<and> hd v = CHR 0x0A then tl v else v)
      in if v \<noteq> [] \<and> last v = CHR 0x0A then butlast v else v)"

text \<open>One parameter match: \<open>index(">")\<close> raises without the sign.\<close>

definition xml_parameter ::
  "'j conversions \<Rightarrow> (string \<times> string option) list \<Rightarrow> string \<Rightarrow> (string \<times> 'j arg_value) option" where
  "xml_parameter cv config t =
     (case split_first ''>'' t of
        None \<Rightarrow> None
      | Some (name, v) \<Rightarrow> Some (name, convert_param_value cv config name (strip_breaks v)))"

fun all_some :: "'a option list \<Rightarrow> 'a list option" where
  "all_some [] = Some []"
| "all_some (None # xs) = None"
| "all_some (Some x # xs) = map_option ((#) x) (all_some xs)"

definition parse_xml_function_call :: "'j conversions \<Rightarrow> tool_schema list \<Rightarrow> string \<Rightarrow> function_call option" where
  "parse_xml_function_call cv tools t =
     (case split_first ''>'' t of
        None \<Rightarrow> None
      | Some (name, params) \<Rightarrow>
          (case all_some (map (xml_parameter cv (get_arguments_config tools name))
                  (open_blocks True ''<parameter='' ''</parameter>'' params)) of
             None \<Rightarrow> None
           | Some kvs \<Rightarrow> map_option (\<lambda>a. \<lparr>arguments = a, call_name = name\<rparr>)
               (dump_args cv (fold (\<lambda>(k, v). AList.update k v) kvs []))))"

definition get_function_calls :: "string \<Rightarrow> string list" where
  "get_function_calls t =
     (let raw = open_blocks True ''<tool_call>'' ''</tool_call>'' t;
          raw = (if raw = [] then [t] else raw)
      in concat (map (open_blocks False ''<function='' ''</function>'') raw))"

definition qwen3_extract :: "'j conversions \<Rightarrow> tool_schema list \<Rightarrow> string \<Rightarrow> string \<times> function_call list" where
  "qwen3_extract cv tools t =
     (case split_first ''<tool_call>'' t of
        None \<Rightarrow> (t, [])
      | Some (content, _) \<Rightarrow>
          (case get_function_calls t of
             [] \<Rightarrow> (t, [])
           | calls \<Rightarrow>
               (case all_some (map (parse_xml_function_call cv tools) calls) of
                  None \<Rightarrow> (t, [])
                | Some fcs \<Rightarrow> (content, fcs))))"

section \<open>Selection of the parser\<close>

datatype parser_kind = Hermes | Gpt_Oss | Qwen3_Coder

definition get_tool_parser :: "string \<Rightarrow> parser_kind result" where
  "get_tool_parser name =
     (if name = ''hermes'' then Inr Hermes
      else if name = ''gpt-oss'' then Inr Gpt_Oss
      else if name = ''qwen3_coder'' then Inr Qwen3_Coder
      else Inl ValueError)"

end
