(* ===== verification/Tool_Parser_Properties.thy ===== *)
theory Tool_Parser_Properties
  imports Tool_Parser
begin

text \<open>
  Round trips of the tool parsers: calls rendered in the format a model is prompted to use are extracted again, with
  the text around them.
\<close>

section \<open>Searching for delimiters\<close>

text \<open>A delimiter whose first character does not occur again cannot overlap with itself.\<close>

definition border_free :: "string \<Rightarrow> bool" where
  "border_free pat \<longleftrightarrow> pat \<noteq> [] \<and> hd pat \<notin> set (tl pat)"

lemma contains_sublist: "contains pat s \<longleftrightarrow> sublist pat s"
  unfolding contains_def split_first_None by simp

lemma not_contains: "\<not> contains pat s \<longleftrightarrow> split_first pat s = None"
  by (simp only: contains_def not_not)

lemma border_free_straddle:
  assumes "border_free pat" and "prefix pat (c # t @ pat @ r)" and "\<not> prefix pat (c # t)"
  shows False
proof -
  obtain z where z: "(c # t) @ pat @ r = pat @ z" using assms(2) by (auto simp: prefix_def)
  then show False
  proof (subst (asm) append_eq_append_conv2, elim exE disjE conjE)
    fix u
    assume "c # t = pat @ u"
    then show False using assms(3) by (simp add: prefix_def)
  next
    fix u
    assume u: "(c # t) @ u = pat" "pat @ r = u @ z"
    then have "u \<noteq> []" using assms(3) by auto
    then have "hd u = hd pat" using u(2) assms(1) unfolding border_free_def by (metis hd_append2)
    moreover have "hd u \<in> set (tl pat)" using \<open>u \<noteq> []\<close> u(1) by auto
    ultimately show False using assms(1) by (simp add: border_free_def)
  qed
qed

lemma split_first_at:
  assumes "border_free pat" and "\<not> contains pat t"
  shows "split_first pat (t @ pat @ r) = Some (t, r)"
  using assms(2)
proof (induction t)
  case Nil
  obtain c cs where "pat = c # cs" using assms(1) by (cases pat) (auto simp: border_free_def)
  then show ?case by simp
next
  case (Cons c t)
  have n: "\<not> prefix pat (c # t)" "\<not> contains pat t"
    using Cons.prems by (auto simp: contains_sublist sublist_Cons_right)
  have "\<not> prefix pat (c # t @ pat @ r)" using border_free_straddle [OF assms(1)] n(1) by blast
  then show ?case using Cons.IH [OF n(2)] by simp
qed

lemma border_free_tags [simp]:
  "border_free ''<tool_call>''" "border_free ''</tool_call>''" "border_free ''<function=''" "border_free ''</function>''"
  "border_free ''<parameter=''" "border_free ''</parameter>''" "border_free ''>''"
  by (simp_all add: border_free_def)

section \<open>Rendered blocks\<close>

text \<open>A text of delimited blocks, each with the text before it, and a tail.\<close>

definition render_blocks :: "string \<Rightarrow> string \<Rightarrow> (string \<times> string) list \<Rightarrow> string \<Rightarrow> string" where
  "render_blocks op cl pieces tail = concat (map (\<lambda>(t, j). t @ op @ j @ cl) pieces) @ tail"

definition readable_blocks :: "string \<Rightarrow> string \<Rightarrow> (string \<times> string) list \<Rightarrow> string \<Rightarrow> bool" where
  "readable_blocks op cl pieces tail \<longleftrightarrow>
     list_all (\<lambda>(t, j). \<not> contains op t \<and> \<not> contains cl j) pieces \<and> \<not> contains op tail"

lemma render_blocks_simps [simp]:
  "render_blocks op cl [] tail = tail"
  "render_blocks op cl ((t, j) # pieces) tail = t @ op @ j @ cl @ render_blocks op cl pieces tail"
  by (simp_all add: render_blocks_def)

lemma match_blocks_render:
  assumes "border_free op" and "border_free cl" and "readable_blocks op cl pieces tail"
  shows "match_blocks op cl (render_blocks op cl pieces tail) = (map snd pieces, concat (map fst pieces) @ tail)"
  using assms(3)
proof (induction pieces)
  case Nil
  then have "split_first op tail = None" by (simp add: readable_blocks_def not_contains)
  then show ?case by (simp add: match_blocks.simps)
next
  case (Cons p pieces)
  obtain t j where p: "p = (t, j)" by (cases p)
  have r: "\<not> contains op t" "\<not> contains cl j" "readable_blocks op cl pieces tail"
    using Cons.prems by (simp_all add: readable_blocks_def p)
  have "op \<noteq> []" using assms(1) by (simp add: border_free_def)
  then show ?case
    using split_first_at [OF assms(1) r(1)] split_first_at [OF assms(2) r(2)] Cons.IH [OF r(3)]
    by (subst match_blocks.simps) (simp add: p)
qed

lemma open_blocks_render:
  assumes "border_free op" and "border_free cl" and "readable_blocks op cl pieces tail"
  shows "open_blocks lazy op cl (render_blocks op cl pieces tail) = map snd pieces"
  using assms(3)
proof (induction pieces)
  case Nil
  then have "split_first op tail = None" by (simp add: readable_blocks_def not_contains)
  then show ?case by (simp add: open_blocks.simps)
next
  case (Cons p pieces)
  obtain t j where p: "p = (t, j)" by (cases p)
  have r: "\<not> contains op t" "\<not> contains cl j" "readable_blocks op cl pieces tail"
    using Cons.prems by (simp_all add: readable_blocks_def p)
  have "op \<noteq> []" using assms(1) by (simp add: border_free_def)
  then show ?case
    using split_first_at [OF assms(1) r(1)] split_first_at [OF assms(2) r(2)] Cons.IH [OF r(3)]
    by (subst open_blocks.simps) (simp add: p)
qed

section \<open>Round trips\<close>

text \<open>
  C18: The parser of the format hermes extracts the calls of a text in order, each from exactly the text between its
  tags, and returns the text around them, when no text before a tag contains the opening tag and no call the closing one.
\<close>

theorem hermes_roundtrip:
  assumes "readable_blocks ''<tool_call>'' ''</tool_call>'' pieces tail"
  shows "hermes_extract loads dumps (render_blocks ''<tool_call>'' ''</tool_call>'' pieces tail) =
    (concat (map fst pieces) @ tail, List.map_filter (hermes_call loads dumps) (map snd pieces))"
proof (cases pieces)
  case Nil
  then show ?thesis using assms by (simp add: hermes_extract_def readable_blocks_def List.map_filter_def)
next
  case (Cons p ps)
  obtain t j where p: "p = (t, j)" by (cases p)
  let ?s = "render_blocks ''<tool_call>'' ''</tool_call>'' pieces tail"
  have "?s = t @ ''<tool_call>'' @ (j @ ''</tool_call>'' @ render_blocks ''<tool_call>'' ''</tool_call>'' ps tail)"
    and "?s = (t @ ''<tool_call>'' @ j) @ ''</tool_call>'' @ render_blocks ''<tool_call>'' ''</tool_call>'' ps tail"
    by (simp_all add: Cons p)
  then have "contains ''<tool_call>'' ?s" "contains ''</tool_call>'' ?s"
    unfolding contains_sublist sublist_def by blast+
  then show ?thesis using match_blocks_render [OF _ _ assms] by (simp add: hermes_extract_def)
qed

lemma hermes_roundtrip_witness:
  "hermes_extract (\<lambda>_. Some (JObject [(''name'', JString ''f''), (''arguments'', JOther ())])) (\<lambda>_. ''{}'')
     (''hi '' @ ''<tool_call>'' @ ''x'' @ ''</tool_call>'' @ '' end'') = (''hi  end'', [\<lparr>arguments = ''{}'', call_name = ''f''\<rparr>])"
proof -
  have "readable_blocks ''<tool_call>'' ''</tool_call>'' [(''hi '', ''x'')] '' end''"
    by (simp add: readable_blocks_def contains_def)
  from hermes_roundtrip [OF this, of "\<lambda>_. Some (JObject [(''name'', JString ''f''), (''arguments'', JOther ())])" "\<lambda>_. ''{}''"]
  show ?thesis by (simp add: List.map_filter_def hermes_call_def json_get_def)
qed

text \<open>A call as the template of qwen3_coder renders it.\<close>

definition xml_params :: "(string \<times> string) list \<Rightarrow> (string \<times> string) list" where
  "xml_params kvs = map (\<lambda>(k, v). ([CHR 0x0A], k @ ''>'' @ [CHR 0x0A] @ v @ [CHR 0x0A])) kvs"

definition xml_body :: "string \<Rightarrow> (string \<times> string) list \<Rightarrow> string" where
  "xml_body name kvs = name @ ''>'' @ render_blocks ''<parameter='' ''</parameter>'' (xml_params kvs) [CHR 0x0A]"

definition xml_call :: "string \<Rightarrow> (string \<times> string) list \<Rightarrow> string" where
  "xml_call name kvs = render_blocks ''<function='' ''</function>'' [([CHR 0x0A], xml_body name kvs)] [CHR 0x0A]"

definition readable_call :: "string \<Rightarrow> (string \<times> string) list \<Rightarrow> bool" where
  "readable_call name kvs \<longleftrightarrow> \<not> contains ''>'' name \<and> list_all (\<lambda>(k, v). \<not> contains ''>'' k) kvs \<and> distinct (map fst kvs) \<and>
     readable_blocks ''<parameter='' ''</parameter>'' (xml_params kvs) [CHR 0x0A] \<and>
     \<not> contains ''</function>'' (xml_body name kvs) \<and> \<not> contains ''</tool_call>'' (xml_call name kvs)"

lemma strip_breaks_added: "strip_breaks ([CHR 0x0A] @ v @ [CHR 0x0A]) = v"
  by (simp add: strip_breaks_def)

lemma update_new_keys:
  "distinct (map fst d @ map fst kvs) \<Longrightarrow> fold (\<lambda>(k, v). AList.update k v) kvs d = d @ kvs"
proof (induction kvs arbitrary: d)
  case (Cons p kvs)
  obtain k v where p: "p = (k, v)" by (cases p)
  have "AList.update k v d = d @ [(k, v)]" using Cons.prems p by (induction d) auto
  then show ?case using Cons.IH [of "d @ [(k, v)]"] Cons.prems p by simp
qed simp

lemma all_some_map: "(\<And>x. x \<in> set xs \<Longrightarrow> f x = Some (g x)) \<Longrightarrow> all_some (map f xs) = Some (map g xs)"
  by (induction xs) auto

lemma parse_rendered_call:
  assumes "readable_call name kvs"
    and "\<And>k v. (k, v) \<in> set kvs \<Longrightarrow> convert_param_value cv (get_arguments_config tools name) k v = conv k v"
  shows "parse_xml_function_call cv tools (xml_body name kvs) =
    map_option (\<lambda>a. \<lparr>arguments = a, call_name = name\<rparr>) (dump_args cv (map (\<lambda>(k, v). (k, conv k v)) kvs))"
proof -
  let ?config = "get_arguments_config tools name" and ?params = "render_blocks ''<parameter='' ''</parameter>'' (xml_params kvs) [CHR 0x0A]"
  have name: "split_first ''>'' (xml_body name kvs) = Some (name, ?params)"
    using split_first_at [of "''>''" name] assms(1) by (simp add: xml_body_def readable_call_def)
  have "open_blocks True ''<parameter='' ''</parameter>'' ?params = map snd (xml_params kvs)"
    by (rule open_blocks_render) (use assms(1) in \<open>simp_all add: readable_call_def\<close>)
  then have blocks: "open_blocks True ''<parameter='' ''</parameter>'' ?params =
      map (\<lambda>(k, v). k @ ''>'' @ [CHR 0x0A] @ v @ [CHR 0x0A]) kvs"
    by (simp add: xml_params_def comp_def case_prod_unfold)
  have "xml_parameter cv ?config (k @ ''>'' @ [CHR 0x0A] @ v @ [CHR 0x0A]) = Some (k, conv k v)" if "(k, v) \<in> set kvs" for k v
  proof -
    have "\<not> contains ''>'' k" using assms(1) that by (auto simp: readable_call_def list_all_iff)
    from split_first_at [OF _ this, of "[CHR 0x0A] @ v @ [CHR 0x0A]"]
    show ?thesis using strip_breaks_added [of v] assms(2) [OF that] by (simp add: xml_parameter_def)
  qed
  then have "all_some (map (xml_parameter cv ?config) (map (\<lambda>(k, v). k @ ''>'' @ [CHR 0x0A] @ v @ [CHR 0x0A]) kvs)) =
      Some (map (\<lambda>(k, v). (k, conv k v)) kvs)"
    unfolding map_map by (intro all_some_map) auto
  moreover have "fold (\<lambda>(k, v). AList.update k v) (map (\<lambda>(k, v). (k, conv k v)) kvs) [] = map (\<lambda>(k, v). (k, conv k v)) kvs"
    using assms(1) by (subst update_new_keys) (simp_all add: readable_call_def comp_def case_prod_unfold)
  ultimately show ?thesis by (simp add: parse_xml_function_call_def name blocks)
qed

lemma lower_string: "py_lower (py_strip ''string'') = ''string''"
  by code_simp

text \<open>Parameters that the schema declares as strings, or not at all, keep their text unless it is null.\<close>

lemma convert_string:
  "map_of config k = None \<or> map_of config k = Some (Some ''string'') \<Longrightarrow> py_lower v \<noteq> ''null'' \<Longrightarrow>
    convert_param_value cv config k v = AString v"
  by (auto simp: convert_param_value_def Let_def lower_string)

text \<open>
  C19: The parser of the format qwen3_coder extracts a call that is rendered with its tags after some text: the
  content is the text, and the call has its name and its string parameters with their exact values, line breaks at
  their ends included.
\<close>

theorem qwen3_roundtrip:
  assumes "readable_call name kvs" and "\<not> contains ''<tool_call>'' content"
    and "list_all (\<lambda>(k, v). map_of (get_arguments_config tools name) k \<in> {None, Some (Some ''string'')} \<and> py_lower v \<noteq> ''null'') kvs"
    and "dump_args cv (map (\<lambda>(k, v). (k, AString v)) kvs) = Some args"
  shows "qwen3_extract cv tools (content @ ''<tool_call>'' @ xml_call name kvs @ ''</tool_call>'') =
    (content, [\<lparr>arguments = args, call_name = name\<rparr>])"
proof -
  let ?t = "content @ ''<tool_call>'' @ xml_call name kvs @ ''</tool_call>''"
  have first: "split_first ''<tool_call>'' ?t = Some (content, xml_call name kvs @ ''</tool_call>'')"
    by (rule split_first_at) (simp_all add: assms(2))
  have "open_blocks True ''<tool_call>'' ''</tool_call>'' (render_blocks ''<tool_call>'' ''</tool_call>'' [(content, xml_call name kvs)] []) =
      map snd [(content, xml_call name kvs)]"
    by (rule open_blocks_render) (use assms(1,2) in \<open>simp_all add: readable_blocks_def readable_call_def contains_def\<close>)
  moreover have "open_blocks False ''<function='' ''</function>'' (xml_call name kvs) = map snd [([CHR 0x0A], xml_body name kvs)]"
    unfolding xml_call_def
    by (rule open_blocks_render) (use assms(1) in \<open>simp_all add: readable_blocks_def readable_call_def contains_def\<close>)
  ultimately have calls: "get_function_calls ?t = [xml_body name kvs]" by (simp add: get_function_calls_def)
  have "parse_xml_function_call cv tools (xml_body name kvs) = Some \<lparr>arguments = args, call_name = name\<rparr>"
  proof -
    have conv: "convert_param_value cv (get_arguments_config tools name) k v = AString v" if "(k, v) \<in> set kvs" for k v
      by (rule convert_string) (use assms(3) that in \<open>auto simp: list_all_iff\<close>)
    show ?thesis using parse_rendered_call [OF assms(1) conv] assms(4) by simp
  qed
  then show ?thesis unfolding qwen3_extract_def first calls by simp
qed


lemma qwen3_roundtrip_witness:
  "qwen3_extract \<lparr>read_int = (\<lambda>_. None), read_float = (\<lambda>_. None), read_json = (\<lambda>_. None), evaluate = (\<lambda>_. None :: unit arg_value option),
      dump_args = (\<lambda>kvs. if kvs = [(''x'', AString ''7'')] then Some ''{x: 7}'' else None)\<rparr> []
     (''ok'' @ ''<tool_call>'' @ xml_call ''f'' [(''x'', ''7'')] @ ''</tool_call>'') =
    (''ok'', [\<lparr>arguments = ''{x: 7}'', call_name = ''f''\<rparr>])"
  (is "qwen3_extract ?cv _ _ = _")
proof (rule qwen3_roundtrip)
  show "readable_call ''f'' [(''x'', ''7'')]"
    by (simp add: readable_call_def readable_blocks_def xml_params_def xml_call_def xml_body_def contains_def)
  show "\<not> contains ''<tool_call>'' ''ok''" by (simp add: contains_def)
  have "py_lower ''7'' \<noteq> ''null''" by code_simp
  then show "list_all (\<lambda>(k, v). map_of (get_arguments_config [] ''f'') k \<in> {None, Some (Some ''string'')} \<and> py_lower v \<noteq> ''null'') [(''x'', ''7'')]"
    by (simp add: get_arguments_config_def)
  show "dump_args ?cv (map (\<lambda>(k, v). (k, AString v)) [(''x'', ''7'')]) = Some ''{x: 7}''" by simp
qed

end
