(* ===== verification/Feedback_Scores.thy ===== *)
theory Feedback_Scores
  imports Py_Regex
begin

text \<open>
  The scoring modules that come with textual feedback, which self-distillation shows to its teacher
  (\<open>verl/utils/reward_score/feedback\<close>): boxed mathematical answers, multiple-choice answers and the module that scores
  nothing. \<open>math_verify\<close> is a parameter (\<open>None\<close> for an exception or a timeout), as is the call of the judge in the
  module \<open>llm\<close>.
\<close>

section \<open>Strings\<close>

text \<open>The position of the last occurrence of a pattern, as the text from it on (\<open>s[s.rfind(pat):]\<close>).\<close>

fun from_last :: "string \<Rightarrow> string \<Rightarrow> string option" where
  "from_last pat [] = (if pat = [] then Some [] else None)"
| "from_last pat (c # cs) =
     (case from_last pat cs of
        Some t \<Rightarrow> Some t
      | None \<Rightarrow> if prefix pat (c # cs) then Some (c # cs) else None)"

text \<open>\<open>str.upper\<close> on code points below 256, except the two characters whose upper case lies above.\<close>

definition py_upper :: "string \<Rightarrow> string" where
  "py_upper s = concat (map (\<lambda>c. let n = (of_char c :: nat) in
     if (97 \<le> n \<and> n \<le> 122) \<or> (224 \<le> n \<and> n \<le> 254 \<and> n \<noteq> 247) then [char_of (n - 32)]
     else if n = 223 then ''SS'' else [c]) s)"

definition rstrip_char :: "char \<Rightarrow> string \<Rightarrow> string" where
  "rstrip_char c s = rev (dropWhile (\<lambda>d. d = c) (rev s))"

definition contains_pattern :: "string \<Rightarrow> string \<Rightarrow> bool" where
  "contains_pattern pat s \<longleftrightarrow> split_first pat s \<noteq> None"

section \<open>Boxed answers\<close>

abbreviation boxed_open :: string where
  "boxed_open \<equiv> CHR 0x5C # ''boxed{''"

text \<open>
  The scan of the braces: the text up to the brace that closes the first one, if there is one. The counter is an
  integer because the code lets it go below zero.
\<close>

fun closed_part :: "int \<Rightarrow> string \<Rightarrow> string option" where
  "closed_part n [] = None"
| "closed_part n (c # cs) =
     (let n = (if c = CHR ''{'' then n + 1 else n) in
      if c = CHR ''}'' then (if n - 1 = 0 then Some [c] else map_option ((#) c) (closed_part (n - 1) cs))
      else map_option ((#) c) (closed_part n cs))"

definition last_boxed_only_string :: "string \<Rightarrow> string option" where
  "last_boxed_only_string s =
     (case from_last boxed_open s of
        None \<Rightarrow> None
      | Some t \<Rightarrow> Some (case closed_part 0 t of None \<Rightarrow> [] | Some b \<Rightarrow> b))"

definition remove_boxed :: "string \<Rightarrow> string" where
  "remove_boxed s = (if prefix boxed_open s \<and> last s = CHR ''}'' then butlast (drop (length boxed_open) s) else [])"

text \<open>\<open>pred[-1000:]\<close>, or from a hundred characters before the last pause token.\<close>

definition prediction_window :: "int list option \<Rightarrow> string \<Rightarrow> string result" where
  "prediction_window pause s =
     (case pause of
        None \<Rightarrow> Inr (drop (length s - 1000) s)
      | Some idx \<Rightarrow> ensure (length idx = 4) AssertionError
          (Inr (let k = last idx - 100 in if 0 \<le> k then drop (nat k) s else drop (length s - nat (- k)) s)))"

definition is_correct_strict_box :: "string \<Rightarrow> string \<Rightarrow> int list option \<Rightarrow> (bool \<times> string option) result" where
  "is_correct_strict_box pred gt pause =
     rbind (prediction_window pause pred) (\<lambda>w.
       let extracted = map_option remove_boxed (last_boxed_only_string w)
       in Inr (extracted = Some gt, extracted))"

definition verify_answer ::
  "(string \<Rightarrow> string \<Rightarrow> bool option) \<Rightarrow> string \<Rightarrow> string \<Rightarrow> int list option \<Rightarrow> (bool \<times> string) result" where
  "verify_answer math_verify solution answer pause =
     rbind (is_correct_strict_box solution answer pause) (\<lambda>(correct, extracted).
       let pred = (case extracted of None \<Rightarrow> [] | Some p \<Rightarrow> p)
       in if \<not> correct \<and> pred \<noteq> []
          then Inr (case math_verify answer pred of None \<Rightarrow> correct | Some b \<Rightarrow> b, pred)
          else Inr (correct, pred))"

record score_result =
  fb_score :: real
  fb_acc :: real
  fb_pred :: string
  incorrect_format :: real
  fb_feedback :: string

record math_result = score_result +
  fb_truncated :: real
  truncated_and_missing_answer :: real

definition format_feedback_text :: string where
  "format_feedback_text =
     ''Your answer had the wrong format. The solution must be given in the format: '' @ boxed_open @ ''your_answer}.''"

definition truncated_feedback_text :: string where
  "truncated_feedback_text = ''Your response was truncated because it exceeded the maximum length.''"

definition correctness_feedback_text :: "string \<Rightarrow> string" where
  "correctness_feedback_text gt = ''Your answer is incorrect. The correct answer is '' @ gt @ ''.''"

text \<open>
  \<open>math.compute_score\<close>; the module's constant \<open>FORMAT_PENALTY\<close> is false, so the penalty never applies and the
  score is the reward.
\<close>

definition math_score ::
  "(string \<Rightarrow> string \<Rightarrow> bool option) \<Rightarrow> string \<Rightarrow> string \<Rightarrow> bool \<Rightarrow> int list option \<Rightarrow> bool \<Rightarrow> bool \<Rightarrow> math_result result" where
  "math_score math_verify solution gt was_truncated pause format_feedback correctness_feedback =
     rbind (verify_answer math_verify solution gt pause) (\<lambda>(correct, pred).
       let missing = (pred = []);
           feedback =
             (if missing \<and> \<not> was_truncated \<and> format_feedback then format_feedback_text
              else if was_truncated \<and> format_feedback then truncated_feedback_text
              else if \<not> correct \<and> correctness_feedback then correctness_feedback_text gt
              else [])
       in Inr \<lparr>fb_score = of_bool correct, fb_acc = of_bool correct, fb_pred = pred, incorrect_format = of_bool missing,
               fb_feedback = feedback, fb_truncated = of_bool was_truncated,
               truncated_and_missing_answer = of_bool (missing \<and> was_truncated)\<rparr>)"

section \<open>Multiple choice\<close>

definition default_choices :: "string list" where
  "default_choices = [''A'', ''B'', ''C'', ''D'']"

definition answer_regex :: regex where
  "answer_regex = sequence [any_case ''<answer>'', spaces, Group 1 (Repeat False (\<lambda>_. True)), spaces, any_case ''</answer>'']"

definition extract_xml_answer :: "string \<Rightarrow> string" where
  "extract_xml_answer t = (case find_groups answer_regex t of [] \<Rightarrow> [] | ms \<Rightarrow> py_strip (last ms))"

definition format_regex :: "string list \<Rightarrow> regex" where
  "format_regex choices =
     sequence [any_case ''<answer>'', spaces, Group 1 (choice (map (\<lambda>c. any_case (py_upper c)) choices)), spaces,
               any_case ''</answer>'', spaces, At_End]"

definition is_correct_format :: "string \<Rightarrow> string list \<Rightarrow> bool" where
  "is_correct_format t choices = search_matches (format_regex choices) t"

definition boxed_regex :: regex where
  "boxed_regex = sequence [literal boxed_open, Group 1 (some_of (\<lambda>c. c \<noteq> CHR ''{'' \<and> c \<noteq> CHR ''}'')), literal ''}'']"

definition extract_last_boxed_answer :: "string \<Rightarrow> string option" where
  "extract_last_boxed_answer t = (case find_groups boxed_regex t of [] \<Rightarrow> None | ms \<Rightarrow> Some (py_strip (last ms)))"

definition strip_choice :: "string \<Rightarrow> string" where
  "strip_choice s = rstrip_char (CHR ''/'') (rstrip_char (CHR ''.'') (py_upper s))"

definition extract_xml_choice :: "string \<Rightarrow> string list \<Rightarrow> string option" where
  "extract_xml_choice t choices =
     (let c = strip_choice (extract_xml_answer t)
      in if c \<in> set (map py_upper choices) then Some c else None)"

text \<open>The phrases that announce an answer, in the order in which they are tried.\<close>

definition letter_group :: regex where
  "letter_group = Group 1 (Chars (\<lambda>c. let n = (of_char (lower_ascii c) :: nat) in 97 \<le> n \<and> n \<le> 122))"

definition optional_char :: "char \<Rightarrow> regex" where
  "optional_char c = maybe (Chars (\<lambda>d. d = c))"

definition letter_in_parens :: "regex list" where
  "letter_in_parens = [spaces, optional_char (CHR ''(''), letter_group, optional_char (CHR '')'')]"

definition answer_patterns :: "regex list" where
  "answer_patterns =
     [sequence ([choice [any_case ''final answer'', any_case ''correct answer'', any_case ''the answer''], spaces,
                 Either (any_case ''is'') (literal '':'')] @ letter_in_parens),
      sequence (any_case ''answer is'' # letter_in_parens),
      sequence (any_case ''answer:'' # letter_in_parens),
      sequence (any_case ''answer'' # letter_in_parens),
      sequence [literal ''('', letter_group, literal '')'']]"

fun first_pattern :: "regex list \<Rightarrow> string list \<Rightarrow> string \<Rightarrow> string option" where
  "first_pattern [] choices t = None"
| "first_pattern (r # rs) choices t =
     (case find_groups r t of
        [] \<Rightarrow> first_pattern rs choices t
      | ms \<Rightarrow> if py_upper (last ms) \<in> set choices then Some (py_upper (last ms)) else first_pattern rs choices t)"

definition fallback_regex :: "string list \<Rightarrow> regex" where
  "fallback_regex choices = sequence [Word_Boundary, Group 1 (choice (map literal choices)), Word_Boundary]"

definition extract_multiple_choice_answer :: "string \<Rightarrow> string list \<Rightarrow> string option" where
  "extract_multiple_choice_answer solution allowed =
     (let choices = map py_upper allowed;
          boxed = (case extract_last_boxed_answer solution of
                     None \<Rightarrow> None
                   | Some b \<Rightarrow> (let c = strip_choice (py_strip b) in if c \<in> set choices then Some c else None))
      in case boxed of Some c \<Rightarrow> Some c
         | None \<Rightarrow> (case extract_xml_choice solution choices of Some c \<Rightarrow> Some c
         | None \<Rightarrow> (case first_pattern answer_patterns choices solution of Some c \<Rightarrow> Some c
         | None \<Rightarrow> (case find_groups (fallback_regex choices) (py_upper solution) of [] \<Rightarrow> None | ms \<Rightarrow> Some (last ms)))))"

text \<open>\<open>mcq.compute_score\<close>; the flag is true for flexible extraction.\<close>

definition mcq_score :: "string \<Rightarrow> string \<Rightarrow> string list option \<Rightarrow> bool \<Rightarrow> score_result" where
  "mcq_score solution gt allowed flexible =
     (let choices = (case allowed of None \<Rightarrow> default_choices | Some cs \<Rightarrow> cs);
          pred = (if flexible then extract_multiple_choice_answer solution choices else extract_xml_choice solution choices);
          reward = of_bool (pred = Some (py_upper (py_strip gt)))
      in \<lparr>fb_score = reward, fb_acc = reward, fb_pred = (case pred of None \<Rightarrow> [] | Some p \<Rightarrow> p),
          incorrect_format = (if flexible then of_bool (pred = None) else of_bool (\<not> is_correct_format solution choices)),
          fb_feedback = []\<rparr>)"

definition evaluate_mcq_response :: "string \<Rightarrow> string \<Rightarrow> string list \<Rightarrow> real \<times> real \<times> string option" where
  "evaluate_mcq_response solution gt allowed =
     (let pred = extract_multiple_choice_answer solution allowed
      in (of_bool (pred = Some (py_upper gt)), of_bool (pred = None), pred))"

section \<open>The other modules and the choice between them\<close>

definition zero_score :: score_result where
  "zero_score = \<lparr>fb_score = 0, fb_acc = 0, fb_pred = [], incorrect_format = 0, fb_feedback = []\<rparr>"

text \<open>
  The judge of the module \<open>llm\<close> gets the prompt and gives its text; an exception of the call is the empty feedback.
\<close>

abbreviation line_break :: string where
  "line_break \<equiv> [CHR 0x0A]"

definition default_judge_prompt_template :: string where
  "default_judge_prompt_template =
     ''You are an expert reviewer. Your job is to read the following user prompt and response, then provide helpful, concise general feedback on the response. Focus on how well the response addresses the user'' @
     [CHR 0x27] @ ''s needs, tone, correctness, and completeness. If there are issues or improvements that could be made, mention them briefly and constructively.'' @
     line_break @ line_break @ ''<user_prompt>'' @ line_break @ ''{prompt}'' @ line_break @ ''</user_prompt>'' @
     line_break @ line_break @ ''<assistant_response>'' @ line_break @ ''{response}'' @ line_break @ ''</assistant_response>'' @
     line_break @ line_break @ ''Output only one or two sentences of feedback, addressed to the response writer. Do not provide scores, grades, or JSON, just the textual feedback.''"

definition llm_score :: "(string \<Rightarrow> string option) \<Rightarrow> string option \<Rightarrow> string \<Rightarrow> string \<Rightarrow> string option \<Rightarrow> score_result result" where
  "llm_score judge template prompt solution gt =
     rbind (py_format [(''prompt'', prompt), (''response'', solution), (''ground_truth'', case gt of None \<Rightarrow> [] | Some g \<Rightarrow> g)]
              (case template of None \<Rightarrow> default_judge_prompt_template | Some t \<Rightarrow> t))
       (\<lambda>p. Inr \<lparr>fb_score = - 1, fb_acc = - 1, fb_pred = [], incorrect_format = 0,
                 fb_feedback = (case judge p of None \<Rightarrow> [] | Some t \<Rightarrow> py_strip t)\<rparr>)"

record scoring_request =
  rq_solution :: string
  rq_ground_truth :: string
  rq_truncated :: bool
  rq_choices :: "string list option"
  rq_flexible :: bool
  rq_prompt :: string
  rq_template :: "string option"

datatype feedback_result = Math_Result math_result | Plain_Result score_result

definition feedback_score ::
  "(string \<Rightarrow> string \<Rightarrow> bool option) \<Rightarrow> (string \<Rightarrow> string option) \<Rightarrow> string \<Rightarrow> scoring_request \<Rightarrow> feedback_result result" where
  "feedback_score math_verify judge scoring_module rq =
     (if scoring_module = ''math''
      then rbind (math_score math_verify (rq_solution rq) (rq_ground_truth rq) (rq_truncated rq) None True False)
             (\<lambda>r. Inr (Math_Result r))
      else if scoring_module = ''mcq''
      then Inr (Plain_Result (mcq_score (rq_solution rq) (rq_ground_truth rq) (rq_choices rq) (rq_flexible rq)))
      else if scoring_module = ''zero'' then Inr (Plain_Result zero_score)
      else if scoring_module = ''llm''
      then rbind (llm_score judge (rq_template rq) (rq_prompt rq) (rq_solution rq) (Some (rq_ground_truth rq)))
             (\<lambda>r. Inr (Plain_Result r))
      else Inl ValueError)"

section \<open>Benchmark metrics\<close>

text \<open>
  \<open>flatten_benchmark_metrics\<close> on the metrics of one data source; \<open>int\<close> of the part of a metric's name between the
  last \<open>@\<close> and the next slash is a parameter (\<open>None\<close> raises), as is the decimal text of a number.
\<close>

definition flatten_source ::
  "(string \<Rightarrow> nat option) \<Rightarrow> (nat \<Rightarrow> string) \<Rightarrow> string \<Rightarrow> (string \<times> (string \<times> real) list) list \<Rightarrow>
   (string \<times> real) list result" where
  "flatten_source number_of show_nat source vars =
     (let metrics_of = (\<lambda>v. case map_of vars v of None \<Rightarrow> [] | Some m \<Rightarrow> m);
          name = (\<lambda>v m. ''benchmark/'' @ source @ ''/'' @ v @ ''/'' @ m);
          plain = concat (map (\<lambda>v. map (\<lambda>(m, x). (name v m, x)) (metrics_of v))
                    [''acc'', ''incorrect_format'', ''truncated'', ''response_length'']);
          acc = metrics_of ''acc''
      in if acc = [] then Inr plain
         else rbind (mapM_result (\<lambda>(m, _). case number_of m of None \<Rightarrow> Inl ValueError | Some n \<Rightarrow> Inr n) acc) (\<lambda>ns.
           let n = show_nat (Max (set ns)); mean_key = ''mean@'' @ n; majority_key = ''maj@'' @ n @ ''/mean'';
               entry = (\<lambda>key m k. case map_of m k of None \<Rightarrow> [] | Some x \<Rightarrow> [(''benchmark/'' @ source @ ''/'' @ key, x)])
           in Inr (plain @ entry ''acc'' acc mean_key @ entry ''acc_majority'' acc majority_key @
                   concat (map (\<lambda>v. entry v (metrics_of v) mean_key) [''incorrect_format'', ''truncated'', ''response_length'']))))"

definition flatten_benchmark_metrics ::
  "(string \<Rightarrow> nat option) \<Rightarrow> (nat \<Rightarrow> string) \<Rightarrow> (string \<times> (string \<times> (string \<times> real) list) list) list \<Rightarrow>
   (string \<times> real) list result" where
  "flatten_benchmark_metrics number_of show_nat processed =
     rbind (mapM_result (\<lambda>(source, vars). flatten_source number_of show_nat source vars) processed) (\<lambda>parts. Inr (concat parts))"

end
