(* ===== verification/Answer_Scores.thy ===== *)
theory Answer_Scores
  imports Feedback_Scores
begin

text \<open>
  The rule-based reward functions of \<open>verl/utils/reward_score\<close>: the answers of GSM8k, the normalisation of MATH
  answers, the rewards of DAPO, exact match for question answering, geometry, and the choice of the function by the data
  source. \<open>mathruler\<close> and \<open>math_verify\<close> are parameters, as are the scoring of competition mathematics and of
  code, whose modules run symbolic algebra and generated programs.
\<close>

section \<open>Splitting strings\<close>

text \<open>\<open>s.split(pat)\<close> for a non-empty pattern.\<close>

function str_split :: "string \<Rightarrow> string \<Rightarrow> string list" where
  "str_split pat s =
     (if pat = [] then [s]
      else case split_first pat s of None \<Rightarrow> [s] | Some (a, b) \<Rightarrow> a # str_split pat b)"
  by pat_completeness auto
termination
  by (relation "measure (\<lambda>(pat, s). length s)") (auto dest!: split_first_length simp: neq_Nil_conv)

declare str_split.simps [simp del]

text \<open>\<open>s.split()\<close>: the maximal parts without whitespace.\<close>

function py_words :: "string \<Rightarrow> string list" where
  "py_words s =
     (case dropWhile py_space s of
        [] \<Rightarrow> []
      | c # cs \<Rightarrow> takeWhile (\<lambda>d. \<not> py_space d) (c # cs) # py_words (dropWhile (\<lambda>d. \<not> py_space d) (c # cs)))"
  by pat_completeness auto
termination
proof (relation "measure length", goal_cases)
  case (2 s c cs)
  have "\<not> py_space c" using 2 hd_dropWhile [of py_space s] by auto
  then have "length (dropWhile (\<lambda>d. \<not> py_space d) (c # cs)) \<le> length cs" by (simp add: length_dropWhile_le)
  moreover have "Suc (length cs) \<le> length s" using length_dropWhile_le [of py_space s] 2 by simp
  ultimately show ?case by simp
qed simp

declare py_words.simps [simp del]

section \<open>GSM8k\<close>

datatype extraction = Strict | Flexible

definition clip_text :: "nat \<Rightarrow> string \<Rightarrow> string" where
  "clip_text n s = (if n < length s then drop (length s - n) s else s)"

definition number_regex :: regex where
  "number_regex = Then (maybe (Chars (\<lambda>c. c = CHR ''-''))) (some_of (\<lambda>c. is_digit c \<or> c = CHR ''.'' \<or> c = CHR '',''))"

text \<open>
  The loop over the reversed answers leaves its variable at the first one in the text when all of them are invalid.
\<close>

definition gsm8k_extract :: "extraction \<Rightarrow> string \<Rightarrow> string option" where
  "gsm8k_extract meth s =
     (let s = clip_text 300 s in
      case meth of
        Strict \<Rightarrow>
          (case find_groups (Then (literal ''#### '') (Group 1 number_regex)) s of
             [] \<Rightarrow> None
           | ms \<Rightarrow> Some (py_replace ''$'' [] (py_replace '','' [] (last ms))))
      | Flexible \<Rightarrow>
          (case find_groups (Group 1 number_regex) s of
             [] \<Rightarrow> None
           | ms \<Rightarrow> Some (case List.find (\<lambda>a. a \<notin> {[], ''.''}) (rev ms) of Some a \<Rightarrow> a | None \<Rightarrow> hd ms)))"

definition gsm8k_score :: "extraction \<Rightarrow> real \<Rightarrow> real \<Rightarrow> string \<Rightarrow> string \<Rightarrow> real" where
  "gsm8k_score meth format_score score s gt =
     (case gsm8k_extract meth s of None \<Rightarrow> 0 | Some a \<Rightarrow> if a = gt then score else format_score)"

section \<open>MATH\<close>

abbreviation tex :: "string \<Rightarrow> string" where
  "tex s \<equiv> CHR 0x5C # s"

text \<open>\<open>last_boxed_only_string\<close> of \<open>math_reward.py\<close>, which also knows \<open>\boxed \<close> with a space and \<open>\fbox\<close>.\<close>

definition mr_last_boxed :: "string \<Rightarrow> string option" where
  "mr_last_boxed s =
     (if contains_pattern (tex ''boxed '') s
      then Some (tex ''boxed '' @ hd (str_split ''$'' (last (str_split (tex ''boxed '') s))))
      else case (case from_last (tex ''boxed'') s of Some t \<Rightarrow> Some t | None \<Rightarrow> from_last (tex ''fbox'') s) of
             None \<Rightarrow> None
           | Some t \<Rightarrow> closed_part 0 t)"

definition mr_remove_boxed :: "string \<Rightarrow> string result" where
  "mr_remove_boxed s =
     (if contains_pattern (tex ''boxed '') s
      then ensure (prefix (tex ''boxed '') s) AssertionError (Inr (drop 7 s))
      else ensure (prefix boxed_open s \<and> last s = CHR ''}'') AssertionError (Inr (butlast (drop 7 s))))"

definition brace :: "string \<Rightarrow> string" where
  "brace s = ''{'' @ s @ ''}''"

text \<open>One part behind a \<open>\frac\<close>: an empty one raises, a single character other than a brace gives up.\<close>

fun fix_frac_part :: "string \<Rightarrow> string option result" where
  "fix_frac_part [] = Inl IndexError"
| "fix_frac_part [c] = (if c = CHR ''{'' then Inr (Some [c]) else Inr None)"
| "fix_frac_part (a # b # rest) =
     Inr (Some (if a = CHR ''{'' then a # b # rest
                else if b \<noteq> CHR ''{'' then brace [a] @ brace [b] @ rest
                else brace [a] @ b # rest))"

fun fix_frac_parts :: "string list \<Rightarrow> string option result" where
  "fix_frac_parts [] = Inr (Some [])"
| "fix_frac_parts (p # ps) =
     rbind (fix_frac_part p) (\<lambda>r. case r of
       None \<Rightarrow> Inr None
     | Some t \<Rightarrow> rbind (fix_frac_parts ps) (\<lambda>rs. Inr (map_option (\<lambda>u. tex ''frac'' @ t @ u) rs)))"

definition fix_fracs :: "string \<Rightarrow> string result" where
  "fix_fracs s =
     (let parts = str_split (tex ''frac'') s
      in rbind (fix_frac_parts (tl parts)) (\<lambda>r. Inr (case r of None \<Rightarrow> s | Some t \<Rightarrow> hd parts @ t)))"

text \<open>
  Texts that \<open>int\<close> reads and \<open>str\<close> writes back unchanged; longer digit sequences than 4300 raise in \<open>int\<close>.
\<close>

definition canonical_int :: "string \<Rightarrow> bool" where
  "canonical_int s \<longleftrightarrow>
     (let ds = (if s \<noteq> [] \<and> hd s = CHR ''-'' then tl s else s)
      in ds \<noteq> [] \<and> list_all is_digit ds \<and> length ds \<le> 4300 \<and> (s = ''0'' \<or> hd ds \<noteq> CHR ''0''))"

definition fix_a_slash_b :: "string \<Rightarrow> string" where
  "fix_a_slash_b s =
     (case str_split ''/'' s of
        [a, b] \<Rightarrow> if canonical_int a \<and> canonical_int b then tex ''frac'' @ brace a @ brace b else s
      | _ \<Rightarrow> s)"

definition remove_right_units :: "string \<Rightarrow> string result" where
  "remove_right_units s =
     (case str_split (tex ''text{ '') s of
        [_] \<Rightarrow> Inr s
      | [a, _] \<Rightarrow> Inr a
      | _ \<Rightarrow> Inl AssertionError)"

definition fix_sqrt_part :: "string \<Rightarrow> string result" where
  "fix_sqrt_part p = (case p of
       [] \<Rightarrow> Inl IndexError
     | c # cs \<Rightarrow> Inr (if c \<noteq> CHR ''{'' then tex ''sqrt'' @ brace [c] @ cs else tex ''sqrt'' @ p))"

definition fix_sqrt :: "string \<Rightarrow> string result" where
  "fix_sqrt s =
     (let parts = str_split (tex ''sqrt'') s
      in rbind (mapM_result fix_sqrt_part (tl parts)) (\<lambda>ps. Inr (hd parts @ concat ps)))"

definition replace_all :: "(string \<times> string) list \<Rightarrow> string \<Rightarrow> string" where
  "replace_all pairs s = fold (\<lambda>(a, b). py_replace a b) pairs s"

definition tex_replacements :: "(string \<times> string) list" where
  "tex_replacements =
     [([CHR 0x0A], []), (tex ''!'', []), (tex (tex []), tex []), (''tfrac'', ''frac''), (''dfrac'', ''frac''),
      (tex ''left'', []), (tex ''right'', []), (''^{'' @ tex ''circ}'', []), (''^'' @ tex ''circ'', []), (tex ''$'', [])]"

definition number_replacements :: "(string \<times> string) list" where
  "number_replacements = [(tex (tex ''%''), []), (tex ''%'', []), ('' .'', '' 0.''), (''{.'', ''{0.'')]"

definition strip_equation :: "string \<Rightarrow> string" where
  "strip_equation s = (case str_split ''='' s of [a, b] \<Rightarrow> if length a \<le> 2 then b else s | _ \<Rightarrow> s)"

definition strip_string :: "string \<Rightarrow> string result" where
  "strip_string s =
     rbind (remove_right_units (replace_all tex_replacements s)) (\<lambda>s.
       let s = replace_all number_replacements s in
       if s = [] then Inr s
       else rbind (fix_sqrt (strip_equation (if hd s = CHR ''.'' then CHR ''0'' # s else s))) (\<lambda>s.
            rbind (fix_fracs (py_replace '' '' [] s)) (\<lambda>s.
              Inr (fix_a_slash_b (if s = ''0.5'' then tex ''frac{1}{2}'' else s)))))"

definition is_equiv :: "string option \<Rightarrow> string option \<Rightarrow> bool" where
  "is_equiv x y =
     (case (x, y) of
        (None, None) \<Rightarrow> True
      | (Some s, Some t) \<Rightarrow>
          (case strip_string s of
             Inl _ \<Rightarrow> s = t
           | Inr u \<Rightarrow> (case strip_string t of Inl _ \<Rightarrow> s = t | Inr v \<Rightarrow> u = v))
      | _ \<Rightarrow> False)"

text \<open>An exception of \<open>remove_boxed\<close> is caught and scores zero.\<close>

definition math_reward :: "string \<Rightarrow> string \<Rightarrow> real" where
  "math_reward solution gt =
     (case mr_last_boxed solution of
        None \<Rightarrow> 0
      | Some b \<Rightarrow> (case mr_remove_boxed b of Inl _ \<Rightarrow> 0 | Inr a \<Rightarrow> of_bool (is_equiv (Some a) (Some gt))))"

definition compute_score_batched :: "string list \<Rightarrow> string list \<Rightarrow> real list result" where
  "compute_score_batched solutions gts = ensure (length solutions = length gts) ValueError (Inr (map2 math_reward solutions gts))"

section \<open>DAPO\<close>

definition dapo_last_boxed :: "string \<Rightarrow> string option" where
  "dapo_last_boxed s = (case from_last boxed_open s of None \<Rightarrow> None | Some t \<Rightarrow> closed_part 0 t)"

definition dapo_remove_boxed :: "string \<Rightarrow> string result" where
  "dapo_remove_boxed s = ensure (prefix boxed_open s \<and> last s = CHR ''}'') AssertionError (Inr (butlast (drop 7 s)))"

definition substitutions :: "(string \<times> string) list" where
  "substitutions =
     [(''an '', []), (''a '', []), (''.$'', ''$''), (tex ''$'', []), (tex '' '', []), ('' '', []), (''mbox'', ''text''),
      ('','' @ tex ''text{and}'', '',''), (tex ''text{and}'', '',''), (tex ''text{m}'', tex ''text{}'')]"

definition removed_expressions :: "string list" where
  "removed_expressions =
     [''square'', ''ways'', ''integers'', ''dollars'', ''mph'', ''inches'', ''hours'', ''km'', ''units'', tex ''ldots'', ''sue'',
      ''points'', ''feet'', ''minutes'', ''digits'', ''cents'', ''degrees'', ''cm'', ''gm'', ''pounds'', ''meters'', ''meals'',
      ''edges'', ''students'', ''childrentickets'', ''multiples'', tex ''text{s}'', tex ''text{.}'',
      tex ''text{'' @ [CHR 0x0A] @ ''s}'', tex ''text{}^2'', tex ''text{}^3'', tex ''text{'' @ [CHR 0x0A] @ ''}'', tex ''text{}'',
      tex ''mathrm{th}'', ''^'' @ tex ''circ'', ''^{'' @ tex ''circ}'', tex '';'', '','' @ tex ''!'', ''{,}'', [CHR 0x22], tex ''dots'']"

text \<open>The dot of an expression matches every character but a line break.\<close>

abbreviation no_break :: "char \<Rightarrow> bool" where
  "no_break \<equiv> \<lambda>c. c \<noteq> CHR 0x0A"

definition dollar_regex :: regex where
  "dollar_regex = sequence [Repeat False no_break, literal ''$'', Group 3 (Repeat False no_break), literal ''$'', Repeat True no_break]"

definition command_regex :: "string \<Rightarrow> bool \<Rightarrow> regex" where
  "command_regex cmd greedy = sequence [literal (tex cmd @ ''{''), Group 2 (Repeat greedy no_break), literal ''}'']"

definition frac_regex :: regex where
  "frac_regex = sequence [literal ''frac'', Group 2 (Chars (\<lambda>c. c \<noteq> CHR ''{'')), Group 3 (Chars no_break)]"

definition sqrt_regex :: regex where
  "sqrt_regex = sequence [literal ''sqrt'', Group 2 (Chars (\<lambda>c. c \<noteq> CHR ''{''))]"

definition py_isdigit :: "string \<Rightarrow> bool" where
  "py_isdigit s \<longleftrightarrow> s \<noteq> [] \<and> list_all (\<lambda>c. is_digit c \<or> (of_char c :: nat) \<in> {178, 179, 185}) s"

definition normalize_final_answer :: "string \<Rightarrow> string" where
  "normalize_final_answer s =
     (let s = last (str_split ''='' s);
          s = replace_all (substitutions @ map (\<lambda>e. (e, [])) removed_expressions) s;
          s = substitute dollar_regex (\<lambda>g. ''$'' @ g 3 @ ''$'') s;
          s = substitute (command_regex ''text'' False) (\<lambda>g. g 2) s;
          s = substitute (command_regex ''textbf'' False) (\<lambda>g. g 2) s;
          s = substitute (command_regex ''overline'' False) (\<lambda>g. g 2) s;
          s = substitute (command_regex ''boxed'' True) (\<lambda>g. g 2) s;
          s = substitute frac_regex (\<lambda>g. ''frac'' @ brace (g 2) @ brace (g 3)) s;
          s = substitute sqrt_regex (\<lambda>g. ''sqrt'' @ brace (g 2)) s;
          s = py_replace ''$'' [] s;
          s = (if py_isdigit (py_replace '','' [] s) then py_replace '','' [] s else s)
      in py_strip s)"

definition answer_line_regex :: regex where
  "answer_line_regex = sequence [any_case ''Answer'', spaces, literal '':'', spaces, Group 1 (some_of no_break)]"

definition is_correct_minerva :: "string \<Rightarrow> string \<Rightarrow> bool \<Rightarrow> (bool \<times> string) result" where
  "is_correct_minerva solution gt gt_need_extract =
     (let extracted = (case find_groups answer_line_regex solution of [] \<Rightarrow> ''[INVALID]'' | ms \<Rightarrow> last ms);
          pred = normalize_final_answer extracted
      in rbind (if gt_need_extract
                then (case dapo_last_boxed gt of None \<Rightarrow> Inl TypeError | Some b \<Rightarrow> dapo_remove_boxed b)
                else Inr gt) (\<lambda>g.
           Inr (pred = normalize_final_answer g, pred)))"

definition dapo_window :: "int list option \<Rightarrow> string \<Rightarrow> string result" where
  "dapo_window pause s =
     (case pause of
        None \<Rightarrow> Inr (drop (length s - 100) s)
      | Some idx \<Rightarrow> ensure (length idx = 4) AssertionError
          (Inr (let k = last idx - 100 in if 0 \<le> k then drop (nat k) s else drop (length s - nat (- k)) s)))"

definition dapo_strict_box :: "string \<Rightarrow> string \<Rightarrow> int list option \<Rightarrow> (int \<times> string option) result" where
  "dapo_strict_box pred gt pause =
     rbind (dapo_window pause pred) (\<lambda>w.
     rbind (case dapo_last_boxed w of None \<Rightarrow> Inr None | Some b \<Rightarrow> rbind (dapo_remove_boxed b) (\<lambda>a. Inr (Some a))) (\<lambda>extracted.
       Inr (if extracted = Some gt then 1 else - 1, extracted)))"

record dapo_result =
  dapo_score :: real
  dapo_acc :: bool
  dapo_pred :: "string option"

definition dapo_compute_score :: "string \<Rightarrow> string \<Rightarrow> bool \<Rightarrow> int list option \<Rightarrow> dapo_result result" where
  "dapo_compute_score solution gt strict pause =
     (let s = drop (length solution - 300) solution in
      rbind (if strict
             then rbind (dapo_strict_box s gt pause) (\<lambda>(c, p). Inr (c = 1, p))
             else rbind (is_correct_minerva s gt False) (\<lambda>(c, p). Inr (c, Some p))) (\<lambda>(correct, pred).
        Inr \<lparr>dapo_score = (if correct then 1 else - 1), dapo_acc = correct, dapo_pred = pred\<rparr>))"

section \<open>Question answering\<close>

definition is_punctuation :: "char \<Rightarrow> bool" where
  "is_punctuation c \<longleftrightarrow> (let n = (of_char c :: nat) in
     (33 \<le> n \<and> n \<le> 47) \<or> (58 \<le> n \<and> n \<le> 64) \<or> (91 \<le> n \<and> n \<le> 96) \<or> (123 \<le> n \<and> n \<le> 126))"

definition article_regex :: regex where
  "article_regex = sequence [Word_Boundary, choice [literal ''a'', literal ''an'', literal ''the''], Word_Boundary]"

definition normalize_answer :: "string \<Rightarrow> string" where
  "normalize_answer s =
     py_join '' '' (py_words (substitute article_regex (\<lambda>_. '' '') (filter (\<lambda>c. \<not> is_punctuation c) (py_lower s))))"

definition em_check :: "string \<Rightarrow> string list \<Rightarrow> bool" where
  "em_check prediction golden = list_ex (\<lambda>g. normalize_answer g = normalize_answer prediction) golden"

definition subem_check :: "string \<Rightarrow> string list \<Rightarrow> bool" where
  "subem_check prediction golden = list_ex (\<lambda>g. contains_pattern (normalize_answer g) (normalize_answer prediction)) golden"

definition qa_extract :: "string \<Rightarrow> string option" where
  "qa_extract s =
     (case find_groups (sequence [literal ''<answer>'', Group 1 (Repeat False (\<lambda>_. True)), literal ''</answer>'']) s of
        [] \<Rightarrow> None
      | ms \<Rightarrow> Some (py_strip (last ms)))"

definition py_count :: "string \<Rightarrow> string \<Rightarrow> nat" where
  "py_count pat s = length (str_split pat s) - 1"

definition qa_score :: "real \<Rightarrow> real \<Rightarrow> string \<Rightarrow> string list \<Rightarrow> real" where
  "qa_score format_score score s golden =
     (case qa_extract s of
        None \<Rightarrow> 0
      | Some a \<Rightarrow>
          if em_check a golden
          then (if 10 < py_count ''<answer>'' s \<or> 10 < py_count ''</answer>'' s then score / 4 else score)
          else format_score)"

definition qa_score_subem :: "real \<Rightarrow> real \<Rightarrow> string \<Rightarrow> string list \<Rightarrow> real" where
  "qa_score_subem format_score score s golden =
     (case qa_extract s of None \<Rightarrow> 0 | Some a \<Rightarrow> if subem_check a golden then score else format_score)"

section \<open>Geometry\<close>

definition geo_format_reward :: "string \<Rightarrow> real" where
  "geo_format_reward s =
     of_bool (matches_fully (sequence [literal ''<think>'', Repeat True (\<lambda>_. True), literal ''</think>'', Repeat True (\<lambda>_. True),
        literal boxed_open, Repeat True (\<lambda>_. True), literal ''}'', Repeat True (\<lambda>_. True)]) s)"

definition geo_score ::
  "(string \<Rightarrow> string) \<Rightarrow> (string \<Rightarrow> string \<Rightarrow> bool) \<Rightarrow> bool \<Rightarrow> real \<Rightarrow> string \<Rightarrow> string \<Rightarrow> real" where
  "geo_score boxed_content grade use_boxed format_score s gt =
     (1 - format_score) * of_bool (grade (if use_boxed then boxed_content s else s) gt) + format_score * geo_format_reward s"

section \<open>Choice by the data source\<close>

text \<open>The ground truth of a sample: a text, the targets of a question, or what the other modules read.\<close>

datatype 'g ground_truth = Answer string | Targets "string list" | Other_Truth 'g

datatype score_value = Dapo_Score dapo_result | Score real

record 'g other_scores =
  other_math :: "string \<Rightarrow> 'g ground_truth \<Rightarrow> real result"
  other_code :: "string \<Rightarrow> 'g ground_truth \<Rightarrow> real result"
  sandbox_code :: "string \<Rightarrow> string \<Rightarrow> 'g ground_truth \<Rightarrow> real result"
  boxed_content :: "string \<Rightarrow> string"
  grade :: "string \<Rightarrow> string \<Rightarrow> bool"

definition answer_text :: "'g ground_truth \<Rightarrow> string result" where
  "answer_text g = (case g of Answer t \<Rightarrow> Inr t | _ \<Rightarrow> Inl TypeError)"

definition default_compute_score ::
  "'g other_scores \<Rightarrow> string option \<Rightarrow> string \<Rightarrow> string \<Rightarrow> 'g ground_truth \<Rightarrow> score_value result" where
  "default_compute_score other sandbox_url source solution gt =
     (if source = ''openai/gsm8k'' then rbind (answer_text gt) (\<lambda>t. Inr (Score (gsm8k_score Strict 0 1 solution t)))
      else if source \<in> {''lighteval/MATH'', ''DigitalLearningGmbH/MATH-lighteval'', ''HuggingFaceH4/MATH-500''}
      then rbind (answer_text gt) (\<lambda>t. Inr (Score (math_reward solution t)))
      else if source \<in> {''math_dapo'', ''math'', ''math_dapo_reasoning''} \<or> prefix ''aime'' source
      then rbind (answer_text gt) (\<lambda>t. rbind (dapo_compute_score solution t False None) (\<lambda>r. Inr (Dapo_Score r)))
      else if source \<in> {''numina_aops_forum'', ''numina_synthetic_math'', ''numina_amc_aime'', ''numina_synthetic_amc'',
                         ''numina_cn_k12'', ''numina_olympiads''}
      then rbind (other_math other solution gt) (\<lambda>r. Inr (Score r))
      else if source \<in> {''codecontests'', ''apps'', ''codeforces'', ''taco''}
      then rbind (case sandbox_url of
                    Some url \<Rightarrow> if url = [] then other_code other solution gt else sandbox_code other url solution gt
                  | None \<Rightarrow> other_code other solution gt) (\<lambda>r. Inr (Score r))
      else if source = ''hiyouga/geometry3k''
      then rbind (answer_text gt) (\<lambda>t. Inr (Score (geo_score (boxed_content other) (grade other) True (1 / 10) solution t)))
      else if source \<in> {''searchR1_nq'', ''searchR1_triviaqa'', ''searchR1_popqa'', ''searchR1_hotpotqa'',
                         ''searchR1_2wikimultihopqa'', ''searchR1_musique'', ''searchR1_bamboogle''}
      then (case gt of Targets ts \<Rightarrow> Inr (Score (qa_score 0 1 solution ts)) | _ \<Rightarrow> Inl TypeError)
      else Inl NotImplementedError)"

end
