(* ===== verification/Feedback_Scores_Properties.thy ===== *)
theory Feedback_Scores_Properties
  imports Feedback_Scores
begin

text \<open>
  Properties of the scoring modules with feedback: a boxed answer with balanced braces is found and decides the
  score, and what the feedback says of an answer.
\<close>

section \<open>The last box\<close>

text \<open>Braces that are closed in order, starting at a depth.\<close>

fun closes :: "nat \<Rightarrow> string \<Rightarrow> bool" where
  "closes n [] \<longleftrightarrow> n = 0"
| "closes n (c # cs) \<longleftrightarrow>
     (if c = CHR ''{'' then closes (Suc n) cs
      else if c = CHR ''}'' then (case n of 0 \<Rightarrow> False | Suc k \<Rightarrow> closes k cs)
      else closes n cs)"

lemma closed_part_balanced: "closes n a \<Longrightarrow> closed_part (int n + 1) (a @ CHR ''}'' # u) = Some (a @ ''}'')"
proof (induction n a rule: closes.induct)
  case (2 n c cs)
  then show ?case by (cases n) (auto simp: algebra_simps split: if_splits)
qed simp

lemma closed_part_boxed: "closes 0 a \<Longrightarrow> closed_part 0 (boxed_open @ a @ CHR ''}'' # u) = Some (boxed_open @ a @ ''}'')"
  using closed_part_balanced [of 0 a u] by simp

lemma from_last_absent: "\<not> sublist pat s \<Longrightarrow> from_last pat s = None"
  by (induction pat s rule: from_last.induct) (auto simp: sublist_Cons_right)

lemma from_last_skip: "from_last pat s = Some t \<Longrightarrow> from_last pat (r @ s) = Some t"
  by (induction r) simp_all

text \<open>The backslash occurs only at the head of the delimiter, so no later occurrence overlaps it.\<close>

lemma from_last_boxed:
  assumes "\<not> sublist boxed_open s"
  shows "from_last boxed_open (t @ boxed_open @ s) = Some (boxed_open @ s)"
proof (rule from_last_skip)
  show "from_last boxed_open (boxed_open @ s) = Some (boxed_open @ s)"
    using from_last_absent [OF assms] by simp
qed

lemma last_boxed:
  assumes "closes 0 a" and "\<not> sublist boxed_open (a @ CHR ''}'' # u)"
  shows "last_boxed_only_string (t @ boxed_open @ a @ CHR ''}'' # u) = Some (boxed_open @ a @ ''}'')"
  using from_last_boxed [OF assms(2), of t] closed_part_boxed [OF assms(1), of u]
  by (simp add: last_boxed_only_string_def)

lemma remove_boxed_inverse: "remove_boxed (boxed_open @ a @ ''}'') = a"
  by (simp add: remove_boxed_def)

text \<open>
  C5: The last box of a solution decides its score: when its braces are balanced, it is the last one, and it lies
  in the last thousand characters, the prediction is exactly its content, and the score is one exactly when the
  content is the expected answer or math_verify accepts it, an empty box apart.
\<close>

theorem boxed_answer_decides:
  assumes "closes 0 a" and "\<not> sublist boxed_open (a @ CHR ''}'' # u)" and "length a + length u + 8 \<le> 1000"
  shows "\<exists>r. math_score mv (t @ boxed_open @ a @ CHR ''}'' # u) gt tr None ff cf = Inr r \<and> fb_pred r = a \<and>
    fb_score r = of_bool (a = gt \<or> a \<noteq> [] \<and> mv gt a = Some True) \<and> fb_acc r = fb_score r"
proof -
  let ?s = "boxed_open @ a @ CHR ''}'' # u"
  have w: "prediction_window None (t @ ?s) = Inr (drop (length (t @ ?s) - 1000) t @ ?s)"
    using assms(3) by (simp add: prediction_window_def)
  have "is_correct_strict_box (t @ ?s) gt None = Inr (a = gt, Some a)"
    unfolding is_correct_strict_box_def w rbind_simps Let_def last_boxed [OF assms(1,2)] option.map remove_boxed_inverse
    by simp
  then have v: "verify_answer mv (t @ ?s) gt None =
      Inr (if a \<noteq> gt \<and> a \<noteq> [] then (case mv gt a of None \<Rightarrow> a = gt | Some b \<Rightarrow> b, a) else (a = gt, a))"
    unfolding verify_answer_def by (auto simp: Let_def)
  show ?thesis
    unfolding math_score_def v
    by (cases "mv gt a") (auto simp: Let_def)
qed

lemma boxed_answer_decides_witness:
  "\<exists>r. math_score (\<lambda>_ _. None) (''so '' @ boxed_open @ ''x_{1}'' @ CHR ''}'' # '' ok'') ''x_{1}'' False None True False = Inr r \<and>
    fb_score r = 1"
proof -
  have "closes 0 ''x_{1}''" "\<not> sublist boxed_open (''x_{1}'' @ CHR ''}'' # '' ok'')"
    by (simp_all add: sublist_Cons_right)
  from boxed_answer_decides [OF this, of "\<lambda>_ _. None" "''so ''" "''x_{1}''" False True False]
  show ?thesis by auto
qed

section \<open>Feedback\<close>

text \<open>The cases of the feedback; a correct answer of a response that was not truncated gets none.\<close>

lemma math_feedback_cases:
  assumes "math_score mv solution gt tr pause True cf = Inr r"
  shows "fb_feedback r =
    (if tr then truncated_feedback_text
     else if fb_pred r = [] then format_feedback_text
     else if fb_score r = 0 \<and> cf then correctness_feedback_text gt
     else [])"
  using assms by (auto simp: math_score_def rbind_eq_Inr Let_def)

text \<open>A solution without a box is told to use one, and an unclosed last box hides the closed ones before it.\<close>

lemma no_box_format_feedback:
  assumes "\<not> sublist boxed_open (drop (length s - 1000) s)" and "gt \<noteq> []"
  shows "\<exists>r. math_score mv s gt False None True cf = Inr r \<and> fb_score r = 0 \<and> fb_feedback r = format_feedback_text"
  using assms(2) from_last_absent [OF assms(1)]
  by (simp add: math_score_def verify_answer_def is_correct_strict_box_def prediction_window_def last_boxed_only_string_def)

lemma closed_part_unclosed: "CHR ''}'' \<notin> set s \<Longrightarrow> closed_part n s = None"
  by (induction s arbitrary: n) auto

lemma unclosed_box_hides:
  assumes "CHR ''}'' \<notin> set u" and "\<not> sublist boxed_open u"
  shows "last_boxed_only_string (t @ boxed_open @ u) = Some []"
  using from_last_boxed [OF assms(2), of t] closed_part_unclosed [OF assms(1)]
  by (simp add: last_boxed_only_string_def)

end
