(* ===== verification/Answer_Scores_Properties.thy ===== *)
theory Answer_Scores_Properties
  imports Answer_Scores Feedback_Scores_Properties
begin

text \<open>
  Properties of the rule-based rewards: the equivalence of MATH answers is an equivalence relation, a boxed answer
  decides the reward, and the rewards of DAPO are total.
\<close>

section \<open>Equivalence of answers\<close>

text \<open>Two texts are equivalent when their normal forms agree; a text that cannot be normalised is its own normal form.\<close>

definition normal_form :: "string \<Rightarrow> string + string" where
  "normal_form s = (case strip_string s of Inl _ \<Rightarrow> Inl s | Inr u \<Rightarrow> Inr u)"

lemma is_equiv_normal_form:
  "is_equiv (Some s) (Some t) \<longleftrightarrow> normal_form s = normal_form t \<or> (s = t)"
  by (auto simp: is_equiv_def normal_form_def split: sum.splits)

lemma is_equiv_equivalence: "equivp is_equiv"
proof (rule equivpI)
  show "reflp is_equiv" by (rule reflpI) (auto simp: is_equiv_def split: option.splits sum.splits)
  show "symp is_equiv" by (rule sympI) (auto simp: is_equiv_def split: option.splits sum.splits)
  show "transp is_equiv"
  proof (rule transpI)
    fix x y z assume "is_equiv x y" and "is_equiv y z"
    then show "is_equiv x z"
      by (cases x; cases y; cases z) (auto simp: is_equiv_normal_form, auto simp: is_equiv_def)
  qed
qed

section \<open>Boxed answers\<close>

lemma contains_pattern_sublist: "contains_pattern pat s \<longleftrightarrow> sublist pat s"
  unfolding contains_pattern_def split_first_None by simp

lemma closed_part_unfold: "closed_part 0 (boxed_open @ s) = map_option ((@) boxed_open) (closed_part 1 s)"
  by (cases "closed_part 1 s") simp_all

lemma closed_part_last: "closed_part n s = Some b \<Longrightarrow> b \<noteq> [] \<and> last b = CHR ''}'' \<and> prefix b s"
  by (induction n s arbitrary: b rule: closed_part.induct) (fastforce simp: Let_def split: if_splits)+

lemma from_last_prefix: "from_last pat s = Some t \<Longrightarrow> prefix pat t"
  by (induction pat s rule: from_last.induct) (auto split: option.splits if_splits)

text \<open>What the search for a box returns is always a box, so removing it never raises.\<close>

lemma dapo_box_total:
  assumes "dapo_last_boxed s = Some b"
  shows "\<exists>a. dapo_remove_boxed b = Inr a"
proof -
  obtain t where t: "from_last boxed_open s = Some t" and b: "closed_part 0 t = Some b"
    using assms by (auto simp: dapo_last_boxed_def split: option.splits)
  obtain u where u: "t = boxed_open @ u" using from_last_prefix [OF t] by (auto simp: prefix_def)
  obtain c where c: "b = boxed_open @ c" "closed_part 1 u = Some c" using b unfolding u closed_part_unfold by auto
  have "c \<noteq> []" "last c = CHR ''}''" using closed_part_last [OF c(2)] by blast+
  then show ?thesis by (simp add: dapo_remove_boxed_def c(1))
qed

text \<open>DAPO scores every solution with one or minus one.\<close>

lemma dapo_total: "\<exists>r. dapo_compute_score s gt strict None = Inr r \<and> dapo_score r = (if dapo_acc r then 1 else - 1)"
proof (cases strict)
  case False
  then show ?thesis by (simp add: dapo_compute_score_def is_correct_minerva_def Let_def)
next
  case True
  let ?w = "drop (length (drop (length s - 300) s) - 100) (drop (length s - 300) s)"
  obtain x where "(case dapo_last_boxed ?w of None \<Rightarrow> Inr None | Some b \<Rightarrow> rbind (dapo_remove_boxed b) (\<lambda>a. Inr (Some a))) = Inr x"
    using dapo_box_total by (cases "dapo_last_boxed ?w") fastforce+
  then show ?thesis using True by (simp add: dapo_compute_score_def dapo_strict_box_def dapo_window_def Let_def)
qed

text \<open>
  C33: The reward of a MATH solution whose last box has balanced braces is one exactly when the content of the box is
  equivalent to the expected answer; in particular the expected answer itself is rewarded.
\<close>

theorem math_reward_boxed:
  assumes "closes 0 a" and "\<not> sublist (tex ''boxed'') (a @ CHR ''}'' # u)"
    and "\<not> sublist (tex ''boxed '') (t @ boxed_open @ a @ CHR ''}'' # u)"
  shows "math_reward (t @ boxed_open @ a @ CHR ''}'' # u) gt = of_bool (is_equiv (Some a) (Some gt))"
proof -
  let ?s = "t @ boxed_open @ a @ CHR ''}'' # u"
  have n: "\<not> contains_pattern (tex ''boxed '') ?s"
    unfolding contains_pattern_sublist by (rule assms(3))
  have "from_last (tex ''boxed'') (tex ''boxed'' @ ''{'' @ a @ CHR ''}'' # u) = Some (tex ''boxed'' @ ''{'' @ a @ CHR ''}'' # u)"
    using from_last_absent [OF assms(2)] by simp
  from from_last_skip [OF this, of t] have f: "from_last (tex ''boxed'') ?s = Some (boxed_open @ a @ CHR ''}'' # u)" by simp
  have l: "mr_last_boxed ?s = Some (boxed_open @ a @ ''}'')"
    unfolding mr_last_boxed_def f using n closed_part_boxed [OF assms(1), of u] by simp
  have "\<not> sublist (tex ''boxed '') (boxed_open @ a @ ''}'')"
  proof
    assume "sublist (tex ''boxed '') (boxed_open @ a @ ''}'')"
    moreover have "sublist (boxed_open @ a @ ''}'') ?s" unfolding sublist_def by (rule exI [of _ t], rule exI [of _ u]) simp
    ultimately show False using assms(3) sublist_order.order.trans by blast
  qed
  then have "\<not> contains_pattern (tex ''boxed '') (boxed_open @ a @ ''}'')"
    unfolding contains_pattern_sublist .
  then have "mr_remove_boxed (boxed_open @ a @ ''}'') = Inr a" by (simp add: mr_remove_boxed_def)
  then show ?thesis unfolding math_reward_def l by simp
qed

lemma math_reward_boxed_witness:
  "math_reward (''so '' @ boxed_open @ ''x_{1}'' @ CHR ''}'' # ''.'') ''x_{1}'' = 1"
proof -
  have "is_equiv (Some ''x_{1}'') (Some ''x_{1}'')" using is_equiv_equivalence by (simp add: equivp_reflp)
  then show ?thesis by (subst math_reward_boxed) (simp_all add: sublist_Cons_right)
qed

end
