(* ===== verification/Train_Step.thy ===== *)
theory Train_Step
  imports Rollout_Correction Balance_Batch Teacher_Batch Metrics
begin

text \<open>
  One training step: the body of the loop of \<open>RayPPOTrainer.fit\<close> (\<open>verl/trainer/ppo/ray_trainer.py\<close>),
  stage by stage, on the container. The calls of the workers are parameters that read and change a state
  of their own: the generation of responses, the colocated reward model, the log-probabilities of the
  actor and of the reference, the critic, the two updates and the transfer of the weights. Everything the
  driver does between them is the model of the other theories.
\<close>

section \<open>The state and what the step gets from outside\<close>

text \<open>Meta information holds strings and numbers.\<close>

datatype meta_atom = MetaText string | MetaNumber real

type_synonym step_data = "meta_atom rl_data"

type_synonym 's remote = "step_data \<Rightarrow> 's \<Rightarrow> (step_data \<times> 's) result"

record 's step_env =
  e_generate :: "'s remote"
  e_sleep :: "'s \<Rightarrow> 's"
  e_reward_model :: "'s remote"
  e_log_prob :: "'s remote"
  e_ref_log_prob :: "'s remote"
  e_values :: "'s remote"
  e_update_critic :: "step_data \<Rightarrow> 's \<Rightarrow> (metric_entry dict \<times> 's) result"
  e_update_actor :: "step_data \<Rightarrow> 's \<Rightarrow> (metric_entry dict \<times> 's) result"
  e_save :: "nat \<Rightarrow> 's \<Rightarrow> 's"
  e_sync_weights :: "nat \<Rightarrow> 's \<Rightarrow> 's"
  e_uuid :: "nat \<Rightarrow> string"
  e_images :: "entry \<Rightarrow> real list option"
  e_messages :: "entry \<Rightarrow> message list"
  e_pack_messages :: "message list \<Rightarrow> entry"
  e_answer :: "entry \<Rightarrow> expert_answer"
  e_feedback :: "entry \<Rightarrow> feedback_entry"
  e_tokenizer :: tokenizer
  e_reduce :: "group_reduce option"
  e_top1 :: "vec \<Rightarrow> nat"
  e_parse_int :: "string \<Rightarrow> int option"
  e_multinomial :: "vec \<Rightarrow> nat \<Rightarrow> nat list"

text \<open>
  \<open>e_images\<close> reads the list \<open>images_seqlens\<close> of an entry of \<open>multi_modal_inputs\<close> that has images; the
  following four fields read and write the other objects in the arrays.
\<close>

record step_config =
  s_temperature :: real
  s_n :: nat
  s_adv_estimator :: string
  s_use_rm :: bool
  s_balance :: "balance_config option"
  s_rollout_corr :: "rollout_corr_config option"
  s_agg_mode :: string
  s_loss_scale_factor :: "real option"
  s_use_ref :: bool
  s_use_critic :: bool
  s_distillation :: "sd_config option"
  s_templates :: templates
  s_answer_column :: string
  s_kl_in_reward :: bool
  s_kl_penalty :: string
  s_gamma :: real
  s_lam :: real
  s_norm_by_std :: bool
  s_algo :: algo_config
  s_critic_warmup :: nat

record 's trainer =
  t_world :: 's
  t_kl_ctrl :: kl_controller
  t_actor_wg :: worker_group
  t_policy_loss :: policy_loss_config

section \<open>Helpers on the container\<close>

definition put_meta :: "string \<Rightarrow> 'm meta_value \<Rightarrow> ('a, 'b, 'm) dataproto \<Rightarrow> ('a, 'b, 'm) dataproto" where
  "put_meta k v d = d\<lparr>meta := AList.update k v (meta d)\<rparr>"

definition put_column :: "string \<Rightarrow> 'b list \<Rightarrow> ('a, 'b, 'm) dataproto \<Rightarrow> ('a, 'b, 'm) dataproto" where
  "put_column k v d = d\<lparr>non_tensor := AList.update k v (non_tensor d)\<rparr>"

text \<open>A remote call whose output is merged into the batch.\<close>

definition merge_call :: "'s remote \<Rightarrow> step_data \<Rightarrow> 's \<Rightarrow> (step_data \<times> 's) result" where
  "merge_call f d s = rbind (f d s) (\<lambda>(r, s'). rbind (dp_union d r) (\<lambda>d'. Inr (d', s')))"

definition merge_call_if :: "bool \<Rightarrow> 's remote \<Rightarrow> step_data \<Rightarrow> 's \<Rightarrow> (step_data \<times> 's) result" where
  "merge_call_if b f d s = (if b then merge_call f d s else Inr (d, s))"

section \<open>From prompts to a batch of responses\<close>

text \<open>The temperature and a fresh identifier per prompt.\<close>

definition assign_uids :: "'s step_env \<Rightarrow> step_config \<Rightarrow> step_data \<Rightarrow> step_data result" where
  "assign_uids env cfg d =
     (case batch d of
        None \<Rightarrow> Inl TypeError
      | Some td \<Rightarrow> Inr (put_column ''uid'' (map (\<lambda>i. Str (e_uuid env i)) [0..<td_size td])
          (put_meta ''temperature'' (Atom (MetaNumber (s_temperature cfg))) d)))"

text \<open>\<open>_get_gen_batch\<close>: the batch for generation, and the batch without the popped arrays.\<close>

definition kept_keys :: "string list" where
  "kept_keys = [''data_source'', ''reward_model'', ''extra_info'', ''uid'', ''raw_prompt'', ''answer'']"

definition get_gen_batch :: "('a, 'b, 'm) dataproto \<Rightarrow> (('a, 'b, 'm) dataproto \<times> ('a, 'b, 'm) dataproto) result" where
  "get_gen_batch d =
     rbind (dp_pop [] (filter (\<lambda>k. k \<notin> set kept_keys) (keys (non_tensor d))) [] d) (\<lambda>(gen, rest).
       Inr (gen\<lparr>non_tensor := dict_update (non_tensor gen) (non_tensor rest)\<rparr>, rest))"

text \<open>The rollout: \<open>n\<close> samples per prompt; the timing the manager reports is taken out of the output.\<close>

definition take_timing :: "step_data \<Rightarrow> step_data result" where
  "take_timing d =
     ensure (map_of (meta d) ''timing'' \<noteq> None) KeyError (Inr (d\<lparr>meta := AList.delete ''timing'' (meta d)\<rparr>))"

definition rollout :: "'s step_env \<Rightarrow> step_config \<Rightarrow> step_data \<Rightarrow> 's \<Rightarrow> (step_data \<times> 's) result" where
  "rollout env cfg gen s =
     rbind (dp_repeat (s_n cfg) True gen) (\<lambda>samples.
     rbind (e_generate env samples s) (\<lambda>(out, s').
     rbind (take_timing out) (\<lambda>out'. Inr (out', e_sleep env s'))))"

text \<open>
  ReMax: one greedy response per prompt gives the baseline. The keys of its output are removed again; the
  keys that the reward model added are meant to be, but \<open>rm_scores\<close> in the code stays \<open>None\<close>.
\<close>

definition remax_baseline :: "'s step_env \<Rightarrow> step_config \<Rightarrow> step_data \<Rightarrow> step_data \<Rightarrow> 's \<Rightarrow> (step_data \<times> 's) result" where
  "remax_baseline env cfg gen d s =
     rbind (e_generate env (put_meta ''do_sample'' (Flag False) gen) s) (\<lambda>(base, s1).
     rbind (dp_union d base) (\<lambda>d1.
     rbind (merge_call_if (s_use_rm cfg \<and> \<not> has_tensor d1 ''rm_scores'') (e_reward_model env) d1 (e_sleep env s1)) (\<lambda>(d2, s2).
     rbind (tensor d2 ''rm_scores'') (\<lambda>scores.
     rbind (case batch base of None \<Rightarrow> Inl AttributeError | Some td \<Rightarrow> dp_pop (keys (td_items td)) [] [] d2) (\<lambda>(_, d3).
     rbind (set_tensor ''reward_baselines'' (map (\<lambda>row. [sum_list row]) scores) d3) (\<lambda>d4.
       Inr (d4, s2)))))))"

definition remax_stage :: "'s step_env \<Rightarrow> step_config \<Rightarrow> step_data \<Rightarrow> step_data \<Rightarrow> 's \<Rightarrow> (step_data \<times> 's) result" where
  "remax_stage env cfg gen d s =
     (if s_adv_estimator cfg = estimator_name REMAX then remax_baseline env cfg gen d s else Inr (d, s))"

text \<open>Prompts and responses in one batch, with a response mask.\<close>

definition assemble :: "step_config \<Rightarrow> step_data \<Rightarrow> step_data \<Rightarrow> step_data result" where
  "assemble cfg d out =
     rbind (dp_repeat (s_n cfg) True d) (\<lambda>prompts.
     rbind (dp_union prompts out) with_response_mask)"

definition generate_stage ::
  "'s step_env \<Rightarrow> step_config \<Rightarrow> nat \<Rightarrow> step_data \<Rightarrow> 's \<Rightarrow> (step_data \<times> 's) result" where
  "generate_stage env cfg global_steps d0 s0 =
     rbind (assign_uids env cfg d0) (\<lambda>d1.
     rbind (get_gen_batch d1) (\<lambda>(gen0, d2).
       let gen = put_meta ''global_steps'' (Atom (MetaNumber (real global_steps))) gen0
       in rbind (rollout env cfg gen s0) (\<lambda>(out, s1).
          rbind (remax_stage env cfg gen d2 s1) (\<lambda>(d3, s2).
          rbind (assemble cfg d3 out) (\<lambda>d4. Inr (d4, s2))))))"

section \<open>Balancing and token counts\<close>

definition seqlen_metrics :: "unbalance_metrics \<Rightarrow> metrics" where
  "seqlen_metrics m =
     map (\<lambda>(k, v). (''global_seqlen/'' @ k, v))
       [(''min'', real_of_int (m_min m)), (''max'', real_of_int (m_max m)),
        (''minmax_diff'', real_of_int (m_minmax_diff m)), (''balanced_min'', real_of_int (m_balanced_min m)),
        (''balanced_max'', real_of_int (m_balanced_max m)), (''mean'', m_mean m)]"

definition row_tokens :: "vec \<Rightarrow> int" where
  "row_tokens row = \<lfloor>sum_list row\<rfloor>"

definition balance_stage ::
  "step_config \<Rightarrow> worker_group \<Rightarrow> step_data \<Rightarrow> (step_data \<times> metrics \<times> worker_group) result" where
  "balance_stage cfg wg d =
     (case s_balance cfg of
        None \<Rightarrow> Inr (d, [], wg)
      | Some b \<Rightarrow> rbind (balance_batch row_tokens b wg d) (\<lambda>(d', stats, wg'). Inr (d', seqlen_metrics stats, wg')))"

text \<open>\<open>global_token_num\<close> and \<open>images_seqlens\<close>; the array \<open>multi_modal_inputs\<close> must exist.\<close>

definition count_tokens :: "'s step_env \<Rightarrow> step_data \<Rightarrow> step_data result" where
  "count_tokens env d =
     rbind (tensor d ''attention_mask'') (\<lambda>attention.
       case map_of (non_tensor d) ''multi_modal_inputs'' of
         None \<Rightarrow> Inl KeyError
       | Some col \<Rightarrow>
           Inr (put_meta ''images_seqlens''
                  (ListV (map (\<lambda>x. Atom (MetaNumber x)) (concat (List.map_filter (e_images env) col))))
             (put_meta ''global_token_num'' (ListV (map (\<lambda>row. Atom (MetaNumber (sum_list row))) attention)) d)))"

section \<open>Rewards\<close>

definition meta_texts :: "meta_atom meta_value option \<Rightarrow> string list result" where
  "meta_texts v = (case v of
       None \<Rightarrow> Inr []
     | Some (ListV l) \<Rightarrow> mapM_result (\<lambda>x. case x of Atom (MetaText s) \<Rightarrow> Inr s | _ \<Rightarrow> Inl TypeError) l
     | Some _ \<Rightarrow> Inl TypeError)"

definition extract_reward_columns :: "step_data \<Rightarrow> (mat \<times> entry list dict) result" where
  "extract_reward_columns d =
     rbind (tensor d ''rm_scores'') (\<lambda>reward_tensor.
     rbind (meta_texts (map_of (meta d) ''reward_extra_keys'')) (\<lambda>ks.
     rbind (mapM_result (\<lambda>k. case map_of (non_tensor d) k of None \<Rightarrow> Inl KeyError | Some col \<Rightarrow> Inr (k, col)) ks) (\<lambda>info.
       Inr (reward_tensor, info))))"

definition reward_stage ::
  "'s step_env \<Rightarrow> step_config \<Rightarrow> step_data \<Rightarrow> 's \<Rightarrow> (step_data \<times> mat \<times> entry list dict \<times> 's) result" where
  "reward_stage env cfg d s =
     rbind (merge_call_if (s_use_rm cfg \<and> \<not> has_tensor d ''rm_scores'') (e_reward_model env) d s) (\<lambda>(d', s').
     rbind (extract_reward_columns d') (\<lambda>(rewards, info). Inr (d', rewards, info, s')))"


section \<open>Log-probabilities of the old policy\<close>

text \<open>\<open>torch.corrcoef\<close> of two vectors, and \<open>calculate_debug_metrics\<close> of \<open>verl/utils/debug/metrics.py\<close>.\<close>

definition centered_dot :: "vec \<Rightarrow> vec \<Rightarrow> real" where
  "centered_dot xs ys = sum_list (map2 (\<lambda>x y. (x - vec_mean xs) * (y - vec_mean ys)) xs ys)"

definition corrcoef :: "vec \<Rightarrow> vec \<Rightarrow> real" where
  "corrcoef xs ys = centered_dot xs ys / sqrt (centered_dot xs xs * centered_dot ys ys)"

definition same_shapes :: "mat \<Rightarrow> mat \<Rightarrow> bool" where
  "same_shapes A B \<longleftrightarrow> map length A = map length B"

definition pearson_correlation_coefficient :: "mat \<Rightarrow> mat \<Rightarrow> mat \<Rightarrow> real" where
  "pearson_correlation_coefficient a b msk =
     (if \<not> same_shapes a b \<or> \<not> same_shapes msk a \<or> \<not> same_shapes msk b then 0
      else corrcoef (selected_tokens a msk) (selected_tokens b msk))"

definition calculate_log_prob_diff :: "mat \<Rightarrow> mat \<Rightarrow> mat \<Rightarrow> vec" where
  "calculate_log_prob_diff a b msk = selected_tokens (ew2 (\<lambda>x y. \<bar>x - y\<bar>) a b) msk"

definition debug_mask :: "(vec, 'b, 'm) dataproto \<Rightarrow> mat \<Rightarrow> mat" where
  "debug_mask d probs =
     (if has_tensor d ''response_mask'' then projr (tensor d ''response_mask'')
      else if has_tensor d ''attention_mask'' then projr (tensor d ''attention_mask'')
      else map (map (\<lambda>_. 1)) probs)"

definition calculate_debug_metrics :: "(vec, 'b, 'm) dataproto \<Rightarrow> metrics result" where
  "calculate_debug_metrics d =
     rbind (tensor d ''rollout_log_probs'') (\<lambda>rollout.
     rbind (tensor d ''old_log_probs'') (\<lambda>actor.
     rbind (tensor d ''responses'') (\<lambda>responses.
       let msk = map (py_last (mat_width responses)) (debug_mask d rollout);
           actor_probs = map (map exp) actor;
           rollout_probs = map (map exp) rollout;
           diff = calculate_log_prob_diff actor_probs rollout_probs msk
       in rbind (torch_max diff) (\<lambda>hi.
            Inr [(''training/rollout_probs_diff_valid'', 1),
                 (''training/rollout_probs_diff_max'', hi),
                 (''training/rollout_probs_diff_mean'', vec_mean diff),
                 (''training/rollout_probs_diff_std'', sqrt (torch_var diff)),
                 (''training/rollout_actor_probs_pearson_corr'',
                    pearson_correlation_coefficient actor_probs rollout_probs msk)]))))"

definition drop_tensor :: "string \<Rightarrow> ('a, 'b, 'm) dataproto \<Rightarrow> ('a, 'b, 'm) dataproto" where
  "drop_tensor k d = d\<lparr>batch := map_option (\<lambda>td. td\<lparr>td_items := AList.delete k (td_items td)\<rparr>) (batch d)\<rparr>"

text \<open>The model FLOPs utilisation of the legacy workers is reported as zero.\<close>

definition recompute_log_probs ::
  "'s step_env \<Rightarrow> step_config \<Rightarrow> step_data \<Rightarrow> 's \<Rightarrow> (step_data \<times> metrics \<times> 's) result" where
  "recompute_log_probs env cfg d s =
     rbind (e_log_prob env d s) (\<lambda>(old, s').
     rbind (tensor old ''entropys'') (\<lambda>entropys.
     rbind (tensor d ''response_mask'') (\<lambda>response_masks.
     rbind (agg_loss entropys response_masks (s_agg_mode cfg)
              (default_info\<lparr>loss_scale_factor := s_loss_scale_factor cfg\<rparr>)) (\<lambda>entropy_agg.
     ensure (\<not> (has_tensor d ''routed_experts'' \<and> has_tensor old ''routed_experts'')) ValueError
     (rbind (dp_union d (drop_tensor ''entropys'' old)) (\<lambda>d'.
      rbind (if has_tensor d' ''rollout_log_probs'' then calculate_debug_metrics d' else Inr []) (\<lambda>debug.
        Inr (d', dict_update [(''actor/entropy'', entropy_agg), (''perf/mfu/actor_infer'', 0)] debug, s'))))))))"

definition bypasses :: "step_config \<Rightarrow> bool" where
  "bypasses cfg \<longleftrightarrow> (case s_rollout_corr cfg of None \<Rightarrow> False | Some c \<Rightarrow> bypass_mode c)"

definition old_log_prob_stage ::
  "'s step_env \<Rightarrow> step_config \<Rightarrow> policy_loss_config \<Rightarrow> step_data \<Rightarrow> 's \<Rightarrow>
   (step_data \<times> metrics \<times> policy_loss_config \<times> 's) result" where
  "old_log_prob_stage env cfg pl d s =
     rbind (if bypasses cfg
            then rbind (apply_bypass_mode d (s_rollout_corr cfg) pl) (\<lambda>(d', pl'). Inr (d', [], pl', s))
            else rbind (recompute_log_probs env cfg d s) (\<lambda>(d', ms, s'). Inr (d', ms, pl, s'))) (\<lambda>(d', ms, pl', s').
       ensure (has_tensor d' ''old_log_probs'') AssertionError (Inr (d', ms, pl', s')))"

section \<open>The teacher batch\<close>

definition int_rows :: "mat \<Rightarrow> int list list" where
  "int_rows = map (map floor)"

definition real_rows :: "int list list \<Rightarrow> mat" where
  "real_rows = map (map real_of_int)"

text \<open>What \<open>_maybe_build_self_distillation_batch\<close> reads from the batch.\<close>

definition teacher_inputs :: "'s step_env \<Rightarrow> step_config \<Rightarrow> step_data \<Rightarrow> td_batch result" where
  "teacher_inputs env cfg d =
     rbind (tensor d ''response_mask'') (\<lambda>response_mask.
     rbind (tensor d ''responses'') (\<lambda>responses.
       case uids_of d of
         None \<Rightarrow> Inl KeyError
       | Some uids \<Rightarrow>
           Inr \<lparr>td_responses = int_rows responses, td_response_mask = int_rows response_mask, td_uids = uids,
                td_raw_prompt = map_option (map (e_messages env)) (map_of (non_tensor d) ''raw_prompt''),
                td_expert_answers = map_option (map (e_answer env)) (map_of (non_tensor d) (s_answer_column cfg))\<rparr>))"

definition td_metric_dict :: "td_metrics \<Rightarrow> metrics" where
  "td_metric_dict m =
     map (\<lambda>(k, v). (''self_distillation/'' @ k, v))
       [(''success_group_fraction'', success_group_fraction m), (''success_sample_fraction'', success_sample_fraction m),
        (''feedback_available_fraction'', feedback_available_fraction m), (''feedback_used_fraction'', feedback_used_fraction m),
        (''reprompt_sample_fraction'', reprompt_sample_fraction m), (''already_correct_fraction'', already_correct_fraction m),
        (''expert_answer_fraction'', expert_answer_fraction m)]"

definition teacher_data :: "'s step_env \<Rightarrow> td_result \<Rightarrow> step_data result" where
  "teacher_data env r =
     from_dict
       [(''teacher_input_ids'', real_rows (teacher_input_ids r)),
        (''teacher_attention_mask'', real_rows (teacher_attention_mask r)),
        (''teacher_position_ids'', real_rows (teacher_position_ids r)),
        (''self_distillation_mask'', map (\<lambda>x. [x]) (td_self_distillation_mask r)),
        (''correct_mask'', map (\<lambda>b. [indicator_of b]) (correct_mask r))]
       [(''teacher_messages'', map (e_pack_messages env) (teacher_messages r))] [] False"

text \<open>
  The merged teacher batch, the rendered prompts that join the extra reward columns, and the metrics;
  nothing of it when the loss is not \<open>sdpo\<close>.
\<close>

definition teacher_stage ::
  "'s step_env \<Rightarrow> step_config \<Rightarrow> policy_loss_config \<Rightarrow> step_data \<Rightarrow> mat \<Rightarrow> entry list dict \<Rightarrow>
   (step_data \<times> entry list dict \<times> metrics \<times> bool) result" where
  "teacher_stage env cfg pl d rewards info =
     (if s_distillation cfg = None \<or> loss_mode pl \<noteq> ''sdpo'' then Inr (d, info, [], False)
      else ensure (map_of (non_tensor d) ''raw_prompt'' \<noteq> None) ValueError
       (rbind (teacher_inputs env cfg d) (\<lambda>inp.
        rbind (maybe_build_self_distillation_batch (s_distillation cfg) (loss_mode pl) (s_templates cfg) (e_tokenizer env)
                 inp rewards (Some (map_option (map (e_feedback env)) (map_of info ''feedback'')))) (\<lambda>built.
          case built of
            None \<Rightarrow> Inr (d, info, [], False)
          | Some (r, ms) \<Rightarrow>
              rbind (teacher_data env r) (\<lambda>t.
              rbind (dp_union d t) (\<lambda>d'.
                Inr (d', (case teacher_prompt r of None \<Rightarrow> info | Some texts \<Rightarrow> AList.update ''teacher_prompt'' (map Str texts) info),
                     td_metric_dict ms, True)))))))"

text \<open>The additional pass over the teacher's inputs; its result is not stored.\<close>

definition log_ratio_pass :: "'s step_env \<Rightarrow> worker_group \<Rightarrow> step_data \<Rightarrow> 's \<Rightarrow> (worker_group \<times> 's) result" where
  "log_ratio_pass env wg d s =
     rbind (tensor d ''teacher_input_ids'') (\<lambda>ids.
     rbind (tensor d ''teacher_attention_mask'') (\<lambda>msk.
     rbind (tensor d ''teacher_position_ids'') (\<lambda>pos.
     rbind (tensor d ''responses'') (\<lambda>responses.
     rbind (from_dict [(''input_ids'', ids), (''attention_mask'', msk), (''position_ids'', pos), (''responses'', responses)]
              [] [] False) (\<lambda>data.
     rbind (get_dp_size wg ''actor'') (\<lambda>(k, wg').
     rbind (pad_dataproto_to_divisor data (max 1 k)) (\<lambda>(padded, pad_size).
     rbind (e_log_prob env padded s) (\<lambda>(out, s').
     rbind (unpad_dataproto out pad_size) (\<lambda>out'.
     rbind (tensor out' ''old_log_probs'') (\<lambda>_.
       Inr (wg', s')))))))))))"

definition log_ratio_stage ::
  "'s step_env \<Rightarrow> worker_group \<Rightarrow> bool \<Rightarrow> step_data \<Rightarrow> 's \<Rightarrow> (worker_group \<times> 's) result" where
  "log_ratio_stage env wg distilled d s =
     (if distilled \<and> has_tensor d ''teacher_input_ids'' \<and> has_tensor d ''old_log_probs''
      then log_ratio_pass env wg d s else Inr (wg, s))"


section \<open>Advantages\<close>

definition kl_metric_dict :: "kl_metrics \<Rightarrow> metrics" where
  "kl_metric_dict m =
     [(''actor/reward_kl_penalty'', reward_kl_penalty m), (''actor/reward_kl_penalty_coeff'', reward_kl_penalty_coeff m)]"

definition token_rewards ::
  "step_config \<Rightarrow> kl_controller \<Rightarrow> step_data \<Rightarrow> (step_data \<times> kl_controller \<times> metrics) result" where
  "token_rewards cfg ctrl d =
     (if s_kl_in_reward cfg
      then rbind (apply_kl_penalty d ctrl (s_kl_penalty cfg)) (\<lambda>(d', ctrl', ms). Inr (d', ctrl', kl_metric_dict ms))
      else rbind (tensor d ''token_level_scores'') (\<lambda>scores.
           rbind (set_tensor ''token_level_rewards'' scores d) (\<lambda>d'. Inr (d', ctrl, []))))"

definition put_columns :: "entry list dict \<Rightarrow> step_data \<Rightarrow> step_data" where
  "put_columns info d = d\<lparr>non_tensor := dict_update (non_tensor d) info\<rparr>"

text \<open>
  The block timed as \<open>adv\<close>: scores, teacher batch, extra columns, penalty, rollout correction, advantages.
\<close>

definition advantage_stage ::
  "'s step_env \<Rightarrow> step_config \<Rightarrow> 's trainer \<Rightarrow> step_data \<Rightarrow> mat \<Rightarrow> entry list dict \<Rightarrow>
   (step_data \<times> metrics \<times> 's trainer) result" where
  "advantage_stage env cfg t d rewards info =
     rbind (set_tensor ''token_level_scores'' rewards d) (\<lambda>d1.
     rbind (teacher_stage env cfg (t_policy_loss t) d1 rewards info) (\<lambda>(d2, info', sd_metrics, distilled).
     rbind (log_ratio_stage env (t_actor_wg t) distilled (put_columns info' d2) (t_world t)) (\<lambda>(wg, s).
     rbind (token_rewards cfg (t_kl_ctrl t) (put_columns info' d2)) (\<lambda>(d3, ctrl, kl_ms).
     rbind (decoupled_correction (e_reduce env) (s_rollout_corr cfg) d3) (\<lambda>(d4, corr_ms).
     rbind (compute_advantage (e_top1 env) (e_parse_int env) (e_multinomial env) d4 (s_adv_estimator cfg)
              (s_gamma cfg) (s_lam cfg) (s_norm_by_std cfg) (s_algo cfg)) (\<lambda>d5.
       Inr (d5, dict_update (dict_update sd_metrics kl_ms) corr_ms,
            t\<lparr>t_world := s, t_kl_ctrl := ctrl, t_actor_wg := wg\<rparr>)))))))"

section \<open>The batch of a step\<close>

text \<open>Everything up to the advantages: the batch the updates get, the metrics and the new state.\<close>

definition scored_batch ::
  "'s step_env \<Rightarrow> step_config \<Rightarrow> nat \<Rightarrow> 's trainer \<Rightarrow> step_data \<Rightarrow>
   (step_data \<times> mat \<times> entry list dict \<times> metrics \<times> 's trainer) result" where
  "scored_batch env cfg global_steps t d0 =
     rbind (generate_stage env cfg global_steps d0 (t_world t)) (\<lambda>(d1, s1).
     rbind (balance_stage cfg (t_actor_wg t) d1) (\<lambda>(d2, balance_ms, wg).
     rbind (count_tokens env d2) (\<lambda>d3.
     rbind (reward_stage env cfg d3 s1) (\<lambda>(d4, rewards, info, s2).
       Inr (d4, rewards, info, balance_ms, t\<lparr>t_world := s2, t_actor_wg := wg\<rparr>)))))"

definition evaluated_batch ::
  "'s step_env \<Rightarrow> step_config \<Rightarrow> 's trainer \<Rightarrow> step_data \<Rightarrow> (step_data \<times> metrics \<times> 's trainer) result" where
  "evaluated_batch env cfg t d =
     rbind (old_log_prob_stage env cfg (t_policy_loss t) d (t_world t)) (\<lambda>(d1, ms, pl, s1).
     rbind (merge_call_if (s_use_ref cfg) (e_ref_log_prob env) d1 s1) (\<lambda>(d2, s2).
     rbind (merge_call_if (s_use_critic cfg) (e_values env) d2 s2) (\<lambda>(d3, s3).
       Inr (d3, ms, t\<lparr>t_world := s3, t_policy_loss := pl\<rparr>))))"

definition prepare_step ::
  "'s step_env \<Rightarrow> step_config \<Rightarrow> nat \<Rightarrow> 's trainer \<Rightarrow> step_data \<Rightarrow> (step_data \<times> metrics \<times> 's trainer) result" where
  "prepare_step env cfg global_steps t d0 =
     rbind (scored_batch env cfg global_steps t d0) (\<lambda>(d1, rewards, info, ms1, t1).
     rbind (evaluated_batch env cfg t1 d1) (\<lambda>(d2, ms2, t2).
     rbind (advantage_stage env cfg t2 d2 rewards info) (\<lambda>(d3, ms3, t3).
       Inr (d3, dict_update (dict_update ms1 ms2) ms3, t3))))"

section \<open>Updates\<close>

definition update_critic_stage ::
  "'s step_env \<Rightarrow> step_config \<Rightarrow> step_data \<Rightarrow> 's \<Rightarrow> (metrics \<times> 's) result" where
  "update_critic_stage env cfg d s =
     (if s_use_critic cfg
      then rbind (e_update_critic env d s) (\<lambda>(ms, s'). rbind (reduce_metrics ms) (\<lambda>r. Inr (r, s')))
      else Inr ([], s))"

text \<open>
  The update of the actor, after the warm-up of the critic; a checkpoint when it is due; then the transfer
  of the weights to the inference servers.
\<close>

definition update_actor_stage ::
  "'s step_env \<Rightarrow> step_config \<Rightarrow> nat \<Rightarrow> bool \<Rightarrow> step_data \<Rightarrow> 's \<Rightarrow> (metrics \<times> 's) result" where
  "update_actor_stage env cfg global_steps save_due d s =
     (if s_critic_warmup cfg \<le> global_steps
      then rbind (e_update_actor env d s) (\<lambda>(ms, s').
           rbind (reduce_metrics ms) (\<lambda>r.
             Inr (r, e_sync_weights env global_steps (if save_due then e_save env global_steps s' else s'))))
      else Inr ([], s))"

definition train_step ::
  "'s step_env \<Rightarrow> step_config \<Rightarrow> nat \<Rightarrow> bool \<Rightarrow> 's trainer \<Rightarrow> step_data \<Rightarrow>
   (step_data \<times> metrics \<times> 's trainer) result" where
  "train_step env cfg global_steps save_due t d0 =
     rbind (prepare_step env cfg global_steps t d0) (\<lambda>(d, ms, t1).
     rbind (update_critic_stage env cfg d (t_world t1)) (\<lambda>(critic_ms, s1).
     rbind (update_actor_stage env cfg global_steps save_due d s1) (\<lambda>(actor_ms, s2).
       Inr (d, dict_update (dict_update ms critic_ms) actor_ms, t1\<lparr>t_world := s2\<rparr>))))"

section \<open>The metrics of a step\<close>

definition variance_proxy_dict :: "variance_proxy option \<Rightarrow> metrics" where
  "variance_proxy_dict p = (case p of
       None \<Rightarrow> []
     | Some v \<Rightarrow>
         map (\<lambda>(k, x). (''variance_proxy/'' @ k, x))
           [(''proxy1_signal_strength'', signal_strength v), (''proxy2_total_power'', total_power v),
            (''proxy3_pure_noise'', pure_noise v), (''expected_a_squared'', expected_a_squared v),
            (''expected_w'', expected_w v)])"

definition meta_numbers :: "meta_atom meta_value option \<Rightarrow> vec result" where
  "meta_numbers v = (case v of
       None \<Rightarrow> Inl KeyError
     | Some (ListV l) \<Rightarrow> mapM_result (\<lambda>x. case x of Atom (MetaNumber r) \<Rightarrow> Inr r | _ \<Rightarrow> Inl TypeError) l
     | Some _ \<Rightarrow> Inl TypeError)"

definition gdpo_reward_metrics :: "step_config \<Rightarrow> step_data \<Rightarrow> metrics result" where
  "gdpo_reward_metrics cfg d =
     (if s_adv_estimator cfg = estimator_name GDPO
      then rbind (mapM_result (\<lambda>key. case map_of (non_tensor d) key of
               None \<Rightarrow> Inr []
             | Some col \<Rightarrow>
                 (let vals = map entry_value col; name = ''gdpo/'' @ key
                  in rbind (np_max vals) (\<lambda>hi. rbind (np_min vals) (\<lambda>lo.
                       Inr [(name @ ''/mean'', vec_mean vals), (name @ ''/std'', np_std vals), (name @ ''/max'', hi),
                            (name @ ''/min'', lo)])))) (algo_gdpo_keys (s_algo cfg))) (\<lambda>parts. Inr (concat parts))
      else Inr [])"

text \<open>
  What is added after the step; the measured times and the number of devices are arguments. The optional metrics of
  the texts of the responses, off by default, are left out.
\<close>

definition step_metrics ::
  "step_config \<Rightarrow> nat \<Rightarrow> nat \<Rightarrow> metrics \<Rightarrow> nat \<Rightarrow> step_data \<Rightarrow> metrics \<Rightarrow> metrics result" where
  "step_metrics cfg global_steps epoch timing n_gpus d ms =
     (let ms0 = dict_update ms [(''training/global_step'', real global_steps), (''training/epoch'', real epoch)]
      in rbind (compute_data_metrics d (s_use_critic cfg)) (\<lambda>data_ms.
         rbind (gdpo_reward_metrics cfg d) (\<lambda>gdpo_ms.
         rbind (compute_timing_metrics d timing) (\<lambda>timing_ms.
         rbind (meta_numbers (map_of (meta d) ''global_token_num'')) (\<lambda>token_num.
         rbind (compute_throughput_metrics token_num timing n_gpus) (\<lambda>throughput_ms.
           let ms1 = dict_update (dict_update (dict_update (dict_update ms0 data_ms) gdpo_ms) timing_ms) throughput_ms
           in rbind (compute_variance_proxy_metrics d (map_of ms1 ''actor/grad_norm'')) (\<lambda>proxies.
                Inr (dict_update ms1 (variance_proxy_dict proxies)))))))))"

end
