(* ===== verification/Train_Step_Properties.thy ===== *)
theory Train_Step_Properties
  imports Train_Step Trainer_Properties Actor_Accumulation
begin

text \<open>
  Properties of one training step: balancing the batch only reorders what the updates get, the responses to a
  prompt form a group, the bypass mode needs no log-probabilities of the actor, and what happens to the rewards
  under ReMax with a colocated reward model.
\<close>

section \<open>Reordered batches\<close>

text \<open>
  A batch whose rows are picked by \<open>idx\<close> and whose meta information agrees except for the two counts that
  \<open>fit\<close> writes in the order of the rows.
\<close>

definition count_keys :: "string list" where
  "count_keys = [''global_token_num'', ''images_seqlens'']"

definition plain_meta :: "('a, 'b, 'm) dataproto \<Rightarrow> 'm meta_value dict" where
  "plain_meta d = filter (\<lambda>(k, _). k \<notin> set count_keys) (meta d)"

definition reordered :: "nat list \<Rightarrow> ('a, 'b, 'm) dataproto \<Rightarrow> ('a, 'b, 'm) dataproto \<Rightarrow> bool" where
  "reordered idx d d' \<longleftrightarrow>
     batch d' = map_option (td_take idx) (batch d) \<and> non_tensor d' = dict_map (take_rows idx) (non_tensor d) \<and>
     plain_meta d' = plain_meta d"

definition permutes_rows :: "nat list \<Rightarrow> ('a, 'b, 'm) dataproto \<Rightarrow> bool" where
  "permutes_rows idx d \<longleftrightarrow> wf_dp d \<and> mset idx = mset [0..<dp_len d]"

text \<open>
  A remote call that treats the rows one by one: on a reordered batch it returns the reordered output and
  changes its state in the same way; its output is a container without the two counts.
\<close>

definition rowwise :: "'s remote \<Rightarrow> bool" where
  "rowwise f \<longleftrightarrow>
     (\<forall>d d' idx s r s'. permutes_rows idx d \<and> reordered idx d d' \<and> f d s = Inr (r, s') \<longrightarrow>
        wf_dp r \<and> set (keys (meta r)) \<inter> set count_keys = {} \<and> f d' s = Inr (dp_take idx r, s'))"

lemma reordered_eq: "reordered idx d d' \<Longrightarrow> d' = (dp_take idx d)\<lparr>meta := meta d'\<rparr>"
  by (simp add: reordered_def dp_take_def)

lemma reordered_take: "reordered idx d (dp_take idx d)"
  by (simp add: reordered_def plain_meta_def)

lemma map_of_filter_keys: "k \<notin> A \<Longrightarrow> map_of (filter (\<lambda>(k, _). k \<notin> A) m) k = map_of m k"
  by (induction m) auto

lemma filter_update_other: "k \<in> A \<Longrightarrow> filter (\<lambda>(k, _). k \<notin> A) (AList.update k v m) = filter (\<lambda>(k, _). k \<notin> A) m"
  by (induction m) auto

lemma filter_update_kept:
  "k \<notin> A \<Longrightarrow> filter (\<lambda>(k, _). k \<notin> A) (AList.update k v m) = AList.update k v (filter (\<lambda>(k, _). k \<notin> A) m)"
  by (induction m) auto

lemma map_of_plain_meta:
  assumes "plain_meta d' = plain_meta d" and "k \<notin> set count_keys"
  shows "map_of (meta d') k = map_of (meta d) k"
  using map_of_filter_keys [OF assms(2), of "meta d'"] map_of_filter_keys [OF assms(2), of "meta d"] assms(1)
  by (simp add: plain_meta_def)

lemma plain_meta_simps [simp]:
  "plain_meta (put_meta ''images_seqlens'' v d) = plain_meta d"
  "plain_meta (put_meta ''global_token_num'' v d) = plain_meta d"
  "plain_meta (dp_take idx d) = plain_meta d"
proof -
  have "''images_seqlens'' \<in> set count_keys" "''global_token_num'' \<in> set count_keys" by (simp_all add: count_keys_def)
  then show "plain_meta (put_meta ''images_seqlens'' v d) = plain_meta d" "plain_meta (put_meta ''global_token_num'' v d) = plain_meta d"
    by (simp_all add: plain_meta_def put_meta_def filter_update_other)
qed (simp add: plain_meta_def)

lemma tensor_meta [simp]: "tensor (d\<lparr>meta := m\<rparr>) k = tensor d k"
  by (simp add: tensor_def)

lemma has_tensor_meta [simp]: "has_tensor (d\<lparr>meta := m\<rparr>) k = has_tensor d k"
  by (simp add: has_tensor_def)

lemma has_tensor_iff: "has_tensor d k \<longleftrightarrow> (\<exists>v. tensor d k = Inr v)"
  by (auto simp: has_tensor_def tensor_def split: option.splits)

lemma reordered_tensor:
  assumes "reordered idx d d'" and "tensor d k = Inr v"
  shows "tensor d' k = Inr (take_rows idx v)"
proof -
  have "tensor d' k = tensor (dp_take idx d) k" by (subst reordered_eq [OF assms(1)]) simp
  then show ?thesis using tensor_take [OF assms(2)] by simp
qed

lemma reordered_has_tensor: "reordered idx d d' \<Longrightarrow> has_tensor d' k = has_tensor d k"
  by (auto simp: has_tensor_def reordered_def map_of_dict_map split: option.splits)

lemma permutes_sub: "permutes_rows idx d \<Longrightarrow> set idx \<subseteq> {..<dp_len d}"
  using mset_upt_perm(2) by (fastforce simp: permutes_rows_def)

lemma permutes_same_len: "permutes_rows idx d \<Longrightarrow> wf_dp u \<Longrightarrow> dp_len u = dp_len d \<Longrightarrow> permutes_rows idx u"
  by (simp add: permutes_rows_def)

lemma tensor_len: "wf_dp d \<Longrightarrow> tensor d k = Inr v \<Longrightarrow> length v = dp_len d"
  using tensor_batch wf_dpD(2) map_of_SomeD by metis

section \<open>Unions and new tensors\<close>

lemma union_dict_map: "union_dict d e = Inr u \<Longrightarrow> union_dict (dict_map g d) (dict_map g e) = Inr (dict_map g u)"
proof (induction d e rule: union_dict.induct)
  case (2 d k v e)
  show ?case
  proof (cases "map_of d k")
    case None
    then show ?thesis using 2 by (simp add: map_of_dict_map dict_map_update)
  next
    case (Some w)
    then show ?thesis using 2 by (simp add: map_of_dict_map dict_map_update ensure_eq_Inr)
  qed
qed simp

lemma union_dict_filtered:
  assumes "union_dict m e = Inr u" and "filter (\<lambda>(k, _). k \<notin> A) m' = filter (\<lambda>(k, _). k \<notin> A) m" and "set (keys e) \<inter> A = {}"
  shows "\<exists>u'. union_dict m' e = Inr u' \<and> filter (\<lambda>(k, _). k \<notin> A) u' = filter (\<lambda>(k, _). k \<notin> A) u"
  using assms
proof (induction m e arbitrary: m' rule: union_dict.induct)
  case (2 m k v e)
  have k: "k \<notin> A" and e: "set (keys e) \<inter> A = {}" using "2.prems"(3) by auto
  have look: "map_of m' k = map_of m k"
    using map_of_filter_keys [OF k, of m'] map_of_filter_keys [OF k, of m] "2.prems"(2) by simp
  have upd: "filter (\<lambda>(k, _). k \<notin> A) (AList.update k v m') = filter (\<lambda>(k, _). k \<notin> A) (AList.update k v m)"
    using "2.prems"(2) by (simp add: filter_update_kept [OF k])
  show ?case
  proof (cases "map_of m k")
    case None
    then have "union_dict (AList.update k v m) e = Inr u" using "2.prems"(1) by simp
    from "2.IH"(1) [OF None this upd e] show ?thesis using look None by simp
  next
    case (Some w)
    then have w: "w = v" "union_dict (AList.update k v m) e = Inr u" using "2.prems"(1) by (simp_all add: ensure_eq_Inr)
    from "2.IH"(2) [OF Some w(2) upd e] show ?thesis using look Some w(1) by simp
  qed
qed simp

lemma union_parts:
  assumes "dp_union d e = Inr r"
  obtains t1 t2 items n m where "batch d = Some t1" "batch e = Some t2" "td_size t1 = td_size t2"
    "union_dict (td_items t1) (td_items t2) = Inr items" "union_dict (non_tensor d) (non_tensor e) = Inr n"
    "union_dict (meta d) (meta e) = Inr m" "r = \<lparr>batch = Some (t1\<lparr>td_items := items\<rparr>), non_tensor = n, meta = m\<rparr>"
proof -
  obtain t1 t2 where t: "batch d = Some t1" "batch e = Some t2"
    using assms by (auto simp: dp_union_def split: option.splits)
  then show thesis using assms that by (auto simp: dp_union_def union_tensor_dict_def rbind_eq_Inr ensure_eq_Inr)
qed

lemma union_len: "dp_union d e = Inr r \<Longrightarrow> dp_len r = dp_len d"
  by (erule union_parts) (simp add: dp_len_def)

lemma union_dict_keeps: "union_dict d e = Inr u \<Longrightarrow> map_of d k = Some v \<Longrightarrow> map_of u k = Some v"
proof (induction d e rule: union_dict.induct)
  case (2 d j v' e)
  have "map_of (AList.update j v' d) k = Some v"
    using "2.prems" by (cases "j = k") (auto simp: update_conv' ensure_eq_Inr)
  then show ?case using 2 by (cases "map_of d j") (auto simp: ensure_eq_Inr)
qed simp

lemma union_tensor: "dp_union d e = Inr r \<Longrightarrow> tensor d k = Inr v \<Longrightarrow> tensor r k = Inr v"
proof (erule union_parts)
  fix t1 t2 items n m
  assume "tensor d k = Inr v" "batch d = Some t1" "union_dict (td_items t1) (td_items t2) = Inr items"
    "r = \<lparr>batch = Some (t1\<lparr>td_items := items\<rparr>), non_tensor = n, meta = m\<rparr>"
  then show "tensor r k = Inr v"
    using union_dict_keeps [of "td_items t1" "td_items t2" items k v] by (simp add: tensor_def split: option.splits)
qed

lemma union_reordered:
  assumes "dp_union d e = Inr u" and "reordered idx d d'" and "set (keys (meta e)) \<inter> set count_keys = {}"
  shows "\<exists>u'. dp_union d' (dp_take idx e) = Inr u' \<and> reordered idx u u'"
proof -
  obtain t1 t2 items n m where t: "batch d = Some t1" "batch e = Some t2" "td_size t1 = td_size t2"
      and i: "union_dict (td_items t1) (td_items t2) = Inr items" and n: "union_dict (non_tensor d) (non_tensor e) = Inr n"
      and m: "union_dict (meta d) (meta e) = Inr m"
      and u: "u = \<lparr>batch = Some (t1\<lparr>td_items := items\<rparr>), non_tensor = n, meta = m\<rparr>"
    using assms(1) by (rule union_parts)
  have d': "batch d' = Some (td_take idx t1)" "non_tensor d' = dict_map (take_rows idx) (non_tensor d)"
      "plain_meta d' = plain_meta d"
    using assms(2) t(1) by (simp_all add: reordered_def)
  obtain m' where m': "union_dict (meta d') (meta e) = Inr m'"
      "filter (\<lambda>(k, _). k \<notin> set count_keys) m' = filter (\<lambda>(k, _). k \<notin> set count_keys) m"
    using union_dict_filtered [OF m, of "set count_keys" "meta d'"] d'(3) assms(3) by (auto simp: plain_meta_def)
  let ?u' = "\<lparr>batch = Some (td_take idx (t1\<lparr>td_items := items\<rparr>)), non_tensor = dict_map (take_rows idx) n, meta = m'\<rparr>"
  have "dp_union d' (dp_take idx e) = Inr ?u'"
    using d'(1,2) t(2) union_dict_map [OF i, of "take_rows idx"] union_dict_map [OF n, of "take_rows idx"] m'(1)
    by (simp add: dp_union_def union_tensor_dict_def td_take_def)
  moreover have "reordered idx u ?u'" using m'(2) by (simp add: u reordered_def plain_meta_def)
  ultimately show ?thesis by blast
qed

lemma set_tensor_meta: "set_tensor k v d = Inr u \<Longrightarrow> set_tensor k v (d\<lparr>meta := m\<rparr>) = Inr (u\<lparr>meta := m\<rparr>)"
  by (cases d) (auto simp: set_tensor_def ensure_eq_Inr split: option.splits)

lemma set_tensor_reordered:
  assumes "set_tensor k v d = Inr u" and "reordered idx d d'"
  shows "\<exists>u'. set_tensor k (take_rows idx v) d' = Inr u' \<and> reordered idx u u'"
proof -
  have "set_tensor k (take_rows idx v) (dp_take idx d) = Inr (dp_take idx u)" by (rule set_tensor_take [OF assms(1)])
  then have run: "set_tensor k (take_rows idx v) d' = Inr ((dp_take idx u)\<lparr>meta := meta d'\<rparr>)"
    by (subst reordered_eq [OF assms(2)]) (rule set_tensor_meta)
  have "meta u = meta d" by (rule tensor_set_tensor(4) [OF assms(1)])
  then have "reordered idx u ((dp_take idx u)\<lparr>meta := meta d'\<rparr>)"
    using assms(2) by (simp add: reordered_def plain_meta_def)
  with run show ?thesis by blast
qed

section \<open>Every stage keeps the order\<close>

definition grows :: "step_data \<Rightarrow> step_data \<Rightarrow> bool" where
  "grows d u \<longleftrightarrow> wf_dp u \<and> dp_len u = dp_len d \<and> (\<forall>k. has_tensor d k \<longrightarrow> has_tensor u k)"

lemma grows_refl: "wf_dp d \<Longrightarrow> grows d d"
  by (simp add: grows_def)

lemma grows_trans: "grows d u \<Longrightarrow> grows u v \<Longrightarrow> grows d v"
  by (simp add: grows_def)

lemma grows_permutes: "grows d u \<Longrightarrow> permutes_rows idx d \<Longrightarrow> permutes_rows idx u"
  by (simp add: grows_def permutes_rows_def)

lemma grows_union: "wf_dp d \<Longrightarrow> wf_dp e \<Longrightarrow> dp_union d e = Inr u \<Longrightarrow> grows d u"
  unfolding grows_def has_tensor_iff by (blast intro: wf_union union_len union_tensor)

lemma grows_set_tensor: "wf_dp d \<Longrightarrow> set_tensor k v d = Inr u \<Longrightarrow> grows d u"
proof -
  assume d: "wf_dp d" and run: "set_tensor k v d = Inr u"
  note f = tensor_set_tensor [OF run]
  have "has_tensor u j" if "has_tensor d j" for j
    using that f(1) f(2) [of j] by (cases "j = k") (auto simp: has_tensor_iff)
  then show "grows d u" using f(5) f(6) [OF d] by (simp add: grows_def)
qed

lemma merge_call_if_False [simp]: "merge_call_if False f d s = Inr (d, s)"
  by (simp add: merge_call_if_def)

lemma merge_call_reordered:
  assumes "merge_call_if b f d s = Inr (u, s')" and "b \<Longrightarrow> rowwise f" and "permutes_rows idx d" and "reordered idx d d'"
  shows "grows d u" and "\<exists>u'. merge_call_if b f d' s = Inr (u', s') \<and> reordered idx u u'"
proof -
  have "grows d u \<and> (\<exists>u'. merge_call_if b f d' s = Inr (u', s') \<and> reordered idx u u')"
  proof (cases b)
    case False
    then show ?thesis using assms(1,3,4) by (auto simp: merge_call_if_def permutes_rows_def intro: grows_refl)
  next
    case True
    then obtain r where r: "f d s = Inr (r, s')" "dp_union d r = Inr u"
      using assms(1) by (auto simp: merge_call_if_def merge_call_def rbind_eq_Inr)
    have out: "wf_dp r" "set (keys (meta r)) \<inter> set count_keys = {}" "f d' s = Inr (dp_take idx r, s')"
      using assms(2) [OF True] assms(3,4) r(1) unfolding rowwise_def by blast+
    from union_reordered [OF r(2) assms(4) out(2)] show ?thesis
      using out(3) grows_union [OF _ out(1) r(2)] assms(3) True
      by (auto simp: merge_call_if_def merge_call_def permutes_rows_def)
  qed
  then show "grows d u" "\<exists>u'. merge_call_if b f d' s = Inr (u', s') \<and> reordered idx u u'" by blast+
qed

lemma put_meta_sel [simp]:
  "batch (put_meta k v d) = batch d" "non_tensor (put_meta k v d) = non_tensor d"
  "meta (put_meta k v d) = AList.update k v (meta d)"
  by (simp_all add: put_meta_def)

lemma put_meta_reads [simp]:
  "tensor (put_meta k v d) j = tensor d j" "has_tensor (put_meta k v d) j = has_tensor d j"
  by (simp_all add: tensor_def has_tensor_def)

lemma dp_len_put_meta [simp]: "dp_len (put_meta k v d) = dp_len d"
  by (cases "batch d") (simp_all add: dp_len_def)

lemma wf_put_meta: "wf_dp d \<Longrightarrow> wf_dp (put_meta k v d)"
  by (simp add: wf_dp_def keys_def distinct_update)

lemma count_tokens_reordered:
  assumes "count_tokens env d = Inr u" and "wf_dp d"
  shows "grows d u" and "\<exists>u'. count_tokens env (dp_take idx d) = Inr u' \<and> reordered idx u u'"
proof -
  obtain attention col where a: "tensor d ''attention_mask'' = Inr attention"
      and c: "map_of (non_tensor d) ''multi_modal_inputs'' = Some col"
      and u: "u = put_meta ''images_seqlens''
                  (ListV (map (\<lambda>x. Atom (MetaNumber x)) (concat (List.map_filter (e_images env) col))))
             (put_meta ''global_token_num'' (ListV (map (\<lambda>row. Atom (MetaNumber (sum_list row))) attention)) d)"
    using assms(1) by (auto simp: count_tokens_def rbind_eq_Inr split: option.splits)
  show "grows d u" unfolding u grows_def by (simp add: assms(2) wf_put_meta)
  show "\<exists>u'. count_tokens env (dp_take idx d) = Inr u' \<and> reordered idx u u'"
    using tensor_take [OF a, of idx] c unfolding u
    by (simp add: count_tokens_def map_of_dict_map reordered_def)
qed

lemma columns_take:
  "mapM_result (\<lambda>k. case map_of e k of None \<Rightarrow> Inl KeyError | Some c \<Rightarrow> Inr (k, c)) ks = Inr info \<Longrightarrow>
   mapM_result (\<lambda>k. case map_of (dict_map g e) k of None \<Rightarrow> Inl KeyError | Some c \<Rightarrow> Inr (k, c)) ks = Inr (dict_map g info)"
  by (induction ks arbitrary: info) (auto simp: rbind_eq_Inr map_of_dict_map split: option.splits)

lemma extract_reordered:
  assumes "extract_reward_columns d = Inr (rewards, info)" and "reordered idx d d'"
  shows "extract_reward_columns d' = Inr (take_rows idx rewards, dict_map (take_rows idx) info)"
proof -
  have key: "map_of (meta d') ''reward_extra_keys'' = map_of (meta d) ''reward_extra_keys''"
    using assms(2) by (intro map_of_plain_meta) (simp_all add: reordered_def count_keys_def)
  obtain ks where t: "tensor d ''rm_scores'' = Inr rewards"
      and ks: "meta_texts (map_of (meta d) ''reward_extra_keys'') = Inr ks"
      and cols: "mapM_result (\<lambda>k. case map_of (non_tensor d) k of None \<Rightarrow> Inl KeyError | Some c \<Rightarrow> Inr (k, c)) ks = Inr info"
    using assms(1) by (auto simp: extract_reward_columns_def rbind_eq_Inr)
  show ?thesis
    using reordered_tensor [OF assms(2) t] ks columns_take [OF cols, of "take_rows idx"] assms(2)
    by (simp add: extract_reward_columns_def key reordered_def)
qed

lemma reward_stage_reordered:
  assumes "reward_stage env cfg d s = Inr (u, rewards, info, s')" and "s_use_rm cfg \<Longrightarrow> rowwise (e_reward_model env)"
    and "permutes_rows idx d" and "reordered idx d d'"
  shows "grows d u" and "\<exists>u'. reward_stage env cfg d' s = Inr (u', take_rows idx rewards, dict_map (take_rows idx) info, s') \<and>
    reordered idx u u'"
proof -
  have same: "has_tensor d' ''rm_scores'' = has_tensor d ''rm_scores''" by (rule reordered_has_tensor [OF assms(4)])
  from assms(1) have m: "merge_call_if (s_use_rm cfg \<and> \<not> has_tensor d ''rm_scores'') (e_reward_model env) d s = Inr (u, s')"
      and x: "extract_reward_columns u = Inr (rewards, info)"
    by (auto simp: reward_stage_def rbind_eq_Inr)
  from merge_call_reordered [OF m assms(2) assms(3,4)] obtain u' where g: "grows d u"
      and u': "merge_call_if (s_use_rm cfg \<and> \<not> has_tensor d ''rm_scores'') (e_reward_model env) d' s = Inr (u', s')" "reordered idx u u'"
    by blast
  show "grows d u" by (rule g)
  show "\<exists>u'. reward_stage env cfg d' s = Inr (u', take_rows idx rewards, dict_map (take_rows idx) info, s') \<and> reordered idx u u'"
    using u' extract_reordered [OF x u'(2)] by (simp add: reward_stage_def same)
qed

section \<open>Log-probabilities and advantages of a reordered batch\<close>

lemma delete_dict_map: "AList.delete k (dict_map g m) = dict_map g (AList.delete k m)"
  by (induction m) auto

lemma drop_tensor_take: "drop_tensor k (dp_take idx d) = dp_take idx (drop_tensor k d)"
  by (cases "batch d") (simp_all add: drop_tensor_def dp_take_def td_take_def delete_dict_map)

lemma drop_tensor_meta [simp]: "meta (drop_tensor k d) = meta d"
  by (simp add: drop_tensor_def)

lemma delete_subset: "set (AList.delete k m) \<subseteq> set m"
  by (induction m) auto

lemma wf_drop_tensor:
  assumes "wf_dp d"
  shows "wf_dp (drop_tensor k d)"
proof (cases "batch d")
  case None
  then have "drop_tensor k d = d" by (cases d) (simp add: drop_tensor_def)
  then show ?thesis using assms by simp
next
  case (Some td)
  have len: "dp_len (drop_tensor k d) = dp_len d" using Some by (simp add: drop_tensor_def dp_len_def)
  show ?thesis
  proof (rule wf_dpI)
    fix td' assume "batch (drop_tensor k d) = Some td'"
    then have td': "td' = td\<lparr>td_items := AList.delete k (td_items td)\<rparr>" using Some by (simp add: drop_tensor_def)
    show "distinct (keys (td_items td'))"
      using wf_dpD(1) [OF assms Some] by (simp add: td' keys_def distinct_delete)
    show "length v = td_size td'" if "(j, v) \<in> set (td_items td')" for j v
      using that delete_subset [of k "td_items td"] wf_dpD(2) [OF assms Some] Some by (auto simp: td' dp_len_def)
  qed (use wf_dpD(3-5) [OF assms] len in \<open>simp_all add: drop_tensor_def\<close>)
qed

text \<open>Aggregating with the default counts fails only for an unknown mode, whatever the loss and the mask.\<close>

lemma agg_loss_defined:
  "agg_loss A M mode (default_info\<lparr>loss_scale_factor := f\<rparr>) = Inr x \<Longrightarrow>
   \<exists>y. agg_loss B N mode (default_info\<lparr>loss_scale_factor := f\<rparr>) = Inr y"
  by (auto simp: agg_loss_def default_info_def required_count_def Let_def split: if_splits)

lemma old_log_prob_grows:
  assumes "old_log_prob_stage env cfg pl d s = Inr (u, ms, pl', s')" and "s_rollout_corr cfg = None"
    and "rowwise (e_log_prob env)" and "wf_dp d"
  shows "grows d u"
proof -
  have nb: "\<not> bypasses cfg" by (simp add: bypasses_def assms(2))
  obtain old where old: "e_log_prob env d s = Inr (old, s')" and u: "dp_union d (drop_tensor ''entropys'' old) = Inr u"
    using assms(1) by (auto simp: old_log_prob_stage_def nb recompute_log_probs_def rbind_eq_Inr ensure_eq_Inr)
  have "permutes_rows [0..<dp_len d] d" using assms(4) by (simp add: permutes_rows_def)
  then have "wf_dp old" using assms(3) old reordered_take unfolding rowwise_def by blast
  then show ?thesis using grows_union [OF assms(4) wf_drop_tensor u] by blast
qed

lemma old_log_prob_reordered:
  assumes "old_log_prob_stage env cfg pl d s = Inr (u, ms, pl', s')" and "s_rollout_corr cfg = None"
    and "rowwise (e_log_prob env)" and "permutes_rows idx d" and "reordered idx d d'" and "\<not> has_tensor u ''rollout_log_probs''"
  shows "pl' = pl"
    and "\<exists>u' ms'. old_log_prob_stage env cfg pl d' s = Inr (u', ms', pl, s') \<and> reordered idx u u'"
proof -
  have nb: "\<not> bypasses cfg" by (simp add: bypasses_def assms(2))
  from assms(1) have run: "recompute_log_probs env cfg d s = Inr (u, ms, s')" and pl: "pl' = pl"
      and has: "has_tensor u ''old_log_probs''"
    by (auto simp: old_log_prob_stage_def nb rbind_eq_Inr ensure_eq_Inr)
  obtain old entropys M agg where old: "e_log_prob env d s = Inr (old, s')" and e: "tensor old ''entropys'' = Inr entropys"
      and m: "tensor d ''response_mask'' = Inr M"
      and agg: "agg_loss entropys M (s_agg_mode cfg) (default_info\<lparr>loss_scale_factor := s_loss_scale_factor cfg\<rparr>) = Inr agg"
      and routed: "\<not> (has_tensor d ''routed_experts'' \<and> has_tensor old ''routed_experts'')"
      and u: "dp_union d (drop_tensor ''entropys'' old) = Inr u"
    using run by (auto simp: recompute_log_probs_def rbind_eq_Inr ensure_eq_Inr)
  have out: "wf_dp old" "set (keys (meta old)) \<inter> set count_keys = {}" "e_log_prob env d' s = Inr (dp_take idx old, s')"
    using assms(3-5) old unfolding rowwise_def by blast+
  obtain u' where u': "dp_union d' (dp_take idx (drop_tensor ''entropys'' old)) = Inr u'" "reordered idx u u'"
    using union_reordered [OF u assms(5)] out(2) by auto
  obtain agg' where agg': "agg_loss (take_rows idx entropys) (take_rows idx M) (s_agg_mode cfg)
      (default_info\<lparr>loss_scale_factor := s_loss_scale_factor cfg\<rparr>) = Inr agg'"
    using agg_loss_defined [OF agg] by blast
  have r1: "has_tensor d' ''routed_experts'' = has_tensor d ''routed_experts''" by (rule reordered_has_tensor [OF assms(5)])
  have r2: "has_tensor (dp_take idx old) ''routed_experts'' = has_tensor old ''routed_experts''"
    by (rule reordered_has_tensor [OF reordered_take])
  have r3: "\<not> has_tensor u' ''rollout_log_probs''" using assms(6) reordered_has_tensor [OF u'(2)] by simp
  have r4: "has_tensor u' ''old_log_probs''" using has reordered_has_tensor [OF u'(2)] by simp
  have "\<exists>ms'. recompute_log_probs env cfg d' s = Inr (u', ms', s')"
    unfolding recompute_log_probs_def out(3) rbind_simps prod.case tensor_take [OF e] reordered_tensor [OF assms(5) m] agg' r1 r2
      drop_tensor_take u'(1)
    using routed r3 by simp
  then show "\<exists>u' ms'. old_log_prob_stage env cfg pl d' s = Inr (u', ms', pl, s') \<and> reordered idx u u'"
    using r4 u'(2) by (auto simp: old_log_prob_stage_def nb)
  show "pl' = pl" by (rule pl)
qed

lemma evaluated_parts:
  assumes "evaluated_batch env cfg t d = Inr (u, ms, t')" and "\<not> s_use_critic cfg"
  obtains u1 pl s1 s2 where "old_log_prob_stage env cfg (t_policy_loss t) d (t_world t) = Inr (u1, ms, pl, s1)"
    "merge_call_if (s_use_ref cfg) (e_ref_log_prob env) u1 s1 = Inr (u, s2)" "t' = t\<lparr>t_world := s2, t_policy_loss := pl\<rparr>"
  using assms by (auto simp: evaluated_batch_def rbind_eq_Inr)

lemma evaluated_grows:
  assumes "evaluated_batch env cfg t d = Inr (u, ms, t')" and "s_rollout_corr cfg = None" and "\<not> s_use_critic cfg"
    and "rowwise (e_log_prob env)" and "s_use_ref cfg \<Longrightarrow> rowwise (e_ref_log_prob env)" and "wf_dp d"
  shows "grows d u"
proof -
  obtain u1 pl s1 s2 where old: "old_log_prob_stage env cfg (t_policy_loss t) d (t_world t) = Inr (u1, ms, pl, s1)"
      and ref: "merge_call_if (s_use_ref cfg) (e_ref_log_prob env) u1 s1 = Inr (u, s2)"
    using assms(1,3) by (rule evaluated_parts)
  have g: "grows d u1" by (rule old_log_prob_grows [OF old assms(2,4,6)])
  then have "permutes_rows [0..<dp_len u1] u1" by (simp add: permutes_rows_def grows_def)
  from merge_call_reordered(1) [OF ref assms(5) this reordered_take] show ?thesis by (rule grows_trans [OF g])
qed

lemma evaluated_reordered:
  assumes "evaluated_batch env cfg t d = Inr (u, ms, t')" and "s_rollout_corr cfg = None" and "\<not> s_use_critic cfg"
    and "rowwise (e_log_prob env)" and "s_use_ref cfg \<Longrightarrow> rowwise (e_ref_log_prob env)"
    and "permutes_rows idx d" and "reordered idx d d'" and "\<not> has_tensor u ''rollout_log_probs''"
  shows "\<exists>u' ms'. evaluated_batch env cfg (t\<lparr>t_actor_wg := wg\<rparr>) d' = Inr (u', ms', t'\<lparr>t_actor_wg := wg\<rparr>) \<and> reordered idx u u'"
proof -
  obtain u1 pl s1 s2 where old: "old_log_prob_stage env cfg (t_policy_loss t) d (t_world t) = Inr (u1, ms, pl, s1)"
      and ref: "merge_call_if (s_use_ref cfg) (e_ref_log_prob env) u1 s1 = Inr (u, s2)"
      and t': "t' = t\<lparr>t_world := s2, t_policy_loss := pl\<rparr>"
    using assms(1,3) by (rule evaluated_parts)
  have u1: "\<not> has_tensor u1 ''rollout_log_probs''"
    using assms(8) ref union_tensor by (fastforce simp: merge_call_if_def merge_call_def rbind_eq_Inr has_tensor_iff split: if_splits)
  have "grows d u1" using assms(6) by (intro old_log_prob_grows [OF old assms(2,4)]) (simp add: permutes_rows_def)
  note p = grows_permutes [OF this assms(6)]
  note o = old_log_prob_reordered [OF old assms(2,4,6,7) u1]
  obtain u1' ms' where u1': "old_log_prob_stage env cfg (t_policy_loss t) d' (t_world t) = Inr (u1', ms', t_policy_loss t, s1)"
      "reordered idx u1 u1'" using o(2) by blast
  obtain u' where u': "merge_call_if (s_use_ref cfg) (e_ref_log_prob env) u1' s1 = Inr (u', s2)" "reordered idx u u'"
    using merge_call_reordered(2) [OF ref assms(5) p u1'(2)] by blast
  have "evaluated_batch env cfg (t\<lparr>t_actor_wg := wg\<rparr>) d' = Inr (u', ms', t'\<lparr>t_actor_wg := wg\<rparr>)"
    using u1'(1) u'(1) assms(3) by (simp add: evaluated_batch_def t' o(1))
  then show ?thesis using u'(2) by blast
qed

definition columns_fit :: "entry list dict \<Rightarrow> step_data \<Rightarrow> bool" where
  "columns_fit info d \<longleftrightarrow> (\<forall>(k, c)\<in>set info. length c = dp_len d)"

lemma dict_update_Cons: "dict_update d ((k, v) # e) = dict_update (AList.update k v d) e"
  by (simp add: dict_update_def)

lemma dict_update_Nil [simp]: "dict_update d [] = d"
  by (simp add: dict_update_def)

lemma dict_update_map: "dict_update (dict_map g d) (dict_map g e) = dict_map g (dict_update d e)"
proof (induction e arbitrary: d)
  case (Cons p e)
  obtain k v where p: "p = (k, v)" by (cases p)
  show ?case using Cons [of "AList.update k v d"] by (simp add: p dict_update_Cons dict_map_update)
qed simp

lemma dict_update_facts:
  assumes "distinct (keys d)" and "\<forall>(k, v)\<in>set d. P v" and "\<forall>(k, v)\<in>set e. P v"
  shows "distinct (keys (dict_update d e)) \<and> (\<forall>(k, v)\<in>set (dict_update d e). P v)"
  using assms
proof (induction e arbitrary: d)
  case (Cons p e)
  obtain k v where p: "p = (k, v)" by (cases p)
  have "\<forall>(j, w)\<in>set (AList.update k v d). P w"
    using Cons.prems(2,3) update_elems [of _ _ k v d] p by fastforce
  moreover have "distinct (keys (AList.update k v d))" using Cons.prems(1) by (simp add: keys_def distinct_update)
  ultimately show ?case using Cons.IH [of "AList.update k v d"] Cons.prems(3) by (simp add: p dict_update_Cons)
qed simp

lemma put_columns_sel [simp]:
  "batch (put_columns info d) = batch d" "meta (put_columns info d) = meta d"
  "non_tensor (put_columns info d) = dict_update (non_tensor d) info"
  "tensor (put_columns info d) k = tensor d k" "has_tensor (put_columns info d) k = has_tensor d k"
  by (simp_all add: put_columns_def tensor_def has_tensor_def)

lemma grows_put_columns:
  assumes "wf_dp d" and "batch d \<noteq> None" and "columns_fit info d"
  shows "grows d (put_columns info d)"
proof -
  have len: "dp_len (put_columns info d) = dp_len d" using assms(2) by (auto simp: dp_len_def)
  have "distinct (keys (dict_update (non_tensor d) info)) \<and> (\<forall>(k, v)\<in>set (dict_update (non_tensor d) info). length v = dp_len d)"
    using assms(3) wf_dpD(3,4) [OF assms(1)] by (intro dict_update_facts) (auto simp: columns_fit_def)
  then show ?thesis using assms(1) by (simp add: grows_def len wf_dp_def)
qed

lemma put_columns_reordered: "reordered idx d d' \<Longrightarrow> reordered idx (put_columns info d) (put_columns (dict_map (take_rows idx) info) d')"
  by (simp add: reordered_def dict_update_map plain_meta_def)

lemma reordered_len: "permutes_rows idx d \<Longrightarrow> batch d \<noteq> None \<Longrightarrow> reordered idx d d' \<Longrightarrow> dp_len d' = dp_len d"
  using mset_eq_length [of idx "[0..<dp_len d]"] by (auto simp: permutes_rows_def reordered_def dp_len_def)

lemma tensor_batch_some: "tensor d k = Inr v \<Longrightarrow> batch d \<noteq> None"
  using tensor_batch by fastforce

text \<open>The penalty is computed token by token, and its mean over the samples does not depend on their order.\<close>

lemma apply_kl_penalty_reordered:
  assumes "apply_kl_penalty d ctrl nm = Inr (u, ctrl', ms)" and "permutes_rows idx d" and "reordered idx d d'"
  shows "grows d u" and "\<exists>u'. apply_kl_penalty d' ctrl nm = Inr (u', ctrl', ms) \<and> reordered idx u u'"
proof -
  let ?n = "dp_len d"
  obtain M S Q R raw where t: "tensor d ''response_mask'' = Inr M" "tensor d ''token_level_scores'' = Inr S"
      "tensor d ''old_log_probs'' = Inr Q" "tensor d ''ref_log_prob'' = Inr R" and raw: "kl_penalty_mat Q R nm = Inr raw"
      and u: "set_tensor ''token_level_rewards'' (ew2 (\<lambda>s k. s - kl_coef ctrl * k) S (ew2 (*) raw M)) d = Inr u"
      and c: "ctrl' = kl_update (vec_mean (map2 row_masked_mean (ew2 (*) raw M) M)) ?n ctrl"
      and ms: "ms = \<lparr>reward_kl_penalty = vec_mean (map2 row_masked_mean (ew2 (*) raw M) M), reward_kl_penalty_coeff = kl_coef ctrl\<rparr>"
    using assms(1) by (auto simp: apply_kl_penalty_def rbind_eq_Inr Let_def)
  have wf: "wf_dp d" and perm: "mset idx = mset [0..<?n]" using assms(2) by (simp_all add: permutes_rows_def)
  note sub = permutes_sub [OF assms(2)]
  have lens: "length M = ?n" "length S = ?n" "length Q = ?n" "length R = ?n" using t tensor_len [OF wf] by blast+
  have n: "length raw = ?n" using kl_penalty_mat_length [OF raw] lens by simp
  have kld: "ew2 (*) (take_rows idx raw) (take_rows idx M) = take_rows idx (ew2 (*) raw M)"
    using sub lens n by (intro ew2_take) simp_all
  have kn: "length (ew2 (*) raw M) = ?n" using lens n by (simp add: ew2_def)
  have raw': "kl_penalty_mat (take_rows idx Q) (take_rows idx R) nm = Inr (take_rows idx raw)"
    using sub lens by (intro kl_penalty_mat_take [OF raw]) simp_all
  have rewards: "ew2 (\<lambda>s k. s - kl_coef ctrl * k) (take_rows idx S) (take_rows idx (ew2 (*) raw M)) =
      take_rows idx (ew2 (\<lambda>s k. s - kl_coef ctrl * k) S (ew2 (*) raw M))"
    using sub lens kn by (intro ew2_take) simp_all
  have means: "map2 row_masked_mean (take_rows idx (ew2 (*) raw M)) (take_rows idx M) =
      take_rows idx (map2 row_masked_mean (ew2 (*) raw M) M)"
    using sub lens kn by (intro take_rows_map2 [symmetric]) simp_all
  have same: "mset (take_rows idx (map2 row_masked_mean (ew2 (*) raw M) M)) = mset (map2 row_masked_mean (ew2 (*) raw M) M)"
    using perm lens kn by (intro mset_take_perm) simp
  have mean: "vec_mean (take_rows idx (map2 row_masked_mean (ew2 (*) raw M) M)) = vec_mean (map2 row_masked_mean (ew2 (*) raw M) M)"
    using mset_eq_length [OF same] same sum_mset_sum_list unfolding vec_mean_def by metis
  have n': "dp_len d' = ?n" by (rule reordered_len [OF assms(2) tensor_batch_some [OF t(1)] assms(3)])
  obtain u' where u': "set_tensor ''token_level_rewards'' (take_rows idx (ew2 (\<lambda>s k. s - kl_coef ctrl * k) S (ew2 (*) raw M))) d' = Inr u'"
      "reordered idx u u'"
    using set_tensor_reordered [OF u assms(3)] by blast
  have "apply_kl_penalty d' ctrl nm = Inr (u', ctrl', ms)"
    unfolding apply_kl_penalty_def t [THEN reordered_tensor [OF assms(3)]] rbind_simps raw' Let_def kld rewards means mean u'(1) n'
    by (simp add: c ms)
  then show "\<exists>u'. apply_kl_penalty d' ctrl nm = Inr (u', ctrl', ms) \<and> reordered idx u u'" using u'(2) by blast
  show "grows d u" by (rule grows_set_tensor [OF wf u])
qed

lemma token_rewards_reordered:
  assumes "token_rewards cfg ctrl d = Inr (u, ctrl', ms)" and "permutes_rows idx d" and "reordered idx d d'"
  shows "grows d u" and "\<exists>u'. token_rewards cfg ctrl d' = Inr (u', ctrl', ms) \<and> reordered idx u u'"
proof -
  have "grows d u \<and> (\<exists>u'. token_rewards cfg ctrl d' = Inr (u', ctrl', ms) \<and> reordered idx u u')"
  proof (cases "s_kl_in_reward cfg")
    case True
    then obtain km where "apply_kl_penalty d ctrl (s_kl_penalty cfg) = Inr (u, ctrl', km)" "ms = kl_metric_dict km"
      using assms(1) by (auto simp: token_rewards_def rbind_eq_Inr)
    then show ?thesis using apply_kl_penalty_reordered [OF _ assms(2,3)] True by (fastforce simp: token_rewards_def)
  next
    case False
    then obtain S where S: "tensor d ''token_level_scores'' = Inr S" "set_tensor ''token_level_rewards'' S d = Inr u"
        "ctrl' = ctrl" "ms = []"
      using assms(1) by (auto simp: token_rewards_def rbind_eq_Inr)
    then show ?thesis
      using reordered_tensor [OF assms(3) S(1)] set_tensor_reordered [OF S(2) assms(3)] grows_set_tensor [OF _ S(2)] assms(2) False
      by (auto simp: token_rewards_def permutes_rows_def)
  qed
  then show "grows d u" "\<exists>u'. token_rewards cfg ctrl d' = Inr (u', ctrl', ms) \<and> reordered idx u u'" by blast+
qed

lemma compute_advantage_meta:
  fixes d :: step_data
  assumes "compute_advantage top1 parse_int multinomial d ''grpo'' gamma lam by_std cfg = Inr r" and "has_tensor d ''response_mask''"
  shows "compute_advantage top1 parse_int multinomial (d\<lparr>meta := m\<rparr>) ''grpo'' gamma lam by_std cfg = Inr (r\<lparr>meta := m\<rparr>)"
    and "meta r = meta d" and "wf_dp d \<Longrightarrow> grows d r"
proof -
  have mask: "with_response_mask d = Inr d" "with_response_mask (d\<lparr>meta := m\<rparr>) = Inr (d\<lparr>meta := m\<rparr>)"
    using assms(2) by (simp_all add: with_response_mask_def)
  obtain msk rewards us res where t: "tensor d ''response_mask'' = Inr msk" "tensor d ''token_level_rewards'' = Inr rewards"
      "uids_of d = Some us" and res: "compute_grpo_outcome_advantage rewards msk us (1 / 10 ^ 6) by_std = Inr res"
      and r: "store_advantages res d = Inr r"
    using assms(1) unfolding compute_advantage_def mask
    by (auto simp: rbind_eq_Inr split: option.splits)
  obtain x where x: "set_tensor ''advantages'' (fst res) d = Inr x" "set_tensor ''returns'' (snd res) x = Inr r"
    using r by (auto simp: store_advantages_def rbind_eq_Inr)
  have uids: "uids_of (d\<lparr>meta := m\<rparr>) = Some us" using t(3) by (simp add: uids_of_def)
  show "compute_advantage top1 parse_int multinomial (d\<lparr>meta := m\<rparr>) ''grpo'' gamma lam by_std cfg = Inr (r\<lparr>meta := m\<rparr>)"
    using set_tensor_meta [OF x(1), of m] set_tensor_meta [OF x(2), of m] res t(1,2)
    unfolding compute_advantage_def mask by (simp add: store_advantages_def uids)
  show "meta r = meta d" using tensor_set_tensor(4) [OF x(1)] tensor_set_tensor(4) [OF x(2)] by simp
  show "grows d r" if "wf_dp d"
    using grows_trans [OF grows_set_tensor [OF that x(1)]] grows_set_tensor [OF _ x(2)] tensor_set_tensor(6) [OF x(1) that] by blast
qed

lemma compute_advantage_reordered:
  fixes d :: step_data
  assumes "compute_advantage top1 parse_int multinomial d ''grpo'' gamma lam by_std cfg = Inr r" and "has_tensor d ''response_mask''"
    and "permutes_rows idx d" and "reordered idx d d'"
  shows "\<exists>r'. compute_advantage top1 parse_int multinomial d' ''grpo'' gamma lam by_std cfg = Inr r' \<and> reordered idx r r'"
proof -
  have p: "wf_dp d" "mset idx = mset [0..<dp_len d]" using assms(3) by (simp_all add: permutes_rows_def)
  have taken: "compute_advantage top1 parse_int multinomial (dp_take idx d) ''grpo'' gamma lam by_std cfg = Inr (dp_take idx r)"
    by (rule grpo_order_independent [OF p assms(2,1)])
  have "has_tensor (dp_take idx d) ''response_mask''"
    using assms(2) reordered_has_tensor [OF reordered_take] by blast
  then have "compute_advantage top1 parse_int multinomial d' ''grpo'' gamma lam by_std cfg = Inr ((dp_take idx r)\<lparr>meta := meta d'\<rparr>)"
    using compute_advantage_meta(1) [OF taken, of "meta d'"] reordered_eq [OF assms(4)] by simp
  moreover have "reordered idx r ((dp_take idx r)\<lparr>meta := meta d'\<rparr>)"
    using assms(4) compute_advantage_meta(2) [OF assms(1,2)] by (simp add: reordered_def plain_meta_def)
  ultimately show ?thesis by blast
qed

lemma plain_stages:
  "s_distillation cfg = None \<Longrightarrow> teacher_stage env cfg pl d rewards info = Inr (d, info, [], False)"
  "log_ratio_stage env wg False d s = Inr (wg, s)"
  "decoupled_correction r None d = Inr (d, [])"
  by (simp_all add: teacher_stage_def log_ratio_stage_def decoupled_correction_def)

lemma advantage_stage_reordered:
  assumes run: "advantage_stage env cfg t d rewards info = Inr (u, ms, t')"
    and plain: "s_rollout_corr cfg = None" "s_distillation cfg = None" "s_adv_estimator cfg = ''grpo''"
    and perm: "permutes_rows idx d" and re: "reordered idx d d'" and mask: "has_tensor d ''response_mask''"
    and fit: "columns_fit info d"
  shows "grows d u" and "\<exists>u' ms'. advantage_stage env cfg (t\<lparr>t_actor_wg := wg\<rparr>) d' (take_rows idx rewards) (dict_map (take_rows idx) info) =
      Inr (u', ms', t'\<lparr>t_actor_wg := wg\<rparr>) \<and> reordered idx u u'"
proof -
  have wf: "wf_dp d" using perm by (simp add: permutes_rows_def)
  note stages = plain_stages(1) [OF plain(2)] plain_stages(2)
  obtain d1 where s: "set_tensor ''token_level_scores'' rewards d = Inr d1"
    using run by (cases "set_tensor ''token_level_scores'' rewards d") (simp_all add: advantage_stage_def)
  obtain d3 ctrl kl where k: "token_rewards cfg (t_kl_ctrl t) (put_columns info d1) = Inr (d3, ctrl, kl)"
    using run by (cases "token_rewards cfg (t_kl_ctrl t) (put_columns info d1)") (auto simp: advantage_stage_def s stages)
  have r: "rbind (compute_advantage (e_top1 env) (e_parse_int env) (e_multinomial env) d3 ''grpo'' (s_gamma cfg) (s_lam cfg)
        (s_norm_by_std cfg) (s_algo cfg)) (\<lambda>d5. Inr (d5, dict_update (dict_update [] kl) [],
            t\<lparr>t_world := t_world t, t_kl_ctrl := ctrl, t_actor_wg := t_actor_wg t\<rparr>)) = Inr (u, ms, t')"
    using run by (simp only: advantage_stage_def s stages k plain rbind_simps prod.case plain_stages(3))
  then have a: "compute_advantage (e_top1 env) (e_parse_int env) (e_multinomial env) d3 ''grpo'' (s_gamma cfg) (s_lam cfg)
        (s_norm_by_std cfg) (s_algo cfg) = Inr u"
    by (cases "compute_advantage (e_top1 env) (e_parse_int env) (e_multinomial env) d3 ''grpo'' (s_gamma cfg) (s_lam cfg)
        (s_norm_by_std cfg) (s_algo cfg)") simp_all
  have "t\<lparr>t_world := t_world t, t_kl_ctrl := ctrl, t_actor_wg := t_actor_wg t\<rparr> = t'" using r by (simp only: a rbind_simps sum.inject prod.inject)
  then have t': "t' = t\<lparr>t_kl_ctrl := ctrl\<rparr>" by (cases t) simp
  obtain d1' where d1': "set_tensor ''token_level_scores'' (take_rows idx rewards) d' = Inr d1'" "reordered idx d1 d1'"
    using set_tensor_reordered [OF s re] by blast
  have g1: "grows d d1" by (rule grows_set_tensor [OF wf s])
  have g2: "grows d1 (put_columns info d1)"
    using g1 fit tensor_batch_some [OF tensor_set_tensor(1) [OF s]] by (intro grows_put_columns) (simp_all add: grows_def columns_fit_def)
  note g = grows_trans [OF g1 g2]
  note kr = token_rewards_reordered [OF k grows_permutes [OF g perm] put_columns_reordered [OF d1'(2)]]
  obtain d3' where d3': "token_rewards cfg (t_kl_ctrl t) (put_columns (dict_map (take_rows idx) info) d1') = Inr (d3', ctrl, kl)"
      "reordered idx d3 d3'" using kr(2) by blast
  have g3: "grows d d3" by (rule grows_trans [OF g kr(1)])
  have mask3: "has_tensor d3 ''response_mask''" using g3 mask by (simp add: grows_def)
  obtain u' where u': "compute_advantage (e_top1 env) (e_parse_int env) (e_multinomial env) d3' ''grpo'' (s_gamma cfg) (s_lam cfg)
        (s_norm_by_std cfg) (s_algo cfg) = Inr u'" "reordered idx u u'"
    using compute_advantage_reordered [OF a mask3 grows_permutes [OF g3 perm] d3'(2)] by blast
  have "wf_dp d3" using g3 by (simp add: grows_def)
  then show "grows d u" by (rule grows_trans [OF g3 compute_advantage_meta(3) [OF a mask3]])
  have sel: "t_policy_loss (t\<lparr>t_actor_wg := wg\<rparr>) = t_policy_loss t" "t_actor_wg (t\<lparr>t_actor_wg := wg\<rparr>) = wg"
      "t_kl_ctrl (t\<lparr>t_actor_wg := wg\<rparr>) = t_kl_ctrl t" "t_world (t\<lparr>t_actor_wg := wg\<rparr>) = t_world t" by simp_all
  have upd: "t\<lparr>t_actor_wg := wg, t_world := t_world t, t_kl_ctrl := ctrl, t_actor_wg := wg\<rparr> = t'\<lparr>t_actor_wg := wg\<rparr>"
    unfolding t' by (cases t) simp
  have "advantage_stage env cfg (t\<lparr>t_actor_wg := wg\<rparr>) d' (take_rows idx rewards) (dict_map (take_rows idx) info) =
      Inr (u', dict_update (dict_update [] kl) [], t'\<lparr>t_actor_wg := wg\<rparr>)"
    by (simp only: advantage_stage_def d1'(1) rbind_simps stages prod.case plain plain_stages(3) trainer.select_convs sel d3'(1) u'(1) upd)
  then show "\<exists>u' ms'. advantage_stage env cfg (t\<lparr>t_actor_wg := wg\<rparr>) d' (take_rows idx rewards) (dict_map (take_rows idx) info) =
      Inr (u', ms', t'\<lparr>t_actor_wg := wg\<rparr>) \<and> reordered idx u u'" using u'(2) by blast
qed

section \<open>The whole step\<close>

lemma stages_ignore_balance [simp]:
  "generate_stage env (cfg\<lparr>s_balance := x\<rparr>) = generate_stage env cfg"
  "reward_stage env (cfg\<lparr>s_balance := x\<rparr>) = reward_stage env cfg"
  "evaluated_batch env (cfg\<lparr>s_balance := x\<rparr>) = evaluated_batch env cfg"
  "advantage_stage env (cfg\<lparr>s_balance := x\<rparr>) = advantage_stage env cfg"
  by (intro ext, simp add: generate_stage_def assign_uids_def rollout_def remax_stage_def remax_baseline_def assemble_def
      reward_stage_def evaluated_batch_def old_log_prob_stage_def recompute_log_probs_def bypasses_def
      advantage_stage_def teacher_stage_def teacher_inputs_def token_rewards_def cong: if_cong option.case_cong)+

lemma with_response_mask_has: "with_response_mask d = Inr u \<Longrightarrow> has_tensor u ''response_mask''"
  using tensor_set_tensor(1) by (fastforce simp: with_response_mask_def has_tensor_iff rbind_eq_Inr split: if_splits)

lemma generated_mask: "generate_stage env cfg g d0 s0 = Inr (d, s) \<Longrightarrow> has_tensor d ''response_mask''"
  using with_response_mask_has by (fastforce simp: generate_stage_def assemble_def rbind_eq_Inr Let_def)

lemma extract_fit:
  assumes "extract_reward_columns d = Inr (rewards, info)" and "wf_dp d"
  shows "columns_fit info d"
proof -
  have "mapM_result (\<lambda>k. case map_of e k of None \<Rightarrow> Inl KeyError | Some c \<Rightarrow> Inr (k, c)) ks = Inr cols \<Longrightarrow> set cols \<subseteq> set e"
    for e :: "entry list dict" and ks cols
    by (induction ks arbitrary: cols) (auto simp: rbind_eq_Inr split: option.splits dest: map_of_SomeD)
  then have "set info \<subseteq> set (non_tensor d)" using assms(1) by (auto simp: extract_reward_columns_def rbind_eq_Inr)
  then show ?thesis using wf_dpD(4) [OF assms(2)] by (auto simp: columns_fit_def)
qed

lemma prepare_plain:
  assumes "prepare_step env (cfg\<lparr>s_balance := None\<rparr>) g t d0 = Inr (B, ms, t')" and "generate_stage env cfg g d0 (t_world t) = Inr (d1, s1)"
  obtains d3 d4 rewards info s2 d5 ms5 t5 ms6 where "count_tokens env d1 = Inr d3" "reward_stage env cfg d3 s1 = Inr (d4, rewards, info, s2)"
    "evaluated_batch env cfg (t\<lparr>t_world := s2\<rparr>) d4 = Inr (d5, ms5, t5)" "advantage_stage env cfg t5 d5 rewards info = Inr (B, ms6, t')"
proof -
  have t: "t\<lparr>t_world := x, t_actor_wg := t_actor_wg t\<rparr> = t\<lparr>t_world := x\<rparr>" for x by (cases t) simp
  show thesis
    using assms that by (auto simp: prepare_step_def scored_batch_def balance_stage_def rbind_eq_Inr t)
qed

lemma prepare_balanced:
  assumes "generate_stage env cfg g d0 (t_world t) = Inr (d1, s1)" and "balance_batch row_tokens b (t_actor_wg t) d1 = Inr (d2, stats, wg)"
    and "count_tokens env d2 = Inr d3" and "reward_stage env cfg d3 s1 = Inr (d4, rewards, info, s2)"
    and "evaluated_batch env cfg (t\<lparr>t_world := s2, t_actor_wg := wg\<rparr>) d4 = Inr (d5, ms5, t5)"
    and "advantage_stage env cfg t5 d5 rewards info = Inr (B, ms6, t6)"
  shows "\<exists>ms. prepare_step env (cfg\<lparr>s_balance := Some b\<rparr>) g t d0 = Inr (B, ms, t6)"
  using assms by (simp add: prepare_step_def scored_batch_def balance_stage_def)

text \<open>
  C2: balancing the batch over the data-parallel ranks only changes the order of the rows. Suppose a GRPO step
  without rollout correction, critic and self-distillation runs without balancing, and the remote calls
  treat the rows of a batch one by one. Then the step with balancing returns as well, and the batch it gives to
  the update of the actor - rewards with their KL penalty, log-probabilities, advantages, every column - is the
  one without balancing with its rows permuted; the state of the workers and of the KL controller are the same.
\<close>

theorem balancing_only_reorders:
  assumes plain: "prepare_step env (cfg\<lparr>s_balance := None\<rparr>) g t d0 = Inr (B, ms, t1)"
    and cfg: "s_adv_estimator cfg = ''grpo''" "s_rollout_corr cfg = None" "s_distillation cfg = None" "\<not> s_use_critic cfg"
    and calls: "s_use_rm cfg \<Longrightarrow> rowwise (e_reward_model env)" "rowwise (e_log_prob env)" "s_use_ref cfg \<Longrightarrow> rowwise (e_ref_log_prob env)"
    and no_rollout: "\<not> has_tensor B ''rollout_log_probs''"
    and gen: "generate_stage env cfg g d0 (t_world t) = Inr (d1, s1)"
    and d1: "wf_dp d1" "batch d1 = Some td" "map_of (td_items td) ''attention_mask'' = Some rows" "0 < dp_len d1" "k dvd dp_len d1"
    and sums: "\<forall>r\<in>set rows. 0 \<le> row_tokens r"
    and group: "registered ''actor'' mapping msk (t_actor_wg t)" "layout_ok mapping msk k" "0 < k"
    and b: "\<not> use_prefix_grouper b" "\<not> keep_minibatch b"
  shows "\<exists>idx B' ms' wg. prepare_step env (cfg\<lparr>s_balance := Some b\<rparr>) g t d0 = Inr (B', ms', t1\<lparr>t_actor_wg := wg\<rparr>) \<and>
    mset idx = mset [0..<dp_len B] \<and> reordered idx B B'"
proof -
  obtain d3 d4 rewards info s2 d5 ms5 t5 ms6 where count: "count_tokens env d1 = Inr d3"
      and rew: "reward_stage env cfg d3 s1 = Inr (d4, rewards, info, s2)"
      and ev: "evaluated_batch env cfg (t\<lparr>t_world := s2\<rparr>) d4 = Inr (d5, ms5, t5)"
      and adv: "advantage_stage env cfg t5 d5 rewards info = Inr (B, ms6, t1)"
    using plain gen by (rule prepare_plain)
  obtain ps stats wg where bal: "balance_batch row_tokens b (t_actor_wg t) d1 = Inr (dp_take (concat ps) d1, stats, wg)"
      and perm: "mset (concat ps) = mset [0..<dp_len d1]"
    using balance_batch_run [OF group d1 sums b, of undefined] by blast
  let ?idx = "concat ps"
  have p1: "permutes_rows ?idx d1" using d1(1) perm by (simp add: permutes_rows_def)
  note c = count_tokens_reordered [OF count d1(1)]
  obtain d3' where d3': "count_tokens env (dp_take ?idx d1) = Inr d3'" "reordered ?idx d3 d3'" using c(2) by blast
  have p3: "permutes_rows ?idx d3" by (rule grows_permutes [OF c(1) p1])
  note r = reward_stage_reordered [OF rew calls(1) p3 d3'(2)]
  obtain d4' where d4': "reward_stage env cfg d3' s1 = Inr (d4', take_rows ?idx rewards, dict_map (take_rows ?idx) info, s2)"
      "reordered ?idx d4 d4'" using r(2) by blast
  have p4: "permutes_rows ?idx d4" by (rule grows_permutes [OF r(1) p3])
  have fit: "columns_fit info d4"
    using rew r(1) by (intro extract_fit [of _ rewards]) (auto simp: reward_stage_def rbind_eq_Inr grows_def)
  have g5: "grows d4 d5"
    using p4 by (intro evaluated_grows [OF ev cfg(2,4) calls(2,3)]) (simp_all add: permutes_rows_def)
  have mask: "has_tensor d5 ''response_mask''"
    using generated_mask [OF gen] c(1) r(1) g5 by (simp add: grows_def)
  have fit5: "columns_fit info d5" using fit g5 by (simp add: columns_fit_def grows_def)
  note p5 = grows_permutes [OF g5 p4]
  note a = advantage_stage_reordered [OF adv cfg(2,3,1) p5 _ mask fit5]
  have gB: "grows d5 B" by (rule a(1) [OF reordered_take])
  then have no5: "\<not> has_tensor d5 ''rollout_log_probs''" using no_rollout by (auto simp: grows_def)
  obtain d5' ms5' where d5': "evaluated_batch env cfg (t\<lparr>t_world := s2, t_actor_wg := wg\<rparr>) d4' = Inr (d5', ms5', t5\<lparr>t_actor_wg := wg\<rparr>)"
      "reordered ?idx d5 d5'"
    using evaluated_reordered [OF ev cfg(2,4) calls(2,3) p4 d4'(2) no5, of wg] by auto
  obtain B' ms6' where B': "advantage_stage env cfg (t5\<lparr>t_actor_wg := wg\<rparr>) d5' (take_rows ?idx rewards) (dict_map (take_rows ?idx) info) =
      Inr (B', ms6', t1\<lparr>t_actor_wg := wg\<rparr>)" "reordered ?idx B B'"
    using a(2) [OF d5'(2), of wg] by blast
  obtain ms' where "prepare_step env (cfg\<lparr>s_balance := Some b\<rparr>) g t d0 = Inr (B', ms', t1\<lparr>t_actor_wg := wg\<rparr>)"
    using prepare_balanced [OF gen bal d3'(1) d4'(1) d5'(1) B'(1)] by blast
  moreover have "dp_len B = dp_len d1" using c(1) r(1) g5 gB by (simp add: grows_def)
  ultimately show ?thesis using perm B'(2) by (intro exI conjI) simp_all
qed

section \<open>Prompts and their groups\<close>

lemma repeat_run: "dp_repeat n il d = Inr r \<Longrightarrow> r = dp_take (repeat_indices (dp_len d) n il) d"
  by (auto simp: dp_repeat_def Data_Proto.make_def Let_def ensure_eq_Inr dp_take_def)

lemma pop_keys_other: "pop_keys ks d = Inr (popped, rest) \<Longrightarrow> k \<notin> set ks \<Longrightarrow> map_of rest k = map_of d k"
proof (induction ks d arbitrary: popped rest rule: pop_keys.induct)
  case (2 j ks d)
  then show ?case by (auto simp: rbind_eq_Inr delete_conv' split: option.splits)
qed simp

lemma pop_parts:
  assumes "dp_pop bk nk mk d = Inr (popped, rest)"
  shows "k \<notin> set nk \<Longrightarrow> map_of (non_tensor rest) k = map_of (non_tensor d) k"
    and "k \<notin> set bk \<Longrightarrow> tensor rest k = tensor d k" and "batch d = Some td \<Longrightarrow> dp_len rest = dp_len d"
proof -
  obtain tensors b ns n ms m where p: "(case batch d of
              None \<Rightarrow> ensure (bk = []) AttributeError (Inr ([], None))
            | Some td \<Rightarrow> rbind (pop_keys bk (td_items td)) (\<lambda>(popped, rest).
                Inr (popped, Some (td\<lparr>td_items := rest\<rparr>)))) = Inr (tensors, b)"
      "pop_keys nk (non_tensor d) = Inr (ns, n)" "rest = \<lparr>batch = b, non_tensor = n, meta = m\<rparr>"
    using assms by (auto simp: dp_pop_def rbind_eq_Inr)
  show "k \<notin> set nk \<Longrightarrow> map_of (non_tensor rest) k = map_of (non_tensor d) k" using pop_keys_other [OF p(2)] p(3) by simp
  show "tensor rest k = tensor d k" if "k \<notin> set bk"
  proof (cases "batch d")
    case None
    then show ?thesis using p(1,3) by (auto simp: tensor_def ensure_eq_Inr)
  next
    case (Some td)
    then obtain items where "pop_keys bk (td_items td) = Inr (tensors, items)" "b = Some (td\<lparr>td_items := items\<rparr>)"
      using p(1) by (auto simp: rbind_eq_Inr)
    then show ?thesis using pop_keys_other [of bk "td_items td" tensors items k] that Some p(3) by (simp add: tensor_def)
  qed
  show "batch d = Some td \<Longrightarrow> dp_len rest = dp_len d"
    using p(1,3) by (auto simp: dp_len_def rbind_eq_Inr split: option.splits)
qed

lemma union_column: "dp_union d e = Inr r \<Longrightarrow> map_of (non_tensor d) k = Some v \<Longrightarrow> map_of (non_tensor r) k = Some v"
  by (erule union_parts) (simp add: union_dict_keeps)

lemma merge_call_column:
  "merge_call_if b f d s = Inr (u, s') \<Longrightarrow> map_of (non_tensor d) k = Some v \<Longrightarrow> map_of (non_tensor u) k = Some v"
  by (auto simp: merge_call_if_def merge_call_def rbind_eq_Inr union_column split: if_splits)

lemma merge_call_len: "merge_call_if b f d s = Inr (u, s') \<Longrightarrow> dp_len u = dp_len d"
  by (auto simp: merge_call_if_def merge_call_def rbind_eq_Inr union_len split: if_splits)

lemma with_response_mask_keeps:
  assumes "with_response_mask d = Inr u"
  shows "non_tensor u = non_tensor d" and "meta u = meta d" and "dp_len u = dp_len d" and "tensor d k = Inr v \<Longrightarrow> tensor u k = Inr v"
proof -
  have "non_tensor u = non_tensor d \<and> meta u = meta d \<and> dp_len u = dp_len d \<and> (tensor d k = Inr v \<longrightarrow> tensor u k = Inr v)"
  proof (cases "has_tensor d ''response_mask''")
    case True
    then show ?thesis using assms by (simp add: with_response_mask_def)
  next
    case False
    then obtain w where w: "set_tensor ''response_mask'' w d = Inr u"
      using assms by (auto simp: with_response_mask_def rbind_eq_Inr)
    have "k \<noteq> ''response_mask''" if "tensor d k = Inr v" using that False by (auto simp: has_tensor_iff)
    then show ?thesis using tensor_set_tensor(2-5) [OF w] by auto
  qed
  then show "non_tensor u = non_tensor d" "meta u = meta d" "dp_len u = dp_len d" "tensor d k = Inr v \<Longrightarrow> tensor u k = Inr v" by auto
qed

lemma remax_baseline_parts:
  assumes "remax_baseline env cfg gen d s = Inr (u, s')"
  obtains base s1 d1 d2 scores td popped d3 where "e_generate env (put_meta ''do_sample'' (Flag False) gen) s = Inr (base, s1)"
    "dp_union d base = Inr d1"
    "merge_call_if (s_use_rm cfg \<and> \<not> has_tensor d1 ''rm_scores'') (e_reward_model env) d1 (e_sleep env s1) = Inr (d2, s')"
    "tensor d2 ''rm_scores'' = Inr scores" "batch base = Some td" "dp_pop (keys (td_items td)) [] [] d2 = Inr (popped, d3)"
    "set_tensor ''reward_baselines'' (map (\<lambda>row. [sum_list row]) scores) d3 = Inr u"
  using assms by (auto simp: remax_baseline_def rbind_eq_Inr split: option.splits)

lemma remax_stage_column:
  assumes "remax_stage env cfg gen d s = Inr (u, s')" and "map_of (non_tensor d) k = Some v"
  shows "map_of (non_tensor u) k = Some v" and "dp_len u = dp_len d"
proof -
  have "map_of (non_tensor u) k = Some v \<and> dp_len u = dp_len d"
  proof (cases "s_adv_estimator cfg = estimator_name REMAX")
    case False
    then show ?thesis using assms by (simp add: remax_stage_def)
  next
    case True
    then have "remax_baseline env cfg gen d s = Inr (u, s')" using assms(1) by (simp add: remax_stage_def)
    then obtain base s1 d1 d2 scores td popped d3 where "e_generate env (put_meta ''do_sample'' (Flag False) gen) s = Inr (base, s1)"
        and r: "dp_union d base = Inr d1"
        "merge_call_if (s_use_rm cfg \<and> \<not> has_tensor d1 ''rm_scores'') (e_reward_model env) d1 (e_sleep env s1) = Inr (d2, s')"
        "tensor d2 ''rm_scores'' = Inr scores" and "batch base = Some td"
        and p: "dp_pop (keys (td_items td)) [] [] d2 = Inr (popped, d3)"
        and st: "set_tensor ''reward_baselines'' (map (\<lambda>row. [sum_list row]) scores) d3 = Inr u"
      by (rule remax_baseline_parts)
    obtain td2 where "batch d2 = Some td2" using tensor_batch [OF r(3)] by blast
    then show ?thesis
      using union_column [OF r(1) assms(2)] merge_call_column [OF r(2)] pop_parts(1) [OF p, of k] pop_parts(3) [OF p]
        tensor_set_tensor(3,5) [OF st] union_len [OF r(1)] merge_call_len [OF r(2)] by simp
  qed
  then show "map_of (non_tensor u) k = Some v" "dp_len u = dp_len d" by simp_all
qed

lemma assemble_parts:
  assumes "assemble cfg d out = Inr u"
  shows "tensor d k = Inr v \<Longrightarrow> tensor u k = Inr (take_rows (repeat_indices (dp_len d) (s_n cfg) True) v)"
    and "map_of (non_tensor d) j = Some c \<Longrightarrow> map_of (non_tensor u) j = Some (take_rows (repeat_indices (dp_len d) (s_n cfg) True) c)"
proof -
  let ?d = "dp_take (repeat_indices (dp_len d) (s_n cfg) True) d"
  obtain x where u: "dp_union ?d out = Inr x" "with_response_mask x = Inr u"
    using assms by (auto simp: assemble_def rbind_eq_Inr dest: repeat_run)
  show "tensor d k = Inr v \<Longrightarrow> tensor u k = Inr (take_rows (repeat_indices (dp_len d) (s_n cfg) True) v)"
    by (intro with_response_mask_keeps(4) [OF u(2)] union_tensor [OF u(1)] tensor_take)
  show "map_of (non_tensor d) j = Some c \<Longrightarrow> map_of (non_tensor u) j = Some (take_rows (repeat_indices (dp_len d) (s_n cfg) True) c)"
    using union_column [OF u(1), of j] with_response_mask_keeps(1) [OF u(2)] by (simp add: map_of_dict_map)
qed

lemma repeat_indices_div: "repeat_indices m n True = map (\<lambda>i. i div n) [0..<m * n]"
proof (induction m)
  case (Suc m)
  have "map (\<lambda>i. i div n) [m * n..<m * n + n] = replicate n m"
  proof (intro nth_equalityI)
    fix j assume "j < length (map (\<lambda>i. i div n) [m * n..<m * n + n])"
    then have "j < n" by simp
    then show "map (\<lambda>i. i div n) [m * n..<m * n + n] ! j = replicate n m ! j" by simp
  qed simp
  moreover have "[0..<Suc m * n] = [0..<m * n] @ [m * n..<m * n + n]"
    using upt_add_eq_append [of 0 "m * n" n] by (simp add: add.commute)
  ultimately show ?case using Suc by (simp add: repeat_indices_def)
qed (simp add: repeat_indices_def)

lemma union_dict_agrees: "union_dict d e = Inr u \<Longrightarrow> map_of d k = Some v \<Longrightarrow> map_of e k = Some w \<Longrightarrow> v = w"
proof (induction d e rule: union_dict.induct)
  case (2 d j x e)
  show ?case
  proof (cases "j = k")
    case True
    then show ?thesis using "2.prems" by (simp add: ensure_eq_Inr)
  next
    case False
    then have "map_of (AList.update j x d) k = Some v" using "2.prems"(2) by (simp add: update_conv')
    then show ?thesis using 2 False by (cases "map_of d j") (auto simp: ensure_eq_Inr)
  qed
qed simp

lemma union_dict_new: "union_dict p q = Inr r \<Longrightarrow> map_of p k = None \<Longrightarrow> map_of q k = Some v \<Longrightarrow> map_of r k = Some v"
proof (induction p q rule: union_dict.induct)
  case (2 p j y q)
  show ?case
  proof (cases "j = k")
    case True
    then have "union_dict (AList.update j y p) q = Inr r" using "2.prems"(1,2) by simp
    moreover have "map_of (AList.update j y p) k = Some v" using True "2.prems"(3) by (simp add: update_conv')
    ultimately show ?thesis by (rule union_dict_keeps)
  next
    case False
    then have "map_of (AList.update j y p) k = None" using "2.prems"(2) by (simp add: update_conv')
    then show ?thesis using 2 False by (auto simp: ensure_eq_Inr split: option.splits)
  qed
qed simp

lemma union_dict_second:
  assumes "union_dict p q = Inr r" and "map_of q k = Some v"
  shows "map_of r k = Some v"
proof (cases "map_of p k")
  case None
  then show ?thesis using union_dict_new assms by metis
next
  case (Some w)
  then show ?thesis using union_dict_agrees union_dict_keeps assms by metis
qed

lemma union_second:
  assumes "dp_union d e = Inr r"
  shows "tensor e k = Inr v \<Longrightarrow> tensor r k = Inr v"
    and "map_of (non_tensor e) k = Some col \<Longrightarrow> map_of (non_tensor r) k = Some col"
  using assms by (auto elim!: union_parts simp: tensor_def union_dict_second split: option.splits)

lemma pop_keys_popped: "pop_keys ks d = Inr (popped, rest) \<Longrightarrow> k \<in> set ks \<Longrightarrow> map_of popped k = map_of d k"
proof (induction ks d arbitrary: popped rest rule: pop_keys.induct)
  case (2 j ks d)
  then show ?case by (cases "j = k") (auto simp: rbind_eq_Inr delete_conv' split: option.splits)
qed simp

text \<open>The generation gets every array of the batch; the batch keeps its tensors and the arrays of \<open>kept_keys\<close>.\<close>

lemma gen_batch_parts:
  assumes run: "get_gen_batch d = Inr (gen, rest)" and wf: "wf_dp d" and td: "batch d = Some td"
  shows "map_of (non_tensor d) k = Some col \<Longrightarrow> map_of (non_tensor gen) k = Some col"
    and "k \<in> set kept_keys \<Longrightarrow> map_of (non_tensor rest) k = map_of (non_tensor d) k"
    and "tensor rest k = tensor d k" and "dp_len rest = dp_len d"
    and "non_tensor d \<noteq> [] \<Longrightarrow> dp_len gen = dp_len d"
proof -
  let ?popped = "filter (\<lambda>k. k \<notin> set kept_keys) (keys (non_tensor d))"
  obtain gen' where pop: "dp_pop [] ?popped [] d = Inr (gen', rest)"
    and gen: "gen = gen'\<lparr>non_tensor := dict_update (non_tensor gen') (non_tensor rest)\<rparr>"
    using run by (auto simp: get_gen_batch_def rbind_eq_Inr)
  show kept: "k \<in> set kept_keys \<Longrightarrow> map_of (non_tensor rest) k = map_of (non_tensor d) k"
    and "tensor rest k = tensor d k" and "dp_len rest = dp_len d"
    using pop_parts [OF pop] td by auto
  obtain ns where keys: "pop_keys ?popped (non_tensor d) = Inr (ns, non_tensor rest)"
    and gen': "batch gen' = None" "non_tensor gen' = ns"
    using pop td by (auto simp: dp_pop_def rbind_eq_Inr from_dict_def make_eq_Inr Let_def)
  note parts = pop_keys_facts [OF keys wf_dpD(3) [OF wf]]
  have dist: "distinct (keys (non_tensor rest))" using parts wf_dpD(3) [OF wf] by simp
  show gets: "map_of (non_tensor gen) k = Some col" if col: "map_of (non_tensor d) k = Some col" for k col
  proof (cases "k \<in> set kept_keys")
    case True
    then have "map_of (non_tensor rest) k = Some col" using pop_parts(1) [OF pop, of k] col by simp
    then show ?thesis by (simp add: gen map_of_dict_update_distinct [OF dist [unfolded keys_def]])
  next
    case False
    then have popped: "k \<in> set ?popped" using map_of_SomeD [OF col] by (force simp: keys_def)
    then have "k \<notin> set (keys (non_tensor rest))" using parts by auto
    then show ?thesis using pop_keys_popped [OF keys popped] col
      by (simp add: gen map_of_dict_update_distinct [OF dist [unfolded keys_def]] map_of_new gen')
  qed
  assume "non_tensor d \<noteq> []"
  then obtain j c where "(j, c) \<in> set (non_tensor d)" by (cases "non_tensor d") auto
  then have "map_of (non_tensor gen) j = Some c" using gets map_of_in wf_dpD(3) [OF wf] by metis
  then have "non_tensor gen \<noteq> []" by auto
  moreover have "\<forall>(k, v)\<in>set (non_tensor gen). length v = dp_len d"
    using dict_update_facts [of ns "\<lambda>v. length v = dp_len d" "non_tensor rest"] parts wf_dpD(3,4) [OF wf]
    by (fastforce simp: gen gen')
  ultimately show "dp_len gen = dp_len d" by (cases "non_tensor gen") (auto simp: dp_len_def gen gen')
qed

lemma remax_stage_tensor:
  "remax_stage env cfg gen d s = Inr (u, s') \<Longrightarrow> s_adv_estimator cfg \<noteq> estimator_name REMAX \<Longrightarrow> u = d"
  by (simp add: remax_stage_def)

lemma assemble_output:
  assumes "assemble cfg d out = Inr u"
  shows "tensor out k = Inr v \<Longrightarrow> tensor u k = Inr v"
    and "map_of (non_tensor out) j = Some col \<Longrightarrow> map_of (non_tensor u) j = Some col"
    and "dp_len u = dp_len d * s_n cfg"
proof -
  let ?d = "dp_take (repeat_indices (dp_len d) (s_n cfg) True) d"
  obtain x where u: "dp_union ?d out = Inr x" "with_response_mask x = Inr u"
    using assms by (auto simp: assemble_def rbind_eq_Inr dest: repeat_run)
  show "tensor out k = Inr v \<Longrightarrow> tensor u k = Inr v"
    by (intro with_response_mask_keeps(4) [OF u(2)] union_second(1) [OF u(1)])
  show "map_of (non_tensor out) j = Some col \<Longrightarrow> map_of (non_tensor u) j = Some col"
    using union_second(2) [OF u(1), of j] with_response_mask_keeps(1) [OF u(2)] by simp
  have "has_rows d" using u(1) by (auto elim!: union_parts simp: has_rows_def)
  then show "dp_len u = dp_len d * s_n cfg"
    using with_response_mask_keeps(3) [OF u(2)] union_len [OF u(1)] by (simp add: dp_len_take repeat_indices_div)
qed

lemma rollout_run:
  assumes "rollout env cfg gen s = Inr (out, s')"
  obtains out0 s1 where "e_generate env (dp_take (repeat_indices (dp_len gen) (s_n cfg) True) gen) s = Inr (out0, s1)"
    "batch out = batch out0" "non_tensor out = non_tensor out0"
  using assms by (auto simp: rollout_def rbind_eq_Inr take_timing_def ensure_eq_Inr dest!: repeat_run)

lemma own_rows:
  assumes "i < m * n"
  shows "i div n < (m :: nat)" and "map (\<lambda>i. i div n) [0..<m * n] ! i = i div n"
  using assms by (simp_all add: less_mult_imp_div_less)

text \<open>What the parts of the generation are, with the identifiers given to the prompts.\<close>

lemma generation_parts:
  assumes run: "generate_stage env cfg g d0 s0 = Inr (d, s)" and wf: "wf_dp d0"
  obtains d1 gen d2 out s1 d3 where "wf_dp d1" "batch d1 = batch d0" "batch d0 \<noteq> None" "dp_len d1 = dp_len d0"
    "map_of (non_tensor d1) ''uid'' = Some (map (\<lambda>i. Str (e_uuid env i)) [0..<dp_len d0])"
    "\<And>k. k \<noteq> ''uid'' \<Longrightarrow> map_of (non_tensor d1) k = map_of (non_tensor d0) k"
    "get_gen_batch d1 = Inr (gen, d2)"
    "rollout env cfg (put_meta ''global_steps'' (Atom (MetaNumber (real g))) gen) s0 = Inr (out, s1)"
    "remax_stage env cfg (put_meta ''global_steps'' (Atom (MetaNumber (real g))) gen) d2 s1 = Inr (d3, s)"
    "assemble cfg d3 out = Inr d"
proof -
  obtain d1 gen d2 out s1 d3 where r: "assign_uids env cfg d0 = Inr d1" "get_gen_batch d1 = Inr (gen, d2)"
      "rollout env cfg (put_meta ''global_steps'' (Atom (MetaNumber (real g))) gen) s0 = Inr (out, s1)"
      "remax_stage env cfg (put_meta ''global_steps'' (Atom (MetaNumber (real g))) gen) d2 s1 = Inr (d3, s)"
      "assemble cfg d3 out = Inr d"
    using run by (auto simp: generate_stage_def rbind_eq_Inr Let_def)
  obtain td where td: "batch d0 = Some td" using r(1) by (auto simp: assign_uids_def split: option.splits)
  have size: "td_size td = dp_len d0" using td by (simp add: dp_len_def)
  have d1: "d1 = put_column ''uid'' (map (\<lambda>i. Str (e_uuid env i)) [0..<dp_len d0])
      (put_meta ''temperature'' (Atom (MetaNumber (s_temperature cfg))) d0)"
    using r(1) td by (simp add: assign_uids_def size)
  have batch_d1: "batch d1 = batch d0" by (simp add: d1 put_column_def)
  have len: "dp_len d1 = dp_len d0" using batch_d1 td by (simp add: dp_len_def)
  have "wf_dp d1"
  proof (rule wf_dpI)
    show "\<And>td. batch d1 = Some td \<Longrightarrow> distinct (keys (td_items td))"
      and "\<And>td k v. batch d1 = Some td \<Longrightarrow> (k, v) \<in> set (td_items td) \<Longrightarrow> length v = td_size td"
      unfolding batch_d1 using wf_dpD(1,2) [OF wf] td size by auto
    show "distinct (keys (non_tensor d1))" "distinct (keys (meta d1))"
      using wf_dpD(3,5) [OF wf] by (simp_all add: d1 put_column_def put_meta_def keys_def distinct_update)
    show "\<And>k v. (k, v) \<in> set (non_tensor d1) \<Longrightarrow> length v = dp_len d1"
      using wf_dpD(4) [OF wf] unfolding len by (auto simp: d1 put_column_def dest!: update_elems)
  qed
  moreover have "map_of (non_tensor d1) ''uid'' = Some (map (\<lambda>i. Str (e_uuid env i)) [0..<dp_len d0])"
    by (simp add: d1 put_column_def update_conv')
  moreover have "\<And>k. k \<noteq> ''uid'' \<Longrightarrow> map_of (non_tensor d1) k = map_of (non_tensor d0) k"
    by (simp add: d1 put_column_def update_conv')
  ultimately show thesis using that [OF _ batch_d1 _ len _ _ r(2-5)] td by simp
qed

text \<open>The call of the generation, and what the batch has of the prompts: the arrays that are kept, and the tensors.\<close>

lemma generation_call:
  assumes run: "generate_stage env cfg g d0 s0 = Inr (d, s)" and wf: "wf_dp d0"
    and own: "own = map (\<lambda>i. i div s_n cfg) [0..<dp_len d0 * s_n cfg]"
  obtains samples out s1 where "e_generate env samples s0 = Inr (out, s1)" "dp_len samples = dp_len d0 * s_n cfg"
    "map_of (non_tensor samples) ''uid'' = Some (take_rows own (map (\<lambda>i. Str (e_uuid env i)) [0..<dp_len d0]))"
    "\<And>k col. k \<noteq> ''uid'' \<Longrightarrow> map_of (non_tensor d0) k = Some col \<Longrightarrow> map_of (non_tensor samples) k = Some (take_rows own col)"
    "\<And>k v. tensor out k = Inr v \<Longrightarrow> tensor d k = Inr v"
    "\<And>k col. map_of (non_tensor out) k = Some col \<Longrightarrow> map_of (non_tensor d) k = Some col"
proof -
  obtain d1 gen d2 out s1 d3 where d1: "wf_dp d1" "batch d1 = batch d0" "batch d0 \<noteq> None" "dp_len d1 = dp_len d0"
      "map_of (non_tensor d1) ''uid'' = Some (map (\<lambda>i. Str (e_uuid env i)) [0..<dp_len d0])"
    and other: "\<And>k. k \<noteq> ''uid'' \<Longrightarrow> map_of (non_tensor d1) k = map_of (non_tensor d0) k"
    and r: "get_gen_batch d1 = Inr (gen, d2)"
      "rollout env cfg (put_meta ''global_steps'' (Atom (MetaNumber (real g))) gen) s0 = Inr (out, s1)"
      "remax_stage env cfg (put_meta ''global_steps'' (Atom (MetaNumber (real g))) gen) d2 s1 = Inr (d3, s)"
      "assemble cfg d3 out = Inr d"
    by (rule generation_parts [OF run wf]) blast
  obtain td where "batch d1 = Some td" using d1(2,3) by auto
  note gb = gen_batch_parts [OF r(1) d1(1) this]
  have "non_tensor d1 \<noteq> []" using d1(5) by auto
  then have len_gen: "dp_len gen = dp_len d0" using gb(5) d1(4) by simp
  define samples where "samples = dp_take own (put_meta ''global_steps'' (Atom (MetaNumber (real g))) gen)"
  obtain out0 s2 where call: "e_generate env samples s0 = Inr (out0, s2)"
    and out: "batch out = batch out0" "non_tensor out = non_tensor out0"
    using rollout_run [OF r(2)] len_gen by (auto simp: repeat_indices_div samples_def own)
  have gets: "map_of (non_tensor samples) k = Some (take_rows own col)" if "map_of (non_tensor d1) k = Some col" for k col
    using gb(1) [OF that] by (simp add: samples_def map_of_dict_map)
  have "has_rows gen" using gb(1) [OF d1(5)] by (auto simp: has_rows_def)
  then have "has_rows (put_meta ''global_steps'' (Atom (MetaNumber (real g))) gen)" by (simp add: has_rows_def)
  then have "dp_len samples = dp_len d0 * s_n cfg" by (simp add: samples_def dp_len_take own)
  moreover have "tensor out0 k = tensor out k" for k by (simp add: tensor_def out)
  ultimately show thesis
    using that [OF call] gets d1(5) other assemble_output(1,2) [OF r(4)] by (simp add: out)
qed

lemma generation_prompts:
  assumes run: "generate_stage env cfg g d0 s0 = Inr (d, s)" and wf: "wf_dp d0"
    and own: "own = map (\<lambda>i. i div s_n cfg) [0..<dp_len d0 * s_n cfg]"
  shows "dp_len d = dp_len d0 * s_n cfg"
    and "map_of (non_tensor d) ''uid'' = Some (take_rows own (map (\<lambda>i. Str (e_uuid env i)) [0..<dp_len d0]))"
    and "k \<in> set kept_keys \<Longrightarrow> k \<noteq> ''uid'' \<Longrightarrow> map_of (non_tensor d0) k = Some col \<Longrightarrow>
       map_of (non_tensor d) k = Some (take_rows own col)"
    and "s_adv_estimator cfg \<noteq> estimator_name REMAX \<Longrightarrow> tensor d0 k = Inr v \<Longrightarrow> tensor d k = Inr (take_rows own v)"
proof -
  obtain d1 gen d2 out s1 d3 where d1: "wf_dp d1" "batch d1 = batch d0" "batch d0 \<noteq> None" "dp_len d1 = dp_len d0"
      "map_of (non_tensor d1) ''uid'' = Some (map (\<lambda>i. Str (e_uuid env i)) [0..<dp_len d0])"
    and other: "\<And>k. k \<noteq> ''uid'' \<Longrightarrow> map_of (non_tensor d1) k = map_of (non_tensor d0) k"
    and r: "get_gen_batch d1 = Inr (gen, d2)"
      "remax_stage env cfg (put_meta ''global_steps'' (Atom (MetaNumber (real g))) gen) d2 s1 = Inr (d3, s)"
      "assemble cfg d3 out = Inr d"
    by (rule generation_parts [OF run wf]) blast
  obtain td where "batch d1 = Some td" using d1(2,3) by auto
  note gb = gen_batch_parts [OF r(1) d1(1) this]
  have column: "map_of (non_tensor d3) k = Some col \<and> dp_len d3 = dp_len d0"
    if "k \<in> set kept_keys" "map_of (non_tensor d1) k = Some col" for k col
    using remax_stage_column [OF r(2), of k col] gb(2,4) d1(4) that by simp
  have len: "dp_len d3 = dp_len d0" using column [OF _ d1(5)] by (simp add: kept_keys_def)
  have keeps: "map_of (non_tensor d) k = Some (take_rows own col)" if "k \<in> set kept_keys" "map_of (non_tensor d1) k = Some col" for k col
    using assemble_parts(2) [OF r(3), of k col] column [OF that] by (simp add: repeat_indices_div own)
  show "dp_len d = dp_len d0 * s_n cfg" using assemble_output(3) [OF r(3)] len by simp
  show "map_of (non_tensor d) ''uid'' = Some (take_rows own (map (\<lambda>i. Str (e_uuid env i)) [0..<dp_len d0]))"
    using keeps [OF _ d1(5)] by (simp add: kept_keys_def)
  show "k \<in> set kept_keys \<Longrightarrow> k \<noteq> ''uid'' \<Longrightarrow> map_of (non_tensor d0) k = Some col \<Longrightarrow>
       map_of (non_tensor d) k = Some (take_rows own col)"
    using keeps other by simp
  show "tensor d k = Inr (take_rows own v)" if "s_adv_estimator cfg \<noteq> estimator_name REMAX" "tensor d0 k = Inr v"
  proof -
    have "tensor d3 k = Inr v"
      using remax_stage_tensor [OF r(2) that(1)] gb(3) d1(2) that(2) by (simp add: tensor_def)
    then show ?thesis using assemble_parts(1) [OF r(3)] by (simp add: len repeat_indices_div own)
  qed
qed

text \<open>
  C31: the samples of one prompt form a group. The generation is called on \<open>n\<close> rows per prompt, where row
  \<open>i\<close> has every array of prompt \<open>i div n\<close> and its identifier, and the batch that the stage returns has every
  column of the output of that call, row by row; beside it row \<open>i\<close> has the identifier of prompt
  \<open>i div n\<close>, the arrays of that prompt which \<open>_get_gen_batch\<close> keeps and, except under ReMax (which
  pops the columns its greedy baseline shares), its tensors. When the identifiers given to the prompts
  differ, as fresh ones do, two rows of the batch share one exactly when they answer the same prompt.
\<close>

theorem rollout_groups:
  assumes run: "generate_stage env cfg g d0 s0 = Inr (d, s)" and wf: "wf_dp d0"
    and fresh: "inj_on (e_uuid env) {..<dp_len d0}"
  shows "let n = s_n cfg; m = dp_len d0; own = map (\<lambda>i. i div n) [0..<m * n]; ids = map (e_uuid env) [0..<m]
     in dp_len d = m * n \<and> uids_of d = Some (take_rows own ids) \<and>
        (\<forall>i<m * n. \<forall>j<m * n. take_rows own ids ! i = take_rows own ids ! j \<longleftrightarrow> i div n = j div n) \<and>
        (\<exists>samples out s1. e_generate env samples s0 = Inr (out, s1) \<and> dp_len samples = m * n \<and>
           uids_of samples = Some (take_rows own ids) \<and>
           (\<forall>k col. k \<noteq> ''uid'' \<and> map_of (non_tensor d0) k = Some col \<longrightarrow>
              map_of (non_tensor samples) k = Some (take_rows own col)) \<and>
           (\<forall>k v. tensor out k = Inr v \<longrightarrow> tensor d k = Inr v) \<and>
           (\<forall>k col. map_of (non_tensor out) k = Some col \<longrightarrow> map_of (non_tensor d) k = Some col)) \<and>
        (\<forall>k\<in>set kept_keys - {''uid''}. \<forall>col. map_of (non_tensor d0) k = Some col \<longrightarrow>
           map_of (non_tensor d) k = Some (take_rows own col)) \<and>
        (s_adv_estimator cfg \<noteq> estimator_name REMAX \<longrightarrow>
           (\<forall>k v. tensor d0 k = Inr v \<longrightarrow> tensor d k = Inr (take_rows own v)))"
proof -
  define n m where nm: "n = s_n cfg" "m = dp_len d0"
  define own ids where own: "own = map (\<lambda>i. i div n) [0..<m * n]" and ids: "ids = map (e_uuid env) [0..<m]"
  obtain samples out s1 where call: "e_generate env samples s0 = Inr (out, s1)" "dp_len samples = m * n"
    "map_of (non_tensor samples) ''uid'' = Some (take_rows own (map (\<lambda>i. Str (e_uuid env i)) [0..<m]))"
    "\<And>k col. k \<noteq> ''uid'' \<Longrightarrow> map_of (non_tensor d0) k = Some col \<Longrightarrow> map_of (non_tensor samples) k = Some (take_rows own col)"
    "\<And>k v. tensor out k = Inr v \<Longrightarrow> tensor d k = Inr v"
    "\<And>k col. map_of (non_tensor out) k = Some col \<Longrightarrow> map_of (non_tensor d) k = Some col"
    using generation_call [OF run wf own [unfolded nm]] unfolding nm by blast
  note prompts = generation_prompts [OF run wf own [unfolded nm], folded nm]
  have texts: "map entry_text (take_rows own (map (\<lambda>i. Str (e_uuid env i)) [0..<m])) = take_rows own ids"
    using own_rows(1) by (auto simp: take_rows_def own ids entry_text_def)
  have uid: "uids_of d = Some (take_rows own ids)" "uids_of samples = Some (take_rows own ids)"
    using prompts(2) call(3) texts by (simp_all add: uids_of_def)
  have same: "take_rows own ids ! i = take_rows own ids ! j \<longleftrightarrow> i div n = j div n" if "i < m * n" "j < m * n" for i j
    using own_rows(1) [OF that(1)] own_rows(1) [OF that(2)] that fresh
    by (auto simp: take_rows_def own ids nm dest: inj_onD)
  show ?thesis
    using uid same call(1,2,4-6) prompts(1,3,4) unfolding nm [symmetric] Let_def own [symmetric] ids [symmetric]
    by (intro conjI exI [of _ samples] exI [of _ out] exI [of _ s1]) auto
qed

section \<open>ReMax with a colocated reward model\<close>

lemma union_no_tensor:
  assumes "dp_union d e = Inr r" and "\<not> has_tensor d k" and "\<not> has_tensor e k"
  shows "\<not> has_tensor r k"
proof -
  have "union_dict x y = Inr z \<Longrightarrow> map_of x k = None \<Longrightarrow> map_of y k = None \<Longrightarrow> map_of z k = None" for x y z :: "mat dict"
  proof (induction x y rule: union_dict.induct)
    case (2 x j v y)
    then have "map_of (AList.update j v x) k = None" by (auto simp: update_conv' split: if_splits)
    with 2 show ?case by (auto simp: ensure_eq_Inr split: option.splits if_splits)
  qed simp
  then show ?thesis using assms by (auto elim!: union_parts simp: has_tensor_def)
qed

lemma union_new_tensor:
  assumes "dp_union d e = Inr r" and "tensor r k = Inr v" and "\<not> has_tensor d k"
  shows "tensor e k = Inr v"
proof -
  have "union_dict x y = Inr z \<Longrightarrow> map_of x k = None \<Longrightarrow> map_of z k = Some v \<Longrightarrow> map_of y k = Some v" for x y z :: "mat dict"
  proof (induction x y rule: union_dict.induct)
    case (2 x j w y)
    show ?case
    proof (cases "j = k")
      case True
      then have "union_dict (AList.update j w x) y = Inr z" using "2.prems"(1,2) by simp
      moreover have "map_of (AList.update j w x) k = Some w" using True by (simp add: update_conv')
      ultimately show ?thesis using union_dict_keeps "2.prems"(3) True by fastforce
    next
      case False
      then have "map_of (AList.update j w x) k = None" using "2.prems"(2) by (simp add: update_conv')
      then show ?thesis using 2 False by (auto simp: ensure_eq_Inr split: option.splits)
    qed
  qed simp
  then show ?thesis using assms by (auto elim!: union_parts simp: has_tensor_def tensor_def split: option.splits)
qed

text \<open>
  C3: under ReMax with a colocated reward model the responses are never scored. The scores of the greedy
  baseline stay in the batch, since the code removes the keys of an object that is always \<open>None\<close>, so the
  reward model is not asked again after the sampling: every response gets the rewards of the baseline of its
  prompt, and the baseline that the estimator subtracts is the sum of these same rewards.
\<close>

theorem remax_scores_baseline:
  assumes run: "scored_batch env cfg g t d0 = Inr (d, rewards, info, ms, t')"
    and cfg: "s_adv_estimator cfg = ''remax''" "s_use_rm cfg" "s_balance cfg = None"
    and no_scores: "\<not> has_tensor d0 ''rm_scores''" "\<And>x s r s'. e_generate env x s = Inr (r, s') \<Longrightarrow> \<not> has_tensor r ''rm_scores''"
  shows "tensor d ''reward_baselines'' = Inr (map (\<lambda>row. [sum_list row]) rewards) \<and>
    (\<exists>prompts base x s1 scored scores. dp_union prompts base = Inr x \<and> e_reward_model env x s1 = Inr (scored, t_world t') \<and>
       tensor scored ''rm_scores'' = Inr scores \<and> rewards = take_rows (repeat_indices (length scores) (s_n cfg) True) scores)"
proof -
  obtain d4 s2 d5 where gen: "generate_stage env cfg g d0 (t_world t) = Inr (d4, s2)" and count: "count_tokens env d4 = Inr d5"
      and rew: "reward_stage env cfg d5 s2 = Inr (d, rewards, info, t_world t')"
    using run cfg(3) by (auto simp: scored_batch_def balance_stage_def rbind_eq_Inr)
  obtain d1 gen0 d2 out s1 d3 where r: "assign_uids env cfg d0 = Inr d1" "get_gen_batch d1 = Inr (gen0, d2)"
      "remax_stage env cfg (put_meta ''global_steps'' (Atom (MetaNumber (real g))) gen0) d2 s1 = Inr (d3, s2)"
      "assemble cfg d3 out = Inr d4"
    using gen by (auto simp: generate_stage_def rbind_eq_Inr Let_def)
  have no2: "\<not> has_tensor d2 ''rm_scores''"
  proof -
    have "has_tensor d1 ''rm_scores'' = has_tensor d0 ''rm_scores''"
      using r(1) by (auto simp: assign_uids_def put_column_def has_tensor_def split: option.splits)
    moreover obtain popped where pop: "dp_pop [] (filter (\<lambda>k. k \<notin> set kept_keys) (keys (non_tensor d1))) [] d1 = Inr (popped, d2)"
      using r(2) by (auto simp: get_gen_batch_def rbind_eq_Inr)
    ultimately show ?thesis using no_scores(1) pop_parts(2) [OF pop, of "''rm_scores''"] by (simp add: has_tensor_iff)
  qed
  have "remax_baseline env cfg (put_meta ''global_steps'' (Atom (MetaNumber (real g))) gen0) d2 s1 = Inr (d3, s2)"
    using r(3) cfg(1) by (simp add: remax_stage_def)
  then obtain base s3 x y scores td popped z where e: "e_generate env (put_meta ''do_sample'' (Flag False)
        (put_meta ''global_steps'' (Atom (MetaNumber (real g))) gen0)) s1 = Inr (base, s3)"
      and x: "dp_union d2 base = Inr x"
      and call: "merge_call_if (s_use_rm cfg \<and> \<not> has_tensor x ''rm_scores'') (e_reward_model env) x (e_sleep env s3) = Inr (y, s2)"
      and scores: "tensor y ''rm_scores'' = Inr scores" and td: "batch base = Some td"
      and pop: "dp_pop (keys (td_items td)) [] [] y = Inr (popped, z)"
      and base: "set_tensor ''reward_baselines'' (map (\<lambda>row. [sum_list row]) scores) z = Inr d3"
    by (rule remax_baseline_parts)
  have nb: "\<not> has_tensor base ''rm_scores''" by (rule no_scores(2) [OF e])
  have "\<not> has_tensor x ''rm_scores''" by (rule union_no_tensor [OF x no2 nb])
  then obtain scored where sc: "e_reward_model env x (e_sleep env s3) = Inr (scored, s2)" "dp_union x scored = Inr y"
    using call cfg(2) by (auto simp: merge_call_if_def merge_call_def rbind_eq_Inr)
  have "\<not> has_tensor x ''rm_scores''" by (rule union_no_tensor [OF x no2 nb])
  then have scored: "tensor scored ''rm_scores'' = Inr scores"
    using union_new_tensor [OF sc(2)] scores by blast
  have out: "''rm_scores'' \<notin> set (keys (td_items td))"
    using nb td by (auto simp: has_tensor_def keys_def map_of_eq_None_iff)
  have "tensor z ''rm_scores'' = Inr scores" using pop_parts(2) [OF pop out] scores by simp
  then have t3: "tensor d3 ''rm_scores'' = Inr scores" "tensor d3 ''reward_baselines'' = Inr (map (\<lambda>row. [sum_list row]) scores)"
    using tensor_set_tensor(1,2) [OF base] by simp_all
  have len: "length scores = dp_len d3"
    using base tensor_set_tensor(5) [OF base] by (auto simp: set_tensor_def ensure_eq_Inr dp_len_def split: option.splits)
  let ?idx = "repeat_indices (dp_len d3) (s_n cfg) True"
  note t4 = assemble_parts(1) [OF r(4) t3(1)] assemble_parts(1) [OF r(4) t3(2)]
  have t5: "tensor d5 k = tensor d4 k" "has_tensor d5 k = has_tensor d4 k" for k
    using count by (auto simp: count_tokens_def rbind_eq_Inr split: option.splits)
  have "has_tensor d5 ''rm_scores''" using t4(1) t5 by (simp add: has_tensor_iff)
  then have d: "d = d5" "t_world t' = s2" "rewards = take_rows ?idx scores"
    using rew t4(1) t5(1) by (auto simp: reward_stage_def extract_reward_columns_def rbind_eq_Inr)
  have "set ?idx \<subseteq> {..<length scores}" by (auto simp: repeat_indices_div len less_mult_imp_div_less)
  then have "tensor d ''reward_baselines'' = Inr (map (\<lambda>row. [sum_list row]) rewards)"
    using t4(2) t5(1) by (simp add: d(1,3) take_rows_map)
  then show ?thesis
    using x sc(1) scored len unfolding d(2) by (intro conjI exI [of _ d2] exI [of _ base] exI [of _ x] exI [of _ "e_sleep env s3"]
        exI [of _ scored] exI [of _ scores]) (simp_all add: d(3))
qed

text \<open>
  The arrays of the baseline stay in the batch as well. A step under ReMax therefore returns only when every array
  of the baseline's output, such as the extra information of the rewards, equals that of the sampled responses.
\<close>

lemma remax_arrays_agree:
  assumes "remax_baseline env cfg gen d s = Inr (u, s')" and "assemble cfg u out = Inr w"
    and "map_of (non_tensor out) k = Some col" and "map_of (non_tensor d) k = None"
  shows "\<exists>base s1. e_generate env (put_meta ''do_sample'' (Flag False) gen) s = Inr (base, s1) \<and>
    (\<forall>v. map_of (non_tensor base) k = Some v \<longrightarrow> col = take_rows (repeat_indices (dp_len u) (s_n cfg) True) v)"
proof -
  let ?u = "dp_take (repeat_indices (dp_len u) (s_n cfg) True) u"
  obtain base s1 d1 d2 scores td popped d3 where e: "e_generate env (put_meta ''do_sample'' (Flag False) gen) s = Inr (base, s1)"
      and x: "dp_union d base = Inr d1"
      and call: "merge_call_if (s_use_rm cfg \<and> \<not> has_tensor d1 ''rm_scores'') (e_reward_model env) d1 (e_sleep env s1) = Inr (d2, s')"
      and "tensor d2 ''rm_scores'' = Inr scores" "batch base = Some td"
      and pop: "dp_pop (keys (td_items td)) [] [] d2 = Inr (popped, d3)"
      and base: "set_tensor ''reward_baselines'' (map (\<lambda>row. [sum_list row]) scores) d3 = Inr u"
    using assms(1) by (rule remax_baseline_parts)
  obtain z where z: "dp_union ?u out = Inr z"
    using assms(2) by (auto simp: assemble_def rbind_eq_Inr dest: repeat_run)
  have "col = take_rows (repeat_indices (dp_len u) (s_n cfg) True) v" if v: "map_of (non_tensor base) k = Some v" for v
  proof -
    have "map_of (non_tensor d1) k = Some v"
      using x by (rule union_parts) (simp add: union_dict_new [OF _ assms(4) v])
    then have "map_of (non_tensor u) k = Some v"
      using merge_call_column [OF call] pop_parts(1) [OF pop, of k] tensor_set_tensor(3) [OF base] by simp
    then have "map_of (non_tensor ?u) k = Some (take_rows (repeat_indices (dp_len u) (s_n cfg) True) v)"
      by (simp add: map_of_dict_map)
    moreover obtain m where "union_dict (non_tensor ?u) (non_tensor out) = Inr m"
      using z by (rule union_parts) blast
    ultimately show ?thesis using union_dict_agrees assms(3) by metis
  qed
  then show ?thesis using e by blast
qed

section \<open>A step on a small instance\<close>

text \<open>
  Remote calls for the witnesses: a generator that answers with two fixed tokens per row, and calls that return
  columns computed from the responses; the state counts the generations.
\<close>

definition toy_generate :: "nat remote" where
  "toy_generate d s =
     (let n = dp_len d in Inr
       (\<lparr>batch = Some \<lparr>td_size = n, td_items = [(''responses'', replicate n [1, 2]), (''attention_mask'', replicate n [1, 1, 1])]\<rparr>,
         non_tensor = [(''multi_modal_inputs'', replicate n (Str []))], meta = [(''timing'', DictV [])]\<rparr>, Suc s))"

definition column_call :: "(string \<times> (real \<Rightarrow> real)) list \<Rightarrow> nat remote" where
  "column_call ks d s =
     rbind (tensor d ''responses'') (\<lambda>r.
       Inr (\<lparr>batch = Some \<lparr>td_size = length r, td_items = map (\<lambda>(k, f). (k, map (map f) r)) ks\<rparr>, non_tensor = [], meta = []\<rparr>, s))"

definition toy_env :: "nat step_env" where
  "toy_env =
     \<lparr>e_generate = toy_generate, e_sleep = (\<lambda>s. s), e_reward_model = column_call [(''rm_scores'', \<lambda>x. x)],
      e_log_prob = column_call [(''old_log_probs'', \<lambda>_. 0), (''entropys'', \<lambda>_. 1)],
      e_ref_log_prob = column_call [(''ref_log_prob'', \<lambda>_. 0)], e_values = column_call [(''values'', \<lambda>_. 0)],
      e_update_critic = (\<lambda>_ s. Inr ([], s)), e_update_actor = (\<lambda>_ s. Inr ([], s)), e_save = (\<lambda>_ s. s),
      e_sync_weights = (\<lambda>_ s. s), e_uuid = (\<lambda>i. replicate i (CHR ''u'')), e_images = (\<lambda>_. None), e_messages = (\<lambda>_. []),
      e_pack_messages = (\<lambda>_. Str []), e_answer = (\<lambda>_. NoAnswer), e_feedback = (\<lambda>_. OtherFeedback),
      e_tokenizer = \<lparr>decode = (\<lambda>_. []), render = (\<lambda>_. []), apply_chat_template = (\<lambda>_. ([], []))\<rparr>,
      e_reduce = None, e_top1 = (\<lambda>_. 0), e_parse_int = (\<lambda>_. None), e_multinomial = (\<lambda>_ _. [])\<rparr>"

definition toy_cfg :: "string \<Rightarrow> nat \<Rightarrow> step_config" where
  "toy_cfg est n =
     \<lparr>s_temperature = 1, s_n = n, s_adv_estimator = est, s_use_rm = True, s_balance = None, s_rollout_corr = None,
      s_agg_mode = ''token-mean'', s_loss_scale_factor = None, s_use_ref = False, s_use_critic = False, s_distillation = None,
      s_templates = default_templates, s_answer_column = ''answer'', s_kl_in_reward = False, s_kl_penalty = ''kl'', s_gamma = 1,
      s_lam = 1, s_norm_by_std = False, s_algo = sample_algo, s_critic_warmup = 0\<rparr>"

definition toy_prompts :: "nat \<Rightarrow> step_data" where
  "toy_prompts n = \<lparr>batch = Some \<lparr>td_size = n, td_items = [(''dummy_tensor'', replicate n [0])]\<rparr>, non_tensor = [], meta = []\<rparr>"

definition toy_trainer :: "nat trainer" where
  "toy_trainer = \<lparr>t_world = 0, t_kl_ctrl = FixedKL 0, t_actor_wg = sample_group,
     t_policy_loss = \<lparr>loss_mode = ''vanilla'', rollout_correction = None\<rparr>\<rparr>"

lemma rowwise_column_call:
  assumes "distinct (map fst ks)"
  shows "rowwise (column_call ks)"
proof -
  have "wf_dp r \<and> set (keys (meta r)) \<inter> set count_keys = {} \<and> column_call ks d' s = Inr (dp_take idx r, s')"
    if perm: "permutes_rows idx d" and re: "reordered idx d d'" and run: "column_call ks d s = Inr (r, s')"
    for d d' idx s r s'
  proof -
    obtain v where v: "tensor d ''responses'' = Inr v" and s: "s' = s" and r: "r = \<lparr>batch = Some \<lparr>td_size = length v,
          td_items = map (\<lambda>(k, f). (k, map (map f) v)) ks\<rparr>, non_tensor = [], meta = []\<rparr>"
      using run by (auto simp: column_call_def rbind_eq_Inr)
    have sub: "set idx \<subseteq> {..<length v}"
      using permutes_sub [OF perm] tensor_len [OF _ v] perm by (simp add: permutes_rows_def)
    have "fst \<circ> (\<lambda>(k :: string, f :: real \<Rightarrow> real). (k, map (map f) v)) = fst" by (rule ext) (simp add: case_prod_beta)
    then have "wf_dp r" using assms by (auto simp: r wf_dp_def keys_def dp_len_def)
    moreover have "column_call ks d' s = Inr (dp_take idx r, s')"
      using reordered_tensor [OF re v] sub
      by (simp add: column_call_def r s dp_take_def td_take_def dict_map_def comp_def case_prod_beta take_rows_map)
    ultimately show ?thesis by (simp add: r)
  qed
  then show ?thesis unfolding rowwise_def by blast
qed

lemma toy_env_sel [simp]:
  "e_generate toy_env = toy_generate" "e_sleep toy_env = (\<lambda>s. s)" "e_reward_model toy_env = column_call [(''rm_scores'', \<lambda>x. x)]"
  "e_log_prob toy_env = column_call [(''old_log_probs'', \<lambda>_. 0), (''entropys'', \<lambda>_. 1)]" "e_images toy_env = (\<lambda>_. None)"
  "e_uuid toy_env = (\<lambda>i. replicate i (CHR ''u''))"
  by (simp_all add: toy_env_def)

lemma toy_cfg_sel [simp]:
  "s_n (toy_cfg est n) = n" "s_adv_estimator (toy_cfg est n) = est" "s_use_rm (toy_cfg est n)" "s_balance (toy_cfg est n) = None"
  "s_rollout_corr (toy_cfg est n) = None" "s_agg_mode (toy_cfg est n) = ''token-mean''" "s_loss_scale_factor (toy_cfg est n) = None"
  "\<not> s_use_ref (toy_cfg est n)" "\<not> s_use_critic (toy_cfg est n)" "s_distillation (toy_cfg est n) = None"
  "\<not> s_kl_in_reward (toy_cfg est n)" "s_temperature (toy_cfg est n) = 1" "\<not> s_norm_by_std (toy_cfg est n)"
  by (simp_all add: toy_cfg_def)

lemma toy_trainer_sel [simp]: "t_world toy_trainer = 0" "t_actor_wg toy_trainer = sample_group"
  by (simp_all add: toy_trainer_def)

lemmas toy_simps = toy_prompts_def toy_generate_def column_call_def generate_stage_def assign_uids_def get_gen_batch_def dp_pop_def
  kept_keys_def put_column_def put_meta_def from_dict_def Data_Proto.make_def check_consistency_def rollout_def dp_repeat_def
  Let_def repeat_indices_def dp_take_def take_rows_def dp_len_def take_timing_def remax_stage_def assemble_def dp_union_def
  union_tensor_dict_def with_response_mask_def has_tensor_def compute_response_mask_def tensor_def set_tensor_def mat_width_def
  dict_update_def td_take_def dict_map_def py_last_def upt_rec

definition toy_generated :: step_data where
  "toy_generated =
     \<lparr>batch = Some \<lparr>td_size = 3, td_items =
        [(''dummy_tensor'', [[0], [0], [0]]), (''responses'', [[1, 2], [1, 2], [1, 2]]),
         (''attention_mask'', [[1, 1, 1], [1, 1, 1], [1, 1, 1]]), (''response_mask'', [[1, 1], [1, 1], [1, 1]])]\<rparr>,
      non_tensor = [(''uid'', [Str [], Str [], Str []]), (''multi_modal_inputs'', [Str [], Str [], Str []])],
      meta = [(''temperature'', Atom (MetaNumber 1))]\<rparr>"

lemma toy_generation: "generate_stage toy_env (toy_cfg ''grpo'' 3) 2 (toy_prompts (Suc 0)) 0 = Inr (toy_generated, Suc 0)"
  by (simp add: toy_simps toy_generated_def numeral_3_eq_3)

definition toy_scored :: "meta_atom meta_value dict \<Rightarrow> mat dict \<Rightarrow> step_data" where
  "toy_scored m rest =
     \<lparr>batch = Some \<lparr>td_size = 3, td_items =
        [(''dummy_tensor'', [[0], [0], [0]]), (''responses'', [[1, 2], [1, 2], [1, 2]]),
         (''attention_mask'', [[1, 1, 1], [1, 1, 1], [1, 1, 1]]), (''response_mask'', [[1, 1], [1, 1], [1, 1]]),
         (''rm_scores'', [[1, 2], [1, 2], [1, 2]])] @ rest\<rparr>,
      non_tensor = [(''uid'', [Str [], Str [], Str []]), (''multi_modal_inputs'', [Str [], Str [], Str []])], meta = m\<rparr>"

lemma toy_scoring:
  "\<exists>m. scored_batch toy_env (toy_cfg ''grpo'' 3) 2 toy_trainer (toy_prompts (Suc 0)) =
     Inr (toy_scored m [], [[1, 2], [1, 2], [1, 2]], [], [], toy_trainer\<lparr>t_world := Suc 0, t_actor_wg := sample_group\<rparr>)"
  unfolding scored_batch_def toy_trainer_sel toy_generation rbind_simps prod.case balance_stage_def toy_cfg_sel option.case
  by (simp add: toy_generated_def toy_scored_def count_tokens_def tensor_def put_meta_def reward_stage_def merge_call_if_def
      merge_call_def has_tensor_def column_call_def dp_union_def union_tensor_dict_def extract_reward_columns_def meta_texts_def)

lemma toy_evaluation:
  "\<exists>ms. evaluated_batch toy_env (toy_cfg ''grpo'' 3) t (toy_scored m []) =
     Inr (toy_scored m [(''old_log_probs'', [[0, 0], [0, 0], [0, 0]])], ms, t)"
  by (simp add: toy_scored_def evaluated_batch_def old_log_prob_stage_def bypasses_def recompute_log_probs_def merge_call_if_def
      tensor_def has_tensor_def column_call_def dp_union_def union_tensor_dict_def drop_tensor_def agg_loss_def default_info_def
      required_count_def)

lemma toy_advantages:
  "\<exists>B ms t'. advantage_stage toy_env (toy_cfg ''grpo'' 3) t (toy_scored m [(''old_log_probs'', [[0, 0], [0, 0], [0, 0]])])
     [[1, 2], [1, 2], [1, 2]] [] = Inr (B, ms, t') \<and> \<not> has_tensor B ''rollout_log_probs''"
  by (simp add: toy_scored_def advantage_stage_def plain_stages token_rewards_def set_tensor_def tensor_def has_tensor_def
      put_columns_def compute_advantage_def with_response_mask_def uids_of_def compute_grpo_outcome_advantage_def
      store_advantages_def Let_def outcome_scores_def spread_scores_def)

lemma toy_step:
  "\<exists>B ms t1. prepare_step toy_env ((toy_cfg ''grpo'' 3)\<lparr>s_balance := None\<rparr>) 2 toy_trainer (toy_prompts (Suc 0)) = Inr (B, ms, t1) \<and>
     \<not> has_tensor B ''rollout_log_probs''"
proof -
  have cfg: "(toy_cfg ''grpo'' 3)\<lparr>s_balance := None\<rparr> = toy_cfg ''grpo'' 3" by (simp add: toy_cfg_def)
  let ?t = "toy_trainer\<lparr>t_world := Suc 0, t_actor_wg := sample_group\<rparr>"
  obtain m where s: "scored_batch toy_env (toy_cfg ''grpo'' 3) 2 toy_trainer (toy_prompts (Suc 0)) =
     Inr (toy_scored m [], [[1, 2], [1, 2], [1, 2]], [], [], ?t)" using toy_scoring by blast
  obtain ms where e: "evaluated_batch toy_env (toy_cfg ''grpo'' 3) ?t (toy_scored m []) =
     Inr (toy_scored m [(''old_log_probs'', [[0, 0], [0, 0], [0, 0]])], ms, ?t)" using toy_evaluation by blast
  obtain B ms' t' where a: "advantage_stage toy_env (toy_cfg ''grpo'' 3) ?t (toy_scored m [(''old_log_probs'', [[0, 0], [0, 0], [0, 0]])])
     [[1, 2], [1, 2], [1, 2]] [] = Inr (B, ms', t')" "\<not> has_tensor B ''rollout_log_probs''" using toy_advantages by blast
  show ?thesis unfolding cfg prepare_step_def s rbind_simps prod.case e a(1) using a(2) by simp
qed

lemma toy_generated_batch:
  "wf_dp toy_generated" "dp_len toy_generated = 3"
  "batch toy_generated = Some \<lparr>td_size = 3, td_items =
        [(''dummy_tensor'', [[0], [0], [0]]), (''responses'', [[1, 2], [1, 2], [1, 2]]),
         (''attention_mask'', [[1, 1, 1], [1, 1, 1], [1, 1, 1]]), (''response_mask'', [[1, 1], [1, 1], [1, 1]])]\<rparr>"
  by (simp_all add: toy_generated_def wf_dp_def dp_len_def)

lemma balancing_only_reorders_witness:
  "\<exists>B ms t1 idx B' ms' wg. prepare_step toy_env ((toy_cfg ''grpo'' 3)\<lparr>s_balance := None\<rparr>) 2 toy_trainer (toy_prompts (Suc 0)) = Inr (B, ms, t1) \<and>
     prepare_step toy_env ((toy_cfg ''grpo'' 3)\<lparr>s_balance := Some default_balance\<rparr>) 2 toy_trainer (toy_prompts (Suc 0)) =
       Inr (B', ms', t1\<lparr>t_actor_wg := wg\<rparr>) \<and> mset idx = mset [0..<dp_len B] \<and> reordered idx B B'"
proof -
  obtain B ms t1 where run: "prepare_step toy_env ((toy_cfg ''grpo'' 3)\<lparr>s_balance := None\<rparr>) 2 toy_trainer (toy_prompts (Suc 0)) = Inr (B, ms, t1)"
      "\<not> has_tensor B ''rollout_log_probs''" using toy_step by blast
  have reg: "registered ''actor'' (map (\<lambda>r. r div 2) [0..<3 * 2]) (map (\<lambda>r. r mod 2 = 0) [0..<3 * 2]) (t_actor_wg toy_trainer)"
    by (simp add: registered_def sample_group_def comp_def)
  have calls: "rowwise (e_reward_model toy_env)" "rowwise (e_log_prob toy_env)" "s_use_ref (toy_cfg ''grpo'' 3) \<Longrightarrow> rowwise (e_ref_log_prob toy_env)"
    by (simp_all add: rowwise_column_call)
  have gen: "generate_stage toy_env (toy_cfg ''grpo'' 3) 2 (toy_prompts (Suc 0)) (t_world toy_trainer) = Inr (toy_generated, Suc 0)"
    using toy_generation by simp
  have att: "map_of (td_items \<lparr>td_size = 3, td_items =
        [(''dummy_tensor'', [[0], [0], [0]]), (''responses'', [[1, 2], [1, 2], [1, 2]]),
         (''attention_mask'', [[1, 1, 1], [1, 1, 1], [1, 1, 1]]), (''response_mask'', [[1, 1], [1, 1], [1, 1 :: real]])]\<rparr>) ''attention_mask'' =
      Some [[1, 1, 1], [1, 1, 1], [1, 1, 1]]" by simp
  have "\<exists>idx B' ms' wg. prepare_step toy_env ((toy_cfg ''grpo'' 3)\<lparr>s_balance := Some default_balance\<rparr>) 2 toy_trainer (toy_prompts (Suc 0)) =
       Inr (B', ms', t1\<lparr>t_actor_wg := wg\<rparr>) \<and> mset idx = mset [0..<dp_len B] \<and> reordered idx B B'"
    by (rule balancing_only_reorders [OF run(1) _ _ _ _ calls run(2) gen toy_generated_batch(1,3) att _ _ _ reg mesh_layout])
      (simp_all add: toy_generated_batch(2) row_tokens_def default_balance_def)
  then show ?thesis using run(1) by blast
qed

text \<open>Two prompts with two samples each.\<close>

definition toy_pair :: step_data where
  "toy_pair = (toy_prompts 2)\<lparr>non_tensor := [(''raw_prompt'', [Str ''p'', Str ''q''])]\<rparr>"

lemma rollout_groups_witness:
  "\<exists>d s samples out s1. generate_stage toy_env (toy_cfg ''grpo'' 2) 2 toy_pair 0 = Inr (d, s) \<and>
     uids_of d = Some [[], [], ''u'', ''u''] \<and> e_generate toy_env samples 0 = Inr (out, s1) \<and>
     map_of (non_tensor samples) ''raw_prompt'' = Some [Str ''p'', Str ''p'', Str ''q'', Str ''q'']"
proof -
  obtain d s where run: "generate_stage toy_env (toy_cfg ''grpo'' 2) 2 toy_pair 0 = Inr (d, s)"
    by (simp add: toy_pair_def toy_simps numeral_2_eq_2)
  have wf: "wf_dp toy_pair" and len: "dp_len toy_pair = 2"
    and col: "map_of (non_tensor toy_pair) ''raw_prompt'' = Some [Str ''p'', Str ''q'']"
    by (simp_all add: toy_pair_def toy_prompts_def wf_dp_def dp_len_def)
  have "inj_on (e_uuid toy_env) {..<dp_len toy_pair}" by (auto intro!: inj_onI dest: arg_cong [of _ _ length])
  note groups = rollout_groups [OF run wf this, unfolded Let_def len toy_cfg_sel]
  have own: "map (\<lambda>i. i div 2) [0..<2 * 2] = [0, 0, 1, 1 :: nat]" by (simp add: upt_rec)
  show ?thesis using run groups col unfolding own by (force simp: take_rows_def numeral_2_eq_2)
qed

lemma remax_scores_baseline_witness:
  "\<exists>d rewards info ms t'. scored_batch toy_env (toy_cfg ''remax'' 2) 2 toy_trainer (toy_prompts (Suc 0)) = Inr (d, rewards, info, ms, t') \<and>
     tensor d ''reward_baselines'' = Inr (map (\<lambda>row. [sum_list row]) rewards)"
proof -
  have "\<exists>d rewards info ms t'. scored_batch toy_env (toy_cfg ''remax'' 2) 2 toy_trainer (toy_prompts (Suc 0)) = Inr (d, rewards, info, ms, t')"
    by (simp add: scored_batch_def balance_stage_def count_tokens_def reward_stage_def extract_reward_columns_def meta_texts_def
        merge_call_if_def merge_call_def remax_baseline_def keys_def toy_simps)
  then obtain d rewards info ms t' where run: "scored_batch toy_env (toy_cfg ''remax'' 2) 2 toy_trainer (toy_prompts (Suc 0)) = Inr (d, rewards, info, ms, t')"
    by blast
  have "\<not> has_tensor (toy_prompts (Suc 0)) ''rm_scores''" by (simp add: toy_prompts_def has_tensor_def)
  moreover have "\<not> has_tensor r ''rm_scores''" if "e_generate toy_env x s = Inr (r, s')" for x s r s'
    using that by (auto simp: toy_generate_def Let_def has_tensor_def)
  ultimately show ?thesis using remax_scores_baseline [OF run] run by (auto simp: estimator_name.simps)
qed

end
