(* ===== verification/Spec2Isabelle.thy ===== *)
theory Spec2Isabelle
  imports Dynamic_Batch Message_Queue Replay_Pool Advantage_Properties Policy_Loss_Properties
    Teacher_Batch Balance_Batch Trainer_Properties Rollout_Pipeline Actor_Accumulation
    Reward_Loop_Properties Metrics_Properties Load_Balancer Agent_Output_Properties
    Tool_Parser_Properties Answer_Scores_Properties Train_Step_Properties
begin

text \<open>
  A verification development for the reinforcement-learning core of the repository: the trainer \<open>verl\<close>
  with the self-distillation policy optimisation (SDPO) built on it. All paths below are under \<open>src/\<close>.

  \<^bold>\<open>The program.\<close> A training step samples responses for a batch of prompts, scores them, and updates
  the policy. The batch is a \<open>DataProto\<close> (\<open>verl/protocol.py\<close>), which travels between the trainer and the
  workers through the single controller (\<open>verl/single_controller/base/decorator.py\<close>): a call is cut into
  one shard per data-parallel rank, executed, and the outputs are concatenated. Before the dispatch
  \<open>_balance_batch\<close> reorders the batch so that the ranks get equal work
  (\<open>verl/utils/seqlen_balancing.py\<close>). The trainer (\<open>verl/trainer/ppo/ray_trainer.py\<close>) subtracts a KL
  penalty from the rewards, computes advantages (\<open>verl/trainer/ppo/core_algos.py\<close>) and, for SDPO, builds
  the teacher batch, in which a sample's prompt is extended by a successful response of its own group or
  by the feedback of the environment. The actor computes a policy loss, or the distance between the
  student's and the teacher's distributions, on micro-batches of bounded token count
  (\<open>verl/workers/actor/dp_actor.py\<close>), and steps its optimizer. Responses come from agent loops
  (\<open>verl/experimental/agent_loop\<close>): an agent sends its tokens to one of several inference servers, executes
  the tool calls it finds in the answer and goes on until a budget is used up, and the outputs are padded
  into a batch. Rewards come from a reward manager or from the asynchronous reward loop, which score a
  decoded response with the rule-based functions of \<open>verl/utils/reward_score\<close> under a rate limit. Each
  step reports metrics of the batch. Two experimental paths have a buffer of their own: the message queue
  of the fully asynchronous trainer and the replay pool of the soft actor critic.

  \<^bold>\<open>The theories.\<close>
  \<^item> \<open>Verl_Base\<close>: exceptions as a datatype, results as sums, and the lemmas on lists, sums and index lists
    that the components share.
  \<^item> \<open>Heapq\<close>, \<open>Karmarkar_Karp\<close>, \<open>Seqlen_Balancing\<close>, \<open>Dynamic_Batch\<close>: \<open>verl/utils/seqlen_balancing.py\<close>.
    The heap of Python's \<open>heapq\<close> implements the locale of priority queues; \<open>karmarkar_karp\<close> and
    \<open>greedy_partition\<close> implement the locale \<open>partitioner\<close>. Every merge of partial solutions keeps the
    items and the spread, so \<open>get_seqlen_balanced_partitions\<close> returns a balanced partition whenever its
    precondition holds, and raises a stated exception otherwise. \<open>rearrange_micro_batches\<close> returns, its
    micro-batches partition the batch, and \<open>restore_dynamic_batch\<close> undoes it.
  \<^item> \<open>Message_Queue\<close>: \<open>verl/experimental/fully_async_policy/message_queue.py\<close>. The methods are functions on
    the actor's state; producers, consumers and wake-ups are the step relation \<open>mq_step\<close>. Invariants over
    the reachable states account for every sample, give first-in first-out delivery and exclude a lost
    wake-up; the locale \<open>lossy_fifo\<close> is the contract for clients.
  \<^item> \<open>Replay_Pool\<close>: \<open>verl/experimental/vla/sac/replay_pool.py\<close>, a ring buffer that refines the list of the
    latest rows written.
  \<^item> \<open>Torch_Functional\<close>: \<open>verl/utils/torch_functional.py\<close> and \<open>verl/utils/groupwise.py\<close>.
  \<^item> \<open>Advantages\<close>, \<open>Advantage_Properties\<close>: the estimators of \<open>core_algos.py\<close>, their registry, the KL
    controllers; closed forms, centring of groups, agreement of the vectorised versions with the loops.
  \<^item> \<open>Policy_Losses\<close>, \<open>Policy_Loss_Properties\<close>: aggregation, the registered losses, value and entropy
    losses, KL estimators; invariance of the aggregation under sharding, closed form of dual clipping.
  \<^item> \<open>Self_Distillation\<close>: \<open>compute_self_distillation_loss\<close>, \<open>SelfDistillationConfig\<close>
    (\<open>verl/workers/config/actor.py\<close>) and the teachers of \<open>verl/workers/actor/dp_actor.py\<close>: the loss is a
    divergence, truncation to the top k tokens gives probability distributions, the moving average converges.
  \<^item> \<open>Py_String\<close>, \<open>Teacher_Batch\<close>: the string operations of Python the trainer uses, and
    \<open>_maybe_build_self_distillation_batch\<close> of \<open>ray_trainer.py\<close> with its helpers: a sample is shown solutions
    of its own group only, the mask selects exactly the reprompted samples that are not skipped, and the
    message of a reprompted sample is the filled template.
  \<^item> \<open>Data_Proto\<close>, \<open>Data_Proto_Properties\<close>: the container, its invariant \<open>wf_dp\<close>, which the calls of
    \<open>dp_step\<close> keep (concatenation without tensors keeps it only for parts with the same arrays), and the
    round trips of chunking, splitting and padding.
  \<^item> \<open>Dispatch\<close>, \<open>Dispatch_Properties\<close>: the decorator, the dispatch and collect functions, futures; a
    dispatched call returns what one call on the whole batch would.
  \<^item> \<open>Balance_Batch\<close>: \<open>_balance_batch\<close> of \<open>ray_trainer.py\<close>, composed with the partitioner and the dispatch.
  \<^item> \<open>Trainer_Steps\<close>, \<open>Trainer_Properties\<close>: \<open>apply_kl_penalty\<close>, \<open>compute_response_mask\<close>,
    \<open>compute_advantage\<close> on the container and the resampling of PF-PPO.
  \<^item> \<open>Py_Number\<close>, \<open>Rollout_Correction\<close>, \<open>Rollout_Correction_Properties\<close>, \<open>Rollout_Pipeline\<close>:
    \<open>verl/trainer/ppo/rollout_corr_helper.py\<close>, its configuration presets and the bypass loss of
    \<open>core_algos.py\<close>: parsing of options and thresholds, rejection, truncated importance weights and all
    metrics; a token survives exactly when every option accepts it (a \<open>k1\<close> option bounds the inverse of the
    documented ratio), the group mean of normalised weights is one, agreeing policies are left alone, every
    preset runs.
  \<^item> \<open>Actor_Forward\<close>, \<open>Actor_Forward_Properties\<close>, \<open>Actor_Update\<close>, \<open>Actor_Update_Properties\<close>,
    \<open>Actor_Accumulation\<close>: \<open>verl/workers/actor/dp_actor.py\<close>. The network is a parameter. The forward pass
    with and without padding, the log-probabilities of a batch in micro-batches, \<open>update_policy\<close> and the
    optimizer step. Both forward passes agree, the dynamic batching of \<open>compute_log_prob\<close> does not change its
    result, and for losses averaged over sequences the accumulated loss of the micro-batches is the loss of
    the mini-batch; for the default \<open>token-mean\<close> it is not (\<open>token_mean_not_exact\<close>).
  \<^item> \<open>Train_Step\<close>, \<open>Train_Step_Properties\<close>: one step of \<open>fit\<close> (\<open>verl/trainer/ppo/ray_trainer.py\<close>), which
    composes the components above in the order of the code: identifiers, rollout, ReMax baseline, balancing,
    rewards, log-probabilities, values, teacher batch, KL penalty, rollout correction, advantages, updates,
    metrics. The calls of the workers are parameters with a state of their own. The relation \<open>reordered\<close> is a
    simulation that every stage keeps, so balancing only permutes the rows of the batch the actor is updated
    with; the rows generated for a prompt carry its data and its identifier; under ReMax with a colocated reward model the responses are
    given the rewards of the baseline.
  \<^item> \<open>Token_Bucket\<close>, \<open>Token_Bucket_Properties\<close>: the rate limiter of
    \<open>verl/experimental/reward_loop/reward_manager/limited.py\<close>. The loop of \<open>acquire\<close> returns for a request
    within the capacity, and the tokens granted in a window of time are bounded.
  \<^item> \<open>Reward_Managers\<close>: the managers of \<open>verl/workers/reward_manager\<close>; the reward of a response stands on
    its last valid token and nowhere else.
  \<^item> \<open>Reward_Loop\<close>, \<open>Reward_Loop_Properties\<close>: \<open>verl/experimental/reward_loop\<close> and the reward manager's
    loading in \<open>verl/trainer/ppo/reward.py\<close>: dispatch to workers, timeouts, scores returned in order.
  \<^item> \<open>Metrics\<close>, \<open>Metrics_Properties\<close>: \<open>verl/trainer/ppo/metric_utils.py\<close> and
    \<open>verl/utils/metric/utils.py\<close>: data, timing and throughput metrics, diagnostics of the log-ratio, the
    validation metrics with their bootstrap and majority vote, aggregation over data-parallel ranks.
  \<^item> \<open>Tool_Agent\<close>, \<open>Tool_Agent_Properties\<close>: the state machine of
    \<open>verl/experimental/agent_loop/tool_agent_loop.py\<close>. The run returns when turns are bounded or every
    generation makes progress, and its token ids, mask and log-probabilities record the conversation: mask 1
    exactly on the tokens the server generated.
  \<^item> \<open>Load_Balancer\<close>, \<open>Agent_Output\<close>, \<open>Agent_Output_Properties\<close>: the request balancer, the single-turn
    agent and the padding and batching of agent outputs of \<open>agent_loop.py\<close>; removing the padding of a row
    gives back the agent's prompt and response, and runs with responses, padded to the loop's response length,
    form a batch.
  \<^item> \<open>Tool_Parser\<close>, \<open>Tool_Parser_Properties\<close>: \<open>verl/experimental/agent_loop/tool_parser.py\<close>; parsing the
    rendering of content and calls gives them back.
  \<^item> \<open>Py_Regex\<close>, \<open>Feedback_Scores\<close>, \<open>Feedback_Scores_Properties\<close>, \<open>Answer_Scores\<close>,
    \<open>Answer_Scores_Properties\<close>: the patterns of the reward functions as a backtracking matcher, the scores
    with feedback of \<open>verl/utils/reward_score/feedback\<close> and the rule-based scores beside it: the last boxed
    answer alone decides, the scores lie in their ranges.

  \<^bold>\<open>Correspondence.\<close> A class is a \<open>record\<close>, an enumeration a \<open>datatype\<close>, a method a function of the state that
  returns the new state; an exception is an \<open>Inl\<close>, so every \<open>raise\<close> and failed \<open>assert\<close> is a branch.
  Dictionaries whose order or duplicates matter are association lists. Definitions keep the names of the
  source. Code outside the repository is a parameter of the definitions that use it, with its documented
  behaviour as a named hypothesis where a property needs one: tokenizers and chat templates, models, the
  optimizer and automatic differentiation, collective operations, \<open>randperm\<close>, the choice of \<open>topk\<close> among
  equal elements, the methods of remote workers, inference servers, tools, JSON decoding, the graders and
  judges outside the repository, the clock.

  \<^bold>\<open>Idealisations.\<close> A floating-point number is a real number: rounding, overflow and NaN are not modelled,
  and division by zero, where the code would produce NaN or infinity, is zero; properties that depend on
  it assume the denominators positive. Sequence lengths and token ids are unbounded integers. A string is
  a list of code points below 256. A tensor is the list of its rows; devices, dtypes and gradients are not
  modelled, and \<open>detach\<close> is the identity. A \<open>TensorDict\<close> follows its documentation.

  \<^bold>\<open>Termination.\<close> No fuel bounds a loop of the program: a loop is a structural recursion, or a recursion on a
  measure proved to decrease (the heap sifts, the merges of the partitioner, the replacement and splitting
  of strings, the searches of a pattern). Two loops may wait for
  something outside, the state machine of the tool agent and the polling of the token bucket: they are
  partial functions into \<open>option\<close>, and that they return is a theorem. Waiting in the message queue is a
  state of the step relation, and the release of every waiting consumer after a shutdown is a theorem.

  \<^bold>\<open>Not modelled.\<close> The schedule of the training loop around its steps (validation, checkpoints, resumption)
  and the worker processes (FSDP, Megatron, Torchtitan, Veomni), which call external frameworks in nearly
  every line; the inference servers; model implementations, kernels, quantisation and weight conversion;
  checkpoint engines; data sets, the tools and interactions themselves; the vision-language-action models;
  vendored PyTorch code; profiling, benchmarks and scripts.
  Of \<open>protocol.py\<close>, serialisation to bytes and files, \<open>TensorDict\<close> conversion and the folding of batch
  dimensions. Of the actor, sequence
  parallelism, fused kernels, the prefix grouper and the scaling of the loss in half precision. Of the
  agent loop, images and videos, tracing and the start of the servers. Of the reward functions, those
  that run code or call graders (\<open>prime_math\<close>, \<open>prime_code\<close>, \<open>sandbox_fusion\<close>) and \<open>rlla\<close>. Of the metrics,
  the leakage of responses.
\<close>

end
